(* ===== verification/Prelude.thy ===== *)
theory Prelude
  imports Main "HOL-Library.Char_ord" "HOL-Library.List_Lexorder"
begin

text \<open>
  Shared vocabulary of the development: the collections of rewrite rules that
  the component theories fill and use, the decimal rendering of integers
  (JavaScript's BigInt.prototype.toString), and generic facts about lists.

  Integers of the source (bigint and integral number values) are HOL integers,
  strings are lists of characters, a value that may be null or undefined is
  an option, and a date is the number of milliseconds since the epoch.
\<close>

named_theorems wp_eqs "weakest precondition equations of the effect combinators"
named_theorems keeps_intros "preservation rules of the effect combinators"
named_theorems table_simps "equations of the table operations"

section \<open>Decimal rendering\<close>

text \<open>Digits of a non-negative integer, most significant first; the code calls
  toString on a bigint.\<close>

definition digit_char :: "nat \<Rightarrow> char" where
  "digit_char d = char_of (48 + d)"

fun nat_digits :: "nat \<Rightarrow> string" where
  "nat_digits n = (if n < 10 then [digit_char n]
                   else nat_digits (n div 10) @ [digit_char (n mod 10)])"

declare nat_digits.simps [simp del]

definition int_to_string :: "int \<Rightarrow> string" where
  "int_to_string i = (if i < 0 then CHR ''-'' # nat_digits (nat (- i)) else nat_digits (nat i))"

lemma digit_char_inj: "a < 10 \<Longrightarrow> b < 10 \<Longrightarrow> digit_char a = digit_char b \<Longrightarrow> a = b"
proof -
  assume "a < 10" "b < 10" "digit_char a = digit_char b"
  then have "of_char (char_of (48 + a) :: char) = (of_char (char_of (48 + b) :: char) :: nat)"
    by (simp add: digit_char_def)
  with \<open>a < 10\<close> \<open>b < 10\<close> show "a = b" by simp
qed

lemma digit_char_neq_minus: "d < 10 \<Longrightarrow> digit_char d \<noteq> CHR ''-''"
proof
  assume "d < 10" "digit_char d = CHR ''-''"
  then have "of_char (char_of (48 + d) :: char) = (of_char (CHR ''-'') :: nat)"
    by (simp add: digit_char_def)
  with \<open>d < 10\<close> show False by simp
qed

lemma nat_digits_nonempty [simp]: "nat_digits n \<noteq> []"
  by (subst nat_digits.simps) simp

lemma nat_digits_inj: "nat_digits m = nat_digits n \<Longrightarrow> m = n"
proof (induction m arbitrary: n rule: nat_digits.induct)
  case (1 m)
  show ?case
  proof (cases "m < 10")
    case True
    show ?thesis
    proof (cases "n < 10")
      case True
      with \<open>m < 10\<close> 1(2) show ?thesis
        by (auto simp: nat_digits.simps [of m] nat_digits.simps [of n] dest: digit_char_inj)
    next
      case False
      with \<open>m < 10\<close> 1(2) show ?thesis
        by (auto simp: nat_digits.simps [of m] nat_digits.simps [of n] append_eq_Cons_conv
                 dest: sym)
    qed
  next
    case False
    show ?thesis
    proof (cases "n < 10")
      case True
      with False 1(2) show ?thesis
        by (auto simp: nat_digits.simps [of m] nat_digits.simps [of n] append_eq_Cons_conv)
    next
      case n: False
      with False 1(2) have "nat_digits (m div 10) = nat_digits (n div 10)"
        and "digit_char (m mod 10) = digit_char (n mod 10)"
        by (auto simp: nat_digits.simps [of m] nat_digits.simps [of n])
      with 1(1) [OF False] have "m div 10 = n div 10" and "m mod 10 = n mod 10"
        by (auto intro: digit_char_inj)
      then show ?thesis by (metis div_mult_mod_eq)
    qed
  qed
qed

lemma nat_digits_no_minus: "CHR ''-'' \<notin> set (nat_digits n)"
proof (induction n rule: nat_digits.induct)
  case (1 n)
  have eq: "CHR ''-'' = digit_char d \<longleftrightarrow> False" if "d < 10" for d
    using digit_char_neq_minus [OF that] by metis
  show ?case
    by (subst nat_digits.simps) (use 1 in \<open>simp add: eq\<close>)
qed

lemma int_to_string_inj [simp]: "int_to_string i = int_to_string j \<longleftrightarrow> i = j"
proof
  assume h: "int_to_string i = int_to_string j"
  have neq: "CHR ''-'' # xs \<noteq> nat_digits n" for xs n
    using nat_digits_no_minus [of n] by (metis list.set_intros(1))
  show "i = j"
    using h by (auto simp: int_to_string_def neq neq [THEN not_sym] split: if_splits
                     dest: nat_digits_inj)
qed simp

section \<open>Lists\<close>

lemma sum_list_map_if_update:
  fixes f :: "'a \<Rightarrow> int"
  assumes "distinct (map k xs)" "x \<in> set xs"
  shows "sum_list (map (\<lambda>y. if k y = k x then v else f y) xs) = sum_list (map f xs) - f x + v"
  using assms
proof (induction xs)
  case (Cons a xs)
  show ?case
  proof (cases "a = x")
    case True
    have "sum_list (map (\<lambda>y. if k y = k x then v else f y) xs) = sum_list (map f xs)"
      by (rule arg_cong [of _ _ sum_list], rule map_cong)
         (use Cons.prems(1) True in \<open>auto simp: image_iff\<close>)
    then show ?thesis using True by simp
  next
    case False
    then have "k a \<noteq> k x" using Cons.prems by (auto simp: image_iff)
    then show ?thesis using Cons False by simp
  qed
qed simp

lemma sum_list_nonneg_int: "\<forall>x\<in>set xs. 0 \<le> (x::int) \<Longrightarrow> 0 \<le> sum_list xs"
  by (induction xs) auto

lemma sorted_wrt_map_filter: "sorted_wrt R (map f xs) \<Longrightarrow> sorted_wrt R (map f (filter P xs))"
  by (induction xs) (auto simp: image_iff)

lemma find_eq_Some_distinct:
  assumes "distinct (map k xs)" "x \<in> set xs"
  shows "List.find (\<lambda>y. k y = k x) xs = Some x"
  using assms by (induction xs) (auto simp: image_iff)

lemma find_map_preserving:
  assumes "\<And>y. P (f y) = P y"
  shows "List.find P (map f xs) = map_option f (List.find P xs)"
  using assms by (induction xs) auto

lemma find_append: "List.find P (xs @ ys) = (case List.find P xs of None \<Rightarrow> List.find P ys | Some x \<Rightarrow> Some x)"
  by (induction xs) auto

lemma find_Some_in: "List.find P xs = Some x \<Longrightarrow> x \<in> set xs \<and> P x"
  by (induction xs) (auto split: if_splits)

end
