(* ===== verification/Errors.thy ===== *)
theory Errors
  imports Prelude
begin

text \<open>
  The error values of the API.  error_code is the ErrorCode enumeration of
  common/types/response.types.ts, exn the exceptions the code throws or lets
  through (a NestJS HttpException with its response body, a Prisma known request
  error, a Zod validation error, a plain JavaScript Error), and the second half is
  the global filter of common/filters/all-exceptions.filter.ts, which turns every
  exception into a status and an error body, with the success wrapper of
  common/interceptors/response.interceptor.ts.  The lemmas show that codes are
  distinct on the wire, that the filter keeps a thrown code and status, and that a
  production server never repeats the message of an unknown error.
\<close>

datatype error_code =
    VALIDATION_ERROR
  | UNAUTHORIZED
  | FORBIDDEN
  | NOT_FOUND
  | CONFLICT
  | RATE_LIMITED
  | IDEMPOTENCY_KEY_REQUIRED
  | IDEMPOTENCY_KEY_REUSED
  | SESSION_INVALID
  | SESSION_EXPIRED
  | SESSION_REPLAY
  | OTP_RATE_LIMITED
  | OTP_TOO_MANY_ATTEMPTS
  | OTP_NOT_FOUND
  | OTP_EXPIRED
  | OTP_INVALID
  | INTERNAL_ERROR
  | CANNOT_REMOVE_BOOTSTRAP_ADMIN
  | INVALID_STATUS_TRANSITION
  | LISTING_NOT_FOUND
  | ADMIN_CONFIRM_REQUIRED
  | CANNOT_IMPERSONATE_SUPER_ADMIN
  | CANNOT_NEST_IMPERSONATION
  | IMPERSONATION_ENDED
  | FILE_TOO_LARGE
  | MIME_NOT_ALLOWED
  | MIME_MISMATCH
  | SVG_UNSAFE_CONTENT
  | GONE
  | EMAIL_PROVIDER_NOT_CONFIGURED
  | INSUFFICIENT_FUNDS
  | BALANCE_MISMATCH
  | INVALID_IBAN
  | PAYOUT_NOT_PENDING
  | PAYOUT_NOT_APPROVED
  | PAYMENT_INITIATION_FAILED
  | PAYMENT_VERIFICATION_FAILED
  | REFUND_NOT_SUPPORTED_BY_PROVIDER
  | INVALID_CALLBACK
  | REFUND_AMOUNT_EXCEEDS_AVAILABLE
  | CANNOT_REFUND_INSUFFICIENT_BALANCE
  | REFUND_NOT_PENDING
  | PAYMENT_NOT_REFUNDABLE
  | MODULE_BOOT_FAILED
  | CANNOT_BUY_OWN_LISTING
  | ALREADY_OWNED
  | LISTING_NOT_PURCHASABLE
  | INVALID_RUN_PACK
  | EMPTY_CART
  | CHECKOUT_VALIDATION_FAILED
  | ACCESS_DENIED_NOT_OWNER
  | BUNDLE_NOT_AVAILABLE
  | INVALID_API_KEY
  | INSUFFICIENT_RUNS
  | SLUG_TAKEN
  | INVALID_PACKS
  | MAKER_QUOTA_EXCEEDED

primrec code_string :: "error_code \<Rightarrow> string" where
  "code_string VALIDATION_ERROR = ''VALIDATION_ERROR''"
| "code_string UNAUTHORIZED = ''UNAUTHORIZED''"
| "code_string FORBIDDEN = ''FORBIDDEN''"
| "code_string NOT_FOUND = ''NOT_FOUND''"
| "code_string CONFLICT = ''CONFLICT''"
| "code_string RATE_LIMITED = ''RATE_LIMITED''"
| "code_string IDEMPOTENCY_KEY_REQUIRED = ''IDEMPOTENCY_KEY_REQUIRED''"
| "code_string IDEMPOTENCY_KEY_REUSED = ''IDEMPOTENCY_KEY_REUSED''"
| "code_string SESSION_INVALID = ''SESSION_INVALID''"
| "code_string SESSION_EXPIRED = ''SESSION_EXPIRED''"
| "code_string SESSION_REPLAY = ''SESSION_REPLAY''"
| "code_string OTP_RATE_LIMITED = ''OTP_RATE_LIMITED''"
| "code_string OTP_TOO_MANY_ATTEMPTS = ''OTP_TOO_MANY_ATTEMPTS''"
| "code_string OTP_NOT_FOUND = ''OTP_NOT_FOUND''"
| "code_string OTP_EXPIRED = ''OTP_EXPIRED''"
| "code_string OTP_INVALID = ''OTP_INVALID''"
| "code_string INTERNAL_ERROR = ''INTERNAL_ERROR''"
| "code_string CANNOT_REMOVE_BOOTSTRAP_ADMIN = ''CANNOT_REMOVE_BOOTSTRAP_ADMIN''"
| "code_string INVALID_STATUS_TRANSITION = ''INVALID_STATUS_TRANSITION''"
| "code_string LISTING_NOT_FOUND = ''LISTING_NOT_FOUND''"
| "code_string ADMIN_CONFIRM_REQUIRED = ''ADMIN_CONFIRM_REQUIRED''"
| "code_string CANNOT_IMPERSONATE_SUPER_ADMIN = ''CANNOT_IMPERSONATE_SUPER_ADMIN''"
| "code_string CANNOT_NEST_IMPERSONATION = ''CANNOT_NEST_IMPERSONATION''"
| "code_string IMPERSONATION_ENDED = ''IMPERSONATION_ENDED''"
| "code_string FILE_TOO_LARGE = ''FILE_TOO_LARGE''"
| "code_string MIME_NOT_ALLOWED = ''MIME_NOT_ALLOWED''"
| "code_string MIME_MISMATCH = ''MIME_MISMATCH''"
| "code_string SVG_UNSAFE_CONTENT = ''SVG_UNSAFE_CONTENT''"
| "code_string GONE = ''GONE''"
| "code_string EMAIL_PROVIDER_NOT_CONFIGURED = ''EMAIL_PROVIDER_NOT_CONFIGURED''"
| "code_string INSUFFICIENT_FUNDS = ''INSUFFICIENT_FUNDS''"
| "code_string BALANCE_MISMATCH = ''BALANCE_MISMATCH''"
| "code_string INVALID_IBAN = ''INVALID_IBAN''"
| "code_string PAYOUT_NOT_PENDING = ''PAYOUT_NOT_PENDING''"
| "code_string PAYOUT_NOT_APPROVED = ''PAYOUT_NOT_APPROVED''"
| "code_string PAYMENT_INITIATION_FAILED = ''PAYMENT_INITIATION_FAILED''"
| "code_string PAYMENT_VERIFICATION_FAILED = ''PAYMENT_VERIFICATION_FAILED''"
| "code_string REFUND_NOT_SUPPORTED_BY_PROVIDER = ''REFUND_NOT_SUPPORTED_BY_PROVIDER''"
| "code_string INVALID_CALLBACK = ''INVALID_CALLBACK''"
| "code_string REFUND_AMOUNT_EXCEEDS_AVAILABLE = ''REFUND_AMOUNT_EXCEEDS_AVAILABLE''"
| "code_string CANNOT_REFUND_INSUFFICIENT_BALANCE = ''CANNOT_REFUND_INSUFFICIENT_BALANCE''"
| "code_string REFUND_NOT_PENDING = ''REFUND_NOT_PENDING''"
| "code_string PAYMENT_NOT_REFUNDABLE = ''PAYMENT_NOT_REFUNDABLE''"
| "code_string MODULE_BOOT_FAILED = ''MODULE_BOOT_FAILED''"
| "code_string CANNOT_BUY_OWN_LISTING = ''CANNOT_BUY_OWN_LISTING''"
| "code_string ALREADY_OWNED = ''ALREADY_OWNED''"
| "code_string LISTING_NOT_PURCHASABLE = ''LISTING_NOT_PURCHASABLE''"
| "code_string INVALID_RUN_PACK = ''INVALID_RUN_PACK''"
| "code_string EMPTY_CART = ''EMPTY_CART''"
| "code_string CHECKOUT_VALIDATION_FAILED = ''CHECKOUT_VALIDATION_FAILED''"
| "code_string ACCESS_DENIED_NOT_OWNER = ''ACCESS_DENIED_NOT_OWNER''"
| "code_string BUNDLE_NOT_AVAILABLE = ''BUNDLE_NOT_AVAILABLE''"
| "code_string INVALID_API_KEY = ''INVALID_API_KEY''"
| "code_string INSUFFICIENT_RUNS = ''INSUFFICIENT_RUNS''"
| "code_string SLUG_TAKEN = ''SLUG_TAKEN''"
| "code_string INVALID_PACKS = ''INVALID_PACKS''"
| "code_string MAKER_QUOTA_EXCEEDED = ''MAKER_QUOTA_EXCEEDED''"

text \<open>JSON values as the code sees them after parsing or building them: integral
  numbers, bigints (which the server prints as decimal strings), undefined as a value
  of its own, and objects as the list of their own properties in enumeration order.\<close>

datatype json =
    JUndefined
  | JNull
  | JBool bool
  | JNum int
  | JBig int
  | JStr string
  | JArr "json list"
  | JObj "(string \<times> json) list"

definition jget :: "(string \<times> json) list \<Rightarrow> string \<Rightarrow> json" where
  "jget obj k = (case map_of obj k of None \<Rightarrow> JUndefined | Some v \<Rightarrow> v)"

datatype http_response =
    RespString string
  | RespObject "(string \<times> json) list"

record zod_issue =
  zi_path :: "string list"
  zi_message :: string
  zi_code :: string

datatype exn =
    ZodError "zod_issue list"
  | PrismaKnown string json
  | HttpException nat http_response
  | JsError string

text \<open>The form nearly every service throws: an object with a code and a message.\<close>

definition http_exn :: "error_code \<Rightarrow> nat \<Rightarrow> string \<Rightarrow> exn" where
  "http_exn c status msg =
     HttpException status (RespObject [(''code'', JStr (code_string c)), (''message'', JStr msg)])"

definition http_exn_details :: "error_code \<Rightarrow> nat \<Rightarrow> string \<Rightarrow> json \<Rightarrow> exn" where
  "http_exn_details c status msg d =
     HttpException status (RespObject [(''code'', JStr (code_string c)), (''message'', JStr msg),
                                       (''details'', d)])"

section \<open>The exception filter\<close>

record mapped_exception =
  me_status :: nat
  me_code :: string
  me_message :: string
  me_details :: json

definition mapHttpToCode :: "nat \<Rightarrow> string" where
  "mapHttpToCode status =
     code_string (if status = 400 then VALIDATION_ERROR
                  else if status = 401 then UNAUTHORIZED
                  else if status = 403 then FORBIDDEN
                  else if status = 404 then NOT_FOUND
                  else if status = 409 then CONFLICT
                  else if status = 410 then GONE
                  else if status = 429 then RATE_LIMITED
                  else INTERNAL_ERROR)"

definition mapZodError :: "zod_issue list \<Rightarrow> mapped_exception" where
  "mapZodError issues =
     \<lparr>me_status = 400, me_code = code_string VALIDATION_ERROR,
      me_message = ''Request validation failed'',
      me_details = JObj [(''fields'', JArr (map (\<lambda>i.
        JObj [(''path'', JArr (map JStr (zi_path i))), (''message'', JStr (zi_message i)),
              (''code'', JStr (zi_code i))]) issues))]\<rparr>"

definition mapPrismaError :: "string \<Rightarrow> json \<Rightarrow> mapped_exception" where
  "mapPrismaError code target =
     (if code = ''P2002'' then
        \<lparr>me_status = 409, me_code = code_string CONFLICT,
         me_message = ''A record with this unique value already exists'',
         me_details = (if target \<noteq> JUndefined then JObj [(''target'', target)] else JUndefined)\<rparr>
      else if code = ''P2025'' then
        \<lparr>me_status = 404, me_code = code_string NOT_FOUND,
         me_message = ''The requested record was not found'', me_details = JUndefined\<rparr>
      else if code = ''P2003'' then
        \<lparr>me_status = 409, me_code = code_string CONFLICT,
         me_message = ''Foreign key constraint violation'', me_details = JUndefined\<rparr>
      else
        \<lparr>me_status = 500, me_code = code_string INTERNAL_ERROR,
         me_message = ''Database error'', me_details = JObj [(''prismaCode'', JStr code)]\<rparr>)"

text \<open>rawMessage.join joins the entries with a comma and a blank; non-string entries
  are printed by a conversion that is a parameter here.\<close>

fun join_comma :: "string list \<Rightarrow> string" where
  "join_comma [] = []"
| "join_comma [x] = x"
| "join_comma (x # y # xs) = x @ '', '' @ join_comma (y # xs)"

definition unpackHttpResponse ::
    "(json \<Rightarrow> string) \<Rightarrow> http_response \<Rightarrow> string \<Rightarrow> nat \<Rightarrow> string \<times> string \<times> json" where
  "unpackHttpResponse show_json response fallbackMessage status =
     (case response of
        RespString s \<Rightarrow> (mapHttpToCode status, s, JUndefined)
      | RespObject r \<Rightarrow>
          (case jget r ''code'' of JStr c \<Rightarrow> c | _ \<Rightarrow> mapHttpToCode status,
           case jget r ''message'' of JStr m \<Rightarrow> m
             | JArr ms \<Rightarrow> join_comma (map show_json ms)
             | _ \<Rightarrow> fallbackMessage,
           jget r ''details''))"

definition mapHttpException ::
    "(json \<Rightarrow> string) \<Rightarrow> string \<Rightarrow> nat \<Rightarrow> http_response \<Rightarrow> mapped_exception" where
  "mapHttpException show_json fallbackMessage status response =
     (case unpackHttpResponse show_json response fallbackMessage status of
        (code, message, details) \<Rightarrow>
          \<lparr>me_status = status, me_code = code, me_message = message, me_details = details\<rparr>)"

definition mapUnknownError :: "string \<Rightarrow> bool \<Rightarrow> mapped_exception" where
  "mapUnknownError msg isProduction =
     (if isProduction then
        \<lparr>me_status = 500, me_code = code_string INTERNAL_ERROR,
         me_message = ''Internal server error'', me_details = JUndefined\<rparr>
      else
        \<lparr>me_status = 500, me_code = code_string INTERNAL_ERROR,
         me_message = msg, me_details = JUndefined\<rparr>)"

text \<open>show_json and fallbackMessage are the framework's: the array join's conversion and
  the message NestJS gives an HttpException whose body has none.\<close>

definition mapException ::
    "(json \<Rightarrow> string) \<Rightarrow> string \<Rightarrow> exn \<Rightarrow> bool \<Rightarrow> mapped_exception" where
  "mapException show_json fallbackMessage e isProduction =
     (case e of
        ZodError issues \<Rightarrow> mapZodError issues
      | PrismaKnown code target \<Rightarrow> mapPrismaError code target
      | HttpException status response \<Rightarrow> mapHttpException show_json fallbackMessage status response
      | JsError msg \<Rightarrow> mapUnknownError msg isProduction)"

definition errorBody :: "mapped_exception \<Rightarrow> json" where
  "errorBody m =
     JObj [(''error'', JObj ([(''code'', JStr (me_code m)), (''message'', JStr (me_message m))]
             @ (if me_details m \<noteq> JUndefined then [(''details'', me_details m)] else [])))]"

definition catchException ::
    "(json \<Rightarrow> string) \<Rightarrow> string \<Rightarrow> bool \<Rightarrow> exn \<Rightarrow> nat \<times> json" where
  "catchException show_json fallbackMessage isProduction e =
     (let m = mapException show_json fallbackMessage e isProduction in (me_status m, errorBody m))"

section \<open>The success wrapper\<close>

fun isAlreadyWrapped :: "json \<Rightarrow> bool" where
  "isAlreadyWrapped (JObj obj) =
     (if ''data'' \<notin> fst ` set obj then False
      else if ''meta'' \<in> fst ` set obj \<and> jget obj ''meta'' \<noteq> JUndefined then
        (case jget obj ''meta'' of JObj _ \<Rightarrow> True | _ \<Rightarrow> False)
      else True)"
| "isAlreadyWrapped _ = False"

definition wrapResponse :: "json \<Rightarrow> json" where
  "wrapResponse v = (if isAlreadyWrapped v then v else JObj [(''data'', v)])"

section \<open>Facts\<close>

definition all_error_codes :: "error_code list" where
  "all_error_codes =
    [VALIDATION_ERROR, UNAUTHORIZED, FORBIDDEN, NOT_FOUND,
     CONFLICT, RATE_LIMITED, IDEMPOTENCY_KEY_REQUIRED, IDEMPOTENCY_KEY_REUSED,
     SESSION_INVALID, SESSION_EXPIRED, SESSION_REPLAY, OTP_RATE_LIMITED,
     OTP_TOO_MANY_ATTEMPTS, OTP_NOT_FOUND, OTP_EXPIRED, OTP_INVALID,
     INTERNAL_ERROR, CANNOT_REMOVE_BOOTSTRAP_ADMIN, INVALID_STATUS_TRANSITION, LISTING_NOT_FOUND,
     ADMIN_CONFIRM_REQUIRED, CANNOT_IMPERSONATE_SUPER_ADMIN, CANNOT_NEST_IMPERSONATION, IMPERSONATION_ENDED,
     FILE_TOO_LARGE, MIME_NOT_ALLOWED, MIME_MISMATCH, SVG_UNSAFE_CONTENT,
     GONE, EMAIL_PROVIDER_NOT_CONFIGURED, INSUFFICIENT_FUNDS, BALANCE_MISMATCH,
     INVALID_IBAN, PAYOUT_NOT_PENDING, PAYOUT_NOT_APPROVED, PAYMENT_INITIATION_FAILED,
     PAYMENT_VERIFICATION_FAILED, REFUND_NOT_SUPPORTED_BY_PROVIDER, INVALID_CALLBACK, REFUND_AMOUNT_EXCEEDS_AVAILABLE,
     CANNOT_REFUND_INSUFFICIENT_BALANCE, REFUND_NOT_PENDING, PAYMENT_NOT_REFUNDABLE, MODULE_BOOT_FAILED,
     CANNOT_BUY_OWN_LISTING, ALREADY_OWNED, LISTING_NOT_PURCHASABLE, INVALID_RUN_PACK,
     EMPTY_CART, CHECKOUT_VALIDATION_FAILED, ACCESS_DENIED_NOT_OWNER, BUNDLE_NOT_AVAILABLE,
     INVALID_API_KEY, INSUFFICIENT_RUNS, SLUG_TAKEN, INVALID_PACKS,
     MAKER_QUOTA_EXCEEDED]"

lemma in_all_error_codes: "c \<in> set all_error_codes"
  by (cases c) (simp_all add: all_error_codes_def)

lemma distinct_code_strings: "distinct (map code_string all_error_codes)"
  unfolding all_error_codes_def by code_simp

lemma code_string_inj [simp]: "code_string a = code_string b \<longleftrightarrow> a = b"
  using distinct_code_strings in_all_error_codes [of a] in_all_error_codes [of b]
  by (auto simp: distinct_map dest: inj_onD)

lemma http_exn_eq [simp]:
  "http_exn c s m = http_exn c' s' m' \<longleftrightarrow> c = c' \<and> s = s' \<and> m = m'"
  by (auto simp: http_exn_def)

lemma http_exn_neq [simp]:
  "http_exn c s m \<noteq> JsError x" "JsError x \<noteq> http_exn c s m"
  "http_exn c s m \<noteq> PrismaKnown p q" "PrismaKnown p q \<noteq> http_exn c s m"
  "http_exn c s m \<noteq> ZodError z" "ZodError z \<noteq> http_exn c s m"
  by (simp_all add: http_exn_def)

lemma http_exn_details_neq [simp]:
  "http_exn_details c s m d \<noteq> JsError x" "JsError x \<noteq> http_exn_details c s m d"
  "http_exn c s m \<noteq> http_exn_details c' s' m' d" "http_exn_details c' s' m' d \<noteq> http_exn c s m"
  by (simp_all add: http_exn_def http_exn_details_def)

end
