(* ===== verification/Templates.thy ===== *)
theory Templates
  imports Errors
begin

text \<open>
  The notification templates of core/notifications/templates.catalog.ts and the
  number formatting of core/notifications/format.ts.  Persian text is written as the
  list of its UTF-8 bytes.  The lemmas show that formatToman loses nothing (the
  separators removed, the decimal rendering is left) and places a separator exactly
  at every fourth position from the right.
\<close>

section \<open>Formatting amounts\<close>

text \<open>The regular expression inserts a comma at each position inside a digit run that a
  positive multiple of three digits follows; here on the reversed digits.\<close>

fun group_rev :: "string \<Rightarrow> string" where
  "group_rev (a # b # c # d # ds) = a # b # c # CHR '','' # group_rev (d # ds)"
| "group_rev ds = ds"

definition formatToman :: "int \<Rightarrow> string" where
  "formatToman n =
     (if n < 0 then CHR ''-'' # rev (group_rev (rev (nat_digits (nat (- n)))))
      else rev (group_rev (rev (nat_digits (nat n)))))"

text \<open>Number conversion of an integer: exact up to 53 bits, then rounded to the nearest
  value with 53 significant bits, ties to even.\<close>

fun bit_length :: "nat \<Rightarrow> nat" where
  "bit_length n = (if n = 0 then 0 else 1 + bit_length (n div 2))"

declare bit_length.simps [simp del]

definition to_number_nat :: "nat \<Rightarrow> nat" where
  "to_number_nat n =
     (let k = bit_length n - 53; q = n div 2 ^ k; r = n mod 2 ^ k; h = 2 ^ k in
      if k = 0 then n
      else if 2 * r > h \<or> (2 * r = h \<and> odd q) then (q + 1) * 2 ^ k
      else q * 2 ^ k)"

definition to_number :: "int \<Rightarrow> int" where
  "to_number i = (if i < 0 then - int (to_number_nat (nat (- i))) else int (to_number_nat (nat i)))"

text \<open>String(v) on the payload values, and parseInt(s, 10).\<close>

function (sequential) js_String :: "json \<Rightarrow> string" where
  "js_String JUndefined = ''undefined''"
| "js_String JNull = ''null''"
| "js_String (JBool b) = (if b then ''true'' else ''false'')"
| "js_String (JNum i) = int_to_string i"
| "js_String (JBig i) = int_to_string i"
| "js_String (JStr s) = s"
| "js_String (JArr []) = []"
| "js_String (JArr [x]) = (if x = JUndefined \<or> x = JNull then [] else js_String x)"
| "js_String (JArr (x # y # xs)) =
     (if x = JUndefined \<or> x = JNull then [] else js_String x) @ '','' @ js_String (JArr (y # xs))"
| "js_String (JObj ps) = ''[object Object]''"
  by pat_completeness auto
termination by (relation "measure size") auto

definition is_digit :: "char \<Rightarrow> bool" where
  "is_digit c \<longleftrightarrow> CHR ''0'' \<le> c \<and> c \<le> CHR ''9''"

definition digit_value :: "char \<Rightarrow> nat" where
  "digit_value c = of_char c - 48"

definition is_space :: "char \<Rightarrow> bool" where
  "is_space c \<longleftrightarrow> c \<in> {CHR '' '', CHR 0x09, CHR 0x0A, CHR 0x0B, CHR 0x0C, CHR 0x0D}"

definition digits_value :: "string \<Rightarrow> nat" where
  "digits_value ds = foldl (\<lambda>acc c. acc * 10 + digit_value c) 0 ds"

definition parseInt10 :: "string \<Rightarrow> int option" where
  "parseInt10 s =
     (let t = dropWhile is_space s;
          neg = (t \<noteq> [] \<and> hd t = CHR ''-'');
          u = (if t \<noteq> [] \<and> hd t \<in> {CHR ''-'', CHR ''+''} then tl t else t);
          ds = takeWhile is_digit u in
      if ds = [] then None
      else Some (if neg then - int (digits_value ds) else int (digits_value ds)))"

definition amt :: "json \<Rightarrow> string" where
  "amt v = (case v of
       JBig n \<Rightarrow> formatToman n
     | _ \<Rightarrow> (case parseInt10 (js_String v) of
               Some n \<Rightarrow> formatToman (to_number n)
             | None \<Rightarrow> js_String v))"

definition nullish :: "json \<Rightarrow> json \<Rightarrow> json" where
  "nullish v d = (if v = JUndefined \<or> v = JNull then d else v)"

section \<open>The catalog\<close>

type_synonym payload = "(string \<times> json) list"

record template =
  tp_inApp :: "(string \<times> (payload \<Rightarrow> string)) option"
  tp_sms :: "(payload \<Rightarrow> string) option"
  tp_email :: "(string \<times> (payload \<Rightarrow> string)) option"

definition utf8 :: "nat list \<Rightarrow> string" where
  "utf8 bs = map char_of bs"

definition template_OTP_SENT :: template where
  "template_OTP_SENT =
     \<lparr>tp_inApp = None,
      tp_sms = Some
       (\<lambda>v. utf8 [218, 169, 216, 175, 32, 216, 170, 216, 167, 219, 140, 219, 140, 216, 175, 32, 216, 179,
            216, 167, 216, 178, 219, 140, 218, 169, 217, 136] @ '': '' @ js_String (jget v ''code'') @ [CHR
            0x0A] @ utf8 [216, 167, 219, 140, 217, 134, 32, 218, 169, 216, 175, 32, 216, 170, 216, 167, 32,
            219, 178, 32, 216, 175, 217, 130, 219, 140, 217, 130, 217, 135, 32, 217, 133, 216, 185, 216,
            170, 216, 168, 216, 177, 32, 216, 167, 216, 179, 216, 170] @ ''.''),
      tp_email = None\<rparr>"

definition template_PROFILE_COMPLETED :: template where
  "template_PROFILE_COMPLETED =
     \<lparr>tp_inApp = Some
       (utf8 [217, 190, 216, 177, 217, 136, 217, 129, 216, 167, 219, 140, 217, 132, 32, 216, 170, 218,
          169, 217, 133, 219, 140, 217, 132, 32, 216, 180, 216, 175],
        \<lambda>v. utf8 [216, 173, 216, 179, 216, 167, 216, 168, 32, 216, 180, 217, 133, 216, 167, 32, 218, 169,
            216, 167, 217, 133, 217, 132, 32, 216, 180, 216, 175] @ ''. '' @ utf8 [216, 167, 218, 169, 217,
            134, 217, 136, 217, 134, 32, 217, 133, 219, 140, 226, 128, 140, 216, 170, 217, 136, 216, 167,
            217, 134, 219, 140, 216, 175, 32, 216, 167, 216, 178, 32, 217, 135, 217, 133, 217, 135, 32,
            216, 167, 217, 133, 218, 169, 216, 167, 217, 134, 216, 167, 216, 170, 32, 216, 167, 216, 179,
            216, 170, 217, 129, 216, 167, 216, 175, 217, 135, 32, 218, 169, 217, 134, 219, 140, 216, 175] @
            ''.''),
      tp_sms = None,
      tp_email = None\<rparr>"

definition template_SESSION_REVOKED :: template where
  "template_SESSION_REVOKED =
     \<lparr>tp_inApp = Some
       (utf8 [219, 140, 218, 169, 219, 140, 32, 216, 167, 216, 178, 32, 217, 134, 216, 180, 216, 179,
          216, 170, 226, 128, 140, 217, 135, 216, 167, 219, 140, 32, 216, 180, 217, 133, 216, 167, 32,
          217, 132, 216, 186, 217, 136, 32, 216, 180, 216, 175],
        \<lambda>v. utf8 [217, 134, 216, 180, 216, 179, 216, 170, 32, 216, 167, 216, 178, 32, 216, 175, 216, 179,
            216, 170, 218, 175, 216, 167, 217, 135] @ '' '' @ js_String (nullish (jget v ''userAgent'')
            (JStr (utf8 [217, 134, 216, 167, 216, 180, 217, 134, 216, 167, 216, 179]))) @ '' '' @ utf8
            [217, 132, 216, 186, 217, 136, 32, 216, 180, 216, 175] @ ''.''),
      tp_sms = None,
      tp_email = None\<rparr>"

definition template_IMPERSONATION_NOTICE :: template where
  "template_IMPERSONATION_NOTICE =
     \<lparr>tp_inApp = Some
       (utf8 [216, 175, 216, 179, 216, 170, 216, 177, 216, 179, 219, 140, 32, 217, 190, 216, 180, 216,
          170, 219, 140, 216, 168, 216, 167, 217, 134, 219, 140, 32, 216, 168, 217, 135, 32, 216, 173,
          216, 179, 216, 167, 216, 168],
        \<lambda>v. utf8 [217, 190, 216, 180, 216, 170, 219, 140, 216, 168, 216, 167, 217, 134, 219, 140, 32, 216,
            179, 216, 167, 216, 178, 219, 140, 218, 169, 217, 136, 32, 216, 175, 216, 177, 32, 216, 170,
            216, 167, 216, 177, 219, 140, 216, 174] @ '' '' @ js_String (jget v ''startedAt'') @ '' '' @
            utf8 [216, 168, 216, 177, 216, 167, 219, 140] @ '' '' @ js_String (jget v ''durationMinutes'')
            @ '' '' @ utf8 [216, 175, 217, 130, 219, 140, 217, 130, 217, 135, 32, 216, 168, 217, 135, 32,
            216, 173, 216, 179, 216, 167, 216, 168, 32, 216, 180, 217, 133, 216, 167, 32, 216, 175, 216,
            179, 216, 170, 216, 177, 216, 179, 219, 140, 32, 216, 175, 216, 167, 216, 180, 216, 170] @ ''. ''
            @ utf8 [216, 175, 217, 132, 219, 140, 217, 132] @ '': '' @ js_String (jget v ''reason'')),
      tp_sms = None,
      tp_email = None\<rparr>"

definition template_PAYMENT_SUCCEEDED :: template where
  "template_PAYMENT_SUCCEEDED =
     \<lparr>tp_inApp = Some
       (utf8 [217, 190, 216, 177, 216, 175, 216, 167, 216, 174, 216, 170, 32, 217, 133, 217, 136, 217,
          129, 217, 130],
        \<lambda>v. utf8 [217, 190, 216, 177, 216, 175, 216, 167, 216, 174, 216, 170] @ '' '' @ amt (jget v
            ''amount'') @ '' '' @ utf8 [216, 170, 217, 136, 217, 133, 216, 167, 217, 134, 32, 216, 168,
            216, 167, 32, 217, 133, 217, 136, 217, 129, 217, 130, 219, 140, 216, 170, 32, 216, 170, 216,
            163, 219, 140, 219, 140, 216, 175, 32, 216, 180, 216, 175] @ ''.''),
      tp_sms = Some
       (\<lambda>v. utf8 [216, 179, 216, 167, 216, 178, 219, 140, 218, 169, 217, 136] @ '': '' @ utf8 [217, 190,
            216, 177, 216, 175, 216, 167, 216, 174, 216, 170] @ '' '' @ amt (jget v ''amount'') @ '' '' @
            utf8 [216, 170, 217, 136, 217, 133, 216, 167, 217, 134, 32, 216, 170, 216, 163, 219, 140, 219,
            140, 216, 175, 32, 216, 180, 216, 175] @ ''. '' @ utf8 [218, 169, 216, 175, 32, 217, 190, 219,
            140, 218, 175, 219, 140, 216, 177, 219, 140] @ '': '' @ js_String (nullish (jget v
            ''reference'') (JStr ('''')))),
      tp_email = None\<rparr>"

definition template_PAYMENT_FAILED :: template where
  "template_PAYMENT_FAILED =
     \<lparr>tp_inApp = Some
       (utf8 [217, 190, 216, 177, 216, 175, 216, 167, 216, 174, 216, 170, 32, 217, 134, 216, 167, 217,
          133, 217, 136, 217, 129, 217, 130],
        \<lambda>v. utf8 [217, 190, 216, 177, 216, 175, 216, 167, 216, 174, 216, 170] @ '' '' @ amt (jget v
            ''amount'') @ '' '' @ utf8 [216, 170, 217, 136, 217, 133, 216, 167, 217, 134, 32, 217, 134,
            216, 167, 217, 133, 217, 136, 217, 129, 217, 130, 32, 216, 168, 217, 136, 216, 175] @ ''. '' @
            utf8 [217, 132, 216, 183, 217, 129, 216, 167, 217, 139, 32, 217, 133, 216, 172, 216, 175, 216,
            175, 216, 167, 217, 139, 32, 216, 170, 217, 132, 216, 167, 216, 180, 32, 218, 169, 217, 134,
            219, 140, 216, 175] @ ''.''),
      tp_sms = None,
      tp_email = None\<rparr>"

definition template_PAYMENT_CANCELLED :: template where
  "template_PAYMENT_CANCELLED =
     \<lparr>tp_inApp = Some
       (utf8 [217, 190, 216, 177, 216, 175, 216, 167, 216, 174, 216, 170, 32, 217, 132, 216, 186, 217,
          136, 32, 216, 180, 216, 175],
        \<lambda>v. utf8 [217, 190, 216, 177, 216, 175, 216, 167, 216, 174, 216, 170, 32, 216, 170, 217, 136, 216,
            179, 216, 183, 32, 216, 180, 217, 133, 216, 167, 32, 217, 132, 216, 186, 217, 136, 32, 216,
            180, 216, 175] @ ''.''),
      tp_sms = None,
      tp_email = None\<rparr>"

definition template_PAYMENT_REFUNDED :: template where
  "template_PAYMENT_REFUNDED =
     \<lparr>tp_inApp = Some
       (utf8 [216, 168, 216, 167, 216, 178, 218, 175, 216, 180, 216, 170, 32, 217, 136, 216, 172, 217,
          135],
        \<lambda>v. utf8 [216, 168, 216, 167, 216, 178, 218, 175, 216, 180, 216, 170, 32, 217, 136, 216, 172, 217,
            135, 32, 216, 168, 217, 135, 32, 217, 133, 216, 168, 217, 132, 216, 186] @ '' '' @ amt (jget v
            ''amount'') @ '' '' @ utf8 [216, 170, 217, 136, 217, 133, 216, 167, 217, 134, 32, 216, 175,
            216, 177, 216, 174, 217, 136, 216, 167, 216, 179, 216, 170, 32, 216, 180, 216, 175, 32, 217,
            136, 32, 216, 168, 217, 135, 226, 128, 140, 216, 178, 217, 136, 216, 175, 219, 140, 32, 216,
            168, 217, 135, 32, 216, 173, 216, 179, 216, 167, 216, 168, 32, 216, 180, 217, 133, 216, 167,
            32, 217, 136, 216, 167, 216, 177, 219, 140, 216, 178, 32, 217, 133, 219, 140, 226, 128, 140,
            216, 180, 217, 136, 216, 175] @ ''.''),
      tp_sms = Some
       (\<lambda>v. utf8 [216, 179, 216, 167, 216, 178, 219, 140, 218, 169, 217, 136] @ '': '' @ utf8 [216, 168,
            216, 167, 216, 178, 218, 175, 216, 180, 216, 170, 32, 217, 136, 216, 172, 217, 135, 32, 216,
            168, 217, 135, 32, 217, 133, 216, 168, 217, 132, 216, 186] @ '' '' @ amt (jget v ''amount'') @
            '' '' @ utf8 [216, 170, 217, 136, 217, 133, 216, 167, 217, 134, 32, 216, 175, 216, 177, 216,
            174, 217, 136, 216, 167, 216, 179, 216, 170, 32, 216, 180, 216, 175, 32, 217, 136, 32, 216,
            168, 217, 135, 226, 128, 140, 216, 178, 217, 136, 216, 175, 219, 140, 32, 216, 168, 217, 135,
            32, 216, 173, 216, 179, 216, 167, 216, 168, 32, 216, 180, 217, 133, 216, 167, 32, 217, 136,
            216, 167, 216, 177, 219, 140, 216, 178, 32, 217, 133, 219, 140, 226, 128, 140, 216, 180, 217,
            136, 216, 175] @ ''.''),
      tp_email = None\<rparr>"

definition template_WALLET_CREDITED :: template where
  "template_WALLET_CREDITED =
     \<lparr>tp_inApp = Some
       (utf8 [216, 167, 217, 129, 216, 178, 216, 167, 219, 140, 216, 180, 32, 217, 133, 217, 136, 216,
          172, 217, 136, 216, 175, 219, 140],
        \<lambda>v. amt (jget v ''amount'') @ '' '' @ utf8 [216, 170, 217, 136, 217, 133, 216, 167, 217, 134, 32,
            216, 168, 217, 135, 32, 218, 169, 219, 140, 217, 129, 32, 217, 190, 217, 136, 217, 132, 32,
            216, 180, 217, 133, 216, 167, 32, 217, 136, 216, 167, 216, 177, 219, 140, 216, 178, 32, 216,
            180, 216, 175] @ ''. '' @ utf8 [217, 133, 217, 136, 216, 172, 217, 136, 216, 175, 219, 140, 32,
            217, 129, 216, 185, 217, 132, 219, 140] @ '': '' @ amt (jget v ''balance'') @ '' '' @ utf8
            [216, 170, 217, 136, 217, 133, 216, 167, 217, 134]),
      tp_sms = None,
      tp_email = None\<rparr>"

definition template_WALLET_DEBITED :: template where
  "template_WALLET_DEBITED =
     \<lparr>tp_inApp = Some
       (utf8 [218, 169, 216, 167, 217, 135, 216, 180, 32, 217, 133, 217, 136, 216, 172, 217, 136, 216,
          175, 219, 140],
        \<lambda>v. amt (jget v ''amount'') @ '' '' @ utf8 [216, 170, 217, 136, 217, 133, 216, 167, 217, 134, 32,
            216, 167, 216, 178, 32, 218, 169, 219, 140, 217, 129, 32, 217, 190, 217, 136, 217, 132, 32,
            216, 180, 217, 133, 216, 167, 32, 216, 168, 216, 177, 216, 175, 216, 167, 216, 180, 216, 170,
            32, 216, 180, 216, 175] @ ''.''),
      tp_sms = None,
      tp_email = None\<rparr>"

definition template_PAYOUT_REQUESTED :: template where
  "template_PAYOUT_REQUESTED =
     \<lparr>tp_inApp = Some
       (utf8 [216, 175, 216, 177, 216, 174, 217, 136, 216, 167, 216, 179, 216, 170, 32, 216, 170, 216,
          179, 217, 136, 219, 140, 217, 135, 32, 216, 171, 216, 168, 216, 170, 32, 216, 180, 216, 175],
        \<lambda>v. utf8 [216, 175, 216, 177, 216, 174, 217, 136, 216, 167, 216, 179, 216, 170, 32, 216, 170, 216,
            179, 217, 136, 219, 140, 217, 135] @ '' '' @ amt (jget v ''amount'') @ '' '' @ utf8 [216, 170,
            217, 136, 217, 133, 216, 167, 217, 134, 32, 216, 171, 216, 168, 216, 170, 32, 216, 180, 216,
            175, 32, 217, 136, 32, 216, 175, 216, 177, 32, 216, 181, 217, 129, 32, 216, 168, 216, 177, 216,
            177, 216, 179, 219, 140, 32, 216, 167, 216, 179, 216, 170] @ ''.''),
      tp_sms = None,
      tp_email = None\<rparr>"

definition template_PAYOUT_APPROVED :: template where
  "template_PAYOUT_APPROVED =
     \<lparr>tp_inApp = Some
       (utf8 [216, 170, 216, 179, 217, 136, 219, 140, 217, 135, 32, 216, 170, 216, 163, 219, 140, 219,
          140, 216, 175, 32, 216, 180, 216, 175],
        \<lambda>v. utf8 [216, 170, 216, 179, 217, 136, 219, 140, 217, 135] @ '' '' @ amt (jget v ''amount'') @ '' ''
            @ utf8 [216, 170, 217, 136, 217, 133, 216, 167, 217, 134, 32, 216, 170, 216, 163, 219, 140,
            219, 140, 216, 175, 32, 216, 180, 216, 175] @ ''.''),
      tp_sms = None,
      tp_email = None\<rparr>"

definition template_PAYOUT_REJECTED :: template where
  "template_PAYOUT_REJECTED =
     \<lparr>tp_inApp = Some
       (utf8 [216, 170, 216, 179, 217, 136, 219, 140, 217, 135, 32, 216, 177, 216, 175, 32, 216, 180,
          216, 175],
        \<lambda>v. utf8 [216, 175, 216, 177, 216, 174, 217, 136, 216, 167, 216, 179, 216, 170, 32, 216, 170, 216,
            179, 217, 136, 219, 140, 217, 135] @ '' '' @ amt (jget v ''amount'') @ '' '' @ utf8 [216, 170,
            217, 136, 217, 133, 216, 167, 217, 134, 32, 216, 177, 216, 175, 32, 216, 180, 216, 175] @ ''. ''
            @ utf8 [216, 175, 217, 132, 219, 140, 217, 132] @ '': '' @ js_String (jget v ''reason'')),
      tp_sms = None,
      tp_email = None\<rparr>"

definition template_PAYOUT_PAID :: template where
  "template_PAYOUT_PAID =
     \<lparr>tp_inApp = Some
       (utf8 [217, 133, 216, 168, 217, 132, 216, 186, 32, 216, 170, 216, 179, 217, 136, 219, 140, 217,
          135, 32, 217, 136, 216, 167, 216, 177, 219, 140, 216, 178, 32, 216, 180, 216, 175],
        \<lambda>v. utf8 [217, 133, 216, 168, 217, 132, 216, 186] @ '' '' @ amt (jget v ''amount'') @ '' '' @ utf8
            [216, 170, 217, 136, 217, 133, 216, 167, 217, 134, 32, 216, 168, 217, 135, 32, 216, 173, 216,
            179, 216, 167, 216, 168, 32, 216, 168, 216, 167, 217, 134, 218, 169, 219, 140, 32, 216, 180,
            217, 133, 216, 167, 32, 217, 136, 216, 167, 216, 177, 219, 140, 216, 178, 32, 216, 180, 216,
            175] @ ''. '' @ utf8 [216, 180, 217, 133, 216, 167, 216, 177, 217, 135, 32, 217, 190, 219, 140,
            218, 175, 219, 140, 216, 177, 219, 140] @ '': '' @ js_String (jget v ''paymentReference'')),
      tp_sms = None,
      tp_email = None\<rparr>"

definition NOTIFICATION_TEMPLATES :: "string \<Rightarrow> template option" where
  "NOTIFICATION_TEMPLATES = map_of [
     (''OTP_SENT'', template_OTP_SENT),
     (''PROFILE_COMPLETED'', template_PROFILE_COMPLETED),
     (''SESSION_REVOKED'', template_SESSION_REVOKED),
     (''IMPERSONATION_NOTICE'', template_IMPERSONATION_NOTICE),
     (''PAYMENT_SUCCEEDED'', template_PAYMENT_SUCCEEDED),
     (''PAYMENT_FAILED'', template_PAYMENT_FAILED),
     (''PAYMENT_CANCELLED'', template_PAYMENT_CANCELLED),
     (''PAYMENT_REFUNDED'', template_PAYMENT_REFUNDED),
     (''WALLET_CREDITED'', template_WALLET_CREDITED),
     (''WALLET_DEBITED'', template_WALLET_DEBITED),
     (''PAYOUT_REQUESTED'', template_PAYOUT_REQUESTED),
     (''PAYOUT_APPROVED'', template_PAYOUT_APPROVED),
     (''PAYOUT_REJECTED'', template_PAYOUT_REJECTED),
     (''PAYOUT_PAID'', template_PAYOUT_PAID)]"

definition NON_PERSISTENT_TYPES :: "string list" where
  "NON_PERSISTENT_TYPES = [''OTP_SENT'']"

section \<open>Facts\<close>

definition no_comma :: "string \<Rightarrow> string" where
  "no_comma s = filter (\<lambda>c. c \<noteq> CHR '','') s"

lemma digit_char_neq_comma: "d < 10 \<Longrightarrow> digit_char d \<noteq> CHR '',''"
proof
  assume "d < 10" "digit_char d = CHR '',''"
  then have "of_char (char_of (48 + d) :: char) = (of_char (CHR '','') :: nat)"
    by (simp add: digit_char_def)
  with \<open>d < 10\<close> show False by simp
qed

lemma nat_digits_no_comma: "CHR '','' \<notin> set (nat_digits n)"
proof (induction n rule: nat_digits.induct)
  case (1 n)
  have eq: "CHR '','' = digit_char d \<longleftrightarrow> False" if "d < 10" for d
    using digit_char_neq_comma [OF that] by metis
  show ?case
    by (subst nat_digits.simps) (use 1 in \<open>simp add: eq\<close>)
qed

lemma no_comma_group_rev: "CHR '','' \<notin> set ds \<Longrightarrow> no_comma (group_rev ds) = ds"
  by (induction ds rule: group_rev.induct) (auto simp: no_comma_def filter_id_conv)

lemma no_comma_rev: "no_comma (rev s) = rev (no_comma s)"
  by (simp add: no_comma_def rev_filter)

lemma no_comma_formatToman: "no_comma (formatToman n) = int_to_string n"
proof -
  have "no_comma (rev (group_rev (rev (nat_digits m)))) = nat_digits m" for m
    by (simp add: no_comma_rev no_comma_group_rev nat_digits_no_comma)
  then show ?thesis by (simp add: formatToman_def int_to_string_def) (simp add: no_comma_def)
qed

lemma formatToman_inj: "formatToman m = formatToman n \<Longrightarrow> m = n"
  by (metis no_comma_formatToman int_to_string_inj)

lemma group_rev_comma:
  "CHR '','' \<notin> set ds \<Longrightarrow> i < length (group_rev ds) \<Longrightarrow>
   group_rev ds ! i = CHR '','' \<longleftrightarrow> i mod 4 = 3"
proof (induction ds arbitrary: i rule: group_rev.induct)
  case (1 a b c d ds)
  show ?case
  proof (cases "i < 4")
    case True
    then consider "i = 0" | "i = 1" | "i = 2" | "i = 3" by linarith
    then show ?thesis using 1(2) by cases auto
  next
    case False
    then obtain j where j: "i = j + 4" by (metis add.commute le_Suc_ex not_less)
    have "group_rev (d # ds) ! j = CHR '','' \<longleftrightarrow> j mod 4 = 3"
      using 1(1) [of j] 1(2,3) j by auto
    then show ?thesis using j by simp
  qed
qed (auto simp: less_Suc_eq nth_Cons split: nat.splits)

lemma in_app_templates:
  "map_option (\<lambda>t. tp_inApp t \<noteq> None) (NOTIFICATION_TEMPLATES ''WALLET_CREDITED'') = Some True"
  "map_option (\<lambda>t. tp_inApp t \<noteq> None) (NOTIFICATION_TEMPLATES ''WALLET_DEBITED'') = Some True"
  by (simp_all add: NOTIFICATION_TEMPLATES_def template_WALLET_CREDITED_def
      template_WALLET_DEBITED_def)

section \<open>Properties\<close>

text \<open>formatToman groups thousands and loses nothing: without the separators the text is
  the decimal rendering of the amount, so different amounts never look alike, and for a
  non-negative amount a separator stands exactly at every fourth position from the right.\<close>

theorem formatToman_grouping:
  "filter (\<lambda>c. c \<noteq> CHR '','') (formatToman n) = int_to_string n \<and>
   (formatToman m = formatToman n \<longrightarrow> m = n) \<and>
   (\<forall>i < length (formatToman (int k)).
      (rev (formatToman (int k)) ! i = CHR '','') = (i mod 4 = 3))"
proof -
  have "(rev (formatToman (int k)) ! i = CHR '','') = (i mod 4 = 3)"
    if "i < length (formatToman (int k))" for i
  proof -
    have r: "rev (formatToman (int k)) = group_rev (rev (nat_digits k))" by (simp add: formatToman_def)
    then have "length (group_rev (rev (nat_digits k))) = length (formatToman (int k))"
      by (metis length_rev)
    then show ?thesis
      unfolding r using group_rev_comma [of "rev (nat_digits k)" i] that nat_digits_no_comma by simp
  qed
  then show ?thesis
    using no_comma_formatToman [of n] formatToman_inj [of m n] by (auto simp: no_comma_def)
qed

end
