(* ===== verification/Json.thy ===== *)
theory Json
  imports Templates "HOL-Library.Multiset"
begin

text \<open>
  The JSON values the code builds, sends and stores: own properties in JavaScript's
  enumeration order, JSON.stringify (with the BigInt.prototype.toJSON that
  common/bigint-serialization.ts installs, so bigints print as decimal strings) and
  JSON.parse on the texts that JSON.stringify produces.  The main fact is the round
  trip: parsing what was printed gives the value back up to what JSON cannot carry
  (bigints become strings, undefined members disappear), hence printing is injective
  on what it carries.  Numbers are integral; strings are their UTF-8 bytes.
\<close>

section \<open>Own properties\<close>

text \<open>Array-index keys come first and ascend, the others follow in the order they were
  added.\<close>

definition index_key :: "string \<Rightarrow> bool" where
  "index_key k \<longleftrightarrow> k \<noteq> [] \<and> list_all is_digit k \<and> (k = ''0'' \<or> hd k \<noteq> CHR ''0'') \<and>
     digits_value k < 2 ^ 32 - 1"

definition key_before :: "string \<Rightarrow> string \<Rightarrow> bool" where
  "key_before a b \<longleftrightarrow> a \<noteq> b \<and>
     (if index_key b then index_key a \<and> digits_value a < digits_value b else True)"

text \<open>A new own property (an existing one keeps its place).\<close>

fun js_define :: "string \<Rightarrow> 'v \<Rightarrow> (string \<times> 'v) list \<Rightarrow> (string \<times> 'v) list" where
  "js_define k v [] = [(k, v)]"
| "js_define k v ((k', v') # r) =
     (if k = k' then (k, v) # r
      else if key_before k' k then (k', v') # js_define k v r
      else (k, v) # (k', v') # r)"

text \<open>An assignment out[k] = v on an object literal: assigning to __proto__ sets the
  prototype and adds no own property.\<close>

definition js_put :: "string \<Rightarrow> 'v \<Rightarrow> (string \<times> 'v) list \<Rightarrow> (string \<times> 'v) list" where
  "js_put k v o1 = (if k = ''__proto__'' then o1 else js_define k v o1)"

definition in_order :: "(string \<times> 'v) list \<Rightarrow> bool" where
  "in_order o1 \<longleftrightarrow> sorted_wrt key_before (map fst o1)"

lemma js_define_last:
  "list_all (\<lambda>p. key_before (fst p) k) o1 \<Longrightarrow> js_define k v o1 = o1 @ [(k, v)]"
  by (induction o1) (auto simp: key_before_def split: if_splits)

lemma foldl_js_define:
  "in_order (xs @ ms) \<Longrightarrow> foldl (\<lambda>acc (k, v). js_define k v acc) xs ms = xs @ ms"
proof (induction ms arbitrary: xs)
  case (Cons p ms)
  obtain k v where p: "p = (k, v)" by (cases p)
  have "list_all (\<lambda>q. key_before (fst q) k) xs"
    using Cons.prems p by (auto simp: in_order_def sorted_wrt_append list_all_iff)
  then show ?case using Cons.IH [of "xs @ [p]"] Cons.prems p by (simp add: js_define_last)
qed simp

lemma in_order_filter: "in_order o1 \<Longrightarrow> in_order (filter P o1)"
  unfolding in_order_def by (rule sorted_wrt_map_filter)

lemma in_order_distinct: "in_order o1 \<Longrightarrow> distinct (map fst o1)"
  unfolding in_order_def by (induction o1) (auto simp: key_before_def)

section \<open>JSON.stringify\<close>

definition hex_digit :: "nat \<Rightarrow> char" where
  "hex_digit d = (if d < 10 then digit_char d else char_of (87 + d))"

definition escape_char :: "char \<Rightarrow> string" where
  "escape_char c =
     (if c = CHR 0x22 then [CHR 0x5C, CHR 0x22]
      else if c = CHR 0x5C then [CHR 0x5C, CHR 0x5C]
      else if c = CHR 0x08 then [CHR 0x5C, CHR ''b'']
      else if c = CHR 0x09 then [CHR 0x5C, CHR ''t'']
      else if c = CHR 0x0A then [CHR 0x5C, CHR ''n'']
      else if c = CHR 0x0C then [CHR 0x5C, CHR ''f'']
      else if c = CHR 0x0D then [CHR 0x5C, CHR ''r'']
      else if (of_char c :: nat) < 32
      then [CHR 0x5C, CHR ''u'', CHR ''0'', CHR ''0'', hex_digit (of_char c div 16),
            hex_digit (of_char c mod 16)]
      else [c])"

definition json_quote :: "string \<Rightarrow> string" where
  "json_quote s = CHR 0x22 # concat (map escape_char s) @ [CHR 0x22]"

fun join_with :: "char \<Rightarrow> string list \<Rightarrow> string" where
  "join_with c [] = []"
| "join_with c [x] = x"
| "join_with c (x # y # xs) = x @ c # join_with c (y # xs)"

text \<open>An undefined array element prints as null, an undefined member is left out.\<close>

fun json_text :: "json \<Rightarrow> string" where
  "json_text JUndefined = ''null''"
| "json_text JNull = ''null''"
| "json_text (JBool b) = (if b then ''true'' else ''false'')"
| "json_text (JNum i) = int_to_string i"
| "json_text (JBig i) = json_quote (int_to_string i)"
| "json_text (JStr s) = json_quote s"
| "json_text (JArr xs) = CHR ''['' # join_with CHR '','' (map json_text xs) @ '']''"
| "json_text (JObj o1) =
     CHR ''{'' # join_with CHR '',''
       (map (\<lambda>(k, v). json_quote k @ CHR '':'' # json_text v) (filter (\<lambda>p. snd p \<noteq> JUndefined) o1))
     @ ''}''"

section \<open>JSON.parse\<close>

definition simple_escape :: "char \<Rightarrow> char option" where
  "simple_escape d =
     (if d = CHR 0x22 then Some (CHR 0x22)
      else if d = CHR 0x5C then Some (CHR 0x5C)
      else if d = CHR ''/'' then Some (CHR ''/'')
      else if d = CHR ''b'' then Some (CHR 0x08)
      else if d = CHR ''t'' then Some (CHR 0x09)
      else if d = CHR ''n'' then Some (CHR 0x0A)
      else if d = CHR ''f'' then Some (CHR 0x0C)
      else if d = CHR ''r'' then Some (CHR 0x0D)
      else None)"

definition hex_value :: "char \<Rightarrow> nat option" where
  "hex_value c = (let n = of_char c :: nat in
     if 48 \<le> n \<and> n \<le> 57 then Some (n - 48)
     else if 97 \<le> n \<and> n \<le> 102 then Some (n - 87)
     else if 65 \<le> n \<and> n \<le> 70 then Some (n - 55)
     else None)"

text \<open>The character of an escape; JSON.stringify writes the hexadecimal form only for
  control characters.\<close>

definition unicode_escape :: "char \<Rightarrow> char \<Rightarrow> char \<Rightarrow> char \<Rightarrow> char option" where
  "unicode_escape a b c d =
     (case (hex_value a, hex_value b, hex_value c, hex_value d) of
        (Some 0, Some 0, Some h, Some l) \<Rightarrow> if h < 8 then Some (char_of (16 * h + l)) else None
      | _ \<Rightarrow> None)"

fun scan_string :: "string \<Rightarrow> (string \<times> string) option" where
  "scan_string [] = None"
| "scan_string (c # s) =
     (if c = CHR 0x22 then Some ([], s)
      else if c = CHR 0x5C then
        (case s of
           [] \<Rightarrow> None
         | d # t \<Rightarrow>
             if d = CHR ''u'' then
               (case t of
                  h1 # h2 # h3 # h4 # u \<Rightarrow>
                    (case unicode_escape h1 h2 h3 h4 of
                       None \<Rightarrow> None
                     | Some x \<Rightarrow> map_option (\<lambda>(r, z). (x # r, z)) (scan_string u))
                | _ \<Rightarrow> None)
             else
               (case simple_escape d of
                  None \<Rightarrow> None
                | Some x \<Rightarrow> map_option (\<lambda>(r, z). (x # r, z)) (scan_string t)))
      else if (of_char c :: nat) < 32 then None
      else map_option (\<lambda>(r, z). (c # r, z)) (scan_string s))"

definition scan_digits :: "string \<Rightarrow> (nat \<times> string) option" where
  "scan_digits s = (let ds = takeWhile is_digit s in
     if ds = [] \<or> (hd ds = CHR ''0'' \<and> ds \<noteq> ''0'') then None
     else Some (digits_value ds, dropWhile is_digit s))"

definition scan_number :: "string \<Rightarrow> (json \<times> string) option" where
  "scan_number s = (case s of
       [] \<Rightarrow> None
     | c # t \<Rightarrow>
         if c = CHR ''-'' then map_option (\<lambda>(n, r). (JNum (- int n), r)) (scan_digits t)
         else map_option (\<lambda>(n, r). (JNum (int n), r)) (scan_digits s))"

definition scan_literal :: "string \<Rightarrow> json \<Rightarrow> string \<Rightarrow> (json \<times> string) option" where
  "scan_literal l v s = (if take (length l) s = l then Some (v, drop (length l) s) else None)"

text \<open>The first argument bounds the nesting and the number of members read; the length
  of the text plus one is enough.\<close>

fun json_read :: "nat \<Rightarrow> string \<Rightarrow> (json \<times> string) option"
and read_items :: "nat \<Rightarrow> string \<Rightarrow> (json list \<times> string) option"
and read_members :: "nat \<Rightarrow> string \<Rightarrow> ((string \<times> json) list \<times> string) option" where
  "json_read 0 s = None"
| "json_read (Suc n) s = (case s of
       [] \<Rightarrow> None
     | c # t \<Rightarrow>
         if c = CHR 0x22 then map_option (\<lambda>(x, r). (JStr x, r)) (scan_string t)
         else if c = CHR ''['' then
           (if take 1 t = '']'' then Some (JArr [], drop 1 t)
            else map_option (\<lambda>(xs, r). (JArr xs, r)) (read_items n t))
         else if c = CHR ''{'' then
           (if take 1 t = ''}'' then Some (JObj [], drop 1 t)
            else map_option (\<lambda>(ms, r). (JObj (foldl (\<lambda>acc (k, v). js_define k v acc) [] ms), r))
                   (read_members n t))
         else if c = CHR ''n'' then scan_literal ''null'' JNull s
         else if c = CHR ''t'' then scan_literal ''true'' (JBool True) s
         else if c = CHR ''f'' then scan_literal ''false'' (JBool False) s
         else scan_number s)"
| "read_items 0 s = None"
| "read_items (Suc n) s = (case json_read n s of
       None \<Rightarrow> None
     | Some (v, r) \<Rightarrow>
         if take 1 r = '','' then map_option (\<lambda>(xs, z). (v # xs, z)) (read_items n (drop 1 r))
         else if take 1 r = '']'' then Some ([v], drop 1 r)
         else None)"
| "read_members 0 s = None"
| "read_members (Suc n) s =
     (if take 1 s \<noteq> [CHR 0x22] then None
      else case scan_string (drop 1 s) of
             None \<Rightarrow> None
           | Some (k, r) \<Rightarrow>
               if take 1 r \<noteq> '':'' then None
               else (case json_read n (drop 1 r) of
                       None \<Rightarrow> None
                     | Some (v, q) \<Rightarrow>
                         if take 1 q = '','' then
                           map_option (\<lambda>(ms, z). ((k, v) # ms, z)) (read_members n (drop 1 q))
                         else if take 1 q = ''}'' then Some ([(k, v)], drop 1 q)
                         else None))"

definition json_parse :: "string \<Rightarrow> json option" where
  "json_parse s = (case json_read (Suc (length s)) s of
       Some (v, r) \<Rightarrow> if r = [] then Some v else None
     | None \<Rightarrow> None)"

section \<open>Round trip\<close>

text \<open>What a value looks like after it has been printed and parsed: bigints are strings,
  undefined is null in an array and gone in an object, and members are in enumeration
  order.\<close>

fun reread :: "json \<Rightarrow> json" where
  "reread JUndefined = JNull"
| "reread JNull = JNull"
| "reread (JBool b) = JBool b"
| "reread (JNum i) = JNum i"
| "reread (JBig i) = JStr (int_to_string i)"
| "reread (JStr s) = JStr s"
| "reread (JArr xs) = JArr (map reread xs)"
| "reread (JObj o1) = JObj (foldl (\<lambda>acc (k, v). js_define k v acc) []
     (map (\<lambda>(k, v). (k, reread v)) (filter (\<lambda>p. snd p \<noteq> JUndefined) o1)))"

text \<open>The same without the reordering.\<close>

fun wire :: "json \<Rightarrow> json" where
  "wire JUndefined = JNull"
| "wire JNull = JNull"
| "wire (JBool b) = JBool b"
| "wire (JNum i) = JNum i"
| "wire (JBig i) = JStr (int_to_string i)"
| "wire (JStr s) = JStr s"
| "wire (JArr xs) = JArr (map wire xs)"
| "wire (JObj o1) = JObj (map (\<lambda>(k, v). (k, wire v)) (filter (\<lambda>p. snd p \<noteq> JUndefined) o1))"

fun wf_json :: "json \<Rightarrow> bool" where
  "wf_json (JArr xs) = list_all wf_json xs"
| "wf_json (JObj o1) = (in_order o1 \<and> list_all (\<lambda>(k, v). wf_json v) o1)"
| "wf_json _ = True"

lemma hex_value_digit: "d < 16 \<Longrightarrow> hex_value (hex_digit d) = Some d"
  by (auto simp: hex_value_def hex_digit_def digit_char_def)

lemma control_char: "(of_char c :: nat) < 32 \<Longrightarrow>
   unicode_escape (CHR ''0'') (CHR ''0'') (hex_digit (of_char c div 16)) (hex_digit (of_char c mod 16)) = Some c"
proof -
  assume c: "(of_char c :: nat) < 32"
  have z: "hex_value (CHR ''0'') = Some 0" by code_simp
  have d: "(of_char c :: nat) div 16 < 8" using c by auto
  have e: "hex_value (hex_digit (of_char c div 16)) = Some (of_char c div 16)"
    "hex_value (hex_digit (of_char c mod 16)) = Some (of_char c mod 16)"
    using d by (auto intro!: hex_value_digit)
  show ?thesis using d by (simp add: unicode_escape_def z e)
qed

lemma scan_escape: "scan_string (escape_char c @ s) = map_option (\<lambda>(r, z). (c # r, z)) (scan_string s)"
proof -
  consider "c \<in> {CHR 0x22, CHR 0x5C, CHR 0x08, CHR 0x09, CHR 0x0A, CHR 0x0C, CHR 0x0D}"
    | "c \<notin> {CHR 0x22, CHR 0x5C, CHR 0x08, CHR 0x09, CHR 0x0A, CHR 0x0C, CHR 0x0D}" "(of_char c :: nat) < 32"
    | "c \<notin> {CHR 0x22, CHR 0x5C, CHR 0x08, CHR 0x09, CHR 0x0A, CHR 0x0C, CHR 0x0D}" "\<not> (of_char c :: nat) < 32"
    by blast
  then show ?thesis
  proof cases
    case 1
    then show ?thesis by (auto simp: escape_char_def simple_escape_def)
  next
    case 2
    then show ?thesis using control_char [of c] by (simp add: escape_char_def)
  next
    case 3
    then show ?thesis by (simp add: escape_char_def)
  qed
qed

lemma scan_json_quote: "scan_string (concat (map escape_char s) @ CHR 0x22 # r) = Some (s, r)"
  by (induction s) (simp_all add: scan_escape)

lemma is_digit_digit_char: "d < 10 \<Longrightarrow> is_digit (digit_char d) \<and> digit_value (digit_char d) = d"
proof -
  have "\<forall>d \<in> set [0..<10]. is_digit (digit_char d) \<and> digit_value (digit_char d) = d" by code_simp
  then show "d < 10 \<Longrightarrow> ?thesis" by simp
qed

lemma nat_digits_are_digits: "list_all is_digit (nat_digits n)"
proof (induction n rule: nat_digits.induct)
  case (1 n)
  show ?case by (subst nat_digits.simps) (use 1 in \<open>simp add: is_digit_digit_char\<close>)
qed

lemma digits_value_nat_digits: "digits_value (nat_digits n) = n"
proof (induction n rule: nat_digits.induct)
  case (1 n)
  have snoc: "digits_value (ds @ [c]) = digits_value ds * 10 + digit_value c" for ds c
    by (simp add: digits_value_def)
  show ?case
    by (subst nat_digits.simps)
       (use 1 in \<open>auto simp: is_digit_digit_char snoc digits_value_def [of "[_]"]\<close>)
qed

lemma nat_digits_no_leading_zero: "hd (nat_digits n) = CHR ''0'' \<Longrightarrow> nat_digits n = ''0''"
proof (induction n rule: nat_digits.induct)
  case (1 n)
  show ?case
  proof (cases "n < 10")
    case True
    then show ?thesis using 1(2) by (simp add: nat_digits.simps [of n])
  next
    case False
    then have "nat_digits (n div 10) = ''0''" using 1 by (simp add: nat_digits.simps [of n])
    then have "n div 10 = 0" using digits_value_nat_digits [of "n div 10"]
      by (simp add: digits_value_def digit_value_def)
    then show ?thesis using False by simp
  qed
qed

definition stop :: "string \<Rightarrow> bool" where
  "stop r \<longleftrightarrow> r = [] \<or> \<not> is_digit (hd r)"

lemma scan_nat_digits: "stop r \<Longrightarrow> scan_digits (nat_digits n @ r) = Some (n, r)"
proof -
  assume r: "stop r"
  have "takeWhile is_digit (nat_digits n @ r) = nat_digits n @ takeWhile is_digit r"
    "dropWhile is_digit (nat_digits n @ r) = dropWhile is_digit r"
    using nat_digits_are_digits [of n] by (simp_all add: list_all_iff)
  moreover have "takeWhile is_digit r = []" "dropWhile is_digit r = r"
    using r by (cases r; simp add: stop_def)+
  ultimately show ?thesis
    using nat_digits_no_leading_zero [of n]
    by (auto simp: scan_digits_def Let_def digits_value_nat_digits)
qed

lemma nat_digits_hd: "is_digit (hd (nat_digits n))"
  using nat_digits_are_digits [of n] by (cases "nat_digits n") auto

lemma scan_int: "stop r \<Longrightarrow> scan_number (int_to_string i @ r) = Some (JNum i, r)"
proof (cases "i < 0")
  case True
  assume "stop r"
  then show ?thesis using True by (simp add: scan_number_def int_to_string_def scan_nat_digits)
next
  case False
  assume r: "stop r"
  obtain c t where ct: "nat_digits (nat i) = c # t" by (cases "nat_digits (nat i)") auto
  have "c \<noteq> CHR ''-''" using nat_digits_no_minus [of "nat i"] ct by auto
  then show ?thesis
    using False scan_nat_digits [OF r, of "nat i"] ct by (simp add: scan_number_def int_to_string_def)
qed


lemma json_text_head: "\<exists>c t. json_text v = c # t \<and> c \<noteq> CHR '']''"
proof -
  have d: "\<exists>c t. int_to_string i = c # t \<and> c \<noteq> CHR '']''" for i
  proof (cases "i < 0")
    case False
    obtain c t where ct: "nat_digits (nat i) = c # t" by (cases "nat_digits (nat i)") auto
    moreover have "c \<noteq> CHR '']''" using nat_digits_hd [of "nat i"] ct by (auto simp: is_digit_def)
    ultimately show ?thesis using False by (simp add: int_to_string_def)
  qed (simp add: int_to_string_def)
  show ?thesis using d by (cases v) (auto simp: json_quote_def)
qed

lemma json_text_nonempty [simp]: "json_text v \<noteq> []"
  using json_text_head [of v] by auto

lemma stop_simps [simp]: "stop (CHR '','' # r)" "stop (CHR '']'' # r)" "stop (CHR ''}'' # r)" "stop []"
  by (simp_all add: stop_def is_digit_def)

lemma read_number: "stop r \<Longrightarrow> json_read (Suc n) (int_to_string i @ r) = Some (JNum i, r)"
proof -
  assume r: "stop r"
  obtain c t where ct: "int_to_string i @ r = c # t" and c: "c = CHR ''-'' \<or> is_digit c"
  proof (cases "i < 0")
    case False
    obtain c t where "nat_digits (nat i) = c # t" by (cases "nat_digits (nat i)") auto
    then show ?thesis using that False nat_digits_hd [of "nat i"] by (simp add: int_to_string_def)
  qed (use that in \<open>simp add: int_to_string_def\<close>)
  have "c \<notin> {CHR 0x22, CHR ''['', CHR ''{'', CHR ''n'', CHR ''t'', CHR ''f''}"
    using c by (auto simp: is_digit_def)
  then show ?thesis using scan_int [OF r, of i] ct by simp
qed

lemma read_items_text:
  assumes "\<And>x n r. x \<in> set xs \<Longrightarrow> length (json_text x) < n \<Longrightarrow> stop r \<Longrightarrow>
      json_read n (json_text x @ r) = Some (reread x, r)"
    and "xs \<noteq> []" "Suc (length (join_with CHR '','' (map json_text xs))) < n"
  shows "read_items n (join_with CHR '','' (map json_text xs) @ CHR '']'' # r) = Some (map reread xs, r)"
  using assms
proof (induction xs arbitrary: n rule: induct_list012)
  case (2 x)
  then obtain m where n: "n = Suc m" by (cases n) auto
  have "json_read m (json_text x @ CHR '']'' # r) = Some (reread x, CHR '']'' # r)"
    using 2 n by (intro 2) auto
  then show ?case using n by simp
next
  case (3 x y zs)
  let ?t = "join_with CHR '','' (map json_text (y # zs))"
  obtain m where n: "n = Suc m" using 3(5) by (cases n) auto
  have "json_read m (json_text x @ CHR '','' # ?t @ CHR '']'' # r) =
      Some (reread x, CHR '','' # ?t @ CHR '']'' # r)"
    using 3(5) n by (intro 3) auto
  moreover have "read_items m (?t @ CHR '']'' # r) = Some (map reread (y # zs), r)"
  proof (rule 3(2))
    have "0 < length (json_text x)" by simp
    then show "Suc (length ?t) < m" using 3(5) n by simp
  qed (use 3(3) in auto)
  ultimately show ?case using n by simp
qed simp

abbreviation member_text :: "string \<times> json \<Rightarrow> string" where
  "member_text p \<equiv> (case p of (k, v) \<Rightarrow> json_quote k @ CHR '':'' # json_text v)"

lemma read_members_text:
  assumes "\<And>p n r. p \<in> set ms \<Longrightarrow> length (json_text (snd p)) < n \<Longrightarrow> stop r \<Longrightarrow>
      json_read n (json_text (snd p) @ r) = Some (reread (snd p), r)"
    and "ms \<noteq> []" "Suc (length (join_with CHR '','' (map member_text ms))) < n"
  shows "read_members n (join_with CHR '','' (map member_text ms) @ CHR ''}'' # r) =
    Some (map (\<lambda>(k, v). (k, reread v)) ms, r)"
  using assms
proof (induction ms arbitrary: n rule: induct_list012)
  case (2 p)
  obtain k v where p: "p = (k, v)" by (cases p)
  obtain m where n: "n = Suc m" using 2 by (cases n) auto
  have "json_read m (json_text v @ CHR ''}'' # r) = Some (reread v, CHR ''}'' # r)"
    using 2(1) [of p m] 2(3) n p by (simp add: json_quote_def)
  then show ?case using n p by (simp add: json_quote_def scan_json_quote)
next
  case (3 p q zs)
  obtain k v where p: "p = (k, v)" by (cases p)
  let ?t = "join_with CHR '','' (map member_text (q # zs))"
  obtain m where n: "n = Suc m" using 3(5) by (cases n) auto
  have "json_read m (json_text v @ CHR '','' # ?t @ CHR ''}'' # r) =
      Some (reread v, CHR '','' # ?t @ CHR ''}'' # r)"
    using 3(3) [of p m] 3(5) n p by (simp add: json_quote_def)
  moreover have "read_members m (?t @ CHR ''}'' # r) = Some (map (\<lambda>(k, v). (k, reread v)) (q # zs), r)"
    by (rule 3(2)) (use 3(3,5) n p in \<open>auto simp: json_quote_def\<close>)
  ultimately show ?case using n p by (simp add: json_quote_def scan_json_quote)
qed simp

lemma read_text:
  "length (json_text v) < n \<Longrightarrow> stop r \<Longrightarrow>
   json_read n (json_text v @ r) = Some (reread v, r)"
proof (induction v arbitrary: n r rule: json_text.induct)
  case (4 i)
  then show ?case by (cases n) (simp_all add: read_number del: json_read.simps(2))
next
  case (7 xs)
  obtain m where n: "n = Suc m" using 7(2) by (cases n) auto
  show ?case
  proof (cases "xs = []")
    case False
    have "take 1 (join_with CHR '','' (map json_text xs) @ CHR '']'' # r) \<noteq> '']''"
    proof -
      obtain y ys where "xs = y # ys" using False by (cases xs) auto
      then show ?thesis using json_text_head [of y] by (cases ys) auto
    qed
    moreover have "read_items m (join_with CHR '','' (map json_text xs) @ CHR '']'' # r) = Some (map reread xs, r)"
      by (rule read_items_text) (use 7 n False in auto)
    ultimately show ?thesis using n by simp
  qed (use n in simp)
next
  case (8 o1)
  let ?ms = "filter (\<lambda>p. snd p \<noteq> JUndefined) o1"
  obtain m where n: "n = Suc m" using 8(2) by (cases n) auto
  show ?case
  proof (cases "?ms = []")
    case False
    have "take 1 (join_with CHR '','' (map member_text ?ms) @ CHR ''}'' # r) \<noteq> ''}''"
    proof -
      obtain y ys where y: "?ms = y # ys" using False by (cases ?ms) auto
      show ?thesis unfolding y by (cases y; cases ys) (auto simp: json_quote_def)
    qed
    moreover have "read_members m (join_with CHR '','' (map member_text ?ms) @ CHR ''}'' # r) =
        Some (map (\<lambda>(k, v). (k, reread v)) ?ms, r)"
    proof (rule read_members_text)
      fix p n' r' assume p: "p \<in> set ?ms" and "length (json_text (snd p)) < n'" "stop r'"
      then show "json_read n' (json_text (snd p) @ r') = Some (reread (snd p), r')"
        using 8(1) [of p "fst p" "snd p" n' r'] by auto
    qed (use 8(2) n False in auto)
    ultimately show ?thesis using n by simp
  qed (use n in simp)
qed (auto simp: json_quote_def scan_json_quote scan_literal_def gr0_conv_Suc neq_Nil_conv
       dest!: Suc_lessD less_imp_Suc_add)

lemma json_text_wire: "json_text (wire v) = json_text v"
proof (induction v rule: json_text.induct)
  case (7 xs)
  then show ?case by (simp add: comp_def cong: map_cong)
next
  case (8 o1)
  have u: "wire w \<noteq> JUndefined" for w by (cases w) auto
  show ?case
    by (simp add: u filter_map comp_def)
       (intro arg_cong [where f = "join_with (CHR '','')"] map_cong filter_cong, use 8 u in auto)
qed (simp_all add: json_quote_def)

text \<open>Parsing what was printed gives the value back, up to what JSON does not carry.\<close>

lemma json_parse_reread: "json_parse (json_text v) = Some (reread v)"
  using read_text [of v "Suc (length (json_text v))" "[]"] by (simp add: json_parse_def)

lemma reread_wire: "wf_json v \<Longrightarrow> reread v = wire v"
proof (induction v rule: reread.induct)
  case (8 o1)
  let ?ms = "filter (\<lambda>p. snd p \<noteq> JUndefined) o1"
  have eq: "map (\<lambda>(k, v). (k, reread v)) ?ms = map (\<lambda>(k, v). (k, wire v)) ?ms"
    using 8 by (auto simp: list_all_iff)
  have ord: "in_order (map (\<lambda>(k, v). (k, wire v)) ?ms)"
    using in_order_filter [of o1] 8(2) by (simp add: in_order_def comp_def case_prod_beta)
  show ?case unfolding reread.simps wire.simps eq using foldl_js_define [of "[]"] ord by simp
qed (auto simp: list_all_iff)

lemma json_parse_text: "wf_json v \<Longrightarrow> json_parse (json_text v) = Some (wire v)"
  by (simp add: json_parse_reread reread_wire)

lemma json_text_inj: "wf_json v \<Longrightarrow> wf_json w \<Longrightarrow> json_text v = json_text w \<longleftrightarrow> wire v = wire w"
  by (metis json_parse_text json_text_wire option.inject)

text \<open>Values JSON carries as they are: what a parser returns.\<close>

fun plain :: "json \<Rightarrow> bool" where
  "plain JUndefined = False"
| "plain (JBig i) = False"
| "plain (JArr xs) = list_all plain xs"
| "plain (JObj o1) = list_all (\<lambda>(k, v). plain v) o1"
| "plain _ = True"

lemma wire_plain: "plain v \<Longrightarrow> wire v = v"
proof (induction v rule: wire.induct)
  case (7 xs)
  then show ?case by (simp add: list_all_iff map_idI)
next
  case (8 o1)
  then have "filter (\<lambda>p. snd p \<noteq> JUndefined) o1 = o1" by (auto simp: list_all_iff filter_id_conv)
  moreover have "plain w \<Longrightarrow> w \<noteq> JUndefined" for w by auto
  then have "map (\<lambda>(k, v). (k, wire v)) o1 = o1"
    using 8 by (intro map_idI) (fastforce simp: list_all_iff)
  ultimately show ?case by simp
qed simp_all

lemma plain_wire: "plain (wire v)"
  by (induction v rule: wire.induct) (auto simp: list_all_iff)


section \<open>Equality up to key order\<close>

text \<open>The same value, with members looked up rather than listed.\<close>

inductive json_same :: "json \<Rightarrow> json \<Rightarrow> bool" where
  same_undefined: "json_same JUndefined JUndefined"
| same_null: "json_same JNull JNull"
| same_bool: "json_same (JBool b) (JBool b)"
| same_num: "json_same (JNum i) (JNum i)"
| same_big: "json_same (JBig i) (JBig i)"
| same_str: "json_same (JStr s) (JStr s)"
| same_arr: "list_all2 json_same xs ys \<Longrightarrow> json_same (JArr xs) (JArr ys)"
| same_obj: "(\<And>k. rel_option json_same (map_of o1 k) (map_of o2 k)) \<Longrightarrow> json_same (JObj o1) (JObj o2)"

inductive_simps json_same_simps:
  "json_same JUndefined w" "json_same JNull w" "json_same (JBool b) w" "json_same (JNum i) w"
  "json_same (JBig i) w" "json_same (JStr s) w" "json_same (JArr xs) w" "json_same (JObj o1) w"

text \<open>Objects whose members have distinct keys, at every depth.\<close>

fun keyed_json :: "json \<Rightarrow> bool" where
  "keyed_json (JArr xs) = list_all keyed_json xs"
| "keyed_json (JObj o1) = (distinct (map fst o1) \<and> list_all (\<lambda>(k, v). keyed_json v) o1)"
| "keyed_json _ = True"

lemma wf_keyed: "wf_json v \<Longrightarrow> keyed_json v"
  by (induction v rule: wf_json.induct) (auto simp: list_all_iff in_order_distinct)

lemma keys_js_define: "fst ` set (js_define k v o1) = insert k (fst ` set o1)"
  by (induction k v o1 rule: js_define.induct) auto

lemma map_of_js_define: "map_of (js_define k v o1) = (map_of o1)(k \<mapsto> v)"
  by (induction k v o1 rule: js_define.induct) auto

lemma map_of_foldl_js_define:
  "distinct (map fst ms) \<Longrightarrow> map_of (foldl (\<lambda>acc (k, v). js_define k v acc) acc ms) = map_of acc ++ map_of ms"
proof (induction ms arbitrary: acc)
  case (Cons p ms)
  obtain k v where p: "p = (k, v)" by (cases p)
  have "map_of ms k = None" using Cons.prems p by (simp add: map_of_eq_None_iff)
  then show ?case using Cons p by (auto simp: map_of_js_define map_add_def fun_eq_iff split: option.splits)
qed simp

lemma nat_digits_digits_value:
  "list_all is_digit k \<Longrightarrow> k \<noteq> [] \<Longrightarrow> k = ''0'' \<or> hd k \<noteq> CHR ''0'' \<Longrightarrow> nat_digits (digits_value k) = k"
proof (induction k rule: rev_induct)
  case (snoc c ds)
  have c: "is_digit c" "digit_value c < 10" "digit_char (digit_value c) = c"
  proof -
    show "is_digit c" using snoc by simp
    then have n: "48 \<le> (of_char c :: nat)" "(of_char c :: nat) \<le> 57"
      by (simp_all add: is_digit_def less_eq_char_def)
    then show "digit_value c < 10" by (simp add: digit_value_def)
    show "digit_char (digit_value c) = c" using n by (simp add: digit_char_def digit_value_def)
  qed
  have v: "digits_value (ds @ [c]) = digits_value ds * 10 + digit_value c" by (simp add: digits_value_def)
  show ?case
  proof (cases "ds = []")
    case True
    then show ?thesis using c by (simp add: digits_value_def nat_digits.simps [of "digit_value c"])
  next
    case False
    then have "hd ds \<noteq> CHR ''0''" using snoc(4) by (cases ds) auto
    then have ih: "nat_digits (digits_value ds) = ds" using snoc False by simp
    have "digits_value ds \<noteq> 0"
    proof
      assume "digits_value ds = 0"
      moreover have "digit_char 0 = CHR ''0''" by code_simp
      ultimately have "ds = ''0''" using ih nat_digits.simps [of 0] by simp
      then show False using \<open>hd ds \<noteq> CHR ''0''\<close> by simp
    qed
    then show ?thesis using c ih v by (simp add: nat_digits.simps [of "digits_value ds * 10 + digit_value c"])
  qed
qed simp

lemma index_key_inj: "index_key a \<Longrightarrow> index_key b \<Longrightarrow> digits_value a = digits_value b \<Longrightarrow> a = b"
  by (metis index_key_def nat_digits_digits_value)

text \<open>Defining a property keeps the enumeration order.\<close>

lemma in_order_js_define: "in_order o1 \<Longrightarrow> in_order (js_define k v o1)"
proof (induction k v o1 rule: js_define.induct)
  case (2 k v k' v' r)
  have tail: "in_order r" "\<forall>x \<in> fst ` set r. key_before k' x"
    using 2(2) by (auto simp: in_order_def)
  consider "k = k'" | "k \<noteq> k'" "key_before k' k" | "k \<noteq> k'" "\<not> key_before k' k" by blast
  then show ?case
  proof cases
    case 2
    then show ?thesis using "2.IH" tail keys_js_define [of k v r] by (auto simp: in_order_def)
  next
    case 3
    then have k: "index_key k" "index_key k' \<longrightarrow> digits_value k < digits_value k'"
      using index_key_inj [of k k'] by (auto simp: key_before_def split: if_splits) (metis linorder_neqE_nat)
    have "key_before k x" if "key_before k' x" for x
      using that k by (auto simp: key_before_def split: if_splits)
    moreover have "key_before k k'" using 3 k by (auto simp: key_before_def)
    ultimately show ?thesis using 3 tail by (auto simp: in_order_def)
  qed (use "2.prems" in \<open>simp add: in_order_def\<close>)
qed (simp add: in_order_def)

lemma in_order_foldl_js_define:
  "in_order acc \<Longrightarrow> in_order (foldl (\<lambda>acc (k, v). js_define k v acc) acc ms)"
  by (induction ms arbitrary: acc) (auto simp: in_order_js_define)

lemma map_of_map_snd: "map_of (map (\<lambda>(k, v). (k, f v)) o1) k = map_option f (map_of o1 k)"
  by (induction o1) auto

text \<open>Reading back does not change a plain value, up to key order.\<close>

lemma reread_same: "plain v \<Longrightarrow> keyed_json v \<Longrightarrow> json_same v (reread v)"
proof (induction v rule: reread.induct)
  case (7 xs)
  then show ?case by (auto simp: json_same_simps list_all2_conv_all_nth list_all_iff)
next
  case (8 o1)
  have u: "filter (\<lambda>p. snd p \<noteq> JUndefined) o1 = o1"
    using 8(2) by (auto simp: filter_id_conv list_all_iff)
  have m: "map_of (foldl (\<lambda>acc (k, v). js_define k v acc) [] (map (\<lambda>(k, v). (k, reread v)) o1)) k =
      map_option reread (map_of o1 k)" for k
    using 8(3) map_of_foldl_js_define [of "map (\<lambda>(k, v). (k, reread v)) o1" "[]"]
    by (simp add: map_of_map_snd comp_def case_prod_beta)
  have "rel_option json_same (map_of o1 k) (map_option reread (map_of o1 k))" for k
  proof (cases "map_of o1 k")
    case (Some v)
    then have kv: "(k, v) \<in> set o1" by (rule map_of_SomeD)
    then have "plain v" "keyed_json v" using 8(2,3) by (auto simp: list_all_iff)
    then show ?thesis using 8(1) [of "(k, v)" k v] kv Some u by simp
  qed simp
  then show ?case by (simp add: u m same_obj)
qed (auto intro: json_same.intros)

lemma json_same_sym: "json_same v w \<Longrightarrow> json_same w v"
proof (induction rule: json_same.induct)
  case (same_arr xs ys)
  then show ?case by (auto intro!: json_same.same_arr simp: list_all2_conv_all_nth)
next
  case (same_obj o1 o2)
  have "rel_option json_same (map_of o2 k) (map_of o1 k)" for k
    using same_obj [of k] by (auto simp: option.rel_sel)
  then show ?case by (rule json_same.same_obj)
qed (auto intro: json_same.intros)

lemma json_same_trans: "json_same v w \<Longrightarrow> json_same w x \<Longrightarrow> json_same v x"
proof (induction arbitrary: x rule: json_same.induct)
  case (same_arr xs ys)
  then obtain zs where x: "x = JArr zs" "list_all2 json_same ys zs" by (auto simp: json_same_simps)
  with same_arr(1) have "list_all2 json_same xs zs" by (auto simp: list_all2_conv_all_nth)
  then show ?case using x by (auto intro: json_same.same_arr)
next
  case (same_obj o1 o2)
  then obtain o3 where x: "x = JObj o3" "\<And>k. rel_option json_same (map_of o2 k) (map_of o3 k)"
    by (auto simp: json_same_simps)
  have "rel_option json_same (map_of o1 k) (map_of o3 k)" for k
    using same_obj(1) [of k] x(2) [of k] by (auto simp: option.rel_sel)
  then show ?case using x by (auto intro: json_same.same_obj)
qed auto

text \<open>Sorting members by key forgets the order they came in.\<close>

lemma distinct_map_snd: "distinct (map fst (map (\<lambda>(k, v). (k, f v)) o1)) = distinct (map fst o1)"
  by (simp add: comp_def case_prod_beta)

lemma sort_members_eq:
  assumes "distinct (map fst m1)" "distinct (map fst m2)" "map_of m1 = map_of m2"
  shows "sort_key fst m1 = sort_key fst (m2 :: (string \<times> 'v) list)"
proof -
  have "set m1 = set m2" using assms by (simp add: map_of_inject_set)
  moreover have "distinct m1" "distinct m2"
    using assms(1) [unfolded distinct_map] assms(2) [unfolded distinct_map] by simp_all
  ultimately have "mset m1 = mset m2"
    using set_eq_iff_mset_eq_distinct [of m1 m2] by blast
  moreover have "inj_on fst (set m1)" by (rule conjunct2 [OF assms(1) [unfolded distinct_map]])
  ultimately show ?thesis by (intro sort_key_inj_key_eq) simp_all
qed

lemma distinct_sort_members: "distinct (map fst m) \<Longrightarrow> distinct (map fst (sort_key fst m))"
  unfolding distinct_map [of fst "sort_key _ _"] distinct_map [of fst m] by simp

lemma map_of_sort_members: "distinct (map fst m) \<Longrightarrow> map_of (sort_key fst m) = map_of m"
  using distinct_sort_members [of m] by (simp add: map_of_inject_set)

lemma rel_option_map_eq:
  assumes "rel_option R a b" "\<And>x y. a = Some x \<Longrightarrow> b = Some y \<Longrightarrow> R x y \<Longrightarrow> f x = g y"
  shows "map_option f a = map_option g b"
  using assms by (cases a; cases b) auto

text \<open>A congruence the canonical and the stable form share.\<close>

lemma same_sorted_members:
  fixes o1 o2 :: "(string \<times> json) list"
  assumes "\<And>k. rel_option (\<lambda>v w. json_same v w \<and> (P v \<longrightarrow> P w \<longrightarrow> f v = f w)) (map_of o1 k) (map_of o2 k)"
    and "list_all (\<lambda>(k, v). P v) o1" "list_all (\<lambda>(k, v). P v) o2"
    and "distinct (map fst o1)" "distinct (map fst o2)"
  shows "sort_key fst (map (\<lambda>(k, v). (k, f v)) o1) = sort_key fst (map (\<lambda>(k, v). (k, f v)) o2)"
proof (rule sort_members_eq)
  have "map_option f (map_of o1 k) = map_option f (map_of o2 k)" for k
  proof (rule rel_option_map_eq [OF assms(1)])
    fix v w assume "map_of o1 k = Some v" "map_of o2 k = Some w"
      and r: "json_same v w \<and> (P v \<longrightarrow> P w \<longrightarrow> f v = f w)"
    then have "(k, v) \<in> set o1" "(k, w) \<in> set o2" by (auto dest: map_of_SomeD)
    then show "f v = f w" using r assms(2,3) by (auto simp: list_all_iff)
  qed
  then show "map_of (map (\<lambda>(k, v). (k, f v)) o1) = map_of (map (\<lambda>(k, v). (k, f v)) o2)"
    by (simp add: map_of_map_snd fun_eq_iff)
qed (simp_all only: distinct_map_snd assms(4,5))

end
