(* ===== verification/Effects.thy ===== *)
theory Effects
  imports Errors
begin

text \<open>
  How the development models an async method of a service: a computation over a
  state of type 's that either returns a value or throws an exn, and in both cases
  leaves a state behind (what was written before a throw stays written, unless a
  transaction rolls it back).  bind is await, throw is throw, transaction is the
  call of prisma.dollar-transaction with an async body, and tryCatch the try/catch statement.

  wp computes, by rewriting with the collection wp_eqs, what must hold before a
  computation for a postcondition on normal return and one on throw; keeps says
  that a computation preserves a predicate of the state whichever way it ends, and
  is proved by the rules of keeps_intros.
\<close>

type_synonym ('s, 'a) M = "'s \<Rightarrow> (exn + 'a) \<times> 's"

definition return :: "'a \<Rightarrow> ('s, 'a) M" where
  "return x s = (Inr x, s)"

definition throw :: "exn \<Rightarrow> ('s, 'a) M" where
  "throw e s = (Inl e, s)"

definition bind :: "('s, 'a) M \<Rightarrow> ('a \<Rightarrow> ('s, 'b) M) \<Rightarrow> ('s, 'b) M" where
  "bind m f s = (case m s of (Inl e, s') \<Rightarrow> (Inl e, s') | (Inr x, s') \<Rightarrow> f x s')"

definition seq :: "('s, 'a) M \<Rightarrow> ('s, 'b) M \<Rightarrow> ('s, 'b) M" where
  "seq m n = bind m (\<lambda>_. n)"

definition gets :: "('s \<Rightarrow> 'a) \<Rightarrow> ('s, 'a) M" where
  "gets f s = (Inr (f s), s)"

definition modify :: "('s \<Rightarrow> 's) \<Rightarrow> ('s, unit) M" where
  "modify f s = (Inr (), f s)"

definition throwIf :: "bool \<Rightarrow> exn \<Rightarrow> ('s, unit) M" where
  "throwIf b e = (if b then throw e else return ())"

definition tryCatch :: "('s, 'a) M \<Rightarrow> (exn \<Rightarrow> ('s, 'a) M) \<Rightarrow> ('s, 'a) M" where
  "tryCatch m h s = (case m s of (Inl e, s') \<Rightarrow> h e s' | (Inr x, s') \<Rightarrow> (Inr x, s'))"

text \<open>A transaction commits the body's writes when it returns and drops all of them
  when it throws.\<close>

definition transaction :: "('s, 'a) M \<Rightarrow> ('s, 'a) M" where
  "transaction m s = (case m s of (Inl e, _) \<Rightarrow> (Inl e, s) | (Inr x, s') \<Rightarrow> (Inr x, s'))"

fun forEach :: "'x list \<Rightarrow> ('x \<Rightarrow> ('s, unit) M) \<Rightarrow> ('s, unit) M" where
  "forEach [] f = return ()"
| "forEach (x # xs) f = seq (f x) (forEach xs f)"

fun mapEach :: "'x list \<Rightarrow> ('x \<Rightarrow> ('s, 'y) M) \<Rightarrow> ('s, 'y list) M" where
  "mapEach [] f = return []"
| "mapEach (x # xs) f = bind (f x) (\<lambda>y. bind (mapEach xs f) (\<lambda>ys. return (y # ys)))"

section \<open>Weakest preconditions\<close>

definition wp :: "('s, 'a) M \<Rightarrow> ('a \<Rightarrow> 's \<Rightarrow> bool) \<Rightarrow> (exn \<Rightarrow> 's \<Rightarrow> bool) \<Rightarrow> 's \<Rightarrow> bool" where
  "wp m Q E s = (case m s of (Inl e, s') \<Rightarrow> E e s' | (Inr x, s') \<Rightarrow> Q x s')"

lemma wp_return [wp_eqs]: "wp (return x) Q E = Q x"
  by (simp add: wp_def return_def fun_eq_iff)

lemma wp_throw [wp_eqs]: "wp (throw e) Q E = E e"
  by (simp add: wp_def throw_def fun_eq_iff)

lemma wp_bind [wp_eqs]: "wp (bind m f) Q E s = wp m (\<lambda>x. wp (f x) Q E) E s"
  by (simp add: wp_def bind_def split: prod.splits sum.splits)

lemma wp_seq [wp_eqs]: "wp (seq m n) Q E s = wp m (\<lambda>_. wp n Q E) E s"
  by (simp add: seq_def wp_bind)

lemma wp_gets [wp_eqs]: "wp (gets f) Q E s = Q (f s) s"
  by (simp add: wp_def gets_def)

lemma wp_modify [wp_eqs]: "wp (modify f) Q E s = Q () (f s)"
  by (simp add: wp_def modify_def)

lemma wp_throwIf [wp_eqs]: "wp (throwIf b e) Q E s = (if b then E e s else Q () s)"
  by (simp add: throwIf_def wp_throw wp_return)

lemma wp_tryCatch [wp_eqs]: "wp (tryCatch m h) Q E s = wp m Q (\<lambda>e. wp (h e) Q E) s"
  by (simp add: wp_def tryCatch_def split: prod.splits sum.splits)

lemma wp_transaction [wp_eqs]: "wp (transaction m) Q E s = wp m Q (\<lambda>e _. E e s) s"
  by (simp add: wp_def transaction_def split: prod.splits sum.splits)

lemma wp_if [wp_eqs]: "wp (if b then m else n) Q E s = (if b then wp m Q E s else wp n Q E s)"
  by simp

lemma wp_case_option [wp_eqs]:
  "wp (case x of None \<Rightarrow> m | Some y \<Rightarrow> n y) Q E s =
     (case x of None \<Rightarrow> wp m Q E s | Some y \<Rightarrow> wp (n y) Q E s)"
  by (cases x) simp_all

lemma wp_case_prod [wp_eqs]:
  "wp (case x of (a, b) \<Rightarrow> m a b) Q E s = (case x of (a, b) \<Rightarrow> wp (m a b) Q E s)"
  by (cases x) simp

lemma wp_let [wp_eqs]: "wp (Let x m) Q E s = Let x (\<lambda>y. wp (m y) Q E s)"
  by simp

lemma wp_mono:
  assumes "wp m Q E s"
    and "\<And>x t. Q x t \<Longrightarrow> Q' x t" and "\<And>e t. E e t \<Longrightarrow> E' e t"
  shows "wp m Q' E' s"
  using assms by (auto simp: wp_def split: prod.splits sum.splits)

lemma wp_run_eq: "m s = m' s \<Longrightarrow> wp m Q E s = wp m' Q E s"
  by (simp add: wp_def)

lemma wp_conj:
  "wp m Q E s \<Longrightarrow> wp m Q' E' s \<Longrightarrow> wp m (\<lambda>x t. Q x t \<and> Q' x t) (\<lambda>e t. E e t \<and> E' e t) s"
  by (auto simp: wp_def split: prod.splits sum.splits)

lemma wp_result: "wp m Q E s \<Longrightarrow> m s = (Inr x, t) \<Longrightarrow> Q x t"
  by (simp add: wp_def)

lemma wp_error: "wp m Q E s \<Longrightarrow> m s = (Inl e, t) \<Longrightarrow> E e t"
  by (simp add: wp_def)

lemma wp_iff:
  "wp m Q E s \<longleftrightarrow> (\<forall>x t. m s = (Inr x, t) \<longrightarrow> Q x t) \<and> (\<forall>e t. m s = (Inl e, t) \<longrightarrow> E e t)"
  by (auto simp: wp_def split: prod.splits sum.splits)

section \<open>Preservation\<close>

definition keeps :: "('s \<Rightarrow> bool) \<Rightarrow> ('s, 'a) M \<Rightarrow> bool" where
  "keeps P m \<longleftrightarrow> (\<forall>s. P s \<longrightarrow> P (snd (m s)))"

lemma keepsD: "keeps P m \<Longrightarrow> P s \<Longrightarrow> P (snd (m s))"
  by (simp add: keeps_def)

lemma wp_same: "wp m (\<lambda>_. P) (\<lambda>_. P) s = P (snd (m s))"
  by (cases "m s"; cases "fst (m s)") (auto simp: wp_def)

lemma keeps_iff_wp: "keeps P m \<longleftrightarrow> (\<forall>s. P s \<longrightarrow> wp m (\<lambda>_. P) (\<lambda>_. P) s)"
  by (simp add: keeps_def wp_same)

lemma keeps_wpI: "(\<And>s. P s \<Longrightarrow> wp m (\<lambda>_. P) (\<lambda>_. P) s) \<Longrightarrow> keeps P m"
  by (simp add: keeps_iff_wp)

lemma keeps_return [keeps_intros]: "keeps P (return x)"
  by (simp add: keeps_def return_def)

lemma keeps_throw [keeps_intros]: "keeps P (throw e)"
  by (simp add: keeps_def throw_def)

lemma keeps_gets [keeps_intros]: "keeps P (gets f)"
  by (simp add: keeps_def gets_def)

lemma keeps_bind [keeps_intros]:
  assumes "keeps P m" "\<And>x. keeps P (f x)"
  shows "keeps P (bind m f)"
  unfolding keeps_def
proof (intro allI impI)
  fix s assume s: "P s"
  obtain r t where m: "m s = (r, t)" by (cases "m s")
  have t: "P t" using keepsD [OF assms(1) s] m by simp
  show "P (snd (bind m f s))"
    using m t keepsD [OF assms(2) t] by (auto simp: bind_def split: sum.splits)
qed

lemma keeps_seq [keeps_intros]: "keeps P m \<Longrightarrow> keeps P n \<Longrightarrow> keeps P (seq m n)"
  by (simp add: seq_def keeps_bind)

lemma keeps_modify: "(\<And>s. P s \<Longrightarrow> P (f s)) \<Longrightarrow> keeps P (modify f)"
  by (simp add: keeps_def modify_def)

lemma keeps_throwIf [keeps_intros]: "keeps P (throwIf b e)"
  by (simp add: throwIf_def keeps_throw keeps_return)

lemma keeps_tryCatch [keeps_intros]:
  "keeps P m \<Longrightarrow> (\<And>e. keeps P (h e)) \<Longrightarrow> keeps P (tryCatch m h)"
  unfolding keeps_iff_wp wp_tryCatch by (auto intro: wp_mono)

lemma keeps_transaction [keeps_intros]: "keeps P m \<Longrightarrow> keeps P (transaction m)"
  unfolding keeps_iff_wp wp_transaction by (auto intro: wp_mono)

lemma keeps_if [keeps_intros]: "keeps P m \<Longrightarrow> keeps P n \<Longrightarrow> keeps P (if b then m else n)"
  by simp

lemma keeps_case_option [keeps_intros]:
  "keeps P m \<Longrightarrow> (\<And>y. keeps P (n y)) \<Longrightarrow> keeps P (case x of None \<Rightarrow> m | Some y \<Rightarrow> n y)"
  by (cases x) simp_all

lemma keeps_case_prod [keeps_intros]:
  "(\<And>a b. keeps P (m a b)) \<Longrightarrow> keeps P (case x of (a, b) \<Rightarrow> m a b)"
  by (cases x) simp

lemma keeps_let [keeps_intros]: "(\<And>y. keeps P (m y)) \<Longrightarrow> keeps P (Let x m)"
  by simp

lemma keeps_forEach [keeps_intros]:
  "(\<And>x. x \<in> set xs \<Longrightarrow> keeps P (f x)) \<Longrightarrow> keeps P (forEach xs f)"
  by (induction xs) (auto intro: keeps_return keeps_seq)

lemma keeps_mapEach [keeps_intros]:
  "(\<And>x. x \<in> set xs \<Longrightarrow> keeps P (f x)) \<Longrightarrow> keeps P (mapEach xs f)"
  by (induction xs) (auto intro!: keeps_return keeps_bind)

text \<open>An operation that never writes.\<close>

definition reads :: "('s, 'a) M \<Rightarrow> bool" where
  "reads m \<longleftrightarrow> (\<forall>s. snd (m s) = s)"

lemma reads_keeps: "reads m \<Longrightarrow> keeps P m"
  by (simp add: reads_def keeps_def)

section \<open>Lifecycles\<close>

text \<open>A status column that only moves along a step relation, with statuses no step leaves.\<close>

locale lifecycle =
  fixes step :: "'st \<Rightarrow> 'st \<Rightarrow> bool" and terminal :: "'st \<Rightarrow> bool"
  assumes stuck: "terminal a \<Longrightarrow> \<not> step a b"
begin

lemma terminal_forever: "step\<^sup>*\<^sup>* a b \<Longrightarrow> terminal a \<Longrightarrow> b = a"
  by (induction rule: rtranclp_induct) (auto dest: stuck)

lemma leaves_only_from_nonterminal: "step\<^sup>*\<^sup>* a b \<Longrightarrow> b \<noteq> a \<Longrightarrow> \<not> terminal a"
  using terminal_forever by blast

end

text \<open>Evaluation of whole programs on concrete states (for witnesses).\<close>

lemmas run_simps = return_def throw_def bind_def seq_def gets_def modify_def throwIf_def
  tryCatch_def transaction_def

end
