(* ===== verification/Tables.thy ===== *)
theory Tables
  imports Effects
begin

text \<open>
  Database tables.  A table is the list of its rows in ascending order of the
  autoincremented primary key, with the next key; the operations are the ones the
  services use through the Prisma client (findUnique and findFirst, findMany,
  create, update and updateMany, deleteMany, count and aggregate sums).  A table is
  well formed when its keys are positive, strictly ascending and below the next key;
  every operation keeps that.

  The locale keyed_store states the laws a client of a table relies on, and is
  interpreted on these definitions; its lemmas are the ones the component theories
  use to follow a row through several writes.
\<close>

record 'r table =
  next_id :: int
  rows :: "'r list"

definition empty_table :: "'r table" where
  "empty_table = \<lparr>next_id = 1, rows = []\<rparr>"

definition t_find :: "('r \<Rightarrow> bool) \<Rightarrow> 'r table \<Rightarrow> 'r option" where
  "t_find P t = List.find P (rows t)"

definition t_filter :: "('r \<Rightarrow> bool) \<Rightarrow> 'r table \<Rightarrow> 'r list" where
  "t_filter P t = filter P (rows t)"

definition t_count :: "('r \<Rightarrow> bool) \<Rightarrow> 'r table \<Rightarrow> nat" where
  "t_count P t = length (t_filter P t)"

definition t_sum :: "('r \<Rightarrow> bool) \<Rightarrow> ('r \<Rightarrow> int) \<Rightarrow> 'r table \<Rightarrow> int" where
  "t_sum P f t = sum_list (map f (t_filter P t))"

definition t_exists :: "('r \<Rightarrow> bool) \<Rightarrow> 'r table \<Rightarrow> bool" where
  "t_exists P t = list_ex P (rows t)"

text \<open>create takes the row as a function of the fresh key and returns the row.\<close>

definition t_new :: "(int \<Rightarrow> 'r) \<Rightarrow> 'r table \<Rightarrow> 'r" where
  "t_new f t = f (next_id t)"

definition t_insert :: "(int \<Rightarrow> 'r) \<Rightarrow> 'r table \<Rightarrow> 'r table" where
  "t_insert f t = \<lparr>next_id = next_id t + 1, rows = rows t @ [f (next_id t)]\<rparr>"

definition t_update :: "('r \<Rightarrow> bool) \<Rightarrow> ('r \<Rightarrow> 'r) \<Rightarrow> 'r table \<Rightarrow> 'r table" where
  "t_update P f t = t\<lparr>rows := map (\<lambda>r. if P r then f r else r) (rows t)\<rparr>"

definition t_delete :: "('r \<Rightarrow> bool) \<Rightarrow> 'r table \<Rightarrow> 'r table" where
  "t_delete P t = t\<lparr>rows := filter (\<lambda>r. \<not> P r) (rows t)\<rparr>"

section \<open>Well-formed tables\<close>

definition wf_table :: "('r \<Rightarrow> int) \<Rightarrow> 'r table \<Rightarrow> bool" where
  "wf_table k t \<longleftrightarrow> sorted_wrt (<) (map k (rows t)) \<and> (\<forall>r\<in>set (rows t). 0 < k r \<and> k r < next_id t)
                  \<and> 0 < next_id t"

lemma wf_empty_table [simp]: "wf_table k empty_table"
  by (simp add: wf_table_def empty_table_def)

lemma wf_t_insert [simp]: "wf_table k t \<Longrightarrow> (\<And>i. k (f i) = i) \<Longrightarrow> wf_table k (t_insert f t)"
  by (auto simp: wf_table_def t_insert_def sorted_wrt_append)

lemma wf_t_update [simp]: "wf_table k t \<Longrightarrow> (\<And>r. P r \<Longrightarrow> k (f r) = k r) \<Longrightarrow> wf_table k (t_update P f t)"
proof -
  assume w: "wf_table k t" and f: "\<And>r. P r \<Longrightarrow> k (f r) = k r"
  have eq: "map k (map (\<lambda>r. if P r then f r else r) (rows t)) = map k (rows t)"
    using f by simp
  show ?thesis
    using w f eq by (auto simp: wf_table_def t_update_def simp del: map_map)
qed

lemma wf_t_delete [simp]: "wf_table k t \<Longrightarrow> wf_table k (t_delete P t)"
  by (auto simp: wf_table_def t_delete_def intro: sorted_wrt_map_filter)

lemma wf_distinct: "wf_table k t \<Longrightarrow> distinct (map k (rows t))"
  by (auto simp: wf_table_def strict_sorted_iff)

lemma wf_key_unique: "wf_table k t \<Longrightarrow> r \<in> set (rows t) \<Longrightarrow> r' \<in> set (rows t) \<Longrightarrow> k r = k r' \<Longrightarrow> r = r'"
  by (drule wf_distinct) (auto simp: distinct_map dest: inj_onD)

lemma t_find_Some: "t_find P t = Some r \<Longrightarrow> r \<in> set (rows t) \<and> P r"
  by (simp add: t_find_def find_Some_in)

lemma t_find_None: "t_find P t = None \<longleftrightarrow> (\<forall>r\<in>set (rows t). \<not> P r)"
  by (auto simp: t_find_def find_None_iff)

lemma t_find_key: "wf_table k t \<Longrightarrow> r \<in> set (rows t) \<Longrightarrow> t_find (\<lambda>x. k x = k r) t = Some r"
  unfolding t_find_def by (rule find_eq_Some_distinct) (auto dest: wf_distinct)

lemma t_find_fresh: "wf_table k t \<Longrightarrow> t_find (\<lambda>x. k x = next_id t) t = None"
  by (auto simp: t_find_None wf_table_def)

lemma rows_t_insert [table_simps]: "rows (t_insert f t) = rows t @ [f (next_id t)]"
  by (simp add: t_insert_def)

lemma next_t_insert [table_simps]: "next_id (t_insert f t) = next_id t + 1"
  by (simp add: t_insert_def)

lemma rows_t_update [table_simps]: "rows (t_update P f t) = map (\<lambda>r. if P r then f r else r) (rows t)"
  by (simp add: t_update_def)

lemma next_t_update [table_simps]: "next_id (t_update P f t) = next_id t"
  by (simp add: t_update_def)

lemma t_sum_insert [table_simps]:
  "t_sum P f (t_insert g t) = t_sum P f t + (if P (t_new g t) then f (t_new g t) else 0)"
  by (simp add: t_sum_def t_filter_def t_insert_def t_new_def)

lemma t_sum_update_same:
  "(\<And>r. P (g r) = P r) \<Longrightarrow> (\<And>r. f (g r) = f r) \<Longrightarrow> t_sum P f (t_update Q g t) = t_sum P f t"
proof -
  assume P: "\<And>r. P (g r) = P r" and f: "\<And>r. f (g r) = f r"
  have "sum_list (map f (filter P (map (\<lambda>r. if Q r then g r else r) rs))) = sum_list (map f (filter P rs))"
    for rs by (induction rs) (auto simp: P f)
  then show ?thesis by (simp add: t_sum_def t_filter_def t_update_def)
qed

lemma t_update_empty: "(\<And>r. r \<in> set (rows t) \<Longrightarrow> \<not> P r) \<Longrightarrow> t_update P f t = t"
  by (simp add: t_update_def map_idI)

section \<open>The interface of a keyed table\<close>

text \<open>What the services rely on: reading back what was written by key, and that a
  write by key touches nothing else.\<close>

locale keyed_store =
  fixes wf :: "'t \<Rightarrow> bool"
    and key :: "'r \<Rightarrow> int"
    and lookup :: "int \<Rightarrow> 't \<Rightarrow> 'r option"
    and create :: "(int \<Rightarrow> 'r) \<Rightarrow> 't \<Rightarrow> 't"
    and fresh :: "'t \<Rightarrow> int"
    and change :: "int \<Rightarrow> ('r \<Rightarrow> 'r) \<Rightarrow> 't \<Rightarrow> 't"
  assumes lookup_key: "wf t \<Longrightarrow> lookup i t = Some r \<Longrightarrow> key r = i"
    and lookup_fresh: "wf t \<Longrightarrow> lookup (fresh t) t = None"
    and wf_create: "wf t \<Longrightarrow> (\<And>i. key (f i) = i) \<Longrightarrow> wf (create f t)"
    and lookup_create: "wf t \<Longrightarrow> (\<And>i. key (f i) = i) \<Longrightarrow>
           lookup i (create f t) = (if i = fresh t then Some (f i) else lookup i t)"
    and wf_change: "wf t \<Longrightarrow> (\<And>r. key (g r) = key r) \<Longrightarrow> wf (change i g t)"
    and lookup_change: "wf t \<Longrightarrow> (\<And>r. key (g r) = key r) \<Longrightarrow>
           lookup j (change i g t) = (if j = i then map_option g (lookup j t) else lookup j t)"
begin

lemma create_other: "wf t \<Longrightarrow> (\<And>i. key (f i) = i) \<Longrightarrow> lookup i t = Some r \<Longrightarrow>
    lookup i (create f t) = Some r"
  using lookup_fresh [of t] by (auto simp: lookup_create)

lemma create_own: "wf t \<Longrightarrow> (\<And>i. key (f i) = i) \<Longrightarrow> lookup (fresh t) (create f t) = Some (f (fresh t))"
  by (simp add: lookup_create)

lemma change_other: "wf t \<Longrightarrow> (\<And>r. key (g r) = key r) \<Longrightarrow> j \<noteq> i \<Longrightarrow>
    lookup j (change i g t) = lookup j t"
  by (simp add: lookup_change)

lemma change_own: "wf t \<Longrightarrow> (\<And>r. key (g r) = key r) \<Longrightarrow> lookup i t = Some r \<Longrightarrow>
    lookup i (change i g t) = Some (g r)"
  by (simp add: lookup_change)

lemma change_change: "wf t \<Longrightarrow> (\<And>r. key (g r) = key r) \<Longrightarrow> (\<And>r. key (h r) = key r) \<Longrightarrow>
    lookup j (change i h (change i g t)) = lookup j (change i (h \<circ> g) t)"
  by (simp add: lookup_change wf_change option.map_comp)

lemma change_dom: "wf t \<Longrightarrow> (\<And>r. key (g r) = key r) \<Longrightarrow>
    (lookup j (change i g t) = None) = (lookup j t = None)"
  by (simp add: lookup_change)

end

definition t_get :: "('r \<Rightarrow> int) \<Rightarrow> int \<Rightarrow> 'r table \<Rightarrow> 'r option" where
  "t_get k i t = t_find (\<lambda>r. k r = i) t"

definition t_change :: "('r \<Rightarrow> int) \<Rightarrow> int \<Rightarrow> ('r \<Rightarrow> 'r) \<Rightarrow> 'r table \<Rightarrow> 'r table" where
  "t_change k i g t = t_update (\<lambda>r. k r = i) g t"

lemma t_get_key: "t_get k i t = Some r \<Longrightarrow> k r = i"
  unfolding t_get_def by (drule t_find_Some) simp

lemma t_get_in: "t_get k i t = Some r \<Longrightarrow> r \<in> set (rows t)"
  unfolding t_get_def by (drule t_find_Some) simp

lemma t_get_self: "wf_table k t \<Longrightarrow> r \<in> set (rows t) \<Longrightarrow> t_get k (k r) t = Some r"
  by (simp add: t_get_def t_find_key)

lemma t_get_insert:
  assumes "wf_table k t" "\<And>i. k (f i) = i"
  shows "t_get k i (t_insert f t) = (if i = next_id t then Some (f i) else t_get k i t)"
proof (cases "i = next_id t")
  case True
  have "List.find (\<lambda>r. k r = next_id t) (rows t) = None"
    using t_find_fresh [OF assms(1)] by (simp add: t_find_def)
  then show ?thesis using True assms(2) by (simp add: t_get_def t_find_def t_insert_def find_append)
next
  case False
  then show ?thesis using assms(2)
    by (auto simp: t_get_def t_find_def t_insert_def find_append split: option.splits)
qed

lemma t_get_change:
  assumes "\<And>r. k (g r) = k r"
  shows "t_get k j (t_change k i g t) = (if j = i then map_option g (t_get k j t) else t_get k j t)"
proof -
  have "List.find (\<lambda>r. k r = j) (map (\<lambda>r. if k r = i then g r else r) rs) =
        (if j = i then map_option g (List.find (\<lambda>r. k r = j) rs) else List.find (\<lambda>r. k r = j) rs)" for rs
    using assms by (induction rs) auto
  then show ?thesis by (simp add: t_get_def t_change_def t_find_def t_update_def)
qed

lemma wf_t_change [simp]: "wf_table k t \<Longrightarrow> (\<And>r. k (g r) = k r) \<Longrightarrow> wf_table k (t_change k i g t)"
  by (simp add: t_change_def)

interpretation tbl: keyed_store "wf_table k" k "t_get k" t_insert next_id "t_change k" for k
  by unfold_locales
     (auto simp: t_get_key t_get_insert t_get_change t_find_fresh t_get_def [of _ "next_id _"])

lemma t_change_absent: "t_get k i t = None \<Longrightarrow> t_change k i g t = t"
  unfolding t_get_def t_change_def by (rule t_update_empty) (auto simp: t_find_None)

end
