(* ===== verification/Schema.thy ===== *)
theory Schema
  imports Tables
begin

text \<open>
  The core data model of prisma/schema.prisma: one record per table of the core,
  the enumerations as datatypes, and the whole state of the core as the record sys:
  its tables, the Redis key-value store and the messages handed to the SMS and
  e-mail providers.  Records are extensible, so the state of the agents module (see
  Market) extends sys and every core operation also runs on it.
\<close>

datatype user_status = PENDING_PROFILE | ACTIVE | SUSPENDED | DELETED

record user =
  u_id :: int
  u_phone :: string
  u_firstName :: "string option"
  u_lastName :: "string option"
  u_nationalId :: "string option"
  u_email :: "string option"
  u_status :: user_status
  u_profileCompletedAt :: "int option"
  u_phoneVerifiedAt :: "int option"
  u_totpSecret :: "string option"
  u_createdAt :: int
  u_updatedAt :: int
  u_deletedAt :: "int option"

record session_row =
  s_id :: int
  s_userId :: int
  s_refreshTokenHash :: string
  s_userAgent :: "string option"
  s_ipAddress :: "string option"
  s_expiresAt :: int
  s_revokedAt :: "int option"
  s_createdAt :: int

record impersonation_row =
  im_id :: int
  im_actorUserId :: int
  im_targetUserId :: int
  im_sessionId :: "int option"
  im_reason :: string
  im_startedAt :: int
  im_endedAt :: "int option"
  im_revokedReason :: "string option"

record role =
  r_id :: int
  r_name :: string
  r_persianName :: string
  r_isSystem :: bool

record permission =
  p_id :: int
  p_code :: string
  p_description :: "string option"

record user_role =
  ur_userId :: int
  ur_roleId :: int
  ur_scope :: json

record audit_row =
  a_id :: int
  a_actorUserId :: "int option"
  a_action :: string
  a_resource :: string
  a_resourceId :: "string option"
  a_payloadHash :: string
  a_failed :: bool
  a_ipAddress :: "string option"
  a_userAgent :: "string option"
  a_createdAt :: int

datatype channel = IN_APP | EMAIL | SMS

record notification =
  n_id :: int
  n_userId :: int
  n_channel :: channel
  n_type :: string
  n_payload :: "(string \<times> json) list"
  n_readAt :: "int option"
  n_createdAt :: int

datatype ledger_kind = DEBIT | CREDIT

record ledger_entry =
  e_id :: int
  e_userId :: "int option"
  e_walletId :: "int option"
  e_kind :: ledger_kind
  e_amount :: int
  e_reference :: "string option"
  e_description :: "string option"
  e_metadata :: json
  e_createdAt :: int

record wallet =
  w_id :: int
  w_userId :: int
  w_balance :: int

record file_row =
  f_id :: int
  f_ownerUserId :: int
  f_path :: string
  f_originalName :: string
  f_mimeType :: string
  f_size :: int
  f_sha256 :: string
  f_createdAt :: int
  f_deletedAt :: "int option"

record otp_attempt =
  o_id :: int
  o_phone :: string
  o_codeHash :: string
  o_attempts :: int
  o_expiresAt :: int
  o_consumedAt :: "int option"
  o_createdAt :: int

datatype payout_status = PO_PENDING | PO_APPROVED | PO_REJECTED | PO_PAID | PO_CANCELLED

record payout_request =
  po_id :: int
  po_userId :: int
  po_walletId :: int
  po_amount :: int
  po_bankAccount :: string
  po_accountHolder :: string
  po_status :: payout_status
  po_submittedAt :: int
  po_reviewedByUserId :: "int option"
  po_reviewedAt :: "int option"
  po_rejectionReason :: "string option"
  po_paidAt :: "int option"
  po_paymentReference :: "string option"

datatype payment_status = PENDING | SUCCEEDED | FAILED | CANCELLED | EXPIRED

record payment =
  pay_id :: int
  pay_userId :: int
  pay_amount :: int
  pay_purpose :: string
  pay_description :: string
  pay_status :: payment_status
  pay_providerName :: string
  pay_providerReference :: "string option"
  pay_referenceCode :: "string option"
  pay_cardPanMasked :: "string option"
  pay_metadata :: json
  pay_initiatedAt :: int
  pay_completedAt :: "int option"
  pay_failureReason :: "string option"

datatype refund_status = PENDING_MANUAL | COMPLETED

record refund_row =
  rf_id :: int
  rf_paymentId :: int
  rf_amount :: int
  rf_reason :: string
  rf_status :: refund_status
  rf_requestedByUserId :: int
  rf_requestedAt :: int
  rf_completedAt :: "int option"
  rf_bankReference :: "string option"

record module_install =
  mi_id :: int
  mi_name :: string
  mi_version :: string

text \<open>A Redis key holds a string, a counter or a sorted set of scored members, with an
  absolute expiry time when it has one.\<close>

datatype redis_value = RStr string | RInt int | RZSet "(int \<times> string) list"

type_synonym redis = "(string \<times> redis_value \<times> int option) list"

record sys =
  users :: "user table"
  sessions :: "session_row table"
  impersonations :: "impersonation_row table"
  roles :: "role table"
  permissions :: "permission table"
  role_permissions :: "(int \<times> int) list"
  user_roles :: "user_role list"
  audit_logs :: "audit_row table"
  notifications :: "notification table"
  wallets :: "wallet table"
  ledger_entries :: "ledger_entry table"
  files :: "file_row table"
  otp_attempts :: "otp_attempt table"
  payout_requests :: "payout_request table"
  payments :: "payment table"
  refunds :: "refund_row table"
  modules_installed :: "module_install table"
  redis_store :: redis
  sms_sent :: "(string \<times> string) list"
  email_sent :: "(string \<times> string \<times> string) list"

definition empty_sys :: sys where
  "empty_sys = \<lparr>users = empty_table, sessions = empty_table, impersonations = empty_table,
     roles = empty_table, permissions = empty_table, role_permissions = [], user_roles = [],
     audit_logs = empty_table, notifications = empty_table, wallets = empty_table,
     ledger_entries = empty_table, files = empty_table, otp_attempts = empty_table,
     payout_requests = empty_table, payments = empty_table, refunds = empty_table,
     modules_installed = empty_table, redis_store = [], sms_sent = [], email_sent = []\<rparr>"

text \<open>create on a table of the state, given the field's update function: insert the row
  and return it.\<close>

definition create_in :: "('s \<Rightarrow> 'r table) \<Rightarrow> (('r table \<Rightarrow> 'r table) \<Rightarrow> 's \<Rightarrow> 's) \<Rightarrow>
    (int \<Rightarrow> 'r) \<Rightarrow> ('s, 'r) M" where
  "create_in sel upd f s = (Inr (t_new f (sel s)), upd (t_insert f) s)"

text \<open>update by key on a table of the state: the row as written, or Prisma's P2025
  when there is none.\<close>

definition update_in :: "('s \<Rightarrow> 'r table) \<Rightarrow> (('r table \<Rightarrow> 'r table) \<Rightarrow> 's \<Rightarrow> 's) \<Rightarrow>
    ('r \<Rightarrow> int) \<Rightarrow> int \<Rightarrow> ('r \<Rightarrow> 'r) \<Rightarrow> ('s, 'r) M" where
  "update_in sel upd k i g s =
     (case t_get k i (sel s) of
        None \<Rightarrow> (Inl (PrismaKnown ''P2025'' JUndefined), s)
      | Some r \<Rightarrow> (Inr (g r), upd (t_change k i g) s))"

lemma wp_create_in [wp_eqs]:
  "wp (create_in sel upd f) Q E s = Q (t_new f (sel s)) (upd (t_insert f) s)"
  by (simp add: wp_def create_in_def)

lemma wp_update_in [wp_eqs]:
  "wp (update_in sel upd k i g) Q E s =
     (case t_get k i (sel s) of
        None \<Rightarrow> E (PrismaKnown ''P2025'' JUndefined) s
      | Some r \<Rightarrow> Q (g r) (upd (t_change k i g) s))"
  by (simp add: wp_def update_in_def split: option.splits)

lemma keeps_create_in: "(\<And>s. P s \<Longrightarrow> P (upd (t_insert f) s)) \<Longrightarrow> keeps P (create_in sel upd f)"
  by (simp add: keeps_def create_in_def)

lemma keeps_update_in:
  "(\<And>s r. P s \<Longrightarrow> t_get k i (sel s) = Some r \<Longrightarrow> P (upd (t_change k i g) s)) \<Longrightarrow>
   keeps P (update_in sel upd k i g)"
  by (simp add: keeps_def update_in_def split: option.splits)

end
