(* ===== verification/Pagination.thy ===== *)
theory Pagination
  imports Tables
begin

text \<open>
  The cursor pagination every list endpoint repeats (findEntriesForWallet,
  findForUser, findForAdmin, queryNotifications, findRefundsForAdmin): fetch limit + 1
  rows below the cursor in descending id order, cut the extra one off, and return the
  last id as the next cursor.  paginate is that routine on the rows a query's where
  clause leaves; walk follows nextCursor until hasMore is false.

  The locale paged_source states what the routine needs of a table (ascending distinct
  keys) and shows that walking the pages returns every row exactly once, newest first,
  with at most one request per row and one more; the component theories interpret it on
  their tables.
\<close>

record 'r page =
  items :: "'r list"
  nextCursor :: "int option"
  hasMore :: bool

text \<open>where: the filter id < cursor, then newest first.\<close>

definition below :: "('r \<Rightarrow> int) \<Rightarrow> int option \<Rightarrow> 'r list \<Rightarrow> 'r list" where
  "below k cursor rs = rev (filter (\<lambda>r. case cursor of None \<Rightarrow> True | Some c \<Rightarrow> k r < c) rs)"

definition paginate :: "('r \<Rightarrow> int) \<Rightarrow> int option \<Rightarrow> nat \<Rightarrow> 'r list \<Rightarrow> 'r page" where
  "paginate k cursor limit matching =
     (let got = take (limit + 1) (below k cursor matching);
          more = length got > limit;
          its = (if more then take limit got else got)
      in \<lparr>items = its,
          nextCursor = (if more \<and> its \<noteq> [] then Some (k (last its)) else None),
          hasMore = more\<rparr>)"

text \<open>A client that follows nextCursor; the fuel bounds the number of requests.\<close>

fun walk :: "nat \<Rightarrow> (int option \<Rightarrow> 'r page) \<Rightarrow> int option \<Rightarrow> 'r list option" where
  "walk 0 fetch cursor = None"
| "walk (Suc n) fetch cursor =
     (let p = fetch cursor in
      if hasMore p then map_option (\<lambda>rest. items p @ rest) (walk n fetch (nextCursor p))
      else Some (items p))"

definition walk_all :: "('r \<Rightarrow> int) \<Rightarrow> nat \<Rightarrow> 'r list \<Rightarrow> 'r list option" where
  "walk_all k limit rs = walk (length rs + 1) (\<lambda>c. paginate k c limit rs) None"

lemma paginate_limit: "length (items (paginate k c limit rs)) \<le> limit"
  by (simp add: paginate_def Let_def)

lemma paginate_items: "items (paginate k c limit rs) = take limit (below k c rs)"
  by (simp add: paginate_def Let_def min_def)

lemma paginate_hasMore: "hasMore (paginate k c limit rs) = (limit < length (below k c rs))"
  by (simp add: paginate_def Let_def)

lemma paginate_nextCursor: "nextCursor (paginate k c limit rs) =
    (if limit < length (below k c rs) \<and> 0 < limit then Some (k (below k c rs ! (limit - 1))) else None)"
  by (auto simp: paginate_def Let_def last_conv_nth min_def)

lemma below_sorted:
  assumes ascending: "sorted_wrt (<) (map k rs)"
  shows "sorted_wrt (\<lambda>a b. k b < k a) (below k c rs)"
proof -
  have "sorted_wrt (\<lambda>a b. k a < k b) rs" using ascending by (simp add: sorted_wrt_map)
  then show ?thesis by (simp add: below_def sorted_wrt_rev sorted_wrt_filter)
qed

text \<open>Asking below the last row of a page gives what the page left out.\<close>

lemma below_next:
  assumes ascending: "sorted_wrt (<) (map k rs)" and "n < length (below k c rs)"
  shows "below k (Some (k (below k c rs ! n))) rs = drop (Suc n) (below k c rs)"
proof -
  let ?b = "below k c rs"
  obtain x where x_def: "x = k (?b ! n)" by simp
  have xc: "case c of None \<Rightarrow> True | Some c' \<Rightarrow> x < c'"
    using assms(2) nth_mem [of n ?b] unfolding x_def by (auto simp: below_def split: option.splits)
  have "below k (Some x) rs = filter (\<lambda>r. k r < x) ?b"
    unfolding below_def rev_filter filter_filter
    by (rule filter_cong) (use xc in \<open>auto split: option.splits\<close>)
  also have "\<dots> = filter (\<lambda>r. k r < x) (take (Suc n) ?b) @ filter (\<lambda>r. k r < x) (drop (Suc n) ?b)"
    by (metis append_take_drop_id filter_append)
  also have "filter (\<lambda>r. k r < x) (take (Suc n) ?b) = []"
  proof -
    have "\<not> k r < x" if r: "r \<in> set (take (Suc n) ?b)" for r
    proof -
      from r obtain i where "i < Suc n" "r = ?b ! i" using assms(2) by (auto simp: in_set_conv_nth)
      then show ?thesis
        using sorted_wrt_nth_less [OF below_sorted [OF ascending], of i n c] assms(2) x_def by (cases "i = n") auto
    qed
    then show ?thesis by (simp add: filter_empty_conv)
  qed
  also have "filter (\<lambda>r. k r < x) (drop (Suc n) ?b) = drop (Suc n) ?b"
  proof -
    have "k r < x" if r: "r \<in> set (drop (Suc n) ?b)" for r
    proof -
      from r obtain i where "i < length ?b - Suc n" "r = ?b ! (Suc n + i)"
        by (auto simp: in_set_conv_nth)
      then show ?thesis
        using sorted_wrt_nth_less [OF below_sorted [OF ascending], of n "Suc n + i" c] x_def by auto
    qed
    then show ?thesis by (simp add: filter_id_conv)
  qed
  finally show ?thesis by (simp add: x_def)
qed

lemma walk_below:
  assumes ascending: "sorted_wrt (<) (map k rs)" and "0 < limit" "length (below k c rs) < fuel"
  shows "walk fuel (\<lambda>c. paginate k c limit rs) c = Some (below k c rs)"
  using assms(3)
proof (induction fuel arbitrary: c)
  case (Suc fuel)
  show ?case
  proof (cases "limit < length (below k c rs)")
    case True
    let ?d = "Some (k (below k c rs ! (limit - 1)))"
    have d: "below k ?d rs = drop limit (below k c rs)"
      using below_next [OF ascending, of "limit - 1" c] True assms(2) by simp
    then have "length (below k ?d rs) < fuel" using Suc.prems True assms(2) by simp
    from Suc.IH [OF this] d True assms(2) show ?thesis
      by (simp add: paginate_hasMore paginate_nextCursor paginate_items)
  next
    case False
    then show ?thesis by (simp add: paginate_hasMore paginate_items)
  qed
qed simp

locale paged_source =
  fixes wf :: "'t \<Rightarrow> bool" and k :: "'r \<Rightarrow> int" and sel :: "'t \<Rightarrow> 'r list"
  assumes ascending: "wf t \<Longrightarrow> sorted_wrt (<) (map k (sel t))"
begin

lemma page_rest:
  assumes "wf t" "0 < limit" "limit < length (below k c (sel t))"
  shows "below k (nextCursor (paginate k c limit (sel t))) (sel t) = drop limit (below k c (sel t))"
  using below_next [OF ascending [OF assms(1)], of "limit - 1" c] assms
  by (simp add: paginate_nextCursor)

lemma page_descending: "wf t \<Longrightarrow> sorted_wrt (\<lambda>a b. k b < k a) (items (paginate k c limit (sel t)))"
  by (simp add: paginate_items sorted_wrt_take below_sorted ascending)

lemma page_complete: "wf t \<Longrightarrow> 0 < limit \<Longrightarrow> walk_all k limit (sel t) = Some (rev (sel t))"
  using walk_below [OF ascending, of t limit None "length (sel t) + 1"]
  by (simp add: walk_all_def below_def)

lemma rows_distinct: "wf t \<Longrightarrow> distinct (map k (sel t))"
  using ascending [of t] by (simp add: strict_sorted_iff)

end

interpretation table_pages: paged_source "wf_table k" k "t_filter P" for k P
  by unfold_locales (auto simp: wf_table_def t_filter_def intro: sorted_wrt_map_filter)

end
