(* ===== verification/Notifications.thy ===== *)
theory Notifications
  imports Schema Templates Pagination
begin

text \<open>
  core/notifications/notifications.service.ts with the SMS and e-mail services it
  calls: registerType and the template lookup (module templates before the static
  catalog), dispatch with its per-channel try/catch, markRead, markAllRead, the page
  queries, countUnread and renderForUser.  The lemmas show that dispatch never throws
  and writes only the notifications and the message logs, that a one-time code is
  never stored, and how the read marks behave.
\<close>

record env =
  env_now :: int
  env_sms_provider :: string
  env_ext_templates :: "(string \<times> template) list"
  env_lib_message :: "exn \<Rightarrow> string"

text \<open>err.message: the thrown text; for library errors the library's own text.\<close>

definition exn_message :: "env \<Rightarrow> exn \<Rightarrow> string" where
  "exn_message env e = (case e of
       JsError m \<Rightarrow> m
     | HttpException _ (RespString m) \<Rightarrow> m
     | HttpException _ (RespObject r) \<Rightarrow>
         (case jget r ''message'' of JStr m \<Rightarrow> m | _ \<Rightarrow> env_lib_message env e)
     | _ \<Rightarrow> env_lib_message env e)"

section \<open>Templates\<close>

record notification_type =
  nt_type :: string
  nt_inApp :: "(string \<times> (payload \<Rightarrow> string)) option"
  nt_sms :: "(payload \<Rightarrow> string) option"
  nt_email :: "(string \<times> (payload \<Rightarrow> string)) option"

definition registerType :: "notification_type \<Rightarrow> env \<Rightarrow> env" where
  "registerType d env =
     env\<lparr>env_ext_templates :=
           (nt_type d, \<lparr>tp_inApp = nt_inApp d, tp_sms = nt_sms d, tp_email = nt_email d\<rparr>)
           # filter (\<lambda>p. fst p \<noteq> nt_type d) (env_ext_templates env)\<rparr>"

definition template_for :: "env \<Rightarrow> string \<Rightarrow> template option" where
  "template_for env ty =
     (case map_of (env_ext_templates env) ty of
        Some t \<Rightarrow> Some t
      | None \<Rightarrow> NOTIFICATION_TEMPLATES ty)"

section \<open>Dispatch\<close>

definition sms_send :: "env \<Rightarrow> string \<Rightarrow> string \<Rightarrow> ('x sys_scheme, unit) M" where
  "sms_send env phone message =
     (if env_sms_provider env = ''console''
      then modify (sms_sent_update (\<lambda>l. l @ [(phone, message)]))
      else return ())"

text \<open>The console provider is the only one that starts: it logs the message.\<close>

definition email_send :: "string \<Rightarrow> string \<Rightarrow> string \<Rightarrow> ('x sys_scheme, unit) M" where
  "email_send to subject body = modify (email_sent_update (\<lambda>l. l @ [(to, subject, body)]))"

definition find_user :: "int \<Rightarrow> 'x sys_scheme \<Rightarrow> user option" where
  "find_user uid s = t_get u_id uid (users s)"

text \<open>notification.create: the foreign key to users makes it throw for an unknown user.\<close>

definition notification_create ::
    "int \<Rightarrow> int \<Rightarrow> channel \<Rightarrow> string \<Rightarrow> payload \<Rightarrow> ('x sys_scheme, notification) M" where
  "notification_create now uid ch ty pl =
     bind (gets (find_user uid)) (\<lambda>u.
       case u of
         None \<Rightarrow> throw (PrismaKnown ''P2003'' JUndefined)
       | Some _ \<Rightarrow> create_in notifications notifications_update
           (\<lambda>i. \<lparr>n_id = i, n_userId = uid, n_channel = ch, n_type = ty, n_payload = pl,
                 n_readAt = None, n_createdAt = now\<rparr>))"

datatype outcome = Dispatched | Skipped | Failure string

record dispatch_result =
  dr_dispatched :: "channel list"
  dr_failures :: "(channel \<times> string) list"

definition dispatch_body ::
    "env \<Rightarrow> int \<Rightarrow> string \<Rightarrow> payload \<Rightarrow> template \<Rightarrow> channel \<Rightarrow> ('x sys_scheme, outcome) M" where
  "dispatch_body env userId ty pl tmpl ch =
     (case ch of
        IN_APP \<Rightarrow>
          if ty \<in> set NON_PERSISTENT_TYPES then return Skipped
          else (case tp_inApp tmpl of
                  None \<Rightarrow> return Skipped
                | Some _ \<Rightarrow> seq (notification_create (env_now env) userId IN_APP ty pl)
                             (return Dispatched))
      | SMS \<Rightarrow>
          (case tp_sms tmpl of
             None \<Rightarrow> return Skipped
           | Some render \<Rightarrow> bind (gets (find_user userId)) (\<lambda>u.
               case u of
                 None \<Rightarrow> return (Failure ''User not found'')
               | Some user \<Rightarrow> seq (sms_send env (u_phone user) (render pl)) (return Dispatched)))
      | EMAIL \<Rightarrow>
          (case tp_email tmpl of
             None \<Rightarrow> return Skipped
           | Some (subject, render) \<Rightarrow> bind (gets (find_user userId)) (\<lambda>u.
               case u of
                 None \<Rightarrow> return Skipped
               | Some user \<Rightarrow>
                   (case u_email user of
                      None \<Rightarrow> return Skipped
                    | Some address \<Rightarrow>
                        if address = [] then return Skipped
                        else seq (email_send address subject (render pl)) (return Dispatched)))))"

definition record_outcome :: "channel \<Rightarrow> outcome \<Rightarrow> dispatch_result \<Rightarrow> dispatch_result" where
  "record_outcome ch oc r = (case oc of
       Dispatched \<Rightarrow> r\<lparr>dr_dispatched := dr_dispatched r @ [ch]\<rparr>
     | Skipped \<Rightarrow> r
     | Failure msg \<Rightarrow> r\<lparr>dr_failures := dr_failures r @ [(ch, msg)]\<rparr>)"

fun dispatch_channels ::
    "env \<Rightarrow> int \<Rightarrow> string \<Rightarrow> payload \<Rightarrow> template \<Rightarrow> channel list \<Rightarrow> dispatch_result \<Rightarrow>
     ('x sys_scheme, dispatch_result) M" where
  "dispatch_channels env userId ty pl tmpl [] r = return r"
| "dispatch_channels env userId ty pl tmpl (ch # chs) r =
     bind (tryCatch (dispatch_body env userId ty pl tmpl ch)
                    (\<lambda>e. return (Failure (exn_message env e))))
       (\<lambda>oc. dispatch_channels env userId ty pl tmpl chs (record_outcome ch oc r))"

definition dispatch ::
    "env \<Rightarrow> int \<Rightarrow> string \<Rightarrow> payload \<Rightarrow> channel list \<Rightarrow> ('x sys_scheme, dispatch_result) M" where
  "dispatch env userId ty pl channels =
     (case template_for env ty of
        None \<Rightarrow> return \<lparr>dr_dispatched = [], dr_failures = []\<rparr>
      | Some tmpl \<Rightarrow> dispatch_channels env userId ty pl tmpl channels
                      \<lparr>dr_dispatched = [], dr_failures = []\<rparr>)"

section \<open>Read marks and queries\<close>

definition markRead :: "env \<Rightarrow> int \<Rightarrow> int \<Rightarrow> ('x sys_scheme, unit) M" where
  "markRead env notificationId userId =
     bind (gets (\<lambda>s. t_get n_id notificationId (notifications s))) (\<lambda>n.
       case n of
         None \<Rightarrow> throw (http_exn NOT_FOUND 404 ''Notification not found'')
       | Some r \<Rightarrow>
           if n_userId r \<noteq> userId then throw (http_exn NOT_FOUND 404 ''Notification not found'')
           else if n_readAt r \<noteq> None then return ()
           else seq (update_in notifications notifications_update n_id notificationId
                       (\<lambda>r. r\<lparr>n_readAt := Some (env_now env)\<rparr>))
                    (return ()))"

definition markAllRead :: "env \<Rightarrow> int \<Rightarrow> ('x sys_scheme, unit) M" where
  "markAllRead env userId =
     modify (notifications_update (t_update (\<lambda>n. n_userId n = userId \<and> n_readAt n = None)
       (\<lambda>n. n\<lparr>n_readAt := Some (env_now env)\<rparr>)))"

definition queryNotifications ::
    "int \<Rightarrow> int option \<Rightarrow> nat \<Rightarrow> (notification \<Rightarrow> bool) \<Rightarrow> ('x sys_scheme, notification page) M" where
  "queryNotifications userId cursor limit extraWhere =
     gets (\<lambda>s. paginate n_id cursor limit
       (t_filter (\<lambda>n. n_userId n = userId \<and> extraWhere n) (notifications s)))"

definition findUnreadForUser :: "int \<Rightarrow> int option \<Rightarrow> nat \<Rightarrow> ('x sys_scheme, notification page) M" where
  "findUnreadForUser userId cursor limit =
     queryNotifications userId cursor limit (\<lambda>n. n_readAt n = None \<and> n_channel n = IN_APP)"

definition findAllForUser :: "int \<Rightarrow> int option \<Rightarrow> nat \<Rightarrow> ('x sys_scheme, notification page) M" where
  "findAllForUser userId cursor limit =
     queryNotifications userId cursor limit (\<lambda>n. n_channel n = IN_APP)"

definition countUnread :: "int \<Rightarrow> ('x sys_scheme, nat) M" where
  "countUnread userId =
     gets (\<lambda>s. t_count (\<lambda>n. n_userId n = userId \<and> n_readAt n = None \<and> n_channel n = IN_APP)
                (notifications s))"

record notification_view =
  nv_id :: int
  nv_type :: string
  nv_payload :: payload
  nv_readAt :: "int option"
  nv_createdAt :: int
  nv_title :: string
  nv_body :: string

definition renderForUser :: "env \<Rightarrow> notification \<Rightarrow> notification_view" where
  "renderForUser env n =
     (let (title, body) =
        (case template_for env (n_type n) of
           Some t \<Rightarrow> (case tp_inApp t of
                        Some (tt, render) \<Rightarrow> (tt, render (n_payload n))
                      | None \<Rightarrow> (n_type n, n_type n))
         | None \<Rightarrow> (n_type n, n_type n))
      in \<lparr>nv_id = n_id n, nv_type = n_type n, nv_payload = n_payload n, nv_readAt = n_readAt n,
          nv_createdAt = n_createdAt n, nv_title = title, nv_body = body\<rparr>)"

section \<open>What dispatch writes\<close>

text \<open>Two states that differ in notifications and message logs at most.\<close>

definition same_books :: "'x sys_scheme \<Rightarrow> 'x sys_scheme \<Rightarrow> bool" where
  "same_books s t \<longleftrightarrow>
     t = s\<lparr>notifications := notifications t, sms_sent := sms_sent t, email_sent := email_sent t\<rparr>"

lemma same_books_refl [simp]: "same_books s s"
  by (simp add: same_books_def)

lemma same_books_trans: "same_books s t \<Longrightarrow> same_books t u \<Longrightarrow> same_books s u"
  by (cases s; cases t; cases u) (simp add: same_books_def)

lemma same_books_updates [simp]:
  "same_books s (notifications_update f s)"
  "same_books s (sms_sent_update g s)"
  "same_books s (email_sent_update h s)"
  by (cases s; simp add: same_books_def)+

lemma same_books_fields:
  assumes "same_books s t"
  shows "users t = users s" "wallets t = wallets s" "ledger_entries t = ledger_entries s"
    "payments t = payments s" "refunds t = refunds s" "payout_requests t = payout_requests s"
    "sessions t = sessions s" "sys.more t = sys.more s"
  using assms by (cases s; cases t; simp add: same_books_def)+

lemma dispatch_body_books:
  "snd (dispatch_body env u ty pl tm ch s) = t \<Longrightarrow> same_books s t"
  by (auto simp: dispatch_body_def notification_create_def sms_send_def email_send_def run_simps
        create_in_def split: channel.splits option.splits if_splits)

lemma dispatch_channels_total:
  "\<exists>r' t. dispatch_channels env u ty pl tm chs r s = (Inr r', t) \<and> same_books s t"
proof (induction chs arbitrary: r s)
  case Nil
  then show ?case by (simp add: return_def)
next
  case (Cons ch chs)
  obtain res t where b: "dispatch_body env u ty pl tm ch s = (res, t)" by (cases "dispatch_body env u ty pl tm ch s")
  then have st: "same_books s t" using dispatch_body_books [of env u ty pl tm ch s t] by simp
  obtain oc where "tryCatch (dispatch_body env u ty pl tm ch) (\<lambda>e. return (Failure (exn_message env e))) s = (Inr oc, t)"
    using b by (cases res) (auto simp: tryCatch_def return_def)
  moreover obtain r' t' where "dispatch_channels env u ty pl tm chs (record_outcome ch oc r) t = (Inr r', t')"
      "same_books t t'"
    using Cons.IH [of "record_outcome ch oc r" t] by blast
  ultimately show ?case using same_books_trans [OF st] by (auto simp: bind_def)
qed

lemma dispatch_total: "\<exists>r t. dispatch env u ty pl chs s = (Inr r, t) \<and> same_books s t"
proof (cases "template_for env ty")
  case None
  then show ?thesis by (simp add: dispatch_def return_def)
next
  case (Some a)
  then show ?thesis using dispatch_channels_total by (simp add: dispatch_def)
qed

lemma wp_dispatch:
  assumes "\<And>r t. same_books s t \<Longrightarrow> Q r t"
  shows "wp (dispatch env u ty pl chs) Q E s"
proof -
  obtain r t where "dispatch env u ty pl chs s = (Inr r, t)" "same_books s t"
    using dispatch_total by blast
  then show ?thesis using assms by (simp add: wp_def)
qed

lemma keeps_dispatch:
  assumes "\<And>s t. P s \<Longrightarrow> same_books s t \<Longrightarrow> P t"
  shows "keeps P (dispatch env u ty pl chs)"
  by (rule keeps_wpI, rule wp_dispatch) (use assms in blast)

section \<open>One-time codes and read marks\<close>

lemma dispatch_body_rows:
  assumes "dispatch_body env u ty pl tm ch s = (res, t)"
    and "n \<in> set (rows (notifications t))" "n \<notin> set (rows (notifications s))"
  shows "n_type n = ty \<and> n_userId n = u \<and> n_channel n = IN_APP \<and> ty \<notin> set NON_PERSISTENT_TYPES"
  using assms
  by (auto simp: dispatch_body_def notification_create_def sms_send_def email_send_def run_simps
        create_in_def table_simps split: channel.splits option.splits if_splits)

lemma dispatch_channels_rows:
  assumes "dispatch_channels env u ty pl tm chs r s = (res, t)"
    and "n \<in> set (rows (notifications t))" "n \<notin> set (rows (notifications s))"
  shows "n_type n = ty \<and> n_userId n = u \<and> n_channel n = IN_APP \<and> ty \<notin> set NON_PERSISTENT_TYPES"
  using assms
proof (induction chs arbitrary: r s)
  case Nil
  then show ?case by (simp add: return_def)
next
  case (Cons ch chs)
  obtain res' s' where b: "dispatch_body env u ty pl tm ch s = (res', s')"
    by (cases "dispatch_body env u ty pl tm ch s")
  show ?case
  proof (cases "n \<in> set (rows (notifications s'))")
    case True
    then show ?thesis using dispatch_body_rows [OF b] Cons.prems(3) by blast
  next
    case False
    obtain oc where "tryCatch (dispatch_body env u ty pl tm ch)
        (\<lambda>e. return (Failure (exn_message env e))) s = (Inr oc, s')"
      using b by (cases res') (auto simp: tryCatch_def return_def)
    then have "dispatch_channels env u ty pl tm chs (record_outcome ch oc r) s' = (res, t)"
      using Cons.prems(1) by (simp add: bind_def)
    then show ?thesis using Cons.IH Cons.prems(2) False by blast
  qed
qed

lemma dispatch_rows:
  assumes "dispatch env u ty pl chs s = (res, t)"
    and "n \<in> set (rows (notifications t))" "n \<notin> set (rows (notifications s))"
  shows "n_type n = ty \<and> n_userId n = u \<and> n_channel n = IN_APP \<and> ty \<notin> set NON_PERSISTENT_TYPES"
  using assms dispatch_channels_rows
  by (fastforce simp: dispatch_def return_def split: option.splits)

definition unread :: "int \<Rightarrow> 'x sys_scheme \<Rightarrow> notification list" where
  "unread u s = t_filter (\<lambda>n. n_userId n = u \<and> n_readAt n = None \<and> n_channel n = IN_APP) (notifications s)"

lemma countUnread_eq: "countUnread u s = (Inr (length (unread u s)), s)"
  by (simp add: countUnread_def gets_def t_count_def unread_def)

lemma unread_markAllRead:
  "unread v (snd (markAllRead env u s)) = (if v = u then [] else unread v s)"
proof -
  have eq: "filter (\<lambda>n. n_userId n = v \<and> n_readAt n = None \<and> n_channel n = IN_APP)
          (map (\<lambda>n. if n_userId n = u \<and> n_readAt n = None then n\<lparr>n_readAt := Some d\<rparr> else n) ns)
        = (if v = u then [] else filter (\<lambda>n. n_userId n = v \<and> n_readAt n = None \<and> n_channel n = IN_APP) ns)"
    for d ns by (induction ns) auto
  have r: "rows (notifications (snd (markAllRead env u s))) =
      map (\<lambda>n. if n_userId n = u \<and> n_readAt n = None then n\<lparr>n_readAt := Some (env_now env)\<rparr> else n)
        (rows (notifications s))"
    by (simp add: markAllRead_def modify_def t_update_def)
  show ?thesis unfolding unread_def t_filter_def r by (rule eq)
qed

lemma markRead_other_user:
  assumes "t_get n_id i (notifications s) = Some r" "n_userId r \<noteq> u"
  shows "markRead env i u s = (Inl (http_exn NOT_FOUND 404 ''Notification not found''), s)"
  using assms by (simp add: markRead_def run_simps)

lemma markRead_again:
  assumes "markRead env i u s = (Inr (), t)"
  shows "markRead env' i u t = (Inr (), t)"
proof -
  have upd: "t_get n_id i (t_change n_id i (\<lambda>r. r\<lparr>n_readAt := Some d\<rparr>) T) =
        map_option (\<lambda>r. r\<lparr>n_readAt := Some d\<rparr>) (t_get n_id i T)" for d T
    by (simp add: t_get_change)
  show ?thesis using assms
    by (auto simp: markRead_def run_simps update_in_def upd split: option.splits if_splits)
qed

interpretation feed_pages: paged_source
  "\<lambda>s. wf_table n_id (notifications s)" n_id
  "\<lambda>s. t_filter (\<lambda>n. n_userId n = u \<and> P n) (notifications s)" for u P
  by unfold_locales (rule table_pages.ascending)

section \<open>Properties\<close>

text \<open>A one-time code never reaches the notifications table: whatever channels and payload
  a dispatch is given, and whatever templates modules registered, no new row has the type
  OTP_SENT, and every new row belongs to the recipient.\<close>

theorem otp_never_stored:
  assumes "n \<in> set (rows (notifications (snd (dispatch env u ty pl chs s))))"
    and "n \<notin> set (rows (notifications s))"
  shows "n_type n \<noteq> ''OTP_SENT'' \<and> n_userId n = u \<and> n_type n = ty"
proof -
  obtain res t where d: "dispatch env u ty pl chs s = (res, t)" by (cases "dispatch env u ty pl chs s")
  then show ?thesis using dispatch_rows [OF d] assms by (auto simp: NON_PERSISTENT_TYPES_def)
qed

text \<open>dispatch cannot fail its caller: it always returns normally, and it leaves every
  table but notifications and the two message logs untouched.\<close>

theorem dispatch_never_throws:
  "\<exists>r t. dispatch env u ty pl chs s = (Inr r, t) \<and>
     t = s\<lparr>notifications := notifications t, sms_sent := sms_sent t, email_sent := email_sent t\<rparr>"
  using dispatch_total [of env u ty pl chs s] by (auto simp: same_books_def)

text \<open>markAllRead leaves the user with no unread notification and no other user's unread
  notifications are affected; markRead of another user's notification is answered as if it
  did not exist, and repeating a markRead writes nothing.\<close>

theorem read_marks:
  "countUnread v (snd (markAllRead env u s)) =
     (Inr (if v = u then 0 else length (unread v s)), snd (markAllRead env u s)) \<and>
   (\<forall>r. t_get n_id i (notifications s) = Some r \<and> n_userId r \<noteq> u \<longrightarrow>
      markRead env i u s = (Inl (http_exn NOT_FOUND 404 ''Notification not found''), s)) \<and>
   (\<forall>t. markRead env i u s = (Inr (), t) \<longrightarrow> markRead env' i u t = (Inr (), t))"
  using markRead_other_user markRead_again by (auto simp: countUnread_eq unread_markAllRead)

end
