(* ===== verification/Samples.thy ===== *)
theory Samples
  imports Notifications
begin

text \<open>
  A small concrete state on which the witnesses of the money components evaluate: two
  users with a wallet each; user 1 topped up 100 by payment 1 and has 40 on hold for
  payout 1; payment 2 of user 2 is still pending.
\<close>

definition sample_env :: env where
  "sample_env = \<lparr>env_now = 1000, env_sms_provider = ''console'', env_ext_templates = [],
     env_lib_message = (\<lambda>_. [])\<rparr>"

definition sample_user :: "int \<Rightarrow> user" where
  "sample_user i = \<lparr>u_id = i, u_phone = ''+9891200000'' @ int_to_string i, u_firstName = None,
     u_lastName = None, u_nationalId = None, u_email = None, u_status = ACTIVE,
     u_profileCompletedAt = None, u_phoneVerifiedAt = None, u_totpSecret = None,
     u_createdAt = 0, u_updatedAt = 0, u_deletedAt = None\<rparr>"

definition sample_entry :: "int \<Rightarrow> ledger_kind \<Rightarrow> int \<Rightarrow> string \<Rightarrow> ledger_entry" where
  "sample_entry i kind amount ref = \<lparr>e_id = i, e_userId = Some 1, e_walletId = Some 1, e_kind = kind,
     e_amount = amount, e_reference = Some ref, e_description = None, e_metadata = JNull,
     e_createdAt = 0\<rparr>"

definition sample_payment :: "int \<Rightarrow> int \<Rightarrow> int \<Rightarrow> payment_status \<Rightarrow> payment" where
  "sample_payment i u amount st = \<lparr>pay_id = i, pay_userId = u, pay_amount = amount,
     pay_purpose = ''wallet_topup'', pay_description = ''topup'', pay_status = st,
     pay_providerName = ''zarinpal'', pay_providerReference = Some (''A'' @ int_to_string i),
     pay_referenceCode = None, pay_cardPanMasked = None, pay_metadata = JObj [], pay_initiatedAt = 0,
     pay_completedAt = None, pay_failureReason = None\<rparr>"

definition sample_payout :: payout_request where
  "sample_payout = \<lparr>po_id = 1, po_userId = 1, po_walletId = 1, po_amount = 40,
     po_bankAccount = ''IR120550000000000000000001'', po_accountHolder = ''A'',
     po_status = PO_PENDING, po_submittedAt = 0, po_reviewedByUserId = None, po_reviewedAt = None,
     po_rejectionReason = None, po_paidAt = None, po_paymentReference = None\<rparr>"

definition sample_sys :: sys where
  "sample_sys = empty_sys\<lparr>
     users := \<lparr>next_id = 3, rows = [sample_user 1, sample_user 2]\<rparr>,
     wallets := \<lparr>next_id = 3, rows = [\<lparr>w_id = 1, w_userId = 1, w_balance = 60\<rparr>,
                                      \<lparr>w_id = 2, w_userId = 2, w_balance = 0\<rparr>]\<rparr>,
     ledger_entries := \<lparr>next_id = 3, rows = [sample_entry 1 CREDIT 100 ''payment:1'',
                                             sample_entry 2 DEBIT 40 ''payout:1'']\<rparr>,
     payments := \<lparr>next_id = 3, rows = [sample_payment 1 1 100 SUCCEEDED, sample_payment 2 2 50 PENDING]\<rparr>,
     payout_requests := \<lparr>next_id = 2, rows = [sample_payout]\<rparr>\<rparr>"

lemmas sample_defs = sample_env_def sample_user_def sample_entry_def sample_payment_def
  sample_payout_def sample_sys_def empty_sys_def empty_table_def

lemmas table_run = t_get_def t_find_def t_insert_def t_change_def t_update_def t_new_def
  create_in_def update_in_def t_exists_def t_sum_def t_filter_def t_count_def

lemmas dispatch_run = dispatch_def template_for_def NOTIFICATION_TEMPLATES_def
  template_WALLET_DEBITED_def template_WALLET_CREDITED_def template_PAYMENT_SUCCEEDED_def
  template_PAYMENT_FAILED_def template_PAYMENT_CANCELLED_def template_PAYMENT_REFUNDED_def
  template_PAYOUT_REQUESTED_def template_PAYOUT_APPROVED_def template_PAYOUT_REJECTED_def
  template_PAYOUT_PAID_def dispatch_body_def notification_create_def find_user_def
  NON_PERSISTENT_TYPES_def record_outcome_def sms_send_def email_send_def

text \<open>Evaluation of decimal rendering on numerals.\<close>

lemma nat_digits_numeral [simp]: "nat_digits (numeral n) =
    (if (numeral n :: nat) < 10 then [digit_char (numeral n)]
     else nat_digits (numeral n div 10) @ [digit_char (numeral n mod 10)])"
  by (rule nat_digits.simps)

lemma digit_char_eval [simp]:
  "digit_char 0 = CHR ''0''" "digit_char (Suc 0) = CHR ''1''" "digit_char 2 = CHR ''2''"
  "digit_char 3 = CHR ''3''" "digit_char 4 = CHR ''4''" "digit_char 5 = CHR ''5''"
  "digit_char 6 = CHR ''6''" "digit_char 7 = CHR ''7''" "digit_char 8 = CHR ''8''"
  "digit_char 9 = CHR ''9''"
  by code_simp+

lemma nat_digits_small [simp]: "nat_digits 0 = ''0''" "nat_digits (Suc 0) = ''1''"
  by (simp_all add: nat_digits.simps [of 0] nat_digits.simps [of "Suc 0"])

lemma int_to_string_numeral [simp]: "int_to_string (numeral n) = nat_digits (numeral n)"
  "int_to_string 0 = ''0''" "int_to_string 1 = ''1''"
  by (simp_all add: int_to_string_def)

section \<open>Witnesses of the notification properties\<close>

lemma otp_never_stored_witness:
  "\<exists>n \<in> set (rows (notifications (snd (dispatch sample_env 1 ''PAYOUT_PAID'' [] [IN_APP] sample_sys)))).
     n_type n \<noteq> ''OTP_SENT'' \<and> n_userId n = 1"
proof -
  let ?n = "\<lparr>n_id = 1, n_userId = 1, n_channel = IN_APP, n_type = ''PAYOUT_PAID'', n_payload = [],
      n_readAt = None, n_createdAt = 1000\<rparr>"
  have "?n \<in> set (rows (notifications (snd (dispatch sample_env 1 ''PAYOUT_PAID'' [] [IN_APP] sample_sys))))"
    "?n \<notin> set (rows (notifications sample_sys))"
    by (simp_all add: dispatch_run run_simps sample_defs table_run)
  from otp_never_stored [OF this] this(1) show ?thesis by blast
qed

lemma read_marks_witness:
  "countUnread 1 (snd (markAllRead sample_env 1 sample_sys)) =
     (Inr 0, snd (markAllRead sample_env 1 sample_sys)) \<and>
   markRead sample_env 1 2 (snd (dispatch sample_env 1 ''PAYOUT_PAID'' [] [IN_APP] sample_sys)) =
     (Inl (http_exn NOT_FOUND 404 ''Notification not found''),
      snd (dispatch sample_env 1 ''PAYOUT_PAID'' [] [IN_APP] sample_sys))"
proof -
  have "t_get n_id 1 (notifications (snd (dispatch sample_env 1 ''PAYOUT_PAID'' [] [IN_APP] sample_sys))) =
      Some \<lparr>n_id = 1, n_userId = 1, n_channel = IN_APP, n_type = ''PAYOUT_PAID'', n_payload = [],
        n_readAt = None, n_createdAt = 1000\<rparr>"
    by (simp add: dispatch_run run_simps sample_defs table_run)
  then show ?thesis
    using read_marks [of 1 sample_env 1 sample_sys]
      read_marks [where v = 1 and env = sample_env and u = 2 and i = 1 and env' = sample_env and
        s = "snd (dispatch sample_env 1 ''PAYOUT_PAID'' [] [IN_APP] sample_sys)"]
    by simp
qed

lemma formatToman_grouping_witness:
  "formatToman 1234567 = ''1,234,567'' \<and> rev (formatToman (int 1234567)) ! 3 = CHR '','' \<and>
   filter (\<lambda>c. c \<noteq> CHR '','') (formatToman 1234567) = ''1234567''"
proof -
  have f: "formatToman (int 1234567) = ''1,234,567''" "int_to_string 1234567 = ''1234567''"
    by (simp_all add: formatToman_def)
  then show ?thesis using formatToman_grouping [of 1234567 1234567 1234567] by simp
qed

end
