(* ===== verification/Persian.thy ===== *)
theory Persian
  imports Templates
begin

text \<open>
  packages/persian-utils: validation of Iranian IBANs (iban.ts) and national IDs
  (national-id.ts), normalisation of mobile numbers (phone.ts), and digit conversion
  (numerals.ts, on lists of code points).  Space and case mapping are the ASCII ones.

  The lemmas show what the check digits are for: the IBAN check is the mod-97 value of
  the rearranged number, and a single wrong digit is always caught; a wrong check digit
  of a national ID is always caught, and a wrong other digit unless the remainders are 1
  and 10.  Normalising a phone number is idempotent and identifies all spellings.
\<close>

section \<open>IBAN\<close>

definition trim :: "string \<Rightarrow> string" where
  "trim s = rev (dropWhile is_space (rev (dropWhile is_space s)))"

definition upper_char :: "char \<Rightarrow> char" where
  "upper_char c = (if CHR ''a'' \<le> c \<and> c \<le> CHR ''z'' then char_of (of_char c - (32::nat)) else c)"

definition all_digits :: "string \<Rightarrow> bool" where
  "all_digits s \<longleftrightarrow> list_all is_digit s"

definition iban_char :: "char \<Rightarrow> string" where
  "iban_char ch = (let code = (of_char ch :: nat) in
     if 65 \<le> code \<and> code \<le> 90 then nat_digits (code - 55) else [ch])"

fun mod97_from :: "nat \<Rightarrow> string \<Rightarrow> nat" where
  "mod97_from remainder [] = remainder"
| "mod97_from remainder (ch # s) = mod97_from ((remainder * 10 + digit_value ch) mod 97) s"

definition bigMod97 :: "string \<Rightarrow> nat" where
  "bigMod97 s = mod97_from 0 s"

definition isValidIranianIban :: "string \<Rightarrow> bool" where
  "isValidIranianIban input =
     (let normalized = map upper_char (trim input) in
      if length normalized \<noteq> 26 then False
      else if take 2 normalized \<noteq> ''IR'' then False
      else
        let digits = drop 2 normalized in
        if \<not> (length digits = 24 \<and> all_digits digits) then False
        else if list_all (\<lambda>c. c = CHR ''0'') digits then False
        else
          let rearranged = drop 4 normalized @ take 4 normalized;
              numeric = concat (map iban_char rearranged)
          in bigMod97 numeric = 1)"

section \<open>National ID\<close>

definition nid_sum :: "string \<Rightarrow> nat" where
  "nid_sum v = sum_list (map (\<lambda>i. digit_value (v ! i) * (10 - i)) [0..<9])"

definition isValidIranianNationalId :: "string \<Rightarrow> bool" where
  "isValidIranianNationalId v =
     (if \<not> (length v = 10 \<and> all_digits v) then False
      else if list_all (\<lambda>c. c = hd v) v then False
      else
        let remainder = nid_sum v mod 11; checkDigit = digit_value (v ! 9) in
        if remainder < 2 then checkDigit = remainder else checkDigit = 11 - remainder)"

section \<open>Phone numbers\<close>

definition phone_noise :: "char \<Rightarrow> bool" where
  "phone_noise c \<longleftrightarrow> is_space c \<or> c \<in> {CHR ''-'', CHR ''('', CHR '')'', CHR ''.''}"

definition ten_digits :: "string \<Rightarrow> bool" where
  "ten_digits s \<longleftrightarrow> length s = 10 \<and> all_digits s"

definition has_prefix :: "string \<Rightarrow> string \<Rightarrow> bool" where
  "has_prefix p s \<longleftrightarrow> take (length p) s = p"

definition phone_local :: "string \<Rightarrow> string option" where
  "phone_local cleaned =
     (if has_prefix ''+98'' cleaned \<and> ten_digits (drop 3 cleaned) then Some (drop 3 cleaned)
      else if has_prefix ''0098'' cleaned \<and> ten_digits (drop 4 cleaned) then Some (drop 4 cleaned)
      else if has_prefix ''98'' cleaned \<and> ten_digits (drop 2 cleaned) then Some (drop 2 cleaned)
      else if has_prefix ''0'' cleaned \<and> ten_digits (drop 1 cleaned) then Some (drop 1 cleaned)
      else if ten_digits cleaned then Some cleaned
      else None)"

definition normalizeIranianPhone :: "string \<Rightarrow> string option" where
  "normalizeIranianPhone raw =
     (let cleaned = filter (\<lambda>c. \<not> phone_noise c) (trim raw)
      in case phone_local cleaned of
           None \<Rightarrow> None
         | Some l \<Rightarrow>
             (let normalized = ''+98'' @ l in
              if has_prefix ''+989'' normalized \<and> length normalized = 13 \<and> all_digits (drop 4 normalized)
              then Some normalized else None))"

definition isValidIranianPhone :: "string \<Rightarrow> bool" where
  "isValidIranianPhone v = (normalizeIranianPhone v \<noteq> None)"

section \<open>Digit conversion\<close>

text \<open>Code points: 0x30 to 0x39 Latin, 0x6F0 to 0x6F9 Persian, 0x660 to 0x669 Arabic.\<close>

definition toLatinDigits :: "nat list \<Rightarrow> nat list" where
  "toLatinDigits s =
     map (\<lambda>c. if 1632 \<le> c \<and> c \<le> 1641 then c - 1632 + 48 else c)
       (map (\<lambda>c. if 1776 \<le> c \<and> c \<le> 1785 then c - 1776 + 48 else c) s)"

definition toPersianDigits :: "nat list \<Rightarrow> nat list" where
  "toPersianDigits s = map (\<lambda>c. if 48 \<le> c \<and> c \<le> 57 then c - 48 + 1776 else c) s"

section \<open>Facts about the IBAN check\<close>

lemma is_digit_of_char: "is_digit c \<longleftrightarrow> 48 \<le> (of_char c :: nat) \<and> (of_char c :: nat) \<le> 57"
  by (simp add: is_digit_def less_eq_char_def)

lemma digit_value_less: "is_digit c \<Longrightarrow> digit_value c < 10"
  by (auto simp: is_digit_of_char digit_value_def)

lemma digit_value_inj:
  assumes "is_digit c" "is_digit d" "digit_value c = digit_value d"
  shows "c = d"
proof -
  have "(of_char c :: nat) = digit_value c + 48" "(of_char d :: nat) = digit_value d + 48"
    using assms(1,2) by (auto simp: is_digit_of_char digit_value_def)
  then have "(of_char c :: nat) = of_char d" using assms(3) by simp
  then show "c = d" by simp
qed

text \<open>The decimal value of a digit string; mod97 computes its remainder.\<close>

definition dec_value :: "string \<Rightarrow> nat" where
  "dec_value s = foldl (\<lambda>acc c. acc * 10 + digit_value c) 0 s"

lemma mod97_from_foldl:
  "mod97_from (acc mod 97) s mod 97 = foldl (\<lambda>acc c. acc * 10 + digit_value c) acc s mod 97"
proof (induction s arbitrary: acc)
  case (Cons c s)
  have "(acc mod 97 * 10 + digit_value c) mod 97 = (acc * 10 + digit_value c) mod 97"
    by (metis mod_add_cong mod_mult_cong mod_mod_trivial)
  then show ?case using Cons [of "acc * 10 + digit_value c"] by simp
qed simp

lemma mod97_from_less: "r < 97 \<Longrightarrow> mod97_from r s < 97"
  by (induction s arbitrary: r) auto

lemma bigMod97_value: "bigMod97 s = dec_value s mod 97"
  using mod97_from_foldl [of 0 s] mod97_from_less [of 0 s] by (simp add: bigMod97_def dec_value_def)

lemma foldl_dec: "foldl (\<lambda>acc c. acc * 10 + digit_value c) acc s = acc * 10 ^ length s + dec_value s"
proof (induction s arbitrary: acc)
  case Nil
  then show ?case by (simp add: dec_value_def)
next
  case (Cons c s)
  have "dec_value (c # s) = digit_value c * 10 ^ length s + dec_value s"
    using Cons.IH [of "digit_value c"] by (simp add: dec_value_def)
  then show ?case using Cons.IH [of "acc * 10 + digit_value c"] by (simp add: algebra_simps)
qed

lemma dec_value_append: "dec_value (xs @ ys) = dec_value xs * 10 ^ length ys + dec_value ys"
  using foldl_dec [of "dec_value xs" ys] by (simp add: dec_value_def)

lemma dec_value_Cons: "dec_value (c # s) = digit_value c * 10 ^ length s + dec_value s"
  using dec_value_append [of "[c]" s] by (simp add: dec_value_def)

lemma dec_value_update:
  assumes "i < length xs"
  shows "int (dec_value (xs[i := c])) - int (dec_value xs) =
    (int (digit_value c) - int (digit_value (xs ! i))) * 10 ^ (length xs - 1 - i)"
proof -
  have up: "xs[i := c] = take i xs @ c # drop (Suc i) xs" using assms by (simp add: upd_conv_take_nth_drop)
  have id: "xs = take i xs @ xs ! i # drop (Suc i) xs" using assms by (simp add: id_take_nth_drop)
  have "length (drop (Suc i) xs) = length xs - 1 - i" by simp
  then show ?thesis
    unfolding up by (subst (2) id) (simp add: dec_value_append dec_value_Cons algebra_simps)
qed

definition iban_number :: "string \<Rightarrow> string" where
  "iban_number ds = drop 2 ds @ ''1827'' @ take 2 ds"

lemma upper_char_digit: "is_digit c \<Longrightarrow> upper_char c = c"
  by (auto simp: is_digit_def upper_char_def less_eq_char_def)

lemma iban_char_digit: "is_digit c \<Longrightarrow> iban_char c = [c]"
  by (auto simp: is_digit_of_char iban_char_def Let_def)

lemma is_space_digit: "is_digit c \<Longrightarrow> \<not> is_space c"
  by (auto simp: is_digit_def is_space_def less_eq_char_def)

lemma trim_id: "list_all (\<lambda>c. \<not> is_space c) s \<Longrightarrow> trim s = s"
proof -
  assume s: "list_all (\<lambda>c. \<not> is_space c) s"
  have d: "dropWhile is_space t = t" if "list_all (\<lambda>c. \<not> is_space c) t" for t
    using that by (cases t) auto
  show "trim s = s" using s by (simp add: trim_def d list_all_rev)
qed

lemma concat_iban_char: "all_digits ds \<Longrightarrow> concat (map iban_char ds) = ds"
  by (induction ds) (auto simp: all_digits_def iban_char_digit)

lemma iban_char_IR: "iban_char (CHR ''I'') = ''18''" "iban_char (CHR ''R'') = ''27''"
  by code_simp+

lemma isValidIban_digits:
  assumes "length ds = 24" "all_digits ds"
  shows "isValidIranianIban (''IR'' @ ds) \<longleftrightarrow>
    \<not> list_all (\<lambda>c. c = CHR ''0'') ds \<and> dec_value (iban_number ds) mod 97 = 1"
proof -
  have "list_all (\<lambda>c. \<not> is_space c) ds"
    using assms(2) is_space_digit by (auto simp: all_digits_def list_all_iff)
  then have "list_all (\<lambda>c. \<not> is_space c) (''IR'' @ ds)" by (simp add: is_space_def)
  then have t: "trim (''IR'' @ ds) = ''IR'' @ ds" by (rule trim_id)
  have u: "map upper_char (''IR'' @ ds) = ''IR'' @ ds"
  proof -
    have "map upper_char ds = ds"
      by (rule map_idI) (use assms(2) upper_char_digit in \<open>auto simp: all_digits_def list_all_iff\<close>)
    then show ?thesis by (simp add: upper_char_def)
  qed
  have rest: "concat (map iban_char (drop 4 (''IR'' @ ds) @ take 4 (''IR'' @ ds))) = iban_number ds"
  proof -
    have "all_digits (drop 2 ds)" "all_digits (take 2 ds)"
      using assms(2) by (auto simp: all_digits_def list_all_iff dest: in_set_dropD in_set_takeD)
    then show ?thesis by (simp add: iban_number_def concat_iban_char iban_char_IR)
  qed
  show ?thesis
    unfolding isValidIranianIban_def t u Let_def rest using assms by (simp add: bigMod97_value)
qed

lemma not_multiple_of_97:
  fixes d :: int
  assumes "d \<noteq> 0" "\<bar>d\<bar> < 97"
  shows "\<not> 97 dvd d * 10 ^ k"
proof
  assume "97 dvd d * 10 ^ k"
  moreover have "coprime (97::int) (10 ^ k)"
  proof -
    have "coprime (97::int) 10" by (simp add: coprime_iff_gcd_eq_1) (simp add: gcd_int_def, code_simp)
    then show ?thesis by simp
  qed
  ultimately have "97 dvd d" by (simp add: coprime_dvd_mult_left_iff)
  then show False using assms by (auto dest: dvd_imp_le_int)
qed

lemma iban_number_update:
  assumes "length ds = 24" "i < 24"
  shows "iban_number (ds[i := c]) = (iban_number ds)[(if i < 2 then 26 + i else i - 2) := c]"
proof (cases "i < 2")
  case True
  then show ?thesis using assms
    by (simp add: iban_number_def list_update_append take_update_swap drop_update_cancel)
next
  case False
  moreover have "i - 2 < 22" using assms(2) False by simp
  ultimately show ?thesis using assms
    by (simp add: iban_number_def list_update_append drop_update_swap)
qed

lemma iban_number_nth:
  assumes "length ds = 24" "i < 24"
  shows "iban_number ds ! (if i < 2 then 26 + i else i - 2) = ds ! i"
proof (cases "i < 2")
  case True
  then show ?thesis using assms by (simp add: iban_number_def nth_append)
next
  case False
  then obtain k where k: "i = k + 2" by (metis add.commute le_Suc_ex not_less)
  then show ?thesis using assms by (simp add: iban_number_def nth_append)
qed

lemma iban_single_digit:
  assumes "length ds = 24" "all_digits ds" "i < 24" "is_digit c" "c \<noteq> ds ! i"
    and "dec_value (iban_number ds) mod 97 = 1"
  shows "dec_value (iban_number (ds[i := c])) mod 97 \<noteq> 1"
proof
  assume one: "dec_value (iban_number (ds[i := c])) mod 97 = 1"
  let ?j = "if i < 2 then 26 + i else i - 2"
  let ?d = "int (digit_value c) - int (digit_value (ds ! i))"
  have len: "length (iban_number ds) = 28" using assms(1) by (simp add: iban_number_def)
  have old: "is_digit (ds ! i)" using assms(1-3) by (auto simp: all_digits_def list_all_iff)
  have "digit_value c \<noteq> digit_value (ds ! i)" using digit_value_inj assms(4,5) old by blast
  then have d: "?d \<noteq> 0" "\<bar>?d\<bar> < 97"
    using digit_value_less [OF assms(4)] digit_value_less [OF old] by auto
  have "int (dec_value (iban_number (ds[i := c]))) - int (dec_value (iban_number ds)) =
      ?d * 10 ^ (27 - ?j)"
    unfolding iban_number_update [OF assms(1,3)]
    using dec_value_update [of ?j "iban_number ds" c] iban_number_nth [OF assms(1,3)] assms(3)
    by (simp add: len split: if_splits)
  moreover have "97 dvd int (dec_value (iban_number (ds[i := c]))) - int (dec_value (iban_number ds))"
    using one assms(6) by (metis mod_eq_dvd_iff of_nat_mod of_nat_numeral)
  ultimately show False using not_multiple_of_97 [OF d] by metis
qed

section \<open>Facts about national IDs\<close>

definition nid_check :: "nat \<Rightarrow> nat" where
  "nid_check remainder = (if remainder < 2 then remainder else 11 - remainder)"

lemma isValidNid_iff:
  assumes "length v = 10" "all_digits v"
  shows "isValidIranianNationalId v \<longleftrightarrow>
    \<not> list_all (\<lambda>c. c = hd v) v \<and> digit_value (v ! 9) = nid_check (nid_sum v mod 11)"
  using assms by (simp add: isValidIranianNationalId_def nid_check_def Let_def)

lemma nid_sum_update:
  assumes "length v = 10" "i < 9"
  shows "int (nid_sum (v[i := c])) - int (nid_sum v) =
    (int (digit_value c) - int (digit_value (v ! i))) * int (10 - i)"
proof -
  have upt: "[0..<9] = [0, 1, 2, 3, 4, 5, 6, 7, 8 :: nat]" by (simp add: upt_rec)
  have "i \<in> {0, 1, 2, 3, 4, 5, 6, 7, 8}" using assms(2) by auto
  then show ?thesis using assms(1)
    by (auto simp: nid_sum_def upt nth_list_update algebra_simps)
qed

lemma nid_sum_last: "length v = 10 \<Longrightarrow> nid_sum (v[9 := c]) = nid_sum v"
  unfolding nid_sum_def by (rule arg_cong [of _ _ sum_list]) (simp add: nth_list_update)

lemma nid_check_collision:
  assumes "r < 11" "s < 11" "nid_check r = nid_check s" "r \<noteq> s"
  shows "{r, s} = {1, 10}"
  using assms by (auto simp: nid_check_def split: if_splits)

lemma not_multiple_of_11:
  fixes d :: int
  assumes "d \<noteq> 0" "\<bar>d\<bar> < 10" "1 \<le> w" "w \<le> 10"
  shows "\<not> 11 dvd d * w"
proof -
  have "w = 1 \<or> w = 2 \<or> w = 3 \<or> w = 4 \<or> w = 5 \<or> w = 6 \<or> w = 7 \<or> w = 8 \<or> w = 9 \<or> w = 10"
    using assms(3,4) by arith
  then show ?thesis using assms(1,2) by (elim disjE) (simp, presburger)+
qed

lemma nid_remainder_changes:
  assumes "length v = 10" "all_digits v" "i < 9" "is_digit c" "c \<noteq> v ! i"
  shows "nid_sum (v[i := c]) mod 11 \<noteq> nid_sum v mod 11"
proof
  assume eq: "nid_sum (v[i := c]) mod 11 = nid_sum v mod 11"
  let ?d = "int (digit_value c) - int (digit_value (v ! i))"
  have old: "is_digit (v ! i)" using assms(1-3) by (auto simp: all_digits_def list_all_iff)
  have "digit_value c \<noteq> digit_value (v ! i)" using digit_value_inj assms(4,5) old by blast
  then have d: "?d \<noteq> 0" "\<bar>?d\<bar> < 10"
    using digit_value_less [OF assms(4)] digit_value_less [OF old] by auto
  have "11 dvd int (nid_sum (v[i := c])) - int (nid_sum v)"
    using eq by (metis mod_eq_dvd_iff of_nat_mod of_nat_numeral)
  then have "11 dvd ?d * int (10 - i)" unfolding nid_sum_update [OF assms(1,3)] .
  then show False using not_multiple_of_11 [OF d, of "int (10 - i)"] assms(3) by simp
qed

section \<open>Facts about phone numbers\<close>

lemma digit_not_noise: "is_digit c \<Longrightarrow> \<not> phone_noise c"
  using is_space_digit [of c] by (auto simp: phone_noise_def is_digit_of_char)

lemma clean_id: "list_all (\<lambda>c. \<not> phone_noise c) s \<Longrightarrow> filter (\<lambda>c. \<not> phone_noise c) (trim s) = s"
  by (subst trim_id) (auto simp: list_all_iff phone_noise_def filter_id_conv)

lemma take_Cons_prefix: "has_prefix p (p @ s)"
  by (simp add: has_prefix_def)

lemma normalize_shape:
  assumes "normalizeIranianPhone raw = Some n"
  shows "\<exists>l. n = ''+98'' @ l \<and> ten_digits l \<and> hd l = CHR ''9''"
proof -
  from assms obtain l where n: "n = ''+98'' @ l" "has_prefix ''+989'' (''+98'' @ l)"
    "length l = 10" "all_digits (drop 4 (''+98'' @ l))"
    by (auto simp: normalizeIranianPhone_def Let_def split: option.splits if_splits)
  then obtain c t where l: "l = c # t" by (cases l) auto
  have "c = CHR ''9''" "all_digits t" using n(2,4) by (simp_all add: l has_prefix_def)
  then show ?thesis using n(1,3) l
    by (intro exI [of _ l]) (simp add: ten_digits_def all_digits_def is_digit_def)
qed

lemma phone_local_spelling:
  assumes t: "length t = 9" "all_digits t" and p: "p \<in> {''+98'', ''0098'', ''98'', ''0'', []}"
  shows "phone_local (p @ CHR ''9'' # t) = Some (CHR ''9'' # t)"
proof -
  have d: "is_digit (CHR ''9'')" by (simp add: is_digit_def)
  have td: "ten_digits (CHR ''9'' # t)" using t d by (simp add: ten_digits_def all_digits_def)
  have len: "\<not> ten_digits s" if "length s \<noteq> 10" for s using that by (simp add: ten_digits_def)
  show ?thesis
    using p td t(1) by (elim insertE emptyE) (simp_all add: phone_local_def has_prefix_def len)
qed

lemma normalize_spellings:
  assumes l: "ten_digits l" "hd l = CHR ''9''" and p: "p \<in> {''+98'', ''0098'', ''98'', ''0'', []}"
  shows "normalizeIranianPhone (p @ l) = Some (''+98'' @ l)"
proof -
  obtain t where t: "l = CHR ''9'' # t" using l by (cases l) (auto simp: ten_digits_def)
  have len: "length t = 9" and dig: "all_digits t"
    using l t by (auto simp: ten_digits_def all_digits_def)
  have c: "list_all (\<lambda>c. \<not> phone_noise c) l"
    using l(1) digit_not_noise by (auto simp: ten_digits_def all_digits_def list_all_iff)
  have "list_all (\<lambda>c. \<not> phone_noise c) p"
    using p by (elim insertE emptyE) (simp_all add: phone_noise_def is_space_def)
  then have "filter (\<lambda>c. \<not> phone_noise c) (trim (p @ l)) = p @ l"
    using c by (intro clean_id) simp
  then show ?thesis
    using phone_local_spelling [OF len dig p] len dig
    by (simp add: normalizeIranianPhone_def t has_prefix_def)
qed

section \<open>Facts about digit conversion\<close>

lemma toLatin_toPersian: "list_all (\<lambda>c. c < 1632 \<or> 1641 < c) s \<Longrightarrow> list_all (\<lambda>c. c < 1776 \<or> 1785 < c) s \<Longrightarrow>
    toLatinDigits (toPersianDigits s) = s"
  unfolding toLatinDigits_def toPersianDigits_def map_map by (rule map_idI) (auto simp: list_all_iff)

lemma toPersian_toLatin_persian: "toPersianDigits (toLatinDigits (toPersianDigits s)) = toPersianDigits (toLatinDigits s)"
  by (auto simp: toLatinDigits_def toPersianDigits_def)

section \<open>Properties\<close>

text \<open>The IBAN check catches every single wrong digit: if IR followed by 24 digits is
  accepted, then replacing any one of the digits by a different digit gives a number that is
  rejected.\<close>

theorem iban_catches_single_digit:
  assumes "length ds = 24" "all_digits ds" "isValidIranianIban (''IR'' @ ds)"
    and "i < 24" "is_digit c" "c \<noteq> ds ! i"
  shows "\<not> isValidIranianIban (''IR'' @ ds[i := c])"
proof -
  have d: "all_digits (ds[i := c])"
    using assms(2,5) set_update_subset_insert [of ds i c] by (auto simp: all_digits_def list_all_iff)
  have "dec_value (iban_number ds) mod 97 = 1"
    using assms(3) unfolding isValidIban_digits [OF assms(1,2)] by (rule conjunct2)
  from iban_single_digit [OF assms(1,2,4,5,6) this] show ?thesis
    unfolding isValidIban_digits [OF length_list_update [THEN trans, OF assms(1)] d] by simp
qed

lemma iban_catches_single_digit_witness:
  "isValidIranianIban ''IR820540102680020817909002'' \<and>
   \<not> isValidIranianIban ''IR820540102680020817909003''"
proof -
  let ?ds = "''820540102680020817909002''"
  have v: "isValidIranianIban (''IR'' @ ?ds)" by code_simp
  have "all_digits ?ds" "is_digit (CHR ''3'')" by code_simp+
  then have "\<not> isValidIranianIban (''IR'' @ ?ds[23 := CHR ''3''])"
    by (intro iban_catches_single_digit [OF _ _ v]) simp_all
  then show ?thesis using v by (simp add: list_update_code numeral_eq_Suc)
qed

text \<open>What the check digit of a national ID catches: with the other digits unchanged no
  other check digit is accepted, and when one of the nine other digits is replaced and the
  number is still accepted, the two remainders are 1 and 10, the pair that shares a check
  digit.\<close>

theorem national_id_detection:
  assumes "length v = 10" "all_digits v" "isValidIranianNationalId v" "i < 10" "is_digit c" "c \<noteq> v ! i"
    and "isValidIranianNationalId (v[i := c])"
  shows "i < 9 \<and> {nid_sum v mod 11, nid_sum (v[i := c]) mod 11} = {1, 10}"
proof -
  have d: "all_digits (v[i := c])"
    using assms(2,5) set_update_subset_insert [of v i c] by (auto simp: all_digits_def list_all_iff)
  have a: "digit_value (v ! 9) = nid_check (nid_sum v mod 11)"
    using assms(3) isValidNid_iff [OF assms(1,2)] by simp
  have b: "digit_value (v[i := c] ! 9) = nid_check (nid_sum (v[i := c]) mod 11)"
    using assms(7) isValidNid_iff [of "v[i := c]"] assms(1) d by simp
  show ?thesis
  proof (cases "i = 9")
    case True
    then have "digit_value c = digit_value (v ! 9)"
      using a b assms(1) nid_sum_last [OF assms(1), of c] by simp
    then have "c = v ! 9"
      using digit_value_inj [OF assms(5), of "v ! 9"] assms(1,2) by (simp add: all_digits_def list_all_length)
    then show ?thesis using assms(6) True by simp
  next
    case False
    then have i: "i < 9" using assms(4) by simp
    have "nid_check (nid_sum v mod 11) = nid_check (nid_sum (v[i := c]) mod 11)"
      using a b i by simp
    from nid_check_collision [OF _ _ this] nid_remainder_changes [OF assms(1,2) i assms(5,6)] i
    show ?thesis by simp
  qed
qed

lemma national_id_detection_witness:
  "isValidIranianNationalId ''1000000011'' \<and> isValidIranianNationalId ''1000000001'' \<and>
   {nid_sum ''1000000011'' mod 11, nid_sum ''1000000001'' mod 11} = {1, 10}"
proof -
  have v: "isValidIranianNationalId ''1000000011''" "isValidIranianNationalId ''1000000001''"
    "all_digits ''1000000011''" "is_digit (CHR ''0'')" by code_simp+
  have u: "''1000000011''[8 := CHR ''0''] = ''1000000001''" by (simp add: numeral_eq_Suc)
  have "(8::nat) < 9 \<and> {nid_sum ''1000000011'' mod 11, nid_sum (''1000000011''[8 := CHR ''0'']) mod 11} = {1, 10}"
    by (rule national_id_detection) (use v u in \<open>simp_all\<close>)
  then show ?thesis using v u by simp
qed

text \<open>Phone normalisation: a result is always +98 and ten digits starting with 9,
  normalising it again changes nothing, and the five spellings of the same number
  (+98, 0098, 98, 0 or no prefix) normalise to the same string.\<close>

theorem phone_normal_form:
  assumes "normalizeIranianPhone raw = Some n"
  shows "\<exists>l. n = ''+98'' @ l \<and> ten_digits l \<and> hd l = CHR ''9'' \<and>
    normalizeIranianPhone n = Some n \<and>
    (\<forall>p\<in>{''+98'', ''0098'', ''98'', ''0'', []}. normalizeIranianPhone (p @ l) = Some n)"
proof -
  obtain l where l: "n = ''+98'' @ l" "ten_digits l" "hd l = CHR ''9''"
    using normalize_shape [OF assms] by blast
  then have "\<forall>p\<in>{''+98'', ''0098'', ''98'', ''0'', []}. normalizeIranianPhone (p @ l) = Some n"
    using normalize_spellings [OF l(2,3)] by blast
  then show ?thesis using l by (intro exI [of _ l]) auto
qed

lemma phone_normal_form_witness:
  "normalizeIranianPhone ''0912 345-6789'' = Some ''+989123456789'' \<and>
   normalizeIranianPhone ''+989123456789'' = Some ''+989123456789''"
proof -
  have r: "normalizeIranianPhone ''0912 345-6789'' = Some ''+989123456789''" by code_simp
  from phone_normal_form [OF r] r show ?thesis by blast
qed

end
