(* ===== verification/AuditTrail.thy ===== *)
theory AuditTrail
  imports Json Samples Persian
begin

text \<open>
  The audit trail: core/audit/redaction.ts, core/audit/canonical-json.ts,
  core/audit/audit.service.ts (log with its catch-all, the two page queries, the
  actor projection) and common/interceptors/audit.interceptor.ts, which records every
  call of a marked handler.  SHA-256 is a parameter.  The lemmas show that the row
  does not depend on secret values of the payload, that two payloads get the same hash
  exactly when their redacted forms are equal up to key order (for a hash without
  collisions), that log never throws and only appends, and when it writes no row.
\<close>

section \<open>redaction.ts\<close>

definition PHONE_KEYS :: "string list" where
  "PHONE_KEYS = [''phone'', ''phoneNumber'', ''mobile'']"

definition NATIONAL_ID_KEYS :: "string list" where
  "NATIONAL_ID_KEYS = [''nationalId'', ''national_id'']"

definition OMIT_KEYS :: "string list" where
  "OMIT_KEYS = [''refreshToken'', ''refresh_token'', ''accessToken'', ''access_token'', ''otp'',
     ''otpCode'', ''otp_code'', ''code'', ''totpCode'', ''totp_code'', ''totpSecret'',
     ''totp_secret'', ''password'', ''pin'']"

definition REDACTED_PLACEHOLDER :: string where
  "REDACTED_PLACEHOLDER = ''[REDACTED]''"

definition last4 :: "string \<Rightarrow> string" where
  "last4 s = drop (length s - 4) s"

definition maskPhone :: "json \<Rightarrow> string" where
  "maskPhone value = (case value of
       JStr s \<Rightarrow>
         if length s < 4 then REDACTED_PLACEHOLDER
         else (if take 3 s = ''+98'' then ''+98'' else []) @ ''****'' @ last4 s
     | _ \<Rightarrow> REDACTED_PLACEHOLDER)"

definition maskNationalId :: "json \<Rightarrow> string" where
  "maskNationalId value = (case value of
       JStr s \<Rightarrow> if length s < 4 then REDACTED_PLACEHOLDER else ''******'' @ last4 s
     | _ \<Rightarrow> REDACTED_PLACEHOLDER)"

definition assign_all :: "(string \<times> json) list \<Rightarrow> (string \<times> json) list" where
  "assign_all ms = foldl (\<lambda>out (k, v). js_put k v out) [] ms"

text \<open>One turn of redactObject's loop, given the recursive call on the value.\<close>

definition redact_slot :: "string \<Rightarrow> json \<Rightarrow> json \<Rightarrow> json" where
  "redact_slot k raw redacted =
     (if k \<in> set OMIT_KEYS then JStr REDACTED_PLACEHOLDER
      else if k \<in> set PHONE_KEYS then JStr (maskPhone raw)
      else if k \<in> set NATIONAL_ID_KEYS then JStr (maskNationalId raw)
      else redacted)"

fun redactValue :: "json \<Rightarrow> json" where
  "redactValue (JArr xs) = JArr (map redactValue xs)"
| "redactValue (JObj o1) =
     JObj (assign_all (map (\<lambda>(k, raw). (k, redact_slot k raw (redactValue raw))) o1))"
| "redactValue v = v"

definition redactSensitivePayload :: "json \<Rightarrow> json" where
  "redactSensitivePayload payload = redactValue payload"

section \<open>canonical-json.ts\<close>

fun canonicalize :: "json \<Rightarrow> json" where
  "canonicalize (JBig i) = JStr (int_to_string i)"
| "canonicalize (JArr xs) = JArr (map canonicalize xs)"
| "canonicalize (JObj o1) = JObj (assign_all (filter (\<lambda>p. snd p \<noteq> JUndefined)
     (sort_key fst (map (\<lambda>(k, v). (k, canonicalize v)) o1))))"
| "canonicalize v = v"

definition canonicalJSONStringify :: "json \<Rightarrow> string" where
  "canonicalJSONStringify v = json_text (canonicalize v)"

section \<open>audit.service.ts\<close>

record audit_entry =
  ae_actorUserId :: "int option"
  ae_action :: string
  ae_resource :: string
  ae_resourceId :: json
  ae_payload :: "(string \<times> json) list"
  ae_ipAddress :: "string option"
  ae_userAgent :: "string option"
  ae_impersonationSessionId :: "int option"
  ae_failed :: bool

definition audit_payload :: "audit_entry \<Rightarrow> json" where
  "audit_payload en = (case redactSensitivePayload (JObj (ae_payload en)) of
       JObj ms \<Rightarrow> (case ae_impersonationSessionId en of
                    Some i \<Rightarrow> JObj (js_define ''impersonationSessionId'' (JStr (int_to_string i)) ms)
                  | None \<Rightarrow> JObj ms)
     | v \<Rightarrow> v)"

definition audit_resourceId :: "json \<Rightarrow> string option" where
  "audit_resourceId r = (if r = JNull then None else Some (js_String r))"

definition fits :: "nat \<Rightarrow> string option \<Rightarrow> bool" where
  "fits n v = (case v of None \<Rightarrow> True | Some s \<Rightarrow> length s \<le> n)"

text \<open>auditLog.create against the columns of the table: VARCHAR lengths (P2000) and the
  foreign key of the actor (P2003).\<close>

definition audit_create :: "audit_row \<Rightarrow> ('x sys_scheme, audit_row) M" where
  "audit_create row =
     (if \<not> (length (a_action row) \<le> 100 \<and> length (a_resource row) \<le> 100 \<and>
            fits 64 (a_resourceId row) \<and> length (a_payloadHash row) \<le> 64 \<and>
            fits 45 (a_ipAddress row) \<and> fits 512 (a_userAgent row))
      then throw (PrismaKnown ''P2000'' JUndefined)
      else bind (gets (\<lambda>s. case a_actorUserId row of
                            None \<Rightarrow> True | Some u \<Rightarrow> find_user u s \<noteq> None)) (\<lambda>known.
        if known then create_in audit_logs audit_logs_update (\<lambda>i. row\<lparr>a_id := i\<rparr>)
        else throw (PrismaKnown ''P2003'' JUndefined)))"

definition audit_row_of :: "(string \<Rightarrow> string) \<Rightarrow> int \<Rightarrow> audit_entry \<Rightarrow> audit_row" where
  "audit_row_of sha now en =
     \<lparr>a_id = 0, a_actorUserId = ae_actorUserId en, a_action = ae_action en,
      a_resource = ae_resource en, a_resourceId = audit_resourceId (ae_resourceId en),
      a_payloadHash = sha (canonicalJSONStringify (audit_payload en)), a_failed = ae_failed en,
      a_ipAddress = ae_ipAddress en, a_userAgent = ae_userAgent en, a_createdAt = now\<rparr>"

definition audit_log :: "(string \<Rightarrow> string) \<Rightarrow> int \<Rightarrow> audit_entry \<Rightarrow> ('x sys_scheme, unit) M" where
  "audit_log sha now en =
     tryCatch (seq (audit_create (audit_row_of sha now en)) (return ())) (\<lambda>_. return ())"

record audit_filters =
  af_actorUserId :: "int option"
  af_action :: "string option"
  af_resource :: "string option"
  af_resourceId :: "string option"
  af_failed :: "bool option"
  af_from :: "int option"
  af_to :: "int option"

definition opt_match :: "'a option \<Rightarrow> ('a \<Rightarrow> bool) \<Rightarrow> bool" where
  "opt_match f P = (case f of None \<Rightarrow> True | Some v \<Rightarrow> P v)"

text \<open>A string filter applies when it is a non-empty string.\<close>

definition str_match :: "string option \<Rightarrow> (string \<Rightarrow> bool) \<Rightarrow> bool" where
  "str_match f P = (case f of None \<Rightarrow> True | Some v \<Rightarrow> v = [] \<or> P v)"

definition in_period :: "int option \<Rightarrow> int option \<Rightarrow> int \<Rightarrow> bool" where
  "in_period a b t = (opt_match a (\<lambda>x. x \<le> t) \<and> opt_match b (\<lambda>x. t \<le> x))"

definition audit_findMany ::
    "audit_filters \<Rightarrow> int option \<Rightarrow> nat \<Rightarrow> ('x sys_scheme, audit_row page) M" where
  "audit_findMany f cursor limit =
     gets (\<lambda>s. paginate a_id cursor limit (t_filter (\<lambda>r.
       opt_match (af_actorUserId f) (\<lambda>u. a_actorUserId r = Some u) \<and>
       str_match (af_action f) (\<lambda>x. a_action r = x) \<and>
       str_match (af_resource f) (\<lambda>x. a_resource r = x) \<and>
       str_match (af_resourceId f) (\<lambda>x. a_resourceId r = Some x) \<and>
       in_period (af_from f) (af_to f) (a_createdAt r)) (audit_logs s)))"

fun split_on :: "char \<Rightarrow> string \<Rightarrow> string list" where
  "split_on c [] = [[]]"
| "split_on c (x # xs) = (if x = c then [] # split_on c xs
     else (case split_on c xs of [] \<Rightarrow> [[x]] | y # ys \<Rightarrow> (x # y) # ys))"

lemma split_on_nonempty [simp]: "split_on c x \<noteq> []"
  by (cases x) (auto split: list.splits)

record audit_actor =
  aa_id :: int
  aa_firstName :: "string option"
  aa_lastName :: "string option"
  aa_phone :: string

definition sanitizeActor :: "user \<Rightarrow> audit_actor" where
  "sanitizeActor u = \<lparr>aa_id = u_id u, aa_firstName = u_firstName u, aa_lastName = u_lastName u,
     aa_phone = maskPhone (JStr (u_phone u))\<rparr>"

definition audit_actor_of :: "'x sys_scheme \<Rightarrow> audit_row \<Rightarrow> audit_actor option" where
  "audit_actor_of s r = (case a_actorUserId r of
       None \<Rightarrow> None
     | Some u \<Rightarrow> (case find_user u s of
                    None \<Rightarrow> None
                  | Some a \<Rightarrow> if u_deletedAt a \<noteq> None then None else Some (sanitizeActor a)))"

definition audit_findManyForAdmin :: "audit_filters \<Rightarrow> int option \<Rightarrow> nat \<Rightarrow>
    ('x sys_scheme, (audit_row \<times> audit_actor option) list \<times> int option \<times> bool) M" where
  "audit_findManyForAdmin f cursor limit =
     gets (\<lambda>s. let p = paginate a_id cursor limit (t_filter (\<lambda>r.
         opt_match (af_actorUserId f) (\<lambda>u. a_actorUserId r = Some u) \<and>
         opt_match (af_action f) (\<lambda>x. a_action r \<in> set (map trim (split_on (CHR '','') x))) \<and>
         str_match (af_resource f) (\<lambda>x. a_resource r = x) \<and>
         str_match (af_resourceId f) (\<lambda>x. a_resourceId r = Some x) \<and>
         opt_match (af_failed f) (\<lambda>x. a_failed r = x) \<and>
         in_period (af_from f) (af_to f) (a_createdAt r)) (audit_logs s))
       in (map (\<lambda>r. (r, audit_actor_of s r)) (items p), nextCursor p, hasMore p))"

definition audit_findByIdForAdmin ::
    "int \<Rightarrow> ('x sys_scheme, (audit_row \<times> audit_actor option) option) M" where
  "audit_findByIdForAdmin i =
     gets (\<lambda>s. map_option (\<lambda>r. (r, audit_actor_of s r)) (t_get a_id i (audit_logs s)))"

section \<open>audit.interceptor.ts\<close>

datatype resource_id_source = FromParam | FromBody | FromResponse

record audit_meta =
  mt_action :: string
  mt_resource :: string
  mt_resourceIdParam :: "string option"
  mt_resourceIdSource :: "resource_id_source option"

text \<open>The parts of a request the guards and interceptors read.\<close>

record impersonation_context =
  ic_actorUserId :: int
  ic_impSessionId :: int

record http_request =
  rq_method :: string
  rq_path :: string
  rq_params :: "(string \<times> json) list"
  rq_body :: json
  rq_headers :: "(string \<times> string) list"
  rq_ip :: "string option"
  rq_user :: "int option"
  rq_impersonation :: "impersonation_context option"

definition readResponseField :: "json \<Rightarrow> string \<Rightarrow> json" where
  "readResponseField response key = (case response of
       JObj o1 \<Rightarrow>
         if key \<in> fst ` set o1 then jget o1 key
         else (case jget o1 ''data'' of
                 JObj d \<Rightarrow> if key \<in> fst ` set d then jget d key else JUndefined
               | _ \<Rightarrow> JUndefined)
     | _ \<Rightarrow> JUndefined)"

definition readSource :: "resource_id_source \<Rightarrow> string \<Rightarrow> http_request \<Rightarrow> json \<Rightarrow> json" where
  "readSource source key req response = (case source of
       FromParam \<Rightarrow> jget (rq_params req) key
     | FromBody \<Rightarrow> (case rq_body req of JObj b \<Rightarrow> jget b key | _ \<Rightarrow> JUndefined)
     | FromResponse \<Rightarrow> readResponseField response key)"

definition int_text :: "string \<Rightarrow> int option" where
  "int_text s = (case s of
       [] \<Rightarrow> None
     | c # t \<Rightarrow>
         if c = CHR ''-'' then (if t \<noteq> [] \<and> all_digits t then Some (- int (digits_value t)) else None)
         else if all_digits s then Some (int (digits_value s)) else None)"

definition normalizeResourceId :: "json \<Rightarrow> json" where
  "normalizeResourceId raw = (case raw of
       JNull \<Rightarrow> JNull
     | JUndefined \<Rightarrow> JNull
     | JBig i \<Rightarrow> JBig i
     | JStr s \<Rightarrow> (case int_text s of Some i \<Rightarrow> JBig i | None \<Rightarrow> JStr s)
     | JNum i \<Rightarrow> JBig i
     | v \<Rightarrow> JStr (js_String v))"

definition extractResourceId :: "audit_meta \<Rightarrow> http_request \<Rightarrow> json \<Rightarrow> json" where
  "extractResourceId meta req response = (case mt_resourceIdParam meta of
       None \<Rightarrow> JNull
     | Some key \<Rightarrow> if key = [] then JNull
         else normalizeResourceId (readSource
           (case mt_resourceIdSource meta of None \<Rightarrow> FromParam | Some src \<Rightarrow> src) key req response))"

definition mapStatusToCode :: "nat \<Rightarrow> string" where
  "mapStatusToCode status =
     code_string (if status = 400 then VALIDATION_ERROR
                  else if status = 401 then UNAUTHORIZED
                  else if status = 403 then FORBIDDEN
                  else if status = 404 then NOT_FOUND
                  else if status = 409 then CONFLICT
                  else if status = 412 then ADMIN_CONFIRM_REQUIRED
                  else if status = 429 then RATE_LIMITED
                  else INTERNAL_ERROR)"

definition classifyError :: "exn \<Rightarrow> nat \<times> string" where
  "classifyError err = (case err of
       HttpException status response \<Rightarrow>
         (status, case response of
            RespObject r \<Rightarrow> (case jget r ''code'' of JStr c \<Rightarrow> c | _ \<Rightarrow> mapStatusToCode status)
          | RespString _ \<Rightarrow> mapStatusToCode status)
     | _ \<Rightarrow> (500, code_string INTERNAL_ERROR))"

definition request_snapshot :: "http_request \<Rightarrow> json" where
  "request_snapshot req = JObj [(''method'', JStr (rq_method req)), (''path'', JStr (rq_path req)),
     (''body'', rq_body req)]"

definition audit_actor_id :: "http_request \<Rightarrow> int option" where
  "audit_actor_id req = (case rq_impersonation req of
       Some ic \<Rightarrow> Some (ic_actorUserId ic)
     | None \<Rightarrow> rq_user req)"

definition interceptor_entry :: "audit_meta \<Rightarrow> http_request \<Rightarrow> json \<Rightarrow>
    (string \<times> json) list \<Rightarrow> bool \<Rightarrow> audit_entry" where
  "interceptor_entry meta req response payload failed =
     \<lparr>ae_actorUserId = audit_actor_id req, ae_action = mt_action meta,
      ae_resource = mt_resource meta, ae_resourceId = extractResourceId meta req response,
      ae_payload = payload, ae_ipAddress = rq_ip req,
      ae_userAgent = map_of (rq_headers req) ''user-agent'',
      ae_impersonationSessionId = map_option ic_impSessionId (rq_impersonation req),
      ae_failed = failed\<rparr>"

text \<open>The log call is fired and not awaited; it never throws, so it is a step after the
  handler.\<close>

definition audit_intercept :: "(string \<Rightarrow> string) \<Rightarrow> int \<Rightarrow> audit_meta option \<Rightarrow> http_request \<Rightarrow>
    ('x sys_scheme, json) M \<Rightarrow> ('x sys_scheme, json) M" where
  "audit_intercept sha now meta req handler = (case meta of
       None \<Rightarrow> handler
     | Some mt \<Rightarrow>
         tryCatch
           (bind handler (\<lambda>response.
              seq (audit_log sha now (interceptor_entry mt req response
                     [(''request'', request_snapshot req), (''response'', response)] False))
                  (return response)))
           (\<lambda>err. seq (audit_log sha now (interceptor_entry mt req JUndefined
                     [(''failed'', JBool True), (''statusCode'', JNum (int (fst (classifyError err)))),
                      (''errorCode'', JStr (snd (classifyError err))),
                      (''request'', request_snapshot req)] True))
                  (throw err)))"

section \<open>log never throws\<close>

definition audit_writable :: "audit_row \<Rightarrow> 'x sys_scheme \<Rightarrow> bool" where
  "audit_writable row s \<longleftrightarrow> length (a_action row) \<le> 100 \<and> length (a_resource row) \<le> 100 \<and>
     fits 64 (a_resourceId row) \<and> length (a_payloadHash row) \<le> 64 \<and>
     fits 45 (a_ipAddress row) \<and> fits 512 (a_userAgent row) \<and>
     (case a_actorUserId row of None \<Rightarrow> True | Some u \<Rightarrow> find_user u s \<noteq> None)"

lemma audit_log_run:
  "audit_log sha now en s =
     (Inr (), if audit_writable (audit_row_of sha now en) s
              then audit_logs_update (t_insert (\<lambda>i. (audit_row_of sha now en)\<lparr>a_id := i\<rparr>)) s else s)"
  by (simp add: audit_log_def audit_create_def audit_writable_def run_simps create_in_def)

lemma wp_audit_log [wp_eqs]: "wp (audit_log sha now en) Q E s = Q () (snd (audit_log sha now en s))"
  by (simp add: wp_def audit_log_run)

lemma keeps_audit_log:
  "(\<And>s f. P s \<Longrightarrow> P (audit_logs_update f s)) \<Longrightarrow> keeps P (audit_log sha now en)"
  by (simp add: keeps_def audit_log_run)

lemma audit_log_fields [simp]:
  "users (snd (audit_log sha now en s)) = users s"
  "sessions (snd (audit_log sha now en s)) = sessions s"
  "user_roles (snd (audit_log sha now en s)) = user_roles s"
  "wallets (snd (audit_log sha now en s)) = wallets s"
  "notifications (snd (audit_log sha now en s)) = notifications s"
  by (simp_all add: audit_log_run)

section \<open>Secrets\<close>

text \<open>Replace every value under an omitted key by g of it, and every string under a phone
  or national-id key by h of it, at any depth.\<close>

definition scramble_slot ::
    "(json \<Rightarrow> json) \<Rightarrow> (string \<Rightarrow> string) \<Rightarrow> string \<Rightarrow> json \<Rightarrow> json \<Rightarrow> json" where
  "scramble_slot g h k v scrambled =
     (if k \<in> set OMIT_KEYS then g v
      else if k \<in> set PHONE_KEYS \<or> k \<in> set NATIONAL_ID_KEYS
      then (case v of JStr s \<Rightarrow> JStr (h s) | _ \<Rightarrow> v)
      else scrambled)"

fun scramble :: "(json \<Rightarrow> json) \<Rightarrow> (string \<Rightarrow> string) \<Rightarrow> json \<Rightarrow> json" where
  "scramble g h (JArr xs) = JArr (map (scramble g h) xs)"
| "scramble g h (JObj o1) = JObj (map (\<lambda>(k, v). (k, scramble_slot g h k v (scramble g h v))) o1)"
| "scramble g h v = v"

text \<open>h keeps the last four characters, the +98 prefix and whether there are four.\<close>

definition keeps_tail :: "(string \<Rightarrow> string) \<Rightarrow> bool" where
  "keeps_tail h \<longleftrightarrow> (\<forall>s. if length s < 4 then length (h s) < 4
     else 4 \<le> length (h s) \<and> last4 (h s) = last4 s \<and> (take 3 (h s) = ''+98'' \<longleftrightarrow> take 3 s = ''+98''))"

lemma mask_keeps_tail:
  assumes "keeps_tail h"
  shows "maskPhone (JStr (h s)) = maskPhone (JStr s)" "maskNationalId (JStr (h s)) = maskNationalId (JStr s)"
  using assms [unfolded keeps_tail_def, rule_format, of s]
  by (auto simp: maskPhone_def maskNationalId_def split: if_splits)

lemma redact_scramble_slot:
  assumes "keeps_tail h" "redactValue (scramble g h v) = redactValue v"
  shows "redact_slot k (scramble_slot g h k v (scramble g h v))
           (redactValue (scramble_slot g h k v (scramble g h v))) = redact_slot k v (redactValue v)"
  using assms(2) mask_keeps_tail [OF assms(1)]
  by (simp add: redact_slot_def scramble_slot_def split: json.splits)

lemma redact_scramble: "keeps_tail h \<Longrightarrow> redactValue (scramble g h v) = redactValue v"
proof (induction v rule: redactValue.induct)
  case (2 o1)
  have "map (\<lambda>p. case case p of (k, v) \<Rightarrow> (k, scramble_slot g h k v (scramble g h v)) of
      (k, raw) \<Rightarrow> (k, redact_slot k raw (redactValue raw))) o1 =
      map (\<lambda>(k, raw). (k, redact_slot k raw (redactValue raw))) o1"
    using 2 by (intro map_cong) (auto simp: redact_scramble_slot)
  then show ?case by (simp only: redactValue.simps scramble.simps list.map_comp comp_def)
qed simp_all

section \<open>The hashed text\<close>

text \<open>Objects without an own __proto__ member, which no object literal can hold.\<close>

fun no_proto :: "json \<Rightarrow> bool" where
  "no_proto (JArr xs) = list_all no_proto xs"
| "no_proto (JObj o1) = list_all (\<lambda>(k, v). k \<noteq> ''__proto__'' \<and> no_proto v) o1"
| "no_proto _ = True"

lemma set_js_define: "set (js_define k v o1) \<subseteq> insert (k, v) (set o1)"
  by (induction k v o1 rule: js_define.induct) auto

lemma assign_all_run: "foldl (\<lambda>out (k, v). js_put k v out) acc ms =
    foldl (\<lambda>out (k, v). js_define k v out) acc (filter (\<lambda>p. fst p \<noteq> ''__proto__'') ms)"
  by (induction ms arbitrary: acc) (auto simp: js_put_def)

lemma assign_all_define: "assign_all ms =
    foldl (\<lambda>out (k, v). js_define k v out) [] (filter (\<lambda>p. fst p \<noteq> ''__proto__'') ms)"
  by (simp add: assign_all_def assign_all_run)

lemma set_foldl_js_define: "set (foldl (\<lambda>out (k, v). js_define k v out) acc ms) \<subseteq> set acc \<union> set ms"
proof (induction ms arbitrary: acc)
  case (Cons p ms)
  obtain k v where "p = (k, v)" by (cases p)
  then show ?case using Cons [of "js_define k v acc"] set_js_define [of k v acc] by auto
qed simp

lemma set_assign_all: "set (assign_all ms) \<subseteq> {p \<in> set ms. fst p \<noteq> ''__proto__''}"
  using set_foldl_js_define [of "[]" "filter (\<lambda>p. fst p \<noteq> ''__proto__'') ms"]
  by (auto simp: assign_all_define)

lemma in_order_assign_all: "in_order (assign_all ms)"
  unfolding assign_all_define by (rule in_order_foldl_js_define) (simp add: in_order_def)

lemma map_of_assign_all: "distinct (map fst ms) \<Longrightarrow> list_all (\<lambda>p. fst p \<noteq> ''__proto__'') ms \<Longrightarrow>
    map_of (assign_all ms) = map_of ms"
  by (subgoal_tac "filter (\<lambda>p. fst p \<noteq> ''__proto__'') ms = ms")
     (auto simp: assign_all_define map_of_foldl_js_define filter_id_conv list_all_iff)

text \<open>What redaction builds is a proper object at every depth, so is the hashed payload.\<close>

lemma redact_shape: "keyed_json (redactValue v) \<and> no_proto (redactValue v)"
proof (induction v rule: redactValue.induct)
  case (2 o1)
  have "\<forall>(k, w) \<in> set (assign_all (map (\<lambda>(k, raw). (k, redact_slot k raw (redactValue raw))) o1)).
      k \<noteq> ''__proto__'' \<and> keyed_json w \<and> no_proto w"
    using 2 set_assign_all [of "map (\<lambda>(k, raw). (k, redact_slot k raw (redactValue raw))) o1"]
    by (fastforce simp: redact_slot_def)
  then show ?case
    using in_order_assign_all [THEN in_order_distinct] by (auto simp: list_all_iff)
qed (auto simp: list_all_iff)

lemma audit_payload_shape: "keyed_json (audit_payload en) \<and> no_proto (audit_payload en)"
proof -
  obtain ms where ms: "redactSensitivePayload (JObj (ae_payload en)) = JObj ms" "in_order ms"
    by (simp add: redactSensitivePayload_def in_order_assign_all)
  then have s: "keyed_json (JObj ms)" "no_proto (JObj ms)"
    using redact_shape [of "JObj (ae_payload en)"] by (simp_all add: redactSensitivePayload_def)
  have "distinct (map fst (js_define ''impersonationSessionId'' x ms))" for x
    by (rule in_order_distinct, rule in_order_js_define, rule ms(2))
  then show ?thesis
    using s set_js_define [of "''impersonationSessionId''" _ ms]
    by (fastforce simp: audit_payload_def ms(1) list_all_iff split: option.splits)
qed

lemma insort_key_map_snd:
  "map (\<lambda>(k, v). (k, f v)) (insort_key fst p xs) =
   insort_key fst (case p of (k, v) \<Rightarrow> (k, f v)) (map (\<lambda>(k, v). (k, f v)) xs)"
  by (induction xs) (auto split: prod.splits)

lemma sort_key_map_snd:
  "map (\<lambda>(k, v). (k, f v)) (sort_key fst xs) = sort_key fst (map (\<lambda>(k, v). (k, f v)) xs)"
  by (induction xs) (auto simp: insort_key_map_snd)

lemma map_js_define:
  "map (\<lambda>(k, v). (k, f v)) (js_define k v o1) = js_define k (f v) (map (\<lambda>(k, v). (k, f v)) o1)"
  by (induction k v o1 rule: js_define.induct) auto

lemma map_foldl_js_define:
  "map (\<lambda>(k, v). (k, f v)) (foldl (\<lambda>out (k, v). js_define k v out) acc ms) =
   foldl (\<lambda>out (k, v). js_define k v out) (map (\<lambda>(k, v). (k, f v)) acc) (map (\<lambda>(k, v). (k, f v)) ms)"
  by (induction ms arbitrary: acc) (auto simp: map_js_define)

lemma map_assign_all:
  "map (\<lambda>(k, v). (k, f v)) (assign_all ms) = assign_all (map (\<lambda>(k, v). (k, f v)) ms)"
  by (simp add: assign_all_define map_foldl_js_define filter_map comp_def case_prod_beta)

lemma canonicalize_undefined [simp]: "canonicalize v = JUndefined \<longleftrightarrow> v = JUndefined"
  by (cases v) simp_all

lemma wire_defined [simp]: "wire v \<noteq> JUndefined"
  by (cases v) simp_all

lemma filter_defined: "(\<And>p. p \<in> set ms \<Longrightarrow> snd p \<noteq> JUndefined) \<Longrightarrow> filter (\<lambda>p. snd p \<noteq> JUndefined) ms = ms"
  by (simp add: filter_id_conv)

text \<open>The canonical text only depends on what JSON carries.\<close>

lemma wire_canonicalize: "wire (canonicalize v) = canonicalize (wire v)"
proof (induction v rule: canonicalize.induct)
  case (3 o1)
  let ?D = "filter (\<lambda>p. snd p \<noteq> JUndefined)"
  let ?c = "map (\<lambda>(k, v). (k, canonicalize v))" and ?w = "map (\<lambda>(k, v). (k, wire v))"
  have f: "?D (sort_key fst (?c o1)) = sort_key fst (?c (?D o1))"
    by (simp add: filter_sort filter_map comp_def case_prod_beta)
  have d: "?D (assign_all (?D xs)) = assign_all (?D xs)" for xs
    using set_assign_all [of "?D xs"] by (intro filter_defined) auto
  have c: "?w (?c (?D o1)) = ?c (?w (?D o1))"
    using 3 by auto
  have e: "?D (sort_key fst (?c (?w xs))) = sort_key fst (?c (?w xs))" for xs
    by (intro filter_defined) auto
  have "wire (canonicalize (JObj o1)) = JObj (?w (assign_all (?D (sort_key fst (?c o1)))))"
    by (simp only: canonicalize.simps wire.simps d)
  also have "\<dots> = JObj (assign_all (sort_key fst (?w (?c (?D o1)))))"
    by (simp only: f map_assign_all sort_key_map_snd)
  also have "\<dots> = canonicalize (wire (JObj o1))"
    by (simp only: c e canonicalize.simps wire.simps)
  finally show ?case .
qed simp_all

lemma canonical_text_wire: "canonicalJSONStringify (wire v) = canonicalJSONStringify v"
  by (metis canonicalJSONStringify_def json_text_wire wire_canonicalize)

text \<open>For a plain value, the members of the canonical object.\<close>

lemma canonical_members:
  assumes "plain (JObj o1)" "keyed_json (JObj o1)" "no_proto (JObj o1)"
  obtains ms where "canonicalize (JObj o1) = JObj ms" "in_order ms"
    "ms = assign_all (sort_key fst (map (\<lambda>(k, v). (k, canonicalize v)) o1))"
    "\<And>k. map_of ms k = map_option canonicalize (map_of o1 k)"
    "\<And>p. p \<in> set ms \<Longrightarrow> snd p \<noteq> JUndefined"
proof -
  let ?m = "map (\<lambda>(k, v). (k, canonicalize v)) o1"
  have def: "v \<noteq> JUndefined" if "(k, v) \<in> set o1" for k v
    using that assms(1) by (cases v) (auto simp: list_all_iff)
  have f: "filter (\<lambda>p. snd p \<noteq> JUndefined) (sort_key fst ?m) = sort_key fst ?m"
    using def by (intro filter_defined) auto
  have d: "distinct (map fst ?m)" using assms(2) by (simp add: comp_def case_prod_beta)
  then have ds: "distinct (map fst (sort_key fst ?m))" by (rule distinct_sort_members)
  have np: "list_all (\<lambda>p. fst p \<noteq> ''__proto__'') (sort_key fst ?m)"
    using assms(3) by (auto simp: list_all_iff)
  have "map_of (sort_key fst ?m) = map_of ?m"
    by (rule map_of_sort_members [OF d])
  then have "map_of (assign_all (sort_key fst ?m)) k = map_option canonicalize (map_of o1 k)" for k
    by (simp add: map_of_assign_all [OF ds np] map_of_map_snd)
  moreover have "snd p \<noteq> JUndefined" if "p \<in> set (assign_all (sort_key fst ?m))" for p
    using that set_assign_all [of "sort_key fst ?m"] def by auto
  ultimately show ?thesis
    by (intro that [of "assign_all (sort_key fst ?m)"]) (simp_all add: f in_order_assign_all)
qed

lemma canonical_reread: "plain v \<Longrightarrow> keyed_json v \<Longrightarrow> no_proto v \<Longrightarrow> json_same v (reread (canonicalize v))"
proof (induction v rule: canonicalize.induct)
  case (2 xs)
  then show ?case by (auto intro!: same_arr simp: list_all2_conv_all_nth list_all_iff)
next
  case (3 o1)
  obtain ms where ms: "canonicalize (JObj o1) = JObj ms" "in_order ms"
    "\<And>k. map_of ms k = map_option canonicalize (map_of o1 k)"
    "\<And>p. p \<in> set ms \<Longrightarrow> snd p \<noteq> JUndefined"
    using canonical_members [OF 3(2-4)] by metis
  let ?r = "map (\<lambda>(k, v). (k, reread v)) ms"
  have "distinct (map fst ?r)" using in_order_distinct [OF ms(2)] by (simp add: comp_def case_prod_beta)
  then have m: "map_of (foldl (\<lambda>acc (k, v). js_define k v acc) [] ?r) k =
      map_option (reread \<circ> canonicalize) (map_of o1 k)" for k
    by (simp add: map_of_foldl_js_define map_of_map_snd ms(3) option.map_comp)
  have "rel_option json_same (map_of o1 k) (map_option (reread \<circ> canonicalize) (map_of o1 k))" for k
  proof (cases "map_of o1 k")
    case (Some v)
    then have kv: "(k, v) \<in> set o1" by (rule map_of_SomeD)
    then have "plain v" "keyed_json v" "no_proto v" using 3(2-4) by (auto simp: list_all_iff)
    then show ?thesis using 3(1) [of "(k, v)" k v] kv Some by simp
  qed simp
  moreover have "filter (\<lambda>p. snd p \<noteq> JUndefined) ms = ms" by (rule filter_defined) (rule ms(4))
  ultimately show ?case unfolding ms(1) reread.simps by (intro same_obj) (simp add: m)
qed (auto intro: json_same.intros)

lemma canonical_same: "json_same v w \<Longrightarrow> plain v \<and> keyed_json v \<Longrightarrow> plain w \<and> keyed_json w \<Longrightarrow>
   canonicalize v = canonicalize w"
proof (induction rule: json_same.induct)
  case (same_arr xs ys)
  then show ?case by (auto simp: list_all2_conv_all_nth list_all_length intro: nth_equalityI)
next
  case (same_obj o1 o2)
  have "sort_key fst (map (\<lambda>(k, v). (k, canonicalize v)) o1) = sort_key fst (map (\<lambda>(k, v). (k, canonicalize v)) o2)"
    by (rule same_sorted_members [where P = "\<lambda>v. plain v \<and> keyed_json v"])
       (use same_obj in \<open>auto simp: list_all_iff elim!: option.rel_mono_strong\<close>)
  then show ?case by simp
qed simp_all

text \<open>Two values have the same canonical text exactly when they are equal up to key order.\<close>

lemma canonical_text_iff:
  assumes "plain v" "keyed_json v" "no_proto v" "plain w" "keyed_json w" "no_proto w"
  shows "canonicalJSONStringify v = canonicalJSONStringify w \<longleftrightarrow> json_same v w"
proof
  assume "canonicalJSONStringify v = canonicalJSONStringify w"
  then have "reread (canonicalize v) = reread (canonicalize w)"
    by (metis canonicalJSONStringify_def json_parse_reread option.inject)
  then show "json_same v w"
    using canonical_reread [of v] canonical_reread [of w] assms
    by (metis json_same_sym json_same_trans)
next
  assume "json_same v w"
  then show "canonicalJSONStringify v = canonicalJSONStringify w"
    using canonical_same assms by (simp add: canonicalJSONStringify_def)
qed

lemma wire_shape: "keyed_json v \<Longrightarrow> keyed_json (wire v)" "no_proto v \<Longrightarrow> no_proto (wire v)"
proof -
  show "keyed_json v \<Longrightarrow> keyed_json (wire v)"
  proof (induction v rule: wire.induct)
    case (8 o1)
    then have "distinct (map fst (filter (\<lambda>p. snd p \<noteq> JUndefined) o1))"
      by (simp add: distinct_map_filter)
    then show ?case using 8 by (auto simp: list_all_iff comp_def case_prod_beta)
  qed (auto simp: list_all_iff)
  show "no_proto v \<Longrightarrow> no_proto (wire v)"
    by (induction v rule: wire.induct) (auto simp: list_all_iff)
qed

section \<open>Properties\<close>

text \<open>Secret values never influence the permanent record: replacing every value under
  an omitted key (passwords, one-time codes, tokens) by anything, and every phone or
  national-id string by any other with the same last four characters, the same +98
  prefix and as many as four characters, at any depth of the payload, leaves the effect
  of the audit log call unchanged.\<close>

theorem audit_ignores_secrets:
  assumes "keeps_tail h" and "scramble g h (JObj (ae_payload en)) = JObj payload'"
  shows "audit_log sha now (en\<lparr>ae_payload := payload'\<rparr>) s = audit_log sha now en s"
proof -
  have "redactSensitivePayload (JObj payload') = redactSensitivePayload (JObj (ae_payload en))"
    unfolding redactSensitivePayload_def assms(2) [symmetric] by (rule redact_scramble [OF assms(1)])
  then have "audit_row_of sha now (en\<lparr>ae_payload := payload'\<rparr>) = audit_row_of sha now en"
    by (simp add: audit_row_of_def audit_payload_def split: json.split option.split)
  then show ?thesis by (simp add: audit_log_run)
qed

text \<open>The stored hash identifies the redacted payload: whenever SHA-256 does not
  collide on the two texts concerned, two audit entries get the same payload hash exactly
  when their redacted payloads carry the same JSON value up to the order of keys (bigints
  as strings, undefined members absent).\<close>

theorem audit_hash_identifies_payload:
  assumes "sha (canonicalJSONStringify (audit_payload e1)) = sha (canonicalJSONStringify (audit_payload e2)) \<Longrightarrow>
      canonicalJSONStringify (audit_payload e1) = canonicalJSONStringify (audit_payload e2)"
  shows "a_payloadHash (audit_row_of sha now1 e1) = a_payloadHash (audit_row_of sha now2 e2) \<longleftrightarrow>
      json_same (wire (audit_payload e1)) (wire (audit_payload e2))"
proof -
  have "canonicalJSONStringify (audit_payload e1) = canonicalJSONStringify (audit_payload e2) \<longleftrightarrow>
      json_same (wire (audit_payload e1)) (wire (audit_payload e2))"
    using canonical_text_iff [of "wire (audit_payload e1)" "wire (audit_payload e2)"]
      audit_payload_shape wire_shape plain_wire by (simp add: canonical_text_wire)
  then show ?thesis using assms by (auto simp: audit_row_of_def)
qed

text \<open>A marked handler is recorded: the interceptor returns or throws exactly what the
  handler did, and, when the columns can hold the entry, it appends one row after the
  handler's own writes, credited to the impersonating admin if there is one (never to
  the impersonated user) and flagged failed exactly when the handler threw.\<close>

theorem marked_calls_are_audited:
  assumes "handler s = (r, t)"
    and "length (mt_action mt) \<le> 100" "length (mt_resource mt) \<le> 100"
    and "\<And>x. length (sha x) \<le> 64" "fits 45 (rq_ip req)"
    and "fits 512 (map_of (rq_headers req) ''user-agent'')"
    and "\<And>resp. fits 64 (audit_resourceId (extractResourceId mt req resp))"
    and "\<And>u. audit_actor_id req = Some u \<Longrightarrow> find_user u t \<noteq> None"
  shows "\<exists>row. audit_intercept sha now (Some mt) req handler s =
           (r, audit_logs_update (t_insert (\<lambda>i. row\<lparr>a_id := i\<rparr>)) t) \<and>
         a_actorUserId row = audit_actor_id req \<and> a_action row = mt_action mt \<and>
         a_failed row = (case r of Inl _ \<Rightarrow> True | Inr _ \<Rightarrow> False)"
proof -
  have w: "audit_writable (audit_row_of sha now (interceptor_entry mt req resp pl fl)) t" for resp pl fl
    using assms(2-8)
    by (simp add: audit_writable_def audit_row_of_def interceptor_entry_def split: option.splits)
  show ?thesis
  proof (cases r)
    case (Inl err)
    then show ?thesis using assms(1) w
      by (intro exI [of _ "audit_row_of sha now (interceptor_entry mt req JUndefined
                     [(''failed'', JBool True), (''statusCode'', JNum (int (fst (classifyError err)))),
                      (''errorCode'', JStr (snd (classifyError err))),
                      (''request'', request_snapshot req)] True)"])
         (simp add: audit_intercept_def run_simps audit_log_run, simp add: audit_row_of_def interceptor_entry_def)
  next
    case (Inr resp)
    then show ?thesis using assms(1) w
      by (intro exI [of _ "audit_row_of sha now (interceptor_entry mt req resp
                     [(''request'', request_snapshot req), (''response'', resp)] False)"])
         (simp add: audit_intercept_def run_simps audit_log_run, simp add: audit_row_of_def interceptor_entry_def)
  qed
qed

text \<open>The column limit is a way around the trail: when the User-Agent header is longer
  than the 512 characters of its column, the audit write fails and is swallowed, so the
  handler runs with its full effect and no audit row is written.\<close>

theorem long_user_agent_leaves_no_trace:
  assumes "map_of (rq_headers req) ''user-agent'' = Some ua" and "512 < length ua"
  shows "audit_intercept sha now (Some mt) req handler s = handler s"
proof -
  have w: "\<not> audit_writable (audit_row_of sha now (interceptor_entry mt req resp pl fl)) t" for resp pl fl t
    using assms by (simp add: audit_writable_def audit_row_of_def interceptor_entry_def fits_def)
  obtain r t where "handler s = (r, t)" by (cases "handler s")
  then show ?thesis
    by (cases r) (simp_all add: audit_intercept_def run_simps audit_log_run w)
qed

section \<open>Witnesses\<close>

definition sample_entry_audit :: "(string \<times> json) list \<Rightarrow> audit_entry" where
  "sample_entry_audit payload = \<lparr>ae_actorUserId = Some 1, ae_action = ''LOGIN_SUCCESS'',
     ae_resource = ''user'', ae_resourceId = JBig 1, ae_payload = payload, ae_ipAddress = None,
     ae_userAgent = None, ae_impersonationSessionId = None, ae_failed = False\<rparr>"

definition sample_request :: "string \<Rightarrow> http_request" where
  "sample_request ua = \<lparr>rq_method = ''POST'', rq_path = ''/admin/users'', rq_params = [],
     rq_body = JNull, rq_headers = [(''user-agent'', ua)], rq_ip = None, rq_user = Some 2,
     rq_impersonation = Some \<lparr>ic_actorUserId = 1, ic_impSessionId = 7\<rparr>\<rparr>"

definition sample_meta :: audit_meta where
  "sample_meta = \<lparr>mt_action = ''ADMIN_USER_UPDATE'', mt_resource = ''user'',
     mt_resourceIdParam = None, mt_resourceIdSource = None\<rparr>"

lemma audit_ignores_secrets_witness:
  "audit_log id 5 (sample_entry_audit [(''password'', JNull), (''phone'', JStr ''+98 000 4567'')]) sample_sys =
   audit_log id 5 (sample_entry_audit [(''password'', JStr ''hunter2''), (''phone'', JStr ''+989121234567'')]) sample_sys"
proof -
  let ?h = "\<lambda>s. if length s < 4 then s else (if take 3 s = ''+98'' then ''+98'' else ''xxx'') @ '' 000 '' @ last4 s"
  have "keeps_tail ?h" by (auto simp: keeps_tail_def last4_def)
  moreover have "scramble (\<lambda>_. JNull) ?h (JObj (ae_payload (sample_entry_audit
      [(''password'', JStr ''hunter2''), (''phone'', JStr ''+989121234567'')]))) =
      JObj [(''password'', JNull), (''phone'', JStr ''+98 000 4567'')]"
    by (simp add: sample_entry_audit_def scramble_slot_def OMIT_KEYS_def PHONE_KEYS_def last4_def)
  ultimately show ?thesis
    using audit_ignores_secrets [where g = "\<lambda>_. JNull" and h = ?h and sha = id and now = 5 and s = sample_sys and
        en = "sample_entry_audit [(''password'', JStr ''hunter2''), (''phone'', JStr ''+989121234567'')]"]
    by (simp add: sample_entry_audit_def)
qed

lemma audit_hash_identifies_payload_witness:
  "a_payloadHash (audit_row_of id 1 (sample_entry_audit [(''b'', JNum 1), (''a'', JBig 2)])) =
   a_payloadHash (audit_row_of id 1 (sample_entry_audit [(''a'', JStr ''2''), (''b'', JNum 1)]))"
proof -
  have "json_same (wire (audit_payload (sample_entry_audit [(''b'', JNum 1), (''a'', JBig 2)])))
                  (wire (audit_payload (sample_entry_audit [(''a'', JStr ''2''), (''b'', JNum 1)])))"
    by (auto simp: audit_payload_def sample_entry_audit_def redactSensitivePayload_def assign_all_def
          js_put_def redact_slot_def OMIT_KEYS_def PHONE_KEYS_def NATIONAL_ID_KEYS_def key_before_def
          index_key_def is_digit_def json_same_simps)
  then show ?thesis
    using audit_hash_identifies_payload [where sha = id and ?now1.0 = 1 and ?now2.0 = 1 and
      ?e1.0 = "sample_entry_audit [(''b'', JNum 1), (''a'', JBig 2)]" and
      ?e2.0 = "sample_entry_audit [(''a'', JStr ''2''), (''b'', JNum 1)]"] by simp
qed

lemma marked_calls_are_audited_witness:
  "\<exists>row. audit_intercept (\<lambda>_. ''h'') 9 (Some sample_meta) (sample_request ''curl'')
       (throw (http_exn NOT_FOUND 404 ''x'')) sample_sys =
     (Inl (http_exn NOT_FOUND 404 ''x''), audit_logs_update (t_insert (\<lambda>i. row\<lparr>a_id := i\<rparr>)) sample_sys) \<and>
     a_actorUserId row = Some 1 \<and> a_failed row"
proof -
  have "\<exists>row. audit_intercept (\<lambda>_. ''h'') 9 (Some sample_meta) (sample_request ''curl'')
       (throw (http_exn NOT_FOUND 404 ''x'')) sample_sys =
     (Inl (http_exn NOT_FOUND 404 ''x''), audit_logs_update (t_insert (\<lambda>i. row\<lparr>a_id := i\<rparr>)) sample_sys) \<and>
     a_actorUserId row = audit_actor_id (sample_request ''curl'') \<and> a_action row = mt_action sample_meta \<and>
     a_failed row = (case Inl (http_exn NOT_FOUND 404 ''x'') :: exn + json of Inl _ \<Rightarrow> True | Inr _ \<Rightarrow> False)"
  proof (rule marked_calls_are_audited)
    fix u assume "audit_actor_id (sample_request ''curl'') = Some u"
    then show "find_user u sample_sys \<noteq> None"
      by (simp add: audit_actor_id_def sample_request_def find_user_def table_run sample_defs)
  qed (simp_all add: throw_def sample_meta_def sample_request_def fits_def audit_resourceId_def extractResourceId_def)
  moreover have "audit_actor_id (sample_request ''curl'') = Some 1"
    by (simp add: audit_actor_id_def sample_request_def)
  ultimately show ?thesis by fastforce
qed

lemma long_user_agent_leaves_no_trace_witness:
  "audit_intercept (\<lambda>_. ''h'') 9 (Some sample_meta) (sample_request (replicate 513 CHR ''x''))
     (seq (modify (users_update (\<lambda>_. empty_table))) (return JNull)) sample_sys =
   (Inr JNull, users_update (\<lambda>_. empty_table) sample_sys)"
  using long_user_agent_leaves_no_trace [where ua = "replicate 513 CHR ''x''" and sha = "\<lambda>_. ''h''" and
      now = 9 and mt = sample_meta and req = "sample_request (replicate 513 CHR ''x'')" and
      handler = "seq (modify (users_update (\<lambda>_. empty_table))) (return JNull)" and s = sample_sys]
  by (simp add: sample_request_def run_simps)

end
