(* ===== verification/Redis.thy ===== *)
theory Redis
  imports Schema
begin

text \<open>
  The Redis commands the code sends, on the field redis_store: strings with an expiry
  (GET, SET EX, SET EX NX, DEL, TTL) and sorted sets (ZREMRANGEBYSCORE, ZCARD, ZADD,
  PEXPIRE).  Expiry times are absolute milliseconds; a key is alive up to and including
  its expiry time.  Redis and the API server read the same clock here.
\<close>

definition r_alive :: "int \<Rightarrow> int option \<Rightarrow> bool" where
  "r_alive now e = (case e of None \<Rightarrow> True | Some t \<Rightarrow> now \<le> t)"

fun r_lookup :: "int \<Rightarrow> string \<Rightarrow> redis \<Rightarrow> (redis_value \<times> int option) option" where
  "r_lookup now k [] = None"
| "r_lookup now k ((k', v, e) # r) =
     (if k = k' then (if r_alive now e then Some (v, e) else None) else r_lookup now k r)"

definition r_del :: "string \<Rightarrow> redis \<Rightarrow> redis" where
  "r_del k r = filter (\<lambda>p. fst p \<noteq> k) r"

definition r_put :: "string \<Rightarrow> redis_value \<Rightarrow> int option \<Rightarrow> redis \<Rightarrow> redis" where
  "r_put k v e r = (k, v, e) # r_del k r"

definition wrong_type :: exn where
  "wrong_type = JsError ''WRONGTYPE Operation against a key holding the wrong kind of value''"

definition redis_get :: "int \<Rightarrow> string \<Rightarrow> ('x sys_scheme, string option) M" where
  "redis_get now k = bind (gets (\<lambda>s. r_lookup now k (redis_store s))) (\<lambda>v. case v of
       None \<Rightarrow> return None
     | Some (x, _) \<Rightarrow> (case x of
           RStr t \<Rightarrow> return (Some t)
         | RInt i \<Rightarrow> return (Some (int_to_string i))
         | RZSet _ \<Rightarrow> throw wrong_type))"

definition redis_set_ex :: "int \<Rightarrow> string \<Rightarrow> string \<Rightarrow> int \<Rightarrow> ('x sys_scheme, unit) M" where
  "redis_set_ex now k v seconds =
     modify (redis_store_update (r_put k (RStr v) (Some (now + seconds * 1000))))"

text \<open>SET key value EX seconds NX: whether it was set.\<close>

definition redis_set_nx :: "int \<Rightarrow> string \<Rightarrow> string \<Rightarrow> int \<Rightarrow> ('x sys_scheme, bool) M" where
  "redis_set_nx now k v seconds =
     bind (gets (\<lambda>s. r_lookup now k (redis_store s))) (\<lambda>old. case old of
       None \<Rightarrow> seq (redis_set_ex now k v seconds) (return True)
     | Some _ \<Rightarrow> return False)"

definition redis_del :: "string \<Rightarrow> ('x sys_scheme, unit) M" where
  "redis_del k = modify (redis_store_update (r_del k))"

text \<open>TTL in seconds, rounded as the server rounds; -2 without the key, -1 without expiry.\<close>

definition redis_ttl :: "int \<Rightarrow> string \<Rightarrow> ('x sys_scheme, int) M" where
  "redis_ttl now k = gets (\<lambda>s. case r_lookup now k (redis_store s) of
       None \<Rightarrow> - 2
     | Some (_, None) \<Rightarrow> - 1
     | Some (_, Some e) \<Rightarrow> (e - now + 500) div 1000)"

lemma r_lookup_del [simp]: "r_lookup now k (r_del k' r) = (if k = k' then None else r_lookup now k r)"
  by (induction r) (auto simp: r_del_def)

lemma r_lookup_put [simp]: "r_lookup now k (r_put k' v e r) =
    (if k = k' then (if r_alive now e then Some (v, e) else None) else r_lookup now k r)"
  by (simp add: r_put_def)

lemma r_lookup_map_of: "r_lookup now k r = (case map_of r k of
    None \<Rightarrow> None | Some (v, e) \<Rightarrow> if r_alive now e then Some (v, e) else None)"
  by (induction now k r rule: r_lookup.induct) auto

lemma map_of_r_del [simp]: "map_of (r_del k r) = (map_of r)(k := None)"
  by (induction r) (auto simp: r_del_def fun_eq_iff)

lemma map_of_r_put [simp]: "map_of (r_put k v e r) = (map_of r)(k \<mapsto> (v, e))"
  by (simp add: r_put_def fun_eq_iff)

lemma redis_runs:
  "redis_get now k s = (case r_lookup now k (redis_store s) of
       None \<Rightarrow> (Inr None, s)
     | Some (RStr t, _) \<Rightarrow> (Inr (Some t), s)
     | Some (RInt i, _) \<Rightarrow> (Inr (Some (int_to_string i)), s)
     | Some (RZSet _, _) \<Rightarrow> (Inl wrong_type, s))"
  "redis_set_ex now k v sec s = (Inr (), redis_store_update (r_put k (RStr v) (Some (now + sec * 1000))) s)"
  "redis_set_nx now k v sec s = (case r_lookup now k (redis_store s) of
       None \<Rightarrow> (Inr True, redis_store_update (r_put k (RStr v) (Some (now + sec * 1000))) s)
     | Some _ \<Rightarrow> (Inr False, s))"
  "redis_del k s = (Inr (), redis_store_update (r_del k) s)"
  by (auto simp: redis_get_def redis_set_ex_def redis_set_nx_def redis_del_def run_simps
        split: option.splits redis_value.splits)

end
