(* ===== verification/Rbac.thy ===== *)
theory Rbac
  imports Notifications
begin

text \<open>
  core/rbac: the permission catalog (permissions.catalog.ts), the permission queries and
  role assignment (permissions.service.ts) and the boot-time seeding (bootstrap.service.ts).
  The lemmas show that the guard's count query and the list of permissions agree, that
  super:everything grants every check and nothing else does, what assigning and removing
  a role changes, and that after the boot sequence the configured administrator passes
  every check.
\<close>

section \<open>permissions.catalog.ts\<close>

definition CORE_PERMISSIONS :: "(string \<times> string) list" where
  "CORE_PERMISSIONS =
    [(''users:read:profile_self'', ''Read your own profile''),
     (''users:update:profile_self'', ''Update your own profile''),
     (''admin:read:users'', ''List and read user records''),
     (''admin:update:user'', ''Update user profile or status''),
     (''admin:moderate:user'', ''Assign or revoke roles on a user''),
     (''admin:read:audit_log'', ''Read the platform audit log''),
     (''admin:impersonate:user'', ''Start an impersonation session against a user''),
     (''admin:read:any_file'', ''Read any file regardless of ownership''),
     (''admin:read:payouts'', ''Read payout records''),
     (''admin:approve:payout'', ''Approve a pending payout''),
     (''admin:manage:settings'', ''Change platform-level settings''),
     (''admin:manage:modules'', ''Enable or disable business modules''),
     (''admin:trigger:kill_switch'', ''Trigger the platform kill switch''),
     (''super:everything'', utf8 [115, 117, 112, 101, 114, 95, 97, 100, 109, 105, 110, 32, 111, 110, 108,
        121, 32, 226, 128, 148, 32] @ ''implicitly grants every check'')]"

section \<open>permissions.service.ts\<close>

definition role_grants :: "'x sys_scheme \<Rightarrow> int \<Rightarrow> string list \<Rightarrow> bool" where
  "role_grants s roleId codes =
     list_ex (\<lambda>(r, p). r = roleId \<and> t_exists (\<lambda>pm. p_id pm = p \<and> p_code pm \<in> set codes) (permissions s))
       (role_permissions s)"

definition userHasPermission :: "int \<Rightarrow> string \<Rightarrow> ('x sys_scheme, bool) M" where
  "userHasPermission userId perm =
     gets (\<lambda>s. 0 < length (filter (\<lambda>ur. ur_userId ur = userId \<and>
                        role_grants s (ur_roleId ur) [perm, ''super:everything'']) (user_roles s)))"

definition getUserPermissions :: "int \<Rightarrow> ('x sys_scheme, string list) M" where
  "getUserPermissions userId =
     gets (\<lambda>s. rev (remdups (rev (concat (map (\<lambda>(r, p).
        if list_ex (\<lambda>ur. ur_userId ur = userId \<and> ur_roleId ur = r) (user_roles s)
        then map p_code (t_filter (\<lambda>pm. p_id pm = p) (permissions s)) else [])
        (role_permissions s))))))"

text \<open>upsert on the pair of keys; an undefined scope leaves an existing one as it is.\<close>

definition assignRoleToUser :: "int \<Rightarrow> int \<Rightarrow> json \<Rightarrow> ('x sys_scheme, unit) M" where
  "assignRoleToUser userId roleId scope =
     bind (gets (\<lambda>s. list_ex (\<lambda>ur. ur_userId ur = userId \<and> ur_roleId ur = roleId) (user_roles s))) (\<lambda>old.
       if old then
         modify (user_roles_update (map (\<lambda>ur.
           if ur_userId ur = userId \<and> ur_roleId ur = roleId \<and> scope \<noteq> JUndefined
           then ur\<lparr>ur_scope := scope\<rparr> else ur)))
       else bind (gets (\<lambda>s. find_user userId s \<noteq> None \<and> t_get r_id roleId (roles s) \<noteq> None)) (\<lambda>known.
         if \<not> known then throw (PrismaKnown ''P2003'' JUndefined)
         else modify (user_roles_update (\<lambda>l. l @
           [\<lparr>ur_userId = userId, ur_roleId = roleId,
             ur_scope = (if scope = JUndefined then JNull else scope)\<rparr>]))))"

definition removeRoleFromUser :: "int \<Rightarrow> int \<Rightarrow> ('x sys_scheme, unit) M" where
  "removeRoleFromUser userId roleId =
     modify (user_roles_update (filter (\<lambda>ur. \<not> (ur_userId ur = userId \<and> ur_roleId ur = roleId))))"

section \<open>bootstrap.service.ts\<close>

definition find_permission :: "string \<Rightarrow> 'x sys_scheme \<Rightarrow> permission option" where
  "find_permission code s = t_find (\<lambda>p. p_code p = code) (permissions s)"

definition find_role :: "string \<Rightarrow> 'x sys_scheme \<Rightarrow> role option" where
  "find_role nm s = t_find (\<lambda>r. r_name r = nm) (roles s)"

definition find_user_by_phone :: "string \<Rightarrow> 'x sys_scheme \<Rightarrow> user option" where
  "find_user_by_phone phone s = t_find (\<lambda>u. u_phone u = phone) (users s)"

definition upsert_permission :: "string \<times> string \<Rightarrow> ('x sys_scheme, unit) M" where
  "upsert_permission cd = (case cd of (code, description) \<Rightarrow>
     bind (gets (find_permission code)) (\<lambda>old. case old of
       Some p \<Rightarrow> modify (permissions_update (t_change p_id (p_id p) (\<lambda>r. r\<lparr>p_description := Some description\<rparr>)))
     | None \<Rightarrow> modify (permissions_update (t_insert (\<lambda>i.
         \<lparr>p_id = i, p_code = code, p_description = Some description\<rparr>)))))"

definition seedPermissions :: "('x sys_scheme, unit) M" where
  "seedPermissions = forEach CORE_PERMISSIONS upsert_permission"

definition upsert_role :: "string \<Rightarrow> string \<Rightarrow> ('x sys_scheme, role) M" where
  "upsert_role nm persianName =
     bind (gets (find_role nm)) (\<lambda>old. case old of
       Some r \<Rightarrow> return r
     | None \<Rightarrow> create_in roles roles_update (\<lambda>i.
         \<lparr>r_id = i, r_name = nm, r_persianName = persianName, r_isSystem = False\<rparr>))"

definition upsert_role_permission :: "int \<Rightarrow> int \<Rightarrow> ('x sys_scheme, unit) M" where
  "upsert_role_permission roleId permissionId =
     modify (role_permissions_update (\<lambda>l.
       if (roleId, permissionId) \<in> set l then l else l @ [(roleId, permissionId)]))"

definition seedSuperAdminRole :: "('x sys_scheme, unit) M" where
  "seedSuperAdminRole =
     bind (upsert_role ''super_admin'' (utf8 [217, 133, 216, 175, 219, 140, 216, 177, 32, 216, 167, 216, 177, 216, 180, 216, 175]))
       (\<lambda>role. bind (gets (find_permission ''super:everything'')) (\<lambda>superPerm. case superPerm of
          None \<Rightarrow> return ()
        | Some p \<Rightarrow> upsert_role_permission (r_id role) (p_id p)))"

definition new_user :: "int \<Rightarrow> string \<Rightarrow> user_status \<Rightarrow> int \<Rightarrow> user" where
  "new_user now phone st i = \<lparr>u_id = i, u_phone = phone, u_firstName = None, u_lastName = None,
     u_nationalId = None, u_email = None, u_status = st, u_profileCompletedAt = None,
     u_phoneVerifiedAt = None, u_totpSecret = None, u_createdAt = now, u_updatedAt = now,
     u_deletedAt = None\<rparr>"

definition ensureSuperAdminUser :: "int \<Rightarrow> string option \<Rightarrow> ('x sys_scheme, unit) M" where
  "ensureSuperAdminUser now phoneOpt = (case phoneOpt of
       None \<Rightarrow> return ()
     | Some phone \<Rightarrow>
         if phone = [] then return ()
         else bind (gets (find_user_by_phone phone)) (\<lambda>found.
           bind (case found of
                   Some u \<Rightarrow> return u
                 | None \<Rightarrow> create_in users users_update (new_user now phone ACTIVE)) (\<lambda>user.
             bind (gets (find_role ''super_admin'')) (\<lambda>role. case role of
               None \<Rightarrow> return ()
             | Some r \<Rightarrow>
                 seq (assignRoleToUser (u_id user) (r_id r) JUndefined)
                     (if u_status user \<noteq> ACTIVE
                      then bind (update_in users users_update u_id (u_id user) (\<lambda>u. u\<lparr>u_status := ACTIVE, u_updatedAt := now\<rparr>)) (\<lambda>_. return ())
                      else return ())))))"

definition seedMemberRole :: "('x sys_scheme, unit) M" where
  "seedMemberRole =
     bind (upsert_role ''member'' (utf8 [216, 185, 216, 182, 217, 136])) (\<lambda>role.
       forEach [''users:read:profile_self'', ''users:update:profile_self''] (\<lambda>code.
         bind (gets (find_permission code)) (\<lambda>perm. case perm of
           None \<Rightarrow> return ()
         | Some p \<Rightarrow> upsert_role_permission (r_id role) (p_id p))))"

definition onApplicationBootstrap :: "int \<Rightarrow> string option \<Rightarrow> ('x sys_scheme, unit) M" where
  "onApplicationBootstrap now superAdminPhone =
     seq seedPermissions (seq seedSuperAdminRole (seq (ensureSuperAdminUser now superAdminPhone) seedMemberRole))"

section \<open>Who may do what\<close>

definition has_role :: "'x sys_scheme \<Rightarrow> int \<Rightarrow> int \<Rightarrow> bool" where
  "has_role s u r \<longleftrightarrow> (u, r) \<in> set (map (\<lambda>ur. (ur_userId ur, ur_roleId ur)) (user_roles s))"

lemma has_role_iff: "has_role s u r \<longleftrightarrow> (\<exists>ur \<in> set (user_roles s). ur_userId ur = u \<and> ur_roleId ur = r)"
  by (auto simp: has_role_def)

lemma pairs_rescope: "map (\<lambda>ur. (ur_userId ur, ur_roleId ur)) (map (\<lambda>ur. if P ur then ur\<lparr>ur_scope := x\<rparr> else ur) l) =
    map (\<lambda>ur. (ur_userId ur, ur_roleId ur)) l"
  by (induction l) auto

definition holds :: "'x sys_scheme \<Rightarrow> int \<Rightarrow> string \<Rightarrow> bool" where
  "holds s u code \<longleftrightarrow> (\<exists>r. has_role s u r \<and> role_grants s r [code])"

lemma has_role_rescope: "has_role (user_roles_update (map (\<lambda>ur. if P ur then ur\<lparr>ur_scope := x\<rparr> else ur)) s) = has_role s"
  by (simp add: has_role_def fun_eq_iff pairs_rescope del: map_map set_map)

lemma role_grants_iff: "role_grants s r codes \<longleftrightarrow>
    (\<exists>pm \<in> set (rows (permissions s)). (r, p_id pm) \<in> set (role_permissions s) \<and> p_code pm \<in> set codes)"
  by (auto simp: role_grants_def list_ex_iff t_exists_def)

lemma role_grants_two: "role_grants s r [p, q] \<longleftrightarrow> role_grants s r [p] \<or> role_grants s r [q]"
  by (auto simp: role_grants_iff)

lemma userHasPermission_run: "userHasPermission u p s = (Inr (holds s u p \<or> holds s u ''super:everything''), s)"
proof -
  have "0 < length (filter (\<lambda>ur. ur_userId ur = u \<and> role_grants s (ur_roleId ur) [p, ''super:everything'']) (user_roles s))
      \<longleftrightarrow> (\<exists>ur \<in> set (user_roles s). ur_userId ur = u \<and> role_grants s (ur_roleId ur) [p, ''super:everything''])"
    by (simp add: filter_empty_conv)
  then show ?thesis
    by (auto simp: userHasPermission_def run_simps holds_def has_role_iff role_grants_two)
qed

lemma getUserPermissions_run: "\<exists>l. getUserPermissions u s = (Inr l, s) \<and> distinct l \<and> set l = {c. holds s u c}"
  by (auto simp: getUserPermissions_def run_simps holds_def has_role_iff role_grants_iff list_ex_iff
        t_filter_def split: if_splits)

lemma role_grants_fields:
  "permissions t = permissions s \<Longrightarrow> role_permissions t = role_permissions s \<Longrightarrow> role_grants t = role_grants s"
  by (simp add: role_grants_def fun_eq_iff)

lemma assignRoleToUser_run:
  assumes "assignRoleToUser u r scope s = (x, t)"
  shows "role_grants t = role_grants s"
    and "has_role t v q \<longleftrightarrow> has_role s v q \<or> (x = Inr () \<and> v = u \<and> q = r)"
proof -
  show "role_grants t = role_grants s"
    using assms by (intro role_grants_fields) (auto simp: assignRoleToUser_def run_simps split: if_splits)
  show "has_role t v q \<longleftrightarrow> has_role s v q \<or> (x = Inr () \<and> v = u \<and> q = r)"
  proof (cases "has_role s u r")
    case True
    then have "list_ex (\<lambda>ur. ur_userId ur = u \<and> ur_roleId ur = r) (user_roles s)"
      by (simp add: has_role_iff list_ex_iff)
    then have "x = Inr () \<and> has_role t v q = has_role s v q"
      using assms by (auto simp: assignRoleToUser_def run_simps has_role_rescope)
    then show ?thesis using True by auto
  next
    case False
    then have "\<not> list_ex (\<lambda>ur. ur_userId ur = u \<and> ur_roleId ur = r) (user_roles s)"
      by (simp add: has_role_iff list_ex_iff)
    then show ?thesis using assms
      by (auto simp: assignRoleToUser_def run_simps has_role_iff split: if_splits)
  qed
qed

lemma removeRoleFromUser_run:
  assumes "removeRoleFromUser u r s = (x, t)"
  shows "x = Inr ()" and "role_grants t = role_grants s"
    and "has_role t v q \<longleftrightarrow> has_role s v q \<and> \<not> (v = u \<and> q = r)"
  using assms by (auto simp: removeRoleFromUser_def run_simps has_role_iff intro!: role_grants_fields)

section \<open>After the boot sequence\<close>

definition rbac_ok :: "'x sys_scheme \<Rightarrow> bool" where
  "rbac_ok s \<longleftrightarrow> wf_table p_id (permissions s) \<and> wf_table r_id (roles s) \<and> wf_table u_id (users s)"

text \<open>What one step of the sequence leaves in place.\<close>

definition grows :: "'x sys_scheme \<Rightarrow> 'x sys_scheme \<Rightarrow> bool" where
  "grows s t \<longleftrightarrow> rbac_ok t \<and>
     (\<lambda>p. (p_id p, p_code p)) ` set (rows (permissions s)) \<subseteq> (\<lambda>p. (p_id p, p_code p)) ` set (rows (permissions t)) \<and>
     set (rows (roles s)) \<subseteq> set (rows (roles t)) \<and>
     set (role_permissions s) \<subseteq> set (role_permissions t) \<and>
     (\<forall>u r. has_role s u r \<longrightarrow> has_role t u r)"

lemma grows_refl: "rbac_ok s \<Longrightarrow> grows s s"
  by (simp add: grows_def)

lemma grows_trans: "grows s t \<Longrightarrow> grows t u \<Longrightarrow> grows s u"
  by (simp add: grows_def) (meson subset_trans)

lemma upsert_permission_run:
  assumes "rbac_ok s"
  shows "\<exists>t. upsert_permission (c, d) s = (Inr (), t) \<and> grows s t \<and> c \<in> p_code ` set (rows (permissions t)) \<and>
     users t = users s"
proof (cases "find_permission c s")
  case None
  then show ?thesis using assms
    by (auto simp: upsert_permission_def run_simps grows_def rbac_ok_def has_role_def table_simps)
next
  case (Some p)
  then have p: "p \<in> set (rows (permissions s))" "p_code p = c"
    by (auto simp: find_permission_def dest: t_find_Some)
  let ?T = "permissions s" and ?g = "\<lambda>r. r\<lparr>p_description := Some d\<rparr>"
  have l: "map (\<lambda>q. (p_id q, p_code q)) (map (\<lambda>r. if P r then ?g r else r) l) =
      map (\<lambda>q. (p_id q, p_code q)) l" for P l by (induction l) auto
  have img: "(\<lambda>q. (p_id q, p_code q)) ` set (rows (t_change p_id (p_id p) ?g ?T)) =
      (\<lambda>q. (p_id q, p_code q)) ` set (rows ?T)"
    by (simp only: t_change_def rows_t_update set_map [symmetric] l)
  have "snd ` (\<lambda>q. (p_id q, p_code q)) ` set (rows (t_change p_id (p_id p) ?g ?T)) = p_code ` set (rows ?T)"
    unfolding img by (simp add: image_image)
  then have code: "p_code ` set (rows (t_change p_id (p_id p) ?g ?T)) = p_code ` set (rows ?T)"
    by (simp add: image_image)
  have "upsert_permission (c, d) s = (Inr (), permissions_update (t_change p_id (p_id p) ?g) s)"
    using Some by (simp add: upsert_permission_def run_simps)
  moreover have "grows s (permissions_update (t_change p_id (p_id p) ?g) s)"
    using assms by (simp add: grows_def rbac_ok_def has_role_def img)
  moreover have "c \<in> p_code ` set (rows (t_change p_id (p_id p) ?g ?T))"
    unfolding code using p by blast
  ultimately show ?thesis by simp
qed

lemma forEach_seed:
  assumes "\<And>x s. rbac_ok s \<Longrightarrow> \<exists>t. f x s = (Inr (), t) \<and> grows s t \<and> P x t \<and> users t = users s"
    and "\<And>x s t. P x s \<Longrightarrow> grows s t \<Longrightarrow> P x t"
  shows "rbac_ok s \<Longrightarrow> \<exists>t. forEach xs f s = (Inr (), t) \<and> grows s t \<and> (\<forall>x \<in> set xs. P x t) \<and> users t = users s"
proof (induction xs arbitrary: s)
  case Nil
  then show ?case by (simp add: return_def grows_refl)
next
  case (Cons x xs)
  obtain t where t: "f x s = (Inr (), t)" "grows s t" "P x t" "users t = users s" using assms(1) [OF Cons.prems] by blast
  then have "rbac_ok t" by (simp add: grows_def)
  from Cons.IH [OF this] obtain u where u: "forEach xs f t = (Inr (), u)" "grows t u" "\<forall>x \<in> set xs. P x u" "users u = users t"
    by blast
  then show ?case using t assms(2) [OF t(3) u(2)] grows_trans [OF t(2) u(2)]
    by (auto simp: seq_def bind_def)
qed

lemma seedPermissions_run:
  assumes "rbac_ok s"
  shows "\<exists>t. seedPermissions s = (Inr (), t) \<and> grows s t \<and>
    (\<forall>cd \<in> set CORE_PERMISSIONS. fst cd \<in> p_code ` set (rows (permissions t))) \<and> users t = users s"
  unfolding seedPermissions_def
  by (rule forEach_seed [OF _ _ assms, of upsert_permission "\<lambda>cd t. fst cd \<in> p_code ` set (rows (permissions t))"])
     (use upsert_permission_run in \<open>fastforce\<close>, force simp: grows_def)

lemma upsert_role_run:
  assumes "rbac_ok s"
  shows "\<exists>r t. upsert_role nm pn s = (Inr r, t) \<and> grows s t \<and> find_role nm t = Some r \<and> users t = users s"
proof (cases "find_role nm s")
  case None
  then show ?thesis using assms
    by (auto simp: upsert_role_def run_simps grows_def rbac_ok_def has_role_def create_in_def t_new_def table_simps
         find_role_def t_find_def find_append)
next
  case (Some r)
  then show ?thesis using assms by (simp add: upsert_role_def run_simps grows_refl)
qed

lemma upsert_role_permission_run:
  assumes "rbac_ok s"
  shows "\<exists>t. upsert_role_permission r p s = (Inr (), t) \<and> grows s t \<and> (r, p) \<in> set (role_permissions t) \<and>
     users t = users s"
  using assms by (auto simp: upsert_role_permission_def run_simps grows_def rbac_ok_def has_role_def)

lemma grows_code:
  assumes "grows s t" "c \<in> p_code ` set (rows (permissions s))"
  shows "c \<in> p_code ` set (rows (permissions t))"
proof -
  obtain p where p: "p \<in> set (rows (permissions s))" "c = p_code p" using assms(2) by blast
  have sub: "(\<lambda>p. (p_id p, p_code p)) ` set (rows (permissions s)) \<subseteq> (\<lambda>p. (p_id p, p_code p)) ` set (rows (permissions t))"
    using assms(1) by (simp add: grows_def)
  have "(p_id p, c) \<in> (\<lambda>p. (p_id p, p_code p)) ` set (rows (permissions t))"
    by (rule subsetD [OF sub]) (simp add: p)
  then show ?thesis by auto
qed

lemma holds_grows: "holds s u c \<Longrightarrow> grows s t \<Longrightarrow> holds t u c"
  unfolding holds_def role_grants_iff grows_def by fastforce

lemma seedSuperAdminRole_run:
  assumes "rbac_ok s" "''super:everything'' \<in> p_code ` set (rows (permissions s))"
  shows "\<exists>r t. seedSuperAdminRole s = (Inr (), t) \<and> grows s t \<and> find_role ''super_admin'' t = Some r \<and>
     role_grants t (r_id r) [''super:everything''] \<and> users t = users s"
proof -
  let ?pn = "utf8 [217, 133, 216, 175, 219, 140, 216, 177, 32, 216, 167, 216, 177, 216, 180, 216, 175]"
  obtain r t where t: "upsert_role ''super_admin'' ?pn s = (Inr r, t)" "grows s t" "find_role ''super_admin'' t = Some r"
    "users t = users s" using upsert_role_run [OF assms(1)] by blast
  have "''super:everything'' \<in> p_code ` set (rows (permissions t))"
    by (rule grows_code [OF t(2) assms(2)])
  then obtain p where p: "find_permission ''super:everything'' t = Some p"
    by (cases "find_permission ''super:everything'' t") (auto simp: find_permission_def t_find_None)
  then have pin: "p \<in> set (rows (permissions t))" "p_code p = ''super:everything''"
    by (auto simp: find_permission_def dest: t_find_Some)
  have "rbac_ok t" using t(2) by (simp add: grows_def)
  obtain u where u: "upsert_role_permission (r_id r) (p_id p) t = (Inr (), u)" "grows t u"
    "(r_id r, p_id p) \<in> set (role_permissions u)" "users u = users t"
    using upsert_role_permission_run [OF \<open>rbac_ok t\<close>] by blast
  have "roles u = roles t" "permissions u = permissions t"
    using u(1) by (auto simp: upsert_role_permission_def run_simps)
  then have "find_role ''super_admin'' u = Some r" "role_grants u (r_id r) [''super:everything'']"
    using t(3) u(3) pin by (auto simp: find_role_def role_grants_iff)
  moreover have "seedSuperAdminRole s = (Inr (), u)"
    using t(1) p u(1) by (simp add: seedSuperAdminRole_def bind_def gets_def)
  ultimately show ?thesis using t u grows_trans [OF t(2) u(2)] by auto
qed

lemma ensureSuperAdminUser_run:
  assumes "rbac_ok s" "find_role ''super_admin'' s = Some r" "phone \<noteq> []"
  shows "\<exists>t u. ensureSuperAdminUser now (Some phone) s = (Inr (), t) \<and> grows s t \<and> has_role t (u_id u) (r_id r) \<and>
     u \<in> set (rows (users t)) \<and> u_phone u = phone \<and> u_status u = ACTIVE"
proof -
  obtain u s1 where u: "(case find_user_by_phone phone s of Some u \<Rightarrow> return u
       | None \<Rightarrow> create_in users users_update (new_user now phone ACTIVE)) s = (Inr u, s1)"
    "u \<in> set (rows (users s1))" "u_phone u = phone" "wf_table u_id (users s1)"
    "s1 = s\<lparr>users := users s1\<rparr>"
    using assms(1)
    by (cases "find_user_by_phone phone s")
       (auto simp: run_simps create_in_def t_new_def table_simps new_user_def rbac_ok_def find_user_by_phone_def
         dest: t_find_Some)
  have ok1: "rbac_ok s1" "grows s s1" using assms(1) u(4,5)
    by (cases s; cases s1; auto simp: rbac_ok_def grows_def has_role_def)+
  have r1: "find_role ''super_admin'' s1 = Some r" using u(5) assms(2)
    by (cases s; cases s1) (simp add: find_role_def)
  then have "t_get r_id (r_id r) (roles s1) = Some r"
    using ok1(1) by (auto simp: rbac_ok_def find_role_def dest!: t_find_Some intro: t_get_self)
  moreover have gu: "find_user (u_id u) s1 = Some u"
    using u(2,4) by (simp add: find_user_def t_get_self)
  ultimately have "fst (assignRoleToUser (u_id u) (r_id r) JUndefined s1) = Inr ()"
    by (simp add: assignRoleToUser_def run_simps)
  then obtain s2 where s2: "assignRoleToUser (u_id u) (r_id r) JUndefined s1 = (Inr (), s2)"
    by (metis prod.collapse)
  have same: "users s2 = users s1" "roles s2 = roles s1" "permissions s2 = permissions s1"
    "role_permissions s2 = role_permissions s1"
    using s2 by (auto simp: assignRoleToUser_def run_simps split: if_splits)
  then have g2: "grows s1 s2" "has_role s2 (u_id u) (r_id r)"
    using assignRoleToUser_run(2) [OF s2] ok1(1) by (auto simp: grows_def rbac_ok_def)
  show ?thesis
  proof (cases "u_status u = ACTIVE")
    case True
    then have "ensureSuperAdminUser now (Some phone) s = (Inr (), s2)"
      using assms(3) u(1) r1 s2 by (simp add: ensureSuperAdminUser_def bind_def gets_def seq_def return_def)
    then show ?thesis using g2 ok1(2) u(2,3) same True grows_trans by metis
  next
    case False
    let ?g = "\<lambda>u. u\<lparr>u_status := ACTIVE, u_updatedAt := now\<rparr>"
    let ?s3 = "users_update (t_change u_id (u_id u) ?g) s2"
    have get2: "t_get u_id (u_id u) (users s2) = Some u" using gu same by (simp add: find_user_def)
    then have "ensureSuperAdminUser now (Some phone) s = (Inr (), ?s3)"
      using assms(3) u(1) r1 s2 False
      by (simp add: ensureSuperAdminUser_def bind_def gets_def seq_def return_def update_in_def)
    moreover have "t_get u_id (u_id u) (users ?s3) = Some (?g u)"
      using get2 by (simp, subst t_get_change) simp_all
    then have "?g u \<in> set (rows (users ?s3))" by (rule t_get_in)
    moreover have "grows s2 ?s3" "has_role ?s3 (u_id (?g u)) (r_id r)"
      using g2 by (auto simp: grows_def rbac_ok_def has_role_def)
    ultimately show ?thesis using u(3) grows_trans [OF grows_trans [OF ok1(2) g2(1)]]
      by (intro exI [of _ ?s3] exI [of _ "?g u"]) simp
  qed
qed

lemma seedMemberRole_run:
  assumes "rbac_ok s"
  shows "\<exists>t. seedMemberRole s = (Inr (), t) \<and> grows s t \<and> users t = users s"
proof -
  let ?pn = "utf8 [216, 185, 216, 182, 217, 136]"
  obtain r t where t: "upsert_role ''member'' ?pn s = (Inr r, t)" "grows s t" "users t = users s"
    using upsert_role_run [OF assms] by blast
  then have "rbac_ok t" by (simp add: grows_def)
  let ?f = "\<lambda>code. bind (gets (find_permission code)) (\<lambda>perm. case perm of
           None \<Rightarrow> return ()
         | Some p \<Rightarrow> upsert_role_permission (r_id r) (p_id p))"
  have "\<exists>u. ?f x v = (Inr (), u) \<and> grows v u \<and> True \<and> users u = users v" if "rbac_ok v" for x and v :: "'a sys_scheme"
    using upsert_role_permission_run [OF that] that
    by (cases "find_permission x v") (auto simp: bind_def gets_def return_def grows_refl)
  from forEach_seed [where P = "\<lambda>_ _. True" and f = ?f, OF this _ \<open>rbac_ok t\<close>]
  obtain u where "forEach [''users:read:profile_self'', ''users:update:profile_self''] ?f t = (Inr (), u)"
    "grows t u" "users u = users t" by fastforce
  then show ?thesis using t grows_trans by (fastforce simp: seedMemberRole_def bind_def)
qed

section \<open>Properties\<close>

text \<open>The permission guard's count query and the list of permissions sent to the client
  agree: a user passes the check for a code exactly when the listed permissions contain
  the code or super:everything, and neither query writes.\<close>

theorem permission_checks_agree:
  "\<exists>perms ok. getUserPermissions u s = (Inr perms, s) \<and> userHasPermission u p s = (Inr ok, s) \<and>
     distinct perms \<and> (ok \<longleftrightarrow> p \<in> set perms \<or> ''super:everything'' \<in> set perms)"
proof -
  obtain l where "getUserPermissions u s = (Inr l, s)" "distinct l" "set l = {c. holds s u c}"
    using getUserPermissions_run by blast
  then show ?thesis by (simp add: userHasPermission_run)
qed

text \<open>Removing a role takes away exactly what that role alone granted: afterwards the user
  passes a check if and only if some other role of theirs grants the code or
  super:everything, and every other user's checks are as before.\<close>

theorem role_removal_revokes:
  "userHasPermission v p (snd (removeRoleFromUser u r s)) =
     (Inr (\<exists>q. has_role s v q \<and> \<not> (v = u \<and> q = r) \<and> role_grants s q [p, ''super:everything'']),
      snd (removeRoleFromUser u r s))"
proof -
  obtain x t where x: "removeRoleFromUser u r s = (x, t)" by (cases "removeRoleFromUser u r s")
  have "holds t v c \<longleftrightarrow> (\<exists>q. has_role s v q \<and> \<not> (v = u \<and> q = r) \<and> role_grants s q [c])" for c
    unfolding holds_def removeRoleFromUser_run(2,3) [OF x] by blast
  then show ?thesis by (auto simp: userHasPermission_run x role_grants_two)
qed

text \<open>After the boot sequence with a configured administrator phone, on any well-formed
  database, the boot has not thrown, that phone has an ACTIVE user, and the user passes
  every permission check.\<close>

theorem boot_grants_admin:
  assumes "rbac_ok s" "phone \<noteq> []"
  shows "\<exists>t u. onApplicationBootstrap now (Some phone) s = (Inr (), t) \<and> u \<in> set (rows (users t)) \<and>
     u_phone u = phone \<and> u_status u = ACTIVE \<and> (\<forall>p. userHasPermission (u_id u) p t = (Inr True, t)) \<and> rbac_ok t"
proof -
  obtain s1 where s1: "seedPermissions s = (Inr (), s1)" "grows s s1"
    "\<forall>cd \<in> set CORE_PERMISSIONS. fst cd \<in> p_code ` set (rows (permissions s1))"
    using seedPermissions_run [OF assms(1)] by blast
  have "''super:everything'' \<in> fst ` set CORE_PERMISSIONS" by (simp add: CORE_PERMISSIONS_def)
  then have "''super:everything'' \<in> p_code ` set (rows (permissions s1))" using s1(3) by auto
  moreover have "rbac_ok s1" using s1(2) by (simp add: grows_def)
  ultimately obtain r s2 where s2: "seedSuperAdminRole s1 = (Inr (), s2)" "grows s1 s2"
    "find_role ''super_admin'' s2 = Some r" "role_grants s2 (r_id r) [''super:everything'']"
    using seedSuperAdminRole_run by blast
  have "rbac_ok s2" using s2(2) by (simp add: grows_def)
  from ensureSuperAdminUser_run [OF this s2(3) assms(2)] obtain s3 u where
    s3: "ensureSuperAdminUser now (Some phone) s2 = (Inr (), s3)" "grows s2 s3" "has_role s3 (u_id u) (r_id r)"
      "u \<in> set (rows (users s3))" "u_phone u = phone" "u_status u = ACTIVE" by blast
  have "role_grants s3 (r_id r) [''super:everything'']"
    using s2(4) s3(2) by (fastforce simp: role_grants_iff grows_def)
  then have h: "holds s3 (u_id u) ''super:everything''" using s3(3) by (auto simp: holds_def)
  have "rbac_ok s3" using s3(2) by (simp add: grows_def)
  from seedMemberRole_run [OF this] obtain t where t: "seedMemberRole s3 = (Inr (), t)" "grows s3 t" "users t = users s3"
    by blast
  have "onApplicationBootstrap now (Some phone) s = (Inr (), t)"
    by (simp add: onApplicationBootstrap_def seq_def bind_def s1(1) s2(1) s3(1) t(1))
  then show ?thesis using s3(4-6) t(2,3) holds_grows [OF h t(2)] by (auto simp: userHasPermission_run grows_def)
qed

lemma boot_grants_admin_witness:
  "\<exists>t u. onApplicationBootstrap 0 (Some ''+989120000000'') empty_sys = (Inr (), t) \<and> u \<in> set (rows (users t)) \<and>
     (\<forall>p. userHasPermission (u_id u) p t = (Inr True, t))"
proof -
  have "rbac_ok empty_sys" "''+989120000000'' \<noteq> []" by (simp_all add: rbac_ok_def empty_sys_def)
  from boot_grants_admin [OF this, of 0] show ?thesis by blast
qed

end
