(* ===== verification/Sessions.thy ===== *)
theory Sessions
  imports AuditTrail Redis Rbac
begin

text \<open>
  core/sessions/sessions.service.ts: issuing access and refresh tokens, refresh token
  rotation with its four-way branch inside one transaction, revocation, and the list of
  active sessions.  Only the SHA-256 of a refresh token is stored.  Parameters: SHA-256,
  the ms package, jose's signing and verification, and the random token and identifier of
  each call.  The lemmas show that a refresh token is exchanged at most once, however
  calls are ordered, what revocation does, and that the revocations the replay and expiry
  branches make are rolled back with their transaction.
\<close>

text \<open>The configuration and the libraries the identity services use.\<close>

record jwt_claims =
  jc_sub :: string
  jc_imp :: "(string \<times> string) option"
  jc_jti :: string
  jc_iat :: int
  jc_expiresIn :: string

record platform =
  pf_env :: env
  pf_sha256 :: "string \<Rightarrow> string"
  pf_ms :: "string \<Rightarrow> int option"
  pf_sign :: "jwt_claims \<Rightarrow> string"
  pf_verify :: "int \<Rightarrow> string \<Rightarrow> (string \<times> json) list option"
  pf_jwt_expires_in :: string
  pf_jwt_refresh_expires_in :: string
  pf_node_env :: string
  pf_otp_salt :: string
  pf_super_admin_phone :: "string option"
  pf_is_email :: "string \<Rightarrow> bool"
  pf_zod_issues :: "json \<Rightarrow> zod_issue list"

definition pf_now :: "platform \<Rightarrow> int" where
  "pf_now pf = env_now (pf_env pf)"

definition pf_at :: "int \<Rightarrow> platform \<Rightarrow> platform" where
  "pf_at t pf = pf\<lparr>pf_env := (pf_env pf)\<lparr>env_now := t\<rparr>\<rparr>"

record refresh_cookie =
  rc_name :: string
  rc_value :: string
  rc_httpOnly :: bool
  rc_secure :: bool
  rc_sameSite :: string
  rc_path :: string
  rc_maxAge :: int

record issued_tokens =
  it_accessToken :: string
  it_refreshToken :: string
  it_refreshCookie :: refresh_cookie
  it_sessionId :: int

definition buildCookie :: "platform \<Rightarrow> string \<Rightarrow> int \<Rightarrow> refresh_cookie" where
  "buildCookie pf v maxAgeMs = \<lparr>rc_name = ''refresh_token'', rc_value = v, rc_httpOnly = True,
     rc_secure = (pf_node_env pf = ''production''), rc_sameSite = ''strict'',
     rc_path = ''/api/v1/auth/refresh'', rc_maxAge = maxAgeMs\<rparr>"

definition refreshTtlMs :: "platform \<Rightarrow> ('s, int) M" where
  "refreshTtlMs pf = (case pf_ms pf (pf_jwt_refresh_expires_in pf) of
       Some v \<Rightarrow> return v
     | None \<Rightarrow> throw (JsError (''Invalid JWT_REFRESH_EXPIRES_IN: '' @ pf_jwt_refresh_expires_in pf)))"

definition signAccessToken :: "platform \<Rightarrow> string \<Rightarrow> int \<Rightarrow> string" where
  "signAccessToken pf jti userId = pf_sign pf \<lparr>jc_sub = int_to_string userId, jc_imp = None,
     jc_jti = jti, jc_iat = pf_now pf, jc_expiresIn = pf_jwt_expires_in pf\<rparr>"

definition signImpersonationAccessToken :: "platform \<Rightarrow> string \<Rightarrow> int \<Rightarrow> int \<Rightarrow> int \<Rightarrow> string" where
  "signImpersonationAccessToken pf jti targetUserId actorUserId impSessionId =
     pf_sign pf \<lparr>jc_sub = int_to_string targetUserId,
       jc_imp = Some (int_to_string actorUserId, int_to_string impSessionId),
       jc_jti = jti, jc_iat = pf_now pf, jc_expiresIn = pf_jwt_expires_in pf\<rparr>"

text \<open>session.create against the table's columns, unique hash and foreign key.\<close>

definition session_create ::
    "int \<Rightarrow> int \<Rightarrow> string \<Rightarrow> string option \<Rightarrow> string option \<Rightarrow> int \<Rightarrow> ('x sys_scheme, session_row) M" where
  "session_create now userId hash userAgent ipAddress expiresAt =
     (if \<not> (length hash \<le> 128 \<and> fits 512 userAgent \<and> fits 45 ipAddress)
      then throw (PrismaKnown ''P2000'' JUndefined)
      else bind (gets (\<lambda>s. t_exists (\<lambda>r. s_refreshTokenHash r = hash) (sessions s))) (\<lambda>dup.
        if dup then throw (PrismaKnown ''P2002'' (JArr [JStr ''refreshTokenHash'']))
        else bind (gets (find_user userId)) (\<lambda>u. case u of
          None \<Rightarrow> throw (PrismaKnown ''P2003'' JUndefined)
        | Some _ \<Rightarrow> create_in sessions sessions_update (\<lambda>i.
            \<lparr>s_id = i, s_userId = userId, s_refreshTokenHash = hash, s_userAgent = userAgent,
             s_ipAddress = ipAddress, s_expiresAt = expiresAt, s_revokedAt = None, s_createdAt = now\<rparr>))))"

definition issueTokens :: "platform \<Rightarrow> string \<Rightarrow> string \<Rightarrow> int \<Rightarrow> string option \<Rightarrow> string option \<Rightarrow>
    ('x sys_scheme, issued_tokens) M" where
  "issueTokens pf raw jti userId userAgent ipAddress =
     bind (refreshTtlMs pf) (\<lambda>ttl.
     bind (session_create (pf_now pf) userId (pf_sha256 pf raw) userAgent ipAddress (pf_now pf + ttl)) (\<lambda>session.
       return \<lparr>it_accessToken = signAccessToken pf jti userId, it_refreshToken = raw,
               it_refreshCookie = buildCookie pf raw ttl, it_sessionId = s_id session\<rparr>))"

definition issueImpersonationTokens :: "platform \<Rightarrow> string \<Rightarrow> int \<Rightarrow> int \<Rightarrow> int \<Rightarrow> string" where
  "issueImpersonationTokens pf jti actorUserId targetUserId impSessionId =
     signImpersonationAccessToken pf jti targetUserId actorUserId impSessionId"

section \<open>Rotation\<close>

text \<open>How the transaction callback ends: with a value, or with an exception and the audit
  entries already written through the outer client.\<close>

datatype 'a tx_end = Commit 'a | Abort exn "audit_entry list"

definition revoke_row :: "int \<Rightarrow> session_row \<Rightarrow> session_row" where
  "revoke_row now r = r\<lparr>s_revokedAt := Some now\<rparr>"

definition replay_entry :: "session_row \<Rightarrow> audit_entry" where
  "replay_entry r = \<lparr>ae_actorUserId = Some (s_userId r), ae_action = ''SESSION_REPLAY_DETECTED'',
     ae_resource = ''session'', ae_resourceId = JBig (s_id r),
     ae_payload = [(''presentedSessionId'', JStr (int_to_string (s_id r)))],
     ae_ipAddress = None, ae_userAgent = None, ae_impersonationSessionId = None, ae_failed = False\<rparr>"

definition session_replay :: exn where
  "session_replay = http_exn SESSION_REPLAY 401
     ''Refresh token replay detected; all sessions for this user have been revoked''"

definition session_expired :: exn where
  "session_expired = http_exn SESSION_EXPIRED 401 ''Refresh token has expired''"

definition session_by_hash :: "string \<Rightarrow> 'x sys_scheme \<Rightarrow> session_row option" where
  "session_by_hash h s = t_find (\<lambda>r. s_refreshTokenHash r = h) (sessions s)"

definition revoke_active :: "int \<Rightarrow> int \<Rightarrow> ('x sys_scheme, int) M" where
  "revoke_active now userId =
     bind (gets (\<lambda>s. t_count (\<lambda>r. s_userId r = userId \<and> s_revokedAt r = None) (sessions s))) (\<lambda>n.
     seq (modify (sessions_update (t_update (\<lambda>r. s_userId r = userId \<and> s_revokedAt r = None) (revoke_row now))))
         (return (int n)))"

definition rotate_valid :: "platform \<Rightarrow> session_row \<Rightarrow> string \<Rightarrow> string \<Rightarrow> ('x sys_scheme, issued_tokens tx_end) M" where
  "rotate_valid pf session raw jti =
     bind (refreshTtlMs pf) (\<lambda>ttl.
     bind (session_create (pf_now pf) (s_userId session) (pf_sha256 pf raw) (s_userAgent session)
             (s_ipAddress session) (pf_now pf + ttl)) (\<lambda>newSession.
       return (Commit \<lparr>it_accessToken = signAccessToken pf jti (s_userId session), it_refreshToken = raw,
         it_refreshCookie = buildCookie pf raw ttl, it_sessionId = s_id newSession\<rparr>)))"

definition rotate_tx :: "platform \<Rightarrow> string \<Rightarrow> string \<Rightarrow> string \<Rightarrow> ('x sys_scheme, issued_tokens tx_end) M" where
  "rotate_tx pf current raw jti =
     bind (gets (session_by_hash (pf_sha256 pf current))) (\<lambda>found. case found of
       None \<Rightarrow> return (Abort (http_exn SESSION_INVALID 401 ''Refresh token is invalid'') [])
     | Some session \<Rightarrow>
         if s_revokedAt session \<noteq> None then
           seq (revoke_active (pf_now pf) (s_userId session)) (return (Abort session_replay [replay_entry session]))
         else if s_expiresAt session < pf_now pf then
           seq (update_in sessions sessions_update s_id (s_id session) (revoke_row (pf_now pf)))
               (return (Abort session_expired []))
         else
           seq (update_in sessions sessions_update s_id (s_id session) (revoke_row (pf_now pf)))
             (rotate_valid pf session raw jti))"

definition rotateRefreshToken :: "platform \<Rightarrow> string \<Rightarrow> string \<Rightarrow> string \<Rightarrow> ('x sys_scheme, issued_tokens) M" where
  "rotateRefreshToken pf current raw jti s =
     (case transaction (rotate_tx pf current raw jti) s of
        (Inl e, t) \<Rightarrow> (Inl e, t)
      | (Inr (Commit r), t) \<Rightarrow> (Inr r, t)
      | (Inr (Abort e entries), _) \<Rightarrow>
          seq (forEach entries (audit_log (pf_sha256 pf) (pf_now pf))) (throw e) s)"

section \<open>Revocation and queries\<close>

definition revokeSession :: "platform \<Rightarrow> int \<Rightarrow> ('x sys_scheme, unit) M" where
  "revokeSession pf sessionId =
     seq (update_in sessions sessions_update s_id sessionId (revoke_row (pf_now pf))) (return ())"

definition unknown_agent :: string where
  "unknown_agent = utf8 [217, 134, 216, 167, 216, 180, 217, 134, 216, 167, 216, 179]"

definition revokeOne :: "platform \<Rightarrow> int \<Rightarrow> int \<Rightarrow> bool \<Rightarrow> ('x sys_scheme, unit) M" where
  "revokeOne pf sessionId userId adminInitiated =
     bind (gets (\<lambda>s. t_get s_id sessionId (sessions s))) (\<lambda>found. case found of
       None \<Rightarrow> throw (http_exn NOT_FOUND 404 ''Session not found'')
     | Some session \<Rightarrow>
         if s_userId session \<noteq> userId then throw (http_exn NOT_FOUND 404 ''Session not found'')
         else seq (update_in sessions sessions_update s_id sessionId (revoke_row (pf_now pf)))
           (if adminInitiated
            then bind (dispatch (pf_env pf) userId ''SESSION_REVOKED''
                   [(''userAgent'', JStr (case s_userAgent session of Some ua \<Rightarrow> ua | None \<Rightarrow> unknown_agent))]
                   [IN_APP]) (\<lambda>_. return ())
            else return ()))"

definition revokeAllForUser :: "platform \<Rightarrow> int \<Rightarrow> ('x sys_scheme, int) M" where
  "revokeAllForUser pf userId = revoke_active (pf_now pf) userId"

definition revokeByRefreshToken :: "platform \<Rightarrow> string \<Rightarrow> ('x sys_scheme, unit) M" where
  "revokeByRefreshToken pf token =
     modify (sessions_update (t_update
       (\<lambda>r. s_refreshTokenHash r = pf_sha256 pf token \<and> s_revokedAt r = None) (revoke_row (pf_now pf))))"

definition findActive :: "platform \<Rightarrow> int \<Rightarrow> ('x sys_scheme, session_row list) M" where
  "findActive pf userId =
     gets (\<lambda>s. rev (sort_key s_createdAt (t_filter (\<lambda>r.
       s_userId r = userId \<and> s_revokedAt r = None \<and> pf_now pf < s_expiresAt r) (sessions s))))"

text \<open>A call of the service, at a time.\<close>

datatype session_op =
    Issue string string int "string option" "string option"
  | Rotate string string string
  | Revoke int
  | RevokeOwn int int bool
  | RevokeAll int
  | RevokeToken string

definition run_session :: "platform \<Rightarrow> session_op \<Rightarrow> ('x sys_scheme, issued_tokens option) M" where
  "run_session pf op = (case op of
       Issue raw jti u ua ip \<Rightarrow> bind (issueTokens pf raw jti u ua ip) (\<lambda>t. return (Some t))
     | Rotate cur raw jti \<Rightarrow> bind (rotateRefreshToken pf cur raw jti) (\<lambda>t. return (Some t))
     | Revoke i \<Rightarrow> seq (revokeSession pf i) (return None)
     | RevokeOwn i u adm \<Rightarrow> seq (revokeOne pf i u adm) (return None)
     | RevokeAll u \<Rightarrow> seq (revokeAllForUser pf u) (return None)
     | RevokeToken tok \<Rightarrow> seq (revokeByRefreshToken pf tok) (return None))"

text \<open>The tokens successfully exchanged by a run of calls.\<close>

fun exchanged :: "platform \<Rightarrow> (int \<times> session_op) list \<Rightarrow> 'x sys_scheme \<Rightarrow> string list" where
  "exchanged pf [] s = []"
| "exchanged pf ((now, op) # ops) s =
     (let (r, t) = run_session (pf_at now pf) op s in
      (case (op, r) of (Rotate cur _ _, Inr _) \<Rightarrow> [cur] | _ \<Rightarrow> []) @ exchanged pf ops t)"

section \<open>Spent tokens\<close>

text \<open>A hash that some session has, all of them revoked.\<close>

definition spent :: "string \<Rightarrow> session_row table \<Rightarrow> bool" where
  "spent h T \<longleftrightarrow> (\<exists>r \<in> set (rows T). s_refreshTokenHash r = h) \<and>
     (\<forall>r \<in> set (rows T). s_refreshTokenHash r = h \<longrightarrow> s_revokedAt r \<noteq> None)"

definition sessions_ok :: "session_row table \<Rightarrow> bool" where
  "sessions_ok T \<longleftrightarrow> wf_table s_id T \<and> distinct (map s_refreshTokenHash (rows T))"

definition session_inv :: "string set \<Rightarrow> 'x sys_scheme \<Rightarrow> bool" where
  "session_inv H s \<longleftrightarrow> sessions_ok (sessions s) \<and> (\<forall>h \<in> H. spent h (sessions s))"

lemma revoke_row_simps [simp]:
  "s_id (revoke_row now r) = s_id r" "s_userId (revoke_row now r) = s_userId r"
  "s_refreshTokenHash (revoke_row now r) = s_refreshTokenHash r" "s_revokedAt (revoke_row now r) = Some now"
  "s_expiresAt (revoke_row now r) = s_expiresAt r"
  by (simp_all add: revoke_row_def)

lemma map_if_key: "(\<And>r. k (g r) = k r) \<Longrightarrow> map k (map (\<lambda>r. if P r then g r else r) l) = map k l"
  by (induction l) auto

lemma spent_update: "spent h T \<Longrightarrow> spent h (t_update P (revoke_row now) T)"
proof -
  assume sp: "spent h T"
  obtain r where r: "r \<in> set (rows T)" "s_refreshTokenHash r = h" using sp by (auto simp: spent_def)
  have "(if P r then revoke_row now r else r) \<in> set (rows (t_update P (revoke_row now) T))"
    using r by (auto simp: table_simps)
  moreover have "s_refreshTokenHash (if P r then revoke_row now r else r) = h" using r by simp
  moreover have "\<forall>q \<in> set (rows (t_update P (revoke_row now) T)). s_refreshTokenHash q = h \<longrightarrow> s_revokedAt q \<noteq> None"
    using sp by (auto simp: spent_def table_simps)
  ultimately show ?thesis unfolding spent_def by blast
qed

lemma spent_insert: "spent h T \<Longrightarrow> (\<And>i. s_refreshTokenHash (f i) \<noteq> h) \<Longrightarrow> spent h (t_insert f T)"
  by (auto simp: spent_def table_simps)

lemma sessions_ok_update: "sessions_ok T \<Longrightarrow> sessions_ok (t_update P (revoke_row now) T)"
  using map_if_key [of s_refreshTokenHash "revoke_row now" P "rows T"]
  by (simp add: sessions_ok_def table_simps del: map_map)

lemma session_inv_update:
  "session_inv H s \<Longrightarrow> session_inv H (sessions_update (t_update P (revoke_row now)) s)"
  by (simp add: session_inv_def sessions_ok_update spent_update)

lemma session_inv_change:
  "session_inv H s \<Longrightarrow> session_inv H (sessions_update (t_change s_id i (revoke_row now)) s)"
  unfolding t_change_def [abs_def] by (rule session_inv_update)

lemma session_inv_same: "sessions t = sessions s \<Longrightarrow> session_inv H t = session_inv H s"
  by (simp add: session_inv_def)

lemma keeps_session_create: "keeps (session_inv H) (session_create now u h ua ip x)"
proof (rule keeps_wpI)
  fix s :: "'a sys_scheme" assume s: "session_inv H s"
  show "wp (session_create now u h ua ip x) (\<lambda>_. session_inv H) (\<lambda>_. session_inv H) s"
  proof (cases "t_exists (\<lambda>r. s_refreshTokenHash r = h) (sessions s)")
    case True
    then show ?thesis using s by (simp add: session_create_def wp_eqs)
  next
    case False
    then have n: "\<forall>r \<in> set (rows (sessions s)). s_refreshTokenHash r \<noteq> h"
      by (auto simp: t_exists_def list_ex_iff)
    then have "h \<notin> H" using s by (auto simp: session_inv_def spent_def)
    then have "session_inv H (sessions_update (t_insert (\<lambda>i.
        \<lparr>s_id = i, s_userId = u, s_refreshTokenHash = h, s_userAgent = ua, s_ipAddress = ip,
         s_expiresAt = x, s_revokedAt = None, s_createdAt = now\<rparr>)) s)"
      using s n by (auto simp: session_inv_def sessions_ok_def table_simps intro!: spent_insert)
    then show ?thesis using s by (simp add: session_create_def wp_eqs split: option.splits)
  qed
qed

lemma keeps_refreshTtlMs: "keeps P (refreshTtlMs pf)"
  by (simp add: refreshTtlMs_def keeps_case_option keeps_throw keeps_return)

lemma keeps_revoke_active: "keeps (session_inv H) (revoke_active now u)"
  unfolding revoke_active_def
  by (intro keeps_intros keeps_modify) (simp add: session_inv_update)

lemma keeps_revoke_change:
  "keeps (session_inv H) (update_in sessions sessions_update s_id i (revoke_row now))"
  by (rule keeps_update_in) (simp add: session_inv_change)

lemmas keeps_session = keeps_session_create keeps_refreshTtlMs keeps_revoke_active keeps_revoke_change

lemma keeps_rotate_valid: "keeps (session_inv H) (rotate_valid pf session raw jti)"
  unfolding rotate_valid_def by (intro keeps_intros keeps_session)

lemma keeps_rotate_tx: "keeps (session_inv H) (rotate_tx pf cur raw jti)"
  unfolding rotate_tx_def by (intro keeps_intros keeps_session keeps_rotate_valid)

lemma keeps_forEach_log: "(\<And>s f. P s \<Longrightarrow> P (audit_logs_update f s)) \<Longrightarrow> keeps P (forEach es (audit_log sha now))"
  by (intro keeps_intros keeps_audit_log) simp

lemma keeps_rotate: "keeps (session_inv H) (rotateRefreshToken pf cur raw jti)"
  unfolding keeps_def
proof (intro allI impI)
  fix s :: "'a sys_scheme" assume s: "session_inv H s"
  obtain x t where x: "transaction (rotate_tx pf cur raw jti) s = (x, t)" by fastforce
  have t: "session_inv H t"
    using keepsD [OF keeps_transaction [OF keeps_rotate_tx] s, of pf cur raw jti] x by simp
  show "session_inv H (snd (rotateRefreshToken pf cur raw jti s))"
  proof (cases x)
    case (Inl e)
    then show ?thesis using t x by (simp add: rotateRefreshToken_def)
  next
    case (Inr y)
    have "keeps (session_inv H) (seq (forEach es (audit_log sha now)) (throw e) :: ('a sys_scheme, issued_tokens) M)"
      for es sha now e by (intro keeps_intros keeps_forEach_log) (simp add: session_inv_def)
    from keepsD [OF this s] show ?thesis
      using Inr t x by (cases y) (simp_all add: rotateRefreshToken_def)
  qed
qed

lemma keeps_run_session: "keeps (session_inv H) (run_session pf op)"
proof -
  have d: "keeps (session_inv H) (dispatch b u ty pl chs)" for b u ty pl chs
    by (rule keeps_dispatch) (simp add: session_inv_def same_books_fields)
  show ?thesis
    by (cases op) (auto simp: run_session_def issueTokens_def revokeSession_def revokeOne_def revokeAllForUser_def
        revokeByRefreshToken_def intro!: keeps_intros keeps_session keeps_rotate d keeps_modify
        intro: session_inv_update)
qed

text \<open>A successful exchange spends the token it was given.\<close>

lemma rotate_spends:
  assumes ok: "sessions_ok (sessions s)" and run: "rotateRefreshToken pf cur raw jti s = (Inr r, t)"
  shows "\<not> spent (pf_sha256 pf cur) (sessions s)" and "spent (pf_sha256 pf cur) (sessions t)"
proof -
  let ?h = "pf_sha256 pf cur"
  have tx: "rotate_tx pf cur raw jti s = (Inr (Commit r), t)"
  proof -
    obtain x u where x: "transaction (rotate_tx pf cur raw jti) s = (x, u)" by fastforce
    have log: "fst (seq (forEach es (audit_log sha now)) (throw e) v :: (exn + issued_tokens) \<times> 'a sys_scheme) = Inl e'
        \<Longrightarrow> True" for es sha now e e' v by simp
    have "\<exists>e'. fst (seq (forEach es (audit_log sha now)) (throw e :: ('a sys_scheme, issued_tokens) M) v) = Inl e'"
      for es sha now e v
      by (induction es arbitrary: v) (auto simp: run_simps audit_log_run split: sum.splits)
    then have "x = Inr (Commit r) \<and> u = t"
      using run x by (auto simp: rotateRefreshToken_def split: sum.splits tx_end.splits)
         (metis fst_conv sum.distinct(1))+
    then show ?thesis using x by (auto simp: transaction_def split: sum.splits prod.splits)
  qed
  then obtain session where se: "session_by_hash ?h s = Some session" "s_revokedAt session = None"
    by (auto simp: rotate_tx_def revoke_active_def update_in_def run_simps split: option.splits if_splits)
  then have in_s: "session \<in> set (rows (sessions s))" "s_refreshTokenHash session = ?h"
    by (auto simp: session_by_hash_def dest: t_find_Some)
  then show "\<not> spent ?h (sessions s)" using se by (auto simp: spent_def)
  let ?s1 = "sessions_update (t_change s_id (s_id session) (revoke_row (pf_now pf))) s"
  have wf: "wf_table s_id (sessions s)" using ok by (simp add: sessions_ok_def)
  have one: "r' = session" if "r' \<in> set (rows (sessions s))" "s_refreshTokenHash r' = ?h" for r'
    using ok that in_s unfolding sessions_ok_def distinct_map inj_on_def by metis
  have "revoke_row (pf_now pf) session \<in> set (rows (sessions ?s1))"
    using in_s by (force simp: t_change_def table_simps)
  moreover have "s_revokedAt q \<noteq> None" if q: "q \<in> set (rows (sessions ?s1))" "s_refreshTokenHash q = ?h" for q
  proof -
    obtain p where "p \<in> set (rows (sessions s))" "q = (if s_id p = s_id session then revoke_row (pf_now pf) p else p)"
      using q(1) by (auto simp: t_change_def table_simps)
    then show ?thesis using one [of p] q(2) by (cases "s_id p = s_id session") auto
  qed
  ultimately have "spent ?h (sessions ?s1)" using in_s unfolding spent_def by (metis revoke_row_simps(3))
  moreover have "sessions_ok (sessions ?s1)"
    using sessions_ok_update [OF ok] by (simp add: t_change_def)
  ultimately have sp: "session_inv {?h} ?s1" by (simp add: session_inv_def)
  have "rotate_tx pf cur raw jti s = rotate_valid pf session raw jti ?s1"
    using se tx t_get_self [OF wf in_s(1)]
    by (auto simp: rotate_tx_def bind_def seq_def gets_def return_def update_in_def split: if_splits)
  then have "snd (rotate_valid pf session raw jti ?s1) = t" using tx by (metis snd_conv)
  with keepsD [OF keeps_rotate_valid sp, of pf session raw jti]
  show "spent ?h (sessions t)" by (simp add: session_inv_def)
qed

lemma exchanged_once:
  assumes "session_inv H s"
  shows "distinct (map (pf_sha256 pf) (exchanged pf ops s)) \<and>
    H \<inter> pf_sha256 pf ` set (exchanged pf ops s) = {}"
  using assms
proof (induction ops arbitrary: H s)
  case (Cons op ops)
  obtain now o1 where o1: "op = (now, o1)" by (cases op)
  obtain r t where run: "run_session (pf_at now pf) o1 s = (r, t)" by fastforce
  have t: "session_inv H t" using keepsD [OF keeps_run_session Cons.prems, of "pf_at now pf" o1] run by simp
  have ok: "sessions_ok (sessions s)" using Cons.prems by (simp add: session_inv_def)
  show ?case
  proof (cases "\<exists>cur raw jti x. o1 = Rotate cur raw jti \<and> r = Inr x")
    case False
    then have "exchanged pf (op # ops) s = exchanged pf ops t"
      using o1 run by (auto split: session_op.splits sum.splits)
    then show ?thesis using Cons.IH [OF t] by simp
  next
    case True
    then obtain cur raw jti y where x: "o1 = Rotate cur raw jti" "rotateRefreshToken (pf_at now pf) cur raw jti s = (Inr y, t)" "\<exists>x. r = Inr x"
      using run by (auto simp: run_session_def bind_def return_def split: sum.splits prod.splits)
    let ?h = "pf_sha256 pf cur"
    have "\<not> spent ?h (sessions s)" "spent ?h (sessions t)"
      using rotate_spends [OF ok x(2)] by (simp_all add: pf_at_def)
    then have "?h \<notin> H" "session_inv (insert ?h H) t" using Cons.prems t by (auto simp: session_inv_def)
    moreover have "exchanged pf (op # ops) s = cur # exchanged pf ops t" using o1 run x by auto
    ultimately show ?thesis using Cons.IH [of "insert ?h H" t] by auto
  qed
qed simp

section \<open>Properties\<close>

text \<open>C8. A refresh token is exchanged at most once: in any sequence of issue, rotate and revoke
  calls at any times, no token is rotated successfully twice, and neither is any other
  string with the same hash.\<close>

theorem refresh_token_exchanged_once:
  assumes "sessions_ok (sessions s)"
  shows "distinct (map (pf_sha256 pf) (exchanged pf ops s))"
  using exchanged_once [of "{}" s pf ops] assms by (simp add: session_inv_def)

text \<open>Replay detection does not revoke anything: presenting a revoked refresh token answers
  SESSION_REPLAY, whose message says that all sessions of the user have been revoked, but
  the revocations are part of the transaction the exception rolls back, so every session,
  the thief's included, is exactly as active as before; only the audit row remains.\<close>

theorem replay_revocation_rolled_back:
  assumes "session_by_hash (pf_sha256 pf tok) s = Some r" "s_revokedAt r \<noteq> None"
  shows "rotateRefreshToken pf tok raw jti s =
       (Inl session_replay, snd (audit_log (pf_sha256 pf) (pf_now pf) (replay_entry r) s)) \<and>
     findActive pf u (snd (rotateRefreshToken pf tok raw jti s)) =
       (fst (findActive pf u s), snd (rotateRefreshToken pf tok raw jti s))"
proof -
  have "rotateRefreshToken pf tok raw jti s =
     (Inl session_replay, snd (audit_log (pf_sha256 pf) (pf_now pf) (replay_entry r) s))"
    using assms
    by (simp add: rotateRefreshToken_def rotate_tx_def revoke_active_def run_simps audit_log_run)
  then show ?thesis by (simp add: findActive_def gets_def)
qed

text \<open>Signing out everywhere works: after revokeAllForUser the user has no active session,
  the count returned is the number that were unrevoked, and none of the refresh tokens
  the user had can be exchanged any more.\<close>

theorem revoke_all_signs_out:
  assumes "sessions_ok (sessions s)" "revokeAllForUser pf u s = (x, t)"
  shows "x = Inr (int (t_count (\<lambda>r. s_userId r = u \<and> s_revokedAt r = None) (sessions s))) \<and>
    fst (findActive pf' u t) = Inr [] \<and>
    (\<forall>r \<in> set (rows (sessions s)). s_userId r = u \<longrightarrow>
       (\<forall>tok. pf_sha256 pf' tok = s_refreshTokenHash r \<longrightarrow>
         (\<exists>e. fst (rotateRefreshToken pf' tok raw jti t) = Inl e)))"
proof -
  have t: "t = sessions_update (t_update (\<lambda>r. s_userId r = u \<and> s_revokedAt r = None) (revoke_row (pf_now pf))) s"
    and x: "x = Inr (int (t_count (\<lambda>r. s_userId r = u \<and> s_revokedAt r = None) (sessions s)))"
    using assms(2) by (simp_all add: revokeAllForUser_def revoke_active_def run_simps)
  let ?g = "\<lambda>q. if s_userId q = u \<and> s_revokedAt q = None then revoke_row (pf_now pf) q else q"
  have rows_t: "rows (sessions t) = map ?g (rows (sessions s))" by (simp add: t table_simps)
  have none: "s_userId q = u \<longrightarrow> s_revokedAt q \<noteq> None" if "q \<in> set (rows (sessions t))" for q
    using that unfolding rows_t set_map by (elim imageE) simp
  then have "t_filter (\<lambda>r. s_userId r = u \<and> s_revokedAt r = None \<and> pf_now pf' < s_expiresAt r) (sessions t) = []"
    by (simp add: t_filter_def filter_empty_conv)
  then have act: "fst (findActive pf' u t) = Inr []"
    by (simp only: findActive_def gets_def fst_conv) simp
  have ok: "sessions_ok (sessions t)" using sessions_ok_update [OF assms(1)] by (simp add: t)
  have "\<exists>e. fst (rotateRefreshToken pf' tok raw jti t) = Inl e"
    if r: "r \<in> set (rows (sessions s))" "s_userId r = u" "pf_sha256 pf' tok = s_refreshTokenHash r" for r tok
  proof -
    have gr: "?g r \<in> set (rows (sessions t))" unfolding rows_t set_map using r(1) by (rule imageI)
    have "s_revokedAt q \<noteq> None" if q: "q \<in> set (rows (sessions t))" "s_refreshTokenHash q = s_refreshTokenHash r" for q
    proof -
      have "s_refreshTokenHash (?g r) = s_refreshTokenHash r" by simp
      then have "q = ?g r"
        using ok q gr unfolding sessions_ok_def distinct_map inj_on_def by metis
      then show ?thesis using r(2) by simp
    qed
    then have "spent (s_refreshTokenHash r) (sessions t)"
      using gr unfolding spent_def by (intro conjI bexI [OF _ gr]) auto
    then have "fst (rotateRefreshToken pf' tok raw jti t) \<noteq> Inr y" for y
      using rotate_spends(1) [OF ok, of pf' tok raw jti y] r(3)
      by (cases "rotateRefreshToken pf' tok raw jti t") auto
    then show ?thesis by (cases "fst (rotateRefreshToken pf' tok raw jti t)") auto
  qed
  then show ?thesis using x act by blast
qed

section \<open>Witnesses\<close>

definition sample_platform :: platform where
  "sample_platform = \<lparr>pf_env = sample_env, pf_sha256 = (\<lambda>x. x), pf_ms = (\<lambda>_. Some 1000),
     pf_sign = jc_sub, pf_verify = (\<lambda>_ t. Some [(''sub'', JStr t)]), pf_jwt_expires_in = ''15m'',
     pf_jwt_refresh_expires_in = ''30d'', pf_node_env = ''production'', pf_otp_salt = ''salt'',
     pf_super_admin_phone = None, pf_is_email = (\<lambda>e. CHR ''@'' \<in> set e), pf_zod_issues = (\<lambda>_. [])\<rparr>"

definition sample_session :: "int \<Rightarrow> int \<Rightarrow> string \<Rightarrow> int option \<Rightarrow> session_row" where
  "sample_session i u h rv = \<lparr>s_id = i, s_userId = u, s_refreshTokenHash = h, s_userAgent = None,
     s_ipAddress = None, s_expiresAt = 5000, s_revokedAt = rv, s_createdAt = i\<rparr>"

definition sample_sessions :: sys where
  "sample_sessions = sample_sys\<lparr>sessions :=
     \<lparr>next_id = 3, rows = [sample_session 1 1 ''old'' (Some 500), sample_session 2 1 ''new'' None]\<rparr>\<rparr>"

lemmas session_samples = sample_platform_def sample_session_def sample_sessions_def pf_now_def pf_at_def

lemma refresh_token_exchanged_once_witness:
  "exchanged sample_platform [(1000, Rotate ''new'' ''n1'' ''j''), (1001, Rotate ''new'' ''n2'' ''j''),
      (1002, Rotate ''n1'' ''n3'' ''j'')] sample_sessions = [''new'', ''n1''] \<and>
   distinct (map (pf_sha256 sample_platform) (exchanged sample_platform
     [(1000, Rotate ''new'' ''n1'' ''j''), (1001, Rotate ''new'' ''n2'' ''j''), (1002, Rotate ''n1'' ''n3'' ''j'')] sample_sessions))"
proof -
  have "sessions_ok (sessions sample_sessions)"
    by (simp add: session_samples sessions_ok_def wf_table_def)
  from refresh_token_exchanged_once [OF this, of sample_platform
      "[(1000, Rotate ''new'' ''n1'' ''j''), (1001, Rotate ''new'' ''n2'' ''j''), (1002, Rotate ''n1'' ''n3'' ''j'')]"]
  show ?thesis
    by (simp add: session_samples run_session_def rotateRefreshToken_def rotate_tx_def rotate_valid_def
        session_by_hash_def run_simps table_run refreshTtlMs_def session_create_def fits_def find_user_def
        sample_defs revoke_row_def revoke_active_def audit_log_run)
qed

lemma replay_revocation_rolled_back_witness:
  "fst (rotateRefreshToken sample_platform ''old'' ''x'' ''j'' sample_sessions) = Inl session_replay \<and>
   findActive sample_platform 1 (snd (rotateRefreshToken sample_platform ''old'' ''x'' ''j'' sample_sessions)) =
     (Inr [sample_session 2 1 ''new'' None], snd (rotateRefreshToken sample_platform ''old'' ''x'' ''j'' sample_sessions))"
proof -
  have "session_by_hash (pf_sha256 sample_platform ''old'') sample_sessions = Some (sample_session 1 1 ''old'' (Some 500))"
    "s_revokedAt (sample_session 1 1 ''old'' (Some 500)) \<noteq> None"
    by (simp_all add: session_samples session_by_hash_def table_run)
  from replay_revocation_rolled_back [OF this, of "''x''" "''j''" 1] show ?thesis
    by (simp add: findActive_def gets_def table_run session_samples sample_env_def)
qed

lemma revoke_all_signs_out_witness:
  "fst (findActive sample_platform 1 (snd (revokeAllForUser sample_platform 1 sample_sessions))) = Inr [] \<and>
   (\<exists>e. fst (rotateRefreshToken sample_platform ''new'' ''x'' ''j''
     (snd (revokeAllForUser sample_platform 1 sample_sessions))) = Inl e)"
proof -
  have ok: "sessions_ok (sessions sample_sessions)"
    by (simp add: session_samples sessions_ok_def wf_table_def)
  have m: "sample_session 2 1 ''new'' None \<in> set (rows (sessions sample_sessions))" by (simp add: session_samples)
  from revoke_all_signs_out [OF ok surjective_pairing, of sample_platform 1 sample_platform "''x''" "''j''"] m
  show ?thesis by (fastforce simp: session_samples)
qed

end
