(* ===== verification/Ledger.thy ===== *)
theory Ledger
  imports Samples
begin

text \<open>
  core/wallets/wallets.service.ts and core/ledger/ledger.service.ts: wallet creation and
  lookup, credit, debit and transfer with their row locks inside a transaction and the
  notification after it, getBalance and verifyBalance, the entry pages, and the two
  admin reports.  A balance column is a Postgres BIGINT: a write outside 64 bits throws.

  The invariant books_ok says that every wallet's stored balance is non-negative and is
  the signed sum of its ledger entries, all of positive amount.  The locale ledger_api is
  the contract the payment and payout services rely on; it is interpreted on credit and
  debit at the end.
\<close>

section \<open>Wallets\<close>

definition int8_max :: int where
  "int8_max = 9223372036854775807"

definition wallet_findUnique :: "int \<Rightarrow> 'x sys_scheme \<Rightarrow> wallet option" where
  "wallet_findUnique uid s = t_find (\<lambda>w. w_userId w = uid) (wallets s)"

definition findOrCreateForUser :: "int \<Rightarrow> ('x sys_scheme, wallet) M" where
  "findOrCreateForUser uid =
     bind (gets (wallet_findUnique uid)) (\<lambda>w.
       case w of
         Some row \<Rightarrow> return row
       | None \<Rightarrow> bind (gets (find_user uid)) (\<lambda>u.
           case u of
             None \<Rightarrow> throw (PrismaKnown ''P2003'' JUndefined)
           | Some _ \<Rightarrow> create_in wallets wallets_update
                         (\<lambda>i. \<lparr>w_id = i, w_userId = uid, w_balance = 0\<rparr>)))"

definition findByUserId :: "int \<Rightarrow> ('x sys_scheme, wallet) M" where
  "findByUserId uid =
     bind (gets (wallet_findUnique uid)) (\<lambda>w.
       case w of
         None \<Rightarrow> throw (http_exn NOT_FOUND 404 ''Wallet not found'')
       | Some row \<Rightarrow> return row)"

definition findByUserIdForAdmin :: "int \<Rightarrow> ('x sys_scheme, wallet) M" where
  "findByUserIdForAdmin uid =
     bind (gets (wallet_findUnique uid)) (\<lambda>w.
       case w of
         None \<Rightarrow> throw (http_exn NOT_FOUND 404 ''Wallet not found'')
       | Some row \<Rightarrow> return row)"

section \<open>Writing the ledger\<close>

record ledger_input =
  li_walletId :: int
  li_amount :: int
  li_reference :: "string option"
  li_description :: "string option"
  li_metadata :: "json option"

record transfer_input =
  ti_fromWalletId :: int
  ti_toWalletId :: int
  ti_amount :: int
  ti_reference :: "string option"
  ti_description :: "string option"
  ti_metadata :: "(string \<times> json) list"

definition assertPositive :: "int \<Rightarrow> ('x sys_scheme, unit) M" where
  "assertPositive amount =
     (if amount \<le> 0 then throw (http_exn VALIDATION_ERROR 400 ''Amount must be positive'')
      else return ())"

definition lockWallet :: "int \<Rightarrow> ('x sys_scheme, wallet) M" where
  "lockWallet walletId =
     bind (gets (\<lambda>s. t_get w_id walletId (wallets s))) (\<lambda>w.
       case w of
         None \<Rightarrow> throw (http_exn NOT_FOUND 404 ''Wallet not found'')
       | Some row \<Rightarrow> return row)"

definition new_entry ::
    "int \<Rightarrow> int \<Rightarrow> int \<Rightarrow> ledger_kind \<Rightarrow> int \<Rightarrow> string option \<Rightarrow> string option \<Rightarrow> json \<Rightarrow> int \<Rightarrow>
     ledger_entry" where
  "new_entry now walletId uid kind amount ref descr meta i =
     \<lparr>e_id = i, e_userId = Some uid, e_walletId = Some walletId, e_kind = kind,
      e_amount = amount, e_reference = ref, e_description = descr, e_metadata = meta,
      e_createdAt = now\<rparr>"

definition entry_create ::
    "int \<Rightarrow> int \<Rightarrow> int \<Rightarrow> ledger_kind \<Rightarrow> int \<Rightarrow> string option \<Rightarrow> string option \<Rightarrow> json \<Rightarrow>
     ('x sys_scheme, ledger_entry) M" where
  "entry_create now walletId uid kind amount ref descr meta =
     create_in ledger_entries ledger_entries_update
       (new_entry now walletId uid kind amount ref descr meta)"

definition wallet_setBalance :: "int \<Rightarrow> int \<Rightarrow> ('x sys_scheme, wallet) M" where
  "wallet_setBalance walletId nb =
     (if nb > int8_max \<or> nb < - int8_max - 1 then throw (PrismaKnown ''P2020'' JUndefined)
      else update_in wallets wallets_update w_id walletId (\<lambda>w. w\<lparr>w_balance := nb\<rparr>))"

definition meta_json :: "json option \<Rightarrow> json" where
  "meta_json m = (case m of Some j \<Rightarrow> j | None \<Rightarrow> JNull)"

definition credit_tx :: "int \<Rightarrow> ledger_input \<Rightarrow> ('x sys_scheme, ledger_entry \<times> int \<times> int) M" where
  "credit_tx now input =
     bind (lockWallet (li_walletId input)) (\<lambda>wallet.
       let nb = w_balance wallet + li_amount input in
       bind (entry_create now (li_walletId input) (w_userId wallet) CREDIT (li_amount input)
               (li_reference input) (li_description input) (meta_json (li_metadata input))) (\<lambda>e.
         seq (wallet_setBalance (li_walletId input) nb)
             (return (e, nb, w_userId wallet))))"

definition credit :: "env \<Rightarrow> ledger_input \<Rightarrow> ('x sys_scheme, ledger_entry) M" where
  "credit env input =
     seq (assertPositive (li_amount input))
      (bind (transaction (credit_tx (env_now env) input)) (\<lambda>(e, nb, uid).
        if uid \<noteq> 0 then
          seq (dispatch env uid ''WALLET_CREDITED''
                 [(''amount'', JBig (li_amount input)), (''balance'', JBig nb)] [IN_APP])
              (return e)
        else return e))"

definition debit_tx :: "int \<Rightarrow> ledger_input \<Rightarrow> ('x sys_scheme, ledger_entry \<times> int \<times> int) M" where
  "debit_tx now input =
     bind (lockWallet (li_walletId input)) (\<lambda>wallet.
       let nb = w_balance wallet - li_amount input in
       if nb < 0 then throw (http_exn INSUFFICIENT_FUNDS 422 ''Insufficient wallet balance'')
       else
         bind (entry_create now (li_walletId input) (w_userId wallet) DEBIT (li_amount input)
                 (li_reference input) (li_description input) (meta_json (li_metadata input))) (\<lambda>e.
           seq (wallet_setBalance (li_walletId input) nb)
               (return (e, nb, w_userId wallet))))"

definition debit :: "env \<Rightarrow> ledger_input \<Rightarrow> ('x sys_scheme, ledger_entry) M" where
  "debit env input =
     seq (assertPositive (li_amount input))
      (bind (transaction (debit_tx (env_now env) input)) (\<lambda>(e, nb, uid).
        if uid \<noteq> 0 then
          seq (dispatch env uid ''WALLET_DEBITED''
                 [(''amount'', JBig (li_amount input)), (''balance'', JBig nb)] [IN_APP])
              (return e)
        else return e))"

text \<open>The object spread: the listed keys override the caller's metadata.\<close>

definition transferMeta :: "transfer_input \<Rightarrow> json" where
  "transferMeta input =
     JObj (filter (\<lambda>p. fst p \<notin> {''fromWalletId'', ''toWalletId''}) (ti_metadata input)
           @ [(''fromWalletId'', JStr (int_to_string (ti_fromWalletId input))),
              (''toWalletId'', JStr (int_to_string (ti_toWalletId input)))])"

record transfer_result =
  tr_debitEntry :: ledger_entry
  tr_creditEntry :: ledger_entry
  tr_fromUserId :: int
  tr_toUserId :: int
  tr_newFromBalance :: int
  tr_newToBalance :: int

definition transfer_tx :: "int \<Rightarrow> transfer_input \<Rightarrow> ('x sys_scheme, transfer_result) M" where
  "transfer_tx now input =
     (let (firstId, secondId) =
        (if ti_fromWalletId input < ti_toWalletId input
         then (ti_fromWalletId input, ti_toWalletId input)
         else (ti_toWalletId input, ti_fromWalletId input)) in
      bind (lockWallet firstId) (\<lambda>firstLocked.
      bind (lockWallet secondId) (\<lambda>secondLocked.
      let fromWallet = (if w_id firstLocked = ti_fromWalletId input then firstLocked else secondLocked);
          toWallet = (if w_id firstLocked = ti_toWalletId input then firstLocked else secondLocked);
          nfb = w_balance fromWallet - ti_amount input in
      if nfb < 0 then
        throw (http_exn INSUFFICIENT_FUNDS 422 ''Insufficient wallet balance for transfer'')
      else
        bind (entry_create now (ti_fromWalletId input) (w_userId fromWallet) DEBIT (ti_amount input)
                (ti_reference input) (ti_description input) (transferMeta input)) (\<lambda>de.
        seq (wallet_setBalance (ti_fromWalletId input) nfb)
        (let ntb = w_balance toWallet + ti_amount input in
        bind (entry_create now (ti_toWalletId input) (w_userId toWallet) CREDIT (ti_amount input)
                (ti_reference input) (ti_description input) (transferMeta input)) (\<lambda>ce.
        seq (wallet_setBalance (ti_toWalletId input) ntb)
          (return \<lparr>tr_debitEntry = de, tr_creditEntry = ce,
                   tr_fromUserId = w_userId fromWallet, tr_toUserId = w_userId toWallet,
                   tr_newFromBalance = nfb, tr_newToBalance = ntb\<rparr>)))))))"

definition transfer :: "env \<Rightarrow> transfer_input \<Rightarrow> ('x sys_scheme, ledger_entry \<times> ledger_entry) M" where
  "transfer env input =
     seq (assertPositive (ti_amount input))
      (if ti_fromWalletId input = ti_toWalletId input then
         throw (http_exn VALIDATION_ERROR 400 ''Cannot transfer to the same wallet'')
       else
         bind (transaction (transfer_tx (env_now env) input)) (\<lambda>r.
           seq (if tr_fromUserId r \<noteq> 0 then
                  seq (dispatch env (tr_fromUserId r) ''WALLET_DEBITED''
                         [(''amount'', JBig (ti_amount input)), (''balance'', JBig (tr_newFromBalance r))]
                         [IN_APP]) (return ())
                else return ())
          (seq (if tr_toUserId r \<noteq> 0 then
                  seq (dispatch env (tr_toUserId r) ''WALLET_CREDITED''
                         [(''amount'', JBig (ti_amount input)), (''balance'', JBig (tr_newToBalance r))]
                         [IN_APP]) (return ())
                else return ())
               (return (tr_debitEntry r, tr_creditEntry r)))))"

section \<open>Reading the ledger\<close>

definition getBalance :: "int \<Rightarrow> ('x sys_scheme, int) M" where
  "getBalance walletId =
     bind (gets (\<lambda>s. t_get w_id walletId (wallets s))) (\<lambda>w.
       case w of
         None \<Rightarrow> throw (http_exn NOT_FOUND 404 ''Wallet not found'')
       | Some row \<Rightarrow> return (w_balance row))"

definition signed_amount :: "ledger_entry \<Rightarrow> int" where
  "signed_amount e = (case e_kind e of CREDIT \<Rightarrow> e_amount e | DEBIT \<Rightarrow> - e_amount e)"

definition computedBalance :: "int \<Rightarrow> ledger_entry table \<Rightarrow> int" where
  "computedBalance walletId t = t_sum (\<lambda>e. e_walletId e = Some walletId) signed_amount t"

definition verifyBalance :: "int \<Rightarrow> ('x sys_scheme, unit) M" where
  "verifyBalance walletId =
     bind (getBalance walletId) (\<lambda>balance.
     bind (gets (\<lambda>s. computedBalance walletId (ledger_entries s))) (\<lambda>computed.
       if computed \<noteq> balance then
         throw (http_exn BALANCE_MISMATCH 500
                  (''Balance mismatch: stored='' @ int_to_string balance
                   @ '', computed='' @ int_to_string computed))
       else return ()))"

definition findEntriesForWallet ::
    "int \<Rightarrow> int option \<Rightarrow> nat \<Rightarrow> ('x sys_scheme, ledger_entry page) M" where
  "findEntriesForWallet walletId cursor limit =
     gets (\<lambda>s. paginate e_id cursor limit
       (t_filter (\<lambda>e. e_walletId e = Some walletId) (ledger_entries s)))"

datatype drift_status = OK | DRIFT

record reconciliation_row =
  rr_walletId :: int
  rr_userId :: int
  rr_storedBalance :: int
  rr_computedBalance :: int
  rr_drift :: int
  rr_status :: drift_status

record reconciliation_report =
  rp_items :: "reconciliation_row list"
  rp_totalWallets :: nat
  rp_walletsWithDrift :: nat
  rp_totalStoredBalance :: int
  rp_totalComputedBalance :: int
  rp_cappedAt :: "nat option"

definition reconcile_row :: "ledger_entry table \<Rightarrow> wallet \<Rightarrow> reconciliation_row" where
  "reconcile_row entries w =
     (let computed = computedBalance (w_id w) entries; drift = w_balance w - computed in
      \<lparr>rr_walletId = w_id w, rr_userId = w_userId w, rr_storedBalance = w_balance w,
       rr_computedBalance = computed, rr_drift = drift,
       rr_status = (if drift = 0 then OK else DRIFT)\<rparr>)"

definition reconciliationReport :: "nat option \<Rightarrow> ('x sys_scheme, reconciliation_report) M" where
  "reconciliationReport opt =
     (let limit = min (case opt of Some l \<Rightarrow> l | None \<Rightarrow> 10000) 10000 in
      gets (\<lambda>s.
        let got = take (limit + 1) (rows (wallets s));
            exceededCap = length got > limit;
            its = map (reconcile_row (ledger_entries s)) (if exceededCap then take limit got else got)
        in \<lparr>rp_items = its,
            rp_totalWallets = length its,
            rp_walletsWithDrift = length (filter (\<lambda>r. rr_status r = DRIFT) its),
            rp_totalStoredBalance = sum_list (map rr_storedBalance its),
            rp_totalComputedBalance = sum_list (map rr_computedBalance its),
            rp_cappedAt = (if exceededCap then Some limit else None)\<rparr>))"

text \<open>The aggregate query names its columns in raw SQL; a column the table does not have
  makes Postgres reject the statement, which Prisma reports as P2010.\<close>

definition ledger_entries_columns :: "string list" where
  "ledger_entries_columns = [''id'', ''userId'', ''walletId'', ''kind'', ''amount'', ''currency'',
     ''reference'', ''description'', ''metadata'', ''createdAt'']"

record aggregate_row =
  ag_date :: int
  ag_credits :: int
  ag_debits :: int
  ag_netFlow :: int
  ag_entryCount :: nat

definition day_ms :: int where
  "day_ms = 86400000"

definition aggregate_day :: "ledger_entry list \<Rightarrow> int \<Rightarrow> aggregate_row" where
  "aggregate_day es d =
     (let day = filter (\<lambda>e. e_createdAt e div day_ms = d) es;
          credits = sum_list (map e_amount (filter (\<lambda>e. e_kind e = CREDIT) day));
          debits = sum_list (map e_amount (filter (\<lambda>e. e_kind e = DEBIT) day))
      in \<lparr>ag_date = d * day_ms, ag_credits = credits, ag_debits = debits,
          ag_netFlow = credits - debits, ag_entryCount = length day\<rparr>)"

definition aggregates :: "string list \<Rightarrow> int \<Rightarrow> int option \<Rightarrow> ('x sys_scheme, aggregate_row list) M" where
  "aggregates columns now opt =
     (let days = min (case opt of Some d \<Rightarrow> d | None \<Rightarrow> 30) 365 in
      if \<not> set [''created_at'', ''kind'', ''amount''] \<subseteq> set columns
      then throw (PrismaKnown ''P2010'' JUndefined)
      else gets (\<lambda>s.
        let es = t_filter (\<lambda>e. e_createdAt e \<ge> now - days * day_ms) (ledger_entries s) in
        map (aggregate_day es) (rev (sort (remdups (map (\<lambda>e. e_createdAt e div day_ms) es))))))"

section \<open>The invariant of the books\<close>

definition books :: "wallet table \<Rightarrow> ledger_entry table \<Rightarrow> bool" where
  "books W L \<longleftrightarrow>
     wf_table w_id W \<and> wf_table e_id L \<and> distinct (map w_userId (rows W)) \<and>
     (\<forall>w\<in>set (rows W). 0 \<le> w_balance w \<and> w_balance w = computedBalance (w_id w) L) \<and>
     (\<forall>e\<in>set (rows L). 0 < e_amount e \<and> (\<forall>i. e_walletId e = Some i \<longrightarrow> i < next_id W))"

definition books_ok :: "'x sys_scheme \<Rightarrow> bool" where
  "books_ok s = books (wallets s) (ledger_entries s)"

definition total :: "wallet table \<Rightarrow> int" where
  "total W = sum_list (map w_balance (rows W))"

definition balance_of :: "'x sys_scheme \<Rightarrow> int \<Rightarrow> int option" where
  "balance_of s i = map_option w_balance (t_get w_id i (wallets s))"

text \<open>What posting one entry does to the two tables.\<close>

definition post_wallets :: "int \<Rightarrow> int \<Rightarrow> wallet table \<Rightarrow> wallet table" where
  "post_wallets i nb W = t_change w_id i (\<lambda>w. w\<lparr>w_balance := nb\<rparr>) W"

lemma computedBalance_insert:
  "computedBalance i (t_insert f L) =
   computedBalance i L + (if e_walletId (f (next_id L)) = Some i then signed_amount (f (next_id L)) else 0)"
  by (simp add: computedBalance_def t_sum_insert t_new_def)

lemma rows_post_wallets:
  "rows (post_wallets i nb W) = map (\<lambda>w. if w_id w = i then w\<lparr>w_balance := nb\<rparr> else w) (rows W)"
  by (simp add: post_wallets_def t_change_def t_update_def)

lemma next_post_wallets [simp]: "next_id (post_wallets i nb W) = next_id W"
  by (simp add: post_wallets_def t_change_def t_update_def)

lemma get_post_wallets:
  "t_get w_id j (post_wallets i nb W) =
     (if j = i then map_option (\<lambda>w. w\<lparr>w_balance := nb\<rparr>) (t_get w_id j W) else t_get w_id j W)"
  unfolding post_wallets_def by (rule t_get_change) simp

lemma books_post:
  assumes b: "books W L" and g: "t_get w_id i W = Some w"
    and key: "\<And>k. e_id (f k) = k"
    and e: "\<And>k. e_walletId (f k) = Some i" "\<And>k. 0 < e_amount (f k)"
    and nb: "\<And>k. nb = w_balance w + signed_amount (f k)" "0 \<le> nb"
  shows "books (post_wallets i nb W) (t_insert f L)"
proof -
  have wid: "w_id w = i" and win: "w \<in> set (rows W)"
    using t_get_key [OF g] t_get_in [OF g] by auto
  have users: "map w_userId (rows (post_wallets i nb W)) = map w_userId (rows W)"
    by (simp add: rows_post_wallets)
  have old: "i < next_id W" using b win wid by (auto simp: books_def wf_table_def)
  have bal: "0 \<le> w_balance v \<and> w_balance v = computedBalance (w_id v) (t_insert f L)"
    if v: "v \<in> set (rows (post_wallets i nb W))" for v
  proof -
    from v obtain u where u: "u \<in> set (rows W)" "v = (if w_id u = i then u\<lparr>w_balance := nb\<rparr> else u)"
      by (auto simp: rows_post_wallets)
    show ?thesis
    proof (cases "w_id u = i")
      case True
      then have "u = w" using b u win wid by (auto simp: books_def dest: wf_key_unique)
      then show ?thesis using u True nb b win e
        by (auto simp: books_def computedBalance_insert)
    next
      case False
      then show ?thesis using u b e by (auto simp: books_def computedBalance_insert)
    qed
  qed
  have W: "wf_table w_id (post_wallets i nb W)"
    unfolding post_wallets_def by (rule wf_t_change) (use b in \<open>simp_all add: books_def\<close>)
  have L: "wf_table e_id (t_insert f L)"
    by (rule wf_t_insert) (use b key in \<open>simp_all add: books_def\<close>)
  have ent: "0 < e_amount x \<and> (\<forall>j. e_walletId x = Some j \<longrightarrow> j < next_id W)"
    if x: "x \<in> set (rows (t_insert f L))" for x
  proof (cases "x \<in> set (rows L)")
    case True
    then show ?thesis using b by (auto simp: books_def)
  next
    case False
    then have "x = f (next_id L)" using x by (simp add: rows_t_insert)
    then show ?thesis using e old by simp
  qed
  have D: "distinct (map w_userId (rows (post_wallets i nb W)))"
    unfolding users using b by (simp add: books_def)
  show ?thesis
    unfolding books_def next_post_wallets using W L D bal ent by blast
qed

lemma total_post:
  assumes "wf_table w_id W" "t_get w_id i W = Some w"
  shows "total (post_wallets i nb W) = total W - w_balance w + nb"
proof -
  have w: "w_id w = i" "w \<in> set (rows W)" using assms(2) by (auto dest: t_get_key t_get_in)
  have "map w_balance (rows (post_wallets i nb W)) =
        map (\<lambda>y. if w_id y = w_id w then nb else w_balance y) (rows W)"
    using w by (simp add: rows_post_wallets)
  then show ?thesis
    unfolding total_def using sum_list_map_if_update [OF wf_distinct [OF assms(1)] w(2)] by metis
qed

section \<open>Credit and debit\<close>

lemma wp_assertPositive [wp_eqs]:
  "wp (assertPositive a) Q E s =
     (if a \<le> 0 then E (http_exn VALIDATION_ERROR 400 ''Amount must be positive'') s else Q () s)"
  by (simp add: assertPositive_def wp_eqs)

lemma wp_lockWallet [wp_eqs]:
  "wp (lockWallet i) Q E s =
     (case t_get w_id i (wallets s) of
        None \<Rightarrow> E (http_exn NOT_FOUND 404 ''Wallet not found'') s
      | Some w \<Rightarrow> Q w s)"
  by (simp add: lockWallet_def wp_eqs split: option.splits)

lemma new_entry_sel [simp]:
  "e_id (new_entry now w u kd a r d m i) = i"
  "e_userId (new_entry now w u kd a r d m i) = Some u"
  "e_walletId (new_entry now w u kd a r d m i) = Some w"
  "e_kind (new_entry now w u kd a r d m i) = kd"
  "e_amount (new_entry now w u kd a r d m i) = a"
  "e_reference (new_entry now w u kd a r d m i) = r"
  by (simp_all add: new_entry_def)

lemma wp_wallet_setBalance [wp_eqs]:
  "wp (wallet_setBalance i nb) Q E s =
     (if nb > int8_max \<or> nb < - int8_max - 1 then E (PrismaKnown ''P2020'' JUndefined) s
      else (case t_get w_id i (wallets s) of
              None \<Rightarrow> E (PrismaKnown ''P2025'' JUndefined) s
            | Some w \<Rightarrow> Q (w\<lparr>w_balance := nb\<rparr>) (wallets_update (post_wallets i nb) s)))"
  by (auto simp: wallet_setBalance_def post_wallets_def [abs_def] wp_eqs split: option.splits)

text \<open>The state after one posting: the wallet's new balance, one new entry.\<close>

definition post :: "int \<Rightarrow> int \<Rightarrow> (int \<Rightarrow> ledger_entry) \<Rightarrow> 'x sys_scheme \<Rightarrow> 'x sys_scheme" where
  "post i nb f s = wallets_update (post_wallets i nb) (ledger_entries_update (t_insert f) s)"

lemma wp_credit_tx:
  "wp (credit_tx now input) Q E s =
     (case t_get w_id (li_walletId input) (wallets s) of
        None \<Rightarrow> E (http_exn NOT_FOUND 404 ''Wallet not found'') s
      | Some w \<Rightarrow>
          let nb = w_balance w + li_amount input;
              f = new_entry now (li_walletId input) (w_userId w) CREDIT (li_amount input)
                    (li_reference input) (li_description input) (meta_json (li_metadata input))
          in if nb > int8_max \<or> nb < - int8_max - 1
             then E (PrismaKnown ''P2020'' JUndefined) (ledger_entries_update (t_insert f) s)
             else Q (f (next_id (ledger_entries s)), nb, w_userId w) (post (li_walletId input) nb f s))"
  by (auto simp: credit_tx_def wp_eqs Let_def entry_create_def post_def t_new_def
           split: option.splits)

lemma wp_debit_tx:
  "wp (debit_tx now input) Q E s =
     (case t_get w_id (li_walletId input) (wallets s) of
        None \<Rightarrow> E (http_exn NOT_FOUND 404 ''Wallet not found'') s
      | Some w \<Rightarrow>
          let nb = w_balance w - li_amount input;
              f = new_entry now (li_walletId input) (w_userId w) DEBIT (li_amount input)
                    (li_reference input) (li_description input) (meta_json (li_metadata input))
          in if nb < 0 then E (http_exn INSUFFICIENT_FUNDS 422 ''Insufficient wallet balance'') s
             else if nb > int8_max
             then E (PrismaKnown ''P2020'' JUndefined) (ledger_entries_update (t_insert f) s)
             else Q (f (next_id (ledger_entries s)), nb, w_userId w) (post (li_walletId input) nb f s))"
  by (auto simp: debit_tx_def wp_eqs Let_def entry_create_def post_def t_new_def int8_max_def
           split: option.splits)

text \<open>What a posting leaves, whatever the notification after it adds.\<close>

definition posted :: "ledger_kind \<Rightarrow> int \<Rightarrow> ledger_input \<Rightarrow> 'x sys_scheme \<Rightarrow> 'x sys_scheme \<Rightarrow> bool" where
  "posted kind nb input s t \<longleftrightarrow>
     (\<exists>f. same_books (post (li_walletId input) nb f s) t \<and>
          (\<forall>k. e_id (f k) = k \<and> e_walletId (f k) = Some (li_walletId input) \<and>
               e_kind (f k) = kind \<and> e_amount (f k) = li_amount input \<and>
               e_reference (f k) = li_reference input))"

lemma postedI:
  "same_books (post (li_walletId input) nb
     (new_entry now (li_walletId input) u kind (li_amount input) (li_reference input) d m) s) t \<Longrightarrow>
   posted kind nb input s t"
  unfolding posted_def
  by (intro exI [of _ "new_entry now (li_walletId input) u kind (li_amount input) (li_reference input) d m"])
     simp

lemma wp_credit:
  "wp (credit env input)
      (\<lambda>e t. \<exists>w. 0 < li_amount input \<and> t_get w_id (li_walletId input) (wallets s) = Some w \<and>
             w_balance w + li_amount input \<le> int8_max \<and>
             posted CREDIT (w_balance w + li_amount input) input s t)
      (\<lambda>e t. t = s) s"
  unfolding credit_def
  by (auto simp: wp_eqs wp_credit_tx Let_def split: option.splits if_splits
           intro!: wp_dispatch intro: postedI same_books_refl)

lemma wp_debit:
  "wp (debit env input)
      (\<lambda>e t. \<exists>w. 0 < li_amount input \<and> t_get w_id (li_walletId input) (wallets s) = Some w \<and>
             0 \<le> w_balance w - li_amount input \<and>
             posted DEBIT (w_balance w - li_amount input) input s t)
      (\<lambda>e t. t = s) s"
  unfolding debit_def
  by (auto simp: wp_eqs wp_debit_tx Let_def split: option.splits if_splits
           intro!: wp_dispatch intro: postedI same_books_refl)

lemma posted_tables:
  assumes "posted kind nb input s t"
  obtains f where "wallets t = post_wallets (li_walletId input) nb (wallets s)"
    "ledger_entries t = t_insert f (ledger_entries s)"
    "\<And>k. e_id (f k) = k" "\<And>k. e_walletId (f k) = Some (li_walletId input)"
    "\<And>k. e_kind (f k) = kind" "\<And>k. e_amount (f k) = li_amount input"
    "\<And>k. e_reference (f k) = li_reference input"
proof -
  from assms obtain f where b: "same_books (post (li_walletId input) nb f s) t"
    and f: "\<And>k. e_id (f k) = k \<and> e_walletId (f k) = Some (li_walletId input) \<and>
               e_kind (f k) = kind \<and> e_amount (f k) = li_amount input \<and>
               e_reference (f k) = li_reference input"
    by (auto simp: posted_def)
  show thesis
    by (rule that [of f]) (use f same_books_fields(2,3) [OF b] in \<open>auto simp: post_def\<close>)
qed

lemma posted_ok:
  assumes "posted kind nb input s t" "books_ok s" "0 < li_amount input" "0 \<le> nb"
    and "t_get w_id (li_walletId input) (wallets s) = Some w"
    and "nb = w_balance w + (case kind of CREDIT \<Rightarrow> li_amount input | DEBIT \<Rightarrow> - li_amount input)"
  shows "books_ok t"
proof -
  from posted_tables [OF assms(1)] obtain f
    where W: "wallets t = post_wallets (li_walletId input) nb (wallets s)"
      and L: "ledger_entries t = t_insert f (ledger_entries s)"
      and f: "\<And>k. e_id (f k) = k" "\<And>k. e_walletId (f k) = Some (li_walletId input)"
        "\<And>k. e_kind (f k) = kind" "\<And>k. e_amount (f k) = li_amount input" by metis
  have "books (post_wallets (li_walletId input) nb (wallets s)) (t_insert f (ledger_entries s))"
    by (rule books_post [OF assms(2) [unfolded books_ok_def] assms(5)])
       (use f assms(3,4,6) in \<open>auto simp: signed_amount_def split: ledger_kind.splits\<close>)
  then show ?thesis by (simp add: books_ok_def W L)
qed

lemma posted_balance:
  assumes "posted kind nb input s t" "t_get w_id (li_walletId input) (wallets s) = Some w"
  shows "balance_of t = (balance_of s)(li_walletId input \<mapsto> nb)"
proof -
  from posted_tables [OF assms(1)]
  have "wallets t = post_wallets (li_walletId input) nb (wallets s)" by metis
  then show ?thesis using assms(2) by (auto simp: balance_of_def get_post_wallets fun_eq_iff)
qed

lemma posted_total:
  assumes "posted kind nb input s t" "t_get w_id (li_walletId input) (wallets s) = Some w" "books_ok s"
  shows "total (wallets t) = total (wallets s) - w_balance w + nb"
proof -
  from posted_tables [OF assms(1)]
  have "wallets t = post_wallets (li_walletId input) nb (wallets s)" by metis
  then show ?thesis using total_post [OF _ assms(2)] assms(3) by (simp add: books_ok_def books_def)
qed

lemma books_ok_nonneg: "books_ok s \<Longrightarrow> t_get w_id i (wallets s) = Some w \<Longrightarrow> 0 \<le> w_balance w"
  by (auto simp: books_ok_def books_def dest: t_get_in)

lemma credit_ok:
  assumes ok: "books_ok s"
  shows "wp (credit env input)
      (\<lambda>e t. books_ok t \<and> (\<exists>b. balance_of s (li_walletId input) = Some b \<and>
             balance_of t = (balance_of s)(li_walletId input \<mapsto> b + li_amount input)) \<and>
             total (wallets t) = total (wallets s) + li_amount input)
      (\<lambda>e t. t = s) s"
proof (rule wp_mono [OF wp_credit])
  fix e t
  assume "\<exists>w. 0 < li_amount input \<and> t_get w_id (li_walletId input) (wallets s) = Some w \<and>
      w_balance w + li_amount input \<le> int8_max \<and>
      posted CREDIT (w_balance w + li_amount input) input s t"
  then obtain w where w: "0 < li_amount input" "t_get w_id (li_walletId input) (wallets s) = Some w"
    "posted CREDIT (w_balance w + li_amount input) input s t" by blast
  have "balance_of s (li_walletId input) = Some (w_balance w)" using w(2) by (simp add: balance_of_def)
  moreover have "books_ok t"
    by (rule posted_ok [OF w(3) ok w(1) _ w(2)]) (use w(1) books_ok_nonneg [OF ok w(2)] in simp_all)
  moreover note posted_balance [OF w(3,2)] posted_total [OF w(3,2) ok]
  ultimately show "books_ok t \<and> (\<exists>b. balance_of s (li_walletId input) = Some b \<and>
             balance_of t = (balance_of s)(li_walletId input \<mapsto> b + li_amount input)) \<and>
             total (wallets t) = total (wallets s) + li_amount input"
    by simp
qed

lemma debit_ok:
  assumes ok: "books_ok s"
  shows "wp (debit env input)
      (\<lambda>e t. books_ok t \<and> (\<exists>b. balance_of s (li_walletId input) = Some b \<and> li_amount input \<le> b \<and>
             balance_of t = (balance_of s)(li_walletId input \<mapsto> b - li_amount input)) \<and>
             total (wallets t) = total (wallets s) - li_amount input)
      (\<lambda>e t. t = s) s"
proof (rule wp_mono [OF wp_debit])
  fix e t
  assume "\<exists>w. 0 < li_amount input \<and> t_get w_id (li_walletId input) (wallets s) = Some w \<and>
      0 \<le> w_balance w - li_amount input \<and>
      posted DEBIT (w_balance w - li_amount input) input s t"
  then obtain w where w: "0 < li_amount input" "t_get w_id (li_walletId input) (wallets s) = Some w"
    "0 \<le> w_balance w - li_amount input" "posted DEBIT (w_balance w - li_amount input) input s t"
    by blast
  have "balance_of s (li_walletId input) = Some (w_balance w)" using w(2) by (simp add: balance_of_def)
  moreover have "books_ok t"
    by (rule posted_ok [OF w(4) ok w(1,3,2)]) simp
  moreover note posted_balance [OF w(4,2)] posted_total [OF w(4,2) ok]
  ultimately show "books_ok t \<and> (\<exists>b. balance_of s (li_walletId input) = Some b \<and> li_amount input \<le> b \<and>
             balance_of t = (balance_of s)(li_walletId input \<mapsto> b - li_amount input)) \<and>
             total (wallets t) = total (wallets s) - li_amount input"
    using w(3) by simp
qed

section \<open>Transfer\<close>

definition transferred ::
    "transfer_input \<Rightarrow> wallet \<Rightarrow> wallet \<Rightarrow> int \<Rightarrow> 'x sys_scheme \<Rightarrow> 'x sys_scheme" where
  "transferred input wfr wto now s =
     post (ti_toWalletId input) (w_balance wto + ti_amount input)
       (new_entry now (ti_toWalletId input) (w_userId wto) CREDIT (ti_amount input)
          (ti_reference input) (ti_description input) (transferMeta input))
       (post (ti_fromWalletId input) (w_balance wfr - ti_amount input)
         (new_entry now (ti_fromWalletId input) (w_userId wfr) DEBIT (ti_amount input)
            (ti_reference input) (ti_description input) (transferMeta input)) s)"

lemma wp_transfer_tx:
  assumes neq: "ti_fromWalletId input \<noteq> ti_toWalletId input"
    and "\<And>wfr wto r. t_get w_id (ti_fromWalletId input) (wallets s) = Some wfr \<Longrightarrow>
       t_get w_id (ti_toWalletId input) (wallets s) = Some wto \<Longrightarrow>
       ti_amount input \<le> w_balance wfr \<Longrightarrow> Q r (transferred input wfr wto now s)"
    and "\<And>e t. E e t"
  shows "wp (transfer_tx now input) Q E s"
proof (cases "t_get w_id (ti_fromWalletId input) (wallets s)")
  case None
  then show ?thesis using assms(3)
    by (auto simp: transfer_tx_def wp_eqs split: option.splits)
next
  case frm: (Some wfr)
  show ?thesis
  proof (cases "t_get w_id (ti_toWalletId input) (wallets s)")
    case None
    then show ?thesis using assms(3)
      by (auto simp: transfer_tx_def wp_eqs split: option.splits)
  next
    case dst: (Some wto)
    have ids: "w_id wfr = ti_fromWalletId input" "w_id wto = ti_toWalletId input"
      using t_get_key [OF frm] t_get_key [OF dst] by auto
    show ?thesis
    proof (cases "ti_fromWalletId input < ti_toWalletId input")
      case True
      show ?thesis
        using True frm dst ids neq assms(3) assms(2) [OF frm dst]
        by (simp add: transfer_tx_def wp_eqs entry_create_def get_post_wallets transferred_def post_def)
    next
      case False
      show ?thesis
        using False frm dst ids neq assms(3) assms(2) [OF frm dst]
        by (simp add: transfer_tx_def wp_eqs entry_create_def get_post_wallets transferred_def post_def)
    qed
  qed
qed

lemma wp_transfer:
  "wp (transfer env input)
     (\<lambda>r t. \<exists>wfr wto. 0 < ti_amount input \<and> ti_fromWalletId input \<noteq> ti_toWalletId input \<and>
        t_get w_id (ti_fromWalletId input) (wallets s) = Some wfr \<and>
        t_get w_id (ti_toWalletId input) (wallets s) = Some wto \<and>
        ti_amount input \<le> w_balance wfr \<and>
        same_books (transferred input wfr wto (env_now env) s) t)
     (\<lambda>e t. t = s) s"
proof (cases "0 < ti_amount input \<and> ti_fromWalletId input \<noteq> ti_toWalletId input")
  case False
  then show ?thesis by (auto simp: transfer_def wp_eqs)
next
  case True
  let ?Q = "\<lambda>(r :: transfer_result) t. \<exists>wfr wto.
      t_get w_id (ti_fromWalletId input) (wallets s) = Some wfr \<and>
      t_get w_id (ti_toWalletId input) (wallets s) = Some wto \<and>
      ti_amount input \<le> w_balance wfr \<and> t = transferred input wfr wto (env_now env) s"
  have tx: "wp (transaction (transfer_tx (env_now env) input)) ?Q (\<lambda>e t. t = s) s"
    using True by (auto simp: wp_eqs intro!: wp_transfer_tx)
  show ?thesis unfolding transfer_def
    using True
    by (auto simp: wp_eqs simp del: wp_transaction
             intro!: wp_mono [OF tx] wp_dispatch)
       (erule (1) same_books_trans)
qed

lemma transferred_ok:
  assumes ok: "books_ok s" and neq: "ti_fromWalletId input \<noteq> ti_toWalletId input"
    and "0 < ti_amount input" "ti_amount input \<le> w_balance wfr"
    and g: "t_get w_id (ti_fromWalletId input) (wallets s) = Some wfr"
      "t_get w_id (ti_toWalletId input) (wallets s) = Some wto"
  shows "books_ok (transferred input wfr wto now s)"
proof -
  let ?W = "post_wallets (ti_fromWalletId input) (w_balance wfr - ti_amount input) (wallets s)"
  have g': "t_get w_id (ti_toWalletId input) ?W = Some wto"
    using g neq by (simp add: get_post_wallets)
  have "books ?W (t_insert (new_entry now (ti_fromWalletId input) (w_userId wfr) DEBIT (ti_amount input)
            (ti_reference input) (ti_description input) (transferMeta input)) (ledger_entries s))"
    by (rule books_post [OF ok [unfolded books_ok_def] g(1)])
       (use assms in \<open>simp_all add: signed_amount_def\<close>)
  from books_post [OF this g', of "new_entry now (ti_toWalletId input) (w_userId wto) CREDIT
      (ti_amount input) (ti_reference input) (ti_description input) (transferMeta input)"]
  show ?thesis
    using assms(3) books_ok_nonneg [OF ok g(2)]
    by (simp add: transferred_def post_def books_ok_def signed_amount_def)
qed

lemma transferred_balance:
  assumes neq: "ti_fromWalletId input \<noteq> ti_toWalletId input"
    and g: "t_get w_id (ti_fromWalletId input) (wallets s) = Some wfr"
      "t_get w_id (ti_toWalletId input) (wallets s) = Some wto"
  shows "balance_of (transferred input wfr wto now s) =
    (balance_of s)(ti_fromWalletId input \<mapsto> w_balance wfr - ti_amount input,
                   ti_toWalletId input \<mapsto> w_balance wto + ti_amount input)"
  using assms by (auto simp: balance_of_def transferred_def post_def get_post_wallets fun_eq_iff)

lemma transferred_total:
  assumes ok: "books_ok s" and neq: "ti_fromWalletId input \<noteq> ti_toWalletId input"
    and g: "t_get w_id (ti_fromWalletId input) (wallets s) = Some wfr"
      "t_get w_id (ti_toWalletId input) (wallets s) = Some wto"
  shows "total (wallets (transferred input wfr wto now s)) = total (wallets s)"
proof -
  let ?W = "post_wallets (ti_fromWalletId input) (w_balance wfr - ti_amount input) (wallets s)"
  have W: "wf_table w_id (wallets s)" using ok by (simp add: books_ok_def books_def)
  have g': "t_get w_id (ti_toWalletId input) ?W = Some wto"
    using g neq by (simp add: get_post_wallets)
  have "wf_table w_id ?W" unfolding post_wallets_def by (rule wf_t_change [OF W]) simp
  from total_post [OF this g'] total_post [OF W g(1)] show ?thesis
    by (simp add: transferred_def post_def)
qed

lemma same_books_ok: "same_books s t \<Longrightarrow> books_ok t = books_ok s"
  by (simp add: books_ok_def same_books_fields)

lemma same_books_balance: "same_books s t \<Longrightarrow> balance_of t = balance_of s"
  by (simp add: balance_of_def fun_eq_iff same_books_fields)

section \<open>Wallet creation\<close>

definition db_ok :: "'x sys_scheme \<Rightarrow> bool" where
  "db_ok s \<longleftrightarrow> books_ok s \<and> wf_table u_id (users s)"

lemma wp_findOrCreateForUser:
  "wp (findOrCreateForUser uid) Q E s =
     (case wallet_findUnique uid s of
        Some w \<Rightarrow> Q w s
      | None \<Rightarrow>
          if find_user uid s = None then E (PrismaKnown ''P2003'' JUndefined) s
          else Q \<lparr>w_id = next_id (wallets s), w_userId = uid, w_balance = 0\<rparr>
                 (wallets_update (t_insert (\<lambda>i. \<lparr>w_id = i, w_userId = uid, w_balance = 0\<rparr>)) s))"
  by (auto simp: findOrCreateForUser_def wp_eqs t_new_def split: option.splits)

lemma wp_findByUserId [wp_eqs]:
  "wp (findByUserId uid) Q E s =
     (case wallet_findUnique uid s of
        None \<Rightarrow> E (http_exn NOT_FOUND 404 ''Wallet not found'') s
      | Some w \<Rightarrow> Q w s)"
  by (auto simp: findByUserId_def wp_eqs split: option.splits)

lemma books_new_wallet:
  assumes b: "books W L" and u: "uid \<notin> w_userId ` set (rows W)"
  shows "books (t_insert (\<lambda>i. \<lparr>w_id = i, w_userId = uid, w_balance = 0\<rparr>) W) L"
proof -
  have "computedBalance (next_id W) L = 0"
  proof -
    have "\<not> (e_walletId e = Some (next_id W))" if "e \<in> set (rows L)" for e
      using b that by (auto simp: books_def)
    then have "filter (\<lambda>e. e_walletId e = Some (next_id W)) (rows L) = []"
      by (simp add: filter_empty_conv)
    then show ?thesis by (simp add: computedBalance_def t_sum_def t_filter_def)
  qed
  moreover have "wf_table w_id (t_insert (\<lambda>i. \<lparr>w_id = i, w_userId = uid, w_balance = 0\<rparr>) W)"
    using b by (simp add: books_def)
  moreover have "next_id W < next_id (t_insert (\<lambda>i. \<lparr>w_id = i, w_userId = uid, w_balance = 0\<rparr>) W)"
    by (simp add: table_simps)
  ultimately show ?thesis
    using b u by (auto simp: books_def table_simps)
qed

lemma findOrCreate_ok:
  assumes "books_ok s"
  shows "wp (findOrCreateForUser uid)
    (\<lambda>w t. books_ok t \<and> w_userId w = uid \<and> t_get w_id (w_id w) (wallets t) = Some w \<and>
           total (wallets t) = total (wallets s) \<and>
           (\<forall>i b. balance_of s i = Some b \<longrightarrow> balance_of t i = Some b) \<and>
           t = s\<lparr>wallets := wallets t\<rparr> \<and> wallet_findUnique uid t = Some w)
    (\<lambda>e t. t = s) s"
proof (cases "wallet_findUnique uid s")
  case None
  let ?f = "\<lambda>i. \<lparr>w_id = i, w_userId = uid, w_balance = 0\<rparr>"
  have u: "uid \<notin> w_userId ` set (rows (wallets s))"
    using None by (auto simp: wallet_findUnique_def t_find_None)
  have W: "wf_table w_id (wallets s)" using assms by (simp add: books_ok_def books_def)
  have get: "t_get w_id j (t_insert ?f (wallets s)) =
      (if j = next_id (wallets s) then Some (?f j) else t_get w_id j (wallets s))" for j
    by (rule t_get_insert [OF W]) simp
  have "t_get w_id (next_id (wallets s)) (wallets s) = None"
    using t_find_fresh [OF W] by (simp add: t_get_def)
  then show ?thesis
    using None u assms get
    by (auto simp: wp_findOrCreateForUser books_ok_def balance_of_def total_def table_simps
          wallet_findUnique_def t_find_def find_append t_insert_def split: option.splits
          intro!: books_new_wallet [unfolded t_insert_def])
next
  case (Some w)
  then show ?thesis
    using assms t_find_Some [of _ "wallets s" w]
    by (auto simp: wp_findOrCreateForUser wallet_findUnique_def books_ok_def books_def
          intro!: t_get_self)
qed

section \<open>The contract of the ledger\<close>

text \<open>Postings run one after the other, a throw ending the batch.\<close>

definition post_all :: "('i \<Rightarrow> ('s, 'e) M) \<Rightarrow> ('i \<Rightarrow> ('s, 'e) M) \<Rightarrow> (ledger_kind \<times> 'i) list \<Rightarrow> ('s, unit) M" where
  "post_all cr db ps =
     forEach ps (\<lambda>(k, i). seq (case k of CREDIT \<Rightarrow> cr i | DEBIT \<Rightarrow> db i) (return ()))"

definition net :: "('i \<Rightarrow> int) \<Rightarrow> (ledger_kind \<times> 'i) list \<Rightarrow> int" where
  "net amount ps = sum_list (map (\<lambda>(k, i). case k of CREDIT \<Rightarrow> amount i | DEBIT \<Rightarrow> - amount i) ps)"

locale ledger_api =
  fixes ok :: "'s \<Rightarrow> bool"
    and bal :: "'s \<Rightarrow> int \<Rightarrow> int option"
    and tot :: "'s \<Rightarrow> int"
    and cr :: "'i \<Rightarrow> ('s, 'e) M"
    and db :: "'i \<Rightarrow> ('s, 'e) M"
    and target :: "'i \<Rightarrow> int"
    and amount :: "'i \<Rightarrow> int"
  assumes cr_law: "ok s \<Longrightarrow> wp (cr i)
        (\<lambda>e t. ok t \<and> (\<exists>b. bal s (target i) = Some b \<and> bal t = (bal s)(target i \<mapsto> b + amount i)) \<and>
               tot t = tot s + amount i)
        (\<lambda>e t. t = s) s"
    and db_law: "ok s \<Longrightarrow> wp (db i)
        (\<lambda>e t. ok t \<and> (\<exists>b. bal s (target i) = Some b \<and> amount i \<le> b \<and>
                 bal t = (bal s)(target i \<mapsto> b - amount i)) \<and>
               tot t = tot s - amount i)
        (\<lambda>e t. t = s) s"
begin

lemma cr_keeps: "keeps ok (cr i)"
  by (rule keeps_wpI, rule wp_mono [OF cr_law]) auto

lemma db_keeps: "keeps ok (db i)"
  by (rule keeps_wpI, rule wp_mono [OF db_law]) auto

lemma batch_keeps: "keeps ok (post_all cr db ps)"
  unfolding post_all_def
  by (rule keeps_forEach)
     (auto intro!: keeps_intros cr_keeps db_keeps split: ledger_kind.splits)

lemma batch_total:
  "ok s \<Longrightarrow> wp (post_all cr db ps) (\<lambda>_ t. ok t \<and> tot t = tot s + net amount ps) (\<lambda>_ t. ok t) s"
proof (induction ps arbitrary: s)
  case Nil
  then show ?case by (simp add: post_all_def net_def wp_eqs)
next
  case (Cons p ps)
  obtain k i where p: "p = (k, i)" by (cases p)
  have first: "wp (case k of CREDIT \<Rightarrow> cr i | DEBIT \<Rightarrow> db i)
      (\<lambda>_ t. ok t \<and> tot t = tot s + net amount [p]) (\<lambda>_ t. ok t) s"
    using Cons.prems p
    by (cases k) (auto simp: net_def intro!: wp_mono [OF cr_law] wp_mono [OF db_law])
  have rest: "wp (post_all cr db ps) (\<lambda>_ u. ok u \<and> tot u = tot s + net amount (p # ps)) (\<lambda>_ t. ok t) t"
    if "ok t" "tot t = tot s + net amount [p]" for t
    by (rule wp_mono [OF Cons.IH [OF that(1)]]) (use that(2) in \<open>auto simp: net_def\<close>)
  show ?case
    using first rest by (auto simp: post_all_def p wp_eqs intro: wp_mono)
qed

lemma reversal:
  assumes "ok s" "target j = target i" "amount j = amount i"
  shows "wp (seq (cr i) (db j)) (\<lambda>_ t. ok t \<and> bal t = bal s \<and> tot t = tot s) (\<lambda>_ t. ok t) s"
  unfolding wp_seq
proof (rule wp_mono [OF cr_law [OF assms(1)]])
  fix e t
  assume t: "ok t \<and> (\<exists>b. bal s (target i) = Some b \<and> bal t = (bal s)(target i \<mapsto> b + amount i)) \<and>
     tot t = tot s + amount i"
  then have "ok t" by simp
  show "wp (db j) (\<lambda>_ t. ok t \<and> bal t = bal s \<and> tot t = tot s) (\<lambda>_ t. ok t) t"
    by (rule wp_mono [OF db_law [OF \<open>ok t\<close>]])
       (use t assms(2,3) in \<open>auto simp: fun_upd_idem\<close>)
qed (use assms(1) in simp)

end

interpretation lg: ledger_api books_ok balance_of "\<lambda>s. total (wallets s)" "credit env" "debit env"
    li_walletId li_amount for env
  by unfold_locales (rule credit_ok debit_ok; assumption)+

section \<open>Sequences of ledger operations\<close>

datatype ledger_op =
    OpCredit ledger_input
  | OpDebit ledger_input
  | OpTransfer transfer_input
  | OpWallet int

definition run_op :: "env \<Rightarrow> ledger_op \<Rightarrow> ('x sys_scheme, unit) M" where
  "run_op env op = (case op of
       OpCredit i \<Rightarrow> seq (credit env i) (return ())
     | OpDebit i \<Rightarrow> seq (debit env i) (return ())
     | OpTransfer i \<Rightarrow> seq (transfer env i) (return ())
     | OpWallet uid \<Rightarrow> seq (findOrCreateForUser uid) (return ()))"

text \<open>Requests served one after the other, whether each returns or throws.\<close>

fun serve :: "env \<Rightarrow> ledger_op list \<Rightarrow> 'x sys_scheme \<Rightarrow> 'x sys_scheme" where
  "serve env [] s = s"
| "serve env (op # ops) s = serve env ops (snd (run_op env op s))"

lemma keeps_transfer: "keeps books_ok (transfer env input)"
  by (rule keeps_wpI, rule wp_mono [OF wp_transfer])
     (auto simp: same_books_ok intro!: transferred_ok)

lemma keeps_findOrCreate: "keeps books_ok (findOrCreateForUser uid)"
  by (rule keeps_wpI, rule wp_mono [OF findOrCreate_ok]) auto

lemma keeps_run_op: "keeps books_ok (run_op env op)"
  unfolding run_op_def
  by (cases op) (simp_all add: keeps_seq keeps_return lg.cr_keeps lg.db_keeps keeps_transfer keeps_findOrCreate)

lemma books_empty: "books_ok empty_sys"
  by (simp add: books_ok_def books_def empty_sys_def) (simp add: empty_table_def)

section \<open>Verification and reports\<close>

lemma verifyBalance_run:
  "verifyBalance i s =
     (case t_get w_id i (wallets s) of
        None \<Rightarrow> (Inl (http_exn NOT_FOUND 404 ''Wallet not found''), s)
      | Some w \<Rightarrow>
          if computedBalance i (ledger_entries s) = w_balance w then (Inr (), s)
          else (Inl (http_exn BALANCE_MISMATCH 500
                  (''Balance mismatch: stored='' @ int_to_string (w_balance w)
                   @ '', computed='' @ int_to_string (computedBalance i (ledger_entries s)))), s))"
  by (auto simp: verifyBalance_def getBalance_def run_simps split: option.splits)

lemma reconcile_row_ok:
  "books W L \<Longrightarrow> w \<in> set (rows W) \<Longrightarrow> rr_status (reconcile_row L w) = OK \<and> rr_drift (reconcile_row L w) = 0"
  by (auto simp: books_def reconcile_row_def Let_def)

lemma sum_drift: "sum_list (map (\<lambda>w. rr_drift (reconcile_row L w)) ws) =
    sum_list (map (\<lambda>w. rr_storedBalance (reconcile_row L w)) ws)
    - sum_list (map (\<lambda>w. rr_computedBalance (reconcile_row L w)) ws)"
  by (induction ws) (auto simp: reconcile_row_def Let_def)

interpretation entry_pages: paged_source
  "\<lambda>s. wf_table e_id (ledger_entries s)" e_id
  "\<lambda>s. t_filter (\<lambda>e. e_walletId e = Some i) (ledger_entries s)" for i
  by unfold_locales (rule table_pages.ascending)

section \<open>Evaluation on the sample state\<close>

lemmas ledger_run = transfer_def transfer_tx_def credit_def debit_def credit_tx_def debit_tx_def
  assertPositive_def lockWallet_def entry_create_def wallet_setBalance_def int8_max_def
  new_entry_def findOrCreateForUser_def wallet_findUnique_def

lemma books_sample: "books_ok sample_sys"
  by (auto simp: sample_defs books_ok_def books_def wf_table_def computedBalance_def t_sum_def
      t_filter_def signed_amount_def)

definition sample_transfer :: "int \<Rightarrow> transfer_input" where
  "sample_transfer a = \<lparr>ti_fromWalletId = 1, ti_toWalletId = 2, ti_amount = a, ti_reference = None,
     ti_description = None, ti_metadata = []\<rparr>"

section \<open>Properties\<close>

text \<open>The books stay balanced: whatever credits, debits, transfers and wallet
  creations are served, in whatever order and whether they return or throw, every wallet's
  stored balance stays non-negative and equal to the signed sum of its ledger entries.\<close>

theorem serve_keeps_books: "books_ok s \<Longrightarrow> books_ok (serve env ops s)"
  by (induction ops arbitrary: s) (auto dest: keepsD [OF keeps_run_op])

lemma serve_keeps_books_witness:
  "books_ok (serve sample_env [OpTransfer (sample_transfer 25), OpTransfer (sample_transfer 36)] sample_sys) \<and>
   balance_of (serve sample_env [OpTransfer (sample_transfer 25), OpTransfer (sample_transfer 36)] sample_sys) 1
     = Some 35"
proof
  show "books_ok (serve sample_env [OpTransfer (sample_transfer 25), OpTransfer (sample_transfer 36)] sample_sys)"
    by (rule serve_keeps_books [OF books_sample])
  show "balance_of (serve sample_env [OpTransfer (sample_transfer 25), OpTransfer (sample_transfer 36)] sample_sys) 1
      = Some 35"
    by (simp add: run_op_def ledger_run run_simps sample_defs table_run dispatch_run balance_of_def
        sample_transfer_def)
qed

text \<open>A transfer either changes nothing at all or moves exactly the amount: the source
  held at least the amount, it loses it, the target gains it, no other balance changes, and
  the money in all wallets together is what it was.\<close>

theorem transfer_moves_exactly:
  assumes "books_ok s"
  shows "case transfer env input s of
      (Inl e, t) \<Rightarrow> t = s
    | (Inr (d, c), t) \<Rightarrow>
        (\<exists>bf bt. balance_of s (ti_fromWalletId input) = Some bf \<and>
                 balance_of s (ti_toWalletId input) = Some bt \<and>
                 0 < ti_amount input \<and> ti_amount input \<le> bf \<and>
                 balance_of t = (balance_of s)(ti_fromWalletId input \<mapsto> bf - ti_amount input,
                                               ti_toWalletId input \<mapsto> bt + ti_amount input)) \<and>
        total (wallets t) = total (wallets s) \<and> books_ok t"
proof -
  have "wp (transfer env input)
      (\<lambda>r t. (\<exists>bf bt. balance_of s (ti_fromWalletId input) = Some bf \<and>
                 balance_of s (ti_toWalletId input) = Some bt \<and>
                 0 < ti_amount input \<and> ti_amount input \<le> bf \<and>
                 balance_of t = (balance_of s)(ti_fromWalletId input \<mapsto> bf - ti_amount input,
                                               ti_toWalletId input \<mapsto> bt + ti_amount input)) \<and>
        total (wallets t) = total (wallets s) \<and> books_ok t)
      (\<lambda>e t. t = s) s"
    by (rule wp_mono [OF wp_transfer])
       (use assms in \<open>auto simp: same_books_ok same_books_balance same_books_fields transferred_total
          transferred_ok transferred_balance, auto simp: balance_of_def\<close>)
  then show ?thesis by (auto simp: wp_def split: prod.splits sum.splits)
qed

lemma transfer_moves_exactly_witness:
  "\<exists>d c t. transfer sample_env (sample_transfer 25) sample_sys = (Inr (d, c), t) \<and>
     balance_of t = (balance_of sample_sys)(1 \<mapsto> 35, 2 \<mapsto> 25) \<and> total (wallets t) = 60"
proof -
  have "\<exists>d c t. transfer sample_env (sample_transfer 25) sample_sys = (Inr (d, c), t)"
    by (simp add: ledger_run run_simps sample_defs table_run dispatch_run sample_transfer_def)
  then obtain d c t where r: "transfer sample_env (sample_transfer 25) sample_sys = (Inr (d, c), t)" by blast
  have "balance_of sample_sys 1 = Some 60" "balance_of sample_sys 2 = Some 0"
    "total (wallets sample_sys) = 60"
    by (simp_all add: sample_defs balance_of_def table_run total_def)
  then show ?thesis
    using transfer_moves_exactly [OF books_sample, where env = sample_env and input = "sample_transfer 25"] r
    by (simp add: sample_transfer_def)
qed

text \<open>What debit answers, on every branch: the amount is checked first, then the wallet,
  then the balance (with the status 422 the clients test for), then the 64-bit column; only
  then the entry with the next id is returned.\<close>

theorem debit_outcome:
  "fst (debit env input s) =
     (if li_amount input \<le> 0 then Inl (http_exn VALIDATION_ERROR 400 ''Amount must be positive'')
      else case t_get w_id (li_walletId input) (wallets s) of
             None \<Rightarrow> Inl (http_exn NOT_FOUND 404 ''Wallet not found'')
           | Some w \<Rightarrow>
               if w_balance w < li_amount input then
                 Inl (http_exn INSUFFICIENT_FUNDS 422 ''Insufficient wallet balance'')
               else if w_balance w - li_amount input > int8_max then
                 Inl (PrismaKnown ''P2020'' JUndefined)
               else Inr (new_entry (env_now env) (li_walletId input) (w_userId w) DEBIT (li_amount input)
                      (li_reference input) (li_description input) (meta_json (li_metadata input))
                      (next_id (ledger_entries s))))"
proof -
  have "wp (debit env input)
     (\<lambda>x _. Inr x =
       (if li_amount input \<le> 0 then Inl (http_exn VALIDATION_ERROR 400 ''Amount must be positive'')
      else case t_get w_id (li_walletId input) (wallets s) of
             None \<Rightarrow> Inl (http_exn NOT_FOUND 404 ''Wallet not found'')
           | Some w \<Rightarrow>
               if w_balance w < li_amount input then
                 Inl (http_exn INSUFFICIENT_FUNDS 422 ''Insufficient wallet balance'')
               else if w_balance w - li_amount input > int8_max then
                 Inl (PrismaKnown ''P2020'' JUndefined)
               else Inr (new_entry (env_now env) (li_walletId input) (w_userId w) DEBIT (li_amount input)
                      (li_reference input) (li_description input) (meta_json (li_metadata input))
                      (next_id (ledger_entries s)))))
     (\<lambda>e _. Inl e =
       (if li_amount input \<le> 0 then Inl (http_exn VALIDATION_ERROR 400 ''Amount must be positive'')
      else case t_get w_id (li_walletId input) (wallets s) of
             None \<Rightarrow> Inl (http_exn NOT_FOUND 404 ''Wallet not found'')
           | Some w \<Rightarrow>
               if w_balance w < li_amount input then
                 Inl (http_exn INSUFFICIENT_FUNDS 422 ''Insufficient wallet balance'')
               else if w_balance w - li_amount input > int8_max then
                 Inl (PrismaKnown ''P2020'' JUndefined)
               else (Inr (new_entry (env_now env) (li_walletId input) (w_userId w) DEBIT (li_amount input)
                      (li_reference input) (li_description input) (meta_json (li_metadata input))
                      (next_id (ledger_entries s))) :: exn + ledger_entry))) s"
    by (auto simp: debit_def wp_eqs wp_debit_tx Let_def split: option.splits intro!: wp_dispatch)
  then show ?thesis unfolding wp_def by (simp split: prod.splits sum.splits)
qed

text \<open>verifyBalance returns normally exactly for a wallet whose stored balance is the
  signed sum of its entries, and never writes; while the books are balanced it accepts
  every wallet.\<close>

theorem verifyBalance_exact:
  "(fst (verifyBalance i s) = Inr ()) =
     (\<exists>w. t_get w_id i (wallets s) = Some w \<and> w_balance w = computedBalance i (ledger_entries s)) \<and>
   snd (verifyBalance i s) = s \<and>
   (\<not> books_ok s \<or> balance_of s i = None \<or> verifyBalance i s = (Inr (), s))"
proof -
  have "verifyBalance i s = (Inr (), s)" if "books_ok s" "balance_of s i = Some b" for b
  proof -
    from that(2) obtain w where w: "t_get w_id i (wallets s) = Some w" by (auto simp: balance_of_def)
    then have "w_balance w = computedBalance i (ledger_entries s)"
      using that(1) t_get_key [OF w] t_get_in [OF w] by (auto simp: books_ok_def books_def)
    then show ?thesis using w by (simp add: verifyBalance_run)
  qed
  then have "balance_of s i = None \<or> verifyBalance i s = (Inr (), s)" if "books_ok s"
    using that by (cases "balance_of s i") simp_all
  then show ?thesis by (auto simp: verifyBalance_run split: option.splits if_splits)
qed

lemma verifyBalance_exact_witness: "verifyBalance 1 sample_sys = (Inr (), sample_sys)"
proof -
  have "balance_of sample_sys 1 = Some 60" by (simp add: sample_defs balance_of_def table_run)
  then show ?thesis using verifyBalance_exact [of 1 sample_sys] books_sample by simp
qed

text \<open>The reconciliation report: each row carries the stored and the computed balance
  and their difference, the drift count is the number of wallets where they differ, the
  report is cut at the cap, and while the books are balanced it shows no drift.\<close>

theorem reconciliationReport_correct:
  "\<exists>r. reconciliationReport lim s = (Inr r, s) \<and>
     rp_items r = map (reconcile_row (ledger_entries s))
       (take (min (case lim of Some l \<Rightarrow> l | None \<Rightarrow> 10000) 10000) (rows (wallets s))) \<and>
     rp_walletsWithDrift r = length (filter (\<lambda>x. rr_storedBalance x \<noteq> rr_computedBalance x) (rp_items r)) \<and>
     sum_list (map rr_drift (rp_items r)) = rp_totalStoredBalance r - rp_totalComputedBalance r \<and>
     (rp_cappedAt r = None \<longrightarrow> rp_totalStoredBalance r = total (wallets s)) \<and>
     (books_ok s \<longrightarrow> rp_walletsWithDrift r = 0)"
proof -
  let ?l = "min (case lim of Some l \<Rightarrow> l | None \<Rightarrow> 10000) 10000"
  let ?its = "map (reconcile_row (ledger_entries s)) (take ?l (rows (wallets s)))"
  have status: "rr_status (reconcile_row L w) = DRIFT \<longleftrightarrow>
      rr_storedBalance (reconcile_row L w) \<noteq> rr_computedBalance (reconcile_row L w)" for L w
    by (simp add: reconcile_row_def Let_def)
  have stored: "rr_storedBalance (reconcile_row L w) = w_balance w" for L w
    by (simp add: reconcile_row_def Let_def)
  obtain r where r: "reconciliationReport lim s = (Inr r, s)" "rp_items r = ?its"
    "rp_walletsWithDrift r = length (filter (\<lambda>x. rr_status x = DRIFT) ?its)"
    "rp_totalStoredBalance r = sum_list (map rr_storedBalance ?its)"
    "rp_totalComputedBalance r = sum_list (map rr_computedBalance ?its)"
    "rp_cappedAt r = (if length (rows (wallets s)) > ?l then Some ?l else None)"
    by (auto simp: reconciliationReport_def gets_def Let_def min_def split: if_splits)
  have drift: "rp_walletsWithDrift r = 0" if "books_ok s"
  proof -
    have "rr_status x = OK" if "x \<in> set ?its" for x
      using that \<open>books_ok s\<close> reconcile_row_ok [of "wallets s" "ledger_entries s"]
      by (auto simp: books_ok_def dest: in_set_takeD)
    then show ?thesis unfolding r(3) by (simp add: filter_empty_conv del: set_map)
  qed
  have uncapped: "rp_totalStoredBalance r = total (wallets s)" if "rp_cappedAt r = None"
  proof -
    have "take ?l (rows (wallets s)) = rows (wallets s)"
      using that r(6) by (intro take_all) (simp split: if_splits, linarith)
    then show ?thesis unfolding r(4) by (simp add: total_def stored comp_def)
  qed
  have count: "rp_walletsWithDrift r = length (filter (\<lambda>x. rr_storedBalance x \<noteq> rr_computedBalance x) ?its)"
    unfolding r(3) by (simp add: filter_map comp_def status)
  have sums: "sum_list (map rr_drift ?its) = rp_totalStoredBalance r - rp_totalComputedBalance r"
    unfolding r(4,5) map_map comp_def by (rule sum_drift)
  show ?thesis
    using r(1,2) count sums uncapped drift by (intro exI [of _ r]) simp
qed

lemma reconciliationReport_correct_witness:
  "\<exists>r. reconciliationReport None sample_sys = (Inr r, sample_sys) \<and> rp_walletsWithDrift r = 0"
  using reconciliationReport_correct [of None sample_sys] books_sample by blast

text \<open>Following nextCursor through findEntriesForWallet yields every ledger entry of the
  wallet exactly once, newest first, in finitely many requests, whatever the page size.\<close>

theorem entries_walk_complete:
  assumes "wf_table e_id (ledger_entries s)" "0 < limit"
  shows "walk (t_count (\<lambda>e. e_walletId e = Some i) (ledger_entries s) + 1)
      (\<lambda>c. case fst (findEntriesForWallet i c limit s) of Inr p \<Rightarrow> p) None =
    Some (rev (filter (\<lambda>e. e_walletId e = Some i) (rows (ledger_entries s))))"
  using entry_pages.page_complete [OF assms]
  by (simp add: findEntriesForWallet_def gets_def walk_all_def t_count_def t_filter_def)

lemma entries_walk_complete_witness:
  "walk 3 (\<lambda>c. case fst (findEntriesForWallet 1 c 1 sample_sys) of Inr p \<Rightarrow> p) None =
    Some [sample_entry 2 DEBIT 40 ''payout:1'', sample_entry 1 CREDIT 100 ''payment:1'']"
proof -
  have w: "wf_table e_id (ledger_entries sample_sys)" using books_sample by (simp add: books_ok_def books_def)
  have c: "t_count (\<lambda>e. e_walletId e = Some 1) (ledger_entries sample_sys) = 2"
    "filter (\<lambda>e. e_walletId e = Some 1) (rows (ledger_entries sample_sys)) =
      [sample_entry 1 CREDIT 100 ''payment:1'', sample_entry 2 DEBIT 40 ''payout:1'']"
    by (simp_all add: t_count_def t_filter_def sample_sys_def sample_entry_def)
  show ?thesis using entries_walk_complete [OF w, of 1 1] by (simp add: c)
qed

text \<open>The aggregates report cannot succeed: its query names a column created_at, the
  table has createdAt, and the statement is rejected on every call.\<close>

theorem aggregates_always_rejected:
  "aggregates ledger_entries_columns now opt s = (Inl (PrismaKnown ''P2010'' JUndefined), s)"
  by (simp add: aggregates_def ledger_entries_columns_def throw_def Let_def)

end
