(* ===== verification/Values.thy ===== *)
theory Values
  imports Persian Json
begin

text \<open>
  JavaScript built-ins the request handling code calls: BigInt of a string, the length of
  a string in UTF-16 units, Buffer.from of a hexadecimal text, Date.prototype.toISOString,
  Math.round of a quotient, encodeURIComponent, and the ILIKE test Prisma makes of a
  case-insensitive contains.
  Strings are UTF-8 bytes, dates are milliseconds since the epoch.  The lemmas show that
  BigInt reads back what the server prints.
\<close>

section \<open>BigInt(text)\<close>

fun radix_value :: "nat \<Rightarrow> nat \<Rightarrow> string \<Rightarrow> nat option" where
  "radix_value b acc [] = Some acc"
| "radix_value b acc (c # cs) = (case hex_value c of
       None \<Rightarrow> None
     | Some d \<Rightarrow> if d < b then radix_value b (acc * b + d) cs else None)"

definition radix_literal :: "nat \<Rightarrow> string \<Rightarrow> int option" where
  "radix_literal b ds = (if ds = [] then None else map_option int (radix_value b 0 ds))"

text \<open>None is the SyntaxError.  White space is the ASCII one.\<close>

definition js_BigInt :: "string \<Rightarrow> int option" where
  "js_BigInt raw = (let s = trim raw in
     if s = [] then Some 0
     else if take 2 s \<in> {''0x'', ''0X''} then radix_literal 16 (drop 2 s)
     else if take 2 s \<in> {''0o'', ''0O''} then radix_literal 8 (drop 2 s)
     else if take 2 s \<in> {''0b'', ''0B''} then radix_literal 2 (drop 2 s)
     else if hd s = CHR ''-'' then map_option uminus (radix_literal 10 (tl s))
     else if hd s = CHR ''+'' then radix_literal 10 (tl s)
     else radix_literal 10 s)"

section \<open>Strings and buffers\<close>

definition byte_units :: "char \<Rightarrow> nat" where
  "byte_units c = (let n = of_char c :: nat in
     if 128 \<le> n \<and> n < 192 then 0 else if 240 \<le> n then 2 else 1)"

definition utf16_length :: "string \<Rightarrow> nat" where
  "utf16_length s = sum_list (map byte_units s)"

text \<open>The characters PostgreSQL counts against a VARCHAR limit.\<close>

definition char_count :: "string \<Rightarrow> nat" where
  "char_count s = sum_list (map (\<lambda>c. min 1 (byte_units c)) s)"

fun hex_bytes :: "string \<Rightarrow> nat list" where
  "hex_bytes (a # b # s) = (case (hex_value a, hex_value b) of
       (Some h, Some l) \<Rightarrow> (16 * h + l) # hex_bytes s
     | _ \<Rightarrow> [])"
| "hex_bytes _ = []"

definition lower_char :: "char \<Rightarrow> char" where
  "lower_char c = (if CHR ''A'' \<le> c \<and> c \<le> CHR ''Z'' then char_of (of_char c + (32::nat)) else c)"

fun occurs_in :: "string \<Rightarrow> string \<Rightarrow> bool" where
  "occurs_in p [] = (p = [])"
| "occurs_in p (c # s) = (take (length p) (c # s) = p \<or> occurs_in p s)"

text \<open>Case folding is the ASCII one; Prisma escapes the pattern characters.\<close>

definition ilike :: "string \<Rightarrow> string option \<Rightarrow> bool" where
  "ilike p v = (case v of None \<Rightarrow> False | Some s \<Rightarrow> occurs_in (map lower_char p) (map lower_char s))"

section \<open>Numbers and dates\<close>

text \<open>Math.round(a / b) for b > 0, halves up.\<close>

definition round_div :: "int \<Rightarrow> int \<Rightarrow> int" where
  "round_div a b = (2 * a + b) div (2 * b)"

definition pad_left :: "nat \<Rightarrow> int \<Rightarrow> string" where
  "pad_left n i = (let s = int_to_string i in replicate (n - length s) (CHR ''0'') @ s)"

text \<open>Year, month and day of a day number (days since 1970-01-01).\<close>

definition civil :: "int \<Rightarrow> int \<times> int \<times> int" where
  "civil days =
     (let z = days + 719468; era = z div 146097; doe = z mod 146097;
          yoe = (doe - doe div 1460 + doe div 36524 - doe div 146096) div 365;
          doy = doe - (365 * yoe + yoe div 4 - yoe div 100);
          mp = (5 * doy + 2) div 153;
          d = doy - (153 * mp + 2) div 5 + 1;
          m = (if mp < 10 then mp + 3 else mp - 9)
      in (yoe + era * 400 + (if m \<le> 2 then 1 else 0), m, d))"

definition toISOString :: "int \<Rightarrow> string" where
  "toISOString t =
     (let (y, m, d) = civil (t div 86400000); r = t mod 86400000 in
      pad_left 4 y @ ''-'' @ pad_left 2 m @ ''-'' @ pad_left 2 d @ ''T'' @
      pad_left 2 (r div 3600000) @ '':'' @ pad_left 2 (r div 60000 mod 60) @ '':'' @
      pad_left 2 (r div 1000 mod 60) @ ''.'' @ pad_left 3 (r mod 1000) @ ''Z'')"

definition upper_hex :: "nat \<Rightarrow> char" where
  "upper_hex n = (if n < 10 then digit_char n else char_of (n + 55))"

definition unreserved :: "char \<Rightarrow> bool" where
  "unreserved c \<longleftrightarrow> is_digit c \<or> CHR ''a'' \<le> lower_char c \<and> lower_char c \<le> CHR ''z'' \<or>
     c \<in> {CHR ''-'', CHR ''_'', CHR ''.'', CHR ''!'', CHR ''~'', CHR ''*'', CHR 0x27, CHR ''('', CHR '')''}"

definition encodeURIComponent :: "string \<Rightarrow> string" where
  "encodeURIComponent s = concat (map (\<lambda>c. if unreserved c then [c]
     else [CHR ''%'', upper_hex (of_char c div 16), upper_hex (of_char c mod 16)]) s)"

section \<open>Facts\<close>

lemma radix_value_append: "radix_value b acc (xs @ [c]) =
    (case radix_value b acc xs of None \<Rightarrow> None
     | Some v \<Rightarrow> (case hex_value c of None \<Rightarrow> None | Some d \<Rightarrow> if d < b then Some (v * b + d) else None))"
  by (induction b acc xs rule: radix_value.induct) (auto split: option.splits)

lemma hex_value_of_digit: "d < 10 \<Longrightarrow> hex_value (digit_char d) = Some d"
  by (simp add: hex_value_def digit_char_def Let_def)

lemma radix_value_digits: "radix_value 10 0 (nat_digits n) = Some n"
proof (induction n rule: nat_digits.induct)
  case (1 n)
  then show ?case
    by (subst nat_digits.simps) (auto simp: radix_value_append hex_value_of_digit)
qed

lemma digit_not_space: "is_digit c \<Longrightarrow> \<not> is_space c"
  by (auto simp: is_digit_def is_space_def)

lemma trim_no_space: "list_all (\<lambda>c. \<not> is_space c) s \<Longrightarrow> trim s = s"
proof -
  assume s: "list_all (\<lambda>c. \<not> is_space c) s"
  have d: "dropWhile is_space t = t" if "list_all (\<lambda>c. \<not> is_space c) t" for t
    using that by (cases t) auto
  show ?thesis using d [OF s] d [of "rev s"] s by (simp add: trim_def)
qed

lemma digit_letters:
  assumes "is_digit c"
  shows "c \<noteq> CHR ''x''" "c \<noteq> CHR ''X''" "c \<noteq> CHR ''o''" "c \<noteq> CHR ''O''" "c \<noteq> CHR ''b''"
    "c \<noteq> CHR ''B''" "c \<noteq> CHR ''-''" "c \<noteq> CHR ''+''"
  using assms by (auto simp: is_digit_def)

lemma js_BigInt_digits: "js_BigInt (nat_digits n) = Some (int n)"
proof -
  obtain c t where ct: "nat_digits n = c # t" by (cases "nat_digits n") auto
  have dg: "is_digit c" "list_all is_digit t" using nat_digits_are_digits [of n] ct by simp_all
  have tr: "trim (c # t) = c # t"
    by (rule trim_no_space) (use dg in \<open>simp add: list_all_iff digit_not_space\<close>)
  have two: "take 2 (c # t) \<notin> {''0x'', ''0X''}" "take 2 (c # t) \<notin> {''0o'', ''0O''}"
    "take 2 (c # t) \<notin> {''0b'', ''0B''}"
    using dg(2) by (cases t; simp add: digit_letters)+
  have "radix_value 10 0 (c # t) = Some n" using radix_value_digits [of n] ct by simp
  then show ?thesis
    using digit_letters(7,8) [OF dg(1)]
    by (simp only: ct js_BigInt_def radix_literal_def Let_def tr two if_False list.simps list.sel option.map)
qed

lemma js_BigInt_int [simp]: "js_BigInt (int_to_string i) = Some i"
proof (cases "i < 0")
  case True
  let ?d = "nat_digits (nat (- i))"
  have dg: "list_all is_digit ?d" by (rule nat_digits_are_digits)
  have "trim (CHR ''-'' # ?d) = CHR ''-'' # ?d"
    by (intro trim_no_space) (use dg in \<open>simp add: list_all_iff digit_not_space, simp add: is_space_def\<close>)
  then show ?thesis using True
    by (simp add: int_to_string_def js_BigInt_def Let_def radix_literal_def radix_value_digits)
next
  case False
  then show ?thesis by (simp add: int_to_string_def js_BigInt_digits)
qed

end
