(* ===== verification/Users.thy ===== *)
theory Users
  imports Sessions Ledger Values
begin

text \<open>
  core/users: the service (users.service.ts), the request schemas (dto) and the handlers of
  users.controller.ts and profile.controller.ts.  Writes to the users table go through
  user_write and user_insert, which check what the table checks: column lengths, the
  unique phone, national ID and e-mail, and that the row exists.

  The lemmas show that accounts stay distinct and identifiable under every operation, which
  status changes each operation can make, that completing a profile also reactivates
  suspended and deleted users, that the bootstrap administrator keeps the role, and that
  the views show at most the last four digits of a national ID.
\<close>

section \<open>Writing the users table\<close>

definition vfits :: "nat \<Rightarrow> string option \<Rightarrow> bool" where
  "vfits n v = (case v of None \<Rightarrow> True | Some s \<Rightarrow> char_count s \<le> n)"

definition user_fits :: "user \<Rightarrow> bool" where
  "user_fits u \<longleftrightarrow> char_count (u_phone u) \<le> 15 \<and> vfits 80 (u_firstName u) \<and> vfits 120 (u_lastName u) \<and>
     vfits 10 (u_nationalId u) \<and> vfits 255 (u_email u)"

text \<open>The first unique column in which the row collides with another one.\<close>

definition unique_clash :: "user table \<Rightarrow> user \<Rightarrow> string option" where
  "unique_clash T new =
     (if t_exists (\<lambda>r. u_id r \<noteq> u_id new \<and> u_phone r = u_phone new) T then Some ''phone''
      else if u_nationalId new \<noteq> None \<and>
              t_exists (\<lambda>r. u_id r \<noteq> u_id new \<and> u_nationalId r = u_nationalId new) T then Some ''nationalId''
      else if u_email new \<noteq> None \<and>
              t_exists (\<lambda>r. u_id r \<noteq> u_id new \<and> u_email r = u_email new) T then Some ''email''
      else None)"

definition check_user :: "user \<Rightarrow> ('x sys_scheme, unit) M" where
  "check_user new =
     (if \<not> user_fits new then throw (PrismaKnown ''P2000'' JUndefined)
      else bind (gets (\<lambda>s. unique_clash (users s) new)) (\<lambda>c. case c of
        Some field \<Rightarrow> throw (PrismaKnown ''P2002'' (JArr [JStr field]))
      | None \<Rightarrow> return ()))"

text \<open>user.update by id; g is the data, applied to the row; updatedAt is set by Prisma.\<close>

definition user_write :: "int \<Rightarrow> int \<Rightarrow> (user \<Rightarrow> user) \<Rightarrow> ('x sys_scheme, user) M" where
  "user_write now i g =
     bind (gets (find_user i)) (\<lambda>found. case found of
       None \<Rightarrow> throw (PrismaKnown ''P2025'' JUndefined)
     | Some old \<Rightarrow>
         (let new = (g old)\<lparr>u_updatedAt := now\<rparr> in
          seq (check_user new)
            (seq (modify (users_update (t_change u_id i (\<lambda>_. new)))) (return new))))"

definition user_insert :: "int \<Rightarrow> string \<Rightarrow> user_status \<Rightarrow> ('x sys_scheme, user) M" where
  "user_insert now phone st =
     bind (gets (\<lambda>s. new_user now phone st (next_id (users s)))) (\<lambda>new.
     seq (check_user new) (create_in users users_update (new_user now phone st)))"

section \<open>users.service.ts: reads\<close>

primrec STATUS_TRANSITIONS :: "user_status \<Rightarrow> user_status list" where
  "STATUS_TRANSITIONS PENDING_PROFILE = [ACTIVE, SUSPENDED, DELETED]"
| "STATUS_TRANSITIONS ACTIVE = [SUSPENDED, DELETED]"
| "STATUS_TRANSITIONS SUSPENDED = [ACTIVE, DELETED]"
| "STATUS_TRANSITIONS DELETED = []"

primrec status_string :: "user_status \<Rightarrow> string" where
  "status_string PENDING_PROFILE = ''PENDING_PROFILE''"
| "status_string ACTIVE = ''ACTIVE''"
| "status_string SUSPENDED = ''SUSPENDED''"
| "status_string DELETED = ''DELETED''"

record self_view =
  sv_id :: int
  sv_phone :: string
  sv_firstName :: "string option"
  sv_lastName :: "string option"
  sv_nationalId :: "string option"
  sv_email :: "string option"
  sv_status :: user_status
  sv_roles :: "string list"
  sv_permissions :: "string list"
  sv_createdAt :: int

record admin_view =
  av_id :: int
  av_phone :: string
  av_firstName :: "string option"
  av_lastName :: "string option"
  av_email :: "string option"
  av_nationalId :: "string option"
  av_status :: user_status
  av_createdAt :: int
  av_updatedAt :: int
  av_profileCompletedAt :: "int option"
  av_deletedAt :: "int option"
  av_roles :: "(int \<times> string \<times> string) list"
  av_lastSeenAt :: "int option"

record user_filters =
  uf_status :: "user_status option"
  uf_roleId :: "int option"
  uf_phoneContains :: "string option"
  uf_search :: "string option"
  uf_createdAfter :: "int option"
  uf_createdBefore :: "int option"

definition users_findByPhone :: "string \<Rightarrow> ('x sys_scheme, user option) M" where
  "users_findByPhone phone = gets (find_user_by_phone phone)"

definition users_findById :: "int \<Rightarrow> ('x sys_scheme, user option) M" where
  "users_findById i = gets (find_user i)"

definition mask_id :: "string option \<Rightarrow> string option" where
  "mask_id v = (case v of None \<Rightarrow> None | Some n \<Rightarrow> if n = [] then None else Some (''******'' @ last4 n))"

definition user_roles_of :: "'x sys_scheme \<Rightarrow> int \<Rightarrow> role list" where
  "user_roles_of s u = concat (map (\<lambda>ur. case t_get r_id (ur_roleId ur) (roles s) of None \<Rightarrow> [] | Some r \<Rightarrow> [r])
     (filter (\<lambda>ur. ur_userId ur = u) (user_roles s)))"

text \<open>The newest unrevoked session.\<close>

definition last_seen :: "'x sys_scheme \<Rightarrow> int \<Rightarrow> int option" where
  "last_seen s u = (case rev (sort_key s_createdAt (t_filter (\<lambda>r. s_userId r = u \<and> s_revokedAt r = None) (sessions s))) of
       [] \<Rightarrow> None | r # _ \<Rightarrow> Some (s_createdAt r))"

definition sanitizeForAdmin :: "'x sys_scheme \<Rightarrow> user \<Rightarrow> admin_view" where
  "sanitizeForAdmin s u = \<lparr>av_id = u_id u, av_phone = u_phone u, av_firstName = u_firstName u,
     av_lastName = u_lastName u, av_email = u_email u, av_nationalId = mask_id (u_nationalId u),
     av_status = u_status u, av_createdAt = u_createdAt u, av_updatedAt = u_updatedAt u,
     av_profileCompletedAt = u_profileCompletedAt u, av_deletedAt = u_deletedAt u,
     av_roles = map (\<lambda>r. (r_id r, r_name r, r_persianName r)) (user_roles_of s (u_id u)),
     av_lastSeenAt = last_seen s (u_id u)\<rparr>"

definition user_matches :: "user_filters \<Rightarrow> 'x sys_scheme \<Rightarrow> user \<Rightarrow> bool" where
  "user_matches f s u \<longleftrightarrow>
     opt_match (uf_status f) (\<lambda>st. u_status u = st) \<and>
     str_match (uf_phoneContains f) (\<lambda>p. occurs_in p (u_phone u)) \<and>
     str_match (uf_search f) (\<lambda>q. ilike q (u_firstName u) \<or> ilike q (u_lastName u) \<or> ilike q (u_email u)) \<and>
     opt_match (uf_roleId f) (\<lambda>r. list_ex (\<lambda>ur. ur_userId ur = u_id u \<and> ur_roleId ur = r) (user_roles s)) \<and>
     in_period (uf_createdAfter f) (uf_createdBefore f) (u_createdAt u)"

definition users_findManyForAdmin ::
    "user_filters \<Rightarrow> int option \<Rightarrow> nat \<Rightarrow> ('x sys_scheme, admin_view list \<times> int option \<times> bool) M" where
  "users_findManyForAdmin f cursor limit =
     gets (\<lambda>s. let p = paginate u_id cursor limit (t_filter (user_matches f s) (users s))
               in (map (sanitizeForAdmin s) (items p), nextCursor p, hasMore p))"

definition users_findByIdForAdmin :: "int \<Rightarrow> ('x sys_scheme, admin_view option) M" where
  "users_findByIdForAdmin i = gets (\<lambda>s. map_option (sanitizeForAdmin s) (find_user i s))"

definition findForSelf :: "int \<Rightarrow> ('x sys_scheme, self_view option) M" where
  "findForSelf userId =
     bind (gets (find_user userId)) (\<lambda>found. case found of
       None \<Rightarrow> return None
     | Some u \<Rightarrow> bind (getUserPermissions userId) (\<lambda>ps.
         gets (\<lambda>s. Some \<lparr>sv_id = u_id u, sv_phone = u_phone u, sv_firstName = u_firstName u,
           sv_lastName = u_lastName u, sv_nationalId = mask_id (u_nationalId u), sv_email = u_email u,
           sv_status = u_status u, sv_roles = map r_name (user_roles_of s (u_id u)), sv_permissions = ps,
           sv_createdAt = u_createdAt u\<rparr>)))"

section \<open>users.service.ts: writes\<close>

definition users_create :: "platform \<Rightarrow> string \<Rightarrow> ('x sys_scheme, user) M" where
  "users_create pf phone =
     bind (user_insert (pf_now pf) phone PENDING_PROFILE) (\<lambda>user.
     bind (gets (find_role ''member'')) (\<lambda>memberRole. case memberRole of
       Some r \<Rightarrow> seq (assignRoleToUser (u_id user) (r_id r) JUndefined) (return user)
     | None \<Rightarrow> return user))"

text \<open>The fields the admin handler passes to update; None leaves a field as it is.\<close>

record user_patch =
  up_firstName :: "string option"
  up_lastName :: "string option"
  up_email :: "string option"

definition patched :: "'a option \<Rightarrow> 'a option \<Rightarrow> 'a option" where
  "patched v old = (case v of None \<Rightarrow> old | Some x \<Rightarrow> Some x)"

definition apply_patch :: "user_patch \<Rightarrow> user \<Rightarrow> user" where
  "apply_patch d u = u\<lparr>u_firstName := patched (up_firstName d) (u_firstName u),
     u_lastName := patched (up_lastName d) (u_lastName u), u_email := patched (up_email d) (u_email u)\<rparr>"

definition users_update_profile :: "platform \<Rightarrow> int \<Rightarrow> user_patch \<Rightarrow> ('x sys_scheme, user) M" where
  "users_update_profile pf i d = user_write (pf_now pf) i (apply_patch d)"

definition markPhoneVerified :: "platform \<Rightarrow> int \<Rightarrow> ('x sys_scheme, user) M" where
  "markPhoneVerified pf i = user_write (pf_now pf) i (\<lambda>u. u\<lparr>u_phoneVerifiedAt := Some (pf_now pf)\<rparr>)"

record complete_profile_dto =
  cp_firstName :: string
  cp_lastName :: string
  cp_nationalId :: string
  cp_email :: string

definition completed :: "int \<Rightarrow> complete_profile_dto \<Rightarrow> user \<Rightarrow> user" where
  "completed now dto u = u\<lparr>u_firstName := Some (cp_firstName dto), u_lastName := Some (cp_lastName dto),
     u_nationalId := Some (cp_nationalId dto), u_email := Some (cp_email dto), u_status := ACTIVE,
     u_profileCompletedAt := Some now\<rparr>"

definition profile_completed_entry :: "int \<Rightarrow> complete_profile_dto \<Rightarrow> audit_entry" where
  "profile_completed_entry i dto = \<lparr>ae_actorUserId = Some i, ae_action = ''PROFILE_COMPLETED'',
     ae_resource = ''user'', ae_resourceId = JBig i,
     ae_payload = [(''firstName'', JStr (cp_firstName dto)), (''lastName'', JStr (cp_lastName dto)),
       (''nationalId'', JStr (cp_nationalId dto)), (''email'', JStr (cp_email dto))],
     ae_ipAddress = None, ae_userAgent = None, ae_impersonationSessionId = None, ae_failed = False\<rparr>"

definition completeProfile :: "platform \<Rightarrow> int \<Rightarrow> complete_profile_dto \<Rightarrow> ('x sys_scheme, user) M" where
  "completeProfile pf i dto =
     bind (user_write (pf_now pf) i (completed (pf_now pf) dto)) (\<lambda>updated.
     seq (audit_log (pf_sha256 pf) (pf_now pf) (profile_completed_entry i dto))
    (seq (bind (dispatch (pf_env pf) i ''PROFILE_COMPLETED'' [] [IN_APP]) (\<lambda>_. return ()))
    (seq (bind (findOrCreateForUser i) (\<lambda>_. return ()))
         (return updated))))"

definition softDelete :: "platform \<Rightarrow> int \<Rightarrow> ('x sys_scheme, user) M" where
  "softDelete pf i =
     user_write (pf_now pf) i (\<lambda>u. u\<lparr>u_deletedAt := Some (pf_now pf), u_status := DELETED\<rparr>)"

definition invalidateUserCache :: "int \<Rightarrow> ('x sys_scheme, unit) M" where
  "invalidateUserCache userId =
     seq (redis_del (''user:permissions:'' @ int_to_string userId))
         (redis_del (''user:status:'' @ int_to_string userId))"

definition user_not_found :: exn where
  "user_not_found = http_exn NOT_FOUND 404 ''User not found''"

definition status_changed_entry :: "int \<Rightarrow> int \<Rightarrow> user_status \<Rightarrow> user_status \<Rightarrow> audit_entry" where
  "status_changed_entry actor i a b = \<lparr>ae_actorUserId = Some actor, ae_action = ''ADMIN_USER_STATUS_CHANGED'',
     ae_resource = ''user'', ae_resourceId = JBig i,
     ae_payload = [(''from'', JStr (status_string a)), (''to'', JStr (status_string b))],
     ae_ipAddress = None, ae_userAgent = None, ae_impersonationSessionId = None, ae_failed = False\<rparr>"

definition updateStatusByAdmin :: "platform \<Rightarrow> int \<Rightarrow> user_status \<Rightarrow> int \<Rightarrow> ('x sys_scheme, user) M" where
  "updateStatusByAdmin pf userId newStatus actorUserId =
     bind (gets (find_user userId)) (\<lambda>found. case found of
       None \<Rightarrow> throw user_not_found
     | Some user \<Rightarrow>
         if newStatus \<notin> set (STATUS_TRANSITIONS (u_status user)) then
           throw (http_exn INVALID_STATUS_TRANSITION 409
             (''Cannot transition from '' @ status_string (u_status user) @ '' to '' @ status_string newStatus))
         else
           bind (user_write (pf_now pf) userId (\<lambda>u. u\<lparr>u_status := newStatus\<rparr>)) (\<lambda>updated.
           seq (invalidateUserCache userId)
          (seq (audit_log (pf_sha256 pf) (pf_now pf)
                  (status_changed_entry actorUserId userId (u_status user) newStatus))
               (return updated))))"

definition assignRoleByAdmin :: "int \<Rightarrow> int \<Rightarrow> json \<Rightarrow> ('x sys_scheme, unit) M" where
  "assignRoleByAdmin userId roleId scope =
     bind (gets (find_user userId)) (\<lambda>found. case found of
       None \<Rightarrow> throw user_not_found
     | Some _ \<Rightarrow> seq (assignRoleToUser userId roleId scope) (invalidateUserCache userId))"

definition bootstrap_admin_kept :: exn where
  "bootstrap_admin_kept = http_exn CANNOT_REMOVE_BOOTSTRAP_ADMIN 409
     ''Cannot remove the super_admin role from the bootstrap admin user''"

definition removeRoleByAdmin :: "platform \<Rightarrow> int \<Rightarrow> int \<Rightarrow> ('x sys_scheme, unit) M" where
  "removeRoleByAdmin pf userId roleId =
     bind (gets (find_user userId)) (\<lambda>found. case found of
       None \<Rightarrow> throw user_not_found
     | Some user \<Rightarrow>
         bind (gets (\<lambda>s. Some (u_phone user) = pf_super_admin_phone pf \<and>
                 map_option r_name (t_get r_id roleId (roles s)) = Some ''super_admin'')) (\<lambda>protected.
         if protected then throw bootstrap_admin_kept
         else seq (removeRoleFromUser userId roleId) (invalidateUserCache userId)))"

section \<open>dto: what the schemas accept\<close>

text \<open>One character of a Persian name: U+0600 to U+06FF, or white space.\<close>

fun persian_text :: "nat list \<Rightarrow> bool" where
  "persian_text [] = True"
| "persian_text (a # s) =
     (if a \<in> {9, 10, 11, 12, 13, 32} then persian_text s
      else (case s of
          [] \<Rightarrow> False
        | b # s1 \<Rightarrow>
            if 216 \<le> a \<and> a \<le> 219 \<and> 128 \<le> b \<and> b \<le> 191 \<or> a = 194 \<and> b = 160 then persian_text s1
            else (case s1 of
                [] \<Rightarrow> False
              | c # s2 \<Rightarrow>
                  ((a, b) = (225, 154) \<and> c = 128 \<or>
                   (a, b) = (226, 128) \<and> (128 \<le> c \<and> c \<le> 138 \<or> c \<in> {168, 169, 175}) \<or>
                   (a, b) = (226, 129) \<and> c = 159 \<or>
                   (a, b) = (227, 128) \<and> c = 128 \<or>
                   (a, b) = (239, 187) \<and> c = 191) \<and> persian_text s2)))"

definition persian_name :: "nat \<Rightarrow> string \<Rightarrow> bool" where
  "persian_name maxLength v \<longleftrightarrow> v \<noteq> [] \<and> utf16_length v \<le> maxLength \<and> persian_text (map of_char v)"

definition strict_keys :: "string list \<Rightarrow> (string \<times> json) list \<Rightarrow> bool" where
  "strict_keys ks o1 \<longleftrightarrow> list_all (\<lambda>p. fst p \<in> set ks) o1"

text \<open>A schema's parse, or the ZodError with the issues the library lists; the format test of
  z.email is the library's.\<close>

definition zod_parse :: "platform \<Rightarrow> (json \<Rightarrow> 'a option) \<Rightarrow> json \<Rightarrow> ('s, 'a) M" where
  "zod_parse pf schema v = (case schema v of Some x \<Rightarrow> return x | None \<Rightarrow> throw (ZodError (pf_zod_issues pf v)))"

definition CompleteProfileSchema :: "platform \<Rightarrow> json \<Rightarrow> complete_profile_dto option" where
  "CompleteProfileSchema pf v = (case v of
       JObj b \<Rightarrow> if \<not> strict_keys [''firstName'', ''lastName'', ''nationalId'', ''email''] b then None
         else (case (jget b ''firstName'', jget b ''lastName'', jget b ''nationalId'', jget b ''email'') of
           (JStr f, JStr l, JStr n, JStr e) \<Rightarrow>
             if persian_name 80 f \<and> persian_name 120 l \<and> isValidIranianNationalId n \<and>
                pf_is_email pf e \<and> utf16_length e \<le> 255
             then Some \<lparr>cp_firstName = f, cp_lastName = l, cp_nationalId = n, cp_email = e\<rparr> else None
         | _ \<Rightarrow> None)
     | _ \<Rightarrow> None)"

definition optional_string :: "(string \<Rightarrow> bool) \<Rightarrow> json \<Rightarrow> string option option" where
  "optional_string P v = (case v of
       JUndefined \<Rightarrow> Some None
     | JStr t \<Rightarrow> if P t then Some (Some t) else None
     | _ \<Rightarrow> None)"

definition parse_status :: "json \<Rightarrow> user_status option option" where
  "parse_status v = (case v of
       JUndefined \<Rightarrow> Some None
     | JStr t \<Rightarrow> map_option Some (List.find (\<lambda>st. status_string st = t) [PENDING_PROFILE, ACTIVE, SUSPENDED, DELETED])
     | _ \<Rightarrow> None)"

definition UpdateUserSchema :: "platform \<Rightarrow> json \<Rightarrow> (user_patch \<times> user_status option) option" where
  "UpdateUserSchema pf v = (case v of
       JObj b \<Rightarrow> if \<not> strict_keys [''firstName'', ''lastName'', ''email'', ''status''] b then None
         else (case (optional_string (\<lambda>t. t \<noteq> [] \<and> utf16_length t \<le> 80) (jget b ''firstName''),
                     optional_string (\<lambda>t. t \<noteq> [] \<and> utf16_length t \<le> 120) (jget b ''lastName''),
                     optional_string (\<lambda>t. pf_is_email pf t \<and> utf16_length t \<le> 255) (jget b ''email''),
                     parse_status (jget b ''status'')) of
           (Some f, Some l, Some e, Some st) \<Rightarrow>
             Some (\<lparr>up_firstName = f, up_lastName = l, up_email = e\<rparr>, st)
         | _ \<Rightarrow> None)
     | _ \<Rightarrow> None)"

text \<open>z.coerce.bigint: BigInt of the value, a thrown error being a failed parse.\<close>

definition coerce_bigint :: "json \<Rightarrow> int option" where
  "coerce_bigint v = (case v of
       JStr t \<Rightarrow> js_BigInt t
     | JNum i \<Rightarrow> Some i
     | JBig i \<Rightarrow> Some i
     | JBool b \<Rightarrow> Some (if b then 1 else 0)
     | JArr _ \<Rightarrow> js_BigInt (js_String v)
     | _ \<Rightarrow> None)"

definition AssignRoleSchema :: "json \<Rightarrow> (int \<times> json) option" where
  "AssignRoleSchema v = (case v of
       JObj b \<Rightarrow> if \<not> strict_keys [''roleId'', ''scope''] b then None
         else (case (coerce_bigint (jget b ''roleId''), jget b ''scope'') of
           (Some r, JUndefined) \<Rightarrow> Some (r, JUndefined)
         | (Some r, JObj sc) \<Rightarrow> Some (r, JObj sc)
         | _ \<Rightarrow> None)
     | _ \<Rightarrow> None)"

section \<open>The handlers of users.controller.ts and profile.controller.ts\<close>

definition parseId :: "string \<Rightarrow> ('s, int) M" where
  "parseId raw = (case js_BigInt raw of Some i \<Rightarrow> return i | None \<Rightarrow> throw user_not_found)"

definition view_or_404 :: "int \<Rightarrow> ('x sys_scheme, admin_view) M" where
  "view_or_404 i = bind (users_findByIdForAdmin i) (\<lambda>v. case v of Some x \<Rightarrow> return x | None \<Rightarrow> throw user_not_found)"

definition getUser :: "string \<Rightarrow> ('x sys_scheme, admin_view) M" where
  "getUser id1 = bind (parseId id1) view_or_404"

record light_view =
  lv_id :: int
  lv_firstName :: "string option"
  lv_lastName :: "string option"
  lv_phoneMasked :: string

definition getUserLight :: "string \<Rightarrow> ('x sys_scheme, light_view) M" where
  "getUserLight id1 = bind (getUser id1) (\<lambda>u. return \<lparr>lv_id = av_id u, lv_firstName = av_firstName u,
     lv_lastName = av_lastName u, lv_phoneMasked = maskPhone (JStr (av_phone u))\<rparr>)"

definition updateUser :: "platform \<Rightarrow> string \<Rightarrow> json \<Rightarrow> int \<Rightarrow> ('x sys_scheme, admin_view) M" where
  "updateUser pf id1 body actorId =
     bind (zod_parse pf (UpdateUserSchema pf) body) (\<lambda>(d, status).
     bind (parseId id1) (\<lambda>userId.
     seq (case status of
            Some st \<Rightarrow> bind (updateStatusByAdmin pf userId st actorId) (\<lambda>_. return ())
          | None \<Rightarrow> return ())
    (seq (if up_firstName d \<noteq> None \<or> up_lastName d \<noteq> None \<or> up_email d \<noteq> None
          then bind (users_update_profile pf userId d) (\<lambda>_. return ()) else return ())
         (view_or_404 userId))))"

definition assignRole :: "platform \<Rightarrow> string \<Rightarrow> json \<Rightarrow> ('x sys_scheme, admin_view) M" where
  "assignRole pf id1 body =
     bind (zod_parse pf AssignRoleSchema body) (\<lambda>(roleId, scope).
     bind (parseId id1) (\<lambda>userId.
       seq (assignRoleByAdmin userId roleId scope) (view_or_404 userId)))"

definition removeRole :: "platform \<Rightarrow> string \<Rightarrow> string \<Rightarrow> ('x sys_scheme, admin_view) M" where
  "removeRole pf id1 roleId1 =
     bind (parseId id1) (\<lambda>userId.
     bind (parseId roleId1) (\<lambda>roleId.
       seq (removeRoleByAdmin pf userId roleId) (view_or_404 userId)))"

definition getMe :: "int \<Rightarrow> ('x sys_scheme, self_view) M" where
  "getMe me = bind (findForSelf me) (\<lambda>v. case v of Some x \<Rightarrow> return x | None \<Rightarrow> throw user_not_found)"

definition post_completeProfile :: "platform \<Rightarrow> int \<Rightarrow> json \<Rightarrow> ('x sys_scheme, user) M" where
  "post_completeProfile pf me body =
     bind (zod_parse pf (CompleteProfileSchema pf) body) (completeProfile pf me)"

record session_view =
  xv_id :: string
  xv_userAgent :: "string option"
  xv_ipAddress :: "string option"
  xv_createdAt :: int
  xv_expiresAt :: int

definition getSessions :: "platform \<Rightarrow> int \<Rightarrow> ('x sys_scheme, session_view list) M" where
  "getSessions pf me = bind (findActive pf me) (\<lambda>ss. return (map (\<lambda>r.
     \<lparr>xv_id = int_to_string (s_id r), xv_userAgent = s_userAgent r, xv_ipAddress = s_ipAddress r,
      xv_createdAt = s_createdAt r, xv_expiresAt = s_expiresAt r\<rparr>) ss))"

text \<open>A session id that is no integer literal is a SyntaxError of BigInt.\<close>

definition delete_session :: "platform \<Rightarrow> int \<Rightarrow> string \<Rightarrow> ('x sys_scheme, unit) M" where
  "delete_session pf me id1 = (case js_BigInt id1 of
       None \<Rightarrow> throw (JsError (''Cannot convert '' @ id1 @ '' to a BigInt''))
     | Some i \<Rightarrow> revokeOne pf i me False)"

definition delete_sessions :: "platform \<Rightarrow> int \<Rightarrow> ('x sys_scheme, unit) M" where
  "delete_sessions pf me = bind (revokeAllForUser pf me) (\<lambda>_. return ())"

section \<open>Operations on accounts\<close>

datatype user_op =
    UCreate string
  | UPatch int user_patch
  | UVerify int
  | UComplete int complete_profile_dto
  | USoftDelete int
  | UStatus int user_status int
  | UAssign int int json
  | URemove int int

definition run_user :: "platform \<Rightarrow> user_op \<Rightarrow> ('x sys_scheme, unit) M" where
  "run_user pf op = (case op of
       UCreate ph \<Rightarrow> bind (users_create pf ph) (\<lambda>_. return ())
     | UPatch i d \<Rightarrow> bind (users_update_profile pf i d) (\<lambda>_. return ())
     | UVerify i \<Rightarrow> bind (markPhoneVerified pf i) (\<lambda>_. return ())
     | UComplete i dto \<Rightarrow> bind (completeProfile pf i dto) (\<lambda>_. return ())
     | USoftDelete i \<Rightarrow> bind (softDelete pf i) (\<lambda>_. return ())
     | UStatus i st a \<Rightarrow> bind (updateStatusByAdmin pf i st a) (\<lambda>_. return ())
     | UAssign i r sc \<Rightarrow> assignRoleByAdmin i r sc
     | URemove i r \<Rightarrow> removeRoleByAdmin pf i r)"

fun run_users :: "platform \<Rightarrow> (int \<times> user_op) list \<Rightarrow> 'x sys_scheme \<Rightarrow> 'x sys_scheme" where
  "run_users pf [] s = s"
| "run_users pf ((now, op) # ops) s = run_users pf ops (snd (run_user (pf_at now pf) op s))"

text \<open>The row an operation writes over row r when it succeeds.\<close>

definition op_row :: "int \<Rightarrow> user_op \<Rightarrow> user \<Rightarrow> user option" where
  "op_row now op r = map_option (u_updatedAt_update (\<lambda>_. now)) (case op of
       UPatch i d \<Rightarrow> if i = u_id r then Some (apply_patch d r) else None
     | UVerify i \<Rightarrow> if i = u_id r then Some (r\<lparr>u_phoneVerifiedAt := Some now\<rparr>) else None
     | UComplete i dto \<Rightarrow> if i = u_id r then Some (completed now dto r) else None
     | USoftDelete i \<Rightarrow> if i = u_id r then Some (r\<lparr>u_deletedAt := Some now, u_status := DELETED\<rparr>) else None
     | UStatus i st a \<Rightarrow>
         if i = u_id r \<and> st \<in> set (STATUS_TRANSITIONS (u_status r)) then Some (r\<lparr>u_status := st\<rparr>) else None
     | _ \<Rightarrow> None)"

text \<open>How an operation changes the users table: not at all, by a fresh account, or in one row,
  and then only when no unique column clashes.\<close>

inductive user_step :: "int \<Rightarrow> user_op \<Rightarrow> user table \<Rightarrow> user table \<Rightarrow> bool" for now op T where
  idle: "user_step now op T T"
| created: "user_step now op T (t_insert (new_user now ph PENDING_PROFILE) T)"
    if "op = UCreate ph" "unique_clash T (new_user now ph PENDING_PROFILE (next_id T)) = None"
| written: "user_step now op T (t_change u_id (u_id r) (\<lambda>_. n) T)"
    if "r \<in> set (rows T)" "op_row now op r = Some n" "unique_clash T n = None"

lemma op_row_same: "op_row now op r = Some n \<Longrightarrow> u_id n = u_id r \<and> u_phone n = u_phone r \<and> u_createdAt n = u_createdAt r"
  by (cases op) (auto simp: op_row_def apply_patch_def completed_def split: if_splits)

lemma user_write_run:
  assumes "user_write now i g s = (x, t)"
  shows "(t = s \<and> (\<exists>e. x = Inl e)) \<or>
     (\<exists>r. t_get u_id i (users s) = Some r \<and> x = Inr ((g r)\<lparr>u_updatedAt := now\<rparr>) \<and>
        unique_clash (users s) ((g r)\<lparr>u_updatedAt := now\<rparr>) = None \<and>
        t = users_update (t_change u_id i (\<lambda>_. (g r)\<lparr>u_updatedAt := now\<rparr>)) s)"
  using assms
  by (auto simp: user_write_def check_user_def run_simps find_user_def Let_def split: option.splits if_splits)

lemma users_keep:
  "users (snd (audit_log sha now en s)) = users s"
  "users (snd (dispatch env u ty pl chs s)) = users s"
  "users (snd (findOrCreateForUser u s)) = users s"
  "users (snd (invalidateUserCache u s)) = users s"
  "users (snd (assignRoleToUser u r sc s)) = users s"
  "users (snd (removeRoleFromUser u r s)) = users s"
proof -
  show "users (snd (dispatch env u ty pl chs s)) = users s"
    using dispatch_total [of env u ty pl chs s] by (auto dest: same_books_fields)
qed (auto simp: audit_log_run findOrCreateForUser_def create_in_def invalidateUserCache_def redis_runs
      assignRoleToUser_def removeRoleFromUser_def run_simps split: option.splits)

text \<open>After a throw or a return, later calls that keep the table cannot change it.\<close>

lemma bind_keeps_users:
  assumes "\<And>x s. users (snd (f x s)) = users s"
  shows "users (snd (bind m f s)) = users (snd (m s))"
  by (cases "m s"; cases "fst (m s)") (auto simp: bind_def assms)

lemma seq_keeps_users:
  assumes "\<And>s. users (snd (n s)) = users s"
  shows "users (snd (seq m n s)) = users (snd (m s))"
  unfolding seq_def by (rule bind_keeps_users) (rule assms)

lemma return_keeps_users: "users (snd (return x s)) = users s"
  by (simp add: return_def)

lemmas keep_users = users_keep bind_keeps_users seq_keeps_users return_keeps_users

lemma users_of_write:
  assumes "\<And>r. r \<in> set (rows (users s)) \<Longrightarrow> u_id r = i \<Longrightarrow> op_row now op r = Some ((g r)\<lparr>u_updatedAt := now\<rparr>)"
  shows "user_step now op (users s) (users (snd (user_write now i g s)))"
proof -
  obtain x t where w: "user_write now i g s = (x, t)" by (cases "user_write now i g s")
  from user_write_run [OF w] show ?thesis
  proof (elim disjE exE conjE)
    fix r assume r: "t_get u_id i (users s) = Some r"
      "unique_clash (users s) ((g r)\<lparr>u_updatedAt := now\<rparr>) = None"
      "t = users_update (t_change u_id i (\<lambda>_. (g r)\<lparr>u_updatedAt := now\<rparr>)) s"
    have "r \<in> set (rows (users s))" "u_id r = i" using t_get_in [OF r(1)] t_get_key [OF r(1)] by auto
    then show ?thesis using user_step.written [OF _ assms [of r] r(2)] r(3) w by auto
  qed (use w in \<open>auto intro: user_step.idle\<close>)
qed

lemma find_user_self: "find_user i s = Some r \<Longrightarrow> r \<in> set (rows (users s)) \<and> u_id r = i"
  by (auto simp: find_user_def dest: t_get_in t_get_key)

lemma users_create_step:
  "user_step (pf_now pf) (UCreate ph) (users s) (users (snd (users_create pf ph s)))"
proof -
  obtain x t where w: "user_insert (pf_now pf) ph PENDING_PROFILE s = (x, t)"
    by (cases "user_insert (pf_now pf) ph PENDING_PROFILE s")
  then have t: "users t = users s \<or> (users t = t_insert (new_user (pf_now pf) ph PENDING_PROFILE) (users s) \<and>
      unique_clash (users s) (new_user (pf_now pf) ph PENDING_PROFILE (next_id (users s))) = None)"
    by (auto simp: user_insert_def check_user_def run_simps create_in_def split: option.splits if_splits)
  have "users (snd (users_create pf ph s)) = users t"
    unfolding users_create_def using w
    by (cases x) (auto simp: bind_def gets_def keep_users return_def split: option.splits)
  then show ?thesis using t by (auto intro: user_step.intros)
qed

lemma run_user_step: "user_step (pf_now pf) op (users s) (users (snd (run_user pf op s)))"
proof (cases op)
  case (UCreate ph)
  then show ?thesis using users_create_step by (simp add: run_user_def keep_users)
next
  case (UPatch i d)
  then show ?thesis
    by (simp add: run_user_def keep_users users_update_profile_def)
       (rule users_of_write, simp add: op_row_def)
next
  case (UVerify i)
  then show ?thesis
    by (simp add: run_user_def keep_users markPhoneVerified_def)
       (rule users_of_write, simp add: op_row_def)
next
  case (UComplete i dto)
  then show ?thesis
    by (simp add: run_user_def keep_users completeProfile_def)
       (rule users_of_write, simp add: op_row_def)
next
  case (USoftDelete i)
  then show ?thesis
    by (simp add: run_user_def keep_users softDelete_def)
       (rule users_of_write, simp add: op_row_def)
next
  case (UStatus i st a)
  show ?thesis
  proof (cases "find_user i s")
    case None
    then show ?thesis using UStatus
      by (simp add: run_user_def keep_users updateStatusByAdmin_def run_simps user_step.idle)
  next
    case (Some r)
    show ?thesis
    proof (cases "st \<in> set (STATUS_TRANSITIONS (u_status r))")
      case False
      then show ?thesis using UStatus Some
        by (simp add: run_user_def keep_users updateStatusByAdmin_def run_simps user_step.idle)
    next
      case True
      have "user_step (pf_now pf) op (users s) (users (snd (user_write (pf_now pf) i (\<lambda>u. u\<lparr>u_status := st\<rparr>) s)))"
      proof -
        obtain x t where w: "user_write (pf_now pf) i (\<lambda>u. u\<lparr>u_status := st\<rparr>) s = (x, t)"
          by (cases "user_write (pf_now pf) i (\<lambda>u. u\<lparr>u_status := st\<rparr>) s")
        have r: "t_get u_id i (users s) = Some r" using Some by (simp add: find_user_def)
        from user_write_run [OF w] show ?thesis
          using w r True UStatus find_user_self [OF Some]
          by (auto intro!: user_step.idle user_step.written [of r] simp: op_row_def)
      qed
      then show ?thesis using UStatus Some True
        by (simp add: run_user_def keep_users updateStatusByAdmin_def bind_def [of "gets _"] gets_def)
    qed
  qed
next
  case (UAssign i r sc)
  then show ?thesis
    by (auto simp: run_user_def assignRoleByAdmin_def bind_def gets_def throw_def keep_users user_step.idle
        split: option.splits)
next
  case (URemove i r)
  then show ?thesis
    by (auto simp: run_user_def removeRoleByAdmin_def bind_def gets_def throw_def keep_users user_step.idle
        split: option.splits)
qed

section \<open>Accounts stay apart\<close>

definition accounts_ok :: "user table \<Rightarrow> bool" where
  "accounts_ok T \<longleftrightarrow> wf_table u_id T \<and>
     (\<forall>a \<in> set (rows T). \<forall>b \<in> set (rows T). u_id a \<noteq> u_id b \<longrightarrow>
        u_phone a \<noteq> u_phone b \<and> (u_nationalId a \<noteq> None \<longrightarrow> u_nationalId a \<noteq> u_nationalId b) \<and>
        (u_email a \<noteq> None \<longrightarrow> u_email a \<noteq> u_email b))"

definition clear_of :: "user \<Rightarrow> user \<Rightarrow> bool" where
  "clear_of a b \<longleftrightarrow> u_phone a \<noteq> u_phone b \<and> (u_nationalId a \<noteq> None \<longrightarrow> u_nationalId a \<noteq> u_nationalId b) \<and>
     (u_email a \<noteq> None \<longrightarrow> u_email a \<noteq> u_email b)"

lemma accounts_ok_iff: "accounts_ok T \<longleftrightarrow> wf_table u_id T \<and>
    (\<forall>a \<in> set (rows T). \<forall>b \<in> set (rows T). u_id a \<noteq> u_id b \<longrightarrow> clear_of a b)"
  by (simp add: accounts_ok_def clear_of_def)

lemma clear_sym: "clear_of a b \<Longrightarrow> clear_of b a"
  by (auto simp: clear_of_def)

lemma no_clash_clear: "unique_clash T n = None \<Longrightarrow> r \<in> set (rows T) \<Longrightarrow> u_id r \<noteq> u_id n \<Longrightarrow> clear_of r n"
  by (auto simp: unique_clash_def t_exists_def list_ex_iff clear_of_def split: if_splits)

lemma rows_change_in: "q \<in> set (rows (t_change u_id i (\<lambda>_. n) T)) \<Longrightarrow>
    q = n \<or> q \<in> set (rows T) \<and> u_id q \<noteq> i"
  by (auto simp: t_change_def table_simps split: if_splits)

lemma wf_change_to:
  assumes "wf_table u_id T" "u_id n = i"
  shows "wf_table u_id (t_change u_id i (\<lambda>_. n) T)"
  unfolding t_change_def by (rule wf_t_update) (use assms in auto)

lemma user_step_accounts:
  assumes "user_step now op T T'" "accounts_ok T"
  shows "accounts_ok T'"
  using assms(1)
proof (cases rule: user_step.cases)
  case idle
  then show ?thesis using assms(2) by simp
next
  case (created ph)
  let ?n = "new_user now ph PENDING_PROFILE (next_id T)"
  have "clear_of r ?n" if "r \<in> set (rows T)" for r
    using no_clash_clear [OF created(3) that] that assms(2)
    by (auto simp: accounts_ok_def wf_table_def new_user_def)
  then show ?thesis using assms(2) created(1)
    by (auto simp: accounts_ok_iff table_simps new_user_def intro: clear_sym)
next
  case (written r n)
  have n: "u_id n = u_id r" using op_row_same [OF written(3)] by simp
  have c: "clear_of q n" if "q \<in> set (rows T)" "u_id q \<noteq> u_id r" for q
    using no_clash_clear [OF written(4) that(1)] that n by simp
  have "clear_of a b" if "a \<in> set (rows T')" "b \<in> set (rows T')" "u_id a \<noteq> u_id b" for a b
    using that c assms(2) n unfolding written(1) accounts_ok_iff
    by (auto dest!: rows_change_in intro: clear_sym)
  moreover have "wf_table u_id T'" using written(1) n assms(2) by (simp add: accounts_ok_def wf_change_to)
  ultimately show ?thesis by (simp add: accounts_ok_iff)
qed

text \<open>What no operation changes: the account is still there with its phone and age.\<close>

definition same_account :: "user \<Rightarrow> user \<Rightarrow> bool" where
  "same_account a b \<longleftrightarrow> u_id a = u_id b \<and> u_phone a = u_phone b \<and> u_createdAt a = u_createdAt b"

lemma user_step_keeps_row:
  assumes "user_step now op T T'" "wf_table u_id T" "a \<in> set (rows T)"
  shows "\<exists>b \<in> set (rows T'). same_account a b \<and> (b = a \<or> op_row now op a = Some b)"
  using assms(1)
proof (cases rule: user_step.cases)
  case (written r n)
  show ?thesis
  proof (cases "u_id a = u_id r")
    case True
    then have "a = r" using wf_key_unique [OF assms(2,3) written(2)] by simp
    then have "n \<in> set (rows T')" "same_account a n" "op_row now op a = Some n"
      using written op_row_same [OF written(3)] by (auto simp: t_change_def table_simps same_account_def)
    then show ?thesis by blast
  next
    case False
    then have "a \<in> set (rows T')" using written(1) assms(3) by (auto simp: t_change_def table_simps)
    then show ?thesis by (auto simp: same_account_def)
  qed
qed (use assms(3) in \<open>auto simp: same_account_def table_simps\<close>)

lemma run_users_inv:
  assumes "accounts_ok (users s)"
  shows "accounts_ok (users (run_users pf ops s)) \<and>
    (\<forall>a \<in> set (rows (users s)). \<exists>b \<in> set (rows (users (run_users pf ops s))). same_account a b)"
  using assms
proof (induction ops arbitrary: s)
  case Nil
  then show ?case by (auto simp: same_account_def)
next
  case (Cons p ops)
  obtain now op where p: "p = (now, op)" by (cases p)
  let ?s = "snd (run_user (pf_at now pf) op s)"
  have st: "user_step (pf_now (pf_at now pf)) op (users s) (users ?s)" by (rule run_user_step)
  have ok: "accounts_ok (users ?s)" using user_step_accounts [OF st Cons.prems] .
  note IH = Cons.IH [OF ok]
  have w: "wf_table u_id (users s)" using Cons.prems by (simp add: accounts_ok_def)
  have "\<exists>b \<in> set (rows (users (run_users pf ops ?s))). same_account a b" if a: "a \<in> set (rows (users s))" for a
  proof -
    obtain b where "b \<in> set (rows (users ?s))" "same_account a b" using user_step_keeps_row [OF st w a] by blast
    then show ?thesis using IH by (auto simp: same_account_def)
  qed
  then show ?case using IH p by simp
qed

text \<open>Accounts stay distinct and identifiable: whatever creations, profile completions,
  updates, status changes, deletions and role changes are served, no two accounts share a
  phone, a national ID or an e-mail address, and every account that existed is still
  there with its phone number.\<close>

theorem accounts_stay_distinct:
  assumes "accounts_ok (users s)"
  shows "accounts_ok (users (run_users pf ops s)) \<and>
    (\<forall>a \<in> set (rows (users s)). \<exists>b \<in> set (rows (users (run_users pf ops s))). same_account a b)"
  by (rule run_users_inv) (rule assms)

text \<open>The status of an account moves only along the table of transitions when an
  administrator changes it, with DELETED final there; the other two ways are that a
  soft deletion sets DELETED and that completing a profile sets ACTIVE.\<close>

theorem user_status_moves:
  assumes "accounts_ok (users s)" "find_user i s = Some a"
  shows "\<exists>b. find_user i (snd (run_user pf op s)) = Some b \<and>
    (u_status b = u_status a \<or>
     (\<exists>actor. op = UStatus i (u_status b) actor) \<and> u_status b \<in> set (STATUS_TRANSITIONS (u_status a)) \<or>
     (\<exists>dto. op = UComplete i dto) \<and> u_status b = ACTIVE \<or>
     op = USoftDelete i \<and> u_status b = DELETED)"
proof -
  have w: "wf_table u_id (users s)" using assms(1) by (simp add: accounts_ok_def)
  have a: "a \<in> set (rows (users s))" "u_id a = i" using find_user_self [OF assms(2)] by auto
  have st: "user_step (pf_now pf) op (users s) (users (snd (run_user pf op s)))" by (rule run_user_step)
  obtain b where b: "b \<in> set (rows (users (snd (run_user pf op s))))" "same_account a b"
    "b = a \<or> op_row (pf_now pf) op a = Some b"
    using user_step_keeps_row [OF st w a(1)] by blast
  have "wf_table u_id (users (snd (run_user pf op s)))"
    using user_step_accounts [OF st assms(1)] by (simp add: accounts_ok_def)
  then have "find_user i (snd (run_user pf op s)) = Some b"
    using t_get_self b(1,2) a(2) by (fastforce simp: find_user_def same_account_def)
  moreover have "u_status b = u_status a \<or>
     (\<exists>actor. op = UStatus i (u_status b) actor) \<and> u_status b \<in> set (STATUS_TRANSITIONS (u_status a)) \<or>
     (\<exists>dto. op = UComplete i dto) \<and> u_status b = ACTIVE \<or> op = USoftDelete i \<and> u_status b = DELETED"
    using b(3) a(2)
    by (cases op) (auto simp: op_row_def apply_patch_def completed_def split: if_splits)
  ultimately show ?thesis by blast
qed

section \<open>The bootstrap administrator\<close>

definition holds_role :: "role table \<Rightarrow> int \<Rightarrow> int \<Rightarrow> 'x sys_scheme \<Rightarrow> bool" where
  "holds_role R u r s \<longleftrightarrow> roles s = R \<and> has_role s u r"

lemma holds_role_updates [simp]:
  "holds_role R u r (users_update f s) = holds_role R u r s"
  "holds_role R u r (audit_logs_update g s) = holds_role R u r s"
  "holds_role R u r (notifications_update h s) = holds_role R u r s"
  "holds_role R u r (wallets_update w s) = holds_role R u r s"
  "holds_role R u r (redis_store_update d s) = holds_role R u r s"
  by (simp_all add: holds_role_def has_role_def)

lemma holds_role_books: "holds_role R u r s \<Longrightarrow> same_books s t \<Longrightarrow> holds_role R u r t"
  by (cases s; cases t) (simp add: same_books_def holds_role_def has_role_def)

lemma keeps_holds_role:
  "keeps (holds_role R u r) (user_write now i g)"
  "keeps (holds_role R u r) (user_insert now ph st)"
  "keeps (holds_role R u r) (audit_log sha now en)"
  "keeps (holds_role R u r) (dispatch env i ty pl chs)"
  "keeps (holds_role R u r) (findOrCreateForUser i)"
  "keeps (holds_role R u r) (invalidateUserCache i)"
  "keeps (holds_role R u r) (assignRoleToUser i q sc)"
proof -
  show "keeps (holds_role R u r) (dispatch env i ty pl chs)"
    by (rule keeps_dispatch) (rule holds_role_books)
  show "keeps (holds_role R u r) (assignRoleToUser i q sc)"
    unfolding keeps_def
  proof (intro allI impI)
    fix s assume h: "holds_role R u r s"
    obtain x t where a: "assignRoleToUser i q sc s = (x, t)" by (cases "assignRoleToUser i q sc s")
    have "roles t = roles s" using a by (auto simp: assignRoleToUser_def run_simps split: if_splits)
    then show "holds_role R u r (snd (assignRoleToUser i q sc s))"
      using h a assignRoleToUser_run(2) [OF a] by (simp add: holds_role_def)
  qed
qed (auto simp: keeps_def user_write_def user_insert_def check_user_def run_simps create_in_def audit_log_run
      findOrCreateForUser_def invalidateUserCache_def redis_runs Let_def split: option.splits)

lemma run_user_holds_role:
  assumes "holds_role R u r s" "\<forall>i q. op = URemove i q \<longrightarrow>
      (\<exists>a. find_user i s = Some a \<and> i = u \<and> q = r \<and> pf_super_admin_phone pf = Some (u_phone a) \<and>
           map_option r_name (t_get r_id r R) = Some ''super_admin'') \<or> (i, q) \<noteq> (u, r)"
  shows "holds_role R u r (snd (run_user pf op s))"
proof (cases op)
  case (URemove i q)
  show ?thesis
  proof (cases "(i, q) = (u, r)")
    case True
    then show ?thesis using assms URemove
      by (auto simp: run_user_def removeRoleByAdmin_def bind_def gets_def throw_def holds_role_def)
  next
    case False
    obtain x t where a: "removeRoleFromUser i q s = (x, t)" by (cases "removeRoleFromUser i q s")
    have "roles t = roles s" using a by (auto simp: removeRoleFromUser_def run_simps)
    then have "holds_role R u r t" using a removeRoleFromUser_run(3) [OF a] assms(1) False by (auto simp: holds_role_def)
    then show ?thesis using URemove assms(1) a removeRoleFromUser_run(1) [OF a]
      by (auto simp: run_user_def removeRoleByAdmin_def bind_def gets_def throw_def seq_def
          invalidateUserCache_def redis_runs split: option.splits)
  qed
qed (rule keepsD [where P = "holds_role R u r", OF _ assms(1)];
     auto simp: run_user_def users_create_def users_update_profile_def markPhoneVerified_def completeProfile_def
       softDelete_def updateStatusByAdmin_def assignRoleByAdmin_def
       intro!: keeps_intros keeps_holds_role split: option.splits)+

lemma run_users_holds_role:
  assumes "accounts_ok (users s)" "find_user u s = Some a" "holds_role R u r s"
    and "pf_super_admin_phone pf = Some (u_phone a)" "map_option r_name (t_get r_id r R) = Some ''super_admin''"
  shows "holds_role R u r (run_users pf ops s)"
  using assms(1,2,3,4)
proof (induction ops arbitrary: s a)
  case (Cons p ops)
  obtain now op where p: "p = (now, op)" by (cases p)
  let ?pf = "pf_at now pf" and ?s = "snd (run_user (pf_at now pf) op s)"
  have st: "user_step (pf_now ?pf) op (users s) (users ?s)" by (rule run_user_step)
  have w: "wf_table u_id (users s)" using Cons.prems(1) by (simp add: accounts_ok_def)
  have ok: "accounts_ok (users ?s)" using user_step_accounts [OF st Cons.prems(1)] .
  obtain b where b: "b \<in> set (rows (users ?s))" "same_account a b"
    using user_step_keeps_row [OF st w] find_user_self [OF Cons.prems(2)] by blast
  then have fb: "find_user u ?s = Some b"
    using t_get_self [of u_id "users ?s" b] ok find_user_self [OF Cons.prems(2)]
    by (simp add: find_user_def accounts_ok_def same_account_def)
  have "holds_role R u r ?s"
    by (rule run_user_holds_role)
       (use Cons.prems assms(5) in \<open>auto simp: pf_at_def\<close>)
  then show ?case using Cons.IH [OF ok fb] b(2) Cons.prems(4) p by (simp add: same_account_def)
qed simp

text \<open>The platform cannot be locked out: the account whose phone is SUPER_ADMIN_PHONE keeps
  the super_admin role through any sequence of account and role operations, removals
  included.\<close>

theorem bootstrap_admin_keeps_role:
  assumes "accounts_ok (users s)" "find_user u s = Some a"
    and "pf_super_admin_phone pf = Some (u_phone a)"
    and "t_get r_id r (roles s) = Some ro" "r_name ro = ''super_admin''" "has_role s u r"
  shows "has_role (run_users pf ops s) u r"
  using run_users_holds_role [of s u a "roles s" r pf ops] assms by (simp add: holds_role_def)

section \<open>Completing a profile\<close>

text \<open>Completing a profile activates any account: a suspended or deleted account becomes
  ACTIVE again, a deleted one with its deletion date still set, because completeProfile
  does not look at the status it overwrites.  The account has a wallet afterwards.\<close>

theorem complete_profile_reactivates:
  assumes "find_user i s = Some u" "n = (completed (pf_now pf) dto u)\<lparr>u_updatedAt := pf_now pf\<rparr>"
    and "user_fits n" "unique_clash (users s) n = None"
  shows "fst (completeProfile pf i dto s) = Inr n \<and> u_status n = ACTIVE \<and> u_deletedAt n = u_deletedAt u \<and>
    find_user i (snd (completeProfile pf i dto s)) = Some n \<and>
    wallet_findUnique i (snd (completeProfile pf i dto s)) \<noteq> None"
proof -
  let ?s1 = "users_update (t_change u_id i (\<lambda>_. n)) s"
  obtain s2 where al: "audit_log (pf_sha256 pf) (pf_now pf) (profile_completed_entry i dto) ?s1 = (Inr (), s2)"
    and s2: "users s2 = users ?s1"
    using users_keep(1) [of "pf_sha256 pf" "pf_now pf" "profile_completed_entry i dto" ?s1] audit_log_run
    by (metis prod.sel(2))
  obtain r s3 where d: "dispatch (pf_env pf) i ''PROFILE_COMPLETED'' [] [IN_APP] s2 = (Inr r, s3)" "same_books s2 s3"
    using dispatch_total by blast
  have u: "u_id u = i" "u \<in> set (rows (users s))" using find_user_self [OF assms(1)] by auto
  have nid: "u_id n = i" using u(1) assms(2) by (simp add: completed_def)
  have w: "user_write (pf_now pf) i (completed (pf_now pf) dto) s = (Inr n, ?s1)"
    using assms by (simp add: user_write_def check_user_def run_simps Let_def)
  have g: "find_user i ?s1 = Some n"
  proof -
    have "List.find (\<lambda>q. u_id q = i) (map (\<lambda>q. if u_id q = i then n else q) l) = Some n"
      if "u \<in> set l" for l using that u(1) nid by (induction l) auto
    from this [OF u(2)] show ?thesis
      by (simp add: find_user_def t_get_def t_find_def t_change_def t_update_def)
  qed
  have "users s3 = users ?s1" using same_books_fields(1) [OF d(2)] s2 by simp
  then have g3: "find_user i s3 = Some n" using g by (simp add: find_user_def)
  obtain wl t where t: "findOrCreateForUser i s3 = (Inr wl, t)" "wallet_findUnique i t \<noteq> None" "users t = users s3"
  proof (cases "wallet_findUnique i s3")
    case None
    then show ?thesis using that g3
      by (auto simp: findOrCreateForUser_def run_simps create_in_def wallet_findUnique_def t_find_def
          table_simps find_append)
  next
    case (Some wl)
    then show ?thesis using that by (auto simp: findOrCreateForUser_def run_simps)
  qed
  have "completeProfile pf i dto s = (Inr n, t)"
    using w al d(1) t(1) by (simp add: completeProfile_def bind_def seq_def return_def)
  then show ?thesis using t g3 assms(2) by (simp add: find_user_def completed_def)
qed

section \<open>What the views show\<close>

text \<open>Accounts changed in the national ID, up to its last four digits, and in the second
  factor secret.\<close>

definition veiled :: "(user \<Rightarrow> string option) \<Rightarrow> (user \<Rightarrow> string option) \<Rightarrow> 'x sys_scheme \<Rightarrow> 'x sys_scheme" where
  "veiled h totp s = users_update (\<lambda>T. T\<lparr>rows := map (\<lambda>u. u\<lparr>u_nationalId := h u, u_totpSecret := totp u\<rparr>) (rows T)\<rparr>) s"

lemma below_map: "k \<circ> f = k \<Longrightarrow> below k c (map f l) = map f (below k c l)"
  by (cases c) (auto simp: below_def filter_map comp_def rev_map fun_eq_iff)

lemma paginate_map:
  assumes "\<And>u. k (f u) = k u"
  shows "items (paginate k c n (map f l)) = map f (items (paginate k c n l))"
    and "nextCursor (paginate k c n (map f l)) = nextCursor (paginate k c n l)"
    and "hasMore (paginate k c n (map f l)) = hasMore (paginate k c n l)"
proof -
  have "below k c (map f l) = map f (below k c l)" using assms by (intro below_map) auto
  then show "items (paginate k c n (map f l)) = map f (items (paginate k c n l))"
    and "nextCursor (paginate k c n (map f l)) = nextCursor (paginate k c n l)"
    and "hasMore (paginate k c n (map f l)) = hasMore (paginate k c n l)"
    using assms by (auto simp: paginate_items paginate_hasMore paginate_nextCursor take_map)
qed

text \<open>Secrets stay in the database: the administrators' list and detail and the user's own
  view are the same for accounts that differ only in the second factor secret and in the
  national ID before its last four digits.\<close>

theorem views_hide_secrets:
  assumes "\<And>u. mask_id (h u) = mask_id (u_nationalId u)"
  shows "fst (users_findManyForAdmin fl cursor limit (veiled h totp s)) = fst (users_findManyForAdmin fl cursor limit s) \<and>
    fst (users_findByIdForAdmin i (veiled h totp s)) = fst (users_findByIdForAdmin i s) \<and>
    fst (findForSelf i (veiled h totp s)) = fst (findForSelf i s)"
proof -
  let ?f = "\<lambda>u. u\<lparr>u_nationalId := h u, u_totpSecret := totp u\<rparr>"
  have v: "sanitizeForAdmin (veiled h totp s) (?f u) = sanitizeForAdmin s u" for u
    using assms [of u] by (simp add: sanitizeForAdmin_def veiled_def user_roles_of_def last_seen_def)
  have mt: "user_matches fl (veiled h totp s) (?f u) = user_matches fl s u" for u
    by (simp add: user_matches_def veiled_def)
  have rows: "t_filter (user_matches fl (veiled h totp s)) (users (veiled h totp s)) =
      map ?f (t_filter (user_matches fl s) (users s))"
    using mt by (simp add: t_filter_def filter_map comp_def) (simp add: veiled_def t_filter_def filter_map comp_def)
  have fu: "find_user i (veiled h totp s) = map_option ?f (find_user i s)"
    by (simp add: find_user_def t_get_def t_find_def veiled_def find_map_preserving)
  have gp: "getUserPermissions i (veiled h totp s) = (fst (getUserPermissions i s), veiled h totp s)"
    by (simp add: getUserPermissions_def gets_def veiled_def cong: if_cong)
  have ro: "user_roles_of (veiled h totp s) = user_roles_of s"
    by (simp add: fun_eq_iff user_roles_of_def veiled_def)
  have gp0: "getUserPermissions i s = (fst (getUserPermissions i s), s)"
    by (simp add: getUserPermissions_def gets_def)
  have "fst (findForSelf i (veiled h totp s)) = fst (findForSelf i s)"
  proof (cases "find_user i s")
    case None
    then show ?thesis by (simp add: findForSelf_def run_simps fu)
  next
    case (Some u)
    then show ?thesis using gp gp0 assms
      by (cases "fst (getUserPermissions i s)") (auto simp: findForSelf_def bind_def gets_def return_def fu ro)
  qed
  then show ?thesis
    using v by (simp add: users_findManyForAdmin_def users_findByIdForAdmin_def gets_def rows paginate_map fu
        option.map_comp comp_def Let_def)
qed

section \<open>Witnesses\<close>

definition sample_dto :: complete_profile_dto where
  "sample_dto = \<lparr>cp_firstName = ''A'', cp_lastName = ''B'', cp_nationalId = ''0013542419'', cp_email = ''a@b''\<rparr>"

text \<open>User 2 is deleted, user 1 is the bootstrap administrator.\<close>

definition sample_accounts :: sys where
  "sample_accounts = sample_sys\<lparr>
     users := \<lparr>next_id = 3, rows = [sample_user 1, (sample_user 2)\<lparr>u_status := DELETED, u_deletedAt := Some 7\<rparr>]\<rparr>,
     roles := \<lparr>next_id = 2, rows = [\<lparr>r_id = 1, r_name = ''super_admin'', r_persianName = [], r_isSystem = False\<rparr>]\<rparr>,
     user_roles := [\<lparr>ur_userId = 1, ur_roleId = 1, ur_scope = JNull\<rparr>]\<rparr>"

definition sample_admin_platform :: platform where
  "sample_admin_platform = sample_platform\<lparr>pf_super_admin_phone := Some ''+98912000001''\<rparr>"

lemma sample_accounts_ok: "accounts_ok (users sample_accounts)"
  by (simp add: accounts_ok_def sample_accounts_def wf_table_def sample_user_def)

lemma sample_find_2: "find_user 2 sample_accounts =
    Some ((sample_user 2)\<lparr>u_status := DELETED, u_deletedAt := Some 7\<rparr>)"
  by (simp add: find_user_def table_run sample_accounts_def sample_user_def)

lemma accounts_stay_distinct_witness:
  "accounts_ok (users (run_users sample_platform [(5, UCreate ''+98912000003''), (6, UComplete 2 sample_dto)] sample_accounts)) \<and>
   (\<exists>b \<in> set (rows (users (run_users sample_platform [(5, UCreate ''+98912000003''), (6, UComplete 2 sample_dto)] sample_accounts))).
      u_id b = 1 \<and> u_phone b = ''+98912000001'')"
proof -
  have "sample_user 1 \<in> set (rows (users sample_accounts))" by (simp add: sample_accounts_def)
  moreover have "u_id (sample_user 1) = 1" "u_phone (sample_user 1) = ''+98912000001''"
    by (simp_all add: sample_user_def)
  ultimately show ?thesis
    using accounts_stay_distinct [OF sample_accounts_ok, of sample_platform
      "[(5, UCreate ''+98912000003''), (6, UComplete 2 sample_dto)]"] by (fastforce simp: same_account_def)
qed

lemma user_status_moves_witness:
  "\<exists>b. find_user 2 (snd (run_user sample_platform (UStatus 2 ACTIVE 1) sample_accounts)) = Some b \<and> u_status b = DELETED"
  using user_status_moves [OF sample_accounts_ok sample_find_2, of sample_platform "UStatus 2 ACTIVE 1"] by auto

lemma bootstrap_admin_keeps_role_witness:
  "has_role (run_users sample_admin_platform [(5, URemove 1 1), (6, UStatus 1 SUSPENDED 2)] sample_accounts) 1 1"
proof -
  have "find_user 1 sample_accounts = Some (sample_user 1)"
    by (simp add: find_user_def table_run sample_accounts_def sample_user_def)
  moreover have "pf_super_admin_phone sample_admin_platform = Some (u_phone (sample_user 1))"
    by (simp add: sample_admin_platform_def sample_user_def)
  moreover have "t_get r_id 1 (roles sample_accounts) =
      Some \<lparr>r_id = 1, r_name = ''super_admin'', r_persianName = [], r_isSystem = False\<rparr>"
    by (simp add: table_run sample_accounts_def)
  moreover have "has_role sample_accounts 1 1" by (simp add: has_role_def sample_accounts_def)
  ultimately show ?thesis
    by (intro bootstrap_admin_keeps_role [OF sample_accounts_ok, where a = "sample_user 1" and
        ro = "\<lparr>r_id = 1, r_name = ''super_admin'', r_persianName = [], r_isSystem = False\<rparr>"]) simp_all
qed

lemma complete_profile_reactivates_witness:
  "\<exists>n. fst (completeProfile sample_platform 2 sample_dto sample_accounts) = Inr n \<and> u_status n = ACTIVE \<and>
     u_deletedAt n = Some 7"
proof -
  let ?u = "(sample_user 2)\<lparr>u_status := DELETED, u_deletedAt := Some 7\<rparr>"
  let ?n = "(completed (pf_now sample_platform) sample_dto ?u)\<lparr>u_updatedAt := pf_now sample_platform\<rparr>"
  have "user_fits ?n"
    by (simp add: user_fits_def vfits_def completed_def sample_dto_def sample_user_def char_count_def byte_units_def)
  moreover have "unique_clash (users sample_accounts) ?n = None"
    by (simp add: unique_clash_def completed_def sample_dto_def sample_user_def sample_accounts_def t_exists_def)
  ultimately show ?thesis
    using complete_profile_reactivates [OF sample_find_2 refl] by (simp add: sample_user_def)
qed

definition sample_other_id :: "user \<Rightarrow> string option" where
  "sample_other_id u = (if u_nationalId u = Some ''0013542419'' then Some ''9999992419'' else u_nationalId u)"

lemma views_hide_secrets_witness:
  "map_option sv_nationalId (case fst (findForSelf 1 (veiled sample_other_id (\<lambda>_. Some ''secret'')
       (sample_accounts\<lparr>users := \<lparr>next_id = 3, rows = [(sample_user 1)\<lparr>u_nationalId := Some ''0013542419''\<rparr>]\<rparr>\<rparr>))) of
     Inr v \<Rightarrow> v | Inl _ \<Rightarrow> None) = Some (Some ''******2419'')"
proof -
  let ?s = "sample_accounts\<lparr>users := \<lparr>next_id = 3, rows = [(sample_user 1)\<lparr>u_nationalId := Some ''0013542419''\<rparr>]\<rparr>\<rparr>"
  have m: "mask_id (sample_other_id u) = mask_id (u_nationalId u)" for u
    by (simp add: sample_other_id_def mask_id_def last4_def)
  have "fst (findForSelf 1 (veiled sample_other_id (\<lambda>_. Some ''secret'') ?s)) = fst (findForSelf 1 ?s)"
    using views_hide_secrets [OF m] by blast
  moreover have "\<exists>v. fst (findForSelf 1 ?s) = Inr (Some v) \<and> sv_nationalId v = Some ''******2419''"
    by (simp add: findForSelf_def run_simps getUserPermissions_def find_user_def table_run sample_user_def
        mask_id_def last4_def)
  ultimately show ?thesis by auto
qed

end
