(* ===== verification/Throttle.thy ===== *)
theory Throttle
  imports Redis AuditTrail "HOL-Library.Product_Lexorder"
begin

text \<open>
  common/middleware/rate-limit.middleware.ts (the limit specifications, the Lua sliding
  window, the guard and its headers) and common/interceptors/idempotency.interceptor.ts
  (the request hash, the cached response, replay).  The lemmas show that a window never
  lets more calls through than its limit, that a refused call changes nothing but expired
  entries, that a repeated request is answered from the cache without running the handler
  and with the same bytes, and that a key is refused for another request.
\<close>

section \<open>Limit specifications\<close>

record parsed_limit =
  pl_limit :: int
  pl_windowMs :: int

definition unit_ms :: "string \<Rightarrow> int option" where
  "unit_ms u = (let l = map (\<lambda>c. if CHR ''A'' \<le> c \<and> c \<le> CHR ''Z'' then char_of (of_char c + 32 :: nat) else c) u in
     if l = ''sec'' then Some 1000
     else if l = ''min'' then Some 60000
     else if l = ''hour'' then Some 3600000
     else if l = ''day'' then Some 86400000
     else None)"

definition parseSpec :: "string \<Rightarrow> parsed_limit option" where
  "parseSpec spec =
     (let ds = takeWhile is_digit spec; r = dropWhile is_digit spec in
      if ds = [] \<or> take 1 r \<noteq> ''/'' then None
      else map_option (\<lambda>w. \<lparr>pl_limit = int (digits_value ds), pl_windowMs = w\<rparr>) (unit_ms (drop 1 r)))"

section \<open>The sliding window\<close>

record check_result =
  ck_allowed :: bool
  ck_remaining :: int
  ck_resetAtMs :: int

definition zset_of :: "int \<Rightarrow> string \<Rightarrow> 'x sys_scheme \<Rightarrow> (int \<times> string) list option" where
  "zset_of now key s = (case r_lookup now key (redis_store s) of
       None \<Rightarrow> Some []
     | Some (RZSet z, _) \<Rightarrow> Some z
     | Some _ \<Rightarrow> None)"

text \<open>ZADD keeps the members sorted by score, then by name.\<close>

definition zadd :: "int \<Rightarrow> string \<Rightarrow> (int \<times> string) list \<Rightarrow> (int \<times> string) list" where
  "zadd score member z = sort_key (\<lambda>p. p) ((score, member) # filter (\<lambda>p. snd p \<noteq> member) z)"

definition sliding_window ::
    "string \<Rightarrow> int \<Rightarrow> int \<Rightarrow> int \<Rightarrow> string \<Rightarrow> ('x sys_scheme, check_result) M" where
  "sliding_window key now windowMs limit member =
     bind (gets (zset_of now key)) (\<lambda>z0. case z0 of
       None \<Rightarrow> throw wrong_type
     | Some z \<Rightarrow>
         (let z1 = filter (\<lambda>p. now - windowMs < fst p) z; count = int (length z1) in
          seq (modify (redis_store_update (\<lambda>r. if z1 = z then r
                 else if z1 = [] then r_del key r
                 else (case r_lookup now key r of
                         Some (_, e) \<Rightarrow> r_put key (RZSet z1) e r | None \<Rightarrow> r))))
          (if limit \<le> count then
             (case z1 of
                [] \<Rightarrow> throw (JsError ''attempt to perform arithmetic on a nil value'')
              | p # _ \<Rightarrow> return \<lparr>ck_allowed = False, ck_remaining = 0, ck_resetAtMs = fst p + windowMs\<rparr>)
           else
             (let z2 = zadd now member z1 in
              seq (modify (redis_store_update (r_put key (RZSet z2) (Some (now + windowMs)))))
                  (return \<lparr>ck_allowed = True, ck_remaining = limit - count - 1,
                           ck_resetAtMs = fst (hd z2) + windowMs\<rparr>)))))"

section \<open>The guard\<close>

datatype limit_scope = ByIp | ByUser

primrec scope_string :: "limit_scope \<Rightarrow> string" where
  "scope_string ByIp = ''ip''"
| "scope_string ByUser = ''user''"

record limit_check =
  lc_scope :: limit_scope
  lc_id :: string
  lc_parsed :: parsed_limit

record rate_limit_profile =
  rl_user :: "string option"
  rl_ip :: "string option"

definition DEFAULT_RATE_LIMIT_PROFILE :: rate_limit_profile where
  "DEFAULT_RATE_LIMIT_PROFILE = \<lparr>rl_user = Some ''100/min'', rl_ip = Some ''30/min''\<rparr>"

text \<open>The member is the time and the first eight characters of a fresh UUID.\<close>

definition runCheck :: "int \<Rightarrow> string \<Rightarrow> limit_check \<Rightarrow> ('x sys_scheme, check_result) M" where
  "runCheck now uuid check =
     sliding_window (''ratelimit:'' @ scope_string (lc_scope check) @ '':'' @ lc_id check) now
       (pl_windowMs (lc_parsed check)) (pl_limit (lc_parsed check))
       (int_to_string now @ ''-'' @ take 8 uuid)"

definition ceil_div :: "int \<Rightarrow> int \<Rightarrow> int" where
  "ceil_div a b = - ((- a) div b)"

definition rateLimitHeaders :: "parsed_limit \<Rightarrow> check_result \<Rightarrow> (string \<times> string) list" where
  "rateLimitHeaders parsed result =
     [(''X-RateLimit-Limit'', int_to_string (pl_limit parsed)),
      (''X-RateLimit-Remaining'', int_to_string (max 0 (ck_remaining result))),
      (''X-RateLimit-Reset'', int_to_string (ceil_div (ck_resetAtMs result) 1000))]"

definition rate_limited :: "limit_check \<Rightarrow> check_result \<Rightarrow> int \<Rightarrow> exn" where
  "rate_limited check result retryAfterSec =
     HttpException 429 (RespObject
       [(''message'', JStr (''Rate limit exceeded for scope '' @ scope_string (lc_scope check))),
        (''details'', JObj [(''scope'', JStr (scope_string (lc_scope check))),
           (''limit'', JNum (pl_limit (lc_parsed check))),
           (''windowMs'', JNum (pl_windowMs (lc_parsed check))),
           (''resetAtMs'', JNum (ck_resetAtMs result)),
           (''retryAfterSec'', JNum retryAfterSec)])])"

text \<open>The guard's verdict: the response headers it set, and the exception or None.\<close>

record verdict =
  vd_headers :: "(string \<times> string) list"
  vd_refusal :: "exn option"

fun run_checks :: "int \<Rightarrow> string list \<Rightarrow> limit_check list \<Rightarrow> (limit_check \<times> check_result) option \<Rightarrow>
    ('x sys_scheme, verdict) M" where
  "run_checks now uuids [] best =
     return \<lparr>vd_headers = (case best of None \<Rightarrow> [] | Some (c, r) \<Rightarrow> rateLimitHeaders (lc_parsed c) r),
             vd_refusal = None\<rparr>"
| "run_checks now uuids (c # cs) best =
     bind (runCheck now (hd uuids) c) (\<lambda>result.
       (if ck_allowed result then
          run_checks now (tl uuids) cs
            (case best of
               None \<Rightarrow> Some (c, result)
             | Some (_, b) \<Rightarrow> if ck_remaining result < ck_remaining b then Some (c, result) else best)
        else
          (let retryAfterSec = max 1 (ceil_div (ck_resetAtMs result - now) 1000) in
           return \<lparr>vd_headers = rateLimitHeaders (lc_parsed c) result @
                     [(''Retry-After'', int_to_string retryAfterSec)],
                   vd_refusal = Some (rate_limited c result retryAfterSec)\<rparr>)))"

definition nonempty :: "string option \<Rightarrow> string option" where
  "nonempty v = (if v = Some [] then None else v)"

text \<open>A malformed specification throws.  userId is the request field of that name.\<close>

definition limit_checks :: "rate_limit_profile \<Rightarrow> string option \<Rightarrow> string option \<Rightarrow> exn + limit_check list" where
  "limit_checks profile ip userId =
     (let bad = (\<lambda>spec. Inl (JsError (''Invalid rate-limit spec: '' @ spec))) in
      case nonempty (rl_ip profile) of
        Some spec \<Rightarrow>
          (case parseSpec spec of
             None \<Rightarrow> bad spec
           | Some p1 \<Rightarrow>
               (let c1 = \<lparr>lc_scope = ByIp, lc_id = (case ip of None \<Rightarrow> ''unknown'' | Some x \<Rightarrow> x), lc_parsed = p1\<rparr> in
                case (nonempty (rl_user profile), nonempty userId) of
                  (Some us, Some u) \<Rightarrow>
                    (case parseSpec us of
                       None \<Rightarrow> bad us
                     | Some p2 \<Rightarrow> Inr [c1, \<lparr>lc_scope = ByUser, lc_id = u, lc_parsed = p2\<rparr>])
                | _ \<Rightarrow> Inr [c1]))
      | None \<Rightarrow>
          (case (nonempty (rl_user profile), nonempty userId) of
             (Some us, Some u) \<Rightarrow>
               (case parseSpec us of
                  None \<Rightarrow> bad us
                | Some p2 \<Rightarrow> Inr [\<lparr>lc_scope = ByUser, lc_id = u, lc_parsed = p2\<rparr>])
           | _ \<Rightarrow> Inr []))"

definition rate_limit_guard :: "int \<Rightarrow> string list \<Rightarrow> rate_limit_profile option \<Rightarrow> string option \<Rightarrow>
    string option \<Rightarrow> ('x sys_scheme, verdict) M" where
  "rate_limit_guard now uuids profile ip userId =
     (case limit_checks (case profile of None \<Rightarrow> DEFAULT_RATE_LIMIT_PROFILE | Some p \<Rightarrow> p) ip userId of
        Inl e \<Rightarrow> throw e
      | Inr checks \<Rightarrow> run_checks now uuids checks None)"

section \<open>Idempotency\<close>

fun stableStringify :: "json \<Rightarrow> string" where
  "stableStringify JUndefined = ''null''"
| "stableStringify JNull = ''null''"
| "stableStringify (JArr xs) = CHR ''['' # join_with CHR '','' (map stableStringify xs) @ '']''"
| "stableStringify (JObj o1) =
     CHR ''{'' # join_with CHR '',''
       (map (\<lambda>(k, t). json_quote k @ CHR '':'' # t)
         (sort_key fst (map (\<lambda>(k, v). (k, stableStringify v)) o1))) @ ''}''"
| "stableStringify v = json_text v"

definition upper :: "string \<Rightarrow> string" where
  "upper s = map upper_char s"

definition computeRequestHash :: "(string \<Rightarrow> string) \<Rightarrow> string \<Rightarrow> string \<Rightarrow> json \<Rightarrow> string" where
  "computeRequestHash sha meth url body =
     sha (upper meth @ ''|'' @ url @ ''|'' @ stableStringify (nullish body JNull))"

definition IDEMPOTENCY_TTL_SECONDS :: int where
  "IDEMPOTENCY_TTL_SECONDS = 86400"

definition cached_response :: "string \<Rightarrow> int \<Rightarrow> json \<Rightarrow> json" where
  "cached_response requestHash responseStatus responseBody =
     JObj [(''requestHash'', JStr requestHash), (''responseStatus'', JNum responseStatus),
           (''responseBody'', responseBody)]"

definition cache_key :: "string \<Rightarrow> string" where
  "cache_key idempotencyKey = ''idem:'' @ idempotencyKey"

definition default_status :: "string \<Rightarrow> int option \<Rightarrow> int" where
  "default_status meth override = (case override of
       Some c \<Rightarrow> c | None \<Rightarrow> if meth = ''POST'' then 201 else 200)"

text \<open>The answer is the status and the body; a body read from the cache has been through
  JSON.  A failing cache write is only logged.\<close>

definition idempotent_call :: "(string \<Rightarrow> string) \<Rightarrow> int \<Rightarrow> bool \<Rightarrow> int option \<Rightarrow> http_request \<Rightarrow>
    ('x sys_scheme, json) M \<Rightarrow> ('x sys_scheme, json \<times> json) M" where
  "idempotent_call sha now isIdempotent override req handler =
     (let responseStatus = default_status (rq_method req) override in
      if \<not> isIdempotent then bind handler (\<lambda>b. return (JNum responseStatus, b))
      else (case nonempty (map_of (rq_headers req) ''idempotency-key'') of
        None \<Rightarrow> throw (http_exn IDEMPOTENCY_KEY_REQUIRED 400
                 ''Idempotency-Key header is required for this endpoint'')
      | Some idempotencyKey \<Rightarrow>
          (let requestHash = computeRequestHash sha (rq_method req) (rq_path req) (rq_body req);
               key = cache_key idempotencyKey in
           bind (redis_get now key) (\<lambda>cachedRaw. case cachedRaw of
             Some raw \<Rightarrow>
               (case json_parse raw of
                  Some (JObj c) \<Rightarrow>
                    if jget c ''requestHash'' \<noteq> JStr requestHash then
                      throw (http_exn IDEMPOTENCY_KEY_REUSED 409
                        ''Idempotency key was previously used with a different request body'')
                    else return (jget c ''responseStatus'', jget c ''responseBody'')
                | Some JNull \<Rightarrow> throw (JsError ''Cannot read properties of null'')
                | Some _ \<Rightarrow> throw (http_exn IDEMPOTENCY_KEY_REUSED 409
                        ''Idempotency key was previously used with a different request body'')
                | None \<Rightarrow> throw (JsError ''Unexpected token in JSON''))
           | None \<Rightarrow>
               bind handler (\<lambda>responseBody.
                 seq (tryCatch (redis_set_ex now key
                        (json_text (cached_response requestHash responseStatus responseBody))
                        IDEMPOTENCY_TTL_SECONDS) (\<lambda>_. return ()))
                     (return (JNum responseStatus, responseBody)))))))"

section \<open>What a window admits\<close>

text \<open>Checks with the same limit on any keys, as (key, time, member); the admitted ones
  with their times.\<close>

fun admitted :: "int \<Rightarrow> int \<Rightarrow> (string \<times> int \<times> string) list \<Rightarrow> 'x sys_scheme \<Rightarrow> (string \<times> int) list" where
  "admitted windowMs limit [] s = []"
| "admitted windowMs limit ((key, now, member) # cs) s =
     (case sliding_window key now windowMs limit member s of
        (Inr r, t) \<Rightarrow> (if ck_allowed r then [(key, now)] else []) @ admitted windowMs limit cs t
      | (Inl _, t) \<Rightarrow> admitted windowMs limit cs t)"

definition times_of :: "string \<Rightarrow> (string \<times> int) list \<Rightarrow> int list" where
  "times_of k h = map snd (filter (\<lambda>p. fst p = k) h)"

definition later :: "int \<Rightarrow> int list \<Rightarrow> int list" where
  "later x ts = filter (\<lambda>a. x < a) ts"

text \<open>The stored set of a key counts exactly the admitted calls that are still in the window,
  now and at any later time, and expires only when none is left.\<close>

definition tracks :: "int \<Rightarrow> string set \<Rightarrow> int \<Rightarrow> int list \<Rightarrow> (redis_value \<times> int option) option \<Rightarrow> bool" where
  "tracks W used T H entry = ((\<forall>a \<in> set H. a \<le> T) \<and>
     (case entry of
        None \<Rightarrow> \<forall>a \<in> set H. a \<le> T - W
      | Some (RZSet z, Some e) \<Rightarrow>
          (\<forall>p \<in> set z. fst p \<le> e - W \<and> snd p \<in> used) \<and> (\<forall>a \<in> set H. a \<le> e - W) \<and> e \<le> T + W \<and>
          (\<forall>x. T - W \<le> x \<longrightarrow> length (later x (map fst z)) = length (later x H))
      | _ \<Rightarrow> False))"

lemma tracks_later: "tracks W used T H entry \<Longrightarrow> T \<le> t \<Longrightarrow> used \<subseteq> used' \<Longrightarrow> tracks W used' t H entry"
  by (fastforce simp: tracks_def split: option.splits prod.splits redis_value.splits)

lemma later_append [simp]: "later x (a @ b) = later x a @ later x b"
  by (simp add: later_def)

lemma later_none: "(\<forall>a \<in> set ts. a \<le> x) \<Longrightarrow> later x ts = []"
  by (auto simp: later_def filter_empty_conv)

lemma later_keep: "y \<le> x \<Longrightarrow> later x (map fst (filter (\<lambda>p. y < fst p) z)) = later x (map fst z)"
  by (auto simp: later_def filter_map comp_def intro!: arg_cong [where f = "map fst"] filter_cong)

lemma later_perm: "mset a = mset b \<Longrightarrow> length (later x a) = length (later x b)"
  by (metis later_def mset_filter size_mset)

lemma later_zadd:
  assumes "\<forall>p \<in> set z. snd p \<noteq> m"
  shows "length (later x (map fst (zadd t m z))) = (if x < t then 1 else 0) + length (later x (map fst z))"
proof -
  have "filter (\<lambda>p. snd p \<noteq> m) z = z" using assms by (simp add: filter_id_conv)
  then have "mset (map fst (zadd t m z)) = mset (t # map fst z)" by (simp add: zadd_def)
  from later_perm [OF this, of x] show ?thesis by (simp add: later_def)
qed

text \<open>One check, given the live entry: what cleaning up writes, and the verdict.\<close>

definition cleaned :: "int \<Rightarrow> string \<Rightarrow> (int \<times> string) list \<Rightarrow> (int \<times> string) list \<Rightarrow> redis \<Rightarrow> redis" where
  "cleaned now key z z1 r = (if z1 = z then r
     else if z1 = [] then r_del key r
     else (case r_lookup now key r of
             Some (_, e) \<Rightarrow> r_put key (RZSet z1) e r | None \<Rightarrow> r))"

lemma sliding_window_eq:
  assumes "zset_of t k s = Some z" and z1: "z1 = filter (\<lambda>p. t - W < fst p) z"
  shows "sliding_window k t W L m s =
    (if L \<le> int (length z1)
     then (case z1 of
             [] \<Rightarrow> Inl (JsError ''attempt to perform arithmetic on a nil value'')
           | p # _ \<Rightarrow> Inr \<lparr>ck_allowed = False, ck_remaining = 0, ck_resetAtMs = fst p + W\<rparr>,
           redis_store_update (cleaned t k z z1) s)
     else (Inr \<lparr>ck_allowed = True, ck_remaining = L - int (length z1) - 1,
                ck_resetAtMs = fst (hd (zadd t m z1)) + W\<rparr>,
           redis_store_update (r_put k (RZSet (zadd t m z1)) (Some (t + W)) \<circ> cleaned t k z z1) s))"
  using assms(1)
  by (cases z1) (simp_all add: sliding_window_def run_simps Let_def z1 [symmetric] cleaned_def [abs_def] comp_def)

lemma map_of_cleaned_other: "k' \<noteq> k \<Longrightarrow> map_of (cleaned t k z z1 r) k' = map_of r k'"
  by (auto simp: cleaned_def split: option.splits)

text \<open>The live entry of a tracked key.\<close>

lemma tracked_zset:
  assumes "tracks W used T H (map_of (redis_store s) k)" "T \<le> t"
  obtains z where "zset_of t k s = Some z" "\<forall>p \<in> set z. snd p \<in> used \<and> fst p \<le> t"
    "\<And>x. t - W \<le> x \<Longrightarrow> length (later x (map fst z)) = length (later x H)"
    "tracks W used t H (map_of (cleaned t k z (filter (\<lambda>p. t - W < fst p) z) (redis_store s)) k)"
proof (cases "map_of (redis_store s) k")
  case None
  have z: "zset_of t k s = Some []" using None by (simp add: zset_of_def r_lookup_map_of)
  have "\<forall>a \<in> set H. a \<le> T - W" using assms(1) None by (simp add: tracks_def)
  then have "later x H = []" if "t - W \<le> x" for x using assms(2) that by (intro later_none) force
  moreover have "tracks W used t H (map_of (redis_store s) k)" by (rule tracks_later [OF assms subset_refl])
  ultimately show ?thesis using z by (intro that [of "[]"]) (simp_all add: cleaned_def later_def [of _ "[]"])
next
  case (Some ve)
  obtain v oe where p: "ve = (v, oe)" by (cases ve)
  obtain z where v: "v = RZSet z" using assms(1) Some p by (cases v) (auto simp: tracks_def)
  obtain e where oe: "oe = Some e" using assms(1) Some p v by (cases oe) (auto simp: tracks_def)
  have ve: "ve = (RZSet z, Some e)" using p v oe by simp
  have z: "\<forall>p \<in> set z. fst p \<le> e - W \<and> snd p \<in> used" and H: "\<forall>a \<in> set H. a \<le> e - W" "\<forall>a \<in> set H. a \<le> T"
    and e: "e \<le> T + W" and same: "\<And>x. T - W \<le> x \<Longrightarrow> length (later x (map fst z)) = length (later x H)"
    using assms(1) Some ve by (simp_all add: tracks_def)
  show ?thesis
  proof (cases "t \<le> e")
    case False
    then have "later x H = []" if "t - W \<le> x" for x using H that by (intro later_none) force
    moreover have "tracks W used t H (map_of (redis_store s) k)" by (rule tracks_later [OF assms subset_refl])
    moreover have "zset_of t k s = Some []"
      using Some ve False by (simp add: zset_of_def r_lookup_map_of r_alive_def)
    ultimately show ?thesis by (intro that [of "[]"]) (simp_all add: cleaned_def later_def [of _ "[]"])
  next
    case True
    let ?z1 = "filter (\<lambda>p. t - W < fst p) z"
    have zt: "\<forall>p \<in> set z. fst p \<le> t" using z e assms(2) by force
    have "tracks W used t H (map_of (cleaned t k z ?z1 (redis_store s)) k)"
    proof -
      consider "?z1 = z" | "?z1 \<noteq> z" "?z1 = []" | "?z1 \<noteq> z" "?z1 \<noteq> []" by blast
      then show ?thesis
      proof cases
        case 1
        then show ?thesis using tracks_later [OF assms subset_refl] by (simp add: cleaned_def)
      next
        case 2
        have "later (t - W) (map fst z) = []"
          using 2(2) by (simp add: later_def filter_map comp_def)
        then have "length (later (t - W) H) = 0" using same [of "t - W"] assms(2) by simp
        then have "\<forall>a \<in> set H. a \<le> t - W" by (auto simp: later_def filter_empty_conv)
        then show ?thesis using 2 H assms(2) by (fastforce simp: cleaned_def tracks_def)
      next
        case 3
        then have "map_of (cleaned t k z ?z1 (redis_store s)) k = Some (RZSet ?z1, Some e)"
          using Some ve True by (simp add: cleaned_def r_lookup_map_of r_alive_def)
        then show ?thesis using z H e same assms(2)
          by (auto simp: tracks_def later_keep)
      qed
    qed
    then show ?thesis using Some ve True z zt same assms(2)
      by (intro that [of z]) (auto simp: zset_of_def r_lookup_map_of r_alive_def)
  qed
qed

text \<open>A check keeps every key tracked, and admits only when the window has room.\<close>

lemma sliding_window_tracks:
  assumes tr: "tracks W used T H (map_of (redis_store s) k)" and t: "T \<le> t" and m: "m \<notin> used" and W: "0 \<le> W"
  shows "tracks W (insert m used) t
           (H @ (case fst (sliding_window k t W L m s) of Inr r \<Rightarrow> if ck_allowed r then [t] else [] | Inl _ \<Rightarrow> []))
           (map_of (redis_store (snd (sliding_window k t W L m s))) k)"
    and "fst (sliding_window k t W L m s) = Inr r \<Longrightarrow> ck_allowed r \<Longrightarrow> int (length (later (t - W) H)) < L"
proof -
  obtain z where z: "zset_of t k s = Some z" "\<forall>p \<in> set z. snd p \<in> used \<and> fst p \<le> t"
    "\<And>x. t - W \<le> x \<Longrightarrow> length (later x (map fst z)) = length (later x H)"
    "tracks W used t H (map_of (cleaned t k z (filter (\<lambda>p. t - W < fst p) z) (redis_store s)) k)"
    using tracked_zset [OF tr t] by metis
  let ?z1 = "filter (\<lambda>p. t - W < fst p) z"
  have n: "length ?z1 = length (later (t - W) H)"
    using z(3) [of "t - W"] by (simp add: later_def filter_map comp_def)
  note eq = sliding_window_eq [OF z(1) refl, of W L m]
  show "fst (sliding_window k t W L m s) = Inr r \<Longrightarrow> ck_allowed r \<Longrightarrow> int (length (later (t - W) H)) < L"
    using n by (auto simp: eq split: if_splits list.splits)
  show "tracks W (insert m used) t
           (H @ (case fst (sliding_window k t W L m s) of Inr r \<Rightarrow> if ck_allowed r then [t] else [] | Inl _ \<Rightarrow> []))
           (map_of (redis_store (snd (sliding_window k t W L m s))) k)"
  proof (cases "L \<le> int (length ?z1)")
    case True
    have "tracks W (insert m used) t H (map_of (cleaned t k z ?z1 (redis_store s)) k)"
      by (rule tracks_later [OF z(4)]) auto
    then show ?thesis using True by (cases ?z1) (simp_all add: eq)
  next
    case False
    have fresh: "\<forall>p \<in> set ?z1. snd p \<noteq> m" using z(2) m by auto
    have s1: "length (later x (map fst (zadd t m ?z1))) = length (later x (H @ [t]))" if "t - W \<le> x" for x
      using later_zadd [OF fresh, of x t] z(3) [OF that] later_keep [OF that, of z] by (simp add: later_def [of x "[t]"])
    have s2: "set (zadd t m ?z1) \<subseteq> insert (t, m) (set z)"
      unfolding zadd_def set_sort by auto
    have H: "\<forall>a \<in> set H. a \<le> t" using z(4) by (simp add: tracks_def)
    show ?thesis using False s1 s2 H z(2) W by (fastforce simp: eq tracks_def)
  qed
qed

lemma sliding_window_other:
  assumes "tracks W used T H (map_of (redis_store s) k)" "T \<le> t" "k' \<noteq> k"
  shows "map_of (redis_store (snd (sliding_window k t W L m s))) k' = map_of (redis_store s) k'"
proof -
  obtain z where z: "zset_of t k s = Some z" using tracked_zset [OF assms(1,2)] by metis
  show ?thesis using assms(3) by (simp add: sliding_window_eq [OF z refl] map_of_cleaned_other)
qed

text \<open>No window of the length of the limit's holds more admitted calls than the limit.\<close>

definition within :: "int \<Rightarrow> int \<Rightarrow> int list \<Rightarrow> bool" where
  "within W L H \<longleftrightarrow> (\<forall>x. int (length (filter (\<lambda>a. x - W < a \<and> a \<le> x) H)) \<le> max 0 L)"

lemma within_snoc:
  assumes "within W L H" "\<forall>a \<in> set H. a \<le> t" "int (length (later (t - W) H)) < L"
  shows "within W L (H @ [t])"
  unfolding within_def
proof
  fix x
  show "int (length (filter (\<lambda>a. x - W < a \<and> a \<le> x) (H @ [t]))) \<le> max 0 L"
  proof (cases "t \<le> x")
    case False
    then show ?thesis using assms(1) by (simp add: within_def)
  next
    case True
    have "filter (\<lambda>a. x - W < a \<and> a \<le> x) H = filter (\<lambda>a. x - W < a \<and> a \<le> x) (later (t - W) H)"
      using True by (auto simp: later_def intro: filter_cong)
    then have "length (filter (\<lambda>a. x - W < a \<and> a \<le> x) H) \<le> length (later (t - W) H)" by simp
    then show ?thesis using assms(3) by simp
  qed
qed

lemma admitted_within:
  assumes "sorted (map (fst \<circ> snd) cs)" "distinct (map (snd \<circ> snd) cs)" "0 \<le> W"
    and "\<And>c. c \<in> set cs \<Longrightarrow> T \<le> fst (snd c) \<and> snd (snd c) \<notin> used"
    and "\<And>k. tracks W used T (H k) (map_of (redis_store s) k)" "within W L (H k)"
  shows "within W L (H k @ times_of k (admitted W L cs s))"
  using assms
proof (induction cs arbitrary: s T H used)
  case (Cons c cs)
  obtain key t m where c: "c = (key, t, m)" by (cases c)
  have t: "T \<le> t" "m \<notin> used" using Cons.prems(4) [of c] c by auto
  obtain r s' where run: "sliding_window key t W L m s = (r, s')" by (cases "sliding_window key t W L m s")
  let ?new = "case r of Inr x \<Rightarrow> if ck_allowed x then [t] else [] | Inl _ \<Rightarrow> []"
  let ?H = "\<lambda>k'. if k' = key then H key @ ?new else H k'"
  note tr = sliding_window_tracks [OF Cons.prems(5) t Cons.prems(3), of key L]
  have tracks': "tracks W (insert m used) t (?H k') (map_of (redis_store s') k')" for k'
    using tr(1) sliding_window_other [OF Cons.prems(5) t(1), of k' key L m] run
      tracks_later [OF Cons.prems(5) t(1), of "insert m used" k'] by auto
  have wi: "within W L (?H k)"
  proof (cases "k = key \<and> ?new \<noteq> []")
    case True
    then obtain x where x: "r = Inr x" "ck_allowed x" by (cases r) (auto split: if_splits)
    have "\<forall>a \<in> set (H key). a \<le> t" using Cons.prems(5) [of key] t by (force simp: tracks_def)
    then show ?thesis using within_snoc [of W L "H key" t] tr(2) [of x] x run Cons.prems(6) True by simp
  next
    case False
    then show ?thesis using Cons.prems(6) by (cases "?new = []") auto
  qed
  have "within W L (?H k @ times_of k (admitted W L cs s'))"
  proof (rule Cons.IH [of t "insert m used" ?H, OF _ _ Cons.prems(3) _ tracks' wi])
    show "\<And>c'. c' \<in> set cs \<Longrightarrow> t \<le> fst (snd c') \<and> snd (snd c') \<notin> insert m used"
      using Cons.prems(1,2,4) c by (force simp: image_iff)
  qed (use Cons.prems(1,2) in simp_all)
  moreover have "times_of k (admitted W L (c # cs) s) = (if k = key then ?new else []) @ times_of k (admitted W L cs s')"
    using run c by (cases r) (auto simp: times_of_def)
  ultimately show ?case by auto
qed (simp add: times_of_def)

section \<open>What the request hash identifies\<close>

text \<open>The value whose printing is the stable text of a plain value.\<close>

fun sorted_json :: "json \<Rightarrow> json" where
  "sorted_json (JArr xs) = JArr (map sorted_json xs)"
| "sorted_json (JObj o1) = JObj (sort_key fst (map (\<lambda>(k, v). (k, sorted_json v)) o1))"
| "sorted_json v = v"

lemma sorted_json_defined [simp]: "sorted_json v = JUndefined \<longleftrightarrow> v = JUndefined"
  by (cases v) simp_all

lemma stable_text: "plain v \<Longrightarrow> stableStringify v = json_text (sorted_json v)"
proof (induction v rule: sorted_json.induct)
  case (1 xs)
  then have m: "map stableStringify xs = map json_text (map sorted_json xs)" by (auto simp: list_all_iff)
  show ?case by (simp only: stableStringify.simps sorted_json.simps json_text.simps m)
next
  case (2 o1)
  have m: "map (\<lambda>(k, v). (k, stableStringify v)) o1 =
      map (\<lambda>(k, v). (k, json_text v)) (map (\<lambda>(k, v). (k, sorted_json v)) o1)"
    using 2 by (auto simp: list_all_iff)
  have "v \<noteq> JUndefined" if "(k, v) \<in> set o1" for k v
    using that 2(2) by (cases v) (auto simp: list_all_iff)
  then have d: "filter (\<lambda>p. snd p \<noteq> JUndefined) (sort_key fst (map (\<lambda>(k, v). (k, sorted_json v)) o1)) =
      sort_key fst (map (\<lambda>(k, v). (k, sorted_json v)) o1)"
    by (intro filter_defined) auto
  have t: "sort_key fst (map (\<lambda>(k, v). (k, json_text v)) M) = map (\<lambda>(k, v). (k, json_text v)) (sort_key fst M)" for M
    by (rule sort_key_map_snd [symmetric])
  show ?case
    by (simp only: stableStringify.simps m t sorted_json.simps json_text.simps d)
       (simp add: comp_def case_prod_unfold)
qed simp_all

lemma sorted_json_shape: "plain v \<and> keyed_json v \<Longrightarrow> plain (sorted_json v) \<and> keyed_json (sorted_json v)"
proof (induction v rule: sorted_json.induct)
  case (2 o1)
  have "distinct (map fst (map (\<lambda>(k, v). (k, sorted_json v)) o1))"
    unfolding distinct_map_snd using 2(2) by simp
  note d = distinct_sort_members [OF this]
  have "plain (sorted_json v) \<and> keyed_json (sorted_json v)" if "(k, v) \<in> set o1" for k v
    using 2(1) [of "(k, v)" k v] 2(2) that by (auto simp: list_all_iff)
  then show ?case using d by (auto simp: list_all_iff)
qed (auto simp: list_all_iff)

lemma sorted_json_same: "plain v \<and> keyed_json v \<Longrightarrow> json_same v (sorted_json v)"
proof (induction v rule: sorted_json.induct)
  case (1 xs)
  then show ?case by (auto intro!: same_arr simp: list_all2_conv_all_nth list_all_iff)
next
  case (2 o1)
  have "distinct (map fst (map (\<lambda>(k, v). (k, sorted_json v)) o1))"
    unfolding distinct_map_snd using 2(2) by simp
  note m = map_of_sort_members [OF this]
  have "rel_option json_same (map_of o1 k) (map_option sorted_json (map_of o1 k))" for k
  proof (cases "map_of o1 k")
    case (Some v)
    then have kv: "(k, v) \<in> set o1" by (rule map_of_SomeD)
    then have "plain v \<and> keyed_json v" using 2(2) by (auto simp: list_all_iff)
    then show ?thesis using 2(1) [of "(k, v)" k v] kv Some by simp
  qed simp
  then show ?case by (simp add: m map_of_map_snd same_obj)
qed (auto intro: json_same.intros)

lemma same_sorted_json: "json_same v w \<Longrightarrow> plain v \<and> keyed_json v \<Longrightarrow> plain w \<and> keyed_json w \<Longrightarrow>
   sorted_json v = sorted_json w"
proof (induction rule: json_same.induct)
  case (same_arr xs ys)
  then show ?case by (auto simp: list_all2_conv_all_nth list_all_length intro: nth_equalityI)
next
  case (same_obj o1 o2)
  have "sort_key fst (map (\<lambda>(k, v). (k, sorted_json v)) o1) = sort_key fst (map (\<lambda>(k, v). (k, sorted_json v)) o2)"
    by (rule same_sorted_members [where P = "\<lambda>v. plain v \<and> keyed_json v"])
       (use same_obj in \<open>auto simp: list_all_iff elim!: option.rel_mono_strong\<close>)
  then show ?case by simp
qed simp_all

lemma stable_text_iff:
  assumes "plain v \<and> keyed_json v" "plain w \<and> keyed_json w"
  shows "stableStringify v = stableStringify w \<longleftrightarrow> json_same v w"
proof
  assume "stableStringify v = stableStringify w"
  then have "reread (sorted_json v) = reread (sorted_json w)"
    using assms by (metis json_parse_reread option.inject stable_text)
  then show "json_same v w"
    using sorted_json_same [OF assms(1)] sorted_json_same [OF assms(2)]
      reread_same [of "sorted_json v"] reread_same [of "sorted_json w"] sorted_json_shape assms
    by (metis json_same_sym json_same_trans)
qed (use assms same_sorted_json stable_text in metis)

lemma nullish_plain: "plain v \<Longrightarrow> nullish v JNull = v"
  by (cases v) (simp_all add: nullish_def)

text \<open>One pass through the interceptor: what a key's entry makes of a call.\<close>

lemma idempotent_hit:
  assumes "map_of (rq_headers req) ''idempotency-key'' = Some key" "key \<noteq> []"
    and "r_lookup now (cache_key key) (redis_store s) = Some (RStr (json_text (cached_response h st b)), e)"
  shows "idempotent_call sha now True ov req handler s =
    (if h = computeRequestHash sha (rq_method req) (rq_path req) (rq_body req)
     then (Inr (JNum st, if b = JUndefined then JUndefined else reread b), s)
     else (Inl (http_exn IDEMPOTENCY_KEY_REUSED 409
                  ''Idempotency key was previously used with a different request body''), s))"
proof -
  have ni: "\<not> index_key ''responseStatus''" "\<not> index_key ''requestHash''" "\<not> index_key ''responseBody''"
    by (simp_all add: index_key_def is_digit_def)
  have "\<exists>c. json_parse (json_text (cached_response h st b)) = Some (JObj c) \<and>
      jget c ''requestHash'' = JStr h \<and> jget c ''responseStatus'' = JNum st \<and>
      jget c ''responseBody'' = (if b = JUndefined then JUndefined else reread b)"
    unfolding json_parse_reread cached_response_def
    by (auto simp: jget_def key_before_def ni)
  then show ?thesis using assms
    by (auto simp: idempotent_call_def nonempty_def Let_def redis_runs run_simps)
qed

lemma idempotent_miss:
  assumes "map_of (rq_headers req) ''idempotency-key'' = Some key" "key \<noteq> []"
    and "r_lookup now (cache_key key) (redis_store s) = None" and "handler s = (Inr b, t)"
  shows "idempotent_call sha now True ov req handler s =
    (Inr (JNum (default_status (rq_method req) ov), b),
     redis_store_update (r_put (cache_key key)
       (RStr (json_text (cached_response (computeRequestHash sha (rq_method req) (rq_path req) (rq_body req))
               (default_status (rq_method req) ov) b)))
       (Some (now + IDEMPOTENCY_TTL_SECONDS * 1000))) t)"
  using assms by (simp add: idempotent_call_def nonempty_def Let_def redis_runs run_simps)

section \<open>Properties\<close>

text \<open>The sliding window holds its limit: for calls in the order of their times, each with
  a fresh member, starting from an empty Redis, no interval as long as the window contains
  more admitted calls of one key than the limit, whichever calls were refused and however
  other keys are interleaved.\<close>

theorem rate_limit_window:
  assumes "sorted (map (fst \<circ> snd) calls)" "distinct (map (snd \<circ> snd) calls)" "0 \<le> W"
    and "redis_store s = []"
  shows "int (length (filter (\<lambda>a. x - W < a \<and> a \<le> x) (times_of k (admitted W L calls s)))) \<le> max 0 L"
proof -
  have start: "tracks W {} (if calls = [] then 0 else fst (snd (hd calls))) [] (map_of (redis_store s) k')" for k'
    by (simp add: tracks_def assms(4))
  have first: "(if calls = [] then 0 else fst (snd (hd calls))) \<le> fst (snd c)" if "c \<in> set calls" for c
    using assms(1) that by (cases calls) auto
  have "within W L ((\<lambda>_. []) k @ times_of k (admitted W L calls s))"
    by (rule admitted_within [OF assms(1-3) _ start]) (simp_all add: first within_def)
  then show ?thesis by (simp add: within_def)
qed

text \<open>A profile with only a user limit limits nobody: no code sets the userId field of the
  request, so the guard admits every call of such a route, sets no header and touches no
  counter (the download route has exactly such a profile).\<close>

theorem user_limit_never_applies:
  "rate_limit_guard now uuids (Some \<lparr>rl_user = us, rl_ip = None\<rparr>) ip None s =
     (Inr \<lparr>vd_headers = [], vd_refusal = None\<rparr>, s)"
  by (cases us) (simp_all add: rate_limit_guard_def limit_checks_def nonempty_def return_def Let_def)

text \<open>A retried call is replayed, not repeated: after a call of an idempotent handler that
  returned a proper JSON body, any call with the same key, method, path and body within 24
  hours, from whatever state in which that Redis entry is untouched and whatever its handler
  would do, leaves the state alone and answers with the same status and a body that prints
  to the same bytes.  The second caller may be another user: the key is not bound to one.\<close>

theorem replay_is_idempotent:
  assumes "map_of (rq_headers req) ''idempotency-key'' = Some key" "key \<noteq> []"
    and "r_lookup now (cache_key key) (redis_store s) = None"
    and "handler s = (Inr b, t)" "wf_json b" "b \<noteq> JUndefined"
    and "map_of (redis_store u) (cache_key key) =
           map_of (redis_store (snd (idempotent_call sha now True ov req handler s))) (cache_key key)"
    and "now \<le> later1" "later1 \<le> now + 24 * 60 * 60 * 1000"
    and "map_of (rq_headers req') ''idempotency-key'' = Some key"
    and "rq_method req' = rq_method req" "rq_path req' = rq_path req" "rq_body req' = rq_body req"
  shows "\<exists>st b'. fst (idempotent_call sha now True ov req handler s) = Inr (st, b) \<and>
           idempotent_call sha later1 True ov' req' handler' u = (Inr (st, b'), u) \<and>
           json_text b' = json_text b"
proof -
  note miss = idempotent_miss [where sha = sha and ov = ov and handler = handler and s = s and b = b and t = t, OF assms(1-4)]
  have "r_lookup later1 (cache_key key) (redis_store u) =
      Some (RStr (json_text (cached_response (computeRequestHash sha (rq_method req) (rq_path req) (rq_body req))
               (default_status (rq_method req) ov) b)), Some (now + IDEMPOTENCY_TTL_SECONDS * 1000))"
    using assms(7,9) by (simp add: miss r_lookup_map_of r_alive_def IDEMPOTENCY_TTL_SECONDS_def)
  from idempotent_hit [OF assms(10,2) this, of sha ov' handler'] assms(6,11-13)
  have "idempotent_call sha later1 True ov' req' handler' u =
      (Inr (JNum (default_status (rq_method req) ov), reread b), u)" by simp
  moreover have "json_text (reread b) = json_text b"
    using assms(5) by (simp add: reread_wire json_text_wire)
  ultimately show ?thesis using miss by simp
qed

text \<open>A key cannot be reused: with the entry of an earlier call live, a call with the same
  key, method and path whose body is a different JSON value (not merely reordered) is
  answered 409 IDEMPOTENCY_KEY_REUSED and neither runs its handler nor changes the state,
  provided SHA-256 does not collide on the two texts.\<close>

theorem key_reuse_refused:
  assumes "map_of (rq_headers req) ''idempotency-key'' = Some key" "key \<noteq> []"
    and "r_lookup now (cache_key key) (redis_store s) =
           Some (RStr (json_text (cached_response
                   (computeRequestHash sha (rq_method req) (rq_path req) body0) st b)), e)"
    and "plain body0 \<and> keyed_json body0" "plain (rq_body req) \<and> keyed_json (rq_body req)"
    and "\<not> json_same body0 (rq_body req)"
    and "computeRequestHash sha (rq_method req) (rq_path req) body0 =
           computeRequestHash sha (rq_method req) (rq_path req) (rq_body req) \<Longrightarrow>
         stableStringify body0 = stableStringify (rq_body req)"
  shows "idempotent_call sha now True ov req handler s =
    (Inl (http_exn IDEMPOTENCY_KEY_REUSED 409
            ''Idempotency key was previously used with a different request body''), s)"
proof -
  have "stableStringify body0 \<noteq> stableStringify (rq_body req)"
    using stable_text_iff [OF assms(4,5)] assms(6) by simp
  then show ?thesis using idempotent_hit [OF assms(1-3)] assms(7) by auto
qed

section \<open>Witnesses\<close>

lemma rate_limit_window_witness:
  "times_of ''a'' (admitted 10 2 [(''a'', 1, ''m1''), (''a'', 2, ''m2''), (''a'', 3, ''m3''), (''a'', 12, ''m4'')] empty_sys) = [1, 2, 12] \<and>
   int (length (filter (\<lambda>a. 3 - 10 < a \<and> a \<le> 3)
     (times_of ''a'' (admitted 10 2 [(''a'', 1, ''m1''), (''a'', 2, ''m2''), (''a'', 3, ''m3''), (''a'', 12, ''m4'')] empty_sys)))) \<le> 2"
proof -
  have "times_of ''a'' (admitted 10 2 [(''a'', 1, ''m1''), (''a'', 2, ''m2''), (''a'', 3, ''m3''), (''a'', 12, ''m4'')] empty_sys) = [1, 2, 12]"
    by (simp add: times_of_def sliding_window_def zset_of_def run_simps Let_def empty_sys_def zadd_def
        r_alive_def r_put_def r_del_def less_prod_def' less_eq_prod_def)
  moreover have "int (length (filter (\<lambda>a. 3 - 10 < a \<and> a \<le> 3)
     (times_of ''a'' (admitted 10 2 [(''a'', 1, ''m1''), (''a'', 2, ''m2''), (''a'', 3, ''m3''), (''a'', 12, ''m4'')] empty_sys)))) \<le> max 0 2"
    by (rule rate_limit_window) (simp_all add: empty_sys_def)
  ultimately show ?thesis by simp
qed

definition sample_idempotent :: "json \<Rightarrow> http_request" where
  "sample_idempotent body = \<lparr>rq_method = ''POST'', rq_path = ''/payouts'', rq_params = [], rq_body = body,
     rq_headers = [(''idempotency-key'', ''k1'')], rq_ip = None, rq_user = Some 1, rq_impersonation = None\<rparr>"

lemma replay_is_idempotent_witness:
  "\<exists>st b' st'. fst (idempotent_call id 1000 True None (sample_idempotent JNull)
             (return (JObj [(''data'', JBig 7)])) empty_sys) = Inr (st', JObj [(''data'', JBig 7)]) \<and>
     idempotent_call id 5000 True None (sample_idempotent JNull) (throw (JsError ''never run''))
     (snd (idempotent_call id 1000 True None (sample_idempotent JNull)
             (return (JObj [(''data'', JBig 7)])) empty_sys)) =
     (Inr (st, b'), snd (idempotent_call id 1000 True None (sample_idempotent JNull)
             (return (JObj [(''data'', JBig 7)])) empty_sys)) \<and>
     json_text b' = json_text (JObj [(''data'', JBig 7)])"
proof -
  have r: "map_of (rq_headers (sample_idempotent JNull)) ''idempotency-key'' = Some ''k1''" "''k1'' \<noteq> []"
    "r_lookup 1000 (cache_key ''k1'') (redis_store empty_sys) = None"
    "return (JObj [(''data'', JBig 7)]) empty_sys = (Inr (JObj [(''data'', JBig 7)]), empty_sys)"
    "wf_json (JObj [(''data'', JBig 7)])" "JObj [(''data'', JBig 7)] \<noteq> JUndefined"
    by (simp_all add: sample_idempotent_def empty_sys_def return_def in_order_def)
  have t: "(1000::int) \<le> 5000" "(5000::int) \<le> 1000 + 24 * 60 * 60 * 1000" by simp_all
  show ?thesis
    using replay_is_idempotent [where handler = "return (JObj [(''data'', JBig 7)])" and s = empty_sys and
        t = empty_sys and sha = id and ov = None and ov' = None and handler' = "throw (JsError ''never run'')",
        OF r refl t r(1) refl refl refl] by blast
qed

lemma key_reuse_refused_witness:
  "\<exists>s. idempotent_call id 2000 True None (sample_idempotent (JObj [(''amount'', JNum 2)])) (return JNull) (s :: sys) =
   (Inl (http_exn IDEMPOTENCY_KEY_REUSED 409
           ''Idempotency key was previously used with a different request body''), s)"
proof
  let ?s = "empty_sys\<lparr>redis_store := [(''idem:k1'', RStr (json_text (cached_response
         (computeRequestHash id ''POST'' ''/payouts'' (JObj [(''amount'', JNum 1)])) 201 JNull)), Some 9000)]\<rparr>"
  have ne: "\<not> json_same (JObj [(''amount'', JNum 1)]) (JObj [(''amount'', JNum 2)])"
    by (auto simp: json_same_simps dest!: spec [of _ "''amount''"])
  let ?r = "sample_idempotent (JObj [(''amount'', JNum 2)])"
  have r: "map_of (rq_headers ?r) ''idempotency-key'' = Some ''k1''" "rq_method ?r = ''POST''"
    "rq_path ?r = ''/payouts''" "rq_body ?r = JObj [(''amount'', JNum 2)]"
    by (simp_all add: sample_idempotent_def)
  have c: "r_lookup 2000 (cache_key ''k1'') (redis_store ?s) =
     Some (RStr (json_text (cached_response (computeRequestHash id (rq_method ?r) (rq_path ?r) (JObj [(''amount'', JNum 1)])) 201 JNull)), Some 9000)"
    by (simp add: r cache_key_def r_alive_def)
  show "idempotent_call id 2000 True None ?r (return JNull) ?s =
   (Inl (http_exn IDEMPOTENCY_KEY_REUSED 409
           ''Idempotency key was previously used with a different request body''), ?s)"
    by (rule key_reuse_refused [OF r(1) _ c])
       (simp_all add: r ne computeRequestHash_def nullish_plain)
qed

end
