(* ===== verification/Otp.thy ===== *)
theory Otp
  imports Users Throttle
begin

text \<open>
  core/otp/otp.service.ts: one-time codes.  A code lives as a hash in the table
  otp_attempts, which counts the attempts, and under a Redis key that is the fast path of
  verification; a second key is the cooldown lock.  The random number of generateCode is
  an argument.  The lemmas bound the guesses an attacker gets by five per code and space
  the codes of a phone by the cooldown, show that a consumed code never verifies again,
  and that consuming a code makes an older unused one valid again.
\<close>

definition OTP_TTL_SECONDS :: int where
  "OTP_TTL_SECONDS = 120"

definition OTP_LOCK_SECONDS :: int where
  "OTP_LOCK_SECONDS = 60"

definition MAX_ATTEMPTS :: int where
  "MAX_ATTEMPTS = 5"

definition otpKey :: "string \<Rightarrow> string" where
  "otpKey phone = ''otp:'' @ phone"

definition lockKey :: "string \<Rightarrow> string" where
  "lockKey phone = ''otp:lock:'' @ phone"

definition testKey :: "string \<Rightarrow> string" where
  "testKey phone = ''otp:test:'' @ phone"

datatype verify_result = Valid bool | Invalid error_code

definition generateCode :: "platform \<Rightarrow> int \<Rightarrow> string" where
  "generateCode pf random = (if pf_node_env pf = ''development'' then ''000000'' else int_to_string random)"

definition hashCode :: "platform \<Rightarrow> string \<Rightarrow> string \<Rightarrow> string" where
  "hashCode pf code phone = pf_sha256 pf (code @ phone @ pf_otp_salt pf)"

definition otp_create :: "int \<Rightarrow> string \<Rightarrow> string \<Rightarrow> int \<Rightarrow> ('x sys_scheme, otp_attempt) M" where
  "otp_create now phone codeHash expiresAt =
     (if \<not> (char_count phone \<le> 15 \<and> length codeHash \<le> 128) then throw (PrismaKnown ''P2000'' JUndefined)
      else create_in otp_attempts otp_attempts_update (\<lambda>i.
        \<lparr>o_id = i, o_phone = phone, o_codeHash = codeHash, o_attempts = 0, o_expiresAt = expiresAt,
         o_consumedAt = None, o_createdAt = now\<rparr>))"

definition otp_rate_limited :: "int \<Rightarrow> exn" where
  "otp_rate_limited ttl = http_exn_details OTP_RATE_LIMITED 429
     ''OTP can be requested again after the cooldown'' (JObj [(''retryAfterSeconds'', JNum (max ttl 0))])"

definition generateAndStore :: "platform \<Rightarrow> int \<Rightarrow> string \<Rightarrow> ('x sys_scheme, string \<times> int) M" where
  "generateAndStore pf random phone =
     bind (redis_set_nx (pf_now pf) (lockKey phone) ''1'' OTP_LOCK_SECONDS) (\<lambda>acquired.
       if \<not> acquired then
         bind (redis_ttl (pf_now pf) (lockKey phone)) (\<lambda>ttl. throw (otp_rate_limited ttl))
       else
         (let code = generateCode pf random; codeHash = hashCode pf code phone in
          seq (bind (otp_create (pf_now pf) phone codeHash (pf_now pf + OTP_TTL_SECONDS * 1000)) (\<lambda>_. return ()))
         (seq (redis_set_ex (pf_now pf) (otpKey phone) codeHash OTP_TTL_SECONDS)
         (seq (if pf_node_env pf = ''test''
               then redis_set_ex (pf_now pf) (testKey phone) code OTP_TTL_SECONDS else return ())
              (return (code, OTP_TTL_SECONDS))))))"

text \<open>findFirst of the unconsumed attempts of a phone, newest first.\<close>

definition latest_attempt :: "string \<Rightarrow> string option \<Rightarrow> 'x sys_scheme \<Rightarrow> otp_attempt option" where
  "latest_attempt phone hash s =
     (case rev (sort_key o_createdAt (t_filter (\<lambda>a. o_phone a = phone \<and> o_consumedAt a = None \<and>
         (case hash of None \<Rightarrow> True | Some h \<Rightarrow> o_codeHash a = h)) (otp_attempts s))) of
        [] \<Rightarrow> None | a # _ \<Rightarrow> Some a)"

definition too_many_attempts :: exn where
  "too_many_attempts = http_exn OTP_TOO_MANY_ATTEMPTS 429
     ''Too many failed verification attempts; request a new OTP''"

definition verify_attempt :: "platform \<Rightarrow> string \<Rightarrow> string \<Rightarrow> otp_attempt \<Rightarrow> string \<Rightarrow> ('x sys_scheme, verify_result) M" where
  "verify_attempt pf phone submittedCode attempt codeHash =
     (if o_expiresAt attempt < pf_now pf then
        seq (redis_del (otpKey phone)) (return (Invalid OTP_EXPIRED))
      else
        bind (update_in otp_attempts otp_attempts_update o_id (o_id attempt)
                (\<lambda>a. a\<lparr>o_attempts := o_attempts a + 1\<rparr>)) (\<lambda>updated.
          if o_attempts updated > MAX_ATTEMPTS then
            seq (redis_del (otpKey phone)) (throw too_many_attempts)
          else if hex_bytes (hashCode pf submittedCode phone) \<noteq> hex_bytes codeHash then
            return (Invalid OTP_INVALID)
          else bind (users_findByPhone phone) (\<lambda>user. return (Valid (user \<noteq> None)))))"

definition otp_verify :: "platform \<Rightarrow> string \<Rightarrow> string \<Rightarrow> ('x sys_scheme, verify_result) M" where
  "otp_verify pf phone submittedCode =
     bind (redis_get (pf_now pf) (otpKey phone)) (\<lambda>cached.
     bind (gets (latest_attempt phone (nonempty cached))) (\<lambda>found.
       case found of
         None \<Rightarrow> return (Invalid OTP_NOT_FOUND)
       | Some attempt \<Rightarrow>
           (let codeHash = (case nonempty cached of Some h \<Rightarrow> h | None \<Rightarrow> o_codeHash attempt) in
            if codeHash = [] then return (Invalid OTP_NOT_FOUND)
            else verify_attempt pf phone submittedCode attempt codeHash)))"

definition otp_consume :: "platform \<Rightarrow> string \<Rightarrow> string \<Rightarrow> ('x sys_scheme, unit) M" where
  "otp_consume pf phone code =
     seq (redis_del (otpKey phone))
       (modify (otp_attempts_update (t_update
          (\<lambda>a. o_phone a = phone \<and> o_codeHash a = hashCode pf code phone \<and> o_consumedAt a = None)
          (\<lambda>a. a\<lparr>o_consumedAt := Some (pf_now pf)\<rparr>))))"

section \<open>Sequences of calls\<close>

datatype otp_op =
    OGenerate string int
  | OVerify string string
  | OConsume string string

definition run_otp :: "platform \<Rightarrow> otp_op \<Rightarrow> ('x sys_scheme, verify_result option) M" where
  "run_otp pf op = (case op of
       OGenerate ph random \<Rightarrow> bind (generateAndStore pf random ph) (\<lambda>_. return None)
     | OVerify ph code \<Rightarrow> bind (otp_verify pf ph code) (\<lambda>r. return (Some r))
     | OConsume ph code \<Rightarrow> seq (otp_consume pf ph code) (return None))"

fun run_otps :: "platform \<Rightarrow> (int \<times> otp_op) list \<Rightarrow> 'x sys_scheme \<Rightarrow> 'x sys_scheme" where
  "run_otps pf [] s = s"
| "run_otps pf ((now, op) # ops) s = run_otps pf ops (snd (run_otp (pf_at now pf) op s))"

text \<open>A verification that compared the submitted code with the stored hash.\<close>

definition compared :: "exn + verify_result option \<Rightarrow> bool" where
  "compared r \<longleftrightarrow> (\<exists>b. r = Inr (Some (Valid b))) \<or> r = Inr (Some (Invalid OTP_INVALID))"

fun guesses :: "platform \<Rightarrow> string \<Rightarrow> (int \<times> otp_op) list \<Rightarrow> 'x sys_scheme \<Rightarrow> nat" where
  "guesses pf p [] s = 0"
| "guesses pf p ((now, op) # ops) s =
     (let (r, t) = run_otp (pf_at now pf) op s in
      (if (\<exists>code. op = OVerify p code) \<and> compared r then 1 else 0) + guesses pf p ops t)"

text \<open>The times at which codes for a phone were handed out.\<close>

fun issued_at :: "platform \<Rightarrow> string \<Rightarrow> (int \<times> otp_op) list \<Rightarrow> 'x sys_scheme \<Rightarrow> int list" where
  "issued_at pf p [] s = []"
| "issued_at pf p ((now, op) # ops) s =
     (let (r, t) = run_otp (pf_at now pf) op s in
      (if (\<exists>random. op = OGenerate p random) \<and> (\<exists>x. r = Inr x) then [now] else []) @ issued_at pf p ops t)"

section \<open>Guesses\<close>

lemma t_sum_change:
  assumes "wf_table k T" "a \<in> set (rows T)" "\<And>r. P (g r) = P r"
  shows "t_sum P f (t_change k (k a) g T) = t_sum P f T + (if P a then f (g a) - f a else 0)"
proof -
  have step: "sum_list (map f (filter P (map (\<lambda>r. if k r = k a then g r else r) l))) =
      sum_list (map f (filter P l)) + (if a \<in> set l \<and> P a then f (g a) - f a else 0)"
    if "distinct (map k l)" "a \<in> set l \<or> k a \<notin> k ` set l" for l
    using that
  proof (induction l)
    case (Cons r l)
    show ?case
    proof (cases "k r = k a")
      case True
      then have "r = a" "k a \<notin> k ` set l" using Cons.prems by auto
      moreover have "map (\<lambda>r. if k r = k a then g r else r) l = l"
        using \<open>k a \<notin> k ` set l\<close> by (intro map_idI) (metis imageI)
      ultimately show ?thesis using assms(3) by auto
    next
      case False
      then show ?thesis using Cons by (auto simp: image_iff)
    qed
  qed simp
  show ?thesis
    using step [OF wf_distinct [OF assms(1)]] assms(2)
    by (simp add: t_sum_def t_filter_def t_change_def table_simps)
qed

text \<open>The guesses left on the codes of a phone.\<close>

definition guesses_left :: "string \<Rightarrow> 'x sys_scheme \<Rightarrow> int" where
  "guesses_left p s =
     t_sum (\<lambda>a. o_phone a = p) (\<lambda>a. MAX_ATTEMPTS - min MAX_ATTEMPTS (o_attempts a)) (otp_attempts s)"

lemma latest_attempt_Some: "latest_attempt ph h s = Some a \<Longrightarrow>
    a \<in> set (rows (otp_attempts s)) \<and> o_phone a = ph \<and> o_consumedAt a = None \<and> (\<forall>x. h = Some x \<longrightarrow> o_codeHash a = x)"
proof -
  assume l: "latest_attempt ph h s = Some a"
  let ?P = "\<lambda>a. o_phone a = ph \<and> o_consumedAt a = None \<and> (case h of None \<Rightarrow> True | Some h \<Rightarrow> o_codeHash a = h)"
  let ?l = "rev (sort_key o_createdAt (t_filter ?P (otp_attempts s)))"
  have "a \<in> set ?l" using l unfolding latest_attempt_def by (cases ?l) simp_all
  then have "a \<in> set (t_filter ?P (otp_attempts s))" by simp
  then show ?thesis by (auto simp: t_filter_def)
qed

lemma redis_keeps_otp [simp]:
  "otp_attempts (snd (redis_get now k s)) = otp_attempts s"
  "otp_attempts (snd (redis_set_ex now k v sec s)) = otp_attempts s"
  "otp_attempts (snd (redis_del k s)) = otp_attempts s"
  by (auto simp: redis_runs split: option.splits redis_value.splits)

text \<open>One verification: the counter of the attempt it looked at, when it got that far.\<close>

lemma verify_attempt_table:
  assumes "verify_attempt pf ph code a h s = (r, t)"
  shows "otp_attempts t = otp_attempts s \<and> (r \<noteq> Inr (Invalid OTP_INVALID) \<and> (\<forall>b. r \<noteq> Inr (Valid b))) \<or>
     (\<exists>a'. t_get o_id (o_id a) (otp_attempts s) = Some a' \<and>
       otp_attempts t = t_change o_id (o_id a) (\<lambda>a. a\<lparr>o_attempts := o_attempts a + 1\<rparr>) (otp_attempts s) \<and>
       (MAX_ATTEMPTS < o_attempts a' + 1 \<longrightarrow> r = Inl too_many_attempts))"
  using assms
  by (auto simp: verify_attempt_def run_simps redis_del_def update_in_def users_findByPhone_def
      split: option.splits if_splits)

lemma otp_verify_table:
  assumes "otp_verify pf ph code s = (r, t)"
  shows "otp_attempts t = otp_attempts s \<and> (r \<noteq> Inr (Invalid OTP_INVALID) \<and> (\<forall>b. r \<noteq> Inr (Valid b))) \<or>
     (\<exists>a. a \<in> set (rows (otp_attempts s)) \<and> o_phone a = ph \<and> o_consumedAt a = None \<and>
       (\<exists>a'. t_get o_id (o_id a) (otp_attempts s) = Some a' \<and>
       otp_attempts t = t_change o_id (o_id a) (\<lambda>a. a\<lparr>o_attempts := o_attempts a + 1\<rparr>) (otp_attempts s) \<and>
       (MAX_ATTEMPTS < o_attempts a' + 1 \<longrightarrow> r = Inl too_many_attempts)))"
proof -
  obtain c s1 where c: "redis_get (pf_now pf) (otpKey ph) s = (c, s1)" by (cases "redis_get (pf_now pf) (otpKey ph) s")
  then have s1: "otp_attempts s1 = otp_attempts s" using redis_keeps_otp(1) [of "pf_now pf" "otpKey ph" s] by simp
  show ?thesis
  proof (cases c)
    case (Inl e)
    then show ?thesis using assms c s1 by (auto simp: otp_verify_def bind_def)
  next
    case (Inr cached)
    show ?thesis
    proof (cases "latest_attempt ph (nonempty cached) s1")
      case None
      then show ?thesis using assms c s1 Inr by (auto simp: otp_verify_def bind_def gets_def return_def)
    next
      case (Some a)
      let ?h = "case nonempty cached of Some h \<Rightarrow> h | None \<Rightarrow> o_codeHash a"
      show ?thesis
      proof (cases "?h = []")
        case True
        then show ?thesis using assms c s1 Inr Some
          by (auto simp: otp_verify_def bind_def gets_def return_def Let_def)
      next
        case False
        then have "verify_attempt pf ph code a ?h s1 = (r, t)"
          using assms c Inr Some by (simp add: otp_verify_def bind_def gets_def Let_def)
        from verify_attempt_table [OF this] latest_attempt_Some [OF Some] s1 show ?thesis by auto
      qed
    qed
  qed
qed

lemma generate_table:
  assumes "generateAndStore pf random ph s = (r, t)" "wf_table o_id (otp_attempts s)"
  shows "wf_table o_id (otp_attempts t) \<and>
    guesses_left p t = guesses_left p s + (if ph = p \<and> (\<exists>x. r = Inr x) then MAX_ATTEMPTS else 0)"
  using assms
  by (auto simp: generateAndStore_def run_simps redis_runs redis_ttl_def otp_create_def create_in_def Let_def
      guesses_left_def table_simps t_new_def MAX_ATTEMPTS_def split: option.splits if_splits)

lemma verify_table:
  assumes "otp_verify pf ph code s = (r, t)" "wf_table o_id (otp_attempts s)"
  shows "wf_table o_id (otp_attempts t) \<and>
    guesses_left p t \<le> guesses_left p s - (if ph = p \<and> (r = Inr (Invalid OTP_INVALID) \<or> (\<exists>b. r = Inr (Valid b))) then 1 else 0)"
  using otp_verify_table [OF assms(1)]
proof (elim disjE exE conjE)
  fix a a'
  assume a: "a \<in> set (rows (otp_attempts s))" "o_phone a = ph"
    "t_get o_id (o_id a) (otp_attempts s) = Some a'"
    "otp_attempts t = t_change o_id (o_id a) (\<lambda>a. a\<lparr>o_attempts := o_attempts a + 1\<rparr>) (otp_attempts s)"
    "MAX_ATTEMPTS < o_attempts a' + 1 \<longrightarrow> r = Inl too_many_attempts"
  have "a' = a" using t_get_self [OF assms(2) a(1)] a(3) by simp
  then show ?thesis
    using a assms(2) t_sum_change [OF assms(2) a(1), where g = "\<lambda>a. a\<lparr>o_attempts := o_attempts a + 1\<rparr>" and
        P = "\<lambda>a. o_phone a = p" and f = "\<lambda>a. MAX_ATTEMPTS - min MAX_ATTEMPTS (o_attempts a)"]
    by (auto simp: guesses_left_def)
qed (use assms(2) in \<open>auto simp: guesses_left_def\<close>)

lemma consume_table:
  assumes "otp_consume pf ph code s = (r, t)" "wf_table o_id (otp_attempts s)"
  shows "wf_table o_id (otp_attempts t) \<and> guesses_left p t = guesses_left p s"
  using assms by (auto simp: otp_consume_def run_simps redis_del_def guesses_left_def t_sum_update_same)

lemma run_otp_quota:
  assumes "run_otp pf op s = (r, t)" "wf_table o_id (otp_attempts s)"
  shows "wf_table o_id (otp_attempts t) \<and>
    (if (\<exists>code. op = OVerify p code) \<and> compared r then 1 else 0) + guesses_left p t \<le> guesses_left p s +
      (if (\<exists>random. op = OGenerate p random) \<and> (\<exists>x. r = Inr x) then MAX_ATTEMPTS else 0)"
proof (cases op)
  case (OGenerate ph random)
  obtain x u where g: "generateAndStore pf random ph s = (x, u)" by (cases "generateAndStore pf random ph s")
  then show ?thesis using generate_table [OF g assms(2), of p] assms(1) OGenerate
    by (cases x) (auto simp: run_otp_def bind_def return_def)
next
  case (OVerify ph code)
  obtain x u where g: "otp_verify pf ph code s = (x, u)" by (cases "otp_verify pf ph code s")
  then show ?thesis using verify_table [OF g assms(2), of p] assms(1) OVerify
    by (cases x) (auto simp: run_otp_def bind_def return_def compared_def split: if_splits)
next
  case (OConsume ph code)
  obtain x u where g: "otp_consume pf ph code s = (x, u)" by (cases "otp_consume pf ph code s")
  then show ?thesis using consume_table [OF g assms(2), of p] assms(1) OConsume
    by (cases x) (auto simp: run_otp_def seq_def bind_def return_def)
qed

lemma guesses_left_nonneg: "0 \<le> guesses_left p s"
  unfolding guesses_left_def t_sum_def by (rule sum_list_nonneg_int) auto

lemma guesses_quota:
  assumes "wf_table o_id (otp_attempts s)"
  shows "int (guesses pf p ops s) \<le> guesses_left p s + MAX_ATTEMPTS * int (length (issued_at pf p ops s))"
  using assms
proof (induction ops arbitrary: s)
  case Nil
  then show ?case using guesses_left_nonneg [of p s] by simp
next
  case (Cons q ops)
  obtain now op where q: "q = (now, op)" by (cases q)
  obtain r t where g: "run_otp (pf_at now pf) op s = (r, t)" by (cases "run_otp (pf_at now pf) op s")
  from run_otp_quota [OF g Cons.prems, of p] Cons.IH [of t] show ?case
    by (auto simp: q g Let_def algebra_simps split: if_splits)
qed

section \<open>The cooldown\<close>

definition locked :: "string \<Rightarrow> int \<Rightarrow> 'x sys_scheme \<Rightarrow> bool" where
  "locked p L s \<longleftrightarrow> (\<exists>v e. map_of (redis_store s) (lockKey p) = Some (v, Some e) \<and> L + OTP_LOCK_SECONDS * 1000 \<le> e)"

primrec op_phone :: "otp_op \<Rightarrow> string" where
  "op_phone (OGenerate ph random) = ph"
| "op_phone (OVerify ph code) = ph"
| "op_phone (OConsume ph code) = ph"

lemma keys_differ:
  "hd p = CHR ''+'' \<Longrightarrow> p \<noteq> [] \<Longrightarrow> otpKey p \<noteq> lockKey q \<and> testKey p \<noteq> lockKey q"
  "lockKey p = lockKey q \<longleftrightarrow> p = q"
  by (cases p) (auto simp: otpKey_def lockKey_def testKey_def)

lemma generate_locks:
  assumes "generateAndStore pf random ph s = (r, t)" "hd ph = CHR ''+''" "ph \<noteq> []"
  shows "locked p L s \<Longrightarrow> locked p L t"
    and "ph = p \<Longrightarrow> r = Inr x \<Longrightarrow> locked p (pf_now pf) t"
    and "ph = p \<Longrightarrow> r = Inr x \<Longrightarrow> locked p L s \<Longrightarrow> L + OTP_LOCK_SECONDS * 1000 < pf_now pf"
  using assms(1) keys_differ(1) [OF assms(2,3), of p] keys_differ(2) [of ph p]
  by (auto simp: generateAndStore_def run_simps redis_runs redis_ttl_def otp_create_def create_in_def Let_def locked_def
      r_lookup_map_of r_alive_def OTP_LOCK_SECONDS_def split: option.splits if_splits prod.splits)

lemma run_otp_locked:
  assumes "run_otp pf op s = (r, t)" "hd (op_phone op) = CHR ''+''" "op_phone op \<noteq> []"
  shows "locked p L s \<Longrightarrow> locked p L t"
    and "op = OGenerate p random \<Longrightarrow> r = Inr x \<Longrightarrow> locked p (pf_now pf) t"
    and "op = OGenerate p random \<Longrightarrow> r = Inr x \<Longrightarrow> locked p L s \<Longrightarrow> L + OTP_LOCK_SECONDS * 1000 < pf_now pf"
proof -
  have other: "locked p L s \<Longrightarrow> locked p L t" if "\<And>ph random. op \<noteq> OGenerate ph random"
  proof -
    assume l: "locked p L s"
    have st: "redis_store t = redis_store s \<or> redis_store t = r_del (otpKey (op_phone op)) (redis_store s)"
      using assms(1) that
      by (cases op) (auto simp: run_otp_def otp_verify_def verify_attempt_def otp_consume_def run_simps redis_runs
          update_in_def users_findByPhone_def Let_def split: option.splits redis_value.splits if_splits)
    show ?thesis using st l keys_differ(1) [OF assms(2,3), of p] by (auto simp: locked_def)
  qed
  show "locked p L s \<Longrightarrow> locked p L t"
  proof (cases op)
    case (OGenerate ph random)
    obtain x u where g: "generateAndStore pf random ph s = (x, u)" by (cases "generateAndStore pf random ph s")
    moreover have "t = u" using g assms(1) OGenerate by (cases x) (auto simp: run_otp_def bind_def return_def)
    moreover assume "locked p L s"
    ultimately show ?thesis using generate_locks(1) [OF g] assms(2,3) OGenerate by simp
  qed (use other in auto)
  assume op: "op = OGenerate p random" and r: "r = Inr x"
  obtain y u where g: "generateAndStore pf random p s = (y, u)" by (cases "generateAndStore pf random p s")
  have y: "y = Inr (projr y)" "t = u"
    using g assms(1) op r by (cases y; auto simp: run_otp_def bind_def return_def)+
  show "locked p (pf_now pf) t" using generate_locks(2) [OF g _ _ refl y(1)] assms(2,3) op y(2) by simp
  show "locked p L s \<Longrightarrow> L + OTP_LOCK_SECONDS * 1000 < pf_now pf"
    using generate_locks(3) [OF g _ _ refl y(1)] assms(2,3) op by simp
qed

lemma issued_after_lock:
  assumes "\<forall>(now, op) \<in> set ops. op_phone op \<noteq> [] \<and> hd (op_phone op) = CHR ''+''"
  shows "(locked p L s \<longrightarrow> (\<forall>x \<in> set (issued_at pf p ops s). L + OTP_LOCK_SECONDS * 1000 < x)) \<and>
    sorted_wrt (\<lambda>a b. a + OTP_LOCK_SECONDS * 1000 < b) (issued_at pf p ops s)"
  using assms
proof (induction ops arbitrary: s L)
  case (Cons q ops)
  obtain now op where q: "q = (now, op)" by (cases q)
  obtain r t where g: "run_otp (pf_at now pf) op s = (r, t)" by (cases "run_otp (pf_at now pf) op s")
  have ph: "hd (op_phone op) = CHR ''+''" "op_phone op \<noteq> []" using Cons.prems q by auto
  have IH: "(locked p L t \<longrightarrow> (\<forall>x \<in> set (issued_at pf p ops t). L + OTP_LOCK_SECONDS * 1000 < x)) \<and>
    sorted_wrt (\<lambda>a b. a + OTP_LOCK_SECONDS * 1000 < b) (issued_at pf p ops t)" for L
    using Cons.IH [of L t] Cons.prems by auto
  have now: "pf_now (pf_at now pf) = now" by (simp add: pf_now_def pf_at_def)
  show ?case
  proof (cases "(\<exists>random. op = OGenerate p random) \<and> (\<exists>x. r = Inr x)")
    case True
    then obtain random x where op: "op = OGenerate p random" "r = Inr x" by blast
    have "locked p now t" using run_otp_locked(2) [OF g ph op] now by simp
    moreover have "locked p L s \<longrightarrow> L + OTP_LOCK_SECONDS * 1000 < now"
      using run_otp_locked(3) [OF g ph op, of L] now by simp
    ultimately show ?thesis using IH [of now] IH [of L] run_otp_locked(1) [OF g ph, of p L] True
      by (auto simp: q g Let_def)
  next
    case False
    then have "issued_at pf p (q # ops) s = issued_at pf p ops t" by (simp add: q g Let_def)
    then show ?thesis using IH [of L] run_otp_locked(1) [OF g ph, of p L] by simp
  qed
qed simp

text \<open>C21. Brute force is bounded: whatever codes are requested, guessed and consumed for whatever
  phones, the submitted codes that are compared with a phone's stored hashes are at most
  five per code handed out for it, beyond the guesses left on earlier codes, and two codes
  for one phone are more than the cooldown of sixty seconds apart.\<close>

theorem otp_guesses_bounded:
  assumes "wf_table o_id (otp_attempts s)"
    and "\<forall>(now, op) \<in> set ops. op_phone op \<noteq> [] \<and> hd (op_phone op) = CHR ''+''"
  shows "int (guesses pf p ops s) \<le> guesses_left p s + 5 * int (length (issued_at pf p ops s)) \<and>
    sorted_wrt (\<lambda>a b. a + 60000 < b) (issued_at pf p ops s)"
  using guesses_quota [OF assms(1), of pf p ops] issued_after_lock [OF assms(2), of p 0 s pf]
  by (simp add: MAX_ATTEMPTS_def OTP_LOCK_SECONDS_def)

section \<open>Single use\<close>

definition usable :: "string \<Rightarrow> string \<Rightarrow> 'x sys_scheme \<Rightarrow> bool" where
  "usable p h s \<longleftrightarrow> (\<exists>a \<in> set (rows (otp_attempts s)).
     o_phone a = p \<and> o_consumedAt a = None \<and> hex_bytes (o_codeHash a) = hex_bytes h)"

lemma verify_attempt_valid:
  "verify_attempt pf ph code a h s = (Inr (Valid b), t) \<Longrightarrow> hex_bytes (hashCode pf code ph) = hex_bytes h"
  by (auto simp: verify_attempt_def run_simps redis_del_def update_in_def split: option.splits if_splits)

lemma otp_verify_valid:
  assumes "otp_verify pf p code s = (Inr (Valid b), t)"
  shows "usable p (hashCode pf code p) s"
proof -
  obtain c s1 where c: "redis_get (pf_now pf) (otpKey p) s = (c, s1)" by (cases "redis_get (pf_now pf) (otpKey p) s")
  then have s1: "otp_attempts s1 = otp_attempts s" using redis_keeps_otp(1) [of "pf_now pf" "otpKey p" s] by simp
  obtain cached where cc: "c = Inr cached" using assms c by (cases c) (auto simp: otp_verify_def bind_def)
  obtain a where a: "latest_attempt p (nonempty cached) s1 = Some a"
    using assms c cc by (cases "latest_attempt p (nonempty cached) s1") (auto simp: otp_verify_def bind_def gets_def return_def)
  let ?h = "case nonempty cached of Some h \<Rightarrow> h | None \<Rightarrow> o_codeHash a"
  have "verify_attempt pf p code a ?h s1 = (Inr (Valid b), t)"
    using assms c cc a by (auto simp: otp_verify_def bind_def gets_def Let_def return_def split: if_splits)
  then have "hex_bytes (hashCode pf code p) = hex_bytes ?h" by (rule verify_attempt_valid)
  then show ?thesis using latest_attempt_Some [OF a] s1
    by (auto simp: usable_def split: option.splits intro!: bexI [of _ a])
qed

lemma run_otp_unusable:
  assumes "\<not> usable p h s"
    and "\<And>random. op = OGenerate p random \<Longrightarrow> hex_bytes (hashCode pf (generateCode pf random) p) \<noteq> hex_bytes h"
  shows "\<not> usable p h (snd (run_otp pf op s))"
proof (cases op)
  case (OGenerate ph random)
  then show ?thesis using assms
    by (auto simp: run_otp_def generateAndStore_def run_simps redis_runs redis_ttl_def otp_create_def create_in_def Let_def
        usable_def table_simps split: option.splits)
next
  case (OVerify ph code)
  obtain r t where v: "otp_verify pf ph code s = (r, t)" by (cases "otp_verify pf ph code s")
  have "otp_attempts t = otp_attempts s \<or> (\<exists>i. otp_attempts t =
      t_change o_id i (\<lambda>a. a\<lparr>o_attempts := o_attempts a + 1\<rparr>) (otp_attempts s))"
    using otp_verify_table [OF v] by blast
  then have "\<exists>a \<in> set (rows (otp_attempts s)). o_phone a = o_phone b \<and> o_consumedAt a = o_consumedAt b \<and>
      o_codeHash a = o_codeHash b" if "b \<in> set (rows (otp_attempts t))" for b
    using that by (auto simp: t_change_def table_simps) blast+
  then have "\<not> usable p h t" using assms(1) unfolding usable_def by metis
  moreover have "snd (run_otp pf op s) = t"
    using v OVerify by (cases r) (auto simp: run_otp_def bind_def return_def)
  ultimately show ?thesis by simp
next
  case (OConsume ph code)
  then show ?thesis using assms(1)
    by (auto simp: run_otp_def otp_consume_def run_simps redis_del_def usable_def table_simps)
qed

lemma hash_at [simp]: "hashCode (pf_at now pf) = hashCode pf" "generateCode (pf_at now pf) = generateCode pf"
  by (simp_all add: fun_eq_iff hashCode_def generateCode_def pf_at_def)

lemma consume_unusable:
  assumes "\<forall>a \<in> set (rows (otp_attempts s)). o_phone a = p \<longrightarrow>
      hex_bytes (o_codeHash a) = hex_bytes (hashCode pf code p) \<longrightarrow> o_codeHash a = hashCode pf code p"
  shows "\<not> usable p (hashCode pf code p) (snd (otp_consume pf p code s))"
proof
  let ?h = "hashCode pf code p" and ?t = "snd (otp_consume pf p code s)"
  assume "usable p ?h ?t"
  then obtain b where b: "b \<in> set (rows (otp_attempts ?t))" "o_phone b = p" "o_consumedAt b = None"
    "hex_bytes (o_codeHash b) = hex_bytes ?h" unfolding usable_def by blast
  have "rows (otp_attempts ?t) = map (\<lambda>a. if o_phone a = p \<and> o_codeHash a = ?h \<and> o_consumedAt a = None
      then a\<lparr>o_consumedAt := Some (pf_now pf)\<rparr> else a) (rows (otp_attempts s))"
    by (simp add: otp_consume_def run_simps redis_del_def table_simps)
  then obtain a where a: "a \<in> set (rows (otp_attempts s))" "b = (if o_phone a = p \<and> o_codeHash a = ?h \<and>
      o_consumedAt a = None then a\<lparr>o_consumedAt := Some (pf_now pf)\<rparr> else a)"
    using b(1) by auto
  then have ab: "b = a" "\<not> (o_codeHash a = ?h)" using b(2,3) by (auto split: if_splits)
  then show False using assms a(1) b(2,4) by blast
qed

lemma run_otps_unusable:
  assumes "\<forall>(now, op) \<in> set ops. \<forall>random. op = OGenerate p random \<longrightarrow>
      hex_bytes (hashCode pf (generateCode pf random) p) \<noteq> hex_bytes h"
  shows "\<not> usable p h s \<Longrightarrow> \<not> usable p h (run_otps pf ops s)"
  using assms
proof (induction ops arbitrary: s)
  case (Cons q ops)
  obtain now op where q: "q = (now, op)" by (cases q)
  have "\<not> usable p h (snd (run_otp (pf_at now pf) op s))"
    by (rule run_otp_unusable [OF Cons.prems(1)]) (use Cons.prems(2) q in auto)
  moreover have "\<forall>(now, op) \<in> set ops. \<forall>random. op = OGenerate p random \<longrightarrow>
      hex_bytes (hashCode pf (generateCode pf random) p) \<noteq> hex_bytes h" using Cons.prems(2) by simp
  ultimately show ?case using Cons.IH q by simp
qed simp

text \<open>A code is used once: after a code has been consumed it never verifies again, through any
  later requests, guesses and consumptions, as long as no new code for the phone has the
  same hash.\<close>

theorem otp_single_use:
  assumes "\<forall>a \<in> set (rows (otp_attempts s)). o_phone a = p \<longrightarrow>
      hex_bytes (o_codeHash a) = hex_bytes (hashCode pf code p) \<longrightarrow> o_codeHash a = hashCode pf code p"
    and "\<forall>(now, op) \<in> set ops. \<forall>random. op = OGenerate p random \<longrightarrow>
      hex_bytes (hashCode pf (generateCode pf random) p) \<noteq> hex_bytes (hashCode pf code p)"
  shows "fst (otp_verify (pf_at later1 pf) p code (run_otps pf ops (snd (otp_consume (pf_at now1 pf) p code s)))) \<noteq> Inr (Valid b)"
proof -
  let ?t = "snd (otp_consume (pf_at now1 pf) p code s)"
  have "\<not> usable p (hashCode pf code p) ?t"
    using consume_unusable [of s p "pf_at now1 pf" code] assms(1) by simp
  then have "\<not> usable p (hashCode pf code p) (run_otps pf ops ?t)"
    using run_otps_unusable [OF assms(2)] by blast
  then show ?thesis
    using otp_verify_valid [of "pf_at later1 pf" p code "run_otps pf ops ?t"]
    by (metis hash_at(1) prod.collapse)
qed

text \<open>Consuming a code deletes the Redis entry that made it the only one accepted, so an
  older code of the phone that is unused and unexpired verifies again.\<close>

theorem older_code_revived:
  assumes "hashCode pf old p \<noteq> hashCode pf new p" "hashCode pf old p \<noteq> []"
    and "latest_attempt p None (snd (otp_consume pf p new s)) = Some a" "wf_table o_id (otp_attempts s)"
    and "o_codeHash a = hashCode pf old p" "pf_now pf \<le> o_expiresAt a" "o_attempts a < MAX_ATTEMPTS"
  shows "\<exists>b t. otp_verify pf p old (snd (otp_consume pf p new s)) = (Inr (Valid b), t)"
proof -
  let ?t = "snd (otp_consume pf p new s)"
  have a: "a \<in> set (rows (otp_attempts ?t))" using latest_attempt_Some [OF assms(3)] by simp
  have "wf_table o_id (otp_attempts ?t)"
    using consume_table [of pf p new s _ ?t p] assms(4) by (metis prod.collapse)
  from t_get_self [OF this a] have g: "t_get o_id (o_id a) (otp_attempts ?t) = Some a" .
  have "r_lookup (pf_now pf) (otpKey p) (redis_store ?t) = None"
    by (simp add: otp_consume_def run_simps redis_del_def)
  then show ?thesis using assms g
    by (simp add: otp_verify_def verify_attempt_def bind_def gets_def return_def redis_runs nonempty_def update_in_def
        users_findByPhone_def Let_def)
qed

section \<open>Witnesses\<close>

definition sample_phone :: string where
  "sample_phone = ''+98912000001''"

definition sample_otp_sys :: sys where
  "sample_otp_sys = sample_sys\<lparr>otp_attempts := \<lparr>next_id = 3, rows = [
     \<lparr>o_id = 1, o_phone = sample_phone, o_codeHash = hashCode sample_platform ''111111'' sample_phone, o_attempts = 0,
      o_expiresAt = 120000, o_consumedAt = None, o_createdAt = 0\<rparr>,
     \<lparr>o_id = 2, o_phone = sample_phone, o_codeHash = hashCode sample_platform ''222222'' sample_phone, o_attempts = 4,
      o_expiresAt = 181000, o_consumedAt = None, o_createdAt = 61000\<rparr>]\<rparr>\<rparr>"

lemmas otp_samples = sample_otp_sys_def sample_phone_def hashCode_def session_samples

lemma otp_guesses_bounded_witness:
  "int (guesses sample_platform sample_phone [(70000, OVerify sample_phone ''333333''), (71000, OVerify sample_phone ''222222''),
      (72000, OGenerate sample_phone 444444)] sample_otp_sys) \<le>
   6 + 5 * int (length (issued_at sample_platform sample_phone [(70000, OVerify sample_phone ''333333''),
      (71000, OVerify sample_phone ''222222''), (72000, OGenerate sample_phone 444444)] sample_otp_sys))"
proof -
  have "wf_table o_id (otp_attempts sample_otp_sys)" by (simp add: sample_otp_sys_def wf_table_def)
  moreover have "guesses_left sample_phone sample_otp_sys = 6"
    by (simp add: guesses_left_def sample_otp_sys_def t_sum_def t_filter_def MAX_ATTEMPTS_def)
  ultimately show ?thesis
    using otp_guesses_bounded [of sample_otp_sys "[(70000, OVerify sample_phone ''333333''),
      (71000, OVerify sample_phone ''222222''), (72000, OGenerate sample_phone 444444)]" sample_platform sample_phone]
    by (simp add: sample_phone_def)
qed

lemma otp_single_use_witness:
  "fst (otp_verify (pf_at 80000 sample_platform) sample_phone ''222222''
     (run_otps sample_platform [(75000, OVerify sample_phone ''111111'')]
       (snd (otp_consume (pf_at 70000 sample_platform) sample_phone ''222222'' sample_otp_sys)))) \<noteq> Inr (Valid True)"
proof (rule otp_single_use)
  show "\<forall>a \<in> set (rows (otp_attempts sample_otp_sys)). o_phone a = sample_phone \<longrightarrow>
      hex_bytes (o_codeHash a) = hex_bytes (hashCode sample_platform ''222222'' sample_phone) \<longrightarrow>
      o_codeHash a = hashCode sample_platform ''222222'' sample_phone"
    by (simp add: otp_samples) code_simp
qed simp

lemma older_code_revived_witness:
  "\<exists>b t. otp_verify sample_platform sample_phone ''111111''
     (snd (otp_consume sample_platform sample_phone ''222222'' sample_otp_sys)) = (Inr (Valid b), t)"
  by (rule older_code_revived [where a = "hd (rows (otp_attempts sample_otp_sys))"])
     (simp_all add: otp_samples otp_consume_def run_simps redis_del_def latest_attempt_def t_filter_def table_simps
       wf_table_def MAX_ATTEMPTS_def sample_defs)

end
