(* ===== verification/Access.thy ===== *)
theory Access
  imports Otp
begin

text \<open>
  Who gets in: the guards of common/guards (jwt-auth, optional-jwt-auth, permission,
  admin-confirm), impersonation (core/impersonation), the sign-in handlers of
  core/auth/auth.controller.ts, and the chain of guards and interceptors NestJS runs a
  route through (the providers of app.module.ts and the decorators of a controller).

  The lemmas show that a route with a permission does nothing for a caller without it, that
  the optional guard is the strict one with failures turned into anonymity, that a stopped
  impersonation is refused for ever and no super_admin is impersonated, that the guards
  never look at the status of an account, and that a requested code signs its phone in.
\<close>

section \<open>Token guards\<close>

definition extractToken :: "http_request \<Rightarrow> string option" where
  "extractToken req = (case map_of (rq_headers req) ''authorization'' of
       None \<Rightarrow> None
     | Some auth \<Rightarrow>
         if CHR '' '' \<notin> set auth then None
         else if takeWhile (\<lambda>c. c \<noteq> CHR '' '') auth = ''Bearer''
         then Some (tl (dropWhile (\<lambda>c. c \<noteq> CHR '' '') auth)) else None)"

definition js_truthy :: "json \<Rightarrow> bool" where
  "js_truthy v = (case v of
       JUndefined \<Rightarrow> False | JNull \<Rightarrow> False | JBool b \<Rightarrow> b | JNum i \<Rightarrow> i \<noteq> 0 | JBig i \<Rightarrow> i \<noteq> 0
     | JStr t \<Rightarrow> t \<noteq> [] | JArr _ \<Rightarrow> True | JObj _ \<Rightarrow> True)"

definition invalid_token :: exn where
  "invalid_token = http_exn UNAUTHORIZED 401 ''Invalid or expired access token''"

definition invalid_imp :: exn where
  "invalid_imp = http_exn UNAUTHORIZED 401 ''Invalid impersonation claim''"

definition imp_ended :: exn where
  "imp_ended = http_exn IMPERSONATION_ENDED 401 ''Impersonation session is no longer active''"

definition bigint_error :: exn where
  "bigint_error = JsError ''Cannot convert to a BigInt''"

text \<open>The claim, or what reading it throws.  Properties of a primitive are undefined, those of
  null a TypeError.\<close>

definition parseImpClaim :: "json \<Rightarrow> exn + impersonation_context" where
  "parseImpClaim raw = (case raw of
       JNull \<Rightarrow> Inl (JsError ''Cannot read properties of null'')
     | JObj o1 \<Rightarrow> (case (jget o1 ''actorUserId'', jget o1 ''impSessionId'') of
           (JStr a, JStr i) \<Rightarrow>
             (case (js_BigInt a, js_BigInt i) of
                (Some x, Some y) \<Rightarrow> Inr \<lparr>ic_actorUserId = x, ic_impSessionId = y\<rparr>
              | _ \<Rightarrow> Inl invalid_imp)
         | _ \<Rightarrow> Inl invalid_imp)
     | _ \<Rightarrow> Inl invalid_imp)"

definition imp_active :: "impersonation_context \<Rightarrow> int \<Rightarrow> 'x sys_scheme \<Rightarrow> bool" where
  "imp_active ic userId s = (case t_get im_id (ic_impSessionId ic) (impersonations s) of
       None \<Rightarrow> False
     | Some row \<Rightarrow> im_endedAt row = None \<and> im_actorUserId row = ic_actorUserId ic \<and> im_targetUserId row = userId)"

text \<open>The request as the guard leaves it.\<close>

definition jwt_guard :: "platform \<Rightarrow> http_request \<Rightarrow> ('x sys_scheme, http_request) M" where
  "jwt_guard pf req =
     (case nonempty (extractToken req) of
        None \<Rightarrow> throw (http_exn UNAUTHORIZED 401 ''Access token required'')
      | Some token \<Rightarrow>
          (case pf_verify pf (pf_now pf) token of
             None \<Rightarrow> throw invalid_token
           | Some payload \<Rightarrow>
               if \<not> js_truthy (jget payload ''sub'') then throw invalid_token
               else (case coerce_bigint (jget payload ''sub'') of
                   None \<Rightarrow> throw bigint_error
                 | Some userId \<Rightarrow>
                     if jget payload ''imp'' = JUndefined then return (req\<lparr>rq_user := Some userId\<rparr>)
                     else (case parseImpClaim (jget payload ''imp'') of
                         Inl e \<Rightarrow> throw e
                       | Inr ic \<Rightarrow> bind (gets (imp_active ic userId)) (\<lambda>active.
                           if active then return (req\<lparr>rq_user := Some userId, rq_impersonation := Some ic\<rparr>)
                           else throw imp_ended)))))"

text \<open>Every failure leaves the request as it is.\<close>

definition optional_guard :: "platform \<Rightarrow> http_request \<Rightarrow> ('x sys_scheme, http_request) M" where
  "optional_guard pf req =
     (case nonempty (extractToken req) of
        None \<Rightarrow> return req
      | Some token \<Rightarrow>
          (case pf_verify pf (pf_now pf) token of
             None \<Rightarrow> return req
           | Some payload \<Rightarrow>
               (case jget payload ''sub'' of
                  JStr sub \<Rightarrow>
                    (case js_BigInt sub of
                       None \<Rightarrow> return req
                     | Some userId \<Rightarrow>
                         if jget payload ''imp'' = JUndefined then return (req\<lparr>rq_user := Some userId\<rparr>)
                         else (case parseImpClaim (jget payload ''imp'') of
                             Inl _ \<Rightarrow> return req
                           | Inr ic \<Rightarrow> bind (gets (imp_active ic userId)) (\<lambda>active.
                               if active then return (req\<lparr>rq_user := Some userId, rq_impersonation := Some ic\<rparr>)
                               else return req)))
                | _ \<Rightarrow> return req)))"

section \<open>Permission and confirmation\<close>

definition permission_guard :: "string option \<Rightarrow> http_request \<Rightarrow> ('x sys_scheme, unit) M" where
  "permission_guard required req =
     (case nonempty required of
        None \<Rightarrow> return ()
      | Some perm \<Rightarrow>
          (case rq_user req of
             None \<Rightarrow> throw (http_exn UNAUTHORIZED 401 ''Authentication required'')
           | Some userId \<Rightarrow>
               if userId = 0 then throw (http_exn UNAUTHORIZED 401 ''Authentication required'')
               else bind (userHasPermission userId perm) (\<lambda>ok.
                 if ok then return () else throw (http_exn FORBIDDEN 403 ''Insufficient permissions''))))"

definition admin_confirm_guard :: "bool \<Rightarrow> http_request \<Rightarrow> ('s, unit) M" where
  "admin_confirm_guard required req =
     (if required \<and> map_of (rq_headers req) ''x-admin-confirm'' \<noteq> Some ''true''
      then throw (http_exn ADMIN_CONFIRM_REQUIRED 412
        ''X-Admin-Confirm: true header required for this destructive operation'')
      else return ())"

section \<open>A route\<close>

text \<open>What the decorators of a handler say.\<close>

record route =
  rt_auth :: bool
  rt_permission :: "string option"
  rt_confirm :: bool
  rt_audit :: "audit_meta option"
  rt_idempotent :: bool
  rt_httpCode :: "int option"
  rt_rateLimit :: "rate_limit_profile option"

text \<open>The global rate limit guard, the guards of the controller in order, then the
  interceptors, audit outermost, the response wrapper innermost.  The status code set on
  the response is left out.\<close>

definition serve_route :: "platform \<Rightarrow> string list \<Rightarrow> route \<Rightarrow> http_request \<Rightarrow>
    (http_request \<Rightarrow> ('x sys_scheme, json) M) \<Rightarrow> ('x sys_scheme, json) M" where
  "serve_route pf uuids rt req handler =
     bind (rate_limit_guard (pf_now pf) uuids (rt_rateLimit rt) (rq_ip req) None) (\<lambda>v.
     (case vd_refusal v of
        Some e \<Rightarrow> throw e
      | None \<Rightarrow>
          bind (if rt_auth rt then jwt_guard pf req else return req) (\<lambda>req1.
          seq (permission_guard (rt_permission rt) req1)
         (seq (admin_confirm_guard (rt_confirm rt) req1)
              (audit_intercept (pf_sha256 pf) (pf_now pf) (rt_audit rt) req1
                (bind (idempotent_call (pf_sha256 pf) (pf_now pf) (rt_idempotent rt) (rt_httpCode rt) req1
                        (bind (handler req1) (\<lambda>r. return (wrapResponse r))))
                      (\<lambda>(status, body). return body)))))))"

section \<open>Impersonation\<close>

definition holds_super_admin :: "int \<Rightarrow> 'x sys_scheme \<Rightarrow> bool" where
  "holds_super_admin userId s \<longleftrightarrow> list_ex (\<lambda>ur. ur_userId ur = userId \<and>
     map_option r_name (t_get r_id (ur_roleId ur) (roles s)) = Some ''super_admin'') (user_roles s)"

record start_result =
  sr_impSessionId :: int
  sr_accessToken :: string

definition cannot_impersonate :: exn where
  "cannot_impersonate = http_exn CANNOT_IMPERSONATE_SUPER_ADMIN 403 ''Cannot impersonate a super_admin user''"

definition imp_start :: "platform \<Rightarrow> string \<Rightarrow> int \<Rightarrow> int \<Rightarrow> string \<Rightarrow> ('x sys_scheme, start_result) M" where
  "imp_start pf jti actorUserId targetUserId reason =
     bind (gets (holds_super_admin targetUserId)) (\<lambda>super.
       if super then throw cannot_impersonate
       else if \<not> char_count reason \<le> 500 then throw (PrismaKnown ''P2000'' JUndefined)
       else bind (create_in impersonations impersonations_update (\<lambda>i.
            \<lparr>im_id = i, im_actorUserId = actorUserId, im_targetUserId = targetUserId, im_sessionId = None,
             im_reason = reason, im_startedAt = pf_now pf, im_endedAt = None, im_revokedReason = None\<rparr>)) (\<lambda>created.
         return \<lparr>sr_impSessionId = im_id created,
           sr_accessToken = issueImpersonationTokens pf jti actorUserId targetUserId (im_id created)\<rparr>))"

definition imp_not_found :: exn where
  "imp_not_found = http_exn NOT_FOUND 404 ''Impersonation session not found''"

definition imp_stop :: "platform \<Rightarrow> int \<Rightarrow> int \<Rightarrow> ('x sys_scheme, impersonation_row) M" where
  "imp_stop pf impSessionId actorUserId =
     bind (gets (\<lambda>s. t_get im_id impSessionId (impersonations s))) (\<lambda>found. case found of
       None \<Rightarrow> throw imp_not_found
     | Some existing \<Rightarrow>
         if im_actorUserId existing \<noteq> actorUserId then throw imp_not_found
         else if im_endedAt existing \<noteq> None then return existing
         else
           bind (update_in impersonations impersonations_update im_id impSessionId
                   (\<lambda>r. r\<lparr>im_endedAt := Some (pf_now pf)\<rparr>)) (\<lambda>updated.
           seq (bind (dispatch (pf_env pf) (im_targetUserId existing) ''IMPERSONATION_NOTICE''
                  [(''startedAt'', JStr (toISOString (im_startedAt existing))),
                   (''durationMinutes'', JNum (round_div (pf_now pf - im_startedAt existing) 60000)),
                   (''reason'', JStr (im_reason existing))] [IN_APP]) (\<lambda>_. return ()))
               (return updated)))"

definition imp_findActive :: "int \<Rightarrow> ('x sys_scheme, impersonation_row option) M" where
  "imp_findActive actorUserId =
     gets (\<lambda>s. case rev (sort_key im_startedAt (t_filter (\<lambda>r. im_actorUserId r = actorUserId \<and> im_endedAt r = None)
                 (impersonations s))) of [] \<Rightarrow> None | r # _ \<Rightarrow> Some r)"

definition StartImpersonationSchema :: "json \<Rightarrow> (int \<times> string) option" where
  "StartImpersonationSchema v = (case v of
       JObj b \<Rightarrow> if \<not> strict_keys [''targetUserId'', ''reason''] b then None
         else (case (coerce_bigint (jget b ''targetUserId''), jget b ''reason'') of
           (Some t, JStr r) \<Rightarrow> if 10 \<le> utf16_length r \<and> utf16_length r \<le> 500 then Some (t, r) else None
         | _ \<Rightarrow> None)
     | _ \<Rightarrow> None)"

definition post_imp_start :: "platform \<Rightarrow> string \<Rightarrow> http_request \<Rightarrow> ('x sys_scheme, json) M" where
  "post_imp_start pf jti req =
     bind (zod_parse pf StartImpersonationSchema (rq_body req)) (\<lambda>(target, reason).
       if rq_impersonation req \<noteq> None then
         throw (http_exn CANNOT_NEST_IMPERSONATION 409 ''Cannot start a new impersonation while already impersonating'')
       else (case rq_user req of
           None \<Rightarrow> throw (JsError ''Cannot read properties of undefined'')
         | Some me \<Rightarrow> bind (imp_start pf jti me target reason) (\<lambda>r.
             return (JObj [(''impSessionId'', JBig (sr_impSessionId r)), (''accessToken'', JStr (sr_accessToken r)),
                           (''targetUserId'', JBig target)]))))"

definition json_date :: "int option \<Rightarrow> json" where
  "json_date t = (case t of None \<Rightarrow> JNull | Some x \<Rightarrow> JStr (toISOString x))"

definition post_imp_stop :: "platform \<Rightarrow> http_request \<Rightarrow> ('x sys_scheme, json) M" where
  "post_imp_stop pf req =
     (case rq_impersonation req of
        None \<Rightarrow> throw (http_exn UNAUTHORIZED 401 ''No active impersonation on this token'')
      | Some ic \<Rightarrow> bind (imp_stop pf (ic_impSessionId ic) (ic_actorUserId ic)) (\<lambda>stopped.
          return (JObj [(''impSessionId'', JBig (im_id stopped)), (''endedAt'', json_date (im_endedAt stopped))])))"

definition get_imp_active :: "http_request \<Rightarrow> ('x sys_scheme, json) M" where
  "get_imp_active req =
     (case rq_user req of
        None \<Rightarrow> throw (JsError ''Cannot read properties of undefined'')
      | Some me \<Rightarrow> bind (imp_findActive me) (\<lambda>found. return (JObj [(''active'', (case found of
            None \<Rightarrow> JNull
          | Some r \<Rightarrow> JObj [(''impSessionId'', JBig (im_id r)), (''targetUserId'', JBig (im_targetUserId r)),
              (''startedAt'', JStr (toISOString (im_startedAt r))), (''reason'', JStr (im_reason r))]))])))"

section \<open>auth.controller.ts\<close>

definition otp_phone :: "string \<Rightarrow> bool" where
  "otp_phone p \<longleftrightarrow> take 3 p = ''+98'' \<and> length p = 13 \<and> all_digits (drop 3 p)"

definition OtpRequestSchema :: "json \<Rightarrow> string option" where
  "OtpRequestSchema v = (case v of
       JObj b \<Rightarrow> (case jget b ''phone'' of JStr p \<Rightarrow> if otp_phone p then Some p else None | _ \<Rightarrow> None)
     | _ \<Rightarrow> None)"

definition OtpVerifySchema :: "json \<Rightarrow> (string \<times> string) option" where
  "OtpVerifySchema v = (case v of
       JObj b \<Rightarrow> (case (jget b ''phone'', jget b ''code'') of
           (JStr p, JStr c) \<Rightarrow> if otp_phone p \<and> length c = 6 \<and> all_digits c then Some (p, c) else None
         | _ \<Rightarrow> None)
     | _ \<Rightarrow> None)"

definition otp_message :: "string \<Rightarrow> string" where
  "otp_message code = utf8 [218, 169, 216, 175, 32, 216, 170, 216, 163, 219, 140, 219, 140, 216, 175, 32, 216, 179,
     216, 167, 216, 178, 219, 140, 218, 169, 217, 136, 58, 32] @ code"

definition requestOtp :: "platform \<Rightarrow> int \<Rightarrow> json \<Rightarrow> ('x sys_scheme, json) M" where
  "requestOtp pf random body =
     bind (zod_parse pf OtpRequestSchema body) (\<lambda>phone.
     bind (generateAndStore pf random phone) (\<lambda>(code, _).
     seq (sms_send (pf_env pf) phone (otp_message code))
         (return (JObj [(''message'', JStr ''OTP sent successfully'')]))))"

record sign_in =
  si_accessToken :: string
  si_cookie :: refresh_cookie
  si_user :: "self_view option"
  si_profileComplete :: bool

definition client_ip :: "(string \<times> string) list \<Rightarrow> string option \<Rightarrow> string option" where
  "client_ip headers remoteAddress = (case map_of headers ''x-forwarded-for'' of
       Some fwd \<Rightarrow> Some (trim (hd (split_on (CHR '','') fwd)))
     | None \<Rightarrow> remoteAddress)"

definition otp_refused :: "error_code \<Rightarrow> exn" where
  "otp_refused reason = http_exn reason 422 (code_string reason)"

text \<open>raw and jti are the random refresh token and token identifier.\<close>

definition verifyOtp :: "platform \<Rightarrow> string \<Rightarrow> string \<Rightarrow> (string \<times> string) list \<Rightarrow> string option \<Rightarrow> json \<Rightarrow>
    ('x sys_scheme, sign_in) M" where
  "verifyOtp pf raw jti headers remoteAddress body =
     bind (zod_parse pf OtpVerifySchema body) (\<lambda>(phone, code).
     bind (otp_verify pf phone code) (\<lambda>result. case result of
       Invalid reason \<Rightarrow> throw (otp_refused reason)
     | Valid _ \<Rightarrow>
         seq (otp_consume pf phone code)
        (bind (users_findByPhone phone) (\<lambda>found.
         bind (case found of Some u \<Rightarrow> return u | None \<Rightarrow> users_create pf phone) (\<lambda>user.
         bind (issueTokens pf raw jti (u_id user) (map_of headers ''user-agent'') (client_ip headers remoteAddress)) (\<lambda>tokens.
         bind (findForSelf (u_id user)) (\<lambda>selfView.
           return \<lparr>si_accessToken = it_accessToken tokens, si_cookie = it_refreshCookie tokens,
                   si_user = selfView, si_profileComplete = (u_status user = ACTIVE)\<rparr>)))))))"

definition auth_refresh :: "platform \<Rightarrow> string \<Rightarrow> string \<Rightarrow> string option \<Rightarrow> ('x sys_scheme, string \<times> refresh_cookie) M" where
  "auth_refresh pf raw jti cookie =
     (case nonempty cookie of
        None \<Rightarrow> throw (http_exn UNAUTHORIZED 401 ''Refresh token missing'')
      | Some token \<Rightarrow> bind (rotateRefreshToken pf token raw jti) (\<lambda>t.
          return (it_accessToken t, it_refreshCookie t)))"

definition auth_logout :: "platform \<Rightarrow> string option \<Rightarrow> ('x sys_scheme, json) M" where
  "auth_logout pf cookie =
     seq (case nonempty cookie of
            None \<Rightarrow> return ()
          | Some token \<Rightarrow> tryCatch (revokeByRefreshToken pf token) (\<lambda>_. return ()))
         (return (JObj [(''message'', JStr ''Logged out successfully'')]))"

section \<open>The guards\<close>

lemma jwt_guard_state: "snd (jwt_guard pf req s) = s"
  by (auto simp: jwt_guard_def run_simps split: option.splits sum.splits)

lemma permission_guard_run: "permission_guard perm req s =
    (case nonempty perm of None \<Rightarrow> (Inr (), s)
     | Some p \<Rightarrow> if (\<exists>u. rq_user req = Some u \<and> u \<noteq> 0 \<and> (holds s u p \<or> holds s u ''super:everything''))
         then (Inr (), s)
         else (Inl (if rq_user req = None \<or> rq_user req = Some 0 then http_exn UNAUTHORIZED 401 ''Authentication required''
                    else http_exn FORBIDDEN 403 ''Insufficient permissions''), s))"
  by (auto simp: permission_guard_def run_simps userHasPermission_run split: option.splits)

text \<open>Everything but the Redis store.\<close>

definition but_redis :: "'x sys_scheme \<Rightarrow> 'x sys_scheme" where
  "but_redis s = s\<lparr>redis_store := []\<rparr>"

lemma but_redis_update [simp]: "but_redis (redis_store_update f s) = but_redis s"
  by (simp add: but_redis_def)

lemma keeps_case_list:
  "keeps P m \<Longrightarrow> (\<And>y ys. keeps P (n y ys)) \<Longrightarrow> keeps P (case xs of [] \<Rightarrow> m | y # ys \<Rightarrow> n y ys)"
  by (cases xs) simp_all

lemma keeps_redis_modify: "keeps (\<lambda>s. but_redis s = S) (modify (redis_store_update f))"
  by (rule keeps_modify) simp

lemma keeps_sliding_window: "keeps (\<lambda>s. but_redis s = S) (sliding_window key now w lim m)"
  unfolding sliding_window_def Let_def
  by (intro keeps_intros keeps_case_list keeps_redis_modify)

lemma keeps_run_checks: "keeps (\<lambda>s. but_redis s = S) (run_checks now uuids cs best)"
  by (induction cs arbitrary: uuids best)
     (auto simp: runCheck_def Let_def intro!: keeps_intros keeps_sliding_window)

lemma keeps_rate_limit_guard: "keeps (\<lambda>s. but_redis s = S) (rate_limit_guard now uuids prof ip u)"
  by (auto simp: rate_limit_guard_def intro!: keeps_intros keeps_run_checks split: sum.splits)

lemma jwt_guard_user:
  assumes "jwt_guard pf req s = (Inr req1, t)"
  shows "\<exists>token payload u. extractToken req = Some token \<and> pf_verify pf (pf_now pf) token = Some payload \<and>
    coerce_bigint (jget payload ''sub'') = Some u \<and> rq_user req1 = Some u"
  using assms
  by (auto simp: jwt_guard_def nonempty_def run_simps split: option.splits sum.splits if_splits)

lemma holds_but_redis: "but_redis s = but_redis t \<Longrightarrow> holds s = holds t"
proof -
  assume e: "but_redis s = but_redis t"
  have "user_roles s = user_roles t" "permissions s = permissions t" "role_permissions s = role_permissions t"
    using arg_cong [OF e, of user_roles] arg_cong [OF e, of permissions] arg_cong [OF e, of role_permissions]
    by (simp_all add: but_redis_def)
  then show ?thesis by (simp add: fun_eq_iff holds_def has_role_def role_grants_def)
qed

lemma permission_barrier:
  assumes "rt_auth rt" "rt_permission rt = Some perm" "perm \<noteq> []"
    and "serve_route pf uuids rt req handler s = (x, t)"
  shows "but_redis t = but_redis s \<and> (\<exists>e. x = Inl e) \<or>
    (\<exists>token payload u. extractToken req = Some token \<and> pf_verify pf (pf_now pf) token = Some payload \<and>
       coerce_bigint (jget payload ''sub'') = Some u \<and> u \<noteq> 0 \<and> (holds s u perm \<or> holds s u ''super:everything''))"
proof -
  obtain v s1 where v: "rate_limit_guard (pf_now pf) uuids (rt_rateLimit rt) (rq_ip req) None s = (v, s1)"
    by (cases "rate_limit_guard (pf_now pf) uuids (rt_rateLimit rt) (rq_ip req) None s")
  have b: "but_redis s1 = but_redis s"
    using keepsD [OF keeps_rate_limit_guard, of s "but_redis s" "pf_now pf" uuids "rt_rateLimit rt" "rq_ip req" None] v
    by simp
  show ?thesis
  proof (cases "\<exists>w. v = Inr w \<and> vd_refusal w = None")
    case False
    then have "t = s1 \<and> (\<exists>e. x = Inl e)" using assms(4) v
      by (cases v) (auto simp: serve_route_def bind_def throw_def split: option.splits)
    then show ?thesis using b by auto
  next
    case True
    then have sr: "bind (jwt_guard pf req) (\<lambda>req1. seq (permission_guard (rt_permission rt) req1)
         (seq (admin_confirm_guard (rt_confirm rt) req1)
              (audit_intercept (pf_sha256 pf) (pf_now pf) (rt_audit rt) req1
                (bind (idempotent_call (pf_sha256 pf) (pf_now pf) (rt_idempotent rt) (rt_httpCode rt) req1
                        (bind (handler req1) (\<lambda>r. return (wrapResponse r))))
                      (\<lambda>(status, body). return body))))) s1 = (x, t)"
      using assms(1,4) v by (auto simp: serve_route_def bind_def [of "rate_limit_guard _ _ _ _ _"])
    obtain g s2 where g: "jwt_guard pf req s1 = (g, s2)" by (cases "jwt_guard pf req s1")
    have s2: "s2 = s1" using jwt_guard_state [of pf req s1] g by simp
    show ?thesis
    proof (cases g)
      case (Inl e)
      then show ?thesis using sr g s2 b by (auto simp: bind_def)
    next
      case (Inr req1)
      obtain token payload u where tok: "extractToken req = Some token"
        "pf_verify pf (pf_now pf) token = Some payload" "coerce_bigint (jget payload ''sub'') = Some u" "rq_user req1 = Some u"
        using jwt_guard_user g Inr by blast
      show ?thesis
      proof (cases "u \<noteq> 0 \<and> (holds s1 u perm \<or> holds s1 u ''super:everything'')")
        case True
        then show ?thesis using tok holds_but_redis [OF b] by auto
      next
        case False
        then have "\<exists>e. permission_guard (rt_permission rt) req1 s1 = (Inl e, s1)"
          using assms(2,3) tok(4) by (auto simp: permission_guard_run nonempty_def)
        then show ?thesis using sr g Inr s2 b by (auto simp: bind_def seq_def)
      qed
    qed
  qed
qed

text \<open>C9. A permission is needed: on a route that requires authentication and a permission, a
  call either leaves everything but the Redis counters as it was and is refused, or its
  bearer token verifies, names a user other than 0, and that user holds the permission or
  super:everything.\<close>

theorem route_requires_permission:
  assumes "rt_auth rt" "rt_permission rt = Some perm" "perm \<noteq> []"
    and "serve_route pf uuids rt req handler s = (x, t)"
  shows "but_redis t = but_redis s \<and> (\<exists>e. x = Inl e) \<or>
    (\<exists>token payload u. extractToken req = Some token \<and> pf_verify pf (pf_now pf) token = Some payload \<and>
       coerce_bigint (jget payload ''sub'') = Some u \<and> u \<noteq> 0 \<and> (holds s u perm \<or> holds s u ''super:everything''))"
  by (rule permission_barrier [OF assms])

text \<open>The optional guard is the strict one made silent: it answers the request the strict
  guard would pass on, or, where the strict guard throws, the anonymous request, and never
  throws or writes.  The tokens the server signs name a non-empty subject.\<close>

theorem optional_guard_soft:
  assumes "\<And>token payload. extractToken req = Some token \<Longrightarrow> pf_verify pf (pf_now pf) token = Some payload \<Longrightarrow>
      \<exists>sub. jget payload ''sub'' = JStr sub \<and> sub \<noteq> []"
  shows "optional_guard pf req s = (Inr (case fst (jwt_guard pf req s) of Inr r \<Rightarrow> r | Inl _ \<Rightarrow> req), s)"
proof (cases "nonempty (extractToken req)")
  case None
  then show ?thesis by (simp add: optional_guard_def jwt_guard_def run_simps)
next
  case (Some token)
  then have tok: "extractToken req = Some token" by (simp add: nonempty_def split: if_splits)
  show ?thesis
  proof (cases "pf_verify pf (pf_now pf) token")
    case None
    then show ?thesis using Some by (simp add: optional_guard_def jwt_guard_def run_simps)
  next
    case pl: (Some payload)
    obtain sub where sub: "jget payload ''sub'' = JStr sub" "sub \<noteq> []" using assms [OF tok pl] by blast
    then have st: "js_truthy (jget payload ''sub'')" "coerce_bigint (jget payload ''sub'') = js_BigInt sub"
      by (simp_all add: js_truthy_def coerce_bigint_def)
    show ?thesis
      using Some pl sub st
      by (auto simp: optional_guard_def jwt_guard_def run_simps split: option.splits sum.splits)
  qed
qed

text \<open>The guards never look at an account: whatever is changed in the users table, a
  suspension or a deletion included, a token and its permissions are accepted or refused
  as before.\<close>

theorem guards_ignore_accounts:
  "jwt_guard pf req (users_update f s) = (fst (jwt_guard pf req s), users_update f s) \<and>
   optional_guard pf req (users_update f s) = (fst (optional_guard pf req s), users_update f s) \<and>
   permission_guard perm req (users_update f s) = (fst (permission_guard perm req s), users_update f s)"
proof -
  have i: "imp_active ic u (users_update f s) = imp_active ic u s" for ic u by (simp add: imp_active_def)
  have h: "holds (users_update f s) = holds s"
    by (simp add: fun_eq_iff holds_def has_role_def role_grants_def)
  have "jwt_guard pf req (users_update f s) = (fst (jwt_guard pf req s), users_update f s)"
    by (simp add: jwt_guard_def run_simps i split: option.split sum.split)
  moreover have "optional_guard pf req (users_update f s) = (fst (optional_guard pf req s), users_update f s)"
    by (simp add: optional_guard_def run_simps i split: option.split sum.split json.split)
  moreover have "permission_guard perm req (users_update f s) = (fst (permission_guard perm req s), users_update f s)"
    unfolding permission_guard_run h by (cases "nonempty perm") (simp_all only: option.case if_distrib [of fst] fst_conv if_cancel, simp)
  ultimately show ?thesis by blast
qed

section \<open>Impersonation sessions end for good\<close>

datatype imp_op = IStart string int int string | IStop int int

definition run_imp :: "platform \<Rightarrow> imp_op \<Rightarrow> ('x sys_scheme, unit) M" where
  "run_imp pf op = (case op of
       IStart jti a tg reason \<Rightarrow> bind (imp_start pf jti a tg reason) (\<lambda>_. return ())
     | IStop i a \<Rightarrow> bind (imp_stop pf i a) (\<lambda>_. return ()))"

fun run_imps :: "platform \<Rightarrow> (int \<times> imp_op) list \<Rightarrow> 'x sys_scheme \<Rightarrow> 'x sys_scheme" where
  "run_imps pf [] s = s"
| "run_imps pf ((now, op) # ops) s = run_imps pf ops (snd (run_imp (pf_at now pf) op s))"

definition ended :: "int \<Rightarrow> 'x sys_scheme \<Rightarrow> bool" where
  "ended i s \<longleftrightarrow> wf_table im_id (impersonations s) \<and>
     (\<exists>row. t_get im_id i (impersonations s) = Some row \<and> im_endedAt row \<noteq> None)"

lemma ended_books: "ended i s \<Longrightarrow> same_books s t \<Longrightarrow> ended i t"
  by (cases s; cases t) (simp add: same_books_def ended_def)

lemma imp_stop_writes:
  assumes "wf_table im_id (impersonations s)"
  shows "wp (imp_stop pf j a) (\<lambda>row t. im_id row = j \<and> ended j t \<and> (ended i s \<longrightarrow> ended i t))
     (\<lambda>_ t. ended i s \<longrightarrow> ended i t) s"
proof -
  let ?g = "\<lambda>r. r\<lparr>im_endedAt := Some (pf_now pf)\<rparr>"
  have j: "ended j (impersonations_update (t_change im_id j ?g) s)"
    if "t_get im_id j (impersonations s) = Some row" for row
    using assms that by (simp add: ended_def t_get_change)
  have i: "ended i (impersonations_update (t_change im_id j ?g) s)" if "ended i s"
    using that by (auto simp: ended_def t_get_change)
  show ?thesis
  proof (cases "t_get im_id j (impersonations s)")
    case None
    then show ?thesis by (simp add: imp_stop_def wp_eqs)
  next
    case (Some row)
    then have row: "im_id row = j" by (rule t_get_key)
    have "wp (dispatch (pf_env pf) u ty pl chs) (\<lambda>_ t. ended j t \<and> (ended i s \<longrightarrow> ended i t)) E
        (impersonations_update (t_change im_id j ?g) s)" for u ty pl chs E
      by (rule wp_dispatch) (use j [OF Some] i ended_books in blast)
    moreover have "im_endedAt row \<noteq> None \<Longrightarrow> ended j s" using assms Some by (simp add: ended_def)
    ultimately show ?thesis using Some row by (simp add: imp_stop_def wp_eqs)
  qed
qed

lemma run_imp_ended:
  assumes "ended i s"
  shows "ended i (snd (run_imp pf op s))"
proof (cases op)
  case (IStart jti a tg reason)
  have "wp (imp_start pf jti a tg reason) (\<lambda>_ t. ended i t) (\<lambda>_ t. ended i t) s"
    using assms by (auto simp: imp_start_def wp_eqs ended_def tbl.create_other)
  then show ?thesis using IStart wp_same [of "run_imp pf op" "ended i" s]
    by (simp add: run_imp_def wp_eqs)
next
  case (IStop j a)
  have "wp (imp_stop pf j a) (\<lambda>_ t. ended i t) (\<lambda>_ t. ended i t) s"
    by (rule wp_mono [OF imp_stop_writes [of s pf j a i]]) (use assms in \<open>auto simp: ended_def\<close>)
  then show ?thesis using IStop wp_same [of "run_imp pf op" "ended i" s]
    by (simp add: run_imp_def wp_eqs)
qed

lemma run_imps_ended: "ended i s \<Longrightarrow> ended i (run_imps pf ops s)"
proof (induction ops arbitrary: s)
  case (Cons q ops)
  then show ?case by (cases q) (simp add: run_imp_ended)
qed simp

text \<open>Stopping an impersonation is final: after stop has returned, every token that carries
  the impersonation session is refused with IMPERSONATION_ENDED at any later time, whatever
  impersonations are started and stopped in between.\<close>

theorem stopped_impersonation_refused:
  assumes "wf_table im_id (impersonations s)" "imp_stop pf i actor s = (Inr row, t)"
    and "extractToken req = Some token" "token \<noteq> []" "pf_verify pf' (pf_now pf') token = Some payload"
    and "js_truthy (jget payload ''sub'')" "coerce_bigint (jget payload ''sub'') = Some u"
    and "parseImpClaim (jget payload ''imp'') = Inr ic" "ic_impSessionId ic = i"
  shows "jwt_guard pf' req (run_imps pf ops t) = (Inl imp_ended, run_imps pf ops t)"
proof -
  have "ended i t" using wp_result [OF imp_stop_writes [OF assms(1), of pf i actor i] assms(2)] by simp
  then have "ended i (run_imps pf ops t)" by (rule run_imps_ended)
  then have "\<not> imp_active ic u (run_imps pf ops t)" using assms(9) by (auto simp: imp_active_def ended_def)
  moreover have "jget payload ''imp'' \<noteq> JUndefined" using assms(8) by (auto simp: parseImpClaim_def)
  ultimately show ?thesis using assms(3-8) by (simp add: jwt_guard_def nonempty_def run_simps)
qed

text \<open>Only accounts without the super_admin role are impersonated, and a started session is
  accepted until it is stopped.\<close>

lemma imp_start_contract:
  assumes "imp_start pf jti actor target reason s = (Inr r, t)" "wf_table im_id (impersonations s)"
  shows "\<not> holds_super_admin target s \<and>
    imp_active \<lparr>ic_actorUserId = actor, ic_impSessionId = sr_impSessionId r\<rparr> target t"
proof -
  have "wp (imp_start pf jti actor target reason) (\<lambda>r t. \<not> holds_super_admin target s \<and>
     imp_active \<lparr>ic_actorUserId = actor, ic_impSessionId = sr_impSessionId r\<rparr> target t) (\<lambda>_ _. True) s"
    using assms(2) by (auto simp: imp_start_def wp_eqs imp_active_def t_get_insert t_new_def)
  from wp_result [OF this assms(1)] show ?thesis .
qed

section \<open>Witnesses\<close>

definition sample_call :: "string \<Rightarrow> http_request" where
  "sample_call token = \<lparr>rq_method = ''POST'', rq_path = ''/admin'', rq_params = [], rq_body = JUndefined,
     rq_headers = [(''authorization'', ''Bearer '' @ token)], rq_ip = Some ''1.2.3.4'', rq_user = None,
     rq_impersonation = None\<rparr>"

definition sample_route :: route where
  "sample_route = \<lparr>rt_auth = True, rt_permission = Some ''admin:read:users'', rt_confirm = False, rt_audit = None,
     rt_idempotent = False, rt_httpCode = None, rt_rateLimit = None\<rparr>"

definition sample_imp_payload :: "(string \<times> json) list" where
  "sample_imp_payload = [(''sub'', JStr ''2''), (''imp'', JObj [(''actorUserId'', JStr ''1''), (''impSessionId'', JStr ''1'')])]"

definition sample_imp_platform :: platform where
  "sample_imp_platform = sample_platform\<lparr>pf_verify := (\<lambda>_ _. Some sample_imp_payload)\<rparr>"

definition sample_impersonation :: sys where
  "sample_impersonation = sample_accounts\<lparr>impersonations := \<lparr>next_id = 2, rows = [\<lparr>im_id = 1, im_actorUserId = 1,
     im_targetUserId = 2, im_sessionId = None, im_reason = ''support case'', im_startedAt = 0, im_endedAt = None,
     im_revokedReason = None\<rparr>]\<rparr>\<rparr>"

lemma extract_sample_call [simp]: "extractToken (sample_call token) = Some token"
  by (simp add: extractToken_def sample_call_def)

lemma js_BigInt_samples [simp]: "js_BigInt ''1'' = Some 1" "js_BigInt ''2'' = Some 2"
  by code_simp+

lemma route_requires_permission_witness:
  "\<exists>e. fst (serve_route sample_platform [''u''] sample_route (sample_call ''2'') (\<lambda>_. return JNull) sample_accounts) = Inl e"
proof -
  obtain x t where r: "serve_route sample_platform [''u''] sample_route (sample_call ''2'') (\<lambda>_. return JNull) sample_accounts = (x, t)"
    by (cases "serve_route sample_platform [''u''] sample_route (sample_call ''2'') (\<lambda>_. return JNull) sample_accounts")
  have "\<not> holds sample_accounts 2 p" for p by (simp add: holds_def has_role_def sample_accounts_def)
  moreover have "pf_verify sample_platform (pf_now sample_platform) ''2'' = Some [(''sub'', JStr ''2'')]"
    by (simp add: sample_platform_def)
  ultimately show ?thesis
    using route_requires_permission [OF _ _ _ r] r
    by (auto simp: sample_route_def jget_def coerce_bigint_def)
qed

lemma optional_guard_soft_witness:
  "fst (optional_guard sample_platform (sample_call ''2'') sample_accounts) = Inr ((sample_call ''2'')\<lparr>rq_user := Some 2\<rparr>)"
proof -
  have "optional_guard sample_platform (sample_call ''2'') sample_accounts =
     (Inr (case fst (jwt_guard sample_platform (sample_call ''2'') sample_accounts) of Inr r \<Rightarrow> r
           | Inl _ \<Rightarrow> sample_call ''2''), sample_accounts)"
    by (rule optional_guard_soft) (auto simp: sample_platform_def jget_def)
  then show ?thesis
    by (simp add: jwt_guard_def nonempty_def sample_platform_def pf_now_def jget_def js_truthy_def coerce_bigint_def return_def)
qed

lemma stopped_impersonation_refused_witness:
  "fst (jwt_guard sample_imp_platform (sample_call ''tok'')
     (run_imps sample_platform [(2000, IStart ''j'' 1 2 ''another case'')] (snd (imp_stop sample_platform 1 1 sample_impersonation)))) =
   Inl imp_ended"
proof -
  have wf: "wf_table im_id (impersonations sample_impersonation)" by (simp add: sample_impersonation_def wf_table_def)
  have "wp (imp_stop sample_platform 1 1) (\<lambda>_ _. True) (\<lambda>_ _. False) sample_impersonation"
    by (simp add: imp_stop_def wp_eqs sample_impersonation_def t_get_def t_find_def wp_dispatch)
  then obtain row t where st: "imp_stop sample_platform 1 1 sample_impersonation = (Inr row, t)"
    unfolding wp_def by (cases "imp_stop sample_platform 1 1 sample_impersonation"; cases "fst (imp_stop sample_platform 1 1 sample_impersonation)") auto
  have "parseImpClaim (jget sample_imp_payload ''imp'') = Inr \<lparr>ic_actorUserId = 1, ic_impSessionId = 1\<rparr>"
    by (simp add: sample_imp_payload_def jget_def parseImpClaim_def)
  moreover have "pf_verify sample_imp_platform (pf_now sample_imp_platform) ''tok'' = Some sample_imp_payload"
    by (simp add: sample_imp_platform_def)
  moreover have "js_truthy (jget sample_imp_payload ''sub'')" "coerce_bigint (jget sample_imp_payload ''sub'') = Some 2"
    by (simp_all add: sample_imp_payload_def jget_def js_truthy_def coerce_bigint_def)
  ultimately show ?thesis
    using stopped_impersonation_refused [OF wf st, where token = "''tok''" and req = "sample_call ''tok''" and
        pf' = sample_imp_platform and payload = sample_imp_payload and u = 2 and
        ic = "\<lparr>ic_actorUserId = 1, ic_impSessionId = 1\<rparr>",
        of "[(2000, IStart ''j'' 1 2 ''another case'')]"] st
    by simp
qed

end
