(* ===== verification/Routes.thy ===== *)
theory Routes
  imports Access Complex_Main
begin

text \<open>
  What the controllers share.  The decorators of a handler and the route they amount to
  (UseGuards, admin-only.decorator.ts, require-permission.decorator.ts and their like): a guard runs
  only when it is mounted.  The parts of zod schemas that the controllers repeat, where a transform
  that throws ends the request with that error; the limit of a list endpoint; and the JSON of a
  page.  zod, parseInt and Prisma's take follow their documentation.

  The lemmas carry a predicate through the pipeline, and show what a route can depend on.
\<close>

section \<open>Decorators\<close>

datatype guard_class = JwtAuthGuard | OptionalJwtAuthGuard | PermissionGuard | AdminConfirmGuard

record decorators =
  dc_guards :: "guard_class list"
  dc_permission :: "string option"
  dc_confirmHeader :: bool
  dc_audit :: "audit_meta option"
  dc_idempotent :: bool
  dc_httpCode :: "int option"
  dc_rateLimit :: "rate_limit_profile option"

definition UseGuards :: "guard_class list \<Rightarrow> decorators" where
  "UseGuards gs = \<lparr>dc_guards = gs, dc_permission = None, dc_confirmHeader = False, dc_audit = None,
     dc_idempotent = False, dc_httpCode = None, dc_rateLimit = None\<rparr>"

definition RequirePermission :: "string \<Rightarrow> decorators \<Rightarrow> decorators" where
  "RequirePermission p d = d\<lparr>dc_permission := Some p\<rparr>"

text \<open>admin-only.decorator.ts: two entries of metadata.\<close>

definition AdminOnly :: "bool \<Rightarrow> string option \<Rightarrow> decorators \<Rightarrow> decorators" where
  "AdminOnly confirmHeader permission d = RequirePermission
     (case permission of Some p \<Rightarrow> p | None \<Rightarrow> ''super:everything'') (d\<lparr>dc_confirmHeader := confirmHeader\<rparr>)"

definition Audit :: "string \<Rightarrow> string \<Rightarrow> string option \<Rightarrow> resource_id_source option \<Rightarrow> decorators \<Rightarrow> decorators" where
  "Audit action resource idParam idSource d = d\<lparr>dc_audit := Some \<lparr>mt_action = action, mt_resource = resource,
     mt_resourceIdParam = idParam, mt_resourceIdSource = idSource\<rparr>\<rparr>"

definition Idempotent :: "decorators \<Rightarrow> decorators" where
  "Idempotent d = d\<lparr>dc_idempotent := True\<rparr>"

definition HttpCode :: "int \<Rightarrow> decorators \<Rightarrow> decorators" where
  "HttpCode n d = d\<lparr>dc_httpCode := Some n\<rparr>"

definition RateLimit :: "rate_limit_profile \<Rightarrow> decorators \<Rightarrow> decorators" where
  "RateLimit p d = d\<lparr>dc_rateLimit := Some p\<rparr>"

definition route_of :: "decorators \<Rightarrow> route" where
  "route_of d = \<lparr>rt_auth = (JwtAuthGuard \<in> set (dc_guards d)),
     rt_permission = (if PermissionGuard \<in> set (dc_guards d) then dc_permission d else None),
     rt_confirm = (AdminConfirmGuard \<in> set (dc_guards d) \<and> dc_confirmHeader d),
     rt_audit = dc_audit d, rt_idempotent = dc_idempotent d, rt_httpCode = dc_httpCode d, rt_rateLimit = dc_rateLimit d\<rparr>"

lemmas decorator_defs = UseGuards_def RequirePermission_def AdminOnly_def Audit_def Idempotent_def HttpCode_def RateLimit_def

section \<open>Schemas\<close>

text \<open>A thrown error, or the value unless there are issues.\<close>

type_synonym 'a zod = "exn + 'a option"

definition valid :: "'a \<Rightarrow> 'a zod" where
  "valid x = Inr (Some x)"

definition invalid :: "'a zod" where
  "invalid = Inr None"

definition zmap :: "('a \<Rightarrow> 'b) \<Rightarrow> 'a zod \<Rightarrow> 'b zod" where
  "zmap f z = map_sum id (map_option f) z"

text \<open>The members of an object are parsed in order; a throw ends it, issues add up.\<close>

definition zboth :: "'a zod \<Rightarrow> 'b zod \<Rightarrow> ('a \<times> 'b) zod" where
  "zboth p q = (case p of Inl e \<Rightarrow> Inl e | Inr a \<Rightarrow> (case q of Inl e \<Rightarrow> Inl e | Inr b \<Rightarrow>
     Inr (case (a, b) of (Some x, Some y) \<Rightarrow> Some (x, y) | _ \<Rightarrow> None)))"

definition zobject :: "((string \<times> json) list \<Rightarrow> 'a zod) \<Rightarrow> json \<Rightarrow> 'a zod" where
  "zobject f v = (case v of JObj b \<Rightarrow> f b | _ \<Rightarrow> invalid)"

definition zrefine :: "('a \<Rightarrow> bool) \<Rightarrow> 'a zod \<Rightarrow> 'a zod" where
  "zrefine P z = (case z of Inr (Some x) \<Rightarrow> if P x then z else invalid | _ \<Rightarrow> z)"

definition zoptional :: "(json \<Rightarrow> 'a zod) \<Rightarrow> json \<Rightarrow> 'a option zod" where
  "zoptional f v = (if v = JUndefined then valid None else zmap Some (f v))"

definition zdefault :: "'a \<Rightarrow> (json \<Rightarrow> 'a zod) \<Rightarrow> json \<Rightarrow> 'a zod" where
  "zdefault d f v = (if v = JUndefined then valid d else f v)"

definition zstring :: "json \<Rightarrow> string zod" where
  "zstring v = (case v of JStr t \<Rightarrow> valid t | _ \<Rightarrow> invalid)"

definition zlength :: "nat \<Rightarrow> nat \<Rightarrow> json \<Rightarrow> string zod" where
  "zlength lo hi v = zrefine (\<lambda>t. lo \<le> utf16_length t \<and> utf16_length t \<le> hi) (zstring v)"

text \<open>.transform((v) => BigInt(v)): zod does not catch the SyntaxError.\<close>

definition ztext_bigint :: "json \<Rightarrow> int zod" where
  "ztext_bigint v = (case zstring v of
       Inr (Some t) \<Rightarrow> (case js_BigInt t of Some n \<Rightarrow> valid n | None \<Rightarrow> Inl bigint_error)
     | Inr None \<Rightarrow> invalid | Inl e \<Rightarrow> Inl e)"

definition zcoerce_bigint :: "json \<Rightarrow> int zod" where
  "zcoerce_bigint v = (case coerce_bigint v of Some n \<Rightarrow> valid n | None \<Rightarrow> invalid)"

definition zenum :: "(string \<times> 'a) list \<Rightarrow> json \<Rightarrow> 'a zod" where
  "zenum table v = (case v of JStr t \<Rightarrow> (case map_of table t of Some x \<Rightarrow> valid x | None \<Rightarrow> invalid) | _ \<Rightarrow> invalid)"

definition zod_run :: "platform \<Rightarrow> json \<Rightarrow> 'a zod \<Rightarrow> ('s, 'a) M" where
  "zod_run pf v z = (case z of
       Inl e \<Rightarrow> throw e
     | Inr None \<Rightarrow> throw (ZodError (pf_zod_issues pf v))
     | Inr (Some x) \<Rightarrow> return x)"

section \<open>Limits\<close>

text \<open>parseInt(s, 10); None is NaN.  White space is the ASCII one.\<close>

definition parseInt :: "string \<Rightarrow> int option" where
  "parseInt s = (let t = dropWhile is_space s;
       negative = (t \<noteq> [] \<and> hd t = CHR ''-'');
       ds = takeWhile is_digit (if negative \<or> t \<noteq> [] \<and> hd t = CHR ''+'' then tl t else t) in
     if ds = [] then None else Some (if negative then - int (digits_value ds) else int (digits_value ds)))"

text \<open>Math.min(parseInt(v ?? d, 10), cap), where NaN stays NaN.\<close>

definition capped :: "int \<Rightarrow> string \<Rightarrow> string option \<Rightarrow> int option" where
  "capped cap d v = map_option (min cap) (parseInt (case v of Some t \<Rightarrow> t | None \<Rightarrow> d))"

definition zlimit :: "json \<Rightarrow> int option zod" where
  "zlimit v = zmap (capped 50 ''20'') (zoptional zstring v)"

text \<open>Number(text), exactly and not rounded to a double; None is NaN or an infinity.\<close>

definition unsigned_decimal :: "string \<Rightarrow> rat option" where
  "unsigned_decimal u = (let whole = takeWhile is_digit u; r1 = dropWhile is_digit u;
       point = (r1 \<noteq> [] \<and> hd r1 = CHR ''.'');
       fraction = (if point then takeWhile is_digit (tl r1) else []);
       r2 = (if point then dropWhile is_digit (tl r1) else r1);
       digits = of_nat (digits_value (whole @ fraction)) / 10 ^ length fraction in
     if whole @ fraction = [] then None
     else if r2 = [] then Some digits
     else if hd r2 \<noteq> CHR ''e'' \<and> hd r2 \<noteq> CHR ''E'' then None
     else (let x = tl r2; signed = (x \<noteq> [] \<and> hd x \<in> {CHR ''-'', CHR ''+''}); ds = (if signed then tl x else x) in
       if ds = [] \<or> \<not> list_all is_digit ds then None
       else Some (if signed \<and> hd x = CHR ''-'' then digits / 10 ^ digits_value ds else digits * 10 ^ digits_value ds)))"

definition string_number :: "string \<Rightarrow> rat option" where
  "string_number raw = (case js_BigInt raw of
       Some n \<Rightarrow> Some (of_int n)
     | None \<Rightarrow> (let s = trim raw in
         if s \<noteq> [] \<and> hd s = CHR ''-'' then map_option uminus (unsigned_decimal (tl s))
         else if s \<noteq> [] \<and> hd s = CHR ''+'' then unsigned_decimal (tl s) else unsigned_decimal s))"

text \<open>z.coerce.number().int().min(lo).max(hi)\<close>

definition coerce_number :: "json \<Rightarrow> rat option" where
  "coerce_number v = (case v of
       JStr t \<Rightarrow> string_number t
     | JNum i \<Rightarrow> Some (of_int i)
     | JBig i \<Rightarrow> Some (of_int i)
     | JBool b \<Rightarrow> Some (if b then 1 else 0)
     | JNull \<Rightarrow> Some 0
     | JArr _ \<Rightarrow> string_number (js_String v)
     | _ \<Rightarrow> None)"

definition znumber :: "int \<Rightarrow> int \<Rightarrow> json \<Rightarrow> int zod" where
  "znumber lo hi v = (case coerce_number v of
       Some q \<Rightarrow> if of_int \<lfloor>q\<rfloor> = q \<and> lo \<le> \<lfloor>q\<rfloor> \<and> \<lfloor>q\<rfloor> \<le> hi then valid \<lfloor>q\<rfloor> else invalid
     | None \<Rightarrow> invalid)"

text \<open>Prisma takes from the end for a negative count, and slice drops from the end.\<close>

definition take_int :: "int \<Rightarrow> 'a list \<Rightarrow> 'a list" where
  "take_int n xs = (if 0 \<le> n then take (nat n) xs else drop (length xs - nat (- n)) xs)"

definition slice_to :: "int \<Rightarrow> 'a list \<Rightarrow> 'a list" where
  "slice_to n xs = (if 0 \<le> n then take (nat n) xs else take (length xs - nat (- n)) xs)"

definition paginate_int :: "('r \<Rightarrow> int) \<Rightarrow> int option \<Rightarrow> int \<Rightarrow> 'r list \<Rightarrow> 'r page" where
  "paginate_int k cursor limit matching =
     (let got = take_int (limit + 1) (below k cursor matching);
          more = int (length got) > limit;
          its = (if more then slice_to limit got else got)
      in \<lparr>items = its, nextCursor = (if more \<and> its \<noteq> [] then Some (k (last its)) else None), hasMore = more\<rparr>)"

lemma paginate_int_nonneg: "0 \<le> n \<Longrightarrow> paginate_int k c n rs = paginate k c (nat n) rs"
  by (auto simp: paginate_int_def paginate_def Let_def take_int_def slice_to_def nat_add_distrib min_def)

text \<open>A negative limit always gives the empty page that claims there is more.\<close>

definition no_page :: "'r page" where
  "no_page = \<lparr>items = [], nextCursor = None, hasMore = True\<rparr>"

lemma paginate_int_negative: "n < 0 \<Longrightarrow> paginate_int k c n rs = no_page"
proof -
  assume n: "n < 0"
  have "length (take_int (n + 1) xs) \<le> nat (- n)" for xs :: "'a list"
    using n by (auto simp: take_int_def)
  then have "slice_to n (take_int (n + 1) xs) = []" for xs :: "'a list"
    using n by (simp add: slice_to_def)
  then show ?thesis using n by (simp add: paginate_int_def no_page_def Let_def)
qed

text \<open>Prisma refuses a NaN and what its Int cannot hold.\<close>

definition prisma_invalid :: exn where
  "prisma_invalid = JsError ''PrismaClientValidationError''"

definition limited :: "int option \<Rightarrow> (nat \<Rightarrow> ('s, 'r page) M) \<Rightarrow> ('s, 'r page) M" where
  "limited limit rows_of = (case limit of
       None \<Rightarrow> throw prisma_invalid
     | Some l \<Rightarrow> if l + 1 < - (2 ^ 31) then throw prisma_invalid
         else if l < 0 then return no_page else rows_of (nat l))"

section \<open>JSON\<close>

definition json_text_opt :: "string option \<Rightarrow> json" where
  "json_text_opt t = (case t of None \<Rightarrow> JNull | Some x \<Rightarrow> JStr x)"

definition json_id_opt :: "int option \<Rightarrow> json" where
  "json_id_opt i = (case i of None \<Rightarrow> JNull | Some x \<Rightarrow> JBig x)"

text \<open>{ data, meta: { pagination: { nextCursor, limit } } }\<close>

definition page_response :: "('r \<Rightarrow> json) \<Rightarrow> int option \<Rightarrow> 'r page \<Rightarrow> json" where
  "page_response f limit page = JObj [(''data'', JArr (map f (items page))),
     (''meta'', JObj [(''pagination'', JObj
       [(''nextCursor'', case nextCursor page of None \<Rightarrow> JUndefined | Some c \<Rightarrow> JStr (int_to_string c)),
        (''limit'', case limit of None \<Rightarrow> JNull | Some l \<Rightarrow> JNum l)])])]"

text \<open>A page returned as the service gives it.\<close>

definition page_json :: "('r \<Rightarrow> json) \<Rightarrow> 'r page \<Rightarrow> json" where
  "page_json f page = JObj [(''items'', JArr (map f (items page))), (''nextCursor'', json_id_opt (nextCursor page)),
     (''hasMore'', JBool (hasMore page))]"

text \<open>req.user.id behind a guard that has set it.\<close>

definition with_user :: "http_request \<Rightarrow> (int \<Rightarrow> ('s, 'a) M) \<Rightarrow> ('s, 'a) M" where
  "with_user req f = (case rq_user req of
       None \<Rightarrow> throw (JsError ''Cannot read properties of undefined'')
     | Some u \<Rightarrow> f u)"

definition path_param :: "string \<Rightarrow> http_request \<Rightarrow> string" where
  "path_param k req = (case jget (rq_params req) k of JStr t \<Rightarrow> t | _ \<Rightarrow> [])"

text \<open>BigInt(id) without a guard, and a parseId that turns the error into an answer.\<close>

definition bare_id :: "string \<Rightarrow> ('s, int) M" where
  "bare_id raw = (case js_BigInt raw of Some i \<Rightarrow> return i | None \<Rightarrow> throw bigint_error)"

definition checked_id :: "exn \<Rightarrow> string \<Rightarrow> ('s, int) M" where
  "checked_id e raw = (case js_BigInt raw of Some i \<Rightarrow> return i | None \<Rightarrow> throw e)"

section \<open>What a schema gives\<close>

lemma zmap_valid: "zmap f z = Inr (Some y) \<longleftrightarrow> (\<exists>x. z = Inr (Some x) \<and> f x = y)"
  by (cases z) (auto simp: zmap_def)

lemma zboth_valid: "zboth p q = Inr (Some (x, y)) \<longleftrightarrow> p = Inr (Some x) \<and> q = Inr (Some y)"
  by (auto simp: zboth_def split: sum.splits option.splits)

lemma zrefine_valid: "zrefine P z = Inr (Some x) \<longleftrightarrow> z = Inr (Some x) \<and> P x"
  by (auto simp: zrefine_def invalid_def split: sum.splits option.splits)

section \<open>Through the pipeline\<close>

text \<open>Predicates that do not look at Redis or the audit log.\<close>

definition off_log :: "('x sys_scheme \<Rightarrow> bool) \<Rightarrow> bool" where
  "off_log P \<longleftrightarrow> (\<forall>s f. P (redis_store_update f s) = P s) \<and> (\<forall>s f. P (audit_logs_update f s) = P s)"

lemma off_log_redis: "off_log P \<Longrightarrow> but_redis t = but_redis s \<Longrightarrow> P t = P s"
proof -
  assume P: "off_log P" and e: "but_redis t = but_redis s"
  have "P (but_redis u) = P u" for u
  proof -
    have "but_redis u = redis_store_update (\<lambda>_. []) u" by (simp add: but_redis_def)
    then show ?thesis using P by (simp add: off_log_def)
  qed
  then show ?thesis using e by metis
qed

lemma off_log_keeps_redis:
  assumes "off_log P" "\<And>S. keeps (\<lambda>s. but_redis s = S) m"
  shows "keeps P m"
  unfolding keeps_def
proof (intro allI impI)
  fix s assume "P s"
  moreover have "but_redis (snd (m s)) = but_redis s" using keepsD [OF assms(2), of s "but_redis s"] by simp
  ultimately show "P (snd (m s))" using off_log_redis [OF assms(1)] by blast
qed

lemma keeps_idempotent:
  assumes "off_log P" "keeps P h"
  shows "keeps P (idempotent_call sha now idem code req h)"
proof -
  have g: "keeps P (redis_get now k)" for k
    by (rule off_log_keeps_redis [OF assms(1)])
       (auto simp: redis_get_def keeps_def run_simps split: option.splits prod.splits redis_value.splits)
  have w: "keeps P (redis_set_ex now k v n)" for k v n
    by (rule off_log_keeps_redis [OF assms(1)]) (auto simp: redis_set_ex_def keeps_def run_simps)
  show ?thesis
    unfolding idempotent_call_def Let_def
    by (intro keeps_intros g assms(2)) (auto intro!: keeps_intros g w assms(2) split: json.splits option.splits)
qed

lemma keeps_audit_intercept:
  assumes "off_log P" "keeps P h"
  shows "keeps P (audit_intercept sha now mt req h)"
proof -
  have "keeps P (audit_log sha now en)" for en
    by (rule keeps_audit_log) (use assms(1) in \<open>simp add: off_log_def\<close>)
  then show ?thesis unfolding audit_intercept_def
    by (intro keeps_intros assms(2))
qed

lemma keeps_serve_route:
  assumes "off_log P" "\<And>req'. keeps P (handler req')"
  shows "keeps P (serve_route pf uuids rt req handler)"
proof -
  have j: "keeps P (jwt_guard pf req)" by (simp add: keeps_def jwt_guard_state)
  have p: "keeps P (permission_guard c r)" for c r
    by (auto simp: keeps_def permission_guard_run split: option.splits)
  have c: "keeps P (admin_confirm_guard b r)" for b r
    by (simp add: admin_confirm_guard_def keeps_intros)
  show ?thesis unfolding serve_route_def
    by (intro keeps_intros j p c keeps_audit_intercept keeps_idempotent assms
          off_log_keeps_redis [OF assms(1) keeps_rate_limit_guard])
qed

lemma keeps_request_parts [keeps_intros]:
  "keeps P (zod_run pf v z)" "keeps P (bare_id t)" "keeps P (checked_id e t)"
  "(\<And>u. keeps P (f u)) \<Longrightarrow> keeps P (with_user req f)" "(\<And>n. keeps P (g n)) \<Longrightarrow> keeps P (limited l g)"
  by (auto simp: zod_run_def bare_id_def checked_id_def with_user_def limited_def intro!: keeps_intros split: sum.splits)

section \<open>A header nobody reads\<close>

definition with_header :: "string \<Rightarrow> string \<Rightarrow> http_request \<Rightarrow> http_request" where
  "with_header k v req = req\<lparr>rq_headers := (k, v) # rq_headers req\<rparr>"

lemma with_header_simps:
  "rq_method (with_header k v r) = rq_method r" "rq_path (with_header k v r) = rq_path r"
  "rq_params (with_header k v r) = rq_params r" "rq_body (with_header k v r) = rq_body r"
  "rq_ip (with_header k v r) = rq_ip r" "rq_user (with_header k v r) = rq_user r"
  "rq_impersonation (with_header k v r) = rq_impersonation r"
  "map_of (rq_headers (with_header k v r)) j = (if j = k then Some v else map_of (rq_headers r) j)"
  by (simp_all add: with_header_def)

lemma extractToken_header: "k \<noteq> ''authorization'' \<Longrightarrow> extractToken (with_header k v req) = extractToken req"
  by (simp add: extractToken_def with_header_simps)

lemma jwt_guard_header:
  assumes "k \<noteq> ''authorization''"
  shows "jwt_guard pf (with_header k v req) = bind (jwt_guard pf req) (\<lambda>r. return (with_header k v r))"
  unfolding jwt_guard_def extractToken_header [OF assms]
  by (auto simp: fun_eq_iff with_header_def bind_def return_def throw_def gets_def split: option.splits sum.splits)

text \<open>Without the confirmation guard, the header changes nothing.\<close>

lemma confirm_header_unread:
  assumes "\<not> rt_confirm rt" "\<And>r. handler (with_header ''x-admin-confirm'' v r) = handler r"
  shows "serve_route pf uuids rt (with_header ''x-admin-confirm'' v req) handler = serve_route pf uuids rt req handler"
proof -
  let ?h = "with_header ''x-admin-confirm'' v"
  have p: "permission_guard c (?h r) = permission_guard c r" for c r
    unfolding permission_guard_def with_header_simps ..
  have e: "interceptor_entry mt (?h r) = interceptor_entry mt r" "request_snapshot (?h r) = request_snapshot r" for mt r
    by (simp_all add: fun_eq_iff interceptor_entry_def audit_actor_id_def extractResourceId_def readSource_def
        request_snapshot_def with_header_simps split: option.split resource_id_source.split)
  have a: "audit_intercept sha now mt (?h r) m = audit_intercept sha now mt r m" for sha now mt r m
    unfolding audit_intercept_def e ..
  have k: "map_of (rq_headers (?h r)) ''idempotency-key'' = map_of (rq_headers r) ''idempotency-key''" for r
    by (simp add: with_header_simps)
  have i: "idempotent_call sha now b code (?h r) m = idempotent_call sha now b code r m" for sha now b code r m
    unfolding idempotent_call_def k unfolding with_header_simps ..
  have c: "admin_confirm_guard (rt_confirm rt) r = return ()" for r
    using assms(1) by (simp add: admin_confirm_guard_def)
  have one: "bind (bind m (\<lambda>r. return (?h r))) f = bind m (\<lambda>r. f (?h r))" for m :: "('s, http_request) M" and f :: "http_request \<Rightarrow> ('s, json) M"
    by (auto simp: fun_eq_iff bind_def return_def split: sum.splits prod.splits)
  have ret: "bind (return r) f = f r" for r and f :: "http_request \<Rightarrow> ('s, json) M" by (simp add: fun_eq_iff bind_def return_def)
  have ip: "rq_ip (?h req) = rq_ip req" by (simp add: with_header_simps)
  show ?thesis
    by (cases "rt_auth rt")
       (simp_all add: serve_route_def ip jwt_guard_header one ret p a i c assms(2) cong: option.case_cong)
qed

end
