(* ===== verification/Payments.thy ===== *)
theory Payments
  imports Ledger
begin

text \<open>
  core/payments: payments.service.ts (initiate, handleCallback, findById and the page
  queries, refund, markRefundCompleted, validatePurpose, buildCallbackUrl),
  payment-ledger.reconciler.ts, and the projections of payments.controller.ts.  The
  payment provider is a parameter: a record of its three calls, each returning or
  throwing (Zarinpal models the two implementations of the interface).

  The lemmas show the state machine of a payment (terminal statuses never change and a
  repeated callback writes nothing), that a payment is credited at most once whatever
  callbacks arrive, that the refunds of a payment never exceed its amount, and that the
  ledger's invariant is kept.
\<close>

section \<open>The provider interface\<close>

record initiate_request =
  ir_amount :: int
  ir_description :: string
  ir_callbackUrl :: string
  ir_referenceId :: string
  ir_userMobile :: "string option"
  ir_userEmail :: "string option"

record initiate_output =
  io_redirectUrl :: string
  io_providerReference :: string

record verify_output =
  vo_verified :: bool
  vo_referenceCode :: "string option"
  vo_cardPan :: "string option"
  vo_failureReason :: "string option"

record provider =
  pv_name :: string
  pv_initiate :: "initiate_request \<Rightarrow> exn + initiate_output"
  pv_verify :: "string \<Rightarrow> int \<Rightarrow> exn + verify_output"
  pv_refund :: "string \<Rightarrow> int \<Rightarrow> string \<Rightarrow> exn + bool"

definition call :: "exn + 'a \<Rightarrow> ('s, 'a) M" where
  "call r = (case r of Inl e \<Rightarrow> throw e | Inr x \<Rightarrow> return x)"

lemma wp_call [wp_eqs]: "wp (call r) Q E s = (case r of Inl e \<Rightarrow> E e s | Inr x \<Rightarrow> Q x s)"
  by (simp add: call_def wp_eqs split: sum.splits)

lemma keeps_call [keeps_intros]: "keeps P (call r)"
  by (simp add: call_def keeps_throw keeps_return split: sum.splits)

section \<open>Purposes and the callback address\<close>

definition is_purpose_char :: "char \<Rightarrow> bool" where
  "is_purpose_char c \<longleftrightarrow> (CHR ''a'' \<le> c \<and> c \<le> CHR ''z'') \<or> c = CHR ''_''"

text \<open>The pattern: lower-case letters and underscores, then optionally a colon and at
  least one character, none of them a line terminator.\<close>

definition purpose_pattern :: "string \<Rightarrow> bool" where
  "purpose_pattern s =
     (let p = takeWhile is_purpose_char s; r = dropWhile is_purpose_char s in
      p \<noteq> [] \<and> (r = [] \<or> (hd r = CHR '':'' \<and> tl r \<noteq> [] \<and>
                 (\<forall>c\<in>set (tl r). c \<noteq> CHR 0x0A \<and> c \<noteq> CHR 0x0D))))"

definition CORE_PAYMENT_PURPOSES :: "string list" where
  "CORE_PAYMENT_PURPOSES = [''wallet_topup'']"

definition validatePurpose :: "string list \<Rightarrow> string \<Rightarrow> ('s, unit) M" where
  "validatePurpose moduleAllowed purpose =
     (if purpose \<in> set CORE_PAYMENT_PURPOSES then return ()
      else if purpose \<in> set moduleAllowed then return ()
      else if purpose_pattern purpose then return ()
      else throw (http_exn VALIDATION_ERROR 400 ''Invalid payment purpose''))"

definition starts_with :: "string \<Rightarrow> string \<Rightarrow> bool" where
  "starts_with p s \<longleftrightarrow> take (length p) s = p"

definition ends_with :: "string \<Rightarrow> string \<Rightarrow> bool" where
  "ends_with p s \<longleftrightarrow> length p \<le> length s \<and> drop (length s - length p) s = p"

definition strip_suffix :: "string \<Rightarrow> string \<Rightarrow> string" where
  "strip_suffix p s = take (length s - length p) s"

definition buildCallbackUrl :: "string option \<Rightarrow> string \<Rightarrow> int \<Rightarrow> string" where
  "buildCallbackUrl configured port paymentId =
     (case configured of
        Some c \<Rightarrow>
          if c \<noteq> [] then
            (let base = (if ends_with ''/callback/'' c then strip_suffix ''/callback/'' c
                         else if ends_with ''/callback'' c then strip_suffix ''/callback'' c
                         else c)
             in base @ ''/'' @ int_to_string paymentId @ ''/callback'')
          else ''http://localhost:'' @ port @ ''/api/v1/payments/'' @ int_to_string paymentId @ ''/callback''
      | None \<Rightarrow> ''http://localhost:'' @ port @ ''/api/v1/payments/'' @ int_to_string paymentId @ ''/callback'')"

section \<open>Configuration of the service\<close>

record pay_env = env +
  pe_provider :: provider
  pe_moduleAllowed :: "string list"
  pe_callbackUrl :: "string option"
  pe_port :: string

definition pay_base :: "pay_env \<Rightarrow> env" where
  "pay_base env = env.truncate env"

definition registerAllowedPurposes :: "string list \<Rightarrow> pay_env \<Rightarrow> pay_env" where
  "registerAllowedPurposes purposes env = env\<lparr>pe_moduleAllowed := purposes\<rparr>"

section \<open>Initiation\<close>

record initiate_input =
  ii_userId :: int
  ii_amount :: int
  ii_purpose :: string
  ii_description :: string
  ii_metadata :: "json option"

definition payment_update :: "int \<Rightarrow> (payment \<Rightarrow> payment) \<Rightarrow> ('x sys_scheme, payment) M" where
  "payment_update i g = update_in payments payments_update pay_id i g"

definition initiate :: "pay_env \<Rightarrow> initiate_input \<Rightarrow> ('x sys_scheme, int \<times> string) M" where
  "initiate env input =
     seq (validatePurpose (pe_moduleAllowed env) (ii_purpose input))
     (bind (gets (find_user (ii_userId input))) (\<lambda>u.
        case u of
          None \<Rightarrow> throw (http_exn NOT_FOUND 404 ''User not found'')
        | Some user \<Rightarrow>
          bind (create_in payments payments_update
                  (\<lambda>i. \<lparr>pay_id = i, pay_userId = ii_userId input, pay_amount = ii_amount input,
                        pay_purpose = ii_purpose input, pay_description = ii_description input,
                        pay_status = PENDING, pay_providerName = pv_name (pe_provider env),
                        pay_providerReference = None, pay_referenceCode = None,
                        pay_cardPanMasked = None,
                        pay_metadata = (case ii_metadata input of Some m \<Rightarrow> m | None \<Rightarrow> JObj []),
                        pay_initiatedAt = env_now env, pay_completedAt = None, pay_failureReason = None\<rparr>)) (\<lambda>payment.
          case pv_initiate (pe_provider env)
                 \<lparr>ir_amount = ii_amount input, ir_description = ii_description input,
                  ir_callbackUrl = buildCallbackUrl (pe_callbackUrl env) (pe_port env) (pay_id payment),
                  ir_referenceId = int_to_string (pay_id payment),
                  ir_userMobile = Some (u_phone user), ir_userEmail = u_email user\<rparr> of
            Inl err \<Rightarrow>
              seq (payment_update (pay_id payment)
                    (\<lambda>p. p\<lparr>pay_status := FAILED,
                           pay_failureReason := Some (take 500 (exn_message (pay_base env) err)),
                           pay_completedAt := Some (env_now env)\<rparr>))
                  (throw (http_exn PAYMENT_INITIATION_FAILED 502 ''Payment initiation failed''))
          | Inr result \<Rightarrow>
              seq (payment_update (pay_id payment)
                    (\<lambda>p. p\<lparr>pay_providerReference := Some (io_providerReference result)\<rparr>))
                  (return (pay_id payment, io_redirectUrl result)))))"

section \<open>The reconciler\<close>

definition payment_reference :: "int \<Rightarrow> string" where
  "payment_reference paymentId = ''payment:'' @ int_to_string paymentId"

definition reconcile :: "env \<Rightarrow> int \<Rightarrow> ('x sys_scheme, unit) M" where
  "reconcile env paymentId =
     bind (gets (\<lambda>s. t_get pay_id paymentId (payments s))) (\<lambda>p.
       case p of
         None \<Rightarrow> return ()
       | Some payment \<Rightarrow>
         bind (gets (\<lambda>s. t_exists (\<lambda>e. e_reference e = Some (payment_reference paymentId))
                           (ledger_entries s))) (\<lambda>existing.
           if existing then return ()
           else if pay_purpose payment = ''wallet_topup'' then
             bind (findOrCreateForUser (pay_userId payment)) (\<lambda>wallet.
               seq (credit env \<lparr>li_walletId = w_id wallet, li_amount = pay_amount payment,
                      li_reference = Some (payment_reference paymentId),
                      li_description = Some (''Wallet topup '' @ utf8 [226, 128, 148] @ '' payment #''
                                             @ int_to_string paymentId),
                      li_metadata = Some (JObj [(''paymentId'', JStr (int_to_string paymentId))])\<rparr>)
                   (return ()))
           else return ()))"

section \<open>The callback\<close>

datatype provider_status = P_OK | P_NOK

definition terminal_status :: "payment_status \<Rightarrow> bool" where
  "terminal_status st \<longleftrightarrow> st \<in> {SUCCEEDED, FAILED, CANCELLED, EXPIRED}"

text \<open>The status update and the reconciliation share a transaction callback, but the
  reconciler works on its own connection: a throw of the reconciler undoes the status
  update and leaves what the reconciler itself committed, and the reconciler does not see
  the update.  So the update takes effect after the reconciler has returned.\<close>

definition handleCallback ::
    "pay_env \<Rightarrow> int \<Rightarrow> string \<Rightarrow> provider_status \<Rightarrow> ('x sys_scheme, int \<times> payment_status) M" where
  "handleCallback env paymentId providerReference providerStatus =
     bind (gets (\<lambda>s. t_get pay_id paymentId (payments s))) (\<lambda>p.
       case p of
         None \<Rightarrow> throw (http_exn NOT_FOUND 404 ''Payment not found'')
       | Some payment \<Rightarrow>
         if terminal_status (pay_status payment) then return (pay_id payment, pay_status payment)
         else if pay_providerReference payment \<noteq> Some providerReference then
           throw (http_exn INVALID_CALLBACK 400 ''Callback authority does not match payment'')
         else if providerStatus = P_NOK then
           seq (payment_update (pay_id payment)
                 (\<lambda>p. p\<lparr>pay_status := CANCELLED, pay_completedAt := Some (env_now env)\<rparr>))
          (seq (dispatch (pay_base env) (pay_userId payment) ''PAYMENT_CANCELLED''
                 [(''amount'', JBig (pay_amount payment))] [IN_APP])
               (return (pay_id payment, CANCELLED)))
         else
           bind (call (pv_verify (pe_provider env) providerReference (pay_amount payment))) (\<lambda>v.
             if vo_verified v then
               seq (reconcile (pay_base env) (pay_id payment))
              (seq (payment_update (pay_id payment)
                     (\<lambda>p. p\<lparr>pay_status := SUCCEEDED, pay_completedAt := Some (env_now env),
                            pay_referenceCode := vo_referenceCode v,
                            pay_cardPanMasked := vo_cardPan v\<rparr>))
              (seq (dispatch (pay_base env) (pay_userId payment) ''PAYMENT_SUCCEEDED''
                     [(''amount'', JBig (pay_amount payment)),
                      (''reference'', JStr (case vo_referenceCode v of Some r \<Rightarrow> r | None \<Rightarrow> []))]
                     [IN_APP, SMS])
                   (return (pay_id payment, SUCCEEDED))))
             else
               seq (payment_update (pay_id payment)
                     (\<lambda>p. p\<lparr>pay_status := FAILED, pay_completedAt := Some (env_now env),
                            pay_failureReason := Some (take 500
                              (case vo_failureReason v of Some r \<Rightarrow> r | None \<Rightarrow> ''Verification failed''))\<rparr>))
              (seq (dispatch (pay_base env) (pay_userId payment) ''PAYMENT_FAILED''
                     [(''amount'', JBig (pay_amount payment))] [IN_APP])
                   (return (pay_id payment, FAILED)))))"

section \<open>Refunds\<close>

definition contains :: "string \<Rightarrow> string \<Rightarrow> bool" where
  "contains p s \<longleftrightarrow> list_ex (\<lambda>i. take (length p) (drop i s) = p) [0..<length s + 1]"

definition isRefundNotSupportedError :: "env \<Rightarrow> exn \<Rightarrow> bool" where
  "isRefundNotSupportedError env e =
     contains (code_string REFUND_NOT_SUPPORTED_BY_PROVIDER) (exn_message env e)"

definition isInsufficientFundsError :: "exn \<Rightarrow> bool" where
  "isInsufficientFundsError e = (case e of
       HttpException _ (RespObject r) \<Rightarrow> jget r ''code'' = JStr (code_string INSUFFICIENT_FUNDS)
     | _ \<Rightarrow> False)"

record refund_input =
  ri_paymentId :: int
  ri_amount :: "int option"
  ri_reason :: string
  ri_actorUserId :: int

definition alreadyRefunded :: "int \<Rightarrow> 'x sys_scheme \<Rightarrow> int" where
  "alreadyRefunded paymentId s = t_sum (\<lambda>r. rf_paymentId r = paymentId) rf_amount (refunds s)"

definition payment_status_string :: "payment_status \<Rightarrow> string" where
  "payment_status_string st = (case st of PENDING \<Rightarrow> ''PENDING'' | SUCCEEDED \<Rightarrow> ''SUCCEEDED''
     | FAILED \<Rightarrow> ''FAILED'' | CANCELLED \<Rightarrow> ''CANCELLED'' | EXPIRED \<Rightarrow> ''EXPIRED'')"

definition probeRefund :: "pay_env \<Rightarrow> payment \<Rightarrow> int \<Rightarrow> string \<Rightarrow> ('s, bool) M" where
  "probeRefund env payment refundAmount reason =
     (case pv_refund (pe_provider env)
             (case pay_providerReference payment of Some r \<Rightarrow> r | None \<Rightarrow> []) refundAmount reason of
        Inr refunded \<Rightarrow> return refunded
      | Inl err \<Rightarrow> if isRefundNotSupportedError (pay_base env) err then return False else throw err)"

text \<open>The wallet takes the refund of a top-up; when it cannot, the refund row stays.\<close>

definition absorbRefund :: "pay_env \<Rightarrow> payment \<Rightarrow> refund_row \<Rightarrow> int \<Rightarrow> ('x sys_scheme, unit) M" where
  "absorbRefund env payment rf refundAmount =
     (if pay_purpose payment = ''wallet_topup'' then
        tryCatch
          (bind (findOrCreateForUser (pay_userId payment)) (\<lambda>wallet.
             seq (debit (pay_base env) \<lparr>li_walletId = w_id wallet, li_amount = refundAmount,
                    li_reference = Some (''refund:'' @ int_to_string (rf_id rf)),
                    li_description = Some (''Refund '' @ utf8 [226, 128, 148] @ '' payment #''
                                           @ int_to_string (pay_id payment)),
                    li_metadata = Some (JObj
                      [(''refundId'', JStr (int_to_string (rf_id rf))),
                       (''paymentId'', JStr (int_to_string (pay_id payment)))])\<rparr>)
                 (return ())))
          (\<lambda>err. if isInsufficientFundsError err then
                   throw (http_exn CANNOT_REFUND_INSUFFICIENT_BALANCE 422
                     (''User wallet has insufficient balance to absorb the refund. ''
                      @ ''Refund row created '' @ utf8 [226, 128, 148]
                      @ '' admin must resolve manually.''))
                 else throw err)
      else return ())"

definition refund :: "pay_env \<Rightarrow> refund_input \<Rightarrow> ('x sys_scheme, refund_row) M" where
  "refund env input =
     bind (gets (\<lambda>s. t_get pay_id (ri_paymentId input) (payments s))) (\<lambda>p.
       case p of
         None \<Rightarrow> throw (http_exn NOT_FOUND 404 ''Payment not found'')
       | Some payment \<Rightarrow>
         if pay_status payment \<noteq> SUCCEEDED then
           throw (http_exn PAYMENT_NOT_REFUNDABLE 422
             (''Cannot refund payment with status '' @ payment_status_string (pay_status payment)))
         else
         let refundAmount = (case ri_amount input of Some a \<Rightarrow> a | None \<Rightarrow> pay_amount payment) in
         if refundAmount \<le> 0 then
           throw (http_exn VALIDATION_ERROR 400 ''Refund amount must be positive'')
         else
         bind (gets (alreadyRefunded (ri_paymentId input))) (\<lambda>already.
         let remaining = pay_amount payment - already in
         if refundAmount > remaining then
           throw (http_exn REFUND_AMOUNT_EXCEEDS_AVAILABLE 422
             (''Refund amount '' @ int_to_string refundAmount @ '' exceeds available ''
              @ int_to_string remaining @ '' (payment '' @ int_to_string (pay_amount payment)
              @ '' - already-refunded '' @ int_to_string already @ '')''))
         else
         bind (probeRefund env payment refundAmount (ri_reason input)) (\<lambda>auto.
         bind (create_in refunds refunds_update
                (\<lambda>i. \<lparr>rf_id = i, rf_paymentId = pay_id payment, rf_amount = refundAmount,
                      rf_reason = ri_reason input,
                      rf_status = (if auto then COMPLETED else PENDING_MANUAL),
                      rf_requestedByUserId = ri_actorUserId input, rf_requestedAt = env_now env,
                      rf_completedAt = (if auto then Some (env_now env) else None),
                      rf_bankReference = None\<rparr>)) (\<lambda>rf.
         seq (absorbRefund env payment rf refundAmount)
         (seq (dispatch (pay_base env) (pay_userId payment) ''PAYMENT_REFUNDED''
                [(''amount'', JBig refundAmount), (''paymentId'', JStr (int_to_string (pay_id payment)))]
                [IN_APP, SMS])
              (return rf))))))"

definition refund_status_string :: "refund_status \<Rightarrow> string" where
  "refund_status_string st = (case st of PENDING_MANUAL \<Rightarrow> ''PENDING_MANUAL'' | COMPLETED \<Rightarrow> ''COMPLETED'')"

definition markRefundCompleted :: "pay_env \<Rightarrow> int \<Rightarrow> string \<Rightarrow> ('x sys_scheme, refund_row) M" where
  "markRefundCompleted env refundId bankReference =
     bind (gets (\<lambda>s. t_get rf_id refundId (refunds s))) (\<lambda>r.
       case r of
         None \<Rightarrow> throw (http_exn NOT_FOUND 404 ''Refund not found'')
       | Some rf \<Rightarrow>
         if rf_status rf \<noteq> PENDING_MANUAL then
           throw (http_exn REFUND_NOT_PENDING 422
             (''Refund cannot be marked completed from status '' @ refund_status_string (rf_status rf)))
         else update_in refunds refunds_update rf_id (rf_id rf)
                (\<lambda>r. r\<lparr>rf_status := COMPLETED, rf_completedAt := Some (env_now env),
                       rf_bankReference := Some bankReference\<rparr>))"

section \<open>Queries\<close>

definition findById :: "int \<Rightarrow> int option \<Rightarrow> ('x sys_scheme, payment) M" where
  "findById i userId =
     bind (gets (\<lambda>s. t_get pay_id i (payments s))) (\<lambda>p.
       case p of
         None \<Rightarrow> throw (http_exn NOT_FOUND 404 ''Payment not found'')
       | Some payment \<Rightarrow>
         (case userId of
            Some u \<Rightarrow> if pay_userId payment \<noteq> u
                      then throw (http_exn NOT_FOUND 404 ''Payment not found'')
                      else return payment
          | None \<Rightarrow> return payment))"

definition pay_findForUser :: "int \<Rightarrow> int option \<Rightarrow> nat \<Rightarrow> ('x sys_scheme, payment page) M" where
  "pay_findForUser userId cursor limit =
     gets (\<lambda>s. paginate pay_id cursor limit (t_filter (\<lambda>p. pay_userId p = userId) (payments s)))"

text \<open>The admin filters test for truthiness: the bigint 0 counts as absent.\<close>

definition truthy :: "int option \<Rightarrow> int option" where
  "truthy x = (if x = Some 0 then None else x)"

definition matches :: "'a option \<Rightarrow> 'a \<Rightarrow> bool" where
  "matches f x = (case f of None \<Rightarrow> True | Some y \<Rightarrow> x = y)"

definition pay_findForAdmin ::
    "payment_status option \<Rightarrow> int option \<Rightarrow> int option \<Rightarrow> nat \<Rightarrow> ('x sys_scheme, payment page) M" where
  "pay_findForAdmin status userId cursor limit =
     gets (\<lambda>s. paginate pay_id (truthy cursor) limit
       (t_filter (\<lambda>p. matches status (pay_status p) \<and> matches (truthy userId) (pay_userId p))
          (payments s)))"

definition findRefundsForAdmin ::
    "refund_status option \<Rightarrow> int option \<Rightarrow> int option \<Rightarrow> nat \<Rightarrow> ('x sys_scheme, refund_row page) M" where
  "findRefundsForAdmin status paymentId cursor limit =
     gets (\<lambda>s. paginate rf_id (truthy cursor) limit
       (t_filter (\<lambda>r. matches status (rf_status r) \<and> matches (truthy paymentId) (rf_paymentId r))
          (refunds s)))"

text \<open>What the controllers show of a payment.\<close>

record user_view =
  uv_id :: int
  uv_amount :: int
  uv_purpose :: string
  uv_description :: string
  uv_status :: payment_status
  uv_referenceCode :: "string option"
  uv_initiatedAt :: int
  uv_completedAt :: "int option"

definition sanitizeForUser :: "payment \<Rightarrow> user_view" where
  "sanitizeForUser p =
     \<lparr>uv_id = pay_id p, uv_amount = pay_amount p, uv_purpose = pay_purpose p,
      uv_description = pay_description p, uv_status = pay_status p,
      uv_referenceCode = pay_referenceCode p, uv_initiatedAt = pay_initiatedAt p,
      uv_completedAt = pay_completedAt p\<rparr>"

record status_view =
  sv_id :: int
  sv_status :: payment_status
  sv_amount :: int
  sv_referenceCode :: "string option"
  sv_completedAt :: "int option"

definition sanitizeForStatus :: "payment \<Rightarrow> status_view" where
  "sanitizeForStatus p =
     \<lparr>sv_id = pay_id p, sv_status = pay_status p, sv_amount = pay_amount p,
      sv_referenceCode = pay_referenceCode p, sv_completedAt = pay_completedAt p\<rparr>"

definition getPaymentStatus :: "int \<Rightarrow> int \<Rightarrow> ('x sys_scheme, status_view) M" where
  "getPaymentStatus reqUser paymentId =
     bind (findById paymentId (Some reqUser)) (\<lambda>p. return (sanitizeForStatus p))"

section \<open>The callback, branch by branch\<close>

lemma handleCallback_terminal:
  assumes "t_get pay_id i (payments s) = Some p" "terminal_status (pay_status p)"
  shows "handleCallback env i ref st s = (Inr (i, pay_status p), s)"
  using assms t_get_key [OF assms(1)] by (simp add: handleCallback_def run_simps)

lemma handleCallback_forged:
  assumes "t_get pay_id i (payments s) = Some p" "\<not> terminal_status (pay_status p)"
    and "pay_providerReference p \<noteq> Some ref"
  shows "handleCallback env i ref st s =
    (Inl (http_exn INVALID_CALLBACK 400 ''Callback authority does not match payment''), s)"
  using assms by (simp add: handleCallback_def run_simps)

lemma not_terminal: "\<not> terminal_status st \<longleftrightarrow> st = PENDING"
  by (cases st) (simp_all add: terminal_status_def)

section \<open>The invariant of payments\<close>

definition credits_for :: "int \<Rightarrow> ledger_entry table \<Rightarrow> ledger_entry list" where
  "credits_for i L = t_filter (\<lambda>e. e_reference e = Some (payment_reference i)) L"

lemma payment_reference_inj [simp]: "payment_reference i = payment_reference j \<longleftrightarrow> i = j"
  by (simp add: payment_reference_def)

lemma credits_for_insert:
  "credits_for i (t_insert f L) =
     credits_for i L @ (if e_reference (f (next_id L)) = Some (payment_reference i) then [f (next_id L)] else [])"
  by (simp add: credits_for_def t_filter_def t_insert_def)

definition refunds_ok :: "payment table \<Rightarrow> refund_row table \<Rightarrow> bool" where
  "refunds_ok P R \<longleftrightarrow>
     wf_table rf_id R \<and>
     (\<forall>r\<in>set (rows R). 0 < rf_amount r \<and>
        (\<exists>p. t_get pay_id (rf_paymentId r) P = Some p \<and>
             pay_status p = SUCCEEDED \<and>
             t_sum (\<lambda>x. rf_paymentId x = rf_paymentId r) rf_amount R \<le> pay_amount p))"

definition credits_ok :: "payment table \<Rightarrow> ledger_entry table \<Rightarrow> bool" where
  "credits_ok P L \<longleftrightarrow>
     (\<forall>i. credits_for i L = [] \<or>
        (\<exists>p e. t_get pay_id i P = Some p \<and> pay_status p = SUCCEEDED \<and>
               credits_for i L = [e] \<and> e_kind e = CREDIT \<and> e_amount e = pay_amount p)) \<and>
     (\<forall>i p. t_get pay_id i P = Some p \<longrightarrow> pay_status p = SUCCEEDED \<longrightarrow>
        pay_purpose p = ''wallet_topup'' \<longrightarrow> credits_for i L \<noteq> [])"

definition pay_ok :: "'x sys_scheme \<Rightarrow> bool" where
  "pay_ok s \<longleftrightarrow> books_ok s \<and> wf_table pay_id (payments s) \<and>
     refunds_ok (payments s) (refunds s) \<and> credits_ok (payments s) (ledger_entries s)"

lemma pay_ok_same_books: "pay_ok s \<Longrightarrow> same_books s t \<Longrightarrow> pay_ok t"
  by (simp add: pay_ok_def books_ok_def same_books_fields)

lemma pending_no_credit:
  "credits_ok P L \<Longrightarrow> t_get pay_id i P = Some p \<Longrightarrow> pay_status p \<noteq> SUCCEEDED \<Longrightarrow> credits_for i L = []"
  by (auto simp: credits_ok_def)

lemma fresh_no_credit:
  "credits_ok P L \<Longrightarrow> wf_table pay_id P \<Longrightarrow> credits_for (next_id P) L = []"
  using tbl.lookup_fresh [of pay_id P] by (auto simp: credits_ok_def)

lemma refunds_ok_insert_payment:
  assumes "refunds_ok P R" "wf_table pay_id P" "\<And>i. pay_id (f i) = i"
  shows "refunds_ok (t_insert f P) R"
proof -
  have "t_get pay_id j (t_insert f P) = Some p" if "t_get pay_id j P = Some p" for j p
    using tbl.create_other [of pay_id P f] assms(2,3) that by blast
  then show ?thesis using assms(1) unfolding refunds_ok_def by meson
qed

lemma refunds_ok_change_payment:
  assumes "refunds_ok P R" "t_get pay_id i P = Some p" "pay_status p \<noteq> SUCCEEDED"
    and "\<And>r. pay_id (g r) = pay_id r"
  shows "refunds_ok (t_change pay_id i g P) R"
proof -
  have "rf_paymentId r \<noteq> i" if "r \<in> set (rows R)" for r
    using assms(1,2,3) that by (auto simp: refunds_ok_def)
  then show ?thesis
    using assms(1) by (auto simp: refunds_ok_def t_get_change [of pay_id g, OF assms(4)])
qed

lemma credits_ok_insert_payment:
  assumes "credits_ok P L" "wf_table pay_id P" "\<And>i. pay_id (f i) = i" "\<And>i. pay_status (f i) = PENDING"
  shows "credits_ok (t_insert f P) L"
  using assms fresh_no_credit [OF assms(1,2)]
  by (auto simp: credits_ok_def t_get_insert [OF assms(2,3)])

lemma credits_ok_change_payment:
  assumes "credits_ok P L" "t_get pay_id i P = Some p" "pay_status p \<noteq> SUCCEEDED"
    and g: "\<And>r. pay_id (g r) = pay_id r" and "pay_status (g p) \<noteq> SUCCEEDED"
  shows "credits_ok (t_change pay_id i g P) L"
  using assms(1,2,3,5) pending_no_credit [OF assms(1,2,3)]
  by (auto simp: credits_ok_def t_get_change [of pay_id g, OF g])

lemma pay_ok_change_pending:
  assumes "pay_ok s" "t_get pay_id i (payments s) = Some p" "pay_status p \<noteq> SUCCEEDED"
    and g: "\<And>r. pay_id (g r) = pay_id r" and "pay_status (g p) \<noteq> SUCCEEDED"
  shows "pay_ok (payments_update (t_change pay_id i g) s)"
  using assms refunds_ok_change_payment [OF _ assms(2,3) g] credits_ok_change_payment [OF _ assms(2,3) g assms(5)]
  by (simp add: pay_ok_def books_ok_def)

lemma keeps_initiate: "keeps pay_ok (initiate env input)"
proof (rule keeps_wpI)
  fix s :: "'x sys_scheme" assume s: "pay_ok s"
  let ?f = "\<lambda>i. \<lparr>pay_id = i, pay_userId = ii_userId input, pay_amount = ii_amount input,
      pay_purpose = ii_purpose input, pay_description = ii_description input,
      pay_status = PENDING, pay_providerName = pv_name (pe_provider env),
      pay_providerReference = None, pay_referenceCode = None, pay_cardPanMasked = None,
      pay_metadata = (case ii_metadata input of Some m \<Rightarrow> m | None \<Rightarrow> JObj []),
      pay_initiatedAt = env_now env, pay_completedAt = None, pay_failureReason = None\<rparr>"
  let ?t = "payments_update (t_insert ?f) s"
  have P: "wf_table pay_id (payments s)" using s by (simp add: pay_ok_def)
  have t: "pay_ok ?t"
    using s P refunds_ok_insert_payment [of "payments s" "refunds s" ?f]
      credits_ok_insert_payment [of "payments s" "ledger_entries s" ?f]
    by (simp add: pay_ok_def books_ok_def)
  have g: "t_get pay_id (next_id (payments s)) (payments ?t) = Some (?f (next_id (payments s)))"
    using t_get_insert [OF P, of ?f] by simp
  show "wp (initiate env input) (\<lambda>_. pay_ok) (\<lambda>_. pay_ok) s"
    using s t g pay_ok_change_pending [OF t g]
    by (auto simp: initiate_def validatePurpose_def wp_eqs t_new_def payment_update_def
             split: option.splits sum.splits)
qed

section \<open>Reconciliation and the callback keep the invariant\<close>

definition topup_credit :: "payment \<Rightarrow> 'x sys_scheme \<Rightarrow> 'x sys_scheme \<Rightarrow> bool" where
  "topup_credit p s t \<longleftrightarrow>
     (\<exists>f. ledger_entries t = t_insert f (ledger_entries s) \<and>
          (\<forall>k. e_reference (f k) = Some (payment_reference (pay_id p)) \<and> e_kind (f k) = CREDIT \<and>
               e_amount (f k) = pay_amount p)) \<and>
     total (wallets t) = total (wallets s) + pay_amount p \<and>
     (\<exists>w. wallet_findUnique (pay_userId p) t = Some w)"

lemma wallet_findUnique_posted:
  assumes "posted kind nb input s t"
  shows "wallet_findUnique u t = None \<longleftrightarrow> wallet_findUnique u s = None"
proof -
  from posted_tables [OF assms] have "wallets t = post_wallets (li_walletId input) nb (wallets s)" by metis
  then have "map w_userId (rows (wallets t)) = map w_userId (rows (wallets s))"
    by (simp add: rows_post_wallets)
  then have "w_userId ` set (rows (wallets t)) = w_userId ` set (rows (wallets s))"
    by (metis set_map)
  moreover have "wallet_findUnique u v = None \<longleftrightarrow> u \<notin> w_userId ` set (rows (wallets v))" for v :: "'a sys_scheme"
    by (auto simp: wallet_findUnique_def t_find_None)
  ultimately show ?thesis by simp
qed

lemma posted_others:
  assumes "posted kind nb input s t"
  shows "payments t = payments s" "refunds t = refunds s" "payout_requests t = payout_requests s"
    "users t = users s"
  using assms by (auto simp: posted_def post_def dest: same_books_fields)

lemma wp_reconcile:
  assumes ok: "books_ok s" and p: "t_get pay_id i (payments s) = Some p"
    and none: "credits_for i (ledger_entries s) = []"
  shows "wp (reconcile env i)
    (\<lambda>_ t. books_ok t \<and> payments t = payments s \<and> refunds t = refunds s \<and>
           payout_requests t = payout_requests s \<and>
           (if pay_purpose p = ''wallet_topup'' then topup_credit p s t
            else t = s))
    (\<lambda>_ t. books_ok t \<and> payments t = payments s \<and> refunds t = refunds s \<and>
           payout_requests t = payout_requests s \<and>
           ledger_entries t = ledger_entries s \<and> total (wallets t) = total (wallets s)) s"
proof -
  have ex: "\<not> t_exists (\<lambda>e. e_reference e = Some (payment_reference i)) (ledger_entries s)"
    using none by (auto simp: credits_for_def t_filter_def t_exists_def list_ex_iff filter_empty_conv)
  have pid: "pay_id p = i" using p by (rule t_get_key)
  show ?thesis
  proof (cases "pay_purpose p = ''wallet_topup''")
    case False
    then show ?thesis using ok p ex by (simp add: reconcile_def wp_eqs)
  next
    case True
    let ?in = "\<lambda>w. \<lparr>li_walletId = w_id w, li_amount = pay_amount p,
                      li_reference = Some (payment_reference i),
                      li_description = Some (''Wallet topup '' @ utf8 [226, 128, 148] @ '' payment #''
                                             @ int_to_string i),
                      li_metadata = Some (JObj [(''paymentId'', JStr (int_to_string i))])\<rparr>"
    have step: "wp (credit env (?in w))
        (\<lambda>_ u. books_ok u \<and> payments u = payments s \<and> refunds u = refunds s \<and>
           payout_requests u = payout_requests s \<and> topup_credit p s u)
        (\<lambda>_ u. books_ok u \<and> payments u = payments s \<and> refunds u = refunds s \<and>
           payout_requests u = payout_requests s \<and>
           ledger_entries u = ledger_entries s \<and> total (wallets u) = total (wallets s)) t"
      if t: "books_ok t" "t = s\<lparr>wallets := wallets t\<rparr>" "total (wallets t) = total (wallets s)"
        "wallet_findUnique (pay_userId p) t = Some w" for t w
    proof (rule wp_mono [OF wp_conj [OF lg.cr_law [OF t(1)] wp_credit]])
      have same: "payments t = payments s" "refunds t = refunds s" "ledger_entries t = ledger_entries s"
        "payout_requests t = payout_requests s"
        by (subst t(2), simp)+
      fix e u
      assume "(books_ok u \<and> (\<exists>b. balance_of t (li_walletId (?in w)) = Some b \<and>
             balance_of u = (balance_of t)(li_walletId (?in w) \<mapsto> b + li_amount (?in w))) \<and>
             total (wallets u) = total (wallets t) + li_amount (?in w)) \<and>
          (\<exists>w'. 0 < li_amount (?in w) \<and> t_get w_id (li_walletId (?in w)) (wallets t) = Some w' \<and>
             w_balance w' + li_amount (?in w) \<le> int8_max \<and>
             posted CREDIT (w_balance w' + li_amount (?in w)) (?in w) t u)"
      then obtain nb where u: "books_ok u" "total (wallets u) = total (wallets t) + pay_amount p"
        "posted CREDIT nb (?in w) t u" by auto
      obtain f where f: "ledger_entries u = t_insert f (ledger_entries t)"
        "\<And>k. e_kind (f k) = CREDIT" "\<And>k. e_amount (f k) = pay_amount p"
        "\<And>k. e_reference (f k) = Some (payment_reference i)"
        by (rule posted_tables [OF u(3)]) auto
      have "wallet_findUnique (pay_userId p) u \<noteq> None"
        using t(4) wallet_findUnique_posted [OF u(3)] by simp
      then have "topup_credit p s u"
        unfolding topup_credit_def using f u(2) t(3) pid same by auto
      then show "books_ok u \<and> payments u = payments s \<and> refunds u = refunds s \<and>
           payout_requests u = payout_requests s \<and> topup_credit p s u"
        using u(1) posted_others [OF u(3)] same by simp
    next
      fix e u assume "u = t \<and> u = t"
      moreover have "payments t = payments s" "refunds t = refunds s" "ledger_entries t = ledger_entries s"
        "payout_requests t = payout_requests s"
        by (subst t(2), simp)+
      ultimately show "books_ok u \<and> payments u = payments s \<and> refunds u = refunds s \<and>
           payout_requests u = payout_requests s \<and>
           ledger_entries u = ledger_entries s \<and> total (wallets u) = total (wallets s)"
        using t(1,3) by simp
    qed
    have "wp (bind (findOrCreateForUser (pay_userId p)) (\<lambda>w. seq (credit env (?in w)) (return ())))
        (\<lambda>_ u. books_ok u \<and> payments u = payments s \<and> refunds u = refunds s \<and>
           payout_requests u = payout_requests s \<and> topup_credit p s u)
        (\<lambda>_ u. books_ok u \<and> payments u = payments s \<and> refunds u = refunds s \<and>
           payout_requests u = payout_requests s \<and>
           ledger_entries u = ledger_entries s \<and> total (wallets u) = total (wallets s)) s"
      unfolding wp_bind wp_seq wp_return
      by (rule wp_mono [OF findOrCreate_ok [OF ok]]) (use step ok in auto)
    then show ?thesis using True p ex by (simp add: reconcile_def wp_eqs)
  qed
qed

lemma credits_ok_succeeded:
  assumes c: "credits_ok P L" and p: "t_get pay_id i P = Some p" "pay_status p \<noteq> SUCCEEDED"
    and g: "\<And>r. pay_id (g r) = pay_id r" "\<And>r. pay_amount (g r) = pay_amount r"
      "\<And>r. pay_purpose (g r) = pay_purpose r" "\<And>r. pay_status (g r) = SUCCEEDED"
    and L: "if pay_purpose p = ''wallet_topup''
            then (\<exists>f. L' = t_insert f L \<and> (\<forall>k. e_reference (f k) = Some (payment_reference i) \<and>
                     e_kind (f k) = CREDIT \<and> e_amount (f k) = pay_amount p))
            else L' = L"
  shows "credits_ok (t_change pay_id i g P) L'"
proof (cases "pay_purpose p = ''wallet_topup''")
  case True
  with L obtain f where f: "L' = t_insert f L"
    "\<And>k. e_reference (f k) = Some (payment_reference i) \<and> e_kind (f k) = CREDIT \<and> e_amount (f k) = pay_amount p"
    by auto
  have new: "credits_for j L' = credits_for j L @ (if j = i then [f (next_id L)] else [])" for j
    using f by (simp add: credits_for_insert)
  show ?thesis
    using c p g f(2) new pending_no_credit [OF c p]
    by (auto simp: credits_ok_def t_get_change [of pay_id g, OF g(1)])
next
  case False
  then show ?thesis
    using c p g L pending_no_credit [OF c p]
    by (auto simp: credits_ok_def t_get_change [of pay_id g, OF g(1)])
qed

lemma keeps_handleCallback: "keeps pay_ok (handleCallback env i ref st)"
proof (rule keeps_wpI)
  fix s :: "'x sys_scheme" assume s: "pay_ok s"
  have fin: "wp (seq (dispatch b u ty pl chs) (return r)) (\<lambda>_. pay_ok) (\<lambda>_. pay_ok) t"
    if "pay_ok t" for b u ty pl chs t and r :: "int \<times> payment_status"
    using that by (auto simp: wp_eqs intro!: wp_dispatch elim: pay_ok_same_books)
  show "wp (handleCallback env i ref st) (\<lambda>_. pay_ok) (\<lambda>_. pay_ok) s"
  proof (cases "t_get pay_id i (payments s)")
    case None
    then show ?thesis using s by (simp add: handleCallback_def wp_eqs)
  next
    case (Some p)
    have pid: "pay_id p = i" using Some by (rule t_get_key)
    show ?thesis
    proof (cases "terminal_status (pay_status p)")
      case True
      then show ?thesis using s Some by (simp add: handleCallback_def wp_eqs)
    next
      case False
      then have pend: "pay_status p = PENDING" "pay_status p \<noteq> SUCCEEDED" by (simp_all add: not_terminal)
      have chg: "pay_ok (payments_update (t_change pay_id i g) s)"
        if "\<And>r. pay_id (g r) = pay_id r" "pay_status (g p) \<noteq> SUCCEEDED" for g
        using pay_ok_change_pending [OF s Some pend(2)] that by blast
      have step: "wp (seq (payment_update i g) (seq (dispatch b u ty pl chs) (return r)))
          (\<lambda>_. pay_ok) (\<lambda>_. pay_ok) s"
        if "\<And>r. pay_id (g r) = pay_id r" "pay_status (g p) \<noteq> SUCCEEDED"
        for g b u ty pl chs and r :: "int \<times> payment_status"
        using fin [OF chg [OF that]] Some
        by (simp add: payment_update_def wp_update_in wp_seq)
      let ?g = "\<lambda>v p. p\<lparr>pay_status := SUCCEEDED, pay_completedAt := Some (env_now env),
          pay_referenceCode := vo_referenceCode v, pay_cardPanMasked := vo_cardPan v\<rparr>"
      have books: "books_ok s" and none: "credits_for i (ledger_entries s) = []"
        using s pending_no_credit [OF _ Some pend(2)] by (auto simp: pay_ok_def)
      have suc: "wp (seq (reconcile (pay_base env) i)
            (seq (payment_update i (?g v)) (seq (dispatch b u ty pl chs) (return (i, SUCCEEDED)))))
          (\<lambda>_. pay_ok) (\<lambda>_. pay_ok) s" for v b u ty pl chs
        unfolding wp_seq
      proof (rule wp_mono [OF wp_reconcile [OF books Some none]])
        fix x t
        assume t: "books_ok t \<and> payments t = payments s \<and> refunds t = refunds s \<and>
           payout_requests t = payout_requests s \<and>
           (if pay_purpose p = ''wallet_topup'' then topup_credit p s t else t = s)"
        have "credits_ok (t_change pay_id i (?g v) (payments s)) (ledger_entries t)"
          by (rule credits_ok_succeeded [of _ "ledger_entries s" _ p])
             (use s Some pend t pid in \<open>auto simp: pay_ok_def topup_credit_def split: if_splits\<close>)
        then have "pay_ok (payments_update (t_change pay_id i (?g v)) t)"
          using s t refunds_ok_change_payment [OF _ Some pend(2), of "refunds s" "?g v"]
          by (simp add: pay_ok_def books_ok_def)
        then show "wp (payment_update i (?g v))
            (\<lambda>_. wp (dispatch b u ty pl chs) (\<lambda>_. wp (return (i, SUCCEEDED)) (\<lambda>_. pay_ok) (\<lambda>_. pay_ok)) (\<lambda>_. pay_ok))
            (\<lambda>_. pay_ok) t"
          using t Some fin by (simp add: payment_update_def wp_eqs)
      next
        fix e t
        assume t: "books_ok t \<and> payments t = payments s \<and> refunds t = refunds s \<and>
           payout_requests t = payout_requests s \<and>
           ledger_entries t = ledger_entries s \<and> total (wallets t) = total (wallets s)"
        then show "pay_ok t" using s by (simp add: pay_ok_def)
      qed
      show ?thesis
        using s Some False
        by (auto simp: handleCallback_def wp_bind wp_gets wp_throw wp_return wp_call pid split: sum.splits
              intro!: step suc)
    qed
  qed
qed

section \<open>Refunds keep the invariant\<close>

lemma refunds_ok_insert:
  assumes R: "refunds_ok P R" and p: "t_get pay_id i P = Some p" "pay_status p = SUCCEEDED"
    and f: "\<And>k. rf_id (f k) = k" "\<And>k. rf_paymentId (f k) = i" "\<And>k. rf_amount (f k) = a"
    and a: "0 < a" "a \<le> pay_amount p - t_sum (\<lambda>x. rf_paymentId x = i) rf_amount R"
  shows "refunds_ok P (t_insert f R)"
proof -
  have sums: "t_sum (\<lambda>x. rf_paymentId x = j) rf_amount (t_insert f R) =
      t_sum (\<lambda>x. rf_paymentId x = j) rf_amount R + (if j = i then a else 0)" for j
    using f by (simp add: t_sum_insert t_new_def)
  show ?thesis
    using R p f a by (auto simp: refunds_ok_def rows_t_insert sums)
qed

lemma pay_ok_posted:
  assumes s: "pay_ok s" and p: "posted kind nb input s t" and b: "books_ok t"
    and ref: "\<And>i. li_reference input \<noteq> Some (payment_reference i)"
  shows "pay_ok t"
proof -
  obtain f where f: "ledger_entries t = t_insert f (ledger_entries s)"
    "\<And>k. e_reference (f k) = li_reference input" by (rule posted_tables [OF p]) auto
  have "credits_for i (ledger_entries t) = credits_for i (ledger_entries s)" for i
    using f ref by (simp add: credits_for_insert)
  then show ?thesis
    using s b posted_others [OF p] by (simp add: pay_ok_def credits_ok_def)
qed

lemma pay_ok_books: "pay_ok s \<Longrightarrow> books_ok s"
  by (simp add: pay_ok_def)

lemma keeps_debit_pay:
  assumes "\<And>i. li_reference input \<noteq> Some (payment_reference i)"
  shows "keeps pay_ok (debit env input)"
  by (rule keeps_wpI, rule wp_mono [OF wp_conj [OF lg.db_law wp_debit]])
     (auto intro: pay_ok_books, rule pay_ok_posted [OF _ _ _ assms], assumption+)

lemma keeps_findOrCreate_pay: "keeps pay_ok (findOrCreateForUser uid)"
proof (rule keeps_wpI, rule wp_mono [OF findOrCreate_ok])
  fix s t :: "'x sys_scheme" and w
  assume s: "pay_ok s"
    and "books_ok t \<and> w_userId w = uid \<and> t_get w_id (w_id w) (wallets t) = Some w \<and>
      total (wallets t) = total (wallets s) \<and>
      (\<forall>i b. balance_of s i = Some b \<longrightarrow> balance_of t i = Some b) \<and>
      t = s\<lparr>wallets := wallets t\<rparr> \<and> wallet_findUnique uid t = Some w"
  then have b: "books_ok t" and t: "t = s\<lparr>wallets := wallets t\<rparr>" by blast+
  have "payments t = payments s" "refunds t = refunds s" "ledger_entries t = ledger_entries s"
    by (subst t, simp)+
  then show "pay_ok t" using s b by (simp add: pay_ok_def)
qed (simp_all add: pay_ok_def)

lemma keeps_absorbRefund: "keeps pay_ok (absorbRefund env p rf a)"
  unfolding absorbRefund_def
  by (intro keeps_intros keeps_findOrCreate_pay keeps_debit_pay) (simp add: payment_reference_def)

lemma keeps_refund: "keeps pay_ok (refund env input)"
proof (rule keeps_wpI)
  fix s :: "'x sys_scheme" assume s: "pay_ok s"
  have fin: "keeps pay_ok (seq (dispatch b u ty pl chs) (return (r :: refund_row)))" for b u ty pl chs r
    by (intro keeps_intros keeps_dispatch) (rule pay_ok_same_books)
  have ins: "pay_ok (refunds_update (t_insert f) s)"
    if "t_get pay_id i (payments s) = Some p" "pay_status p = SUCCEEDED"
      "\<And>k. rf_id (f k) = k" "\<And>k. rf_paymentId (f k) = i" "\<And>k. rf_amount (f k) = a"
      "0 < a" "a \<le> pay_amount p - alreadyRefunded i s" for i p f a
    using s refunds_ok_insert [OF _ that(1-5), of "refunds s"] that(6,7)
    by (simp add: pay_ok_def books_ok_def alreadyRefunded_def)
  show "wp (refund env input) (\<lambda>_. pay_ok) (\<lambda>_. pay_ok) s"
  proof (cases "t_get pay_id (ri_paymentId input) (payments s)")
    case None
    then show ?thesis using s by (simp add: refund_def wp_eqs)
  next
    case (Some p)
    have pid: "pay_id p = ri_paymentId input" using Some by (rule t_get_key)
    have rest: "wp (seq (absorbRefund env q rf a) (seq (dispatch b u ty pl chs) (return (r :: refund_row))))
        (\<lambda>_. pay_ok) (\<lambda>_. pay_ok) t" if "pay_ok t" for q rf a b u ty pl chs r t
      using keeps_seq [OF keeps_absorbRefund fin] that unfolding keeps_iff_wp by blast
    show ?thesis
      unfolding refund_def
      using s Some pid
      by (auto simp: wp_bind wp_gets wp_throw wp_return wp_create_in wp_let probeRefund_def Let_def
               split: sum.splits option.splits
               intro!: rest ins [OF Some])
  qed
qed

lemma keeps_markRefundCompleted: "keeps pay_ok (markRefundCompleted env i ref)"
proof -
  have upd: "refunds_ok P (t_change rf_id j g R)"
    if R: "refunds_ok P R" and g: "\<And>r. rf_id (g r) = rf_id r" "\<And>r. rf_paymentId (g r) = rf_paymentId r"
      "\<And>r. rf_amount (g r) = rf_amount r" for P R j and g :: "refund_row \<Rightarrow> refund_row"
  proof -
    have sums: "t_sum (\<lambda>x. rf_paymentId x = k) rf_amount (t_change rf_id j g R) =
        t_sum (\<lambda>x. rf_paymentId x = k) rf_amount R" for k
      unfolding t_change_def by (rule t_sum_update_same) (simp_all add: g)
    have "wf_table rf_id (t_change rf_id j g R)"
      by (rule wf_t_change) (use R g in \<open>simp_all add: refunds_ok_def\<close>)
    then show ?thesis
      using R g by (auto simp: refunds_ok_def sums) (auto simp: t_change_def table_simps)
  qed
  show ?thesis
    unfolding markRefundCompleted_def
    by (intro keeps_intros keeps_update_in) (use upd in \<open>auto simp: pay_ok_def books_ok_def\<close>)
qed

section \<open>The life of a payment\<close>

inductive payment_step :: "payment_status \<Rightarrow> payment_status \<Rightarrow> bool" where
  succeed: "payment_step PENDING SUCCEEDED"
| fail: "payment_step PENDING FAILED"
| cancel: "payment_step PENDING CANCELLED"

inductive_cases payment_stepE: "payment_step a b"
inductive_simps payment_step_simps: "payment_step a b"

interpretation pay_life: lifecycle payment_step terminal_status
  by unfold_locales (auto simp: terminal_status_def elim: payment_stepE)

text \<open>Every payment is still there, with the same owner, amount and purpose, and its status
  has only moved along the steps.\<close>

definition payment_evolves :: "payment table \<Rightarrow> payment table \<Rightarrow> bool" where
  "payment_evolves P P' \<longleftrightarrow>
     (\<forall>i p. t_get pay_id i P = Some p \<longrightarrow>
        (\<exists>p'. t_get pay_id i P' = Some p' \<and> payment_step\<^sup>*\<^sup>* (pay_status p) (pay_status p') \<and>
              pay_userId p' = pay_userId p \<and> pay_amount p' = pay_amount p \<and>
              pay_purpose p' = pay_purpose p))"

lemma payment_evolves_refl [simp]: "payment_evolves P P"
  by (auto simp: payment_evolves_def)

lemma payment_evolves_trans: "payment_evolves P Q \<Longrightarrow> payment_evolves Q R \<Longrightarrow> payment_evolves P R"
  unfolding payment_evolves_def
proof (intro allI impI)
  fix i p
  assume PQ: "\<forall>i p. t_get pay_id i P = Some p \<longrightarrow> (\<exists>p'. t_get pay_id i Q = Some p' \<and>
      payment_step\<^sup>*\<^sup>* (pay_status p) (pay_status p') \<and> pay_userId p' = pay_userId p \<and>
      pay_amount p' = pay_amount p \<and> pay_purpose p' = pay_purpose p)"
    and QR: "\<forall>i p. t_get pay_id i Q = Some p \<longrightarrow> (\<exists>p'. t_get pay_id i R = Some p' \<and>
      payment_step\<^sup>*\<^sup>* (pay_status p) (pay_status p') \<and> pay_userId p' = pay_userId p \<and>
      pay_amount p' = pay_amount p \<and> pay_purpose p' = pay_purpose p)"
    and p: "t_get pay_id i P = Some p"
  from PQ p obtain q where q: "t_get pay_id i Q = Some q"
    "payment_step\<^sup>*\<^sup>* (pay_status p) (pay_status q)" "pay_userId q = pay_userId p"
    "pay_amount q = pay_amount p" "pay_purpose q = pay_purpose p" by blast
  from QR q(1) obtain r where "t_get pay_id i R = Some r"
    "payment_step\<^sup>*\<^sup>* (pay_status q) (pay_status r)" "pay_userId r = pay_userId q"
    "pay_amount r = pay_amount q" "pay_purpose r = pay_purpose q" by blast
  with q show "\<exists>p'. t_get pay_id i R = Some p' \<and> payment_step\<^sup>*\<^sup>* (pay_status p) (pay_status p') \<and>
      pay_userId p' = pay_userId p \<and> pay_amount p' = pay_amount p \<and> pay_purpose p' = pay_purpose p"
    by (auto intro: rtranclp_trans)
qed

lemma payment_evolves_insert:
  assumes "wf_table pay_id P" "\<And>i. pay_id (f i) = i"
  shows "payment_evolves P (t_insert f P)"
  unfolding payment_evolves_def using tbl.create_other [OF assms] by blast

lemma payment_evolves_change:
  assumes p: "t_get pay_id i P = Some p" and st: "payment_step\<^sup>*\<^sup>* (pay_status p) (pay_status (g p))"
    and g: "\<And>r. pay_id (g r) = pay_id r" "\<And>r. pay_userId (g r) = pay_userId r"
      "\<And>r. pay_amount (g r) = pay_amount r" "\<And>r. pay_purpose (g r) = pay_purpose r"
  shows "payment_evolves P (t_change pay_id i g P)"
  using assms by (auto simp: payment_evolves_def t_get_change [of pay_id g, OF g(1)])

lemma keeps_payments_dispatch: "keeps (\<lambda>s. payments s = P) (dispatch b u ty pl chs)"
  by (rule keeps_dispatch) (simp add: same_books_fields)

lemma keeps_payments_findOrCreate: "keeps (\<lambda>s. payments s = P) (findOrCreateForUser u)"
  unfolding findOrCreateForUser_def by (intro keeps_intros keeps_create_in) simp

lemma keeps_payments_credit: "keeps (\<lambda>s. payments s = P) (credit b i)"
  by (rule keeps_wpI, rule wp_mono [OF wp_credit]) (auto dest: posted_others)

lemma keeps_payments_debit: "keeps (\<lambda>s. payments s = P) (debit b i)"
  by (rule keeps_wpI, rule wp_mono [OF wp_debit]) (auto dest: posted_others)

lemmas keeps_payments = keeps_payments_dispatch keeps_payments_findOrCreate keeps_payments_credit
  keeps_payments_debit

lemma keeps_payments_reconcile: "keeps (\<lambda>s. payments s = P) (reconcile b i)"
  unfolding reconcile_def by (intro keeps_intros keeps_payments)

lemma keeps_payments_refund: "keeps (\<lambda>s. payments s = P) (refund env input)"
  unfolding refund_def absorbRefund_def probeRefund_def Let_def
  by (intro keeps_intros keeps_payments keeps_create_in) (auto intro!: keeps_intros split: sum.splits)

lemma keeps_payments_markRefundCompleted: "keeps (\<lambda>s. payments s = P) (markRefundCompleted env i ref)"
  unfolding markRefundCompleted_def by (intro keeps_intros keeps_update_in) simp

lemma wp_keeps: "keeps (\<lambda>s. f s = x) m \<Longrightarrow> f s = x \<Longrightarrow> wp m (\<lambda>_ t. f t = x) (\<lambda>_ t. f t = x) s"
  by (simp add: keeps_iff_wp)

lemma handleCallback_payment_evolves:
  "wp (handleCallback env i ref st) (\<lambda>_ t. payment_evolves (payments s) (payments t))
      (\<lambda>_ t. payment_evolves (payments s) (payments t)) s"
proof (cases "t_get pay_id i (payments s)")
  case None
  then show ?thesis by (simp add: handleCallback_def wp_eqs)
next
  case (Some p)
  have pid: "pay_id p = i" using Some by (rule t_get_key)
  let ?E = "\<lambda>t. payment_evolves (payments s) (payments t)"
  have step: "wp (seq (payment_update i g) (seq (dispatch b u ty pl chs) (return r)))
      (\<lambda>_. ?E) (\<lambda>_. ?E) t"
    if "payments t = payments s" "payment_step\<^sup>*\<^sup>* (pay_status p) (pay_status (g p))"
      "\<And>r. pay_id (g r) = pay_id r" "\<And>r. pay_userId (g r) = pay_userId r"
      "\<And>r. pay_amount (g r) = pay_amount r" "\<And>r. pay_purpose (g r) = pay_purpose r"
    for g b u ty pl chs t and r :: "int \<times> payment_status"
    using payment_evolves_change [OF Some, of g] that Some
    by (auto simp: payment_update_def wp_eqs intro!: wp_dispatch simp: same_books_fields)
  show ?thesis
  proof (cases "terminal_status (pay_status p)")
    case True
    then show ?thesis using Some by (simp add: handleCallback_def wp_eqs)
  next
    case False
    then have pend: "pay_status p = PENDING" by (simp add: not_terminal)
    have suc: "wp (seq (reconcile b i) (seq (payment_update i g) (seq (dispatch b' u ty pl chs) (return r))))
        (\<lambda>_. ?E) (\<lambda>_. ?E) s"
      if "payment_step\<^sup>*\<^sup>* (pay_status p) (pay_status (g p))"
        "\<And>r. pay_id (g r) = pay_id r" "\<And>r. pay_userId (g r) = pay_userId r"
        "\<And>r. pay_amount (g r) = pay_amount r" "\<And>r. pay_purpose (g r) = pay_purpose r"
      for b g b' u ty pl chs and r :: "int \<times> payment_status"
      unfolding wp_seq [of "reconcile b i"]
      by (rule wp_mono [OF wp_keeps [OF keeps_payments_reconcile refl]]) (use that in \<open>auto intro!: step\<close>)
    show ?thesis
      using Some False
      by (auto simp: handleCallback_def wp_bind wp_gets wp_throw wp_return wp_call pid pend payment_step.intros
               split: sum.splits intro!: step suc)
  qed
qed

lemma initiate_payment_evolves:
  assumes "wf_table pay_id (payments s)"
  shows "wp (initiate env input) (\<lambda>_ t. payment_evolves (payments s) (payments t))
      (\<lambda>_ t. payment_evolves (payments s) (payments t)) s"
proof -
  have upd: "payment_evolves (payments s) (t_change pay_id (next_id (payments s)) g (t_insert f (payments s)))"
    if f: "\<And>i. pay_id (f i) = i" and g: "\<And>r. pay_id (g r) = pay_id r" for f g
  proof -
    have "t_get pay_id (next_id (payments s)) (payments s) = None" using assms by (rule tbl.lookup_fresh)
    then show ?thesis
      unfolding payment_evolves_def t_get_change [of pay_id g, OF g] t_get_insert [OF assms, of f, OF f] by auto
  qed
  show ?thesis
    by (auto simp: initiate_def validatePurpose_def payment_update_def wp_eqs t_new_def
             split: option.splits sum.splits intro!: payment_evolves_insert [OF assms] upd)
qed

section \<open>Sequences of payment operations\<close>

datatype pay_op =
    PInitiate initiate_input
  | PCallback int string provider_status
  | PRefund refund_input
  | PMarkRefund int string

definition run_pay :: "pay_env \<Rightarrow> pay_op \<Rightarrow> ('x sys_scheme, unit) M" where
  "run_pay env op = (case op of
       PInitiate i \<Rightarrow> seq (initiate env i) (return ())
     | PCallback i ref st \<Rightarrow> seq (handleCallback env i ref st) (return ())
     | PRefund i \<Rightarrow> seq (refund env i) (return ())
     | PMarkRefund i ref \<Rightarrow> seq (markRefundCompleted env i ref) (return ()))"

fun serve_pay :: "pay_env \<Rightarrow> pay_op list \<Rightarrow> 'x sys_scheme \<Rightarrow> 'x sys_scheme" where
  "serve_pay env [] s = s"
| "serve_pay env (op # ops) s = serve_pay env ops (snd (run_pay env op s))"

lemma keeps_run_pay: "keeps pay_ok (run_pay env op)"
  unfolding run_pay_def
  by (cases op) (simp_all add: keeps_seq keeps_return keeps_initiate keeps_handleCallback keeps_refund
      keeps_markRefundCompleted)

lemma serve_pay_ok: "pay_ok s \<Longrightarrow> pay_ok (serve_pay env ops s)"
  by (induction ops arbitrary: s) (auto dest: keepsD [OF keeps_run_pay])

lemma run_pay_payment_evolves:
  assumes "pay_ok s"
  shows "payment_evolves (payments s) (payments (snd (run_pay env op s)))"
proof -
  have P: "wf_table pay_id (payments s)" using assms by (simp add: pay_ok_def)
  have unch: "wp m (\<lambda>_ t. payment_evolves (payments s) (payments t)) (\<lambda>_ t. payment_evolves (payments s) (payments t)) s"
    if "keeps (\<lambda>t. payments t = payments s) m" for m :: "('a sys_scheme, 'b) M"
    by (rule wp_mono [OF wp_keeps [OF that refl]]) simp_all
  have "wp (run_pay env op) (\<lambda>_ t. payment_evolves (payments s) (payments t))
      (\<lambda>_ t. payment_evolves (payments s) (payments t)) s"
    by (cases op)
       (auto simp: run_pay_def wp_seq wp_return
          intro: initiate_payment_evolves [OF P] handleCallback_payment_evolves unch keeps_payments_refund
            keeps_payments_markRefundCompleted)
  then show ?thesis unfolding wp_same .
qed

lemma serve_pay_payment_evolves: "pay_ok s \<Longrightarrow> payment_evolves (payments s) (payments (serve_pay env ops s))"
proof (induction ops arbitrary: s)
  case (Cons op ops)
  have "pay_ok (snd (run_pay env op s))" by (rule keepsD [OF keeps_run_pay Cons.prems])
  from payment_evolves_trans [OF run_pay_payment_evolves [OF Cons.prems] Cons.IH [OF this]] show ?case by simp
qed simp

section \<open>What a verified callback does\<close>

lemma handleCallback_verified:
  assumes ok: "pay_ok s" and p: "t_get pay_id i (payments s) = Some p"
    and pend: "pay_status p = PENDING" and ref: "pay_providerReference p = Some ref"
    and v: "pv_verify (pe_provider env) ref (pay_amount p) = Inr v" "vo_verified v"
  shows "wp (handleCallback env i ref P_OK)
    (\<lambda>r t. r = (i, SUCCEEDED) \<and>
       t_get pay_id i (payments t) =
         Some (p\<lparr>pay_status := SUCCEEDED, pay_completedAt := Some (env_now env),
                 pay_referenceCode := vo_referenceCode v, pay_cardPanMasked := vo_cardPan v\<rparr>) \<and>
       total (wallets t) = total (wallets s) +
         (if pay_purpose p = ''wallet_topup'' then pay_amount p else 0) \<and>
       (pay_purpose p = ''wallet_topup'' \<longrightarrow> wallet_findUnique (pay_userId p) t \<noteq> None))
    (\<lambda>e t. payments t = payments s \<and> ledger_entries t = ledger_entries s \<and>
           total (wallets t) = total (wallets s)) s"
proof -
  have pid: "pay_id p = i" using p by (rule t_get_key)
  have nt: "\<not> terminal_status (pay_status p)" using pend by (simp add: not_terminal)
  have none: "credits_for i (ledger_entries s) = []"
    using ok pend pending_no_credit [OF _ p] by (auto simp: pay_ok_def)
  have books: "books_ok s" using ok by (rule pay_ok_books)
  let ?g = "\<lambda>p. p\<lparr>pay_status := SUCCEEDED, pay_completedAt := Some (env_now env),
      pay_referenceCode := vo_referenceCode v, pay_cardPanMasked := vo_cardPan v\<rparr>"
  have get: "t_get pay_id i (t_change pay_id i ?g (payments s)) = Some (?g p)"
    using p by (simp add: t_get_change)
  let ?m = "seq (reconcile (pay_base env) i)
      (seq (payment_update i ?g)
      (seq (dispatch (pay_base env) (pay_userId p) ''PAYMENT_SUCCEEDED''
             [(''amount'', JBig (pay_amount p)),
              (''reference'', JStr (case vo_referenceCode v of Some r \<Rightarrow> r | None \<Rightarrow> []))] [IN_APP, SMS])
           (return (i, SUCCEEDED))))"
  have eq: "handleCallback env i ref P_OK s = ?m s"
    using p nt ref v pid by (simp add: handleCallback_def bind_def gets_def call_def return_def)
  have fin: "wp (seq (payment_update i ?g) (seq (dispatch b u ty pl chs) (return (i, SUCCEEDED))))
     (\<lambda>r t. r = (i, SUCCEEDED) \<and> t_get pay_id i (payments t) = Some (?g p) \<and>
       total (wallets t) = total (wallets s) +
         (if pay_purpose p = ''wallet_topup'' then pay_amount p else 0) \<and>
       (pay_purpose p = ''wallet_topup'' \<longrightarrow> wallet_findUnique (pay_userId p) t \<noteq> None))
     E t"
    if t: "payments t = payments s"
      "if pay_purpose p = ''wallet_topup'' then topup_credit p s t else t = s" for b u ty pl chs E t
    using t p get
    by (auto simp: payment_update_def wp_eqs wallet_findUnique_def topup_credit_def same_books_fields
             split: if_splits intro!: wp_dispatch)
  show ?thesis
    unfolding wp_run_eq [where m = "handleCallback env i ref P_OK" and m' = ?m, OF eq]
    unfolding wp_seq [of "reconcile (pay_base env) i"]
    by (rule wp_mono [OF wp_reconcile [OF books p none]]) (use fin in auto)
qed

section \<open>Evaluation on the sample state\<close>

definition sample_provider :: provider where
  "sample_provider = \<lparr>pv_name = ''zarinpal'',
     pv_initiate = (\<lambda>r. Inr \<lparr>io_redirectUrl = ''u'', io_providerReference = ''A'' @ ir_referenceId r\<rparr>),
     pv_verify = (\<lambda>ref a. Inr \<lparr>vo_verified = True, vo_referenceCode = Some ''77'',
                                 vo_cardPan = None, vo_failureReason = None\<rparr>),
     pv_refund = (\<lambda>ref a why. Inl (JsError ''REFUND_NOT_SUPPORTED_BY_PROVIDER''))\<rparr>"

definition sample_pay_env :: pay_env where
  "sample_pay_env = env.extend sample_env (pay_env.fields sample_provider [] None ''3001'')"

lemma credits_sample: "credits_ok (payments sample_sys) (ledger_entries sample_sys)"
proof -
  have "credits_for i (ledger_entries sample_sys) =
      (if i = 1 then [sample_entry 1 CREDIT 100 ''payment:1''] else [])" for i
    using payment_reference_inj [of 1 i]
    by (auto simp: credits_for_def t_filter_def sample_defs payment_reference_def)
  then show ?thesis
    by (auto simp: credits_ok_def) (auto simp: sample_defs t_get_def t_find_def split: if_splits)
qed

lemma pay_ok_sample: "pay_ok sample_sys"
  using books_sample credits_sample
  by (auto simp: pay_ok_def refunds_ok_def) (auto simp: sample_defs wf_table_def)

lemma sample_get2: "t_get pay_id 2 (payments sample_sys) = Some (sample_payment 2 2 50 PENDING)"
  by (simp add: sample_sys_def t_get_def t_find_def sample_payment_def)

lemma sample_base: "pay_base sample_pay_env = sample_env"
  by (simp add: pay_base_def sample_pay_env_def pay_env.defs env.defs sample_env_def)

lemma sample_verify:
  "pv_verify (pe_provider sample_pay_env) ref a =
     Inr \<lparr>vo_verified = True, vo_referenceCode = Some ''77'', vo_cardPan = None, vo_failureReason = None\<rparr>"
  by (simp add: sample_pay_env_def pay_env.defs env.defs sample_provider_def)

lemma sample_pv_refund:
  "pv_refund (pe_provider sample_pay_env) ref a why = Inl (JsError ''REFUND_NOT_SUPPORTED_BY_PROVIDER'')"
  by (simp add: sample_pay_env_def pay_env.defs env.defs sample_provider_def)

section \<open>Properties\<close>

text \<open>C3. No payment is credited twice: after any sequence of initiations, gateway callbacks
  (repeated, out of order, forged or not), refunds and refund confirmations, the ledger holds
  at most one entry with the reference of a given payment, it holds one exactly when a wallet
  top-up has SUCCEEDED, and that entry credits the payment's amount.\<close>

theorem payment_credited_at_most_once:
  assumes "pay_ok s"
  shows "length (credits_for i (ledger_entries (serve_pay env ops s))) \<le> 1 \<and>
    (\<forall>e\<in>set (credits_for i (ledger_entries (serve_pay env ops s))).
       e_kind e = CREDIT \<and>
       (\<exists>p. t_get pay_id i (payments (serve_pay env ops s)) = Some p \<and> pay_status p = SUCCEEDED \<and>
            e_amount e = pay_amount p)) \<and>
    (\<forall>p. t_get pay_id i (payments (serve_pay env ops s)) = Some p \<longrightarrow> pay_status p = SUCCEEDED \<longrightarrow>
       pay_purpose p = ''wallet_topup'' \<longrightarrow>
       length (credits_for i (ledger_entries (serve_pay env ops s))) = 1)"
proof -
  have c: "credits_ok (payments (serve_pay env ops s)) (ledger_entries (serve_pay env ops s))"
    using serve_pay_ok [OF assms, of env ops] by (simp add: pay_ok_def)
  then consider "credits_for i (ledger_entries (serve_pay env ops s)) = []"
    | p e where "t_get pay_id i (payments (serve_pay env ops s)) = Some p" "pay_status p = SUCCEEDED"
      "credits_for i (ledger_entries (serve_pay env ops s)) = [e]" "e_kind e = CREDIT"
      "e_amount e = pay_amount p"
    unfolding credits_ok_def by blast
  then show ?thesis
  proof cases
    case 1
    then show ?thesis using c by (auto simp: credits_ok_def)
  next
    case 2
    then show ?thesis by auto
  qed
qed

lemma payment_credited_at_most_once_witness:
  "length (credits_for 2 (ledger_entries
     (serve_pay sample_pay_env [PCallback 2 ''A2'' P_OK, PCallback 2 ''A2'' P_OK] sample_sys))) \<le> 1"
  using payment_credited_at_most_once
    [OF pay_ok_sample, of 2 sample_pay_env "[PCallback 2 ''A2'' P_OK, PCallback 2 ''A2'' P_OK]"] by blast

text \<open>A terminal payment stays as it is: whatever payment operations are served, a payment
  keeps its owner, amount and purpose, its status only moves from PENDING to SUCCEEDED, FAILED
  or CANCELLED, and once it has left PENDING it never changes again.\<close>

theorem payment_lifecycle:
  assumes "pay_ok s" "t_get pay_id i (payments s) = Some p"
  shows "\<exists>p'. t_get pay_id i (payments (serve_pay env ops s)) = Some p' \<and>
    pay_userId p' = pay_userId p \<and> pay_amount p' = pay_amount p \<and> pay_purpose p' = pay_purpose p \<and>
    payment_step\<^sup>*\<^sup>* (pay_status p) (pay_status p') \<and>
    (terminal_status (pay_status p) \<longrightarrow> pay_status p' = pay_status p)"
  using serve_pay_payment_evolves [OF assms(1), of env ops] assms(2) pay_life.terminal_forever
  unfolding payment_evolves_def by blast

lemma payment_lifecycle_witness:
  "\<exists>p'. t_get pay_id 1 (payments (serve_pay sample_pay_env [PCallback 1 ''A1'' P_NOK] sample_sys)) = Some p' \<and>
    pay_status p' = SUCCEEDED"
proof -
  have "t_get pay_id 1 (payments sample_sys) = Some (sample_payment 1 1 100 SUCCEEDED)"
    by (simp add: sample_sys_def t_get_def t_find_def sample_payment_def)
  from payment_lifecycle [OF pay_ok_sample this, of sample_pay_env "[PCallback 1 ''A1'' P_NOK]"]
  show ?thesis by (auto simp: sample_payment_def terminal_status_def)
qed

text \<open>A verified callback of a pending payment with the right authority: the payment
  becomes SUCCEEDED with the gateway's reference code, a wallet top-up adds exactly the
  payment's amount to the wallets (creating the owner's wallet if needed), any other purpose
  adds nothing; and if the credit throws, the payment and the ledger are as before.\<close>

theorem verified_callback_credits:
  assumes "pay_ok s" "t_get pay_id i (payments s) = Some p" "pay_status p = PENDING"
    and "pay_providerReference p = Some ref"
    and "pv_verify (pe_provider env) ref (pay_amount p) = Inr v" "vo_verified v"
  shows "case handleCallback env i ref P_OK s of
      (Inr r, t) \<Rightarrow> r = (i, SUCCEEDED) \<and>
        (\<exists>p'. t_get pay_id i (payments t) = Some p' \<and> pay_status p' = SUCCEEDED \<and>
              pay_referenceCode p' = vo_referenceCode v) \<and>
        total (wallets t) = total (wallets s) +
          (if pay_purpose p = ''wallet_topup'' then pay_amount p else 0) \<and>
        (pay_purpose p = ''wallet_topup'' \<longrightarrow> wallet_findUnique (pay_userId p) t \<noteq> None)
    | (Inl e, t) \<Rightarrow> payments t = payments s \<and> ledger_entries t = ledger_entries s \<and>
        total (wallets t) = total (wallets s)"
  using handleCallback_verified [OF assms]
  by (auto simp: wp_def split: prod.splits sum.splits)

lemma verified_callback_credits_witness:
  "\<exists>t. handleCallback sample_pay_env 2 ''A2'' P_OK sample_sys = (Inr (2, SUCCEEDED), t) \<and>
     total (wallets t) = 110"
proof -
  have p: "pay_status (sample_payment 2 2 50 PENDING) = PENDING"
    "pay_providerReference (sample_payment 2 2 50 PENDING) = Some ''A2''"
    by (simp_all add: sample_payment_def)
  have run: "fst (handleCallback sample_pay_env 2 ''A2'' P_OK sample_sys) = Inr (2, SUCCEEDED)"
    by (simp add: handleCallback_def reconcile_def payment_update_def call_def sample_verify sample_base run_simps
        ledger_run sample_defs table_run dispatch_run payment_reference_def terminal_status_def)
  have "total (wallets sample_sys) = 60" by (simp add: sample_defs total_def)
  then show ?thesis
    using verified_callback_credits [OF pay_ok_sample sample_get2 p sample_verify] run
    by (cases "handleCallback sample_pay_env 2 ''A2'' P_OK sample_sys") (auto simp: sample_payment_def)
qed

text \<open>A callback whose authority is not the one stored at initiation is rejected with
  INVALID_CALLBACK and status 400 before the gateway is asked and without any write, and a
  callback for a payment that has already ended answers its status and writes nothing.\<close>

theorem callback_guards:
  assumes "t_get pay_id i (payments s) = Some p"
  shows "(terminal_status (pay_status p) \<longrightarrow>
            handleCallback env i ref st s = (Inr (i, pay_status p), s)) \<and>
         (\<not> terminal_status (pay_status p) \<and> pay_providerReference p \<noteq> Some ref \<longrightarrow>
            handleCallback env i ref st s =
              (Inl (http_exn INVALID_CALLBACK 400 ''Callback authority does not match payment''), s))"
  using handleCallback_terminal [OF assms] handleCallback_forged [OF assms] by blast

lemma callback_guards_witness:
  "handleCallback sample_pay_env 2 ''forged'' P_OK sample_sys =
     (Inl (http_exn INVALID_CALLBACK 400 ''Callback authority does not match payment''), sample_sys)"
  using callback_guards [OF sample_get2] by (simp add: sample_payment_def terminal_status_def)

text \<open>Refunds never exceed what was paid: after any sequence of payment operations the
  refunds of a payment, pending and completed ones together, are positive, belong to a
  SUCCEEDED payment and add up to at most its amount.\<close>

theorem refunds_within_payment:
  assumes "pay_ok s" "r \<in> set (rows (refunds (serve_pay env ops s)))"
  shows "0 < rf_amount r \<and>
    (\<exists>p. t_get pay_id (rf_paymentId r) (payments (serve_pay env ops s)) = Some p \<and>
         pay_status p = SUCCEEDED \<and>
         alreadyRefunded (rf_paymentId r) (serve_pay env ops s) \<le> pay_amount p)"
  using serve_pay_ok [OF assms(1), of env ops] assms(2)
  unfolding pay_ok_def refunds_ok_def alreadyRefunded_def by blast

definition sample_refund :: "int option \<Rightarrow> refund_input" where
  "sample_refund a = \<lparr>ri_paymentId = 1, ri_amount = a, ri_reason = ''requested'', ri_actorUserId = 9\<rparr>"

lemma refunds_within_payment_witness:
  "\<exists>r \<in> set (rows (refunds (serve_pay sample_pay_env [PRefund (sample_refund (Some 30))] sample_sys))).
     rf_amount r = 30 \<and> 0 < rf_amount r"
proof -
  have ns: "contains ''REFUND_NOT_SUPPORTED_BY_PROVIDER'' ''REFUND_NOT_SUPPORTED_BY_PROVIDER''"
    unfolding contains_def list_ex_iff by (rule bexI [of _ 0]) simp_all
  let ?r = "\<lparr>rf_id = 1, rf_paymentId = 1, rf_amount = 30, rf_reason = ''requested'',
      rf_status = PENDING_MANUAL, rf_requestedByUserId = 9, rf_requestedAt = 1000, rf_completedAt = None, rf_bankReference = None\<rparr>"
  have now: "env_now sample_pay_env = 1000" by (simp add: sample_pay_env_def env.defs pay_env.defs sample_env_def)
  have "?r \<in> set (rows (refunds (serve_pay sample_pay_env [PRefund (sample_refund (Some 30))] sample_sys)))"
    by (simp add: run_pay_def refund_def absorbRefund_def probeRefund_def alreadyRefunded_def
        isRefundNotSupportedError_def exn_message_def sample_pv_refund sample_base
        ns now sample_refund_def run_simps ledger_run sample_defs table_run dispatch_run)
  from refunds_within_payment [OF pay_ok_sample this] this show ?thesis by force
qed

end
