(* ===== verification/Payouts.thy ===== *)
theory Payouts
  imports Payments Persian
begin

text \<open>
  core/payouts/payouts.service.ts: request (hold the amount), approve, reject and cancel
  (release the hold), markPaid, and the page queries.  Each handler that changes a payout
  reads the row and checks its status first and writes afterwards, so each is given as its
  check, its write, and their composition.

  Handlers run one after the other move a payout only along payout_step and conserve
  money: wallet balances plus the amounts on hold or paid out.  Two handlers whose checks
  both run before either write do not; cancel_race states that.
\<close>

record payout_input =
  pi_userId :: int
  pi_amount :: int
  pi_bankAccount :: string
  pi_accountHolder :: string

definition payout_ref :: "string \<Rightarrow> int \<Rightarrow> string" where
  "payout_ref kind i = ''payout:'' @ kind @ int_to_string i"

definition payout_meta :: "int \<Rightarrow> json" where
  "payout_meta i = JObj [(''payoutRequestId'', JStr (int_to_string i))]"

definition payout_update :: "int \<Rightarrow> (payout_request \<Rightarrow> payout_request) \<Rightarrow> ('x sys_scheme, payout_request) M" where
  "payout_update i g = update_in payout_requests payout_requests_update po_id i g"

section \<open>Request\<close>

definition request_tx :: "int \<Rightarrow> payout_input \<Rightarrow> wallet \<Rightarrow> ('x sys_scheme, payout_request) M" where
  "request_tx now input wallet =
     bind (create_in payout_requests payout_requests_update
            (\<lambda>i. \<lparr>po_id = i, po_userId = pi_userId input, po_walletId = w_id wallet,
                  po_amount = pi_amount input, po_bankAccount = pi_bankAccount input,
                  po_accountHolder = pi_accountHolder input, po_status = PO_PENDING, po_submittedAt = now,
                  po_reviewedByUserId = None, po_reviewedAt = None, po_rejectionReason = None,
                  po_paidAt = None, po_paymentReference = None\<rparr>)) (\<lambda>payoutRow.
     bind (lockWallet (w_id wallet)) (\<lambda>walletRow.
       let newBalance = w_balance walletRow - pi_amount input in
       if newBalance < 0 then
         throw (http_exn INSUFFICIENT_FUNDS 422 ''Insufficient wallet balance for payout'')
       else
         seq (entry_create now (w_id wallet) (pi_userId input) DEBIT (pi_amount input)
                (Some (payout_ref [] (po_id payoutRow))) (Some ''Payout pending review'')
                (payout_meta (po_id payoutRow)))
        (seq (wallet_setBalance (w_id wallet) newBalance)
             (return payoutRow))))"

definition request :: "env \<Rightarrow> payout_input \<Rightarrow> ('x sys_scheme, payout_request) M" where
  "request env input =
     (if \<not> isValidIranianIban (pi_bankAccount input) then
        throw (http_exn INVALID_IBAN 400
          (''Invalid Iranian IBAN ('' @ utf8 [216, 180, 216, 168, 216, 167] @ '')''))
      else if pi_amount input \<le> 0 then
        throw (http_exn VALIDATION_ERROR 400 ''Payout amount must be positive'')
      else
        bind (findByUserId (pi_userId input)) (\<lambda>wallet.
        bind (transaction (request_tx (env_now env) input wallet)) (\<lambda>payout.
        seq (dispatch env (pi_userId input) ''PAYOUT_REQUESTED''
               [(''amount'', JBig (pi_amount input))] [IN_APP])
            (return payout))))"

section \<open>Review and cancellation\<close>

definition payout_findOrThrow :: "int \<Rightarrow> ('x sys_scheme, payout_request) M" where
  "payout_findOrThrow payoutId =
     bind (gets (\<lambda>s. t_get po_id payoutId (payout_requests s))) (\<lambda>r.
       case r of
         None \<Rightarrow> throw (http_exn NOT_FOUND 404 ''Payout request not found'')
       | Some row \<Rightarrow> return row)"

definition check_pending :: "int \<Rightarrow> ('x sys_scheme, payout_request) M" where
  "check_pending payoutId =
     bind (payout_findOrThrow payoutId) (\<lambda>existing.
       if po_status existing \<noteq> PO_PENDING then
         throw (http_exn PAYOUT_NOT_PENDING 409 ''Payout is not in PENDING status'')
       else return existing)"

text \<open>The transaction body shared in shape by reject and cancel: set the row, lock the
  wallet, write the credit, add the amount back.\<close>

definition release_tx ::
    "int \<Rightarrow> int \<Rightarrow> payout_request \<Rightarrow> (payout_request \<Rightarrow> payout_request) \<Rightarrow> string \<Rightarrow> string \<Rightarrow>
     ('x sys_scheme, payout_request) M" where
  "release_tx now payoutId existing g kind descr =
     bind (payout_update payoutId g) (\<lambda>row.
     bind (lockWallet (po_walletId existing)) (\<lambda>walletRow.
     seq (entry_create now (po_walletId existing) (po_userId existing) CREDIT (po_amount existing)
            (Some (payout_ref kind payoutId)) (Some descr) (payout_meta payoutId))
    (seq (wallet_setBalance (po_walletId existing) (w_balance walletRow + po_amount existing))
         (return row))))"

definition approve_write :: "env \<Rightarrow> int \<Rightarrow> int \<Rightarrow> payout_request \<Rightarrow> ('x sys_scheme, payout_request) M" where
  "approve_write env payoutId reviewerUserId existing =
     bind (payout_update payoutId
            (\<lambda>r. r\<lparr>po_status := PO_APPROVED, po_reviewedByUserId := Some reviewerUserId,
                   po_reviewedAt := Some (env_now env)\<rparr>)) (\<lambda>updated.
     seq (dispatch env (po_userId existing) ''PAYOUT_APPROVED''
            [(''amount'', JBig (po_amount existing))] [IN_APP])
         (return updated))"

definition approve :: "env \<Rightarrow> int \<Rightarrow> int \<Rightarrow> ('x sys_scheme, payout_request) M" where
  "approve env payoutId reviewerUserId =
     bind (check_pending payoutId) (approve_write env payoutId reviewerUserId)"

definition reject_write ::
    "env \<Rightarrow> int \<Rightarrow> int \<Rightarrow> string \<Rightarrow> payout_request \<Rightarrow> ('x sys_scheme, payout_request) M" where
  "reject_write env payoutId reviewerUserId reason existing =
     bind (transaction (release_tx (env_now env) payoutId existing
            (\<lambda>r. r\<lparr>po_status := PO_REJECTED, po_reviewedByUserId := Some reviewerUserId,
                   po_reviewedAt := Some (env_now env), po_rejectionReason := Some reason\<rparr>)
            ''rejected:'' (''Payout rejected '' @ utf8 [226, 128, 148] @ '' refund''))) (\<lambda>updated.
     seq (dispatch env (po_userId existing) ''PAYOUT_REJECTED''
            [(''amount'', JBig (po_amount existing)), (''reason'', JStr reason)] [IN_APP])
         (return updated))"

definition reject :: "env \<Rightarrow> int \<Rightarrow> int \<Rightarrow> string \<Rightarrow> ('x sys_scheme, payout_request) M" where
  "reject env payoutId reviewerUserId reason =
     bind (check_pending payoutId) (reject_write env payoutId reviewerUserId reason)"

definition markPaid :: "env \<Rightarrow> int \<Rightarrow> int \<Rightarrow> string \<Rightarrow> ('x sys_scheme, payout_request) M" where
  "markPaid env payoutId reviewerUserId paymentReference =
     bind (payout_findOrThrow payoutId) (\<lambda>existing.
       if po_status existing \<noteq> PO_APPROVED then
         throw (http_exn PAYOUT_NOT_APPROVED 409 ''Payout is not in APPROVED status'')
       else
         bind (payout_update payoutId
                (\<lambda>r. r\<lparr>po_status := PO_PAID, po_paidAt := Some (env_now env),
                       po_paymentReference := Some paymentReference,
                       po_reviewedByUserId := Some reviewerUserId\<rparr>)) (\<lambda>updated.
         seq (dispatch env (po_userId existing) ''PAYOUT_PAID''
                [(''amount'', JBig (po_amount existing)), (''paymentReference'', JStr paymentReference)]
                [IN_APP])
             (return updated)))"

definition cancel_check :: "int \<Rightarrow> int \<Rightarrow> ('x sys_scheme, payout_request) M" where
  "cancel_check payoutId userId =
     bind (payout_findOrThrow payoutId) (\<lambda>existing.
       if po_userId existing \<noteq> userId then
         throw (http_exn NOT_FOUND 404 ''Payout not found'')
       else if po_status existing \<noteq> PO_PENDING then
         throw (http_exn PAYOUT_NOT_PENDING 409 ''Only PENDING payouts can be cancelled'')
       else return existing)"

definition cancel_write :: "env \<Rightarrow> int \<Rightarrow> payout_request \<Rightarrow> ('x sys_scheme, payout_request) M" where
  "cancel_write env payoutId existing =
     transaction (release_tx (env_now env) payoutId existing
       (\<lambda>r. r\<lparr>po_status := PO_CANCELLED\<rparr>)
       ''cancelled:'' (''Payout cancelled '' @ utf8 [226, 128, 148] @ '' refund''))"

definition cancel :: "env \<Rightarrow> int \<Rightarrow> int \<Rightarrow> ('x sys_scheme, payout_request) M" where
  "cancel env payoutId userId =
     bind (cancel_check payoutId userId) (cancel_write env payoutId)"

section \<open>Queries\<close>

definition po_findForUser :: "int \<Rightarrow> int option \<Rightarrow> nat \<Rightarrow> ('x sys_scheme, payout_request page) M" where
  "po_findForUser userId cursor limit =
     gets (\<lambda>s. paginate po_id cursor limit (t_filter (\<lambda>p. po_userId p = userId) (payout_requests s)))"

definition po_findForAdmin ::
    "payout_status option \<Rightarrow> int option \<Rightarrow> int option \<Rightarrow> nat \<Rightarrow> ('x sys_scheme, payout_request page) M" where
  "po_findForAdmin status userId cursor limit =
     gets (\<lambda>s. paginate po_id cursor limit
       (t_filter (\<lambda>p. matches status (po_status p) \<and> matches userId (po_userId p)) (payout_requests s)))"

section \<open>The life of a payout\<close>

inductive payout_step :: "payout_status \<Rightarrow> payout_status \<Rightarrow> bool" where
  approved: "payout_step PO_PENDING PO_APPROVED"
| rejected: "payout_step PO_PENDING PO_REJECTED"
| cancelled: "payout_step PO_PENDING PO_CANCELLED"
| paid: "payout_step PO_APPROVED PO_PAID"

inductive_cases payout_stepE: "payout_step a b"

definition payout_terminal :: "payout_status \<Rightarrow> bool" where
  "payout_terminal st \<longleftrightarrow> st \<in> {PO_REJECTED, PO_PAID, PO_CANCELLED}"

interpretation po_life: lifecycle payout_step payout_terminal
  by unfold_locales (auto simp: payout_terminal_def elim: payout_stepE)

text \<open>Money taken out of a wallet for a payout and not given back.\<close>

definition held_status :: "payout_status \<Rightarrow> bool" where
  "held_status st \<longleftrightarrow> st \<in> {PO_PENDING, PO_APPROVED, PO_PAID}"

definition held :: "payout_request table \<Rightarrow> int" where
  "held T = t_sum (\<lambda>p. held_status (po_status p)) po_amount T"

definition payouts_ok :: "'x sys_scheme \<Rightarrow> bool" where
  "payouts_ok s \<longleftrightarrow> wf_table po_id (payout_requests s) \<and>
     (\<forall>p\<in>set (rows (payout_requests s)). 0 < po_amount p)"

definition money :: "'x sys_scheme \<Rightarrow> int" where
  "money s = total (wallets s) + held (payout_requests s)"

definition evolve_row :: "payout_request \<Rightarrow> payout_request \<Rightarrow> bool" where
  "evolve_row p p' \<longleftrightarrow> payout_step\<^sup>*\<^sup>* (po_status p) (po_status p') \<and> po_amount p' = po_amount p \<and>
     po_userId p' = po_userId p \<and> po_walletId p' = po_walletId p \<and> po_bankAccount p' = po_bankAccount p"

lemma held_insert: "held (t_insert f T) = held T + (if held_status (po_status (f (next_id T))) then po_amount (f (next_id T)) else 0)"
  by (simp add: held_def t_sum_insert t_new_def)

lemma held_change:
  assumes w: "wf_table po_id T" and g: "t_get po_id i T = Some p" and a: "\<And>r. po_amount (u r) = po_amount r"
  shows "held (t_change po_id i u T) =
    held T - (if held_status (po_status p) then po_amount p else 0)
           + (if held_status (po_status (u p)) then po_amount p else 0)"
proof -
  have p: "po_id p = i" "p \<in> set (rows T)" using g by (auto dest: t_get_key t_get_in)
  have sums: "t_sum P po_amount X = sum_list (map (\<lambda>r. if P r then po_amount r else 0) (rows X))" for P X
  proof -
    have "sum_list (map po_amount (filter P xs)) = sum_list (map (\<lambda>r. if P r then po_amount r else 0) xs)" for xs
      by (induction xs) auto
    then show ?thesis by (simp add: t_sum_def t_filter_def)
  qed
  let ?f = "\<lambda>r. if held_status (po_status r) then po_amount r else 0"
  have "map ?f (rows (t_change po_id i u T)) = map (\<lambda>y. if po_id y = po_id p then ?f (u p) else ?f y) (rows T)"
    using p w by (auto simp: t_change_def table_simps dest: wf_key_unique)
  then show ?thesis
    unfolding held_def sums using sum_list_map_if_update [OF wf_distinct [OF w] p(2), of "?f (u p)" ?f] a
    by simp
qed

section \<open>Handlers one after the other\<close>

definition po_evolves :: "payout_request table \<Rightarrow> payout_request table \<Rightarrow> bool" where
  "po_evolves T T' \<longleftrightarrow>
     (\<forall>i p. t_get po_id i T = Some p \<longrightarrow> (\<exists>p'. t_get po_id i T' = Some p' \<and> evolve_row p p'))"

definition fine :: "'x sys_scheme \<Rightarrow> bool" where
  "fine s \<longleftrightarrow> pay_ok s \<and> payouts_ok s"

definition lawful :: "'x sys_scheme \<Rightarrow> 'x sys_scheme \<Rightarrow> bool" where
  "lawful s t \<longleftrightarrow> fine t \<and> money t = money s \<and> po_evolves (payout_requests s) (payout_requests t)"

lemma evolve_row_refl [simp]: "evolve_row p p"
  by (simp add: evolve_row_def)

lemma evolve_row_trans: "evolve_row p q \<Longrightarrow> evolve_row q r \<Longrightarrow> evolve_row p r"
  by (auto simp: evolve_row_def intro: rtranclp_trans)

lemma po_evolves_refl [simp]: "po_evolves T T"
  by (auto simp: po_evolves_def)

lemma po_evolves_trans: "po_evolves T U \<Longrightarrow> po_evolves U V \<Longrightarrow> po_evolves T V"
  unfolding po_evolves_def using evolve_row_trans by blast

lemma po_evolves_change:
  assumes "t_get po_id i T = Some p" "evolve_row p (g p)" "\<And>r. po_id (g r) = po_id r"
  shows "po_evolves T (t_change po_id i g T)"
  using assms by (auto simp: po_evolves_def t_get_change [of po_id g, OF assms(3)])

lemma po_evolves_insert:
  assumes "wf_table po_id T" "\<And>i. po_id (f i) = i"
  shows "po_evolves T (t_insert f T)"
  unfolding po_evolves_def using tbl.create_other [OF assms] evolve_row_refl by blast

lemma lawful_refl: "fine s \<Longrightarrow> lawful s s"
  by (simp add: lawful_def)

lemma lawful_trans: "lawful s t \<Longrightarrow> lawful t u \<Longrightarrow> lawful s u"
  by (auto simp: lawful_def intro: po_evolves_trans)

lemma lawful_same_books:
  assumes "lawful s t" "same_books t u"
  shows "lawful s u"
proof -
  have "payouts_ok u = payouts_ok t" "money u = money t" "payout_requests u = payout_requests t"
    using same_books_fields [OF assms(2)] by (simp_all add: payouts_ok_def money_def)
  then show ?thesis
    using assms pay_ok_same_books [OF _ assms(2)] by (simp add: lawful_def fine_def)
qed

lemma pay_ok_post:
  assumes ok: "pay_ok s" and g: "t_get w_id i (wallets s) = Some w"
    and key: "\<And>k. e_id (f k) = k"
    and e: "\<And>k. e_walletId (f k) = Some i" "\<And>k. 0 < e_amount (f k)"
    and nb: "\<And>k. nb = w_balance w + signed_amount (f k)" "0 \<le> nb"
    and ref: "\<And>k j. e_reference (f k) \<noteq> Some (payment_reference j)"
  shows "pay_ok (post i nb f s)"
proof -
  have "books (post_wallets i nb (wallets s)) (t_insert f (ledger_entries s))"
    by (rule books_post [OF _ g key e nb]) (use ok in \<open>simp add: pay_ok_def books_ok_def\<close>)
  moreover have "credits_for j (t_insert f (ledger_entries s)) = credits_for j (ledger_entries s)" for j
    using ref by (simp add: credits_for_insert)
  ultimately show ?thesis
    using ok by (simp add: pay_ok_def books_ok_def post_def credits_ok_def)
qed

lemma pay_ok_payouts [simp]: "pay_ok (payout_requests_update h s) = pay_ok s"
  by (simp add: pay_ok_def books_ok_def)

lemma post_payouts [simp]: "payout_requests (post i nb f s) = payout_requests s"
  by (simp add: post_def)

lemma payout_ref_neq: "payout_ref kind i \<noteq> payment_reference j"
  by (simp add: payout_ref_def payment_reference_def)

lemma total_post_s:
  assumes "pay_ok s" "t_get w_id i (wallets s) = Some w"
  shows "total (wallets (post i nb f s)) = total (wallets s) - w_balance w + nb"
  using total_post [OF _ assms(2)] assms(1) by (simp add: post_def pay_ok_def books_ok_def books_def)

lemma wp_payout_findOrThrow [wp_eqs]:
  "wp (payout_findOrThrow i) Q E s =
     (case t_get po_id i (payout_requests s) of
        None \<Rightarrow> E (http_exn NOT_FOUND 404 ''Payout request not found'') s
      | Some r \<Rightarrow> Q r s)"
  by (auto simp: payout_findOrThrow_def wp_eqs split: option.splits)

lemma wp_release_tx:
  "wp (release_tx now i ex g kind descr) Q E s =
     (case t_get po_id i (payout_requests s) of
        None \<Rightarrow> E (PrismaKnown ''P2025'' JUndefined) s
      | Some r \<Rightarrow>
        (let s' = payout_requests_update (t_change po_id i g) s;
             f = new_entry now (po_walletId ex) (po_userId ex) CREDIT (po_amount ex)
                   (Some (payout_ref kind i)) (Some descr) (payout_meta i) in
         case t_get w_id (po_walletId ex) (wallets s) of
           None \<Rightarrow> E (http_exn NOT_FOUND 404 ''Wallet not found'') s'
         | Some w \<Rightarrow>
             let nb = w_balance w + po_amount ex in
             if nb > int8_max \<or> nb < - int8_max - 1
             then E (PrismaKnown ''P2020'' JUndefined) (ledger_entries_update (t_insert f) s')
             else Q (g r) (post (po_walletId ex) nb f s')))"
  by (auto simp: release_tx_def payout_update_def wp_eqs Let_def entry_create_def post_def
           split: option.splits)

text \<open>Releasing the hold of a row that still is on hold.\<close>

lemma lawful_release:
  assumes s: "fine s" and p: "t_get po_id i (payout_requests s) = Some p" "po_status p = PO_PENDING"
    and w: "t_get w_id (po_walletId p) (wallets s) = Some w"
    and g: "\<And>r. po_id (g r) = po_id r" "\<And>r. po_amount (g r) = po_amount r"
      "\<And>r. po_userId (g r) = po_userId r" "\<And>r. po_walletId (g r) = po_walletId r"
      "\<And>r. po_bankAccount (g r) = po_bankAccount r"
    and st: "payout_step PO_PENDING (po_status (g p))" "\<not> held_status (po_status (g p))"
  shows "lawful s (post (po_walletId p) (w_balance w + po_amount p)
      (new_entry now (po_walletId p) (po_userId p) CREDIT (po_amount p)
        (Some (payout_ref kind i)) (Some descr) (payout_meta i))
      (payout_requests_update (t_change po_id i g) s))"
proof -
  let ?s' = "payout_requests_update (t_change po_id i g) s"
  have wf: "wf_table po_id (payout_requests s)" and pos: "0 < po_amount p"
    using s p(1) by (auto simp: fine_def payouts_ok_def dest: t_get_in)
  have ok': "pay_ok ?s'" using s by (simp add: fine_def)
  have w': "t_get w_id (po_walletId p) (wallets ?s') = Some w" using w by simp
  have "0 \<le> w_balance w" using s w by (auto simp: fine_def pay_ok_def intro: books_ok_nonneg)
  then have "pay_ok (post (po_walletId p) (w_balance w + po_amount p)
      (new_entry now (po_walletId p) (po_userId p) CREDIT (po_amount p)
        (Some (payout_ref kind i)) (Some descr) (payout_meta i)) ?s')"
    by (intro pay_ok_post [OF ok' w']) (use pos in \<open>simp_all add: signed_amount_def payout_ref_neq\<close>)
  moreover have "wf_table po_id (t_change po_id i g (payout_requests s))"
    by (rule wf_t_change [OF wf g(1)])
  moreover have "\<forall>q\<in>set (rows (t_change po_id i g (payout_requests s))). 0 < po_amount q"
    using s g(2) by (auto simp: fine_def payouts_ok_def t_change_def table_simps)
  moreover have "held (t_change po_id i g (payout_requests s)) = held (payout_requests s) - po_amount p"
    using held_change [OF wf p(1), of g] g(2) p(2) st(2) by (simp add: held_status_def)
  moreover have "po_evolves (payout_requests s) (t_change po_id i g (payout_requests s))"
    by (rule po_evolves_change [OF p(1) _ g(1)]) (use g st p(2) in \<open>simp add: evolve_row_def\<close>)
  ultimately show ?thesis
    using total_post_s [OF ok' w'] by (simp add: lawful_def fine_def payouts_ok_def money_def)
qed

lemma lawful_status:
  assumes s: "fine s" and p: "t_get po_id i (payout_requests s) = Some p"
    and g: "\<And>r. po_id (g r) = po_id r" "\<And>r. po_amount (g r) = po_amount r"
      "\<And>r. po_userId (g r) = po_userId r" "\<And>r. po_walletId (g r) = po_walletId r"
      "\<And>r. po_bankAccount (g r) = po_bankAccount r"
    and st: "payout_step (po_status p) (po_status (g p))" "held_status (po_status p)"
      "held_status (po_status (g p))"
  shows "lawful s (payout_requests_update (t_change po_id i g) s)"
proof -
  have wf: "wf_table po_id (payout_requests s)" using s by (simp add: fine_def payouts_ok_def)
  have "wf_table po_id (t_change po_id i g (payout_requests s))"
    by (rule wf_t_change [OF wf g(1)])
  moreover have "\<forall>q\<in>set (rows (t_change po_id i g (payout_requests s))). 0 < po_amount q"
    using s g(2) by (auto simp: fine_def payouts_ok_def t_change_def table_simps)
  moreover have "held (t_change po_id i g (payout_requests s)) = held (payout_requests s)"
    using held_change [OF wf p(1), of g] g(2) st by simp
  moreover have "po_evolves (payout_requests s) (t_change po_id i g (payout_requests s))"
    by (rule po_evolves_change [OF p(1) _ g(1)]) (use g st in \<open>simp add: evolve_row_def\<close>)
  ultimately show ?thesis
    using s by (simp add: lawful_def fine_def payouts_ok_def money_def)
qed

lemma wp_check_pending [wp_eqs]:
  "wp (check_pending i) Q E s =
     (case t_get po_id i (payout_requests s) of
        None \<Rightarrow> E (http_exn NOT_FOUND 404 ''Payout request not found'') s
      | Some r \<Rightarrow> if po_status r \<noteq> PO_PENDING
                  then E (http_exn PAYOUT_NOT_PENDING 409 ''Payout is not in PENDING status'') s
                  else Q r s)"
  by (auto simp: check_pending_def wp_eqs split: option.splits)

lemma cancel_lawful: "fine s \<Longrightarrow> wp (cancel env i u) (\<lambda>_. lawful s) (\<lambda>_. lawful s) s"
  by (auto simp: cancel_def cancel_check_def cancel_write_def wp_eqs wp_release_tx Let_def lawful_refl
      payout_step.intros held_status_def split: option.splits intro!: lawful_release)

lemma reject_lawful: "fine s \<Longrightarrow> wp (reject env i rv reason) (\<lambda>_. lawful s) (\<lambda>_. lawful s) s"
  by (auto simp: reject_def reject_write_def wp_eqs wp_release_tx Let_def lawful_refl
      payout_step.intros held_status_def split: option.splits
      intro!: wp_dispatch lawful_release elim!: lawful_same_books [rotated])

lemma approve_lawful: "fine s \<Longrightarrow> wp (approve env i rv) (\<lambda>_. lawful s) (\<lambda>_. lawful s) s"
  by (auto simp: approve_def approve_write_def payout_update_def wp_eqs lawful_refl
      payout_step.intros held_status_def split: option.splits
      intro!: wp_dispatch lawful_status elim!: lawful_same_books [rotated])

lemma markPaid_lawful: "fine s \<Longrightarrow> wp (markPaid env i rv ref) (\<lambda>_. lawful s) (\<lambda>_. lawful s) s"
  by (auto simp: markPaid_def payout_update_def wp_eqs lawful_refl
      payout_step.intros held_status_def split: option.splits
      intro!: wp_dispatch lawful_status elim!: lawful_same_books [rotated])

text \<open>A request takes the amount out of the wallet and puts it on hold.\<close>

lemma wp_request_tx:
  assumes s: "fine s" and a: "0 < pi_amount input" and wal: "t_get w_id (w_id wallet) (wallets s) \<noteq> None"
  shows "wp (request_tx now input wallet) (\<lambda>_. lawful s) (\<lambda>_ _. True) s"
proof -
  let ?f = "\<lambda>i. \<lparr>po_id = i, po_userId = pi_userId input, po_walletId = w_id wallet,
      po_amount = pi_amount input, po_bankAccount = pi_bankAccount input,
      po_accountHolder = pi_accountHolder input, po_status = PO_PENDING, po_submittedAt = now,
      po_reviewedByUserId = None, po_reviewedAt = None, po_rejectionReason = None,
      po_paidAt = None, po_paymentReference = None\<rparr>"
  let ?s' = "payout_requests_update (t_insert ?f) s"
  let ?i = "next_id (payout_requests s)"
  let ?e = "new_entry now (w_id wallet) (pi_userId input) DEBIT (pi_amount input)
      (Some (payout_ref [] ?i)) (Some ''Payout pending review'') (payout_meta ?i)"
  have wf: "wf_table po_id (payout_requests s)" using s by (simp add: fine_def payouts_ok_def)
  have ok': "pay_ok ?s'" using s by (simp add: fine_def)
  have res: "lawful s (post (w_id wallet) (w_balance w - pi_amount input) ?e ?s')"
    if w: "t_get w_id (w_id wallet) (wallets s) = Some w" and "pi_amount input \<le> w_balance w" for w
  proof -
    have w': "t_get w_id (w_id wallet) (wallets ?s') = Some w" using w by simp
    have "pay_ok (post (w_id wallet) (w_balance w - pi_amount input) ?e ?s')"
      by (intro pay_ok_post [OF ok' w']) (use a that(2) in \<open>simp_all add: signed_amount_def payout_ref_neq\<close>)
    moreover have "wf_table po_id (t_insert ?f (payout_requests s))" by (rule wf_t_insert [OF wf]) simp
    moreover have "\<forall>q\<in>set (rows (t_insert ?f (payout_requests s))). 0 < po_amount q"
      using s a by (auto simp: fine_def payouts_ok_def rows_t_insert)
    moreover have "po_evolves (payout_requests s) (t_insert ?f (payout_requests s))"
      by (rule po_evolves_insert [OF wf]) simp
    ultimately show ?thesis
      using total_post_s [OF ok' w']
      by (simp add: lawful_def fine_def payouts_ok_def money_def held_insert held_status_def)
  qed
  show ?thesis
    using wal res
    by (auto simp: request_tx_def wp_eqs t_new_def entry_create_def post_def Let_def split: option.splits)
qed

lemma request_lawful: "fine s \<Longrightarrow> wp (request env input) (\<lambda>_. lawful s) (\<lambda>_. lawful s) s"
proof -
  assume s: "fine s"
  have tx: "wp (transaction (request_tx (env_now env) input w)) (\<lambda>_. lawful s) (\<lambda>_. lawful s) s"
    if "wallet_findUnique (pi_userId input) s = Some w" "\<not> pi_amount input \<le> 0" for w
  proof -
    have "w \<in> set (rows (wallets s))" using that(1) by (auto simp: wallet_findUnique_def dest: t_find_Some)
    then have "t_get w_id (w_id w) (wallets s) = Some w"
      using s by (intro t_get_self) (simp_all add: fine_def pay_ok_def books_ok_def books_def)
    then show ?thesis
      unfolding wp_transaction
      by (intro wp_mono [OF wp_request_tx [OF s]]) (use that lawful_refl [OF s] in auto)
  qed
  show ?thesis
    using lawful_refl [OF s]
    by (auto simp: request_def wp_bind wp_seq wp_return wp_throw wp_findByUserId split: option.splits
             intro!: wp_mono [OF tx] wp_dispatch elim!: lawful_same_books [rotated])
qed

datatype payout_op =
    PoRequest payout_input
  | PoApprove int int
  | PoReject int int string
  | PoMarkPaid int int string
  | PoCancel int int

definition run_payout :: "env \<Rightarrow> payout_op \<Rightarrow> ('x sys_scheme, payout_request) M" where
  "run_payout env op = (case op of
       PoRequest i \<Rightarrow> request env i
     | PoApprove i rv \<Rightarrow> approve env i rv
     | PoReject i rv reason \<Rightarrow> reject env i rv reason
     | PoMarkPaid i rv ref \<Rightarrow> markPaid env i rv ref
     | PoCancel i u \<Rightarrow> cancel env i u)"

fun serve_payouts :: "env \<Rightarrow> payout_op list \<Rightarrow> 'x sys_scheme \<Rightarrow> 'x sys_scheme" where
  "serve_payouts env [] s = s"
| "serve_payouts env (op # ops) s = serve_payouts env ops (snd (run_payout env op s))"

lemma run_payout_lawful: "fine s \<Longrightarrow> lawful s (snd (run_payout env op s))"
  unfolding wp_same [symmetric]
  by (cases op) (simp_all add: run_payout_def request_lawful approve_lawful reject_lawful
      markPaid_lawful cancel_lawful)

lemma serve_payouts_lawful: "fine s \<Longrightarrow> lawful s (serve_payouts env ops s)"
proof (induction ops arbitrary: s)
  case Nil
  then show ?case by (simp add: lawful_refl)
next
  case (Cons op ops)
  from run_payout_lawful [OF Cons.prems] have 1: "lawful s (snd (run_payout env op s))" .
  then have "fine (snd (run_payout env op s))" by (simp add: lawful_def)
  from lawful_trans [OF 1 Cons.IH [OF this]] show ?case by simp
qed

section \<open>Two handlers at once\<close>

text \<open>Both checks run on the same state, then both writes.\<close>

definition both :: "('s, 'a) M \<Rightarrow> ('a \<Rightarrow> ('s, 'b) M) \<Rightarrow> ('s, 'a) M \<Rightarrow> ('a \<Rightarrow> ('s, 'b) M) \<Rightarrow> ('s, 'b) M" where
  "both check1 write1 check2 write2 =
     bind check1 (\<lambda>x. bind check2 (\<lambda>y. seq (write1 x) (write2 y)))"

definition cancel_race :: "env \<Rightarrow> int \<Rightarrow> int \<Rightarrow> int \<Rightarrow> string \<Rightarrow> ('x sys_scheme, payout_request) M" where
  "cancel_race env payoutId userId reviewerUserId reason =
     both (cancel_check payoutId userId) (cancel_write env payoutId)
          (check_pending payoutId) (reject_write env payoutId reviewerUserId reason)"

lemma cancel_race_money:
  assumes s: "fine s" and p: "t_get po_id i (payout_requests s) = Some p" "po_status p = PO_PENDING"
    "po_userId p = u"
    and w: "t_get w_id (po_walletId p) (wallets s) = Some w"
    and room: "w_balance w + 2 * po_amount p \<le> int8_max"
  shows "wp (cancel_race env i u rv reason) (\<lambda>_ t. money t = money s + po_amount p) (\<lambda>_ _. False) s"
proof -
  let ?g = "\<lambda>r. r\<lparr>po_status := PO_CANCELLED\<rparr>"
  let ?h = "\<lambda>r. r\<lparr>po_status := PO_REJECTED, po_reviewedByUserId := Some rv,
      po_reviewedAt := Some (env_now env), po_rejectionReason := Some reason\<rparr>"
  let ?T = "payout_requests s" and ?W = "wallets s" and ?a = "po_amount p" and ?wi = "po_walletId p"
  have wf: "wf_table po_id ?T" and pos: "0 < ?a"
    using s p(1) by (auto simp: fine_def payouts_ok_def dest: t_get_in)
  have wfW: "wf_table w_id ?W" using s by (simp add: fine_def pay_ok_def books_ok_def books_def)
  have nn: "0 \<le> w_balance w" using s w by (auto simp: fine_def pay_ok_def intro: books_ok_nonneg)
  have T1: "t_get po_id i (t_change po_id i ?g ?T) = Some (?g p)" using p by (simp add: t_get_change)
  have wf1: "wf_table po_id (t_change po_id i ?g ?T)" by (rule wf_t_change [OF wf]) simp
  have held2: "held (t_change po_id i ?h (t_change po_id i ?g ?T)) = held ?T - ?a"
    using held_change [OF wf1 T1, of ?h] held_change [OF wf p(1), of ?g] p(2)
    by (simp add: held_status_def)
  have W1: "t_get w_id ?wi (post_wallets ?wi (w_balance w + ?a) ?W) = Some (w\<lparr>w_balance := w_balance w + ?a\<rparr>)"
    using w by (simp add: get_post_wallets)
  have wfW1: "wf_table w_id (post_wallets ?wi (w_balance w + ?a) ?W)"
    unfolding post_wallets_def by (rule wf_t_change [OF wfW]) simp
  have total2: "total (post_wallets ?wi (w_balance w + ?a + ?a) (post_wallets ?wi (w_balance w + ?a) ?W)) =
      total ?W + 2 * ?a"
    using total_post [OF wfW1 W1] total_post [OF wfW w] by simp
  show ?thesis
    using p w T1 W1 nn pos room held2 total2
    by (auto simp: cancel_race_def both_def cancel_check_def cancel_write_def reject_write_def wp_eqs
          wp_release_tx Let_def post_def money_def same_books_fields intro!: wp_dispatch)
qed

interpretation payout_pages: paged_source
  "\<lambda>s. wf_table po_id (payout_requests s)" po_id
  "\<lambda>s. t_filter P (payout_requests s)" for P
  by unfold_locales (rule table_pages.ascending)

section \<open>Evaluation on the sample state\<close>

lemma fine_sample: "fine sample_sys"
  using pay_ok_sample by (auto simp: fine_def payouts_ok_def) (auto simp: sample_defs wf_table_def)

lemma sample_payout_get: "t_get po_id 1 (payout_requests sample_sys) = Some sample_payout"
  by (simp add: sample_sys_def t_get_def t_find_def sample_payout_def)

lemma sample_wallet_get:
  "t_get w_id 1 (wallets sample_sys) = Some \<lparr>w_id = 1, w_userId = 1, w_balance = 60\<rparr>"
  by (simp add: sample_sys_def t_get_def t_find_def)

section \<open>Properties\<close>

text \<open>C5. Payout handlers served one after the other conserve money: the balances of all
  wallets plus the amounts of the payouts that are pending, approved or paid stay the same
  through any sequence of requests, approvals, rejections, cancellations and payments, whether
  they return or throw, and the books and the payment records stay consistent.\<close>

theorem payouts_conserve_money:
  assumes "fine s"
  shows "total (wallets (serve_payouts env ops s)) + held (payout_requests (serve_payouts env ops s)) =
      total (wallets s) + held (payout_requests s) \<and>
    fine (serve_payouts env ops s)"
  using serve_payouts_lawful [OF assms, of env ops] by (simp add: lawful_def money_def)

lemma payouts_conserve_money_witness:
  "let t = serve_payouts sample_env [PoCancel 1 1, PoReject 1 9 ''late'', PoCancel 1 1] sample_sys
   in total (wallets t) + held (payout_requests t) = 100"
proof -
  have "total (wallets sample_sys) + held (payout_requests sample_sys) = 100"
    by (simp add: sample_defs total_def held_def held_status_def table_run)
  then show ?thesis
    using payouts_conserve_money [OF fine_sample, of sample_env
      "[PoCancel 1 1, PoReject 1 9 ''late'', PoCancel 1 1]"] by (simp add: Let_def)
qed

text \<open>The life of a payout: through any sequence of payout handlers a request keeps its
  owner, wallet, amount and bank account, its status only moves PENDING to APPROVED, REJECTED
  or CANCELLED and APPROVED to PAID, and REJECTED, PAID and CANCELLED are final.\<close>

theorem payout_lifecycle:
  assumes "fine s" "t_get po_id i (payout_requests s) = Some p"
  shows "\<exists>p'. t_get po_id i (payout_requests (serve_payouts env ops s)) = Some p' \<and>
    po_userId p' = po_userId p \<and> po_walletId p' = po_walletId p \<and> po_amount p' = po_amount p \<and>
    po_bankAccount p' = po_bankAccount p \<and>
    payout_step\<^sup>*\<^sup>* (po_status p) (po_status p') \<and>
    (payout_terminal (po_status p) \<longrightarrow> po_status p' = po_status p)"
proof -
  from serve_payouts_lawful [OF assms(1), of env ops] assms(2) obtain p' where
    "t_get po_id i (payout_requests (serve_payouts env ops s)) = Some p'" "evolve_row p p'"
    unfolding lawful_def po_evolves_def by blast
  then show ?thesis using po_life.terminal_forever unfolding evolve_row_def by blast
qed

lemma payout_lifecycle_witness:
  "\<exists>p'. t_get po_id 1 (payout_requests (serve_payouts sample_env [PoApprove 1 9, PoCancel 1 1] sample_sys))
      = Some p' \<and> po_amount p' = 40 \<and> po_status p' \<noteq> PO_CANCELLED"
proof -
  have st: "map_option po_status (t_get po_id 1 (payout_requests
      (serve_payouts sample_env [PoApprove 1 9, PoCancel 1 1] sample_sys))) = Some PO_APPROVED"
    by (simp add: run_payout_def approve_def approve_write_def check_pending_def payout_findOrThrow_def
        payout_update_def cancel_def cancel_check_def run_simps sample_defs table_run dispatch_run)
  from payout_lifecycle [OF fine_sample sample_payout_get, of sample_env "[PoApprove 1 9, PoCancel 1 1]"]
  obtain p' where "t_get po_id 1 (payout_requests
      (serve_payouts sample_env [PoApprove 1 9, PoCancel 1 1] sample_sys)) = Some p'"
    "po_amount p' = 40" by (auto simp: sample_payout_def)
  then show ?thesis using st by auto
qed

text \<open>C10. The status check of a payout handler is not part of its transaction: when a user's
  cancellation and an administrator's rejection of the same pending payout both pass their
  checks before either writes, both credit the wallet, and the amount comes into being a
  second time.\<close>

theorem cancel_reject_race_doubles_refund:
  assumes "fine s" "t_get po_id i (payout_requests s) = Some p" "po_status p = PO_PENDING"
    and "t_get w_id (po_walletId p) (wallets s) = Some w"
    and "w_balance w + 2 * po_amount p \<le> int8_max"
  shows "case cancel_race env i (po_userId p) reviewer reason s of
      (Inl e, t) \<Rightarrow> False
    | (Inr r, t) \<Rightarrow> total (wallets t) + held (payout_requests t) =
        total (wallets s) + held (payout_requests s) + po_amount p"
  using cancel_race_money [OF assms(1-3) refl assms(4,5), of env reviewer reason]
  by (auto simp: wp_def money_def split: prod.splits sum.splits)

lemma cancel_reject_race_doubles_refund_witness:
  "\<exists>r t. cancel_race sample_env 1 1 9 ''late'' sample_sys = (Inr r, t) \<and>
     total (wallets t) + held (payout_requests t) = 140"
proof -
  have m: "total (wallets sample_sys) + held (payout_requests sample_sys) = 100"
    by (simp add: sample_defs total_def held_def held_status_def table_run)
  have "case cancel_race sample_env 1 (po_userId sample_payout) 9 ''late'' sample_sys of
      (Inl e, t) \<Rightarrow> False
    | (Inr r, t) \<Rightarrow> total (wallets t) + held (payout_requests t) =
        total (wallets sample_sys) + held (payout_requests sample_sys) + po_amount sample_payout"
    by (rule cancel_reject_race_doubles_refund [OF fine_sample sample_payout_get,
          where w = "\<lparr>w_id = 1, w_userId = 1, w_balance = 60\<rparr>"])
       (simp_all add: sample_payout_def sample_wallet_get int8_max_def)
  then show ?thesis using m by (auto simp: sample_payout_def split: prod.splits sum.splits)
qed

text \<open>A payout request is refused before anything is written when the bank account is
  not a valid IBAN or the amount is not positive, and a request that returns has a valid
  IBAN, starts PENDING, and took its amount out of a wallet that held it.\<close>

theorem request_guards:
  assumes "fine s"
  shows "case request env input s of
      (Inl e, t) \<Rightarrow> t = s
    | (Inr r, t) \<Rightarrow> isValidIranianIban (pi_bankAccount input) \<and> 0 < pi_amount input \<and>
        po_status r = PO_PENDING \<and> po_amount r = pi_amount input \<and> po_userId r = pi_userId input \<and>
        (\<exists>w. wallet_findUnique (pi_userId input) s = Some w \<and> pi_amount input \<le> w_balance w \<and>
             balance_of t = (balance_of s)(w_id w \<mapsto> w_balance w - pi_amount input))"
proof -
  have tx: "wp (request_tx now input w)
      (\<lambda>r t. po_status r = PO_PENDING \<and> po_amount r = pi_amount input \<and> po_userId r = pi_userId input \<and>
         pi_amount input \<le> w_balance w \<and>
         balance_of t = (balance_of s)(w_id w \<mapsto> w_balance w - pi_amount input))
      (\<lambda>_ _. True) s"
    if w: "t_get w_id (w_id w) (wallets s) = Some w" for now w
    using w
    by (auto simp: request_tx_def wp_eqs t_new_def entry_create_def Let_def balance_of_def get_post_wallets
          fun_eq_iff split: option.splits)
  have get: "t_get w_id (w_id w) (wallets s) = Some w" if "wallet_findUnique (pi_userId input) s = Some w" for w
    using that assms
    by (auto simp: wallet_findUnique_def fine_def pay_ok_def books_ok_def books_def
          dest!: t_find_Some intro!: t_get_self)
  have "wp (request env input)
      (\<lambda>r t. isValidIranianIban (pi_bankAccount input) \<and> 0 < pi_amount input \<and>
        po_status r = PO_PENDING \<and> po_amount r = pi_amount input \<and> po_userId r = pi_userId input \<and>
        (\<exists>w. wallet_findUnique (pi_userId input) s = Some w \<and> pi_amount input \<le> w_balance w \<and>
             balance_of t = (balance_of s)(w_id w \<mapsto> w_balance w - pi_amount input)))
      (\<lambda>e t. t = s) s"
    by (auto simp: request_def wp_bind wp_seq wp_return wp_throw wp_findByUserId wp_transaction
          split: option.splits
          intro!: wp_mono [OF tx [OF get]] wp_dispatch simp: same_books_balance)
  then show ?thesis by (auto simp: wp_def split: prod.splits sum.splits)
qed

lemma request_guards_witness:
  "request sample_env \<lparr>pi_userId = 1, pi_amount = 5, pi_bankAccount = ''IR00'', pi_accountHolder = ''A''\<rparr> sample_sys
     = (Inl (http_exn INVALID_IBAN 400 (''Invalid Iranian IBAN ('' @ utf8 [216, 180, 216, 168, 216, 167] @ '')'')),
        sample_sys)"
proof -
  let ?in = "\<lparr>pi_userId = 1, pi_amount = 5, pi_bankAccount = ''IR00'', pi_accountHolder = ''A''\<rparr>"
  have iban: "\<not> isValidIranianIban ''IR00''" by code_simp
  have "fst (request sample_env ?in sample_sys) =
      Inl (http_exn INVALID_IBAN 400 (''Invalid Iranian IBAN ('' @ utf8 [216, 180, 216, 168, 216, 167] @ '')''))"
    using iban by (simp add: request_def throw_def)
  then show ?thesis
    using request_guards [OF fine_sample, where env = sample_env and input = ?in]
    by (cases "request sample_env ?in sample_sys") auto
qed

end
