(* ===== verification/MoneyRoutes.thy ===== *)
theory MoneyRoutes
  imports Routes Payouts
begin

text \<open>
  The routes that move or show money: payments.controller.ts, payments-callback.controller.ts,
  payouts.controller.ts, wallets.controller.ts and ledger-admin.controller.ts.  Each handler parses its
  query, body and path, calls the service and gives the JSON of the answer; money_decorators says
  how it is guarded.  money_handler and serve_money_route stand for the router of NestJS: they pick the
  handler of a route and run it through the pipeline of Access.  NestJS passes only decorated
  parameters, so the handlers of the wallet controller get no request.

  The lemmas show that every handler keeps the books, what the answers to malformed ids and limits
  are, that the wallet routes always fail, and that the confirmation header of the refund and payout
  routes is never read.
\<close>

section \<open>Schemas\<close>

definition zcursor :: "json \<Rightarrow> int option zod" where
  "zcursor v = zoptional ztext_bigint v"

definition InitiatePaymentSchema :: "json \<Rightarrow> (int \<times> string \<times> string \<times> json option) zod" where
  "InitiatePaymentSchema = zobject (\<lambda>b.
     zboth (zrefine (\<lambda>n. 0 < n) (ztext_bigint (jget b ''amount'')))
    (zboth (zrefine purpose_pattern (zstring (jget b ''purpose'')))
    (zboth (zlength 1 500 (jget b ''description''))
           (zoptional (\<lambda>v. case v of JObj m \<Rightarrow> valid (JObj m) | _ \<Rightarrow> invalid) (jget b ''metadata'')))))"

text \<open>UserPaymentsQuerySchema, UserPayoutsQuerySchema and WalletEntriesQuerySchema.\<close>

definition UserPageSchema :: "json \<Rightarrow> (int option \<times> int option) zod" where
  "UserPageSchema = zobject (\<lambda>q. zboth (zcursor (jget q ''cursor'')) (zlimit (jget q ''limit'')))"

definition payment_statuses :: "(string \<times> payment_status) list" where
  "payment_statuses = map (\<lambda>st. (payment_status_string st, st)) [PENDING, SUCCEEDED, FAILED, CANCELLED, EXPIRED]"

definition refund_statuses :: "(string \<times> refund_status) list" where
  "refund_statuses = [(''PENDING_MANUAL'', PENDING_MANUAL), (''COMPLETED'', COMPLETED)]"

definition payout_statuses :: "(string \<times> payout_status) list" where
  "payout_statuses = [(''PENDING'', PO_PENDING), (''APPROVED'', PO_APPROVED), (''REJECTED'', PO_REJECTED),
     (''PAID'', PO_PAID), (''CANCELLED'', PO_CANCELLED)]"

text \<open>The admin lists: a status, a key, the cursor and the limit.\<close>

definition AdminPageSchema :: "(string \<times> 'st) list \<Rightarrow> string \<Rightarrow> json \<Rightarrow>
    ('st option \<times> int option \<times> int option \<times> int option) zod" where
  "AdminPageSchema statuses key = zobject (\<lambda>q.
     zboth (zoptional (zenum statuses) (jget q ''status''))
    (zboth (zcursor (jget q key)) (zboth (zcursor (jget q ''cursor'')) (zlimit (jget q ''limit'')))))"

definition RefundRequestSchema :: "json \<Rightarrow> (int option \<times> string) zod" where
  "RefundRequestSchema = zobject (\<lambda>b. zboth (zcursor (jget b ''amount'')) (zlength 10 500 (jget b ''reason'')))"

definition MarkRefundCompletedSchema :: "json \<Rightarrow> string zod" where
  "MarkRefundCompletedSchema = zobject (\<lambda>b. zlength 1 120 (jget b ''bankReference''))"

definition CallbackQuerySchema :: "json \<Rightarrow> (string \<times> provider_status) zod" where
  "CallbackQuerySchema = zobject (\<lambda>q.
     zboth (zlength 1 120 (jget q ''Authority'')) (zenum [(''OK'', P_OK), (''NOK'', P_NOK)] (jget q ''Status'')))"

definition RequestPayoutSchema :: "json \<Rightarrow> (int \<times> string \<times> string) zod" where
  "RequestPayoutSchema = zobject (\<lambda>b.
     zboth (ztext_bigint (jget b ''amount''))
    (zboth (zlength 26 26 (jget b ''bankAccount'')) (zlength 1 200 (jget b ''accountHolder''))))"

definition RejectPayoutSchema :: "json \<Rightarrow> string zod" where
  "RejectPayoutSchema = zobject (\<lambda>b. zlength 1 500 (jget b ''reason''))"

definition MarkPaidSchema :: "json \<Rightarrow> string zod" where
  "MarkPaidSchema = zobject (\<lambda>b. zlength 1 120 (jget b ''paymentReference''))"

definition ReconciliationQuerySchema :: "json \<Rightarrow> int option zod" where
  "ReconciliationQuerySchema = zobject (\<lambda>q. zmap (capped 10000 ''10000'') (zoptional zstring (jget q ''limit'')))"

definition AggregatesQuerySchema :: "json \<Rightarrow> int option zod" where
  "AggregatesQuerySchema = zobject (\<lambda>q. zmap (capped 365 ''30'') (zoptional zstring (jget q ''days'')))"

section \<open>Projections\<close>

definition user_payment_json :: "payment \<Rightarrow> json" where
  "user_payment_json p = (let v = sanitizeForUser p in JObj
     [(''id'', JBig (uv_id v)), (''amount'', JBig (uv_amount v)), (''purpose'', JStr (uv_purpose v)),
      (''description'', JStr (uv_description v)), (''status'', JStr (payment_status_string (uv_status v))),
      (''referenceCode'', json_text_opt (uv_referenceCode v)), (''initiatedAt'', json_date (Some (uv_initiatedAt v))),
      (''completedAt'', json_date (uv_completedAt v))])"

definition status_payment_json :: "payment \<Rightarrow> json" where
  "status_payment_json p = (let v = sanitizeForStatus p in JObj
     [(''id'', JBig (sv_id v)), (''status'', JStr (payment_status_string (sv_status v))), (''amount'', JBig (sv_amount v)),
      (''referenceCode'', json_text_opt (sv_referenceCode v)), (''completedAt'', json_date (sv_completedAt v))])"

definition sanitizeForAdmin_payment :: "payment \<Rightarrow> json" where
  "sanitizeForAdmin_payment p = JObj
     [(''id'', JBig (pay_id p)), (''userId'', JBig (pay_userId p)), (''amount'', JBig (pay_amount p)),
      (''purpose'', JStr (pay_purpose p)), (''description'', JStr (pay_description p)),
      (''status'', JStr (payment_status_string (pay_status p))), (''providerName'', JStr (pay_providerName p)),
      (''providerReference'', json_text_opt (pay_providerReference p)), (''referenceCode'', json_text_opt (pay_referenceCode p)),
      (''cardPanMasked'', json_text_opt (pay_cardPanMasked p)), (''metadata'', pay_metadata p),
      (''initiatedAt'', json_date (Some (pay_initiatedAt p))), (''completedAt'', json_date (pay_completedAt p)),
      (''failureReason'', json_text_opt (pay_failureReason p))]"

definition sanitizeRefundForAdmin :: "refund_row \<Rightarrow> json" where
  "sanitizeRefundForAdmin r = JObj
     [(''id'', JBig (rf_id r)), (''paymentId'', JBig (rf_paymentId r)), (''amount'', JBig (rf_amount r)),
      (''reason'', JStr (rf_reason r)), (''status'', JStr (refund_status_string (rf_status r))),
      (''requestedByUserId'', JBig (rf_requestedByUserId r)), (''requestedAt'', json_date (Some (rf_requestedAt r))),
      (''completedAt'', json_date (rf_completedAt r)), (''bankReference'', json_text_opt (rf_bankReference r))]"

definition payout_status_string :: "payout_status \<Rightarrow> string" where
  "payout_status_string st = (case st of PO_PENDING \<Rightarrow> ''PENDING'' | PO_APPROVED \<Rightarrow> ''APPROVED'' | PO_REJECTED \<Rightarrow> ''REJECTED''
     | PO_PAID \<Rightarrow> ''PAID'' | PO_CANCELLED \<Rightarrow> ''CANCELLED'')"

text \<open>Rows that are returned as they are.\<close>

definition payout_json :: "payout_request \<Rightarrow> json" where
  "payout_json p = JObj
     [(''id'', JBig (po_id p)), (''userId'', JBig (po_userId p)), (''walletId'', JBig (po_walletId p)),
      (''amount'', JBig (po_amount p)), (''bankAccount'', JStr (po_bankAccount p)), (''accountHolder'', JStr (po_accountHolder p)),
      (''status'', JStr (payout_status_string (po_status p))), (''submittedAt'', json_date (Some (po_submittedAt p))),
      (''reviewedByUserId'', json_id_opt (po_reviewedByUserId p)), (''reviewedAt'', json_date (po_reviewedAt p)),
      (''rejectionReason'', json_text_opt (po_rejectionReason p)), (''paidAt'', json_date (po_paidAt p)),
      (''paymentReference'', json_text_opt (po_paymentReference p))]"

definition entry_json :: "ledger_entry \<Rightarrow> json" where
  "entry_json e = JObj
     [(''id'', JBig (e_id e)), (''userId'', json_id_opt (e_userId e)), (''walletId'', json_id_opt (e_walletId e)),
      (''kind'', JStr (case e_kind e of DEBIT \<Rightarrow> ''DEBIT'' | CREDIT \<Rightarrow> ''CREDIT'')), (''amount'', JBig (e_amount e)),
      (''currency'', JStr ''IRT''), (''reference'', json_text_opt (e_reference e)),
      (''description'', json_text_opt (e_description e)), (''metadata'', e_metadata e),
      (''createdAt'', json_date (Some (e_createdAt e)))]"

definition reconciliation_json :: "reconciliation_row \<Rightarrow> json" where
  "reconciliation_json r = JObj
     [(''walletId'', JBig (rr_walletId r)), (''userId'', JBig (rr_userId r)), (''storedBalance'', JBig (rr_storedBalance r)),
      (''computedBalance'', JBig (rr_computedBalance r)), (''drift'', JBig (rr_drift r)),
      (''status'', JStr (case rr_status r of OK \<Rightarrow> ''OK'' | DRIFT \<Rightarrow> ''DRIFT''))]"

definition report_json :: "json \<Rightarrow> reconciliation_report \<Rightarrow> json" where
  "report_json cappedAt rep = JObj
     [(''items'', JArr (map reconciliation_json (rp_items rep))),
      (''summary'', JObj [(''totalWallets'', JNum (int (rp_totalWallets rep))), (''walletsWithDrift'', JNum (int (rp_walletsWithDrift rep))),
        (''totalStoredBalance'', JBig (rp_totalStoredBalance rep)), (''totalComputedBalance'', JBig (rp_totalComputedBalance rep)),
        (''cappedAt'', cappedAt)])]"

section \<open>payments.controller.ts\<close>

definition payment_not_found :: exn where
  "payment_not_found = http_exn NOT_FOUND 404 ''Payment not found''"

definition initiatePayment :: "platform \<Rightarrow> pay_env \<Rightarrow> http_request \<Rightarrow> ('x sys_scheme, json) M" where
  "initiatePayment pf env req =
     bind (zod_run pf (rq_body req) (InitiatePaymentSchema (rq_body req))) (\<lambda>(amount, purpose, description, metadata).
     with_user req (\<lambda>me.
     bind (initiate env \<lparr>ii_userId = me, ii_amount = amount, ii_purpose = purpose, ii_description = description,
             ii_metadata = metadata\<rparr>) (\<lambda>(paymentId, redirectUrl).
       return (JObj [(''paymentId'', JBig paymentId), (''redirectUrl'', JStr redirectUrl)]))))"

definition getMyPayments :: "platform \<Rightarrow> json \<Rightarrow> http_request \<Rightarrow> ('x sys_scheme, json) M" where
  "getMyPayments pf query req =
     bind (zod_run pf query (UserPageSchema query)) (\<lambda>(cursor, limit).
     with_user req (\<lambda>me.
     bind (limited limit (pay_findForUser me cursor)) (\<lambda>page.
       return (page_response user_payment_json limit page))))"

definition getMyPayment :: "http_request \<Rightarrow> ('x sys_scheme, json) M" where
  "getMyPayment req =
     bind (bare_id (path_param ''id'' req)) (\<lambda>i.
     with_user req (\<lambda>me. bind (findById i (Some me)) (\<lambda>p. return (user_payment_json p))))"

definition get_payment_status :: "http_request \<Rightarrow> ('x sys_scheme, json) M" where
  "get_payment_status req =
     bind (checked_id payment_not_found (path_param ''paymentId'' req)) (\<lambda>i.
     with_user req (\<lambda>me. bind (findById i (Some me)) (\<lambda>p. return (status_payment_json p))))"

definition listPayments :: "platform \<Rightarrow> json \<Rightarrow> ('x sys_scheme, json) M" where
  "listPayments pf query =
     bind (zod_run pf query (AdminPageSchema payment_statuses ''userId'' query)) (\<lambda>(status, userId, cursor, limit).
     bind (limited limit (pay_findForAdmin status userId cursor)) (\<lambda>page.
       return (page_response sanitizeForAdmin_payment limit page)))"

definition refundPayment :: "platform \<Rightarrow> pay_env \<Rightarrow> http_request \<Rightarrow> ('x sys_scheme, json) M" where
  "refundPayment pf env req =
     bind (zod_run pf (rq_body req) (RefundRequestSchema (rq_body req))) (\<lambda>(amount, reason).
     bind (checked_id payment_not_found (path_param ''paymentId'' req)) (\<lambda>i.
     with_user req (\<lambda>me.
     bind (refund env \<lparr>ri_paymentId = i, ri_amount = amount, ri_reason = reason, ri_actorUserId = me\<rparr>) (\<lambda>r.
       return (sanitizeRefundForAdmin r)))))"

definition listRefunds :: "platform \<Rightarrow> json \<Rightarrow> ('x sys_scheme, json) M" where
  "listRefunds pf query =
     bind (zod_run pf query (AdminPageSchema refund_statuses ''paymentId'' query)) (\<lambda>(status, paymentId, cursor, limit).
     bind (limited limit (findRefundsForAdmin status paymentId cursor)) (\<lambda>page.
       return (page_response sanitizeRefundForAdmin limit page)))"

definition mark_refund_completed :: "platform \<Rightarrow> pay_env \<Rightarrow> http_request \<Rightarrow> ('x sys_scheme, json) M" where
  "mark_refund_completed pf env req =
     bind (zod_run pf (rq_body req) (MarkRefundCompletedSchema (rq_body req))) (\<lambda>bankReference.
     bind (checked_id (http_exn NOT_FOUND 404 ''Refund not found'') (path_param ''id'' req)) (\<lambda>i.
     with_user req (\<lambda>_.
     bind (markRefundCompleted env i bankReference) (\<lambda>r. return (sanitizeRefundForAdmin r)))))"

text \<open>payments-callback.controller.ts: the address of the redirect.\<close>

definition handlePaymentCallback :: "platform \<Rightarrow> pay_env \<Rightarrow> json \<Rightarrow> http_request \<Rightarrow> ('x sys_scheme, string) M" where
  "handlePaymentCallback pf env query req =
     bind (zod_run pf query (CallbackQuerySchema query)) (\<lambda>(Authority, Status).
     bind (checked_id payment_not_found (path_param ''paymentId'' req)) (\<lambda>i.
     bind (handleCallback env i Authority Status) (\<lambda>_.
       return (''/payment-result/'' @ int_to_string i))))"

section \<open>payouts.controller.ts\<close>

definition requestPayout :: "platform \<Rightarrow> env \<Rightarrow> http_request \<Rightarrow> ('x sys_scheme, json) M" where
  "requestPayout pf env req =
     bind (zod_run pf (rq_body req) (RequestPayoutSchema (rq_body req))) (\<lambda>(amount, bankAccount, accountHolder).
     with_user req (\<lambda>me.
     bind (request env \<lparr>pi_userId = me, pi_amount = amount, pi_bankAccount = bankAccount, pi_accountHolder = accountHolder\<rparr>)
       (\<lambda>p. return (payout_json p))))"

definition getMyPayouts :: "platform \<Rightarrow> json \<Rightarrow> http_request \<Rightarrow> ('x sys_scheme, json) M" where
  "getMyPayouts pf query req =
     bind (zod_run pf query (UserPageSchema query)) (\<lambda>(cursor, limit).
     with_user req (\<lambda>me. bind (limited limit (po_findForUser me cursor)) (\<lambda>page. return (page_json payout_json page))))"

definition cancelPayout :: "env \<Rightarrow> http_request \<Rightarrow> ('x sys_scheme, json) M" where
  "cancelPayout env req =
     bind (bare_id (path_param ''id'' req)) (\<lambda>i. with_user req (\<lambda>me.
     bind (cancel env i me) (\<lambda>p. return (payout_json p))))"

definition listPayouts :: "platform \<Rightarrow> json \<Rightarrow> ('x sys_scheme, json) M" where
  "listPayouts pf query =
     bind (zod_run pf query (AdminPageSchema payout_statuses ''userId'' query)) (\<lambda>(status, userId, cursor, limit).
     bind (limited limit (po_findForAdmin status userId cursor)) (\<lambda>page. return (page_json payout_json page)))"

definition approvePayout :: "env \<Rightarrow> http_request \<Rightarrow> ('x sys_scheme, json) M" where
  "approvePayout env req =
     bind (bare_id (path_param ''id'' req)) (\<lambda>i. with_user req (\<lambda>me.
     bind (approve env i me) (\<lambda>p. return (payout_json p))))"

definition rejectPayout :: "platform \<Rightarrow> env \<Rightarrow> http_request \<Rightarrow> ('x sys_scheme, json) M" where
  "rejectPayout pf env req =
     bind (zod_run pf (rq_body req) (RejectPayoutSchema (rq_body req))) (\<lambda>reason.
     bind (bare_id (path_param ''id'' req)) (\<lambda>i. with_user req (\<lambda>me.
     bind (reject env i me reason) (\<lambda>p. return (payout_json p)))))"

definition mark_paid :: "platform \<Rightarrow> env \<Rightarrow> http_request \<Rightarrow> ('x sys_scheme, json) M" where
  "mark_paid pf env req =
     bind (zod_run pf (rq_body req) (MarkPaidSchema (rq_body req))) (\<lambda>paymentReference.
     bind (bare_id (path_param ''id'' req)) (\<lambda>i. with_user req (\<lambda>me.
     bind (markPaid env i me paymentReference) (\<lambda>p. return (payout_json p)))))"

section \<open>wallets.controller.ts and ledger-admin.controller.ts\<close>

text \<open>The argument is what NestJS passes for the first parameter.\<close>

definition getMyWallet :: "http_request option \<Rightarrow> ('x sys_scheme, json) M" where
  "getMyWallet arg = (case arg of
       None \<Rightarrow> throw (JsError ''Cannot read properties of undefined'')
     | Some req \<Rightarrow> with_user req (\<lambda>me.
         bind (findByUserId me) (\<lambda>wallet.
         bind (findEntriesForWallet (w_id wallet) None 10) (\<lambda>page.
           return (JObj [(''balance'', JBig (w_balance wallet)), (''recentEntries'', JArr (map entry_json (items page)))])))))"

definition getMyWalletEntries :: "platform \<Rightarrow> json \<Rightarrow> http_request option \<Rightarrow> ('x sys_scheme, json) M" where
  "getMyWalletEntries pf query arg =
     bind (zod_run pf query (UserPageSchema query)) (\<lambda>(cursor, limit).
     (case arg of
       None \<Rightarrow> throw (JsError ''Cannot read properties of undefined'')
     | Some req \<Rightarrow> with_user req (\<lambda>me.
         bind (findByUserId me) (\<lambda>wallet.
         bind (limited limit (findEntriesForWallet (w_id wallet) cursor)) (\<lambda>page. return (page_json entry_json page))))))"

definition getAdminWallet :: "http_request \<Rightarrow> ('x sys_scheme, json) M" where
  "getAdminWallet req =
     bind (bare_id (path_param ''userId'' req)) (\<lambda>userId.
     bind (findByUserIdForAdmin userId) (\<lambda>wallet.
     bind (findEntriesForWallet (w_id wallet) None 50) (\<lambda>page.
       return (JObj [(''balance'', JBig (w_balance wallet)), (''entries'', JArr (map entry_json (items page))),
         (''hasMore'', JBool (hasMore page))]))))"

text \<open>LIMIT of a NaN or below zero is an error of the raw query; LIMIT 0 counts as exceeded.\<close>

definition reconciliation :: "platform \<Rightarrow> json \<Rightarrow> ('x sys_scheme, json) M" where
  "reconciliation pf query =
     bind (zod_run pf query (ReconciliationQuerySchema query)) (\<lambda>limit. (case limit of
       None \<Rightarrow> throw (PrismaKnown ''P2010'' JUndefined)
     | Some l \<Rightarrow>
         if l < - 1 then throw (PrismaKnown ''P2010'' JUndefined)
         else if l = - 1 then return (report_json (JNum (- 1)) \<lparr>rp_items = [], rp_totalWallets = 0, rp_walletsWithDrift = 0,
             rp_totalStoredBalance = 0, rp_totalComputedBalance = 0, rp_cappedAt = None\<rparr>)
         else bind (reconciliationReport (Some (nat l))) (\<lambda>rep.
           return (report_json (case rp_cappedAt rep of None \<Rightarrow> JNull | Some n \<Rightarrow> JNum (int n)) rep))))"

definition aggregate_json :: "aggregate_row \<Rightarrow> json" where
  "aggregate_json r = JObj [(''date'', json_date (Some (ag_date r * day_ms))), (''credits'', JBig (ag_credits r)),
     (''debits'', JBig (ag_debits r)), (''netFlow'', JBig (ag_netFlow r)), (''entryCount'', JBig (int (ag_entryCount r)))]"

definition get_aggregates :: "platform \<Rightarrow> json \<Rightarrow> ('x sys_scheme, json) M" where
  "get_aggregates pf query =
     bind (zod_run pf query (AggregatesQuerySchema query)) (\<lambda>days. (case days of
       None \<Rightarrow> throw (PrismaKnown ''P2010'' JUndefined)
     | Some d \<Rightarrow> bind (aggregates ledger_entries_columns (pf_now pf) (Some d)) (\<lambda>rs.
         return (JObj [(''data'', JArr (map aggregate_json rs))]))))"

section \<open>The routes\<close>

datatype money_route =
    InitiatePayment | MyPayments | MyPayment | PaymentStatus | AllPayments | RefundPayment | AllRefunds | CompleteRefund
  | PaymentCallback | RequestPayout | MyPayouts | CancelPayout | AllPayouts | ApprovePayout | RejectPayout | MarkPaid
  | MyWallet | MyWalletEntries | UserWallet | Reconciliation | Aggregates

abbreviation self_read :: string where
  "self_read \<equiv> ''users:read:profile_self''"

definition guarded :: decorators where
  "guarded = UseGuards [JwtAuthGuard, PermissionGuard]"

definition confirmed_admin :: "decorators \<Rightarrow> decorators" where
  "confirmed_admin = AdminOnly True (Some ''admin:approve:payout'')"

definition money_decorators :: "money_route \<Rightarrow> decorators" where
  "money_decorators r = (case r of
       InitiatePayment \<Rightarrow> RequirePermission self_read (Idempotent (Audit ''PAYMENT_INITIATED'' ''payment'' (Some ''paymentId'')
         (Some FromResponse) (HttpCode 201 guarded)))
     | MyPayments \<Rightarrow> RequirePermission self_read guarded
     | MyPayment \<Rightarrow> RequirePermission self_read guarded
     | PaymentStatus \<Rightarrow> RequirePermission self_read guarded
     | AllPayments \<Rightarrow> RequirePermission ''admin:read:payouts'' guarded
     | RefundPayment \<Rightarrow> confirmed_admin (Idempotent (Audit ''PAYMENT_REFUND_REQUESTED'' ''payment'' (Some ''paymentId'') None
         (HttpCode 201 guarded)))
     | AllRefunds \<Rightarrow> RequirePermission ''admin:read:payouts'' guarded
     | CompleteRefund \<Rightarrow> confirmed_admin (Audit ''PAYMENT_REFUND_COMPLETED'' ''refund'' (Some ''id'') None guarded)
     | PaymentCallback \<Rightarrow> Audit ''PAYMENT_CALLBACK_RECEIVED'' ''payment'' (Some ''paymentId'') None (UseGuards [])
     | RequestPayout \<Rightarrow> RequirePermission self_read (Audit ''PAYOUT_REQUESTED'' ''payout'' None None (HttpCode 201 guarded))
     | MyPayouts \<Rightarrow> RequirePermission self_read guarded
     | CancelPayout \<Rightarrow> RequirePermission self_read (Audit ''PAYOUT_CANCELLED'' ''payout'' (Some ''id'') None guarded)
     | AllPayouts \<Rightarrow> RequirePermission ''admin:read:payouts'' guarded
     | ApprovePayout \<Rightarrow> confirmed_admin (Audit ''PAYOUT_APPROVED'' ''payout'' (Some ''id'') None guarded)
     | RejectPayout \<Rightarrow> confirmed_admin (Audit ''PAYOUT_REJECTED'' ''payout'' (Some ''id'') None guarded)
     | MarkPaid \<Rightarrow> confirmed_admin (Audit ''PAYOUT_PAID'' ''payout'' (Some ''id'') None guarded)
     | MyWallet \<Rightarrow> RequirePermission self_read guarded
     | MyWalletEntries \<Rightarrow> RequirePermission self_read guarded
     | UserWallet \<Rightarrow> RequirePermission ''admin:read:users'' guarded
     | Reconciliation \<Rightarrow> RequirePermission ''admin:read:audit_log'' guarded
     | Aggregates \<Rightarrow> RequirePermission ''admin:read:audit_log'' guarded)"

definition money_handler :: "platform \<Rightarrow> pay_env \<Rightarrow> money_route \<Rightarrow> json \<Rightarrow> http_request \<Rightarrow> ('x sys_scheme, json) M" where
  "money_handler pf env r query req = (case r of
       InitiatePayment \<Rightarrow> initiatePayment pf env req
     | MyPayments \<Rightarrow> getMyPayments pf query req
     | MyPayment \<Rightarrow> getMyPayment req
     | PaymentStatus \<Rightarrow> get_payment_status req
     | AllPayments \<Rightarrow> listPayments pf query
     | RefundPayment \<Rightarrow> refundPayment pf env req
     | AllRefunds \<Rightarrow> listRefunds pf query
     | CompleteRefund \<Rightarrow> mark_refund_completed pf env req
     | PaymentCallback \<Rightarrow> bind (handlePaymentCallback pf env query req) (\<lambda>_. return JUndefined)
     | RequestPayout \<Rightarrow> requestPayout pf (pay_base env) req
     | MyPayouts \<Rightarrow> getMyPayouts pf query req
     | CancelPayout \<Rightarrow> cancelPayout (pay_base env) req
     | AllPayouts \<Rightarrow> listPayouts pf query
     | ApprovePayout \<Rightarrow> approvePayout (pay_base env) req
     | RejectPayout \<Rightarrow> rejectPayout pf (pay_base env) req
     | MarkPaid \<Rightarrow> mark_paid pf (pay_base env) req
     | MyWallet \<Rightarrow> getMyWallet None
     | MyWalletEntries \<Rightarrow> getMyWalletEntries pf query None
     | UserWallet \<Rightarrow> getAdminWallet req
     | Reconciliation \<Rightarrow> reconciliation pf query
     | Aggregates \<Rightarrow> get_aggregates pf query)"

definition serve_money_route :: "platform \<Rightarrow> string list \<Rightarrow> pay_env \<Rightarrow> money_route \<Rightarrow> json \<Rightarrow> http_request \<Rightarrow> ('x sys_scheme, json) M" where
  "serve_money_route pf uuids env r query req =
     serve_route pf uuids (route_of (money_decorators r)) req (money_handler pf env r query)"

section \<open>The books under HTTP requests\<close>

lemma keeps_payouts_dispatch: "keeps (\<lambda>s. payout_requests s = T) (dispatch b u ty pl chs)"
  by (rule keeps_dispatch) (simp add: same_books_fields)

lemma keeps_payouts_findOrCreate: "keeps (\<lambda>s. payout_requests s = T) (findOrCreateForUser u)"
  unfolding findOrCreateForUser_def by (intro keeps_intros keeps_create_in) simp

lemma keeps_payouts_credit: "keeps (\<lambda>s. payout_requests s = T) (credit b i)"
  by (rule keeps_wpI, rule wp_mono [OF wp_credit]) (auto dest: posted_others)

lemma keeps_payouts_debit: "keeps (\<lambda>s. payout_requests s = T) (debit b i)"
  by (rule keeps_wpI, rule wp_mono [OF wp_debit]) (auto dest: posted_others)

lemmas keeps_payouts = keeps_payouts_dispatch keeps_payouts_findOrCreate keeps_payouts_credit
  keeps_payouts_debit

lemma keeps_payouts_pay: "keeps (\<lambda>s. payout_requests s = T) (run_pay env op)"
  by (cases op)
     (auto simp: run_pay_def initiate_def validatePurpose_def handleCallback_def reconcile_def
        payment_update_def refund_def absorbRefund_def probeRefund_def markRefundCompleted_def Let_def
      intro!: keeps_intros keeps_payouts keeps_create_in keeps_update_in split: sum.splits)

lemma keeps_fine_pay: "keeps fine (run_pay env op)"
  unfolding keeps_def
proof (intro allI impI)
  fix s :: "'x sys_scheme" assume s: "fine s"
  have "pay_ok (snd (run_pay env op s))"
    by (rule keepsD [OF keeps_run_pay]) (use s in \<open>simp add: fine_def\<close>)
  moreover have "payout_requests (snd (run_pay env op s)) = payout_requests s"
    by (rule keepsD [OF keeps_payouts_pay]) simp
  ultimately show "fine (snd (run_pay env op s))" using s by (simp add: fine_def payouts_ok_def)
qed

lemma keeps_fine_payout: "keeps fine (run_payout env op)"
  using run_payout_lawful by (auto simp: keeps_def lawful_def)

lemma keeps_seq_unit: "keeps P (seq m (return ())) = keeps P m"
proof -
  have "snd (seq m (return ()) s) = snd (m s)" for s
    by (cases "m s") (auto simp: seq_def bind_def return_def split: sum.splits)
  then show ?thesis by (simp add: keeps_def)
qed

lemma keeps_fine_services:
  "keeps fine (initiate env i)" "keeps fine (handleCallback env j ref st)" "keeps fine (refund env ri)"
  "keeps fine (markRefundCompleted env j ref)" "keeps fine (request b pinput)" "keeps fine (approve b j k)"
  "keeps fine (reject b j k t)" "keeps fine (markPaid b j k t)" "keeps fine (cancel b j k)"
  using keeps_fine_pay [of env "PInitiate i"] keeps_fine_pay [of env "PCallback j ref st"]
    keeps_fine_pay [of env "PRefund ri"] keeps_fine_pay [of env "PMarkRefund j ref"]
    keeps_fine_payout [of b "PoRequest pinput"] keeps_fine_payout [of b "PoApprove j k"]
    keeps_fine_payout [of b "PoReject j k t"] keeps_fine_payout [of b "PoMarkPaid j k t"]
    keeps_fine_payout [of b "PoCancel j k"]
  by (simp_all add: run_pay_def run_payout_def keeps_seq_unit)

lemma keeps_reads:
  "keeps P (pay_findForUser a b c)" "keeps P (findById i v)" "keeps P (pay_findForAdmin d e b c)"
  "keeps P (findRefundsForAdmin f e b c)" "keeps P (po_findForUser a b c)" "keeps P (po_findForAdmin g e b c)"
  "keeps P (findByUserId a)" "keeps P (findByUserIdForAdmin a)" "keeps P (findEntriesForWallet a b c)"
  "keeps P (reconciliationReport h)" "keeps P (aggregates k now days)"
  by (auto simp: pay_findForUser_def findById_def pay_findForAdmin_def findRefundsForAdmin_def po_findForUser_def
      po_findForAdmin_def findByUserId_def findByUserIdForAdmin_def findEntriesForWallet_def reconciliationReport_def
      aggregates_def Let_def intro!: keeps_intros)

lemmas handler_defs = initiatePayment_def getMyPayments_def getMyPayment_def get_payment_status_def listPayments_def
  refundPayment_def listRefunds_def mark_refund_completed_def handlePaymentCallback_def requestPayout_def
  getMyPayouts_def cancelPayout_def listPayouts_def approvePayout_def rejectPayout_def mark_paid_def
  getMyWallet_def getMyWalletEntries_def getAdminWallet_def reconciliation_def get_aggregates_def

lemma keeps_fine_handler: "keeps fine (money_handler pf env r query req)"
  by (cases r)
     (auto simp: money_handler_def handler_defs intro!: keeps_intros keeps_reads keeps_fine_services split: option.splits)

lemma off_log_fine: "off_log fine"
  by (simp add: off_log_def fine_def pay_ok_def books_ok_def payouts_ok_def)

section \<open>The confirmation header\<close>

lemma money_handler_header: "money_handler pf env r query (with_header k v req) = money_handler pf env r query req"
  by (cases r) (simp_all add: money_handler_def handler_defs with_user_def path_param_def with_header_simps)

lemma no_confirm_guard: "\<not> rt_confirm (route_of (money_decorators r))"
  by (cases r) (simp_all add: money_decorators_def guarded_def confirmed_admin_def decorator_defs route_of_def)

text \<open>C25. header.\<close>

theorem confirm_header_ignored:
  "list_all (\<lambda>r. dc_confirmHeader (money_decorators r)) [RefundPayment, CompleteRefund, ApprovePayout, RejectPayout, MarkPaid] \<and>
   serve_money_route pf uuids env r query (with_header ''x-admin-confirm'' v req) s = serve_money_route pf uuids env r query req s"
proof -
  have "serve_money_route pf uuids env r query (with_header ''x-admin-confirm'' v req) = serve_money_route pf uuids env r query req"
    unfolding serve_money_route_def by (rule confirm_header_unread) (rule no_confirm_guard money_handler_header)+
  then have "serve_money_route pf uuids env r query (with_header ''x-admin-confirm'' v req) s = serve_money_route pf uuids env r query req s"
    by (rule fun_cong)
  moreover have "list_all (\<lambda>r. dc_confirmHeader (money_decorators r)) [RefundPayment, CompleteRefund, ApprovePayout, RejectPayout, MarkPaid]"
    by (simp add: money_decorators_def guarded_def confirmed_admin_def decorator_defs)
  ultimately show ?thesis by (rule conjI [rotated])
qed

section \<open>Wallets\<close>

text \<open>Computations that never return normally.\<close>

definition fails :: "('s, 'a) M \<Rightarrow> bool" where
  "fails m \<longleftrightarrow> (\<forall>s. wp m (\<lambda>_ _. False) (\<lambda>_ _. True) s)"

lemma fails_error: "fails m \<Longrightarrow> \<exists>e. fst (m s) = Inl e"
  by (simp add: fails_def wp_def) (metis (mono_tags, lifting) prod.case_eq_if old.sum.simps(6) sum.exhaust)

lemma fails_throw: "fails (throw e)"
  by (simp add: fails_def wp_throw)

lemma fails_first: "fails m \<Longrightarrow> fails (bind m f)"
  unfolding fails_def wp_bind by (auto intro: wp_mono)

lemma fails_second:
  assumes "\<And>x. fails (f x)"
  shows "fails (bind m f)"
proof -
  have t: "wp m (\<lambda>_ _. True) (\<lambda>_ _. True) s" for s
    by (simp add: wp_def split: prod.split sum.split)
  show ?thesis unfolding fails_def wp_bind
    by (intro allI, rule wp_mono [OF t]) (use assms in \<open>simp_all add: fails_def\<close>)
qed

lemma fails_serve_route:
  assumes "\<And>r. fails (handler r)" "\<not> rt_idempotent rt" "rt_audit rt = None"
  shows "fails (serve_route pf uuids rt req handler)"
proof -
  have "fails (audit_intercept sha now (rt_audit rt) r (bind (idempotent_call sha now (rt_idempotent rt) code r
      (bind (handler r) (\<lambda>x. return (wrapResponse x)))) (\<lambda>(status, body). return body)))" for sha now code r
    using assms by (auto simp: audit_intercept_def idempotent_call_def intro!: fails_first)
  then show ?thesis
    unfolding serve_route_def seq_def by (auto intro!: fails_second fails_throw split: option.split)
qed

lemma wallet_handlers_fail: "fails (money_handler pf env MyWallet query r)" "fails (money_handler pf env MyWalletEntries query r)"
  by (auto simp: money_handler_def getMyWallet_def getMyWalletEntries_def intro!: fails_throw fails_second)

text \<open>wallets.\<close>

theorem wallet_routes_always_fail:
  "(\<exists>e. fst (serve_money_route pf uuids env MyWallet query req s) = Inl e) \<and>
   (\<exists>e. fst (serve_money_route pf uuids env MyWalletEntries query req s) = Inl e) \<and>
   (\<exists>e. fst (money_handler pf env MyWallet query req s) = Inl e \<and> fst (catchException show_json text production e) = 500)"
proof -
  have "fails (serve_money_route pf uuids env r query req)" if "r = MyWallet \<or> r = MyWalletEntries" for r
    unfolding serve_money_route_def
    by (rule fails_serve_route)
       (use that wallet_handlers_fail in \<open>auto simp: money_decorators_def guarded_def decorator_defs route_of_def\<close>)
  then show ?thesis
    by (auto intro!: fails_error)
       (simp add: money_handler_def getMyWallet_def throw_def catchException_def mapException_def mapUnknownError_def)
qed

section \<open>Malformed ids\<close>

text \<open>ids.\<close>

theorem malformed_id_answers:
  assumes "js_BigInt raw = None"
    and "jget (rq_params req) ''id'' = JStr raw" "jget (rq_params req) ''paymentId'' = JStr raw" "jget (rq_params req) ''userId'' = JStr raw"
    and "RefundRequestSchema (rq_body req) = valid rf" "MarkRefundCompletedSchema (rq_body req) = valid bank"
      "RejectPayoutSchema (rq_body req) = valid reason" "MarkPaidSchema (rq_body req) = valid reference"
      "CallbackQuerySchema query = valid cb"
  shows "list_all (\<lambda>r. fst (money_handler pf env r query req s) = Inl bigint_error)
       [MyPayment, CancelPayout, ApprovePayout, RejectPayout, MarkPaid, UserWallet] \<and>
     fst (catchException show_json text production bigint_error) = 500 \<and>
     list_all (\<lambda>r. \<exists>e. fst (money_handler pf env r query req s) = Inl e \<and> fst (catchException show_json text production e) = 404)
       [PaymentStatus, RefundPayment, CompleteRefund, PaymentCallback]"
  using assms
  by (auto simp: money_handler_def handler_defs path_param_def bare_id_def checked_id_def bind_def throw_def return_def
      zod_run_def valid_def catchException_def mapException_def mapUnknownError_def bigint_error_def payment_not_found_def
      http_exn_def mapHttpException_def split: prod.splits)

definition sample_money_body :: json where
  "sample_money_body = JObj [(''reason'', JStr ''returned goods''), (''bankReference'', JStr ''B1''), (''paymentReference'', JStr ''P1'')]"

definition sample_money_call :: "string \<Rightarrow> http_request" where
  "sample_money_call raw = (sample_call ''1'')\<lparr>rq_params := [(''id'', JStr raw), (''paymentId'', JStr raw), (''userId'', JStr raw)],
     rq_body := sample_money_body, rq_user := Some 1\<rparr>"

definition sample_callback_query :: json where
  "sample_callback_query = JObj [(''Authority'', JStr ''A1''), (''Status'', JStr ''OK'')]"

lemma malformed_id_answers_witness:
  "fst (money_handler sample_platform sample_pay_env MyPayment sample_callback_query (sample_money_call ''abc'') sample_sys) = Inl bigint_error"
proof -
  let ?r = "sample_money_call ''abc''"
  have b: "js_BigInt ''abc'' = None" by code_simp
  have p: "jget (rq_params ?r) ''id'' = JStr ''abc''" "jget (rq_params ?r) ''paymentId'' = JStr ''abc''" "jget (rq_params ?r) ''userId'' = JStr ''abc''"
    by (simp_all add: sample_money_call_def jget_def)
  have d: "rq_body ?r = sample_money_body" by (simp add: sample_money_call_def)
  have v: "RefundRequestSchema (rq_body ?r) = valid (None, ''returned goods'')" "MarkRefundCompletedSchema (rq_body ?r) = valid ''B1''"
    "RejectPayoutSchema (rq_body ?r) = valid ''returned goods''" "MarkPaidSchema (rq_body ?r) = valid ''P1''"
    "CallbackQuerySchema sample_callback_query = valid (''A1'', P_OK)"
    unfolding d by code_simp+
  from malformed_id_answers [OF b p v, of sample_platform sample_pay_env sample_sys] show ?thesis by simp
qed

section \<open>Limits\<close>

lemma UserPage_limit:
  assumes "UserPageSchema (JObj q) = Inr (Some (cursor, limit))" "jget q ''limit'' = JStr t"
  shows "limit = map_option (min 50) (parseInt t)"
proof -
  have "zlimit (jget q ''limit'') = valid (capped 50 ''20'' (Some t))"
    by (simp add: assms(2) zlimit_def zmap_def zoptional_def zstring_def valid_def)
  then show ?thesis
    using assms(1) by (auto simp: UserPageSchema_def zobject_def zboth_def valid_def capped_def split: sum.splits option.splits)
qed

text \<open>limits.\<close>

theorem payment_page_limits:
  assumes "UserPageSchema (JObj q) = Inr (Some (cursor, limit))" "jget q ''limit'' = JStr t" "rq_user req = Some me"
    and "- (2 ^ 31) \<le> (case parseInt t of Some n \<Rightarrow> n | None \<Rightarrow> 0)"
  shows "fst (getMyPayments pf (JObj q) req s) = (case parseInt t of
      None \<Rightarrow> Inl prisma_invalid
    | Some n \<Rightarrow> Inr (page_response user_payment_json (Some (min 50 n))
        (if n < 0 then no_page
         else paginate pay_id cursor (nat (min 50 n)) (t_filter (\<lambda>p. pay_userId p = me) (payments s)))))"
  using assms(3,4)
  by (auto simp: getMyPayments_def zod_run_def assms(1) UserPage_limit [OF assms(1,2)] with_user_def limited_def
      pay_findForUser_def run_simps split: option.splits)

lemma payment_page_limits_witness:
  "fst (getMyPayments sample_platform (JObj [(''limit'', JStr ''-3'')]) (sample_money_call ''1'') sample_sys) =
     Inr (page_response user_payment_json (Some (- 3)) no_page)"
proof -
  have p: "parseInt ''-3'' = Some (- 3)" by code_simp
  have "UserPageSchema (JObj [(''limit'', JStr ''-3'')]) = Inr (Some (None, Some (- 3)))" by code_simp
  from payment_page_limits [OF this, of "''-3''" "sample_money_call ''1''" 1 sample_platform sample_sys]
  show ?thesis by (simp add: p jget_def sample_money_call_def)
qed

end
