(* ===== verification/Callers.thy ===== *)
theory Callers
  imports Routes
begin

text \<open>
  What the pipeline of Access says about the caller of a guarded route: the subject of its token, on
  whose behalf alone the handler runs; and what the guards do not look at.  MoneyAccess and
  ShopAccess build on these lemmas.
\<close>

section \<open>The caller\<close>

text \<open>The subject of the token that the JWT guard accepts.\<close>

definition caller :: "platform \<Rightarrow> http_request \<Rightarrow> int option" where
  "caller pf req = (case extractToken req of
       None \<Rightarrow> None
     | Some token \<Rightarrow> (case pf_verify pf (pf_now pf) token of None \<Rightarrow> None | Some payload \<Rightarrow> coerce_bigint (jget payload ''sub'')))"

lemma jwt_guard_caller: "jwt_guard pf req s = (Inr req1, t) \<Longrightarrow> rq_user req1 = caller pf req \<and> caller pf req \<noteq> None"
  by (auto simp: jwt_guard_def caller_def nonempty_def run_simps split: option.splits sum.splits if_splits)

lemma keeps_bind_result:
  assumes "keeps P m" "\<And>s x t. m s = (Inr x, t) \<Longrightarrow> keeps P (f x)"
  shows "keeps P (bind m f)"
  unfolding keeps_def
proof (intro allI impI)
  fix s assume s: "P s"
  obtain r t where m: "m s = (r, t)" by (cases "m s")
  have t: "P t" using keepsD [OF assms(1) s] m by simp
  show "P (snd (bind m f s))"
    using m t by (auto simp: bind_def split: sum.splits intro: keepsD [OF assms(2)])
qed

text \<open>A guarded route keeps what its handler keeps on behalf of the caller.\<close>

lemma keeps_serve_caller:
  assumes "off_log P" "rt_auth rt" "\<And>req'. rq_user req' = caller pf req \<Longrightarrow> caller pf req \<noteq> None \<Longrightarrow> keeps P (handler req')"
  shows "keeps P (serve_route pf uuids rt req handler)"
proof -
  have j: "keeps P (jwt_guard pf req)" by (simp add: keeps_def jwt_guard_state)
  have p: "keeps P (permission_guard c r)" for c r
    by (auto simp: keeps_def permission_guard_run split: option.splits)
  have c: "keeps P (admin_confirm_guard b r)" for b r
    by (simp add: admin_confirm_guard_def keeps_intros)
  have rest: "keeps P (seq (permission_guard (rt_permission rt) r) (seq (admin_confirm_guard (rt_confirm rt) r)
      (audit_intercept (pf_sha256 pf) (pf_now pf) (rt_audit rt) r (bind (idempotent_call (pf_sha256 pf) (pf_now pf) (rt_idempotent rt) (rt_httpCode rt) r
        (bind (handler r) (\<lambda>x. return (wrapResponse x)))) (\<lambda>(status, body). return body)))))"
    if "jwt_guard pf req s = (Inr r, t)" for r s t
    by (intro keeps_intros p c keeps_audit_intercept keeps_idempotent assms(1) assms(3)) (use jwt_guard_caller [OF that] in simp_all)
  show ?thesis unfolding serve_route_def
    by (intro keeps_bind off_log_keeps_redis [OF assms(1) keeps_rate_limit_guard])
       (auto simp: assms(2) intro!: keeps_intros keeps_bind_result j rest)
qed

text \<open>A route without guards hands the request to its handler as it came.\<close>

lemma bind_return [simp]: "bind (return x) f = f x"
  by (simp add: bind_def return_def fun_eq_iff)

lemma keeps_serve_open:
  assumes "off_log P" "\<not> rt_auth rt" "keeps P (handler req)"
  shows "keeps P (serve_route pf uuids rt req handler)"
proof -
  have p: "keeps P (permission_guard c r)" for c r
    by (auto simp: keeps_def permission_guard_run split: option.splits)
  have c: "keeps P (admin_confirm_guard b r)" for b r
    by (simp add: admin_confirm_guard_def keeps_intros)
  show ?thesis
    unfolding serve_route_def if_not_P [OF assms(2)] bind_return
    by (intro keeps_intros p c keeps_audit_intercept keeps_idempotent assms(1,3) off_log_keeps_redis [OF assms(1) keeps_rate_limit_guard])
qed

section \<open>What the guards do not see\<close>

text \<open>A computation is blind to a change of the state if it commutes with it.\<close>

definition blind :: "('s \<Rightarrow> 's) \<Rightarrow> ('s, 'a) M \<Rightarrow> bool" where
  "blind f m \<longleftrightarrow> (\<forall>s. m (f s) = (fst (m s), f (snd (m s))))"

named_theorems blind_intros

lemma blind_return [blind_intros]: "blind f (return x)"
  by (simp add: blind_def return_def)

lemma blind_throw [blind_intros]: "blind f (throw e)"
  by (simp add: blind_def throw_def)

lemma blind_gets: "(\<And>s. g (f s) = g s) \<Longrightarrow> blind f (gets g)"
  by (simp add: blind_def gets_def)

lemma blind_modify: "(\<And>s. g (f s) = f (g s)) \<Longrightarrow> blind f (modify g)"
  by (simp add: blind_def modify_def)

lemma blind_bind [blind_intros]:
  assumes "blind f m" "\<And>x. blind f (n x)"
  shows "blind f (bind m n)"
  using assms by (auto simp: blind_def bind_def split: sum.splits prod.splits)

lemma blind_seq [blind_intros]: "blind f m \<Longrightarrow> blind f n \<Longrightarrow> blind f (seq m n)"
  by (simp add: seq_def blind_bind)

text \<open>Changes that leave alone what the guards read.\<close>

definition off_guards :: "('x sys_scheme \<Rightarrow> 'x sys_scheme) \<Rightarrow> bool" where
  "off_guards f \<longleftrightarrow> (\<forall>s. redis_store (f s) = redis_store s \<and> impersonations (f s) = impersonations s \<and> user_roles (f s) = user_roles s \<and>
     role_permissions (f s) = role_permissions s \<and> permissions (f s) = permissions s) \<and>
     (\<forall>s g. f (redis_store_update g s) = redis_store_update g (f s))"

lemma blind_sliding_window:
  assumes "off_guards f"
  shows "blind f (sliding_window key now w limit member)"
  unfolding sliding_window_def Let_def
  using assms by (auto simp: off_guards_def zset_of_def intro!: blind_intros blind_gets blind_modify split: option.split list.split)

lemma blind_run_checks: "off_guards f \<Longrightarrow> blind f (run_checks now uuids checks best)"
  by (induction checks arbitrary: uuids best)
     (auto simp: runCheck_def Let_def intro!: blind_intros blind_sliding_window)

lemma blind_guards:
  assumes "off_guards f"
  shows "blind f (rate_limit_guard now uuids profile ip u)" "blind f (jwt_guard pf req)"
    "blind f (permission_guard c req)" "blind f (admin_confirm_guard b req)"
proof -
  show "blind f (rate_limit_guard now uuids profile ip u)"
    unfolding rate_limit_guard_def by (auto intro!: blind_intros blind_run_checks assms split: sum.split)
  show "blind f (jwt_guard pf req)"
    unfolding jwt_guard_def
    by (auto intro!: blind_intros blind_gets split: option.split sum.split) (use assms in \<open>simp_all add: off_guards_def imp_active_def\<close>)
  show "blind f (permission_guard c req)"
    unfolding permission_guard_def userHasPermission_def
    by (auto intro!: blind_intros blind_gets split: option.split) (use assms in \<open>simp_all add: off_guards_def role_grants_def\<close>)
  show "blind f (admin_confirm_guard b req)"
    unfolding admin_confirm_guard_def by (auto intro!: blind_intros)
qed

lemma blind_fst_bind:
  assumes "blind f m" "\<And>x t. m s = (Inr x, t) \<Longrightarrow> fst (n x (f t)) = fst (n x t)"
  shows "fst (bind m n (f s)) = fst (bind m n s)"
  using assms by (auto simp: blind_def bind_def split: sum.splits prod.splits)

text \<open>The answer of a guarded read does not depend on what its handler, run for the caller, does not
  depend on.  The guards change only Redis.\<close>

lemma read_route_blind:
  assumes "off_guards f" "rt_auth rt" "rt_audit rt = None" "\<not> rt_idempotent rt"
    and "\<And>req' t. rq_user req' = caller pf req \<Longrightarrow> caller pf req \<noteq> None \<Longrightarrow> but_redis t = but_redis s \<Longrightarrow> fst (handler req' (f t)) = fst (handler req' t)"
  shows "fst (serve_route pf uuids rt req handler (f s)) = fst (serve_route pf uuids rt req handler s)"
proof -
  let ?rest = "\<lambda>r. audit_intercept (pf_sha256 pf) (pf_now pf) (rt_audit rt) r
    (bind (idempotent_call (pf_sha256 pf) (pf_now pf) (rt_idempotent rt) (rt_httpCode rt) r
      (bind (handler r) (\<lambda>x. return (wrapResponse x)))) (\<lambda>(status, body). return body))"
  have rest: "fst (?rest r (f t)) = fst (?rest r t)" if "fst (handler r (f t)) = fst (handler r t)" for r t
    using that assms(3,4) by (auto simp: audit_intercept_def idempotent_call_def bind_def return_def Let_def split: sum.splits prod.splits)
  show ?thesis
    unfolding serve_route_def
  proof (rule blind_fst_bind [OF blind_guards(1) [OF assms(1)]])
    fix v t assume v: "rate_limit_guard (pf_now pf) uuids (rt_rateLimit rt) (rq_ip req) None s = (Inr v, t)"
    have t: "but_redis t = but_redis s"
      using keepsD [OF keeps_rate_limit_guard, of s "but_redis s" "pf_now pf" uuids "rt_rateLimit rt" "rq_ip req" None] v by simp
    show "fst ((case vd_refusal v of Some e \<Rightarrow> throw e | None \<Rightarrow> bind (if rt_auth rt then jwt_guard pf req else return req) (\<lambda>req1.
        seq (permission_guard (rt_permission rt) req1) (seq (admin_confirm_guard (rt_confirm rt) req1) (?rest req1)))) (f t)) =
      fst ((case vd_refusal v of Some e \<Rightarrow> throw e | None \<Rightarrow> bind (if rt_auth rt then jwt_guard pf req else return req) (\<lambda>req1.
        seq (permission_guard (rt_permission rt) req1) (seq (admin_confirm_guard (rt_confirm rt) req1) (?rest req1)))) t)"
    proof (cases "vd_refusal v")
      case None
      have g: "fst (bind (jwt_guard pf req) (\<lambda>req1. seq (permission_guard (rt_permission rt) req1)
          (seq (admin_confirm_guard (rt_confirm rt) req1) (?rest req1))) (f t)) =
        fst (bind (jwt_guard pf req) (\<lambda>req1. seq (permission_guard (rt_permission rt) req1)
          (seq (admin_confirm_guard (rt_confirm rt) req1) (?rest req1))) t)"
      proof (rule blind_fst_bind [OF blind_guards(2) [OF assms(1)]])
        fix r u assume j: "jwt_guard pf req t = (Inr r, u)"
        then have u: "u = t" using jwt_guard_state [of pf req t] by simp
        have h: "fst (?rest r (f t)) = fst (?rest r t)"
          by (rule rest, rule assms(5)) (use jwt_guard_caller [OF j] t in simp_all)
        have p: "snd (permission_guard (rt_permission rt) r t) = t" by (auto simp: permission_guard_run split: option.splits)
        have c: "snd (admin_confirm_guard (rt_confirm rt) r t) = t" by (auto simp: admin_confirm_guard_def throw_def return_def)
        show "fst (seq (permission_guard (rt_permission rt) r) (seq (admin_confirm_guard (rt_confirm rt) r) (?rest r)) (f u)) =
            fst (seq (permission_guard (rt_permission rt) r) (seq (admin_confirm_guard (rt_confirm rt) r) (?rest r)) u)"
          unfolding seq_def u
        proof (rule blind_fst_bind [OF blind_guards(3) [OF assms(1)]], rule blind_fst_bind [OF blind_guards(4) [OF assms(1)]])
          fix x w y v assume "permission_guard (rt_permission rt) r t = (Inr x, w)" "admin_confirm_guard (rt_confirm rt) r w = (Inr y, v)"
          then have "v = t" using p c by simp
          then show "fst (?rest r (f v)) = fst (?rest r v)" using h by simp
        qed
      qed
      then show ?thesis using None assms(2) by simp
    qed (simp add: throw_def)
  qed
qed

section \<open>The rows of one user\<close>

text \<open>Writes to rows of others leave a selection alone.\<close>

lemma filter_insert: "\<not> P (f (next_id T)) \<Longrightarrow> t_filter P (t_insert f T) = t_filter P T"
  by (simp add: t_filter_def rows_t_insert)

lemma filter_change:
  assumes "wf_table k T" "t_get k i T = Some r" "\<not> P r" "\<And>r. P (g r) = P r"
  shows "t_filter P (t_change k i g T) = t_filter P T"
proof -
  have e: "x = r" if "x \<in> set (rows T)" "k x = i" for x
    using t_get_self [OF assms(1) that(1)] that(2) assms(2) by simp
  have "filter P (map (\<lambda>r. if k r = i then g r else r) xs) = filter P xs" if "set xs \<subseteq> set (rows T)" for xs
    using that by (induction xs) (use assms(3,4) e in auto)
  from this [of "rows T"] show ?thesis by (simp add: t_filter_def t_change_def t_update_def)
qed

lemma filter_delete: "(\<And>r. Q r \<Longrightarrow> \<not> P r) \<Longrightarrow> t_filter P (t_delete Q T) = t_filter P T"
  by (auto simp: t_filter_def t_delete_def intro: filter_cong)

end
