(* ===== verification/MoneyAccess.thy ===== *)
theory MoneyAccess
  imports MoneyRoutes Callers
begin

text \<open>
  Who can do what at the money routes: which requests change money at all, on whose behalf, and what
  a user's request can touch and learn.  Statements are about the whole passage of a request through
  rate limit, guards, interceptors and handler (serve_money_route).

  The lemmas show that only the callback of a payment, a signed-in user or an approver of payouts can
  change a balance, an entry, a payment, a refund or a payout; that a user's writes leave the rows of
  everybody else alone; and that the answers to a user's reads depend on the rows of that user only.
\<close>

section \<open>Which requests change money\<close>

definition money_tables :: "'x sys_scheme \<Rightarrow> wallet table \<times> ledger_entry table \<times> payment table \<times> refund_row table \<times> payout_request table" where
  "money_tables s = (wallets s, ledger_entries s, payments s, refunds s, payout_requests s)"

definition money_writes :: "string \<Rightarrow> money_route list" where
  "money_writes perm = (if perm = self_read then [InitiatePayment, RequestPayout, CancelPayout]
     else if perm = ''admin:approve:payout'' then [RefundPayment, CompleteRefund, ApprovePayout, RejectPayout, MarkPaid] else [])"

lemma off_log_money: "off_log (\<lambda>s. money_tables s = M)"
  by (simp add: off_log_def money_tables_def)

lemma keeps_money_reads:
  assumes "r \<notin> set (PaymentCallback # money_writes self_read @ money_writes ''admin:approve:payout'')"
  shows "keeps P (money_handler pf env r query req)"
  using assms
  by (cases r) (auto simp: money_writes_def money_handler_def handler_defs intro!: keeps_intros keeps_reads split: option.splits)

text \<open>C22. Whatever request reaches a money route: if it changes a balance, a ledger entry, a payment,
  a refund or a payout, then it was the callback of a payment; or the initiation of a payment, a payout
  request or a cancellation whose token names a user who may read his own profile; or a refund or the
  review of a payout whose token names a user who may approve payouts.  A user with the permission
  for everything may do both.\<close>

theorem money_changed_by_permitted:
  assumes "serve_money_route pf uuids env r query req s = (x, t)" "money_tables t \<noteq> money_tables s"
  shows "r = PaymentCallback \<or> (\<exists>perm u. r \<in> set (money_writes perm) \<and> caller pf req = Some u \<and> u \<noteq> 0 \<and>
    (holds s u perm \<or> holds s u ''super:everything''))"
proof -
  have w: "r \<in> set (PaymentCallback # money_writes self_read @ money_writes ''admin:approve:payout'')"
  proof (rule ccontr)
    assume n: "r \<notin> set (PaymentCallback # money_writes self_read @ money_writes ''admin:approve:payout'')"
    have "keeps (\<lambda>u. money_tables u = money_tables s) (serve_money_route pf uuids env r query req)"
      unfolding serve_money_route_def by (rule keeps_serve_route [OF off_log_money keeps_money_reads [OF n]])
    from keepsD [OF this refl] show False using assms by simp
  qed
  have b: "but_redis t \<noteq> but_redis s"
  proof
    assume "but_redis t = but_redis s"
    then show False using assms(2) off_log_redis [OF off_log_money, of t s "money_tables s"] by simp
  qed
  show ?thesis
  proof (cases "r = PaymentCallback")
    case False
    then obtain perm where perm: "r \<in> set (money_writes perm)" "perm \<in> {self_read, ''admin:approve:payout''}" using w by auto
    then have "rt_auth (route_of (money_decorators r))" "rt_permission (route_of (money_decorators r)) = Some perm" "perm \<noteq> []"
      by (auto simp: money_writes_def money_decorators_def guarded_def confirmed_admin_def decorator_defs route_of_def split: if_splits)
    from permission_barrier [OF this assms(1) [unfolded serve_money_route_def]] b
    obtain token payload u where "extractToken req = Some token" "pf_verify pf (pf_now pf) token = Some payload"
      "coerce_bigint (jget payload ''sub'') = Some u" "u \<noteq> 0" "holds s u perm \<or> holds s u ''super:everything''"
      by blast
    then show ?thesis using perm(1) by (auto simp: caller_def)
  qed simp
qed

text \<open>User 1 may act for himself.\<close>

definition sample_member :: sys where
  "sample_member = sample_sys\<lparr>
     roles := \<lparr>next_id = 2, rows = [\<lparr>r_id = 1, r_name = ''member'', r_persianName = [], r_isSystem = False\<rparr>]\<rparr>,
     permissions := \<lparr>next_id = 2, rows = [\<lparr>p_id = 1, p_code = self_read, p_description = None\<rparr>]\<rparr>,
     role_permissions := [(1, 1)], user_roles := [\<lparr>ur_userId = 1, ur_roleId = 1, ur_scope = JNull\<rparr>]\<rparr>"

definition sample_cancellation :: http_request where
  "sample_cancellation = (sample_call ''1'')\<lparr>rq_params := [(''id'', JStr ''1'')]\<rparr>"

lemma sample_caller: "caller sample_platform sample_cancellation = Some 1"
  by code_simp

lemma sample_cancelled:
  "map w_balance (rows (wallets (snd (serve_money_route sample_platform [''u''] sample_pay_env CancelPayout JUndefined sample_cancellation sample_member)))) =
     [100, 0]"
  by code_simp

lemma money_changed_by_permitted_witness:
  "caller sample_platform sample_cancellation = Some 1 \<and> holds sample_member 1 self_read \<and>
   map w_balance (rows (wallets (snd (serve_money_route sample_platform [''u''] sample_pay_env CancelPayout JUndefined sample_cancellation sample_member)))) =
     [100, 0]"
proof -
  let ?m = "serve_money_route sample_platform [''u''] sample_pay_env CancelPayout JUndefined sample_cancellation sample_member"
  have "money_tables (snd ?m) \<noteq> money_tables sample_member"
  proof
    assume "money_tables (snd ?m) = money_tables sample_member"
    then have "map w_balance (rows (wallets (snd ?m))) = map w_balance (rows (wallets sample_member))" by (simp add: money_tables_def)
    then show False unfolding sample_cancelled by (simp add: sample_member_def sample_sys_def)
  qed
  from money_changed_by_permitted [OF surjective_pairing this]
  obtain perm where "CancelPayout \<in> set (money_writes perm)"
      "holds sample_member 1 perm \<or> holds sample_member 1 ''super:everything''"
    unfolding sample_caller by auto
  moreover have "\<not> holds sample_member 1 ''super:everything''"
    by (simp add: holds_def has_role_def role_grants_def sample_member_def table_run)
  ultimately show ?thesis using sample_caller sample_cancelled by (auto simp: money_writes_def split: if_splits)
qed

section \<open>Whose wallet a payout came from\<close>

text \<open>The wallet of a payout is there and belongs to the user of the payout.  Every route keeps it.\<close>

definition payouts_owned :: "'x sys_scheme \<Rightarrow> bool" where
  "payouts_owned s \<longleftrightarrow> (\<forall>p \<in> set (rows (payout_requests s)). \<exists>w. t_get w_id (po_walletId p) (wallets s) = Some w \<and> w_userId w = po_userId p)"

definition owned_books :: "'x sys_scheme \<Rightarrow> bool" where
  "owned_books s \<longleftrightarrow> fine s \<and> payouts_owned s"

definition wallet_owners :: "(int \<times> int) set \<Rightarrow> 'x sys_scheme \<Rightarrow> bool" where
  "wallet_owners os s \<longleftrightarrow> wf_table w_id (wallets s) \<and> (\<forall>p \<in> os. \<exists>w. t_get w_id (fst p) (wallets s) = Some w \<and> w_userId w = snd p)"

lemma owned_fields: "wallets t = wallets s \<Longrightarrow> payout_requests t = payout_requests s \<Longrightarrow> payouts_owned t = payouts_owned s"
  by (simp add: payouts_owned_def)

lemma owners_tables [simp]:
  "wallet_owners os (payments_update f s) = wallet_owners os s" "wallet_owners os (refunds_update g s) = wallet_owners os s"
  by (simp_all add: wallet_owners_def)

lemma post_wallets_owner:
  "\<exists>v. t_get w_id j W = Some v \<and> w_userId v = u \<Longrightarrow> \<exists>v. t_get w_id j (post_wallets i nb W) = Some v \<and> w_userId v = u"
  by (auto simp: post_wallets_def t_get_change)

lemma owners_post: "wallet_owners os s \<Longrightarrow> wallet_owners os (post i nb f s)"
  by (auto simp: wallet_owners_def post_def post_wallets_def [symmetric] intro: post_wallets_owner)
     (simp add: post_wallets_def)

lemma owners_same_books: "wallet_owners os s \<Longrightarrow> same_books s t \<Longrightarrow> wallet_owners os t"
  by (simp add: wallet_owners_def same_books_fields)

lemma keeps_owners_services:
  "keeps (wallet_owners os) (dispatch b u ty pl chs)" "keeps (wallet_owners os) (findOrCreateForUser u)"
  "keeps (wallet_owners os) (credit b i)" "keeps (wallet_owners os) (debit b i)"
proof -
  show "keeps (wallet_owners os) (dispatch b u ty pl chs)"
    by (rule keeps_dispatch) (simp add: wallet_owners_def same_books_fields)
  show "keeps (wallet_owners os) (findOrCreateForUser u)"
    unfolding findOrCreateForUser_def
    by (intro keeps_intros keeps_create_in) (auto simp: wallet_owners_def tbl.create_other)
  show "keeps (wallet_owners os) (credit b i)"
    by (rule keeps_wpI, rule wp_mono [OF wp_credit]) (auto simp: posted_def intro: owners_same_books owners_post)
  show "keeps (wallet_owners os) (debit b i)"
    by (rule keeps_wpI, rule wp_mono [OF wp_debit]) (auto simp: posted_def intro: owners_same_books owners_post)
qed

lemma keeps_owners_pay: "keeps (wallet_owners os) (run_pay env op)"
  by (cases op)
     (auto simp: run_pay_def initiate_def validatePurpose_def handleCallback_def reconcile_def
        payment_update_def refund_def absorbRefund_def probeRefund_def markRefundCompleted_def Let_def
      intro!: keeps_intros keeps_owners_services keeps_create_in keeps_update_in split: sum.splits)

lemma owned_pairs: "wf_table w_id (wallets s) \<Longrightarrow>
    payouts_owned s \<longleftrightarrow> wallet_owners ((\<lambda>p. (po_walletId p, po_userId p)) ` set (rows (payout_requests s))) s"
  by (simp add: payouts_owned_def wallet_owners_def)

lemma owned_pay:
  assumes "owned_books s"
  shows "payouts_owned (snd (run_pay env op s))"
proof -
  let ?os = "(\<lambda>p. (po_walletId p, po_userId p)) ` set (rows (payout_requests s))"
  have w: "wf_table w_id (wallets s)" using assms by (simp add: owned_books_def fine_def pay_ok_def books_ok_def books_def)
  have "wallet_owners ?os (snd (run_pay env op s))"
    by (rule keepsD [OF keeps_owners_pay]) (use assms owned_pairs [OF w] in \<open>simp add: owned_books_def\<close>)
  moreover have "payout_requests (snd (run_pay env op s)) = payout_requests s"
    by (rule keepsD [OF keeps_payouts_pay]) simp
  ultimately show ?thesis by (simp add: payouts_owned_def wallet_owners_def)
qed

lemma owned_post: "payouts_owned s \<Longrightarrow> payouts_owned (post i nb f s)"
  by (auto simp: payouts_owned_def post_def intro!: post_wallets_owner)

lemma owned_change:
  assumes "payouts_owned s" "\<And>r. po_walletId (g r) = po_walletId r \<and> po_userId (g r) = po_userId r"
  shows "payouts_owned (payout_requests_update (t_change po_id i g) s)"
  using assms by (auto simp: payouts_owned_def t_change_def t_update_def)

lemma owned_same_books: "payouts_owned s \<Longrightarrow> same_books s t \<Longrightarrow> payouts_owned t"
  by (simp add: payouts_owned_def same_books_fields)

lemma owned_reviews:
  assumes "payouts_owned s"
  shows "wp (approve b i u) (\<lambda>_. payouts_owned) (\<lambda>_. payouts_owned) s" "wp (reject b i u reason) (\<lambda>_. payouts_owned) (\<lambda>_. payouts_owned) s"
    "wp (markPaid b i u ref) (\<lambda>_. payouts_owned) (\<lambda>_. payouts_owned) s" "wp (cancel b i u) (\<lambda>_. payouts_owned) (\<lambda>_. payouts_owned) s"
  using assms
  by (auto simp: approve_def approve_write_def reject_def reject_write_def markPaid_def cancel_def cancel_check_def cancel_write_def
      payout_update_def wp_eqs wp_release_tx Let_def split: option.splits
      intro!: wp_dispatch owned_post owned_change elim!: owned_same_books [rotated])

lemma found_wallet: "wf_table w_id (wallets s) \<Longrightarrow> wallet_findUnique u s = Some w \<Longrightarrow>
    t_get w_id (w_id w) (wallets s) = Some w \<and> w_userId w = u"
  by (auto simp: wallet_findUnique_def dest!: t_find_Some intro: t_get_self)

lemma owned_request:
  assumes "owned_books s"
  shows "wp (request b input) (\<lambda>_. payouts_owned) (\<lambda>_. payouts_owned) s"
proof -
  have s: "wf_table w_id (wallets s)" "payouts_owned s" using assms by (simp_all add: owned_books_def fine_def pay_ok_def books_ok_def books_def)
  have tx: "wp (transaction (request_tx (env_now b) input w)) (\<lambda>_. payouts_owned) (\<lambda>_. payouts_owned) s"
    if "wallet_findUnique (pi_userId input) s = Some w" for w
    using s found_wallet [OF s(1) that]
    by (auto simp: request_tx_def wp_eqs t_new_def entry_create_def Let_def payouts_owned_def rows_t_insert split: option.splits
        intro!: post_wallets_owner)
  show ?thesis
    using s by (auto simp: request_def wp_bind wp_seq wp_return wp_throw wp_findByUserId split: option.splits
             intro!: wp_mono [OF tx] wp_dispatch elim!: owned_same_books [rotated])
qed

lemma owned_fine: "owned_books s \<longleftrightarrow> fine s \<and> payouts_owned s"
  by (simp add: owned_books_def)

lemma wp_keeps_owned:
  fixes m :: "('x sys_scheme, 'a) M"
  assumes "keeps fine m" "\<And>s. owned_books s \<Longrightarrow> wp m (\<lambda>_. payouts_owned) (\<lambda>_. payouts_owned) s"
  shows "keeps owned_books m"
  unfolding keeps_def owned_fine
proof (intro allI impI)
  fix s :: "'x sys_scheme" assume s: "fine s \<and> payouts_owned s"
  then have "payouts_owned (snd (m s))" using assms(2) [of s] by (simp add: owned_fine wp_same)
  then show "fine (snd (m s)) \<and> payouts_owned (snd (m s))" using keepsD [OF assms(1)] s by blast
qed

lemma keeps_owned_services:
  "keeps owned_books (initiate env i)" "keeps owned_books (handleCallback env j ref st)" "keeps owned_books (refund env ri)"
  "keeps owned_books (markRefundCompleted env j ref)" "keeps owned_books (request b pinput)" "keeps owned_books (approve b j k)"
  "keeps owned_books (reject b j k w)" "keeps owned_books (markPaid b j k w)" "keeps owned_books (cancel b j k)"
proof -
  have pay: "keeps owned_books (run_pay env op)" for op
    by (rule wp_keeps_owned [OF keeps_fine_pay]) (simp add: wp_same owned_pay)
  show "keeps owned_books (initiate env i)" "keeps owned_books (handleCallback env j ref st)" "keeps owned_books (refund env ri)"
    "keeps owned_books (markRefundCompleted env j ref)"
    using pay [of "PInitiate i"] pay [of "PCallback j ref st"] pay [of "PRefund ri"] pay [of "PMarkRefund j ref"]
    by (simp_all add: run_pay_def keeps_seq_unit)
  show "keeps owned_books (request b pinput)" "keeps owned_books (approve b j k)" "keeps owned_books (reject b j k w)"
    "keeps owned_books (markPaid b j k w)" "keeps owned_books (cancel b j k)"
    by (rule wp_keeps_owned, rule keeps_fine_services, erule owned_request)
       (rule wp_keeps_owned, rule keeps_fine_services, simp add: owned_books_def owned_reviews)+
qed

lemma keeps_owned_handler: "keeps owned_books (money_handler pf env r query req)"
  by (cases r)
     (auto simp: money_handler_def handler_defs intro!: keeps_intros keeps_reads keeps_owned_services split: option.splits)

lemma off_log_owned: "off_log owned_books"
  using off_log_fine by (auto simp: off_log_def owned_books_def payouts_owned_def)

lemma keeps_owned_route: "keeps owned_books (serve_money_route pf uuids env r query req)"
  unfolding serve_money_route_def by (rule keeps_serve_route [OF off_log_owned keeps_owned_handler])

section \<open>The money of a user\<close>

definition money_of :: "int \<Rightarrow> 'x sys_scheme \<Rightarrow> payment list \<times> payout_request list \<times> wallet list \<times> ledger_entry list" where
  "money_of u s = (t_filter (\<lambda>p. pay_userId p = u) (payments s), t_filter (\<lambda>p. po_userId p = u) (payout_requests s),
     t_filter (\<lambda>w. w_userId w = u) (wallets s), t_filter (\<lambda>e. e_userId e = Some u) (ledger_entries s))"

lemma money_of_same_books: "same_books s t \<Longrightarrow> money_of u t = money_of u s"
  by (simp add: money_of_def same_books_fields)

lemma off_log_owned_money: "off_log (\<lambda>s. owned_books s \<and> money_of u s = M)"
  by (simp add: off_log_def owned_books_def payouts_owned_def fine_def pay_ok_def books_ok_def payouts_ok_def money_of_def)

lemma filter_post_wallets:
  assumes "wf_table w_id W" "t_get w_id i W = Some w" "w_userId w \<noteq> u"
  shows "t_filter (\<lambda>w. w_userId w = u) (post_wallets i nb W) = t_filter (\<lambda>w. w_userId w = u) W"
  unfolding post_wallets_def by (rule filter_change [OF assms(1,2)]) (use assms(3) in simp_all)

lemma owned_tables:
  "owned_books s \<Longrightarrow> wf_table w_id (wallets s)" "owned_books s \<Longrightarrow> wf_table pay_id (payments s)" "owned_books s \<Longrightarrow> wf_table po_id (payout_requests s)"
  by (simp_all add: owned_books_def fine_def pay_ok_def books_ok_def books_def payouts_ok_def)

lemma others_initiate:
  assumes "owned_books s" "ii_userId input \<noteq> them"
  shows "wp (initiate env input) (\<lambda>_ t. money_of them t = money_of them s) (\<lambda>_ t. money_of them t = money_of them s) s"
proof -
  have c: "t_filter (\<lambda>p. pay_userId p = them) (t_change pay_id (next_id T) g (t_insert f T)) = t_filter (\<lambda>p. pay_userId p = them) T"
    if "wf_table pay_id T" "\<And>i. pay_id (f i) = i" "\<And>i. pay_userId (f i) = ii_userId input" "\<And>r. pay_userId (g r) = pay_userId r"
    for T :: "payment table" and f g
  proof -
    have n: "pay_userId (f (next_id T)) \<noteq> them" using that(3) assms(2) by simp
    have "t_get pay_id (next_id T) (t_insert f T) = Some (f (next_id T))" by (simp add: t_get_insert [of pay_id T f, OF that(1,2)])
    from filter_change [OF wf_t_insert [OF that(1,2)] this, of "\<lambda>p. pay_userId p = them" g] show ?thesis
      using n that(4) by (simp add: filter_insert)
  qed
  show ?thesis
    using assms owned_tables(2) [OF assms(1)]
    by (auto simp: initiate_def validatePurpose_def payment_update_def wp_eqs money_of_def t_new_def filter_insert c split: option.splits sum.splits)
qed

lemma others_request:
  assumes "owned_books s" "pi_userId input \<noteq> them"
  shows "wp (request b input) (\<lambda>_ t. money_of them t = money_of them s) (\<lambda>_ t. money_of them t = money_of them s) s"
proof -
  have tx: "wp (transaction (request_tx (env_now b) input w)) (\<lambda>_ t. money_of them t = money_of them s) (\<lambda>_ t. money_of them t = money_of them s) s"
    if "wallet_findUnique (pi_userId input) s = Some w" for w
    using assms(2) found_wallet [OF owned_tables(1) [OF assms(1)] that] owned_tables(1) [OF assms(1)]
    by (auto simp: request_tx_def wp_eqs t_new_def entry_create_def Let_def money_of_def filter_insert filter_post_wallets new_entry_def
        split: option.splits)
  show ?thesis
    by (auto simp: request_def wp_bind wp_seq wp_return wp_throw wp_findByUserId split: option.splits
        intro!: wp_mono [OF tx] wp_dispatch simp: money_of_same_books)
qed

lemma others_cancel:
  assumes "owned_books s" "me \<noteq> them"
  shows "wp (cancel b i me) (\<lambda>_ t. money_of them t = money_of them s) (\<lambda>_ t. money_of them t = money_of them s) s"
proof -
  have w: "\<exists>w. t_get w_id (po_walletId p) (wallets s) = Some w \<and> w_userId w = po_userId p" if "t_get po_id i (payout_requests s) = Some p" for p
    using assms(1) t_get_in [OF that] by (auto simp: owned_books_def payouts_owned_def)
  show ?thesis
    using assms(2) owned_tables [OF assms(1)]
    by (auto simp: cancel_def cancel_check_def cancel_write_def wp_eqs wp_release_tx Let_def money_of_def post_def filter_insert new_entry_def
        filter_post_wallets filter_change [where k = po_id] split: option.splits dest!: w)
qed

definition self_reads :: "money_route list" where
  "self_reads = [MyPayments, MyPayment, PaymentStatus, MyPayouts, MyWallet, MyWalletEntries]"

lemma keeps_owned_and:
  assumes "keeps owned_books m" "\<And>s. owned_books s \<Longrightarrow> wp m (\<lambda>_ t. money_of u t = money_of u s) (\<lambda>_ t. money_of u t = money_of u s) s"
  shows "keeps (\<lambda>s. owned_books s \<and> money_of u s = M) m"
  using assms by (auto simp: keeps_def wp_same)

lemma keeps_others_handler:
  assumes "r \<in> set (money_writes self_read @ self_reads)" "rq_user req = Some me" "me \<noteq> them"
  shows "keeps (\<lambda>s. owned_books s \<and> money_of them s = M) (money_handler pf env r query req)"
proof -
  note writes = keeps_owned_and [OF keeps_owned_services(1) others_initiate] keeps_owned_and [OF keeps_owned_services(5) others_request]
    keeps_owned_and [OF keeps_owned_services(9) others_cancel]
  show ?thesis
    using assms
    by (auto simp: self_reads_def money_writes_def money_handler_def handler_defs with_user_def intro!: writes keeps_intros keeps_reads)
qed

section \<open>The reads of a user\<close>

lemma own_row:
  assumes "wf_table k S" "wf_table k T" "t_filter (\<lambda>r. own r = (me :: int)) S = t_filter (\<lambda>r. own r = me) T"
    "t_get k i S = Some r" "own r = me"
  shows "t_get k i T = Some r"
proof -
  have "r \<in> set (t_filter (\<lambda>r. own r = me) T)"
    using t_get_in [OF assms(4)] assms(5) unfolding assms(3) [symmetric] by (simp add: t_filter_def)
  then have "r \<in> set (rows T)" by (simp add: t_filter_def)
  from t_get_self [OF assms(2) this] show ?thesis using t_get_key [OF assms(4)] by simp
qed

lemma findById_mine:
  "fst (findById i (Some me) s) = (case t_get pay_id i (payments s) of
     Some p \<Rightarrow> if pay_userId p = me then Inr p else Inl payment_not_found | None \<Rightarrow> Inl payment_not_found)"
  by (simp add: findById_def bind_def gets_def throw_def return_def payment_not_found_def split: option.split)

lemma findById_own:
  fixes s t :: "'x sys_scheme"
  assumes "wf_table pay_id (payments s)" "wf_table pay_id (payments t)"
    "t_filter (\<lambda>p. pay_userId p = me) (payments s) = t_filter (\<lambda>p. pay_userId p = me) (payments t)"
  shows "fst (findById i (Some me) s) = fst (findById i (Some me) t)"
proof -
  let ?g = "\<lambda>u :: 'x sys_scheme. t_get pay_id i (payments u)"
  have e: "(?g s = Some p \<and> pay_userId p = me) = (?g t = Some p \<and> pay_userId p = me)" for p
    using own_row [OF assms, of i p] own_row [OF assms(2,1) assms(3) [symmetric], of i p] by auto
  show ?thesis
    using e [of "the (?g s)"] e [of "the (?g t)"] unfolding findById_mine
    by (cases "?g s"; cases "?g t") auto
qed

lemma fst_bind_same: "snd (m s) = s \<Longrightarrow> fst (bind m f s) = (case fst (m s) of Inl e \<Rightarrow> Inl e | Inr x \<Rightarrow> fst (f x s))"
  by (cases "m s") (auto simp: bind_def split: sum.split)

lemma self_reads_blind:
  fixes s t :: "'x sys_scheme"
  assumes "rq_user req = Some me" "wf_table pay_id (payments s)" "wf_table pay_id (payments t)"
    and "t_filter (\<lambda>p. pay_userId p = me) (payments s) = t_filter (\<lambda>p. pay_userId p = me) (payments t)"
    and "t_filter (\<lambda>p. po_userId p = me) (payout_requests s) = t_filter (\<lambda>p. po_userId p = me) (payout_requests t)"
  shows "list_all (\<lambda>r. fst (money_handler pf env r query req s) = fst (money_handler pf env r query req t)) self_reads"
proof -
  have st: "snd (findById i v u) = u" "snd (zod_run pf w z u) = u" "snd (bare_id x u) = u" "snd (checked_id e x u) = u"
    for i v z x e w and u :: "'x sys_scheme"
    by (auto simp: findById_def zod_run_def bare_id_def checked_id_def run_simps split: option.split sum.split)
  have f: "fst (findById i (Some me) s) = fst (findById i (Some me) t)" for i
    by (rule findById_own [OF assms(2-4)])
  have z: "fst (zod_run pf w z s) = fst (zod_run pf w z t)" "fst (bare_id x s) = fst (bare_id x t)"
    "fst (checked_id e x s) = fst (checked_id e x t)" for w z x e
    by (auto simp: zod_run_def bare_id_def checked_id_def run_simps split: option.split sum.split)
  have l: "fst (limited n (pay_findForUser me c) s) = fst (limited n (pay_findForUser me c) t)"
      "fst (limited n (po_findForUser me c) s) = fst (limited n (po_findForUser me c) t)" for n c
    using assms(4,5) by (auto simp: limited_def pay_findForUser_def po_findForUser_def run_simps split: option.split)
  have sl: "snd (limited n (pay_findForUser me c) u) = u" "snd (limited n (po_findForUser me c) u) = u"
    for n c and u :: "'x sys_scheme"
    by (auto simp: limited_def pay_findForUser_def po_findForUser_def run_simps split: option.split)
  have ret: "fst (return x u) = Inr x" for x :: 'a and u :: "'x sys_scheme" by (simp add: return_def)
  note steps = with_user_def fst_bind_same st sl z f l ret assms(1)
  have "fst (money_handler pf env MyPayments query req s) = fst (money_handler pf env MyPayments query req t)"
    by (simp add: money_handler_def getMyPayments_def steps split: sum.split prod.split)
  moreover have "fst (money_handler pf env MyPayment query req s) = fst (money_handler pf env MyPayment query req t)"
    by (simp add: money_handler_def getMyPayment_def steps split: sum.split)
  moreover have "fst (money_handler pf env PaymentStatus query req s) = fst (money_handler pf env PaymentStatus query req t)"
    by (simp add: money_handler_def get_payment_status_def steps split: sum.split)
  moreover have "fst (money_handler pf env MyPayouts query req s) = fst (money_handler pf env MyPayouts query req t)"
    by (simp add: money_handler_def getMyPayouts_def steps split: sum.split prod.split)
  moreover have "fst (money_handler pf env MyWallet query req s) = fst (money_handler pf env MyWallet query req t)"
    by (simp add: money_handler_def getMyWallet_def throw_def)
  moreover have "fst (money_handler pf env MyWalletEntries query req s) = fst (money_handler pf env MyWalletEntries query req t)"
    by (simp add: money_handler_def getMyWalletEntries_def steps throw_def split: sum.split prod.split)
  ultimately show ?thesis by (simp add: self_reads_def)
qed


text \<open>The state with the money of another one.\<close>

definition with_money :: "'x sys_scheme \<Rightarrow> 'x sys_scheme \<Rightarrow> 'x sys_scheme" where
  "with_money t s = s\<lparr>wallets := wallets t, ledger_entries := ledger_entries t, payments := payments t, refunds := refunds t,
     payout_requests := payout_requests t\<rparr>"

text \<open>C26. Whatever a user sends to the money routes of users, through the guards and whether it
  succeeds or not: initiating a payment, requesting or cancelling a payout, and the reads leave the
  payments, payouts, wallets and ledger entries of everybody else as they were; and the answers to the
  reads are the same on two states that differ only in the money of others.  Every money route keeps
  what the statement starts from: sound books, and the wallet of every payout its user's own.\<close>

theorem own_money_only:
  fixes s t :: "'x sys_scheme"
  assumes "caller pf req = Some me" "them \<noteq> me" "owned_books s" "owned_books t" "money_of me t = money_of me s"
  shows "list_all (\<lambda>r. let u = snd (serve_money_route pf uuids env r query req s) in owned_books u \<and> money_of them u = money_of them s)
      (money_writes self_read @ self_reads) \<and>
    list_all (\<lambda>r. fst (serve_money_route pf uuids env r query req (with_money t s)) = fst (serve_money_route pf uuids env r query req s))
      self_reads \<and>
    owned_books (snd (serve_money_route pf uuids env any query req s))"
proof -
  have auth: "rt_auth (route_of (money_decorators r))" if "r \<in> set (money_writes self_read @ self_reads)" for r
    using that by (auto simp: self_reads_def money_writes_def money_decorators_def guarded_def decorator_defs route_of_def)
  have w: "owned_books (snd (serve_money_route pf uuids env r query req s)) \<and>
      money_of them (snd (serve_money_route pf uuids env r query req s)) = money_of them s"
    if "r \<in> set (money_writes self_read @ self_reads)" for r
  proof -
    have "keeps (\<lambda>u. owned_books u \<and> money_of them u = money_of them s) (serve_money_route pf uuids env r query req)"
      unfolding serve_money_route_def
      by (rule keeps_serve_caller [OF off_log_owned_money auth [OF that]]) (use keeps_others_handler [OF that _ assms(2) [symmetric]] assms(1) in simp)
    from keepsD [OF this, of s] show ?thesis using assms(3) by simp
  qed
  have b: "fst (serve_money_route pf uuids env r query req (with_money t s)) = fst (serve_money_route pf uuids env r query req s)"
    if r: "r \<in> set self_reads" for r
    unfolding serve_money_route_def
  proof (rule read_route_blind)
    show "off_guards (with_money t :: 'x sys_scheme \<Rightarrow> 'x sys_scheme)" by (simp add: off_guards_def with_money_def)
    show "rt_auth (route_of (money_decorators r))" using auth r by simp
    show "rt_audit (route_of (money_decorators r)) = None" "\<not> rt_idempotent (route_of (money_decorators r))"
      using r by (auto simp: self_reads_def money_decorators_def guarded_def decorator_defs route_of_def)
    fix req' :: http_request and v :: "'x sys_scheme" assume u: "rq_user req' = caller pf req" and v: "but_redis v = but_redis s"
    have m: "payments v = payments s" "payout_requests v = payout_requests s"
      using arg_cong [OF v, of payments] arg_cong [OF v, of payout_requests] by (simp_all add: but_redis_def)
    have "list_all (\<lambda>r. fst (money_handler pf env r query req' (with_money t v)) = fst (money_handler pf env r query req' v)) self_reads"
      by (rule self_reads_blind [of _ me])
         (use u assms(1,5) owned_tables [OF assms(3)] owned_tables [OF assms(4)] m in \<open>simp_all add: with_money_def money_of_def\<close>)
    then show "fst (money_handler pf env r query req' (with_money t v)) = fst (money_handler pf env r query req' v)"
      using r by (simp add: list_all_iff)
  qed
  show ?thesis
    using w b keepsD [OF keeps_owned_route assms(3)] by (auto simp: list_all_iff Let_def)
qed

lemma owned_sample: "owned_books sample_member"
proof -
  have "fine sample_member = fine sample_sys"
    by (simp add: fine_def pay_ok_def books_ok_def payouts_ok_def sample_member_def)
  then show ?thesis
    using fine_sample by (simp add: owned_books_def payouts_owned_def) (simp add: sample_member_def sample_defs table_run)
qed

lemma own_money_only_witness:
  "let route = (\<lambda>r. serve_money_route sample_platform [''u''] sample_pay_env r JUndefined sample_cancellation);
       input = \<lparr>ii_userId = 2, ii_amount = 500, ii_purpose = ''wallet_topup'', ii_description = ''top up'', ii_metadata = None\<rparr>;
       other = snd (initiate sample_pay_env input sample_member)
   in map w_balance (rows (wallets (snd (route CancelPayout sample_member)))) = [100, 0] \<and>
      money_of 2 (snd (route CancelPayout sample_member)) = money_of 2 sample_member \<and>
      fst (route MyPayouts (with_money other sample_member)) = fst (route MyPayouts sample_member)"
proof -
  let ?in = "\<lparr>ii_userId = 2, ii_amount = 500, ii_purpose = ''wallet_topup'', ii_description = ''top up'', ii_metadata = None\<rparr>"
  let ?t = "snd (initiate sample_pay_env ?in sample_member)"
  have t: "owned_books ?t" using keepsD [OF keeps_owned_services(1) owned_sample] .
  have m: "money_of 1 ?t = money_of 1 sample_member"
    using others_initiate [OF owned_sample, of ?in 1 sample_pay_env] by (simp add: wp_same)
  from own_money_only [OF sample_caller _ owned_sample t m, of 2 "[''u'']" sample_pay_env JUndefined] sample_cancelled
  show ?thesis by (simp add: Let_def self_reads_def money_writes_def)
qed

end
