(* ===== verification/Contract.thy ===== *)
theory Contract
  imports Access
begin

text \<open>
  The contract of the agents module (modules/agents/contract.ts and constants.ts): its
  permissions, notification types, admin pages and payment purposes, the bounds on
  listings and the rows the boot hooks ensure.  Persian texts are UTF-8 bytes.  The
  lemmas show that every notification the services send has an in-app text, that the
  permission codes are distinct and every admin page is guarded by one of them.
\<close>

section \<open>Notification types\<close>

definition str_var :: "payload \<Rightarrow> string \<Rightarrow> string" where
  "str_var v k = js_String (nullish (jget v k) (JStr []))"

definition num_var :: "payload \<Rightarrow> string \<Rightarrow> string" where
  "num_var v k = js_String (nullish (jget v k) (JNum 0))"

definition type_AGENTS_LISTING_APPROVED :: notification_type where
  "type_AGENTS_LISTING_APPROVED =
     \<lparr>nt_type = ''AGENTS_LISTING_APPROVED'',
      nt_inApp = Some
       (utf8 [217, 132, 219, 140, 216, 179, 216, 170, 219, 140, 217, 134, 218, 175, 32, 216, 180,
         217, 133, 216, 167, 32, 216, 170, 216, 163, 219, 140, 219, 140, 216, 175, 32, 216, 180,
         216, 175],
        \<lambda>v. utf8 [217, 132, 219, 140, 216, 179, 216, 170, 219, 140, 217, 134, 218, 175, 32,
          34] @ str_var v ''listingTitle'' @ utf8 [34, 32, 217, 133, 217, 134, 216, 170, 216, 180,
          216, 177, 32, 216, 180, 216, 175, 32, 217, 136, 32, 216, 175, 216, 177, 32, 216, 168, 216,
          167, 216, 178, 216, 167, 216, 177, 218, 175, 216, 167, 217, 135, 32, 217, 130, 216, 167,
          216, 168, 217, 132, 32, 216, 175, 219, 140, 216, 175, 217, 134, 32, 216, 167, 216, 179,
          216, 170] @ ''.''),
      nt_sms =
        Some (\<lambda>v. utf8 [216, 179, 216, 167, 216, 178, 219, 140, 218, 169, 217, 136] @ '': ''
          @ utf8 [217, 132, 219, 140, 216, 179, 216, 170, 219, 140, 217, 134, 218, 175, 32, 34] @
          str_var v ''listingTitle'' @ utf8 [34, 32, 216, 170, 216, 163, 219, 140, 219, 140, 216,
          175, 32, 216, 180, 216, 175] @ ''.''),
      nt_email = None\<rparr>"

definition type_AGENTS_LISTING_REJECTED :: notification_type where
  "type_AGENTS_LISTING_REJECTED =
     \<lparr>nt_type = ''AGENTS_LISTING_REJECTED'',
      nt_inApp = Some
       (utf8 [217, 132, 219, 140, 216, 179, 216, 170, 219, 140, 217, 134, 218, 175, 32, 216, 180,
         217, 133, 216, 167, 32, 216, 177, 216, 175, 32, 216, 180, 216, 175],
        \<lambda>v. utf8 [217, 132, 219, 140, 216, 179, 216, 170, 219, 140, 217, 134, 218, 175, 32,
          34] @ str_var v ''listingTitle'' @ utf8 [34, 32, 216, 170, 216, 163, 219, 140, 219, 140,
          216, 175, 32, 217, 134, 216, 180, 216, 175] @ ''. '' @ utf8 [216, 175, 217, 132, 219, 140,
          217, 132] @ '': '' @ str_var v ''reason''),
      nt_sms =
        Some (\<lambda>v. utf8 [216, 179, 216, 167, 216, 178, 219, 140, 218, 169, 217, 136] @ '': ''
          @ utf8 [217, 132, 219, 140, 216, 179, 216, 170, 219, 140, 217, 134, 218, 175, 32, 216,
          180, 217, 133, 216, 167, 32, 216, 177, 216, 175, 32, 216, 180, 216, 175] @ ''. '' @ utf8
          [216, 172, 216, 178, 216, 166, 219, 140, 216, 167, 216, 170, 32, 216, 175, 216, 177, 32,
          217, 190, 217, 134, 217, 132, 32, 216, 179, 216, 167, 216, 178, 217, 134, 216, 175, 217,
          135] @ ''.''),
      nt_email = None\<rparr>"

definition type_AGENTS_LISTING_SUSPENDED :: notification_type where
  "type_AGENTS_LISTING_SUSPENDED =
     \<lparr>nt_type = ''AGENTS_LISTING_SUSPENDED'',
      nt_inApp = Some
       (utf8 [217, 132, 219, 140, 216, 179, 216, 170, 219, 140, 217, 134, 218, 175, 32, 216, 180,
         217, 133, 216, 167, 32, 216, 170, 216, 185, 217, 132, 219, 140, 217, 130, 32, 216, 180,
         216, 175],
        \<lambda>v. utf8 [217, 132, 219, 140, 216, 179, 216, 170, 219, 140, 217, 134, 218, 175, 32,
          34] @ str_var v ''listingTitle'' @ utf8 [34, 32, 217, 133, 217, 136, 217, 130, 216, 170,
          216, 167, 217, 139, 32, 216, 167, 216, 178, 32, 216, 168, 216, 167, 216, 178, 216, 167,
          216, 177, 218, 175, 216, 167, 217, 135, 32, 216, 173, 216, 176, 217, 129, 32, 216, 180,
          216, 175] @ ''. '' @ utf8 [216, 175, 217, 132, 219, 140, 217, 132] @ '': '' @ str_var v
          ''reason''),
      nt_sms = None,
      nt_email = None\<rparr>"

text \<open>Number(x) of an integral payload value; None is NaN (also for arrays and objects, which
  no caller passes).\<close>

definition js_Number :: "json \<Rightarrow> int option" where
  "js_Number v = (case v of
       JNum n \<Rightarrow> Some n | JBig n \<Rightarrow> Some (to_number n) | JBool b \<Rightarrow> Some (if b then 1 else 0)
     | JNull \<Rightarrow> Some 0 | JStr s \<Rightarrow> map_option to_number (js_BigInt s) | _ \<Rightarrow> None)"

definition runs_suffix :: "json \<Rightarrow> string" where
  "runs_suffix v = (case js_Number (nullish v (JNum 0)) of
       Some runs \<Rightarrow> if 0 < runs then
           '' '' @ js_String (JNum runs) @ utf8 [32, 216, 167, 216, 172, 216, 177, 216, 167, 32,
             217, 129, 216, 185, 216, 167, 217, 132, 32, 216, 180, 216, 175] @ ''.''
         else []
     | None \<Rightarrow> [])"

definition type_AGENTS_PURCHASE_RECEIPT :: notification_type where
  "type_AGENTS_PURCHASE_RECEIPT =
     \<lparr>nt_type = ''AGENTS_PURCHASE_RECEIPT'',
      nt_inApp = Some
       (utf8 [216, 174, 216, 177, 219, 140, 216, 175, 32, 216, 180, 217, 133, 216, 167, 32, 216,
         171, 216, 168, 216, 170, 32, 216, 180, 216, 175],
        \<lambda>v. utf8 [34] @ str_var v ''listingTitle'' @ utf8 [34, 32, 216, 168, 217, 135, 32,
          218, 169, 216, 170, 216, 167, 216, 168, 216, 174, 216, 167, 217, 134, 217, 135, 32, 216,
          180, 217, 133, 216, 167, 32, 216, 167, 216, 182, 216, 167, 217, 129, 217, 135, 32, 216,
          180, 216, 175] @ ''.'' @ runs_suffix (jget v ''runs'')),
      nt_sms = None,
      nt_email = None\<rparr>"

definition type_AGENTS_NEW_SALE :: notification_type where
  "type_AGENTS_NEW_SALE =
     \<lparr>nt_type = ''AGENTS_NEW_SALE'',
      nt_inApp = Some
       (utf8 [217, 129, 216, 177, 217, 136, 216, 180, 32, 216, 172, 216, 175, 219, 140, 216, 175],
        \<lambda>v. utf8 [219, 140, 218, 169, 32, 216, 174, 216, 177, 219, 140, 216, 175, 216, 167,
          216, 177, 32, 216, 172, 216, 175, 219, 140, 216, 175, 32, 217, 132, 219, 140, 216, 179,
          216, 170, 219, 140, 217, 134, 218, 175, 32, 34] @ str_var v ''listingTitle'' @ utf8 [34,
          32, 216, 177, 216, 167, 32, 216, 174, 216, 177, 219, 140, 216, 175] @ ''.''),
      nt_sms = None,
      nt_email = None\<rparr>"

definition type_AGENTS_RUNS_LOW :: notification_type where
  "type_AGENTS_RUNS_LOW =
     \<lparr>nt_type = ''AGENTS_RUNS_LOW'',
      nt_inApp = Some
       (utf8 [216, 167, 216, 172, 216, 177, 216, 167, 217, 135, 216, 167, 219, 140, 32, 216, 180,
         217, 133, 216, 167, 32, 216, 177, 217, 136, 32, 216, 168, 217, 135, 32, 216, 167, 216, 170,
         217, 133, 216, 167, 217, 133, 32, 216, 167, 216, 179, 216, 170],
        \<lambda>v. utf8 [216, 167, 216, 178, 32, 34] @ str_var v ''listingTitle'' @ utf8 [34, 32,
          216, 170, 217, 134, 217, 135, 216, 167, 32] @ num_var v ''remaining'' @ utf8 [32, 216,
          167, 216, 172, 216, 177, 216, 167, 32, 216, 168, 216, 167, 217, 130, 219, 140, 32, 217,
          133, 216, 167, 217, 134, 216, 175, 217, 135] @ ''. '' @ utf8 [216, 168, 216, 177, 216,
          167, 219, 140, 32, 216, 167, 216, 175, 216, 167, 217, 133, 217, 135, 216, 140, 32, 216,
          168, 216, 179, 216, 170, 217, 135, 32, 216, 172, 216, 175, 219, 140, 216, 175, 32, 216,
          168, 216, 174, 216, 177, 219, 140, 216, 175] @ ''.''),
      nt_sms = None,
      nt_email = None\<rparr>"

definition type_AGENTS_RUNS_DEPLETED :: notification_type where
  "type_AGENTS_RUNS_DEPLETED =
     \<lparr>nt_type = ''AGENTS_RUNS_DEPLETED'',
      nt_inApp = Some
       (utf8 [216, 167, 216, 172, 216, 177, 216, 167, 217, 135, 216, 167, 219, 140, 32, 216, 180,
         217, 133, 216, 167, 32, 216, 170, 217, 133, 216, 167, 217, 133, 32, 216, 180, 216, 175],
        \<lambda>v. utf8 [217, 135, 217, 133, 217, 135, 32, 216, 167, 216, 172, 216, 177, 216, 167,
          217, 135, 216, 167, 219, 140, 32, 34] @ str_var v ''listingTitle'' @ utf8 [34, 32, 217,
          133, 216, 181, 216, 177, 217, 129, 32, 216, 180, 216, 175] @ ''. '' @ utf8 [216, 168, 216,
          177, 216, 167, 219, 140, 32, 216, 167, 216, 175, 216, 167, 217, 133, 217, 135, 32, 216,
          175, 216, 179, 216, 170, 216, 177, 216, 179, 219, 140, 216, 140, 32, 216, 168, 216, 179,
          216, 170, 217, 135, 32, 216, 172, 216, 175, 219, 140, 216, 175, 32, 216, 168, 216, 174,
          216, 177, 219, 140, 216, 175] @ ''.''),
      nt_sms = None,
      nt_email = None\<rparr>"

definition type_AGENTS_REVIEW_POSTED :: notification_type where
  "type_AGENTS_REVIEW_POSTED =
     \<lparr>nt_type = ''AGENTS_REVIEW_POSTED'',
      nt_inApp = Some
       (utf8 [216, 168, 216, 167, 216, 178, 216, 174, 217, 136, 216, 177, 216, 175, 32, 216, 172,
         216, 175, 219, 140, 216, 175, 32, 216, 177, 217, 136, 219, 140, 32, 217, 132, 219, 140,
         216, 179, 216, 170, 219, 140, 217, 134, 218, 175, 32, 216, 180, 217, 133, 216, 167],
        \<lambda>v. str_var v ''authorName'' @ utf8 [32, 216, 168, 216, 177, 216, 167, 219, 140, 32,
          34] @ str_var v ''listingTitle'' @ utf8 [34, 32, 216, 167, 217, 133, 216, 170, 219, 140,
          216, 167, 216, 178, 32] @ num_var v ''rating'' @ utf8 [32, 216, 167, 216, 178, 32, 219,
          181, 32, 216, 171, 216, 168, 216, 170, 32, 218, 169, 216, 177, 216, 175] @ ''.''),
      nt_sms = None,
      nt_email = None\<rparr>"

definition type_AGENTS_NEW_LISTING_PENDING :: notification_type where
  "type_AGENTS_NEW_LISTING_PENDING =
     \<lparr>nt_type = ''AGENTS_NEW_LISTING_PENDING'',
      nt_inApp = Some
       (utf8 [217, 132, 219, 140, 216, 179, 216, 170, 219, 140, 217, 134, 218, 175, 32, 216, 172,
         216, 175, 219, 140, 216, 175, 32, 216, 175, 216, 177, 32, 216, 181, 217, 129, 32, 216, 168,
         216, 177, 216, 177, 216, 179, 219, 140],
        \<lambda>v. utf8 [34] @ str_var v ''listingTitle'' @ utf8 [34, 32, 216, 167, 216, 178, 32,
          216, 183, 216, 177, 217, 129, 32] @ str_var v ''makerName'' @ utf8 [32, 216, 175, 216,
          177, 32, 216, 167, 217, 134, 216, 170, 216, 184, 216, 167, 216, 177, 32, 216, 168, 216,
          177, 216, 177, 216, 179, 219, 140, 32, 216, 167, 216, 179, 216, 170] @ ''.''),
      nt_sms = None,
      nt_email = None\<rparr>"

definition AGENTS_NOTIFICATION_TYPES :: "notification_type list" where
  "AGENTS_NOTIFICATION_TYPES =
    [type_AGENTS_LISTING_APPROVED,
     type_AGENTS_LISTING_REJECTED,
     type_AGENTS_LISTING_SUSPENDED,
     type_AGENTS_PURCHASE_RECEIPT,
     type_AGENTS_NEW_SALE,
     type_AGENTS_RUNS_LOW,
     type_AGENTS_RUNS_DEPLETED,
     type_AGENTS_REVIEW_POSTED,
     type_AGENTS_NEW_LISTING_PENDING]"

record permission_definition =
  pd_code :: string
  pd_description :: string
  pd_persianDescription :: string
  pd_defaultRoles :: "string list"

definition AGENTS_PERMISSIONS :: "permission_definition list" where
  "AGENTS_PERMISSIONS =
    [\<lparr>pd_code = ''agents:read:catalog'', pd_description = ''Browse the agents catalog'',
       pd_persianDescription = utf8 [217, 133, 216, 177, 217, 136, 216, 177, 32, 216, 168, 216, 167,
         216, 178, 216, 167, 216, 177, 218, 175, 216, 167, 217, 135, 32, 216, 167, 219, 140, 216,
         172, 217, 134, 216, 170, 226, 128, 140, 217, 135, 216, 167],
       pd_defaultRoles = [''user'']\<rparr>,
     \<lparr>pd_code = ''agents:read:listing'', pd_description = ''View a listing detail page'',
       pd_persianDescription = utf8 [216, 175, 219, 140, 216, 175, 217, 134, 32, 216, 181, 217, 129,
         216, 173, 217, 135, 32, 216, 172, 216, 178, 216, 166, 219, 140, 216, 167, 216, 170, 32,
         217, 132, 219, 140, 216, 179, 216, 170, 219, 140, 217, 134, 218, 175],
       pd_defaultRoles = [''user'']\<rparr>,
     \<lparr>pd_code = ''agents:purchase:listing'', pd_description = ''Buy or install a listing'',
       pd_persianDescription = utf8 [216, 174, 216, 177, 219, 140, 216, 175, 32, 219, 140, 216, 167,
         32, 217, 134, 216, 181, 216, 168, 32, 217, 132, 219, 140, 216, 179, 216, 170, 219, 140,
         217, 134, 218, 175],
       pd_defaultRoles = [''user'']\<rparr>,
     \<lparr>pd_code = ''agents:download:owned'', pd_description = ''Download files from owned listings'',
       pd_persianDescription = utf8 [216, 175, 216, 167, 217, 134, 217, 132, 217, 136, 216, 175, 32,
         217, 129, 216, 167, 219, 140, 217, 132, 226, 128, 140, 217, 135, 216, 167, 219, 140, 32,
         217, 132, 219, 140, 216, 179, 216, 170, 219, 140, 217, 134, 218, 175, 226, 128, 140, 217,
         135, 216, 167, 219, 140, 32, 216, 174, 216, 177, 219, 140, 216, 175, 216, 167, 216, 177,
         219, 140, 226, 128, 140, 216, 180, 216, 175, 217, 135],
       pd_defaultRoles = [''user'']\<rparr>,
     \<lparr>pd_code = ''agents:review:owned'', pd_description = ''Leave a review for a purchased listing'',
       pd_persianDescription = utf8 [216, 171, 216, 168, 216, 170, 32, 216, 168, 216, 167, 216, 178,
         216, 174, 217, 136, 216, 177, 216, 175, 32, 216, 168, 216, 177, 216, 167, 219, 140, 32,
         217, 132, 219, 140, 216, 179, 216, 170, 219, 140, 217, 134, 218, 175, 32, 216, 174, 216,
         177, 219, 140, 216, 175, 216, 167, 216, 177, 219, 140, 226, 128, 140, 216, 180, 216, 175,
         217, 135],
       pd_defaultRoles = [''user'']\<rparr>,
     \<lparr>pd_code = ''agents:consume:run'', pd_description = ''Decrement own run counter (called by maker via API key)'',
       pd_persianDescription = utf8 [218, 169, 216, 179, 216, 177, 32, 216, 180, 217, 133, 216, 167,
         216, 177, 217, 134, 216, 175, 217, 135, 32, 216, 167, 216, 172, 216, 177, 216, 167, 32] @
         ''('' @ utf8 [216, 167, 216, 178, 32, 216, 179, 217, 133, 216, 170, 32, 216, 179, 216, 167,
         216, 178, 217, 134, 216, 175, 217, 135, 32, 216, 168, 216, 167, 32, 218, 169, 217, 132,
         219, 140, 216, 175, 32] @ ''API)'',
       pd_defaultRoles = [''user'']\<rparr>,
     \<lparr>pd_code = ''agents:create:listing'', pd_description = ''Submit a new agent listing'',
       pd_persianDescription = utf8 [216, 167, 216, 177, 216, 179, 216, 167, 217, 132, 32, 217, 132,
         219, 140, 216, 179, 216, 170, 219, 140, 217, 134, 218, 175, 32, 216, 167, 219, 140, 216,
         172, 217, 134, 216, 170, 32, 216, 172, 216, 175, 219, 140, 216, 175],
       pd_defaultRoles = [''user'']\<rparr>,
     \<lparr>pd_code = ''agents:update:listing_own'', pd_description = ''Edit own listings (drafts and published)'',
       pd_persianDescription = utf8 [217, 136, 219, 140, 216, 177, 216, 167, 219, 140, 216, 180, 32,
         217, 132, 219, 140, 216, 179, 216, 170, 219, 140, 217, 134, 218, 175, 226, 128, 140, 217,
         135, 216, 167, 219, 140, 32, 216, 174, 217, 136, 216, 175, 217, 144, 32, 216, 179, 216,
         167, 216, 178, 217, 134, 216, 175, 217, 135, 32] @ ''('' @ utf8 [217, 190, 219, 140, 216,
         180, 226, 128, 140, 217, 134, 217, 136, 219, 140, 216, 179, 32, 217, 136, 32, 217, 133,
         217, 134, 216, 170, 216, 180, 216, 177, 216, 180, 216, 175, 217, 135] @ '')'',
       pd_defaultRoles = [''user'']\<rparr>,
     \<lparr>pd_code = ''agents:read:sales_own'', pd_description = ''View own sales dashboard'',
       pd_persianDescription = utf8 [217, 133, 216, 180, 216, 167, 217, 135, 216, 175, 217, 135, 32,
         216, 175, 216, 167, 216, 180, 216, 168, 217, 136, 216, 177, 216, 175, 32, 217, 129, 216,
         177, 217, 136, 216, 180, 32, 216, 174, 217, 136, 216, 175],
       pd_defaultRoles = [''user'']\<rparr>,
     \<lparr>pd_code = ''agents:moderate:listing'', pd_description = ''Approve, reject, suspend listings'',
       pd_persianDescription = utf8 [216, 170, 216, 163, 219, 140, 219, 140, 216, 175, 216, 140, 32,
         216, 177, 216, 175, 32, 217, 136, 32, 216, 170, 216, 185, 217, 132, 219, 140, 217, 130, 32,
         217, 132, 219, 140, 216, 179, 216, 170, 219, 140, 217, 134, 218, 175, 226, 128, 140, 217,
         135, 216, 167],
       pd_defaultRoles = [''admin'']\<rparr>,
     \<lparr>pd_code = ''agents:manage:categories'', pd_description = ''CRUD on categories'',
       pd_persianDescription = utf8 [217, 133, 216, 175, 219, 140, 216, 177, 219, 140, 216, 170, 32,
         216, 175, 216, 179, 216, 170, 217, 135, 226, 128, 140, 216, 168, 217, 134, 216, 175, 219,
         140, 226, 128, 140, 217, 135, 216, 167],
       pd_defaultRoles = [''admin'']\<rparr>,
     \<lparr>pd_code = ''agents:manage:featured'', pd_description = ''Pin/unpin featured listings'',
       pd_persianDescription = utf8 [216, 167, 217, 134, 216, 170, 216, 174, 216, 167, 216, 168, 32,
         217, 136, 32, 216, 173, 216, 176, 217, 129, 32, 217, 132, 219, 140, 216, 179, 216, 170,
         219, 140, 217, 134, 218, 175, 226, 128, 140, 217, 135, 216, 167, 219, 140, 32, 217, 133,
         217, 134, 216, 170, 216, 174, 216, 168],
       pd_defaultRoles = [''admin'']\<rparr>,
     \<lparr>pd_code = ''agents:read:sales_all'', pd_description = ''View all sales across the marketplace'',
       pd_persianDescription = utf8 [217, 133, 216, 180, 216, 167, 217, 135, 216, 175, 217, 135, 32,
         217, 135, 217, 133, 217, 135, 32, 217, 129, 216, 177, 217, 136, 216, 180, 226, 128, 140,
         217, 135, 216, 167, 219, 140, 32, 216, 168, 216, 167, 216, 178, 216, 167, 216, 177, 218,
         175, 216, 167, 217, 135],
       pd_defaultRoles = [''admin'']\<rparr>,
     \<lparr>pd_code = ''agents:manage:settings'', pd_description = ''Edit module settings (commission, sections, hero copy)'',
       pd_persianDescription = utf8 [217, 136, 219, 140, 216, 177, 216, 167, 219, 140, 216, 180, 32,
         216, 170, 217, 134, 216, 184, 219, 140, 217, 133, 216, 167, 216, 170, 32, 216, 168, 216,
         167, 216, 178, 216, 167, 216, 177, 218, 175, 216, 167, 217, 135, 32] @ ''('' @ utf8 [218,
         169, 216, 167, 216, 177, 217, 133, 216, 178, 216, 175, 216, 140, 32, 216, 168, 216, 174,
         216, 180, 226, 128, 140, 217, 135, 216, 167, 216, 140, 32, 217, 133, 216, 170, 217, 134,
         32, 217, 135, 216, 175, 216, 177] @ '')'',
       pd_defaultRoles = [''admin'']\<rparr>]"

record admin_page =
  ap_path :: string
  ap_titleFa :: string
  ap_icon :: "string option"
  ap_permission :: string
  ap_order :: "int option"

definition AGENTS_ADMIN_PAGES :: "admin_page list" where
  "AGENTS_ADMIN_PAGES =
    [\<lparr>ap_path = ''/admin/agents/listings'',
       ap_titleFa = utf8 [217, 132, 219, 140, 216, 179, 216, 170, 219, 140, 217, 134, 218, 175, 226,
         128, 140, 217, 135, 216, 167],
       ap_icon = Some ''package'', ap_permission = ''agents:moderate:listing'', ap_order = Some 200\<rparr>,
     \<lparr>ap_path = ''/admin/agents/categories'',
       ap_titleFa = utf8 [216, 175, 216, 179, 216, 170, 217, 135, 226, 128, 140, 216, 168, 217, 134,
         216, 175, 219, 140, 226, 128, 140, 217, 135, 216, 167],
       ap_icon = Some ''folder-tree'', ap_permission = ''agents:manage:categories'', ap_order = Some 210\<rparr>,
     \<lparr>ap_path = ''/admin/agents/featured'',
       ap_titleFa = utf8 [217, 133, 217, 134, 216, 170, 216, 174, 216, 168, 216, 167, 217, 134],
       ap_icon = Some ''star'', ap_permission = ''agents:manage:featured'', ap_order = Some 220\<rparr>,
     \<lparr>ap_path = ''/admin/agents/sales'',
       ap_titleFa = utf8 [217, 129, 216, 177, 217, 136, 216, 180, 226, 128, 140, 217, 135, 216, 167],
       ap_icon = Some ''trending-up'', ap_permission = ''agents:read:sales_all'', ap_order = Some 230\<rparr>,
     \<lparr>ap_path = ''/admin/agents/settings'',
       ap_titleFa = utf8 [216, 170, 217, 134, 216, 184, 219, 140, 217, 133, 216, 167, 216, 170, 32,
         216, 168, 216, 167, 216, 178, 216, 167, 216, 177, 218, 175, 216, 167, 217, 135],
       ap_icon = Some ''settings'', ap_permission = ''agents:manage:settings'', ap_order = Some 240\<rparr>]"

definition AGENTS_PAYMENT_PURPOSES :: "string list" where
  "AGENTS_PAYMENT_PURPOSES = [''agents_purchase'', ''agents_run_pack'']"

section \<open>Constants\<close>

definition MAKER_LISTINGS_QUOTA :: nat where
  "MAKER_LISTINGS_QUOTA = 50"

definition RUN_PACKS_MIN :: nat where
  "RUN_PACKS_MIN = 1"

definition RUN_PACKS_MAX :: nat where
  "RUN_PACKS_MAX = 5"

record default_category =
  dc_slug :: string
  dc_nameFa :: string
  dc_iconKey :: string
  dc_colorToken :: string
  dc_order :: int

definition DEFAULT_CATEGORIES :: "default_category list" where
  "DEFAULT_CATEGORIES =
    [\<lparr>dc_slug = ''research'',
       dc_nameFa = utf8 [217, 190, 218, 152, 217, 136, 217, 135, 216, 180],
       dc_iconKey = ''flask'', dc_colorToken = ''lavender'', dc_order = 10\<rparr>,
     \<lparr>dc_slug = ''business'',
       dc_nameFa = utf8 [218, 169, 216, 179, 216, 168, 32, 217, 136, 32, 218, 169, 216, 167, 216,
         177],
       dc_iconKey = ''briefcase'', dc_colorToken = ''mint'', dc_order = 20\<rparr>,
     \<lparr>dc_slug = ''design'',
       dc_nameFa = utf8 [216, 170, 216, 181, 217, 136, 219, 140, 216, 177, 32, 217, 136, 32, 216,
         183, 216, 177, 216, 167, 216, 173, 219, 140],
       dc_iconKey = ''image'', dc_colorToken = ''sky'', dc_order = 30\<rparr>,
     \<lparr>dc_slug = ''voice'',
       dc_nameFa = utf8 [216, 181, 216, 175, 216, 167, 32, 217, 136, 32, 218, 175, 217, 129, 216,
         170, 216, 167, 216, 177],
       dc_iconKey = ''mic'', dc_colorToken = ''rose'', dc_order = 40\<rparr>,
     \<lparr>dc_slug = ''data'',
       dc_nameFa = utf8 [216, 170, 216, 173, 217, 132, 219, 140, 217, 132, 32, 216, 175, 216, 167,
         216, 175, 217, 135],
       dc_iconKey = ''bar-chart'', dc_colorToken = ''periwinkle'', dc_order = 50\<rparr>,
     \<lparr>dc_slug = ''code'',
       dc_nameFa = utf8 [216, 168, 216, 177, 217, 134, 216, 167, 217, 133, 217, 135, 226, 128, 140,
         217, 134, 217, 136, 219, 140, 216, 179, 219, 140],
       dc_iconKey = ''command'', dc_colorToken = ''lemon'', dc_order = 60\<rparr>,
     \<lparr>dc_slug = ''content'',
       dc_nameFa = utf8 [217, 134, 217, 136, 219, 140, 216, 179, 217, 134, 216, 175, 218, 175, 219,
         140, 32, 217, 136, 32, 217, 133, 216, 173, 216, 170, 217, 136, 216, 167],
       dc_iconKey = ''pencil'', dc_colorToken = ''sand'', dc_order = 70\<rparr>]"

record settings_data =
  st_commissionPercent :: int
  st_heroTitleFa :: string
  st_heroSubtitleFa :: string
  st_showFeaturedSection :: bool
  st_showCategoriesSection :: bool
  st_showBestSellersSection :: bool
  st_showNewReleasesSection :: bool
  st_showRecentActivitySection :: bool
  st_featuredItemCount :: int
  st_bestSellersItemCount :: int
  st_newReleasesItemCount :: int

definition DEFAULT_AGENTS_SETTINGS :: settings_data where
  "DEFAULT_AGENTS_SETTINGS =
     \<lparr>st_commissionPercent = 20,
      st_heroTitleFa = utf8 [216, 185, 216, 167, 217, 133, 217, 132, 226, 128, 140, 217, 135, 216,
        167, 219, 140, 32, 217, 129, 216, 167, 216, 177, 216, 179, 219, 140, 216, 140, 32, 216, 168,
        217, 135, 32, 216, 175, 216, 179, 216, 170, 32, 216, 179, 216, 167, 216, 178, 217, 134, 216,
        175, 218, 175, 216, 167, 217, 134, 32, 216, 167, 219, 140, 216, 177, 216, 167, 217, 134,
        219, 140] @ ''.'',
      st_heroSubtitleFa = utf8 [216, 167, 216, 178, 32, 217, 190, 217, 134, 217, 132, 32, 218, 169,
        216, 180, 217, 129, 32, 216, 185, 216, 167, 217, 133, 217, 132, 226, 128, 140, 217, 135,
        216, 167, 219, 140, 32, 216, 162, 217, 133, 216, 167, 216, 175, 217, 135, 216, 140, 32, 216,
        170, 216, 167, 32, 216, 167, 216, 179, 216, 170, 217, 136, 216, 175, 219, 140, 217, 136,
        219, 140, 32, 216, 167, 217, 134, 216, 170, 216, 180, 216, 167, 216, 177, 32, 217, 136, 32,
        218, 169, 216, 179, 216, 168, 32, 216, 175, 216, 177, 216, 162, 217, 133, 216, 175, 32, 226,
        128, 148, 32, 217, 135, 217, 133, 217, 135, 32, 216, 175, 216, 177, 32, 219, 140, 218, 169,
        32, 216, 172, 216, 167, 216, 140, 32, 216, 168, 216, 167, 32, 217, 190, 216, 177, 216, 175,
        216, 167, 216, 174, 216, 170, 32, 216, 177, 219, 140, 216, 167, 217, 132, 219, 140, 216,
        140, 32, 216, 177, 217, 136, 219, 140, 32, 216, 179, 216, 177, 217, 136, 216, 177, 32, 216,
        167, 219, 140, 216, 177, 216, 167, 217, 134] @ ''.'',
      st_showFeaturedSection = True, st_showCategoriesSection = True,
      st_showBestSellersSection = True, st_showNewReleasesSection = True,
      st_showRecentActivitySection = True, st_featuredItemCount = 6,
      st_bestSellersItemCount = 8, st_newReleasesItemCount = 8\<rparr>"

section \<open>Registration\<close>

text \<open>The module loader hands every declared type to registerType.\<close>

definition agents_env :: "env \<Rightarrow> env" where
  "agents_env env = foldl (\<lambda>e d. registerType d e) env AGENTS_NOTIFICATION_TYPES"

lemma registerType_template: "template_for (registerType d env) ty =
    (if ty = nt_type d then Some \<lparr>tp_inApp = nt_inApp d, tp_sms = nt_sms d, tp_email = nt_email d\<rparr>
     else template_for env ty)"
proof -
  have "map_of (filter (\<lambda>p. fst p \<noteq> nt_type d) xs) ty = (if ty = nt_type d then None else map_of xs ty)"
    for xs :: "(string \<times> template) list"
    by (induction xs) auto
  then show ?thesis by (simp add: template_for_def registerType_def)
qed

lemma registerTypes_template:
  "distinct (map nt_type ds) \<Longrightarrow> template_for (foldl (\<lambda>e d. registerType d e) env ds) ty =
     (case List.find (\<lambda>d. nt_type d = ty) ds of
        Some d \<Rightarrow> Some \<lparr>tp_inApp = nt_inApp d, tp_sms = nt_sms d, tp_email = nt_email d\<rparr>
      | None \<Rightarrow> template_for env ty)"
proof (induction ds rule: rev_induct)
  case (snoc d ds)
  have "List.find (\<lambda>d. nt_type d = ty) ds = None" if "nt_type d = ty"
    using snoc.prems that by (auto simp: find_None_iff image_iff)
  then show ?case using snoc by (auto simp: registerType_template find_append split: option.splits)
qed simp

lemmas type_defs = type_AGENTS_LISTING_APPROVED_def type_AGENTS_LISTING_REJECTED_def
  type_AGENTS_LISTING_SUSPENDED_def type_AGENTS_PURCHASE_RECEIPT_def type_AGENTS_NEW_SALE_def
  type_AGENTS_RUNS_LOW_def type_AGENTS_RUNS_DEPLETED_def type_AGENTS_REVIEW_POSTED_def
  type_AGENTS_NEW_LISTING_PENDING_def

lemma type_names: "map nt_type AGENTS_NOTIFICATION_TYPES =
    [''AGENTS_LISTING_APPROVED'', ''AGENTS_LISTING_REJECTED'', ''AGENTS_LISTING_SUSPENDED'',
     ''AGENTS_PURCHASE_RECEIPT'', ''AGENTS_NEW_SALE'', ''AGENTS_RUNS_LOW'', ''AGENTS_RUNS_DEPLETED'',
     ''AGENTS_REVIEW_POSTED'', ''AGENTS_NEW_LISTING_PENDING'']"
  by (simp add: AGENTS_NOTIFICATION_TYPES_def type_defs)

lemma agents_env_templates:
  "template_for (agents_env env) ty =
     (case List.find (\<lambda>d. nt_type d = ty) AGENTS_NOTIFICATION_TYPES of
        Some d \<Rightarrow> Some \<lparr>tp_inApp = nt_inApp d, tp_sms = nt_sms d, tp_email = nt_email d\<rparr>
      | None \<Rightarrow> template_for env ty)"
  unfolding agents_env_def
  by (rule registerTypes_template) (simp add: type_names)

text \<open>Every type of the module has an in-app text, its permission codes are distinct and
  every admin page asks for one of them.\<close>

lemma contract_complete:
  "list_all (\<lambda>d. nt_inApp d \<noteq> None \<and> nt_type d \<notin> set NON_PERSISTENT_TYPES) AGENTS_NOTIFICATION_TYPES"
  "distinct (map pd_code AGENTS_PERMISSIONS)"
  "list_all (\<lambda>p. ap_permission p \<in> pd_code ` set AGENTS_PERMISSIONS) AGENTS_ADMIN_PAGES"
  by (simp_all add: AGENTS_NOTIFICATION_TYPES_def type_defs NON_PERSISTENT_TYPES_def
        AGENTS_PERMISSIONS_def AGENTS_ADMIN_PAGES_def)

end
