(* ===== verification/Market.thy ===== *)
theory Market
  imports Contract
begin

text \<open>
  The tables of the agents module (the agents_ models of prisma/schema.prisma): one record per
  table, and the state agents, which extends the state of the core, so that every core
  service also runs on it.  Ratings are kept in hundredths.  The boot hooks of the module
  (settings.bootstrap.ts, categories.bootstrap.ts) come with them.  The lemmas show that
  the core services the module calls leave its tables alone: on_market collects the
  predicates that depend on the tables of the module only.
\<close>

section \<open>Tables\<close>

record category_row =
  g_id :: int
  g_slug :: string
  g_nameFa :: string
  g_iconKey :: string
  g_colorToken :: string
  g_order :: int
  g_isActive :: bool

datatype pricing_type = FREE | ONE_TIME | PER_RUN

datatype listing_status = LS_DRAFT | LS_PENDING_REVIEW | LS_PUBLISHED | LS_REJECTED | LS_SUSPENDED

record listing_row =
  l_id :: int
  l_slug :: string
  l_titleFa :: string
  l_shortDescFa :: string
  l_longDescFaMd :: string
  l_installInstructionsFaMd :: "string option"
  l_categoryId :: int
  l_makerUserId :: int
  l_pricingType :: pricing_type
  l_oneTimePriceToman :: "int option"
  l_status :: listing_status
  l_rejectionReason :: "string option"
  l_suspensionReason :: "string option"
  l_isFeatured :: bool
  l_featuredOrder :: "int option"
  l_bundleFileId :: "int option"
  l_apiKeyHash :: "string option"
  l_totalUsers :: int
  l_totalRuns :: int
  l_viewCount :: int
  l_ratingAverage :: "int option"
  l_ratingCount :: int
  l_publishedAt :: "int option"
  l_createdAt :: int
  l_updatedAt :: int
  l_deletedAt :: "int option"

record screenshot_row =
  sh_id :: int
  sh_listingId :: int
  sh_fileId :: int
  sh_order :: int
  sh_altTextFa :: "string option"

record run_pack_row =
  rp_id :: int
  rp_listingId :: int
  rp_nameFa :: string
  rp_runs :: int
  rp_priceToman :: int
  rp_order :: int
  rp_isActive :: bool

record cart_row =
  c_id :: int
  c_userId :: "int option"
  c_listingId :: int
  c_runPackId :: "int option"
  c_addedAt :: int

datatype purchase_status = PU_COMPLETED | PU_REFUNDED

record purchase_row =
  b_id :: int
  b_userId :: int
  b_listingId :: int
  b_pricingTypeAtSale :: pricing_type
  b_runPackId :: "int option"
  b_runsGranted :: int
  b_amountToman :: int
  b_commissionToman :: int
  b_makerEarnedToman :: int
  b_systemPaymentId :: "int option"
  b_status :: purchase_status
  b_createdAt :: int
  b_refundedAt :: "int option"

record user_runs_row =
  ru_id :: int
  ru_userId :: int
  ru_listingId :: int
  ru_remainingRuns :: int
  ru_totalGranted :: int
  ru_totalConsumed :: int
  ru_lastConsumedAt :: "int option"

datatype run_outcome = CONSUMED | REFUSED_INSUFFICIENT | REFUSED_INVALID_KEY

record run_event_row =
  ev_id :: int
  ev_userId :: int
  ev_listingId :: int
  ev_outcome :: run_outcome
  ev_ipAddress :: "string option"
  ev_userAgent :: "string option"
  ev_createdAt :: int

record review_row =
  v_id :: int
  v_listingId :: int
  v_authorUserId :: int
  v_rating :: int
  v_bodyFa :: "string option"
  v_isHidden :: bool
  v_createdAt :: int
  v_updatedAt :: int

record settings_row = settings_data +
  st_id :: int
  st_updatedByUserId :: "int option"

record agents = sys +
  agents_category :: "category_row table"
  agents_listing :: "listing_row table"
  agents_screenshot :: "screenshot_row table"
  agents_run_pack :: "run_pack_row table"
  agents_cart_item :: "cart_row table"
  agents_purchase :: "purchase_row table"
  agents_user_runs :: "user_runs_row table"
  agents_run_event :: "run_event_row table"
  agents_review :: "review_row table"
  agents_settings :: "settings_row table"

section \<open>Predicates on the tables of the module\<close>

definition on_market :: "('x sys_scheme \<Rightarrow> bool) \<Rightarrow> bool" where
  "on_market P \<longleftrightarrow> (\<forall>s t. sys.more s = sys.more t \<longrightarrow> P s = P t)"

lemma on_marketD: "on_market P \<Longrightarrow> sys.more t = sys.more s \<Longrightarrow> P s \<Longrightarrow> P t"
  unfolding on_market_def by blast

lemma market_fields:
  assumes "sys.more t = sys.more (s :: 'x agents_scheme)"
  shows "agents_category t = agents_category s" "agents_listing t = agents_listing s"
    "agents_screenshot t = agents_screenshot s" "agents_run_pack t = agents_run_pack s"
    "agents_cart_item t = agents_cart_item s" "agents_purchase t = agents_purchase s"
    "agents_user_runs t = agents_user_runs s" "agents_run_event t = agents_run_event s"
    "agents_review t = agents_review s" "agents_settings t = agents_settings s"
  using assms by (cases s; cases t; simp)+

lemma on_marketI: "(\<And>s t. sys.more s = sys.more t \<Longrightarrow> P s = P t) \<Longrightarrow> on_market P"
  unfolding on_market_def by blast

lemma on_market_same: "on_market (\<lambda>s. sys.more s = m)"
  by (simp add: on_market_def)

lemma on_market_all: "(\<And>x. on_market (P x)) \<Longrightarrow> on_market (\<lambda>s. \<forall>x. P x s)"
  unfolding on_market_def by blast

lemma on_market_conj: "on_market P \<Longrightarrow> on_market Q \<Longrightarrow> on_market (\<lambda>s. P s \<and> Q s)"
  unfolding on_market_def by blast

lemma keeps_market_dispatch [keeps_intros]: "on_market P \<Longrightarrow> keeps P (dispatch env u ty pl chs)"
  by (rule keeps_dispatch) (erule on_marketD, simp add: same_books_fields)

lemma keeps_market_audit [keeps_intros]: "on_market P \<Longrightarrow> keeps P (audit_log sha now en)"
  by (rule keeps_audit_log, erule on_marketD) simp_all

lemma keeps_market_redis [keeps_intros]:
  assumes "on_market P"
  shows "keeps P (redis_del k)" "keeps P (redis_get now k)" "keeps P (redis_set_ex now k v n)"
    "keeps P (redis_set_nx now k v n)"
  unfolding redis_del_def redis_get_def redis_set_ex_def redis_set_nx_def
  by (intro keeps_intros keeps_modify; (auto split: redis_value.splits intro!: keeps_intros)?;
      (erule on_marketD [OF assms, rotated], simp))+

lemma market_after:
  "sys.more (snd (dispatch env u ty pl chs s)) = sys.more s"
  "sys.more (snd (audit_log sha now en s)) = sys.more s"
  "sys.more (snd (redis_del k s)) = sys.more s"
  using keepsD [OF keeps_market_dispatch [OF on_market_same [of "sys.more s"]], of s env u ty pl chs]
    keepsD [OF keeps_market_audit [OF on_market_same [of "sys.more s"]], of s sha now en]
    keepsD [OF keeps_market_redis(1) [OF on_market_same [of "sys.more s"]], of s k]
  by simp_all

section \<open>The boot hooks\<close>

definition upsert_category :: "default_category \<Rightarrow> ('x agents_scheme, unit) M" where
  "upsert_category d =
     bind (gets (\<lambda>s. t_find (\<lambda>g. g_slug g = dc_slug d) (agents_category s))) (\<lambda>old. case old of
       Some _ \<Rightarrow> return ()
     | None \<Rightarrow> seq (create_in agents_category agents_category_update (\<lambda>i.
         \<lparr>g_id = i, g_slug = dc_slug d, g_nameFa = dc_nameFa d, g_iconKey = dc_iconKey d,
          g_colorToken = dc_colorToken d, g_order = dc_order d, g_isActive = True\<rparr>)) (return ()))"

definition categories_onApplicationBootstrap :: "('x agents_scheme, unit) M" where
  "categories_onApplicationBootstrap = forEach DEFAULT_CATEGORIES upsert_category"

text \<open>The singleton row has the id 1 whatever the sequence says.\<close>

definition settings_onApplicationBootstrap :: "('x agents_scheme, unit) M" where
  "settings_onApplicationBootstrap =
     bind (gets (\<lambda>s. t_get st_id 1 (agents_settings s))) (\<lambda>old. case old of
       Some _ \<Rightarrow> return ()
     | None \<Rightarrow> modify (agents_settings_update (\<lambda>t. t\<lparr>rows := rows t @
         [settings_data.extend DEFAULT_AGENTS_SETTINGS
            (settings_row.fields 1 None)]\<rparr>)))"

section \<open>A small market\<close>

text \<open>Maker 2 has three listings: a one-time one for 1000 toman and a per-run one with a pack
  of ten runs for 5000, both published, and a free draft.  User 1 has the one-time listing in
  the cart.\<close>

definition sample_listing :: "int \<Rightarrow> string \<Rightarrow> pricing_type \<Rightarrow> int option \<Rightarrow> listing_status \<Rightarrow> listing_row" where
  "sample_listing i slug pt price st =
     \<lparr>l_id = i, l_slug = slug, l_titleFa = ''Title'', l_shortDescFa = ''Short'', l_longDescFaMd = ''Long'',
      l_installInstructionsFaMd = None, l_categoryId = 1, l_makerUserId = 2, l_pricingType = pt,
      l_oneTimePriceToman = price, l_status = st, l_rejectionReason = None, l_suspensionReason = None,
      l_isFeatured = False, l_featuredOrder = None, l_bundleFileId = None, l_apiKeyHash = Some ''ab'',
      l_totalUsers = 0, l_totalRuns = 0, l_viewCount = 0, l_ratingAverage = None, l_ratingCount = 0,
      l_publishedAt = (if st = LS_DRAFT then None else Some 0), l_createdAt = 0, l_updatedAt = 0,
      l_deletedAt = None\<rparr>"

definition sample_cart_row :: "int \<Rightarrow> int \<Rightarrow> int \<Rightarrow> int option \<Rightarrow> cart_row" where
  "sample_cart_row i u l p = \<lparr>c_id = i, c_userId = Some u, c_listingId = l, c_runPackId = p, c_addedAt = i\<rparr>"

definition sample_agents :: agents where
  "sample_agents = sys.extend sample_sys (agents.fields
     \<lparr>next_id = 2, rows = [\<lparr>g_id = 1, g_slug = ''code'', g_nameFa = ''Code'', g_iconKey = ''command'',
        g_colorToken = ''lemon'', g_order = 60, g_isActive = True\<rparr>]\<rparr>
     \<lparr>next_id = 4, rows = [sample_listing 1 ''one-time'' ONE_TIME (Some 1000) LS_PUBLISHED,
        sample_listing 2 ''per-run'' PER_RUN None LS_PUBLISHED, sample_listing 3 ''draft'' FREE None LS_DRAFT]\<rparr>
     empty_table
     \<lparr>next_id = 2, rows = [\<lparr>rp_id = 1, rp_listingId = 2, rp_nameFa = ''Ten'', rp_runs = 10,
        rp_priceToman = 5000, rp_order = 0, rp_isActive = True\<rparr>]\<rparr>
     \<lparr>next_id = 2, rows = [sample_cart_row 1 1 1 None]\<rparr>
     empty_table empty_table empty_table empty_table
     \<lparr>next_id = 1, rows = [settings_data.extend DEFAULT_AGENTS_SETTINGS (settings_row.fields 1 None)]\<rparr>)"

lemma sample_market [simp]:
  "agents_listing sample_agents = \<lparr>next_id = 4, rows = [sample_listing 1 ''one-time'' ONE_TIME (Some 1000) LS_PUBLISHED,
     sample_listing 2 ''per-run'' PER_RUN None LS_PUBLISHED, sample_listing 3 ''draft'' FREE None LS_DRAFT]\<rparr>"
  "agents_run_pack sample_agents = \<lparr>next_id = 2, rows = [\<lparr>rp_id = 1, rp_listingId = 2, rp_nameFa = ''Ten'',
     rp_runs = 10, rp_priceToman = 5000, rp_order = 0, rp_isActive = True\<rparr>]\<rparr>"
  "agents_cart_item sample_agents = \<lparr>next_id = 2, rows = [sample_cart_row 1 1 1 None]\<rparr>"
  "agents_purchase sample_agents = empty_table" "agents_user_runs sample_agents = empty_table"
  "agents_run_event sample_agents = empty_table" "agents_review sample_agents = empty_table"
  by (simp_all add: sample_agents_def sys.defs agents.defs)

lemma sample_market_users: "find_user 1 sample_agents \<noteq> None" "find_user 2 sample_agents \<noteq> None"
  by (simp_all add: sample_agents_def sys.defs agents.defs sample_sys_def empty_sys_def find_user_def
        t_get_def t_find_def sample_user_def)

lemma sample_listing_simps [simp]:
  "l_id (sample_listing i slug pt price st) = i" "l_slug (sample_listing i slug pt price st) = slug"
  "l_makerUserId (sample_listing i slug pt price st) = 2"
  "l_pricingType (sample_listing i slug pt price st) = pt"
  "l_oneTimePriceToman (sample_listing i slug pt price st) = price"
  "l_status (sample_listing i slug pt price st) = st" "l_deletedAt (sample_listing i slug pt price st) = None"
  "l_totalUsers (sample_listing i slug pt price st) = 0" "l_totalRuns (sample_listing i slug pt price st) = 0"
  "l_ratingAverage (sample_listing i slug pt price st) = None"
  "l_ratingCount (sample_listing i slug pt price st) = 0"
  "l_publishedAt (sample_listing i slug pt price st) = (if st = LS_DRAFT then None else Some 0)"
  by (simp_all add: sample_listing_def)

lemma sample_cart_row_simps [simp]:
  "c_id (sample_cart_row i u l p) = i" "c_userId (sample_cart_row i u l p) = Some u"
  "c_listingId (sample_cart_row i u l p) = l" "c_runPackId (sample_cart_row i u l p) = p"
  "c_addedAt (sample_cart_row i u l p) = i"
  by (simp_all add: sample_cart_row_def)

end
