(* ===== verification/Listings.thy ===== *)
theory Listings
  imports Market
begin

text \<open>
  The writes of modules/agents/services/listings.service.ts: create with its pricing-shape
  check, the review life cycle (submitForReview, approve, reject, suspend, unsuspend),
  counters, recomputeRating and softDelete.  Each service call is one step; the calls the
  code detaches with void run at the end of the step.  The lemmas show that every listing
  keeps the pricing its type asks for, that a maker never has more than the quota of
  listings, and along which edges a status moves.
\<close>

section \<open>Helpers\<close>

definition listingNotFound :: exn where
  "listingNotFound = http_exn LISTING_NOT_FOUND 404 ''Listing not found''"

primrec listing_status_string :: "listing_status \<Rightarrow> string" where
  "listing_status_string LS_DRAFT = ''DRAFT''"
| "listing_status_string LS_PENDING_REVIEW = ''PENDING_REVIEW''"
| "listing_status_string LS_PUBLISHED = ''PUBLISHED''"
| "listing_status_string LS_REJECTED = ''REJECTED''"
| "listing_status_string LS_SUSPENDED = ''SUSPENDED''"

datatype transition = SubmitForReview | Approve | Reject | Suspend | Unsuspend

primrec ALLOWED_FROM :: "transition \<Rightarrow> listing_status list" where
  "ALLOWED_FROM SubmitForReview = [LS_DRAFT]"
| "ALLOWED_FROM Approve = [LS_PENDING_REVIEW]"
| "ALLOWED_FROM Reject = [LS_PENDING_REVIEW]"
| "ALLOWED_FROM Suspend = [LS_PUBLISHED]"
| "ALLOWED_FROM Unsuspend = [LS_SUSPENDED]"

definition listing_live :: "int \<Rightarrow> 'x agents_scheme \<Rightarrow> listing_row option" where
  "listing_live i s = t_find (\<lambda>l. l_id l = i \<and> l_deletedAt l = None) (agents_listing s)"

text \<open>agents_listing.update by id: updatedAt is set by Prisma, VARCHAR limits by the database.  The
  BIGINT columns that a client chooses are written by create only.\<close>

definition listing_fits :: "listing_row \<Rightarrow> bool" where
  "listing_fits l \<longleftrightarrow> char_count (l_slug l) \<le> 120 \<and> char_count (l_titleFa l) \<le> 200 \<and>
     char_count (l_shortDescFa l) \<le> 300 \<and> vfits 500 (l_rejectionReason l) \<and>
     vfits 500 (l_suspensionReason l) \<and> vfits 64 (l_apiKeyHash l)"

definition in_int8 :: "int \<Rightarrow> bool" where
  "in_int8 n \<longleftrightarrow> - int8_max - 1 \<le> n \<and> n \<le> int8_max"

definition listing_numbers_fit :: "listing_row \<Rightarrow> bool" where
  "listing_numbers_fit l \<longleftrightarrow> in_int8 (l_categoryId l) \<and> pred_option in_int8 (l_oneTimePriceToman l) \<and> pred_option in_int8 (l_bundleFileId l)"

definition int8_overflow :: exn where
  "int8_overflow = PrismaKnown ''P2033'' JUndefined"

definition listing_update :: "int \<Rightarrow> int \<Rightarrow> (listing_row \<Rightarrow> listing_row) \<Rightarrow> ('x agents_scheme, listing_row) M" where
  "listing_update now i g =
     bind (gets (\<lambda>s. t_get l_id i (agents_listing s))) (\<lambda>found. case found of
       None \<Rightarrow> throw (PrismaKnown ''P2025'' JUndefined)
     | Some old \<Rightarrow>
         (if \<not> listing_fits (g old) then throw (PrismaKnown ''P2000'' JUndefined)
          else update_in agents_listing agents_listing_update l_id i
                 (\<lambda>l. (g l)\<lparr>l_updatedAt := now\<rparr>)))"

definition lockAndLoad :: "int \<Rightarrow> ('x agents_scheme, listing_row) M" where
  "lockAndLoad i =
     bind (gets (listing_live i)) (\<lambda>locked. case locked of
       None \<Rightarrow> throw listingNotFound
     | Some _ \<Rightarrow> bind (gets (\<lambda>s. t_get l_id i (agents_listing s))) (\<lambda>found. case found of
           None \<Rightarrow> throw listingNotFound
         | Some l \<Rightarrow> if l_deletedAt l \<noteq> None then throw listingNotFound else return l))"

definition bad_transition :: "listing_status \<Rightarrow> listing_status \<Rightarrow> exn" where
  "bad_transition st to_status =
       (http_exn_details INVALID_STATUS_TRANSITION 409
          (''Cannot transition listing from '' @ listing_status_string st @ '' to '' @ listing_status_string to_status)
          (JObj [(''from'', JStr (listing_status_string st)), (''to'', JStr (listing_status_string to_status))]))"

definition assertTransition :: "listing_status \<Rightarrow> transition \<Rightarrow> listing_status \<Rightarrow> ('s, unit) M" where
  "assertTransition st tr to_status =
     throwIf (st \<notin> set (ALLOWED_FROM tr)) (bad_transition st to_status)"

text \<open>Array.from(new Set(xs)): the first occurrence of each value stays.\<close>

definition js_distinct :: "'a list \<Rightarrow> 'a list" where
  "js_distinct xs = rev (remdups (rev xs))"

definition findAdminUserIds :: "('x sys_scheme, int list) M" where
  "findAdminUserIds = gets (\<lambda>s. js_distinct (map ur_userId (filter (\<lambda>ur.
     map_option r_name (t_get r_id (ur_roleId ur) (roles s)) \<in> {Some ''admin'', Some ''super_admin''})
       (user_roles s))))"

definition invalid_packs :: "string \<Rightarrow> exn" where
  "invalid_packs msg = http_exn INVALID_PACKS 400 msg"

definition packs_range :: string where
  "packs_range = int_to_string (int RUN_PACKS_MIN) @ ''-'' @ int_to_string (int RUN_PACKS_MAX)"

definition assertSubmissionReady :: "listing_row \<Rightarrow> ('x agents_scheme, unit) M" where
  "assertSubmissionReady l = (case l_pricingType l of
       PER_RUN \<Rightarrow> bind (gets (\<lambda>s. t_count (\<lambda>p. rp_listingId p = l_id l \<and> rp_isActive p) (agents_run_pack s)))
         (\<lambda>activePacks. throwIf (activePacks < RUN_PACKS_MIN \<or> RUN_PACKS_MAX < activePacks)
           (invalid_packs (''PER_RUN listings require '' @ packs_range @ '' active run packs at submission'')))
     | ONE_TIME \<Rightarrow> throwIf (case l_oneTimePriceToman l of None \<Rightarrow> True | Some p \<Rightarrow> p \<le> 0)
         (invalid_packs ''ONE_TIME listings require oneTimePriceToman > 0 at submission'')
     | FREE \<Rightarrow> return ())"

section \<open>Create\<close>

record run_pack_input =
  ki_nameFa :: string
  ki_runs :: int
  ki_priceToman :: int

record create_listing_input =
  cl_slug :: string
  cl_titleFa :: string
  cl_shortDescFa :: string
  cl_longDescFaMd :: string
  cl_categoryId :: int
  cl_pricingType :: pricing_type
  cl_oneTimePriceToman :: "int option"
  cl_installInstructionsFaMd :: "string option"
  cl_bundleFileId :: "int option"
  cl_runPacks :: "run_pack_input list option"

definition packs_of :: "create_listing_input \<Rightarrow> run_pack_input list" where
  "packs_of dto = (case cl_runPacks dto of None \<Rightarrow> [] | Some ps \<Rightarrow> ps)"

definition assertPricingShape :: "create_listing_input \<Rightarrow> ('s, unit) M" where
  "assertPricingShape dto = (case cl_pricingType dto of
       PER_RUN \<Rightarrow>
         (if length (packs_of dto) < RUN_PACKS_MIN \<or> RUN_PACKS_MAX < length (packs_of dto)
          then throw (invalid_packs (''PER_RUN listings require '' @ packs_range @ '' run packs''))
          else if list_ex (\<lambda>p. ki_runs p \<le> 0 \<or> ki_priceToman p \<le> 0) (packs_of dto)
          then throw (invalid_packs ''Each run pack requires runs > 0 and priceToman > 0'')
          else throwIf (cl_oneTimePriceToman dto \<noteq> None)
                 (invalid_packs ''oneTimePriceToman is not allowed on PER_RUN listings''))
     | ONE_TIME \<Rightarrow>
         (if (case cl_oneTimePriceToman dto of None \<Rightarrow> True | Some p \<Rightarrow> p \<le> 0)
          then throw (invalid_packs ''ONE_TIME listings require oneTimePriceToman > 0'')
          else throwIf (packs_of dto \<noteq> []) (invalid_packs ''runPacks are not allowed on ONE_TIME listings''))
     | FREE \<Rightarrow>
         (if cl_oneTimePriceToman dto \<noteq> None
          then throw (invalid_packs ''oneTimePriceToman is not allowed on FREE listings'')
          else throwIf (packs_of dto \<noteq> []) (invalid_packs ''runPacks are not allowed on FREE listings'')))"

definition listing_of_dto :: "int \<Rightarrow> int \<Rightarrow> create_listing_input \<Rightarrow> int \<Rightarrow> listing_row" where
  "listing_of_dto now makerUserId dto i =
     \<lparr>l_id = i, l_slug = map lower_char (cl_slug dto), l_titleFa = cl_titleFa dto,
      l_shortDescFa = cl_shortDescFa dto, l_longDescFaMd = cl_longDescFaMd dto,
      l_installInstructionsFaMd = cl_installInstructionsFaMd dto, l_categoryId = cl_categoryId dto,
      l_makerUserId = makerUserId, l_pricingType = cl_pricingType dto,
      l_oneTimePriceToman = cl_oneTimePriceToman dto, l_status = LS_DRAFT, l_rejectionReason = None,
      l_suspensionReason = None, l_isFeatured = False, l_featuredOrder = None,
      l_bundleFileId = cl_bundleFileId dto, l_apiKeyHash = None, l_totalUsers = 0, l_totalRuns = 0,
      l_viewCount = 0, l_ratingAverage = None, l_ratingCount = 0, l_publishedAt = None,
      l_createdAt = now, l_updatedAt = now, l_deletedAt = None\<rparr>"

lemma listing_of_dto_simps [simp]:
  "l_id (listing_of_dto now m dto i) = i" "l_makerUserId (listing_of_dto now m dto i) = m"
  "l_pricingType (listing_of_dto now m dto i) = cl_pricingType dto"
  "l_oneTimePriceToman (listing_of_dto now m dto i) = cl_oneTimePriceToman dto"
  "l_status (listing_of_dto now m dto i) = LS_DRAFT" "l_deletedAt (listing_of_dto now m dto i) = None"
  "l_slug (listing_of_dto now m dto i) = map lower_char (cl_slug dto)"
  "l_totalUsers (listing_of_dto now m dto i) = 0" "l_totalRuns (listing_of_dto now m dto i) = 0"
  "l_ratingAverage (listing_of_dto now m dto i) = None" "l_ratingCount (listing_of_dto now m dto i) = 0"
  by (simp_all add: listing_of_dto_def)

text \<open>The INSERT: numbers of 64 bits, column widths, the unique slug and the foreign keys.\<close>

definition listing_insert :: "(int \<Rightarrow> listing_row) \<Rightarrow> ('x agents_scheme, listing_row) M" where
  "listing_insert f =
     bind (gets (\<lambda>s. (t_new f (agents_listing s), s))) (\<lambda>(new, s).
     if \<not> listing_numbers_fit new then throw int8_overflow
     else if \<not> listing_fits new then throw (PrismaKnown ''P2000'' JUndefined)
     else if t_exists (\<lambda>l. l_slug l = l_slug new) (agents_listing s)
     then throw (PrismaKnown ''P2002'' (JArr [JStr ''slug'']))
     else if t_get g_id (l_categoryId new) (agents_category s) = None \<or> find_user (l_makerUserId new) s = None \<or>
         (case l_bundleFileId new of None \<Rightarrow> False | Some b \<Rightarrow> t_get f_id b (files s) = None)
     then throw (PrismaKnown ''P2003'' JUndefined)
     else create_in agents_listing agents_listing_update f)"

definition pack_insert :: "int \<Rightarrow> nat \<times> run_pack_input \<Rightarrow> ('x agents_scheme, unit) M" where
  "pack_insert listingId = (\<lambda>(index, pack).
     if \<not> (in_int8 (ki_runs pack) \<and> in_int8 (ki_priceToman pack)) then throw int8_overflow
     else if 80 < char_count (ki_nameFa pack) then throw (PrismaKnown ''P2000'' JUndefined)
     else seq (create_in agents_run_pack agents_run_pack_update (\<lambda>i.
       \<lparr>rp_id = i, rp_listingId = listingId, rp_nameFa = ki_nameFa pack, rp_runs = ki_runs pack,
        rp_priceToman = ki_priceToman pack, rp_order = int index, rp_isActive = True\<rparr>)) (return ()))"

definition listing_create_tx :: "int \<Rightarrow> int \<Rightarrow> create_listing_input \<Rightarrow> ('x agents_scheme, listing_row) M" where
  "listing_create_tx now makerUserId dto =
     bind (gets (\<lambda>s. t_find (\<lambda>l. map lower_char (l_slug l) = map lower_char (cl_slug dto) \<and> l_deletedAt l = None)
                      (agents_listing s))) (\<lambda>slugClash.
     if slugClash \<noteq> None then throw (http_exn SLUG_TAKEN 409 ''Slug already in use'')
     else bind (gets (\<lambda>s. t_count (\<lambda>l. l_makerUserId l = makerUserId \<and> l_deletedAt l = None) (agents_listing s)))
     (\<lambda>activeCount.
       if MAKER_LISTINGS_QUOTA \<le> activeCount
       then throw (http_exn MAKER_QUOTA_EXCEEDED 409
         (''Maker quota of '' @ int_to_string (int MAKER_LISTINGS_QUOTA) @ '' active listings exceeded''))
       else bind (listing_insert (listing_of_dto now makerUserId dto)) (\<lambda>listing.
         seq (if cl_pricingType dto = PER_RUN
              then forEach (enumerate 0 (packs_of dto)) (pack_insert (l_id listing)) else return ())
             (return listing))))"

definition listing_create :: "platform \<Rightarrow> int \<Rightarrow> create_listing_input \<Rightarrow> ('x agents_scheme, listing_row) M" where
  "listing_create pf makerUserId dto =
     seq (assertPricingShape dto) (transaction (listing_create_tx (pf_now pf) makerUserId dto))"

section \<open>Status transitions\<close>

definition SECTION_KEYS :: "string list" where
  "SECTION_KEYS = [''agents:section:featured'', ''agents:section:best-sellers'',
     ''agents:section:new-releases'', ''agents:section:recent-activity'']"

definition CATEGORIES_CACHE_KEY :: string where
  "CATEGORIES_CACHE_KEY = ''agents:categories:public''"

definition invalidateSectionCaches :: "('x sys_scheme, unit) M" where
  "invalidateSectionCaches = tryCatch (forEach SECTION_KEYS redis_del) (\<lambda>_. return ())"

definition categories_invalidateCache :: "('x sys_scheme, unit) M" where
  "categories_invalidateCache = tryCatch (redis_del CATEGORIES_CACHE_KEY) (\<lambda>_. return ())"

record audit_context =
  cx_ipAddress :: "string option"
  cx_userAgent :: "string option"

definition no_context :: audit_context where
  "no_context = \<lparr>cx_ipAddress = None, cx_userAgent = None\<rparr>"

definition listing_audit ::
    "platform \<Rightarrow> int \<Rightarrow> string \<Rightarrow> int \<Rightarrow> (string \<times> json) list \<Rightarrow> audit_context \<Rightarrow> ('x sys_scheme, unit) M" where
  "listing_audit pf actor action i payload ctx = audit_log (pf_sha256 pf) (pf_now pf)
     \<lparr>ae_actorUserId = Some actor, ae_action = action, ae_resource = ''agents_listing'',
      ae_resourceId = JBig i, ae_payload = payload, ae_ipAddress = cx_ipAddress ctx,
      ae_userAgent = cx_userAgent ctx, ae_impersonationSessionId = None, ae_failed = False\<rparr>"

definition notify :: "platform \<Rightarrow> int \<Rightarrow> string \<Rightarrow> payload \<Rightarrow> channel \<Rightarrow> ('x sys_scheme, unit) M" where
  "notify pf u ty pl ch = seq (dispatch (pf_env pf) u ty pl [ch]) (return ())"

definition title_payload :: "listing_row \<Rightarrow> payload" where
  "title_payload l = [(''listingTitle'', JStr (l_titleFa l))]"

text \<open>Nothing after the notifications throws, so a rolled back transaction has sent none.\<close>

definition submit_tx :: "platform \<Rightarrow> int \<Rightarrow> int \<Rightarrow> ('x agents_scheme, listing_row) M" where
  "submit_tx pf i makerUserId =
     bind (lockAndLoad i) (\<lambda>current.
     if l_makerUserId current \<noteq> makerUserId then throw listingNotFound
     else seq (assertTransition (l_status current) SubmitForReview LS_PENDING_REVIEW)
         (seq (assertSubmissionReady current)
         (bind (listing_update (pf_now pf) i (\<lambda>l. l\<lparr>l_status := LS_PENDING_REVIEW\<rparr>)) (\<lambda>nxt.
          bind findAdminUserIds (\<lambda>adminIds.
          seq (forEach adminIds (\<lambda>adminId. notify pf adminId ''AGENTS_NEW_LISTING_PENDING''
                 (title_payload nxt @ [(''makerName'', JStr (''m.'' @ int_to_string (l_makerUserId nxt)))]) IN_APP))
              (return nxt))))))"

definition submitForReview :: "platform \<Rightarrow> int \<Rightarrow> int \<Rightarrow> audit_context \<Rightarrow> ('x agents_scheme, listing_row) M" where
  "submitForReview pf i makerUserId ctx =
     bind (transaction (submit_tx pf i makerUserId)) (\<lambda>updated.
     seq (listing_audit pf makerUserId ''AGENTS_LISTING_SUBMITTED'' (l_id updated)
            [(''fromStatus'', JStr ''DRAFT''), (''toStatus'', JStr ''PENDING_REVIEW'')] ctx)
         (return updated))"

definition approve_tx :: "platform \<Rightarrow> int \<Rightarrow> ('x agents_scheme, listing_row) M" where
  "approve_tx pf i =
     bind (lockAndLoad i) (\<lambda>current.
     seq (assertTransition (l_status current) Approve LS_PUBLISHED)
     (bind (listing_update (pf_now pf) i (\<lambda>l. l\<lparr>l_status := LS_PUBLISHED,
              l_publishedAt := Some (case l_publishedAt current of Some t \<Rightarrow> t | None \<Rightarrow> pf_now pf),
              l_rejectionReason := None, l_suspensionReason := None\<rparr>)) (\<lambda>nxt.
      seq (notify pf (l_makerUserId nxt) ''AGENTS_LISTING_APPROVED'' (title_payload nxt) IN_APP)
          (return nxt))))"

definition listing_approve :: "platform \<Rightarrow> int \<Rightarrow> int \<Rightarrow> audit_context \<Rightarrow> ('x agents_scheme, listing_row) M" where
  "listing_approve pf i adminUserId ctx =
     bind (transaction (approve_tx pf i)) (\<lambda>updated.
     seq (notify pf (l_makerUserId updated) ''AGENTS_LISTING_APPROVED'' (title_payload updated) SMS)
    (seq invalidateSectionCaches
    (seq categories_invalidateCache
    (seq (listing_audit pf adminUserId ''AGENTS_LISTING_APPROVED'' (l_id updated)
            [(''toStatus'', JStr ''PUBLISHED'')] ctx)
         (return updated)))))"

definition reject_listing_tx :: "platform \<Rightarrow> int \<Rightarrow> string \<Rightarrow> ('x agents_scheme, listing_row) M" where
  "reject_listing_tx pf i reason =
     bind (lockAndLoad i) (\<lambda>current.
     seq (assertTransition (l_status current) Reject LS_REJECTED)
     (bind (listing_update (pf_now pf) i
              (\<lambda>l. l\<lparr>l_status := LS_REJECTED, l_rejectionReason := Some reason\<rparr>)) (\<lambda>nxt.
      seq (notify pf (l_makerUserId nxt) ''AGENTS_LISTING_REJECTED''
             (title_payload nxt @ [(''reason'', JStr reason)]) IN_APP)
          (return nxt))))"

definition listing_reject :: "platform \<Rightarrow> int \<Rightarrow> int \<Rightarrow> string \<Rightarrow> audit_context \<Rightarrow> ('x agents_scheme, listing_row) M" where
  "listing_reject pf i adminUserId reason ctx =
     bind (transaction (reject_listing_tx pf i reason)) (\<lambda>updated.
     seq (notify pf (l_makerUserId updated) ''AGENTS_LISTING_REJECTED''
            (title_payload updated @ [(''reason'', JStr reason)]) SMS)
    (seq (listing_audit pf adminUserId ''AGENTS_LISTING_REJECTED'' (l_id updated)
            [(''toStatus'', JStr ''REJECTED''), (''reason'', JStr reason)] ctx)
         (return updated)))"

definition suspend_tx :: "platform \<Rightarrow> int \<Rightarrow> string \<Rightarrow> ('x agents_scheme, listing_row) M" where
  "suspend_tx pf i reason =
     bind (lockAndLoad i) (\<lambda>current.
     seq (assertTransition (l_status current) Suspend LS_SUSPENDED)
     (bind (listing_update (pf_now pf) i
              (\<lambda>l. l\<lparr>l_status := LS_SUSPENDED, l_suspensionReason := Some reason\<rparr>)) (\<lambda>nxt.
      seq (notify pf (l_makerUserId nxt) ''AGENTS_LISTING_SUSPENDED''
             (title_payload nxt @ [(''reason'', JStr reason)]) IN_APP)
          (return nxt))))"

definition listing_suspend :: "platform \<Rightarrow> int \<Rightarrow> int \<Rightarrow> string \<Rightarrow> audit_context \<Rightarrow> ('x agents_scheme, listing_row) M" where
  "listing_suspend pf i adminUserId reason ctx =
     bind (transaction (suspend_tx pf i reason)) (\<lambda>updated.
     seq invalidateSectionCaches
    (seq categories_invalidateCache
    (seq (listing_audit pf adminUserId ''AGENTS_LISTING_SUSPENDED'' (l_id updated)
            [(''toStatus'', JStr ''SUSPENDED''), (''reason'', JStr reason)] ctx)
         (return updated))))"

definition unsuspend_tx :: "platform \<Rightarrow> int \<Rightarrow> ('x agents_scheme, listing_row) M" where
  "unsuspend_tx pf i =
     bind (lockAndLoad i) (\<lambda>current.
     seq (assertTransition (l_status current) Unsuspend LS_PUBLISHED)
         (listing_update (pf_now pf) i (\<lambda>l. l\<lparr>l_status := LS_PUBLISHED, l_suspensionReason := None\<rparr>)))"

definition listing_unsuspend :: "platform \<Rightarrow> int \<Rightarrow> int \<Rightarrow> audit_context \<Rightarrow> ('x agents_scheme, listing_row) M" where
  "listing_unsuspend pf i adminUserId ctx =
     bind (transaction (unsuspend_tx pf i)) (\<lambda>updated.
     seq invalidateSectionCaches
    (seq categories_invalidateCache
    (seq (listing_audit pf adminUserId ''AGENTS_LISTING_UNSUSPENDED'' (l_id updated)
            [(''toStatus'', JStr ''PUBLISHED'')] ctx)
         (return updated))))"

section \<open>Counters, rating and deletion\<close>

definition incrementUserCount :: "platform \<Rightarrow> int \<Rightarrow> ('x agents_scheme, unit) M" where
  "incrementUserCount pf i =
     seq (listing_update (pf_now pf) i (\<lambda>l. l\<lparr>l_totalUsers := l_totalUsers l + 1\<rparr>)) (return ())"

definition incrementRunCount :: "platform \<Rightarrow> int \<Rightarrow> ('x agents_scheme, unit) M" where
  "incrementRunCount pf i =
     seq (listing_update (pf_now pf) i (\<lambda>l. l\<lparr>l_totalRuns := l_totalRuns l + 1\<rparr>)) (return ())"

text \<open>The sample is Math.random() in thousandths of a thousandth.\<close>

definition recordView :: "platform \<Rightarrow> string \<Rightarrow> int \<Rightarrow> ('x agents_scheme, unit) M" where
  "recordView pf slug sample =
     (if 200000 \<le> sample then return ()
      else modify (agents_listing_update (t_update
        (\<lambda>l. l_slug l = slug \<and> l_status l = LS_PUBLISHED \<and> l_deletedAt l = None)
        (\<lambda>l. l\<lparr>l_viewCount := l_viewCount l + 1, l_updatedAt := pf_now pf\<rparr>))))"

definition visible_ratings :: "int \<Rightarrow> 'x agents_scheme \<Rightarrow> int list" where
  "visible_ratings i s = map v_rating (t_filter (\<lambda>v. v_listingId v = i \<and> \<not> v_isHidden v) (agents_review s))"

text \<open>The average to two decimals, halves up, in hundredths.\<close>

definition average2 :: "int list \<Rightarrow> int option" where
  "average2 rs = (if rs = [] then None else Some (round_div (100 * sum_list rs) (int (length rs))))"

definition recomputeRating :: "platform \<Rightarrow> int \<Rightarrow> ('x agents_scheme, unit) M" where
  "recomputeRating pf i =
     bind (gets (visible_ratings i)) (\<lambda>rs.
     seq (update_in agents_listing agents_listing_update l_id i (\<lambda>l. l\<lparr>l_ratingAverage := average2 rs,
            l_ratingCount := int (length rs), l_updatedAt := pf_now pf\<rparr>)) (return ()))"

definition listing_softDelete :: "platform \<Rightarrow> int \<Rightarrow> int \<Rightarrow> audit_context \<Rightarrow> ('x agents_scheme, unit) M" where
  "listing_softDelete pf i adminUserId ctx =
     seq (listing_update (pf_now pf) i (\<lambda>l. l\<lparr>l_deletedAt := Some (pf_now pf)\<rparr>))
         (listing_audit pf adminUserId ''AGENTS_LISTING_UPDATED'' i [(''softDeleted'', JBool True)] ctx)"

section \<open>How a listing row evolves\<close>

inductive status_edge :: "listing_status \<Rightarrow> listing_status \<Rightarrow> bool" where
  "status_edge LS_DRAFT LS_PENDING_REVIEW"
| "status_edge LS_PENDING_REVIEW LS_PUBLISHED"
| "status_edge LS_PENDING_REVIEW LS_REJECTED"
| "status_edge LS_PUBLISHED LS_SUSPENDED"
| "status_edge LS_SUSPENDED LS_PUBLISHED"

inductive_simps from_rejected: "status_edge LS_REJECTED b"

interpretation review: lifecycle status_edge "\<lambda>st. st = LS_REJECTED"
  by unfold_locales (simp add: from_rejected)

text \<open>What no operation changes.\<close>

definition listing_core ::
    "listing_row \<Rightarrow> int \<times> string \<times> int \<times> pricing_type \<times> int option \<times> int" where
  "listing_core l = (l_id l, l_slug l, l_makerUserId l, l_pricingType l, l_oneTimePriceToman l, l_createdAt l)"

definition row_step :: "listing_row \<Rightarrow> listing_row \<Rightarrow> bool" where
  "row_step l l' \<longleftrightarrow> listing_core l' = listing_core l \<and>
     (l_publishedAt l \<noteq> None \<longrightarrow> l_publishedAt l' = l_publishedAt l) \<and>
     (l_deletedAt l \<noteq> None \<longrightarrow> l_deletedAt l' \<noteq> None) \<and>
     (l_status l' = l_status l \<or> l_deletedAt l = None \<and> status_edge (l_status l) (l_status l') \<and>
        (l_status l' = LS_PUBLISHED \<and> l_status l = LS_PENDING_REVIEW \<longrightarrow> l_publishedAt l' \<noteq> None))"

definition evolves :: "listing_row table \<Rightarrow> listing_row table \<Rightarrow> bool" where
  "evolves T T' \<longleftrightarrow> (wf_table l_id T \<longrightarrow> wf_table l_id T') \<and>
     (wf_table l_id T \<longrightarrow> (\<forall>i l. t_get l_id i T = Some l \<longrightarrow>
        (\<exists>l'. t_get l_id i T' = Some l' \<and> row_step\<^sup>*\<^sup>* l l')))"

lemma listing_evolves_refl [simp]: "evolves T T"
  by (simp add: evolves_def)

lemma listing_evolves_trans: "evolves T T' \<Longrightarrow> evolves T' T'' \<Longrightarrow> evolves T T''"
  unfolding evolves_def by (meson rtranclp_trans)

lemma row_steps_core: "row_step\<^sup>*\<^sup>* l l' \<Longrightarrow> listing_core l' = listing_core l"
  by (induction rule: rtranclp_induct) (auto simp: row_step_def)

lemma row_steps_status: "row_step\<^sup>*\<^sup>* l l' \<Longrightarrow> status_edge\<^sup>*\<^sup>* (l_status l) (l_status l')"
proof (induction rule: rtranclp_induct)
  case (step y z)
  then have "l_status z = l_status y \<or> status_edge (l_status y) (l_status z)" by (auto simp: row_step_def)
  then show ?case using step.IH by (auto intro: rtranclp.rtrancl_into_rtrancl)
qed simp

lemma row_steps_published: "row_step\<^sup>*\<^sup>* l l' \<Longrightarrow> l_publishedAt l \<noteq> None \<Longrightarrow> l_publishedAt l' = l_publishedAt l"
  by (induction rule: rtranclp_induct) (auto simp: row_step_def)

lemma row_steps_deleted: "row_step\<^sup>*\<^sup>* l l' \<Longrightarrow> l_deletedAt l \<noteq> None \<Longrightarrow>
    l_deletedAt l' \<noteq> None \<and> l_status l' = l_status l"
  by (induction rule: rtranclp_induct) (auto simp: row_step_def)

lemma listing_evolves_change:
  assumes "\<And>l. t_get l_id i T = Some l \<Longrightarrow> row_step l (g l)" and "\<And>l. l_id (g l) = l_id l"
  shows "evolves T (t_change l_id i g T)"
  using assms by (auto simp: evolves_def t_get_change wf_t_change)

lemma listing_evolves_insert:
  assumes "\<And>i. l_id (f i) = i"
  shows "evolves T (t_insert f T)"
  using assms tbl.lookup_fresh [of l_id T] by (auto simp: evolves_def t_get_insert wf_t_insert)

lemma evolves_update:
  assumes "\<And>l. row_step l (g l)" and "\<And>l. l_id (g l) = l_id l"
  shows "evolves T (t_update P g T)"
proof -
  have "t_get l_id i (t_update P g T) = map_option (\<lambda>l. if P l then g l else l) (t_get l_id i T)" for i
    unfolding t_get_def t_find_def rows_t_update by (rule find_map_preserving) (simp add: assms(2))
  then show ?thesis using assms by (auto simp: evolves_def wf_t_update)
qed

section \<open>What the operations write\<close>

lemma wp_lockAndLoad [wp_eqs]: "wp (lockAndLoad i) Q E s =
    (case t_get l_id i (agents_listing s) of
       None \<Rightarrow> E listingNotFound s
     | Some l \<Rightarrow> if l_deletedAt l = None then Q l s else E listingNotFound s)"
proof -
  have "listing_live i s \<noteq> None" if "t_get l_id i (agents_listing s) = Some l" "l_deletedAt l = None" for l
    using that t_get_in [OF that(1)] t_get_key [OF that(1)] by (auto simp: listing_live_def t_find_None)
  moreover have "listing_live i s = None" if "t_get l_id i (agents_listing s) = None"
    using that by (auto simp: listing_live_def t_get_def t_find_None)
  ultimately show ?thesis
    by (auto simp: lockAndLoad_def wp_eqs split: option.splits)
qed

lemma wp_listing_update [wp_eqs]: "wp (listing_update now i g) Q E s =
    (case t_get l_id i (agents_listing s) of
       None \<Rightarrow> E (PrismaKnown ''P2025'' JUndefined) s
     | Some l \<Rightarrow> if \<not> listing_fits (g l) then E (PrismaKnown ''P2000'' JUndefined) s
         else Q ((g l)\<lparr>l_updatedAt := now\<rparr>)
                (agents_listing_update (t_change l_id i (\<lambda>l. (g l)\<lparr>l_updatedAt := now\<rparr>)) s))"
  by (auto simp: listing_update_def wp_eqs split: option.splits)

lemma notify_run: "\<exists>t. notify pf u ty pl ch s = (Inr (), t) \<and> same_books s t"
  using dispatch_total [of "pf_env pf" u ty pl "[ch]" s]
  by (auto simp: notify_def seq_def bind_def return_def)

lemma wp_assertTransition [wp_eqs]: "wp (assertTransition st tr to_st) Q E s =
    (if st \<in> set (ALLOWED_FROM tr) then Q () s else E (bad_transition st to_st) s)"
  by (simp add: assertTransition_def wp_eqs)

lemma wp_notify:
  assumes "on_market P" "P s"
  shows "wp (notify pf u ty pl ch) (\<lambda>_. P) E s"
proof -
  obtain t where t: "notify pf u ty pl ch s = (Inr (), t)" "same_books s t"
    using notify_run by blast
  then have "P t" using on_marketD [OF assms(1) _ assms(2)] same_books_fields(8) by blast
  then show ?thesis using t by (simp add: wp_def)
qed

lemma keeps_market_notify [keeps_intros]: "on_market P \<Longrightarrow> keeps P (notify pf u ty pl ch)"
  unfolding notify_def by (intro keeps_intros)

lemma keeps_market_caches [keeps_intros]:
  "on_market P \<Longrightarrow> keeps P invalidateSectionCaches"
  "on_market P \<Longrightarrow> keeps P categories_invalidateCache"
  "on_market P \<Longrightarrow> keeps P (listing_audit pf a act i pl ctx)"
  unfolding invalidateSectionCaches_def categories_invalidateCache_def listing_audit_def
  by (intro keeps_intros, assumption)+

text \<open>A moderation call writes at most one listing, along one step, and touches neither its
  counters nor any other table of the module.\<close>

definition tame :: "(listing_row \<Rightarrow> listing_row) \<Rightarrow> bool" where
  "tame g \<longleftrightarrow> (\<forall>l. listing_core (g l) = listing_core l \<and> l_totalUsers (g l) = l_totalUsers l \<and>
     l_totalRuns (g l) = l_totalRuns l \<and> l_ratingAverage (g l) = l_ratingAverage l \<and>
     l_ratingCount (g l) = l_ratingCount l)"

definition one_listing_written :: "'x agents_scheme \<Rightarrow> 'x agents_scheme \<Rightarrow> bool" where
  "one_listing_written s t \<longleftrightarrow> sys.more t = sys.more s \<or>
     (\<exists>i g l. t_get l_id i (agents_listing s) = Some l \<and> row_step l (g l) \<and> tame g \<and>
        sys.more t = sys.more (agents_listing_update (t_change l_id i g) s))"

lemma on_market_written: "on_market (one_listing_written s)"
  by (simp add: on_market_def one_listing_written_def)

lemma written_refl [simp]: "one_listing_written s s"
  by (simp add: one_listing_written_def)

lemma written_change: "t_get l_id i (agents_listing s) = Some l \<Longrightarrow> row_step l (g l) \<Longrightarrow> tame g \<Longrightarrow>
    one_listing_written s (agents_listing_update (t_change l_id i g) s)"
  unfolding one_listing_written_def by blast

lemma written_bind:
  assumes "wp tx (\<lambda>_. one_listing_written s) (\<lambda>_ _. True) s"
    and "\<And>x P. on_market P \<Longrightarrow> keeps P (rest x)"
  shows "one_listing_written s (snd (bind (transaction tx) rest s))"
proof -
  have "wp (rest x) (\<lambda>_. one_listing_written s) (\<lambda>_. one_listing_written s) t"
    if "one_listing_written s t" for x t
    using keepsD [OF assms(2) [OF on_market_written] that] by (simp add: wp_same)
  then have "wp (bind (transaction tx) rest) (\<lambda>_. one_listing_written s) (\<lambda>_. one_listing_written s) s"
    unfolding wp_bind wp_transaction by (auto intro: wp_mono [OF assms(1)])
  then show ?thesis by (simp add: wp_same)
qed

lemmas step_defs = row_step_def tame_def listing_core_def status_edge.simps

lemma approve_writes: "one_listing_written s (snd (listing_approve pf i a ctx s))"
  unfolding listing_approve_def
proof (rule written_bind)
  show "wp (approve_tx pf i) (\<lambda>_. one_listing_written s) (\<lambda>_ _. True) s"
    by (auto simp: approve_tx_def wp_eqs split: option.splits
        intro!: wp_notify [OF on_market_written] written_change simp: step_defs)
qed (intro keeps_intros, assumption+)

lemma reject_writes: "one_listing_written s (snd (listing_reject pf i a reason ctx s))"
  unfolding listing_reject_def
proof (rule written_bind)
  show "wp (reject_listing_tx pf i reason) (\<lambda>_. one_listing_written s) (\<lambda>_ _. True) s"
    by (auto simp: reject_listing_tx_def wp_eqs split: option.splits
        intro!: wp_notify [OF on_market_written] written_change simp: step_defs)
qed (intro keeps_intros, assumption+)

lemma suspend_writes: "one_listing_written s (snd (listing_suspend pf i a reason ctx s))"
  unfolding listing_suspend_def
proof (rule written_bind)
  show "wp (suspend_tx pf i reason) (\<lambda>_. one_listing_written s) (\<lambda>_ _. True) s"
    by (auto simp: suspend_tx_def wp_eqs split: option.splits
        intro!: wp_notify [OF on_market_written] written_change simp: step_defs)
qed (intro keeps_intros, assumption+)

lemma unsuspend_writes: "one_listing_written s (snd (listing_unsuspend pf i a ctx s))"
  unfolding listing_unsuspend_def
proof (rule written_bind)
  show "wp (unsuspend_tx pf i) (\<lambda>_. one_listing_written s) (\<lambda>_ _. True) s"
    by (auto simp: unsuspend_tx_def wp_eqs split: option.splits intro!: written_change simp: step_defs)
qed (intro keeps_intros, assumption+)

lemma wp_kept: "keeps P m \<Longrightarrow> P s \<Longrightarrow> wp m (\<lambda>_. P) (\<lambda>_. P) s"
  by (simp add: wp_same keepsD)

lemma wp_assertSubmissionReady:
  assumes "Q () s"
  shows "wp (assertSubmissionReady l) Q (\<lambda>_ _. True) s"
  using assms by (auto simp: assertSubmissionReady_def wp_eqs split: pricing_type.splits option.splits)

lemma submit_writes: "one_listing_written s (snd (submitForReview pf i m ctx s))"
  unfolding submitForReview_def
proof (rule written_bind)
  have n: "wp (forEach ids (\<lambda>a. notify pf a ty pl IN_APP)) (\<lambda>_. one_listing_written s) (\<lambda>_ _. True) t"
    if "one_listing_written s t" for ids ty pl t
    by (rule wp_mono [OF wp_kept [where P = "one_listing_written s", OF _ that]])
       (intro keeps_intros on_market_written, simp_all)
  show "wp (submit_tx pf i m) (\<lambda>_. one_listing_written s) (\<lambda>_ _. True) s"
    by (auto simp: submit_tx_def wp_eqs findAdminUserIds_def split: option.splits
        intro!: wp_assertSubmissionReady n written_change simp: step_defs)
qed (intro keeps_intros, assumption+)

lemma softDelete_writes: "one_listing_written s (snd (listing_softDelete pf i a ctx s))"
proof -
  have k: "wp (listing_audit pf a act i pl ctx) (\<lambda>_. one_listing_written s) (\<lambda>_. one_listing_written s) t"
    if "one_listing_written s t" for act pl t
    by (rule wp_kept [where P = "one_listing_written s", OF _ that]) (intro keeps_intros on_market_written)
  have "wp (listing_softDelete pf i a ctx) (\<lambda>_. one_listing_written s) (\<lambda>_. one_listing_written s) s"
    by (auto simp: listing_softDelete_def wp_eqs split: option.splits
        intro!: k written_change simp: step_defs)
  then show ?thesis by (simp add: wp_same)
qed

text \<open>Moderation and views as one datatype of calls.\<close>

datatype listing_op =
    LSubmit int int
  | LApprove int int
  | LReject int int string
  | LSuspend int int string
  | LUnsuspend int int
  | LSoftDelete int int
  | LView string int
  | LCreate int create_listing_input

definition run_listing :: "platform \<Rightarrow> audit_context \<Rightarrow> listing_op \<Rightarrow> 'x agents_scheme \<Rightarrow> 'x agents_scheme" where
  "run_listing pf ctx op s = (case op of
       LSubmit i m \<Rightarrow> snd (submitForReview pf i m ctx s)
     | LApprove i a \<Rightarrow> snd (listing_approve pf i a ctx s)
     | LReject i a reason \<Rightarrow> snd (listing_reject pf i a reason ctx s)
     | LSuspend i a reason \<Rightarrow> snd (listing_suspend pf i a reason ctx s)
     | LUnsuspend i a \<Rightarrow> snd (listing_unsuspend pf i a ctx s)
     | LSoftDelete i a \<Rightarrow> snd (listing_softDelete pf i a ctx s)
     | LView slug sample \<Rightarrow> snd (recordView pf slug sample s)
     | LCreate m dto \<Rightarrow> snd (listing_create pf m dto s))"

section \<open>The catalog invariant\<close>

definition active_packs :: "int \<Rightarrow> run_pack_row table \<Rightarrow> nat" where
  "active_packs i K = t_count (\<lambda>p. rp_listingId p = i \<and> rp_isActive p) K"

definition priced :: "run_pack_row table \<Rightarrow> listing_row \<Rightarrow> bool" where
  "priced K l \<longleftrightarrow> (case l_pricingType l of
       FREE \<Rightarrow> l_oneTimePriceToman l = None \<and> active_packs (l_id l) K = 0
     | ONE_TIME \<Rightarrow> (case l_oneTimePriceToman l of None \<Rightarrow> False | Some p \<Rightarrow> 0 < p) \<and> active_packs (l_id l) K = 0
     | PER_RUN \<Rightarrow> l_oneTimePriceToman l = None \<and>
         RUN_PACKS_MIN \<le> active_packs (l_id l) K \<and> active_packs (l_id l) K \<le> RUN_PACKS_MAX)"

definition active_listings :: "int \<Rightarrow> listing_row table \<Rightarrow> nat" where
  "active_listings m L = t_count (\<lambda>l. l_makerUserId l = m \<and> l_deletedAt l = None) L"

definition catalog_ok :: "'x agents_scheme \<Rightarrow> bool" where
  "catalog_ok s \<longleftrightarrow> wf_table l_id (agents_listing s) \<and> wf_table rp_id (agents_run_pack s) \<and>
     (\<forall>l \<in> set (rows (agents_listing s)). priced (agents_run_pack s) l) \<and>
     (\<forall>p \<in> set (rows (agents_run_pack s)). 0 < rp_runs p \<and> 0 < rp_priceToman p \<and>
        t_get l_id (rp_listingId p) (agents_listing s) \<noteq> None) \<and>
     distinct (map l_slug (rows (agents_listing s))) \<and>
     (\<forall>m. active_listings m (agents_listing s) \<le> MAKER_LISTINGS_QUOTA) \<and>
     (\<forall>l \<in> set (rows (agents_listing s)). l_status l \<in> {LS_PUBLISHED, LS_SUSPENDED} \<longrightarrow> l_publishedAt l \<noteq> None)"

lemma on_market_catalog: "on_market catalog_ok"
proof (rule on_marketI)
  fix s t :: "'x agents_scheme"
  assume h: "sys.more s = sys.more t"
  show "catalog_ok s = catalog_ok t" unfolding catalog_ok_def market_fields [OF h] by (rule refl)
qed

lemma t_count_update_le:
  assumes "\<And>r. r \<in> set (rows T) \<Longrightarrow> Q r \<Longrightarrow> P (g r) \<Longrightarrow> P r"
  shows "t_count P (t_update Q g T) \<le> t_count P T"
proof -
  have "length (filter P (map (\<lambda>r. if Q r then g r else r) rs)) \<le> length (filter P rs)"
    if "\<And>r. r \<in> set rs \<Longrightarrow> Q r \<Longrightarrow> P (g r) \<Longrightarrow> P r" for rs
    using that by (induction rs) (auto simp: le_SucI)
  then show ?thesis using assms by (simp add: t_count_def t_filter_def t_update_def)
qed

lemma priced_core: "listing_core l' = listing_core l \<Longrightarrow> priced K l' = priced K l"
  by (cases "l_pricingType l") (simp_all add: priced_def listing_core_def)

text \<open>Rewriting listing rows along steps keeps the catalog.\<close>

lemma catalog_update:
  assumes ok: "catalog_ok s"
    and g: "\<And>l. l \<in> set (rows (agents_listing s)) \<Longrightarrow> P l \<Longrightarrow> row_step l (g l)" "\<And>l. l_id (g l) = l_id l"
    and t: "sys.more t = sys.more (agents_listing_update (t_update P g) s)"
  shows "catalog_ok t"
proof (rule on_marketD [OF on_market_catalog t])
  let ?L = "agents_listing s" and ?L' = "t_update P g (agents_listing s)"
  have core: "listing_core (if P l then g l else l) = listing_core l" if "l \<in> set (rows ?L)" for l
    using g(1) that by (simp add: row_step_def)
  have "map listing_core (rows ?L') = map listing_core (rows ?L)"
    using core by (simp add: rows_t_update)
  then have "map (fst \<circ> snd \<circ> listing_core) (rows ?L') = map (fst \<circ> snd \<circ> listing_core) (rows ?L)"
    by (metis map_map)
  then have slugs: "map l_slug (rows ?L') = map l_slug (rows ?L)"
    by (simp add: comp_def listing_core_def)
  have pr: "priced K (if P l then g l else l) = priced K l" if "l \<in> set (rows ?L)" for l K
    using core [OF that] by (rule priced_core)
  have act: "active_listings m ?L' \<le> active_listings m ?L" for m
    unfolding active_listings_def
  proof (rule t_count_update_le)
    fix r assume r: "r \<in> set (rows ?L)" "P r" "l_makerUserId (g r) = m \<and> l_deletedAt (g r) = None"
    from g(1) [OF r(1,2)] r(3) show "l_makerUserId r = m \<and> l_deletedAt r = None"
      by (auto simp: row_step_def listing_core_def)
  qed
  have get: "t_get l_id i ?L' \<noteq> None" if "t_get l_id i ?L \<noteq> None" for i
    using that g(2) by (auto simp: t_get_def t_find_None rows_t_update)
  have pub: "l_publishedAt (if P l then g l else l) \<noteq> None"
    if "l \<in> set (rows ?L)" "l_status (if P l then g l else l) \<in> {LS_PUBLISHED, LS_SUSPENDED}" for l
  proof -
    have "l_status l \<in> {LS_PUBLISHED, LS_SUSPENDED} \<longrightarrow> l_publishedAt l \<noteq> None"
      using ok that(1) by (simp add: catalog_ok_def)
    then show ?thesis
      using g(1) [OF that(1)] that(2) by (cases "P l") (auto simp: row_step_def status_edge.simps)
  qed
  have rs: "set (rows ?L') = (\<lambda>l. if P l then g l else l) ` set (rows ?L)"
    by (simp only: rows_t_update set_map)
  have "wf_table l_id ?L'" "distinct (map l_slug (rows ?L'))"
    using ok g(2) slugs by (simp_all add: catalog_ok_def)
  moreover have "priced (agents_run_pack s) l" if "l \<in> set (rows ?L')" for l
    using that ok pr unfolding rs by (auto simp only: catalog_ok_def)
  moreover have "l_publishedAt l \<noteq> None" if "l \<in> set (rows ?L')" "l_status l \<in> {LS_PUBLISHED, LS_SUSPENDED}" for l
    using that pub unfolding rs by blast
  moreover have "active_listings m ?L' \<le> MAKER_LISTINGS_QUOTA" for m
    using act [of m] ok by (auto simp only: catalog_ok_def intro: order_trans)
  moreover have "\<forall>p \<in> set (rows (agents_run_pack s)). 0 < rp_runs p \<and> 0 < rp_priceToman p \<and>
      t_get l_id (rp_listingId p) ?L' \<noteq> None" "wf_table rp_id (agents_run_pack s)"
    using ok get unfolding catalog_ok_def by blast+
  ultimately show "catalog_ok (agents_listing_update (t_update P g) s)"
    unfolding catalog_ok_def by simp
qed

lemma catalog_written: "one_listing_written s t \<Longrightarrow> catalog_ok s \<Longrightarrow> catalog_ok t"
proof -
  assume ok: "catalog_ok s" and w: "one_listing_written s t"
  show "catalog_ok t"
  proof (cases "sys.more t = sys.more s")
    case True
    then show ?thesis using on_marketD [OF on_market_catalog _ ok] by simp
  next
    case False
    with w obtain i g l where g: "t_get l_id i (agents_listing s) = Some l" "row_step l (g l)" "tame g"
        "sys.more t = sys.more (agents_listing_update (t_change l_id i g) s)"
      unfolding one_listing_written_def by blast
    have u: "l' = l" if "l' \<in> set (rows (agents_listing s))" "l_id l' = i" for l'
      using ok g(1) t_get_in [OF g(1)] t_get_key [OF g(1)] that wf_key_unique
      by (fastforce simp: catalog_ok_def)
    show ?thesis
      by (rule catalog_update [OF ok, where P = "\<lambda>r. l_id r = i" and g = g])
         (use g u in \<open>auto simp: t_change_def [abs_def] tame_def listing_core_def\<close>)
  qed
qed

lemma recordView_run: "snd (recordView pf slug sample s) = s \<or>
    snd (recordView pf slug sample s) = agents_listing_update (t_update
      (\<lambda>l. l_slug l = slug \<and> l_status l = LS_PUBLISHED \<and> l_deletedAt l = None)
      (\<lambda>l. l\<lparr>l_viewCount := l_viewCount l + 1, l_updatedAt := pf_now pf\<rparr>)) s"
  by (simp add: recordView_def modify_def return_def)

lemma catalog_view: "catalog_ok s \<Longrightarrow> catalog_ok (snd (recordView pf slug sample s))"
proof -
  assume ok: "catalog_ok s"
  have "catalog_ok (agents_listing_update (t_update
      (\<lambda>l. l_slug l = slug \<and> l_status l = LS_PUBLISHED \<and> l_deletedAt l = None)
      (\<lambda>l. l\<lparr>l_viewCount := l_viewCount l + 1, l_updatedAt := pf_now pf\<rparr>)) s)"
    by (rule catalog_update [OF ok _ _ refl]) (simp_all add: row_step_def listing_core_def)
  then show ?thesis using recordView_run [of pf slug sample s] ok by presburger
qed

section \<open>What create writes\<close>

definition pack_row :: "int \<Rightarrow> nat \<times> run_pack_input \<Rightarrow> int \<Rightarrow> run_pack_row" where
  "pack_row listingId ip i = \<lparr>rp_id = i, rp_listingId = listingId, rp_nameFa = ki_nameFa (snd ip),
     rp_runs = ki_runs (snd ip), rp_priceToman = ki_priceToman (snd ip), rp_order = int (fst ip),
     rp_isActive = True\<rparr>"

fun add_packs :: "int \<Rightarrow> (nat \<times> run_pack_input) list \<Rightarrow> run_pack_row table \<Rightarrow> run_pack_row table" where
  "add_packs l [] K = K"
| "add_packs l (ip # ips) K = add_packs l ips (t_insert (pack_row l ip) K)"

lemma pack_insert_run: "pack_insert l ip s = (x, t) \<Longrightarrow>
    (\<exists>e. x = Inl e \<and> t = s) \<or> x = Inr () \<and> t = agents_run_pack_update (t_insert (pack_row l ip)) s"
  by (cases ip) (auto simp: pack_insert_def pack_row_def [abs_def] run_simps create_in_def split: if_splits)

lemma pack_inserts_run: "forEach ips (pack_insert l) s = (x, t) \<Longrightarrow>
    (\<exists>e. x = Inl e) \<or> x = Inr () \<and> t = agents_run_pack_update (add_packs l ips) s"
proof (induction ips arbitrary: s)
  case (Cons ip ips)
  obtain y u where y: "pack_insert l ip s = (y, u)" by (cases "pack_insert l ip s")
  show ?case
  proof (cases y)
    case (Inl e)
    then show ?thesis using Cons.prems y by (auto simp: seq_def bind_def)
  next
    case (Inr b)
    then have u: "u = agents_run_pack_update (t_insert (pack_row l ip)) s"
      using pack_insert_run [OF y] by auto
    have "forEach ips (pack_insert l) u = (x, t)" using Cons.prems y Inr by (simp add: seq_def bind_def)
    from Cons.IH [OF this] show ?thesis
      by (auto simp: u comp_def)
  qed
qed (simp add: return_def)

lemma add_packs_rows: "p \<in> set (rows (add_packs l ips K)) \<Longrightarrow>
    p \<in> set (rows K) \<or> (\<exists>ip \<in> set ips. \<exists>i. p = pack_row l ip i)"
  by (induction l ips K rule: add_packs.induct) (auto simp: rows_t_insert)

lemma wf_add_packs: "wf_table rp_id K \<Longrightarrow> wf_table rp_id (add_packs l ips K)"
  by (induction l ips K rule: add_packs.induct) (simp_all add: pack_row_def)

text \<open>The packs a create writes: those of a PER_RUN listing.\<close>

definition dto_packs :: "create_listing_input \<Rightarrow> (nat \<times> run_pack_input) list" where
  "dto_packs dto = (if cl_pricingType dto = PER_RUN then enumerate 0 (packs_of dto) else [])"

definition shape_ok :: "create_listing_input \<Rightarrow> bool" where
  "shape_ok dto \<longleftrightarrow> (case cl_pricingType dto of
       FREE \<Rightarrow> cl_oneTimePriceToman dto = None \<and> packs_of dto = []
     | ONE_TIME \<Rightarrow> (case cl_oneTimePriceToman dto of None \<Rightarrow> False | Some p \<Rightarrow> 0 < p) \<and> packs_of dto = []
     | PER_RUN \<Rightarrow> cl_oneTimePriceToman dto = None \<and>
         RUN_PACKS_MIN \<le> length (packs_of dto) \<and> length (packs_of dto) \<le> RUN_PACKS_MAX \<and>
         list_all (\<lambda>p. 0 < ki_runs p \<and> 0 < ki_priceToman p) (packs_of dto))"

lemma assertPricingShape_run: "assertPricingShape dto s = (x, t) \<Longrightarrow> t = s \<and> (x = Inr () \<longleftrightarrow> shape_ok dto)"
  by (auto simp: assertPricingShape_def shape_ok_def run_simps list_ex_iff list_all_iff not_less not_le
      split: pricing_type.splits if_splits option.splits)

lemma listing_create_run:
  assumes "listing_create pf m dto s = (x, t)"
  shows "(\<exists>e. x = Inl e \<and> t = s) \<or>
    (let new = listing_of_dto (pf_now pf) m dto (next_id (agents_listing s)) in
     x = Inr new \<and> shape_ok dto \<and> active_listings m (agents_listing s) < MAKER_LISTINGS_QUOTA \<and>
     l_slug new \<notin> l_slug ` set (rows (agents_listing s)) \<and> find_user m s \<noteq> None \<and>
     t = agents_run_pack_update (add_packs (l_id new) (dto_packs dto))
           (agents_listing_update (t_insert (listing_of_dto (pf_now pf) m dto)) s))"
proof (cases x)
  case (Inl e)
  then show ?thesis using assms
    by (auto simp: listing_create_def seq_def bind_def transaction_def
        dest: assertPricingShape_run split: sum.splits prod.splits)
next
  case (Inr row)
  have sh: "shape_ok dto" "transaction (listing_create_tx (pf_now pf) m dto) s = (x, t)"
    using assms Inr assertPricingShape_run [of dto s]
    by (auto simp: listing_create_def seq_def bind_def split: sum.splits prod.splits)
  have packs: "wp (forEach (enumerate 0 (packs_of dto)) (pack_insert l))
      (\<lambda>_ t. t = agents_run_pack_update (add_packs l (enumerate 0 (packs_of dto))) u) (\<lambda>_ _. True) u" for l u
    using pack_inserts_run [of "enumerate 0 (packs_of dto)" l u] by (auto simp: wp_iff)
  have "wp (transaction (listing_create_tx (pf_now pf) m dto)) (\<lambda>row t.
      let new = listing_of_dto (pf_now pf) m dto (next_id (agents_listing s)) in
      row = new \<and> active_listings m (agents_listing s) < MAKER_LISTINGS_QUOTA \<and>
      l_slug new \<notin> l_slug ` set (rows (agents_listing s)) \<and> find_user m s \<noteq> None \<and>
      t = agents_run_pack_update (add_packs (l_id new) (dto_packs dto))
           (agents_listing_update (t_insert (listing_of_dto (pf_now pf) m dto)) s)) (\<lambda>_ _. True) s"
    by (auto simp: listing_create_tx_def listing_insert_def wp_eqs t_new_def Let_def active_listings_def
        t_exists_def list_ex_iff not_le dto_packs_def intro!: wp_mono [OF packs])
  from wp_result [OF this, of row t] sh Inr show ?thesis by (simp add: Let_def)
qed

text \<open>The invariant over creation.\<close>

lemma active_packs_add:
  "active_packs i (add_packs l ips K) = active_packs i K + (if i = l then length ips else 0)"
proof (induction ips arbitrary: K)
  case (Cons ip ips)
  then show ?case
    by (simp add: active_packs_def t_count_def t_filter_def rows_t_insert pack_row_def)
qed simp

lemma priced_packs: "active_packs (l_id l) K' = active_packs (l_id l) K \<Longrightarrow> priced K' l = priced K l"
  by (cases "l_pricingType l") (simp_all add: priced_def)

lemma dto_packs_good: "shape_ok dto \<Longrightarrow> ip \<in> set (dto_packs dto) \<Longrightarrow>
    0 < ki_runs (snd ip) \<and> 0 < ki_priceToman (snd ip)"
  by (cases ip) (auto simp: shape_ok_def dto_packs_def list_all_iff in_set_enumerate_eq split: if_splits)

lemma catalog_insert:
  assumes ok: "catalog_ok s" and nl: "nl = listing_of_dto now m dto (next_id (agents_listing s))"
    and sh: "shape_ok dto" and quota: "active_listings m (agents_listing s) < MAKER_LISTINGS_QUOTA"
    and slug: "l_slug nl \<notin> l_slug ` set (rows (agents_listing s))"
    and t: "t = agents_run_pack_update (add_packs (l_id nl) (dto_packs dto))
           (agents_listing_update (t_insert (listing_of_dto now m dto)) s)"
  shows "catalog_ok t"
proof -
  let ?L = "agents_listing s" and ?K = "agents_run_pack s"
  have L': "rows (agents_listing t) = rows ?L @ [nl]" by (simp add: t nl rows_t_insert)
  have K': "agents_run_pack t = add_packs (l_id nl) (dto_packs dto) ?K" by (simp add: t)
  have old: "l_id l < next_id ?L" if "l \<in> set (rows ?L)" for l
    using ok that by (simp add: catalog_ok_def wf_table_def)
  have id: "l_id nl = next_id ?L" by (simp add: nl)
  have fresh: "active_packs (l_id nl) ?K = 0"
  proof -
    have "rp_listingId p \<noteq> l_id nl" if "p \<in> set (rows ?K)" for p
    proof
      assume "rp_listingId p = l_id nl"
      then have "t_get l_id (next_id ?L) ?L \<noteq> None"
        using ok that id by (force simp only: catalog_ok_def)
      then show False using tbl.lookup_fresh [of l_id ?L] ok by (simp add: catalog_ok_def)
    qed
    then show ?thesis by (auto simp: active_packs_def t_count_def t_filter_def filter_empty_conv)
  qed
  have wf: "wf_table l_id (agents_listing t)" "wf_table rp_id (agents_run_pack t)"
    using ok by (simp_all add: t catalog_ok_def wf_add_packs)
  have pr_old: "priced (agents_run_pack t) l" if "l \<in> set (rows ?L)" for l
  proof -
    have "priced ?K l" using ok that by (simp add: catalog_ok_def)
    moreover have "active_packs (l_id l) (agents_run_pack t) = active_packs (l_id l) ?K"
      using old [OF that] id by (simp add: K' active_packs_add)
    ultimately show ?thesis using priced_packs by blast
  qed
  have pr_new: "priced (agents_run_pack t) nl"
    using sh fresh
    by (cases "cl_pricingType dto")
       (simp_all add: priced_def K' active_packs_add dto_packs_def shape_ok_def nl)
  have packs: "0 < rp_runs p \<and> 0 < rp_priceToman p \<and> t_get l_id (rp_listingId p) (agents_listing t) \<noteq> None"
    if "p \<in> set (rows (agents_run_pack t))" for p
  proof -
    from add_packs_rows that consider "p \<in> set (rows ?K)" |
      ip i where "ip \<in> set (dto_packs dto)" "p = pack_row (l_id nl) ip i" unfolding K' by blast
    then show ?thesis
    proof cases
      case 1
      then have "0 < rp_runs p \<and> 0 < rp_priceToman p \<and> t_get l_id (rp_listingId p) ?L \<noteq> None"
        using ok by (simp add: catalog_ok_def)
      then show ?thesis using ok
        by (auto simp: t catalog_ok_def dest: tbl.create_other [where f = "listing_of_dto now m dto", rotated 2])
    next
      case 2
      have "t_get l_id (next_id ?L) (agents_listing t) \<noteq> None"
        using ok tbl.create_own [of l_id ?L "listing_of_dto now m dto"] by (simp add: t catalog_ok_def)
      then show ?thesis using 2 dto_packs_good [OF sh 2(1)] by (simp add: pack_row_def id)
    qed
  qed
  have slugs: "distinct (map l_slug (rows (agents_listing t)))"
    using ok slug by (simp add: L' catalog_ok_def)
  have "active_listings m' (agents_listing t) \<le> MAKER_LISTINGS_QUOTA" for m'
    using ok quota
    by (auto simp: active_listings_def t_count_def t_filter_def L' nl catalog_ok_def)
  moreover have "l_publishedAt l \<noteq> None"
    if "l \<in> set (rows (agents_listing t))" "l_status l \<in> {LS_PUBLISHED, LS_SUSPENDED}" for l
    using ok that by (auto simp: L' nl catalog_ok_def)
  moreover have "priced (agents_run_pack t) l" if "l \<in> set (rows (agents_listing t))" for l
    using that pr_old pr_new by (auto simp: L')
  ultimately show ?thesis using wf packs slugs unfolding catalog_ok_def by blast
qed

lemma catalog_create: "catalog_ok s \<Longrightarrow> catalog_ok (snd (listing_create pf m dto s))"
proof -
  assume ok: "catalog_ok s"
  obtain x t where xt: "listing_create pf m dto s = (x, t)" by (cases "listing_create pf m dto s")
  from listing_create_run [OF xt] show ?thesis
  proof (elim disjE)
    assume "let new = listing_of_dto (pf_now pf) m dto (next_id (agents_listing s)) in
     x = Inr new \<and> shape_ok dto \<and> active_listings m (agents_listing s) < MAKER_LISTINGS_QUOTA \<and>
     l_slug new \<notin> l_slug ` set (rows (agents_listing s)) \<and> find_user m s \<noteq> None \<and>
     t = agents_run_pack_update (add_packs (l_id new) (dto_packs dto))
           (agents_listing_update (t_insert (listing_of_dto (pf_now pf) m dto)) s)"
    then obtain nl where nl: "nl = listing_of_dto (pf_now pf) m dto (next_id (agents_listing s))"
      and sh: "shape_ok dto" and quota: "active_listings m (agents_listing s) < MAKER_LISTINGS_QUOTA"
      and slug: "l_slug nl \<notin> l_slug ` set (rows (agents_listing s))"
      and t: "t = agents_run_pack_update (add_packs (l_id nl) (dto_packs dto))
           (agents_listing_update (t_insert (listing_of_dto (pf_now pf) m dto)) s)"
      by (auto simp: Let_def)
    have "catalog_ok t" by (rule catalog_insert [OF ok nl sh quota slug t])
    then show ?thesis using xt by simp
  qed (use ok xt in auto)
qed

section \<open>Properties\<close>

lemma evolves_written: "one_listing_written s t \<Longrightarrow> wf_table l_id (agents_listing s) \<Longrightarrow>
    evolves (agents_listing s) (agents_listing t)"
proof -
  assume w: "one_listing_written s t" and wf: "wf_table l_id (agents_listing s)"
  show ?thesis
  proof (cases "sys.more t = sys.more s")
    case True
    show ?thesis unfolding market_fields(2) [OF True] by simp
  next
    case False
    with w obtain i g l where g: "t_get l_id i (agents_listing s) = Some l" "row_step l (g l)" "tame g"
        "sys.more t = sys.more (agents_listing_update (t_change l_id i g) s)"
      unfolding one_listing_written_def by blast
    have "agents_listing t = t_change l_id i g (agents_listing s)"
      using market_fields(2) [OF g(4)] by simp
    moreover have "evolves (agents_listing s) (t_change l_id i g (agents_listing s))"
      by (rule listing_evolves_change) (use g in \<open>auto simp: tame_def listing_core_def\<close>)
    ultimately show ?thesis by simp
  qed
qed

lemma run_listing_evolves:
  assumes "wf_table l_id (agents_listing s)"
  shows "evolves (agents_listing s) (agents_listing (run_listing pf ctx op s))"
proof (cases op)
  case (LView slug sample)
  have "evolves (agents_listing s) (t_update
      (\<lambda>l. l_slug l = slug \<and> l_status l = LS_PUBLISHED \<and> l_deletedAt l = None)
      (\<lambda>l. l\<lparr>l_viewCount := l_viewCount l + 1, l_updatedAt := pf_now pf\<rparr>) (agents_listing s))"
    by (rule evolves_update) (simp_all add: row_step_def listing_core_def)
  with recordView_run [of pf slug sample s] show ?thesis
    unfolding LView run_listing_def listing_op.case by (elim disjE) (simp_all only: listing_evolves_refl agents.select_convs agents.update_convs, simp)
next
  case (LCreate m dto)
  obtain x t where xt: "listing_create pf m dto s = (x, t)" by (cases "listing_create pf m dto s")
  from listing_create_run [OF xt] have "agents_listing t = agents_listing s \<or>
      agents_listing t = t_insert (listing_of_dto (pf_now pf) m dto) (agents_listing s)"
    by (auto simp: Let_def)
  then show ?thesis using LCreate xt
      listing_evolves_insert [of "listing_of_dto (pf_now pf) m dto" "agents_listing s"]
    by (auto simp: run_listing_def)
qed (simp_all add: run_listing_def evolves_written [OF _ assms] submit_writes approve_writes
       reject_writes suspend_writes unsuspend_writes softDelete_writes)

lemma run_listing_catalog: "catalog_ok s \<Longrightarrow> catalog_ok (run_listing pf ctx op s)"
  by (cases op)
     (simp_all add: run_listing_def catalog_view catalog_create
        catalog_written [OF submit_writes] catalog_written [OF approve_writes]
        catalog_written [OF reject_writes] catalog_written [OF suspend_writes]
        catalog_written [OF unsuspend_writes] catalog_written [OF softDelete_writes])

text \<open>Calls at their times.\<close>

fun run_listings :: "platform \<Rightarrow> audit_context \<Rightarrow> (int \<times> listing_op) list \<Rightarrow> 'x agents_scheme \<Rightarrow> 'x agents_scheme" where
  "run_listings pf ctx [] s = s"
| "run_listings pf ctx ((now, op) # ops) s = run_listings pf ctx ops (run_listing (pf_at now pf) ctx op s)"

lemma run_listings_catalog: "catalog_ok s \<Longrightarrow> catalog_ok (run_listings pf ctx ops s)"
  by (induction pf ctx ops s rule: run_listings.induct) (simp_all add: run_listing_catalog)

lemma run_listings_evolves:
  "wf_table l_id (agents_listing s) \<Longrightarrow> evolves (agents_listing s) (agents_listing (run_listings pf ctx ops s))"
proof (induction pf ctx ops s rule: run_listings.induct)
  case (2 pf ctx now op ops s)
  have e: "evolves (agents_listing s) (agents_listing (run_listing (pf_at now pf) ctx op s))"
    by (rule run_listing_evolves [OF 2(2)])
  then have "wf_table l_id (agents_listing (run_listing (pf_at now pf) ctx op s))"
    using 2(2) by (simp add: evolves_def)
  then show ?case using listing_evolves_trans [OF e] 2(1) by simp
qed simp

text \<open>C15. Over any calls of the listing service a listing keeps its maker, slug, pricing type
  and price; its status moves only along draft, pending review, published or rejected, and
  published to suspended and back; a rejected or deleted listing keeps its status for good,
  and the time of first publication never changes.\<close>

theorem listing_lifecycle:
  assumes "wf_table l_id (agents_listing s)" "t_get l_id i (agents_listing s) = Some l"
  shows "\<exists>l'. t_get l_id i (agents_listing (run_listings pf ctx ops s)) = Some l' \<and>
    listing_core l' = listing_core l \<and> status_edge\<^sup>*\<^sup>* (l_status l) (l_status l') \<and>
    (l_status l = LS_REJECTED \<longrightarrow> l_status l' = LS_REJECTED) \<and>
    (l_deletedAt l \<noteq> None \<longrightarrow> l_deletedAt l' \<noteq> None \<and> l_status l' = l_status l) \<and>
    (l_publishedAt l \<noteq> None \<longrightarrow> l_publishedAt l' = l_publishedAt l)"
proof -
  obtain l' where l': "t_get l_id i (agents_listing (run_listings pf ctx ops s)) = Some l'" "row_step\<^sup>*\<^sup>* l l'"
    using run_listings_evolves [OF assms(1), of pf ctx ops] assms unfolding evolves_def by blast
  have st: "status_edge\<^sup>*\<^sup>* (l_status l) (l_status l')" by (rule row_steps_status [OF l'(2)])
  show ?thesis
    using l' st review.terminal_forever [OF st] row_steps_core [OF l'(2)] row_steps_deleted [OF l'(2)]
      row_steps_published [OF l'(2)]
    by (intro exI [of _ l'] conjI) simp_all
qed

text \<open>C16. The catalog stays sound: FREE listings have no price, ONE_TIME listings a positive
  one, PER_RUN listings between one and five active packs with positive runs and prices;
  slugs are unique, no maker has more than fifty undeleted listings, and whatever is
  published or suspended has a publication time.\<close>

theorem catalog_stays_sound:
  assumes "catalog_ok s"
  shows "catalog_ok (run_listings pf ctx ops s)"
  by (rule run_listings_catalog [OF assms])

section \<open>Witnesses\<close>

lemma sample_catalog_ok: "catalog_ok sample_agents"
proof -
  have "active_listings m (agents_listing sample_agents) \<le> 3" for m
    by (simp add: active_listings_def t_count_def t_filter_def)
  then have "active_listings m (agents_listing sample_agents) \<le> MAKER_LISTINGS_QUOTA" for m
    by (rule order_trans) (simp add: MAKER_LISTINGS_QUOTA_def)
  then show ?thesis
    by (simp add: catalog_ok_def wf_table_def priced_def active_packs_def t_count_def t_filter_def
          RUN_PACKS_MIN_def RUN_PACKS_MAX_def t_get_def t_find_def)
qed

lemma listing_lifecycle_witness:
  "\<exists>l'. t_get l_id 3 (agents_listing (run_listings sample_admin_platform no_context
      [(1, LSubmit 3 2), (2, LApprove 3 1), (3, LSuspend 3 1 ''x'')] sample_agents)) = Some l' \<and>
    l_makerUserId l' = 2 \<and> status_edge\<^sup>*\<^sup>* LS_DRAFT (l_status l')"
proof -
  have w: "wf_table l_id (agents_listing sample_agents)" using sample_catalog_ok by (simp add: catalog_ok_def)
  have g: "t_get l_id 3 (agents_listing sample_agents) = Some (sample_listing 3 ''draft'' FREE None LS_DRAFT)"
    by (simp add: t_get_def t_find_def)
  from listing_lifecycle [OF w g, of sample_admin_platform no_context
      "[(1, LSubmit 3 2), (2, LApprove 3 1), (3, LSuspend 3 1 ''x'')]"]
  show ?thesis by (force simp: listing_core_def)
qed

lemma catalog_stays_sound_witness:
  "catalog_ok (run_listings sample_admin_platform no_context
      [(1, LSubmit 3 2), (2, LApprove 3 1), (3, LView ''draft'' 5)] sample_agents)"
  by (rule catalog_stays_sound [OF sample_catalog_ok])

end
