(* ===== verification/Cart.thy ===== *)
theory Cart
  imports Listings
begin

text \<open>
  The cart: modules/agents/services/cart.service.ts (addItem, removeItem, clearForUser,
  mergeGuestCart), the adapter of the agents module (cart-adapter.service.ts) and the
  aggregator of the core that fans out to the adapters of all modules
  (core/cart/cart-aggregator.service.ts).  The contract of an adapter is the locale
  cart_adapter, interpreted on the agents adapter.  The lemmas show that a cart holds only
  listings of other makers with a pack of their own, that adding twice adds once, and that
  merging a guest cart never throws.
\<close>

section \<open>cart.service.ts\<close>

record add_item_input =
  ai_listingId :: int
  ai_runPackId :: "int option"

definition owned :: "int \<Rightarrow> int \<Rightarrow> 'x agents_scheme \<Rightarrow> bool" where
  "owned userId listingId s \<longleftrightarrow> t_exists (\<lambda>b. b_userId b = userId \<and> b_listingId b = listingId \<and>
     b_status b = PU_COMPLETED) (agents_purchase s)"

definition active_pack :: "int \<Rightarrow> int \<Rightarrow> 'x agents_scheme \<Rightarrow> run_pack_row option" where
  "active_pack packId listingId s =
     t_find (\<lambda>p. rp_id p = packId \<and> rp_listingId p = listingId \<and> rp_isActive p) (agents_run_pack s)"

text \<open>The checks of addItem: the listing and the pack the line will carry.\<close>

definition cart_check :: "int \<Rightarrow> add_item_input \<Rightarrow> ('x agents_scheme, int \<times> int option) M" where
  "cart_check userId input =
     bind (gets (listing_live (ai_listingId input))) (\<lambda>found. case found of
       None \<Rightarrow> throw listingNotFound
     | Some listing \<Rightarrow>
         if l_status listing \<noteq> LS_PUBLISHED
         then throw (http_exn LISTING_NOT_PURCHASABLE 409 ''Listing is not currently purchasable'')
         else if l_makerUserId listing = userId
         then throw (http_exn CANNOT_BUY_OWN_LISTING 409 ''You cannot purchase your own listing'')
         else if l_pricingType listing = PER_RUN then
           (case ai_runPackId input of
              None \<Rightarrow> throw (http_exn INVALID_RUN_PACK 400 ''A run pack is required for PER_RUN listings'')
            | Some packId \<Rightarrow> bind (gets (active_pack packId (l_id listing))) (\<lambda>pack. case pack of
                None \<Rightarrow> throw (http_exn INVALID_RUN_PACK 400
                  ''Run pack does not belong to this listing or is inactive'')
              | Some p \<Rightarrow> return (l_id listing, Some (rp_id p))))
         else bind (gets (owned userId (l_id listing))) (\<lambda>existing.
           if existing then throw (http_exn ALREADY_OWNED 409 ''You already own this listing'')
           else return (l_id listing, None)))"

definition cart_find :: "int \<Rightarrow> int \<Rightarrow> int option \<Rightarrow> 'x agents_scheme \<Rightarrow> cart_row option" where
  "cart_find userId listingId runPackId s =
     t_find (\<lambda>c. c_userId c = Some userId \<and> c_listingId c = listingId \<and> c_runPackId c = runPackId)
       (agents_cart_item s)"

text \<open>The INSERT: NULL never collides in the unique index on user, listing and pack; then
  the foreign key to users.\<close>

definition cart_create :: "int \<Rightarrow> int \<Rightarrow> int \<Rightarrow> int option \<Rightarrow> ('x agents_scheme, cart_row) M" where
  "cart_create now userId listingId runPackId =
     bind (gets (\<lambda>s. (runPackId \<noteq> None \<and> cart_find userId listingId runPackId s \<noteq> None, find_user userId s = None)))
     (\<lambda>(clash, orphan).
       if clash then throw (PrismaKnown ''P2002'' (JArr [JStr ''userId'', JStr ''listingId'', JStr ''runPackId'']))
       else if orphan then throw (PrismaKnown ''P2003'' JUndefined)
       else create_in agents_cart_item agents_cart_item_update (\<lambda>i.
         \<lparr>c_id = i, c_userId = Some userId, c_listingId = listingId, c_runPackId = runPackId, c_addedAt = now\<rparr>))"

definition cart_insert :: "int \<Rightarrow> int \<Rightarrow> int \<times> int option \<Rightarrow> ('x agents_scheme, cart_row) M" where
  "cart_insert now userId = (\<lambda>(listingId, runPackId).
     bind (gets (cart_find userId listingId runPackId)) (\<lambda>existing. case existing of
       Some c \<Rightarrow> return c
     | None \<Rightarrow> tryCatch (cart_create now userId listingId runPackId) (\<lambda>e.
         if (case e of PrismaKnown code _ \<Rightarrow> code = ''P2002'' | _ \<Rightarrow> False)
         then bind (gets (cart_find userId listingId runPackId)) (\<lambda>raced. case raced of
                Some c \<Rightarrow> return c | None \<Rightarrow> throw e)
         else throw e)))"

definition addItem :: "platform \<Rightarrow> int \<Rightarrow> add_item_input \<Rightarrow> ('x agents_scheme, cart_row) M" where
  "addItem pf userId input = bind (cart_check userId input) (cart_insert (pf_now pf) userId)"

definition removeItem :: "int \<Rightarrow> int \<Rightarrow> ('x agents_scheme, unit) M" where
  "removeItem userId cartItemId =
     bind (gets (\<lambda>s. t_count (\<lambda>c. c_id c = cartItemId \<and> c_userId c = Some userId) (agents_cart_item s))) (\<lambda>count.
     seq (modify (agents_cart_item_update (t_delete (\<lambda>c. c_id c = cartItemId \<and> c_userId c = Some userId))))
         (if count = 0 then throw (http_exn NOT_FOUND 404 ''Cart item not found'') else return ()))"

definition cart_clearForUser :: "int \<Rightarrow> ('x agents_scheme, unit) M" where
  "cart_clearForUser userId = modify (agents_cart_item_update (t_delete (\<lambda>c. c_userId c = Some userId)))"

definition extractErrorCode :: "exn \<Rightarrow> string" where
  "extractErrorCode e = (case e of
       HttpException _ (RespObject r) \<Rightarrow>
         (case jget r ''code'' of JStr c \<Rightarrow> c | _ \<Rightarrow> code_string INTERNAL_ERROR)
     | _ \<Rightarrow> code_string INTERNAL_ERROR)"

record merge_failure =
  mf_listingId :: string
  mf_runPackId :: "string option"
  mf_reason :: string

record merge_result =
  mr_merged :: nat
  mr_failed :: "merge_failure list"

definition merge_one :: "platform \<Rightarrow> int \<Rightarrow> add_item_input \<Rightarrow> merge_result \<Rightarrow> ('x agents_scheme, merge_result) M" where
  "merge_one pf userId item r =
     tryCatch (seq (addItem pf userId item) (return (r\<lparr>mr_merged := mr_merged r + 1\<rparr>)))
       (\<lambda>e. return (r\<lparr>mr_failed := mr_failed r @ [
          \<lparr>mf_listingId = int_to_string (ai_listingId item),
           mf_runPackId = map_option int_to_string (ai_runPackId item),
           mf_reason = extractErrorCode e\<rparr>]\<rparr>))"

fun merge_items :: "platform \<Rightarrow> int \<Rightarrow> add_item_input list \<Rightarrow> merge_result \<Rightarrow> ('x agents_scheme, merge_result) M" where
  "merge_items pf userId [] r = return r"
| "merge_items pf userId (item # rest) r =
     bind (merge_one pf userId item r) (merge_items pf userId rest)"

definition mergeGuestCart :: "platform \<Rightarrow> int \<Rightarrow> add_item_input list \<Rightarrow> ('x agents_scheme, merge_result) M" where
  "mergeGuestCart pf userId guest = merge_items pf userId guest \<lparr>mr_merged = 0, mr_failed = []\<rparr>"

section \<open>The adapter of the agents module\<close>

record cart_line =
  cd_moduleSource :: string
  cd_moduleItemId :: string
  cd_titleFa :: string
  cd_priceToman :: int
  cd_metadata :: "(string \<times> json) list"

primrec pricing_string :: "pricing_type \<Rightarrow> string" where
  "pricing_string FREE = ''FREE''"
| "pricing_string ONE_TIME = ''ONE_TIME''"
| "pricing_string PER_RUN = ''PER_RUN''"

definition zero_or :: "int option \<Rightarrow> int" where
  "zero_or p = (case p of Some n \<Rightarrow> n | None \<Rightarrow> 0)"

text \<open>The foreign key makes the listing of a line exist.\<close>

definition cart_line_of :: "'x agents_scheme \<Rightarrow> cart_row \<Rightarrow> cart_line list" where
  "cart_line_of s item = (case t_get l_id (c_listingId item) (agents_listing s) of
       None \<Rightarrow> []
     | Some l \<Rightarrow>
         (let pack = (case c_runPackId item of None \<Rightarrow> None | Some p \<Rightarrow> t_get rp_id p (agents_run_pack s)) in
          [\<lparr>cd_moduleSource = ''agents'', cd_moduleItemId = int_to_string (c_id item), cd_titleFa = l_titleFa l,
            cd_priceToman = (case l_pricingType l of
                FREE \<Rightarrow> 0
              | ONE_TIME \<Rightarrow> zero_or (l_oneTimePriceToman l)
              | PER_RUN \<Rightarrow> zero_or (map_option rp_priceToman pack)),
            cd_metadata = [(''listingId'', JBig (l_id l)),
              (''runPackId'', case c_runPackId item of Some p \<Rightarrow> JBig p | None \<Rightarrow> JNull),
              (''pricingType'', JStr (pricing_string (l_pricingType l))), (''slug'', JStr (l_slug l))]\<rparr>]))"

definition adapter_getForUser :: "int \<Rightarrow> ('x agents_scheme, cart_line list) M" where
  "adapter_getForUser userId = gets (\<lambda>s. concat (map (cart_line_of s)
     (sort_key c_addedAt (t_filter (\<lambda>c. c_userId c = Some userId) (agents_cart_item s)))))"

definition adapter_removeItem :: "int \<Rightarrow> string \<Rightarrow> ('x agents_scheme, unit) M" where
  "adapter_removeItem userId moduleItemId = (case js_BigInt moduleItemId of
       None \<Rightarrow> throw (JsError (''Cannot convert '' @ moduleItemId @ '' to a BigInt''))
     | Some i \<Rightarrow> modify (agents_cart_item_update (t_delete (\<lambda>c. c_id c = i \<and> c_userId c = Some userId))))"

section \<open>The aggregator\<close>

record 's cart_adapter =
  ad_moduleSource :: string
  ad_getForUser :: "int \<Rightarrow> ('s, cart_line list) M"
  ad_removeItem :: "int \<Rightarrow> string \<Rightarrow> ('s, unit) M"
  ad_clearForUser :: "int \<Rightarrow> ('s, unit) M"

text \<open>Map.set: a known key keeps its place.\<close>

definition registerAdapter :: "'s cart_adapter \<Rightarrow> 's cart_adapter list \<Rightarrow> 's cart_adapter list" where
  "registerAdapter a ads =
     (if list_ex (\<lambda>b. ad_moduleSource b = ad_moduleSource a) ads
      then map (\<lambda>b. if ad_moduleSource b = ad_moduleSource a then a else b) ads
      else ads @ [a])"

definition aggregate_getForUser :: "'s cart_adapter list \<Rightarrow> int \<Rightarrow> ('s, cart_line list) M" where
  "aggregate_getForUser ads userId =
     bind (mapEach ads (\<lambda>a. ad_getForUser a userId)) (\<lambda>results. return (concat results))"

definition aggregate_removeItem :: "'s cart_adapter list \<Rightarrow> int \<Rightarrow> string \<Rightarrow> string \<Rightarrow> ('s, unit) M" where
  "aggregate_removeItem ads userId moduleSource moduleItemId =
     (case List.find (\<lambda>a. ad_moduleSource a = moduleSource) ads of
        None \<Rightarrow> throw (HttpException 404 (RespObject [
          (''message'', JStr (''No cart adapter registered for module '' @ [CHR 0x27] @ moduleSource @ [CHR 0x27])),
          (''error'', JStr ''Not Found''), (''statusCode'', JNum 404)]))
      | Some a \<Rightarrow> ad_removeItem a userId moduleItemId)"

definition aggregate_clearForUser :: "'s cart_adapter list \<Rightarrow> int \<Rightarrow> ('s, unit) M" where
  "aggregate_clearForUser ads userId = forEach ads (\<lambda>a. ad_clearForUser a userId)"

definition agents_adapter :: "'x agents_scheme cart_adapter" where
  "agents_adapter = \<lparr>ad_moduleSource = ''agents'', ad_getForUser = adapter_getForUser,
     ad_removeItem = adapter_removeItem, ad_clearForUser = cart_clearForUser\<rparr>"

section \<open>What a cart can hold\<close>

definition cart_line_ok :: "'x agents_scheme \<Rightarrow> cart_row \<Rightarrow> bool" where
  "cart_line_ok s c \<longleftrightarrow> (\<exists>u l. c_userId c = Some u \<and> t_get l_id (c_listingId c) (agents_listing s) = Some l \<and>
     l_makerUserId l \<noteq> u \<and>
     (if l_pricingType l = PER_RUN
      then \<exists>p k. c_runPackId c = Some p \<and> t_get rp_id p (agents_run_pack s) = Some k \<and> rp_listingId k = l_id l
      else c_runPackId c = None))"

definition cart_ok :: "'x agents_scheme \<Rightarrow> bool" where
  "cart_ok s \<longleftrightarrow> wf_table c_id (agents_cart_item s) \<and> (\<forall>c \<in> set (rows (agents_cart_item s)). cart_line_ok s c)"

lemma on_market_cart: "on_market cart_ok"
proof (rule on_marketI)
  fix s t :: "'x agents_scheme"
  assume h: "sys.more s = sys.more t"
  show "cart_ok s = cart_ok t" unfolding cart_ok_def cart_line_ok_def market_fields [OF h] by (rule refl)
qed

lemma listing_live_get: "wf_table l_id (agents_listing s) \<Longrightarrow> listing_live i s = Some l \<Longrightarrow>
    t_get l_id i (agents_listing s) = Some l \<and> l_deletedAt l = None \<and> l_id l = i"
  unfolding listing_live_def by (drule t_find_Some) (auto dest: t_get_self)

lemma active_pack_get: "wf_table rp_id (agents_run_pack s) \<Longrightarrow> active_pack p l s = Some k \<Longrightarrow>
    t_get rp_id p (agents_run_pack s) = Some k \<and> rp_listingId k = l \<and> rp_isActive k \<and> rp_id k = p"
  unfolding active_pack_def by (drule t_find_Some) (auto dest: t_get_self)

text \<open>What the checks of addItem let through.\<close>

lemma cart_check_run:
  assumes "cart_check userId input s = (x, t)"
  shows "t = s \<and> (\<forall>r. x = Inr r \<longrightarrow> (\<exists>l. listing_live (ai_listingId input) s = Some l \<and>
    l_status l = LS_PUBLISHED \<and> l_makerUserId l \<noteq> userId \<and> fst r = l_id l \<and>
    (if l_pricingType l = PER_RUN
     then \<exists>p k. ai_runPackId input = Some p \<and> active_pack p (l_id l) s = Some k \<and> snd r = Some (rp_id k)
     else \<not> owned userId (l_id l) s \<and> snd r = None)))"
  using assms by (auto simp: cart_check_def run_simps split: option.splits if_splits)

lemma cart_find_Some: "cart_find u l p s = Some c \<Longrightarrow>
    c \<in> set (rows (agents_cart_item s)) \<and> c_userId c = Some u \<and> c_listingId c = l \<and> c_runPackId c = p"
  unfolding cart_find_def by (drule t_find_Some) simp

definition new_cart_row :: "int \<Rightarrow> int \<Rightarrow> int \<times> int option \<Rightarrow> int \<Rightarrow> cart_row" where
  "new_cart_row now userId lp i = \<lparr>c_id = i, c_userId = Some userId, c_listingId = fst lp,
     c_runPackId = snd lp, c_addedAt = now\<rparr>"

lemma cart_insert_run:
  assumes "cart_insert now u lp s = (x, t)"
  shows "(\<exists>e. x = Inl e \<and> t = s) \<or>
    (\<exists>c. x = Inr c \<and> t = s \<and> cart_find u (fst lp) (snd lp) s = Some c) \<or>
    cart_find u (fst lp) (snd lp) s = None \<and> x = Inr (new_cart_row now u lp (next_id (agents_cart_item s))) \<and>
      t = agents_cart_item_update (t_insert (new_cart_row now u lp)) s"
  using assms
  by (cases lp) (auto simp: cart_insert_def cart_create_def run_simps create_in_def t_new_def
      new_cart_row_def [abs_def] split: option.splits if_splits)

lemma addItem_run:
  assumes "addItem pf u input s = (x, t)"
  shows "(\<exists>e. x = Inl e \<and> t = s) \<or> (\<exists>lp c. cart_check u input s = (Inr lp, s) \<and> x = Inr c \<and>
     (t = s \<and> cart_find u (fst lp) (snd lp) s = Some c \<or>
      cart_find u (fst lp) (snd lp) s = None \<and> c = new_cart_row (pf_now pf) u lp (next_id (agents_cart_item s)) \<and>
      t = agents_cart_item_update (t_insert (new_cart_row (pf_now pf) u lp)) s))"
proof -
  obtain y u' where ch: "cart_check u input s = (y, u')" by (cases "cart_check u input s")
  have u': "u' = s" using cart_check_run [OF ch] by simp
  show ?thesis
  proof (cases y)
    case (Inl e)
    then show ?thesis using assms ch u' by (auto simp: addItem_def bind_def)
  next
    case (Inr lp)
    then have "cart_insert (pf_now pf) u lp s = (x, t)"
      using assms ch u' by (simp add: addItem_def bind_def)
    from cart_insert_run [OF this] show ?thesis using ch u' Inr by blast
  qed
qed

lemma cart_line_ok_new:
  assumes "catalog_ok s" "cart_check u input s = (Inr lp, s)"
  shows "cart_line_ok s (new_cart_row now u lp i)"
proof -
  have wf: "wf_table l_id (agents_listing s)" "wf_table rp_id (agents_run_pack s)"
    using assms(1) by (simp_all add: catalog_ok_def)
  from cart_check_run [OF assms(2)] obtain l where l: "listing_live (ai_listingId input) s = Some l"
      "l_makerUserId l \<noteq> u" "fst lp = l_id l"
      "if l_pricingType l = PER_RUN
       then \<exists>p k. ai_runPackId input = Some p \<and> active_pack p (l_id l) s = Some k \<and> snd lp = Some (rp_id k)
       else \<not> owned u (l_id l) s \<and> snd lp = None" by auto
  have g: "t_get l_id (l_id l) (agents_listing s) = Some l" using listing_live_get [OF wf(1) l(1)] by simp
  show ?thesis
  proof (cases "l_pricingType l = PER_RUN")
    case True
    then obtain p k where "active_pack p (l_id l) s = Some k" "snd lp = Some (rp_id k)" using l(4) by auto
    then show ?thesis using active_pack_get [OF wf(2)] g l(2,3) True
      by (force simp: cart_line_ok_def new_cart_row_def)
  next
    case False
    then show ?thesis using g l by (simp add: cart_line_ok_def new_cart_row_def)
  qed
qed

lemma cart_line_ok_same:
  "agents_listing t = agents_listing s \<Longrightarrow> agents_run_pack t = agents_run_pack s \<Longrightarrow>
   cart_line_ok t c = cart_line_ok s c"
  by (simp add: cart_line_ok_def)

lemma addItem_cart_ok:
  assumes "catalog_ok s" "cart_ok s"
  shows "cart_ok (snd (addItem pf u input s))" "catalog_ok (snd (addItem pf u input s))"
proof -
  obtain x t where xt: "addItem pf u input s = (x, t)" by (cases "addItem pf u input s")
  have "cart_ok t \<and> catalog_ok t"
    using addItem_run [OF xt]
  proof (elim disjE exE conjE)
    fix lp c
    assume ch: "cart_check u input s = (Inr lp, s)"
      and t: "t = agents_cart_item_update (t_insert (new_cart_row (pf_now pf) u lp)) s"
    have "wf_table c_id (agents_cart_item t)" using assms(2) by (simp add: t cart_ok_def new_cart_row_def)
    moreover have "cart_line_ok t c" if "c \<in> set (rows (agents_cart_item t))" for c
    proof -
      have "cart_line_ok s c"
        using that assms(2) cart_line_ok_new [OF assms(1) ch] by (auto simp: t cart_ok_def rows_t_insert)
      then show ?thesis using cart_line_ok_same [of t s] by (simp add: t)
    qed
    moreover have "catalog_ok t" using assms(1) by (simp add: t catalog_ok_def)
    ultimately show ?thesis by (simp add: cart_ok_def)
  qed (use assms in auto)
  then show "cart_ok (snd (addItem pf u input s))" "catalog_ok (snd (addItem pf u input s))"
    using xt by simp_all
qed

lemma cart_delete_ok: "cart_ok s \<Longrightarrow> cart_ok (agents_cart_item_update (t_delete P) s)"
  using cart_line_ok_same [of "agents_cart_item_update (t_delete P) s" s]
  by (auto simp: cart_ok_def) (simp add: t_delete_def)

lemma cart_deletes_ok:
  assumes "cart_ok s" "catalog_ok s"
  shows "cart_ok (snd (removeItem u i s))" "catalog_ok (snd (removeItem u i s))"
    "cart_ok (snd (cart_clearForUser u s))" "catalog_ok (snd (cart_clearForUser u s))"
  using assms cart_delete_ok [OF assms(1)]
  by (simp_all add: removeItem_def cart_clearForUser_def run_simps catalog_ok_def)

lemma merge_one_run: "\<exists>r'. merge_one pf u item r s = (Inr r', snd (addItem pf u item s)) \<and>
    mr_merged r' + length (mr_failed r') = Suc (mr_merged r + length (mr_failed r))"
  by (cases "addItem pf u item s"; cases "fst (addItem pf u item s)")
     (auto simp: merge_one_def tryCatch_def seq_def bind_def return_def)

lemma merge_items_run: "catalog_ok s \<Longrightarrow> cart_ok s \<Longrightarrow>
    \<exists>r' t. merge_items pf u guest r s = (Inr r', t) \<and> catalog_ok t \<and> cart_ok t \<and>
      mr_merged r' + length (mr_failed r') = mr_merged r + length (mr_failed r) + length guest"
proof (induction guest arbitrary: r s)
  case (Cons item rest)
  obtain r' where r': "merge_one pf u item r s = (Inr r', snd (addItem pf u item s))"
      "mr_merged r' + length (mr_failed r') = Suc (mr_merged r + length (mr_failed r))"
    using merge_one_run by blast
  obtain r'' t where "merge_items pf u rest r' (snd (addItem pf u item s)) = (Inr r'', t)"
      "catalog_ok t" "cart_ok t"
      "mr_merged r'' + length (mr_failed r'') = mr_merged r' + length (mr_failed r') + length rest"
    using Cons.IH addItem_cart_ok [OF Cons.prems] by blast
  then show ?case using r' by (auto simp: bind_def)
qed (simp add: return_def)

section \<open>The contract of an adapter\<close>

text \<open>Reading never fails or writes; clearing empties the lines of its user and leaves those of
  others; removing an item by its id drops exactly that line.\<close>

locale cart_adapter =
  fixes ok :: "'s \<Rightarrow> bool" and a :: "'s cart_adapter"
  assumes reads_lines: "ok s \<Longrightarrow> \<exists>ls. ad_getForUser a u s = (Inr ls, s)"
    and clears: "ok s \<Longrightarrow> \<exists>t. ad_clearForUser a u s = (Inr (), t) \<and> ok t \<and>
          (\<forall>v. fst (ad_getForUser a v t) = (if v = u then Inr [] else fst (ad_getForUser a v s)))"
    and removes: "ok s \<Longrightarrow> ad_getForUser a u s = (Inr ls, s) \<Longrightarrow>
          \<exists>t. ad_removeItem a u (int_to_string i) s = (Inr (), t) \<and> ok t \<and>
          ad_getForUser a u t = (Inr (filter (\<lambda>l. cd_moduleItemId l \<noteq> int_to_string i) ls), t)"
begin

text \<open>The aggregator over this adapter alone is the adapter.\<close>

lemma aggregate_reads: "ok s \<Longrightarrow> aggregate_getForUser [a] u s = ad_getForUser a u s"
  using reads_lines [of s u] by (auto simp: aggregate_getForUser_def bind_def return_def)

lemma aggregate_clears: "ok s \<Longrightarrow> \<exists>t. aggregate_clearForUser [a] u s = (Inr (), t) \<and>
    aggregate_getForUser [a] u t = (Inr [], t)"
proof -
  assume s: "ok s"
  obtain t where t: "ad_clearForUser a u s = (Inr (), t)" "ok t"
      "fst (ad_getForUser a u t) = Inr []" using clears [OF s, of u] by auto
  then have "ad_getForUser a u t = (Inr [], t)" using reads_lines [OF t(2), of u] by auto
  then show ?thesis using t aggregate_reads [OF t(2)]
    by (simp add: aggregate_clearForUser_def seq_def bind_def return_def)
qed

lemma aggregate_removes: "ok s \<Longrightarrow> aggregate_getForUser [a] u s = (Inr ls, s) \<Longrightarrow>
    \<exists>t. aggregate_removeItem [a] u (ad_moduleSource a) (int_to_string i) s = (Inr (), t) \<and>
        aggregate_getForUser [a] u t = (Inr (filter (\<lambda>l. cd_moduleItemId l \<noteq> int_to_string i) ls), t)"
  using removes [of s u ls i] aggregate_reads
  by (auto simp: aggregate_removeItem_def)

end

lemma cart_line_ids: "l \<in> set (cart_line_of s item) \<Longrightarrow> cd_moduleItemId l = int_to_string (c_id item)"
  by (auto simp: cart_line_of_def Let_def split: option.splits)

lemma concat_lines_filter:
  "concat (map (cart_line_of s) (filter (\<lambda>c. c_id c \<noteq> i) cs)) =
   filter (\<lambda>l. cd_moduleItemId l \<noteq> int_to_string i) (concat (map (cart_line_of s) cs))"
proof (induction cs)
  case (Cons c cs)
  have "filter (\<lambda>l. cd_moduleItemId l \<noteq> int_to_string i) (cart_line_of s c) =
      (if c_id c = i then [] else cart_line_of s c)"
    by (auto simp: filter_empty_conv filter_id_conv dest: cart_line_ids)
  then show ?case using Cons by simp
qed simp

lemma cart_line_of_update [simp]: "cart_line_of (agents_cart_item_update f s) = cart_line_of s"
  by (rule ext) (simp add: cart_line_of_def cong: option.case_cong)

interpretation agents_cart: cart_adapter "\<lambda>_ :: 'x agents_scheme. True" agents_adapter
proof
  fix s :: "'x agents_scheme" and u
  show "\<exists>ls. ad_getForUser agents_adapter u s = (Inr ls, s)"
    by (simp add: agents_adapter_def adapter_getForUser_def gets_def)
next
  fix s :: "'x agents_scheme" and u
  have eq: "filter (\<lambda>c. c_userId c \<noteq> Some u \<and> c_userId c = Some v) cs =
      (if v = u then [] else filter (\<lambda>c. c_userId c = Some v) cs)" for v and cs :: "cart_row list"
    by (induction cs) auto
  show "\<exists>t. ad_clearForUser agents_adapter u s = (Inr (), t) \<and> True \<and>
      (\<forall>v. fst (ad_getForUser agents_adapter v t) =
        (if v = u then Inr [] else fst (ad_getForUser agents_adapter v s)))"
    by (simp add: agents_adapter_def adapter_getForUser_def cart_clearForUser_def run_simps
          t_delete_def t_filter_def eq)
next
  fix s :: "'x agents_scheme" and u ls i
  assume ls: "ad_getForUser agents_adapter u s = (Inr ls, s)"
  have "filter (\<lambda>c. \<not> (c_id c = i \<and> c_userId c = Some u) \<and> c_userId c = Some u) cs =
      filter (\<lambda>c. c_id c \<noteq> i) (filter (\<lambda>c. c_userId c = Some u) cs)" for cs :: "cart_row list"
    by (induction cs) auto
  then have eq: "concat (map (cart_line_of s)
      (filter (\<lambda>c. \<not> (c_id c = i \<and> c_userId c = Some u) \<and> c_userId c = Some u) cs)) =
      filter (\<lambda>l. cd_moduleItemId l \<noteq> int_to_string i)
        (concat (map (cart_line_of s) (filter (\<lambda>c. c_userId c = Some u) cs)))" for cs
    by (simp only: concat_lines_filter)
  show "\<exists>t. ad_removeItem agents_adapter u (int_to_string i) s = (Inr (), t) \<and> True \<and>
      ad_getForUser agents_adapter u t = (Inr (filter (\<lambda>l. cd_moduleItemId l \<noteq> int_to_string i) ls), t)"
    using ls
    by (auto simp: agents_adapter_def adapter_getForUser_def adapter_removeItem_def run_simps
          t_delete_def t_filter_def eq filter_sort [symmetric] simp del: de_Morgan_conj)
qed

section \<open>Properties\<close>

text \<open>What addItem returns is a line for a published, undeleted listing of another maker,
  with an active pack of that listing when it is sold per run and not owned yet otherwise;
  the same call again, at any time, returns the same line and writes nothing.\<close>

theorem cart_add_idempotent:
  assumes "catalog_ok s" "addItem pf u input s = (Inr c, t)"
  shows "addItem (pf_at now pf) u input t = (Inr c, t) \<and>
    (\<exists>l. t_get l_id (ai_listingId input) (agents_listing s) = Some l \<and> l_status l = LS_PUBLISHED \<and>
      l_deletedAt l = None \<and> l_makerUserId l \<noteq> u \<and> c_listingId c = l_id l \<and>
      (if l_pricingType l = PER_RUN
       then \<exists>p k. ai_runPackId input = Some p \<and> c_runPackId c = Some p \<and>
              t_get rp_id p (agents_run_pack s) = Some k \<and> rp_listingId k = l_id l \<and> rp_isActive k
       else c_runPackId c = None \<and> \<not> owned u (l_id l) s))"
proof -
  have wf: "wf_table l_id (agents_listing s)" "wf_table rp_id (agents_run_pack s)"
    using assms(1) by (simp_all add: catalog_ok_def)
  from addItem_run [OF assms(2)] obtain lp where ch: "cart_check u input s = (Inr lp, s)"
    and alt: "t = s \<and> cart_find u (fst lp) (snd lp) s = Some c \<or>
      cart_find u (fst lp) (snd lp) s = None \<and> c = new_cart_row (pf_now pf) u lp (next_id (agents_cart_item s)) \<and>
      t = agents_cart_item_update (t_insert (new_cart_row (pf_now pf) u lp)) s" by auto
  have same: "cart_check u input (agents_cart_item_update f s) = (Inr lp, agents_cart_item_update f s)" for f
    using ch by (auto simp: cart_check_def run_simps listing_live_def active_pack_def owned_def
        split: option.splits if_splits)
  have cht: "cart_check u input t = (Inr lp, t)" using alt ch same by auto
  have "cart_find u (fst lp) (snd lp) t = Some c"
    using alt by (auto simp: cart_find_def t_find_def rows_t_insert find_append new_cart_row_def)
  then have again: "addItem (pf_at now pf) u input t = (Inr c, t)"
    using cht by (simp add: addItem_def bind_def cart_insert_def case_prod_unfold run_simps)
  have c: "c_listingId c = fst lp" "c_runPackId c = snd lp"
    using alt by (auto simp: new_cart_row_def dest: cart_find_Some)
  from cart_check_run [OF ch] obtain l where l: "listing_live (ai_listingId input) s = Some l"
      "l_status l = LS_PUBLISHED" "l_makerUserId l \<noteq> u" "fst lp = l_id l"
      "if l_pricingType l = PER_RUN
       then \<exists>p k. ai_runPackId input = Some p \<and> active_pack p (l_id l) s = Some k \<and> snd lp = Some (rp_id k)
       else \<not> owned u (l_id l) s \<and> snd lp = None" by auto
  have "if l_pricingType l = PER_RUN
       then \<exists>p k. ai_runPackId input = Some p \<and> c_runPackId c = Some p \<and>
              t_get rp_id p (agents_run_pack s) = Some k \<and> rp_listingId k = l_id l \<and> rp_isActive k
       else c_runPackId c = None \<and> \<not> owned u (l_id l) s"
    using l(5) c active_pack_get [OF wf(2)] by (auto split: if_splits)
  then show ?thesis using again listing_live_get [OF wf(1) l(1)] l c by auto
qed

text \<open>Merging a guest cart always returns: every item is merged or reported with a
  reason, and the cart stays one of published-at-the-time listings of other makers.\<close>

theorem merge_never_throws:
  assumes "catalog_ok s" "cart_ok s"
  shows "\<exists>r t. mergeGuestCart pf u guest s = (Inr r, t) \<and>
    mr_merged r + length (mr_failed r) = length guest \<and> cart_ok t"
  using merge_items_run [OF assms, of pf u guest "\<lparr>mr_merged = 0, mr_failed = []\<rparr>"]
  by (auto simp: mergeGuestCart_def)

section \<open>Witnesses\<close>

lemma sample_cart_ok: "cart_ok sample_agents"
  by (simp add: cart_ok_def cart_line_ok_def wf_table_def t_get_def t_find_def)

lemma sample_add: "addItem pf 1 \<lparr>ai_listingId = 2, ai_runPackId = Some 1\<rparr> sample_agents =
    (Inr (new_cart_row (pf_now pf) 1 (2, Some 1) 2),
     agents_cart_item_update (t_insert (new_cart_row (pf_now pf) 1 (2, Some 1))) sample_agents)"
  using sample_market_users
  by (simp add: addItem_def cart_check_def cart_insert_def cart_create_def cart_find_def run_simps
        listing_live_def active_pack_def t_find_def create_in_def t_new_def new_cart_row_def [abs_def])

lemma cart_add_idempotent_witness:
  "fst (addItem (pf_at 9 sample_admin_platform) 1 \<lparr>ai_listingId = 2, ai_runPackId = Some 1\<rparr>
      (snd (addItem sample_admin_platform 1 \<lparr>ai_listingId = 2, ai_runPackId = Some 1\<rparr> sample_agents))) =
    Inr (new_cart_row (pf_now sample_admin_platform) 1 (2, Some 1) 2)"
  using cart_add_idempotent [OF sample_catalog_ok sample_add, of 9 sample_admin_platform]
  by (simp add: sample_add)

lemma merge_never_throws_witness:
  "\<exists>r t. mergeGuestCart sample_admin_platform 1
      [\<lparr>ai_listingId = 2, ai_runPackId = None\<rparr>, \<lparr>ai_listingId = 7, ai_runPackId = None\<rparr>] sample_agents =
      (Inr r, t) \<and> mr_merged r + length (mr_failed r) = 2"
  using merge_never_throws [OF sample_catalog_ok sample_cart_ok, of sample_admin_platform 1
      "[\<lparr>ai_listingId = 2, ai_runPackId = None\<rparr>, \<lparr>ai_listingId = 7, ai_runPackId = None\<rparr>]"]
  by auto

end
