(* ===== verification/Runs.thy ===== *)
theory Runs
  imports Cart
begin

text \<open>
  modules/agents/services/runs.service.ts: consume, which a maker's service calls with the key
  of its listing to spend one run of a buyer, and the notifications at ten per cent of the
  last pack and at zero.  The UPDATE that guards remainingRuns > 0 is one step.  The threshold
  is computed as the code does, with the double nearest to one tenth.
\<close>

record consume_input =
  ci_listingSlug :: string
  ci_userId :: int
  ci_apiKeyPlaintext :: string
  ci_ipAddress :: "string option"
  ci_userAgent :: "string option"

record consume_result =
  cr_remainingRuns :: string
  cr_totalConsumed :: string

definition LOW_RUNS_DEDUP_TTL_SECONDS :: int where
  "LOW_RUNS_DEDUP_TTL_SECONDS = 24 * 60 * 60"

definition lowRunsDedupKey :: "int \<Rightarrow> int \<Rightarrow> string" where
  "lowRunsDedupKey userId listingId =
     ''agents:lowruns:'' @ int_to_string userId @ '':'' @ int_to_string listingId"

definition invalidApiKey :: exn where
  "invalidApiKey = http_exn INVALID_API_KEY 401 ''Invalid API key or listing''"

text \<open>slice(0, n) in UTF-16 units; half of a surrogate pair is dropped.\<close>

fun utf16_take :: "nat \<Rightarrow> string \<Rightarrow> string" where
  "utf16_take n [] = []"
| "utf16_take n (c # s) = (if byte_units c \<le> n then c # utf16_take (n - byte_units c) s else [])"

definition recordEvent :: "int \<Rightarrow> int \<Rightarrow> int \<Rightarrow> run_outcome \<Rightarrow> string option \<Rightarrow> string option \<Rightarrow> ('x agents_scheme, unit) M" where
  "recordEvent now userId listingId oc ip ua =
     tryCatch (bind (gets (\<lambda>s. find_user userId s)) (\<lambda>u.
       if \<not> vfits 45 ip then throw (PrismaKnown ''P2000'' JUndefined)
       else if u = None then throw (PrismaKnown ''P2003'' JUndefined)
       else seq (create_in agents_run_event agents_run_event_update (\<lambda>i.
         \<lparr>ev_id = i, ev_userId = userId, ev_listingId = listingId, ev_outcome = oc, ev_ipAddress = ip,
          ev_userAgent = map_option (utf16_take 255) ua, ev_createdAt = now\<rparr>)) (return ())))
       (\<lambda>_. return ())"

definition user_runs_of :: "int \<Rightarrow> int \<Rightarrow> 'x agents_scheme \<Rightarrow> user_runs_row option" where
  "user_runs_of userId listingId s =
     t_find (\<lambda>r. ru_userId r = userId \<and> ru_listingId r = listingId) (agents_user_runs s)"

text \<open>The most recent completed purchase of runs.\<close>

definition last_run_purchase :: "int \<Rightarrow> int \<Rightarrow> 'x agents_scheme \<Rightarrow> purchase_row option" where
  "last_run_purchase userId listingId s =
     (case rev (sort_key b_createdAt (t_filter (\<lambda>b. b_userId b = userId \<and> b_listingId b = listingId \<and>
         b_pricingTypeAtSale b = PER_RUN \<and> b_status b = PU_COMPLETED) (agents_purchase s))) of
        [] \<Rightarrow> None | b # _ \<Rightarrow> Some b)"

text \<open>Math.max(1, Math.ceil(n * 0.1)) in doubles: 0.1 is 3602879701896397 / 2^55, and the
  product is rounded to 53 significant bits before the ceiling.\<close>

definition low_runs_threshold :: "int \<Rightarrow> int" where
  "low_runs_threshold n =
     max 1 (- ((- to_number (to_number n * 3602879701896397)) div 2 ^ 55))"

definition dispatchThresholdNotifications ::
    "platform \<Rightarrow> int \<Rightarrow> int \<Rightarrow> string \<Rightarrow> int \<Rightarrow> ('x agents_scheme, unit) M" where
  "dispatchThresholdNotifications pf userId listingId title remaining =
     (if remaining = 0 then notify pf userId ''AGENTS_RUNS_DEPLETED'' [(''listingTitle'', JStr title)] IN_APP
      else bind (gets (last_run_purchase userId listingId)) (\<lambda>found. case found of
          None \<Rightarrow> return ()
        | Some lastPurchase \<Rightarrow>
            if b_runsGranted lastPurchase = 0 then return ()
            else if low_runs_threshold (b_runsGranted lastPurchase) < remaining then return ()
            else bind (redis_set_nx (pf_now pf) (lowRunsDedupKey userId listingId) ''1'' LOW_RUNS_DEDUP_TTL_SECONDS)
              (\<lambda>claimed. if \<not> claimed then return ()
                else notify pf userId ''AGENTS_RUNS_LOW''
                  [(''listingTitle'', JStr title), (''remaining'', JNum (to_number remaining))] IN_APP)))"

definition spend_run :: "int \<Rightarrow> user_runs_row \<Rightarrow> user_runs_row" where
  "spend_run now r = r\<lparr>ru_remainingRuns := ru_remainingRuns r - 1, ru_totalConsumed := ru_totalConsumed r + 1,
     ru_lastConsumedAt := Some now\<rparr>"

text \<open>UPDATE ... WHERE remainingRuns > 0 RETURNING: the pair of user and listing is unique.\<close>

definition consume_update :: "int \<Rightarrow> int \<Rightarrow> int \<Rightarrow> ('x agents_scheme, user_runs_row option) M" where
  "consume_update now userId listingId =
     bind (gets (\<lambda>s. t_find (\<lambda>r. ru_userId r = userId \<and> ru_listingId r = listingId \<and> 0 < ru_remainingRuns r)
                       (agents_user_runs s))) (\<lambda>found. case found of
       None \<Rightarrow> return None
     | Some r \<Rightarrow> seq (modify (agents_user_runs_update (t_change ru_id (ru_id r) (spend_run now))))
                    (return (Some (spend_run now r))))"

definition listing_bump :: "int \<Rightarrow> int \<Rightarrow> (listing_row \<Rightarrow> listing_row) \<Rightarrow> ('x agents_scheme, unit) M" where
  "listing_bump now i g =
     seq (update_in agents_listing agents_listing_update l_id i (\<lambda>l. (g l)\<lparr>l_updatedAt := now\<rparr>)) (return ())"

definition consume_listing :: "string \<Rightarrow> 'x agents_scheme \<Rightarrow> listing_row option" where
  "consume_listing slug s = t_find (\<lambda>l. l_slug l = slug \<and> l_deletedAt l = None) (agents_listing s)"

definition consume :: "platform \<Rightarrow> consume_input \<Rightarrow> ('x agents_scheme, consume_result) M" where
  "consume pf input =
     bind (gets (consume_listing (ci_listingSlug input))) (\<lambda>found. case found of
       None \<Rightarrow> throw invalidApiKey
     | Some listing \<Rightarrow> (case l_apiKeyHash listing of
         None \<Rightarrow> throw invalidApiKey
       | Some apiKeyHash \<Rightarrow>
         if l_status listing \<noteq> LS_PUBLISHED \<or> l_pricingType listing \<noteq> PER_RUN then throw invalidApiKey
         else bind (gets (find_user (ci_userId input))) (\<lambda>userExists.
         if userExists = None then throw invalidApiKey
         else
         let event = (\<lambda>oc. recordEvent (pf_now pf) (ci_userId input) (l_id listing) oc
                             (ci_ipAddress input) (ci_userAgent input)) in
         if hex_bytes (pf_sha256 pf (ci_apiKeyPlaintext input)) \<noteq> hex_bytes apiKeyHash
         then seq (event REFUSED_INVALID_KEY) (throw invalidApiKey)
         else bind (consume_update (pf_now pf) (ci_userId input) (l_id listing)) (\<lambda>updated. case updated of
             None \<Rightarrow> seq (event REFUSED_INSUFFICIENT) (throw (http_exn INSUFFICIENT_RUNS 409 ''No runs remaining''))
           | Some r \<Rightarrow>
               seq (event CONSUMED)
              (seq (listing_bump (pf_now pf) (l_id listing) (\<lambda>l. l\<lparr>l_totalRuns := l_totalRuns l + 1\<rparr>))
              (seq (tryCatch (dispatchThresholdNotifications pf (ci_userId input) (l_id listing)
                      (l_titleFa listing) (ru_remainingRuns r)) (\<lambda>_. return ()))
                   (return \<lparr>cr_remainingRuns = int_to_string (ru_remainingRuns r),
                            cr_totalConsumed = int_to_string (ru_totalConsumed r)\<rparr>)))))))"

end
