(* ===== verification/Checkout.thy ===== *)
theory Checkout
  imports Runs
begin

text \<open>
  modules/agents/services/checkout.service.ts: the transaction that validates every line of
  the cart again, writes one purchase per line, grants runs and empties the cart, the single
  retry after a serialization failure, and what runs after the commit.  Whether the database
  aborts an attempt is an argument.  settle_state is the effect of one line on the tables.
\<close>

section \<open>Validation\<close>

definition DEFAULT_COMMISSION_PERCENT :: int where
  "DEFAULT_COMMISSION_PERCENT = 20"

text \<open>Division of bigints truncates towards zero.\<close>

definition js_quot :: "int \<Rightarrow> int \<Rightarrow> int" where
  "js_quot a b = (if a < 0 then - ((- a) div b) else a div b)"

definition commission_of :: "int \<Rightarrow> int \<Rightarrow> int" where
  "commission_of amount percent = js_quot (amount * percent) 100"

record validation_failure =
  vl_cartItemId :: string
  vl_listingId :: string
  vl_reason :: error_code

record built_line =
  bl_listing :: listing_row
  bl_pack :: "run_pack_row option"
  bl_amountToman :: int
  bl_commissionToman :: int
  bl_makerEarnedToman :: int
  bl_runsGranted :: int

text \<open>The pack, the price and the runs of a line, or why it cannot be bought.\<close>

definition line_price ::
    "int \<Rightarrow> 'x agents_scheme \<Rightarrow> cart_row \<Rightarrow> listing_row \<Rightarrow> error_code + run_pack_row option \<times> int \<times> int" where
  "line_price userId s item listing = (case l_pricingType listing of
       PER_RUN \<Rightarrow> (case c_runPackId item of
           None \<Rightarrow> Inl INVALID_RUN_PACK
         | Some p \<Rightarrow> (case active_pack p (l_id listing) s of
             None \<Rightarrow> Inl INVALID_RUN_PACK
           | Some k \<Rightarrow> Inr (Some k, rp_priceToman k, rp_runs k)))
     | ONE_TIME \<Rightarrow> if owned userId (l_id listing) s then Inl ALREADY_OWNED
                    else Inr (None, zero_or (l_oneTimePriceToman listing), 0)
     | FREE \<Rightarrow> if owned userId (l_id listing) s then Inl ALREADY_OWNED else Inr (None, 0, 0))"

definition check_line :: "int \<Rightarrow> int \<Rightarrow> 'x agents_scheme \<Rightarrow> cart_row \<Rightarrow> validation_failure + built_line" where
  "check_line userId percent s item =
     (let failure = (\<lambda>reason. Inl \<lparr>vl_cartItemId = int_to_string (c_id item),
                       vl_listingId = int_to_string (c_listingId item), vl_reason = reason\<rparr>) in
      case listing_live (c_listingId item) s of
        None \<Rightarrow> failure LISTING_NOT_PURCHASABLE
      | Some listing \<Rightarrow>
          if l_status listing \<noteq> LS_PUBLISHED then failure LISTING_NOT_PURCHASABLE
          else (case line_price userId s item listing of
              Inl reason \<Rightarrow> failure reason
            | Inr (pack, amount, runs) \<Rightarrow>
                (let commission = commission_of amount percent in
                 Inr \<lparr>bl_listing = listing, bl_pack = pack, bl_amountToman = amount,
                      bl_commissionToman = commission, bl_makerEarnedToman = amount - commission,
                      bl_runsGranted = runs\<rparr>)))"

section \<open>Settling a line\<close>

record line_summary =
  ls_purchaseId :: string
  ls_listingId :: string
  ls_listingTitleFa :: string
  ls_pricingType :: pricing_type
  ls_amountToman :: string
  ls_commissionToman :: string
  ls_makerEarnedToman :: string
  ls_runsGranted :: string

definition purchase_of :: "int \<Rightarrow> int \<Rightarrow> built_line \<Rightarrow> int \<Rightarrow> purchase_row" where
  "purchase_of now userId line i =
     \<lparr>b_id = i, b_userId = userId, b_listingId = l_id (bl_listing line),
      b_pricingTypeAtSale = l_pricingType (bl_listing line), b_runPackId = map_option rp_id (bl_pack line),
      b_runsGranted = bl_runsGranted line, b_amountToman = bl_amountToman line,
      b_commissionToman = bl_commissionToman line, b_makerEarnedToman = bl_makerEarnedToman line,
      b_systemPaymentId = None, b_status = PU_COMPLETED, b_createdAt = now, b_refundedAt = None\<rparr>"

definition purchase_create :: "int \<Rightarrow> int \<Rightarrow> built_line \<Rightarrow> ('x agents_scheme, purchase_row) M" where
  "purchase_create now userId line =
     bind (gets (find_user userId)) (\<lambda>u.
       if u = None then throw (PrismaKnown ''P2003'' JUndefined)
       else create_in agents_purchase agents_purchase_update (purchase_of now userId line))"

text \<open>upsert of the counter by user and listing.\<close>

definition grant_runs :: "int \<Rightarrow> int \<Rightarrow> int \<Rightarrow> user_runs_row table \<Rightarrow> user_runs_row table" where
  "grant_runs userId listingId n T =
     (case t_find (\<lambda>r. ru_userId r = userId \<and> ru_listingId r = listingId) T of
        None \<Rightarrow> t_insert (\<lambda>i. \<lparr>ru_id = i, ru_userId = userId, ru_listingId = listingId, ru_remainingRuns = n,
                  ru_totalGranted = n, ru_totalConsumed = 0, ru_lastConsumedAt = None\<rparr>) T
      | Some r \<Rightarrow> t_change ru_id (ru_id r) (\<lambda>r. r\<lparr>ru_remainingRuns := ru_remainingRuns r + n,
                  ru_totalGranted := ru_totalGranted r + n\<rparr>) T)"

definition line_summary_of :: "built_line \<Rightarrow> int \<Rightarrow> line_summary" where
  "line_summary_of line purchaseId =
     \<lparr>ls_purchaseId = int_to_string purchaseId, ls_listingId = int_to_string (l_id (bl_listing line)),
      ls_listingTitleFa = l_titleFa (bl_listing line), ls_pricingType = l_pricingType (bl_listing line),
      ls_amountToman = int_to_string (bl_amountToman line),
      ls_commissionToman = int_to_string (bl_commissionToman line),
      ls_makerEarnedToman = int_to_string (bl_makerEarnedToman line),
      ls_runsGranted = int_to_string (bl_runsGranted line)\<rparr>"

definition settle_line :: "int \<Rightarrow> int \<Rightarrow> built_line \<Rightarrow> ('x agents_scheme, line_summary) M" where
  "settle_line now userId line =
     bind (gets (owned userId (l_id (bl_listing line)))) (\<lambda>priorPurchase.
     bind (purchase_create now userId line) (\<lambda>purchase.
     seq (case bl_pack line of
            Some k \<Rightarrow> if l_pricingType (bl_listing line) = PER_RUN
                      then modify (agents_user_runs_update (grant_runs userId (l_id (bl_listing line)) (rp_runs k)))
                      else return ()
          | None \<Rightarrow> return ())
    (seq (if priorPurchase then return ()
          else listing_bump now (l_id (bl_listing line)) (\<lambda>l. l\<lparr>l_totalUsers := l_totalUsers l + 1\<rparr>))
         (return (line_summary_of line (b_id purchase))))))"

section \<open>The transaction\<close>

record checkout_summary =
  cs_purchaseIds :: "string list"
  cs_totalAmountToman :: string
  cs_lines :: "line_summary list"

record post_commit_plan =
  pc_buyerUserId :: int
  pc_receipts :: "(string \<times> int) list"
  pc_sales :: "(int \<times> string) list"
  pc_perRunListingIds :: "int list"

definition cart_rows_of :: "int \<Rightarrow> 'x agents_scheme \<Rightarrow> cart_row list" where
  "cart_rows_of userId s = sort_key c_addedAt (t_filter (\<lambda>c. c_userId c = Some userId) (agents_cart_item s))"

definition commissionPercent :: "'x agents_scheme \<Rightarrow> int" where
  "commissionPercent s = (case t_get st_id 1 (agents_settings s) of
     None \<Rightarrow> DEFAULT_COMMISSION_PERCENT | Some st \<Rightarrow> st_commissionPercent st)"

definition failure_json :: "validation_failure \<Rightarrow> json" where
  "failure_json f = JObj [(''cartItemId'', JStr (vl_cartItemId f)), (''listingId'', JStr (vl_listingId f)),
     (''reason'', JStr (code_string (vl_reason f)))]"

definition failures_of :: "('a + 'b) list \<Rightarrow> 'a list" where
  "failures_of rs = concat (map (\<lambda>r. case r of Inl f \<Rightarrow> [f] | Inr _ \<Rightarrow> []) rs)"

definition built_of :: "('a + 'b) list \<Rightarrow> 'b list" where
  "built_of rs = concat (map (\<lambda>r. case r of Inl _ \<Rightarrow> [] | Inr l \<Rightarrow> [l]) rs)"

definition plan_of :: "int \<Rightarrow> built_line list \<Rightarrow> post_commit_plan" where
  "plan_of userId built =
     \<lparr>pc_buyerUserId = userId,
      pc_receipts = map (\<lambda>l. (l_titleFa (bl_listing l), bl_runsGranted l)) built,
      pc_sales = map (\<lambda>l. (l_makerUserId (bl_listing l), l_titleFa (bl_listing l))) built,
      pc_perRunListingIds = map (\<lambda>l. l_id (bl_listing l))
        (filter (\<lambda>l. l_pricingType (bl_listing l) = PER_RUN \<and> bl_pack l \<noteq> None) built)\<rparr>"

definition checkout_tx :: "platform \<Rightarrow> int \<Rightarrow> ('x agents_scheme, checkout_summary \<times> post_commit_plan) M" where
  "checkout_tx pf userId =
     bind (gets (cart_rows_of userId)) (\<lambda>cartRows.
     if cartRows = [] then throw (http_exn EMPTY_CART 400 ''Cart is empty'')
     else bind (gets (\<lambda>s. map (check_line userId (commissionPercent s) s) cartRows)) (\<lambda>checked.
     let failures = failures_of checked; built = built_of checked in
     if failures \<noteq> [] then throw (http_exn_details CHECKOUT_VALIDATION_FAILED 409
       ''One or more cart items can no longer be purchased''
       (JObj [(''failures'', JArr (map failure_json failures))]))
     else bind (mapEach built (settle_line (pf_now pf) userId)) (\<lambda>sums.
       seq (cart_clearForUser userId)
           (return (\<lparr>cs_purchaseIds = map ls_purchaseId sums,
                     cs_totalAmountToman = int_to_string (sum_list (map bl_amountToman built)),
                     cs_lines = sums\<rparr>, plan_of userId built)))))"

section \<open>Serialization failures\<close>

definition word_char :: "char \<Rightarrow> bool" where
  "word_char c \<longleftrightarrow> is_digit c \<or> (CHR ''a'' \<le> c \<and> c \<le> CHR ''z'') \<or> (CHR ''A'' \<le> c \<and> c \<le> CHR ''Z'') \<or> c = CHR ''_''"

text \<open>The search of the regular expression \b w \b for a text w of word characters.\<close>

fun has_word :: "string \<Rightarrow> bool \<Rightarrow> string \<Rightarrow> bool" where
  "has_word w after_word [] = False"
| "has_word w after_word (c # s) =
     (\<not> after_word \<and> take (length w) (c # s) = w \<and>
        (case drop (length w) (c # s) of [] \<Rightarrow> True | d # _ \<Rightarrow> \<not> word_char d)
      \<or> has_word w (word_char c) s)"

definition isSerializationFailure :: "env \<Rightarrow> exn \<Rightarrow> bool" where
  "isSerializationFailure env e = (case e of
       PrismaKnown code meta \<Rightarrow> code = ''P2034'' \<or>
         (case meta of JObj m \<Rightarrow> jget m ''code'' = JStr ''40001'' \<or> jget m ''code'' = JStr ''40P01'' | _ \<Rightarrow> False) \<or>
         has_word ''40001'' False (exn_message env e) \<or> has_word ''40P01'' False (exn_message env e) \<or>
         occurs_in ''could not serialize access'' (exn_message env e)
     | _ \<Rightarrow> False)"

text \<open>One attempt: the database runs it, or aborts it with an error.\<close>

definition attempt :: "exn option \<Rightarrow> ('s, 'a) M \<Rightarrow> ('s, 'a) M" where
  "attempt aborted m = (case aborted of None \<Rightarrow> transaction m | Some e \<Rightarrow> throw e)"

definition runWithSerializationRetry ::
    "platform \<Rightarrow> exn option \<times> exn option \<Rightarrow> int \<Rightarrow> ('x agents_scheme, checkout_summary \<times> post_commit_plan) M" where
  "runWithSerializationRetry pf aborts userId =
     tryCatch (attempt (fst aborts) (checkout_tx pf userId)) (\<lambda>e.
       if isSerializationFailure (pf_env pf) e then attempt (snd aborts) (checkout_tx pf userId) else throw e)"

section \<open>After the commit\<close>

definition dispatchPostCommit :: "platform \<Rightarrow> post_commit_plan \<Rightarrow> ('x sys_scheme, unit) M" where
  "dispatchPostCommit pf plan =
     seq (forEach (pc_receipts plan) (\<lambda>(title, runs). notify pf (pc_buyerUserId plan) ''AGENTS_PURCHASE_RECEIPT''
            [(''listingTitle'', JStr title), (''runs'', JNum (to_number runs))] IN_APP))
         (forEach (pc_sales plan) (\<lambda>(maker, title). notify pf maker ''AGENTS_NEW_SALE''
            [(''listingTitle'', JStr title)] IN_APP))"

definition clearLowRunsDedup :: "int \<Rightarrow> int list \<Rightarrow> ('x sys_scheme, unit) M" where
  "clearLowRunsDedup userId listingIds = forEach listingIds (\<lambda>i. redis_del (lowRunsDedupKey userId i))"

definition checkout ::
    "platform \<Rightarrow> exn option \<times> exn option \<Rightarrow> int \<Rightarrow> ('x agents_scheme, checkout_summary) M" where
  "checkout pf aborts userId =
     bind (runWithSerializationRetry pf aborts userId) (\<lambda>(summary, postCommit).
     seq (tryCatch (dispatchPostCommit pf postCommit) (\<lambda>_. return ()))
    (seq (tryCatch (clearLowRunsDedup userId (pc_perRunListingIds postCommit)) (\<lambda>_. return ()))
         (return summary)))"

end
