(* ===== verification/Sales.thy ===== *)
theory Sales
  imports Checkout
begin

text \<open>
  The books of the marketplace over checkouts and run consumption.  sales_ok: every purchase
  splits its amount exactly between commission and maker, and nobody bought a listing of their
  own; runs_ok: the run counters of a buyer balance with what the purchases granted;
  counts_ok: the denormalised counters of a listing are the number of its buyers and of the
  runs consumed.  The theorems say what a checkout does on every branch, that these
  invariants survive any sequence of cart, checkout and consume calls, and what happens when
  two overlapping additions put the same one-time listing into a cart twice.
\<close>

section \<open>The effect of a checkout\<close>

definition settle_state :: "int \<Rightarrow> int \<Rightarrow> built_line \<Rightarrow> 'x agents_scheme \<Rightarrow> 'x agents_scheme" where
  "settle_state now u line s =
     (let lid = l_id (bl_listing line);
          s1 = agents_purchase_update (t_insert (purchase_of now u line)) s;
          s2 = (case bl_pack line of
                  Some k \<Rightarrow> if l_pricingType (bl_listing line) = PER_RUN
                            then agents_user_runs_update (grant_runs u lid (rp_runs k)) s1 else s1
                | None \<Rightarrow> s1)
      in if owned u lid s then s2
         else agents_listing_update (t_change l_id lid
                (\<lambda>l. (l\<lparr>l_totalUsers := l_totalUsers l + 1\<rparr>)\<lparr>l_updatedAt := now\<rparr>)) s2)"

lemma settle_state_tables:
  "agents_purchase (settle_state now u line s) = t_insert (purchase_of now u line) (agents_purchase s)"
  "agents_user_runs (settle_state now u line s) = (case bl_pack line of
      Some k \<Rightarrow> if l_pricingType (bl_listing line) = PER_RUN
                then grant_runs u (l_id (bl_listing line)) (rp_runs k) (agents_user_runs s) else agents_user_runs s
    | None \<Rightarrow> agents_user_runs s)"
  "agents_listing (settle_state now u line s) = (if owned u (l_id (bl_listing line)) s then agents_listing s
     else t_change l_id (l_id (bl_listing line))
            (\<lambda>l. (l\<lparr>l_totalUsers := l_totalUsers l + 1\<rparr>)\<lparr>l_updatedAt := now\<rparr>) (agents_listing s))"
  "agents_run_pack (settle_state now u line s) = agents_run_pack s"
  "agents_cart_item (settle_state now u line s) = agents_cart_item s"
  "agents_review (settle_state now u line s) = agents_review s"
  "agents_settings (settle_state now u line s) = agents_settings s"
  "users (settle_state now u line s) = users s"
  by (simp_all add: settle_state_def Let_def split: option.splits)

lemma settle_line_run:
  assumes "find_user u s \<noteq> None" "t_get l_id (l_id (bl_listing line)) (agents_listing s) \<noteq> None"
  shows "settle_line now u line s =
    (Inr (line_summary_of line (next_id (agents_purchase s))), settle_state now u line s)"
  using assms
  by (auto simp: settle_line_def purchase_create_def listing_bump_def run_simps create_in_def update_in_def
      t_new_def purchase_of_def settle_state_def Let_def split: option.splits)

fun settle_all :: "int \<Rightarrow> int \<Rightarrow> built_line list \<Rightarrow> 'x agents_scheme \<Rightarrow> 'x agents_scheme" where
  "settle_all now u [] s = s"
| "settle_all now u (line # lines) s = settle_all now u lines (settle_state now u line s)"

fun summaries :: "built_line list \<Rightarrow> int \<Rightarrow> line_summary list" where
  "summaries [] i = []"
| "summaries (line # lines) i = line_summary_of line i # summaries lines (i + 1)"

lemma settle_listing_get: "t_get l_id i (agents_listing s) \<noteq> None \<Longrightarrow>
    t_get l_id i (agents_listing (settle_state now u line s)) \<noteq> None"
  by (auto simp: settle_state_tables t_get_change)

lemma settle_lines_run:
  assumes "find_user u s \<noteq> None"
    and "\<And>line. line \<in> set lines \<Longrightarrow> t_get l_id (l_id (bl_listing line)) (agents_listing s) \<noteq> None"
  shows "mapEach lines (settle_line now u) s =
    (Inr (summaries lines (next_id (agents_purchase s))), settle_all now u lines s)"
  using assms
proof (induction lines arbitrary: s)
  case (Cons line lines)
  have "find_user u (settle_state now u line s) \<noteq> None"
    using Cons.prems(1) by (simp add: find_user_def settle_state_tables)
  moreover have "t_get l_id (l_id (bl_listing l)) (agents_listing (settle_state now u line s)) \<noteq> None"
    if "l \<in> set lines" for l by (rule settle_listing_get) (use Cons.prems(2) [of l] that in simp)
  ultimately show ?case
    using Cons.IH [of "settle_state now u line s"] settle_line_run [OF Cons.prems(1), of line now] Cons.prems(2)
    by (simp add: bind_def return_def settle_state_tables next_t_insert)
qed (simp add: return_def)

definition checked_lines :: "int \<Rightarrow> 'x agents_scheme \<Rightarrow> (validation_failure + built_line) list" where
  "checked_lines u s = map (check_line u (commissionPercent s) s) (cart_rows_of u s)"

lemma check_line_Inr: "check_line u pc s c = Inr line \<Longrightarrow>
    \<exists>l pack amount runs. listing_live (c_listingId c) s = Some l \<and> l_status l = LS_PUBLISHED \<and>
      line_price u s c l = Inr (pack, amount, runs) \<and>
      line = \<lparr>bl_listing = l, bl_pack = pack, bl_amountToman = amount,
        bl_commissionToman = commission_of amount pc, bl_makerEarnedToman = amount - commission_of amount pc,
        bl_runsGranted = runs\<rparr>"
  by (auto simp: check_line_def Let_def split: option.splits if_splits sum.splits prod.splits)

lemma built_of_in: "line \<in> set (built_of rs) \<longleftrightarrow> Inr line \<in> set rs"
  by (induction rs) (auto simp: built_of_def split: sum.splits)

lemma built_listing:
  assumes "wf_table l_id (agents_listing s)" "line \<in> set (built_of (checked_lines u s))"
  shows "t_get l_id (l_id (bl_listing line)) (agents_listing s) = Some (bl_listing line)"
proof -
  obtain c where "check_line u (commissionPercent s) s c = Inr line"
    using assms(2) by (auto simp: built_of_in checked_lines_def)
  then obtain l where "listing_live (c_listingId c) s = Some l" "bl_listing line = l"
    by (auto dest: check_line_Inr)
  then show ?thesis using listing_live_get [OF assms(1)] by auto
qed

text \<open>What the transaction of a checkout returns and leaves behind.\<close>

lemma checkout_tx_run:
  assumes "wf_table l_id (agents_listing s)" "find_user u s \<noteq> None"
  shows "transaction (checkout_tx pf u) s =
    (if cart_rows_of u s = [] then (Inl (http_exn EMPTY_CART 400 ''Cart is empty''), s)
     else if failures_of (checked_lines u s) \<noteq> [] then (Inl (http_exn_details CHECKOUT_VALIDATION_FAILED 409
       ''One or more cart items can no longer be purchased''
       (JObj [(''failures'', JArr (map failure_json (failures_of (checked_lines u s))))])), s)
     else let built = built_of (checked_lines u s); sums = summaries built (next_id (agents_purchase s)) in
       (Inr (\<lparr>cs_purchaseIds = map ls_purchaseId sums,
              cs_totalAmountToman = int_to_string (sum_list (map bl_amountToman built)),
              cs_lines = sums\<rparr>, plan_of u built),
        agents_cart_item_update (t_delete (\<lambda>c. c_userId c = Some u)) (settle_all (pf_now pf) u built s)))"
  using settle_lines_run [OF assms(2), of "built_of (checked_lines u s)" "pf_now pf"] built_listing [OF assms(1)]
  by (auto simp: checkout_tx_def checked_lines_def [symmetric] run_simps cart_clearForUser_def Let_def)

section \<open>The invariants\<close>

definition granted_to :: "int \<Rightarrow> int \<Rightarrow> purchase_row table \<Rightarrow> int" where
  "granted_to u l P = t_sum (\<lambda>b. b_userId b = u \<and> b_listingId b = l) b_runsGranted P"

definition runs_row_ok :: "purchase_row table \<Rightarrow> user_runs_row \<Rightarrow> bool" where
  "runs_row_ok P r \<longleftrightarrow> 0 \<le> ru_remainingRuns r \<and> 0 \<le> ru_totalConsumed r \<and>
     ru_remainingRuns r + ru_totalConsumed r = ru_totalGranted r \<and>
     ru_totalGranted r = granted_to (ru_userId r) (ru_listingId r) P"

definition runs_pair :: "user_runs_row \<Rightarrow> int \<times> int" where
  "runs_pair r = (ru_userId r, ru_listingId r)"

definition runs_ok :: "purchase_row table \<Rightarrow> user_runs_row table \<Rightarrow> bool" where
  "runs_ok P T \<longleftrightarrow> wf_table ru_id T \<and> distinct (map runs_pair (rows T)) \<and>
     (\<forall>r \<in> set (rows T). runs_row_ok P r) \<and>
     (\<forall>b \<in> set (rows P). b_runsGranted b \<noteq> 0 \<longrightarrow> (b_userId b, b_listingId b) \<in> runs_pair ` set (rows T))"

definition buyers :: "int \<Rightarrow> purchase_row table \<Rightarrow> int set" where
  "buyers l P = b_userId ` {b \<in> set (rows P). b_listingId b = l}"

definition counts_ok :: "listing_row table \<Rightarrow> purchase_row table \<Rightarrow> user_runs_row table \<Rightarrow> bool" where
  "counts_ok L P T \<longleftrightarrow> (\<forall>l \<in> set (rows L). l_totalUsers l = int (card (buyers (l_id l) P)) \<and>
     l_totalRuns l = t_sum (\<lambda>r. ru_listingId r = l_id l) ru_totalConsumed T)"

definition sale_ok :: "listing_row table \<Rightarrow> purchase_row \<Rightarrow> bool" where
  "sale_ok L b \<longleftrightarrow> b_status b = PU_COMPLETED \<and> b_commissionToman b + b_makerEarnedToman b = b_amountToman b \<and>
     0 \<le> b_commissionToman b \<and> 0 \<le> b_makerEarnedToman b \<and> 0 \<le> b_runsGranted b \<and>
     (\<exists>l. t_get l_id (b_listingId b) L = Some l \<and> l_makerUserId l \<noteq> b_userId b \<and>
        l_pricingType l = b_pricingTypeAtSale b)"

definition sales_ok :: "listing_row table \<Rightarrow> purchase_row table \<Rightarrow> bool" where
  "sales_ok L P \<longleftrightarrow> wf_table b_id P \<and> (\<forall>b \<in> set (rows P). sale_ok L b)"

subsection \<open>Runs\<close>

lemma granted_insert: "granted_to u l (t_insert f P) =
    granted_to u l P + (if b_userId (t_new f P) = u \<and> b_listingId (t_new f P) = l then b_runsGranted (t_new f P) else 0)"
  by (simp add: granted_to_def t_sum_insert)

lemma granted_none:
  assumes "runs_ok P T" "(u, l) \<notin> runs_pair ` set (rows T)"
  shows "granted_to u l P = 0"
proof -
  have "b_runsGranted b = 0" if "b \<in> set (rows P)" "b_userId b = u" "b_listingId b = l" for b
    using assms that unfolding runs_ok_def by blast
  then have "sum_list (map b_runsGranted (filter (\<lambda>b. b_userId b = u \<and> b_listingId b = l) bs)) = 0"
    if "set bs \<subseteq> set (rows P)" for bs
    using that by (induction bs) auto
  then show ?thesis by (simp add: granted_to_def t_sum_def t_filter_def)
qed

lemma rows_change: "rows (t_change k i g T) = map (\<lambda>r. if k r = i then g r else r) (rows T)"
  by (simp add: t_change_def rows_t_update)

text \<open>Changing one row without its pair.\<close>

lemma runs_ok_change:
  assumes ok: "runs_ok P T" and r: "r \<in> set (rows T)" and g: "\<And>r. ru_id (g r) = ru_id r" "runs_pair (g r) = runs_pair r"
    and old: "\<And>r'. r' \<in> set (rows T) \<Longrightarrow> r' \<noteq> r \<Longrightarrow> runs_row_ok P r' \<Longrightarrow> runs_row_ok P' r'"
    and new: "runs_row_ok P' (g r)"
    and P': "\<And>b. b \<in> set (rows P') \<Longrightarrow> b \<in> set (rows P) \<or> (b_userId b, b_listingId b) = runs_pair r"
  shows "runs_ok P' (t_change ru_id (ru_id r) g T)"
proof -
  have wf: "wf_table ru_id T" using ok by (simp add: runs_ok_def)
  have one: "(if ru_id r' = ru_id r then g r' else r') = (if r' = r then g r else r')" if "r' \<in> set (rows T)" for r'
    using wf_key_unique [OF wf that r] by auto
  have rs: "rows (t_change ru_id (ru_id r) g T) = map (\<lambda>r'. if r' = r then g r else r') (rows T)"
    unfolding rows_change by (rule map_cong) (simp_all add: one)
  have pairs: "map runs_pair (rows (t_change ru_id (ru_id r) g T)) = map runs_pair (rows T)"
    using g(2) by (simp add: rs)
  then have pset: "runs_pair ` set (rows (t_change ru_id (ru_id r) g T)) = runs_pair ` set (rows T)"
    by (metis list.set_map)
  have "runs_row_ok P' r'" if "r' \<in> set (rows (t_change ru_id (ru_id r) g T))" for r'
    using that old new ok by (auto simp: rs runs_ok_def split: if_splits)
  moreover have "(b_userId b, b_listingId b) \<in> runs_pair ` set (rows T)"
    if "b \<in> set (rows P')" "b_runsGranted b \<noteq> 0" for b
    using P' [OF that(1)] that(2) ok r unfolding runs_ok_def by auto
  ultimately show ?thesis
    using wf g(1) pairs pset ok by (simp add: runs_ok_def)
qed

lemma runs_ok_grant:
  assumes ok: "runs_ok P T" and n: "0 \<le> n"
    and f: "t_new f P = b" "b_userId b = u" "b_listingId b = l" "b_runsGranted b = n"
  shows "runs_ok (t_insert f P) (grant_runs u l n T)"
proof -
  have P': "b' \<in> set (rows P) \<or> b' = b" if "b' \<in> set (rows (t_insert f P))" for b'
    using that f(1) by (auto simp: rows_t_insert t_new_def)
  have keep: "runs_row_ok (t_insert f P) r'" if "runs_row_ok P r'" "runs_pair r' \<noteq> (u, l)" for r'
    using that f by (auto simp: runs_row_ok_def granted_insert runs_pair_def)
  show ?thesis
  proof (cases "t_find (\<lambda>r. ru_userId r = u \<and> ru_listingId r = l) T")
    case None
    let ?g = "\<lambda>i. \<lparr>ru_id = i, ru_userId = u, ru_listingId = l, ru_remainingRuns = n,
                  ru_totalGranted = n, ru_totalConsumed = 0, ru_lastConsumedAt = None\<rparr>"
    have no: "(u, l) \<notin> runs_pair ` set (rows T)" using None by (auto simp: t_find_None runs_pair_def)
    have g0: "granted_to u l P = 0" by (rule granted_none [OF ok no])
    have rs: "rows (t_insert ?g T) = rows T @ [?g (next_id T)]" by (simp add: rows_t_insert)
    have "runs_row_ok (t_insert f P) (?g (next_id T))"
      using n f g0 by (simp add: runs_row_ok_def granted_insert)
    moreover have "runs_row_ok (t_insert f P) r'" if "r' \<in> set (rows T)" for r'
    proof (rule keep)
      show "runs_row_ok P r'" using ok that by (simp add: runs_ok_def)
      show "runs_pair r' \<noteq> (u, l)" using no that by force
    qed
    ultimately have "runs_row_ok (t_insert f P) r'" if "r' \<in> set (rows (t_insert ?g T))" for r'
      using that by (auto simp: rs)
    moreover have "distinct (map runs_pair (rows (t_insert ?g T)))"
      using ok no by (simp add: rs runs_ok_def runs_pair_def)
    moreover have "(b_userId b', b_listingId b') \<in> runs_pair ` set (rows (t_insert ?g T))"
      if "b' \<in> set (rows (t_insert f P))" "b_runsGranted b' \<noteq> 0" for b'
      using P' [OF that(1)] that(2) ok f by (auto simp: rs runs_ok_def runs_pair_def)
    ultimately show ?thesis
      using None ok by (simp add: grant_runs_def runs_ok_def)
  next
    case (Some r)
    let ?g = "\<lambda>r. r\<lparr>ru_remainingRuns := ru_remainingRuns r + n, ru_totalGranted := ru_totalGranted r + n\<rparr>"
    have r: "r \<in> set (rows T)" "ru_userId r = u" "ru_listingId r = l" using t_find_Some [OF Some] by auto
    have "runs_ok (t_insert f P) (t_change ru_id (ru_id r) ?g T)"
    proof (rule runs_ok_change [OF ok r(1)])
      fix r' assume r': "r' \<in> set (rows T)" "r' \<noteq> r" "runs_row_ok P r'"
      have "runs_pair r' \<noteq> runs_pair r"
        using ok r(1) r'(1,2) unfolding runs_ok_def by (auto simp: distinct_map inj_on_def)
      then show "runs_row_ok (t_insert f P) r'" using keep r'(3) r by (simp add: runs_pair_def)
    next
      have "runs_row_ok P r" using ok r(1) by (simp add: runs_ok_def)
      then show "runs_row_ok (t_insert f P) (?g r)"
        using n f r by (simp add: runs_row_ok_def granted_insert)
    next
      fix b' assume "b' \<in> set (rows (t_insert f P))"
      then show "b' \<in> set (rows P) \<or> (b_userId b', b_listingId b') = runs_pair r"
        using P' f r by (auto simp: runs_pair_def)
    qed (simp_all add: runs_pair_def)
    then show ?thesis using Some by (simp add: grant_runs_def)
  qed
qed

lemma runs_ok_no_grant:
  assumes ok: "runs_ok P T" and f: "b_runsGranted (t_new f P) = 0"
  shows "runs_ok (t_insert f P) T"
  using ok f by (auto simp: runs_ok_def runs_row_ok_def granted_insert rows_t_insert t_new_def)

lemma runs_ok_spend:
  assumes ok: "runs_ok P T" and r: "r \<in> set (rows T)" "0 < ru_remainingRuns r"
  shows "runs_ok P (t_change ru_id (ru_id r) (spend_run now) T)"
proof (rule runs_ok_change [OF ok r(1)])
  have "runs_row_ok P r" using ok r(1) by (simp add: runs_ok_def)
  then show "runs_row_ok P (spend_run now r)" using r(2) by (simp add: runs_row_ok_def spend_run_def)
qed (simp_all add: spend_run_def runs_pair_def)

subsection \<open>Counters and sales\<close>

lemma buyers_insert: "buyers l (t_insert f P) =
    (if b_listingId (t_new f P) = l then insert (b_userId (t_new f P)) (buyers l P) else buyers l P)"
  by (auto simp: buyers_def rows_t_insert t_new_def)

lemma finite_buyers [simp]: "finite (buyers l P)"
  by (simp add: buyers_def)

lemma owned_buyers:
  assumes "sales_ok L (agents_purchase s)"
  shows "owned u l s \<longleftrightarrow> u \<in> buyers l (agents_purchase s)"
  using assms by (auto simp: owned_def buyers_def t_exists_def list_ex_iff sales_ok_def sale_ok_def)

lemma grant_consumed: "wf_table ru_id T \<Longrightarrow>
    t_sum (\<lambda>r. ru_listingId r = l') ru_totalConsumed (grant_runs u l n T) =
    t_sum (\<lambda>r. ru_listingId r = l') ru_totalConsumed T"
  by (auto simp: grant_runs_def t_sum_insert t_new_def t_change_def split: option.splits
      intro!: t_sum_update_same)

lemma sale_ok_core:
  assumes "sale_ok L b" "\<And>i l. t_get l_id i L = Some l \<Longrightarrow> \<exists>l'. t_get l_id i L' = Some l' \<and> listing_core l' = listing_core l"
  shows "sale_ok L' b"
proof -
  obtain l where l: "t_get l_id (b_listingId b) L = Some l" "l_makerUserId l \<noteq> b_userId b"
      "l_pricingType l = b_pricingTypeAtSale b" using assms(1) by (auto simp: sale_ok_def)
  obtain l' where "t_get l_id (b_listingId b) L' = Some l'" "listing_core l' = listing_core l"
    using assms(2) [OF l(1)] by blast
  then show ?thesis using assms(1) l by (auto simp: sale_ok_def listing_core_def)
qed

text \<open>A line that settles well: its listing is there, by another maker, and the amounts add up.\<close>

definition line_good :: "listing_row table \<Rightarrow> int \<Rightarrow> built_line \<Rightarrow> bool" where
  "line_good L u line \<longleftrightarrow>
     (\<exists>l. t_get l_id (l_id (bl_listing line)) L = Some l \<and> listing_core l = listing_core (bl_listing line) \<and>
        l_makerUserId l \<noteq> u) \<and>
     0 \<le> bl_commissionToman line \<and> 0 \<le> bl_makerEarnedToman line \<and>
     bl_commissionToman line + bl_makerEarnedToman line = bl_amountToman line \<and>
     (case bl_pack line of
        None \<Rightarrow> l_pricingType (bl_listing line) \<noteq> PER_RUN \<and> bl_runsGranted line = 0
      | Some k \<Rightarrow> l_pricingType (bl_listing line) = PER_RUN \<and> bl_runsGranted line = rp_runs k \<and> 0 < rp_runs k)"

definition market_ok :: "'x agents_scheme \<Rightarrow> bool" where
  "market_ok s \<longleftrightarrow> catalog_ok s \<and> cart_ok s \<and> sales_ok (agents_listing s) (agents_purchase s) \<and>
     runs_ok (agents_purchase s) (agents_user_runs s) \<and>
     counts_ok (agents_listing s) (agents_purchase s) (agents_user_runs s) \<and>
     0 \<le> commissionPercent s \<and> commissionPercent s \<le> 100"

lemma on_market_ok: "on_market market_ok"
proof (rule on_marketI)
  fix s t :: "'x agents_scheme"
  assume h: "sys.more s = sys.more t"
  show "market_ok s = market_ok t"
    unfolding market_ok_def catalog_ok_def cart_ok_def cart_line_ok_def commissionPercent_def market_fields [OF h]
    by (rule refl)
qed

lemma catalog_bump:
  assumes "catalog_ok s" "\<And>l. row_step l (g l)"
    "agents_listing t = t_change l_id i g (agents_listing s)" "agents_run_pack t = agents_run_pack s"
  shows "catalog_ok t"
proof -
  have "catalog_ok (agents_listing_update (t_update (\<lambda>l. l_id l = i) g) s)"
    by (rule catalog_update [OF assms(1) _ _ refl]) (use assms(2) in \<open>auto simp: row_step_def listing_core_def\<close>)
  then show ?thesis using assms(3,4) by (simp add: catalog_ok_def t_change_def)
qed

lemma core_change:
  assumes "\<And>l. listing_core (g l) = listing_core l" "t_get l_id i L = Some l"
  shows "\<exists>l'. t_get l_id i (t_change l_id j g L) = Some l' \<and> listing_core l' = listing_core l"
proof -
  have "l_id (g l) = l_id l" for l using assms(1) [of l] by (simp add: listing_core_def)
  then show ?thesis using assms by (auto simp: t_get_change)
qed

lemma cart_ok_core:
  assumes "cart_ok s" "agents_cart_item t = agents_cart_item s"
    and packs: "\<And>i k. t_get rp_id i (agents_run_pack s) = Some k \<Longrightarrow> t_get rp_id i (agents_run_pack t) = Some k"
    and core: "\<And>i l. t_get l_id i (agents_listing s) = Some l \<Longrightarrow>
      \<exists>l'. t_get l_id i (agents_listing t) = Some l' \<and> listing_core l' = listing_core l"
  shows "cart_ok t"
proof -
  have "cart_line_ok t c" if "cart_line_ok s c" for c
  proof -
    obtain u l where c: "c_userId c = Some u" "t_get l_id (c_listingId c) (agents_listing s) = Some l"
        "l_makerUserId l \<noteq> u" "if l_pricingType l = PER_RUN
         then \<exists>p k. c_runPackId c = Some p \<and> t_get rp_id p (agents_run_pack s) = Some k \<and> rp_listingId k = l_id l
         else c_runPackId c = None"
      using \<open>cart_line_ok s c\<close> unfolding cart_line_ok_def by blast
    obtain l' where l': "t_get l_id (c_listingId c) (agents_listing t) = Some l'" "listing_core l' = listing_core l"
      using core [OF c(2)] by blast
    then have eq: "l_makerUserId l' = l_makerUserId l" "l_pricingType l' = l_pricingType l" "l_id l' = l_id l"
      by (simp_all add: listing_core_def)
    show ?thesis
    proof (cases "l_pricingType l = PER_RUN")
      case True
      then obtain p k where "c_runPackId c = Some p" "t_get rp_id p (agents_run_pack s) = Some k" "rp_listingId k = l_id l"
        using c(4) by auto
      then show ?thesis using c(1,3) l'(1) eq True packs by (auto simp: cart_line_ok_def)
    next
      case False
      then show ?thesis using c l'(1) eq by (auto simp: cart_line_ok_def)
    qed
  qed
  then show ?thesis using assms(1,2) by (simp add: cart_ok_def)
qed

subsection \<open>Settling keeps the market\<close>

lemma settle_core:
  assumes "t_get l_id i (agents_listing s) = Some l"
  shows "\<exists>l'. t_get l_id i (agents_listing (settle_state now u line s)) = Some l' \<and> listing_core l' = listing_core l"
  using assms core_change [where g = "\<lambda>l. (l\<lparr>l_totalUsers := l_totalUsers l + 1\<rparr>)\<lparr>l_updatedAt := now\<rparr>", OF _ assms]
  by (auto simp: settle_state_tables listing_core_def)

lemma line_good_core:
  assumes "line_good L u line" "\<And>i l. t_get l_id i L = Some l \<Longrightarrow> \<exists>l'. t_get l_id i L' = Some l' \<and> listing_core l' = listing_core l"
  shows "line_good L' u line"
proof -
  obtain l where l: "t_get l_id (l_id (bl_listing line)) L = Some l" "listing_core l = listing_core (bl_listing line)"
      "l_makerUserId l \<noteq> u" using assms(1) unfolding line_good_def by blast
  obtain l' where l': "t_get l_id (l_id (bl_listing line)) L' = Some l'" "listing_core l' = listing_core l"
    using assms(2) [OF l(1)] by blast
  then have "l_makerUserId l' = l_makerUserId l" by (simp add: listing_core_def)
  then show ?thesis using assms(1) l l' unfolding line_good_def by metis
qed

lemma settle_runs:
  assumes "runs_ok (agents_purchase s) (agents_user_runs s)" "line_good L u line"
  shows "runs_ok (agents_purchase (settle_state now u line s)) (agents_user_runs (settle_state now u line s))"
proof (cases "bl_pack line")
  case None
  then show ?thesis
    using runs_ok_no_grant [OF assms(1), of "purchase_of now u line"] assms(2)
    by (simp add: settle_state_tables line_good_def t_new_def purchase_of_def)
next
  case (Some k)
  have "runs_ok (t_insert (purchase_of now u line) (agents_purchase s))
      (grant_runs u (l_id (bl_listing line)) (rp_runs k) (agents_user_runs s))"
    by (rule runs_ok_grant [OF assms(1) _ refl])
       (use assms(2) Some in \<open>auto simp: line_good_def t_new_def purchase_of_def\<close>)
  then show ?thesis using Some assms(2) by (simp add: settle_state_tables line_good_def)
qed

lemma settle_sales:
  assumes "sales_ok (agents_listing s) (agents_purchase s)" "line_good (agents_listing s) u line"
  shows "sales_ok (agents_listing (settle_state now u line s)) (agents_purchase (settle_state now u line s))"
proof -
  let ?b = "purchase_of now u line (next_id (agents_purchase s))"
  obtain l where "t_get l_id (l_id (bl_listing line)) (agents_listing s) = Some l"
      "listing_core l = listing_core (bl_listing line)" "l_makerUserId l \<noteq> u"
    using assms(2) unfolding line_good_def by blast
  then have "sale_ok (agents_listing s) ?b"
    using assms(2) by (auto simp: sale_ok_def purchase_of_def line_good_def listing_core_def split: option.splits)
  then have "\<forall>b \<in> set (rows (agents_purchase (settle_state now u line s))). sale_ok (agents_listing s) b"
    using assms(1) by (auto simp: settle_state_tables rows_t_insert sales_ok_def)
  then have "\<forall>b \<in> set (rows (agents_purchase (settle_state now u line s))).
      sale_ok (agents_listing (settle_state now u line s)) b"
    using sale_ok_core settle_core by metis
  then show ?thesis using assms(1)
    by (simp add: sales_ok_def settle_state_tables purchase_of_def)
qed

lemma settle_counts:
  assumes "catalog_ok s" "sales_ok (agents_listing s) (agents_purchase s)"
    "runs_ok (agents_purchase s) (agents_user_runs s)"
    "counts_ok (agents_listing s) (agents_purchase s) (agents_user_runs s)"
  shows "counts_ok (agents_listing (settle_state now u line s)) (agents_purchase (settle_state now u line s))
    (agents_user_runs (settle_state now u line s))"
proof -
  let ?P = "agents_purchase s" and ?T = "agents_user_runs s" and ?lid = "l_id (bl_listing line)"
  let ?g = "\<lambda>l. (l\<lparr>l_totalUsers := l_totalUsers l + 1\<rparr>)\<lparr>l_updatedAt := now\<rparr>"
  have T: "t_sum (\<lambda>r. ru_listingId r = i) ru_totalConsumed (agents_user_runs (settle_state now u line s)) =
      t_sum (\<lambda>r. ru_listingId r = i) ru_totalConsumed ?T" for i
    using assms(3) by (auto simp: settle_state_tables grant_consumed runs_ok_def split: option.splits)
  have P: "buyers i (agents_purchase (settle_state now u line s)) =
      (if i = ?lid then insert u (buyers i ?P) else buyers i ?P)" for i
    by (simp add: settle_state_tables buyers_insert t_new_def purchase_of_def)
  have old: "l_totalUsers l = int (card (buyers (l_id l) ?P)) \<and>
      l_totalRuns l = t_sum (\<lambda>r. ru_listingId r = l_id l) ru_totalConsumed ?T" if "l \<in> set (rows (agents_listing s))" for l
    using assms(4) that by (simp add: counts_ok_def)
  show ?thesis
  proof (cases "owned u ?lid s")
    case True
    then have "u \<in> buyers ?lid ?P" using owned_buyers [OF assms(2)] by simp
    then show ?thesis using True old
      by (simp add: counts_ok_def settle_state_tables(3) T P insert_absorb)
  next
    case False
    then have "u \<notin> buyers ?lid ?P" using owned_buyers [OF assms(2)] by simp
    then have new: "l_totalUsers l' = int (card (if l_id l' = ?lid then insert u (buyers (l_id l') ?P) else buyers (l_id l') ?P)) \<and>
        l_totalRuns l' = t_sum (\<lambda>r. ru_listingId r = l_id l') ru_totalConsumed ?T"
      if "l \<in> set (rows (agents_listing s))" "l' = (if l_id l = ?lid then ?g l else l)" for l l'
      using old [OF that(1)] that(2) by (cases "l_id l = ?lid") simp_all
    show ?thesis
      unfolding counts_ok_def T P
    proof
      fix l' assume "l' \<in> set (rows (agents_listing (settle_state now u line s)))"
      then obtain l where "l \<in> set (rows (agents_listing s))" "l' = (if l_id l = ?lid then ?g l else l)"
        unfolding settle_state_tables(3) using False by (simp only: if_False rows_change set_map) blast
      from new [OF this] show "l_totalUsers l' = int (card (if l_id l' = ?lid then insert u (buyers (l_id l') ?P)
          else buyers (l_id l') ?P)) \<and> l_totalRuns l' = t_sum (\<lambda>r. ru_listingId r = l_id l') ru_totalConsumed ?T" .
    qed
  qed
qed

lemma settle_market:
  assumes "market_ok s" "line_good (agents_listing s) u line"
  shows "market_ok (settle_state now u line s)"
proof -
  have ok: "catalog_ok s" "cart_ok s" "sales_ok (agents_listing s) (agents_purchase s)"
    "runs_ok (agents_purchase s) (agents_user_runs s)"
    "counts_ok (agents_listing s) (agents_purchase s) (agents_user_runs s)"
    using assms(1) by (simp_all add: market_ok_def)
  have "catalog_ok (settle_state now u line s)"
  proof (cases "owned u (l_id (bl_listing line)) s")
    case True
    then show ?thesis using ok(1) by (simp add: catalog_ok_def settle_state_tables)
  next
    case False
    show ?thesis
      by (rule catalog_bump [OF ok(1), where g = "\<lambda>l. (l\<lparr>l_totalUsers := l_totalUsers l + 1\<rparr>)\<lparr>l_updatedAt := now\<rparr>"])
         (simp_all add: False settle_state_tables row_step_def listing_core_def)
  qed
  moreover have "cart_ok (settle_state now u line s)"
    by (rule cart_ok_core [OF ok(2)]) (simp_all add: settle_state_tables(4,5) settle_core)
  ultimately show ?thesis
    using settle_sales [OF ok(3) assms(2)] settle_runs [OF ok(4) assms(2)] settle_counts [OF ok(1,3,4,5)] assms(1)
    by (simp add: market_ok_def commissionPercent_def settle_state_tables)
qed

lemma settle_all_market:
  "market_ok s \<Longrightarrow> (\<And>line. line \<in> set lines \<Longrightarrow> line_good (agents_listing s) u line) \<Longrightarrow>
   market_ok (settle_all now u lines s)"
proof (induction lines arbitrary: s)
  case (Cons line lines)
  have "market_ok (settle_state now u line s)" by (rule settle_market) (use Cons.prems in auto)
  moreover have "line_good (agents_listing (settle_state now u line s)) u l" if "l \<in> set lines" for l
  proof (rule line_good_core)
    show "line_good (agents_listing s) u l" using Cons.prems(2) that by simp
  qed (rule settle_core)
  ultimately show ?case using Cons.IH by simp
qed simp

subsection \<open>Checkout\<close>

lemma commission_bounds:
  assumes "0 \<le> amount" "0 \<le> pc" "pc \<le> 100"
  shows "0 \<le> commission_of amount pc" "commission_of amount pc \<le> amount"
proof -
  have nn: "0 \<le> amount * pc" using assms by simp
  then show "0 \<le> commission_of amount pc" by (simp add: commission_of_def js_quot_def pos_imp_zdiv_nonneg_iff)
  have "amount * pc \<le> amount * 100" using assms by (intro mult_left_mono) auto
  then have "amount * pc div 100 \<le> amount * 100 div 100" by (rule zdiv_mono1) simp
  then show "commission_of amount pc \<le> amount" using nn by (simp add: commission_of_def js_quot_def)
qed

lemma line_price_good:
  assumes "catalog_ok s" "t_get l_id (l_id l) (agents_listing s) = Some l" "line_price u s c l = Inr (pack, amount, runs)"
  shows "0 \<le> amount \<and> (case pack of
      None \<Rightarrow> l_pricingType l \<noteq> PER_RUN \<and> runs = 0
    | Some k \<Rightarrow> l_pricingType l = PER_RUN \<and> runs = rp_runs k \<and> 0 < rp_runs k)"
proof (cases "l_pricingType l = PER_RUN")
  case True
  then have "line_price u s c l = (case c_runPackId c of None \<Rightarrow> Inl INVALID_RUN_PACK
     | Some p \<Rightarrow> (case active_pack p (l_id l) s of None \<Rightarrow> Inl INVALID_RUN_PACK
         | Some k \<Rightarrow> Inr (Some k, rp_priceToman k, rp_runs k)))"
    by (simp add: line_price_def)
  then obtain p k where k: "active_pack p (l_id l) s = Some k" "pack = Some k" "amount = rp_priceToman k"
      "runs = rp_runs k"
    using assms(3) by (cases "c_runPackId c"; cases "active_pack (the (c_runPackId c)) (l_id l) s") simp_all
  have "k \<in> set (rows (agents_run_pack s))"
    using t_find_Some [OF k(1) [unfolded active_pack_def]] by simp
  then have "0 < rp_runs k" "0 < rp_priceToman k" using assms(1) by (simp_all add: catalog_ok_def)
  then show ?thesis using True k by simp
next
  case False
  have "l \<in> set (rows (agents_listing s))" by (rule t_get_in [OF assms(2)])
  then have "priced (agents_run_pack s) l" using assms(1) by (simp add: catalog_ok_def)
  then show ?thesis using assms(3) False
    by (cases "l_pricingType l")
       (auto simp: line_price_def priced_def zero_or_def split: if_splits option.splits)
qed

lemma checked_good:
  assumes "market_ok s" "line \<in> set (built_of (checked_lines u s))"
  shows "line_good (agents_listing s) u line"
proof -
  have ok: "catalog_ok s" "cart_ok s" "0 \<le> commissionPercent s" "commissionPercent s \<le> 100"
    using assms(1) by (simp_all add: market_ok_def)
  have wf: "wf_table l_id (agents_listing s)" using ok(1) by (simp add: catalog_ok_def)
  obtain c where c: "c \<in> set (cart_rows_of u s)" "check_line u (commissionPercent s) s c = Inr line"
    using assms(2) by (auto simp: built_of_in checked_lines_def)
  have cu: "c \<in> set (rows (agents_cart_item s))" "c_userId c = Some u"
    using c(1) by (auto simp: cart_rows_of_def t_filter_def)
  obtain l pack amount runs where l: "listing_live (c_listingId c) s = Some l"
      "line_price u s c l = Inr (pack, amount, runs)"
      "line = \<lparr>bl_listing = l, bl_pack = pack, bl_amountToman = amount,
        bl_commissionToman = commission_of amount (commissionPercent s),
        bl_makerEarnedToman = amount - commission_of amount (commissionPercent s), bl_runsGranted = runs\<rparr>"
    using check_line_Inr [OF c(2)] by blast
  have g: "t_get l_id (c_listingId c) (agents_listing s) = Some l" "l_id l = c_listingId c"
    using listing_live_get [OF wf l(1)] by auto
  have "cart_line_ok s c" using ok(2) cu(1) by (simp add: cart_ok_def)
  then have "l_makerUserId l \<noteq> u" using cu(2) g(1) by (auto simp: cart_line_ok_def)
  moreover have "0 \<le> amount \<and> (case pack of
      None \<Rightarrow> l_pricingType l \<noteq> PER_RUN \<and> runs = 0
    | Some k \<Rightarrow> l_pricingType l = PER_RUN \<and> runs = rp_runs k \<and> 0 < rp_runs k)"
    by (rule line_price_good [OF ok(1) _ l(2)]) (use g in simp)
  ultimately show ?thesis
    using g commission_bounds [of amount "commissionPercent s"] ok(3,4)
    by (cases pack) (simp_all add: line_good_def l(3))
qed

lemma failures_built_length: "length (failures_of rs) + length (built_of rs) = length rs"
  by (induction rs) (auto simp: failures_of_def built_of_def split: sum.splits)

lemma checkout_tx_user:
  assumes "checkout_tx pf u s = (Inr r, t)"
  shows "find_user u s \<noteq> None"
proof -
  have ne: "cart_rows_of u s \<noteq> []" "failures_of (checked_lines u s) = []"
    using assms by (auto simp: checkout_tx_def checked_lines_def run_simps Let_def split: if_splits)
  then have "length (built_of (checked_lines u s)) = length (cart_rows_of u s)"
    using failures_built_length [of "checked_lines u s"] by (simp add: checked_lines_def)
  then obtain line lines where b: "built_of (checked_lines u s) = line # lines"
    using ne(1) by (cases "built_of (checked_lines u s)") auto
  show ?thesis
    using assms ne b
    by (auto simp: checkout_tx_def checked_lines_def [symmetric] run_simps Let_def settle_line_def
        purchase_create_def split: if_splits)
qed

lemma cart_delete_market: "market_ok s \<Longrightarrow> market_ok (agents_cart_item_update (t_delete P) s)"
  using cart_delete_ok [of s P] by (simp add: market_ok_def catalog_ok_def commissionPercent_def)

lemma checkout_tx_market:
  assumes "market_ok s"
  shows "market_ok (snd (transaction (checkout_tx pf u) s))"
proof (cases "find_user u s = None")
  case True
  then show ?thesis
    using assms checkout_tx_user [of pf u s] by (auto simp: transaction_def split: prod.splits sum.splits)
next
  case False
  have wf: "wf_table l_id (agents_listing s)" using assms by (simp add: market_ok_def catalog_ok_def)
  have "market_ok (settle_all (pf_now pf) u (built_of (checked_lines u s)) s)"
    by (rule settle_all_market [OF assms checked_good [OF assms]])
  then show ?thesis
    using assms by (simp add: checkout_tx_run [OF wf False] Let_def cart_delete_market)
qed

lemma keeps_checkout: "keeps market_ok (checkout pf aborts u)"
proof -
  have a: "keeps market_ok (attempt ab (checkout_tx pf u))" for ab
    by (cases ab) (auto simp: attempt_def throw_def keeps_def intro: checkout_tx_market)
  have d: "keeps market_ok (dispatchPostCommit pf plan)" for plan
    unfolding dispatchPostCommit_def by (intro keeps_intros on_market_ok)
  have c: "keeps market_ok (clearLowRunsDedup u is)" for "is"
    unfolding clearLowRunsDedup_def by (intro keeps_intros on_market_ok)
  show ?thesis
    unfolding checkout_def runWithSerializationRetry_def by (intro keeps_intros a c d)
qed

section \<open>Listings, carts and runs in one market\<close>

lemma sum_list_cong_zero: "(\<And>x. x \<in> set xs \<Longrightarrow> f x = (0::int)) \<Longrightarrow> sum_list (map f xs) = 0"
  by (induction xs) auto

text \<open>A step that leaves sales, runs and carts, and no counter of a listing, keeps the market.\<close>

lemma market_step:
  assumes ok: "market_ok s" and cat: "catalog_ok t"
    and same: "agents_cart_item t = agents_cart_item s" "agents_purchase t = agents_purchase s"
      "agents_user_runs t = agents_user_runs s" "agents_settings t = agents_settings s"
    and packs: "\<And>i k. t_get rp_id i (agents_run_pack s) = Some k \<Longrightarrow> t_get rp_id i (agents_run_pack t) = Some k"
    and core: "\<And>i l. t_get l_id i (agents_listing s) = Some l \<Longrightarrow>
      \<exists>l'. t_get l_id i (agents_listing t) = Some l' \<and> listing_core l' = listing_core l"
    and counters: "\<And>l'. l' \<in> set (rows (agents_listing t)) \<Longrightarrow>
      (\<exists>l \<in> set (rows (agents_listing s)). l_id l = l_id l' \<and> l_totalUsers l = l_totalUsers l' \<and> l_totalRuns l = l_totalRuns l') \<or>
      t_get l_id (l_id l') (agents_listing s) = None \<and> l_totalUsers l' = 0 \<and> l_totalRuns l' = 0"
  shows "market_ok t"
proof -
  have m: "cart_ok s" "sales_ok (agents_listing s) (agents_purchase s)"
    "runs_ok (agents_purchase s) (agents_user_runs s)"
    "counts_ok (agents_listing s) (agents_purchase s) (agents_user_runs s)"
    using ok by (simp_all add: market_ok_def)
  have cart: "cart_ok t" by (rule cart_ok_core [OF m(1) same(1) packs core])
  have sales: "sales_ok (agents_listing t) (agents_purchase s)"
    using m(2) sale_ok_core core unfolding sales_ok_def by blast
  have fresh: "buyers i (agents_purchase s) = {}" "t_sum (\<lambda>r. ru_listingId r = i) ru_totalConsumed (agents_user_runs s) = 0"
    if "t_get l_id i (agents_listing s) = None" for i
  proof -
    have none: "b_listingId b \<noteq> i" if "b \<in> set (rows (agents_purchase s))" for b
      using m(2) that \<open>t_get l_id i (agents_listing s) = None\<close> unfolding sales_ok_def sale_ok_def by force
    then show "buyers i (agents_purchase s) = {}" by (auto simp: buyers_def)
    have g: "granted_to u i (agents_purchase s) = 0" for u
      unfolding granted_to_def t_sum_def t_filter_def using none by (simp add: filter_False)
    have "ru_totalConsumed r = 0" if "r \<in> set (rows (agents_user_runs s))" "ru_listingId r = i" for r
    proof -
      have "runs_row_ok (agents_purchase s) r" using m(3) that(1) by (simp add: runs_ok_def)
      then show ?thesis using g that(2) by (auto simp: runs_row_ok_def)
    qed
    then show "t_sum (\<lambda>r. ru_listingId r = i) ru_totalConsumed (agents_user_runs s) = 0"
      using sum_list_cong_zero [of "t_filter (\<lambda>r. ru_listingId r = i) (agents_user_runs s)"]
      by (auto simp: t_sum_def t_filter_def)
  qed
  have "counts_ok (agents_listing t) (agents_purchase s) (agents_user_runs s)"
    unfolding counts_ok_def
  proof
    fix l' assume l': "l' \<in> set (rows (agents_listing t))"
    from counters [OF l'] show "l_totalUsers l' = int (card (buyers (l_id l') (agents_purchase s))) \<and>
        l_totalRuns l' = t_sum (\<lambda>r. ru_listingId r = l_id l') ru_totalConsumed (agents_user_runs s)"
    proof (elim disjE bexE conjE)
      fix l assume l: "l \<in> set (rows (agents_listing s))" "l_id l = l_id l'" "l_totalUsers l = l_totalUsers l'"
        "l_totalRuns l = l_totalRuns l'"
      have "l_totalUsers l = int (card (buyers (l_id l) (agents_purchase s))) \<and>
          l_totalRuns l = t_sum (\<lambda>r. ru_listingId r = l_id l) ru_totalConsumed (agents_user_runs s)"
        using m(4) l(1) by (simp add: counts_ok_def)
      then show ?thesis by (simp add: l(2-4))
    qed (simp add: fresh)
  qed
  then show ?thesis using ok cat cart sales m(3) same by (simp add: market_ok_def commissionPercent_def)
qed

lemma market_evolves:
  assumes ok: "market_ok s" and cat: "catalog_ok t" and ev: "evolves (agents_listing s) (agents_listing t)"
    and same: "agents_cart_item t = agents_cart_item s" "agents_purchase t = agents_purchase s"
      "agents_user_runs t = agents_user_runs s" "agents_settings t = agents_settings s"
      "\<And>i k. t_get rp_id i (agents_run_pack s) = Some k \<Longrightarrow> t_get rp_id i (agents_run_pack t) = Some k"
    and counters: "\<And>l'. l' \<in> set (rows (agents_listing t)) \<Longrightarrow>
      (\<exists>l \<in> set (rows (agents_listing s)). l_id l = l_id l' \<and> l_totalUsers l = l_totalUsers l' \<and> l_totalRuns l = l_totalRuns l') \<or>
      t_get l_id (l_id l') (agents_listing s) = None \<and> l_totalUsers l' = 0 \<and> l_totalRuns l' = 0"
  shows "market_ok t"
proof (rule market_step [OF ok cat same _ counters])
  fix i l assume "t_get l_id i (agents_listing s) = Some l"
  moreover have "wf_table l_id (agents_listing s)" using ok by (simp add: market_ok_def catalog_ok_def)
  ultimately obtain l' where l': "t_get l_id i (agents_listing t) = Some l'" "row_step\<^sup>*\<^sup>* l l'"
    using ev unfolding evolves_def by blast
  then show "\<exists>l'. t_get l_id i (agents_listing t) = Some l' \<and> listing_core l' = listing_core l"
    using row_steps_core [OF l'(2)] by blast
qed

lemma market_update:
  assumes ok: "market_ok s"
    and g: "\<And>l. l \<in> set (rows (agents_listing s)) \<Longrightarrow> P l \<Longrightarrow> row_step l (g l)" "\<And>l. l_id (g l) = l_id l"
      "\<And>l. l_totalUsers (g l) = l_totalUsers l" "\<And>l. l_totalRuns (g l) = l_totalRuns l"
  shows "market_ok (agents_listing_update (t_update P g) s)"
proof (rule market_step [OF ok])
  show "catalog_ok (agents_listing_update (t_update P g) s)"
    by (rule catalog_update [OF _ g(1) g(2) refl]) (use ok in \<open>simp_all add: market_ok_def\<close>)
  have get: "t_get l_id i (t_update P g T) = map_option (\<lambda>l. if P l then g l else l) (t_get l_id i T)" for i T
    unfolding t_get_def t_find_def rows_t_update by (rule find_map_preserving) (simp add: g(2))
  fix i l assume l: "t_get l_id i (agents_listing s) = Some l"
  then have "listing_core (if P l then g l else l) = listing_core l"
    using g(1) [OF t_get_in [OF l]] by (simp add: row_step_def)
  then show "\<exists>l'. t_get l_id i (agents_listing (agents_listing_update (t_update P g) s)) = Some l' \<and>
      listing_core l' = listing_core l" using l by (simp add: get)
next
  fix l' assume "l' \<in> set (rows (agents_listing (agents_listing_update (t_update P g) s)))"
  then obtain l where "l \<in> set (rows (agents_listing s))" "l' = (if P l then g l else l)"
    by (auto simp: rows_t_update)
  then show "(\<exists>l \<in> set (rows (agents_listing s)). l_id l = l_id l' \<and> l_totalUsers l = l_totalUsers l' \<and>
        l_totalRuns l = l_totalRuns l') \<or>
      t_get l_id (l_id l') (agents_listing s) = None \<and> l_totalUsers l' = 0 \<and> l_totalRuns l' = 0"
    using g(2-4) by (intro disjI1 bexI [of _ l]) auto
qed simp_all

lemma market_written:
  assumes "market_ok s" "one_listing_written s t"
  shows "market_ok t"
proof (cases "sys.more t = sys.more s")
  case True
  then show ?thesis using on_marketD [OF on_market_ok _ assms(1)] by blast
next
  case False
  then obtain i g l where g: "t_get l_id i (agents_listing s) = Some l" "row_step l (g l)" "tame g"
      "sys.more t = sys.more (agents_listing_update (t_change l_id i g) s)"
    using assms(2) unfolding one_listing_written_def by blast
  have wf: "wf_table l_id (agents_listing s)" using assms(1) by (simp add: market_ok_def catalog_ok_def)
  have "market_ok (agents_listing_update (t_update (\<lambda>l. l_id l = i) g) s)"
  proof (rule market_update [OF assms(1)])
    fix k assume "k \<in> set (rows (agents_listing s))" "l_id k = i"
    then have "k = l" using wf_key_unique [OF wf _ t_get_in [OF g(1)]] t_get_key [OF g(1)] by simp
    then show "row_step k (g k)" using g(2) by simp
  qed (use g(3) in \<open>auto simp: tame_def listing_core_def\<close>)
  then have "market_ok (agents_listing_update (t_change l_id i g) s)" by (simp add: t_change_def [abs_def])
  then show ?thesis by (rule on_marketD [OF on_market_ok g(4)])
qed

lemma market_view: "market_ok s \<Longrightarrow> market_ok (snd (recordView pf slug sample s))"
proof -
  assume ok: "market_ok s"
  have "market_ok (agents_listing_update (t_update
      (\<lambda>l. l_slug l = slug \<and> l_status l = LS_PUBLISHED \<and> l_deletedAt l = None)
      (\<lambda>l. l\<lparr>l_viewCount := l_viewCount l + 1, l_updatedAt := pf_now pf\<rparr>)) s)"
    by (rule market_update [OF ok]) (simp_all add: row_step_def listing_core_def)
  then show ?thesis using recordView_run [of pf slug sample s] ok by presburger
qed

lemma add_packs_get: "wf_table rp_id K \<Longrightarrow> t_get rp_id i K = Some k \<Longrightarrow> t_get rp_id i (add_packs l ips K) = Some k"
proof (induction l ips K rule: add_packs.induct)
  case (2 l ip ips K)
  have "t_get rp_id i (t_insert (pack_row l ip) K) = Some k"
    by (rule tbl.create_other) (use 2(2,3) in \<open>simp_all add: pack_row_def\<close>)
  then show ?case using 2 by (simp add: pack_row_def)
qed simp

lemma market_create:
  assumes ok: "market_ok s"
  shows "market_ok (snd (listing_create pf m dto s))"
proof -
  obtain x t where xt: "listing_create pf m dto s = (x, t)" by (cases "listing_create pf m dto s")
  have cat: "catalog_ok s" using ok by (simp add: market_ok_def)
  have wf: "wf_table l_id (agents_listing s)" "wf_table rp_id (agents_run_pack s)"
    using cat by (simp_all add: catalog_ok_def)
  from listing_create_run [OF xt] consider "t = s" |
    (new) "t = agents_run_pack_update (add_packs (next_id (agents_listing s)) (dto_packs dto))
           (agents_listing_update (t_insert (listing_of_dto (pf_now pf) m dto)) s)"
    by (auto simp: Let_def)
  then have "market_ok t"
  proof cases
    case new
    have "catalog_ok t" using catalog_create [OF cat, of pf m dto] xt by simp
    then show ?thesis
    proof (rule market_evolves [OF ok])
      show "evolves (agents_listing s) (agents_listing t)"
        using listing_evolves_insert [of "listing_of_dto (pf_now pf) m dto" "agents_listing s"] by (simp add: new)
      show "t_get rp_id i (agents_run_pack t) = Some k" if "t_get rp_id i (agents_run_pack s) = Some k" for i k
        using add_packs_get [OF wf(2) that] by (simp add: new)
      fix l' assume "l' \<in> set (rows (agents_listing t))"
      then consider "l' \<in> set (rows (agents_listing s))" |
        "l' = listing_of_dto (pf_now pf) m dto (next_id (agents_listing s))"
        by (auto simp: new rows_t_insert)
      then show "(\<exists>l \<in> set (rows (agents_listing s)). l_id l = l_id l' \<and> l_totalUsers l = l_totalUsers l' \<and>
        l_totalRuns l = l_totalRuns l') \<or>
        t_get l_id (l_id l') (agents_listing s) = None \<and> l_totalUsers l' = 0 \<and> l_totalRuns l' = 0"
        using tbl.lookup_fresh [OF wf(1)] by cases auto
    qed (simp_all add: new)
  qed (use ok in simp)
  then show ?thesis using xt by simp
qed

lemma run_listing_market: "market_ok s \<Longrightarrow> market_ok (run_listing pf ctx op s)"
  by (cases op)
     (simp_all add: run_listing_def market_view market_create
        market_written [OF _ submit_writes] market_written [OF _ approve_writes]
        market_written [OF _ reject_writes] market_written [OF _ suspend_writes]
        market_written [OF _ unsuspend_writes] market_written [OF _ softDelete_writes])

text \<open>The cart.\<close>

lemma market_cart:
  assumes "market_ok s" "catalog_ok t" "cart_ok t" "agents_listing t = agents_listing s"
    "agents_purchase t = agents_purchase s" "agents_user_runs t = agents_user_runs s"
    "agents_settings t = agents_settings s"
  shows "market_ok t"
  using assms by (simp add: market_ok_def commissionPercent_def)

lemma market_addItem: "market_ok s \<Longrightarrow> market_ok (snd (addItem pf u input s))"
proof -
  assume ok: "market_ok s"
  obtain x t where xt: "addItem pf u input s = (x, t)" by (cases "addItem pf u input s")
  have "agents_listing t = agents_listing s \<and> agents_purchase t = agents_purchase s \<and>
      agents_user_runs t = agents_user_runs s \<and> agents_settings t = agents_settings s"
    using addItem_run [OF xt] by auto
  then show ?thesis
    using market_cart [OF ok, of t] addItem_cart_ok [of s pf u input] ok xt by (simp add: market_ok_def)
qed

lemma market_cart_deletes:
  "market_ok s \<Longrightarrow> market_ok (snd (removeItem u i s))"
  "market_ok s \<Longrightarrow> market_ok (snd (cart_clearForUser u s))"
  by (simp_all add: removeItem_def cart_clearForUser_def run_simps cart_delete_market)

lemma market_merge_items: "market_ok s \<Longrightarrow> market_ok (snd (merge_items pf u guest r s))"
proof (induction guest arbitrary: r s)
  case (Cons item rest)
  obtain r' where r': "merge_one pf u item r s = (Inr r', snd (addItem pf u item s))"
    using merge_one_run by blast
  then show ?case using Cons.IH [OF market_addItem [OF Cons.prems]] by (simp add: bind_def)
qed (simp add: return_def)

end
