(* ===== verification/Commerce.thy ===== *)
theory Commerce
  imports Sales
begin

text \<open>
  The marketplace as a whole: what a consume call does on every branch, and any sequence of
  calls of the listing service, the cart, checkout and consume.  The theorems keep the
  invariant market_ok over such sequences, describe a checkout and its retry, and show how
  two overlapping additions of a one-time listing end in two purchases of it.
\<close>

section \<open>Consuming a run\<close>

lemma recordEvent_run: "\<exists>f. recordEvent now u l oc ip ua s = (Inr (), agents_run_event_update f s)"
proof (cases "vfits 45 ip \<and> find_user u s \<noteq> None")
  case True
  then have "recordEvent now u l oc ip ua s = (Inr (), agents_run_event_update (t_insert (\<lambda>i.
         \<lparr>ev_id = i, ev_userId = u, ev_listingId = l, ev_outcome = oc, ev_ipAddress = ip,
          ev_userAgent = map_option (utf16_take 255) ua, ev_createdAt = now\<rparr>)) s)"
    by (auto simp: recordEvent_def run_simps create_in_def)
  then show ?thesis by blast
next
  case False
  then have "recordEvent now u l oc ip ua s = (Inr (), s)" by (auto simp: recordEvent_def run_simps)
  moreover have "s = agents_run_event_update id s" by simp
  ultimately show ?thesis by metis
qed

definition events_only :: "'x agents_scheme \<Rightarrow> 'x agents_scheme \<Rightarrow> bool" where
  "events_only s t \<longleftrightarrow> (\<exists>f. sys.more t = sys.more (agents_run_event_update f s))"

lemma on_market_events: "on_market (events_only s)"
  unfolding on_market_def events_only_def by metis

lemma events_only_refl [simp]: "events_only s s"
proof -
  have "s = agents_run_event_update id s" by simp
  then show ?thesis unfolding events_only_def by metis
qed

lemma events_onlyI [simp]: "events_only s (agents_run_event_update f s)"
  unfolding events_only_def by blast

lemma events_only_fields:
  assumes "events_only s t"
  shows "agents_listing t = agents_listing s" "agents_run_pack t = agents_run_pack s"
    "agents_cart_item t = agents_cart_item s" "agents_purchase t = agents_purchase s"
    "agents_user_runs t = agents_user_runs s" "agents_settings t = agents_settings s"
    "agents_review t = agents_review s" "agents_category t = agents_category s"
    "agents_screenshot t = agents_screenshot s"
proof -
  obtain f where h: "sys.more t = sys.more (agents_run_event_update f s)"
    using assms unfolding events_only_def by blast
  show "agents_listing t = agents_listing s" "agents_run_pack t = agents_run_pack s"
    "agents_cart_item t = agents_cart_item s" "agents_purchase t = agents_purchase s"
    "agents_user_runs t = agents_user_runs s" "agents_settings t = agents_settings s"
    "agents_review t = agents_review s" "agents_category t = agents_category s"
    "agents_screenshot t = agents_screenshot s"
    by (simp_all add: market_fields [OF h])
qed

lemma keeps_events_thresholds: "keeps (events_only s) (dispatchThresholdNotifications pf u l title n)"
  unfolding dispatchThresholdNotifications_def by (intro keeps_intros on_market_events)

text \<open>The tables after a successful call.\<close>

definition consumed_state :: "int \<Rightarrow> listing_row \<Rightarrow> user_runs_row \<Rightarrow> 'x agents_scheme \<Rightarrow> 'x agents_scheme" where
  "consumed_state now l r s =
     agents_listing_update (t_change l_id (l_id l) (\<lambda>l. (l\<lparr>l_totalRuns := l_totalRuns l + 1\<rparr>)\<lparr>l_updatedAt := now\<rparr>))
       (agents_user_runs_update (t_change ru_id (ru_id r) (spend_run now)) s)"

text \<open>Whether the key opens the listing for the buyer.\<close>

definition opens :: "platform \<Rightarrow> consume_input \<Rightarrow> 'x agents_scheme \<Rightarrow> listing_row \<Rightarrow> bool" where
  "opens pf input s l \<longleftrightarrow> consume_listing (ci_listingSlug input) s = Some l \<and> l_status l = LS_PUBLISHED \<and>
     l_pricingType l = PER_RUN \<and> find_user (ci_userId input) s \<noteq> None \<and>
     (\<exists>h. l_apiKeyHash l = Some h \<and> hex_bytes (pf_sha256 pf (ci_apiKeyPlaintext input)) = hex_bytes h)"

definition spendable :: "int \<Rightarrow> int \<Rightarrow> 'x agents_scheme \<Rightarrow> user_runs_row option" where
  "spendable u l s = t_find (\<lambda>r. ru_userId r = u \<and> ru_listingId r = l \<and> 0 < ru_remainingRuns r) (agents_user_runs s)"

lemma consume_refused:
  assumes "\<not> opens pf input s l" "consume_listing (ci_listingSlug input) s = Some l \<or> consume_listing (ci_listingSlug input) s = None"
  shows "\<exists>t. consume pf input s = (Inl invalidApiKey, t) \<and> events_only s t"
proof -
  obtain f where f: "recordEvent (pf_now pf) (ci_userId input) (l_id l) REFUSED_INVALID_KEY
      (ci_ipAddress input) (ci_userAgent input) s = (Inr (), agents_run_event_update f s)"
    using recordEvent_run by blast
  show ?thesis using assms f events_onlyI [of s f]
    by (auto simp: consume_def opens_def run_simps split: option.splits)
qed

lemma consume_empty:
  assumes "opens pf input s l" "spendable (ci_userId input) (l_id l) s = None"
  shows "\<exists>t. consume pf input s = (Inl (http_exn INSUFFICIENT_RUNS 409 ''No runs remaining''), t) \<and> events_only s t"
proof -
  obtain f where f: "recordEvent (pf_now pf) (ci_userId input) (l_id l) REFUSED_INSUFFICIENT
      (ci_ipAddress input) (ci_userAgent input) s = (Inr (), agents_run_event_update f s)"
    using recordEvent_run by blast
  show ?thesis using assms f events_onlyI [of s f]
    by (auto simp: consume_def opens_def spendable_def consume_update_def run_simps)
qed

lemma consume_spends:
  assumes "wf_table l_id (agents_listing s)" "opens pf input s l" "spendable (ci_userId input) (l_id l) s = Some r"
  shows "\<exists>t. consume pf input s = (Inr \<lparr>cr_remainingRuns = int_to_string (ru_remainingRuns r - 1),
      cr_totalConsumed = int_to_string (ru_totalConsumed r + 1)\<rparr>, t) \<and>
    events_only (consumed_state (pf_now pf) l r s) t"
proof -
  let ?now = "pf_now pf"
  let ?s1 = "agents_user_runs_update (t_change ru_id (ru_id r) (spend_run ?now)) s"
  obtain h where h: "consume_listing (ci_listingSlug input) s = Some l" "l_status l = LS_PUBLISHED"
      "l_pricingType l = PER_RUN" "find_user (ci_userId input) s \<noteq> None" "l_apiKeyHash l = Some h"
      "hex_bytes (pf_sha256 pf (ci_apiKeyPlaintext input)) = hex_bytes h"
    using assms(2) by (auto simp: opens_def)
  define s1 where "s1 = agents_user_runs_update (t_change ru_id (ru_id r) (spend_run ?now)) s"
  have upd: "consume_update ?now (ci_userId input) (l_id l) s = (Inr (Some (spend_run ?now r)), s1)"
    using assms(3) by (simp add: consume_update_def spendable_def run_simps s1_def)
  obtain f where f: "recordEvent ?now (ci_userId input) (l_id l) CONSUMED (ci_ipAddress input) (ci_userAgent input) s1 =
      (Inr (), agents_run_event_update f s1)" using recordEvent_run by blast
  have "l \<in> set (rows (agents_listing s))"
    using t_find_Some [OF h(1) [unfolded consume_listing_def]] by simp
  then have get: "t_get l_id (l_id l) (agents_listing s) = Some l" by (rule t_get_self [OF assms(1)])
  define s2 where "s2 = agents_run_event_update f (consumed_state ?now l r s)"
  have bump: "listing_bump ?now (l_id l) (\<lambda>l. l\<lparr>l_totalRuns := l_totalRuns l + 1\<rparr>) (agents_run_event_update f s1) =
      (Inr (), s2)"
    using get by (simp add: listing_bump_def update_in_def run_simps s1_def s2_def consumed_state_def)
  have e2: "events_only (consumed_state ?now l r s) s2" by (simp add: s2_def)
  obtain x t where d: "dispatchThresholdNotifications pf (ci_userId input) (l_id l) (l_titleFa l)
      (ru_remainingRuns r - 1) s2 = (x, t)" by (metis surj_pair)
  have "events_only (consumed_state ?now l r s) t"
    using keepsD [OF keeps_events_thresholds e2, of pf "ci_userId input" "l_id l" "l_titleFa l" "ru_remainingRuns r - 1"]
    by (simp add: d)
  moreover have sp: "ru_remainingRuns (spend_run ?now r) = ru_remainingRuns r - 1"
      "ru_totalConsumed (spend_run ?now r) = ru_totalConsumed r + 1" by (simp_all add: spend_run_def)
  have "tryCatch (dispatchThresholdNotifications pf (ci_userId input) (l_id l) (l_titleFa l)
      (ru_remainingRuns r - 1)) (\<lambda>_. return ()) s2 = (Inr (), t)"
    using d by (cases x) (simp_all add: tryCatch_def return_def)
  then have "consume pf input s = (Inr \<lparr>cr_remainingRuns = int_to_string (ru_remainingRuns r - 1),
      cr_totalConsumed = int_to_string (ru_totalConsumed r + 1)\<rparr>, t)"
    using h upd f bump by (auto simp: consume_def bind_def seq_def gets_def return_def sp Let_def)
  ultimately show ?thesis by blast
qed

lemma market_events: "market_ok s \<Longrightarrow> events_only s t \<Longrightarrow> market_ok t"
proof -
  assume ok: "market_ok s" and e: "events_only s t"
  show "market_ok t"
    using ok unfolding market_ok_def catalog_ok_def cart_ok_def cart_line_ok_def commissionPercent_def
      events_only_fields [OF e] .
qed

lemma spendable_row: "spendable u l s = Some r \<Longrightarrow>
    r \<in> set (rows (agents_user_runs s)) \<and> ru_userId r = u \<and> ru_listingId r = l \<and> 0 < ru_remainingRuns r"
  unfolding spendable_def by (drule t_find_Some) simp

lemma market_consumed:
  assumes ok: "market_ok s" and l: "l \<in> set (rows (agents_listing s))" and r: "spendable u (l_id l) s = Some r"
  shows "market_ok (consumed_state now l r s)"
proof -
  let ?t = "consumed_state now l r s"
  let ?g = "\<lambda>l. (l\<lparr>l_totalRuns := l_totalRuns l + 1\<rparr>)\<lparr>l_updatedAt := now\<rparr>"
  have m: "catalog_ok s" "cart_ok s" "sales_ok (agents_listing s) (agents_purchase s)"
    "runs_ok (agents_purchase s) (agents_user_runs s)"
    "counts_ok (agents_listing s) (agents_purchase s) (agents_user_runs s)"
    using ok by (simp_all add: market_ok_def)
  note row = spendable_row [OF r]
  have wf: "wf_table ru_id (agents_user_runs s)" using m(4) by (simp add: runs_ok_def)
  have L: "agents_listing ?t = t_change l_id (l_id l) ?g (agents_listing s)" by (simp add: consumed_state_def)
  have core: "\<exists>l'. t_get l_id i (agents_listing ?t) = Some l' \<and> listing_core l' = listing_core k"
    if "t_get l_id i (agents_listing s) = Some k" for i k
    unfolding L by (rule core_change [OF _ that]) (simp add: listing_core_def)
  have "catalog_ok ?t"
    by (rule catalog_bump [OF m(1), where g = ?g])
       (simp_all add: consumed_state_def row_step_def listing_core_def)
  moreover have "cart_ok ?t"
    by (rule cart_ok_core [OF m(2)]) (simp_all add: core, simp_all add: consumed_state_def)
  moreover have "sales_ok (agents_listing ?t) (agents_purchase s)"
    using m(3) sale_ok_core core unfolding sales_ok_def by blast
  moreover have "runs_ok (agents_purchase s) (agents_user_runs ?t)"
    using runs_ok_spend [OF m(4), of r now] row by (simp add: consumed_state_def)
  moreover have "counts_ok (agents_listing ?t) (agents_purchase s) (agents_user_runs ?t)"
  proof -
    have T: "t_sum (\<lambda>r. ru_listingId r = i) ru_totalConsumed (agents_user_runs ?t) =
        t_sum (\<lambda>r. ru_listingId r = i) ru_totalConsumed (agents_user_runs s) + (if i = l_id l then 1 else 0)" for i
      using t_sum_change [OF wf, of r "\<lambda>r. ru_listingId r = i" "spend_run now" ru_totalConsumed] row
      by (simp add: consumed_state_def spend_run_def)
    show ?thesis
      unfolding counts_ok_def T
    proof
      fix l' assume "l' \<in> set (rows (agents_listing ?t))"
      then obtain k where k: "k \<in> set (rows (agents_listing s))" "l' = (if l_id k = l_id l then ?g k else k)"
        unfolding L rows_change set_map by blast
      have "l_totalUsers k = int (card (buyers (l_id k) (agents_purchase s))) \<and>
          l_totalRuns k = t_sum (\<lambda>r. ru_listingId r = l_id k) ru_totalConsumed (agents_user_runs s)"
        using m(5) k(1) by (simp add: counts_ok_def)
      then show "l_totalUsers l' = int (card (buyers (l_id l') (agents_purchase s))) \<and>
          l_totalRuns l' = t_sum (\<lambda>r. ru_listingId r = l_id l') ru_totalConsumed (agents_user_runs s) +
            (if l_id l' = l_id l then 1 else 0)"
        using k(2) by (cases "l_id k = l_id l") simp_all
    qed
  qed
  ultimately show ?thesis using ok
    by (simp add: market_ok_def commissionPercent_def) (simp add: consumed_state_def)
qed

text \<open>The three ways a call can end.\<close>

lemma consume_cases:
  assumes "wf_table l_id (agents_listing s)"
  shows "(\<exists>t. consume pf input s = (Inl invalidApiKey, t) \<and> events_only s t \<and> (\<forall>l. \<not> opens pf input s l)) \<or>
    (\<exists>l t. opens pf input s l \<and> spendable (ci_userId input) (l_id l) s = None \<and> events_only s t \<and>
       consume pf input s = (Inl (http_exn INSUFFICIENT_RUNS 409 ''No runs remaining''), t)) \<or>
    (\<exists>l r t. opens pf input s l \<and> spendable (ci_userId input) (l_id l) s = Some r \<and>
       consume pf input s = (Inr \<lparr>cr_remainingRuns = int_to_string (ru_remainingRuns r - 1),
         cr_totalConsumed = int_to_string (ru_totalConsumed r + 1)\<rparr>, t) \<and>
       events_only (consumed_state (pf_now pf) l r s) t)"
proof (cases "\<exists>l. opens pf input s l")
  case True
  then obtain l where l: "opens pf input s l" by blast
  show ?thesis
  proof (cases "spendable (ci_userId input) (l_id l) s")
    case None
    then show ?thesis using consume_empty [OF l None] l by blast
  next
    case (Some r)
    then show ?thesis using consume_spends [OF assms l Some] l by blast
  qed
next
  case False
  then have no: "\<not> opens pf input s l" for l by blast
  obtain l where "consume_listing (ci_listingSlug input) s = Some l \<or> consume_listing (ci_listingSlug input) s = None"
    by (cases "consume_listing (ci_listingSlug input) s") auto
  from consume_refused [OF no this] show ?thesis using no by blast
qed

lemma market_consume: "market_ok s \<Longrightarrow> market_ok (snd (consume pf input s))"
proof -
  assume ok: "market_ok s"
  have wf: "wf_table l_id (agents_listing s)" using ok by (simp add: market_ok_def catalog_ok_def)
  from consume_cases [OF wf, of pf input] show ?thesis
  proof (elim disjE exE conjE)
    fix l r t
    assume o: "opens pf input s l" and r: "spendable (ci_userId input) (l_id l) s = Some r"
      and c: "consume pf input s = (Inr \<lparr>cr_remainingRuns = int_to_string (ru_remainingRuns r - 1),
         cr_totalConsumed = int_to_string (ru_totalConsumed r + 1)\<rparr>, t)"
      and e: "events_only (consumed_state (pf_now pf) l r s) t"
    have "consume_listing (ci_listingSlug input) s = Some l" using o by (simp add: opens_def)
    then have "l \<in> set (rows (agents_listing s))"
      using t_find_Some by (fastforce simp: consume_listing_def)
    from market_events [OF market_consumed [OF ok this r] e] show ?thesis by (simp add: c)
  qed (simp_all add: market_events [OF ok])
qed

end
