(* ===== verification/Reviews.thy ===== *)
theory Reviews
  imports Commerce Complex_Main
begin

text \<open>
  modules/agents/services/reviews.service.ts: post, update and delete of the review a buyer
  leaves on a listing, with the recomputation of the rating the listing carries.  A rating
  arrives as a number, so it is a rational here and assertRating decides whether it is an
  integer from one to five.  The lemmas show that every review is by a buyer, that nobody
  reviews a listing twice, and that the rating a listing shows is the average of its visible
  reviews after every call.
\<close>

section \<open>The service\<close>

record review_dto =
  vd_id :: string
  vd_listingId :: string
  vd_authorUserId :: string
  vd_rating :: int
  vd_bodyFa :: "string option"
  vd_isHidden :: bool
  vd_createdAt :: string
  vd_updatedAt :: string

definition toDto :: "review_row \<Rightarrow> review_dto" where
  "toDto row = \<lparr>vd_id = int_to_string (v_id row), vd_listingId = int_to_string (v_listingId row),
     vd_authorUserId = int_to_string (v_authorUserId row), vd_rating = v_rating row, vd_bodyFa = v_bodyFa row,
     vd_isHidden = v_isHidden row, vd_createdAt = toISOString (v_createdAt row),
     vd_updatedAt = toISOString (v_updatedAt row)\<rparr>"

text \<open>Number.isInteger(rating) and 1 \<le> rating \<le> 5.\<close>

definition rating_ok :: "rat \<Rightarrow> bool" where
  "rating_ok r \<longleftrightarrow> of_int \<lfloor>r\<rfloor> = r \<and> 1 \<le> r \<and> r \<le> 5"

definition assertRating :: "rat \<Rightarrow> ('s, unit) M" where
  "assertRating r = throwIf (\<not> rating_ok r)
     (http_exn VALIDATION_ERROR 400 ''Rating must be an integer between 1 and 5'')"

definition assertOwnership :: "int \<Rightarrow> int \<Rightarrow> ('x agents_scheme, listing_row) M" where
  "assertOwnership userId listingId =
     bind (gets (owned userId listingId)) (\<lambda>purchase.
     if \<not> purchase then throw (http_exn ACCESS_DENIED_NOT_OWNER 403
       ''You can only review listings you have purchased'')
     else bind (gets (listing_live listingId)) (\<lambda>listing. case listing of
         None \<Rightarrow> throw listingNotFound
       | Some l \<Rightarrow> return l))"

definition review_find :: "int \<Rightarrow> int \<Rightarrow> 'x agents_scheme \<Rightarrow> review_row option" where
  "review_find userId listingId s =
     t_find (\<lambda>v. v_listingId v = listingId \<and> v_authorUserId v = userId) (agents_review s)"

text \<open>What an update of a row writes: the columns given, and updatedAt.\<close>

definition review_update :: "int \<Rightarrow> int \<Rightarrow> (review_row \<Rightarrow> review_row) \<Rightarrow> ('x agents_scheme, review_row) M" where
  "review_update now i g =
     update_in agents_review agents_review_update v_id i (\<lambda>v. (g v)\<lparr>v_updatedAt := now\<rparr>)"

definition review_upsert :: "int \<Rightarrow> int \<Rightarrow> int \<Rightarrow> int \<Rightarrow> string option \<Rightarrow> ('x agents_scheme, review_row) M" where
  "review_upsert now userId listingId rating bodyFa =
     (if \<not> vfits 2000 bodyFa then throw (PrismaKnown ''P2000'' JUndefined)
      else bind (gets (review_find userId listingId)) (\<lambda>existing. case existing of
          Some v \<Rightarrow> review_update now (v_id v) (\<lambda>v. v\<lparr>v_rating := rating, v_bodyFa := bodyFa\<rparr>)
        | None \<Rightarrow> bind (gets (find_user userId)) (\<lambda>author.
            if author = None then throw (PrismaKnown ''P2003'' JUndefined)
            else create_in agents_review agents_review_update (\<lambda>i.
              \<lparr>v_id = i, v_listingId = listingId, v_authorUserId = userId, v_rating = rating,
               v_bodyFa = bodyFa, v_isHidden = False, v_createdAt = now, v_updatedAt = now\<rparr>))))"

record post_review_input =
  pi_userId :: int
  pi_listingId :: int
  pi_rating :: rat
  pi_bodyFa :: "string option"

definition review_post :: "platform \<Rightarrow> post_review_input \<Rightarrow> ('x agents_scheme, review_dto) M" where
  "review_post pf input =
     seq (assertRating (pi_rating input))
    (bind (assertOwnership (pi_userId input) (pi_listingId input)) (\<lambda>listing.
     bind (gets (\<lambda>s. t_count (\<lambda>v. v_listingId v = pi_listingId input \<and> v_authorUserId v = pi_userId input)
            (agents_review s) = 0)) (\<lambda>isFirstReview.
     bind (review_upsert (pf_now pf) (pi_userId input) (pi_listingId input) \<lfloor>pi_rating input\<rfloor> (pi_bodyFa input))
       (\<lambda>review.
     seq (recomputeRating pf (pi_listingId input))
    (seq (if isFirstReview then notify pf (l_makerUserId listing) ''AGENTS_REVIEW_POSTED''
             [(''authorName'', JStr (''u.'' @ int_to_string (pi_userId input))),
              (''listingTitle'', JStr (l_titleFa listing)), (''rating'', JNum \<lfloor>pi_rating input\<rfloor>)] IN_APP
          else return ())
         (return (toDto review)))))))"

text \<open>A missing field is None; a body that is given may be null.\<close>

record update_review_input =
  ui_userId :: int
  ui_listingId :: int
  ui_rating :: "rat option"
  ui_bodyFa :: "string option option"

definition review_data :: "update_review_input \<Rightarrow> review_row \<Rightarrow> review_row" where
  "review_data input v =
     (let v1 = (case ui_rating input of None \<Rightarrow> v | Some r \<Rightarrow> v\<lparr>v_rating := \<lfloor>r\<rfloor>\<rparr>) in
      case ui_bodyFa input of None \<Rightarrow> v1 | Some b \<Rightarrow> v1\<lparr>v_bodyFa := b\<rparr>)"

definition review_edit :: "platform \<Rightarrow> update_review_input \<Rightarrow> ('x agents_scheme, review_dto) M" where
  "review_edit pf input =
     seq (case ui_rating input of None \<Rightarrow> return () | Some r \<Rightarrow> assertRating r)
    (bind (assertOwnership (ui_userId input) (ui_listingId input)) (\<lambda>_.
     bind (gets (review_find (ui_userId input) (ui_listingId input))) (\<lambda>found. case found of
       None \<Rightarrow> throw (http_exn NOT_FOUND 404 ''Review not found'')
     | Some existing \<Rightarrow>
         if \<not> vfits 2000 (v_bodyFa (review_data input existing)) then throw (PrismaKnown ''P2000'' JUndefined)
         else bind (review_update (pf_now pf) (v_id existing) (review_data input)) (\<lambda>updated.
         seq (if ui_rating input \<noteq> None then recomputeRating pf (ui_listingId input) else return ())
             (return (toDto updated))))))"

definition review_delete :: "platform \<Rightarrow> int \<Rightarrow> int \<Rightarrow> ('x agents_scheme, unit) M" where
  "review_delete pf userId listingId =
     bind (gets (\<lambda>s. t_count (\<lambda>v. v_listingId v = listingId \<and> v_authorUserId v = userId) (agents_review s))) (\<lambda>count.
     seq (modify (agents_review_update (t_delete (\<lambda>v. v_listingId v = listingId \<and> v_authorUserId v = userId))))
    (if count = 0 then throw (http_exn NOT_FOUND 404 ''Review not found'')
     else recomputeRating pf listingId))"

section \<open>The invariant\<close>

definition review_pair :: "review_row \<Rightarrow> int \<times> int" where
  "review_pair v = (v_listingId v, v_authorUserId v)"

definition review_ok :: "purchase_row table \<Rightarrow> review_row \<Rightarrow> bool" where
  "review_ok P v \<longleftrightarrow> 1 \<le> v_rating v \<and> v_rating v \<le> 5 \<and> v_authorUserId v \<in> buyers (v_listingId v) P"

definition ratings_of :: "int \<Rightarrow> review_row table \<Rightarrow> int list" where
  "ratings_of i V = map v_rating (t_filter (\<lambda>v. v_listingId v = i \<and> \<not> v_isHidden v) V)"

definition rated :: "review_row table \<Rightarrow> listing_row \<Rightarrow> bool" where
  "rated V l \<longleftrightarrow> l_ratingCount l = int (length (ratings_of (l_id l) V)) \<and>
     l_ratingAverage l = average2 (ratings_of (l_id l) V)"

definition written_reviews :: "purchase_row table \<Rightarrow> review_row table \<Rightarrow> bool" where
  "written_reviews P V \<longleftrightarrow> wf_table v_id V \<and> distinct (map review_pair (rows V)) \<and>
     (\<forall>v \<in> set (rows V). review_ok P v)"

definition reviews_ok :: "'x agents_scheme \<Rightarrow> bool" where
  "reviews_ok s \<longleftrightarrow> written_reviews (agents_purchase s) (agents_review s) \<and>
     (\<forall>l \<in> set (rows (agents_listing s)). rated (agents_review s) l)"

lemma on_market_reviews: "on_market reviews_ok"
proof (rule on_marketI)
  fix s t :: "'x agents_scheme"
  assume h: "sys.more s = sys.more t"
  show "reviews_ok s = reviews_ok t" unfolding reviews_ok_def market_fields [OF h] by (rule refl)
qed

lemma rating_range: "rating_ok r \<Longrightarrow> 1 \<le> \<lfloor>r\<rfloor> \<and> \<lfloor>r\<rfloor> \<le> 5"
  unfolding rating_ok_def by (metis of_int_1_le_iff of_int_le_numeral_iff)

lemma visible_ratings_eq: "visible_ratings i s = ratings_of i (agents_review s)"
  by (simp add: visible_ratings_def ratings_of_def)

text \<open>Writing the reviews of one listing leaves the ratings of the others.\<close>

lemma ratings_insert: "i \<noteq> v_listingId (f (next_id V)) \<Longrightarrow> ratings_of i (t_insert f V) = ratings_of i V"
  by (simp add: ratings_of_def t_filter_def rows_t_insert)

lemma ratings_delete: "i \<noteq> j \<Longrightarrow>
    ratings_of i (t_delete (\<lambda>v. v_listingId v = j \<and> v_authorUserId v = u) V) = ratings_of i V"
  unfolding ratings_of_def t_filter_def t_delete_def
  by (simp add: conj_commute) (metis (mono_tags, lifting))

lemma ratings_change:
  assumes "wf_table v_id V" "v \<in> set (rows V)" "\<And>r. v_listingId (g r) = v_listingId r" "\<And>r. v_isHidden (g r) = v_isHidden r"
    and "i \<noteq> v_listingId v"
  shows "ratings_of i (t_change v_id (v_id v) g V) = ratings_of i V"
proof -
  have "map v_rating (filter (\<lambda>v. v_listingId v = i \<and> \<not> v_isHidden v) (map (\<lambda>r. if r = v then g r else r) rs)) =
      map v_rating (filter (\<lambda>v. v_listingId v = i \<and> \<not> v_isHidden v) rs)" for rs
    using assms(3-5) by (induction rs) auto
  moreover have "rows (t_change v_id (v_id v) g V) = map (\<lambda>r. if r = v then g r else r) (rows V)"
    unfolding rows_change by (rule map_cong [OF refl]) (use wf_key_unique [OF assms(1) _ assms(2)] in auto)
  ultimately show ?thesis by (simp add: ratings_of_def t_filter_def)
qed

section \<open>What the calls write\<close>

definition rated_state :: "platform \<Rightarrow> int \<Rightarrow> 'x agents_scheme \<Rightarrow> 'x agents_scheme" where
  "rated_state pf i s = agents_listing_update (t_change l_id i (\<lambda>l. l\<lparr>l_ratingAverage := average2 (visible_ratings i s),
     l_ratingCount := int (length (visible_ratings i s)), l_updatedAt := pf_now pf\<rparr>)) s"

lemma recompute_run: "t_get l_id i (agents_listing s) \<noteq> None \<Longrightarrow> recomputeRating pf i s = (Inr (), rated_state pf i s)"
  by (auto simp: recomputeRating_def run_simps update_in_def rated_state_def)

lemma rated_state_market: "market_ok s \<Longrightarrow> market_ok (rated_state pf i s)"
  unfolding rated_state_def t_change_def
  by (rule market_update) (simp_all add: row_step_def listing_core_def)

lemma market_review_update: "market_ok s \<Longrightarrow> market_ok (agents_review_update f s)"
proof -
  assume ok: "market_ok s"
  have "cart_line_ok (agents_review_update f s) c = cart_line_ok s c" for c
    by (rule cart_line_ok_same) simp_all
  then show ?thesis using ok by (simp add: market_ok_def catalog_ok_def cart_ok_def commissionPercent_def)
qed

lemma rated_state_reviews:
  assumes "wf_table l_id (agents_listing s)" "written_reviews (agents_purchase s) (agents_review s)"
    and others: "\<And>l. l \<in> set (rows (agents_listing s)) \<Longrightarrow> l_id l \<noteq> i \<Longrightarrow> rated (agents_review s) l"
  shows "reviews_ok (rated_state pf i s)"
proof -
  have "rated (agents_review s) l'" if "l' \<in> set (rows (agents_listing (rated_state pf i s)))" for l'
  proof -
    from that obtain l where l: "l \<in> set (rows (agents_listing s))"
        "l' = (if l_id l = i then l\<lparr>l_ratingAverage := average2 (visible_ratings i s),
           l_ratingCount := int (length (visible_ratings i s)), l_updatedAt := pf_now pf\<rparr> else l)"
      by (auto simp: rated_state_def rows_change)
    then show ?thesis using others [OF l(1)]
      by (cases "l_id l = i") (simp_all add: rated_def visible_ratings_eq)
  qed
  then show ?thesis using assms(2) by (simp add: reviews_ok_def) (simp add: rated_state_def)
qed

text \<open>The invariant of the marketplace with its reviews.\<close>

definition shop_ok :: "'x agents_scheme \<Rightarrow> bool" where
  "shop_ok s \<longleftrightarrow> market_ok s \<and> reviews_ok s"

lemma shop_wf: "shop_ok s \<Longrightarrow> wf_table l_id (agents_listing s)"
  by (simp add: shop_ok_def market_ok_def catalog_ok_def)

lemma on_market_shop: "on_market shop_ok"
  unfolding shop_ok_def [abs_def] by (intro on_market_conj on_market_ok on_market_reviews)

text \<open>A write to the reviews of one listing, then its rating.\<close>

lemma shop_rerated:
  assumes ok: "shop_ok s" and new: "written_reviews (agents_purchase s) (f (agents_review s))"
    and others: "\<And>j. j \<noteq> i \<Longrightarrow> ratings_of j (f (agents_review s)) = ratings_of j (agents_review s)"
  shows "shop_ok (rated_state pf i (agents_review_update f s))"
proof -
  have "market_ok (rated_state pf i (agents_review_update f s))"
    by (intro rated_state_market market_review_update) (use ok in \<open>simp add: shop_ok_def\<close>)
  moreover have "reviews_ok (rated_state pf i (agents_review_update f s))"
  proof (rule rated_state_reviews)
    show "wf_table l_id (agents_listing (agents_review_update f s))" using shop_wf [OF ok] by simp
    fix l assume "l \<in> set (rows (agents_listing (agents_review_update f s)))" "l_id l \<noteq> i"
    then show "rated (agents_review (agents_review_update f s)) l"
      using ok others [of "l_id l"] by (simp add: shop_ok_def reviews_ok_def rated_def)
  qed (use new in simp)
  ultimately show ?thesis by (simp add: shop_ok_def)
qed

lemma written_post:
  assumes "written_reviews P V" "\<And>i. v_id (f i) = i" "review_ok P (f (next_id V))"
    "review_pair (f (next_id V)) \<notin> review_pair ` set (rows V)"
  shows "written_reviews P (t_insert f V)"
  using assms by (auto simp: written_reviews_def rows_t_insert)

lemma written_edit:
  assumes V: "written_reviews P V" and v: "v \<in> set (rows V)"
    and g: "\<And>r. v_id (g r) = v_id r" "\<And>r. review_pair (g r) = review_pair r" "review_ok P (g v)"
  shows "written_reviews P (t_change v_id (v_id v) g V)"
proof -
  have wf: "wf_table v_id V" using V by (simp add: written_reviews_def)
  have rs: "rows (t_change v_id (v_id v) g V) = map (\<lambda>r. if r = v then g r else r) (rows V)"
    unfolding rows_change by (rule map_cong [OF refl]) (use wf_key_unique [OF wf _ v] in auto)
  have pairs: "map review_pair (rows (t_change v_id (v_id v) g V)) = map review_pair (rows V)"
    using g(2) by (simp add: rs)
  have "review_ok P r" if "r \<in> set (rows (t_change v_id (v_id v) g V))" for r
    using that V g(3) by (auto simp: written_reviews_def rs)
  then show ?thesis using V g(1) by (simp only: written_reviews_def pairs wf_t_change) simp
qed

lemma written_drop: "written_reviews P V \<Longrightarrow> written_reviews P (t_delete Q V)"
  by (auto simp: written_reviews_def t_delete_def wf_table_def distinct_map_filter intro: sorted_wrt_map_filter)

lemma review_find_Some: "review_find u i s = Some v \<Longrightarrow>
    v \<in> set (rows (agents_review s)) \<and> v_listingId v = i \<and> v_authorUserId v = u"
  unfolding review_find_def by (drule t_find_Some) simp

lemma review_find_None: "review_find u i s = None \<Longrightarrow> (i, u) \<notin> review_pair ` set (rows (agents_review s))"
  by (auto simp: review_find_def t_find_None review_pair_def)

lemma owned_buyer: "shop_ok s \<Longrightarrow> owned u i s \<longleftrightarrow> u \<in> buyers i (agents_purchase s)"
  by (rule owned_buyers [where L = "agents_listing s"]) (simp add: shop_ok_def market_ok_def)

text \<open>The end of the service calls, up to what notifications write.\<close>

lemma keeps_shop_notify: "keeps shop_ok (notify pf u ty pl ch)"
  by (intro keeps_intros on_market_shop)

definition review_of :: "int \<Rightarrow> post_review_input \<Rightarrow> int \<Rightarrow> review_row" where
  "review_of now input i = \<lparr>v_id = i, v_listingId = pi_listingId input, v_authorUserId = pi_userId input,
     v_rating = \<lfloor>pi_rating input\<rfloor>, v_bodyFa = pi_bodyFa input, v_isHidden = False, v_createdAt = now, v_updatedAt = now\<rparr>"

definition review_edited :: "int \<Rightarrow> post_review_input \<Rightarrow> review_row \<Rightarrow> review_row" where
  "review_edited now input v = (v\<lparr>v_rating := \<lfloor>pi_rating input\<rfloor>, v_bodyFa := pi_bodyFa input\<rparr>)\<lparr>v_updatedAt := now\<rparr>"

definition post_write :: "int \<Rightarrow> post_review_input \<Rightarrow> 'x agents_scheme \<Rightarrow> review_row table \<Rightarrow> review_row table" where
  "post_write now input s = (case review_find (pi_userId input) (pi_listingId input) s of
       Some v \<Rightarrow> t_change v_id (v_id v) (review_edited now input)
     | None \<Rightarrow> t_insert (review_of now input))"

lemma review_find_get: "wf_table v_id (agents_review s) \<Longrightarrow> review_find u i s = Some v \<Longrightarrow>
    t_get v_id (v_id v) (agents_review s) = Some v"
  using review_find_Some by (metis t_get_self)

lemma review_upsert_run:
  assumes "wf_table v_id (agents_review s)"
  shows "review_upsert now (pi_userId input) (pi_listingId input) \<lfloor>pi_rating input\<rfloor> (pi_bodyFa input) s =
    (if \<not> vfits 2000 (pi_bodyFa input) then (Inl (PrismaKnown ''P2000'' JUndefined), s)
     else case review_find (pi_userId input) (pi_listingId input) s of
       Some v \<Rightarrow> (Inr (review_edited now input v), agents_review_update (post_write now input s) s)
     | None \<Rightarrow> if find_user (pi_userId input) s = None then (Inl (PrismaKnown ''P2003'' JUndefined), s)
         else (Inr (review_of now input (next_id (agents_review s))), agents_review_update (post_write now input s) s))"
proof (cases "review_find (pi_userId input) (pi_listingId input) s")
  case None
  then show ?thesis
    by (simp add: review_upsert_def run_simps create_in_def post_write_def t_new_def review_of_def [abs_def])
next
  case (Some v)
  then show ?thesis using review_find_get [OF assms Some]
    by (simp add: review_upsert_def run_simps review_update_def update_in_def post_write_def review_edited_def [abs_def])
qed

lemma listing_live_found: "listing_live i s = Some l \<Longrightarrow> t_get l_id i (agents_listing s) \<noteq> None"
  unfolding listing_live_def by (drule t_find_Some) (auto simp: t_get_def t_find_None)

lemma post_write_shop:
  assumes ok: "shop_ok s" and r: "rating_ok (pi_rating input)" "owned (pi_userId input) (pi_listingId input) s"
  shows "shop_ok (rated_state pf (pi_listingId input) (agents_review_update (post_write now input s) s))"
proof (rule shop_rerated [OF ok])
  let ?P = "agents_purchase s" and ?V = "agents_review s"
  have V: "written_reviews ?P ?V" using ok by (simp add: shop_ok_def reviews_ok_def)
  have buyer: "pi_userId input \<in> buyers (pi_listingId input) ?P" using owned_buyer [OF ok] r(2) by simp
  show "written_reviews ?P (post_write now input s ?V)"
  proof (cases "review_find (pi_userId input) (pi_listingId input) s")
    case None
    have "written_reviews ?P (t_insert (review_of now input) ?V)"
      by (rule written_post [OF V])
         (use review_find_None [OF None] rating_range [OF r(1)] buyer in
            \<open>simp_all add: review_of_def review_ok_def review_pair_def\<close>)
    then show ?thesis by (simp add: post_write_def None)
  next
    case (Some v)
    note f = review_find_Some [OF Some]
    have "written_reviews ?P (t_change v_id (v_id v) (review_edited now input) ?V)"
      by (rule written_edit [OF V])
         (use f rating_range [OF r(1)] buyer in \<open>simp_all add: review_edited_def review_ok_def review_pair_def\<close>)
    then show ?thesis by (simp add: post_write_def Some)
  qed
  have wf: "wf_table v_id ?V" using V by (simp add: written_reviews_def)
  show "ratings_of j (post_write now input s ?V) = ratings_of j ?V" if "j \<noteq> pi_listingId input" for j
  proof (cases "review_find (pi_userId input) (pi_listingId input) s")
    case None
    then show ?thesis using that by (simp add: post_write_def ratings_insert review_of_def)
  next
    case (Some v)
    note f = review_find_Some [OF Some]
    show ?thesis using ratings_change [OF wf conjunct1 [OF f], of "review_edited now input" j] f that
      by (simp add: post_write_def Some review_edited_def)
  qed
qed

text \<open>The three calls: an error leaves the tables of the module alone.\<close>

lemma assertOwnership_run:
  "assertOwnership u i s = (if \<not> owned u i s then (Inl (http_exn ACCESS_DENIED_NOT_OWNER 403
       ''You can only review listings you have purchased''), s)
     else case listing_live i s of None \<Rightarrow> (Inl listingNotFound, s) | Some l \<Rightarrow> (Inr l, s))"
  by (simp add: assertOwnership_def run_simps split: option.splits)

lemma assertRating_run: "assertRating r s = (if rating_ok r then (Inr (), s) else
    (Inl (http_exn VALIDATION_ERROR 400 ''Rating must be an integer between 1 and 5''), s))"
  by (simp add: assertRating_def run_simps)

lemma notify_more: "\<exists>t. notify pf u ty pl ch s = (Inr (), t) \<and> sys.more t = sys.more s"
  using notify_run [of pf u ty pl ch s] same_books_fields(8) by blast

text \<open>What a post needs beyond ownership: the body fits its column and the author exists.\<close>

definition writable :: "post_review_input \<Rightarrow> 'x agents_scheme \<Rightarrow> bool" where
  "writable input s \<longleftrightarrow> vfits 2000 (pi_bodyFa input) \<and>
     (review_find (pi_userId input) (pi_listingId input) s = None \<longrightarrow> find_user (pi_userId input) s \<noteq> None)"

definition posted_row :: "int \<Rightarrow> post_review_input \<Rightarrow> 'x agents_scheme \<Rightarrow> review_row" where
  "posted_row now input s = (case review_find (pi_userId input) (pi_listingId input) s of
       Some v \<Rightarrow> review_edited now input v
     | None \<Rightarrow> review_of now input (next_id (agents_review s)))"

lemma upsert_run:
  assumes "wf_table v_id (agents_review s)"
  shows "writable input s \<Longrightarrow> review_upsert now (pi_userId input) (pi_listingId input) \<lfloor>pi_rating input\<rfloor> (pi_bodyFa input) s =
      (Inr (posted_row now input s), agents_review_update (post_write now input s) s)"
    "\<not> writable input s \<Longrightarrow> \<exists>e. review_upsert now (pi_userId input) (pi_listingId input) \<lfloor>pi_rating input\<rfloor> (pi_bodyFa input) s =
      (Inl e, s)"
  by (auto simp: review_upsert_run [OF assms] writable_def posted_row_def split: option.splits)

lemma review_post_run:
  assumes "wf_table v_id (agents_review s)"
  shows "(\<exists>e. review_post pf input s = (Inl e, s)) \<and>
      \<not> (rating_ok (pi_rating input) \<and> owned (pi_userId input) (pi_listingId input) s \<and>
         listing_live (pi_listingId input) s \<noteq> None \<and> writable input s) \<or>
    rating_ok (pi_rating input) \<and> owned (pi_userId input) (pi_listingId input) s \<and>
    listing_live (pi_listingId input) s \<noteq> None \<and> writable input s \<and>
    (\<exists>t. review_post pf input s = (Inr (toDto (posted_row (pf_now pf) input s)), t) \<and>
       sys.more t = sys.more (rated_state pf (pi_listingId input)
         (agents_review_update (post_write (pf_now pf) input s) s)))"
proof (cases "rating_ok (pi_rating input) \<and> owned (pi_userId input) (pi_listingId input) s \<and>
    listing_live (pi_listingId input) s \<noteq> None \<and> writable input s")
  case True
  then obtain l where l: "listing_live (pi_listingId input) s = Some l" by auto
  let ?s1 = "agents_review_update (post_write (pf_now pf) input s) s"
  let ?s2 = "rated_state pf (pi_listingId input) ?s1"
  let ?first = "t_count (\<lambda>v. v_listingId v = pi_listingId input \<and> v_authorUserId v = pi_userId input) (agents_review s) = 0"
  let ?n = "notify pf (l_makerUserId l) ''AGENTS_REVIEW_POSTED''
             [(''authorName'', JStr (''u.'' @ int_to_string (pi_userId input))),
              (''listingTitle'', JStr (l_titleFa l)), (''rating'', JNum \<lfloor>pi_rating input\<rfloor>)] IN_APP"
  have up: "review_upsert (pf_now pf) (pi_userId input) (pi_listingId input) \<lfloor>pi_rating input\<rfloor> (pi_bodyFa input) s =
      (Inr (posted_row (pf_now pf) input s), ?s1)"
    using upsert_run(1) [OF assms] True by blast
  have re: "recomputeRating pf (pi_listingId input) ?s1 = (Inr (), ?s2)"
    by (rule recompute_run) (use listing_live_found [OF l] in simp)
  obtain t where t: "?n ?s2 = (Inr (), t)" "sys.more t = sys.more ?s2" using notify_more by blast
  have body: "review_post pf input s = (if ?first then (Inr (toDto (posted_row (pf_now pf) input s)), t)
      else (Inr (toDto (posted_row (pf_now pf) input s)), ?s2))"
    using True l
    by (simp add: review_post_def seq_def bind_def gets_def return_def assertRating_run assertOwnership_run up re t(1) [simplified])
  have "\<exists>t. review_post pf input s = (Inr (toDto (posted_row (pf_now pf) input s)), t) \<and> sys.more t = sys.more ?s2"
  proof (cases ?first)
    case True
    then show ?thesis using body t(2) by simp
  next
    case False
    then have "review_post pf input s = (Inr (toDto (posted_row (pf_now pf) input s)), ?s2)"
      using body by (simp only: if_False)
    then show ?thesis by blast
  qed
  then show ?thesis using True by blast
next
  case False
  then consider "\<not> rating_ok (pi_rating input)" |
    "rating_ok (pi_rating input)" "\<not> owned (pi_userId input) (pi_listingId input) s" |
    "rating_ok (pi_rating input)" "owned (pi_userId input) (pi_listingId input) s"
      "listing_live (pi_listingId input) s = None" |
    (w) l where "rating_ok (pi_rating input)" "owned (pi_userId input) (pi_listingId input) s"
      "listing_live (pi_listingId input) s = Some l" "\<not> writable input s" by auto
  then have "\<exists>e. review_post pf input s = (Inl e, s)"
  proof cases
    case w
    obtain e where "review_upsert (pf_now pf) (pi_userId input) (pi_listingId input) \<lfloor>pi_rating input\<rfloor> (pi_bodyFa input) s =
      (Inl e, s)" using upsert_run(2) [OF assms w(4)] by blast
    then show ?thesis using w
      by (simp add: review_post_def seq_def bind_def gets_def assertRating_run assertOwnership_run)
  qed (simp_all add: review_post_def seq_def bind_def assertRating_run assertOwnership_run)
  then show ?thesis using False by blast
qed

lemma shop_post:
  assumes ok: "shop_ok s"
  shows "shop_ok (snd (review_post pf input s))"
proof -
  have "wf_table v_id (agents_review s)" using ok by (simp add: shop_ok_def reviews_ok_def written_reviews_def)
  from review_post_run [OF this, of pf input] show ?thesis
  proof (elim disjE conjE exE)
    fix t
    assume r: "rating_ok (pi_rating input)" "owned (pi_userId input) (pi_listingId input) s"
      and t: "review_post pf input s = (Inr (toDto (posted_row (pf_now pf) input s)), t)"
        "sys.more t = sys.more (rated_state pf (pi_listingId input)
           (agents_review_update (post_write (pf_now pf) input s) s))"
    have "shop_ok t" by (rule on_marketD [OF on_market_shop t(2) post_write_shop [OF ok r]])
    then show ?thesis by (simp add: t(1))
  qed (use ok in auto)
qed

lemma review_delete_run:
  "review_delete pf u i s =
    (if t_count (\<lambda>v. v_listingId v = i \<and> v_authorUserId v = u) (agents_review s) = 0
     then (Inl (http_exn NOT_FOUND 404 ''Review not found''),
       agents_review_update (t_delete (\<lambda>v. v_listingId v = i \<and> v_authorUserId v = u)) s)
     else recomputeRating pf i (agents_review_update (t_delete (\<lambda>v. v_listingId v = i \<and> v_authorUserId v = u)) s))"
  by (simp add: review_delete_def run_simps)

lemma t_delete_none: "t_count Q V = 0 \<Longrightarrow> t_delete Q V = V"
  by (simp add: t_count_def t_filter_def t_delete_def filter_empty_conv filter_id_conv)

text \<open>Every review belongs to a listing, since its author bought it.\<close>

lemma reviewed_listing:
  assumes "shop_ok s" "v \<in> set (rows (agents_review s))"
  shows "t_get l_id (v_listingId v) (agents_listing s) \<noteq> None"
proof -
  have "v_authorUserId v \<in> buyers (v_listingId v) (agents_purchase s)"
    using assms by (simp add: shop_ok_def reviews_ok_def written_reviews_def review_ok_def)
  then obtain b where "b \<in> set (rows (agents_purchase s))" "b_listingId b = v_listingId v"
    by (auto simp: buyers_def)
  then show ?thesis using assms(1) by (force simp: shop_ok_def market_ok_def sales_ok_def sale_ok_def)
qed

lemma shop_delete:
  assumes ok: "shop_ok s"
  shows "shop_ok (snd (review_delete pf u i s))"
proof (cases "t_count (\<lambda>v. v_listingId v = i \<and> v_authorUserId v = u) (agents_review s) = 0")
  case True
  then have "agents_review_update (t_delete (\<lambda>v. v_listingId v = i \<and> v_authorUserId v = u)) s = s"
    by (simp add: t_delete_none)
  then show ?thesis using ok True by (simp add: review_delete_run)
next
  case False
  let ?f = "t_delete (\<lambda>v. v_listingId v = i \<and> v_authorUserId v = u)"
  obtain v where "v \<in> set (rows (agents_review s))" "v_listingId v = i"
    using False by (auto simp: t_count_def t_filter_def filter_empty_conv)
  then have "t_get l_id i (agents_listing (agents_review_update ?f s)) \<noteq> None"
    using reviewed_listing [OF ok] by force
  then have run: "recomputeRating pf i (agents_review_update ?f s) = (Inr (), rated_state pf i (agents_review_update ?f s))"
    by (rule recompute_run)
  have "shop_ok (rated_state pf i (agents_review_update ?f s))"
  proof (rule shop_rerated [OF ok])
    show "written_reviews (agents_purchase s) (?f (agents_review s))"
      by (rule written_drop) (use ok in \<open>simp add: shop_ok_def reviews_ok_def\<close>)
    show "ratings_of j (?f (agents_review s)) = ratings_of j (agents_review s)" if "j \<noteq> i" for j
      by (rule ratings_delete [OF that])
  qed
  then show ?thesis using False run by (simp add: review_delete_run)
qed

lemma review_data_fields: "v_id (review_data input v) = v_id v" "v_listingId (review_data input v) = v_listingId v"
    "v_authorUserId (review_data input v) = v_authorUserId v" "v_isHidden (review_data input v) = v_isHidden v"
    "v_rating (review_data input v) = (case ui_rating input of None \<Rightarrow> v_rating v | Some r \<Rightarrow> \<lfloor>r\<rfloor>)"
  by (simp_all add: review_data_def Let_def split: option.splits)

definition edited_row :: "int \<Rightarrow> update_review_input \<Rightarrow> review_row \<Rightarrow> review_row" where
  "edited_row now input v = (review_data input v)\<lparr>v_updatedAt := now\<rparr>"

definition edited_state :: "platform \<Rightarrow> update_review_input \<Rightarrow> review_row \<Rightarrow> 'x agents_scheme \<Rightarrow> 'x agents_scheme" where
  "edited_state pf input v s =
     (let s1 = agents_review_update (t_change v_id (v_id v) (edited_row (pf_now pf) input)) s in
      if ui_rating input = None then s1 else rated_state pf (ui_listingId input) s1)"

lemma review_edit_run:
  assumes wf: "wf_table v_id (agents_review s)"
  shows "(\<exists>e. review_edit pf input s = (Inl e, s)) \<or>
    (\<exists>v. (\<forall>r. ui_rating input = Some r \<longrightarrow> rating_ok r) \<and> owned (ui_userId input) (ui_listingId input) s \<and>
       review_find (ui_userId input) (ui_listingId input) s = Some v \<and>
       review_edit pf input s = (Inr (toDto (edited_row (pf_now pf) input v)), edited_state pf input v s))"
proof -
  consider (bad) r where "ui_rating input = Some r" "\<not> rating_ok r" |
    (good) "\<And>r. ui_rating input = Some r \<Longrightarrow> rating_ok r" by blast
  then show ?thesis
  proof cases
    case bad
    then show ?thesis by (simp add: review_edit_def seq_def bind_def assertRating_run)
  next
    case good
    have start: "(case ui_rating input of None \<Rightarrow> return () | Some r \<Rightarrow> assertRating r) s = (Inr (), s)"
      using good by (simp add: assertRating_run return_def split: option.splits)
    consider "\<not> owned (ui_userId input) (ui_listingId input) s" |
      "owned (ui_userId input) (ui_listingId input) s" "listing_live (ui_listingId input) s = None" |
      l where "owned (ui_userId input) (ui_listingId input) s" "listing_live (ui_listingId input) s = Some l"
        "review_find (ui_userId input) (ui_listingId input) s = None" |
      (v) l v where "owned (ui_userId input) (ui_listingId input) s" "listing_live (ui_listingId input) s = Some l"
        "review_find (ui_userId input) (ui_listingId input) s = Some v" by fastforce
    then show ?thesis
    proof cases
      case v
      let ?s1 = "agents_review_update (t_change v_id (v_id v) (edited_row (pf_now pf) input)) s"
      have up: "review_update (pf_now pf) (v_id v) (review_data input) s = (Inr (edited_row (pf_now pf) input v), ?s1)"
        using review_find_get [OF wf v(3)] by (simp add: review_update_def update_in_def edited_row_def [abs_def])
      have re: "recomputeRating pf (ui_listingId input) ?s1 = (Inr (), rated_state pf (ui_listingId input) ?s1)"
        by (rule recompute_run) (use listing_live_found [OF v(2)] in simp)
      show ?thesis
      proof (cases "vfits 2000 (v_bodyFa (review_data input v))")
        case True
        then have "review_edit pf input s = (Inr (toDto (edited_row (pf_now pf) input v)), edited_state pf input v s)"
          using v start
          by (cases "ui_rating input")
             (simp_all add: review_edit_def seq_def bind_def gets_def return_def assertOwnership_run up re edited_state_def)
        then show ?thesis using good v by blast
      next
        case False
        then show ?thesis using v start
          by (simp add: review_edit_def seq_def bind_def gets_def throw_def assertOwnership_run)
      qed
    qed (use start in \<open>simp_all add: review_edit_def seq_def bind_def gets_def throw_def assertOwnership_run\<close>)
  qed
qed

lemma shop_edit:
  assumes ok: "shop_ok s"
  shows "shop_ok (snd (review_edit pf input s))"
proof -
  have V: "written_reviews (agents_purchase s) (agents_review s)" using ok by (simp add: shop_ok_def reviews_ok_def)
  then have wf: "wf_table v_id (agents_review s)" by (simp add: written_reviews_def)
  from review_edit_run [OF wf, of pf input] show ?thesis
  proof (elim disjE conjE exE)
    fix v
    assume r: "\<forall>r. ui_rating input = Some r \<longrightarrow> rating_ok r"
      and v: "review_find (ui_userId input) (ui_listingId input) s = Some v"
      and run: "review_edit pf input s = (Inr (toDto (edited_row (pf_now pf) input v)), edited_state pf input v s)"
    let ?g = "edited_row (pf_now pf) input" and ?V = "agents_review s"
    note f = review_find_Some [OF v]
    have g: "v_id (?g r) = v_id r" "v_listingId (?g r) = v_listingId r" "v_isHidden (?g r) = v_isHidden r"
      "review_pair (?g r) = review_pair r" for r
      by (simp_all add: edited_row_def review_data_fields review_pair_def)
    have vo: "review_ok (agents_purchase s) v" using V f by (simp add: written_reviews_def)
    have "review_ok (agents_purchase s) (?g v)"
      using r vo rating_range
      by (auto simp: review_ok_def edited_row_def review_data_fields split: option.splits)
    then have new: "written_reviews (agents_purchase s) (t_change v_id (v_id v) ?g ?V)"
      by (intro written_edit [OF V conjunct1 [OF f]] g)
    have others: "ratings_of j (t_change v_id (v_id v) ?g ?V) = ratings_of j ?V" if "j \<noteq> ui_listingId input" for j
      by (rule ratings_change [OF wf conjunct1 [OF f] g(2,3)]) (use f that in simp)
    have "shop_ok (edited_state pf input v s)"
    proof (cases "ui_rating input")
      case None
      have "v_rating (?g r) = v_rating r" for r by (simp add: edited_row_def review_data_fields None)
      then have "map v_rating (filter (\<lambda>v. v_listingId v = j \<and> \<not> v_isHidden v)
          (map (\<lambda>r. if v_id r = v_id v then ?g r else r) rs)) =
          map v_rating (filter (\<lambda>v. v_listingId v = j \<and> \<not> v_isHidden v) rs)" for j rs
        using g(2,3) by (induction rs) auto
      then have "ratings_of j (t_change v_id (v_id v) ?g ?V) = ratings_of j ?V" for j
        by (simp add: ratings_of_def t_filter_def rows_change)
      then have "reviews_ok (edited_state pf input v s)"
        using ok new by (simp add: edited_state_def None shop_ok_def reviews_ok_def rated_def)
      then show ?thesis using ok by (simp add: shop_ok_def edited_state_def None market_review_update)
    next
      case (Some x)
      have "shop_ok (rated_state pf (ui_listingId input) (agents_review_update (t_change v_id (v_id v) ?g) s))"
        by (rule shop_rerated [where f = "t_change v_id (v_id v) ?g", OF ok new others])
      then show ?thesis by (simp add: edited_state_def Some)
    qed
    then show ?thesis by (simp add: run)
  qed (use ok in auto)
qed

section \<open>The other calls leave the reviews alone\<close>

lemma average_none: "average2 [] = None"
  by (simp add: average2_def)

lemma reviews_step:
  assumes ok: "reviews_ok s" and same: "agents_review t = agents_review s"
    and grow: "\<And>i. buyers i (agents_purchase s) \<subseteq> buyers i (agents_purchase t)"
    and ratings: "\<And>l'. l' \<in> set (rows (agents_listing t)) \<Longrightarrow>
      (\<exists>l \<in> set (rows (agents_listing s)). l_id l = l_id l' \<and> l_ratingCount l = l_ratingCount l' \<and>
         l_ratingAverage l = l_ratingAverage l') \<or>
      (\<forall>v \<in> set (rows (agents_review s)). v_listingId v \<noteq> l_id l') \<and> l_ratingCount l' = 0 \<and> l_ratingAverage l' = None"
  shows "reviews_ok t"
proof -
  have "written_reviews (agents_purchase t) (agents_review s)"
    using ok grow by (auto simp: reviews_ok_def written_reviews_def review_ok_def)
  moreover have "rated (agents_review s) l'" if "l' \<in> set (rows (agents_listing t))" for l'
    using ratings [OF that]
  proof (elim disjE bexE conjE)
    fix l assume "l \<in> set (rows (agents_listing s))" and eq: "l_id l = l_id l'" "l_ratingCount l = l_ratingCount l'"
         "l_ratingAverage l = l_ratingAverage l'"
    then have "rated (agents_review s) l" using ok by (simp add: reviews_ok_def)
    then show ?thesis by (simp add: rated_def eq)
  next
    assume none: "\<forall>v \<in> set (rows (agents_review s)). v_listingId v \<noteq> l_id l'" "l_ratingCount l' = 0" "l_ratingAverage l' = None"
    then have "ratings_of (l_id l') (agents_review s) = []"
      by (simp add: ratings_of_def t_filter_def filter_empty_conv)
    then show ?thesis using none by (simp add: rated_def average_none)
  qed
  ultimately show ?thesis by (simp add: reviews_ok_def same)
qed

lemma reviews_change:
  assumes ok: "reviews_ok s" and t: "agents_review t = agents_review s" "agents_purchase t = agents_purchase s"
      "agents_listing t = t_update P g (agents_listing s)"
    and g: "\<And>l. l_id (g l) = l_id l" "\<And>l. l_ratingCount (g l) = l_ratingCount l" "\<And>l. l_ratingAverage (g l) = l_ratingAverage l"
  shows "reviews_ok t"
proof (rule reviews_step [OF ok t(1)])
  fix l' assume "l' \<in> set (rows (agents_listing t))"
  then obtain l where l: "l \<in> set (rows (agents_listing s))" "l' = (if P l then g l else l)"
    by (auto simp: t rows_t_update)
  show "(\<exists>l \<in> set (rows (agents_listing s)). l_id l = l_id l' \<and> l_ratingCount l = l_ratingCount l' \<and>
      l_ratingAverage l = l_ratingAverage l') \<or>
    (\<forall>v \<in> set (rows (agents_review s)). v_listingId v \<noteq> l_id l') \<and> l_ratingCount l' = 0 \<and> l_ratingAverage l' = None"
    by (rule disjI1, rule bexI [OF _ l(1)]) (simp add: l(2) g)
qed (simp add: t)

lemma reviews_same:
  "reviews_ok s \<Longrightarrow> agents_review t = agents_review s \<Longrightarrow> agents_purchase t = agents_purchase s \<Longrightarrow>
   agents_listing t = agents_listing s \<Longrightarrow> reviews_ok t"
  by (simp add: reviews_ok_def)

lemma reviews_written:
  assumes "reviews_ok s" "one_listing_written s t"
  shows "reviews_ok t"
proof (cases "sys.more t = sys.more s")
  case True
  then show ?thesis using on_marketD [OF on_market_reviews _ assms(1)] by blast
next
  case False
  then obtain i g l where g: "t_get l_id i (agents_listing s) = Some l" "row_step l (g l)" "tame g"
      "sys.more t = sys.more (agents_listing_update (t_change l_id i g) s)"
    using assms(2) unfolding one_listing_written_def by blast
  have "reviews_ok (agents_listing_update (t_change l_id i g) s)"
    by (rule reviews_change [OF assms(1), where P = "\<lambda>l. l_id l = i" and g = g])
       (use g(3) in \<open>simp_all add: t_change_def tame_def listing_core_def\<close>)
  then show ?thesis by (rule on_marketD [OF on_market_reviews g(4)])
qed

lemma reviews_view: "reviews_ok s \<Longrightarrow> reviews_ok (snd (recordView pf slug sample s))"
proof -
  assume ok: "reviews_ok s"
  have "reviews_ok (agents_listing_update (t_update
      (\<lambda>l. l_slug l = slug \<and> l_status l = LS_PUBLISHED \<and> l_deletedAt l = None)
      (\<lambda>l. l\<lparr>l_viewCount := l_viewCount l + 1, l_updatedAt := pf_now pf\<rparr>)) s)"
    by (rule reviews_change [OF ok, where P = "\<lambda>l. l_slug l = slug \<and> l_status l = LS_PUBLISHED \<and> l_deletedAt l = None"
          and g = "\<lambda>l. l\<lparr>l_viewCount := l_viewCount l + 1, l_updatedAt := pf_now pf\<rparr>"]) simp_all
  then show ?thesis using recordView_run [of pf slug sample s] ok by presburger
qed

lemma reviews_create:
  assumes ok: "shop_ok s"
  shows "reviews_ok (snd (listing_create pf m dto s))"
proof -
  obtain x t where xt: "listing_create pf m dto s = (x, t)" by (cases "listing_create pf m dto s")
  have r: "reviews_ok s" using ok by (simp add: shop_ok_def)
  from listing_create_run [OF xt] consider "t = s" |
    (new) "t = agents_run_pack_update (add_packs (next_id (agents_listing s)) (dto_packs dto))
           (agents_listing_update (t_insert (listing_of_dto (pf_now pf) m dto)) s)"
    by (auto simp: Let_def)
  then have "reviews_ok t"
  proof cases
    case new
    show ?thesis
    proof (rule reviews_step [OF r])
      fix l' assume "l' \<in> set (rows (agents_listing t))"
      then consider "l' \<in> set (rows (agents_listing s))" |
        "l' = listing_of_dto (pf_now pf) m dto (next_id (agents_listing s))"
        by (auto simp: new rows_t_insert)
      then show "(\<exists>l \<in> set (rows (agents_listing s)). l_id l = l_id l' \<and> l_ratingCount l = l_ratingCount l' \<and>
          l_ratingAverage l = l_ratingAverage l') \<or>
        (\<forall>v \<in> set (rows (agents_review s)). v_listingId v \<noteq> l_id l') \<and> l_ratingCount l' = 0 \<and> l_ratingAverage l' = None"
      proof cases
        case 2
        have "v_listingId v \<noteq> next_id (agents_listing s)" if "v \<in> set (rows (agents_review s))" for v
          using reviewed_listing [OF ok that] tbl.lookup_fresh [OF shop_wf [OF ok]] by metis
        then show ?thesis using 2 by simp
      qed auto
    qed (simp_all add: new)
  qed (use r in simp)
  then show ?thesis using xt by simp
qed

lemma shop_listing: "shop_ok s \<Longrightarrow> shop_ok (run_listing pf ctx op s)"
  using run_listing_market [of s pf ctx op]
  by (cases op)
     (simp_all add: run_listing_def shop_ok_def reviews_view reviews_create [unfolded shop_ok_def]
        reviews_written [OF _ submit_writes] reviews_written [OF _ approve_writes]
        reviews_written [OF _ reject_writes] reviews_written [OF _ suspend_writes]
        reviews_written [OF _ unsuspend_writes] reviews_written [OF _ softDelete_writes])

lemma shop_addItem: "shop_ok s \<Longrightarrow> shop_ok (snd (addItem pf u input s))"
proof -
  assume ok: "shop_ok s"
  obtain x t where xt: "addItem pf u input s = (x, t)" by (cases "addItem pf u input s")
  have "agents_listing t = agents_listing s \<and> agents_purchase t = agents_purchase s \<and> agents_review t = agents_review s"
    using addItem_run [OF xt] by auto
  then show ?thesis using market_addItem [of s pf u input] reviews_same [of s t] ok xt by (simp add: shop_ok_def)
qed

lemma shop_cart_deletes:
  "shop_ok s \<Longrightarrow> shop_ok (snd (removeItem u i s))"
  "shop_ok s \<Longrightarrow> shop_ok (snd (cart_clearForUser u s))"
  using market_cart_deletes [of s u]
  by (auto simp: shop_ok_def removeItem_def cart_clearForUser_def run_simps intro: reviews_same)

lemma shop_merge_items: "shop_ok s \<Longrightarrow> shop_ok (snd (merge_items pf u guest r s))"
proof (induction guest arbitrary: r s)
  case (Cons item rest)
  obtain r' where r': "merge_one pf u item r s = (Inr r', snd (addItem pf u item s))"
    using merge_one_run by blast
  then show ?case using Cons.IH [OF shop_addItem [OF Cons.prems]] by (simp add: bind_def)
qed (simp add: return_def)

lemma shop_settle:
  assumes "reviews_ok s"
  shows "reviews_ok (settle_state now u line s)"
proof (rule reviews_step [OF assms])
  fix l' assume "l' \<in> set (rows (agents_listing (settle_state now u line s)))"
  then obtain l where l: "l \<in> set (rows (agents_listing s))" "l_id l = l_id l'" "l_ratingCount l = l_ratingCount l'"
      "l_ratingAverage l = l_ratingAverage l'"
    unfolding settle_state_tables(3) by (auto simp: rows_change split: if_splits)
  then show "(\<exists>l \<in> set (rows (agents_listing s)). l_id l = l_id l' \<and> l_ratingCount l = l_ratingCount l' \<and>
      l_ratingAverage l = l_ratingAverage l') \<or>
    (\<forall>v \<in> set (rows (agents_review s)). v_listingId v \<noteq> l_id l') \<and> l_ratingCount l' = 0 \<and> l_ratingAverage l' = None"
    by blast
qed (auto simp: settle_state_tables buyers_insert)

lemma shop_settle_all: "reviews_ok s \<Longrightarrow> reviews_ok (settle_all now u lines s)"
  by (induction now u lines s rule: settle_all.induct) (simp_all add: shop_settle)

lemma shop_checkout_tx:
  assumes ok: "shop_ok s"
  shows "shop_ok (snd (transaction (checkout_tx pf u) s))"
proof -
  have "reviews_ok (snd (transaction (checkout_tx pf u) s))"
  proof (cases "find_user u s = None")
    case True
    then show ?thesis
      using ok checkout_tx_user [of pf u s] by (auto simp: shop_ok_def transaction_def split: prod.splits sum.splits)
  next
    case False
    have "reviews_ok (settle_all (pf_now pf) u (built_of (checked_lines u s)) s)"
      by (rule shop_settle_all) (use ok in \<open>simp add: shop_ok_def\<close>)
    then have "reviews_ok (agents_cart_item_update f (settle_all (pf_now pf) u (built_of (checked_lines u s)) s))" for f
      by (rule reviews_same) simp_all
    then show ?thesis
      using ok by (simp add: checkout_tx_run [OF shop_wf [OF ok] False] Let_def shop_ok_def)
  qed
  then show ?thesis using checkout_tx_market [of s pf u] ok by (simp add: shop_ok_def)
qed

lemma shop_checkout: "shop_ok s \<Longrightarrow> shop_ok (snd (checkout pf aborts u s))"
proof (rule keepsD)
  have a: "keeps shop_ok (attempt ab (checkout_tx pf u))" for ab
    by (cases ab) (auto simp: attempt_def throw_def keeps_def intro: shop_checkout_tx)
  have d: "keeps shop_ok (dispatchPostCommit pf plan)" for plan
    unfolding dispatchPostCommit_def by (intro keeps_intros on_market_shop)
  have c: "keeps shop_ok (clearLowRunsDedup u is)" for "is"
    unfolding clearLowRunsDedup_def by (intro keeps_intros on_market_shop)
  show "keeps shop_ok (checkout pf aborts u)"
    unfolding checkout_def runWithSerializationRetry_def by (intro keeps_intros a c d)
qed

lemma reviews_events: "reviews_ok s \<Longrightarrow> events_only s t \<Longrightarrow> reviews_ok t"
  by (rule reviews_same) (simp_all add: events_only_fields)

lemma shop_consume:
  assumes ok: "shop_ok s"
  shows "shop_ok (snd (consume pf input s))"
proof -
  have "reviews_ok (consumed_state now l r s)" for now l r
    by (rule reviews_change [where s = s and P = "\<lambda>k. l_id k = l_id l"
          and g = "\<lambda>l. (l\<lparr>l_totalRuns := l_totalRuns l + 1\<rparr>)\<lparr>l_updatedAt := now\<rparr>"])
       (use ok in \<open>simp_all add: shop_ok_def consumed_state_def t_change_def\<close>)
  then have "reviews_ok (snd (consume pf input s))"
    using consume_cases [OF shop_wf [OF ok], of pf input] ok reviews_events by (fastforce simp: shop_ok_def)
  then show ?thesis using market_consume [of s pf input] ok by (simp add: shop_ok_def)
qed

section \<open>The row of a review\<close>

lemma filter_key: "distinct (map f xs) \<Longrightarrow> v \<in> set xs \<Longrightarrow> filter (\<lambda>x. f x = f v) xs = [v]"
proof (induction xs)
  case (Cons x xs)
  show ?case
  proof (cases "f x = f v")
    case True
    have "filter (\<lambda>y. f y = f v) xs = []" using True Cons.prems(1) by (auto simp: filter_empty_conv) (metis imageI)
    moreover have "x = v" using True Cons.prems by force
    ultimately show ?thesis by simp
  next
    case False
    then show ?thesis using Cons by auto
  qed
qed simp

lemma reviews_by:
  assumes "written_reviews P V" "v \<in> set (rows V)" "v_listingId v = i" "v_authorUserId v = u"
  shows "filter (\<lambda>v. v_listingId v = i \<and> v_authorUserId v = u) (rows V) = [v]"
  using filter_key [of review_pair "rows V" v] assms by (simp add: written_reviews_def review_pair_def)

text \<open>After the write of a post the buyer has the posted review and no other.\<close>

lemma posted_alone:
  assumes V: "written_reviews P (agents_review s)"
  shows "filter (\<lambda>v. v_listingId v = pi_listingId input \<and> v_authorUserId v = pi_userId input)
      (rows (post_write now input s (agents_review s))) = [posted_row now input s]"
proof (cases "review_find (pi_userId input) (pi_listingId input) s")
  case None
  then have "filter (\<lambda>v. v_listingId v = pi_listingId input \<and> v_authorUserId v = pi_userId input) (rows (agents_review s)) = []"
    by (auto simp: review_find_def t_find_None filter_empty_conv)
  then show ?thesis by (simp add: post_write_def posted_row_def None rows_t_insert review_of_def)
next
  case (Some v)
  note f = review_find_Some [OF Some]
  have fm: "filter Q (map (\<lambda>w. if v_id w = v_id v then review_edited now input w else w) rs) =
      map (\<lambda>w. if v_id w = v_id v then review_edited now input w else w) (filter Q rs)"
    if "\<And>w. Q (review_edited now input w) = Q w" for Q rs
    using that by (induction rs) auto
  show ?thesis using reviews_by [OF V, of v "pi_listingId input" "pi_userId input"] f
    by (simp add: post_write_def posted_row_def Some rows_change fm review_edited_def)
qed

end
