(* ===== verification/Marketplace.thy ===== *)
theory Marketplace
  imports Reviews
begin

text \<open>
  The marketplace as a whole: any sequence of calls of the listing service, the cart, checkout,
  consume and reviews, and the theorems on it.  Its invariant shop_ok survives every call;
  a checkout does everything or nothing; a serialization failure is retried once; the run
  balances behave like an abstract counter; and two overlapping additions of a one-time
  listing end in two purchases of it.
\<close>

section \<open>Sequences of calls\<close>

datatype shop_op =
    SListing listing_op
  | SAdd int add_item_input
  | SRemove int int
  | SClear int
  | SMerge int "add_item_input list"
  | SCheckout "exn option \<times> exn option" int
  | SConsume consume_input
  | SPost post_review_input
  | SEdit update_review_input
  | SDelete int int

definition run_shop :: "platform \<Rightarrow> audit_context \<Rightarrow> shop_op \<Rightarrow> 'x agents_scheme \<Rightarrow> 'x agents_scheme" where
  "run_shop pf ctx op s = (case op of
       SListing o1 \<Rightarrow> run_listing pf ctx o1 s
     | SAdd u input \<Rightarrow> snd (addItem pf u input s)
     | SRemove u i \<Rightarrow> snd (removeItem u i s)
     | SClear u \<Rightarrow> snd (cart_clearForUser u s)
     | SMerge u guest \<Rightarrow> snd (mergeGuestCart pf u guest s)
     | SCheckout aborts u \<Rightarrow> snd (checkout pf aborts u s)
     | SConsume input \<Rightarrow> snd (consume pf input s)
     | SPost input \<Rightarrow> snd (review_post pf input s)
     | SEdit input \<Rightarrow> snd (review_edit pf input s)
     | SDelete u i \<Rightarrow> snd (review_delete pf u i s))"

fun run_shops :: "platform \<Rightarrow> audit_context \<Rightarrow> (int \<times> shop_op) list \<Rightarrow> 'x agents_scheme \<Rightarrow> 'x agents_scheme" where
  "run_shops pf ctx [] s = s"
| "run_shops pf ctx ((now, op) # ops) s = run_shops pf ctx ops (run_shop (pf_at now pf) ctx op s)"

lemma shop_step: "shop_ok s \<Longrightarrow> shop_ok (run_shop pf ctx op s)"
  by (cases op)
     (simp_all add: run_shop_def shop_listing shop_addItem shop_cart_deletes shop_checkout shop_consume
        shop_post shop_edit shop_delete mergeGuestCart_def shop_merge_items)

lemma shop_steps: "shop_ok s \<Longrightarrow> shop_ok (run_shops pf ctx ops s)"
  by (induction pf ctx ops s rule: run_shops.induct) (simp_all add: shop_step)

section \<open>The outcome of a checkout\<close>

lemma attempt_run: "attempt ab (checkout_tx pf u) s = (Inl e, t) \<Longrightarrow> t = s"
  by (cases ab) (auto simp: attempt_def throw_def transaction_def split: sum.splits prod.splits)

lemma attempt_ok: "attempt ab (checkout_tx pf u) s = (Inr r, t) \<Longrightarrow> ab = None \<and> transaction (checkout_tx pf u) s = (Inr r, t)"
  by (cases ab) (auto simp: attempt_def throw_def)

lemma retry_cases:
  assumes "runWithSerializationRetry pf aborts u s = (r, t)"
  shows "case r of Inl e \<Rightarrow> t = s | Inr x \<Rightarrow> transaction (checkout_tx pf u) s = (Inr x, t)"
proof -
  obtain r1 t1 where a: "attempt (fst aborts) (checkout_tx pf u) s = (r1, t1)" by (metis surj_pair)
  show ?thesis
  proof (cases r1)
    case (Inl e)
    then have "t1 = s" using attempt_run a by blast
    then have r: "(if isSerializationFailure (pf_env pf) e then attempt (snd aborts) (checkout_tx pf u)
        else throw e) s = (r, t)"
      using assms a Inl by (simp add: runWithSerializationRetry_def tryCatch_def)
    show ?thesis
    proof (cases r)
      case (Inl e2)
      then show ?thesis using r attempt_run [of "snd aborts" pf u s e2 t] by (simp add: throw_def split: if_splits)
    next
      case (Inr x)
      then show ?thesis using r attempt_ok [of "snd aborts" pf u s x t] by (simp add: throw_def split: if_splits)
    qed
  next
    case (Inr x)
    then show ?thesis using assms a attempt_ok [of "fst aborts" pf u s x t]
      by (auto simp: runWithSerializationRetry_def tryCatch_def)
  qed
qed

lemma post_commit_run: "\<exists>t. seq (tryCatch (dispatchPostCommit pf plan) (\<lambda>_. return ()))
      (seq (tryCatch (clearLowRunsDedup u ids) (\<lambda>_. return ())) (return x)) s = (Inr x, t) \<and> sys.more t = sys.more s"
proof -
  have k: "keeps (\<lambda>t. sys.more t = sys.more s) (dispatchPostCommit pf plan)"
    "keeps (\<lambda>t. sys.more t = sys.more s) (clearLowRunsDedup u ids)"
    unfolding dispatchPostCommit_def clearLowRunsDedup_def by (intro keeps_intros on_market_same)+
  obtain r1 t1 where d: "dispatchPostCommit pf plan s = (r1, t1)" by (metis surj_pair)
  obtain r2 t2 where c: "clearLowRunsDedup u ids t1 = (r2, t2)" by (metis surj_pair)
  have m1: "sys.more t1 = sys.more s" using keepsD [OF k(1), of s] d by simp
  have "sys.more t2 = sys.more s" using keepsD [OF k(2), of t1] m1 c by simp
  moreover have "seq (tryCatch (dispatchPostCommit pf plan) (\<lambda>_. return ()))
      (seq (tryCatch (clearLowRunsDedup u ids) (\<lambda>_. return ())) (return x)) s = (Inr x, t2)"
    using d c by (cases r1; cases r2) (simp_all add: seq_def bind_def tryCatch_def return_def)
  ultimately show ?thesis by blast
qed

lemma checkout_cases:
  assumes "checkout pf aborts u s = (r, t)"
  shows "(\<exists>e. r = Inl e \<and> t = s) \<or>
    (\<exists>c plan t0. r = Inr c \<and> transaction (checkout_tx pf u) s = (Inr (c, plan), t0) \<and> sys.more t = sys.more t0)"
proof -
  obtain r1 t1 where a: "runWithSerializationRetry pf aborts u s = (r1, t1)" by (metis surj_pair)
  show ?thesis
  proof (cases r1)
    case (Inl e)
    then show ?thesis using assms a retry_cases [OF a] by (auto simp: checkout_def bind_def)
  next
    case (Inr x)
    obtain c plan where x: "x = (c, plan)" by (cases x)
    have "transaction (checkout_tx pf u) s = (Inr (c, plan), t1)" using retry_cases [OF a] Inr x by simp
    moreover obtain t2 where "seq (tryCatch (dispatchPostCommit pf plan) (\<lambda>_. return ()))
      (seq (tryCatch (clearLowRunsDedup u (pc_perRunListingIds plan)) (\<lambda>_. return ())) (return c)) t1 = (Inr c, t2)"
      "sys.more t2 = sys.more t1" using post_commit_run [of pf plan u "pc_perRunListingIds plan" c t1] by auto
    ultimately show ?thesis using assms a Inr x by (simp add: checkout_def bind_def)
  qed
qed

text \<open>The purchases of a list of lines.\<close>

fun purchases_of :: "int \<Rightarrow> int \<Rightarrow> built_line list \<Rightarrow> int \<Rightarrow> purchase_row list" where
  "purchases_of now u [] i = []"
| "purchases_of now u (line # lines) i = purchase_of now u line i # purchases_of now u lines (i + 1)"

lemma settle_all_purchases: "rows (agents_purchase (settle_all now u lines s)) =
    rows (agents_purchase s) @ purchases_of now u lines (next_id (agents_purchase s))"
  by (induction now u lines s rule: settle_all.induct)
     (simp_all add: settle_state_tables rows_t_insert next_t_insert)

lemma settle_all_cart: "agents_cart_item (settle_all now u lines s) = agents_cart_item s"
  by (induction now u lines s rule: settle_all.induct) (simp_all add: settle_state_tables)

lemma purchases_of_simps:
  "map b_listingId (purchases_of now u lines i) = map (l_id \<circ> bl_listing) lines"
  "map b_amountToman (purchases_of now u lines i) = map bl_amountToman lines"
  "map (int_to_string \<circ> b_id) (purchases_of now u lines i) = map ls_purchaseId (summaries lines i)"
  "b \<in> set (purchases_of now u lines i) \<Longrightarrow> b_userId b = u"
  "length (summaries lines i) = length lines"
  by (induction now u lines i rule: purchases_of.induct)
     (auto simp: purchase_of_def line_summary_of_def)

lemma built_listings:
  assumes wf: "wf_table l_id (agents_listing s)" and none: "failures_of (map (check_line u pc s) cs) = []"
  shows "map (l_id \<circ> bl_listing) (built_of (map (check_line u pc s) cs)) = map c_listingId cs"
  using none
proof (induction cs)
  case (Cons c cs)
  show ?case
  proof (cases "check_line u pc s c")
    case (Inl f)
    then show ?thesis using Cons.prems by (simp add: failures_of_def)
  next
    case (Inr line)
    obtain l where "listing_live (c_listingId c) s = Some l" "bl_listing line = l"
      using check_line_Inr [OF Inr] by auto
    then have "l_id (bl_listing line) = c_listingId c" using listing_live_get [OF wf] by auto
    then show ?thesis using Cons Inr by (simp add: failures_of_def built_of_def)
  qed
qed (simp add: built_of_def)

lemma cart_rows_cleared: "cart_rows_of u (agents_cart_item_update (t_delete (\<lambda>c. c_userId c = Some u)) s) = []"
  by (simp add: cart_rows_of_def t_filter_def t_delete_def)

lemma cart_rows_more:
  assumes h: "sys.more t = sys.more s"
  shows "cart_rows_of u t = cart_rows_of u s"
  unfolding cart_rows_of_def market_fields [OF h] by (rule refl)

text \<open>What a successful checkout writes.\<close>

lemma checkout_success:
  assumes wf: "wf_table l_id (agents_listing s)" and c: "checkout pf aborts u s = (Inr c, t)"
  shows "cart_rows_of u s \<noteq> [] \<and> failures_of (checked_lines u s) = [] \<and> cart_rows_of u t = [] \<and>
    rows (agents_purchase t) = rows (agents_purchase s) @
      purchases_of (pf_now pf) u (built_of (checked_lines u s)) (next_id (agents_purchase s)) \<and>
    cs_lines c = summaries (built_of (checked_lines u s)) (next_id (agents_purchase s)) \<and>
    cs_purchaseIds c = map ls_purchaseId (cs_lines c) \<and>
    cs_totalAmountToman c = int_to_string (sum_list (map bl_amountToman (built_of (checked_lines u s))))"
proof -
  obtain plan t0 where tx: "transaction (checkout_tx pf u) s = (Inr (c, plan), t0)" and m: "sys.more t = sys.more t0"
    using checkout_cases [OF c] by auto
  have "checkout_tx pf u s = (Inr (c, plan), t0)" using tx by (auto simp: transaction_def split: sum.splits prod.splits)
  then have user: "find_user u s \<noteq> None" by (rule checkout_tx_user)
  note run = checkout_tx_run [OF wf user, of pf] 
  have ne: "cart_rows_of u s \<noteq> []" "failures_of (checked_lines u s) = []"
    using tx run by (auto split: if_splits)
  have t0: "t0 = agents_cart_item_update (t_delete (\<lambda>c. c_userId c = Some u))
      (settle_all (pf_now pf) u (built_of (checked_lines u s)) s)"
    and cs: "c = \<lparr>cs_purchaseIds = map ls_purchaseId (summaries (built_of (checked_lines u s)) (next_id (agents_purchase s))),
        cs_totalAmountToman = int_to_string (sum_list (map bl_amountToman (built_of (checked_lines u s)))),
        cs_lines = summaries (built_of (checked_lines u s)) (next_id (agents_purchase s))\<rparr>"
    using tx ne unfolding run by (simp_all add: Let_def)
  have "cart_rows_of u t = []" unfolding cart_rows_more [OF m] t0 by (rule cart_rows_cleared)
  moreover have "rows (agents_purchase t) = rows (agents_purchase s) @
      purchases_of (pf_now pf) u (built_of (checked_lines u s)) (next_id (agents_purchase s))"
    unfolding market_fields [OF m] t0 by (simp add: settle_all_purchases)
  ultimately show ?thesis using ne cs by simp
qed

text \<open>C4. A checkout that fails leaves every table of the marketplace as it was; one that succeeds
  turns each line of the cart into exactly one completed purchase by the buyer, in the order of the
  cart, empties the cart, and returns the ids and the sum of what it wrote.\<close>

theorem checkout_all_or_nothing:
  assumes "shop_ok s" "checkout pf aborts u s = (r, t)"
  shows "case r of
      Inl e \<Rightarrow> t = s
    | Inr c \<Rightarrow> cart_rows_of u s \<noteq> [] \<and> cart_rows_of u t = [] \<and>
        (\<exists>bs. rows (agents_purchase t) = rows (agents_purchase s) @ bs \<and>
           map b_listingId bs = map c_listingId (cart_rows_of u s) \<and>
           (\<forall>b \<in> set bs. b_userId b = u \<and> b_status b = PU_COMPLETED) \<and>
           cs_purchaseIds c = map (int_to_string \<circ> b_id) bs \<and>
           cs_totalAmountToman c = int_to_string (sum_list (map b_amountToman bs)))"
proof (cases r)
  case (Inl e)
  then show ?thesis using checkout_cases [OF assms(2)] by auto
next
  case (Inr c)
  have wf: "wf_table l_id (agents_listing s)" by (rule shop_wf [OF assms(1)])
  note ok = checkout_success [OF wf assms(2) [unfolded Inr]]
  let ?bs = "purchases_of (pf_now pf) u (built_of (checked_lines u s)) (next_id (agents_purchase s))"
  have none: "failures_of (checked_lines u s) = []" using ok by blast
  have "shop_ok (snd (checkout pf aborts u s))" by (rule shop_checkout [OF assms(1)])
  then have "\<forall>b \<in> set (rows (agents_purchase t)). b_status b = PU_COMPLETED"
    using assms(2) by (simp add: shop_ok_def market_ok_def sales_ok_def sale_ok_def)
  moreover have "map b_listingId ?bs = map c_listingId (cart_rows_of u s)"
    using built_listings [OF wf none [unfolded checked_lines_def]] by (simp add: purchases_of_simps checked_lines_def)
  ultimately show ?thesis using ok Inr
    by (auto simp: purchases_of_simps intro!: exI [of _ ?bs])
qed

text \<open>When the database aborts the first attempt of a checkout with a serialization failure, the
  second attempt gives what the first would have given; when it aborts both, the second error
  reaches the caller and nothing is written; any other failure is not retried.\<close>

theorem serialization_retry_transparent:
  assumes "isSerializationFailure (pf_env pf) e"
  shows "checkout pf (Some e, None) u s = checkout pf (None, None) u s \<and>
    checkout pf (Some e, Some e2) u s = (Inl e2, s) \<and>
    (isSerializationFailure (pf_env pf) e3 \<or> checkout pf (Some e3, ab) u s = (Inl e3, s))"
proof -
  have "runWithSerializationRetry pf (Some e, None) u s = runWithSerializationRetry pf (None, None) u s"
    using assms attempt_run [of None pf u s]
    by (cases "transaction (checkout_tx pf u) s"; cases "fst (transaction (checkout_tx pf u) s)")
       (auto simp: runWithSerializationRetry_def tryCatch_def attempt_def throw_def)
  then have "checkout pf (Some e, None) u s = checkout pf (None, None) u s"
    by (simp only: checkout_def bind_def)
  moreover have "checkout pf (Some e, Some e2) u s = (Inl e2, s)"
    "isSerializationFailure (pf_env pf) e3 \<or> checkout pf (Some e3, ab) u s = (Inl e3, s)"
    using assms by (simp_all add: checkout_def bind_def runWithSerializationRetry_def tryCatch_def attempt_def throw_def)
  ultimately show ?thesis by blast
qed

section \<open>Runs as a counter\<close>

text \<open>The abstract view: how many runs a buyer has left on a listing.\<close>

definition balance :: "'x agents_scheme \<Rightarrow> int \<Rightarrow> int \<Rightarrow> int" where
  "balance s u l = (case user_runs_of u l s of None \<Rightarrow> 0 | Some r \<Rightarrow> ru_remainingRuns r)"

lemma runs_unique:
  assumes "runs_ok P T" "r \<in> set (rows T)" "ru_userId r = u" "ru_listingId r = l"
  shows "t_find (\<lambda>r. ru_userId r = u \<and> ru_listingId r = l) T = Some r"
proof -
  obtain r' where r': "t_find (\<lambda>r. ru_userId r = u \<and> ru_listingId r = l) T = Some r'"
    using assms(2-4) by (cases "t_find (\<lambda>r. ru_userId r = u \<and> ru_listingId r = l) T") (auto simp: t_find_None)
  note f = t_find_Some [OF r']
  have "runs_pair r' = runs_pair r" using f assms(3,4) by (simp add: runs_pair_def)
  then have "r' = r" using assms(1,2) f by (auto simp: runs_ok_def distinct_map dest: inj_onD)
  then show ?thesis using r' by simp
qed

lemma balance_eq: "balance s u l = (case t_find (\<lambda>r. ru_userId r = u \<and> ru_listingId r = l) (agents_user_runs s) of
    None \<Rightarrow> 0 | Some r \<Rightarrow> ru_remainingRuns r)"
  by (simp add: balance_def user_runs_of_def)

lemma balance_nonneg: "runs_ok P (agents_user_runs s) \<Longrightarrow> 0 \<le> balance s u l"
  by (auto simp: balance_eq runs_ok_def runs_row_ok_def dest!: t_find_Some split: option.splits)

text \<open>The row the UPDATE finds is the row of the pair, when it has runs left.\<close>

lemma spendable_balance:
  assumes "runs_ok P (agents_user_runs s)"
  shows "spendable u l s = (case user_runs_of u l s of None \<Rightarrow> None | Some r \<Rightarrow> if 0 < ru_remainingRuns r then Some r else None)"
proof (cases "spendable u l s")
  case None
  then show ?thesis using t_find_Some
    by (fastforce simp: spendable_def t_find_None user_runs_of_def split: option.splits)
next
  case (Some r)
  have "user_runs_of u l s = Some r"
    unfolding user_runs_of_def by (rule runs_unique [OF assms]) (use spendable_row [OF Some] in auto)
  then show ?thesis using Some spendable_row [OF Some] by simp
qed

lemma balance_spend:
  assumes ok: "runs_ok P (agents_user_runs s)" and r: "spendable u l s = Some r"
    and t: "agents_user_runs t = t_change ru_id (ru_id r) (spend_run now) (agents_user_runs s)"
  shows "balance t u' l' = balance s u' l' - (if u' = u \<and> l' = l then 1 else 0)"
proof -
  let ?T = "agents_user_runs s"
  note row = spendable_row [OF r]
  have wf: "wf_table ru_id ?T" using ok by (simp add: runs_ok_def)
  have rs: "rows (agents_user_runs t) = map (\<lambda>k. if k = r then spend_run now k else k) (rows ?T)"
    unfolding t rows_change by (rule map_cong [OF refl]) (use wf_key_unique [OF wf _ conjunct1 [OF row]] in auto)
  have "t_find (\<lambda>k. ru_userId k = u' \<and> ru_listingId k = l') (agents_user_runs t) =
      map_option (\<lambda>k. if k = r then spend_run now k else k) (t_find (\<lambda>k. ru_userId k = u' \<and> ru_listingId k = l') ?T)"
    unfolding t_find_def rs by (rule find_map_preserving) (simp add: spend_run_def)
  moreover have "t_find (\<lambda>k. ru_userId k = u' \<and> ru_listingId k = l') ?T = Some k \<Longrightarrow> k = r \<longleftrightarrow> u' = u \<and> l' = l" for k
    using runs_unique [OF ok, of r u l] row t_find_Some by fastforce
  moreover have "t_find (\<lambda>k. ru_userId k = u' \<and> ru_listingId k = l') ?T = None \<Longrightarrow> \<not> (u' = u \<and> l' = l)"
    using row by (auto simp: t_find_None)
  ultimately show ?thesis
    by (auto simp: balance_eq spend_run_def split: option.splits)
qed

lemma balance_same: "agents_user_runs t = agents_user_runs s \<Longrightarrow> balance t = balance s"
  by (simp add: fun_eq_iff balance_eq)

lemma opens_unique: "opens pf input s l \<Longrightarrow> opens pf input s l' \<Longrightarrow> l' = l"
  by (simp add: opens_def)

text \<open>C6. consume implements try-and-decrement on the abstract balance: when the key opens a
  published per-run listing and the buyer has runs left it answers with one less and takes
  exactly that one run; without runs it answers INSUFFICIENT_RUNS, and for an unknown slug, a
  listing that is not sold per run or not published, an unknown buyer or a wrong key it answers
  with one and the same INVALID_API_KEY; a refusal changes no balance.\<close>

theorem consume_refines_counter:
  assumes "shop_ok s"
  shows "\<exists>t. balance t = (\<lambda>u i. balance s u i - (if \<exists>l. opens pf input s l \<and> i = l_id l \<and> u = ci_userId input \<and>
        0 < balance s u i then 1 else 0)) \<and>
    consume pf input s = (if \<exists>l. opens pf input s l then
        (let l = (case consume_listing (ci_listingSlug input) s of Some l \<Rightarrow> l_id l | None \<Rightarrow> 0);
             n = balance s (ci_userId input) l in
         if 0 < n then (Inr \<lparr>cr_remainingRuns = int_to_string (n - 1),
           cr_totalConsumed = int_to_string (granted_to (ci_userId input) l (agents_purchase s) - n + 1)\<rparr>, t)
         else (Inl (http_exn INSUFFICIENT_RUNS 409 ''No runs remaining''), t))
      else (Inl (http_exn INVALID_API_KEY 401 ''Invalid API key or listing''), t))"
proof -
  have ok: "runs_ok (agents_purchase s) (agents_user_runs s)" using assms by (simp add: shop_ok_def market_ok_def)
  have same: "balance t = balance s" if "events_only s t" for t
    by (rule balance_same) (rule events_only_fields(5) [OF that])
  from consume_cases [OF shop_wf [OF assms], of pf input] show ?thesis
  proof (elim disjE exE conjE)
    fix t assume no: "\<forall>l. \<not> opens pf input s l"
      and t: "consume pf input s = (Inl invalidApiKey, t)" "events_only s t"
    have "balance t = (\<lambda>u i. balance s u i - (if \<exists>l. opens pf input s l \<and> i = l_id l \<and> u = ci_userId input \<and>
        0 < balance s u i then 1 else 0))" using same [OF t(2)] no by simp
    then show ?thesis using no t by (intro exI [of _ t] conjI) (simp_all add: invalidApiKey_def)
  next
    fix l t
    assume o: "opens pf input s l" and r: "spendable (ci_userId input) (l_id l) s = None"
      and t: "events_only s t" "consume pf input s = (Inl (http_exn INSUFFICIENT_RUNS 409 ''No runs remaining''), t)"
    have b: "balance s (ci_userId input) (l_id l) \<le> 0"
      using r unfolding spendable_balance [OF ok] balance_def by (auto split: option.splits if_splits)
    have "balance t = (\<lambda>u i. balance s u i - (if \<exists>l. opens pf input s l \<and> i = l_id l \<and> u = ci_userId input \<and>
        0 < balance s u i then 1 else 0))" using same [OF t(1)] b opens_unique [OF o] by (auto simp: fun_eq_iff)
    moreover have "consume_listing (ci_listingSlug input) s = Some l" using o by (simp add: opens_def)
    ultimately show ?thesis using o t b by (intro exI [of _ t] conjI) auto
  next
    fix l r t
    assume o: "opens pf input s l" and r: "spendable (ci_userId input) (l_id l) s = Some r"
      and t: "consume pf input s = (Inr \<lparr>cr_remainingRuns = int_to_string (ru_remainingRuns r - 1),
          cr_totalConsumed = int_to_string (ru_totalConsumed r + 1)\<rparr>, t)"
        "events_only (consumed_state (pf_now pf) l r s) t"
    note row = spendable_row [OF r]
    have u: "user_runs_of (ci_userId input) (l_id l) s = Some r"
      using r unfolding spendable_balance [OF ok] by (auto split: option.splits if_splits)
    then have b: "balance s (ci_userId input) (l_id l) = ru_remainingRuns r" by (simp add: balance_def)
    have "agents_user_runs t = t_change ru_id (ru_id r) (spend_run (pf_now pf)) (agents_user_runs s)"
      using events_only_fields(5) [OF t(2)] by (simp add: consumed_state_def)
    note bt = balance_spend [OF ok r this]
    have "balance t = (\<lambda>u i. balance s u i - (if \<exists>l. opens pf input s l \<and> i = l_id l \<and> u = ci_userId input \<and>
        0 < balance s u i then 1 else 0))"
    proof (intro ext)
      fix u' i
      have "(\<exists>k. opens pf input s k \<and> i = l_id k \<and> u' = ci_userId input \<and> 0 < balance s u' i) \<longleftrightarrow>
          u' = ci_userId input \<and> i = l_id l"
        using o opens_unique [OF o] b row by metis
      then show "balance t u' i = balance s u' i - (if \<exists>l. opens pf input s l \<and> i = l_id l \<and> u' = ci_userId input \<and>
          0 < balance s u' i then 1 else 0)" by (simp only: bt)
    qed
    moreover have "consume pf input s = (Inr \<lparr>cr_remainingRuns = int_to_string (balance s (ci_userId input) (l_id l) - 1),
        cr_totalConsumed = int_to_string (granted_to (ci_userId input) (l_id l) (agents_purchase s) -
          balance s (ci_userId input) (l_id l) + 1)\<rparr>, t)"
    proof -
      have "runs_row_ok (agents_purchase s) r" using ok row by (simp add: runs_ok_def)
      then have "ru_totalConsumed r = granted_to (ci_userId input) (l_id l) (agents_purchase s) - ru_remainingRuns r"
        using row unfolding runs_row_ok_def by auto
      then show ?thesis unfolding t(1) b by simp
    qed
    moreover have "consume_listing (ci_listingSlug input) s = Some l" using o by (simp add: opens_def)
    moreover have "\<exists>l. opens pf input s l" "0 < balance s (ci_userId input) (l_id l)" using o b row by auto
    ultimately show ?thesis by (intro exI [of _ t] conjI) (simp_all only: if_True Let_def option.case)
  qed
qed

text \<open>C2. Whatever calls the marketplace serves, in any order: every buyer's runs add up (what is left
  and what was consumed is what the purchases granted, and never negative), each purchase splits
  exactly into commission and maker share, nobody buys a listing of their own, a listing shows
  the number of its buyers, its consumed runs and the average of its visible ratings, and every
  review is by a buyer, at most one each.\<close>

theorem marketplace_invariant:
  assumes "shop_ok s" "t = run_shops pf ctx ops s"
  shows "(\<forall>r \<in> set (rows (agents_user_runs t)). 0 \<le> ru_remainingRuns r \<and> 0 \<le> ru_totalConsumed r \<and>
       ru_remainingRuns r + ru_totalConsumed r = granted_to (ru_userId r) (ru_listingId r) (agents_purchase t)) \<and>
    (\<forall>b \<in> set (rows (agents_purchase t)). b_commissionToman b + b_makerEarnedToman b = b_amountToman b \<and>
       0 \<le> b_commissionToman b \<and> 0 \<le> b_makerEarnedToman b \<and>
       (\<exists>l. t_get l_id (b_listingId b) (agents_listing t) = Some l \<and> l_makerUserId l \<noteq> b_userId b)) \<and>
    (\<forall>l \<in> set (rows (agents_listing t)). l_totalUsers l = int (card (buyers (l_id l) (agents_purchase t))) \<and>
       l_totalRuns l = t_sum (\<lambda>r. ru_listingId r = l_id l) ru_totalConsumed (agents_user_runs t) \<and>
       l_ratingCount l = int (length (visible_ratings (l_id l) t)) \<and>
       l_ratingAverage l = average2 (visible_ratings (l_id l) t)) \<and>
    (\<forall>v \<in> set (rows (agents_review t)). v_authorUserId v \<in> buyers (v_listingId v) (agents_purchase t)) \<and>
    distinct (map review_pair (rows (agents_review t)))"
proof -
  have ok: "shop_ok t" using assms shop_steps by blast
  then have m: "sales_ok (agents_listing t) (agents_purchase t)" "runs_ok (agents_purchase t) (agents_user_runs t)"
    "counts_ok (agents_listing t) (agents_purchase t) (agents_user_runs t)" "reviews_ok t"
    by (simp_all add: shop_ok_def market_ok_def)
  show ?thesis
    using m(4) by (intro conjI ballI)
      (use m in \<open>auto simp: runs_ok_def runs_row_ok_def sales_ok_def sale_ok_def counts_ok_def reviews_ok_def
         written_reviews_def review_ok_def rated_def visible_ratings_eq\<close>)
qed

section \<open>Two overlapping additions\<close>

lemma checkout_runs:
  assumes "transaction (checkout_tx pf u) s = (Inr (c, plan), t0)"
  shows "\<exists>t. checkout pf (None, ab) u s = (Inr c, t)"
proof -
  have "runWithSerializationRetry pf (None, ab) u s = (Inr (c, plan), t0)"
    using assms by (simp add: runWithSerializationRetry_def tryCatch_def attempt_def)
  then show ?thesis using post_commit_run [of pf plan u "pc_perRunListingIds plan" c t0]
    by (auto simp: checkout_def bind_def)
qed

definition raced_row :: "int \<Rightarrow> int \<Rightarrow> int \<Rightarrow> int \<Rightarrow> cart_row" where
  "raced_row now u i = new_cart_row now u (i, None)"

lemma cart_create_null:
  "find_user u s \<noteq> None \<Longrightarrow> cart_create now u i None s =
    (Inr (raced_row now u i (next_id (agents_cart_item s))), agents_cart_item_update (t_insert (raced_row now u i)) s)"
  by (auto simp: cart_create_def run_simps create_in_def t_new_def raced_row_def [abs_def] new_cart_row_def [abs_def])

lemma raced_fields: "c_userId (raced_row now u i k) = Some u" "c_addedAt (raced_row now u i k) = now"
    "c_listingId (raced_row now u i k) = i" "c_runPackId (raced_row now u i k) = None"
  by (simp_all add: raced_row_def new_cart_row_def)

text \<open>addItem looks for the line before it inserts it, and the unique index on user, listing and
  pack does not hold back lines without a pack, since NULL is distinct from NULL: when two
  additions of a one-time or free listing overlap, both insert, and checkout then sells the
  listing to the buyer twice.\<close>

theorem overlapping_adds_buy_twice:
  assumes ok: "shop_ok s" and user: "find_user u s \<noteq> None" and empty: "cart_rows_of u s = []"
    and checked: "cart_check u \<lparr>ai_listingId = i, ai_runPackId = None\<rparr> s = (Inr (i, None), s)"
    and race: "seq (cart_create now u i None) (cart_create now u i None) s = (x, s2)"
  shows "\<exists>c t. checkout pf (None, None) u s2 = (Inr c, t) \<and>
    length (filter (\<lambda>b. b_userId b = u \<and> b_listingId b = i) (rows (agents_purchase t))) = 2"
proof -
  let ?c1 = "raced_row now u i (next_id (agents_cart_item s))" and ?c2 = "raced_row now u i (next_id (agents_cart_item s) + 1)"
  let ?f = "t_insert (raced_row now u i)"
  have user2: "find_user u (agents_cart_item_update f s) \<noteq> None" for f using user by (simp add: find_user_def)
  have s2: "s2 = agents_cart_item_update (?f \<circ> ?f) s"
    using race by (simp add: seq_def bind_def cart_create_null [OF user] cart_create_null [OF user2] next_t_insert)
  have "filter (\<lambda>c. c_userId c = Some u) (rows (agents_cart_item s)) = []"
    using arg_cong [OF empty, of length] by (simp add: cart_rows_of_def t_filter_def)
  then have cart: "cart_rows_of u s2 = [?c1, ?c2]"
    by (simp add: s2 cart_rows_of_def t_filter_def rows_t_insert next_t_insert raced_fields)
  obtain l where l: "listing_live i s = Some l" "l_status l = LS_PUBLISHED" "l_pricingType l \<noteq> PER_RUN"
      "l_id l = i" "\<not> owned u i s"
    using cart_check_run [OF checked] by (auto split: if_splits)
  have same: "listing_live j s2 = listing_live j s" "owned u j s2 = owned u j s" "active_pack p j s2 = active_pack p j s"
    "agents_purchase s2 = agents_purchase s" "agents_listing s2 = agents_listing s" for j p
    by (simp_all add: s2 listing_live_def owned_def active_pack_def)
  have "\<exists>line. check_line u pc s2 c = Inr line" if "c_listingId c = i" for c pc
    using l that by (cases "l_pricingType l") (auto simp: check_line_def line_price_def same Let_def)
  then obtain l1 l2 where lines: "check_line u (commissionPercent s2) s2 ?c1 = Inr l1"
      "check_line u (commissionPercent s2) s2 ?c2 = Inr l2"
    using raced_fields(3) by metis
  then have chk: "checked_lines u s2 = [Inr l1, Inr l2]" by (simp add: checked_lines_def cart)
  then have none: "failures_of (checked_lines u s2) = []" and built: "built_of (checked_lines u s2) = [l1, l2]"
    by (simp_all add: failures_of_def built_of_def)
  have wf: "wf_table l_id (agents_listing s2)" using shop_wf [OF ok] same by simp
  have "find_user u s2 \<noteq> None" using user by (simp add: s2 find_user_def)
  then obtain c plan t0 where "transaction (checkout_tx pf u) s2 = (Inr (c, plan), t0)"
    using checkout_tx_run [OF wf, of u pf] cart none by (simp add: Let_def)
  then obtain t where t: "checkout pf (None, None) u s2 = (Inr c, t)" using checkout_runs by blast
  have "map (l_id \<circ> bl_listing) [l1, l2] = [i, i]"
    using built_listings [OF wf none [unfolded checked_lines_def]] built
    by (simp add: checked_lines_def cart raced_fields)
  moreover have "rows (agents_purchase t) = rows (agents_purchase s) @
      purchases_of (pf_now pf) u [l1, l2] (next_id (agents_purchase s))"
    using checkout_success [OF wf t] by (simp add: built same)
  moreover have "filter (\<lambda>b. b_userId b = u \<and> b_listingId b = i) (rows (agents_purchase s)) = []"
    using l(5) owned_buyer [OF ok] by (auto simp: buyers_def filter_empty_conv)
  ultimately show ?thesis using t by (auto simp: purchase_of_def)
qed

section \<open>Posting a review\<close>

text \<open>A buyer's post or repeated post leaves exactly one review of the listing by the buyer, with
  the new rating and text, and the listing shows the average with it; whoever has not bought the
  listing, or sends a rating that is not an integer from one to five, changes nothing.\<close>

theorem review_post_outcome:
  assumes ok: "shop_ok s" and post: "review_post pf input s = (r, t)"
  shows "case r of
      Inl e \<Rightarrow> t = s
    | Inr dto \<Rightarrow> rating_ok (pi_rating input) \<and> owned (pi_userId input) (pi_listingId input) s \<and>
        (\<exists>v. filter (\<lambda>v. v_listingId v = pi_listingId input \<and> v_authorUserId v = pi_userId input) (rows (agents_review t)) = [v] \<and>
           of_int (v_rating v) = pi_rating input \<and> v_bodyFa v = pi_bodyFa input) \<and>
        (\<exists>l. t_get l_id (pi_listingId input) (agents_listing t) = Some l \<and>
           l_ratingAverage l = average2 (visible_ratings (pi_listingId input) t))"
proof -
  have V: "written_reviews (agents_purchase s) (agents_review s)" using ok by (simp add: shop_ok_def reviews_ok_def)
  then have "wf_table v_id (agents_review s)" by (simp add: written_reviews_def)
  from review_post_run [OF this, of pf input] show ?thesis
  proof (elim disjE conjE exE)
    fix e assume "review_post pf input s = (Inl e, s)"
    then show ?thesis using post by simp
  next
    fix t'
    assume a: "rating_ok (pi_rating input)" "owned (pi_userId input) (pi_listingId input) s"
        "listing_live (pi_listingId input) s \<noteq> None" "writable input s"
      and t': "review_post pf input s = (Inr (toDto (posted_row (pf_now pf) input s)), t')"
        "sys.more t' = sys.more (rated_state pf (pi_listingId input) (agents_review_update (post_write (pf_now pf) input s) s))"
    have eq: "t' = t" "r = Inr (toDto (posted_row (pf_now pf) input s))" using post t'(1) by simp_all
    let ?P = "\<lambda>v. v_listingId v = pi_listingId input \<and> v_authorUserId v = pi_userId input"
    let ?V = "agents_review s"
    have Rt: "agents_review t = post_write (pf_now pf) input s ?V"
      using market_fields(9) [OF t'(2)] by (simp add: eq rated_state_def)
    have "filter ?P (rows (post_write (pf_now pf) input s ?V)) = [posted_row (pf_now pf) input s]"
      by (rule posted_alone [OF V])
    moreover have "of_int (v_rating (posted_row (pf_now pf) input s)) = pi_rating input"
        "v_bodyFa (posted_row (pf_now pf) input s) = pi_bodyFa input"
      using a(1) by (simp_all add: posted_row_def review_of_def review_edited_def rating_ok_def split: option.splits)
    moreover have "shop_ok t" using shop_post [OF ok, of pf input] t'(1) eq by simp
    then have rated: "reviews_ok t" by (simp add: shop_ok_def)
    obtain l where "t_get l_id (pi_listingId input) (agents_listing s) = Some l"
      using listing_live_found a(3) by fastforce
    then obtain l' where l': "t_get l_id (pi_listingId input) (agents_listing t) = Some l'"
      using market_fields(2) [OF t'(2)] by (auto simp: eq rated_state_def t_get_change)
    have "l_ratingAverage l' = average2 (visible_ratings (pi_listingId input) t)"
      using rated t_get_in [OF l'] t_get_key [OF l'] by (auto simp: reviews_ok_def rated_def visible_ratings_eq)
    ultimately show ?thesis using a l' by (auto simp: eq(2) Rt)
  qed
qed

section \<open>Witnesses\<close>

lemma sample_shop_ok: "shop_ok sample_agents"
proof -
  have "commissionPercent sample_agents = DEFAULT_COMMISSION_PERCENT"
    by (simp add: commissionPercent_def sample_agents_def sys.defs agents.defs t_get_def t_find_def
          settings_data.defs settings_row.defs DEFAULT_AGENTS_SETTINGS_def DEFAULT_COMMISSION_PERCENT_def)
  then show ?thesis
    by (simp add: shop_ok_def market_ok_def sample_catalog_ok sample_cart_ok sales_ok_def runs_ok_def counts_ok_def
          reviews_ok_def written_reviews_def rated_def ratings_of_def average2_def buyers_def t_sum_def t_filter_def
          empty_table_def wf_table_def DEFAULT_COMMISSION_PERCENT_def)
qed

lemma checkout_all_or_nothing_witness:
  "case fst (checkout sample_admin_platform (None, None) 1 sample_agents) of
     Inl e \<Rightarrow> snd (checkout sample_admin_platform (None, None) 1 sample_agents) = sample_agents
   | Inr c \<Rightarrow> cart_rows_of 1 (snd (checkout sample_admin_platform (None, None) 1 sample_agents)) = []"
  using checkout_all_or_nothing [OF sample_shop_ok, of sample_admin_platform "(None, None)" 1
      "fst (checkout sample_admin_platform (None, None) 1 sample_agents)"
      "snd (checkout sample_admin_platform (None, None) 1 sample_agents)"]
  by (simp split: sum.splits)

lemma serialization_retry_transparent_witness:
  "checkout sample_admin_platform (Some (PrismaKnown ''P2034'' JUndefined), None) 1 sample_agents =
   checkout sample_admin_platform (None, None) 1 sample_agents"
proof -
  have "isSerializationFailure (pf_env sample_admin_platform) (PrismaKnown ''P2034'' JUndefined)"
    by (simp add: isSerializationFailure_def)
  from serialization_retry_transparent [OF this] show ?thesis by blast
qed

definition sample_consume :: consume_input where
  "sample_consume = \<lparr>ci_listingSlug = ''per-run'', ci_userId = 1, ci_apiKeyPlaintext = ''ab'',
     ci_ipAddress = None, ci_userAgent = None\<rparr>"

lemma consume_refines_counter_witness:
  "fst (consume sample_admin_platform sample_consume sample_agents) \<noteq> Inr \<lparr>cr_remainingRuns = ''0'', cr_totalConsumed = ''1''\<rparr>"
proof -
  have "balance sample_agents 1 2 = 0" by (simp add: balance_def user_runs_of_def t_find_def empty_table_def)
  moreover have "consume_listing ''per-run'' sample_agents = Some (sample_listing 2 ''per-run'' PER_RUN None LS_PUBLISHED)"
    by (simp add: consume_listing_def t_find_def)
  ultimately show ?thesis
    using consume_refines_counter [OF sample_shop_ok, of sample_admin_platform sample_consume]
    by (auto simp: sample_consume_def Let_def split: if_splits)
qed

lemma marketplace_invariant_witness:
  "distinct (map review_pair (rows (agents_review (run_shops sample_admin_platform no_context
     [(1, SCheckout (None, None) 1), (2, SPost \<lparr>pi_userId = 1, pi_listingId = 1, pi_rating = 4, pi_bodyFa = None\<rparr>)]
     sample_agents))))"
  using marketplace_invariant [OF sample_shop_ok refl] by blast

lemma overlapping_adds_buy_twice_witness:
  "\<exists>c t. checkout sample_admin_platform (None, None) 1 (snd (seq (cart_create 7 1 1 None) (cart_create 7 1 1 None)
      (snd (cart_clearForUser 1 sample_agents)))) = (Inr c, t) \<and>
    length (filter (\<lambda>b. b_userId b = 1 \<and> b_listingId b = 1) (rows (agents_purchase t))) = 2"
proof -
  let ?s = "snd (cart_clearForUser 1 sample_agents)"
  have s: "?s = agents_cart_item_update (t_delete (\<lambda>c. c_userId c = Some 1)) sample_agents"
    by (simp add: cart_clearForUser_def modify_def)
  have ok: "shop_ok ?s" by (rule shop_cart_deletes(2) [OF sample_shop_ok])
  have user: "find_user 1 ?s \<noteq> None" using sample_market_users(1) by (simp add: s find_user_def)
  have empty: "cart_rows_of 1 ?s = []" unfolding s by (rule cart_rows_cleared)
  have chk: "cart_check 1 \<lparr>ai_listingId = 1, ai_runPackId = None\<rparr> ?s = (Inr (1, None), ?s)"
    by (simp add: s cart_check_def run_simps listing_live_def owned_def t_find_def t_exists_def empty_table_def)
  show ?thesis
    by (rule overlapping_adds_buy_twice [OF ok user empty chk]) (rule prod.collapse [symmetric])
qed

lemma review_post_outcome_witness:
  "\<forall>dto. fst (review_post sample_admin_platform \<lparr>pi_userId = 1, pi_listingId = 1, pi_rating = 6, pi_bodyFa = None\<rparr>
     sample_agents) \<noteq> Inr dto"
proof
  fix dto :: review_dto
  have "\<not> rating_ok 6" by (simp add: rating_ok_def)
  then show "fst (review_post sample_admin_platform \<lparr>pi_userId = 1, pi_listingId = 1, pi_rating = 6, pi_bodyFa = None\<rparr>
      sample_agents) \<noteq> Inr dto"
    using review_post_outcome [OF sample_shop_ok, of sample_admin_platform
      "\<lparr>pi_userId = 1, pi_listingId = 1, pi_rating = 6, pi_bodyFa = None\<rparr>" "Inr dto"]
    by (auto dest: sym [of _ "Inr dto"]) (metis prod.collapse)
qed

end
