(* ===== verification/Catalog.thy ===== *)
theory Catalog
  imports Marketplace "HOL-Library.Product_Lexorder"
begin

text \<open>
  What the marketplace shows: the handles of dto/handles.ts, the cards and details of dto/,
  and the read methods of modules/agents/services/listings.service.ts (the published pages
  with their cursor, search, the detail page, the cached home-page sections) and of
  categories.service.ts.  PostgreSQL's text search is an argument: the rank of a listing for a
  query, or None when it does not match.  Where the SQL leaves the order of equal rows open,
  the model keeps the order of insertion.
\<close>

section \<open>Handles\<close>

definition BASE62 :: string where
  "BASE62 = ''0123456789ABCDEFGHIJKLMNOPQRSTUVWXYZabcdefghijklmnopqrstuvwxyz''"

text \<open>The while loop of base62Encode.\<close>

function base62_loop :: "int \<Rightarrow> string \<Rightarrow> string" where
  "base62_loop num result =
     (if num \<le> 0 then result else base62_loop (num div 62) (BASE62 ! nat (num mod 62) # result))"
  by pat_completeness auto

termination
  by (relation "measure (nat \<circ> fst)") auto

declare base62_loop.simps [simp del]

definition base62Encode :: "int \<Rightarrow> string" where
  "base62Encode n = (if n = 0 then ''0'' else base62_loop n [])"

definition makerHandle :: "int \<Rightarrow> string" where
  "makerHandle userId = ''m'' @ base62Encode userId"

section \<open>Cards\<close>

record listing_card =
  cd_id :: string
  cd_slug :: string
  cd_title :: string
  cd_shortDescFa :: string
  cd_categoryId :: string
  cd_categoryNameFa :: string
  cd_makerHandle :: string
  cd_pricingType :: pricing_type
  cd_oneTimePriceToman :: "string option"
  cd_ratingAverage :: "string option"
  cd_ratingCount :: string
  cd_totalUsers :: string
  cd_totalRuns :: string
  cd_primaryScreenshotUrl :: "string option"
  cd_isFeatured :: bool

text \<open>Decimal.toString of a value in hundredths: no trailing zeros.\<close>

definition decimal_string :: "int \<Rightarrow> string" where
  "decimal_string h =
     (let a = abs h; q = a div 100; r = a mod 100 in
      (if h < 0 then ''-'' else []) @ int_to_string q @
      (if r = 0 then [] else if r mod 10 = 0 then ''.'' @ int_to_string (r div 10) else ''.'' @ pad_left 2 r))"

definition file_url :: "int \<Rightarrow> string" where
  "file_url i = ''/api/v1/files/'' @ int_to_string i @ ''/download''"

definition screenshots_of :: "int \<Rightarrow> 'x agents_scheme \<Rightarrow> screenshot_row list" where
  "screenshots_of i s = sort_key sh_order (t_filter (\<lambda>x. sh_listingId x = i) (agents_screenshot s))"

definition category_of :: "listing_row \<Rightarrow> 'x agents_scheme \<Rightarrow> category_row option" where
  "category_of l s = t_get g_id (l_categoryId l) (agents_category s)"

text \<open>The category is a required relation; without its row the text is empty.\<close>

definition listingToCardDto :: "'x agents_scheme \<Rightarrow> listing_row \<Rightarrow> listing_card" where
  "listingToCardDto s l =
     \<lparr>cd_id = int_to_string (l_id l), cd_slug = l_slug l, cd_title = l_titleFa l, cd_shortDescFa = l_shortDescFa l,
      cd_categoryId = int_to_string (l_categoryId l),
      cd_categoryNameFa = (case category_of l s of Some g \<Rightarrow> g_nameFa g | None \<Rightarrow> []),
      cd_makerHandle = makerHandle (l_makerUserId l), cd_pricingType = l_pricingType l,
      cd_oneTimePriceToman = map_option int_to_string (l_oneTimePriceToman l),
      cd_ratingAverage = map_option decimal_string (l_ratingAverage l),
      cd_ratingCount = int_to_string (l_ratingCount l), cd_totalUsers = int_to_string (l_totalUsers l),
      cd_totalRuns = int_to_string (l_totalRuns l),
      cd_primaryScreenshotUrl = (case screenshots_of (l_id l) s of [] \<Rightarrow> None | x # _ \<Rightarrow> Some (file_url (sh_fileId x))),
      cd_isFeatured = l_isFeatured l\<rparr>"

definition json_opt :: "string option \<Rightarrow> json" where
  "json_opt v = (case v of Some x \<Rightarrow> JStr x | None \<Rightarrow> JNull)"

definition card_json :: "listing_card \<Rightarrow> json" where
  "card_json c = JObj [(''id'', JStr (cd_id c)), (''slug'', JStr (cd_slug c)), (''titleFa'', JStr (cd_title c)),
     (''shortDescFa'', JStr (cd_shortDescFa c)), (''categoryId'', JStr (cd_categoryId c)),
     (''categoryNameFa'', JStr (cd_categoryNameFa c)), (''makerHandle'', JStr (cd_makerHandle c)),
     (''pricingType'', JStr (pricing_string (cd_pricingType c))),
     (''oneTimePriceToman'', json_opt (cd_oneTimePriceToman c)), (''ratingAverage'', json_opt (cd_ratingAverage c)),
     (''ratingCount'', JStr (cd_ratingCount c)), (''totalUsers'', JStr (cd_totalUsers c)),
     (''totalRuns'', JStr (cd_totalRuns c)), (''primaryScreenshotUrl'', json_opt (cd_primaryScreenshotUrl c)),
     (''isFeatured'', JBool (cd_isFeatured c))]"

section \<open>Published pages\<close>

record published_filters =
  ff_categoryId :: "int option"
  ff_pricingType :: "pricing_type option"
  ff_freeOnly :: bool
  ff_minRating :: "rat option"

datatype sort_order = NEWEST | MOST_INSTALLED | TOP_RATED

record find_published_input =
  fi_filters :: published_filters
  fi_cursor :: "int option"
  fi_limit :: nat
  fi_sort :: sort_order

definition on_shelf :: "listing_row \<Rightarrow> bool" where
  "on_shelf l \<longleftrightarrow> l_status l = LS_PUBLISHED \<and> l_deletedAt l = None"

definition filter_ok :: "published_filters \<Rightarrow> listing_row \<Rightarrow> bool" where
  "filter_ok f l \<longleftrightarrow>
     (case ff_categoryId f of None \<Rightarrow> True | Some c \<Rightarrow> l_categoryId l = c) \<and>
     (if ff_freeOnly f then l_pricingType l = FREE
      else case ff_pricingType f of None \<Rightarrow> True | Some p \<Rightarrow> l_pricingType l = p) \<and>
     (case ff_minRating f of None \<Rightarrow> True
      | Some m \<Rightarrow> (case l_ratingAverage l of None \<Rightarrow> False | Some a \<Rightarrow> 100 * m \<le> of_int a))"

text \<open>Descending with NULL last, then by descending id.\<close>

definition desc_nulls_last :: "int option \<Rightarrow> int \<times> int" where
  "desc_nulls_last v = (case v of Some x \<Rightarrow> (0, - x) | None \<Rightarrow> (1, 0))"

definition asc_nulls_last :: "int option \<Rightarrow> int \<times> int" where
  "asc_nulls_last v = (case v of Some x \<Rightarrow> (0, x) | None \<Rightarrow> (1, 0))"

definition page_key :: "sort_order \<Rightarrow> listing_row \<Rightarrow> (int \<times> int) \<times> int" where
  "page_key so l = (case so of
       NEWEST \<Rightarrow> (desc_nulls_last (l_publishedAt l), - l_id l)
     | MOST_INSTALLED \<Rightarrow> (desc_nulls_last (Some (l_totalUsers l)), - l_id l)
     | TOP_RATED \<Rightarrow> (desc_nulls_last (l_ratingAverage l), - l_id l))"

definition published_rows :: "find_published_input \<Rightarrow> listing_row table \<Rightarrow> listing_row list" where
  "published_rows input T = sort_key (page_key (fi_sort input))
     (filter (\<lambda>l. case fi_cursor input of None \<Rightarrow> True | Some c \<Rightarrow> l_id l < c)
        (t_filter (\<lambda>l. on_shelf l \<and> filter_ok (fi_filters input) l) T))"

text \<open>The rows are the ones of the table the filters select, with an id below the cursor.
  With a limit of zero and a further row, the code reads the id of undefined.\<close>

definition findPublished :: "find_published_input \<Rightarrow> ('x agents_scheme, listing_row page) M" where
  "findPublished input =
     bind (gets (\<lambda>s. take (fi_limit input + 1) (published_rows input (agents_listing s)))) (\<lambda>rs.
     let more = fi_limit input < length rs; page = (if more then take (fi_limit input) rs else rs) in
     if more \<and> page = [] then throw (JsError ''Cannot read properties of undefined (reading 'id')'')
     else return \<lparr>items = page, nextCursor = (if more then Some (l_id (last page)) else None), hasMore = more\<rparr>)"

definition findPublishedById :: "int \<Rightarrow> 'x agents_scheme \<Rightarrow> listing_row option" where
  "findPublishedById i s = t_find (\<lambda>l. l_id l = i \<and> l_status l = LS_PUBLISHED \<and> l_deletedAt l = None) (agents_listing s)"

definition findPublishedBySlug :: "string \<Rightarrow> 'x agents_scheme \<Rightarrow> listing_row option" where
  "findPublishedBySlug slug s =
     t_find (\<lambda>l. l_slug l = slug \<and> l_status l = LS_PUBLISHED \<and> l_deletedAt l = None) (agents_listing s)"

definition findByIdForMaker :: "int \<Rightarrow> int \<Rightarrow> 'x agents_scheme \<Rightarrow> listing_row option" where
  "findByIdForMaker i maker s =
     t_find (\<lambda>l. l_id l = i \<and> l_makerUserId l = maker \<and> l_deletedAt l = None) (agents_listing s)"

definition listing_findByIdForAdmin :: "int \<Rightarrow> 'x agents_scheme \<Rightarrow> listing_row option" where
  "listing_findByIdForAdmin i s = t_find (\<lambda>l. l_id l = i \<and> l_deletedAt l = None) (agents_listing s)"

section \<open>Search\<close>

text \<open>The characters of the regular expression class \s, as UTF-8 bytes.\<close>

definition js_spaces :: "nat list list" where
  "js_spaces = [[9], [10], [11], [12], [13], [32], [0xC2, 0xA0], [0xE1, 0x9A, 0x80]] @
     map (\<lambda>n. [0xE2, 0x80, n]) ([0x80..<0x8B] @ [0xA8, 0xA9, 0xAF]) @
     [[0xE2, 0x81, 0x9F], [0xE3, 0x80, 0x80], [0xEF, 0xBB, 0xBF]]"

definition space_len :: "string \<Rightarrow> nat" where
  "space_len s = (case List.find (\<lambda>w. take (length w) (map of_char s) = w) js_spaces of
       None \<Rightarrow> 0
     | Some w \<Rightarrow> length w)"

text \<open>Every run of white space becomes one space; the flag says the last character was one.\<close>

function collapse_spaces :: "bool \<Rightarrow> string \<Rightarrow> string" where
  "collapse_spaces in_run [] = []"
| "collapse_spaces in_run (c # s) =
     (if 0 < space_len (c # s)
      then (if in_run then [] else '' '') @ collapse_spaces True (drop (space_len (c # s) - 1) s)
      else c # collapse_spaces False s)"
  by pat_completeness auto

termination
  by (relation "measure (length \<circ> snd)") auto

definition sanitizeSearchQuery :: "string \<Rightarrow> string" where
  "sanitizeSearchQuery q =
     utf16_take 200 (trim (collapse_spaces False (filter (\<lambda>c. c \<noteq> CHR 0x00) q)))"

text \<open>PostgreSQL's text functions: ts_rank of a listing for plainto_tsquery of a query, when it
  matches, and whether a text matches an ILIKE pattern.\<close>

record text_search =
  ts_rank :: "string \<Rightarrow> listing_row \<Rightarrow> rat option"
  ts_ilike :: "string \<Rightarrow> string \<Rightarrow> bool"

record search_input =
  si_q :: string
  si_filters :: published_filters
  si_offset :: nat
  si_limit :: nat

record 'a search_result =
  sr_items :: "'a list"
  sr_nextOffset :: "nat option"
  sr_hasMore :: bool

definition FTS_FALLBACK_THRESHOLD :: nat where
  "FTS_FALLBACK_THRESHOLD = 10"

definition rank_key :: "text_search \<Rightarrow> string \<Rightarrow> listing_row \<Rightarrow> rat \<times> int \<times> int" where
  "rank_key tx q l = (- (case ts_rank tx q l of Some r \<Rightarrow> r | None \<Rightarrow> 0), - l_totalUsers l, - l_id l)"

text \<open>The rows of the full-text pass, before LIMIT and OFFSET.\<close>

definition fts_rows :: "text_search \<Rightarrow> string \<Rightarrow> published_filters \<Rightarrow> listing_row table \<Rightarrow> listing_row list" where
  "fts_rows tx q f T = sort_key (rank_key tx q)
     (t_filter (\<lambda>l. on_shelf l \<and> ts_rank tx q l \<noteq> None \<and> filter_ok f l) T)"

definition ilike_match :: "text_search \<Rightarrow> string \<Rightarrow> listing_row \<Rightarrow> bool" where
  "ilike_match tx q l \<longleftrightarrow> (let pattern = ''%'' @ q @ ''%'' in
     ts_ilike tx pattern (l_titleFa l) \<or> ts_ilike tx pattern (l_slug l))"

definition ilike_rows :: "text_search \<Rightarrow> string \<Rightarrow> published_filters \<Rightarrow> listing_row table \<Rightarrow> listing_row list" where
  "ilike_rows tx q f T = sort_key (\<lambda>l. (- l_totalUsers l, - l_id l))
     (t_filter (\<lambda>l. on_shelf l \<and> ilike_match tx q l \<and> filter_ok f l) T)"

fun add_unseen :: "'a list \<Rightarrow> 'a list \<Rightarrow> 'a list" where
  "add_unseen acc [] = acc"
| "add_unseen acc (x # xs) = add_unseen (if x \<in> set acc then acc else acc @ [x]) xs"

definition ordered_ids :: "text_search \<Rightarrow> search_input \<Rightarrow> listing_row table \<Rightarrow> int list" where
  "ordered_ids tx inp T = (let sanitized = sanitizeSearchQuery (si_q inp);
       ids = map l_id (take (si_limit inp + 1) (drop (si_offset inp) (fts_rows tx sanitized (si_filters inp) T)))
     in if length ids < FTS_FALLBACK_THRESHOLD
        then add_unseen ids (map l_id (take (si_limit inp + 1 - length ids)
                (ilike_rows tx sanitized (si_filters inp) T)))
        else ids)"

definition searchPublished :: "text_search \<Rightarrow> search_input \<Rightarrow> 'x agents_scheme \<Rightarrow> listing_row search_result" where
  "searchPublished tx inp s =
     (let orderedIds = ordered_ids tx inp (agents_listing s);
          hasMore = si_limit inp < length orderedIds;
          pageIds = (if hasMore then take (si_limit inp) orderedIds else orderedIds);
          nextOffset = (if hasMore then Some (si_offset inp + si_limit inp) else None)
      in if pageIds = [] then \<lparr>sr_items = [], sr_nextOffset = nextOffset, sr_hasMore = False\<rparr>
         else \<lparr>sr_items = List.map_filter (\<lambda>i. t_get l_id i (agents_listing s)) pageIds,
               sr_nextOffset = nextOffset, sr_hasMore = hasMore\<rparr>)"

section \<open>The detail page\<close>

record ownership =
  ow_owns :: bool
  ow_runsRemaining :: "int option"

definition computeOwnership :: "int \<Rightarrow> int \<Rightarrow> pricing_type \<Rightarrow> 'x agents_scheme \<Rightarrow> ownership" where
  "computeOwnership listingId userId pricingType s =
     \<lparr>ow_owns = owned userId listingId s,
      ow_runsRemaining = (if pricingType = PER_RUN
         then Some (case user_runs_of userId listingId s of Some r \<Rightarrow> ru_remainingRuns r | None \<Rightarrow> 0)
         else None)\<rparr>"

definition shown_reviews :: "int \<Rightarrow> 'x agents_scheme \<Rightarrow> review_row list" where
  "shown_reviews i s = t_filter (\<lambda>v. v_listingId v = i \<and> \<not> v_isHidden v) (agents_review s)"

text \<open>The counts of the ratings 1 to 5; groups of other ratings are dropped.\<close>

definition computeRatingDistribution :: "int \<Rightarrow> 'x agents_scheme \<Rightarrow> (int \<times> nat) list" where
  "computeRatingDistribution listingId s =
     map (\<lambda>k. (k, length (filter (\<lambda>v. v_rating v = k) (shown_reviews listingId s)))) [1, 2, 3, 4, 5]"

definition maker_listings_count :: "int \<Rightarrow> 'x agents_scheme \<Rightarrow> nat" where
  "maker_listings_count u s = t_count (\<lambda>l. l_makerUserId l = u \<and> on_shelf l) (agents_listing s)"

definition json_big :: "int option \<Rightarrow> json" where
  "json_big v = (case v of Some x \<Rightarrow> JStr (int_to_string x) | None \<Rightarrow> JNull)"

definition json_iso :: "int option \<Rightarrow> json" where
  "json_iso v = (case v of Some x \<Rightarrow> JStr (toISOString x) | None \<Rightarrow> JNull)"

definition screenshot_json :: "screenshot_row \<Rightarrow> json" where
  "screenshot_json x = JObj [(''id'', JStr (int_to_string (sh_id x))), (''fileId'', JStr (int_to_string (sh_fileId x))),
     (''url'', JStr (file_url (sh_fileId x))), (''altTextFa'', json_opt (sh_altTextFa x)),
     (''order'', JNum (sh_order x))]"

definition run_pack_json :: "run_pack_row \<Rightarrow> json" where
  "run_pack_json p = JObj [(''id'', JStr (int_to_string (rp_id p))), (''nameFa'', JStr (rp_nameFa p)),
     (''runs'', JStr (int_to_string (rp_runs p))), (''priceToman'', JStr (int_to_string (rp_priceToman p))),
     (''order'', JNum (rp_order p))]"

definition review_json :: "review_row \<Rightarrow> json" where
  "review_json v = JObj [(''id'', JStr (int_to_string (v_id v))), (''rating'', JNum (v_rating v)),
     (''bodyFa'', json_opt (v_bodyFa v)), (''authorHandle'', JStr (makerHandle (v_authorUserId v))),
     (''createdAt'', JStr (toISOString (v_createdAt v)))]"

definition distribution_json :: "(int \<times> nat) list \<Rightarrow> json" where
  "distribution_json d = JObj (map (\<lambda>(k, n). (int_to_string k, JNum (int n))) d)"

definition ownership_json :: "ownership option \<Rightarrow> json" where
  "ownership_json w = (case w of None \<Rightarrow> JNull
     | Some o1 \<Rightarrow> JObj [(''owns'', JBool (ow_owns o1)),
         (''runsRemaining'', case ow_runsRemaining o1 of Some r \<Rightarrow> JNum r | None \<Rightarrow> JNull)])"

record detail_extras =
  dx_reviewCount :: nat
  dx_ratingDistribution :: "(int \<times> nat) list"
  dx_makerListingsCount :: nat
  dx_ownership :: "ownership option"

record detail_rows =
  dr_listing :: listing_row
  dr_category :: category_row
  dr_maker :: user
  dr_screenshots :: "screenshot_row list"
  dr_runPacks :: "run_pack_row list"
  dr_reviews :: "review_row list"

definition listingToDetailDto :: "detail_rows \<Rightarrow> detail_extras \<Rightarrow> json" where
  "listingToDetailDto d x = (let l = dr_listing d; g = dr_category d in
     JObj [(''id'', JStr (int_to_string (l_id l))), (''slug'', JStr (l_slug l)), (''titleFa'', JStr (l_titleFa l)),
      (''shortDescFa'', JStr (l_shortDescFa l)), (''longDescFaMd'', JStr (l_longDescFaMd l)),
      (''installInstructionsFaMd'', json_opt (l_installInstructionsFaMd l)),
      (''categoryId'', JStr (int_to_string (g_id g))), (''categoryNameFa'', JStr (g_nameFa g)),
      (''categorySlug'', JStr (g_slug g)), (''pricingType'', JStr (pricing_string (l_pricingType l))),
      (''oneTimePriceToman'', json_big (l_oneTimePriceToman l)), (''isFeatured'', JBool (l_isFeatured l)),
      (''publishedAt'', json_iso (l_publishedAt l)),
      (''ratingAverage'', json_opt (map_option decimal_string (l_ratingAverage l))),
      (''ratingCount'', JStr (int_to_string (l_ratingCount l))), (''totalUsers'', JStr (int_to_string (l_totalUsers l))),
      (''totalRuns'', JStr (int_to_string (l_totalRuns l))),
      (''maker'', JObj [(''handle'', JStr (makerHandle (u_id (dr_maker d)))),
         (''totalListings'', JNum (int (dx_makerListingsCount x))),
         (''joinedAt'', JStr (toISOString (u_createdAt (dr_maker d))))]),
      (''screenshots'', JArr (map screenshot_json (dr_screenshots d))),
      (''runPacks'', JArr (map run_pack_json (dr_runPacks d))), (''reviews'', JArr (map review_json (dr_reviews d))),
      (''reviewCount'', JNum (int (dx_reviewCount x))),
      (''ratingDistribution'', distribution_json (dx_ratingDistribution x)),
      (''ownership'', ownership_json (dx_ownership x))])"

text \<open>A listing refers to its category and its maker by required foreign keys; Prisma throws
  when such a row is missing.\<close>

definition findDetailBySlug :: "string \<Rightarrow> int option \<Rightarrow> ('x agents_scheme, json option) M" where
  "findDetailBySlug slug currentUserId = bind (gets (findPublishedBySlug slug)) (\<lambda>found. case found of
       None \<Rightarrow> return None
     | Some l \<Rightarrow> bind (gets (\<lambda>s. (category_of l s, find_user (l_makerUserId l) s))) (\<lambda>rel. case rel of
         (Some g, Some u) \<Rightarrow> gets (\<lambda>s. Some (listingToDetailDto
            \<lparr>dr_listing = l, dr_category = g, dr_maker = u, dr_screenshots = screenshots_of (l_id l) s,
             dr_runPacks = sort_key rp_order (t_filter (\<lambda>p. rp_listingId p = l_id l \<and> rp_isActive p) (agents_run_pack s)),
             dr_reviews = take 10 (sort_key (\<lambda>v. - v_createdAt v) (shown_reviews (l_id l) s))\<rparr>
            \<lparr>dx_reviewCount = length (shown_reviews (l_id l) s),
             dx_ratingDistribution = computeRatingDistribution (l_id l) s,
             dx_makerListingsCount = maker_listings_count (l_makerUserId l) s,
             dx_ownership = map_option (\<lambda>u. computeOwnership (l_id l) u (l_pricingType l) s) currentUserId\<rparr>))
       | _ \<Rightarrow> throw (JsError ''Inconsistent query result'')))"

definition getListingDetail :: "string \<Rightarrow> int option \<Rightarrow> ('x agents_scheme, json) M" where
  "getListingDetail slug user = bind (findDetailBySlug slug user) (\<lambda>detail. case detail of
       None \<Rightarrow> throw (http_exn LISTING_NOT_FOUND 404 ''Listing not found'')
     | Some d \<Rightarrow> return d)"

section \<open>Cached sections\<close>

text \<open>JSON.parse of the cached text, else the computed value, which is stored for a while.\<close>

definition cached_json :: "int \<Rightarrow> string \<Rightarrow> int \<Rightarrow> ('x sys_scheme, json) M \<Rightarrow> ('x sys_scheme, json) M" where
  "cached_json now key seconds compute = bind (redis_get now key) (\<lambda>hit. case hit of
       Some t \<Rightarrow> (case json_parse t of Some v \<Rightarrow> return v | None \<Rightarrow> throw (JsError ''Unexpected token in JSON''))
     | None \<Rightarrow> bind compute (\<lambda>v. seq (redis_set_ex now key (json_text v) seconds) (return v)))"

definition getCachedSection :: "platform \<Rightarrow> string \<Rightarrow> ('x sys_scheme, json) M \<Rightarrow> ('x sys_scheme, json) M" where
  "getCachedSection pf key compute = cached_json (pf_now pf) key 60 compute"

definition cards :: "'x agents_scheme \<Rightarrow> listing_row list \<Rightarrow> json" where
  "cards s ls = JArr (map (card_json \<circ> listingToCardDto s) ls)"

text \<open>The count of a section in agents_settings, with its default; the counts are not negative.\<close>

definition section_limit :: "(settings_row \<Rightarrow> int) \<Rightarrow> int \<Rightarrow> 'x agents_scheme \<Rightarrow> nat" where
  "section_limit f d s = nat (case t_find (\<lambda>x. st_id x = 1) (agents_settings s) of Some x \<Rightarrow> f x | None \<Rightarrow> d)"

definition featured_rows :: "'x agents_scheme \<Rightarrow> listing_row list" where
  "featured_rows s = take (section_limit st_featuredItemCount 6 s)
     (sort_key (\<lambda>l. (asc_nulls_last (l_featuredOrder l), l_id l))
        (t_filter (\<lambda>l. l_isFeatured l \<and> on_shelf l) (agents_listing s)))"

definition best_seller_rows :: "'x agents_scheme \<Rightarrow> listing_row list" where
  "best_seller_rows s = take (section_limit st_bestSellersItemCount 8 s)
     (sort_key (\<lambda>l. (- l_totalUsers l, - l_id l)) (t_filter on_shelf (agents_listing s)))"

definition new_release_rows :: "'x agents_scheme \<Rightarrow> listing_row list" where
  "new_release_rows s = take (section_limit st_newReleasesItemCount 8 s)
     (sort_key (\<lambda>l. (desc_nulls_last (l_publishedAt l), - l_id l)) (t_filter on_shelf (agents_listing s)))"

record activity =
  ac_kind :: string
  ac_userId :: int
  ac_slug :: string
  ac_titleFa :: string
  ac_timestamp :: int

definition purchase_activity :: "'x agents_scheme \<Rightarrow> activity list" where
  "purchase_activity s = List.map_filter (\<lambda>b. case t_get l_id (b_listingId b) (agents_listing s) of
       Some l \<Rightarrow> if b_status b = PU_COMPLETED \<and> l_deletedAt l = None
         then Some \<lparr>ac_kind = (if b_pricingTypeAtSale b = FREE then ''install'' else ''purchase''),
                    ac_userId = b_userId b, ac_slug = l_slug l, ac_titleFa = l_titleFa l, ac_timestamp = b_createdAt b\<rparr>
         else None
     | None \<Rightarrow> None) (rows (agents_purchase s))"

definition review_activity :: "'x agents_scheme \<Rightarrow> activity list" where
  "review_activity s = List.map_filter (\<lambda>v. case t_get l_id (v_listingId v) (agents_listing s) of
       Some l \<Rightarrow> if \<not> v_isHidden v \<and> l_deletedAt l = None
         then Some \<lparr>ac_kind = ''review'', ac_userId = v_authorUserId v, ac_slug = l_slug l,
                    ac_titleFa = l_titleFa l, ac_timestamp = v_createdAt v\<rparr>
         else None
     | None \<Rightarrow> None) (rows (agents_review s))"

definition activity_json :: "activity \<Rightarrow> json" where
  "activity_json a = JObj [(''kind'', JStr (ac_kind a)), (''userHandle'', JStr (makerHandle (ac_userId a))),
     (''listingSlug'', JStr (ac_slug a)), (''listingTitleFa'', JStr (ac_titleFa a)),
     (''timestamp'', JStr (toISOString (ac_timestamp a)))]"

definition recent_activity :: "'x agents_scheme \<Rightarrow> activity list" where
  "recent_activity s = take 50 (sort_key (\<lambda>a. - ac_timestamp a) (purchase_activity s @ review_activity s))"

definition findFeatured :: "platform \<Rightarrow> ('x agents_scheme, json) M" where
  "findFeatured pf = getCachedSection pf ''agents:section:featured'' (gets (\<lambda>s. cards s (featured_rows s)))"

definition findBestSellers :: "platform \<Rightarrow> ('x agents_scheme, json) M" where
  "findBestSellers pf = getCachedSection pf ''agents:section:best-sellers'' (gets (\<lambda>s. cards s (best_seller_rows s)))"

definition findNewReleases :: "platform \<Rightarrow> ('x agents_scheme, json) M" where
  "findNewReleases pf = getCachedSection pf ''agents:section:new-releases'' (gets (\<lambda>s. cards s (new_release_rows s)))"

definition activities :: "'x agents_scheme \<Rightarrow> json" where
  "activities s = JArr (map activity_json (recent_activity s))"

definition findRecentActivity :: "platform \<Rightarrow> ('x agents_scheme, json) M" where
  "findRecentActivity pf = getCachedSection pf ''agents:section:recent-activity'' (gets activities)"

text \<open>The four routes of the sections controller.\<close>

datatype section_route = Featured | BestSellers | NewReleases | RecentActivity

primrec sections_get :: "section_route \<Rightarrow> platform \<Rightarrow> ('x agents_scheme, json) M" where
  "sections_get Featured pf = findFeatured pf"
| "sections_get BestSellers pf = findBestSellers pf"
| "sections_get NewReleases pf = findNewReleases pf"
| "sections_get RecentActivity pf = findRecentActivity pf"

definition category_json :: "'x agents_scheme \<Rightarrow> category_row \<Rightarrow> json" where
  "category_json s c = JObj [(''id'', JStr (int_to_string (g_id c))), (''slug'', JStr (g_slug c)),
     (''nameFa'', JStr (g_nameFa c)), (''iconKey'', JStr (g_iconKey c)), (''colorToken'', JStr (g_colorToken c)),
     (''order'', JNum (g_order c)),
     (''listingCount'', JNum (int (t_count (\<lambda>l. l_categoryId l = g_id c \<and> on_shelf l) (agents_listing s))))]"

definition findAllPublic :: "platform \<Rightarrow> ('x agents_scheme, json) M" where
  "findAllPublic pf = cached_json (pf_now pf) CATEGORIES_CACHE_KEY 300
     (gets (\<lambda>s. JArr (map (category_json s) (sort_key g_order (t_filter g_isActive (agents_category s))))))"

end
