(* ===== verification/Storefront.thy ===== *)
theory Storefront
  imports Catalog
begin

text \<open>
  What the catalogue of theory Catalog promises: handles identify users, a page of published
  listings holds the best matches in order, walking the pages returns every match once when
  the order agrees with the ids (and loses listings when it does not), search returns only
  listings that match, each once, but never ends once the ranked matches are used up, a
  section is at most a minute old, and approving, suspending or unsuspending a listing
  refreshes it.
\<close>

section \<open>Handles identify users\<close>

definition BASE62_value :: "string \<Rightarrow> int" where
  "BASE62_value s = foldl (\<lambda>v c. 62 * v + int (length (takeWhile (\<lambda>x. x \<noteq> c) BASE62))) 0 s"

lemma BASE62_digit: "d < 62 \<Longrightarrow> length (takeWhile (\<lambda>x. x \<noteq> BASE62 ! d) BASE62) = d"
proof -
  assume d: "d < 62"
  have dist: "distinct BASE62" and len: "length BASE62 = 62" by (simp_all add: BASE62_def)
  have t: "takeWhile (\<lambda>x. x \<noteq> BASE62 ! d) BASE62 = take d BASE62"
  proof (rule takeWhile_eq_take_P_nth)
    fix i assume "i < d" "i < length BASE62"
    then show "BASE62 ! i \<noteq> BASE62 ! d" using dist len d by (simp add: nth_eq_iff_index_eq)
  qed (use len d in simp)
  show ?thesis using d len by (simp add: t)
qed

lemma base62_loop_steps:
  "n \<le> 0 \<Longrightarrow> base62_loop n r = r"
  "0 < n \<Longrightarrow> base62_loop n r = base62_loop (n div 62) (BASE62 ! nat (n mod 62) # r)"
  by (simp_all add: base62_loop.simps [of n])

lemma base62_loop_append: "base62_loop n r = base62_loop n [] @ r"
proof (induction "nat n" arbitrary: n r rule: less_induct)
  case less
  show ?case
  proof (cases "n \<le> 0")
    case True
    then show ?thesis by (simp add: base62_loop.simps)
  next
    case False
    then have "nat (n div 62) < nat n" by simp
    from less [OF this, of "[BASE62 ! nat (n mod 62)]"] less [OF this, of "BASE62 ! nat (n mod 62) # r"] False
    show ?thesis by (simp add: base62_loop.simps [of n])
  qed
qed

lemma base62_loop_value: "0 \<le> n \<Longrightarrow> BASE62_value (base62_loop n []) = n"
proof (induction "nat n" arbitrary: n rule: less_induct)
  case less
  show ?case
  proof (cases "n = 0")
    case True
    then show ?thesis by (simp add: base62_loop.simps BASE62_value_def)
  next
    case False
    with less.prems have n: "0 < n" by simp
    have ih: "BASE62_value (base62_loop (n div 62) []) = n div 62"
      by (rule less.hyps) (use n in auto)
    have "base62_loop n [] = base62_loop (n div 62) [] @ [BASE62 ! nat (n mod 62)]"
      using n base62_loop_append [of "n div 62" "[BASE62 ! nat (n mod 62)]"] by (simp add: base62_loop.simps [of n])
    moreover have "int (length (takeWhile (\<lambda>x. x \<noteq> BASE62 ! nat (n mod 62)) BASE62)) = n mod 62"
      using BASE62_digit [of "nat (n mod 62)"] by (simp add: nat_less_iff)
    ultimately show ?thesis using ih by (simp add: BASE62_value_def)
  qed
qed

lemma base62Encode_value:
  assumes "0 \<le> n"
  shows "BASE62_value (base62Encode n) = n"
proof (cases "n = 0")
  case True
  have "BASE62_value ''0'' = 0" by (simp add: BASE62_value_def BASE62_def)
  then show ?thesis using True by (simp add: base62Encode_def)
next
  case False
  then show ?thesis using base62_loop_value [OF assms] by (simp add: base62Encode_def)
qed

text \<open>The public handle of a user is as good as the id: reading the handle in base 62 gives
  the id back, so two users never share a handle.\<close>

theorem handles_identify_users:
  assumes "0 \<le> a" and "0 \<le> b"
  shows "BASE62_value (tl (makerHandle a)) = a \<and> (makerHandle a = makerHandle b \<longleftrightarrow> a = b)"
proof -
  have "BASE62_value (tl (makerHandle n)) = n" if "0 \<le> n" for n
    using base62Encode_value [OF that] by (simp add: makerHandle_def)
  then show ?thesis using assms by metis
qed

lemma BASE62_some: "BASE62 ! 61 = CHR ''z''" "BASE62 ! 1 = CHR ''1''" "BASE62 ! 0 = CHR ''0''"
  by (simp_all add: BASE62_def)

lemma handles_identify_users_witness: "makerHandle 61 = ''mz'' \<and> makerHandle 62 = ''m10'' \<and> makerHandle 61 \<noteq> makerHandle 62"
proof -
  have "makerHandle 61 = ''mz''" "makerHandle 62 = ''m10''"
    by (simp_all add: makerHandle_def base62Encode_def base62_loop_steps BASE62_some BASE62_some(2) [simplified])
  moreover have "makerHandle 61 \<noteq> makerHandle 62" using handles_identify_users [of 61 62] by simp
  ultimately show ?thesis by blast
qed

section \<open>Pages of the catalogue\<close>

lemma findPublished_run:
  assumes "findPublished input s = (Inr p, t)"
  shows "t = s" "items p = take (fi_limit input) (published_rows input (agents_listing s))"
    "hasMore p = (fi_limit input < length (published_rows input (agents_listing s)))"
    "nextCursor p = (if hasMore p then Some (l_id (last (items p))) else None)"
    "hasMore p \<Longrightarrow> items p \<noteq> []"
  using assms by (auto simp: findPublished_def run_simps Let_def min_def split: if_splits)

lemma findPublished_returns: "0 < fi_limit input \<Longrightarrow> \<exists>p. findPublished input s = (Inr p, s)"
  by (auto simp: findPublished_def run_simps Let_def)

definition page_match :: "find_published_input \<Rightarrow> listing_row \<Rightarrow> bool" where
  "page_match input l \<longleftrightarrow> on_shelf l \<and> filter_ok (fi_filters input) l \<and>
     (case fi_cursor input of None \<Rightarrow> True | Some c \<Rightarrow> l_id l < c)"

lemma set_published_rows: "set (published_rows input T) = {l \<in> set (rows T). page_match input l}"
  by (auto simp: published_rows_def t_filter_def page_match_def)

lemma sorted_take_drop:
  assumes "sorted (map f xs)" "x \<in> set (take n xs)" "y \<in> set (drop n xs)"
  shows "f x \<le> f y"
proof -
  from assms(1) have "sorted (map f (take n xs) @ map f (drop n xs))"
    by (metis append_take_drop_id map_append)
  then show ?thesis using assms(2,3) by (simp add: sorted_append)
qed

text \<open>A page of the catalogue changes nothing, holds at most the limit of listings, all of
  them published, not deleted and matching the filters and the cursor, in the order asked for;
  a match that is left out comes after everything on the page, and then hasMore is set.\<close>

theorem catalog_page_sound:
  assumes "findPublished input s = (Inr p, t)"
  shows "t = s \<and> length (items p) \<le> fi_limit input
    \<and> sorted (map (page_key (fi_sort input)) (items p))
    \<and> (\<forall>l\<in>set (items p). l \<in> set (rows (agents_listing s)) \<and> page_match input l)
    \<and> (\<forall>l\<in>set (rows (agents_listing s)). page_match input l \<longrightarrow> l \<notin> set (items p) \<longrightarrow>
         hasMore p \<and> (\<forall>m\<in>set (items p). page_key (fi_sort input) m \<le> page_key (fi_sort input) l))"
proof -
  let ?rs = "published_rows input (agents_listing s)" and ?n = "fi_limit input" and ?k = "page_key (fi_sort input)"
  note r = findPublished_run [OF assms]
  have sorted: "sorted (map ?k ?rs)" by (simp add: published_rows_def)
  have left_out: "hasMore p \<and> (\<forall>m\<in>set (items p). ?k m \<le> ?k l)"
    if "l \<in> set (rows (agents_listing s))" "page_match input l" "l \<notin> set (items p)" for l
  proof -
    have "l \<in> set ?rs" using that by (simp add: set_published_rows)
    then have "l \<in> set (drop ?n ?rs)"
      using that(3) r(2) by (metis Un_iff append_take_drop_id set_append)
    then show ?thesis using sorted_take_drop [OF sorted, of _ ?n l] r(2,3) by (auto dest: length_pos_if_in_set)
  qed
  have "sorted (map ?k (items p))"
    using sorted r(2) by (metis sorted_wrt_take take_map)
  moreover have "l \<in> set (rows (agents_listing s)) \<and> page_match input l" if "l \<in> set (items p)" for l
    using that r(2) set_published_rows [of input "agents_listing s"] by (auto dest: in_set_takeD)
  ultimately show ?thesis using r(1,2) left_out by auto
qed

lemma descending_ids:
  assumes wf: "wf_table l_id T"
    and order: "\<And>l m. on_shelf l \<Longrightarrow> on_shelf m \<Longrightarrow> l \<in> set (rows T) \<Longrightarrow> m \<in> set (rows T) \<Longrightarrow>
       l_id l < l_id m \<Longrightarrow> page_key (fi_sort input) m \<le> page_key (fi_sort input) l"
  shows "published_rows input T =
    below l_id (fi_cursor input) (t_filter (\<lambda>l. on_shelf l \<and> filter_ok (fi_filters input) l) T)"
    (is "_ = ?b")
proof -
  let ?k = "page_key (fi_sort input)"
  let ?m = "t_filter (\<lambda>l. on_shelf l \<and> filter_ok (fi_filters input) l) T"
  have m: "set ?m \<subseteq> {l \<in> set (rows T). on_shelf l}" by (auto simp: t_filter_def)
  have b: "set ?b \<subseteq> set ?m" by (auto simp: below_def)
  have "sorted_wrt (<) (map l_id ?m)" by (rule table_pages.ascending [OF wf])
  from below_sorted [OF this] have d: "sorted_wrt (\<lambda>l m. l_id m < l_id l) ?b" .
  have "sorted_wrt (\<lambda>l m. ?k l \<le> ?k m) ?b"
    by (rule sorted_wrt_mono_rel [OF _ d]) (use b m order in blast)
  then have s: "sorted (map ?k ?b)" by (simp add: sorted_map)
  have inj: "inj_on ?k (set ?b)"
  proof (rule inj_onI)
    fix x y assume xy: "x \<in> set ?b" "y \<in> set ?b" "?k x = ?k y"
    then have "l_id x = l_id y" by (auto simp: page_key_def split: sort_order.splits)
    then show "x = y" using xy b m by (intro wf_key_unique [OF wf]) auto
  qed
  show ?thesis unfolding published_rows_def
    by (rule sort_key_inj_key_eq) (use inj s in \<open>auto simp: below_def\<close>)
qed

definition fetch_page :: "find_published_input \<Rightarrow> 'x agents_scheme \<Rightarrow> int option \<Rightarrow> listing_row page" where
  "fetch_page input s c = (case fst (findPublished (input\<lparr>fi_cursor := c\<rparr>) s) of
       Inr p \<Rightarrow> p
     | Inl e \<Rightarrow> \<lparr>items = [], nextCursor = None, hasMore = False\<rparr>)"

text \<open>When the order agrees with the ids (later listings come first), a client that follows
  nextCursor gets every matching listing exactly once, newest first, and needs at most one
  request per listing and one more.\<close>

theorem catalog_walk_complete:
  assumes "wf_table l_id (agents_listing s)" and "0 < fi_limit input"
    and "\<forall>l\<in>set (rows (agents_listing s)). \<forall>m\<in>set (rows (agents_listing s)). on_shelf l \<longrightarrow> on_shelf m \<longrightarrow>
           l_id l < l_id m \<longrightarrow> page_key (fi_sort input) m \<le> page_key (fi_sort input) l"
  shows "walk (length (rows (agents_listing s)) + 1) (fetch_page input s) None =
    Some (rev (filter (\<lambda>l. on_shelf l \<and> filter_ok (fi_filters input) l) (rows (agents_listing s))))"
proof -
  let ?m = "t_filter (\<lambda>l. on_shelf l \<and> filter_ok (fi_filters input) l) (agents_listing s)"
  have "fetch_page input s c = paginate l_id c (fi_limit input) ?m" for c
  proof -
    let ?i = "input\<lparr>fi_cursor := c\<rparr>"
    obtain p where p: "findPublished ?i s = (Inr p, s)" using findPublished_returns [of ?i s] assms(2) by auto
    have rows: "published_rows ?i (agents_listing s) = below l_id c ?m"
      using descending_ids [OF assms(1), of ?i] assms(3) by simp
    note r = findPublished_run [OF p, unfolded rows]
    have "p = paginate l_id c (fi_limit input) ?m"
      using r(2-5) assms(2)
      by (intro page.equality) (auto simp: paginate_items paginate_hasMore paginate_nextCursor last_conv_nth min_def)
    then show ?thesis using p by (simp add: fetch_page_def)
  qed
  then have "fetch_page input s = (\<lambda>c. paginate l_id c (fi_limit input) ?m)" by blast
  then show ?thesis
    using walk_below [OF table_pages.ascending [OF assms(1)] assms(2), where c = None
        and fuel = "length (rows (agents_listing s)) + 1"]
    by (simp add: below_def t_filter_def le_imp_less_Suc)
qed

section \<open>Search\<close>

lemma add_unseen_eq: "distinct acc \<Longrightarrow>
    \<exists>extra. add_unseen acc xs = acc @ extra \<and> distinct (acc @ extra) \<and> set extra \<subseteq> set xs"
proof (induction xs arbitrary: acc)
  case (Cons x xs)
  show ?case
  proof (cases "x \<in> set acc")
    case True
    then show ?thesis using Cons.IH [OF Cons.prems] by auto
  next
    case False
    then have "distinct (acc @ [x])" using Cons.prems by simp
    from Cons.IH [OF this] obtain extra
      where "add_unseen (acc @ [x]) xs = (acc @ [x]) @ extra" "distinct ((acc @ [x]) @ extra)" "set extra \<subseteq> set xs"
      by blast
    then show ?thesis using False by (intro exI [of _ "x # extra"]) auto
  qed
qed simp

lemma add_unseen_fresh: "distinct (acc @ xs) \<Longrightarrow> add_unseen acc xs = acc @ xs"
  by (induction xs arbitrary: acc) auto

lemma distinct_keys: "wf_table k T \<Longrightarrow> distinct (map k (sort_key f (t_filter P T)))"
proof -
  assume "wf_table k T"
  then have "distinct (map k (t_filter P T))" by (rule table_pages.rows_distinct)
  then show ?thesis by (auto simp: distinct_map intro: inj_on_subset)
qed

lemma map_preimage: "set e \<subseteq> f ` A \<Longrightarrow> \<exists>xs. e = map f xs \<and> set xs \<subseteq> A"
proof (induction e)
  case (Cons y e)
  then obtain xs x where "e = map f xs" "set xs \<subseteq> A" "y = f x" "x \<in> A" by auto
  then show ?case by (intro exI [of _ "x # xs"]) simp
qed simp

lemma distinct_map_window:
  "distinct (map f xs) \<Longrightarrow> distinct (map f (take n xs))" "distinct (map f xs) \<Longrightarrow> distinct (map f (drop n xs))"
  by (metis distinct_take take_map) (metis distinct_drop drop_map)

lemma hydrate:
  assumes "wf_table k T" "set ls \<subseteq> set (rows T)"
  shows "List.map_filter (\<lambda>i. t_get k i T) (map k ls) = ls"
  using assms(2) by (induction ls) (auto simp: List.map_filter_simps t_get_self [OF assms(1)])

lemma set_fts_rows: "set (fts_rows tx q f T) = {l \<in> set (rows T). on_shelf l \<and> ts_rank tx q l \<noteq> None \<and> filter_ok f l}"
  by (auto simp: fts_rows_def t_filter_def)

lemma set_ilike_rows: "set (ilike_rows tx q f T) = {l \<in> set (rows T). on_shelf l \<and> ilike_match tx q l \<and> filter_ok f l}"
  by (auto simp: ilike_rows_def t_filter_def)

lemma ordered_ids_rows:
  fixes inp :: search_input
  assumes wf: "wf_table l_id T"
  defines "q \<equiv> sanitizeSearchQuery (si_q inp)"
  shows "\<exists>extra. ordered_ids tx inp T =
        map l_id (take (si_limit inp + 1) (drop (si_offset inp) (fts_rows tx q (si_filters inp) T)) @ extra)
      \<and> distinct (ordered_ids tx inp T) \<and> set extra \<subseteq> set (ilike_rows tx q (si_filters inp) T)"
proof -
  let ?fts = "take (si_limit inp + 1) (drop (si_offset inp) (fts_rows tx q (si_filters inp) T))"
  let ?il = "take (si_limit inp + 1 - length ?fts) (ilike_rows tx q (si_filters inp) T)"
  have d: "distinct (map l_id ?fts)"
    unfolding fts_rows_def by (intro distinct_map_window distinct_keys [OF wf])
  show ?thesis
  proof (cases "length ?fts < FTS_FALLBACK_THRESHOLD")
    case True
    obtain e where e: "add_unseen (map l_id ?fts) (map l_id ?il) = map l_id ?fts @ e"
      "distinct (map l_id ?fts @ e)" "set e \<subseteq> set (map l_id ?il)"
      using add_unseen_eq [OF d] by blast
    then obtain extra where extra: "e = map l_id extra" "set extra \<subseteq> set ?il"
      using map_preimage [of e l_id "set ?il"] by auto
    have "ordered_ids tx inp T = map l_id ?fts @ e"
      using True e(1) unfolding ordered_ids_def q_def [symmetric] Let_def by simp
    moreover have "set extra \<subseteq> set (ilike_rows tx q (si_filters inp) T)"
      using extra(2) set_take_subset by (rule order_trans)
    ultimately show ?thesis using e(2) extra(1) by (intro exI [of _ extra]) simp
  next
    case False
    then show ?thesis
      using d unfolding ordered_ids_def q_def [symmetric] Let_def by (intro exI [of _ "[]"]) simp
  qed
qed

text \<open>A page of search results holds at most the limit of listings, none twice; it starts with
  the ranked matches from the offset on, and every result is on the shelf, passes the filters
  and matches the query by text search or by substring.\<close>

theorem search_results_sound:
  assumes "wf_table l_id (agents_listing s)"
  shows "length (sr_items (searchPublished tx inp s)) \<le> si_limit inp
    \<and> distinct (sr_items (searchPublished tx inp s))
    \<and> (\<exists>extra. sr_items (searchPublished tx inp s) = take (si_limit inp)
          (drop (si_offset inp) (fts_rows tx (sanitizeSearchQuery (si_q inp)) (si_filters inp) (agents_listing s)) @ extra))
    \<and> (\<forall>l\<in>set (sr_items (searchPublished tx inp s)). l \<in> set (rows (agents_listing s)) \<and> on_shelf l \<and> filter_ok (si_filters inp) l
         \<and> (ts_rank tx (sanitizeSearchQuery (si_q inp)) l \<noteq> None \<or> ilike_match tx (sanitizeSearchQuery (si_q inp)) l))"
proof -
  define q where "q = sanitizeSearchQuery (si_q inp)"
  define r where "r = searchPublished tx inp s"
  let ?n = "si_limit inp" and ?T = "agents_listing s"
  let ?all = "fts_rows tx q (si_filters inp) ?T" and ?il = "ilike_rows tx q (si_filters inp) ?T"
  obtain extra where ids: "ordered_ids tx inp ?T = map l_id (take (?n + 1) (drop (si_offset inp) ?all) @ extra)"
    and dist: "distinct (ordered_ids tx inp ?T)" and extra: "set extra \<subseteq> set ?il"
    using ordered_ids_rows [OF assms(1), of tx inp] unfolding q_def by blast
  let ?ls = "take ?n (take (?n + 1) (drop (si_offset inp) ?all) @ extra)"
  have all: "set (take (?n + 1) (drop (si_offset inp) ?all) @ extra) \<subseteq> set ?all \<union> set ?il"
    using extra by (auto dest: in_set_takeD in_set_dropD)
  then have sub: "set ?ls \<subseteq> set ?all \<union> set ?il" by (meson order_trans set_take_subset)
  have rows: "set ?ls \<subseteq> set (rows ?T)" using sub by (auto simp: set_fts_rows set_ilike_rows)
  have page: "(if ?n < length (ordered_ids tx inp ?T) then take ?n (ordered_ids tx inp ?T) else ordered_ids tx inp ?T)
     = map l_id ?ls"
    by (simp add: ids take_map)
  have its: "sr_items r = ?ls"
    using hydrate [OF assms(1) rows] unfolding r_def searchPublished_def Let_def page by auto
  have "distinct (map l_id ?ls)" using dist unfolding ids by (rule distinct_map_window)
  then have "distinct ?ls" unfolding distinct_map by blast
  moreover have "?ls = take ?n (drop (si_offset inp) ?all @ (if ?n < length (drop (si_offset inp) ?all) then [] else extra))"
    by auto
  ultimately show ?thesis using its sub unfolding r_def [symmetric] q_def [symmetric] by (auto simp: set_fts_rows set_ilike_rows)
qed

text \<open>Past the last ranked match, the substring fallback ignores the offset: every further
  page is the same first page of substring matches, with hasMore set and a further offset, so a
  client that follows nextOffset never stops.\<close>

theorem search_never_ends:
  assumes "wf_table l_id (agents_listing s)"
    and "0 < si_limit inp" and "length (fts_rows tx (sanitizeSearchQuery (si_q inp)) (si_filters inp) (agents_listing s)) \<le> si_offset inp"
    and "si_limit inp < length (ilike_rows tx (sanitizeSearchQuery (si_q inp)) (si_filters inp) (agents_listing s))"
  shows "searchPublished tx inp s =
    \<lparr>sr_items = take (si_limit inp) (ilike_rows tx (sanitizeSearchQuery (si_q inp)) (si_filters inp) (agents_listing s)),
     sr_nextOffset = Some (si_offset inp + si_limit inp), sr_hasMore = True\<rparr>"
proof -
  define q where "q = sanitizeSearchQuery (si_q inp)"
  let ?n = "si_limit inp" and ?T = "agents_listing s"
  let ?il = "ilike_rows tx q (si_filters inp) ?T"
  have d: "distinct (map l_id (take (?n + 1) ?il))"
    unfolding ilike_rows_def by (intro distinct_map_window distinct_keys [OF assms(1)])
  have ids: "ordered_ids tx inp ?T = map l_id (take (?n + 1) ?il)"
    using assms(3) d unfolding ordered_ids_def q_def [symmetric] Let_def
    by (simp add: FTS_FALLBACK_THRESHOLD_def add_unseen_fresh)
  have more: "?n < length (ordered_ids tx inp ?T)" using assms(4) by (simp add: ids q_def)
  have page: "take ?n (ordered_ids tx inp ?T) = map l_id (take ?n ?il)" by (simp add: ids take_map min_def)
  have rows: "set (take ?n ?il) \<subseteq> set (rows ?T)" by (auto simp: set_ilike_rows dest!: in_set_takeD)
  have "take ?n ?il \<noteq> []" using assms(2,4) by (cases ?il) (auto simp: q_def)
  then show ?thesis
    using hydrate [OF assms(1) rows] more page unfolding searchPublished_def Let_def q_def by simp
qed

section \<open>Sections\<close>

text \<open>What a section shows, and where it is cached.\<close>

primrec section_value :: "section_route \<Rightarrow> 'x agents_scheme \<Rightarrow> json" where
  "section_value Featured s = cards s (featured_rows s)"
| "section_value BestSellers s = cards s (best_seller_rows s)"
| "section_value NewReleases s = cards s (new_release_rows s)"
| "section_value RecentActivity s = activities s"

primrec section_key :: "section_route \<Rightarrow> string" where
  "section_key Featured = ''agents:section:featured''"
| "section_key BestSellers = ''agents:section:best-sellers''"
| "section_key NewReleases = ''agents:section:new-releases''"
| "section_key RecentActivity = ''agents:section:recent-activity''"

lemma section_value_fun:
  "section_value Featured = (\<lambda>s. cards s (featured_rows s))" "section_value BestSellers = (\<lambda>s. cards s (best_seller_rows s))"
  "section_value NewReleases = (\<lambda>s. cards s (new_release_rows s))" "section_value RecentActivity = activities"
  by (rule ext, simp)+

lemma sections_get_cached: "sections_get k pf = cached_json (pf_now pf) (section_key k) 60 (gets (section_value k))"
  by (cases k) (simp_all add: findFeatured_def findBestSellers_def findNewReleases_def findRecentActivity_def
    getCachedSection_def section_value_fun)

lemma cached_json_miss: "r_lookup now key (redis_store s) = None \<Longrightarrow>
    cached_json now key sec (gets f) s =
      (Inr (f s), redis_store_update (r_put key (RStr (json_text (f s))) (Some (now + sec * 1000))) s)"
  by (simp add: cached_json_def run_simps redis_runs)

lemma cached_json_hit: "r_lookup now key (redis_store s) = Some (RStr (json_text v), e) \<Longrightarrow>
    cached_json now key sec m s = (Inr (reread v), s)"
  by (simp add: cached_json_def run_simps redis_runs json_parse_reread)

text \<open>A section of the home page, once computed, is served from the cache for sixty seconds
  and is computed from the current tables after that.\<close>

theorem section_at_most_a_minute_old:
  assumes "r_lookup (pf_now pf) (section_key k) (redis_store s) = None"
    and "sections_get k pf s = (r, t)"
    and "map_of (redis_store s') (section_key k) = map_of (redis_store t) (section_key k)"
  shows "r = Inr (section_value k s)
    \<and> fst (sections_get k pf' s') = Inr (if pf_now pf' \<le> pf_now pf + 60000 then reread (section_value k s)
         else section_value k s')"
proof -
  have r: "r = Inr (section_value k s)"
    and t: "map_of (redis_store t) (section_key k) =
      Some (RStr (json_text (section_value k s)), Some (pf_now pf + 60000))"
    using assms(2) unfolding sections_get_cached cached_json_miss [OF assms(1)] by auto
  have look: "r_lookup (pf_now pf') (section_key k) (redis_store s') =
      (if pf_now pf' \<le> pf_now pf + 60000
       then Some (RStr (json_text (section_value k s)), Some (pf_now pf + 60000)) else None)"
    by (simp add: r_lookup_map_of assms(3) t r_alive_def)
  show ?thesis
  proof (cases "pf_now pf' \<le> pf_now pf + 60000")
    case True
    then show ?thesis using look r by (simp add: sections_get_cached cached_json_hit)
  next
    case False
    then show ?thesis using look r by (simp add: sections_get_cached cached_json_miss)
  qed
qed

definition no_sections :: "'x sys_scheme \<Rightarrow> bool" where
  "no_sections s \<longleftrightarrow> (\<forall>k. map_of (redis_store s) (section_key k) = None)"

lemma wp_anywhere: "(\<And>x t. Q x t) \<Longrightarrow> (\<And>e t. E e t) \<Longrightarrow> wp m Q E s"
  by (simp add: wp_def split: sum.splits prod.splits)

lemma wp_invalidate: "wp invalidateSectionCaches (\<lambda>_. no_sections) E s"
proof -
  have "no_sections (snd (forEach SECTION_KEYS redis_del s))"
    unfolding no_sections_def
  proof
    show "map_of (redis_store (snd (forEach SECTION_KEYS redis_del s))) (section_key k) = None" for k
      by (cases k) (simp_all add: SECTION_KEYS_def run_simps redis_runs)
  qed
  moreover have "fst (forEach SECTION_KEYS redis_del s) = Inr ()"
    by (simp add: SECTION_KEYS_def run_simps redis_runs)
  ultimately show ?thesis
    by (simp add: invalidateSectionCaches_def wp_tryCatch) (simp add: wp_def prod.case_eq_if)
qed

lemma keeps_no_sections [keeps_intros]:
  "keeps no_sections categories_invalidateCache" "keeps no_sections (listing_audit pf a act i pl ctx)"
  unfolding categories_invalidateCache_def listing_audit_def redis_del_def
  by (intro keeps_intros keeps_modify; simp add: no_sections_def CATEGORIES_CACHE_KEY_def)
     (rule keeps_audit_log, simp add: no_sections_def)

lemma wp_after_invalidate:
  assumes "keeps no_sections m"
  shows "wp (seq invalidateSectionCaches m) (\<lambda>_. no_sections) (\<lambda>_ _. True) s"
  unfolding wp_seq
  by (rule wp_mono [OF wp_invalidate]) (rule wp_mono [OF wp_kept [OF assms]], assumption, simp_all)

text \<open>After a listing is approved, suspended or unsuspended, every section is computed from the
  current tables.\<close>

theorem status_change_refreshes_sections:
  assumes "listing_approve pf i a ctx s = (Inr l, t) \<or> listing_suspend pf i a reason ctx s = (Inr l, t)
    \<or> listing_unsuspend pf i a ctx s = (Inr l, t)"
  shows "fst (sections_get k pf' t) = Inr (section_value k t)"
proof -
  have "wp (listing_approve pf i a ctx) (\<lambda>_. no_sections) (\<lambda>_ _. True) s"
    "wp (listing_suspend pf i a reason ctx) (\<lambda>_. no_sections) (\<lambda>_ _. True) s"
    "wp (listing_unsuspend pf i a ctx) (\<lambda>_. no_sections) (\<lambda>_ _. True) s"
    unfolding listing_approve_def listing_suspend_def listing_unsuspend_def wp_bind wp_seq [of "notify _ _ _ _ _"]
    by (intro wp_anywhere wp_after_invalidate keeps_intros TrueI)+
  then have "no_sections t" using assms by (auto dest: wp_result)
  then show ?thesis
    by (simp add: sections_get_cached cached_json_miss r_lookup_map_of no_sections_def)
qed

section \<open>A small shelf\<close>

text \<open>An old listing with a hundred users and a new one with five.\<close>

definition shelf_listing :: "int \<Rightarrow> string \<Rightarrow> int \<Rightarrow> listing_row" where
  "shelf_listing i slug n = (sample_listing i slug FREE None LS_PUBLISHED)\<lparr>l_totalUsers := n\<rparr>"

definition sample_shelf :: agents where
  "sample_shelf = sample_agents\<lparr>agents_listing :=
     \<lparr>next_id = 3, rows = [shelf_listing 1 ''old'' 100, shelf_listing 2 ''new'' 5]\<rparr>\<rparr>"

definition no_filters :: published_filters where
  "no_filters = \<lparr>ff_categoryId = None, ff_pricingType = None, ff_freeOnly = False, ff_minRating = None\<rparr>"

definition shelf_input :: "sort_order \<Rightarrow> find_published_input" where
  "shelf_input so = \<lparr>fi_filters = no_filters, fi_cursor = None, fi_limit = 1, fi_sort = so\<rparr>"

lemma shelf_simps [simp]:
  "l_id (shelf_listing i slug n) = i" "l_totalUsers (shelf_listing i slug n) = n"
  "l_status (shelf_listing i slug n) = LS_PUBLISHED" "l_deletedAt (shelf_listing i slug n) = None"
  "l_publishedAt (shelf_listing i slug n) = Some 0"
  "agents_listing sample_shelf = \<lparr>next_id = 3, rows = [shelf_listing 1 ''old'' 100, shelf_listing 2 ''new'' 5]\<rparr>"
  "filter_ok no_filters l" "on_shelf (shelf_listing i slug n)"
  "fi_filters (shelf_input so) = no_filters" "fi_cursor (shelf_input so) = None"
  "fi_limit (shelf_input so) = 1" "fi_sort (shelf_input so) = so"
  by (simp_all add: shelf_listing_def sample_shelf_def filter_ok_def no_filters_def on_shelf_def shelf_input_def)

lemma wf_sample_shelf: "wf_table l_id (agents_listing sample_shelf)"
  by (simp add: wf_table_def)

lemma catalog_page_sound_witness:
  "\<exists>p. findPublished (shelf_input NEWEST) sample_shelf = (Inr p, sample_shelf) \<and> length (items p) \<le> 1"
proof -
  obtain p where p: "findPublished (shelf_input NEWEST) sample_shelf = (Inr p, sample_shelf)"
    using findPublished_returns [of "shelf_input NEWEST" sample_shelf] by auto
  then show ?thesis using catalog_page_sound [OF p] by auto
qed

lemma catalog_walk_complete_witness:
  "walk 3 (fetch_page (shelf_input NEWEST) sample_shelf) None =
     Some [shelf_listing 2 ''new'' 5, shelf_listing 1 ''old'' 100]"
  using catalog_walk_complete [OF wf_sample_shelf, of "shelf_input NEWEST"]
  by (simp add: page_key_def desc_nulls_last_def numeral_3_eq_3)

text \<open>Sorted by popularity, the cursor is still an id: the second page asks for ids below the
  id of the most popular listing and is empty, so the newer listing is never shown.\<close>

lemma popular_cursor_loses_listings:
  "walk 3 (fetch_page (shelf_input MOST_INSTALLED) sample_shelf) None = Some [shelf_listing 1 ''old'' 100]
   \<and> shelf_listing 2 ''new'' 5 \<in> set (rows (agents_listing sample_shelf)) \<and> on_shelf (shelf_listing 2 ''new'' 5)"
  by (simp add: fetch_page_def findPublished_def run_simps published_rows_def t_filter_def page_key_def
      desc_nulls_last_def numeral_3_eq_3 Let_def)

definition any_text :: text_search where
  "any_text = \<lparr>ts_rank = (\<lambda>q l. None), ts_ilike = (\<lambda>p x. True)\<rparr>"

definition shelf_query :: "nat \<Rightarrow> search_input" where
  "shelf_query n = \<lparr>si_q = ''ne'', si_filters = no_filters, si_offset = n, si_limit = 1\<rparr>"

lemma shelf_search [simp]:
  "fts_rows any_text q no_filters (agents_listing sample_shelf) = []"
  "ilike_rows any_text q no_filters (agents_listing sample_shelf) = [shelf_listing 1 ''old'' 100, shelf_listing 2 ''new'' 5]"
  "si_filters (shelf_query n) = no_filters" "si_offset (shelf_query n) = n" "si_limit (shelf_query n) = 1"
  by (simp_all add: fts_rows_def ilike_rows_def t_filter_def any_text_def ilike_match_def Let_def shelf_query_def)

lemma search_results_sound_witness:
  "length (sr_items (searchPublished any_text (shelf_query 0) sample_shelf)) \<le> 1"
  using search_results_sound [OF wf_sample_shelf, of any_text "shelf_query 0"] by simp

lemma search_never_ends_witness:
  "\<forall>n. searchPublished any_text (shelf_query n) sample_shelf =
     \<lparr>sr_items = [shelf_listing 1 ''old'' 100], sr_nextOffset = Some (n + 1), sr_hasMore = True\<rparr>"
  using search_never_ends [OF wf_sample_shelf, of "shelf_query n" any_text for n] by (simp add: shelf_search [simplified])

lemma shelf_redis: "redis_store sample_shelf = []"
  by (simp add: sample_shelf_def sample_agents_def sys.defs agents.defs sample_sys_def empty_sys_def)

lemma section_at_most_a_minute_old_witness:
  "fst (sections_get NewReleases sample_platform (snd (sections_get NewReleases sample_platform sample_shelf)))
     = Inr (reread (section_value NewReleases sample_shelf))"
  using section_at_most_a_minute_old [of sample_platform NewReleases sample_shelf _ _
      "snd (sections_get NewReleases sample_platform sample_shelf)" sample_platform]
  by (simp add: prod_eq_iff shelf_redis)

lemma wp_notify_all: "(\<And>t. Q () t) \<Longrightarrow> wp (notify pf u ty pl ch) Q E s"
  using notify_run [of pf u ty pl ch s] by (auto simp: wp_def)

lemma wp_refresh:
  "wp (seq invalidateSectionCaches (seq categories_invalidateCache (seq (listing_audit pf a act i pl ctx) (return x))))
      (\<lambda>_ _. True) (\<lambda>_ _. False) s"
  by (simp add: invalidateSectionCaches_def categories_invalidateCache_def listing_audit_def SECTION_KEYS_def
      redis_del_def wp_eqs)

lemma shelf_listing_fits: "listing_fits (shelf_listing 1 ''old'' 100\<lparr>l_status := st, l_suspensionReason := Some ''reason''\<rparr>)"
  by (simp add: listing_fits_def shelf_listing_def sample_listing_def char_count_def byte_units_def vfits_def)

lemma shelf_fits: "listing_fits (shelf_listing 2 ''new'' 5\<lparr>l_deletedAt := d\<rparr>)"
  by (simp add: listing_fits_def shelf_listing_def sample_listing_def char_count_def byte_units_def vfits_def)

lemma suspend_runs: "\<exists>l t. listing_suspend sample_platform 1 2 ''reason'' no_context sample_shelf = (Inr l, t)"
proof -
  have tx: "wp (suspend_tx sample_platform 1 ''reason'') (\<lambda>_ _. True) (\<lambda>_ _. False) sample_shelf"
    unfolding suspend_tx_def
    by (simp add: wp_eqs t_get_def t_find_def shelf_listing_fits) (rule wp_notify_all, simp)
  have "wp (listing_suspend sample_platform 1 2 ''reason'' no_context) (\<lambda>_ _. True) (\<lambda>_ _. False) sample_shelf"
    unfolding listing_suspend_def wp_bind wp_transaction
    by (rule wp_mono [OF tx]) (rule wp_refresh, simp)
  then show ?thesis by (auto simp: wp_def split: sum.splits prod.splits)
qed

lemma status_change_refreshes_sections_witness:
  "\<exists>l t. listing_suspend sample_platform 1 2 ''reason'' no_context sample_shelf = (Inr l, t) \<and>
     fst (sections_get Featured sample_platform t) = Inr (section_value Featured t)"
  using suspend_runs status_change_refreshes_sections [of sample_platform 1 2 no_context sample_shelf _ _ "''reason''"]
  by blast

text \<open>A soft-deleted listing stays in the sections until they expire.\<close>

lemma deleted_listing_stays_in_section:
  "(let s1 = snd (sections_get NewReleases sample_platform sample_shelf);
        s2 = snd (listing_softDelete sample_platform 2 2 no_context s1)
    in section_value NewReleases s2 \<noteq> section_value NewReleases s1 \<and>
       fst (sections_get NewReleases sample_platform s2) = Inr (reread (section_value NewReleases sample_shelf)))"
proof -
  let ?pf = sample_platform and ?k = "section_key NewReleases" and ?v = "section_value NewReleases sample_shelf"
  define s1 where "s1 = snd (sections_get NewReleases ?pf sample_shelf)"
  define s2 where "s2 = snd (listing_softDelete ?pf 2 2 no_context s1)"
  have s1: "s1 = redis_store_update (r_put ?k (RStr (json_text ?v)) (Some (pf_now ?pf + 60000))) sample_shelf"
    unfolding s1_def sections_get_cached by (simp add: cached_json_miss shelf_redis)
  have "wp (listing_softDelete ?pf 2 2 no_context) (\<lambda>_ t. redis_store t = redis_store s1 \<and>
      agents_settings t = agents_settings s1 \<and>
      rows (agents_listing t) = [shelf_listing 1 ''old'' 100,
        shelf_listing 2 ''new'' 5\<lparr>l_deletedAt := Some (pf_now ?pf), l_updatedAt := pf_now ?pf\<rparr>]) (\<lambda>_ _. False) s1"
    unfolding listing_softDelete_def listing_audit_def
    by (simp add: wp_eqs audit_log_run s1 t_get_def t_find_def shelf_fits t_change_def t_update_def)
  then have s2: "redis_store s2 = redis_store s1" "agents_settings s2 = agents_settings s1"
    "rows (agents_listing s2) = [shelf_listing 1 ''old'' 100,
        shelf_listing 2 ''new'' 5\<lparr>l_deletedAt := Some (pf_now ?pf), l_updatedAt := pf_now ?pf\<rparr>]"
    by (auto simp: wp_def s2_def prod.case_eq_if split: sum.splits prod.splits)
  have lim: "section_limit st_newReleasesItemCount 8 sample_shelf = 8"
    by (simp add: section_limit_def sample_shelf_def sample_agents_def agents.defs sys.defs t_find_def settings_data.defs
        settings_row.defs DEFAULT_AGENTS_SETTINGS_def)
  have "length (new_release_rows s1) = 2"
    using lim by (simp add: new_release_rows_def s1 section_limit_def t_filter_def)
  moreover have "length (new_release_rows s2) = 1"
    using lim by (simp add: new_release_rows_def s2 section_limit_def t_filter_def s1 on_shelf_def)
  ultimately have "section_value NewReleases s2 \<noteq> section_value NewReleases s1"
    by (auto simp: cards_def dest!: map_eq_imp_length_eq)
  moreover have "fst (sections_get NewReleases ?pf s2) = Inr (reread ?v)"
    unfolding sections_get_cached
    by (subst cached_json_hit [where e = "Some (pf_now ?pf + 60000)"])
       (simp_all add: s2(1) s1 r_lookup_map_of r_alive_def)
  ultimately show ?thesis by (simp add: s1_def s2_def Let_def)
qed

section \<open>Search text\<close>

lemma utf16_take_length: "utf16_length (utf16_take n s) \<le> n"
  by (induction n s rule: utf16_take.induct) (auto simp: utf16_length_def)

lemma utf16_take_set: "set (utf16_take n s) \<subseteq> set s"
  by (induction n s rule: utf16_take.induct) auto

lemma collapse_spaces_set: "set (collapse_spaces b s) \<subseteq> insert (CHR '' '') (set s)"
proof (induction b s rule: collapse_spaces.induct)
  case (2 b c s)
  then show ?case by (auto dest: in_set_dropD)
qed simp

lemma trim_set: "set (trim s) \<subseteq> set s"
  by (auto simp: trim_def dest!: set_dropWhileD)

text \<open>The text sent to PostgreSQL has at most 200 UTF-16 units and no NUL character.\<close>

theorem search_text_bounded:
  "utf16_length (sanitizeSearchQuery q) \<le> 200 \<and> CHR 0x00 \<notin> set (sanitizeSearchQuery q)"
proof -
  have "set (sanitizeSearchQuery q) \<subseteq> insert (CHR '' '') (set (filter (\<lambda>c. c \<noteq> CHR 0x00) q))"
    unfolding sanitizeSearchQuery_def
    by (rule order_trans [OF utf16_take_set], rule order_trans [OF trim_set], rule collapse_spaces_set)
  then show ?thesis by (auto simp: sanitizeSearchQuery_def utf16_take_length)
qed

end
