(* ===== verification/Svg.thy ===== *)
theory Svg
  imports Catalog "HOL-Library.Sublist"
begin

text \<open>
  core/files/svg-sanitizer.ts: the seven regular expressions sanitizeSvg applies one after the
  other, each as a function that gives the rest of the text after a match at its start.  The
  expressions are written so that backtracking never helps: a tag ends at its first >, a quoted
  value at the next quote, an unquoted one where its characters end; so each has at most one
  match at a position.  Texts are UTF-8 bytes and the flag i folds ASCII letters.

  The lemmas show that sanitizing only deletes (what remains is a subsequence of the text), and
  that one pass is not enough: deleting a script element can join the pieces of another one.
\<close>

section \<open>Pieces of the regular expressions\<close>

fun ci_prefix :: "string \<Rightarrow> string \<Rightarrow> string option" where
  "ci_prefix [] s = Some s"
| "ci_prefix (p # ps) [] = None"
| "ci_prefix (p # ps) (c # s) = (if lower_char c = p then ci_prefix ps s else None)"

text \<open>\b after a word character.\<close>

definition boundary :: "string \<Rightarrow> bool" where
  "boundary s \<longleftrightarrow> (case s of [] \<Rightarrow> True | c # _ \<Rightarrow> \<not> word_char c)"

text \<open>The characters up to the first q, and q.\<close>

fun after_char :: "char \<Rightarrow> string \<Rightarrow> string option" where
  "after_char q [] = None"
| "after_char q (c # s) = (if c = q then Some s else after_char q s)"

text \<open>\s* and \s.\<close>

function skip_spaces :: "string \<Rightarrow> string" where
  "skip_spaces [] = []"
| "skip_spaces (c # s) =
     (if 0 < space_len (c # s) then skip_spaces (drop (space_len (c # s) - 1) s) else c # s)"
  by pat_completeness auto

termination
  by (relation "measure length") auto

definition one_space :: "string \<Rightarrow> string option" where
  "one_space s = (if 0 < space_len s then Some (drop (space_len s) s) else None)"

definition char_next :: "char \<Rightarrow> string \<Rightarrow> string option" where
  "char_next q s = (case s of [] \<Rightarrow> None | c # r \<Rightarrow> if c = q then Some r else None)"

text \<open>The rest after the longest run of characters other than white space, / and >.\<close>

fun bare_rest :: "string \<Rightarrow> string" where
  "bare_rest [] = []"
| "bare_rest (c # s) = (if 0 < space_len (c # s) \<or> c = CHR ''/'' \<or> c = CHR ''>'' then c # s else bare_rest s)"

text \<open>A quoted value whose content satisfies a test.\<close>

definition quoted :: "(string \<Rightarrow> bool) \<Rightarrow> char \<Rightarrow> string \<Rightarrow> string option" where
  "quoted ok q s = Option.bind (char_next q s) (\<lambda>r.
     if ok (takeWhile (\<lambda>c. c \<noteq> q) r) then after_char q r else None)"

definition bare :: "(string \<Rightarrow> bool) \<Rightarrow> string \<Rightarrow> string option" where
  "bare ok s = (let r = bare_rest s; run = take (length s - length r) s in
     if run \<noteq> [] \<and> ok run then Some r else None)"

definition orElse :: "'a option \<Rightarrow> 'a option \<Rightarrow> 'a option" where
  "orElse a b = (case a of None \<Rightarrow> b | Some x \<Rightarrow> Some x)"

definition DQUOTE :: char where
  "DQUOTE = CHR 0x22"

definition SQUOTE :: char where
  "SQUOTE = CHR 0x27"

section \<open>Tags\<close>

definition tag_open :: "string \<Rightarrow> string \<Rightarrow> string option" where
  "tag_open name s = Option.bind (ci_prefix (CHR ''<'' # name) s) (\<lambda>r. if boundary r then Some r else None)"

definition tag_close :: "string \<Rightarrow> string \<Rightarrow> string option" where
  "tag_close name s = Option.bind (ci_prefix (CHR ''<'' # CHR ''/'' # name) s) (\<lambda>r. char_next (CHR ''>'') (skip_spaces r))"

fun first_close :: "string \<Rightarrow> string \<Rightarrow> string option" where
  "first_close name [] = None"
| "first_close name (c # s) = orElse (tag_close name (c # s)) (first_close name s)"

text \<open>SCRIPT_TAG_RE and FOREIGN_OBJECT_RE.\<close>

definition element_match :: "string \<Rightarrow> string \<Rightarrow> string option" where
  "element_match name s = Option.bind (tag_open name s) (\<lambda>r. Option.bind (after_char (CHR ''>'') r) (first_close name))"

text \<open>SCRIPT_SELFCLOSE_RE and FOREIGN_OBJECT_SELFCLOSE_RE.\<close>

definition selfclose_match :: "string \<Rightarrow> string \<Rightarrow> string option" where
  "selfclose_match name s = Option.bind (tag_open name s) (\<lambda>r.
     let inside = takeWhile (\<lambda>c. c \<noteq> CHR ''>'') r in
     if inside \<noteq> [] \<and> last inside = CHR ''/'' then after_char (CHR ''>'') r else None)"

section \<open>Attributes\<close>

definition equals_sign :: "string \<Rightarrow> string option" where
  "equals_sign s = map_option skip_spaces (char_next (CHR ''='') (skip_spaces s))"

definition letters_rest :: "string \<Rightarrow> string" where
  "letters_rest s = dropWhile (\<lambda>c. CHR ''a'' \<le> lower_char c \<and> lower_char c \<le> CHR ''z'') s"

definition on_handler_match :: "string \<Rightarrow> string option" where
  "on_handler_match s = Option.bind (one_space s) (\<lambda>a. Option.bind (ci_prefix ''on'' a) (\<lambda>b.
     if letters_rest b = b then None
     else Option.bind (equals_sign (letters_rest b)) (\<lambda>v.
       orElse (quoted (\<lambda>_. True) DQUOTE v) (orElse (quoted (\<lambda>_. True) SQUOTE v) (bare (\<lambda>_. True) v)))))"

definition contains_javascript :: "string \<Rightarrow> bool" where
  "contains_javascript v = occurs_in ''javascript:'' (map lower_char v)"

definition attribute_of :: "string list \<Rightarrow> string \<Rightarrow> string option" where
  "attribute_of names s = Option.bind (one_space s) (\<lambda>a.
     Option.bind (foldr (\<lambda>n r. orElse (ci_prefix n a) r) names None) equals_sign)"

definition javascript_url_match :: "string \<Rightarrow> string option" where
  "javascript_url_match s = Option.bind (attribute_of [''href'', ''xlink:href'', ''src''] s) (\<lambda>v.
     orElse (quoted contains_javascript DQUOTE v)
       (orElse (quoted contains_javascript SQUOTE v) (bare contains_javascript v)))"

definition external_scheme :: "string \<Rightarrow> bool" where
  "external_scheme v = list_ex (\<lambda>p. ci_prefix p v \<noteq> None)
     [''data:'', ''http:'', ''https:'', ''file:'', ''ftp:'', ''blob:'']"

definition external_ref_match :: "string \<Rightarrow> string option" where
  "external_ref_match s = Option.bind (attribute_of [''href'', ''xlink:href''] s) (\<lambda>v.
     orElse (quoted external_scheme DQUOTE v) (quoted external_scheme SQUOTE v))"

section \<open>The sanitizer\<close>

text \<open>replace(re, '') with the flag g: every match, from the left.\<close>

definition match_length :: "(string \<Rightarrow> string option) \<Rightarrow> string \<Rightarrow> nat" where
  "match_length m s = (case m s of None \<Rightarrow> 0 | Some r \<Rightarrow> length s - length r)"

function remove_all :: "(string \<Rightarrow> string option) \<Rightarrow> string \<Rightarrow> string" where
  "remove_all m [] = []"
| "remove_all m (c # s) = (if 0 < match_length m (c # s) then remove_all m (drop (match_length m (c # s) - 1) s)
     else c # remove_all m s)"
  by pat_completeness auto

termination
  by (relation "measure (length \<circ> snd)") auto

definition sanitizeSvg :: "string \<Rightarrow> string" where
  "sanitizeSvg input =
     (let a = remove_all (element_match ''script'') input;
          b = remove_all (selfclose_match ''script'') a;
          c = remove_all (element_match ''foreignobject'') b;
          d = remove_all (selfclose_match ''foreignobject'') c;
          e = remove_all on_handler_match d;
          f = remove_all javascript_url_match e
      in remove_all external_ref_match f)"

text \<open>normalizeSvg(s).length: UTF-16 units without white space; lower case changes the length
  of U+0130 only.\<close>

function normalized_length :: "string \<Rightarrow> nat" where
  "normalized_length [] = 0"
| "normalized_length (c # s) =
     (if 0 < space_len (c # s) then normalized_length (drop (space_len (c # s) - 1) s)
      else byte_units c + (if take 2 (c # s) = [CHR 0xC4, CHR 0xB0] then 1 else 0) + normalized_length s)"
  by pat_completeness auto

termination
  by (relation "measure length") auto

text \<open>a < b * 0.9, on lengths.\<close>

definition lost_a_tenth :: "string \<Rightarrow> string \<Rightarrow> bool" where
  "lost_a_tenth sanitized original \<longleftrightarrow> 10 * normalized_length sanitized < 9 * normalized_length original"

section \<open>Sanitizing only deletes\<close>

lemma remove_all_subseq: "subseq (remove_all m s) s"
proof (induction m s rule: remove_all.induct)
  case (2 m c s)
  show ?case
  proof (cases "0 < match_length m (c # s)")
    case True
    let ?n = "match_length m (c # s) - 1"
    have "subseq (remove_all m (drop ?n s)) (drop ?n s)" by (rule 2(1) [OF True])
    moreover have "subseq (drop ?n s) (c # s)"
      using list_emb_append2 [of "(=)" "drop ?n s" "drop ?n s" "c # take ?n s"] by simp
    ultimately have "subseq (remove_all m (drop ?n s)) (c # s)" by (rule subseq_order.trans)
    then show ?thesis using True by simp
  next
    case False
    then show ?thesis using 2(2) by simp
  qed
qed simp

lemma remove_all_id: "(\<And>n. m (drop n s) = None) \<Longrightarrow> remove_all m s = s"
proof (induction s)
  case (Cons c s)
  have "m (c # s) = None" using Cons.prems [of 0] by simp
  moreover have "remove_all m s = s" by (rule Cons.IH) (use Cons.prems [of "Suc n" for n] in simp)
  ultimately show ?case by (simp add: match_length_def)
qed simp

lemma sanitizeSvg_subseq: "subseq (sanitizeSvg s) s"
  unfolding sanitizeSvg_def Let_def
  by (rule subseq_order.trans [OF remove_all_subseq], rule subseq_order.trans [OF remove_all_subseq],
      rule subseq_order.trans [OF remove_all_subseq], rule subseq_order.trans [OF remove_all_subseq],
      rule subseq_order.trans [OF remove_all_subseq], rule subseq_order.trans [OF remove_all_subseq],
      rule remove_all_subseq)

section \<open>One pass is not enough\<close>

lemma space_len_ascii:
  assumes "(of_char c :: nat) < 128"
  shows "space_len (c # s) = (if (9 \<le> (of_char c :: nat) \<and> (of_char c :: nat) \<le> 13) \<or> (of_char c :: nat) = 32 then 1 else 0)"
  using assms by (auto simp: space_len_def js_spaces_def)

lemma lower_char_tag: "c \<noteq> CHR ''<'' \<Longrightarrow> lower_char c \<noteq> CHR ''<''"
  by (auto simp: lower_char_def less_eq_char_def char_of_eq_iff take_bit_eq_mod split: if_splits)

lemma no_tag: "c \<noteq> CHR ''<'' \<Longrightarrow> match_length (element_match n) (c # s) = 0"
  "c \<noteq> CHR ''<'' \<Longrightarrow> match_length (selfclose_match n) (c # s) = 0"
  by (simp_all add: match_length_def element_match_def selfclose_match_def tag_open_def lower_char_tag)

lemma no_tags: "CHR ''<'' \<notin> set p \<Longrightarrow> remove_all (element_match n) (p @ s) = p @ remove_all (element_match n) s"
  "CHR ''<'' \<notin> set p \<Longrightarrow> remove_all (selfclose_match n) (p @ s) = p @ remove_all (selfclose_match n) s"
  by (induction p) (auto simp: no_tag)

lemma no_attribute: "space_len (c # s) = 0 \<Longrightarrow> match_length on_handler_match (c # s) = 0"
  "space_len (c # s) = 0 \<Longrightarrow> match_length javascript_url_match (c # s) = 0"
  "space_len (c # s) = 0 \<Longrightarrow> match_length external_ref_match (c # s) = 0"
  by (simp_all add: match_length_def on_handler_match_def javascript_url_match_def external_ref_match_def
      attribute_of_def one_space_def)

text \<open>Visible ASCII characters.\<close>

definition visible :: "string \<Rightarrow> bool" where
  "visible s \<longleftrightarrow> list_all (\<lambda>c. (of_char c :: nat) < 128 \<and> 32 < (of_char c :: nat)) s"

lemma no_attributes: "visible s \<Longrightarrow>
    remove_all on_handler_match s = s \<and> remove_all javascript_url_match s = s \<and> remove_all external_ref_match s = s"
  unfolding visible_def by (induction s) (auto simp: no_attribute space_len_ascii)

lemma normalized_visible: "visible s \<Longrightarrow> normalized_length s = length s"
  unfolding visible_def by (induction s) (auto simp: space_len_ascii byte_units_def Let_def)

lemmas svg_eval = match_length_def element_match_def selfclose_match_def tag_open_def is_digit_def
  tag_close_def orElse_def char_next_def boundary_def word_char_def lower_char_def space_len_ascii

text \<open>A script element whose pieces surround another one, in an SVG with some text.\<close>

definition hidden_script :: "nat \<Rightarrow> string" where
  "hidden_script n = ''<svg>'' @ replicate n (CHR ''a'') @ ''<scr<script></script>ipt>alert(1)</script></svg>''"

definition shown_script :: "nat \<Rightarrow> string" where
  "shown_script n = ''<svg>'' @ replicate n (CHR ''a'') @ ''<script>alert(1)</script></svg>''"

lemma nested_script_survives: "sanitizeSvg (hidden_script n) = shown_script n"
proof -
  let ?a = "replicate n (CHR ''a'')"
  have a: "CHR ''<'' \<notin> set ?a" by simp
  have "remove_all (element_match ''script'') (hidden_script n) = shown_script n"
    unfolding hidden_script_def shown_script_def
    by (simp add: no_tag no_tags [OF a] svg_eval del: set_replicate_conv_if)
  moreover have "remove_all (selfclose_match ''script'') (shown_script n) = shown_script n"
    "remove_all (element_match ''foreignobject'') (shown_script n) = shown_script n"
    "remove_all (selfclose_match ''foreignobject'') (shown_script n) = shown_script n"
    unfolding shown_script_def
    by (simp_all add: no_tag no_tags [OF a] svg_eval del: set_replicate_conv_if)
  moreover have "visible (shown_script n)" by (simp add: visible_def shown_script_def list_all_iff)
  ultimately show ?thesis using no_attributes [of "shown_script n"] by (simp add: sanitizeSvg_def)
qed

lemma nested_script_not_a_tenth: "200 \<le> n \<Longrightarrow> \<not> lost_a_tenth (sanitizeSvg (hidden_script n)) (hidden_script n)"
proof -
  assume n: "200 \<le> n"
  have "visible (hidden_script n)" "visible (shown_script n)"
    by (simp_all add: visible_def hidden_script_def shown_script_def list_all_iff)
  then show ?thesis using n unfolding lost_a_tenth_def nested_script_survives
    by (simp add: normalized_visible) (simp add: hidden_script_def shown_script_def)
qed

end
