(* ===== verification/Files.thy ===== *)
theory Files
  imports Svg "HOL-Library.AList"
begin

text \<open>
  Uploaded files (core/files): the local file store with its path handling, the allow-lists of
  mime-policy.ts, FilesService and the answers of FilesController.  The state storage adds the
  disk to the tables: the regular files below the storage root by absolute path, with their
  bytes and modification time.  What the packages file-type and mime-types answer, and
  Buffer.toString('utf8'), are arguments (file_env); the digest is the one of the platform.
  I/O errors other than a missing file do not occur, and the file written to the temporary
  directory is renamed within the step.
\<close>

section \<open>State and environment\<close>

record stored_bytes =
  sb_bytes :: string
  sb_mtime :: int

record storage = agents +
  disk :: "(string \<times> stored_bytes) list"

record file_env =
  fe_root :: string
  fe_max_upload_mb :: nat
  fe_sniff :: "string \<Rightarrow> string option"
  fe_extension :: "string \<Rightarrow> string option"
  fe_lookup :: "string \<Rightarrow> string option"
  fe_utf8 :: "string \<Rightarrow> string"

section \<open>Paths\<close>

definition push_part :: "string list \<Rightarrow> string \<Rightarrow> string list" where
  "push_part st p = (if p = [] \<or> p = ''.'' then st else if p = ''..'' then butlast st else st @ [p])"

definition abs_path :: "string list \<Rightarrow> string" where
  "abs_path ps = (if ps = [] then ''/'' else concat (map (\<lambda>p. CHR ''/'' # p) ps))"

text \<open>path.resolve(root, rel) for an absolute root.\<close>

definition path_resolve :: "string \<Rightarrow> string \<Rightarrow> string" where
  "path_resolve dir rel =
     abs_path (foldl push_part [] (split_on (CHR ''/'')
       (if take 1 rel = ''/'' then rel else dir @ ''/'' @ rel)))"

definition has_prefix :: "string \<Rightarrow> string \<Rightarrow> bool" where
  "has_prefix p s \<longleftrightarrow> take (length p) s = p"

definition file_not_found :: exn where
  "file_not_found = http_exn NOT_FOUND 404 ''File not found''"

definition resolveSafe :: "string \<Rightarrow> string \<Rightarrow> ('s, string) M" where
  "resolveSafe dir relPath =
     (if relPath = [] then throw file_not_found
      else let abs = path_resolve dir relPath;
               rootWithSep = (if dir \<noteq> [] \<and> last dir = CHR ''/'' then dir else dir @ ''/'') in
        if abs \<noteq> dir \<and> \<not> has_prefix rootWithSep abs then throw file_not_found else return abs)"

section \<open>The local file store\<close>

record stored_file =
  sf_path :: string
  sf_sha256 :: string
  sf_size :: int
  sf_mimeType :: string

definition lower :: "string \<Rightarrow> string" where
  "lower s = map lower_char s"

definition MIME_EXTENSION_OVERRIDES :: "string \<Rightarrow> string option" where
  "MIME_EXTENSION_OVERRIDES m = (if m = ''image/jpeg'' \<or> m = ''image/jpg'' then Some ''jpg'' else None)"

definition resolveExtension :: "file_env \<Rightarrow> string \<Rightarrow> ('s, string) M" where
  "resolveExtension fe mimeType = (case MIME_EXTENSION_OVERRIDES (lower mimeType) of
       Some e \<Rightarrow> return e
     | None \<Rightarrow> (case fe_extension fe mimeType of
           Some e \<Rightarrow> if e = [] then throw (http_exn VALIDATION_ERROR 415 (''Unsupported MIME type: '' @ mimeType)) else return e
         | None \<Rightarrow> throw (http_exn VALIDATION_ERROR 415 (''Unsupported MIME type: '' @ mimeType))))"

definition buildStoragePath :: "int \<Rightarrow> string \<Rightarrow> string \<Rightarrow> string" where
  "buildStoragePath now sha256 ext = (let (y, m, d) = civil (now div 86400000) in
     ''uploads/'' @ int_to_string y @ ''/'' @ pad_left 2 m @ ''/'' @ pad_left 2 d @ ''/'' @ take 2 sha256 @ ''/'' @
     take 2 (drop 2 sha256) @ ''/'' @ sha256 @ ''.'' @ ext)"

definition disk_file :: "string \<Rightarrow> 'x storage_scheme \<Rightarrow> stored_bytes option" where
  "disk_file p s = map_of (disk s) p"

text \<open>The directories that exist: the ones onModuleInit makes, and the ones above a file.\<close>

definition disk_dir :: "string \<Rightarrow> string \<Rightarrow> 'x storage_scheme \<Rightarrow> bool" where
  "disk_dir dir p s \<longleftrightarrow> p \<in> {dir, dir @ ''/uploads'', dir @ ''/temp''} \<or> list_ex (\<lambda>(q, _). has_prefix (p @ ''/'') q) (disk s)"

definition disk_write :: "string \<Rightarrow> stored_bytes \<Rightarrow> 'x storage_scheme \<Rightarrow> 'x storage_scheme" where
  "disk_write p b s = s\<lparr>disk := AList.update p b (disk s)\<rparr>"

definition store_put :: "file_env \<Rightarrow> platform \<Rightarrow> string \<Rightarrow> string \<Rightarrow> ('x storage_scheme, stored_file) M" where
  "store_put fe pf buffer mimeType =
     (let sha256 = pf_sha256 pf buffer in
      bind (resolveExtension fe mimeType) (\<lambda>ext.
      let relPath = buildStoragePath (pf_now pf) sha256 ext;
          stored = \<lparr>sf_path = relPath, sf_sha256 = sha256, sf_size = int (length buffer), sf_mimeType = mimeType\<rparr> in
      bind (resolveSafe (fe_root fe) relPath) (\<lambda>absPath.
      bind (gets (disk_file absPath)) (\<lambda>existing.
      if (case existing of Some b \<Rightarrow> length (sb_bytes b) = length buffer | None \<Rightarrow> False) then return stored
      else seq (modify (disk_write absPath \<lparr>sb_bytes = buffer, sb_mtime = pf_now pf\<rparr>)) (return stored)))))"

text \<open>createReadStream: reading a directory fails later.\<close>

datatype stream = SBytes string | SBroken

definition store_get :: "file_env \<Rightarrow> string \<Rightarrow> ('x storage_scheme, stream) M" where
  "store_get fe relPath = bind (resolveSafe (fe_root fe) relPath) (\<lambda>abs.
     bind (gets (\<lambda>s. (disk_file abs s, disk_dir (fe_root fe) abs s))) (\<lambda>st. case st of
       (Some b, _) \<Rightarrow> return (SBytes (sb_bytes b))
     | (None, True) \<Rightarrow> return SBroken
     | (None, False) \<Rightarrow> throw file_not_found))"

record file_metadata =
  fm_size :: int
  fm_mimeType :: string
  fm_sha256 :: string
  fm_storedAt :: int

definition basename :: "string \<Rightarrow> string" where
  "basename p = last (split_on (CHR ''/'') p)"

text \<open>The extension after the last dot of a name that does not begin there.\<close>

definition extname1 :: "string \<Rightarrow> string" where
  "extname1 b = (let ps = split_on (CHR ''.'') b in if length ps < 2 \<or> butlast ps = [[]] then [] else last ps)"

definition store_head :: "file_env \<Rightarrow> string \<Rightarrow> ('x storage_scheme, file_metadata option) M" where
  "store_head fe relPath = bind (resolveSafe (fe_root fe) relPath) (\<lambda>abs.
     bind (gets (disk_file abs)) (\<lambda>b. return (map_option (\<lambda>b.
       let base = basename abs; dotted = takeWhile (\<lambda>c. c \<noteq> CHR ''.'') base in
       \<lparr>fm_size = int (length (sb_bytes b)),
        fm_mimeType = (case fe_lookup fe (extname1 base) of Some m \<Rightarrow> m | None \<Rightarrow> ''application/octet-stream''),
        fm_sha256 = (if dotted = [] then base else dotted), fm_storedAt = sb_mtime b\<rparr>) b)))"

definition store_delete :: "string \<Rightarrow> ('s, unit) M" where
  "store_delete relPath = return ()"

section \<open>Which types are accepted\<close>

definition MIME_ALLOWLIST_BY_PURPOSE :: "(string \<times> string list) list" where
  "MIME_ALLOWLIST_BY_PURPOSE =
     [(''avatar'', [''image/jpeg'', ''image/png'', ''image/webp'']), (''document'', [''application/pdf'']),
      (''image'', [''image/jpeg'', ''image/png'', ''image/webp'', ''image/svg+xml'']),
      (''archive'', [''application/zip'']), (''text'', [''text/plain'', ''text/markdown''])]"

definition DEFAULT_PURPOSE :: string where
  "DEFAULT_PURPOSE = ''document''"

text \<open>The operator in also sees the properties every object inherits; looking one of them up
  gives something without an includes method.\<close>

definition inherited_keys :: "string list" where
  "inherited_keys = [''constructor'', ''__defineGetter__'', ''__defineSetter__'', ''hasOwnProperty'', ''__lookupGetter__'',
     ''__lookupSetter__'', ''isPrototypeOf'', ''propertyIsEnumerable'', ''toString'', ''valueOf'', ''__proto__'',
     ''toLocaleString'']"

definition known_purpose :: "string \<Rightarrow> bool" where
  "known_purpose p \<longleftrightarrow> map_of MIME_ALLOWLIST_BY_PURPOSE p \<noteq> None \<or> p \<in> set inherited_keys"

definition isMimeAllowedForPurpose :: "string \<Rightarrow> string \<Rightarrow> ('s, bool) M" where
  "isMimeAllowedForPurpose mime purpose = (case map_of MIME_ALLOWLIST_BY_PURPOSE purpose of
       Some l \<Rightarrow> return (mime \<in> set l)
     | None \<Rightarrow> if purpose \<in> set inherited_keys then throw (JsError ''list.includes is not a function'') else return False)"

text \<open>The part before the first ;, trimmed and in lower case, then the part before the first +.\<close>

definition baseMime :: "string \<Rightarrow> string" where
  "baseMime mime = takeWhile (\<lambda>c. c \<noteq> CHR ''+'') (lower (trim (takeWhile (\<lambda>c. c \<noteq> CHR '';'') mime)))"

definition mimesMatch :: "string \<Rightarrow> string \<Rightarrow> bool" where
  "mimesMatch a b \<longleftrightarrow> baseMime a = baseMime b"

section \<open>FilesService\<close>

record upload_input =
  up_buffer :: string
  up_originalName :: string
  up_claimedMimeType :: string
  up_ownerUserId :: int
  up_purpose :: "string option"
  up_maxSizeMb :: "nat option"

definition looksBinary :: "string \<Rightarrow> bool" where
  "looksBinary buf \<longleftrightarrow> CHR 0x00 \<in> set (take 1024 buf)"

definition looksLikeSvg :: "file_env \<Rightarrow> string \<Rightarrow> bool" where
  "looksLikeSvg fe buf \<longleftrightarrow> (let head = skip_spaces (fe_utf8 fe (take 256 buf)) in
     has_prefix ''<svg'' head \<or> has_prefix ''<?xml'' head)"

definition fallbackMimeFromContent :: "file_env \<Rightarrow> upload_input \<Rightarrow> string" where
  "fallbackMimeFromContent fe inp = (let claim = lower (up_claimedMimeType inp) in
     if claim \<notin> {''text/plain'', ''text/markdown'', ''image/svg+xml''} then ''application/octet-stream''
     else if looksBinary (up_buffer inp) then ''application/octet-stream''
     else if claim = ''image/svg+xml'' \<and> \<not> looksLikeSvg fe (up_buffer inp) then ''application/octet-stream''
     else claim)"

definition sanitize_svg_buffer :: "file_env \<Rightarrow> string \<Rightarrow> ('s, string) M" where
  "sanitize_svg_buffer fe buffer = (let original = fe_utf8 fe buffer; sanitized = sanitizeSvg original in
     if lost_a_tenth sanitized original
     then throw (http_exn SVG_UNSAFE_CONTENT 422 ''SVG contains unsafe content that cannot be sanitized cleanly'')
     else return sanitized)"

definition file_by_sha :: "string \<Rightarrow> 'x sys_scheme \<Rightarrow> file_row option" where
  "file_by_sha sha s = t_find (\<lambda>f. f_sha256 f = sha) (files s)"

definition file_fits :: "file_row \<Rightarrow> bool" where
  "file_fits f \<longleftrightarrow> char_count (f_path f) \<le> 512 \<and> char_count (f_originalName f) \<le> 255 \<and>
     char_count (f_mimeType f) \<le> 120 \<and> char_count (f_sha256 f) \<le> 64"

text \<open>The constraints of the table: lengths, the unique digest, the owner.\<close>

definition file_create :: "(int \<Rightarrow> file_row) \<Rightarrow> ('x sys_scheme, file_row) M" where
  "file_create f = bind (gets (\<lambda>s. (file_by_sha (f_sha256 (f 0)) s, find_user (f_ownerUserId (f 0)) s))) (\<lambda>(same, owner).
     if \<not> file_fits (f 0) then throw (PrismaKnown ''P2000'' JUndefined)
     else if same \<noteq> None then throw (PrismaKnown ''P2002'' (JArr [JStr ''sha256'']))
     else if owner = None then throw (PrismaKnown ''P2003'' JUndefined)
     else create_in files files_update f)"

definition new_file :: "platform \<Rightarrow> upload_input \<Rightarrow> stored_file \<Rightarrow> int \<Rightarrow> file_row" where
  "new_file pf inp st i = \<lparr>f_id = i, f_ownerUserId = up_ownerUserId inp, f_path = sf_path st,
     f_originalName = up_originalName inp, f_mimeType = sf_mimeType st, f_size = sf_size st,
     f_sha256 = sf_sha256 st, f_createdAt = pf_now pf, f_deletedAt = None\<rparr>"

definition file_record :: "platform \<Rightarrow> upload_input \<Rightarrow> stored_file \<Rightarrow> ('x sys_scheme, file_row) M" where
  "file_record pf inp st = tryCatch (file_create (new_file pf inp st)) (\<lambda>err. case err of
       PrismaKnown code _ \<Rightarrow> if code = ''P2002'' then bind (gets (file_by_sha (sf_sha256 st))) (\<lambda>existing. case existing of
             Some f \<Rightarrow> return f
           | None \<Rightarrow> throw err)
         else throw err
     | _ \<Rightarrow> throw err)"

definition detected_mime :: "file_env \<Rightarrow> upload_input \<Rightarrow> string" where
  "detected_mime fe inp = (case fe_sniff fe (up_buffer inp) of Some m \<Rightarrow> m | None \<Rightarrow> fallbackMimeFromContent fe inp)"

definition purpose_of :: "upload_input \<Rightarrow> string" where
  "purpose_of inp = (case up_purpose inp of Some p \<Rightarrow> p | None \<Rightarrow> DEFAULT_PURPOSE)"

definition limit_mb :: "file_env \<Rightarrow> upload_input \<Rightarrow> nat" where
  "limit_mb fe inp = (case up_maxSizeMb inp of Some m \<Rightarrow> m | None \<Rightarrow> fe_max_upload_mb fe)"

definition upload :: "file_env \<Rightarrow> platform \<Rightarrow> upload_input \<Rightarrow> ('x storage_scheme, file_row) M" where
  "upload fe pf inp =
     (let purpose = purpose_of inp; limitMb = limit_mb fe inp; sniffedMime = detected_mime fe inp in
      seq (throwIf (\<not> known_purpose purpose) (http_exn MIME_NOT_ALLOWED 400 (''Unknown upload purpose: '' @ purpose)))
     (seq (throwIf (limitMb * 1024 * 1024 < length (up_buffer inp))
             (http_exn FILE_TOO_LARGE 413 (''File exceeds the '' @ int_to_string (int limitMb) @ '' MB limit'')))
     (seq (throwIf (\<not> mimesMatch sniffedMime (up_claimedMimeType inp))
             (http_exn MIME_MISMATCH 400 (''Claimed MIME type '' @ up_claimedMimeType inp @
                '' does not match detected '' @ sniffedMime)))
     (bind (isMimeAllowedForPurpose sniffedMime purpose) (\<lambda>allowed.
      seq (throwIf (\<not> allowed) (http_exn MIME_NOT_ALLOWED 415
             (''MIME type '' @ sniffedMime @ '' is not allowed for purpose '' @ [SQUOTE] @ purpose @ [SQUOTE])))
     (bind (if sniffedMime = ''image/svg+xml'' then sanitize_svg_buffer fe (up_buffer inp) else return (up_buffer inp))
        (\<lambda>bufferToStore.
      bind (store_put fe pf bufferToStore sniffedMime) (file_record pf inp))))))))"

definition file_findById :: "int \<Rightarrow> int \<Rightarrow> bool \<Rightarrow> ('x sys_scheme, file_row) M" where
  "file_findById i currentUserId allowAdmin = bind (gets (\<lambda>s. t_get f_id i (files s))) (\<lambda>found. case found of
       None \<Rightarrow> throw file_not_found
     | Some f \<Rightarrow> if f_ownerUserId f \<noteq> currentUserId \<and> \<not> allowAdmin then throw file_not_found else return f)"

definition file_softDelete :: "platform \<Rightarrow> int \<Rightarrow> int \<Rightarrow> ('x sys_scheme, file_row) M" where
  "file_softDelete pf i userId = bind (file_findById i userId False) (\<lambda>f.
     if f_deletedAt f \<noteq> None then return f
     else update_in files files_update f_id i (\<lambda>f. f\<lparr>f_deletedAt := Some (pf_now pf)\<rparr>))"

definition ADMIN_READ_ANY_FILE :: string where
  "ADMIN_READ_ANY_FILE = ''admin:read:any_file''"

definition findReadableById :: "int \<Rightarrow> int \<Rightarrow> bool \<Rightarrow> ('x sys_scheme, file_row) M" where
  "findReadableById i currentUserId bypassOwnerCheck =
     bind (gets (\<lambda>s. t_get f_id i (files s))) (\<lambda>found. case found of
       None \<Rightarrow> throw file_not_found
     | Some f \<Rightarrow> let isOwner = (f_ownerUserId f = currentUserId) in
         bind (if isOwner \<or> bypassOwnerCheck then return False
               else userHasPermission currentUserId ADMIN_READ_ANY_FILE) (\<lambda>hasAdminAccess.
         if \<not> isOwner \<and> \<not> hasAdminAccess \<and> \<not> bypassOwnerCheck then throw file_not_found
         else if f_deletedAt f \<noteq> None then throw (http_exn GONE 410 ''File has been deleted'')
         else return f))"

record file_content =
  fd_stream :: stream
  fd_mimeType :: string
  fd_originalName :: string
  fd_size :: int

definition streamForDownload :: "file_env \<Rightarrow> int \<Rightarrow> int \<Rightarrow> bool \<Rightarrow> ('x storage_scheme, file_content) M" where
  "streamForDownload fe i currentUserId bypassOwnerCheck =
     bind (findReadableById i currentUserId bypassOwnerCheck) (\<lambda>f.
     bind (store_get fe (f_path f)) (\<lambda>st.
     return \<lparr>fd_stream = st, fd_mimeType = f_mimeType f, fd_originalName = f_originalName f, fd_size = f_size f\<rparr>))"

section \<open>FilesController\<close>

definition file_parseId :: "string \<Rightarrow> ('s, int) M" where
  "file_parseId raw = (case js_BigInt raw of Some i \<Rightarrow> return i | None \<Rightarrow> throw file_not_found)"

definition upload_response :: "file_row \<Rightarrow> json" where
  "upload_response f = JObj [(''id'', JBig (f_id f)), (''path'', JStr (f_path f)), (''originalName'', JStr (f_originalName f)),
     (''mimeType'', JStr (f_mimeType f)), (''size'', JBig (f_size f)), (''sha256'', JStr (f_sha256 f)),
     (''createdAt'', JStr (toISOString (f_createdAt f)))]"

text \<open>The uploaded part, when there is one: its bytes, name and claimed type.\<close>

definition files_upload :: "file_env \<Rightarrow> platform \<Rightarrow> int \<Rightarrow> (string \<times> string \<times> string) option \<Rightarrow> json \<Rightarrow> ('x storage_scheme, json) M" where
  "files_upload fe pf userId part rawPurpose = (case part of
       None \<Rightarrow> throw (http_exn VALIDATION_ERROR 400 (''Missing '' @ [SQUOTE] @ ''file'' @ [SQUOTE] @ '' field in upload''))
     | Some (buffer, originalname, mimetype) \<Rightarrow>
         bind (upload fe pf \<lparr>up_buffer = buffer, up_originalName = originalname, up_claimedMimeType = mimetype,
            up_ownerUserId = userId,
            up_purpose = (case rawPurpose of JStr p \<Rightarrow> if p = [] then None else Some p | _ \<Rightarrow> None),
            up_maxSizeMb = None\<rparr>) (\<lambda>created. return (upload_response created)))"

definition file_getMetadata :: "string \<Rightarrow> int \<Rightarrow> ('x sys_scheme, json) M" where
  "file_getMetadata raw userId = bind (file_parseId raw) (\<lambda>i. bind (findReadableById i userId False) (\<lambda>f.
     return (JObj [(''id'', JBig (f_id f)), (''ownerUserId'', JBig (f_ownerUserId f)),
       (''originalName'', JStr (f_originalName f)), (''mimeType'', JStr (f_mimeType f)), (''size'', JBig (f_size f)),
       (''sha256'', JStr (f_sha256 f)), (''createdAt'', JStr (toISOString (f_createdAt f)))])))"

definition printable :: "char \<Rightarrow> bool" where
  "printable c \<longleftrightarrow> 0x20 \<le> (of_char c :: nat) \<and> (of_char c :: nat) \<le> 0x7E"

text \<open>Every run of other characters becomes one underscore.\<close>

fun underscore_runs :: "bool \<Rightarrow> string \<Rightarrow> string" where
  "underscore_runs in_run [] = []"
| "underscore_runs in_run (c # s) = (if printable c then c # underscore_runs False s
     else (if in_run then [] else ''_'') @ underscore_runs True s)"

definition ascii_name :: "string \<Rightarrow> string" where
  "ascii_name name = map (\<lambda>c. if c = DQUOTE \<or> c = CHR 0x5C then CHR ''_'' else c) (underscore_runs False name)"

definition formatFilename :: "string \<Rightarrow> string" where
  "formatFilename name = ''filename='' @ [DQUOTE] @ ascii_name name @ [DQUOTE] @ ''; filename*=UTF-8'' @
     [SQUOTE, SQUOTE] @ encodeURIComponent name"

record download_response =
  dl_contentType :: string
  dl_contentLength :: string
  dl_contentDisposition :: string
  dl_body :: stream

definition file_download :: "file_env \<Rightarrow> string \<Rightarrow> string option \<Rightarrow> int \<Rightarrow> ('x storage_scheme, download_response) M" where
  "file_download fe raw inline userId = bind (file_parseId raw) (\<lambda>i.
     bind (streamForDownload fe i userId False) (\<lambda>d.
     return \<lparr>dl_contentType = fd_mimeType d, dl_contentLength = int_to_string (fd_size d),
       dl_contentDisposition = (if inline = Some ''true'' then ''inline'' else ''attachment'') @ ''; '' @
         formatFilename (fd_originalName d),
       dl_body = fd_stream d\<rparr>))"

end
