(* ===== verification/FileSafety.thy ===== *)
theory FileSafety
  imports Files Storefront
begin

text \<open>
  What core/files promises.  The file store opens nothing outside its root; an invariant of the
  disk and the table (every file on disk is named after the digest of its bytes, every row
  points at a file with its digest) is kept by every upload and deletion, so an allowed
  download never fails for want of the bytes; an upload is accepted only within its limits and
  allow-list; a file is read by its owner or an admin only; equal content shares one row; and
  the download header cannot be broken by a file name.  A sample shows that the one-pass SVG
  sanitizer can be used to build a script element.
\<close>

lemma wp_exactly: "wp m (\<lambda>x u. x = a \<and> u = t) (\<lambda>_ _. False) s \<Longrightarrow> m s = (Inr a, t)"
  by (cases "m s"; cases "fst (m s)") (auto simp: wp_def)

section \<open>Paths stay below the storage root\<close>

definition proper_part :: "string \<Rightarrow> bool" where
  "proper_part p \<longleftrightarrow> p \<noteq> [] \<and> p \<noteq> ''.'' \<and> p \<noteq> ''..'' \<and> CHR ''/'' \<notin> set p"

lemma split_on_sep: "split_on q (a @ q # b) = split_on q a @ split_on q b"
proof (induction a)
  case (Cons c a)
  then show ?case by (cases "split_on q a") auto
qed simp

lemma split_on_plain: "q \<notin> set p \<Longrightarrow> split_on q p = [p]"
  by (induction p) auto

lemma split_on_parts: "p \<in> set (split_on q s) \<Longrightarrow> q \<notin> set p"
proof (induction q s arbitrary: p rule: split_on.induct)
  case (2 q c s)
  then show ?case by (cases "split_on q s") (auto split: if_splits)
qed simp

lemma split_abs_path: "list_all proper_part ps \<Longrightarrow> ps \<noteq> [] \<Longrightarrow> split_on (CHR ''/'') (abs_path ps) = [] # ps"
proof (induction ps rule: rev_induct)
  case (snoc p ps)
  have p: "split_on (CHR ''/'') p = [p]" using snoc.prems by (simp add: split_on_plain proper_part_def)
  show ?case
  proof (cases "ps = []")
    case True
    then show ?thesis using p by (simp add: abs_path_def)
  next
    case False
    then have "abs_path (ps @ [p]) = abs_path ps @ CHR ''/'' # p" by (simp add: abs_path_def)
    then show ?thesis using snoc False p by (simp add: split_on_sep)
  qed
qed simp

lemma push_parts_proper: "list_all proper_part st \<Longrightarrow> list_all (\<lambda>p. CHR ''/'' \<notin> set p) ps \<Longrightarrow>
    list_all proper_part (foldl push_part st ps)"
proof (induction ps arbitrary: st)
  case (Cons p ps)
  have "list_all proper_part (push_part st p)"
    using Cons.prems by (auto simp: push_part_def proper_part_def list_all_iff dest: in_set_butlastD)
  then show ?case using Cons by simp
qed simp

lemma path_resolve_parts: "\<exists>ps. list_all proper_part ps \<and> path_resolve d rel = abs_path ps"
  unfolding path_resolve_def
  by (intro exI conjI, rule push_parts_proper) (auto simp: list_all_iff dest: split_on_parts)

lemma abs_path_below:
  assumes "list_all proper_part rs" "list_all proper_part ps" "has_prefix (abs_path rs @ ''/'') (abs_path ps)" "rs \<noteq> []"
  shows "\<exists>cs. ps = rs @ cs \<and> cs \<noteq> []"
proof -
  obtain rest where rest: "abs_path ps = abs_path rs @ CHR ''/'' # rest"
    using assms(3) by (metis append_Cons append_Nil append_assoc append_take_drop_id has_prefix_def)
  have ne: "ps \<noteq> []"
  proof
    assume "ps = []"
    then show False using rest assms(4) by (cases rs) (auto simp: abs_path_def)
  qed
  have "[] # ps = ([] # rs) @ split_on (CHR ''/'') rest"
    using split_abs_path [OF assms(2) ne] split_abs_path [OF assms(1,4)] rest by (simp add: split_on_sep)
  then show ?thesis by auto
qed

text \<open>C11. Whatever path a caller passes (with parent steps, absolute, empty parts), the file store
  opens nothing outside its root: the path it resolves is the root itself or has the parts of
  the root as its first parts.\<close>

theorem no_path_escapes:
  assumes "list_all proper_part rs" and "resolveSafe (abs_path rs) relPath s = (Inr p, t)"
  shows "\<exists>cs. list_all proper_part cs \<and> p = abs_path (rs @ cs)"
proof -
  obtain ps where ps: "list_all proper_part ps" "path_resolve (abs_path rs) relPath = abs_path ps"
    using path_resolve_parts by blast
  show ?thesis
  proof (cases "rs = []")
    case True
    then show ?thesis using assms(2) ps by (auto simp: resolveSafe_def run_simps Let_def split: if_splits)
  next
    case False
    then have last: "last (abs_path rs) \<noteq> CHR ''/''"
      using assms(1) by (cases rs rule: rev_cases) (auto simp: abs_path_def proper_part_def dest: last_in_set)
    have p: "p = abs_path ps" and "p = abs_path rs \<or> has_prefix (abs_path rs @ ''/'') (abs_path ps)"
      using assms(2) ps(2) last by (auto simp: resolveSafe_def run_simps Let_def split: if_splits)
    from this(2) show ?thesis
    proof
      assume "p = abs_path rs"
      then show ?thesis by (intro exI [of _ "[]"]) simp
    next
      assume "has_prefix (abs_path rs @ ''/'') (abs_path ps)"
      then obtain cs where "ps = rs @ cs" using abs_path_below [OF assms(1) ps(1) _ False] by blast
      then show ?thesis using ps(1) p by auto
    qed
  qed
qed

lemma no_path_escapes_witness:
  "\<exists>cs. list_all proper_part cs \<and> ''/data/a'' = abs_path ([''data''] @ cs)"
proof -
  have "resolveSafe (abs_path [''data'']) ''x/../a'' () = (Inr ''/data/a'', ())"
    by (simp add: resolveSafe_def path_resolve_def abs_path_def push_part_def has_prefix_def run_simps)
  then show ?thesis by (intro no_path_escapes [of "[''data'']"]) (simp_all add: proper_part_def)
qed

lemma parent_steps_rejected: "fst (resolveSafe ''/data'' ''../etc/passwd'' s) = Inl file_not_found"
  by (simp add: resolveSafe_def path_resolve_def abs_path_def push_part_def has_prefix_def run_simps)

section \<open>What is stored is what is served\<close>

definition safe_path :: "string \<Rightarrow> string \<Rightarrow> string option" where
  "safe_path d rel = (case fst (resolveSafe d rel ()) of Inr p \<Rightarrow> Some p | Inl _ \<Rightarrow> None)"

lemma wp_resolveSafe [wp_eqs]: "wp (resolveSafe d rel) Q E s =
    (case safe_path d rel of Some p \<Rightarrow> Q p s | None \<Rightarrow> E file_not_found s)"
  by (simp add: resolveSafe_def safe_path_def wp_def run_simps Let_def)

lemma safe_path_resolves: "safe_path d rel = Some p \<Longrightarrow> p = path_resolve d rel \<and> rel \<noteq> []"
  by (auto simp: safe_path_def resolveSafe_def run_simps Let_def split: if_splits)

definition hex_sha :: "string \<Rightarrow> bool" where
  "hex_sha h \<longleftrightarrow> length h = 64 \<and> list_all (\<lambda>c. hex_value c \<noteq> None) h"

lemma hex_sha_chars: "hex_sha h \<Longrightarrow> CHR ''/'' \<notin> set h \<and> CHR ''.'' \<notin> set h \<and> h \<noteq> []"
proof -
  assume h: "hex_sha h"
  have "hex_value (CHR ''/'') = None" "hex_value (CHR ''.'') = None" by (simp_all add: hex_value_def)
  then show ?thesis using h by (auto simp: hex_sha_def list_all_iff)
qed

definition base_sha :: "string \<Rightarrow> string" where
  "base_sha p = takeWhile (\<lambda>c. c \<noteq> CHR ''.'') (basename p)"

lemma basename_abs_path: "list_all proper_part ps \<Longrightarrow> ps \<noteq> [] \<Longrightarrow> basename (abs_path ps) = last ps"
  by (simp add: basename_def split_abs_path)

lemma storage_path_sha:
  assumes "hex_sha h" "CHR ''/'' \<notin> set ext"
  shows "base_sha (path_resolve d (buildStoragePath now h ext)) = h"
proof -
  let ?name = "h @ ''.'' @ ext"
  obtain rel where rel: "buildStoragePath now h ext = ''uploads/'' @ rel @ CHR ''/'' # ?name"
    by (cases "civil (now div 86400000)") (simp add: buildStoragePath_def)
  have name: "proper_part ?name" "CHR ''/'' \<notin> set ?name"
    using hex_sha_chars [OF assms(1)] assms(2) by (cases h; auto simp: proper_part_def)+
  have split: "split_on (CHR ''/'') ((d @ ''/'' @ ''uploads/'' @ rel) @ CHR ''/'' # ?name)
      = split_on (CHR ''/'') (d @ ''/'' @ ''uploads/'' @ rel) @ [?name]" (is "_ = ?xs @ _")
    by (simp only: split_on_sep split_on_plain [OF name(2)])
  have "path_resolve d (buildStoragePath now h ext) = abs_path (push_part (foldl push_part [] ?xs) ?name)"
    using split unfolding path_resolve_def rel by simp
  also have "push_part (foldl push_part [] ?xs) ?name = foldl push_part [] ?xs @ [?name]"
    using name(1) by (auto simp: push_part_def proper_part_def)
  finally have p: "path_resolve d (buildStoragePath now h ext) = abs_path (foldl push_part [] ?xs @ [?name])" .
  have "list_all proper_part (foldl push_part [] ?xs)"
    by (rule push_parts_proper) (auto simp: list_all_iff dest: split_on_parts)
  then have "list_all proper_part (foldl push_part [] ?xs @ [?name])" using name(1) by simp
  from basename_abs_path [OF this] have "basename (path_resolve d (buildStoragePath now h ext)) = ?name"
    unfolding p by simp
  then show ?thesis using hex_sha_chars [OF assms(1)] by (simp add: base_sha_def takeWhile_append)
qed

definition stored :: "file_env \<Rightarrow> (string \<Rightarrow> string) \<Rightarrow> string \<Rightarrow> string \<Rightarrow> 'x storage_scheme \<Rightarrow> bool" where
  "stored fe sha rel h s \<longleftrightarrow> (\<exists>p b. safe_path (fe_root fe) rel = Some p \<and> disk_file p s = Some b \<and> sha (sb_bytes b) = h)"

text \<open>Every file on disk is named after its digest, and every row points at a file with its digest.\<close>

definition storage_ok :: "file_env \<Rightarrow> (string \<Rightarrow> string) \<Rightarrow> 'x storage_scheme \<Rightarrow> bool" where
  "storage_ok fe sha s \<longleftrightarrow> (\<forall>p b. disk_file p s = Some b \<longrightarrow> base_sha p = sha (sb_bytes b)) \<and>
     (\<forall>f\<in>set (rows (files s)). stored fe sha (f_path f) (f_sha256 f) s) \<and> wf_table f_id (files s)"

definition good_names :: "file_env \<Rightarrow> (string \<Rightarrow> string) \<Rightarrow> bool" where
  "good_names fe sha \<longleftrightarrow> (\<forall>x. hex_sha (sha x)) \<and> (\<forall>m e. fe_extension fe m = Some e \<longrightarrow> CHR ''/'' \<notin> set e)"

lemma disk_file_write: "disk_file p (disk_write q b s) = (if p = q then Some b else disk_file p s)"
  by (simp add: disk_file_def disk_write_def update_conv')

lemma files_disk_write [simp]: "files (disk_write q b s) = files s"
  by (simp add: disk_write_def)

lemma stored_write: "stored fe sha rel h s \<Longrightarrow> (\<forall>p b. disk_file p s = Some b \<longrightarrow> base_sha p = sha (sb_bytes b)) \<Longrightarrow>
    base_sha q = sha (sb_bytes c) \<Longrightarrow> stored fe sha rel h (disk_write q c s)"
  unfolding stored_def by (metis disk_file_write option.inject)

lemma wp_resolveExtension: "good_names fe sha \<Longrightarrow>
    wp (resolveExtension fe m) (\<lambda>e t. t = s \<and> CHR ''/'' \<notin> set e) (\<lambda>_ t. t = s) s"
  by (auto simp: resolveExtension_def wp_eqs good_names_def MIME_EXTENSION_OVERRIDES_def split: option.splits)

lemma wp_store_put:
  assumes "storage_ok fe sha s" and good: "good_names fe sha" and "sha = pf_sha256 pf"
  shows "wp (store_put fe pf buffer mime)
    (\<lambda>st t. storage_ok fe sha t \<and> stored fe sha (sf_path st) (sf_sha256 st) t) (\<lambda>_. storage_ok fe sha) s"
proof -
  let ?h = "pf_sha256 pf buffer"
  have hex: "hex_sha ?h" using good assms(3) by (simp add: good_names_def)
  have "wp (bind (resolveSafe (fe_root fe) (buildStoragePath (pf_now pf) ?h ext)) (\<lambda>absPath.
      bind (gets (disk_file absPath)) (\<lambda>existing.
      if (case existing of Some b \<Rightarrow> length (sb_bytes b) = length buffer | None \<Rightarrow> False)
      then return \<lparr>sf_path = buildStoragePath (pf_now pf) ?h ext, sf_sha256 = ?h, sf_size = int (length buffer), sf_mimeType = mime\<rparr>
      else seq (modify (disk_write absPath \<lparr>sb_bytes = buffer, sb_mtime = pf_now pf\<rparr>))
        (return \<lparr>sf_path = buildStoragePath (pf_now pf) ?h ext, sf_sha256 = ?h, sf_size = int (length buffer), sf_mimeType = mime\<rparr>))))
     (\<lambda>st t. storage_ok fe sha t \<and> stored fe sha (sf_path st) (sf_sha256 st) t) (\<lambda>_. storage_ok fe sha) s"
    if ext: "CHR ''/'' \<notin> set ext" for ext
  proof (cases "safe_path (fe_root fe) (buildStoragePath (pf_now pf) ?h ext)")
    case None
    then show ?thesis using assms(1) by (simp add: wp_eqs)
  next
    case (Some p)
    have p: "base_sha p = ?h"
      using safe_path_resolves [OF Some] storage_path_sha [OF hex ext] by simp
    let ?c = "\<lparr>sb_bytes = buffer, sb_mtime = pf_now pf\<rparr>"
    have "storage_ok fe sha (disk_write p ?c s)"
      using assms(1,3) p stored_write [of fe sha _ _ s p ?c] by (auto simp: storage_ok_def disk_file_write)
    moreover have "stored fe sha (buildStoragePath (pf_now pf) ?h ext) ?h (disk_write p ?c s)"
      using Some assms(3) by (simp add: stored_def disk_file_write)
    moreover have "stored fe sha (buildStoragePath (pf_now pf) ?h ext) ?h s" if "disk_file p s = Some b" for b
      using that Some p assms(1) by (auto simp: stored_def storage_ok_def)
    ultimately show ?thesis
      using Some assms(1,3) by (auto simp: wp_eqs split: option.splits)
  qed
  then show ?thesis
    unfolding store_put_def Let_def wp_bind [of "resolveExtension _ _"]
    by (intro wp_mono [OF wp_resolveExtension [OF good]]) (use assms(1) in auto)
qed

lemma wp_file_record:
  assumes "storage_ok fe sha s" "stored fe sha (sf_path st) (sf_sha256 st) s"
  shows "wp (file_record pf inp st) (\<lambda>_. storage_ok fe sha) (\<lambda>_. storage_ok fe sha) s"
proof -
  let ?t = "files_update (t_insert (new_file pf inp st)) s"
  have same: "disk ?t = disk s" by simp
  have "storage_ok fe sha ?t"
    using assms by (auto simp: storage_ok_def stored_def disk_file_def rows_t_insert new_file_def intro!: wf_t_insert)
  then show ?thesis
    using assms(1) by (auto simp: file_record_def file_create_def wp_eqs split: option.splits)
qed

lemma wp_mime_allowed [wp_eqs]: "wp (isMimeAllowedForPurpose m p) Q E s =
    (case map_of MIME_ALLOWLIST_BY_PURPOSE p of Some l \<Rightarrow> Q (m \<in> set l) s
     | None \<Rightarrow> if p \<in> set inherited_keys then E (JsError ''list.includes is not a function'') s else Q False s)"
  by (simp add: isMimeAllowedForPurpose_def wp_eqs split: option.splits)

lemma wp_sanitize_svg [wp_eqs]: "wp (sanitize_svg_buffer fe b) Q E s =
    (if lost_a_tenth (sanitizeSvg (fe_utf8 fe b)) (fe_utf8 fe b)
     then E (http_exn SVG_UNSAFE_CONTENT 422 ''SVG contains unsafe content that cannot be sanitized cleanly'') s
     else Q (sanitizeSvg (fe_utf8 fe b)) s)"
  by (simp add: sanitize_svg_buffer_def wp_eqs Let_def)

text \<open>The checks before anything is written.\<close>

definition upload_accepted :: "file_env \<Rightarrow> upload_input \<Rightarrow> bool" where
  "upload_accepted fe inp \<longleftrightarrow> length (up_buffer inp) \<le> limit_mb fe inp * 1024 * 1024
     \<and> mimesMatch (detected_mime fe inp) (up_claimedMimeType inp)
     \<and> (\<exists>l. map_of MIME_ALLOWLIST_BY_PURPOSE (purpose_of inp) = Some l \<and> detected_mime fe inp \<in> set l)
     \<and> (detected_mime fe inp = ''image/svg+xml'' \<longrightarrow>
          \<not> lost_a_tenth (sanitizeSvg (fe_utf8 fe (up_buffer inp))) (fe_utf8 fe (up_buffer inp)))"

definition stored_buffer :: "file_env \<Rightarrow> upload_input \<Rightarrow> string" where
  "stored_buffer fe inp = (if detected_mime fe inp = ''image/svg+xml'' then sanitizeSvg (fe_utf8 fe (up_buffer inp))
     else up_buffer inp)"

lemma wp_upload:
  assumes "upload_accepted fe inp \<Longrightarrow>
      wp (bind (store_put fe pf (stored_buffer fe inp) (detected_mime fe inp)) (file_record pf inp)) Q E s"
    and "\<And>e. \<not> upload_accepted fe inp \<Longrightarrow> E e s"
  shows "wp (upload fe pf inp) Q E s"
proof (cases "upload_accepted fe inp")
  case True
  note w = assms(1) [OF True]
  then show ?thesis using True
    unfolding upload_def Let_def upload_accepted_def known_purpose_def stored_buffer_def
    by (simp only: wp_eqs) (auto simp: wp_eqs not_less split: option.splits)
next
  case False
  then show ?thesis using assms(2) [OF False]
    unfolding upload_def Let_def upload_accepted_def known_purpose_def
    by (auto simp: wp_eqs not_less split: option.splits)
qed

lemma upload_storage_ok:
  assumes "storage_ok fe sha s" "good_names fe sha" "sha = pf_sha256 pf"
  shows "storage_ok fe sha (snd (upload fe pf inp s))"
proof -
  have "wp (upload fe pf inp) (\<lambda>_. storage_ok fe sha) (\<lambda>_. storage_ok fe sha) s"
    by (rule wp_upload, simp only: wp_bind, rule wp_mono [OF wp_store_put [OF assms]])
       (use wp_file_record assms(1) in auto)
  then show ?thesis by (simp add: wp_same)
qed

datatype file_op =
    FUpload upload_input
  | FSoftDelete int int

fun run_files :: "file_env \<Rightarrow> (platform \<times> file_op) list \<Rightarrow> 'x storage_scheme \<Rightarrow> 'x storage_scheme" where
  "run_files fe [] s = s"
| "run_files fe ((pf, FUpload inp) # ops) s = run_files fe ops (snd (upload fe pf inp s))"
| "run_files fe ((pf, FSoftDelete i u) # ops) s = run_files fe ops (snd (file_softDelete pf i u s))"

lemma softDelete_storage_ok:
  assumes "storage_ok fe sha s"
  shows "storage_ok fe sha (snd (file_softDelete pf i u s))"
proof -
  have "storage_ok fe sha (files_update (t_change f_id i (\<lambda>f. f\<lparr>f_deletedAt := d\<rparr>)) s)" for d
    using assms by (auto simp: storage_ok_def stored_def disk_file_def t_change_def rows_t_update)
  then have "wp (file_softDelete pf i u) (\<lambda>_. storage_ok fe sha) (\<lambda>_. storage_ok fe sha) s"
    using assms by (auto simp: file_softDelete_def file_findById_def wp_eqs split: option.splits)
  then show ?thesis by (simp add: wp_same)
qed

lemma run_files_storage_ok: "storage_ok fe sha s \<Longrightarrow> good_names fe sha \<Longrightarrow>
    list_all (\<lambda>(pf, _). pf_sha256 pf = sha) ops \<Longrightarrow> storage_ok fe sha (run_files fe ops s)"
  by (induction fe ops s rule: run_files.induct) (auto intro!: upload_storage_ok softDelete_storage_ok)

lemma findReadable_run: "findReadableById i u b s = (case t_get f_id i (files s) of
       None \<Rightarrow> (Inl file_not_found, s)
     | Some f \<Rightarrow> if f_ownerUserId f = u \<or> b \<or> holds s u ADMIN_READ_ANY_FILE \<or> holds s u ''super:everything''
         then (if f_deletedAt f = None then (Inr f, s) else (Inl (http_exn GONE 410 ''File has been deleted''), s))
         else (Inl file_not_found, s))"
  by (auto simp: findReadableById_def run_simps userHasPermission_run Let_def split: option.splits)

lemma stored_bytes_served:
  assumes "stored fe sha rel h s"
  shows "\<exists>bytes. store_get fe rel s = (Inr (SBytes bytes), s) \<and> sha bytes = h"
proof -
  obtain p c where p: "safe_path (fe_root fe) rel = Some p" "disk_file p s = Some c" "sha (sb_bytes c) = h"
    using assms unfolding stored_def by blast
  have "wp (store_get fe rel) (\<lambda>x u. x = SBytes (sb_bytes c) \<and> u = s) (\<lambda>_ _. False) s"
    by (simp add: store_get_def wp_eqs p)
  from wp_exactly [OF this] p(3) show ?thesis by blast
qed

section \<open>The contract of a file store\<close>

text \<open>The interface of file-store.interface.ts: what callers of put and get rely on, whatever
  the backend.  e is what put takes from its environment, the time.\<close>

locale file_store =
  fixes fine :: "'s \<Rightarrow> bool"
    and put :: "'e \<Rightarrow> string \<Rightarrow> string \<Rightarrow> ('s, stored_file) M"
    and get :: "string \<Rightarrow> ('s, stream) M"
    and digest :: "string \<Rightarrow> string"
  assumes put_fine: "fine s \<Longrightarrow> fine (snd (put e b m s))"
    and put_get: "fine s \<Longrightarrow> put e b m s = (Inr st, t) \<Longrightarrow>
      \<exists>bytes. get (sf_path st) t = (Inr (SBytes bytes), t) \<and> digest bytes = sf_sha256 st"
    and put_others: "fine s \<Longrightarrow> get p s = (Inr (SBytes x), s) \<Longrightarrow> snd (put e b m s) = t \<Longrightarrow>
      \<exists>y. get p t = (Inr (SBytes y), t) \<and> digest y = digest x"
begin

lemma puts_keep:
  "fine s \<Longrightarrow> get p s = (Inr (SBytes x), s) \<Longrightarrow> t = fold (\<lambda>(e, b, m) s. snd (put e b m s)) ops s \<Longrightarrow>
    fine t \<and> (\<exists>y. get p t = (Inr (SBytes y), t) \<and> digest y = digest x)"
proof (induction ops arbitrary: s x)
  case (Cons op ops)
  obtain e b m where op: "op = (e, b, m)" by (cases op)
  obtain y where y: "get p (snd (put e b m s)) = (Inr (SBytes y), snd (put e b m s))" "digest y = digest x"
    using put_others [OF Cons.prems(1,2) refl] by blast
  show ?case using Cons.IH [OF put_fine [OF Cons.prems(1)] y(1)] Cons.prems(3) y(2) op by simp
qed auto

lemma put_stays:
  assumes "fine s" "put e b m s = (Inr st, u)" "t = fold (\<lambda>(e, b, m) s. snd (put e b m s)) ops u"
  shows "\<exists>bytes. get (sf_path st) t = (Inr (SBytes bytes), t) \<and> digest bytes = sf_sha256 st"
proof -
  have "fine u" using put_fine [OF assms(1), of e b m] assms(2) by simp
  moreover obtain bytes where "get (sf_path st) u = (Inr (SBytes bytes), u)" "digest bytes = sf_sha256 st"
    using put_get [OF assms(1,2)] by blast
  ultimately show ?thesis using puts_keep [OF _ _ assms(3)] by metis
qed

end

lemma store_put_disk:
  assumes "storage_ok fe sha s" "good_names fe sha" "sha = pf_sha256 pf"
  shows "wp (store_put fe pf b m) (\<lambda>_ t. \<forall>p x. disk_file p s = Some x \<longrightarrow> (\<exists>y. disk_file p t = Some y \<and> sha (sb_bytes y) = sha (sb_bytes x)))
     (\<lambda>_ t. t = s) s"
proof -
  let ?h = "pf_sha256 pf b"
  have hex: "hex_sha ?h" using assms(2,3) by (simp add: good_names_def)
  have "\<exists>y. disk_file p (disk_write q \<lparr>sb_bytes = b, sb_mtime = pf_now pf\<rparr> s) = Some y \<and> sha (sb_bytes y) = sha (sb_bytes x)"
    if "CHR ''/'' \<notin> set ext" "safe_path (fe_root fe) (buildStoragePath (pf_now pf) ?h ext) = Some q" "disk_file p s = Some x"
    for ext p q x
  proof -
    have "base_sha q = ?h" using safe_path_resolves [OF that(2)] storage_path_sha [OF hex that(1)] by simp
    moreover have "base_sha p = sha (sb_bytes x)" using assms(1) that(3) by (simp add: storage_ok_def)
    ultimately show ?thesis using that(3) assms(3) by (auto simp: disk_file_write)
  qed
  then show ?thesis
    unfolding store_put_def Let_def wp_bind [of "resolveExtension _ _"]
    by (intro wp_mono [OF wp_resolveExtension [OF assms(2)]]) (auto simp: wp_eqs split: option.splits)
qed

lemma store_get_iff: "store_get fe p s = (Inr (SBytes x), s) \<longleftrightarrow>
    (\<exists>q b. safe_path (fe_root fe) p = Some q \<and> disk_file q s = Some b \<and> x = sb_bytes b)"
proof -
  let ?r = "case safe_path (fe_root fe) p of None \<Rightarrow> (Inl file_not_found, s)
      | Some q \<Rightarrow> (case disk_file q s of Some b \<Rightarrow> (Inr (SBytes (sb_bytes b)), s)
          | None \<Rightarrow> if disk_dir (fe_root fe) q s then (Inr SBroken, s) else (Inl file_not_found, s))"
  have "wp (store_get fe p) (\<lambda>x u. (Inr x, u) = ?r) (\<lambda>e u. (Inl e, u) = ?r) s"
    by (simp add: store_get_def wp_eqs split: option.splits)
  then have "store_get fe p s = ?r"
    by (cases "store_get fe p s"; cases "fst (store_get fe p s)") (simp_all add: wp_def)
  then show ?thesis by (auto split: option.splits)
qed

interpretation local: file_store "\<lambda>s. storage_ok fe (pf_sha256 pf) s \<and> good_names fe (pf_sha256 pf)"
    "\<lambda>now. store_put fe (pf_at now pf)" "store_get fe" "pf_sha256 pf" for fe pf
proof
  have same: "pf_sha256 pf = pf_sha256 (pf_at e pf)" for e by (simp add: pf_at_def)
  show "storage_ok fe (pf_sha256 pf) (snd (store_put fe (pf_at e pf) b m s)) \<and> good_names fe (pf_sha256 pf)"
    if "storage_ok fe (pf_sha256 pf) s \<and> good_names fe (pf_sha256 pf)" for s :: "'a storage_scheme" and e b m
    using that wp_store_put [where fe = fe and s = s and buffer = b and mime = m, OF _ _ same [of e]]
    by (cases "store_put fe (pf_at e pf) b m s"; cases "fst (store_put fe (pf_at e pf) b m s)") (auto simp: wp_def)
  show "\<exists>bytes. store_get fe (sf_path st) t = (Inr (SBytes bytes), t) \<and> pf_sha256 pf bytes = sf_sha256 st"
    if "storage_ok fe (pf_sha256 pf) s \<and> good_names fe (pf_sha256 pf)" "store_put fe (pf_at e pf) b m s = (Inr st, t)"
    for s t :: "'a storage_scheme" and e b m st
    using that wp_store_put [where fe = fe and s = s and buffer = b and mime = m, OF _ _ same [of e]] by (intro stored_bytes_served) (auto simp: wp_def)
  show "\<exists>y. store_get fe p t = (Inr (SBytes y), t) \<and> pf_sha256 pf y = pf_sha256 pf x"
    if "storage_ok fe (pf_sha256 pf) s \<and> good_names fe (pf_sha256 pf)" "store_get fe p s = (Inr (SBytes x), s)"
      "snd (store_put fe (pf_at e pf) b m s) = t" for s t :: "'a storage_scheme" and e b m p x
    using that(1,2,3) store_put_disk [where fe = fe and s = s and b = b and m = m, OF _ _ same [of e]]
    by (cases "store_put fe (pf_at e pf) b m s"; cases "fst (store_put fe (pf_at e pf) b m s)")
       (fastforce simp: wp_def store_get_iff)+
qed

text \<open>A path handed out by put keeps its content, whatever is put later and when.\<close>

lemma stored_path_stays_readable:
  assumes "storage_ok fe (pf_sha256 pf) s" "good_names fe (pf_sha256 pf)"
    and "store_put fe (pf_at now pf) b m s = (Inr st, u)"
    and "t = fold (\<lambda>(e, b, m) s. snd (store_put fe (pf_at e pf) b m s)) ops u"
  shows "\<exists>bytes. store_get fe (sf_path st) t = (Inr (SBytes bytes), t) \<and> pf_sha256 pf bytes = sf_sha256 st"
  by (rule local.put_stays [OF _ assms(3,4)]) (use assms(1,2) in simp)

lemma row_bytes_served: "storage_ok fe sha s \<Longrightarrow> t_get f_id i (files s) = Some f \<Longrightarrow>
    \<exists>bytes. store_get fe (f_path f) s = (Inr (SBytes bytes), s) \<and> sha bytes = f_sha256 f"
  by (rule stored_bytes_served) (auto simp: storage_ok_def dest: t_get_in)

text \<open>C12. However users upload and delete files, from a sound storage on every row's bytes are on
  disk: a download that is allowed serves bytes whose digest is the one in the row, never a
  broken stream and never NOT_FOUND for the bytes of a row.\<close>

theorem stored_content_intact:
  assumes "storage_ok fe sha s" and "good_names fe sha" and "list_all (\<lambda>(pf, _). pf_sha256 pf = sha) ops"
  shows "storage_ok fe sha (run_files fe ops s) \<and>
    (\<forall>i u b f. findReadableById i u b (run_files fe ops s) = (Inr f, run_files fe ops s) \<longrightarrow>
       (\<exists>bytes. streamForDownload fe i u b (run_files fe ops s) =
          (Inr \<lparr>fd_stream = SBytes bytes, fd_mimeType = f_mimeType f, fd_originalName = f_originalName f, fd_size = f_size f\<rparr>,
           run_files fe ops s) \<and> sha bytes = f_sha256 f))"
proof -
  let ?t = "run_files fe ops s"
  have ok: "storage_ok fe sha ?t" by (rule run_files_storage_ok [OF assms])
  have "\<exists>bytes. streamForDownload fe i u b ?t =
      (Inr \<lparr>fd_stream = SBytes bytes, fd_mimeType = f_mimeType f, fd_originalName = f_originalName f, fd_size = f_size f\<rparr>, ?t)
      \<and> sha bytes = f_sha256 f" if r: "findReadableById i u b ?t = (Inr f, ?t)" for i u b f
  proof -
    have "t_get f_id i (files ?t) = Some f"
      using r unfolding findReadable_run by (auto split: option.splits if_splits)
    from row_bytes_served [OF ok this] r show ?thesis by (auto simp: streamForDownload_def run_simps)
  qed
  then show ?thesis using ok by blast
qed

section \<open>What an upload accepts\<close>

text \<open>An upload that succeeds was within the size limit, of a type detected from its bytes that
  agrees with the claimed one and is in the list of its purpose (the restrictive default list
  when none is given); an SVG lost less than a tenth of its text to the sanitizer.  An upload
  that is refused leaves every table and the disk as they were.\<close>

theorem upload_accepts_only:
  "(case upload fe pf inp s of
      (Inr f, t) \<Rightarrow> upload_accepted fe inp
    | (Inl e, t) \<Rightarrow> upload_accepted fe inp \<or> t = s)"
proof -
  have "wp (upload fe pf inp) (\<lambda>_ _. upload_accepted fe inp) (\<lambda>_ t. upload_accepted fe inp \<or> t = s) s"
    by (rule wp_upload) (auto intro!: wp_anywhere)
  then show ?thesis by (simp add: wp_def)
qed

section \<open>Who may read a file\<close>

text \<open>A file is read by its owner and by holders of the admin permission only, and only while it
  is not deleted; everybody else gets the answer they would get if the file did not exist.\<close>

theorem file_access:
  "fst (findReadableById i u False s) = (case t_get f_id i (files s) of
      None \<Rightarrow> Inl file_not_found
    | Some f \<Rightarrow> if f_ownerUserId f = u \<or> holds s u ADMIN_READ_ANY_FILE \<or> holds s u ''super:everything''
        then (if f_deletedAt f = None then Inr f else Inl (http_exn GONE 410 ''File has been deleted''))
        else Inl file_not_found)"
  by (simp add: findReadable_run split: option.splits)

section \<open>One row per content\<close>

lemma wp_store_put_tables:
  "wp (store_put fe pf buffer mime) (\<lambda>st t. sf_sha256 st = pf_sha256 pf buffer \<and> files t = files s \<and> users t = users s)
     (\<lambda>_ _. True) s"
  by (auto simp: store_put_def wp_eqs Let_def resolveExtension_def disk_write_def split: option.splits)

text \<open>Bytes that were stored before, by anyone, give back the first row, deleted or not: no row is
  added, the row keeps its owner, and after a deletion even the owner gets GONE for them.\<close>

theorem duplicate_upload_returns_first:
  assumes "upload fe pf inp s = (Inr f, t)" and "wf_table f_id (files s)"
    and "file_by_sha (pf_sha256 pf (stored_buffer fe inp)) s = Some g"
  shows "f = g \<and> files t = files s \<and>
    fst (findReadableById (f_id f) (f_ownerUserId g) False t) =
      (if f_deletedAt g = None then Inr g else Inl (http_exn GONE 410 ''File has been deleted''))"
proof -
  have rec: "wp (file_record pf inp st) (\<lambda>f u. f = g \<and> files u = files s) (\<lambda>_ _. True) u"
    if "sf_sha256 st = pf_sha256 pf (stored_buffer fe inp) \<and> files u = files s \<and> users u = users s" for st u
    using that assms(3) by (auto simp: file_record_def file_create_def wp_eqs file_by_sha_def new_file_def split: option.splits)
  have w: "wp (upload fe pf inp) (\<lambda>f t. f = g \<and> files t = files s) (\<lambda>_ _. True) s"
    by (rule wp_upload, simp only: wp_bind, rule wp_mono [OF wp_store_put_tables]) (use rec in auto)
  have f: "f = g" "files t = files s" using assms(1) w by (simp_all add: wp_def)
  have "g \<in> set (rows (files s))" using assms(3) by (metis file_by_sha_def t_find_Some)
  then have "t_get f_id (f_id f) (files t) = Some g" using f t_get_self [OF assms(2)] by simp
  then show ?thesis using f by (simp add: file_access)
qed

section \<open>The file name in a download\<close>

fun percent_decode :: "string \<Rightarrow> string" where
  "percent_decode (c # a # b # s) = (if c = CHR ''%'' then
      (case (hex_value a, hex_value b) of (Some h, Some l) \<Rightarrow> char_of (16 * h + l) | _ \<Rightarrow> c) # percent_decode s
    else c # percent_decode (a # b # s))"
| "percent_decode (c # s) = c # percent_decode s"
| "percent_decode [] = []"

lemma hex_value_upper: "d < 16 \<Longrightarrow> hex_value (upper_hex d) = Some d"
  by (simp add: numeral_nat less_Suc_eq) (elim disjE; simp add: hex_value_def upper_hex_def digit_char_def)

lemma percent_decode_plain: "c \<noteq> CHR ''%'' \<Longrightarrow> percent_decode (c # s) = c # percent_decode s"
  by (cases s; cases "tl s") auto

lemma percent_decode_encode: "percent_decode (encodeURIComponent s) = s"
proof (induction s)
  case (Cons c s)
  show ?case
  proof (cases "unreserved c")
    case True
    then have "c \<noteq> CHR ''%''" by (auto simp: unreserved_def is_digit_def lower_char_def SQUOTE_def)
    then show ?thesis using Cons True by (simp add: encodeURIComponent_def percent_decode_plain)
  next
    case False
    have "(of_char c :: nat) < 256" by simp
    then have "(of_char c :: nat) div 16 < 16" by (simp add: less_mult_imp_div_less)
    then have "char_of (16 * (of_char c div 16) + of_char c mod 16 :: nat) = c" by simp
    then show ?thesis using Cons False \<open>(of_char c :: nat) div 16 < 16\<close>
      by (simp add: encodeURIComponent_def hex_value_upper)
  qed
qed (simp add: encodeURIComponent_def)

lemma printable_upper_hex: "d < 16 \<Longrightarrow> printable (upper_hex d)"
  by (simp add: numeral_nat less_Suc_eq) (elim disjE; simp add: printable_def upper_hex_def digit_char_def)

lemma encode_printable: "list_all printable (encodeURIComponent s)"
proof (induction s)
  case (Cons c s)
  have "(of_char c :: nat) < 256" by simp
  then have "(of_char c :: nat) div 16 < 16" by (simp add: less_mult_imp_div_less)
  moreover have "printable c" if "unreserved c"
    using that by (auto simp: unreserved_def is_digit_def lower_char_def printable_def SQUOTE_def less_eq_char_def split: if_splits)
  ultimately show ?case using Cons by (auto simp: encodeURIComponent_def printable_upper_hex) (simp add: printable_def)
qed (simp add: encodeURIComponent_def)

lemma underscore_runs_printable: "list_all printable (underscore_runs b s)"
  by (induction b s rule: underscore_runs.induct) (auto simp: printable_def)

text \<open>Whatever a file is called, the file name in the Content-Disposition header is printable
  ASCII, its quoted form cannot end early, and its encoded form decodes to the name.\<close>

theorem download_filename_safe:
  "list_all printable (formatFilename name) \<and> DQUOTE \<notin> set (ascii_name name) \<and> CHR 0x5C \<notin> set (ascii_name name)
   \<and> percent_decode (encodeURIComponent name) = name"
proof -
  have "list_all printable (ascii_name name)"
    using underscore_runs_printable [of False name] by (auto simp: ascii_name_def list_all_iff printable_def)
  then show ?thesis
    by (auto simp: formatFilename_def encode_printable percent_decode_encode ascii_name_def DQUOTE_def)
       (simp_all add: printable_def DQUOTE_def SQUOTE_def)
qed

section \<open>A sample storage\<close>

definition sample_file_env :: file_env where
  "sample_file_env = \<lparr>fe_root = ''/data'', fe_max_upload_mb = 10, fe_sniff = (\<lambda>_. None),
     fe_extension = (\<lambda>m. Some ''svg''), fe_lookup = (\<lambda>_. Some ''image/svg+xml''), fe_utf8 = (\<lambda>b. b)\<rparr>"

definition sample_sha :: "string \<Rightarrow> string" where
  "sample_sha x = replicate 64 (CHR ''0'')"

definition sample_file_platform :: platform where
  "sample_file_platform = sample_platform\<lparr>pf_sha256 := sample_sha\<rparr>"

definition sample_storage :: storage where
  "sample_storage = agents.extend sample_agents (storage.fields [])"

definition svg_input :: "string \<Rightarrow> int \<Rightarrow> upload_input" where
  "svg_input b u = \<lparr>up_buffer = b, up_originalName = ''a.svg'', up_claimedMimeType = ''image/svg+xml'',
     up_ownerUserId = u, up_purpose = Some ''image'', up_maxSizeMb = None\<rparr>"

lemma sample_storage_simps [simp]:
  "disk sample_storage = []" "files sample_storage = empty_table"
  "find_user 1 sample_storage \<noteq> None" "find_user 2 sample_storage \<noteq> None"
  using sample_market_users
  by (simp_all add: sample_storage_def sample_agents_def storage.defs agents.defs sys.defs sample_sys_def empty_sys_def
      find_user_def)

lemma find_user_disk [simp]: "find_user i (disk_update f s) = find_user i s"
  by (simp add: find_user_def)

lemma sample_file_simps: "fe_utf8 sample_file_env b = b" "up_buffer (svg_input b u) = b"
  "fe_root sample_file_env = ''/data''" "fe_extension sample_file_env m = Some ''svg''"
  by (simp_all add: sample_file_env_def svg_input_def)

lemma sample_good_names: "good_names sample_file_env sample_sha"
  by (simp add: good_names_def sample_file_env_def hex_sha_def sample_sha_def list_all_iff hex_value_def)

lemma sample_storage_ok: "storage_ok sample_file_env sample_sha sample_storage"
  by (simp add: storage_ok_def disk_file_def empty_table_def wf_table_def)

lemma svg_mime: "looksLikeSvg sample_file_env b \<Longrightarrow> \<not> looksBinary b \<Longrightarrow>
    detected_mime sample_file_env (svg_input b u) = ''image/svg+xml''"
  by (simp add: detected_mime_def sample_file_env_def fallbackMimeFromContent_def svg_input_def Let_def
      lower_def lower_char_def)

lemma hidden_script_head: "looksLikeSvg sample_file_env (hidden_script n)" "\<not> looksBinary (hidden_script n)"
proof -
  have "take 256 (hidden_script n) = ''<svg>'' @ take 251 (replicate n (CHR ''a'') @ ''<scr<script></script>ipt>alert(1)</script></svg>'')"
    by (simp add: hidden_script_def)
  then show "looksLikeSvg sample_file_env (hidden_script n)"
    by (simp add: looksLikeSvg_def sample_file_env_def has_prefix_def Let_def space_len_ascii)
  show "\<not> looksBinary (hidden_script n)"
    by (auto simp: looksBinary_def hidden_script_def dest!: in_set_takeD)
qed

lemma hidden_script_accepted: "upload_accepted sample_file_env (svg_input (hidden_script 200) u)"
  "stored_buffer sample_file_env (svg_input (hidden_script 200) u) = shown_script 200"
proof -
  have l: "length (hidden_script 200) \<le> 10 * 1024 * 1024" by (simp add: hidden_script_def)
  have s: "map_of MIME_ALLOWLIST_BY_PURPOSE ''image'' = Some [''image/jpeg'', ''image/png'', ''image/webp'', ''image/svg+xml'']"
    by (simp add: MIME_ALLOWLIST_BY_PURPOSE_def)
  note m = svg_mime [OF hidden_script_head, of 200 u]
  show "upload_accepted sample_file_env (svg_input (hidden_script 200) u)"
    using l s m nested_script_not_a_tenth [of 200] unfolding upload_accepted_def
    by (simp add: limit_mb_def purpose_of_def svg_input_def sample_file_env_def mimesMatch_def)
  show "stored_buffer sample_file_env (svg_input (hidden_script 200) u) = shown_script 200"
    using m by (simp add: stored_buffer_def nested_script_survives sample_file_simps)
qed

definition sample_rel :: string where
  "sample_rel = ''uploads/1970/01/01/00/00/'' @ sample_sha [] @ ''.svg''"

lemma sample_rel: "buildStoragePath (pf_now sample_file_platform) (sample_sha b) ''svg'' = sample_rel"
proof -
  have day: "civil (pf_now sample_file_platform div 86400000) = (1970, 1, 1)"
  proof -
    have "pf_now sample_file_platform div 86400000 = 0"
      by (simp add: sample_file_platform_def sample_platform_def pf_now_def sample_env_def)
    moreover have "civil 0 = (1970, 1, 1)" by code_simp
    ultimately show ?thesis by simp
  qed
  have "int_to_string 1970 = ''1970''" "pad_left 2 1 = ''01''" by code_simp+
  moreover have "sample_sha b = CHR ''0'' # CHR ''0'' # CHR ''0'' # CHR ''0'' # replicate 60 (CHR ''0'')"
    by (simp add: sample_sha_def numeral_nat)
  moreover have "sample_sha b = sample_sha []" by (simp add: sample_sha_def)
  ultimately show ?thesis unfolding buildStoragePath_def day sample_rel_def by simp
qed

lemma push_proper_parts: "list_all proper_part ps \<Longrightarrow> foldl push_part st ps = st @ ps"
  by (induction ps arbitrary: st) (auto simp: push_part_def proper_part_def)

text \<open>A relative path of proper parts resolves below the root.\<close>

lemma proper_path_resolves:
  assumes "list_all proper_part rs" "rs \<noteq> []" "list_all proper_part ps" "ps \<noteq> []"
  shows "safe_path (abs_path rs) (tl (abs_path ps)) = Some (abs_path (rs @ ps))"
proof -
  have ps: "abs_path ps = CHR ''/'' # tl (abs_path ps)" using assms(4) by (cases ps) (auto simp: abs_path_def)
  have app: "abs_path rs @ abs_path ps = abs_path (rs @ ps)" using assms(2,4) by (simp add: abs_path_def)
  obtain p qs where "ps = p # qs" using assms(4) by (cases ps) auto
  moreover have "p \<noteq> [] \<and> hd p \<noteq> CHR ''/''"
    using assms(3) calculation by (cases p) (auto simp: proper_part_def)
  ultimately have rel: "take 1 (tl (abs_path ps)) \<noteq> ''/''" "tl (abs_path ps) \<noteq> []" by (cases p; simp add: abs_path_def)+
  have "split_on (CHR ''/'') (abs_path rs @ ''/'' @ tl (abs_path ps)) = [] # rs @ ps"
    using split_abs_path [of "rs @ ps"] assms app ps by (metis append_Cons append_Nil append_is_Nil_conv list_all_append)
  then have r: "path_resolve (abs_path rs) (tl (abs_path ps)) = abs_path (rs @ ps)"
    using rel(1) assms(1,3) by (simp add: path_resolve_def push_part_def push_proper_parts)
  have "has_prefix (abs_path rs @ ''/'') (abs_path (rs @ ps))"
    using ps app by (metis append_Cons append_Nil append_assoc append_eq_conv_conj has_prefix_def)
  moreover have "last (abs_path rs) \<noteq> CHR ''/''"
    using assms(1,2) by (cases rs rule: rev_cases) (auto simp: abs_path_def proper_part_def dest: last_in_set)
  ultimately show ?thesis using rel(2) r by (simp add: safe_path_def resolveSafe_def run_simps Let_def)
qed

lemma sample_rel_path: "\<exists>p. safe_path ''/data'' sample_rel = Some p"
proof -
  let ?ps = "[''uploads'', ''1970'', ''01'', ''01'', ''00'', ''00'', sample_sha [] @ ''.svg'']"
  have "proper_part (sample_sha [] @ ''.svg'')"
    by (auto simp: proper_part_def sample_sha_def)
  then have "list_all proper_part ?ps" by (simp add: proper_part_def)
  from proper_path_resolves [OF _ _ this, of "[''data'']"]
  have "safe_path (abs_path [''data'']) (tl (abs_path ?ps)) \<noteq> None" by (simp add: proper_part_def)
  then show ?thesis by (simp add: sample_rel_def abs_path_def)
qed

definition sample_path :: string where
  "sample_path = the (safe_path ''/data'' sample_rel)"

definition sample_bytes :: stored_bytes where
  "sample_bytes = \<lparr>sb_bytes = shown_script 200, sb_mtime = pf_now sample_file_platform\<rparr>"

definition sample_stored :: stored_file where
  "sample_stored = \<lparr>sf_path = sample_rel, sf_sha256 = sample_sha [], sf_size = int (length (shown_script 200)),
     sf_mimeType = ''image/svg+xml''\<rparr>"

abbreviation sample_file :: "int \<Rightarrow> file_row" where
  "sample_file \<equiv> new_file sample_file_platform (svg_input (hidden_script 200) 1) sample_stored"

lemma sample_safe_path: "safe_path ''/data'' sample_rel = Some sample_path"
  using sample_rel_path by (auto simp: sample_path_def)

lemma sample_put:
  assumes "disk s = []"
  shows "store_put sample_file_env sample_file_platform (shown_script 200) ''image/svg+xml'' s =
    (Inr sample_stored, disk_write sample_path sample_bytes s)"
proof (rule wp_exactly)
  have "MIME_EXTENSION_OVERRIDES (lower ''image/svg+xml'') = None"
    by (simp add: MIME_EXTENSION_OVERRIDES_def lower_def lower_char_def)
  moreover have "pf_sha256 sample_file_platform b = sample_sha []" for b
    by (simp add: sample_file_platform_def sample_sha_def)
  ultimately show "wp (store_put sample_file_env sample_file_platform (shown_script 200) ''image/svg+xml'')
      (\<lambda>x u. x = sample_stored \<and> u = disk_write sample_path sample_bytes s) (\<lambda>_ _. False) s"
    using assms by (simp add: store_put_def Let_def wp_eqs resolveExtension_def sample_rel sample_file_simps
        sample_safe_path disk_file_def sample_bytes_def sample_stored_def)
qed

lemma sample_file_fits: "file_fits (new_file sample_file_platform (svg_input b u) sample_stored 0)"
  by (simp add: file_fits_def new_file_def sample_stored_def sample_rel_def sample_sha_def svg_input_def char_count_def
      byte_units_def sum_list_replicate)

lemma sample_upload:
  assumes "disk s = []" "file_record sample_file_platform (svg_input (hidden_script 200) u) sample_stored
    (disk_write sample_path sample_bytes s) = (Inr f, t)"
  shows "upload sample_file_env sample_file_platform (svg_input (hidden_script 200) u) s = (Inr f, t)"
  by (rule wp_exactly, rule wp_upload)
     (use sample_put [OF assms(1)] assms(2) hidden_script_accepted svg_mime [OF hidden_script_head, of 200 u]
      in \<open>simp_all add: wp_def run_simps\<close>)

text \<open>C19. An SVG whose script element is split around another one is accepted, and what the server
  stores and serves contains the whole script element: the sanitizer deletes the inner element
  and thereby joins the outer one.\<close>

theorem script_passes_upload:
  "\<exists>f t. upload sample_file_env sample_file_platform (svg_input (hidden_script 200) 1) sample_storage = (Inr f, t) \<and>
     (\<exists>d. streamForDownload sample_file_env (f_id f) 1 False t = (Inr d, t) \<and> fd_stream d = SBytes (shown_script 200))"
proof -
  let ?in = "svg_input (hidden_script 200) 1"
  let ?t = "files_update (t_insert sample_file) (disk_write sample_path sample_bytes sample_storage)"
  have rec: "file_record sample_file_platform ?in sample_stored (disk_write sample_path sample_bytes sample_storage) =
      (Inr (sample_file 1), ?t)"
  proof (rule wp_exactly)
    show "wp (file_record sample_file_platform ?in sample_stored) (\<lambda>x u. x = sample_file 1 \<and> u = ?t) (\<lambda>_ _. False)
        (disk_write sample_path sample_bytes sample_storage)"
      using sample_file_fits by (simp add: file_record_def file_create_def wp_eqs file_by_sha_def t_find_def empty_table_def
          t_new_def disk_write_def new_file_def svg_input_def)
  qed
  define d where "d = \<lparr>fd_stream = SBytes (shown_script 200), fd_mimeType = ''image/svg+xml'',
     fd_originalName = ''a.svg'', fd_size = int (length (shown_script 200))\<rparr>"
  have get: "streamForDownload sample_file_env 1 1 False ?t = (Inr d, ?t)"
  proof (rule wp_exactly)
    show "wp (streamForDownload sample_file_env 1 1 False) (\<lambda>x u. x = d \<and> u = ?t) (\<lambda>_ _. False) ?t"
      by (simp add: d_def streamForDownload_def wp_eqs findReadableById_def Let_def t_get_def t_find_def t_insert_def
          empty_table_def new_file_def svg_input_def store_get_def sample_file_simps sample_stored_def sample_safe_path
          disk_file_def sample_bytes_def disk_write_def)
  qed
  show ?thesis using sample_upload [OF _ rec] get by (auto simp: new_file_def d_def)
qed

lemma stored_content_intact_witness:
  "storage_ok sample_file_env sample_sha
     (run_files sample_file_env [(sample_file_platform, FUpload (svg_input (hidden_script 200) 1)),
        (sample_file_platform, FSoftDelete 1 1)] sample_storage)"
  using stored_content_intact [OF sample_storage_ok sample_good_names,
      of "[(sample_file_platform, FUpload (svg_input (hidden_script 200) 1)), (sample_file_platform, FSoftDelete 1 1)]"]
  by (simp add: sample_file_platform_def del: run_files.simps)

text \<open>User 2 uploads what user 1 uploaded before: the answer is the row of user 1, which user 2
  may not read.\<close>

definition shared_storage :: storage where
  "shared_storage = sample_storage\<lparr>files := \<lparr>next_id = 2, rows = [sample_file 1]\<rparr>\<rparr>"

lemma shared_upload:
  "upload sample_file_env sample_file_platform (svg_input (hidden_script 200) 2) shared_storage =
     (Inr (sample_file 1), disk_write sample_path sample_bytes shared_storage)"
proof (rule sample_upload)
  show "file_record sample_file_platform (svg_input (hidden_script 200) 2) sample_stored
     (disk_write sample_path sample_bytes shared_storage) = (Inr (sample_file 1), disk_write sample_path sample_bytes shared_storage)"
  proof (rule wp_exactly)
    show "wp (file_record sample_file_platform (svg_input (hidden_script 200) 2) sample_stored)
       (\<lambda>x u. x = sample_file 1 \<and> u = disk_write sample_path sample_bytes shared_storage) (\<lambda>_ _. False)
       (disk_write sample_path sample_bytes shared_storage)"
      using sample_file_fits [of _ 2] by (simp add: file_record_def file_create_def wp_eqs file_by_sha_def t_find_def shared_storage_def
          new_file_def)
  qed
qed (simp add: shared_storage_def)

lemma duplicate_upload_returns_first_witness:
  "fst (upload sample_file_env sample_file_platform (svg_input (hidden_script 200) 2) shared_storage) = Inr (sample_file 1) \<and>
   fst (findReadableById 1 1 False (disk_write sample_path sample_bytes shared_storage)) = Inr (sample_file 1)"
proof -
  have "wf_table f_id (files shared_storage)"
    by (simp add: shared_storage_def wf_table_def new_file_def)
  moreover have "file_by_sha (pf_sha256 sample_file_platform (stored_buffer sample_file_env (svg_input (hidden_script 200) 2)))
      shared_storage = Some (sample_file 1)"
    by (simp add: file_by_sha_def t_find_def shared_storage_def new_file_def sample_stored_def sample_sha_def
        sample_file_platform_def)
  ultimately have "fst (findReadableById (f_id (sample_file 1)) (f_ownerUserId (sample_file 1)) False
      (disk_write sample_path sample_bytes shared_storage)) = Inr (sample_file 1)"
    using duplicate_upload_returns_first [OF shared_upload] by (simp add: new_file_def)
  then show ?thesis using shared_upload by (simp add: new_file_def svg_input_def)
qed

lemma duplicate_upload_unreadable:
  "f_ownerUserId g \<noteq> u \<Longrightarrow> \<not> holds s u ADMIN_READ_ANY_FILE \<Longrightarrow> \<not> holds s u ''super:everything'' \<Longrightarrow>
   t_get f_id (f_id g) (files s) = Some g \<Longrightarrow> fst (findReadableById (f_id g) u False s) = Inl file_not_found"
  by (simp add: findReadable_run)

text \<open>An inherited property name as the purpose passes the first check and then makes the server
  throw.\<close>

lemma inherited_purpose_throws:
  "fst (upload sample_file_env sample_file_platform ((svg_input (hidden_script 200) 1)\<lparr>up_purpose := Some ''constructor''\<rparr>)
     sample_storage) = Inl (JsError ''list.includes is not a function'')"
proof -
  let ?in = "(svg_input (hidden_script 200) 1)\<lparr>up_purpose := Some ''constructor''\<rparr>"
  have "detected_mime sample_file_env ?in = detected_mime sample_file_env (svg_input (hidden_script 200) 1)"
  proof -
    have sel: "up_buffer ?in = up_buffer (svg_input (hidden_script 200) 1)"
      "up_claimedMimeType ?in = up_claimedMimeType (svg_input (hidden_script 200) 1)" by simp_all
    show ?thesis unfolding detected_mime_def fallbackMimeFromContent_def sel ..
  qed
  then have m: "detected_mime sample_file_env ?in = ''image/svg+xml''"
    by (simp only: svg_mime [OF hidden_script_head, of 200 1])
  have "wp (upload sample_file_env sample_file_platform ?in) (\<lambda>_ _. False)
      (\<lambda>e _. e = JsError ''list.includes is not a function'') sample_storage"
  proof -
    have in_facts: "up_claimedMimeType ?in = ''image/svg+xml''" "purpose_of ?in = ''constructor''"
      "limit_mb sample_file_env ?in = 10" "length (up_buffer ?in) \<le> 10 * 1024 * 1024"
      by (simp_all add: svg_input_def purpose_of_def limit_mb_def sample_file_env_def hidden_script_def)
    have purpose: "known_purpose ''constructor''" "map_of MIME_ALLOWLIST_BY_PURPOSE ''constructor'' = None"
      "''constructor'' \<in> set inherited_keys"
      by (simp_all add: known_purpose_def inherited_keys_def MIME_ALLOWLIST_BY_PURPOSE_def)
    show ?thesis
      unfolding upload_def Let_def in_facts m using purpose in_facts(4) by (simp add: wp_eqs mimesMatch_def)
  qed
  then show ?thesis by (cases "upload sample_file_env sample_file_platform ?in sample_storage") (auto simp: wp_def split: sum.splits)
qed

end
