(* ===== verification/Library.thy ===== *)
theory Library
  imports FileSafety
begin

text \<open>
  What a buyer owns: modules/agents/services/library.service.ts (the list and the detail of the
  library), download.service.ts (the bundle of an owned listing) and their controllers.  The
  lemmas show that the library holds exactly the listings with a completed purchase, once each,
  latest purchase first; that a detail or a bundle goes to buyers only; that a checkout
  fills the library; and that a buyer of a listing whose bundle is stored downloads bytes with
  the digest of the bundle's row.
\<close>

section \<open>The list\<close>

definition completed_purchases :: "int \<Rightarrow> 'x agents_scheme \<Rightarrow> purchase_row list" where
  "completed_purchases userId s = t_filter (\<lambda>b. b_userId b = userId \<and> b_status b = PU_COMPLETED) (agents_purchase s)"

definition purchase_times :: "int \<Rightarrow> int \<Rightarrow> 'x agents_scheme \<Rightarrow> int list" where
  "purchase_times userId i s =
     map b_createdAt (filter (\<lambda>b. b_listingId b = i) (completed_purchases userId s))"

record library_row =
  lr_listingId :: string
  lr_listingSlug :: string
  lr_listingTitleFa :: string
  lr_pricingType :: pricing_type
  lr_primaryScreenshotUrl :: "string option"
  lr_ownedSince :: string
  lr_latestPurchaseDate :: string
  lr_runsRemaining :: "string option"
  lr_totalRuns :: string

text \<open>MIN and MAX of the times of a group.\<close>

definition earliest :: "int list \<Rightarrow> int" where
  "earliest ts = foldr min ts (hd ts)"

definition latest :: "int list \<Rightarrow> int" where
  "latest ts = foldr max ts (hd ts)"

text \<open>The groups of the query: the listings of the completed purchases, latest purchase first.\<close>

definition owned_listings :: "int \<Rightarrow> 'x agents_scheme \<Rightarrow> listing_row list" where
  "owned_listings userId s = sort_key (\<lambda>l. - latest (purchase_times userId (l_id l) s))
     (List.map_filter (\<lambda>i. t_get l_id i (agents_listing s)) (js_distinct (map b_listingId (completed_purchases userId s))))"

text \<open>The first screenshot of each listing, as the loop collects it.\<close>

definition findPrimaryScreenshots :: "int list \<Rightarrow> 'x agents_scheme \<Rightarrow> int \<rightharpoonup> string" where
  "findPrimaryScreenshots ids s = foldl (\<lambda>m x. if m (sh_listingId x) = None then m(sh_listingId x \<mapsto> file_url (sh_fileId x)) else m)
     Map.empty (sort_key (\<lambda>x. (sh_listingId x, sh_order x)) (t_filter (\<lambda>x. sh_listingId x \<in> set ids) (agents_screenshot s)))"

definition library_row_of :: "int \<Rightarrow> (int \<rightharpoonup> string) \<Rightarrow> 'x agents_scheme \<Rightarrow> listing_row \<Rightarrow> library_row" where
  "library_row_of userId shots s l = (let ts = purchase_times userId (l_id l) s; runs = user_runs_of userId (l_id l) s in
     \<lparr>lr_listingId = int_to_string (l_id l), lr_listingSlug = l_slug l, lr_listingTitleFa = l_titleFa l,
      lr_pricingType = l_pricingType l, lr_primaryScreenshotUrl = shots (l_id l),
      lr_ownedSince = toISOString (earliest ts), lr_latestPurchaseDate = toISOString (latest ts),
      lr_runsRemaining = (if l_pricingType l = PER_RUN then map_option (int_to_string \<circ> ru_remainingRuns) runs else None),
      lr_totalRuns = int_to_string (case runs of Some r \<Rightarrow> ru_totalGranted r | None \<Rightarrow> 0)\<rparr>)"

definition findForUser :: "int \<Rightarrow> 'x agents_scheme \<Rightarrow> library_row list" where
  "findForUser userId s = (let ls = owned_listings userId s in
     map (library_row_of userId (findPrimaryScreenshots (map l_id ls) s) s) ls)"

section \<open>The detail\<close>

primrec purchase_status_string :: "purchase_status \<Rightarrow> string" where
  "purchase_status_string PU_COMPLETED = ''COMPLETED''"
| "purchase_status_string PU_REFUNDED = ''REFUNDED''"

text \<open>Commission and maker earnings are not shown.\<close>

definition purchase_history_json :: "purchase_row \<Rightarrow> json" where
  "purchase_history_json p = JObj [(''purchaseId'', JStr (int_to_string (b_id p))),
     (''pricingTypeAtSale'', JStr (pricing_string (b_pricingTypeAtSale p))),
     (''amountToman'', JStr (int_to_string (b_amountToman p))), (''runsGranted'', JStr (int_to_string (b_runsGranted p))),
     (''runPackId'', json_big (b_runPackId p)), (''status'', JStr (purchase_status_string (b_status p))),
     (''createdAt'', JStr (toISOString (b_createdAt p))), (''refundedAt'', json_iso (b_refundedAt p))]"

definition library_detail_json :: "int \<Rightarrow> purchase_row list \<Rightarrow> listing_row \<Rightarrow> 'x agents_scheme \<Rightarrow> json" where
  "library_detail_json userId purchases l s = (let runs = user_runs_of userId (l_id l) s; perRun = (l_pricingType l = PER_RUN) in
     JObj [(''listingId'', JStr (int_to_string (l_id l))), (''listingSlug'', JStr (l_slug l)),
      (''listingTitleFa'', JStr (l_titleFa l)), (''shortDescFa'', JStr (l_shortDescFa l)),
      (''installInstructionsFaMd'', json_opt (l_installInstructionsFaMd l)),
      (''categoryNameFa'', JStr (case category_of l s of Some g \<Rightarrow> g_nameFa g | None \<Rightarrow> [])),
      (''pricingType'', JStr (pricing_string (l_pricingType l))),
      (''primaryScreenshotUrl'', case screenshots_of (l_id l) s of [] \<Rightarrow> JNull | x # _ \<Rightarrow> JStr (file_url (sh_fileId x))),
      (''ownedSince'', JStr (toISOString (b_createdAt (hd purchases)))),
      (''latestPurchaseDate'', JStr (toISOString (b_createdAt (last purchases)))),
      (''runsRemaining'', if perRun then JStr (int_to_string (case runs of Some r \<Rightarrow> ru_remainingRuns r | None \<Rightarrow> 0)) else JNull),
      (''totalRuns'', JStr (int_to_string (case runs of Some r \<Rightarrow> ru_totalGranted r | None \<Rightarrow> 0))),
      (''totalConsumed'', if perRun then JStr (int_to_string (case runs of Some r \<Rightarrow> ru_totalConsumed r | None \<Rightarrow> 0)) else JNull),
      (''bundleFileId'', json_big (l_bundleFileId l)), (''purchases'', JArr (map purchase_history_json purchases))])"

definition findDetailForUser :: "int \<Rightarrow> int \<Rightarrow> ('x agents_scheme, json) M" where
  "findDetailForUser userId listingId =
     bind (gets (\<lambda>s. sort_key b_createdAt (filter (\<lambda>b. b_listingId b = listingId) (completed_purchases userId s)))) (\<lambda>purchases.
     if purchases = [] then throw (http_exn NOT_FOUND 404 ''You do not own this listing'')
     else bind (gets (listing_live listingId)) (\<lambda>listing. case listing of
         None \<Rightarrow> throw listingNotFound
       | Some l \<Rightarrow> gets (library_detail_json userId purchases l)))"

section \<open>The bundle\<close>

record bundle_download =
  bd_stream :: stream
  bd_mimeType :: string
  bd_size :: int
  bd_filenameHint :: string
  bd_originalName :: string

definition streamBundleForOwner :: "file_env \<Rightarrow> int \<Rightarrow> int \<Rightarrow> ('x storage_scheme, bundle_download) M" where
  "streamBundleForOwner fe userId listingId = bind (gets (owned userId listingId)) (\<lambda>ownership.
     if \<not> ownership then throw (http_exn ACCESS_DENIED_NOT_OWNER 403 ''You do not own this listing'')
     else bind (gets (listing_live listingId)) (\<lambda>listing. case listing of
         None \<Rightarrow> throw listingNotFound
       | Some l \<Rightarrow> (case l_bundleFileId l of
             None \<Rightarrow> throw (http_exn BUNDLE_NOT_AVAILABLE 404 ''This listing does not have a downloadable bundle'')
           | Some f \<Rightarrow> bind (streamForDownload fe f userId True) (\<lambda>d.
               return \<lparr>bd_stream = fd_stream d, bd_mimeType = fd_mimeType d, bd_size = fd_size d,
                 bd_filenameHint = l_slug l @ ''.zip'', bd_originalName = fd_originalName d\<rparr>))))"

section \<open>Controllers\<close>

definition parseBigIntParam :: "string \<Rightarrow> string \<Rightarrow> ('s, int) M" where
  "parseBigIntParam name raw = (case js_BigInt raw of
       Some i \<Rightarrow> return i
     | None \<Rightarrow> throw (http_exn VALIDATION_ERROR 400 (''Invalid '' @ name)))"

definition library_detail :: "int \<Rightarrow> string \<Rightarrow> ('x agents_scheme, json) M" where
  "library_detail userId raw = bind (parseBigIntParam ''listingId'' raw) (\<lambda>i. findDetailForUser userId i)"

definition bundle_response :: "file_env \<Rightarrow> int \<Rightarrow> string \<Rightarrow> ('x storage_scheme, download_response) M" where
  "bundle_response fe userId raw = bind (parseBigIntParam ''listingId'' raw) (\<lambda>i.
     bind (streamBundleForOwner fe userId i) (\<lambda>d.
     return \<lparr>dl_contentType = bd_mimeType d, dl_contentLength = int_to_string (bd_size d),
       dl_contentDisposition = ''attachment; '' @ formatFilename (bd_filenameHint d), dl_body = bd_stream d\<rparr>))"

section \<open>The library is what was bought\<close>

lemma set_js_distinct [simp]: "set (js_distinct xs) = set xs"
  by (simp add: js_distinct_def)

lemma distinct_js_distinct [simp]: "distinct (js_distinct xs)"
  by (simp add: js_distinct_def)

lemma foldr_max: "foldr max ts a = Max (insert a (set ts))"
proof (induction ts)
  case (Cons x ts)
  have "Max (insert a (set (x # ts))) = Max (insert x (insert a (set ts)))" by (simp add: insert_commute)
  also have "\<dots> = max x (Max (insert a (set ts)))" by (rule Max_insert) simp_all
  finally show ?case using Cons by simp
qed simp

lemma latest_Max: "ts \<noteq> [] \<Longrightarrow> latest ts = Max (set ts)"
  unfolding latest_def foldr_max by (rule arg_cong [of _ _ Max]) auto

lemma owned_purchases: "owned u i s \<longleftrightarrow> i \<in> set (map b_listingId (completed_purchases u s))"
  by (auto simp: owned_def t_exists_def list_ex_iff completed_purchases_def t_filter_def)

lemma map_filter_lookup:
  assumes "\<And>i. i \<in> set is1 \<Longrightarrow> \<exists>r. t_get k i T = Some r"
  shows "map k (List.map_filter (\<lambda>i. t_get k i T) is1) = is1"
  using assms by (induction is1) (auto simp: List.map_filter_simps dest: t_get_key split: option.splits)

lemma owned_listings_ids:
  assumes "shop_ok s"
  shows "distinct (map l_id (owned_listings u s))" "set (map l_id (owned_listings u s)) = {i. owned u i s}"
proof -
  let ?is = "js_distinct (map b_listingId (completed_purchases u s))"
  let ?ls = "List.map_filter (\<lambda>i. t_get l_id i (agents_listing s)) ?is"
  have "\<exists>r. t_get l_id i (agents_listing s) = Some r" if "i \<in> set ?is" for i
    using that assms
    by (auto simp: completed_purchases_def t_filter_def shop_ok_def market_ok_def sales_ok_def sale_ok_def)
  then have m: "map l_id ?ls = ?is" by (rule map_filter_lookup)
  have s: "mset (map l_id (owned_listings u s)) = mset ?is"
    using arg_cong [OF m, of mset] by (simp add: owned_listings_def)
  then show "distinct (map l_id (owned_listings u s))" by (metis distinct_js_distinct mset_eq_imp_distinct_iff)
  have "set (map l_id (owned_listings u s)) = set ?is" by (rule mset_eq_setD [OF s])
  then show "set (map l_id (owned_listings u s)) = {i. owned u i s}" by (simp only: owned_purchases) simp
qed

text \<open>C13. The library lists exactly the listings the user has a completed purchase of, each once,
  the one bought last first.\<close>

theorem library_is_what_was_bought:
  assumes "shop_ok s"
  shows "map lr_listingId (findForUser u s) = map (int_to_string \<circ> l_id) (owned_listings u s)
    \<and> distinct (map l_id (owned_listings u s)) \<and> set (map l_id (owned_listings u s)) = {i. owned u i s}
    \<and> sorted (map (\<lambda>l. - Max (set (purchase_times u (l_id l) s))) (owned_listings u s))"
proof -
  have ne: "purchase_times u (l_id l) s \<noteq> []" if "l \<in> set (owned_listings u s)" for l
  proof -
    have "owned u (l_id l) s" using owned_listings_ids(2) [OF assms, of u] that by auto
    then show ?thesis by (auto simp: owned_purchases purchase_times_def filter_empty_conv)
  qed
  have "sorted (map (\<lambda>l. - latest (purchase_times u (l_id l) s)) (owned_listings u s))"
    by (simp add: owned_listings_def)
  moreover have "map (\<lambda>l. - latest (purchase_times u (l_id l) s)) (owned_listings u s) =
      map (\<lambda>l. - Max (set (purchase_times u (l_id l) s))) (owned_listings u s)"
    using ne by (simp add: latest_Max)
  ultimately show ?thesis using owned_listings_ids [OF assms, of u]
    by (simp add: findForUser_def library_row_of_def Let_def)
qed

lemma checkout_owned:
  assumes ok: "shop_ok s" and c: "checkout pf aborts u s = (Inr c, t)" and line: "line \<in> set (cart_rows_of u s)"
  shows "shop_ok t \<and> owned u (c_listingId line) t"
proof -
  have wf: "wf_table l_id (agents_listing s)" by (rule shop_wf [OF ok])
  note r = checkout_success [OF wf c]
  let ?bs = "purchases_of (pf_now pf) u (built_of (checked_lines u s)) (next_id (agents_purchase s))"
  have "shop_ok (snd (checkout pf aborts u s))" by (rule shop_checkout [OF ok])
  then have t: "shop_ok t" using c by simp
  have "map b_listingId ?bs = map c_listingId (cart_rows_of u s)"
    using built_listings [OF wf] r by (simp add: purchases_of_simps checked_lines_def)
  then have "c_listingId line \<in> b_listingId ` set ?bs" using line by (metis image_eqI list.set_map)
  then obtain b where b: "b \<in> set ?bs" "b_listingId b = c_listingId line" by auto
  have "b \<in> set (rows (agents_purchase t))" using b r by simp
  moreover have "b_status b = PU_COMPLETED"
    using t \<open>b \<in> set (rows (agents_purchase t))\<close> by (auto simp: shop_ok_def market_ok_def sales_ok_def sale_ok_def)
  ultimately show ?thesis using t b purchases_of_simps(4) [OF b(1)] by (auto simp: owned_def t_exists_def list_ex_iff)
qed

text \<open>After a successful checkout every listing of the cart is in the buyer's library, and its
  bundle is no longer refused for want of a purchase.\<close>

theorem checkout_fills_library:
  fixes s :: "'x storage_scheme"
  assumes "shop_ok s" and "checkout pf aborts u s = (Inr c, t)" and "line \<in> set (cart_rows_of u s)"
  shows "int_to_string (c_listingId line) \<in> set (map lr_listingId (findForUser u t))
    \<and> fst (streamBundleForOwner fe u (c_listingId line) t) \<noteq>
        Inl (http_exn ACCESS_DENIED_NOT_OWNER 403 ''You do not own this listing'')"
proof -
  note t = checkout_owned [OF assms]
  have "c_listingId line \<in> set (map l_id (owned_listings u t))" using owned_listings_ids(2) [of t u] t by simp
  then have "int_to_string (c_listingId line) \<in> set (map lr_listingId (findForUser u t))"
    by (auto simp: findForUser_def library_row_of_def Let_def)
  moreover have "wp (streamBundleForOwner fe u (c_listingId line)) (\<lambda>_ _. True)
      (\<lambda>e _. e \<noteq> http_exn ACCESS_DENIED_NOT_OWNER 403 ''You do not own this listing'') t"
    using t by (auto simp: streamBundleForOwner_def wp_eqs streamForDownload_def findReadableById_def store_get_def Let_def
        file_not_found_def listingNotFound_def http_exn_def split: option.splits bool.splits)
  ultimately show ?thesis by (auto simp: wp_def split: sum.splits prod.splits)
qed

text \<open>C14. The bundle of a listing is streamed exactly when the caller has a completed purchase of
  it, the listing is not deleted and has a bundle, and the file is there and not deleted; every
  other case has its own error, ownership being checked first.  What is streamed are bytes with
  the digest of the file's row.\<close>

theorem bundle_only_for_buyers:
  assumes "storage_ok fe sha s"
  shows "(case fst (streamBundleForOwner fe u i s) of
      Inr d \<Rightarrow> owned u i s \<and> (\<exists>l f r bytes. listing_live i s = Some l \<and> l_bundleFileId l = Some f \<and>
        t_get f_id f (files s) = Some r \<and> f_deletedAt r = None \<and> bd_stream d = SBytes bytes \<and> sha bytes = f_sha256 r)
    | Inl e \<Rightarrow> e = (if \<not> owned u i s then http_exn ACCESS_DENIED_NOT_OWNER 403 ''You do not own this listing''
        else case listing_live i s of None \<Rightarrow> listingNotFound
          | Some l \<Rightarrow> (case l_bundleFileId l of
                None \<Rightarrow> http_exn BUNDLE_NOT_AVAILABLE 404 ''This listing does not have a downloadable bundle''
              | Some f \<Rightarrow> (case t_get f_id f (files s) of None \<Rightarrow> file_not_found
                  | Some r \<Rightarrow> http_exn GONE 410 ''File has been deleted''))))"
proof -
  show ?thesis
  proof (cases "owned u i s")
    case False
    then show ?thesis by (simp add: streamBundleForOwner_def run_simps)
  next
    case own: True
    show ?thesis
    proof (cases "listing_live i s")
      case None
      then show ?thesis using own by (simp add: streamBundleForOwner_def run_simps)
    next
      case l: (Some l)
      show ?thesis
      proof (cases "l_bundleFileId l")
        case None
        then show ?thesis using own l by (simp add: streamBundleForOwner_def run_simps)
      next
        case f: (Some f)
        show ?thesis
        proof (cases "t_get f_id f (files s)")
          case None
          then show ?thesis using own l f by (simp add: streamBundleForOwner_def run_simps streamForDownload_def findReadable_run)
        next
          case r: (Some r)
          then obtain bytes where "store_get fe (f_path r) s = (Inr (SBytes bytes), s)" "sha bytes = f_sha256 r"
            using row_bytes_served [OF assms] by blast
          then show ?thesis
            using own l f r by (simp add: streamBundleForOwner_def run_simps streamForDownload_def findReadable_run)
        qed
      qed
    qed
  qed
qed

section \<open>Screenshots\<close>

lemma sort_key_same_order:
  assumes "\<And>x y. x \<in> set xs \<Longrightarrow> y \<in> set xs \<Longrightarrow> f x \<le> f y \<longleftrightarrow> g x \<le> g y"
  shows "sort_key f xs = sort_key g xs"
  using assms
proof (induction xs)
  case (Cons x xs)
  have "insort_key f x ys = insort_key g x ys" if "set ys \<subseteq> set xs" for ys
    using that by (induction ys) (simp_all add: Cons.prems)
  from this [of "sort_key g xs"] Cons show ?case by simp
qed simp

lemma first_wins: "foldl (\<lambda>m x. if m (k x) = None then m(k x \<mapsto> v x) else m) m xs i =
    (case m i of Some y \<Rightarrow> Some y | None \<Rightarrow> map_option v (List.find (\<lambda>x. k x = i) xs))"
  by (induction xs arbitrary: m) (auto split: option.splits)

lemma find_hd: "List.find P xs = (case filter P xs of [] \<Rightarrow> None | x # _ \<Rightarrow> Some x)"
  by (induction xs) auto

text \<open>The screenshot the library shows for a listing is the one the catalogue shows.\<close>

theorem library_screenshot_is_catalog_screenshot:
  assumes "l_id l \<in> set ids"
  shows "findPrimaryScreenshots ids s (l_id l) = cd_primaryScreenshotUrl (listingToCardDto s l)"
proof -
  let ?xs = "t_filter (\<lambda>x. sh_listingId x \<in> set ids) (agents_screenshot s)"
  let ?own = "t_filter (\<lambda>x. sh_listingId x = l_id l) (agents_screenshot s)"
  have "filter (\<lambda>x. sh_listingId x = l_id l) ?xs = ?own"
    using assms by (simp add: t_filter_def) (rule filter_cong, auto)
  then have "filter (\<lambda>x. sh_listingId x = l_id l) (sort_key (\<lambda>x. (sh_listingId x, sh_order x)) ?xs) =
      sort_key (\<lambda>x. (sh_listingId x, sh_order x)) ?own"
    by (simp add: filter_sort)
  also have "\<dots> = screenshots_of (l_id l) s"
    unfolding screenshots_of_def by (rule sort_key_same_order) (auto simp: t_filter_def)
  finally show ?thesis
    by (simp add: findPrimaryScreenshots_def first_wins find_hd listingToCardDto_def split: list.splits)
qed

section \<open>Samples\<close>

lemma library_is_what_was_bought_witness: "distinct (map l_id (owned_listings 1 sample_agents))"
  using library_is_what_was_bought [OF sample_shop_ok, of 1] by simp

lemma storage_tables:
  "agents_category sample_storage = agents_category sample_agents" "agents_listing sample_storage = agents_listing sample_agents"
  "agents_run_pack sample_storage = agents_run_pack sample_agents"
  "agents_cart_item sample_storage = agents_cart_item sample_agents"
  "agents_purchase sample_storage = agents_purchase sample_agents"
  "agents_user_runs sample_storage = agents_user_runs sample_agents"
  "agents_review sample_storage = agents_review sample_agents" "agents_settings sample_storage = agents_settings sample_agents"
  by (simp_all add: sample_storage_def sample_agents_def sys.defs agents.defs storage.defs)

lemma sample_storage_shop_ok: "shop_ok sample_storage"
proof -
  have "shop_ok sample_storage = shop_ok sample_agents"
    unfolding shop_ok_def market_ok_def reviews_ok_def catalog_ok_def cart_ok_def cart_line_ok_def commissionPercent_def
      storage_tables by (rule refl)
  then show ?thesis using sample_shop_ok by simp
qed

lemma sample_checkout: "\<exists>c t. checkout sample_admin_platform (None, None) 1 sample_storage = (Inr c, t)"
proof -
  have live: "listing_live 1 sample_storage = Some (sample_listing 1 ''one-time'' ONE_TIME (Some 1000) LS_PUBLISHED)"
    by (simp add: listing_live_def t_find_def storage_tables)
  have cart: "cart_rows_of 1 sample_storage = [sample_cart_row 1 1 1 None]"
    by (simp add: cart_rows_of_def t_filter_def storage_tables)
  have "\<not> owned 1 1 sample_storage" by (simp add: owned_def t_exists_def storage_tables empty_table_def)
  then have "\<exists>line. check_line 1 pc sample_storage (sample_cart_row 1 1 1 None) = Inr line" for pc
    using live by (simp add: check_line_def line_price_def Let_def)
  then obtain line where "checked_lines 1 sample_storage = [Inr line]" by (auto simp: checked_lines_def cart)
  then have "failures_of (checked_lines 1 sample_storage) = []" by (simp add: failures_of_def)
  then obtain c plan t0 where "transaction (checkout_tx sample_admin_platform 1) sample_storage = (Inr (c, plan), t0)"
    using checkout_tx_run [OF shop_wf [OF sample_storage_shop_ok], of 1 sample_admin_platform] cart sample_storage_simps(3)
    by (simp add: Let_def)
  then show ?thesis using checkout_runs by blast
qed

lemma checkout_fills_library_witness:
  "\<exists>c t. checkout sample_admin_platform (None, None) 1 sample_storage = (Inr c, t) \<and>
     ''1'' \<in> set (map lr_listingId (findForUser 1 t))"
proof -
  obtain c t where c: "checkout sample_admin_platform (None, None) 1 sample_storage = (Inr c, t)"
    using sample_checkout by blast
  have "sample_cart_row 1 1 1 None \<in> set (cart_rows_of 1 sample_storage)"
    by (simp add: cart_rows_of_def t_filter_def storage_tables)
  from checkout_fills_library [OF sample_storage_shop_ok c this]
  have "int_to_string 1 \<in> set (map lr_listingId (findForUser 1 t))" by simp
  moreover have "int_to_string 1 = ''1''" by code_simp
  ultimately show ?thesis using c by simp
qed

lemma bundle_only_for_buyers_witness:
  "fst (streamBundleForOwner sample_file_env 1 1 sample_storage) =
     Inl (http_exn ACCESS_DENIED_NOT_OWNER 403 ''You do not own this listing'')"
proof -
  have "\<not> owned 1 1 sample_storage" by (simp add: owned_def t_exists_def storage_tables empty_table_def)
  then show ?thesis using bundle_only_for_buyers [OF sample_storage_ok, of 1 1] by (simp split: sum.splits)
qed

lemma library_screenshot_is_catalog_screenshot_witness:
  "findPrimaryScreenshots [1] sample_agents 1 =
     cd_primaryScreenshotUrl (listingToCardDto sample_agents (sample_listing 1 ''one-time'' ONE_TIME (Some 1000) LS_PUBLISHED))"
  using library_screenshot_is_catalog_screenshot [of "sample_listing 1 ''one-time'' ONE_TIME (Some 1000) LS_PUBLISHED" "[1]"]
  by simp

end
