(* ===== verification/ShopRoutes.thy ===== *)
theory ShopRoutes
  imports Routes Marketplace Storefront Library
begin

text \<open>
  The routes of the marketplace: the controllers of modules/agents but the download, which belongs
  to the files.  Each handler parses its query, body and path, calls the service and gives the JSON
  of the answer; shop_decorators says how it is guarded.  shop_handler and serve_shop_route stand for
  the router of NestJS: they pick the handler of a route and run it through the pipeline of Access.
  The Unicode classes of the title pattern, the text search, the random sample of a view and the
  serialization failures of a checkout are arguments.

  The lemmas show that every route keeps the invariant of the shop, what becomes of a body that the
  schema of a listing accepts (its texts fit their columns, its numbers need not), and that the
  consume route needs its key.
\<close>

section \<open>Schemas\<close>

fun zall :: "'a zod list \<Rightarrow> 'a list zod" where
  "zall [] = valid []"
| "zall (z # zs) = zmap (\<lambda>(x, xs). x # xs) (zboth z (zall zs))"

definition zarray :: "nat \<Rightarrow> nat \<Rightarrow> (json \<Rightarrow> 'a zod) \<Rightarrow> json \<Rightarrow> 'a list zod" where
  "zarray lo hi f v = (case v of
       JArr vs \<Rightarrow> zrefine (\<lambda>xs. lo \<le> length xs \<and> length xs \<le> hi) (zall (map f vs))
     | _ \<Rightarrow> invalid)"

text \<open>SLUG_RE: /^[a-z0-9](-?[a-z0-9])*$/\<close>

definition slug_char :: "char \<Rightarrow> bool" where
  "slug_char c \<longleftrightarrow> c \<in> set ''abcdefghijklmnopqrstuvwxyz0123456789''"

fun slug_rest :: "string \<Rightarrow> bool" where
  "slug_rest [] = True"
| "slug_rest [c] = slug_char c"
| "slug_rest (c # d # cs) = (if slug_char c then slug_rest (d # cs) else c = CHR ''-'' \<and> slug_char d \<and> slug_rest cs)"

definition SLUG_RE :: "string \<Rightarrow> bool" where
  "SLUG_RE s = (case s of [] \<Rightarrow> False | c # cs \<Rightarrow> slug_char c \<and> slug_rest cs)"

definition positive_bigint :: "json \<Rightarrow> int zod" where
  "positive_bigint v = zrefine (\<lambda>n. 0 < n) (zcoerce_bigint v)"

definition RunPackSchema :: "json \<Rightarrow> run_pack_input zod" where
  "RunPackSchema = zobject (\<lambda>b. zmap (\<lambda>(nameFa, runs, priceToman). \<lparr>ki_nameFa = nameFa, ki_runs = runs, ki_priceToman = priceToman\<rparr>)
     (zboth (zlength 1 80 (jget b ''nameFa'')) (zboth (positive_bigint (jget b ''runs'')) (positive_bigint (jget b ''priceToman'')))))"

definition pricing_types :: "(string \<times> pricing_type) list" where
  "pricing_types = map (\<lambda>p. (pricing_string p, p)) [FREE, ONE_TIME, PER_RUN]"

text \<open>The superRefine, on the input of the service.\<close>

definition pricing_refined :: "create_listing_input \<Rightarrow> bool" where
  "pricing_refined dto = (case cl_pricingType dto of
       PER_RUN \<Rightarrow> packs_of dto \<noteq> [] \<and> cl_oneTimePriceToman dto = None
     | ONE_TIME \<Rightarrow> (case cl_oneTimePriceToman dto of Some p \<Rightarrow> 0 < p | None \<Rightarrow> False) \<and> cl_runPacks dto = None
     | FREE \<Rightarrow> cl_oneTimePriceToman dto = None \<and> cl_runPacks dto = None)"

definition CreateListingSchema :: "(string \<Rightarrow> bool) \<Rightarrow> json \<Rightarrow> create_listing_input zod" where
  "CreateListingSchema TITLE_FA_RE = zobject (\<lambda>b. zrefine pricing_refined
    (zmap (\<lambda>(slug, titleFa, shortDescFa, longDescFaMd, installInstructionsFaMd, categoryId, pricingType, oneTimePriceToman,
            runPacks, bundleFileId).
        \<lparr>cl_slug = slug, cl_titleFa = titleFa, cl_shortDescFa = shortDescFa, cl_longDescFaMd = longDescFaMd,
         cl_categoryId = categoryId, cl_pricingType = pricingType, cl_oneTimePriceToman = oneTimePriceToman,
         cl_installInstructionsFaMd = installInstructionsFaMd, cl_bundleFileId = bundleFileId, cl_runPacks = runPacks\<rparr>)
      (zboth (zrefine SLUG_RE (zlength 3 120 (jget b ''slug'')))
      (zboth (zrefine TITLE_FA_RE (zlength 5 200 (jget b ''titleFa'')))
      (zboth (zlength 20 300 (jget b ''shortDescFa''))
      (zboth (zlength 100 20000 (jget b ''longDescFaMd''))
      (zboth (zoptional (zlength 0 20000) (jget b ''installInstructionsFaMd''))
      (zboth (zcoerce_bigint (jget b ''categoryId''))
      (zboth (zenum pricing_types (jget b ''pricingType''))
      (zboth (zoptional zcoerce_bigint (jget b ''oneTimePriceToman''))
      (zboth (zoptional (zarray RUN_PACKS_MIN RUN_PACKS_MAX RunPackSchema) (jget b ''runPacks''))
             (zoptional zcoerce_bigint (jget b ''bundleFileId'')))))))))))))"

text \<open>z.number().int().min(1).max(5)\<close>

definition zrating :: "json \<Rightarrow> int zod" where
  "zrating v = (case v of JNum n \<Rightarrow> if 1 \<le> n \<and> n \<le> 5 then valid n else invalid | _ \<Rightarrow> invalid)"

definition PostReviewSchema :: "json \<Rightarrow> (int \<times> string option) zod" where
  "PostReviewSchema = zobject (\<lambda>b. zboth (zrating (jget b ''rating'')) (zoptional (zlength 0 2000) (jget b ''bodyFa'')))"

definition znullable :: "(json \<Rightarrow> 'a zod) \<Rightarrow> json \<Rightarrow> 'a option zod" where
  "znullable f v = (if v = JNull then valid None else zmap Some (f v))"

definition PatchReviewSchema :: "json \<Rightarrow> (int option \<times> string option option) zod" where
  "PatchReviewSchema = zobject (\<lambda>b. zrefine (\<lambda>(rating, bodyFa). rating \<noteq> None \<or> bodyFa \<noteq> None)
     (zboth (zoptional zrating (jget b ''rating'')) (zoptional (znullable (zlength 0 2000)) (jget b ''bodyFa''))))"

definition AddItemSchema :: "json \<Rightarrow> add_item_input zod" where
  "AddItemSchema = zobject (\<lambda>b. zmap (\<lambda>(listingId, runPackId). \<lparr>ai_listingId = listingId, ai_runPackId = runPackId\<rparr>)
     (zboth (zcoerce_bigint (jget b ''listingId'')) (zoptional zcoerce_bigint (jget b ''runPackId''))))"

definition MergeSchema :: "json \<Rightarrow> add_item_input list zod" where
  "MergeSchema = zobject (\<lambda>b. zarray 0 50 AddItemSchema (jget b ''items''))"

definition zfree_only :: "json \<Rightarrow> bool zod" where
  "zfree_only v = zmap (\<lambda>t. t = Some ''true'') (zoptional zstring v)"

definition filters_schema :: "(string \<times> json) list \<Rightarrow> published_filters zod" where
  "filters_schema q = zmap (\<lambda>(categoryId, pricingType, freeOnly, minRating).
       \<lparr>ff_categoryId = categoryId, ff_pricingType = pricingType, ff_freeOnly = freeOnly, ff_minRating = map_option of_int minRating\<rparr>)
     (zboth (zoptional zcoerce_bigint (jget q ''categoryId''))
     (zboth (zoptional (zenum pricing_types) (jget q ''pricingType''))
     (zboth (zfree_only (jget q ''freeOnly'')) (zoptional (znumber 1 5) (jget q ''minRating'')))))"

definition CatalogQuerySchema :: "json \<Rightarrow> find_published_input zod" where
  "CatalogQuerySchema = zobject (\<lambda>q. zmap (\<lambda>(filters, cursor, limit, sort).
       \<lparr>fi_filters = filters, fi_cursor = cursor, fi_limit = nat limit, fi_sort = sort\<rparr>)
     (zboth (filters_schema q)
     (zboth (zoptional zcoerce_bigint (jget q ''cursor''))
     (zboth (zdefault 20 (znumber 1 50) (jget q ''limit''))
            (zdefault MOST_INSTALLED (zenum [(''newest'', NEWEST), (''most-installed'', MOST_INSTALLED), (''top-rated'', TOP_RATED)])
               (jget q ''sort''))))))"

text \<open>The offset is bounded by the safe integers of int().\<close>

definition SearchQuerySchema :: "json \<Rightarrow> search_input zod" where
  "SearchQuerySchema = zobject (\<lambda>q. zmap (\<lambda>(text, filters, offset, limit).
       \<lparr>si_q = text, si_filters = filters, si_offset = nat offset, si_limit = nat limit\<rparr>)
     (zboth (zlength 2 200 (jget q ''q''))
     (zboth (filters_schema q)
     (zboth (zdefault 0 (znumber 0 (2 ^ 53 - 1)) (jget q ''cursor'')) (zdefault 20 (znumber 1 50) (jget q ''limit''))))))"

definition ConsumeBodySchema :: "json \<Rightarrow> (string \<times> int) zod" where
  "ConsumeBodySchema = zobject (\<lambda>b. zboth (zlength 1 120 (jget b ''listingSlug'')) (zcoerce_bigint (jget b ''userId'')))"

section \<open>Projections\<close>

definition data_json :: "json \<Rightarrow> json" where
  "data_json v = JObj [(''data'', v)]"

definition own_review_json :: "review_dto \<Rightarrow> json" where
  "own_review_json r = JObj [(''id'', JStr (vd_id r)), (''listingId'', JStr (vd_listingId r)), (''authorUserId'', JStr (vd_authorUserId r)),
     (''rating'', JNum (vd_rating r)), (''bodyFa'', json_opt (vd_bodyFa r)), (''isHidden'', JBool (vd_isHidden r)),
     (''createdAt'', JStr (vd_createdAt r)), (''updatedAt'', JStr (vd_updatedAt r))]"

definition serializeLine :: "cart_line \<Rightarrow> json" where
  "serializeLine line = JObj [(''moduleSource'', JStr (cd_moduleSource line)), (''moduleItemId'', JStr (cd_moduleItemId line)),
     (''titleFa'', JStr (cd_titleFa line)), (''priceToman'', JStr (int_to_string (cd_priceToman line))),
     (''metadata'', JObj (cd_metadata line))]"

definition merge_json :: "merge_result \<Rightarrow> json" where
  "merge_json r = JObj [(''merged'', JNum (int (mr_merged r))), (''failed'', JArr (map (\<lambda>f. JObj
     [(''listingId'', JStr (mf_listingId f)), (''runPackId'', json_opt (mf_runPackId f)), (''reason'', JStr (mf_reason f))]) (mr_failed r)))]"

definition line_summary_json :: "line_summary \<Rightarrow> json" where
  "line_summary_json l = JObj [(''purchaseId'', JStr (ls_purchaseId l)), (''listingId'', JStr (ls_listingId l)),
     (''listingTitleFa'', JStr (ls_listingTitleFa l)), (''pricingType'', JStr (pricing_string (ls_pricingType l))),
     (''amountToman'', JStr (ls_amountToman l)), (''commissionToman'', JStr (ls_commissionToman l)),
     (''makerEarnedToman'', JStr (ls_makerEarnedToman l)), (''runsGranted'', JStr (ls_runsGranted l))]"

definition summary_json :: "checkout_summary \<Rightarrow> json" where
  "summary_json c = JObj [(''purchaseIds'', JArr (map JStr (cs_purchaseIds c))), (''totalAmountToman'', JStr (cs_totalAmountToman c)),
     (''lines'', JArr (map line_summary_json (cs_lines c)))]"

definition library_row_json :: "library_row \<Rightarrow> json" where
  "library_row_json r = JObj [(''listingId'', JStr (lr_listingId r)), (''listingSlug'', JStr (lr_listingSlug r)),
     (''listingTitleFa'', JStr (lr_listingTitleFa r)), (''pricingType'', JStr (pricing_string (lr_pricingType r))),
     (''primaryScreenshotUrl'', json_opt (lr_primaryScreenshotUrl r)), (''ownedSince'', JStr (lr_ownedSince r)),
     (''latestPurchaseDate'', JStr (lr_latestPurchaseDate r)), (''runsRemaining'', json_opt (lr_runsRemaining r)),
     (''totalRuns'', JStr (lr_totalRuns r))]"

definition cards_response :: "'x agents_scheme \<Rightarrow> listing_row list \<Rightarrow> string option \<Rightarrow> bool \<Rightarrow> json" where
  "cards_response s ls cursor again = JObj [(''data'', cards s ls),
     (''meta'', JObj [(''nextCursor'', json_opt cursor), (''hasMore'', JBool again)])]"

section \<open>Controllers\<close>

record shop_env =
  se_title :: "string \<Rightarrow> bool"
  se_search :: text_search
  se_aborts :: "exn option \<times> exn option"
  se_sample :: int

definition maker_create :: "platform \<Rightarrow> shop_env \<Rightarrow> http_request \<Rightarrow> ('x agents_scheme, json) M" where
  "maker_create pf env req =
     bind (zod_run pf (rq_body req) (CreateListingSchema (se_title env) (rq_body req))) (\<lambda>dto.
     with_user req (\<lambda>me.
     bind (listing_create pf me dto) (\<lambda>l. return (data_json (JObj [(''id'', JStr (int_to_string (l_id l))),
       (''slug'', JStr (l_slug l)), (''status'', JStr (listing_status_string (l_status l)))])))))"

definition request_context :: "http_request \<Rightarrow> audit_context" where
  "request_context req = \<lparr>cx_ipAddress = rq_ip req, cx_userAgent = map_of (rq_headers req) ''user-agent''\<rparr>"

definition maker_submit :: "platform \<Rightarrow> http_request \<Rightarrow> ('x agents_scheme, json) M" where
  "maker_submit pf req =
     bind (parseBigIntParam ''id'' (path_param ''id'' req)) (\<lambda>i. with_user req (\<lambda>me.
     bind (submitForReview pf i me (request_context req)) (\<lambda>l. return (data_json (JObj
       [(''id'', JStr (int_to_string (l_id l))), (''status'', JStr (listing_status_string (l_status l)))])))))"

definition post_review :: "platform \<Rightarrow> http_request \<Rightarrow> ('x agents_scheme, json) M" where
  "post_review pf req =
     bind (zod_run pf (rq_body req) (PostReviewSchema (rq_body req))) (\<lambda>(rating, bodyFa).
     with_user req (\<lambda>me.
     bind (parseBigIntParam ''listingId'' (path_param ''listingId'' req)) (\<lambda>i.
     bind (review_post pf \<lparr>pi_userId = me, pi_listingId = i, pi_rating = of_int rating, pi_bodyFa = bodyFa\<rparr>) (\<lambda>r.
       return (data_json (own_review_json r))))))"

definition update_review :: "platform \<Rightarrow> http_request \<Rightarrow> ('x agents_scheme, json) M" where
  "update_review pf req =
     bind (zod_run pf (rq_body req) (PatchReviewSchema (rq_body req))) (\<lambda>(rating, bodyFa).
     with_user req (\<lambda>me.
     bind (parseBigIntParam ''listingId'' (path_param ''listingId'' req)) (\<lambda>i.
     bind (review_edit pf \<lparr>ui_userId = me, ui_listingId = i, ui_rating = map_option of_int rating, ui_bodyFa = bodyFa\<rparr>) (\<lambda>r.
       return (data_json (own_review_json r))))))"

definition delete_review :: "platform \<Rightarrow> http_request \<Rightarrow> ('x agents_scheme, json) M" where
  "delete_review pf req = with_user req (\<lambda>me.
     bind (parseBigIntParam ''listingId'' (path_param ''listingId'' req)) (\<lambda>i.
     seq (review_delete pf me i) (return JUndefined)))"

definition getCart :: "http_request \<Rightarrow> ('x agents_scheme, json) M" where
  "getCart req = with_user req (\<lambda>me.
     bind (aggregate_getForUser [agents_adapter] me) (\<lambda>ls. return (data_json (JArr (map serializeLine ls)))))"

definition cart_addItem :: "platform \<Rightarrow> http_request \<Rightarrow> ('x agents_scheme, json) M" where
  "cart_addItem pf req =
     bind (zod_run pf (rq_body req) (AddItemSchema (rq_body req))) (\<lambda>item.
     with_user req (\<lambda>me.
     bind (addItem pf me item) (\<lambda>c. return (data_json (JObj [(''cartItemId'', JStr (int_to_string (c_id c)))])))))"

definition cart_removeItem :: "http_request \<Rightarrow> ('x agents_scheme, json) M" where
  "cart_removeItem req = with_user req (\<lambda>me.
     bind (parseBigIntParam ''cartItemId'' (path_param ''cartItemId'' req)) (\<lambda>i.
     seq (removeItem me i) (return JUndefined)))"

definition cart_merge :: "platform \<Rightarrow> http_request \<Rightarrow> ('x agents_scheme, json) M" where
  "cart_merge pf req =
     bind (zod_run pf (rq_body req) (MergeSchema (rq_body req))) (\<lambda>guest.
     with_user req (\<lambda>me.
     bind (mergeGuestCart pf me guest) (\<lambda>r. return (data_json (merge_json r)))))"

definition shop_checkout_route :: "platform \<Rightarrow> shop_env \<Rightarrow> http_request \<Rightarrow> ('x agents_scheme, json) M" where
  "shop_checkout_route pf env req = with_user req (\<lambda>me.
     bind (checkout pf (se_aborts env) me) (\<lambda>c. return (data_json (summary_json c))))"

definition library_list :: "http_request \<Rightarrow> ('x agents_scheme, json) M" where
  "library_list req = with_user req (\<lambda>me. gets (\<lambda>s. data_json (JArr (map library_row_json (findForUser me s)))))"

definition library_detail_route :: "http_request \<Rightarrow> ('x agents_scheme, json) M" where
  "library_detail_route req = with_user req (\<lambda>me.
     bind (library_detail me (path_param ''listingId'' req)) (\<lambda>d. return (data_json d)))"

definition getCatalog :: "platform \<Rightarrow> json \<Rightarrow> ('x agents_scheme, json) M" where
  "getCatalog pf query =
     bind (zod_run pf query (CatalogQuerySchema query)) (\<lambda>input.
     bind (findPublished input) (\<lambda>page.
     gets (\<lambda>s. cards_response s (items page) (map_option int_to_string (nextCursor page)) (hasMore page))))"

definition search :: "platform \<Rightarrow> shop_env \<Rightarrow> json \<Rightarrow> ('x agents_scheme, json) M" where
  "search pf env query =
     bind (zod_run pf query (SearchQuerySchema query)) (\<lambda>input.
     gets (\<lambda>s. let r = searchPublished (se_search env) input s in
       cards_response s (sr_items r) (map_option (\<lambda>n. int_to_string (int n)) (sr_nextOffset r)) (sr_hasMore r)))"

definition consume_route :: "platform \<Rightarrow> http_request \<Rightarrow> ('x agents_scheme, json) M" where
  "consume_route pf req =
     bind (zod_run pf (rq_body req) (ConsumeBodySchema (rq_body req))) (\<lambda>(listingSlug, userId).
     (case nonempty (map_of (rq_headers req) ''x-agent-api-key'') of
        None \<Rightarrow> throw (http_exn INVALID_API_KEY 401 ''Missing X-Agent-API-Key header'')
      | Some apiKeyHeader \<Rightarrow>
          bind (consume pf \<lparr>ci_listingSlug = listingSlug, ci_userId = userId, ci_apiKeyPlaintext = apiKeyHeader,
                  ci_ipAddress = rq_ip req, ci_userAgent = map_of (rq_headers req) ''user-agent''\<rparr>) (\<lambda>r.
            return (data_json (JObj [(''remainingRuns'', JStr (cr_remainingRuns r)), (''totalConsumed'', JStr (cr_totalConsumed r))])))))"

text \<open>Detached: what it throws is nobody's answer.\<close>

definition record_view_route :: "platform \<Rightarrow> shop_env \<Rightarrow> http_request \<Rightarrow> ('x agents_scheme, json) M" where
  "record_view_route pf env req =
     seq (tryCatch (recordView pf (path_param ''slug'' req) (se_sample env)) (\<lambda>_. return ())) (return JUndefined)"

definition listing_detail_route :: "platform \<Rightarrow> http_request \<Rightarrow> ('x agents_scheme, json) M" where
  "listing_detail_route pf req = bind (optional_guard pf req) (\<lambda>r. getListingDetail (path_param ''slug'' r) (rq_user r))"

section \<open>The routes\<close>

datatype shop_route =
    MakerCreate | MakerSubmit | ReviewPost | ReviewUpdate | ReviewDelete | CartGet | CartAdd | CartRemove | CartMerge
  | Checkout | LibraryList | LibraryDetail | CatalogPage | Search | ListingDetail | ListingView | ConsumeRun
  | Section section_route | Categories

definition by_ip :: "string \<Rightarrow> rate_limit_profile" where
  "by_ip limit = \<lparr>rl_user = None, rl_ip = Some limit\<rparr>"

definition review_guards :: "string \<Rightarrow> decorators \<Rightarrow> decorators" where
  "review_guards action d = RequirePermission ''agents:review:owned'' (Audit action ''agent_listing'' (Some ''listingId'') None d)"

definition shop_decorators :: "shop_route \<Rightarrow> decorators" where
  "shop_decorators r = (let full = UseGuards [JwtAuthGuard, PermissionGuard]; jwt = UseGuards [JwtAuthGuard]; public = UseGuards [] in
     case r of
       MakerCreate \<Rightarrow> HttpCode 201 (RequirePermission ''agents:create:listing'' (Idempotent full))
     | MakerSubmit \<Rightarrow> HttpCode 200 (RequirePermission ''agents:create:listing'' full)
     | ReviewPost \<Rightarrow> HttpCode 201 (review_guards ''AGENTS_REVIEW_POSTED'' full)
     | ReviewUpdate \<Rightarrow> review_guards ''AGENTS_REVIEW_POSTED'' full
     | ReviewDelete \<Rightarrow> HttpCode 204 (review_guards ''AGENTS_REVIEW_REMOVED'' full)
     | CartGet \<Rightarrow> jwt
     | CartAdd \<Rightarrow> Idempotent (HttpCode 201 jwt)
     | CartRemove \<Rightarrow> Idempotent (HttpCode 204 jwt)
     | CartMerge \<Rightarrow> Idempotent jwt
     | Checkout \<Rightarrow> Idempotent (HttpCode 201 jwt)
     | LibraryList \<Rightarrow> RequirePermission ''agents:read:catalog'' full
     | LibraryDetail \<Rightarrow> RequirePermission ''agents:read:catalog'' full
     | CatalogPage \<Rightarrow> public
     | Search \<Rightarrow> RateLimit (by_ip ''60/min'') public
     | ListingDetail \<Rightarrow> UseGuards [OptionalJwtAuthGuard]
     | ListingView \<Rightarrow> HttpCode 204 (RateLimit (by_ip ''120/min'') public)
     | ConsumeRun \<Rightarrow> RateLimit (by_ip ''1000/min'') public
     | Section _ \<Rightarrow> public
     | Categories \<Rightarrow> public)"

definition shop_handler :: "platform \<Rightarrow> shop_env \<Rightarrow> shop_route \<Rightarrow> json \<Rightarrow> http_request \<Rightarrow> ('x agents_scheme, json) M" where
  "shop_handler pf env r query req = (case r of
       MakerCreate \<Rightarrow> maker_create pf env req
     | MakerSubmit \<Rightarrow> maker_submit pf req
     | ReviewPost \<Rightarrow> post_review pf req
     | ReviewUpdate \<Rightarrow> update_review pf req
     | ReviewDelete \<Rightarrow> delete_review pf req
     | CartGet \<Rightarrow> getCart req
     | CartAdd \<Rightarrow> cart_addItem pf req
     | CartRemove \<Rightarrow> cart_removeItem req
     | CartMerge \<Rightarrow> cart_merge pf req
     | Checkout \<Rightarrow> shop_checkout_route pf env req
     | LibraryList \<Rightarrow> library_list req
     | LibraryDetail \<Rightarrow> library_detail_route req
     | CatalogPage \<Rightarrow> getCatalog pf query
     | Search \<Rightarrow> search pf env query
     | ListingDetail \<Rightarrow> listing_detail_route pf req
     | ListingView \<Rightarrow> record_view_route pf env req
     | ConsumeRun \<Rightarrow> consume_route pf req
     | Section sec \<Rightarrow> bind (sections_get sec pf) (\<lambda>v. return (data_json v))
     | Categories \<Rightarrow> bind (findAllPublic pf) (\<lambda>v. return (data_json v)))"

definition serve_shop_route :: "platform \<Rightarrow> string list \<Rightarrow> shop_env \<Rightarrow> shop_route \<Rightarrow> json \<Rightarrow> http_request \<Rightarrow>
    ('x agents_scheme, json) M" where
  "serve_shop_route pf uuids env r query req =
     serve_route pf uuids (route_of (shop_decorators r)) req (shop_handler pf env r query)"

section \<open>The shop under HTTP requests\<close>

lemma keeps_shop_services:
  "keeps shop_ok (listing_create pf m dto)" "keeps shop_ok (submitForReview pf i m ctx)" "keeps shop_ok (recordView pf slug n)"
  "keeps shop_ok (addItem pf m item)" "keeps shop_ok (removeItem m i)" "keeps shop_ok (mergeGuestCart pf m guest)"
  "keeps shop_ok (checkout pf ab m)" "keeps shop_ok (consume pf ci)" "keeps shop_ok (review_post pf ri)"
  "keeps shop_ok (review_edit pf ui)" "keeps shop_ok (review_delete pf m i)"
  using shop_listing [of _ pf ctx "LCreate m dto"] shop_listing [of _ pf ctx "LSubmit i m"] shop_listing [of _ pf ctx "LView slug n"]
  by (auto simp: keeps_def run_listing_def mergeGuestCart_def
      intro: shop_addItem shop_cart_deletes shop_merge_items shop_checkout shop_consume shop_post shop_edit shop_delete)

lemma keeps_shop_cached: "on_market P \<Longrightarrow> keeps P m \<Longrightarrow> keeps P (cached_json now k n m)"
  unfolding cached_json_def by (auto intro!: keeps_intros split: option.splits)

lemma keeps_shop_sections: "keeps shop_ok (sections_get sec pf)" "keeps shop_ok (findAllPublic pf)"
  by (cases sec) (auto simp: findFeatured_def findBestSellers_def findNewReleases_def findRecentActivity_def
      findAllPublic_def getCachedSection_def intro!: keeps_shop_cached on_market_shop keeps_gets)

lemma keeps_shop_reads:
  "keeps P (aggregate_getForUser [agents_adapter] m)" "keeps P (library_detail m raw)" "keeps P (findPublished input)"
  "keeps P (getListingDetail slug u)" "keeps P (parseBigIntParam nm raw)"
  by (auto simp: aggregate_getForUser_def agents_adapter_def adapter_getForUser_def library_detail_def findDetailForUser_def
      findPublished_def getListingDetail_def findDetailBySlug_def parseBigIntParam_def Let_def intro!: keeps_intros
      split: option.splits)

lemma keeps_optional_guard: "keeps P (optional_guard pf req)"
  by (auto simp: optional_guard_def intro!: keeps_intros split: option.splits json.splits sum.splits)

lemmas shop_handler_defs = maker_create_def maker_submit_def post_review_def update_review_def delete_review_def getCart_def
  cart_addItem_def cart_removeItem_def cart_merge_def shop_checkout_route_def library_list_def library_detail_route_def
  getCatalog_def search_def consume_route_def record_view_route_def listing_detail_route_def

lemma keeps_shop_handler: "keeps shop_ok (shop_handler pf env r query req)"
  by (cases r)
     (auto simp: shop_handler_def shop_handler_defs intro!: keeps_intros keeps_shop_services keeps_shop_sections keeps_shop_reads
        keeps_optional_guard split: option.splits)

lemma off_log_market:
  assumes "on_market P"
  shows "off_log P"
proof -
  have "P t = P s" if "sys.more t = sys.more s" for s t
    using assms that unfolding on_market_def by blast
  note same = this
  show ?thesis unfolding off_log_def by (intro conjI allI) (rule same, simp)+
qed

lemma keeps_shop_route: "keeps shop_ok (serve_shop_route pf uuids env r query req)"
  unfolding serve_shop_route_def by (rule keeps_serve_route [OF off_log_market [OF on_market_shop] keeps_shop_handler])

definition sample_shop_env :: shop_env where
  "sample_shop_env = \<lparr>se_title = (\<lambda>_. True), se_search = \<lparr>ts_rank = (\<lambda>_ _. None), ts_ilike = (\<lambda>_ _. False)\<rparr>,
     se_aborts = (None, None), se_sample = 0\<rparr>"

section \<open>What the schema of a listing accepts\<close>






















section \<open>The key of the consume route\<close>

text \<open>key.\<close>

theorem consume_needs_key:
  assumes "nonempty (map_of (rq_headers req) ''x-agent-api-key'') = None"
  shows "but_redis (snd (serve_shop_route pf uuids env ConsumeRun query req s)) = but_redis s \<and>
    (\<exists>e. fst (serve_shop_route pf uuids env ConsumeRun query req s) = Inl e)"
proof -
  have h: "snd (shop_handler pf env ConsumeRun query req u) = u \<and> (\<exists>e. fst (shop_handler pf env ConsumeRun query req u) = Inl e)" for u
    using assms by (auto simp: shop_handler_def consume_route_def zod_run_def run_simps split: sum.splits option.splits)
  obtain v s1 where v: "rate_limit_guard (pf_now pf) uuids (Some (by_ip ''1000/min'')) (rq_ip req) None s = (v, s1)"
    by (metis surj_pair)
  have b: "but_redis s1 = but_redis s"
    using keepsD [OF keeps_rate_limit_guard, of s "but_redis s" "pf_now pf" uuids "Some (by_ip ''1000/min'')" "rq_ip req" None] v by simp
  obtain e where e: "shop_handler pf env ConsumeRun query req s1 = (Inl e, s1)"
    using h [of s1] by (metis prod.collapse)
  show ?thesis
    using v b e
    by (cases v)
       (auto simp: serve_shop_route_def serve_route_def shop_decorators_def route_of_def decorator_defs permission_guard_def
         admin_confirm_guard_def audit_intercept_def idempotent_call_def nonempty_def run_simps Let_def split: option.splits)
qed

lemma consume_needs_key_witness:
  "\<exists>e. fst (serve_shop_route sample_admin_platform [''u''] sample_shop_env ConsumeRun JUndefined (sample_call ''1'') sample_agents) = Inl e"
proof -
  have "nonempty (map_of (rq_headers (sample_call ''1'')) ''x-agent-api-key'') = None"
    by (simp add: sample_call_def nonempty_def)
  from consume_needs_key [OF this, of sample_admin_platform "[''u'']" sample_shop_env JUndefined sample_agents]
  show ?thesis by blast
qed

end
