(* ===== verification/ShopAccess.thy ===== *)
theory ShopAccess
  imports ShopRoutes Callers
begin

text \<open>
  Whose requests change what a customer of the marketplace has: the lines in the cart, the purchases,
  the reviews and the balances of runs.  The statement is about the whole passage of a request through
  rate limit, guards, interceptors and handler (serve_shop_route).

  The lemmas go through every operation the routes call and show that it leaves alone the rows of
  every user but the one it acts for; keeps_serve_caller of Callers makes this user the caller.
\<close>

section \<open>The rows of a customer\<close>

definition shop_of :: "int \<Rightarrow> 'x agents_scheme \<Rightarrow> cart_row list \<times> purchase_row list \<times> review_row list \<times> user_runs_row list" where
  "shop_of u s = (t_filter (\<lambda>c. c_userId c = Some u) (agents_cart_item s), t_filter (\<lambda>b. b_userId b = u) (agents_purchase s),
     t_filter (\<lambda>v. v_authorUserId v = u) (agents_review s), t_filter (\<lambda>r. ru_userId r = u) (agents_user_runs s))"

definition shop_tables :: "'x agents_scheme \<Rightarrow> bool" where
  "shop_tables s \<longleftrightarrow> wf_table l_id (agents_listing s) \<and> wf_table v_id (agents_review s) \<and> wf_table ru_id (agents_user_runs s)"

text \<open>The invariant of the shop, which every route keeps (keeps_shop_route), has the tables in order.\<close>

lemma shop_ok_tables: "shop_ok s \<Longrightarrow> shop_tables s"
  by (simp add: shop_ok_def market_ok_def catalog_ok_def runs_ok_def reviews_ok_def written_reviews_def shop_tables_def)

text \<open>The tables are in order and the rows of u are R.\<close>

definition rows_of :: "int \<Rightarrow> cart_row list \<times> purchase_row list \<times> review_row list \<times> user_runs_row list \<Rightarrow> 'x agents_scheme \<Rightarrow> bool" where
  "rows_of u R s \<longleftrightarrow> shop_tables s \<and> shop_of u s = R"

lemma rows_of_same:
  assumes "sys.more t = sys.more s"
  shows "rows_of u R t = rows_of u R s"
  unfolding rows_of_def shop_tables_def shop_of_def market_fields [OF assms] by (rule refl)

lemma on_market_rows: "on_market (rows_of u R)"
  by (rule on_marketI) (rule rows_of_same)

lemma rows_of_others [simp]:
  "rows_of u R (agents_run_pack_update f s) = rows_of u R s" "rows_of u R (agents_run_event_update g s) = rows_of u R s"
  by (simp_all add: rows_of_def shop_tables_def shop_of_def)

lemma rows_of_listing: "rows_of u R s \<Longrightarrow> wf_table l_id (f (agents_listing s)) \<Longrightarrow> rows_of u R (agents_listing_update f s)"
  by (simp add: rows_of_def shop_tables_def shop_of_def)

lemma rows_of_cart: "rows_of u R s \<Longrightarrow> t_filter (\<lambda>c. c_userId c = Some u) (f (agents_cart_item s)) = t_filter (\<lambda>c. c_userId c = Some u) (agents_cart_item s) \<Longrightarrow>
    rows_of u R (agents_cart_item_update f s)"
  by (simp add: rows_of_def shop_tables_def shop_of_def)

lemma rows_of_purchase: "rows_of u R s \<Longrightarrow> t_filter (\<lambda>b. b_userId b = u) (f (agents_purchase s)) = t_filter (\<lambda>b. b_userId b = u) (agents_purchase s) \<Longrightarrow>
    rows_of u R (agents_purchase_update f s)"
  by (simp add: rows_of_def shop_tables_def shop_of_def)

lemma rows_of_review: "rows_of u R s \<Longrightarrow> wf_table v_id (f (agents_review s)) \<Longrightarrow>
    t_filter (\<lambda>v. v_authorUserId v = u) (f (agents_review s)) = t_filter (\<lambda>v. v_authorUserId v = u) (agents_review s) \<Longrightarrow>
    rows_of u R (agents_review_update f s)"
  by (simp add: rows_of_def shop_tables_def shop_of_def)

lemma rows_of_runs: "rows_of u R s \<Longrightarrow> wf_table ru_id (f (agents_user_runs s)) \<Longrightarrow>
    t_filter (\<lambda>r. ru_userId r = u) (f (agents_user_runs s)) = t_filter (\<lambda>r. ru_userId r = u) (agents_user_runs s) \<Longrightarrow>
    rows_of u R (agents_user_runs_update f s)"
  by (simp add: rows_of_def shop_tables_def shop_of_def)

section \<open>Listings\<close>

lemma keeps_pricing_shape: "keeps P (assertPricingShape dto)"
  unfolding assertPricingShape_def by (cases "cl_pricingType dto") (auto intro: keeps_intros)

lemma keeps_rows_listing:
  "keeps (rows_of u R) (listing_create pf m dto)" "keeps (rows_of u R) (submitForReview pf i m ctx)" "keeps (rows_of u R) (recordView pf slug n)"
  "keeps (rows_of u R) (recomputeRating pf i)"
  "(\<And>l. l_id (g l) = l_id l) \<Longrightarrow> keeps (rows_of u R) (listing_bump now i g)"
proof -
  have wf: "wf_table l_id (agents_listing s)" if "rows_of u R s" for s :: "'x agents_scheme"
    using that by (simp add: rows_of_def shop_tables_def)
  have ins: "keeps (rows_of u R) (listing_insert (listing_of_dto now m dto))" for now
    unfolding listing_insert_def
    by (intro keeps_intros keeps_create_in rows_of_listing) (auto simp: wf intro!: keeps_intros split: option.splits)
  have pack: "keeps (rows_of u R) (pack_insert l ip)" for l ip
    unfolding pack_insert_def by (cases ip) (auto intro!: keeps_intros keeps_create_in)
  show "keeps (rows_of u R) (listing_create pf m dto)"
    unfolding listing_create_def listing_create_tx_def
    by (intro keeps_intros keeps_pricing_shape ins pack)
  have upd: "keeps (rows_of u R) (listing_update now j g)" if "\<And>l. l_id (g l) = l_id l" for now j g
    unfolding listing_update_def by (intro keeps_intros keeps_update_in rows_of_listing) (simp_all add: wf that)
  have ready: "keeps (rows_of u R) (assertSubmissionReady l)" for l
    unfolding assertSubmissionReady_def by (cases "l_pricingType l") (auto intro!: keeps_intros)
  show "keeps (rows_of u R) (submitForReview pf i m ctx)"
    unfolding submitForReview_def submit_tx_def lockAndLoad_def assertTransition_def findAdminUserIds_def
    by (auto intro!: keeps_intros upd ready on_market_rows split: option.splits)
  show "keeps (rows_of u R) (recordView pf slug n)"
    unfolding recordView_def by (intro keeps_intros keeps_modify rows_of_listing) (simp_all add: wf)
  show "keeps (rows_of u R) (recomputeRating pf i)"
    unfolding recomputeRating_def by (intro keeps_intros keeps_update_in rows_of_listing) (simp_all add: wf)
  show "keeps (rows_of u R) (listing_bump now i g)" if "\<And>l. l_id (g l) = l_id l"
    unfolding listing_bump_def by (intro keeps_intros keeps_update_in rows_of_listing) (simp_all add: wf that)
qed

section \<open>Cart and checkout\<close>

lemma keeps_rows_cart:
  assumes "me \<noteq> u"
  shows "keeps (rows_of u R) (addItem pf me item)" "keeps (rows_of u R) (removeItem me i)" "keeps (rows_of u R) (cart_clearForUser me)"
    "keeps (rows_of u R) (mergeGuestCart pf me guest)"
proof -
  show add: "keeps (rows_of u R) (addItem pf me item)" for item
    unfolding addItem_def cart_check_def cart_insert_def cart_create_def
    by (auto intro!: keeps_intros keeps_create_in rows_of_cart filter_insert split: option.splits exn.splits)
       (use assms in \<open>simp_all\<close>)
  show "keeps (rows_of u R) (removeItem me i)" "keeps (rows_of u R) (cart_clearForUser me)"
    unfolding removeItem_def cart_clearForUser_def
    by (auto intro!: keeps_intros keeps_modify rows_of_cart filter_delete) (use assms in \<open>simp_all\<close>)
  have "keeps (rows_of u R) (merge_items pf me guest r)" for r
    by (induction guest arbitrary: r) (auto simp: merge_one_def intro!: keeps_intros add)
  then show "keeps (rows_of u R) (mergeGuestCart pf me guest)" by (simp add: mergeGuestCart_def)
qed

lemma rows_grant:
  assumes "rows_of u R s" "me \<noteq> u"
  shows "rows_of u R (agents_user_runs_update (grant_runs me l n) s)"
proof -
  have wf: "wf_table ru_id (agents_user_runs s)" using assms(1) by (simp add: rows_of_def shop_tables_def)
  show ?thesis
  proof (cases "t_find (\<lambda>r. ru_userId r = me \<and> ru_listingId r = l) (agents_user_runs s)")
    case None
    then show ?thesis
      by (intro rows_of_runs [OF assms(1)]) (use wf assms(2) in \<open>simp_all add: grant_runs_def filter_insert\<close>)
  next
    case (Some r)
    from t_find_Some [OF this] have r: "t_get ru_id (ru_id r) (agents_user_runs s) = Some r" "ru_userId r = me"
      using t_get_self [OF wf] by auto
    show ?thesis
      by (intro rows_of_runs [OF assms(1)])
         (use wf assms(2) r in \<open>simp_all add: grant_runs_def Some filter_change [OF wf r(1)]\<close>)
  qed
qed

lemma keeps_rows_checkout:
  assumes "me \<noteq> u"
  shows "keeps (rows_of u R) (checkout pf ab me)"
proof -
  have settle: "keeps (rows_of u R) (settle_line now me line)" for now line
    unfolding settle_line_def purchase_create_def
    by (auto intro!: keeps_intros keeps_create_in keeps_modify rows_of_purchase rows_grant filter_insert keeps_rows_listing split: option.splits)
       (use assms in \<open>simp_all add: purchase_of_def\<close>)
  have "keeps (rows_of u R) (checkout_tx pf me)"
    unfolding checkout_tx_def by (auto simp: Let_def intro!: keeps_intros settle keeps_rows_cart assms)
  then have run: "keeps (rows_of u R) (runWithSerializationRetry pf ab me)"
    by (auto simp: runWithSerializationRetry_def attempt_def intro!: keeps_intros split: option.splits)
  show ?thesis
    unfolding checkout_def dispatchPostCommit_def clearLowRunsDedup_def
    by (auto intro!: keeps_intros run on_market_rows)
qed

section \<open>Reviews\<close>

lemma rows_review_change:
  assumes "rows_of u R s" "review_find me i s = Some v" "me \<noteq> u" "\<And>r. v_id (g r) = v_id r" "\<And>r. v_authorUserId (g r) = v_authorUserId r"
  shows "rows_of u R (agents_review_update (t_change v_id (v_id v) g) s)"
proof -
  have wf: "wf_table v_id (agents_review s)" using assms(1) by (simp add: rows_of_def shop_tables_def)
  have "v_authorUserId v \<noteq> u" using review_find_Some [OF assms(2)] assms(3) by simp
  then show ?thesis
    by (intro rows_of_review [OF assms(1)])
       (use wf assms(4,5) in \<open>simp_all add: filter_change [OF wf review_find_get [OF wf assms(2)]]\<close>)
qed

lemma rows_rated: "rows_of u R s \<Longrightarrow> rows_of u R (rated_state pf i s)"
  unfolding rated_state_def by (rule rows_of_listing) (simp_all add: rows_of_def shop_tables_def)

lemma keeps_rows_reviews:
  "pi_userId pin \<noteq> u \<Longrightarrow> keeps (rows_of u R) (review_post pf pin)"
  "ui_userId ui \<noteq> u \<Longrightarrow> keeps (rows_of u R) (review_edit pf ui)"
  "me \<noteq> u \<Longrightarrow> keeps (rows_of u R) (review_delete pf me i)"
proof -
  have wf: "wf_table v_id (agents_review s)" if "rows_of u R s" for s :: "'x agents_scheme"
    using that by (simp add: rows_of_def shop_tables_def)
  show "keeps (rows_of u R) (review_post pf pin)" if me: "pi_userId pin \<noteq> u"
    unfolding keeps_def
  proof (intro allI impI)
    fix s :: "'x agents_scheme" assume s: "rows_of u R s"
    have w: "rows_of u R (agents_review_update (post_write (pf_now pf) pin s) s)"
    proof (cases "review_find (pi_userId pin) (pi_listingId pin) s")
      case None
      then show ?thesis
        by (intro rows_of_review [OF s]) (use wf [OF s] me in \<open>simp_all add: post_write_def review_of_def filter_insert\<close>)
    next
      case (Some v)
      then show ?thesis
        using rows_review_change [OF s Some me, of "review_edited (pf_now pf) pin"] by (simp add: post_write_def review_edited_def)
    qed
    from review_post_run [OF wf [OF s], of pf pin] show "rows_of u R (snd (review_post pf pin s))"
      using s rows_rated [OF w] rows_of_same by fastforce
  qed
  show "keeps (rows_of u R) (review_edit pf ui)" if me: "ui_userId ui \<noteq> u"
    unfolding keeps_def
  proof (intro allI impI)
    fix s :: "'x agents_scheme" assume s: "rows_of u R s"
    have w: "rows_of u R (edited_state pf ui v s)" if "review_find (ui_userId ui) (ui_listingId ui) s = Some v" for v
      using rows_review_change [OF s that me, of "edited_row (pf_now pf) ui"]
      by (simp add: edited_state_def Let_def edited_row_def review_data_fields rows_rated)
    from review_edit_run [OF wf [OF s], of pf ui] show "rows_of u R (snd (review_edit pf ui s))"
      using s w by auto
  qed
  show "keeps (rows_of u R) (review_delete pf me i)" if "me \<noteq> u"
    unfolding review_delete_def
    by (auto intro!: keeps_intros keeps_modify rows_of_review keeps_rows_listing filter_delete simp: wf) (use that in simp)
qed

section \<open>Runs\<close>

lemma keeps_rows_consume:
  assumes "ci_userId input \<noteq> u"
  shows "keeps (rows_of u R) (consume pf input)"
proof -
  have upd: "keeps (rows_of u R) (consume_update now me l)" if "me \<noteq> u" for now me l
    unfolding keeps_def
  proof (intro allI impI)
    fix s :: "'x agents_scheme" assume s: "rows_of u R s"
    then have wf: "wf_table ru_id (agents_user_runs s)" by (simp add: rows_of_def shop_tables_def)
    show "rows_of u R (snd (consume_update now me l s))"
    proof (cases "t_find (\<lambda>r. ru_userId r = me \<and> ru_listingId r = l \<and> 0 < ru_remainingRuns r) (agents_user_runs s)")
      case (Some r)
      from t_find_Some [OF this] have r: "t_get ru_id (ru_id r) (agents_user_runs s) = Some r" "ru_userId r = me"
        using t_get_self [OF wf] by auto
      have "rows_of u R (agents_user_runs_update (t_change ru_id (ru_id r) (spend_run now)) s)"
        by (intro rows_of_runs [OF s]) (use wf that r in \<open>simp_all add: spend_run_def filter_change [OF wf r(1)]\<close>)
      then show ?thesis using Some by (simp add: consume_update_def run_simps)
    qed (use s in \<open>simp add: consume_update_def run_simps\<close>)
  qed
  have ev: "keeps (rows_of u R) (recordEvent now me l oc ip ua)" for now me l oc ip ua
    unfolding recordEvent_def by (auto intro!: keeps_intros keeps_create_in split: option.splits)
  have th: "keeps (rows_of u R) (dispatchThresholdNotifications pf me l title n)" for me l title n
    unfolding dispatchThresholdNotifications_def by (auto intro!: keeps_intros on_market_rows split: option.splits)
  show ?thesis
    unfolding consume_def Let_def
    by (auto intro!: upd ev th keeps_rows_listing keeps_intros assms split: option.splits)
qed

text \<open>The plain key of a listing that sells runs.\<close>

definition agent_key :: "platform \<Rightarrow> string \<Rightarrow> string \<Rightarrow> 'x agents_scheme \<Rightarrow> bool" where
  "agent_key pf slug key s = (case consume_listing slug s of
       None \<Rightarrow> False
     | Some l \<Rightarrow> l_status l = LS_PUBLISHED \<and> l_pricingType l = PER_RUN \<and>
         (case l_apiKeyHash l of None \<Rightarrow> False | Some h \<Rightarrow> hex_bytes (pf_sha256 pf key) = hex_bytes h))"

text \<open>The request spends a run of u, in the name of an agent whose key it carries.\<close>

definition spends_for :: "platform \<Rightarrow> int \<Rightarrow> http_request \<Rightarrow> 'x agents_scheme \<Rightarrow> bool" where
  "spends_for pf u req s = (case ConsumeBodySchema (rq_body req) of
       Inr (Some (slug, v)) \<Rightarrow> v = u \<and> (case nonempty (map_of (rq_headers req) ''x-agent-api-key'') of
           None \<Rightarrow> False
         | Some key \<Rightarrow> agent_key pf slug key s)
     | _ \<Rightarrow> False)"

lemma spends_for_same:
  assumes "agents_listing t = agents_listing s"
  shows "spends_for pf u req t = spends_for pf u req s"
proof -
  have "agent_key pf slug key t = agent_key pf slug key s" for slug key
    by (simp add: agent_key_def consume_listing_def assms)
  then show ?thesis by (auto simp: spends_for_def split: sum.splits option.splits)
qed

lemma spends_for_log [simp]:
  "spends_for pf u req (redis_store_update f s) = spends_for pf u req s" "spends_for pf u req (audit_logs_update g s) = spends_for pf u req s"
  by (rule spends_for_same, simp)+

lemma off_log_spends: "off_log (\<lambda>s. rows_of u R s \<and> \<not> spends_for pf u req s)"
  by (simp add: off_log_def rows_of_def shop_tables_def shop_of_def)

lemma keeps_rows_consume_route: "keeps (\<lambda>s. rows_of u R s \<and> \<not> spends_for pf u req s) (consume_route pf req)"
  unfolding keeps_def
proof (intro allI impI)
  fix s :: "'x agents_scheme" assume s: "rows_of u R s \<and> \<not> spends_for pf u req s"
  let ?P = "\<lambda>s. rows_of u R s \<and> \<not> spends_for pf u req s"
  show "?P (snd (consume_route pf req s))"
  proof (cases "\<exists>slug v key. ConsumeBodySchema (rq_body req) = Inr (Some (slug, v)) \<and>
      nonempty (map_of (rq_headers req) ''x-agent-api-key'') = Some key")
    case False
    then have "snd (consume_route pf req s) = s"
      by (auto simp: consume_route_def zod_run_def run_simps split: sum.splits option.splits)
    then show ?thesis using s by simp
  next
    case True
    then obtain slug v key where b: "ConsumeBodySchema (rq_body req) = Inr (Some (slug, v))"
        "nonempty (map_of (rq_headers req) ''x-agent-api-key'') = Some key" by blast
    let ?in = "\<lparr>ci_listingSlug = slug, ci_userId = v, ci_apiKeyPlaintext = key,
        ci_ipAddress = rq_ip req, ci_userAgent = map_of (rq_headers req) ''user-agent''\<rparr>"
    have run: "snd (consume_route pf req s) = snd (consume pf ?in s)"
      by (auto simp: consume_route_def zod_run_def b run_simps split: prod.splits sum.splits)
    show ?thesis
    proof (cases "v = u")
      case False
      have "rows_of u R (snd (consume pf ?in s))"
        by (rule keepsD [OF keeps_rows_consume]) (use False s in simp_all)
      moreover have "\<not> spends_for pf u req t" for t :: "'x agents_scheme" using False by (simp add: spends_for_def b)
      ultimately show ?thesis by (simp add: run)
    next
      case True
      then have "\<not> opens pf ?in s l" for l
        using s by (auto simp: spends_for_def b agent_key_def opens_def)
      then have e: "events_only s (snd (consume pf ?in s))"
        using consume_cases [of s pf ?in] s by (fastforce simp: rows_of_def shop_tables_def)
      from events_only_fields [OF e] have "rows_of u R (snd (consume pf ?in s))"
        using s by (simp add: rows_of_def shop_tables_def shop_of_def)
      then show ?thesis using s spends_for_same [OF events_only_fields(1) [OF e]] by (simp add: run)
    qed
  qed
qed

section \<open>The routes\<close>

definition cart_writes :: "shop_route list" where
  "cart_writes = [CartAdd, CartRemove, CartMerge, Checkout]"

definition review_writes :: "shop_route list" where
  "review_writes = [ReviewPost, ReviewUpdate, ReviewDelete]"

lemma keeps_rows_handler:
  assumes "r \<noteq> ConsumeRun" "r \<notin> set (cart_writes @ review_writes) \<or> rq_user req \<noteq> Some u"
  shows "keeps (rows_of u R) (shop_handler pf env r query req)"
proof -
  have sections: "keeps (rows_of u R) (sections_get sec pf)" "keeps (rows_of u R) (findAllPublic pf)" for sec
    by (cases sec) (auto simp: findFeatured_def findBestSellers_def findNewReleases_def findRecentActivity_def
      findAllPublic_def getCachedSection_def intro!: keeps_shop_cached on_market_rows keeps_gets)
  show ?thesis
    using assms
    by (cases r; cases "rq_user req")
       (auto simp: shop_handler_def shop_handler_defs with_user_def cart_writes_def review_writes_def
         intro!: keeps_intros keeps_rows_listing keeps_rows_cart keeps_rows_checkout keeps_rows_reviews keeps_shop_reads sections keeps_optional_guard
         split: option.splits)
qed

text \<open>C27. Whatever request reaches a marketplace route: if it changes the cart, the purchases, the
  reviews or the run balances of a user, then it was a cart call or a checkout whose token names that
  user, or a review call whose token names that user, who may review, or a consumption that names the
  user and carries the key of a listing that sells runs.\<close>

theorem shop_rows_changed_by_owner:
  assumes "serve_shop_route pf uuids env r query req s = (x, t)" "shop_tables s" "shop_of u t \<noteq> shop_of u s"
  shows "r \<in> set cart_writes \<and> caller pf req = Some u \<or>
    r \<in> set review_writes \<and> caller pf req = Some u \<and> u \<noteq> 0 \<and> (holds s u ''agents:review:owned'' \<or> holds s u ''super:everything'') \<or>
    r = ConsumeRun \<and> spends_for pf u req s"
proof -
  let ?R = "shop_of u s"
  have s: "rows_of u ?R s" and t: "\<not> rows_of u ?R t" using assms(2,3) by (simp_all add: rows_of_def)
  have off: "off_log (rows_of u ?R)" by (rule off_log_market [OF on_market_rows])
  have written: "r = ConsumeRun \<or> r \<in> set (cart_writes @ review_writes)"
  proof (rule ccontr)
    assume n: "\<not> (r = ConsumeRun \<or> r \<in> set (cart_writes @ review_writes))"
    have "keeps (rows_of u ?R) (serve_shop_route pf uuids env r query req)"
      unfolding serve_shop_route_def by (rule keeps_serve_route [OF off keeps_rows_handler]) (use n in auto)
    from keepsD [OF this s] show False using t assms(1) by simp
  qed
  show ?thesis
  proof (cases "r = ConsumeRun")
    case True
    have "spends_for pf u req s"
    proof (rule ccontr)
      assume n: "\<not> spends_for pf u req s"
      have "keeps (\<lambda>s. rows_of u ?R s \<and> \<not> spends_for pf u req s) (serve_shop_route pf uuids env r query req)"
        unfolding serve_shop_route_def
        by (rule keeps_serve_open [OF off_log_spends])
           (use keeps_rows_consume_route [of u ?R pf req] True in
            \<open>simp_all add: shop_handler_def shop_decorators_def decorator_defs route_of_def\<close>)
      from keepsD [OF this] s n show False using t assms(1) by fastforce
    qed
    then show ?thesis using True by simp
  next
    case False
    then have w: "r \<in> set (cart_writes @ review_writes)" using written by simp
    then have auth: "rt_auth (route_of (shop_decorators r))"
      by (auto simp: cart_writes_def review_writes_def shop_decorators_def review_guards_def decorator_defs route_of_def)
    have c: "caller pf req = Some u"
    proof (rule ccontr)
      assume n: "caller pf req \<noteq> Some u"
      have "keeps (rows_of u ?R) (serve_shop_route pf uuids env r query req)"
        unfolding serve_shop_route_def
        by (rule keeps_serve_caller [OF off auth keeps_rows_handler]) (use False n in auto)
      from keepsD [OF this s] show False using t assms(1) by simp
    qed
    show ?thesis
    proof (cases "r \<in> set review_writes")
      case True
      then have p: "rt_permission (route_of (shop_decorators r)) = Some ''agents:review:owned''"
        by (auto simp: review_writes_def shop_decorators_def review_guards_def decorator_defs route_of_def)
      have "but_redis t \<noteq> but_redis s"
        using off_log_redis [OF off, of t s] s t by auto
      with permission_barrier [OF auth p _ assms(1) [unfolded serve_shop_route_def]] True c
      show ?thesis by (auto simp: caller_def)
    qed (use w c in simp)
  qed
qed

text \<open>A cart with a line of user 1 and a line of user 2.\<close>

definition sample_carts :: agents where
  "sample_carts = sys.extend sample_sys (agents.fields empty_table empty_table empty_table empty_table
     \<lparr>next_id = 3, rows = [sample_cart_row 1 1 1 None, sample_cart_row 2 2 1 None]\<rparr>
     empty_table empty_table empty_table empty_table empty_table)"

definition sample_cart_removal :: http_request where
  "sample_cart_removal = (sample_call ''1'')\<lparr>rq_params := [(''cartItemId'', JStr ''1'')],
     rq_headers := [(''authorization'', ''Bearer 1''), (''idempotency-key'', ''k'')]\<rparr>"

lemma sample_removed:
  "map c_id (rows (agents_cart_item (snd (serve_shop_route sample_platform [''u''] sample_shop_env CartRemove JUndefined sample_cart_removal sample_carts)))) = [2]"
  by code_simp

lemma shop_rows_changed_by_owner_witness:
  "caller sample_platform sample_cart_removal = Some 1 \<and>
   map c_id (rows (agents_cart_item (snd (serve_shop_route sample_platform [''u''] sample_shop_env CartRemove JUndefined sample_cart_removal sample_carts)))) = [2]"
proof -
  let ?m = "serve_shop_route sample_platform [''u''] sample_shop_env CartRemove JUndefined sample_cart_removal sample_carts"
  have changed: "shop_of 1 (snd ?m) \<noteq> shop_of 1 sample_carts"
  proof
    assume "shop_of 1 (snd ?m) = shop_of 1 sample_carts"
    moreover have "filter (\<lambda>c. c_userId c = Some 1) (rows (agents_cart_item sample_carts)) = [sample_cart_row 1 1 1 None]"
      by (simp add: sample_carts_def sample_cart_row_def sys.defs agents.defs)
    ultimately have "sample_cart_row 1 1 1 None \<in> set (filter (\<lambda>c. c_userId c = Some 1) (rows (agents_cart_item (snd ?m))))"
      by (simp add: shop_of_def t_filter_def del: set_filter)
    then have "c_id (sample_cart_row 1 1 1 None) \<in> set (map c_id (rows (agents_cart_item (snd ?m))))"
      unfolding set_map set_filter by blast
    then show False unfolding sample_removed by (simp add: sample_cart_row_def)
  qed
  have tables: "shop_tables sample_carts"
    by (simp add: shop_tables_def sample_carts_def sys.defs agents.defs empty_table_def wf_table_def)
  from shop_rows_changed_by_owner [OF surjective_pairing tables changed] sample_removed
  show ?thesis by (simp add: cart_writes_def review_writes_def)
qed

end
