(* ===== verification/SignIn.thy ===== *)
theory SignIn
  imports Access
begin

text \<open>
  The sign-in flow across its components (auth.controller.ts, otp.service.ts,
  users.service.ts, sessions.service.ts): a code requested for a phone and submitted
  within its life time signs the phone in, creating the account when there is none.
\<close>

lemma insort_last: "f x \<le> f a \<Longrightarrow> insort_key f x (ys @ [a]) = insort_key f x ys @ [a]"
  by (induction ys) auto

lemma sort_key_last: "(\<forall>x \<in> set xs. f x \<le> f a) \<Longrightarrow> sort_key f (xs @ [a]) = sort_key f xs @ [a]"
  by (induction xs) (auto simp: insort_last)

lemma otp_keys: "otp_phone p \<Longrightarrow> otpKey p \<noteq> testKey q \<and> otpKey p \<noteq> lockKey q"
  by (cases p) (auto simp: otp_phone_def otpKey_def testKey_def lockKey_def)

definition new_attempt :: "platform \<Rightarrow> string \<Rightarrow> string \<Rightarrow> int \<Rightarrow> otp_attempt" where
  "new_attempt pf phone h i = \<lparr>o_id = i, o_phone = phone, o_codeHash = h, o_attempts = 0,
     o_expiresAt = pf_now pf + OTP_TTL_SECONDS * 1000, o_consumedAt = None, o_createdAt = pf_now pf\<rparr>"

text \<open>What a successful request leaves: the new attempt, and its hash under the phone's key.\<close>

definition requested :: "platform \<Rightarrow> string \<Rightarrow> string \<Rightarrow> (redis \<Rightarrow> redis) \<Rightarrow> 'x sys_scheme \<Rightarrow> 'x sys_scheme" where
  "requested pf p code F s =
     redis_store_update F (otp_attempts_update (t_insert (new_attempt pf p (hashCode pf code p))) s)"

definition stores_code :: "platform \<Rightarrow> string \<Rightarrow> string \<Rightarrow> redis \<Rightarrow> bool" where
  "stores_code pf p code R \<longleftrightarrow>
     map_of R (otpKey p) = Some (RStr (hashCode pf code p), Some (pf_now pf + OTP_TTL_SECONDS * 1000))"

lemma generate_ok:
  assumes "generateAndStore pf random p s = (Inr x, t)" "otp_phone p"
  shows "fst x = generateCode pf random \<and> char_count p \<le> 15 \<and>
    (\<exists>F. t = requested pf p (generateCode pf random) F s \<and> stores_code pf p (generateCode pf random) (F (redis_store s)))"
proof -
  let ?c = "generateCode pf random"
  let ?F = "r_put (otpKey p) (RStr (hashCode pf ?c p)) (Some (pf_now pf + OTP_TTL_SECONDS * 1000)) \<circ>
    r_put (lockKey p) (RStr ''1'') (Some (pf_now pf + OTP_LOCK_SECONDS * 1000))"
  let ?G = "r_put (testKey p) (RStr ?c) (Some (pf_now pf + OTP_TTL_SECONDS * 1000)) \<circ> ?F"
  have acq: "r_lookup (pf_now pf) (lockKey p) (redis_store s) = None"
    using assms(1) by (auto simp: generateAndStore_def bind_def redis_runs redis_ttl_def gets_def throw_def split: option.splits)
  then have r: "x = (?c, OTP_TTL_SECONDS)" "char_count p \<le> 15"
    "t = requested pf p ?c (if pf_node_env pf = ''test'' then ?G else ?F) s"
    using assms(1)
    by (auto simp: generateAndStore_def run_simps redis_runs otp_create_def create_in_def Let_def
        new_attempt_def [abs_def] requested_def split: if_splits)
  moreover have "stores_code pf p ?c ((if pf_node_env pf = ''test'' then ?G else ?F) (redis_store s))"
    using otp_keys [OF assms(2), of p] by (simp add: stores_code_def)
  ultimately show ?thesis by auto
qed

lemma verify_requested:
  fixes s :: "'x sys_scheme"
  assumes "u = requested pf p code F s" "stores_code pf p code (F (redis_store s))"
    and "wf_table o_id (otp_attempts s)" "\<forall>a \<in> set (rows (otp_attempts s)). o_createdAt a \<le> pf_now pf"
    and "hashCode pf code p \<noteq> []" "now \<le> pf_now pf + 120000"
  shows "otp_verify (pf_at now pf) p code u =
    (Inr (Valid (find_user_by_phone p s \<noteq> None)),
     otp_attempts_update (t_change o_id (next_id (otp_attempts s)) (\<lambda>a. a\<lparr>o_attempts := o_attempts a + 1\<rparr>)) u)"
proof -
  let ?h = "hashCode pf code p" and ?a = "new_attempt pf p (hashCode pf code p) (next_id (otp_attempts s))"
  have T: "otp_attempts u = t_insert (new_attempt pf p ?h) (otp_attempts s)" and R: "redis_store u = F (redis_store s)"
    by (simp_all add: assms(1) requested_def)
  have n: "pf_now (pf_at now pf) = now" by (simp add: pf_now_def pf_at_def)
  have get: "redis_get now (otpKey p) u = (Inr (Some ?h), u)"
    using assms(2,6) by (simp add: redis_runs R r_lookup_map_of stores_code_def r_alive_def OTP_TTL_SECONDS_def)
  have P: "t_filter (\<lambda>a. o_phone a = p \<and> o_consumedAt a = None \<and> o_codeHash a = ?h) (otp_attempts u) =
      t_filter (\<lambda>a. o_phone a = p \<and> o_consumedAt a = None \<and> o_codeHash a = ?h) (otp_attempts s) @ [?a]"
    by (simp add: T t_filter_def table_simps new_attempt_def)
  have lat: "latest_attempt p (Some ?h) u = Some ?a"
    unfolding latest_attempt_def option.case P
    by (subst sort_key_last) (use assms(4) in \<open>auto simp: t_filter_def new_attempt_def\<close>)
  have own: "t_get o_id (next_id (otp_attempts s)) (otp_attempts u) = Some ?a"
    unfolding T by (rule tbl.create_own [OF assms(3)]) (simp add: new_attempt_def)
  have fu: "find_user_by_phone p (otp_attempts_update f u) = find_user_by_phone p s" for f
    by (simp add: assms(1) requested_def find_user_by_phone_def)
  have id: "o_id ?a = next_id (otp_attempts s)" "o_attempts ?a = 0" "\<not> o_expiresAt ?a < now" "o_codeHash ?a = ?h"
    using assms(6) by (simp_all add: new_attempt_def OTP_TTL_SECONDS_def)
  show ?thesis
    using assms(5) get lat own fu id
    by (simp add: otp_verify_def verify_attempt_def bind_def gets_def return_def n nonempty_def Let_def update_in_def
        MAX_ATTEMPTS_def users_findByPhone_def)
qed

section \<open>The account and its session\<close>

lemma assign_known:
  assumes "find_user u s = Some a" "t_get r_id r (roles s) = Some q"
  shows "\<exists>t. assignRoleToUser u r sc s = (Inr (), t) \<and> users t = users s \<and> sessions t = sessions s"
  using assms by (auto simp: assignRoleToUser_def run_simps)

lemma create_account:
  assumes "find_user_by_phone p s = None" "accounts_ok (users s)" "wf_table r_id (roles s)" "char_count p \<le> 15"
  shows "\<exists>usr t. users_create pf p s = (Inr usr, t) \<and> u_phone usr = p \<and> find_user (u_id usr) t = Some usr \<and>
    sessions t = sessions s"
proof -
  let ?f = "new_user (pf_now pf) p PENDING_PROFILE"
  let ?n = "?f (next_id (users s))" and ?s1 = "users_update (t_insert ?f) s"
  have nophone: "\<forall>r \<in> set (rows (users s)). u_phone r \<noteq> p"
    using assms(1) by (simp add: find_user_by_phone_def t_find_None)
  then have "unique_clash (users s) ?n = None" "user_fits ?n"
    using assms(4) by (auto simp: unique_clash_def t_exists_def list_ex_iff new_user_def user_fits_def vfits_def)
  then have ins: "user_insert (pf_now pf) p PENDING_PROFILE s = (Inr ?n, ?s1)"
    by (simp add: user_insert_def check_user_def run_simps create_in_def t_new_def)
  have own: "find_user (u_id ?n) ?s1 = Some ?n"
    using tbl.create_own [of u_id "users s" ?f] assms(2)
    by (simp add: find_user_def accounts_ok_def new_user_def)
  have ph: "u_phone ?n = p" by (simp add: new_user_def)
  show ?thesis
  proof (cases "find_role ''member'' ?s1")
    case None
    then have "users_create pf p s = (Inr ?n, ?s1)" using ins by (simp add: users_create_def bind_def gets_def return_def)
    then show ?thesis using own ph by auto
  next
    case (Some r)
    then have "t_get r_id (r_id r) (roles ?s1) = Some r"
      using assms(3) by (auto simp: find_role_def dest!: t_find_Some intro: t_get_self)
    from assign_known [OF own this, of JUndefined] obtain t where
      t: "assignRoleToUser (u_id ?n) (r_id r) JUndefined ?s1 = (Inr (), t)" "users t = users ?s1" "sessions t = sessions ?s1"
      by blast
    then have "users_create pf p s = (Inr ?n, t)"
      using ins Some by (simp add: users_create_def bind_def gets_def return_def seq_def)
    moreover have "find_user (u_id ?n) t = Some ?n" using own t(2) by (simp add: find_user_def)
    ultimately show ?thesis using ph t(3) by auto
  qed
qed

lemma account_for_phone:
  assumes "accounts_ok (users s)" "wf_table r_id (roles s)" "char_count p \<le> 15"
  shows "\<exists>usr t. bind (users_findByPhone p) (\<lambda>found. case found of Some u \<Rightarrow> return u | None \<Rightarrow> users_create pf p) s = (Inr usr, t) \<and>
    u_phone usr = p \<and> find_user (u_id usr) t = Some usr \<and> sessions t = sessions s"
proof (cases "find_user_by_phone p s")
  case None
  then show ?thesis using create_account [OF None assms] by (simp add: bind_def users_findByPhone_def gets_def)
next
  case (Some u)
  then have "u \<in> set (rows (users s)) \<and> u_phone u = p" by (auto simp: find_user_by_phone_def dest: t_find_Some)
  then show ?thesis using Some t_get_self [of u_id "users s" u] assms(1)
    by (auto simp: bind_def users_findByPhone_def gets_def return_def find_user_def accounts_ok_def)
qed

lemma issue_for:
  assumes "find_user u s = Some a" "pf_ms pf (pf_jwt_refresh_expires_in pf) = Some ttl" "length (pf_sha256 pf raw) \<le> 128"
    and "fits 512 ua" "fits 45 ip" "\<forall>r \<in> set (rows (sessions s)). s_refreshTokenHash r \<noteq> pf_sha256 pf raw"
  shows "\<exists>tk t row. issueTokens pf raw jti u ua ip s = (Inr tk, t) \<and> users t = users s \<and>
    row \<in> set (rows (sessions t)) \<and> s_refreshTokenHash row = pf_sha256 pf raw \<and> s_userId row = u \<and> s_revokedAt row = None"
proof -
  let ?f = "\<lambda>i. \<lparr>s_id = i, s_userId = u, s_refreshTokenHash = pf_sha256 pf raw, s_userAgent = ua, s_ipAddress = ip,
      s_expiresAt = pf_now pf + ttl, s_revokedAt = None, s_createdAt = pf_now pf\<rparr>"
  have "\<not> t_exists (\<lambda>r. s_refreshTokenHash r = pf_sha256 pf raw) (sessions s)"
    using assms(6) by (auto simp: t_exists_def list_ex_iff)
  then have c: "session_create (pf_now pf) u (pf_sha256 pf raw) ua ip (pf_now pf + ttl) s =
      (Inr (t_new ?f (sessions s)), sessions_update (t_insert ?f) s)"
    using assms(1,3-5) by (simp add: session_create_def bind_def gets_def create_in_def)
  have "t_new ?f (sessions s) \<in> set (rows (sessions (sessions_update (t_insert ?f) s)))"
    by (simp add: table_simps t_new_def)
  moreover have "\<exists>tk. issueTokens pf raw jti u ua ip s = (Inr tk, sessions_update (t_insert ?f) s)"
    using c assms(2) by (simp add: issueTokens_def refreshTtlMs_def bind_def return_def)
  moreover have "users (sessions_update (t_insert ?f) s) = users s" by simp
  moreover have "s_refreshTokenHash (t_new ?f (sessions s)) = pf_sha256 pf raw" "s_userId (t_new ?f (sessions s)) = u"
    "s_revokedAt (t_new ?f (sessions s)) = None" by (simp_all add: t_new_def)
  ultimately show ?thesis by blast
qed

lemma self_view_for:
  assumes "find_user u s = Some a"
  shows "\<exists>v. findForSelf u s = (Inr (Some v), s) \<and> sv_id v = u \<and> sv_phone v = u_phone a"
proof -
  have "u_id a = u" using find_user_self [OF assms] by simp
  then show ?thesis using assms
    by (auto simp: findForSelf_def getUserPermissions_def run_simps)
qed

text \<open>C7. Signing in works: when a code has been requested for a phone, it went to the message
  log of that phone, and submitting it within two minutes answers the user of that phone,
  existing or new, with a fresh unrevoked session of that user.  The hypotheses on the
  environment are that the session lifetime parses, that the client's address and agent
  fit their columns, and that the random refresh token is new.\<close>

theorem requested_code_signs_in:
  assumes "accounts_ok (users s)" "wf_table r_id (roles s)" "wf_table o_id (otp_attempts s)"
    and "\<forall>a \<in> set (rows (otp_attempts s)). o_createdAt a \<le> pf_now pf"
    and "otp_phone p" "requestOtp pf random (JObj [(''phone'', JStr p)]) s = (Inr m, t)"
    and "code = generateCode pf random" "length code = 6" "all_digits code" "hashCode pf code p \<noteq> []"
    and "now \<le> pf_now pf + 120000"
    and "pf_ms pf (pf_jwt_refresh_expires_in pf) = Some ttl" "length (pf_sha256 pf raw) \<le> 128"
    and "\<forall>r \<in> set (rows (sessions s)). s_refreshTokenHash r \<noteq> pf_sha256 pf raw"
    and "fits 512 (map_of hs ''user-agent'')" "fits 45 (client_ip hs addr)"
  shows "(env_sms_provider (pf_env pf) = ''console'' \<longrightarrow> last (sms_sent t) = (p, otp_message code)) \<and>
    (\<exists>r v u row. verifyOtp (pf_at now pf) raw jti hs addr (JObj [(''phone'', JStr p), (''code'', JStr code)]) t = (Inr r, u) \<and>
       si_user r = Some v \<and> sv_phone v = p \<and> row \<in> set (rows (sessions u)) \<and>
       s_refreshTokenHash row = pf_sha256 pf raw \<and> s_userId row = sv_id v \<and> s_revokedAt row = None)"
proof -
  obtain x s1 where g: "generateAndStore pf random p s = (Inr x, s1)"
    and sms: "sms_send (pf_env pf) p (otp_message (fst x)) s1 = (Inr (), t)"
    using assms(5,6)
    by (cases "generateAndStore pf random p s"; cases "fst (generateAndStore pf random p s)")
       (auto simp: requestOtp_def zod_parse_def OtpRequestSchema_def jget_def bind_def return_def seq_def sms_send_def
         modify_def split: if_splits prod.splits)
  obtain F where F: "fst x = code" "char_count p \<le> 15" "s1 = requested pf p code F s" "stores_code pf p code (F (redis_store s))"
    using generate_ok [OF g assms(5)] assms(7) by auto
  obtain L where t: "t = requested pf p code F (sms_sent_update L s)"
    and sent: "env_sms_provider (pf_env pf) = ''console'' \<longrightarrow> last (sms_sent t) = (p, otp_message code)"
  proof (cases "env_sms_provider (pf_env pf) = ''console''")
    case True
    then have "t = requested pf p code F (sms_sent_update (\<lambda>l. l @ [(p, otp_message code)]) s)"
      using sms F by (auto simp: sms_send_def modify_def requested_def)
    then show ?thesis using that by (simp add: requested_def)
  next
    case False
    then have "t = requested pf p code F (sms_sent_update (\<lambda>l. l) s)"
      using sms F by (auto simp: sms_send_def return_def requested_def)
    then show ?thesis using that False by blast
  qed
  let ?pf = "pf_at now pf"
  obtain f where v: "otp_verify ?pf p code t = (Inr (Valid (find_user_by_phone p (sms_sent_update L s) \<noteq> None)), otp_attempts_update f t)"
    using verify_requested [OF t, of now] F(4) assms(3,4,10,11) by auto
  obtain h where c: "otp_consume ?pf p code (otp_attempts_update f t) =
      (Inr (), otp_attempts_update h (redis_store_update (r_del (otpKey p)) (otp_attempts_update f t)))"
    by (simp add: otp_consume_def run_simps redis_del_def)
  let ?s2 = "otp_attempts_update h (redis_store_update (r_del (otpKey p)) (otp_attempts_update f t))"
  have same: "users ?s2 = users s" "roles ?s2 = roles s" "sessions ?s2 = sessions s"
    by (simp_all add: t requested_def)
  obtain usr s3 where a: "bind (users_findByPhone p) (\<lambda>found. case found of Some u \<Rightarrow> return u | None \<Rightarrow> users_create ?pf p) ?s2 = (Inr usr, s3)"
    "u_phone usr = p" "find_user (u_id usr) s3 = Some usr" "sessions s3 = sessions ?s2"
    using account_for_phone [of ?s2 p ?pf] assms(1,2) F(2) same by auto
  obtain tk s4 row where i: "issueTokens ?pf raw jti (u_id usr) (map_of hs ''user-agent'') (client_ip hs addr) s3 = (Inr tk, s4)"
    "users s4 = users s3" "row \<in> set (rows (sessions s4))" "s_refreshTokenHash row = pf_sha256 pf raw"
    "s_userId row = u_id usr" "s_revokedAt row = None"
    using issue_for [OF a(3), of ?pf ttl raw "map_of hs ''user-agent''" "client_ip hs addr" jti] assms(12-16) a(4) same(3)
    by (auto simp: pf_at_def)
  have "find_user (u_id usr) s4 = Some usr" using a(3) i(2) by (simp add: find_user_def)
  from self_view_for [OF this] obtain w where w: "findForSelf (u_id usr) s4 = (Inr (Some w), s4)" "sv_id w = u_id usr" "sv_phone w = p"
    using a(2) by auto
  obtain y s3' where fp: "users_findByPhone p ?s2 = (Inr y, s3')" by (simp add: users_findByPhone_def gets_def)
  have cu: "(case y of Some u \<Rightarrow> return u | None \<Rightarrow> users_create ?pf p) s3' = (Inr usr, s3)"
    using a(1) fp by (simp add: bind_def)
  have sch: "OtpVerifySchema (JObj [(''phone'', JStr p), (''code'', JStr code)]) = Some (p, code)"
    using assms(5,8,9) by (simp add: OtpVerifySchema_def jget_def)
  have "\<exists>r. verifyOtp ?pf raw jti hs addr (JObj [(''phone'', JStr p), (''code'', JStr code)]) t = (Inr r, s4) \<and> si_user r = Some w"
    unfolding verifyOtp_def zod_parse_def sch
    using v c fp cu i(1) w(1) by (simp add: bind_def seq_def return_def)
  then show ?thesis using sent i w by metis
qed

lemma requested_code_signs_in_witness:
  "\<exists>m t r v u. requestOtp sample_platform 222222 (JObj [(''phone'', JStr ''+989120000001'')]) sample_accounts = (Inr m, t) \<and>
     verifyOtp (pf_at 61000 sample_platform) ''raw'' ''j'' [] None
       (JObj [(''phone'', JStr ''+989120000001''), (''code'', JStr ''222222'')]) t = (Inr r, u) \<and>
     si_user r = Some v \<and> sv_phone v = ''+989120000001''"
proof -
  let ?p = "''+989120000001''"
  have ph: "otp_phone ?p" "char_count ?p \<le> 15" by (simp add: otp_phone_def all_digits_def is_digit_def) code_simp
  obtain m t where rq: "requestOtp sample_platform 222222 (JObj [(''phone'', JStr ?p)]) sample_accounts = (Inr m, t)"
    using ph
    by (fastforce simp: requestOtp_def zod_parse_def OtpRequestSchema_def jget_def generateAndStore_def generateCode_def
        hashCode_def otp_create_def create_in_def sms_send_def run_simps redis_runs sample_accounts_def session_samples
        sample_defs Let_def)
  have code: "generateCode sample_platform 222222 = ''222222''" by (simp add: generateCode_def sample_platform_def)
  have "\<exists>r v u row. verifyOtp (pf_at 61000 sample_platform) ''raw'' ''j'' [] None
       (JObj [(''phone'', JStr ?p), (''code'', JStr ''222222'')]) t = (Inr r, u) \<and>
     si_user r = Some v \<and> sv_phone v = ?p \<and> row \<in> set (rows (sessions u)) \<and>
     s_refreshTokenHash row = pf_sha256 sample_platform ''raw'' \<and> s_userId row = sv_id v \<and> s_revokedAt row = None"
    by (rule requested_code_signs_in [OF sample_accounts_ok _ _ _ ph(1) rq code [symmetric], THEN conjunct2])
       (simp_all add: hashCode_def sample_accounts_def sample_sys_def wf_table_def empty_sys_def empty_table_def all_digits_def
         is_digit_def session_samples sample_env_def fits_def client_ip_def)
  then show ?thesis using rq by blast
qed

end
