(* ===== verification/WebClient.thy ===== *)
theory WebClient
  imports SignIn "HOL-Library.AList"
begin

text \<open>
  The API client of the browser (apps/web/src/lib/api-client.ts, with the headers of
  lib/admin-mutate.ts): sending, errors, and the silent refresh that all calls waiting for a new
  access token share, with at most one retry.  JavaScript is single-threaded, so the client is a
  state machine: a reply arriving is one step, with everything the code does before it waits for
  the network again; a reply counts as arrived when its body has been read.

  web_step is the step relation and answer_step its part that consumes an outstanding answer.
  The lemmas show the invariant web_ok (a refresh is under way exactly when a call waits for it,
  and what each call has sent) and a weight that every answer lowers, hence that all calls settle.
\<close>

section \<open>Replies and errors\<close>

text \<open>rp_body is None when the body is not JSON.\<close>

record http_reply =
  rp_status :: nat
  rp_statusText :: string
  rp_body :: "json option"

definition rp_ok :: "http_reply \<Rightarrow> bool" where
  "rp_ok r \<longleftrightarrow> 200 \<le> rp_status r \<and> rp_status r \<le> 299"

definition member :: "json \<Rightarrow> string \<Rightarrow> json" where
  "member v k = (case v of JObj o1 \<Rightarrow> jget o1 k | _ \<Rightarrow> JUndefined)"

definition present :: "json \<Rightarrow> json option" where
  "present v = (if v = JUndefined \<or> v = JNull then None else Some v)"

record api_error =
  er_status :: nat
  er_code :: json
  er_message :: json
  er_details :: json
  er_requestId :: json

definition peekErrorPayload :: "http_reply \<Rightarrow> json option" where
  "peekErrorPayload r = Option.bind (rp_body r) (\<lambda>b. present (member b ''error''))"

definition unknownErrorPayload :: "http_reply \<Rightarrow> json" where
  "unknownErrorPayload r = JObj [(''code'', JStr ''UNKNOWN''),
     (''message'', JStr (if rp_statusText r = [] then ''HTTP '' @ int_to_string (int (rp_status r)) else rp_statusText r))]"

definition ApiError :: "nat \<Rightarrow> json \<Rightarrow> api_error" where
  "ApiError status payload = \<lparr>er_status = status, er_code = member payload ''code'', er_message = member payload ''message'',
     er_details = member payload ''details'', er_requestId = member payload ''requestId''\<rparr>"

definition reply_error :: "http_reply \<Rightarrow> api_error" where
  "reply_error r = ApiError (rp_status r) (case peekErrorPayload r of Some p \<Rightarrow> p | None \<Rightarrow> unknownErrorPayload r)"

text \<open>A rejected promise: an ApiError, or what fetch or JSON parsing threw.\<close>

datatype failure = Api api_error | Other

datatype call_result = Success json | Failure failure

section \<open>Calls\<close>

record request_options =
  ro_idempotencyKey :: "string option"
  ro_skipAuth :: bool
  ro_headers :: "(string \<times> string) list"

definition no_options :: request_options where
  "no_options = \<lparr>ro_idempotencyKey = None, ro_skipAuth = False, ro_headers = []\<rparr>"

text \<open>Header names are case-insensitive: they are kept in lower case, a later set replaces.\<close>

definition header_set :: "string \<Rightarrow> string \<Rightarrow> (string \<times> string) list \<Rightarrow> (string \<times> string) list" where
  "header_set k v hs = AList.update (map lower_char k) v hs"

datatype body_kind = NoBody | JsonBody | FormBody

definition buildHeaders :: "string \<Rightarrow> string option \<Rightarrow> body_kind \<Rightarrow> request_options \<Rightarrow> (string \<times> string) list" where
  "buildHeaders uuid token body opts =
     (let h1 = header_set ''X-Request-Id'' uuid (header_set ''Accept-Language'' ''fa-IR''
                 (header_set ''Accept'' ''application/json'' []));
          h2 = (if body = JsonBody then header_set ''Content-Type'' ''application/json'' h1 else h1);
          h3 = (if ro_skipAuth opts then h2 else case nonempty token of
                  Some t \<Rightarrow> header_set ''Authorization'' (''Bearer '' @ t) h2 | None \<Rightarrow> h2);
          h4 = (case nonempty (ro_idempotencyKey opts) of
                  Some k \<Rightarrow> header_set ''Idempotency-Key'' k h3 | None \<Rightarrow> h3)
      in foldl (\<lambda>h (k, v). header_set k v h) h4 (ro_headers opts))"

definition resolveUrl :: "string \<Rightarrow> string \<Rightarrow> string" where
  "resolveUrl baseURL path =
     (if take 7 path = ''http://'' \<or> take 8 path = ''https://'' then path
      else if take 5 path = ''/api/'' then baseURL @ path
      else if take 1 path = ''/'' then baseURL @ ''/api/v1'' @ path
      else baseURL @ ''/api/v1/'' @ path)"

definition ADMIN_CONFIRM_HEADERS :: "(string \<times> string) list" where
  "ADMIN_CONFIRM_HEADERS = [(''X-Admin-Confirm'', ''true'')]"

definition adminMutate_options :: "request_options option \<Rightarrow> request_options" where
  "adminMutate_options opts = (let o1 = (case opts of Some x \<Rightarrow> x | None \<Rightarrow> no_options) in
     o1\<lparr>ro_headers := foldl (\<lambda>h (k, v). AList.update k v h) ADMIN_CONFIRM_HEADERS (ro_headers o1)\<rparr>)"

record api_call =
  ca_method :: string
  ca_path :: string
  ca_body :: body_kind
  ca_opts :: request_options
  ca_retry :: bool

datatype call_state =
    InFlight api_call
  | Waiting api_call
  | Settled call_result

text \<open>What was sent: the number of the call with the token it carried, or a refresh.\<close>

datatype sent = SentCall nat "string option" | SentRefresh

record web =
  wb_accessToken :: "string option"
  wb_refreshing :: bool
  wb_calls :: "call_state list"
  wb_at_login :: bool
  wb_log :: "sent list"

definition carried_token :: "web \<Rightarrow> api_call \<Rightarrow> string option" where
  "carried_token w c = (if ro_skipAuth (ca_opts c) then None else nonempty (wb_accessToken w))"

text \<open>request: a new call.\<close>

definition api_start :: "api_call \<Rightarrow> web \<Rightarrow> web" where
  "api_start c w = w\<lparr>wb_calls := wb_calls w @ [InFlight (c\<lparr>ca_retry := False\<rparr>)],
     wb_log := wb_log w @ [SentCall (length (wb_calls w)) (carried_token w c)]\<rparr>"

definition settle :: "nat \<Rightarrow> call_result \<Rightarrow> web \<Rightarrow> web" where
  "settle i out w = w\<lparr>wb_calls := (wb_calls w)[i := Settled out]\<rparr>"

text \<open>handleRefresh of call i: join the refresh under way, or start one.\<close>

definition handleRefresh :: "nat \<Rightarrow> api_call \<Rightarrow> web \<Rightarrow> web" where
  "handleRefresh i c w =
     (let w1 = w\<lparr>wb_calls := (wb_calls w)[i := Waiting c]\<rparr> in
      if wb_refreshing w then w1
      else w1\<lparr>wb_refreshing := True, wb_log := wb_log w @ [SentRefresh]\<rparr>)"

definition TOKEN_EXPIRED_CODE :: string where
  "TOKEN_EXPIRED_CODE = ''TOKEN_EXPIRED''"

text \<open>The reply to call i arrives; None is a fetch that rejects.\<close>

definition on_reply :: "nat \<Rightarrow> http_reply option \<Rightarrow> web \<Rightarrow> web" where
  "on_reply i reply w = (if i < length (wb_calls w) then (case wb_calls w ! i of
       InFlight c \<Rightarrow> (case reply of
           None \<Rightarrow> settle i (Failure Other) w
         | Some r \<Rightarrow>
             if rp_status r = 401 \<and> \<not> ca_retry c \<and> \<not> ro_skipAuth (ca_opts c) then
               (if map_option (\<lambda>p. member p ''code'') (peekErrorPayload r) = Some (JStr TOKEN_EXPIRED_CODE)
                then handleRefresh i c w
                else settle i (Failure (Api (reply_error r))) w)
             else if \<not> rp_ok r then settle i (Failure (Api (reply_error r))) w
             else if rp_status r = 204 then settle i (Success (JObj [(''data'', JUndefined)])) w
             else (case rp_body r of Some b \<Rightarrow> settle i (Success b) w | None \<Rightarrow> settle i (Failure Other) w))
     | _ \<Rightarrow> w) else w)"

text \<open>How doRefresh ends.\<close>

definition refresh_result :: "http_reply option \<Rightarrow> failure + string" where
  "refresh_result reply = (case reply of
       None \<Rightarrow> Inl Other
     | Some r \<Rightarrow>
         if \<not> rp_ok r then Inl (Api (reply_error r))
         else (case rp_body r of
             None \<Rightarrow> Inl (Api (ApiError (rp_status r) (JObj [(''code'', JStr ''INVALID_REFRESH_RESPONSE''),
                        (''message'', JStr ''Refresh response was not valid JSON'')])))
           | Some b \<Rightarrow> (case member (member b ''data'') ''accessToken'' of
                 JStr t \<Rightarrow> if t = [] then Inl (Api (ApiError (rp_status r) (JObj [(''code'', JStr ''INVALID_REFRESH_RESPONSE''),
                        (''message'', JStr ''Refresh response did not include an access token'')]))) else Inr t
               | _ \<Rightarrow> Inl (Api (ApiError (rp_status r) (JObj [(''code'', JStr ''INVALID_REFRESH_RESPONSE''),
                        (''message'', JStr ''Refresh response did not include an access token'')]))))))"

text \<open>A waiting call goes on: it is sent again with the new token, or fails with the refresh.\<close>

definition wake :: "(failure + string) \<Rightarrow> call_state \<Rightarrow> call_state" where
  "wake res st = (case st of
       Waiting c \<Rightarrow> (case res of Inr t \<Rightarrow> InFlight (c\<lparr>ca_retry := True\<rparr>) | Inl f \<Rightarrow> Settled (Failure f))
     | _ \<Rightarrow> st)"

definition is_waiting :: "call_state \<Rightarrow> bool" where
  "is_waiting st \<longleftrightarrow> (case st of Waiting c \<Rightarrow> True | _ \<Rightarrow> False)"

text \<open>The reply to the refresh arrives.\<close>

definition on_refresh_reply :: "http_reply option \<Rightarrow> web \<Rightarrow> web" where
  "on_refresh_reply reply w = (if wb_refreshing w then
     (case refresh_result reply of
        Inr t \<Rightarrow> w\<lparr>wb_accessToken := Some t, wb_refreshing := False, wb_calls := map (wake (Inr t)) (wb_calls w),
           wb_log := wb_log w @ map (\<lambda>i. SentCall i (Some t)) (filter (\<lambda>i. is_waiting (wb_calls w ! i)) [0..<length (wb_calls w)])\<rparr>
      | Inl f \<Rightarrow> w\<lparr>wb_accessToken := None, wb_refreshing := False, wb_calls := map (wake (Inl f)) (wb_calls w),
           wb_at_login := True\<rparr>)
     else w)"

text \<open>authStore.setState and clearAuth, as far as the client sees them.\<close>

definition set_token :: "string option \<Rightarrow> web \<Rightarrow> web" where
  "set_token t w = w\<lparr>wb_accessToken := t\<rparr>"

section \<open>The steps of the client\<close>

inductive web_step :: "web \<Rightarrow> web \<Rightarrow> bool" where
  step_start: "web_step w (api_start c w)"
| step_reply: "i < length (wb_calls w) \<Longrightarrow> wb_calls w ! i = InFlight c \<Longrightarrow> web_step w (on_reply i reply w)"
| step_refresh: "wb_refreshing w \<Longrightarrow> web_step w (on_refresh_reply reply w)"
| step_token: "web_step w (set_token t w)"

definition initial_web :: web where
  "initial_web = \<lparr>wb_accessToken = None, wb_refreshing = False, wb_calls = [], wb_at_login = False, wb_log = []\<rparr>"

text \<open>A step that answers something that was sent.\<close>

inductive answer_step :: "web \<Rightarrow> web \<Rightarrow> bool" where
  answer_reply: "i < length (wb_calls w) \<Longrightarrow> wb_calls w ! i = InFlight c \<Longrightarrow> answer_step w (on_reply i reply w)"
| answer_refresh: "wb_refreshing w \<Longrightarrow> answer_step w (on_refresh_reply reply w)"

definition count_sent :: "nat \<Rightarrow> sent list \<Rightarrow> nat" where
  "count_sent i l = length (filter (\<lambda>x. case x of SentCall j t \<Rightarrow> i = j | SentRefresh \<Rightarrow> False) l)"

text \<open>How many requests a call has sent, and how many answers it can still take.\<close>

primrec sends_of :: "call_state \<Rightarrow> nat \<Rightarrow> bool" where
  "sends_of (InFlight c) n = (n = (if ca_retry c then 2 else 1))"
| "sends_of (Waiting c) n = (n = 1 \<and> \<not> ca_retry c)"
| "sends_of (Settled out) n = (n \<le> 2)"

definition web_ok :: "web \<Rightarrow> bool" where
  "web_ok w \<longleftrightarrow> (wb_refreshing w \<longleftrightarrow> (\<exists>st\<in>set (wb_calls w). is_waiting st)) \<and>
     (\<forall>i<length (wb_calls w). sends_of (wb_calls w ! i) (count_sent i (wb_log w))) \<and>
     (\<forall>i\<ge>length (wb_calls w). count_sent i (wb_log w) = 0)"

primrec weight :: "call_state \<Rightarrow> nat" where
  "weight (InFlight c) = (if ca_retry c then 1 else 3)"
| "weight (Waiting c) = 2"
| "weight (Settled out) = 0"

definition web_weight :: "web \<Rightarrow> nat" where
  "web_weight w = sum_list (map weight (wb_calls w))"

lemma count_sent_append [simp]: "count_sent i (a @ b) = count_sent i a + count_sent i b"
  by (simp add: count_sent_def)

lemma count_sent_simps [simp]: "count_sent i [] = 0" "count_sent i (SentRefresh # l) = count_sent i l"
  "count_sent i (SentCall j t # l) = (if i = j then 1 else 0) + count_sent i l"
  by (auto simp: count_sent_def)

lemma count_sent_resent: "count_sent i (map (\<lambda>i. SentCall i t) xs) = length (filter (\<lambda>j. j = i) xs)"
  by (induction xs) auto

lemma count_once: "distinct xs \<Longrightarrow> length (filter (\<lambda>j. j = i) xs) = (if i \<in> set xs then 1 else 0)"
  by (induction xs) auto

lemma resent_count: "count_sent i (map (\<lambda>i. SentCall i t) (filter P [0..<n])) = (if i < n \<and> P i then 1 else 0)"
  unfolding count_sent_resent by (subst count_once) auto

lemma start_ok: "web_ok w \<Longrightarrow> web_ok (api_start c w)"
  by (auto simp: web_ok_def api_start_def nth_append is_waiting_def less_Suc_eq)

lemma waiting_settled:
  assumes "i < length cs" "\<not> is_waiting (cs ! i)"
  shows "(\<exists>st\<in>set (cs[i := Settled out]). is_waiting st) \<longleftrightarrow> (\<exists>st\<in>set cs. is_waiting st)"
proof -
  have "\<not> is_waiting (Settled out)" by (simp add: is_waiting_def)
  then show ?thesis using assms by (fastforce simp: in_set_conv_nth nth_list_update)
qed

lemma settle_ok:
  assumes "web_ok w" "i < length (wb_calls w)" "wb_calls w ! i = InFlight c"
  shows "web_ok (settle i out w)"
proof -
  have s: "sends_of (wb_calls w ! i) (count_sent i (wb_log w))" using assms(1,2) by (simp add: web_ok_def)
  have "\<not> is_waiting (wb_calls w ! i)" using assms(3) by (simp add: is_waiting_def)
  note same = waiting_settled [OF assms(2) this, of out]
  have "count_sent i (wb_log w) \<le> 2" using s assms(3) by (auto split: if_splits)
  then show ?thesis using assms(1,2) unfolding web_ok_def settle_def by (simp add: same nth_list_update)
qed

lemma park_ok:
  assumes "web_ok w" "i < length (wb_calls w)" "wb_calls w ! i = InFlight c" "\<not> ca_retry c"
  shows "web_ok (handleRefresh i c w)"
proof -
  have new: "Waiting c \<in> set ((wb_calls w)[i := Waiting c])" using assms(2) by (simp add: set_update_memI)
  then have "\<exists>st\<in>set ((wb_calls w)[i := Waiting c]). is_waiting st" by (rule rev_bexI) (simp add: is_waiting_def)
  moreover have "sends_of (wb_calls w ! i) (count_sent i (wb_log w))" using assms(1,2) by (simp add: web_ok_def)
  ultimately show ?thesis using assms
    by (auto simp: web_ok_def handleRefresh_def Let_def nth_list_update)
qed

lemma wake_not_waiting: "\<not> is_waiting (wake res st)"
  by (auto simp: wake_def is_waiting_def split: call_state.splits sum.splits)

lemma wake_sends:
  assumes "sends_of st n"
  shows "sends_of (wake (Inr t) st) (n + (if is_waiting st then 1 else 0))" "sends_of (wake (Inl f) st) n"
  using assms by (auto simp: wake_def is_waiting_def split: call_state.splits)

lemma refresh_ok:
  assumes "web_ok w" "wb_refreshing w"
  shows "web_ok (on_refresh_reply reply w)"
proof (cases "refresh_result reply")
  case (Inl f)
  then show ?thesis using assms
    by (auto simp: web_ok_def on_refresh_reply_def wake_not_waiting intro: wake_sends(2))
next
  case (Inr t)
  have "\<And>i. i < length (wb_calls w) \<Longrightarrow> sends_of (wake (Inr t) (wb_calls w ! i))
      (count_sent i (wb_log w) + (if is_waiting (wb_calls w ! i) then 1 else 0))"
    using assms(1) by (intro wake_sends(1)) (simp add: web_ok_def)
  then show ?thesis using assms Inr
    unfolding web_ok_def on_refresh_reply_def
    by (simp add: wake_not_waiting resent_count split del: if_split)
qed

lemma reply_ok:
  assumes "web_ok w" "i < length (wb_calls w)" "wb_calls w ! i = InFlight c"
  shows "web_ok (on_reply i reply w)"
proof (cases reply)
  case None
  then show ?thesis using assms settle_ok [OF assms] by (simp add: on_reply_def)
next
  case (Some r)
  then show ?thesis using assms settle_ok [OF assms] park_ok [OF assms]
    by (simp add: on_reply_def split: option.splits)
qed

lemma web_ok_steps: "web_step\<^sup>*\<^sup>* initial_web w \<Longrightarrow> web_ok w"
proof (induction rule: rtranclp_induct)
  case base
  then show ?case by (simp add: web_ok_def initial_web_def)
next
  case (step v w)
  from step(2,3) show ?case
    by cases (blast intro: start_ok, blast intro: reply_ok, blast intro: refresh_ok, simp add: web_ok_def set_token_def)
qed

section \<open>Every call settles\<close>

lemma settle_weight:
  assumes "i < length (wb_calls w)" "wb_calls w ! i = InFlight c" "weight st < weight (InFlight c)"
  shows "sum_list (map weight ((wb_calls w)[i := st])) < web_weight w"
proof -
  have "wb_calls w = take i (wb_calls w) @ InFlight c # drop (Suc i) (wb_calls w)"
    using assms(1,2) by (metis id_take_nth_drop)
  then have "web_weight w = sum_list (map weight (take i (wb_calls w))) + weight (InFlight c)
      + sum_list (map weight (drop (Suc i) (wb_calls w)))"
    unfolding web_weight_def by (metis (no_types, lifting) append_Cons append_Nil group_cancel.add2 list.simps(9) map_append
        sum_list.Cons sum_list_append add.assoc)
  moreover have "(wb_calls w)[i := st] = take i (wb_calls w) @ st # drop (Suc i) (wb_calls w)"
    using assms(1) by (rule upd_conv_take_nth_drop)
  ultimately show ?thesis using assms(3) by simp
qed

lemma reply_weight:
  assumes "i < length (wb_calls w)" "wb_calls w ! i = InFlight c"
  shows "web_weight (on_reply i reply w) < web_weight w"
proof -
  have s: "web_weight (settle i out w) < web_weight w" for out
    using settle_weight [OF assms, of "Settled out"] by (simp add: web_weight_def settle_def)
  have h: "\<not> ca_retry c \<Longrightarrow> web_weight (handleRefresh i c w) < web_weight w"
    using settle_weight [OF assms, of "Waiting c"] by (simp add: web_weight_def handleRefresh_def Let_def)
  show ?thesis using assms s h
    by (cases reply) (auto simp: on_reply_def split: option.splits)
qed

lemma wake_weight: "weight (wake res st) \<le> weight st" "is_waiting st \<Longrightarrow> weight (wake res st) < weight st"
  by (auto simp: wake_def is_waiting_def split: call_state.splits sum.splits)

lemma sum_list_strict: "(\<And>x. x \<in> set xs \<Longrightarrow> (f x :: nat) \<le> g x) \<Longrightarrow> \<exists>x\<in>set xs. f x < g x \<Longrightarrow>
    sum_list (map f xs) < sum_list (map g xs)"
proof (induction xs)
  case (Cons x xs)
  have le: "sum_list (map f xs) \<le> sum_list (map g xs)" by (rule sum_list_mono) (use Cons.prems in auto)
  show ?case
  proof (cases "f x < g x")
    case True
    then show ?thesis using le by simp
  next
    case False
    then have "sum_list (map f xs) < sum_list (map g xs)" using Cons by auto
    then show ?thesis using Cons.prems(1) [of x] by simp
  qed
qed simp

lemma refresh_weight:
  assumes "web_ok w" "wb_refreshing w"
  shows "web_weight (on_refresh_reply reply w) < web_weight w"
proof -
  have "sum_list (map (weight \<circ> wake res) (wb_calls w)) < web_weight w" for res :: "failure + string"
    unfolding web_weight_def
    by (rule sum_list_strict) (use assms wake_weight [where res = res] in \<open>auto simp: web_ok_def\<close>)
  then show ?thesis using assms(2) by (auto simp: on_refresh_reply_def web_weight_def split: sum.splits)
qed

lemma answer_web: "answer_step v w \<Longrightarrow> web_step v w"
  by (auto elim!: answer_step.cases intro: web_step.intros)

lemma answers_bounded:
  "(answer_step ^^ n) v w \<Longrightarrow> web_ok v \<Longrightarrow> web_ok w \<and> n + web_weight w \<le> web_weight v"
proof (induction n arbitrary: w)
  case (Suc n)
  then obtain u where u: "(answer_step ^^ n) v u" "answer_step u w" by auto
  then have ok: "web_ok u" and le: "n + web_weight u \<le> web_weight v" using Suc by auto
  from u(2) have "web_ok w \<and> web_weight w < web_weight u"
    by cases (use ok reply_ok reply_weight refresh_ok refresh_weight in blast)+
  then show ?case using le by simp
qed simp

lemma weight_sum_bound: "sum_list (map weight cs) \<le> 3 * length cs"
proof (induction cs)
  case (Cons st cs)
  then show ?case by (cases st) auto
qed simp

lemma weight_bound: "web_weight w \<le> 3 * length (wb_calls w)"
  by (simp add: web_weight_def weight_sum_bound)

section \<open>A burst of expired calls\<close>

definition expired_reply :: "http_reply \<Rightarrow> bool" where
  "expired_reply r \<longleftrightarrow> rp_status r = 401 \<and>
     map_option (\<lambda>p. member p ''code'') (peekErrorPayload r) = Some (JStr TOKEN_EXPIRED_CODE)"

definition fresh_call :: "call_state \<Rightarrow> bool" where
  "fresh_call st \<longleftrightarrow> (case st of InFlight c \<Rightarrow> \<not> ca_retry c \<and> \<not> ro_skipAuth (ca_opts c) | _ \<Rightarrow> False)"

definition park :: "call_state \<Rightarrow> call_state" where
  "park st = (case st of InFlight c \<Rightarrow> Waiting c | _ \<Rightarrow> st)"

lemma on_reply_expired:
  assumes "i < length (wb_calls w)" "fresh_call (wb_calls w ! i)" "expired_reply r"
  shows "on_reply i (Some r) w = w\<lparr>wb_calls := (wb_calls w)[i := park (wb_calls w ! i)], wb_refreshing := True,
     wb_log := wb_log w @ (if wb_refreshing w then [] else [SentRefresh])\<rparr>"
  using assms by (cases w) (auto simp: on_reply_def fresh_call_def park_def expired_reply_def handleRefresh_def Let_def
      split: call_state.splits)

lemma burst_state:
  assumes "distinct js" "\<forall>i\<in>set js. i < length (wb_calls w) \<and> fresh_call (wb_calls w ! i) \<and> expired_reply (r i)"
  shows "\<exists>cs. length cs = length (wb_calls w) \<and>
      (\<forall>k<length cs. cs ! k = (if k \<in> set js then park (wb_calls w ! k) else wb_calls w ! k)) \<and>
      fold (\<lambda>i. on_reply i (Some (r i))) js w = w\<lparr>wb_calls := cs, wb_refreshing := wb_refreshing w \<or> js \<noteq> [],
        wb_log := wb_log w @ (if wb_refreshing w \<or> js = [] then [] else [SentRefresh])\<rparr>"
  using assms
proof (induction js arbitrary: w)
  case Nil
  show ?case by (rule exI [of _ "wb_calls w"]) simp
next
  case (Cons i js)
  define v where "v = on_reply i (Some (r i)) w"
  have v: "v = w\<lparr>wb_calls := (wb_calls w)[i := park (wb_calls w ! i)], wb_refreshing := True,
     wb_log := wb_log w @ (if wb_refreshing w then [] else [SentRefresh])\<rparr>"
    unfolding v_def using Cons.prems by (intro on_reply_expired) auto
  have js: "\<forall>j\<in>set js. j < length (wb_calls v) \<and> fresh_call (wb_calls v ! j) \<and> expired_reply (r j)"
    using Cons.prems by (auto simp: v nth_list_update)
  obtain cs where cs: "length cs = length (wb_calls v)"
      "\<forall>k<length cs. cs ! k = (if k \<in> set js then park (wb_calls v ! k) else wb_calls v ! k)"
      "fold (\<lambda>i. on_reply i (Some (r i))) js v = v\<lparr>wb_calls := cs, wb_refreshing := wb_refreshing v \<or> js \<noteq> [],
        wb_log := wb_log v @ (if wb_refreshing v \<or> js = [] then [] else [SentRefresh])\<rparr>"
    using Cons.IH [of v] js Cons.prems(1) by auto
  have "\<forall>k<length cs. cs ! k = (if k \<in> set (i # js) then park (wb_calls w ! k) else wb_calls w ! k)"
    using cs(1,2) Cons.prems by (auto simp: v nth_list_update)
  moreover have "fold (\<lambda>i. on_reply i (Some (r i))) (i # js) w = w\<lparr>wb_calls := cs, wb_refreshing := wb_refreshing w \<or> i # js \<noteq> [],
        wb_log := wb_log w @ (if wb_refreshing w \<or> i # js = [] then [] else [SentRefresh])\<rparr>"
    using cs(3) by (simp add: v_def [symmetric]) (simp add: v)
  ultimately show ?case using cs(1) by (intro exI [of _ cs]) (simp add: v)
qed

lemma waiting_park: "fresh_call st \<Longrightarrow> is_waiting (park st)"
  by (auto simp: fresh_call_def is_waiting_def park_def split: call_state.splits)

definition resent :: "call_state \<Rightarrow> call_state" where
  "resent st = (case st of InFlight c \<Rightarrow> InFlight (c\<lparr>ca_retry := True\<rparr>) | _ \<Rightarrow> st)"

lemma wake_park: "fresh_call st \<Longrightarrow> wake (Inr t) (park st) = resent st" "fresh_call st \<Longrightarrow> wake (Inl f) (park st) = Settled (Failure f)"
  by (auto simp: fresh_call_def wake_def park_def resent_def split: call_state.splits)

lemma wake_idle: "\<not> is_waiting st \<Longrightarrow> wake res st = st"
  by (auto simp: wake_def is_waiting_def split: call_state.splits)

section \<open>Properties\<close>

text \<open>One refresh serves a burst: when the access token expires under any number of calls,
  in whatever order their 401 TOKEN_EXPIRED replies arrive, exactly one refresh is sent.
  If it succeeds every one of them is sent once more, with the new token; if it fails every
  one of them fails with the refresh's error, nothing more is sent, the token is dropped and
  the page goes to the login.  The other calls are untouched.\<close>

theorem expired_burst_refreshes_once:
  assumes "\<not> wb_refreshing w" "\<forall>st\<in>set (wb_calls w). \<not> is_waiting st" "distinct js" "js \<noteq> []"
    and "\<forall>i\<in>set js. i < length (wb_calls w) \<and> fresh_call (wb_calls w ! i) \<and> expired_reply (r i)"
  shows "let w1 = fold (\<lambda>i. on_reply i (Some (r i))) js w; w2 = on_refresh_reply reply w1 in
    wb_log w1 = wb_log w @ [SentRefresh] \<and> length (wb_calls w2) = length (wb_calls w) \<and> \<not> wb_refreshing w2 \<and>
    (\<forall>k<length (wb_calls w). k \<notin> set js \<longrightarrow> wb_calls w2 ! k = wb_calls w ! k) \<and>
    (case refresh_result reply of
       Inr t \<Rightarrow> wb_accessToken w2 = Some t \<and> (\<forall>i\<in>set js. wb_calls w2 ! i = resent (wb_calls w ! i)) \<and>
         wb_log w2 = wb_log w1 @ map (\<lambda>i. SentCall i (Some t)) (filter (\<lambda>i. i \<in> set js) [0..<length (wb_calls w)])
     | Inl f \<Rightarrow> wb_accessToken w2 = None \<and> wb_at_login w2 \<and> wb_log w2 = wb_log w1 \<and>
         (\<forall>i\<in>set js. wb_calls w2 ! i = Settled (Failure f)))"
proof -
  obtain cs where cs: "length cs = length (wb_calls w)"
      "\<And>k. k < length cs \<Longrightarrow> cs ! k = (if k \<in> set js then park (wb_calls w ! k) else wb_calls w ! k)"
      "fold (\<lambda>i. on_reply i (Some (r i))) js w =
         w\<lparr>wb_calls := cs, wb_refreshing := True, wb_log := wb_log w @ [SentRefresh]\<rparr>"
    using burst_state [OF assms(3,5)] assms(1,4) by auto
  have idle: "\<not> is_waiting (wb_calls w ! k)" if "k < length (wb_calls w)" for k using assms(2) that by simp
  have out: "wake res (cs ! k) = wb_calls w ! k" if "k < length (wb_calls w)" "k \<notin> set js" for k res
    using that cs(1,2) idle by (simp add: wake_idle)
  have into: "wake (Inr t) (cs ! i) = resent (wb_calls w ! i)" "wake (Inl f) (cs ! i) = Settled (Failure f)"
    if "i \<in> set js" for i t f
    using that cs(1,2) assms(5) by (simp_all add: wake_park)
  have wt: "filter (\<lambda>i. is_waiting (cs ! i)) [0..<length (wb_calls w)] = filter (\<lambda>i. i \<in> set js) [0..<length (wb_calls w)]"
    by (rule filter_cong) (use cs(1,2) idle assms(5) waiting_park in auto)
  have lt: "i < length (wb_calls w)" if "i \<in> set js" for i using that assms(5) by simp
  show ?thesis
    by (cases "refresh_result reply")
       (auto simp: Let_def cs(3) on_refresh_reply_def cs(1) out into wt lt)
qed

text \<open>C17. Every call settles: from any state the page can reach, at most three answers per call
  can arrive (its reply, the reply of the refresh it waits for, the reply of its one retry);
  when none is outstanding every call has settled; and no call was sent more than twice.\<close>

theorem all_calls_settle:
  assumes "web_step\<^sup>*\<^sup>* initial_web v" "(answer_step ^^ n) v w"
  shows "n \<le> 3 * length (wb_calls v) \<and>
    ((\<forall>u. \<not> answer_step w u) \<longrightarrow> (\<forall>st\<in>set (wb_calls w). \<exists>out. st = Settled out)) \<and>
    (\<forall>i. count_sent i (wb_log w) \<le> 2)"
proof -
  have ok: "web_ok w" and le: "n + web_weight w \<le> web_weight v"
    using answers_bounded [OF assms(2) web_ok_steps [OF assms(1)]] by simp_all
  have "\<exists>out. st = Settled out" if "\<forall>u. \<not> answer_step w u" "st \<in> set (wb_calls w)" for st
  proof (cases st)
    case (InFlight c)
    then obtain i where "i < length (wb_calls w)" "wb_calls w ! i = InFlight c" using \<open>st \<in> set (wb_calls w)\<close>
      by (auto simp: in_set_conv_nth)
    then show ?thesis using that(1) answer_reply by blast
  next
    case (Waiting c)
    then have "is_waiting st" by (simp add: is_waiting_def)
    then have "wb_refreshing w" using that(2) ok unfolding web_ok_def by blast
    then show ?thesis using that(1) answer_refresh by blast
  qed simp
  moreover have "count_sent i (wb_log w) \<le> 2" for i
  proof (cases "i < length (wb_calls w)")
    case True
    then have "sends_of (wb_calls w ! i) (count_sent i (wb_log w))" using ok by (simp add: web_ok_def)
    then show ?thesis by (cases "wb_calls w ! i") (auto split: if_splits)
  next
    case False
    then show ?thesis using ok by (simp add: web_ok_def)
  qed
  ultimately show ?thesis using le weight_bound [of v] by simp
qed

section \<open>Witnesses\<close>

definition sample_api_call :: "string \<Rightarrow> api_call" where
  "sample_api_call path = \<lparr>ca_method = ''GET'', ca_path = path, ca_body = NoBody, ca_opts = no_options, ca_retry = False\<rparr>"

definition sample_web :: web where
  "sample_web = api_start (sample_api_call ''/wallet'') (api_start (sample_api_call ''/users/me'')
     (set_token (Some ''old'') initial_web))"

definition expired_sample :: http_reply where
  "expired_sample = \<lparr>rp_status = 401, rp_statusText = [],
     rp_body = Some (JObj [(''error'', JObj [(''code'', JStr ''TOKEN_EXPIRED'')])])\<rparr>"

definition refreshed_sample :: http_reply where
  "refreshed_sample = \<lparr>rp_status = 200, rp_statusText = [],
     rp_body = Some (JObj [(''data'', JObj [(''accessToken'', JStr ''new'')])])\<rparr>"

lemma sample_web_state:
  "wb_calls sample_web = [InFlight (sample_api_call ''/users/me''), InFlight (sample_api_call ''/wallet'')]"
  "wb_refreshing sample_web = False"
  "wb_log sample_web = [SentCall 0 (Some ''old''), SentCall 1 (Some ''old'')]"
  by (simp_all add: sample_web_def api_start_def set_token_def initial_web_def sample_api_call_def carried_token_def
      no_options_def nonempty_def)

lemma refreshed_sample_token: "refresh_result (Some refreshed_sample) = Inr ''new''"
  by (simp add: refresh_result_def refreshed_sample_def rp_ok_def member_def jget_def)

lemma expired_burst_refreshes_once_witness:
  "wb_log (on_refresh_reply (Some refreshed_sample) (fold (\<lambda>i. on_reply i (Some expired_sample)) [1, 0] sample_web)) =
     [SentCall 0 (Some ''old''), SentCall 1 (Some ''old''), SentRefresh, SentCall 0 (Some ''new''), SentCall 1 (Some ''new'')]"
proof -
  have f: "fresh_call (InFlight (sample_api_call p))" for p by (simp add: fresh_call_def sample_api_call_def no_options_def)
  have e: "expired_reply expired_sample"
    by (simp add: expired_reply_def expired_sample_def peekErrorPayload_def member_def present_def jget_def TOKEN_EXPIRED_CODE_def)
  have "\<not> wb_refreshing sample_web" "\<forall>st\<in>set (wb_calls sample_web). \<not> is_waiting st" "distinct [1, 0 :: nat]" "[1, 0 :: nat] \<noteq> []"
    "\<forall>i\<in>set [1, 0 :: nat]. i < length (wb_calls sample_web) \<and> fresh_call (wb_calls sample_web ! i) \<and> expired_reply expired_sample"
    by (simp_all add: sample_web_state f e is_waiting_def)
  from expired_burst_refreshes_once [where r = "\<lambda>_. expired_sample" and reply = "Some refreshed_sample", OF this]
  have "wb_log (on_refresh_reply (Some refreshed_sample) (fold (\<lambda>i. on_reply i (Some expired_sample)) [1, 0] sample_web)) =
     wb_log sample_web @ [SentRefresh] @ map (\<lambda>i. SentCall i (Some ''new''))
       (filter (\<lambda>i. i \<in> set [1, 0]) [0..<length (wb_calls sample_web)])"
    unfolding Let_def refreshed_sample_token by simp
  then show ?thesis by (simp add: sample_web_state upt_rec)
qed

lemma all_calls_settle_witness:
  "web_step\<^sup>*\<^sup>* initial_web (api_start (sample_api_call ''/wallet'') initial_web) \<and>
   (\<exists>out. wb_calls (on_reply 0 None (api_start (sample_api_call ''/wallet'') initial_web)) = [Settled out])"
proof -
  let ?v = "api_start (sample_api_call ''/wallet'') initial_web"
  have v: "wb_calls ?v = [InFlight (sample_api_call ''/wallet'')]" "wb_refreshing ?v = False"
    by (simp_all add: api_start_def initial_web_def sample_api_call_def)
  have w: "wb_calls (on_reply 0 None ?v) = [Settled (Failure Other)]" "wb_refreshing (on_reply 0 None ?v) = False"
    by (simp_all add: on_reply_def v settle_def)
  have r: "web_step\<^sup>*\<^sup>* initial_web ?v" by (rule r_into_rtranclp) (rule step_start)
  have "answer_step ?v (on_reply 0 None ?v)" by (rule answer_reply) (simp_all add: v)
  then have n: "(answer_step ^^ 1) ?v (on_reply 0 None ?v)" by (simp add: relcompp.simps)
  have "\<not> answer_step (on_reply 0 None ?v) u" for u
    by (auto elim!: answer_step.cases simp: w)
  then have "\<forall>st\<in>set (wb_calls (on_reply 0 None ?v)). \<exists>out. st = Settled out" using all_calls_settle [OF r n] by blast
  then show ?thesis using r w(1) by simp
qed

end
