(* ===== verification/Browser.thy ===== *)
theory Browser
  imports WebClient
begin

text \<open>
  What the browser adds to a session, against the server of the other theories: the cookie jar
  and the logout (lib/logout.ts with auth.controller.ts), the permission hints of
  hooks/use-permission.ts against the guard's query, and the stable idempotency keys of
  lib/idempotency.ts against the interceptor, with a slow request and its retry interleaved.
\<close>

section \<open>Cookies and the logout\<close>

text \<open>When a browser sends a cookie (RFC 6265, 5.1.4), for one host.\<close>

definition path_match :: "string \<Rightarrow> string \<Rightarrow> bool" where
  "path_match cookiePath requestPath \<longleftrightarrow> requestPath = cookiePath \<or>
     (take (length cookiePath) requestPath = cookiePath \<and>
       (last cookiePath = CHR ''/'' \<or> take 1 (drop (length cookiePath) requestPath) = ''/''))"

definition cookie_header :: "refresh_cookie list \<Rightarrow> string \<Rightarrow> string \<Rightarrow> string option" where
  "cookie_header jar name requestPath =
     map_option rc_value (find (\<lambda>c. rc_name c = name \<and> path_match (rc_path c) requestPath) jar)"

definition jar_set :: "refresh_cookie \<Rightarrow> refresh_cookie list \<Rightarrow> refresh_cookie list" where
  "jar_set c jar = c # filter (\<lambda>d. \<not> (rc_name d = rc_name c \<and> rc_path d = rc_path c)) jar"

definition jar_clear :: "string \<Rightarrow> string \<Rightarrow> refresh_cookie list \<Rightarrow> refresh_cookie list" where
  "jar_clear name path jar = filter (\<lambda>d. \<not> (rc_name d = name \<and> rc_path d = path)) jar"

text \<open>logout: the post, whatever comes of it, then the store is cleared.\<close>

definition web_logout :: "platform \<Rightarrow> refresh_cookie list \<Rightarrow> web \<Rightarrow> 'x sys_scheme \<Rightarrow>
    web \<times> refresh_cookie list \<times> 'x sys_scheme" where
  "web_logout pf jar w s =
     (case auth_logout pf (cookie_header jar ''refresh_token'' (resolveUrl [] ''/auth/logout'')) s of
        (Inr r, t) \<Rightarrow> ((set_token None w)\<lparr>wb_at_login := True\<rparr>, jar_clear ''refresh_token'' ''/api/v1/auth/refresh'' jar, t)
      | (Inl e, t) \<Rightarrow> ((set_token None w)\<lparr>wb_at_login := True\<rparr>, jar, t))"

section \<open>Permission hints\<close>

definition segments_match :: "string \<Rightarrow> string \<Rightarrow> bool" where
  "segments_match perm required =
     (let userParts = split_on (CHR '':'') perm; reqParts = split_on (CHR '':'') required in
      length userParts = length reqParts \<and> list_all2 (\<lambda>seg r. seg = ''*'' \<or> seg = r) userParts reqParts)"

fun matchesPermission :: "string list \<Rightarrow> string \<Rightarrow> bool" where
  "matchesPermission [] required = False"
| "matchesPermission (perm # perms) required =
     (perm = ''super:everything'' \<or> perm = required \<or> segments_match perm required \<or> matchesPermission perms required)"

definition has_wildcard :: "string \<Rightarrow> bool" where
  "has_wildcard perm \<longleftrightarrow> ''*'' \<in> set (split_on (CHR '':'') perm)"

section \<open>Idempotency keys\<close>

type_synonym session_storage = "string \<rightharpoonup> string"

definition storageKey :: "string \<Rightarrow> string \<Rightarrow> string" where
  "storageKey operation bodyHash = ''idem:'' @ operation @ '':'' @ bodyHash"

definition getOrCreateIdempotencyKey :: "bool \<Rightarrow> string \<Rightarrow> string \<Rightarrow> string \<Rightarrow> session_storage \<Rightarrow> string \<times> session_storage" where
  "getOrCreateIdempotencyKey storageAvailable uuid operation bodyHash st =
     (let key = storageKey operation bodyHash in
      if storageAvailable then (case nonempty (st key) of
          Some existing \<Rightarrow> (existing, st)
        | None \<Rightarrow> (uuid, st(key \<mapsto> uuid)))
      else (uuid, st))"

definition clearIdempotencyKey :: "bool \<Rightarrow> string \<Rightarrow> string \<Rightarrow> session_storage \<Rightarrow> session_storage" where
  "clearIdempotencyKey storageAvailable operation bodyHash st =
     (if storageAvailable then st(storageKey operation bodyHash := None) else st)"

definition withIdempotency :: "bool \<Rightarrow> string \<Rightarrow> string \<Rightarrow> string \<Rightarrow> (string \<Rightarrow> ('s, 'a) M) \<Rightarrow>
    session_storage \<Rightarrow> 's \<Rightarrow> (exn + 'a) \<times> session_storage \<times> 's" where
  "withIdempotency storageAvailable uuid operation bodyHash fn st s =
     (let (key, st1) = getOrCreateIdempotencyKey storageAvailable uuid operation bodyHash st in
      case fn key s of
        (Inr r, t) \<Rightarrow> (Inr r, clearIdempotencyKey storageAvailable operation bodyHash st1, t)
      | (Inl e, t) \<Rightarrow> (Inl e, st1, t))"

text \<open>The request of one attempt; a reply that never reaches the page.\<close>

definition keyed_request :: "http_request \<Rightarrow> string \<Rightarrow> http_request" where
  "keyed_request req key = req\<lparr>rq_headers := AList.update ''idempotency-key'' key (rq_headers req)\<rparr>"

definition reply_lost :: "('s, 'a) M \<Rightarrow> ('s, 'a) M" where
  "reply_lost m s = (Inl (JsError ''Failed to fetch''), snd (m s))"

section \<open>The interceptor, with its two visits to Redis apart\<close>

text \<open>The lookup, which answers a hit or refuses; None goes on to the handler.\<close>

definition idem_lookup :: "(string \<Rightarrow> string) \<Rightarrow> int \<Rightarrow> http_request \<Rightarrow> string \<Rightarrow> ('x sys_scheme, (json \<times> json) option) M" where
  "idem_lookup sha now req key =
     bind (redis_get now (cache_key key)) (\<lambda>cachedRaw. case cachedRaw of
       None \<Rightarrow> return None
     | Some raw \<Rightarrow>
         (case json_parse raw of
            Some (JObj c) \<Rightarrow>
              if jget c ''requestHash'' \<noteq> JStr (computeRequestHash sha (rq_method req) (rq_path req) (rq_body req)) then
                throw (http_exn IDEMPOTENCY_KEY_REUSED 409
                  ''Idempotency key was previously used with a different request body'')
              else return (Some (jget c ''responseStatus'', jget c ''responseBody''))
          | Some JNull \<Rightarrow> throw (JsError ''Cannot read properties of null'')
          | Some _ \<Rightarrow> throw (http_exn IDEMPOTENCY_KEY_REUSED 409
                  ''Idempotency key was previously used with a different request body'')
          | None \<Rightarrow> throw (JsError ''Unexpected token in JSON'')))"

text \<open>The handler and the write of its answer.\<close>

definition idem_run :: "(string \<Rightarrow> string) \<Rightarrow> int \<Rightarrow> int option \<Rightarrow> http_request \<Rightarrow> string \<Rightarrow>
    ('x sys_scheme, json) M \<Rightarrow> ('x sys_scheme, json \<times> json) M" where
  "idem_run sha now override req key handler =
     bind handler (\<lambda>responseBody.
       seq (tryCatch (redis_set_ex now (cache_key key)
              (json_text (cached_response (computeRequestHash sha (rq_method req) (rq_path req) (rq_body req))
                 (default_status (rq_method req) override) responseBody))
              IDEMPOTENCY_TTL_SECONDS) (\<lambda>_. return ()))
           (return (JNum (default_status (rq_method req) override), responseBody)))"

definition idem_finish :: "(string \<Rightarrow> string) \<Rightarrow> int \<Rightarrow> int option \<Rightarrow> http_request \<Rightarrow> string \<Rightarrow>
    ('x sys_scheme, json) M \<Rightarrow> (json \<times> json) option \<Rightarrow> ('x sys_scheme, json \<times> json) M" where
  "idem_finish sha now override req key handler found = (case found of
       Some answer \<Rightarrow> return answer | None \<Rightarrow> idem_run sha now override req key handler)"

text \<open>A request and its retry overlapping: both look up before either is done.\<close>

definition overlapping_calls :: "(string \<Rightarrow> string) \<Rightarrow> int \<Rightarrow> int option \<Rightarrow> http_request \<Rightarrow> string \<Rightarrow>
    ('x sys_scheme, json) M \<Rightarrow> ('x sys_scheme, (json \<times> json) \<times> (json \<times> json)) M" where
  "overlapping_calls sha now override req key handler =
     bind (idem_lookup sha now req key) (\<lambda>found1.
     bind (idem_lookup sha now req key) (\<lambda>found2.
     bind (idem_finish sha now override req key handler found1) (\<lambda>a1.
     bind (idem_finish sha now override req key handler found2) (\<lambda>a2. return (a1, a2)))))"

lemma idempotent_call_parts:
  assumes "map_of (rq_headers req) ''idempotency-key'' = Some key" "key \<noteq> []"
  shows "idempotent_call sha now True override req handler =
    bind (idem_lookup sha now req key) (idem_finish sha now override req key handler)"
proof
  fix s :: "'a sys_scheme"
  obtain x t where g: "redis_get now (cache_key key) s = (x, t)" by fastforce
  show "idempotent_call sha now True override req handler s =
    bind (idem_lookup sha now req key) (idem_finish sha now override req key handler) s"
    using assms
    by (auto simp: idempotent_call_def idem_lookup_def idem_finish_def idem_run_def nonempty_def Let_def
        bind_def g return_def throw_def split: sum.splits option.splits json.splits)
qed

lemma idem_lookup_miss:
  "r_lookup now (cache_key key) (redis_store s) = None \<Longrightarrow> idem_lookup sha now req key s = (Inr None, s)"
  by (simp add: idem_lookup_def redis_runs run_simps)

lemma idem_run_ok:
  assumes "handler s = (Inr b, t)"
  shows "idem_run sha now ov req key handler s = (Inr (JNum (default_status (rq_method req) ov), b),
     redis_store_update (r_put (cache_key key)
       (RStr (json_text (cached_response (computeRequestHash sha (rq_method req) (rq_path req) (rq_body req))
               (default_status (rq_method req) ov) b)))
       (Some (now + IDEMPOTENCY_TTL_SECONDS * 1000))) t)"
  using assms by (simp add: idem_run_def redis_runs run_simps)

lemma keyed_request_fields [simp]:
  "map_of (rq_headers (keyed_request req key)) ''idempotency-key'' = Some key"
  "rq_method (keyed_request req key) = rq_method req" "rq_path (keyed_request req key) = rq_path req"
  "rq_body (keyed_request req key) = rq_body req"
  by (simp_all add: keyed_request_def update_conv')

lemma cached_answer:
  assumes "map_of (rq_headers req) ''idempotency-key'' = Some key" "key \<noteq> []" "wf_json b" "b \<noteq> JUndefined"
    and "redis_store s = r_put (cache_key key)
       (RStr (json_text (cached_response (computeRequestHash sha (rq_method req) (rq_path req) (rq_body req)) st b)))
       (Some (now + IDEMPOTENCY_TTL_SECONDS * 1000)) r"
    and "later1 < now + IDEMPOTENCY_TTL_SECONDS * 1000"
  shows "\<exists>b'. idempotent_call sha later1 True ov req handler s = (Inr (JNum st, b'), s) \<and> json_text b' = json_text b"
proof -
  have "r_lookup later1 (cache_key key) (redis_store s) =
      Some (RStr (json_text (cached_response (computeRequestHash sha (rq_method req) (rq_path req) (rq_body req)) st b)),
        Some (now + IDEMPOTENCY_TTL_SECONDS * 1000))"
    using assms(6) by (simp add: assms(5) r_alive_def)
  from idempotent_hit [OF assms(1,2) this, of sha ov handler] assms(4)
  have "idempotent_call sha later1 True ov req handler s = (Inr (JNum st, reread b), s)" by simp
  then show ?thesis using assms(3) by (simp add: reread_wire json_text_wire)
qed

lemma split_on_inj: "split_on c x = split_on c y \<Longrightarrow> x = y"
proof (induction x arbitrary: y)
  case Nil
  then show ?case using split_on_nonempty [of c, symmetric] by (cases y) (auto split: if_splits list.splits)
next
  case (Cons a x)
  obtain z zs where z: "split_on c x = z # zs" using split_on_nonempty [of c x] by (cases "split_on c x") auto
  show ?case
  proof (cases y)
    case Nil
    then show ?thesis using Cons.prems z by (auto split: if_splits)
  next
    case (Cons b ys)
    obtain w ws where w: "split_on c ys = w # ws" using split_on_nonempty [of c ys] by (cases "split_on c ys") auto
    show ?thesis using Cons.prems Cons.IH [of ys] Cons z w by (auto split: if_splits)
  qed
qed

section \<open>Properties\<close>

text \<open>C18. A lost reply does not run a mutation twice: the key withIdempotency made for an
  operation stays in the session storage when the attempt fails, so that the next attempt,
  any time within 24 hours and with another random key at hand, carries the same key; the
  server then answers what the first run answered, without running its handler, and the
  key is dropped, so that the operation can be asked for again.\<close>

theorem retried_mutation_runs_once:
  assumes "st (storageKey op h) = None" "k1 \<noteq> []"
    and "r_lookup now (cache_key k1) (redis_store s) = None"
    and "handler s = (Inr b, t)" "wf_json b" "b \<noteq> JUndefined"
    and "later1 < now + 24 * 60 * 60 * 1000"
  shows "\<exists>e st1 u status b'.
    withIdempotency True k1 op h (\<lambda>k. reply_lost (idempotent_call sha now True ov (keyed_request req k) handler)) st s =
      (Inl e, st1, u) \<and> but_redis u = but_redis t \<and>
    withIdempotency True k2 op h (\<lambda>k. idempotent_call sha later1 True ov (keyed_request req k) handler2) st1 u =
      (Inr (status, b'), st, u) \<and> json_text b' = json_text b"
proof -
  let ?u = "redis_store_update (r_put (cache_key k1)
       (RStr (json_text (cached_response (computeRequestHash sha (rq_method req) (rq_path req) (rq_body req))
               (default_status (rq_method req) ov) b)))
       (Some (now + IDEMPOTENCY_TTL_SECONDS * 1000))) t"
  have first: "idempotent_call sha now True ov (keyed_request req k1) handler s =
      (Inr (JNum (default_status (rq_method req) ov), b), ?u)"
    using idempotent_miss [where req = "keyed_request req k1" and sha = sha and ov = ov and handler = handler and s = s,
        OF keyed_request_fields(1) assms(2-4)] by simp
  have hash: "redis_store ?u = r_put (cache_key k1)
       (RStr (json_text (cached_response (computeRequestHash sha (rq_method (keyed_request req k1))
          (rq_path (keyed_request req k1)) (rq_body (keyed_request req k1))) (default_status (rq_method req) ov) b)))
       (Some (now + IDEMPOTENCY_TTL_SECONDS * 1000)) (redis_store t)" by simp
  have "later1 < now + IDEMPOTENCY_TTL_SECONDS * 1000" using assms(7) by (simp add: IDEMPOTENCY_TTL_SECONDS_def)
  from cached_answer [OF keyed_request_fields(1) assms(2,5,6) hash this, of ov handler2]
  obtain b' where b': "idempotent_call sha later1 True ov (keyed_request req k1) handler2 ?u =
      (Inr (JNum (default_status (rq_method req) ov), b'), ?u)" "json_text b' = json_text b" by blast
  have "withIdempotency True k1 op h (\<lambda>k. reply_lost (idempotent_call sha now True ov (keyed_request req k) handler)) st s =
      (Inl (JsError ''Failed to fetch''), st(storageKey op h \<mapsto> k1), ?u)"
    using assms(1) by (simp add: withIdempotency_def getOrCreateIdempotencyKey_def nonempty_def Let_def reply_lost_def first)
  moreover have "(st(storageKey op h \<mapsto> k1))(storageKey op h := None) = st" using assms(1) by auto
  then have "withIdempotency True k2 op h (\<lambda>k. idempotent_call sha later1 True ov (keyed_request req k) handler2)
        (st(storageKey op h \<mapsto> k1)) ?u = (Inr (JNum (default_status (rq_method req) ov), b'), st, ?u)"
    using assms(2) by (simp add: withIdempotency_def getOrCreateIdempotencyKey_def nonempty_def Let_def b' clearIdempotencyKey_def)
  moreover have "but_redis ?u = but_redis t" by simp
  ultimately show ?thesis using b'(2) by blast
qed

text \<open>A retry of a slow request does run the mutation twice: the interceptor is a lookup and
  a later write with the handler between them.  A retry that arrives before the first
  request is done, as after a reload of the page during a slow POST, finds nothing, and its
  handler runs on the state the first one left.\<close>

theorem overlapping_retries_run_twice:
  assumes "map_of (rq_headers req) ''idempotency-key'' = Some key" "key \<noteq> []"
    and "r_lookup now (cache_key key) (redis_store s) = None" "handler s = (Inr b1, t1)"
    and "snd (idempotent_call sha now True ov req handler s) = s1" "handler s1 = (Inr b2, t2)"
  shows "\<exists>st t. overlapping_calls sha now ov req key handler s = (Inr ((st, b1), (st, b2)), t) \<and> but_redis t = but_redis t2"
proof -
  have s1: "idem_run sha now ov req key handler s = (Inr (JNum (default_status (rq_method req) ov), b1), s1)"
    using idempotent_miss [where sha = sha and ov = ov and handler = handler, OF assms(1-4)] assms(5) idem_run_ok [of handler s b1 t1 sha now ov req key] assms(4)
    by simp
  show ?thesis
    by (simp add: overlapping_calls_def bind_def idem_lookup_miss [OF assms(3)] idem_finish_def s1
        idem_run_ok [of handler s1 b2 t2, OF assms(6)] return_def)
qed

text \<open>What the page shows is what the server allows: for the permission list the server sends
  of a user, usePermission holds for a code whenever the guard's query grants it; and only
  then, unless a listed code has a wildcard segment, which the client expands and the server
  does not.\<close>

theorem permission_hint_faithful:
  "\<exists>perms ok. getUserPermissions u s = (Inr perms, s) \<and> userHasPermission u p s = (Inr ok, s) \<and>
     (matchesPermission perms p \<or> ok) = matchesPermission perms p \<and>
     (list_ex has_wildcard perms \<or> (matchesPermission perms p \<longleftrightarrow> ok))"
proof -
  obtain l where l: "getUserPermissions u s = (Inr l, s)" "set l = {c. holds s u c}"
    using getUserPermissions_run by blast
  have hit: "matchesPermission perms p" if "p \<in> set perms \<or> ''super:everything'' \<in> set perms" for perms
    using that by (induction perms) auto
  have split_inj: "split_on c x = split_on c y \<Longrightarrow> x = y" for c x y by (rule split_on_inj)
  have same: "perm = p" if "segments_match perm p" "\<not> has_wildcard perm" for perm
  proof -
    have "list_all2 (=) (split_on (CHR '':'') perm) (split_on (CHR '':'') p)"
      using that by (auto simp: segments_match_def has_wildcard_def Let_def list_all2_conv_all_nth in_set_conv_nth)
    then show ?thesis using split_inj by (simp add: list.rel_eq)
  qed
  have "p \<in> set perms \<or> ''super:everything'' \<in> set perms"
    if "matchesPermission perms p" "\<not> list_ex has_wildcard perms" for perms
    using that by (induction perms) (auto dest: same)
  then show ?thesis using l hit by (auto simp: userHasPermission_run)
qed

text \<open>Logging out in the browser signs nobody out on the server: the refresh cookie is
  confined to /api/v1/auth/refresh, so the browser does not send it with the logout request,
  the handler revokes nothing and answers success, and the browser drops its copy.  The
  session of the token stays among the active ones and the token goes on being exchangeable
  by whoever has a copy, whereas the same handler given the token revokes the session.\<close>

theorem logout_keeps_session:
  assumes "sessions_ok (sessions s)" "row \<in> set (rows (sessions s))" "s_refreshTokenHash row = pf_sha256 pf raw"
    and "s_revokedAt row = None" "pf_now pf < s_expiresAt row" "raw \<noteq> []"
  shows "\<exists>w1 active active2 ans t. web_logout pf [buildCookie pf raw ttl] w s = (w1, [], s) \<and> wb_accessToken w1 = None \<and>
    cookie_header [buildCookie pf raw ttl] ''refresh_token'' (resolveUrl [] ''/auth/refresh'') = Some raw \<and>
    findActive pf (s_userId row) s = (Inr active, s) \<and> row \<in> set active \<and>
    auth_logout pf (Some raw) s = (Inr ans, t) \<and> spent (pf_sha256 pf raw) (sessions t) \<and>
    findActive pf (s_userId row) t = (Inr active2, t) \<and> s_id row \<notin> s_id ` set active2"
proof -
  let ?jar = "[buildCookie pf raw ttl]"
  let ?P = "\<lambda>r. s_refreshTokenHash r = pf_sha256 pf raw \<and> s_revokedAt r = None"
  let ?t = "sessions_update (t_update ?P (revoke_row (pf_now pf))) s"
  have sent: "cookie_header ?jar ''refresh_token'' (resolveUrl [] ''/auth/logout'') = None"
    "cookie_header ?jar ''refresh_token'' (resolveUrl [] ''/auth/refresh'') = Some raw"
    by (simp_all add: cookie_header_def buildCookie_def path_match_def resolveUrl_def)
  have "auth_logout pf None s = (Inr (JObj [(''message'', JStr ''Logged out successfully'')]), s)"
    by (simp add: auth_logout_def nonempty_def run_simps)
  then have out: "web_logout pf ?jar w s = ((set_token None w)\<lparr>wb_at_login := True\<rparr>, [], s)"
    unfolding web_logout_def sent by (simp add: jar_clear_def buildCookie_def)
  have given: "auth_logout pf (Some raw) s = (Inr (JObj [(''message'', JStr ''Logged out successfully'')]), ?t)"
    using assms(6) by (simp add: auth_logout_def nonempty_def run_simps revokeByRefreshToken_def)
  have dist: "distinct (map s_id (rows (sessions s)))" using assms(1) by (simp add: sessions_ok_def wf_table_def strict_sorted_iff)
  have mem: "r \<in> set (rows (sessions ?t)) \<Longrightarrow> \<exists>q\<in>set (rows (sessions s)). r = (if ?P q then revoke_row (pf_now pf) q else q)" for r
  proof -
    assume "r \<in> set (rows (sessions ?t))"
    moreover have "set (rows (sessions ?t)) = (\<lambda>q. if ?P q then revoke_row (pf_now pf) q else q) ` set (rows (sessions s))"
      by (simp add: table_simps)
    ultimately show ?thesis by blast
  qed
  have "revoke_row (pf_now pf) row \<in> set (rows (sessions ?t))" using assms(2-4) by (force simp: table_simps)
  then have "\<exists>r\<in>set (rows (sessions ?t)). s_refreshTokenHash r = pf_sha256 pf raw"
    by (rule rev_bexI) (simp add: assms(3))
  moreover have "s_revokedAt r \<noteq> None" if r: "r \<in> set (rows (sessions ?t))" "s_refreshTokenHash r = pf_sha256 pf raw" for r
  proof -
    obtain q where "r = (if ?P q then revoke_row (pf_now pf) q else q)" using mem [OF r(1)] by blast
    then show ?thesis using r(2) by (cases "?P q") auto
  qed
  ultimately have sp: "spent (pf_sha256 pf raw) (sessions ?t)"
    unfolding spent_def by blast
  have gone: "\<not> (s_id r = s_id row \<and> s_revokedAt r = None)" if r: "r \<in> set (rows (sessions ?t))" for r
  proof
    assume a: "s_id r = s_id row \<and> s_revokedAt r = None"
    obtain q where q: "q \<in> set (rows (sessions s))" "r = (if ?P q then revoke_row (pf_now pf) q else q)" using mem [OF r] by blast
    then have "s_id q = s_id row" using a by (auto split: if_splits)
    then have "q = row" using dist q(1) assms(2) by (auto simp: distinct_map inj_on_def)
    then show False using q(2) a assms(3,4) by simp
  qed
  let ?active = "\<lambda>v. rev (sort_key s_createdAt (t_filter (\<lambda>r. s_userId r = s_userId row \<and> s_revokedAt r = None \<and> pf_now pf < s_expiresAt r) (sessions v)))"
  have act: "findActive pf (s_userId row) v = (Inr (?active v), v)" for v :: "'a sys_scheme" by (simp add: findActive_def gets_def)
  have "row \<in> set (?active s)" using assms(2,4,5) by (simp add: t_filter_def)
  moreover have "s_id row \<notin> s_id ` set (?active ?t)" using gone by (fastforce simp: t_filter_def)
  moreover have "wb_accessToken ((set_token None w)\<lparr>wb_at_login := True\<rparr>) = None" by (simp add: set_token_def)
  ultimately show ?thesis using out sent(2) given sp act [of s] act [of ?t] by blast
qed

section \<open>Witnesses\<close>

lemma logout_keeps_session_witness:
  "\<exists>w1. web_logout sample_platform [buildCookie sample_platform ''new'' 1000] initial_web sample_sessions = (w1, [], sample_sessions)"
proof -
  have "sessions_ok (sessions sample_sessions)" by (simp add: session_samples sessions_ok_def wf_table_def)
  moreover have "sample_session 2 1 ''new'' None \<in> set (rows (sessions sample_sessions))" by (simp add: session_samples)
  moreover have "s_refreshTokenHash (sample_session 2 1 ''new'' None) = pf_sha256 sample_platform ''new''"
    "s_revokedAt (sample_session 2 1 ''new'' None) = None"
    "pf_now sample_platform < s_expiresAt (sample_session 2 1 ''new'' None)" "''new'' \<noteq> []"
    by (simp_all add: session_samples sample_env_def)
  ultimately show ?thesis
    using logout_keeps_session [of sample_sessions "sample_session 2 1 ''new'' None" sample_platform "''new''" 1000 initial_web]
    by blast
qed

definition send_sms :: "(sys, json) M" where
  "send_sms = seq (modify (sms_sent_update (\<lambda>l. l @ [(''+989120000001'', ''hi'')]))) (return (JObj [(''data'', JNull)]))"

lemma send_sms_run: "send_sms s = (Inr (JObj [(''data'', JNull)]), sms_sent_update (\<lambda>l. l @ [(''+989120000001'', ''hi'')]) s)"
  by (simp add: send_sms_def run_simps)

lemma overlapping_retries_run_twice_witness:
  "\<exists>r t. overlapping_calls id 1000 None (sample_idempotent JNull) ''k1'' send_sms empty_sys = (Inr r, t) \<and> length (sms_sent t) = 2"
proof -
  have r: "map_of (rq_headers (sample_idempotent JNull)) ''idempotency-key'' = Some ''k1''" "''k1'' \<noteq> []"
    "r_lookup 1000 (cache_key ''k1'') (redis_store empty_sys) = None"
    by (simp_all add: sample_idempotent_def empty_sys_def)
  let ?s1 = "snd (idempotent_call id 1000 True None (sample_idempotent JNull) send_sms empty_sys)"
  have s1: "sms_sent ?s1 = [(''+989120000001'', ''hi'')]"
    using idempotent_miss [where sha = id and ov = None and handler = send_sms and s = empty_sys, OF r send_sms_run]
    by (simp add: empty_sys_def)
  obtain st t where "overlapping_calls id 1000 None (sample_idempotent JNull) ''k1'' send_sms empty_sys =
      (Inr ((st, JObj [(''data'', JNull)]), (st, JObj [(''data'', JNull)])), t)"
      "but_redis t = but_redis (sms_sent_update (\<lambda>l. l @ [(''+989120000001'', ''hi'')]) ?s1)"
    using overlapping_retries_run_twice [where sha = id and ov = None and handler = send_sms and s = empty_sys,
        OF r send_sms_run refl send_sms_run] by blast
  moreover from this(2) have "sms_sent t = sms_sent (sms_sent_update (\<lambda>l. l @ [(''+989120000001'', ''hi'')]) ?s1)"
    by (drule_tac arg_cong [where f = sms_sent]) (simp add: but_redis_def)
  ultimately show ?thesis using s1 by auto
qed

lemma retried_mutation_runs_once_witness:
  "\<exists>e st1 u status b'.
    withIdempotency True ''k1'' ''topup'' ''h'' (\<lambda>k. reply_lost (idempotent_call id 1000 True None
       (keyed_request (sample_idempotent JNull) k) send_sms)) Map.empty empty_sys = (Inl e, st1, u) \<and>
    withIdempotency True ''k2'' ''topup'' ''h'' (\<lambda>k. idempotent_call id 9000 True None
       (keyed_request (sample_idempotent JNull) k) send_sms) st1 u = (Inr (status, b'), Map.empty, u)"
proof -
  have w: "wf_json (JObj [(''data'', JNull)])" "JObj [(''data'', JNull)] \<noteq> JUndefined" by (simp_all add: in_order_def)
  have m: "(Map.empty :: session_storage) (storageKey ''topup'' ''h'') = None" "''k1'' \<noteq> []"
    "r_lookup 1000 (cache_key ''k1'') (redis_store empty_sys) = None" "(9000::int) < 1000 + 24 * 60 * 60 * 1000"
    by (simp_all add: empty_sys_def)
  show ?thesis
    using retried_mutation_runs_once [where sha = id and ov = None and handler = send_sms and ?handler2.0 = send_sms
        and s = empty_sys and ?k2.0 = "''k2''" and req = "sample_idempotent JNull", OF m(1-3) send_sms_run w m(4)]
    by blast
qed

end
