(* ===== verification/Gateway.thy ===== *)
theory Gateway
  imports Payments Throttle Values
begin

text \<open>
  The payment providers of core/payments/providers: ZarinPalProvider with its retrying POST
  and its reading of the gateway's envelopes, ConsolePaymentProvider with its simulator record
  in Redis, and the choice between them in payments.module.ts.  The gateway is an argument: what
  it answers to a request at each attempt, typed as the interfaces of zarinpal.provider.ts.  The
  locale payment_provider states what the payment service relies on; the provider of every
  configuration is an instance.

  The lemmas show that a transient failure of the first attempt is invisible, and that a payment
  becomes SUCCEEDED only when the gateway confirmed its own amount under its own authority.
\<close>

section \<open>What the gateway answers\<close>

record zp_errors =
  ze_code :: "int option"
  ze_message :: "string option"

record zp_request_data =
  zr_code :: "int option"
  zr_message :: "string option"
  zr_authority :: "string option"

text \<open>ref\_id as its text: the code only prints it.\<close>

record zp_verify_data =
  zv_code :: "int option"
  zv_message :: "string option"
  zv_ref_id :: "string option"
  zv_card_pan :: "string option"

text \<open>None where the gateway sends an empty array.\<close>

record 'd envelope =
  en_data :: "'d option"
  en_errors :: "zp_errors option"

text \<open>One attempt: fetch rejects, or a status with a body that is or is not JSON.\<close>

datatype 'd gw_reply = NetworkError string | Reply nat "'d envelope option"

definition PAYMENT_FAILED_PREFIX :: string where
  "PAYMENT_FAILED_PREFIX = ''PAYMENT_INITIATION_FAILED: ''"

definition server_error :: "nat \<Rightarrow> bool" where
  "server_error status \<longleftrightarrow> 500 \<le> status \<and> status \<le> 599"

definition parse_body :: "'d envelope option \<Rightarrow> exn + 'd envelope" where
  "parse_body b = (case b of Some e \<Rightarrow> Inr e | None \<Rightarrow> Inl (JsError ''Unexpected token in JSON''))"

definition last_attempt :: "'d gw_reply \<Rightarrow> exn + 'd envelope" where
  "last_attempt r = (case r of
       NetworkError m \<Rightarrow> Inl (JsError (PAYMENT_FAILED_PREFIX @ ''network error ('' @ m @ '')''))
     | Reply status b \<Rightarrow>
         if server_error status then Inl (JsError (PAYMENT_FAILED_PREFIX @ ''gateway HTTP '' @ int_to_string (int status)))
         else parse_body b)"

definition postWithRetry :: "(nat \<Rightarrow> 'd gw_reply) \<Rightarrow> exn + 'd envelope" where
  "postWithRetry reply = (case reply 0 of
       NetworkError m \<Rightarrow> last_attempt (reply 1)
     | Reply status b \<Rightarrow> if server_error status then last_attempt (reply 1) else parse_body b)"

section \<open>zarinpal.provider.ts\<close>

record zp_request_body =
  zb_merchant_id :: string
  zb_amount :: int
  zb_description :: string
  zb_callback_url :: string
  zb_mobile :: "string option"
  zb_email :: "string option"
  zb_order_id :: string

record zp_verify_body =
  zq_merchant_id :: string
  zq_amount :: int
  zq_authority :: string

record gateway =
  gw_request :: "zp_request_body \<Rightarrow> nat \<Rightarrow> zp_request_data gw_reply"
  gw_verify :: "zp_verify_body \<Rightarrow> nat \<Rightarrow> zp_verify_data gw_reply"

definition requireMerchantId :: "string option \<Rightarrow> exn + string" where
  "requireMerchantId merchantId = (case merchantId of
       Some m \<Rightarrow> if m = [] then Inl (JsError (PAYMENT_FAILED_PREFIX @ ''ZARINPAL_MERCHANT_ID not set'')) else Inr m
     | None \<Rightarrow> Inl (JsError (PAYMENT_FAILED_PREFIX @ ''ZARINPAL_MERCHANT_ID not set'')))"

definition MAX_SAFE_INTEGER :: int where
  "MAX_SAFE_INTEGER = 2 ^ 53 - 1"

definition toGatewayAmount :: "int \<Rightarrow> exn + int" where
  "toGatewayAmount toman = (if MAX_SAFE_INTEGER < toman
     then Inl (JsError (PAYMENT_FAILED_PREFIX @ ''amount exceeds safe integer range'')) else Inr toman)"

definition ebind :: "exn + 'a \<Rightarrow> ('a \<Rightarrow> exn + 'b) \<Rightarrow> exn + 'b" where
  "ebind m f = (case m of Inl e \<Rightarrow> Inl e | Inr x \<Rightarrow> f x)"

definition first_some :: "'a option \<Rightarrow> 'a option \<Rightarrow> 'a option" where
  "first_some a b = (case a of Some x \<Rightarrow> a | None \<Rightarrow> b)"

definition STARTPAY_BASE :: string where
  "STARTPAY_BASE = ''https://www.zarinpal.com/pg/StartPay''"

definition read_request :: "zp_request_data envelope \<Rightarrow> exn + initiate_output" where
  "read_request e =
     (let data = en_data e; errors = en_errors e;
          code = first_some (Option.bind data zr_code) (Option.bind errors ze_code);
          message = (case first_some (Option.bind data zr_message) (Option.bind errors ze_message) of
            Some m \<Rightarrow> m | None \<Rightarrow> ''Unknown ZarinPal error'') in
      case (Option.bind data zr_code, Option.bind data zr_authority) of
        (Some c, Some a) \<Rightarrow> if c = 100 \<and> a \<noteq> []
          then Inr \<lparr>io_redirectUrl = STARTPAY_BASE @ ''/'' @ a, io_providerReference = a\<rparr>
          else Inl (JsError (PAYMENT_FAILED_PREFIX @ message @ '' (code='' @ int_to_string c @ '')''))
      | _ \<Rightarrow> Inl (JsError (PAYMENT_FAILED_PREFIX @ message @ '' (code='' @
          (case code of Some c \<Rightarrow> int_to_string c | None \<Rightarrow> ''unknown'') @ '')'')))"

definition zp_initiate :: "string option \<Rightarrow> gateway \<Rightarrow> initiate_request \<Rightarrow> exn + initiate_output" where
  "zp_initiate merchantId gw input =
     ebind (requireMerchantId merchantId) (\<lambda>m.
     ebind (toGatewayAmount (ir_amount input)) (\<lambda>amount.
     ebind (postWithRetry (gw_request gw \<lparr>zb_merchant_id = m, zb_amount = amount, zb_description = ir_description input,
              zb_callback_url = ir_callbackUrl input, zb_mobile = ir_userMobile input, zb_email = ir_userEmail input,
              zb_order_id = ir_referenceId input\<rparr>)) read_request))"

text \<open>100 is verified now, 101 verified before.\<close>

definition read_verify :: "zp_verify_data envelope \<Rightarrow> verify_output" where
  "read_verify e =
     (let refused = \<lparr>vo_verified = False, vo_referenceCode = None, vo_cardPan = None,
            vo_failureReason = Some (case first_some (Option.bind (en_data e) zv_message) (Option.bind (en_errors e) ze_message) of
                Some m \<Rightarrow> m
              | None \<Rightarrow> ''ZarinPal returned code '' @ (case Option.bind (en_data e) zv_code of
                    Some c \<Rightarrow> int_to_string c | None \<Rightarrow> ''undefined''))\<rparr> in
      case en_data e of
        Some d \<Rightarrow> if zv_code d = Some 100 \<or> zv_code d = Some 101
          then \<lparr>vo_verified = True, vo_referenceCode = zv_ref_id d,
                vo_cardPan = (if zv_card_pan d = Some [] then None else zv_card_pan d), vo_failureReason = None\<rparr>
          else refused
      | None \<Rightarrow> refused)"

definition zp_verify :: "string option \<Rightarrow> gateway \<Rightarrow> string \<Rightarrow> int \<Rightarrow> exn + verify_output" where
  "zp_verify merchantId gw providerReference expectedAmount =
     ebind (requireMerchantId merchantId) (\<lambda>m.
     ebind (toGatewayAmount expectedAmount) (\<lambda>amount.
     ebind (postWithRetry (gw_verify gw \<lparr>zq_merchant_id = m, zq_amount = amount, zq_authority = providerReference\<rparr>))
       (\<lambda>e. Inr (read_verify e))))"

definition zp_refund :: "string \<Rightarrow> int \<Rightarrow> string \<Rightarrow> exn + bool" where
  "zp_refund providerReference amount reason = Inl (JsError ''REFUND_NOT_SUPPORTED_BY_PROVIDER'')"

definition zarinpal_provider :: "string option \<Rightarrow> gateway \<Rightarrow> provider" where
  "zarinpal_provider merchantId gw = \<lparr>pv_name = ''zarinpal'', pv_initiate = zp_initiate merchantId gw,
     pv_verify = zp_verify merchantId gw, pv_refund = zp_refund\<rparr>"

section \<open>payments.module.ts\<close>

definition chosen_provider :: "string \<Rightarrow> provider \<Rightarrow> provider \<Rightarrow> exn + provider" where
  "chosen_provider name consoleProvider zarinpalProvider =
     (if name = ''zarinpal'' then Inr zarinpalProvider
      else if name = ''console'' then Inr consoleProvider
      else Inl (JsError (''Unknown PAYMENT_PROVIDER: '' @ name)))"

section \<open>Retries\<close>

definition transient :: "'d gw_reply \<Rightarrow> bool" where
  "transient r \<longleftrightarrow> (case r of NetworkError m \<Rightarrow> True | Reply status b \<Rightarrow> server_error status)"

text \<open>The attempt whose answer counts.\<close>

definition answered :: "(nat \<Rightarrow> 'd gw_reply) \<Rightarrow> 'd envelope \<Rightarrow> bool" where
  "answered reply e \<longleftrightarrow> (\<exists>status. \<not> server_error status \<and>
     (reply 0 = Reply status (Some e) \<or> transient (reply 0) \<and> reply 1 = Reply status (Some e)))"

lemma postWithRetry_answered: "postWithRetry reply = Inr e \<longleftrightarrow> answered reply e"
proof -
  have l: "last_attempt r = Inr e \<longleftrightarrow> (\<exists>status. \<not> server_error status \<and> r = Reply status (Some e))" for r
    by (auto simp: last_attempt_def parse_body_def split: gw_reply.splits option.splits)
  show ?thesis
    by (cases "reply 0") (auto simp: postWithRetry_def answered_def transient_def l parse_body_def split: option.splits)
qed

section \<open>console.provider.ts\<close>

text \<open>JSON.parse is an argument, for the simulator page writes the record.\<close>

record dev_payment_record =
  dp_success :: bool
  dp_referenceCode :: "string option"
  dp_cardPan :: "string option"
  dp_failureReason :: "string option"

definition DEV_SIMULATOR_REDIS_PREFIX :: string where
  "DEV_SIMULATOR_REDIS_PREFIX = ''dev:payment:''"

definition console_initiate :: "string \<Rightarrow> string \<Rightarrow> initiate_request \<Rightarrow> exn + initiate_output" where
  "console_initiate uuid webPort input =
     Inr \<lparr>io_redirectUrl = ''http://localhost:'' @ webPort @ ''/_dev/payment-simulator?ref='' @
            encodeURIComponent (ir_referenceId input) @ ''&authority=dev-'' @ uuid,
          io_providerReference = ''dev-'' @ uuid\<rparr>"

definition dev_refused :: "string \<Rightarrow> verify_output" where
  "dev_refused reason = \<lparr>vo_verified = False, vo_referenceCode = None, vo_cardPan = None, vo_failureReason = Some reason\<rparr>"

definition console_verify :: "(string \<Rightarrow> dev_payment_record option) \<Rightarrow> string \<Rightarrow> int \<Rightarrow> string \<Rightarrow> int \<Rightarrow>
    ('x sys_scheme, verify_output) M" where
  "console_verify parse uuid now providerReference expectedAmount =
     bind (redis_get now (DEV_SIMULATOR_REDIS_PREFIX @ providerReference)) (\<lambda>raw. return (case nonempty raw of
       None \<Rightarrow> dev_refused ''No simulator record found in Redis (user has not paid yet)''
     | Some text \<Rightarrow> (case parse text of
           None \<Rightarrow> dev_refused ''Malformed simulator record in Redis''
         | Some d \<Rightarrow>
             if dp_success d then
               \<lparr>vo_verified = True,
                vo_referenceCode = Some (case dp_referenceCode d of Some c \<Rightarrow> c | None \<Rightarrow> ''console-'' @ uuid),
                vo_cardPan = Some (case dp_cardPan d of Some c \<Rightarrow> c | None \<Rightarrow> ''****-****-****-0000''),
                vo_failureReason = None\<rparr>
             else dev_refused (case dp_failureReason d of Some m \<Rightarrow> m | None \<Rightarrow> ''Simulated failure''))))"

definition console_refund :: "string \<Rightarrow> int \<Rightarrow> string \<Rightarrow> exn + bool" where
  "console_refund providerReference amount reason = Inr True"

text \<open>The provider on a snapshot of Redis, which verify only reads.\<close>

definition console_provider :: "(string \<Rightarrow> dev_payment_record option) \<Rightarrow> string \<Rightarrow> string \<Rightarrow> int \<Rightarrow> 'x sys_scheme \<Rightarrow> provider" where
  "console_provider parse uuid webPort now s = \<lparr>pv_name = ''console'', pv_initiate = console_initiate uuid webPort,
     pv_verify = (\<lambda>ref amount. fst (console_verify parse uuid now ref amount s)), pv_refund = console_refund\<rparr>"

section \<open>What the payment service relies on\<close>

lemma callback_success:
  fixes s :: "'x sys_scheme"
  assumes "t_get pay_id i (payments s) = Some p" "pay_status p = PENDING"
    and "handleCallback env i ref st s = (r, t)" "t_get pay_id i (payments t) = Some q" "pay_status q = SUCCEEDED"
  shows "pay_providerReference p = Some ref \<and> st = P_OK \<and>
    (\<exists>v. pv_verify (pe_provider env) ref (pay_amount p) = Inr v \<and> vo_verified v \<and> pay_referenceCode q = vo_referenceCode v)"
proof -
  define C where "C = (\<lambda>q :: payment. pay_providerReference p = Some ref \<and> st = P_OK \<and>
    (\<exists>v. pv_verify (pe_provider env) ref (pay_amount p) = Inr v \<and> vo_verified v \<and> pay_referenceCode q = vo_referenceCode v))"
  define Q where "Q = (\<lambda>t :: 'x sys_scheme. \<forall>q. t_get pay_id i (payments t) = Some q \<longrightarrow> pay_status q = SUCCEEDED \<longrightarrow> C q)"
  have pid: "pay_id p = i" using assms(1) by (rule t_get_key)
  have same: "Q t" if "payments t = payments s" for t using that assms(1,2) by (simp add: Q_def)
  have step: "wp (seq (payment_update i g) (seq (dispatch b u ty pl chs) (return r))) (\<lambda>_. Q) (\<lambda>_. Q) t"
    if "payments t = payments s" "pay_status (g p) = SUCCEEDED \<Longrightarrow> C (g p)" "\<And>r. pay_id (g r) = pay_id r"
    for g b u ty pl chs t and r :: "int \<times> payment_status"
    using that assms(1) t_get_change [of pay_id g, OF that(3)]
    by (auto simp: payment_update_def wp_eqs Q_def intro!: wp_dispatch simp: same_books_fields)
  have suc: "wp (seq (reconcile b i) (seq (payment_update i g) (seq (dispatch b' u ty pl chs) (return r)))) (\<lambda>_. Q) (\<lambda>_. Q) s"
    if "pay_status (g p) = SUCCEEDED \<Longrightarrow> C (g p)" "\<And>r. pay_id (g r) = pay_id r"
    for b g b' u ty pl chs and r :: "int \<times> payment_status"
    unfolding wp_seq [of "reconcile b i"]
    by (rule wp_mono [OF wp_keeps [OF keeps_payments_reconcile refl]]) (use that in \<open>auto intro!: step same\<close>)
  have "wp (handleCallback env i ref st) (\<lambda>_. Q) (\<lambda>_. Q) s"
    using assms(1,2)
    by (auto simp: handleCallback_def wp_bind wp_gets wp_throw wp_return wp_call pid terminal_status_def
        split: sum.splits intro!: step suc same simp: C_def) (cases st; simp)+
  then have "Q t" using assms(3) by (simp add: wp_same)
  then show ?thesis using assms(4,5) by (simp add: Q_def C_def)
qed

text \<open>The contract: verified only what was confirmed, for that reference and amount.\<close>

locale payment_provider =
  fixes pv :: provider and confirmed :: "string \<Rightarrow> int \<Rightarrow> bool"
  assumes verified_confirmed: "pv_verify pv ref amount = Inr v \<Longrightarrow> vo_verified v \<Longrightarrow> confirmed ref amount"
begin

lemma success_confirmed:
  assumes "pe_provider env = pv" "t_get pay_id i (payments s) = Some p" "pay_status p = PENDING"
    and "handleCallback env i ref st s = (r, t)" "t_get pay_id i (payments t) = Some q" "pay_status q = SUCCEEDED"
  shows "pay_providerReference p = Some ref \<and> st = P_OK \<and> confirmed ref (pay_amount p)"
  using callback_success [OF assms(2-6)] verified_confirmed unfolding assms(1) by blast

end

text \<open>What the gateway must have said for the Zarinpal provider to call a payment verified.\<close>

definition gateway_confirmed :: "string option \<Rightarrow> gateway \<Rightarrow> string \<Rightarrow> int \<Rightarrow> bool" where
  "gateway_confirmed merchantId gw ref amount \<longleftrightarrow> (\<exists>m e d. merchantId = Some m \<and> m \<noteq> [] \<and> amount \<le> MAX_SAFE_INTEGER \<and>
     answered (gw_verify gw \<lparr>zq_merchant_id = m, zq_amount = amount, zq_authority = ref\<rparr>) e \<and>
     en_data e = Some d \<and> zv_code d \<in> {Some 100, Some 101})"

lemma zp_verify_sound:
  assumes "zp_verify merchantId gw ref amount = Inr v" "vo_verified v"
  shows "gateway_confirmed merchantId gw ref amount"
proof -
  obtain m where m: "merchantId = Some m" "m \<noteq> []" and a: "amount \<le> MAX_SAFE_INTEGER"
    and r: "ebind (postWithRetry (gw_verify gw \<lparr>zq_merchant_id = m, zq_amount = amount, zq_authority = ref\<rparr>))
       (\<lambda>e. Inr (read_verify e)) = Inr v"
    using assms(1) by (auto simp: zp_verify_def ebind_def requireMerchantId_def toGatewayAmount_def
        split: sum.splits option.splits if_splits)
  obtain e where e: "answered (gw_verify gw \<lparr>zq_merchant_id = m, zq_amount = amount, zq_authority = ref\<rparr>) e" "v = read_verify e"
    using r by (auto simp: ebind_def postWithRetry_answered split: sum.splits)
  obtain d where "en_data e = Some d" "zv_code d = Some 100 \<or> zv_code d = Some 101"
    using assms(2) e(2) by (auto simp: read_verify_def Let_def split: option.splits if_splits)
  then show ?thesis using m a e(1) by (auto simp: gateway_confirmed_def)
qed

interpretation zarinpal: payment_provider "zarinpal_provider merchantId gw" "gateway_confirmed merchantId gw" for merchantId gw
  by unfold_locales (simp add: zarinpal_provider_def zp_verify_sound)

text \<open>The simulator record says success.\<close>

definition simulator_confirmed :: "(string \<Rightarrow> dev_payment_record option) \<Rightarrow> int \<Rightarrow> 'x sys_scheme \<Rightarrow> string \<Rightarrow> int \<Rightarrow> bool" where
  "simulator_confirmed parse now s ref amount \<longleftrightarrow>
     (\<exists>text d. fst (redis_get now (DEV_SIMULATOR_REDIS_PREFIX @ ref) s) = Inr (Some text) \<and> parse text = Some d \<and> dp_success d)"

lemma console_verify_sound:
  assumes "fst (console_verify parse uuid now ref amount s) = Inr v" "vo_verified v"
  shows "simulator_confirmed parse now s ref amount"
proof (cases "redis_get now (DEV_SIMULATOR_REDIS_PREFIX @ ref) s")
  case (Pair x t)
  then show ?thesis using assms
    by (auto simp: console_verify_def bind_def return_def simulator_confirmed_def dev_refused_def nonempty_def
        split: sum.splits option.splits if_splits)
qed

interpretation simulator: payment_provider "console_provider parse uuid port now s" "simulator_confirmed parse now s"
  for parse uuid port now and s :: "'x sys_scheme"
  by unfold_locales (simp add: console_provider_def console_verify_sound)

section \<open>Properties\<close>

text \<open>C20. No money without the gateway: a callback turns a pending payment into SUCCEEDED only if it
  said OK under the authority stored at initiation and the gateway, asked for that authority
  and the payment's own amount, answered 100 or 101, at the first attempt or, after a network
  failure or a 5xx status, at the second.\<close>

theorem success_needs_gateway:
  assumes "pe_provider env = zarinpal_provider merchantId gw"
    and "t_get pay_id i (payments s) = Some p" "pay_status p = PENDING"
    and "handleCallback env i ref st s = (r, t)" "t_get pay_id i (payments t) = Some q" "pay_status q = SUCCEEDED"
  shows "pay_providerReference p = Some ref \<and> st = P_OK \<and> gateway_confirmed merchantId gw ref (pay_amount p)"
  by (rule zarinpal.success_confirmed [OF assms])

section \<open>Witness\<close>

definition sample_gateway :: gateway where
  "sample_gateway = \<lparr>gw_request = (\<lambda>b n. NetworkError ''down''),
     gw_verify = (\<lambda>b n. if n = 0 then Reply 503 None else Reply 200 (Some \<lparr>en_data =
        Some \<lparr>zv_code = Some 100, zv_message = None, zv_ref_id = Some ''77'', zv_card_pan = None\<rparr>, en_errors = None\<rparr>))\<rparr>"

definition sample_zarinpal_env :: pay_env where
  "sample_zarinpal_env = sample_pay_env\<lparr>pe_provider := zarinpal_provider (Some ''m'') sample_gateway\<rparr>"

lemma sample_zarinpal_verify: "pv_verify (pe_provider sample_zarinpal_env) ref 50 =
    Inr \<lparr>vo_verified = True, vo_referenceCode = Some ''77'', vo_cardPan = None, vo_failureReason = None\<rparr>"
  by (simp add: sample_zarinpal_env_def zarinpal_provider_def zp_verify_def ebind_def requireMerchantId_def toGatewayAmount_def
      MAX_SAFE_INTEGER_def postWithRetry_def sample_gateway_def server_error_def last_attempt_def parse_body_def read_verify_def
      Let_def first_some_def)

lemma success_needs_gateway_witness:
  "\<exists>r t. handleCallback sample_zarinpal_env 2 ''A2'' P_OK sample_sys = (Inr r, t) \<and>
     gateway_confirmed (Some ''m'') sample_gateway ''A2'' 50"
proof -
  let ?p = "sample_payment 2 2 50 PENDING"
  have p: "pay_status ?p = PENDING" "pay_providerReference ?p = Some ''A2''" "pay_amount ?p = 50"
    by (simp_all add: sample_payment_def)
  have base: "pay_base sample_zarinpal_env = sample_env"
    using sample_base by (simp add: sample_zarinpal_env_def pay_base_def env.defs)
  have run: "fst (handleCallback sample_zarinpal_env 2 ''A2'' P_OK sample_sys) = Inr (2, SUCCEEDED)"
    by (simp add: handleCallback_def reconcile_def payment_update_def call_def sample_zarinpal_verify base run_simps
        ledger_run sample_defs table_run dispatch_run payment_reference_def terminal_status_def)
  obtain t where t: "handleCallback sample_zarinpal_env 2 ''A2'' P_OK sample_sys = (Inr (2, SUCCEEDED), t)"
    using run by (metis prod.collapse)
  have v: "pv_verify (pe_provider sample_zarinpal_env) ''A2'' (pay_amount ?p) =
      Inr \<lparr>vo_verified = True, vo_referenceCode = Some ''77'', vo_cardPan = None, vo_failureReason = None\<rparr>"
    unfolding p(3) by (rule sample_zarinpal_verify)
  obtain q where q: "t_get pay_id 2 (payments t) = Some q" "pay_status q = SUCCEEDED"
    using handleCallback_verified [OF pay_ok_sample sample_get2 p(1,2) v] t by (auto simp: wp_def)
  have e: "pe_provider sample_zarinpal_env = zarinpal_provider (Some ''m'') sample_gateway"
    by (simp add: sample_zarinpal_env_def)
  from success_needs_gateway [OF e sample_get2 p(1) t q] t show ?thesis unfolding p(3) by blast
qed

end
