(* ===== verification/Registry.thy ===== *)
theory Registry
  imports Gateway Market
begin

text \<open>
  core/module-registry and the two modules of modules.config.ts: the contract of a module
  (types.ts), the registry that merges what the enabled modules declare
  (module-registry.service.ts), the boot sequence (module-loader.service.ts), and the instances
  modules/_example and modules/agents.  Tables and hooks act on the state; what lives in the
  memory of the process (the registry, the notification types, the allowed purposes) is the
  result of a successful boot, since a failed one ends the process.  Log lines are left out; the
  collation of Persian titles is a parameter.

  The lemmas show that a disabled module leaves no trace, that a second boot runs no installation
  and changes nothing, and that the permissions of the modules reach no role that the platform
  seeds.
\<close>

section \<open>types.ts\<close>

record 'x platform_module =
  pm_name :: string
  pm_persianName :: string
  pm_version :: string
  pm_enabled :: bool
  pm_nestModule :: string
  pm_permissions :: "permission_definition list"
  pm_auditActions :: "(string \<times> string) list"
  pm_notificationTypes :: "notification_type list option"
  pm_adminPages :: "admin_page list option"
  pm_paymentPurposes :: "string list option"
  pm_onInstall :: "('x sys_scheme, unit) M option"
  pm_onBoot :: "('x sys_scheme, unit) M option"

text \<open>An optional callback that is absent contributes nothing.\<close>

definition or_none :: "'a list option \<Rightarrow> 'a list" where
  "or_none l = (case l of Some xs \<Rightarrow> xs | None \<Rightarrow> [])"

section \<open>module-registry.service.ts\<close>

text \<open>The Map of modules in insertion order.\<close>

type_synonym 'x registry = "'x platform_module list"

definition getByName :: "string \<Rightarrow> 'x registry \<Rightarrow> 'x platform_module option" where
  "getByName nm reg = List.find (\<lambda>m. pm_name m = nm) reg"

definition register :: "'x platform_module \<Rightarrow> 'x registry \<Rightarrow> exn + 'x registry" where
  "register m reg = (if getByName (pm_name m) reg \<noteq> None
     then Inl (JsError (''Module already registered: '' @ pm_name m)) else Inr (reg @ [m]))"

definition getEnabledModules :: "'x registry \<Rightarrow> 'x platform_module list" where
  "getEnabledModules reg = filter pm_enabled reg"

text \<open>The row as it is after the upsert.\<close>

definition merged_permission :: "permission_definition \<Rightarrow> ('x sys_scheme, permission) M" where
  "merged_permission d =
     bind (gets (find_permission (pd_code d))) (\<lambda>old. case old of
       Some p \<Rightarrow> update_in permissions permissions_update p_id (p_id p) (\<lambda>r. r\<lparr>p_description := Some (pd_description d)\<rparr>)
     | None \<Rightarrow> create_in permissions permissions_update (\<lambda>i.
         \<lparr>p_id = i, p_code = pd_code d, p_description = Some (pd_description d)\<rparr>))"

definition upsertPermission :: "permission_definition \<Rightarrow> ('x sys_scheme, unit) M" where
  "upsertPermission d =
     bind (merged_permission d) (\<lambda>permission.
       if pd_defaultRoles d = [] then return ()
       else bind (gets (\<lambda>s. t_filter (\<lambda>r. r_name r \<in> set (pd_defaultRoles d)) (roles s))) (\<lambda>rs.
         if rs = [] then return ()
         else forEach rs (\<lambda>role. upsert_role_permission (r_id role) (p_id permission))))"

definition mergePermissions :: "'x registry \<Rightarrow> ('x sys_scheme, unit) M" where
  "mergePermissions reg = forEach (getEnabledModules reg) (\<lambda>m. forEach (pm_permissions m) upsertPermission)"

definition mergeNotificationTypes :: "'x registry \<Rightarrow> pay_env \<Rightarrow> pay_env" where
  "mergeNotificationTypes reg env =
     env\<lparr>env_ext_templates := env_ext_templates (foldl (\<lambda>e m. foldl (\<lambda>e d. registerType d e) e
        (or_none (pm_notificationTypes m))) (pay_base env) (getEnabledModules reg))\<rparr>"

definition page_order :: "admin_page \<Rightarrow> int" where
  "page_order p = (case ap_order p of Some n \<Rightarrow> n | None \<Rightarrow> MAX_SAFE_INTEGER)"

text \<open>The sort is stable; titles compare by their place in the Persian collation.\<close>

definition mergeAdminPages :: "(string \<Rightarrow> nat) \<Rightarrow> 'x registry \<Rightarrow> admin_page list" where
  "mergeAdminPages fa reg = sort_key page_order (sort_key (\<lambda>p. fa (ap_titleFa p))
     (concat (map (\<lambda>m. or_none (pm_adminPages m)) (getEnabledModules reg))))"

text \<open>Array.from(new Set(xs)) keeps first occurrences.\<close>

definition unique :: "'a list \<Rightarrow> 'a list" where
  "unique xs = rev (remdups (rev xs))"

definition merged_purposes :: "'x registry \<Rightarrow> string list" where
  "merged_purposes reg = unique (concat (map (\<lambda>m. or_none (pm_paymentPurposes m)) (getEnabledModules reg)))"

definition mergePaymentPurposes :: "'x registry \<Rightarrow> pay_env \<Rightarrow> pay_env" where
  "mergePaymentPurposes reg env = registerAllowedPurposes (merged_purposes reg) env"

definition getNotificationTypeOwner :: "string \<Rightarrow> 'x registry \<Rightarrow> string option" where
  "getNotificationTypeOwner ty reg = map_option pm_name
     (List.find (\<lambda>m. list_ex (\<lambda>d. nt_type d = ty) (or_none (pm_notificationTypes m))) (getEnabledModules reg))"

section \<open>module-loader.service.ts\<close>

definition is_installed :: "string \<Rightarrow> 'x sys_scheme \<Rightarrow> bool" where
  "is_installed nm s = t_exists (\<lambda>r. mi_name r = nm) (modules_installed s)"

text \<open>The name of modules\_installed is unique.\<close>

definition module_create :: "'x platform_module \<Rightarrow> ('x sys_scheme, unit) M" where
  "module_create m = bind (gets (is_installed (pm_name m))) (\<lambda>clash.
     if clash then throw (PrismaKnown ''P2002'' (JArr [JStr ''name'']))
     else bind (create_in modules_installed modules_installed_update (\<lambda>i.
       \<lparr>mi_id = i, mi_name = pm_name m, mi_version = pm_version m\<rparr>)) (\<lambda>_. return ()))"

definition run_hook :: "('s, unit) M option \<Rightarrow> ('s, unit) M" where
  "run_hook h = (case h of Some f \<Rightarrow> f | None \<Rightarrow> return ())"

definition runFirstInstallIfNeeded :: "'x platform_module \<Rightarrow> ('x sys_scheme, unit) M" where
  "runFirstInstallIfNeeded m =
     bind (gets (is_installed (pm_name m))) (\<lambda>existing.
       if existing then return () else seq (run_hook (pm_onInstall m)) (module_create m))"

definition runOnBoot :: "'x platform_module \<Rightarrow> ('x sys_scheme, unit) M" where
  "runOnBoot m = run_hook (pm_onBoot m)"

fun register_all :: "'x platform_module list \<Rightarrow> 'x registry \<Rightarrow> exn + 'x registry" where
  "register_all [] reg = Inr reg"
| "register_all (m # ms) reg = (case register m reg of Inl e \<Rightarrow> Inl e | Inr reg' \<Rightarrow> register_all ms reg')"

definition boot_modules :: "'x platform_module list \<Rightarrow> pay_env \<Rightarrow> ('x sys_scheme, 'x registry \<times> pay_env) M" where
  "boot_modules ms env = (case register_all ms [] of
       Inl e \<Rightarrow> throw e
     | Inr reg \<Rightarrow>
         seq (mergePermissions reg)
        (seq (forEach (getEnabledModules reg) (\<lambda>m. seq (runFirstInstallIfNeeded m) (runOnBoot m)))
             (return (reg, mergePaymentPurposes reg (mergeNotificationTypes reg env)))))"

section \<open>The modules of modules.config.ts\<close>

text \<open>An explicit value wins; without one a module is on outside production.\<close>

definition enabled_by :: "string option \<Rightarrow> string option \<Rightarrow> bool" where
  "enabled_by flag node_env = (case flag of Some v \<Rightarrow> v = ''true'' | None \<Rightarrow> node_env \<noteq> Some ''production'')"

definition exampleModule :: "bool \<Rightarrow> 'x platform_module" where
  "exampleModule enabled = \<lparr>pm_name = ''_example'', pm_persianName = utf8 [217, 133, 216, 171, 216, 167, 217, 132],
     pm_version = ''0.1.0'', pm_enabled = enabled, pm_nestModule = ''ExampleModule'',
     pm_permissions =
       [\<lparr>pd_code = ''_example:read:ping'', pd_description = ''Read example ping'',
          pd_persianDescription = utf8 [216, 174, 217, 136, 216, 167, 217, 134, 216, 175, 217, 134, 32, 217, 190, 219,
            140, 217, 134, 218, 175, 32, 217, 133, 216, 171, 216, 167, 217, 132],
          pd_defaultRoles = [''user'', ''admin'']\<rparr>,
        \<lparr>pd_code = ''_example:moderate'', pd_description = ''Moderate example'',
          pd_persianDescription = utf8 [217, 133, 216, 175, 219, 140, 216, 177, 219, 140, 216, 170, 32, 217, 133, 216,
            171, 216, 167, 217, 132],
          pd_defaultRoles = [''admin'']\<rparr>],
     pm_auditActions = [(''EXAMPLE_PINGED'', ''EXAMPLE_PINGED'')],
     pm_notificationTypes = Some [\<lparr>nt_type = ''_EXAMPLE_TEST'',
        nt_inApp = Some (utf8 [216, 170, 216, 179, 216, 170, 32, 217, 133, 216, 171, 216, 167, 217, 132],
          \<lambda>v. utf8 [217, 190, 219, 140, 216, 167, 217, 133, 32, 216, 170, 216, 179, 216, 170, 58, 32] @ str_var v ''message''),
        nt_sms = None, nt_email = None\<rparr>],
     pm_adminPages = Some [\<lparr>ap_path = ''/admin/_example'',
        ap_titleFa = utf8 [217, 133, 216, 171, 216, 167, 217, 132, 32, 40, 216, 170, 217, 136, 216, 179, 216, 185, 217, 135, 41],
        ap_icon = Some ''flask'', ap_permission = ''_example:moderate'', ap_order = Some 999\<rparr>],
     pm_paymentPurposes = Some [''_example_topup''],
     pm_onInstall = Some (return ()), pm_onBoot = Some (return ())\<rparr>"

definition AGENTS_AUDIT_ACTIONS :: "string list" where
  "AGENTS_AUDIT_ACTIONS = [''AGENTS_LISTING_SUBMITTED'', ''AGENTS_LISTING_APPROVED'', ''AGENTS_LISTING_REJECTED'',
     ''AGENTS_LISTING_SUSPENDED'', ''AGENTS_LISTING_UNSUSPENDED'', ''AGENTS_LISTING_UPDATED'',
     ''AGENTS_LISTING_FEATURED'', ''AGENTS_LISTING_UNFEATURED'', ''AGENTS_PURCHASE_COMPLETED'',
     ''AGENTS_PURCHASE_REFUNDED'', ''AGENTS_REVIEW_POSTED'', ''AGENTS_REVIEW_REMOVED'', ''AGENTS_RUN_CONSUMED'',
     ''AGENTS_RUN_REFUSED_INSUFFICIENT'', ''AGENTS_BUNDLE_DOWNLOADED'', ''AGENTS_API_KEY_ROTATED'',
     ''AGENTS_CATEGORY_CREATED'', ''AGENTS_CATEGORY_UPDATED'', ''AGENTS_SETTINGS_UPDATED'']"

definition AGENTS_MODULE_NAME :: string where
  "AGENTS_MODULE_NAME = ''agents''"

definition AGENTS_MODULE_PERSIAN_NAME :: string where
  "AGENTS_MODULE_PERSIAN_NAME = utf8 [216, 168, 216, 167, 216, 178, 216, 167, 216, 177, 218, 175, 216, 167, 217, 135, 32,
     216, 167, 219, 140, 216, 172, 217, 134, 216, 170, 226, 128, 140, 217, 135, 216, 167]"

definition AGENTS_MODULE_VERSION :: string where
  "AGENTS_MODULE_VERSION = ''0.1.0''"

definition agentsModule :: "bool \<Rightarrow> 'x platform_module" where
  "agentsModule enabled = \<lparr>pm_name = AGENTS_MODULE_NAME, pm_persianName = AGENTS_MODULE_PERSIAN_NAME,
     pm_version = AGENTS_MODULE_VERSION, pm_enabled = enabled, pm_nestModule = ''AgentsModule'',
     pm_permissions = AGENTS_PERMISSIONS, pm_auditActions = map (\<lambda>a. (a, a)) AGENTS_AUDIT_ACTIONS,
     pm_notificationTypes = Some AGENTS_NOTIFICATION_TYPES, pm_adminPages = Some AGENTS_ADMIN_PAGES,
     pm_paymentPurposes = Some AGENTS_PAYMENT_PURPOSES,
     pm_onInstall = Some (return ()), pm_onBoot = Some (return ())\<rparr>"

definition MODULES :: "string option \<Rightarrow> string option \<Rightarrow> string option \<Rightarrow> 'x platform_module list" where
  "MODULES ENABLE_EXAMPLE_MODULE ENABLE_AGENTS_MODULE NODE_ENV =
     [exampleModule (enabled_by ENABLE_EXAMPLE_MODULE NODE_ENV), agentsModule (enabled_by ENABLE_AGENTS_MODULE NODE_ENV)]"

text \<open>app.module.ts mounts the routes of the enabled modules.\<close>

definition ENABLED_MODULE_IMPORTS :: "'x platform_module list \<Rightarrow> string list" where
  "ENABLED_MODULE_IMPORTS ms = map pm_nestModule (filter pm_enabled ms)"

section \<open>Registration\<close>

lemma getByName_None: "getByName nm reg = None \<longleftrightarrow> nm \<notin> pm_name ` set reg"
  by (auto simp: getByName_def find_None_iff)

lemma register_all_iff: "register_all ms reg = Inr r \<longleftrightarrow>
    r = reg @ ms \<and> distinct (map pm_name ms) \<and> pm_name ` set reg \<inter> pm_name ` set ms = {}"
proof (induction ms arbitrary: reg)
  case (Cons m ms)
  then show ?case
    by (cases "pm_name m \<in> pm_name ` set reg") (auto simp: register_def getByName_None)
qed auto

lemma register_all_fresh: "distinct (map pm_name ms) \<Longrightarrow> register_all ms [] = Inr ms"
  by (simp add: register_all_iff)

lemma register_all_empty: "register_all ms [] = Inr r \<Longrightarrow> r = ms \<and> distinct (map pm_name ms)"
  by (simp add: register_all_iff)

section \<open>What a merged permission looks like\<close>

text \<open>The row has the declared description, and the default roles that exist are linked to it.\<close>

definition settled :: "permission_definition \<Rightarrow> 'x sys_scheme \<Rightarrow> bool" where
  "settled d s \<longleftrightarrow> (\<exists>p. find_permission (pd_code d) s = Some p \<and> p_description p = Some (pd_description d) \<and>
     (\<forall>r \<in> set (rows (roles s)). r_name r \<in> set (pd_defaultRoles d) \<longrightarrow> (r_id r, p_id p) \<in> set (role_permissions s)))"

definition other_codes :: "string \<Rightarrow> 'x sys_scheme \<Rightarrow> 'x sys_scheme \<Rightarrow> bool" where
  "other_codes c s t \<longleftrightarrow> (\<forall>c'. c' \<noteq> c \<longrightarrow> find_permission c' t = find_permission c' s)"

lemma find_permission_in: "find_permission c s = Some p \<Longrightarrow> p \<in> set (rows (permissions s)) \<and> p_code p = c"
  unfolding find_permission_def by (rule t_find_Some)

lemma update_constant [simp]: "\<exists>P. permissions_update F s = permissions_update (\<lambda>_. P) s"
  by (intro exI [of _ "F (permissions s)"]) (cases s; simp)

lemma find_change_other:
  assumes "\<And>x. p_code (g x) = p_code x" "c' \<noteq> c" "\<And>x. x \<in> set l \<Longrightarrow> p_id x = i \<Longrightarrow> p_code x = c"
  shows "List.find (\<lambda>p. p_code p = c') (map (\<lambda>x. if p_id x = i then g x else x) l) = List.find (\<lambda>p. p_code p = c') l"
  using assms by (induction l) auto

lemma find_change_own:
  assumes "\<And>x. p_code (g x) = p_code x"
  shows "List.find (\<lambda>p. p_code p = c) (map (\<lambda>x. if p_id x = i then g x else x) l) =
    map_option (\<lambda>x. if p_id x = i then g x else x) (List.find (\<lambda>p. p_code p = c) l)"
  using assms by (induction l) auto

lemma merged_permission_run:
  assumes "wf_table p_id (permissions s)"
  shows "\<exists>p t. merged_permission d s = (Inr p, t) \<and> find_permission (pd_code d) t = Some p \<and>
     p_description p = Some (pd_description d) \<and> wf_table p_id (permissions t) \<and> other_codes (pd_code d) s t \<and>
     (\<exists>P. t = permissions_update (\<lambda>_. P) s) \<and> (settled d s \<longrightarrow> t = s)"
proof (cases "find_permission (pd_code d) s")
  case None
  let ?f = "\<lambda>i. \<lparr>p_id = i, p_code = pd_code d, p_description = Some (pd_description d)\<rparr>"
  have "merged_permission d s = (Inr (?f (next_id (permissions s))), permissions_update (t_insert ?f) s)"
    using None by (simp add: merged_permission_def run_simps create_in_def t_new_def)
  moreover have "permissions_update (t_insert ?f) s = permissions_update (\<lambda>_. t_insert ?f (permissions s)) s"
    by (cases s) simp
  ultimately show ?thesis using None assms
    by (intro exI [of _ "?f (next_id (permissions s))"] exI [of _ "permissions_update (t_insert ?f) s"])
       (auto simp: find_permission_def t_find_def table_simps find_append other_codes_def settled_def split: option.splits)
next
  case (Some p)
  let ?g = "\<lambda>r. r\<lparr>p_description := Some (pd_description d)\<rparr>"
  let ?t = "permissions_update (t_change p_id (p_id p) ?g) s"
  note p = find_permission_in [OF Some]
  have get: "t_get p_id (p_id p) (permissions s) = Some p" using t_get_self [OF assms] p by blast
  have only: "x = p" if "x \<in> set (rows (permissions s))" "p_id x = p_id p" for x
    by (rule wf_key_unique [OF assms]) (use that p in auto)
  have run: "merged_permission d s = (Inr (?g p), ?t)"
    using Some get by (simp add: merged_permission_def run_simps update_in_def)
  have find: "find_permission c ?t = (if c = pd_code d then Some (?g p) else find_permission c s)" for c
  proof (cases "c = pd_code d")
    case True
    then show ?thesis using Some
      by (simp add: find_permission_def t_find_def t_change_def rows_t_update find_change_own)
  next
    case False
    have "List.find (\<lambda>q. p_code q = c) (map (\<lambda>x. if p_id x = p_id p then ?g x else x) (rows (permissions s))) =
        List.find (\<lambda>q. p_code q = c) (rows (permissions s))"
      by (rule find_change_other [where c = "pd_code d"]) (use False p only in auto)
    then show ?thesis using False by (simp add: find_permission_def t_find_def t_change_def rows_t_update)
  qed
  have unchanged: "?t = s" if "settled d s"
  proof -
    have "p_description p = Some (pd_description d)" using that Some by (auto simp: settled_def)
    then have "?g p = p" by simp
    then have "map (\<lambda>x. if p_id x = p_id p then ?g x else x) (rows (permissions s)) = rows (permissions s)"
      by (intro map_idI) (use only in auto)
    then have "t_change p_id (p_id p) ?g (permissions s) = permissions s"
      by (simp add: t_change_def t_update_def)
    then show ?thesis by (cases s) simp
  qed
  from run find assms unchanged show ?thesis
    by (intro exI [of _ "?g p"] exI [of _ ?t]) (auto simp: other_codes_def)
qed

lemma forEach_links:
  "\<exists>L. forEach rs (\<lambda>role. upsert_role_permission (r_id role) i) s = (Inr (), role_permissions_update (\<lambda>_. L) s) \<and>
     set L = set (role_permissions s) \<union> (\<lambda>r. (r_id r, i)) ` set rs \<and>
     ((\<lambda>r. (r_id r, i)) ` set rs \<subseteq> set (role_permissions s) \<longrightarrow> L = role_permissions s)"
proof (induction rs arbitrary: s)
  case Nil
  show ?case by (cases s) (auto simp: return_def intro: exI [of _ "role_permissions s"])
next
  case (Cons r rs)
  let ?A = "if (r_id r, i) \<in> set (role_permissions s) then role_permissions s else role_permissions s @ [(r_id r, i)]"
  let ?s = "role_permissions_update (\<lambda>_. ?A) s"
  have one: "upsert_role_permission (r_id r) i s = (Inr (), ?s)"
    by (cases s) (simp add: upsert_role_permission_def modify_def)
  obtain L where L: "forEach rs (\<lambda>role. upsert_role_permission (r_id role) i) ?s = (Inr (), role_permissions_update (\<lambda>_. L) ?s)"
    "set L = set ?A \<union> (\<lambda>r. (r_id r, i)) ` set rs" "(\<lambda>r. (r_id r, i)) ` set rs \<subseteq> set ?A \<longrightarrow> L = ?A"
    using Cons.IH [of ?s] by auto
  have "role_permissions_update (\<lambda>_. L) ?s = role_permissions_update (\<lambda>_. L) s" by (cases s) simp
  then show ?case using one L(1) by (intro exI [of _ L]) (use L(2,3) in \<open>auto simp: seq_def bind_def split: if_splits\<close>)
qed

lemma upsertPermission_run:
  assumes "wf_table p_id (permissions s)"
  shows "\<exists>t. upsertPermission d s = (Inr (), t) \<and> wf_table p_id (permissions t) \<and> settled d t \<and>
     (\<exists>P L. t = role_permissions_update (\<lambda>_. L) (permissions_update (\<lambda>_. P) s)) \<and>
     other_codes (pd_code d) s t \<and> set (role_permissions s) \<subseteq> set (role_permissions t) \<and> (settled d s \<longrightarrow> t = s)"
proof -
  obtain p t P where p: "merged_permission d s = (Inr p, t)" "find_permission (pd_code d) t = Some p"
    "p_description p = Some (pd_description d)" "wf_table p_id (permissions t)" "other_codes (pd_code d) s t"
    "t = permissions_update (\<lambda>_. P) s" "settled d s \<Longrightarrow> t = s"
    using merged_permission_run [OF assms] by blast
  have same: "roles t = roles s" "role_permissions t = role_permissions s" using p(6) by simp_all
  let ?rs = "t_filter (\<lambda>r. r_name r \<in> set (pd_defaultRoles d)) (roles t)"
  obtain L where L: "forEach ?rs (\<lambda>role. upsert_role_permission (r_id role) (p_id p)) t = (Inr (), role_permissions_update (\<lambda>_. L) t)"
    "set L = set (role_permissions t) \<union> (\<lambda>r. (r_id r, p_id p)) ` set ?rs"
    "(\<lambda>r. (r_id r, p_id p)) ` set ?rs \<subseteq> set (role_permissions t) \<longrightarrow> L = role_permissions t"
    using forEach_links by blast
  have run: "upsertPermission d s = (Inr (), role_permissions_update (\<lambda>_. L) t)"
  proof (cases "?rs = []")
    case True
    then have "L = role_permissions t" using L(3) by simp
    then have "role_permissions_update (\<lambda>_. L) t = t" by (cases t) simp
    then show ?thesis using p(1) True by (simp add: upsertPermission_def bind_def gets_def return_def)
  next
    case False
    then have "pd_defaultRoles d \<noteq> []" by (auto simp: t_filter_def)
    then show ?thesis using p(1) False L(1) by (simp add: upsertPermission_def bind_def gets_def)
  qed
  have "settled d (role_permissions_update (\<lambda>_. L) t)"
    using p(2,3) L(2) by (auto simp: settled_def find_permission_def t_filter_def)
  moreover have "role_permissions_update (\<lambda>_. L) t = s" if "settled d s"
  proof -
    have ts: "t = s" using p(7) that .
    have "(\<lambda>r. (r_id r, p_id p)) ` set ?rs \<subseteq> set (role_permissions t)"
      using that p(2) unfolding ts by (auto simp: settled_def t_filter_def)
    then have "L = role_permissions t" using L(3) by blast
    then show ?thesis unfolding ts by (cases s) simp
  qed
  ultimately show ?thesis using run p(4,5,6) L(2) same
    by (intro exI [of _ "role_permissions_update (\<lambda>_. L) t"]) (auto simp: other_codes_def find_permission_def)
qed

section \<open>A second boot\<close>

lemma settled_kept:
  assumes "settled d s" "other_codes c s t" "pd_code d \<noteq> c" "roles t = roles s"
    and "set (role_permissions s) \<subseteq> set (role_permissions t)"
  shows "settled d t"
  using assms unfolding settled_def other_codes_def by (metis subsetD)

lemma forEach_upserts:
  assumes "distinct (map pd_code ds)" "wf_table p_id (permissions s)"
  shows "\<exists>t. forEach ds upsertPermission s = (Inr (), t) \<and> wf_table p_id (permissions t) \<and>
     (\<forall>d \<in> set ds. settled d t) \<and> (\<exists>P L. t = role_permissions_update (\<lambda>_. L) (permissions_update (\<lambda>_. P) s)) \<and>
     (\<forall>d. pd_code d \<notin> pd_code ` set ds \<longrightarrow> settled d s \<longrightarrow> settled d t) \<and> ((\<forall>d \<in> set ds. settled d s) \<longrightarrow> t = s)"
  using assms
proof (induction ds arbitrary: s)
  case Nil
  show ?case
    by (intro exI [of _ s] conjI)
       (use Nil.prems in \<open>auto simp: return_def intro!: exI [of _ "permissions s"] exI [of _ "role_permissions s"]\<close>)
next
  case (Cons d ds)
  obtain t P L where t: "upsertPermission d s = (Inr (), t)" "wf_table p_id (permissions t)" "settled d t"
    "t = role_permissions_update (\<lambda>_. L) (permissions_update (\<lambda>_. P) s)" "other_codes (pd_code d) s t"
    "set (role_permissions s) \<subseteq> set (role_permissions t)" "settled d s \<Longrightarrow> t = s"
    using upsertPermission_run [OF Cons.prems(2)] by blast
  have "distinct (map pd_code ds)" using Cons.prems(1) by simp
  from Cons.IH [OF this t(2)] obtain u P' L' where u: "forEach ds upsertPermission t = (Inr (), u)"
    "wf_table p_id (permissions u)" "\<forall>d \<in> set ds. settled d u"
    "u = role_permissions_update (\<lambda>_. L') (permissions_update (\<lambda>_. P') t)"
    "\<forall>d. pd_code d \<notin> pd_code ` set ds \<longrightarrow> settled d t \<longrightarrow> settled d u" "(\<forall>d \<in> set ds. settled d t) \<longrightarrow> u = t"
    by blast
  have "u = role_permissions_update (\<lambda>_. L') (permissions_update (\<lambda>_. P') s)"
    unfolding u(4) t(4) by (cases s) simp
  moreover have "settled d u" using u(5) t(3) Cons.prems(1) by simp
  moreover have "settled d' u" if "pd_code d' \<notin> pd_code ` set (d # ds)" "settled d' s" for d'
  proof -
    have "settled d' t" by (rule settled_kept [OF that(2) t(5)]) (use that t(4,6) in auto)
    then show ?thesis using u(5) that by simp
  qed
  moreover have "u = s" if "\<forall>d' \<in> set (d # ds). settled d' s" using that t(7) u(6) by simp
  ultimately show ?case using t(1) u(1,2,3) by (intro exI [of _ u]) (auto simp: seq_def bind_def)
qed

lemma forEach_nested: "forEach ms (\<lambda>m. forEach (f m) g) = forEach (concat (map f ms)) g"
proof -
  have append: "forEach (xs @ ys) g = seq (forEach xs g) (forEach ys g)" for xs ys
    by (induction xs) (auto simp: seq_def bind_def return_def fun_eq_iff split: sum.splits prod.splits)
  show ?thesis by (induction ms) (simp_all add: append)
qed

definition declared :: "'x platform_module list \<Rightarrow> permission_definition list" where
  "declared ms = concat (map pm_permissions (filter pm_enabled ms))"

lemma mergePermissions_all: "mergePermissions reg = forEach (declared reg) upsertPermission"
  by (simp add: mergePermissions_def declared_def getEnabledModules_def forEach_nested)

text \<open>What the hooks of a module must leave alone.\<close>

definition boot_tables :: "'x sys_scheme \<Rightarrow> role table \<times> permission table \<times> (int \<times> int) list \<times> module_install table" where
  "boot_tables s = (roles s, permissions s, role_permissions s, modules_installed s)"

definition quiet :: "'x platform_module \<Rightarrow> bool" where
  "quiet m \<longleftrightarrow> (\<forall>s. boot_tables (snd (run_hook (pm_onInstall m) s)) = boot_tables s \<and>
     boot_tables (snd (run_hook (pm_onBoot m) s)) = boot_tables s)"

definition install_step :: "'x platform_module \<Rightarrow> ('x sys_scheme, unit) M" where
  "install_step m = seq (runFirstInstallIfNeeded m) (runOnBoot m)"

lemma quiet_boot: "quiet m \<Longrightarrow> boot_tables (snd (runOnBoot m s)) = boot_tables s"
  by (simp add: quiet_def runOnBoot_def)

lemma install_step_run:
  assumes "quiet m" "install_step m s = (Inr (), t)"
  shows "is_installed (pm_name m) t \<and> (\<forall>nm. is_installed nm s \<longrightarrow> is_installed nm t) \<and>
    roles t = roles s \<and> permissions t = permissions s \<and> role_permissions t = role_permissions s"
proof -
  obtain u where u: "runFirstInstallIfNeeded m s = (Inr (), u)" "runOnBoot m u = (Inr (), t)"
    using assms(2) by (auto simp: install_step_def seq_def bind_def split: sum.splits prod.splits)
  have tu: "boot_tables t = boot_tables u" using quiet_boot [OF assms(1), of u] u(2) by simp
  have "is_installed (pm_name m) u \<and> (\<forall>nm. is_installed nm s \<longrightarrow> is_installed nm u) \<and>
    roles u = roles s \<and> permissions u = permissions s \<and> role_permissions u = role_permissions s"
  proof (cases "is_installed (pm_name m) s")
    case True
    then show ?thesis using u(1) by (simp add: runFirstInstallIfNeeded_def run_simps)
  next
    case False
    obtain v where v: "run_hook (pm_onInstall m) s = (Inr (), v)" "module_create m v = (Inr (), u)"
      using u(1) False
      by (auto simp: runFirstInstallIfNeeded_def seq_def bind_def gets_def split: sum.splits prod.splits)
    have "boot_tables v = boot_tables s"
      using assms(1) v(1) unfolding quiet_def by (metis snd_conv)
    then show ?thesis using v(2)
      by (auto simp: module_create_def run_simps create_in_def boot_tables_def is_installed_def t_exists_def table_simps
          split: if_splits)
  qed
  then show ?thesis using tu by (simp add: boot_tables_def is_installed_def)
qed

lemma install_steps_run:
  assumes "\<forall>m \<in> set ms. quiet m" "forEach ms install_step s = (Inr (), t)"
  shows "(\<forall>m \<in> set ms. is_installed (pm_name m) t) \<and> (\<forall>nm. is_installed nm s \<longrightarrow> is_installed nm t) \<and>
    roles t = roles s \<and> permissions t = permissions s \<and> role_permissions t = role_permissions s"
  using assms
proof (induction ms arbitrary: s)
  case (Cons m ms)
  obtain u where u: "install_step m s = (Inr (), u)" "forEach ms install_step u = (Inr (), t)"
    using Cons.prems(2) by (auto simp: seq_def bind_def split: sum.splits prod.splits)
  have "quiet m" using Cons.prems(1) by simp
  from install_step_run [OF this u(1)] Cons.IH [OF _ u(2)] Cons.prems(1) show ?case by auto
qed (simp add: return_def)

lemma install_steps_again:
  assumes "\<forall>m \<in> set ms. quiet m" "\<forall>m \<in> set ms. is_installed (pm_name m) s"
  shows "forEach ms install_step s = forEach ms runOnBoot s"
  using assms
proof (induction ms arbitrary: s)
  case (Cons m ms)
  have one: "install_step m s = runOnBoot m s"
    using Cons.prems(2) by (simp add: install_step_def runFirstInstallIfNeeded_def run_simps seq_def bind_def)
  have "boot_tables (snd (runOnBoot m s)) = boot_tables s" using Cons.prems(1) by (simp add: quiet_boot)
  then have "\<forall>m' \<in> set ms. is_installed (pm_name m') (snd (runOnBoot m s))"
    using Cons.prems(2) by (simp add: boot_tables_def is_installed_def)
  with Cons.IH Cons.prems(1) one show ?case by (auto simp: seq_def bind_def split: sum.splits prod.splits)
qed simp

lemma boot_modules_steps:
  assumes "distinct (map pm_name ms)"
  shows "boot_modules ms env = seq (forEach (declared ms) upsertPermission) (seq (forEach (filter pm_enabled ms) install_step)
     (return (ms, mergePaymentPurposes ms (mergeNotificationTypes ms env))))"
  by (simp add: boot_modules_def register_all_fresh [OF assms] mergePermissions_all getEnabledModules_def install_step_def [abs_def])

text \<open>C24. A restart repeats nothing but the onBoot hooks: when a boot of modules with distinct codes
  succeeded and their hooks stay away from the tables of roles, permissions and installations, the
  next boot installs nothing, writes no permission and no link, and comes up with the same
  registry and environment.\<close>

theorem reboot_runs_only_boot_hooks:
  assumes "boot_modules ms env s = (Inr r, t)" "wf_table p_id (permissions s)"
    and "distinct (map pd_code (declared ms))" "\<forall>m \<in> set (filter pm_enabled ms). quiet m"
  shows "boot_modules ms env t = seq (forEach (filter pm_enabled ms) runOnBoot) (return r) t"
proof -
  have names: "distinct (map pm_name ms)"
    using assms(1) register_all_empty by (fastforce simp: boot_modules_def throw_def split: sum.splits)
  note steps = boot_modules_steps [OF names]
  obtain u where u: "forEach (declared ms) upsertPermission s = (Inr (), u)" "wf_table p_id (permissions u)"
    "\<forall>d \<in> set (declared ms). settled d u"
    using forEach_upserts [OF assms(3,2)] by blast
  have inst: "forEach (filter pm_enabled ms) install_step u = (Inr (), t)" and
      r: "r = (ms, mergePaymentPurposes ms (mergeNotificationTypes ms env))"
    using assms(1) u(1) unfolding steps by (auto simp: seq_def bind_def return_def split: sum.splits prod.splits)
  note after = install_steps_run [OF assms(4) inst]
  have "\<forall>d \<in> set (declared ms). settled d t"
    using u(3) after by (simp add: settled_def find_permission_def)
  moreover have "wf_table p_id (permissions t)" using u(2) after by simp
  ultimately have "forEach (declared ms) upsertPermission t = (Inr (), t)"
    using forEach_upserts [OF assms(3), of t] by auto
  moreover have "forEach (filter pm_enabled ms) install_step t = forEach (filter pm_enabled ms) runOnBoot t"
    by (rule install_steps_again [OF assms(4)]) (use after in blast)
  ultimately show ?thesis unfolding steps r by (simp add: seq_def bind_def)
qed

section \<open>A disabled module\<close>

lemma disabled_ships_dark:
  assumes "distinct (map pm_name ms)"
  shows "boot_modules (filter pm_enabled ms) env s =
    (case boot_modules ms env s of (Inl e, t) \<Rightarrow> (Inl e, t) | (Inr (reg, env'), t) \<Rightarrow> (Inr (filter pm_enabled reg, env'), t))"
proof -
  have d: "distinct (map pm_name (filter pm_enabled ms))" using assms by (simp add: distinct_map_filter)
  have p: "declared (filter pm_enabled ms) = declared ms" by (simp add: declared_def)
  have m: "mergePaymentPurposes (filter pm_enabled ms) (mergeNotificationTypes (filter pm_enabled ms) env) =
      mergePaymentPurposes ms (mergeNotificationTypes ms env)"
    by (simp add: mergePaymentPurposes_def mergeNotificationTypes_def merged_purposes_def getEnabledModules_def)
  show ?thesis
    unfolding boot_modules_steps [OF assms] boot_modules_steps [OF d] p m
    by (auto simp: seq_def bind_def return_def split: sum.splits prod.splits)
qed

section \<open>Who holds what\<close>

text \<open>The grants that the seeding makes, by the name of the role and the code.\<close>

definition seed_grant :: "string \<Rightarrow> string \<Rightarrow> bool" where
  "seed_grant nm c \<longleftrightarrow> nm = ''super_admin'' \<and> c = ''super:everything'' \<or>
     nm = ''member'' \<and> c \<in> {''users:read:profile_self'', ''users:update:profile_self''}"

definition link_ok :: "'x sys_scheme \<Rightarrow> int \<times> int \<Rightarrow> bool" where
  "link_ok s l \<longleftrightarrow> (\<exists>rl \<in> set (rows (roles s)). \<exists>pm \<in> set (rows (permissions s)).
     r_id rl = fst l \<and> p_id pm = snd l \<and> seed_grant (r_name rl) (p_code pm))"

definition seeded :: "'x sys_scheme \<Rightarrow> bool" where
  "seeded s \<longleftrightarrow> wf_table r_id (roles s) \<and> wf_table p_id (permissions s) \<and>
     (\<forall>rl \<in> set (rows (roles s)). r_name rl \<in> {''super_admin'', ''member''}) \<and>
     (\<forall>l \<in> set (role_permissions s). link_ok s l)"

lemma seeded_fields: "seeded s \<Longrightarrow> roles t = roles s \<Longrightarrow> permissions t = permissions s \<Longrightarrow>
    role_permissions t = role_permissions s \<Longrightarrow> seeded t"
  by (simp add: seeded_def link_ok_def)

text \<open>Permissions may be added and described as long as the codes of the rows stay.\<close>

lemma seeded_permissions:
  assumes "seeded s" "t = permissions_update (\<lambda>_. P) s" "wf_table p_id P"
    and "(\<lambda>p. (p_id p, p_code p)) ` set (rows (permissions s)) \<subseteq> (\<lambda>p. (p_id p, p_code p)) ` set (rows P)"
  shows "seeded t"
proof -
  have "link_ok t l" if l: "link_ok s l" for l
  proof -
    obtain rl pm where rl: "rl \<in> set (rows (roles s))" "pm \<in> set (rows (permissions s))" "r_id rl = fst l"
      "p_id pm = snd l" "seed_grant (r_name rl) (p_code pm)" using l unfolding link_ok_def by blast
    have "(p_id pm, p_code pm) \<in> (\<lambda>p. (p_id p, p_code p)) ` set (rows P)"
      by (rule subsetD [OF assms(4)]) (use rl(2) in blast)
    then obtain q where "q \<in> set (rows P)" "p_id q = p_id pm" "p_code q = p_code pm" by auto
    then have "q \<in> set (rows (permissions t)) \<and> p_id q = snd l \<and> seed_grant (r_name rl) (p_code q)"
      using rl(4,5) assms(2) by simp
    moreover have "rl \<in> set (rows (roles t))" using rl(1) assms(2) by simp
    ultimately show ?thesis using rl(3) unfolding link_ok_def by blast
  qed
  then show ?thesis using assms(1,3) unfolding seeded_def assms(2) by simp
qed

lemma merged_codes:
  assumes "merged_permission d s = (Inr p, t)" "wf_table p_id (permissions s)"
  shows "(\<lambda>p. (p_id p, p_code p)) ` set (rows (permissions s)) \<subseteq> (\<lambda>p. (p_id p, p_code p)) ` set (rows (permissions t))"
proof (cases "find_permission (pd_code d) s")
  case None
  then show ?thesis using assms(1) by (auto simp: merged_permission_def run_simps create_in_def table_simps)
next
  case (Some q)
  let ?g = "\<lambda>r. r\<lparr>p_description := Some (pd_description d)\<rparr>"
  have l: "map (\<lambda>p. (p_id p, p_code p)) (map (\<lambda>r. if P r then ?g r else r) l) = map (\<lambda>p. (p_id p, p_code p)) l" for P l
    by (induction l) auto
  have "q \<in> set (rows (permissions s))" using find_permission_in [OF Some] by blast
  then have "t = permissions_update (t_change p_id (p_id q) ?g) s"
    using assms Some by (simp add: merged_permission_def run_simps update_in_def t_get_self)
  then have "rows (permissions t) = map (\<lambda>r. if p_id r = p_id q then ?g r else r) (rows (permissions s))"
    by (simp add: t_change_def rows_t_update)
  then have "map (\<lambda>p. (p_id p, p_code p)) (rows (permissions t)) = map (\<lambda>p. (p_id p, p_code p)) (rows (permissions s))"
    by (simp only: l)
  from arg_cong [OF this, of set] show ?thesis by (simp only: set_map order_refl)
qed

lemma seeded_upsertPermission:
  assumes "seeded s" "set (pd_defaultRoles d) \<inter> {''super_admin'', ''member''} = {}"
  shows "seeded (snd (upsertPermission d s))"
proof -
  have w: "wf_table p_id (permissions s)" using assms(1) by (simp add: seeded_def)
  obtain p t P where p: "merged_permission d s = (Inr p, t)" "wf_table p_id (permissions t)" "t = permissions_update (\<lambda>_. P) s"
    using merged_permission_run [OF w] by blast
  have t: "seeded t"
    by (rule seeded_permissions [OF assms(1) p(3)]) (use p(2,3) merged_codes [OF p(1) w] in simp_all)
  have "t_filter (\<lambda>r. r_name r \<in> set (pd_defaultRoles d)) (roles t) = []"
    using t assms(2) by (auto simp: t_filter_def filter_empty_conv seeded_def)
  then have "upsertPermission d s = (Inr (), t)"
    using p(1) by (simp add: upsertPermission_def bind_def gets_def return_def)
  then show ?thesis using t by simp
qed

lemma upsert_permission_merged:
  "upsert_permission (pd_code d, pd_description d) s =
     (case merged_permission d s of (Inr p, t) \<Rightarrow> (Inr (), t) | (Inl e, t) \<Rightarrow> (Inr (), t))"
  if "wf_table p_id (permissions s)"
  using that
  by (auto simp: upsert_permission_def merged_permission_def run_simps update_in_def create_in_def t_new_def
      find_permission_def t_get_self split: option.splits dest!: t_find_Some)

lemma keeps_seeded_permission: "keeps seeded (upsert_permission cd)"
  unfolding keeps_def
proof (intro allI impI)
  fix s :: "'a sys_scheme" assume s: "seeded s"
  then have w: "wf_table p_id (permissions s)" by (simp add: seeded_def)
  obtain c d where cd: "cd = (c, d)" by (cases cd)
  let ?d = "\<lparr>pd_code = c, pd_description = d, pd_persianDescription = [], pd_defaultRoles = []\<rparr>"
  obtain p t P where p: "merged_permission ?d s = (Inr p, t)" "wf_table p_id (permissions t)" "t = permissions_update (\<lambda>_. P) s"
    using merged_permission_run [OF w] by blast
  have "seeded t"
    by (rule seeded_permissions [OF s p(3)]) (use p(2,3) merged_codes [OF p(1) w] in simp_all)
  then show "seeded (snd (upsert_permission cd s))" using upsert_permission_merged [OF w, of ?d] p(1) cd by simp
qed

lemma wp_upsert_role:
  assumes "seeded s" "nm \<in> {''super_admin'', ''member''}"
  shows "wp (upsert_role nm pn) (\<lambda>r t. seeded t \<and> r \<in> set (rows (roles t)) \<and> r_name r = nm) (\<lambda>_. seeded) s"
proof (cases "find_role nm s")
  case None
  let ?f = "\<lambda>i. \<lparr>r_id = i, r_name = nm, r_persianName = pn, r_isSystem = False\<rparr>"
  have "seeded (roles_update (t_insert ?f) s)"
    using assms by (fastforce simp: seeded_def link_ok_def table_simps)
  then show ?thesis using None
    by (simp add: upsert_role_def wp_bind wp_gets wp_def create_in_def t_new_def table_simps bind_def gets_def)
next
  case (Some r)
  then have "r \<in> set (rows (roles s)) \<and> r_name r = nm" unfolding find_role_def by (rule t_find_Some)
  then show ?thesis using Some assms by (simp add: upsert_role_def wp_bind wp_gets wp_return)
qed

lemma wp_seed_link:
  assumes "seeded s" "r \<in> set (rows (roles s))" "p \<in> set (rows (permissions s))" "seed_grant (r_name r) (p_code p)"
  shows "wp (upsert_role_permission (r_id r) (p_id p)) (\<lambda>_. seeded) (\<lambda>_. seeded) s"
proof -
  have "link_ok (role_permissions_update F s) (r_id r, p_id p)" for F
    using assms(2-4) by (auto simp: link_ok_def)
  moreover have "link_ok (role_permissions_update F s) l = link_ok s l" for F l by (simp add: link_ok_def)
  ultimately show ?thesis using assms(1)
    by (auto simp: upsert_role_permission_def wp_modify seeded_def)
qed

definition member_link :: "role \<Rightarrow> string \<Rightarrow> ('x sys_scheme, unit) M" where
  "member_link r code = bind (gets (find_permission code)) (\<lambda>perm. case perm of
     None \<Rightarrow> return () | Some p \<Rightarrow> upsert_role_permission (r_id r) (p_id p))"

lemma wp_member_link:
  assumes "seeded s" "r \<in> set (rows (roles s))" "seed_grant (r_name r) code"
  shows "wp (member_link r code) (\<lambda>_ t. seeded t \<and> roles t = roles s) (\<lambda>_ t. seeded t \<and> roles t = roles s) s"
proof (cases "find_permission code s")
  case (Some p)
  have "p \<in> set (rows (permissions s))" "seed_grant (r_name r) (p_code p)"
    using assms(3) find_permission_in [OF Some] by auto
  from wp_seed_link [OF assms(1,2) this] show ?thesis
    using Some by (simp add: member_link_def wp_bind wp_gets upsert_role_permission_def wp_modify)
qed (use assms in \<open>simp add: member_link_def wp_bind wp_gets wp_return\<close>)

lemma keeps_seeded_fields:
  "keeps seeded (create_in users users_update f)"
  "keeps seeded (update_in users users_update u_id i g)"
  "keeps seeded (assignRoleToUser u q sc)"
  by (auto simp: keeps_def create_in_def update_in_def assignRoleToUser_def run_simps split: option.splits
      intro: seeded_fields)

lemma keeps_seeded_super: "keeps seeded seedSuperAdminRole"
proof (rule keeps_wpI)
  fix s :: "'a sys_scheme" assume s: "seeded s"
  have "wp (member_link r ''super:everything'') (\<lambda>_. seeded) (\<lambda>_. seeded) t"
    if "seeded t" "r \<in> set (rows (roles t))" "r_name r = ''super_admin''" for r and t :: "'a sys_scheme"
    by (rule wp_mono [OF wp_member_link [OF that(1,2)]]) (simp_all add: that(3) seed_grant_def)
  then show "wp seedSuperAdminRole (\<lambda>_. seeded) (\<lambda>_. seeded) s"
    unfolding seedSuperAdminRole_def member_link_def [symmetric] wp_bind
    by (intro wp_mono [OF wp_upsert_role [OF s]]) auto
qed

lemma keeps_seeded_members: "keeps seeded seedMemberRole"
proof (rule keeps_wpI)
  fix s :: "'a sys_scheme" assume s: "seeded s"
  have links: "wp (forEach codes (member_link r)) (\<lambda>_. seeded) (\<lambda>_. seeded) t"
    if "seeded t" "r \<in> set (rows (roles t))" "\<forall>c \<in> set codes. seed_grant (r_name r) c" for r codes and t :: "'a sys_scheme"
    using that
  proof (induction codes arbitrary: t)
    case (Cons c cs)
    have g: "seed_grant (r_name r) c" using Cons.prems(3) by simp
    show ?case unfolding forEach.simps wp_seq
      by (rule wp_mono [OF wp_member_link [OF Cons.prems(1,2) g]]) (use Cons.IH Cons.prems(2,3) in auto)
  qed (simp add: wp_return)
  show "wp seedMemberRole (\<lambda>_. seeded) (\<lambda>_. seeded) s"
    unfolding seedMemberRole_def member_link_def [symmetric, abs_def] wp_bind
    by (rule wp_mono [OF wp_upsert_role [OF s]]) (auto simp: seed_grant_def simp del: forEach.simps intro!: links)
qed

lemma keeps_seeded_boot: "keeps seeded (onApplicationBootstrap now phone)"
proof -
  have "keeps seeded (ensureSuperAdminUser now phone)"
    unfolding ensureSuperAdminUser_def by (intro keeps_intros keeps_seeded_fields)
  moreover have "keeps seeded seedPermissions"
    unfolding seedPermissions_def by (rule keeps_forEach) (rule keeps_seeded_permission)
  ultimately show ?thesis
    unfolding onApplicationBootstrap_def by (intro keeps_seq keeps_seeded_super keeps_seeded_members)
qed

lemma seeded_books: "seeded s \<Longrightarrow> same_books s t \<Longrightarrow> seeded t"
  by (cases s; cases t) (auto simp: same_books_def intro: seeded_fields)

lemma keeps_seeded_account: "keeps seeded (run_user pf op)"
proof -
  have "keeps seeded (dispatch env u ty pl chs)" "keeps seeded (audit_log sha now en)" "keeps seeded (invalidateUserCache u)"
    "keeps seeded (findOrCreateForUser u)" "keeps seeded (removeRoleFromUser u q)"
    "keeps seeded (user_write now u g)" "keeps seeded (user_insert now ph st)"
    for env u ty pl chs sha now en q g ph st
  proof -
    show "keeps seeded (dispatch env u ty pl chs)" by (rule keeps_dispatch) (rule seeded_books)
  qed (auto simp: keeps_def audit_log_run user_write_def user_insert_def check_user_def run_simps create_in_def removeRoleFromUser_def
         findOrCreateForUser_def invalidateUserCache_def redis_runs Let_def intro: seeded_fields split: option.splits)
  note steps = this keeps_seeded_fields
  show ?thesis
    by (cases op)
       (auto simp: run_user_def users_create_def users_update_profile_def markPhoneVerified_def completeProfile_def
         softDelete_def updateStatusByAdmin_def assignRoleByAdmin_def removeRoleByAdmin_def
         intro!: keeps_intros steps split: option.splits)
qed

lemma MODULES_hooks: "m \<in> set (MODULES x y z) \<Longrightarrow> pm_onInstall m = Some (return ()) \<and> pm_onBoot m = Some (return ())"
  by (auto simp: MODULES_def exampleModule_def agentsModule_def)

lemma keeps_seeded_modules: "keeps seeded (boot_modules (MODULES x y z) env)"
proof -
  have d: "distinct (map pm_name (MODULES x y z))"
    by (simp add: MODULES_def exampleModule_def agentsModule_def AGENTS_MODULE_NAME_def)
  have roles: "set (pd_defaultRoles d) \<inter> {''super_admin'', ''member''} = {}" if "d \<in> set (declared (MODULES x y z))" for d
    using that by (auto simp: declared_def MODULES_def exampleModule_def agentsModule_def AGENTS_PERMISSIONS_def split: if_splits)
  have perms: "keeps seeded (upsertPermission d :: ('a sys_scheme, unit) M)" if "d \<in> set (declared (MODULES x y z :: 'a platform_module list))" for d
    unfolding keeps_def using seeded_upsertPermission roles [OF that] by blast
  have "keeps seeded (install_step m :: ('a sys_scheme, unit) M)" if "m \<in> set (MODULES x y z)" for m
  proof -
    have "keeps seeded (create_in modules_installed modules_installed_update f)" for f
      by (rule keeps_create_in) (erule seeded_fields; simp)
    then show ?thesis using MODULES_hooks [OF that]
      by (auto simp: install_step_def runFirstInstallIfNeeded_def runOnBoot_def module_create_def run_hook_def intro!: keeps_intros)
  qed
  with perms show ?thesis unfolding boot_modules_steps [OF d] by (intro keeps_intros) auto
qed

section \<open>Boots and accounts in any order\<close>

datatype platform_step =
    SeedCore int "string option"
  | LoadModules "string option" "string option" "string option" pay_env
  | Account int user_op

definition run_step :: "platform \<Rightarrow> platform_step \<Rightarrow> 'x sys_scheme \<Rightarrow> 'x sys_scheme" where
  "run_step pf st s = (case st of
       SeedCore now phone \<Rightarrow> snd (onApplicationBootstrap now phone s)
     | LoadModules x y z env \<Rightarrow> snd (boot_modules (MODULES x y z) env s)
     | Account now op \<Rightarrow> snd (run_user (pf_at now pf) op s))"

fun run_steps :: "platform \<Rightarrow> platform_step list \<Rightarrow> 'x sys_scheme \<Rightarrow> 'x sys_scheme" where
  "run_steps pf [] s = s"
| "run_steps pf (st # sts) s = run_steps pf sts (run_step pf st s)"

lemma seeded_steps: "seeded s \<Longrightarrow> seeded (run_steps pf sts s)"
proof (induction sts arbitrary: s)
  case (Cons st sts)
  have "seeded (run_step pf st s)"
    using Cons.prems keepsD [OF keeps_seeded_boot, of s] keepsD [OF keeps_seeded_modules, of s] keepsD [OF keeps_seeded_account, of s]
    by (simp add: run_step_def split: platform_step.split)
  then show ?case using Cons.IH by simp
qed simp

definition holds_named :: "string \<Rightarrow> int \<Rightarrow> 'x sys_scheme \<Rightarrow> bool" where
  "holds_named nm u s \<longleftrightarrow> list_ex (\<lambda>ur. ur_userId ur = u \<and> map_option r_name (t_get r_id (ur_roleId ur) (roles s)) = Some nm) (user_roles s)"

lemma seeded_holds:
  assumes "seeded s" "holds s u c"
  shows "\<exists>nm. seed_grant nm c \<and> holds_named nm u s"
proof -
  have w: "wf_table r_id (roles s)" "wf_table p_id (permissions s)" using assms(1) by (simp_all add: seeded_def)
  obtain r pm where h: "has_role s u r" "pm \<in> set (rows (permissions s))" "(r, p_id pm) \<in> set (role_permissions s)" "p_code pm = c"
    using assms(2) by (auto simp: holds_def role_grants_iff)
  then obtain rl q where q: "rl \<in> set (rows (roles s))" "q \<in> set (rows (permissions s))" "r_id rl = r" "p_id q = p_id pm"
    "seed_grant (r_name rl) (p_code q)"
    using assms(1) by (fastforce simp: seeded_def link_ok_def)
  have "q = pm" by (rule wf_key_unique [OF w(2) q(2) h(2) q(4)])
  moreover have "t_get r_id r (roles s) = Some rl" using t_get_self [OF w(1) q(1)] q(3) by simp
  ultimately show ?thesis using q(5) h(1,4)
    by (auto simp: holds_named_def list_ex_iff has_role_iff intro!: exI [of _ "r_name rl"])
qed

text \<open>C23. Only two roles ever grant anything: on a database that the platform seeded itself, after
  any boots of its modules and any account operations, a request passes a permission guard only as
  a super\_admin or, for reading and updating the own profile, as a member.  The buyer and maker
  permissions of the agents module, meant for every user, are thus out of reach.\<close>

theorem only_seeded_roles_grant:
  assumes "roles s = empty_table" "permissions s = empty_table" "role_permissions s = []"
    and "rq_user req = Some u" "perm \<noteq> []" "permission_guard (Some perm) req (run_steps pf sts s) = (Inr (), t)"
  shows "holds_named ''super_admin'' u t \<or>
    perm \<in> {''users:read:profile_self'', ''users:update:profile_self''} \<and> holds_named ''member'' u t"
proof -
  have "seeded s" using assms(1-3) by (simp add: seeded_def) (simp add: empty_table_def)
  then have s: "seeded (run_steps pf sts s)" by (rule seeded_steps)
  have "t = run_steps pf sts s \<and> (holds t u perm \<or> holds t u ''super:everything'')"
    using assms(4-6) by (auto simp: permission_guard_def nonempty_def bind_def userHasPermission_run throw_def return_def
        split: if_splits)
  with s have "(\<exists>nm. seed_grant nm perm \<and> holds_named nm u t) \<or> (\<exists>nm. seed_grant nm ''super:everything'' \<and> holds_named nm u t)"
    using seeded_holds by blast
  then show ?thesis by (auto simp: seed_grant_def)
qed

section \<open>Witnesses\<close>

lemma install_steps_trivial:
  assumes "\<forall>m \<in> set ms. pm_onInstall m = Some (return ()) \<and> pm_onBoot m = Some (return ())"
  shows "\<exists>I. forEach ms install_step s = (Inr (), modules_installed_update (\<lambda>_. I) s)"
  using assms
proof (induction ms arbitrary: s)
  case Nil
  show ?case by (intro exI [of _ "modules_installed s"]) (cases s; simp add: return_def)
next
  case (Cons m ms)
  have "\<exists>I. install_step m s = (Inr (), modules_installed_update (\<lambda>_. I) s)"
  proof (cases "is_installed (pm_name m) s")
    case True
    then show ?thesis using Cons.prems
      by (intro exI [of _ "modules_installed s"]) (cases s; simp add: install_step_def runFirstInstallIfNeeded_def runOnBoot_def run_hook_def run_simps)
  next
    case False
    then show ?thesis using Cons.prems
      by (intro exI [of _ "t_insert (\<lambda>i. \<lparr>mi_id = i, mi_name = pm_name m, mi_version = pm_version m\<rparr>) (modules_installed s)"])
         (cases s; simp add: install_step_def runFirstInstallIfNeeded_def runOnBoot_def run_hook_def module_create_def run_simps create_in_def)
  qed
  then obtain I where I: "install_step m s = (Inr (), modules_installed_update (\<lambda>_. I) s)" by blast
  from Cons obtain J where J: "forEach ms install_step (modules_installed_update (\<lambda>_. I) s) =
      (Inr (), modules_installed_update (\<lambda>_. J) (modules_installed_update (\<lambda>_. I) s))" by fastforce
  have "modules_installed_update (\<lambda>_. J) (modules_installed_update (\<lambda>_. I) s) = modules_installed_update (\<lambda>_. J) s"
    by (cases s) simp
  then show ?case using I J by (intro exI [of _ J]) (simp add: seq_def bind_def)
qed

lemma MODULES_codes: "distinct (map pd_code (declared (MODULES x y z)))"
  by (cases "enabled_by x z"; cases "enabled_by y z")
     (simp_all add: declared_def MODULES_def exampleModule_def agentsModule_def AGENTS_PERMISSIONS_def)

lemma MODULES_boot:
  fixes s :: "'x sys_scheme"
  assumes "wf_table p_id (permissions s)"
  shows "\<exists>r t. boot_modules (MODULES x y z) env s = (Inr r, t) \<and> wf_table p_id (permissions t) \<and>
     roles t = roles s \<and> users t = users s"
proof -
  let ?ms = "MODULES x y z :: 'x platform_module list"
  have d: "distinct (map pm_name ?ms)"
    by (simp add: MODULES_def exampleModule_def agentsModule_def AGENTS_MODULE_NAME_def)
  obtain u P L where u: "forEach (declared ?ms) upsertPermission s = (Inr (), u)" "wf_table p_id (permissions u)"
    "u = role_permissions_update (\<lambda>_. L) (permissions_update (\<lambda>_. P) s)"
    using forEach_upserts [OF MODULES_codes assms] by blast
  have "\<forall>m \<in> set (filter pm_enabled ?ms). pm_onInstall m = Some (return ()) \<and> pm_onBoot m = Some (return ())"
    using MODULES_hooks by auto
  from install_steps_trivial [OF this] obtain I where
    "forEach (filter pm_enabled ?ms) install_step u = (Inr (), modules_installed_update (\<lambda>_. I) u)" by blast
  with u show ?thesis unfolding boot_modules_steps [OF d] by (simp add: seq_def bind_def return_def)
qed

lemma reboot_runs_only_boot_hooks_witness:
  "\<exists>r t. boot_modules (MODULES None None None) sample_pay_env empty_sys = (Inr r, t) \<and>
     boot_modules (MODULES None None None) sample_pay_env t = (Inr r, t)"
proof -
  have w: "wf_table p_id (permissions empty_sys)" by (simp add: empty_sys_def)
  obtain r t where t: "boot_modules (MODULES None None None) sample_pay_env empty_sys = (Inr r, t)"
    using MODULES_boot [OF w] by blast
  have q: "\<forall>m \<in> set (filter pm_enabled (MODULES None None None)). quiet m"
    by (auto simp: quiet_def run_hook_def return_def dest!: MODULES_hooks)
  have trivial: "forEach ms runOnBoot v = (Inr (), v)" if "\<forall>m \<in> set ms. pm_onBoot m = Some (return ())"
    for ms and v :: sys
    using that by (induction ms) (auto simp: runOnBoot_def run_hook_def run_simps)
  have "boot_modules (MODULES None None None) sample_pay_env t = (Inr r, t)"
    unfolding reboot_runs_only_boot_hooks [OF t w MODULES_codes q]
    by (subst seq_def, subst bind_def, subst trivial) (auto simp: return_def dest: MODULES_hooks)
  with t show ?thesis by blast
qed

definition sample_steps :: "platform_step list" where
  "sample_steps = [LoadModules None None None sample_pay_env, SeedCore 0 (Some ''+989120000000'')]"

lemma only_seeded_roles_grant_witness:
  "\<exists>u t. permission_guard (Some ''agents:review:owned'') ((sample_call ''1'')\<lparr>rq_user := Some u\<rparr>)
     (run_steps sample_platform sample_steps empty_sys) = (Inr (), t) \<and> holds_named ''super_admin'' u t"
proof -
  have w: "wf_table p_id (permissions empty_sys)" by (simp add: empty_sys_def)
  have e: "roles empty_sys = empty_table" "permissions empty_sys = empty_table" "role_permissions empty_sys = []"
    by (simp_all add: empty_sys_def)
  have users_empty: "users empty_sys = empty_table" by (simp add: empty_sys_def)
  obtain r s where s: "boot_modules (MODULES None None None) sample_pay_env empty_sys = (Inr r, s)"
    "wf_table p_id (permissions s)" "roles s = empty_table" "users s = empty_table"
    using MODULES_boot [OF w, of None None None sample_pay_env] e(1) users_empty by metis
  then have "rbac_ok s" by (simp add: rbac_ok_def)
  from boot_grants_admin [OF this, of "''+989120000000''" 0] obtain t u where
    t: "onApplicationBootstrap 0 (Some ''+989120000000'') s = (Inr (), t)" "u \<in> set (rows (users t))"
      "\<forall>p. userHasPermission (u_id u) p t = (Inr True, t)" "rbac_ok t" by auto
  have run: "run_steps sample_platform sample_steps empty_sys = t"
    using s(1) t(1) by (simp add: sample_steps_def run_step_def)
  have "u_id u \<noteq> 0" using t(2,4) by (auto simp: rbac_ok_def wf_table_def)
  then have g: "permission_guard (Some ''agents:review:owned'') ((sample_call ''1'')\<lparr>rq_user := Some (u_id u)\<rparr>)
      (run_steps sample_platform sample_steps empty_sys) = (Inr (), t)"
    using t(3) by (simp add: run permission_guard_def nonempty_def bind_def return_def)
  have "holds_named ''super_admin'' (u_id u) t"
    using only_seeded_roles_grant [OF e _ _ g] by simp
  with g show ?thesis by blast
qed

end
