(* ===== verification/AccountRoutes.thy ===== *)
theory AccountRoutes
  imports Routes Registry
begin

text \<open>
  The routes around accounts: notifications.controller.ts, audit.controller.ts, users.controller.ts,
  profile.controller.ts, admin-roles.controller.ts, admin-registry.controller.ts and
  impersonation.controller.ts.  The handlers of users, profiles and impersonations are those of
  Users and Access; this theory adds the lists with their schemas, the JSON of every answer, the
  decorators, and the passage through the pipeline.  account_handler and serve_account_route stand for
  the router of NestJS: they pick the handler of a route and run it.  What new Date makes of a query
  member, the collation of titles and the id of a token are arguments.

  The lemmas show that roles change only at the hands of a caller who may moderate users, that a
  user's notifications are his own, what a completed profile answers, and what a fractional limit
  does.
\<close>

section \<open>Schemas\<close>

text \<open>z.coerce.number().min(lo).max(hi): not necessarily an integer.\<close>

definition zreal :: "int \<Rightarrow> int \<Rightarrow> json \<Rightarrow> rat zod" where
  "zreal lo hi v = (case coerce_number v of
       Some q \<Rightarrow> if of_int lo \<le> q \<and> q \<le> of_int hi then valid q else invalid
     | None \<Rightarrow> invalid)"

definition ztruth :: "json \<Rightarrow> bool zod" where
  "ztruth = zenum [(''true'', True), (''false'', False)]"

definition zdate :: "(json \<Rightarrow> int option) \<Rightarrow> json \<Rightarrow> int zod" where
  "zdate date v = (case date v of Some t \<Rightarrow> valid t | None \<Rightarrow> invalid)"

definition ListNotificationsSchema :: "json \<Rightarrow> (bool \<times> int option \<times> rat) zod" where
  "ListNotificationsSchema = zobject (\<lambda>q. zboth (zdefault False ztruth (jget q ''unreadOnly''))
     (zboth (zoptional zcoerce_bigint (jget q ''cursor'')) (zdefault 20 (zreal 1 50) (jget q ''limit''))))"

definition AdminListAuditSchema :: "(json \<Rightarrow> int option) \<Rightarrow> json \<Rightarrow> (audit_filters \<times> int option \<times> rat) zod" where
  "AdminListAuditSchema date = zobject (\<lambda>q. zboth
     (zmap (\<lambda>(actorUserId, action, resource, resourceId, failed, dateFrom, dateTo).
        \<lparr>af_actorUserId = actorUserId, af_action = action, af_resource = resource, af_resourceId = resourceId,
         af_failed = failed, af_from = dateFrom, af_to = dateTo\<rparr>)
       (zboth (zoptional zcoerce_bigint (jget q ''actorUserId''))
       (zboth (zoptional zstring (jget q ''action''))
       (zboth (zoptional zstring (jget q ''resource''))
       (zboth (zoptional zstring (jget q ''resourceId''))
       (zboth (zoptional ztruth (jget q ''failed''))
       (zboth (zoptional (zdate date) (jget q ''dateFrom'')) (zoptional (zdate date) (jget q ''dateTo'')))))))))
     (zboth (zoptional zcoerce_bigint (jget q ''cursor'')) (zdefault 50 (zreal 1 100) (jget q ''limit''))))"

definition user_statuses :: "(string \<times> user_status) list" where
  "user_statuses = map (\<lambda>st. (status_string st, st)) [PENDING_PROFILE, ACTIVE, SUSPENDED, DELETED]"

definition AdminListUsersSchema :: "(json \<Rightarrow> int option) \<Rightarrow> json \<Rightarrow> (user_filters \<times> int option \<times> rat) zod" where
  "AdminListUsersSchema date = zobject (\<lambda>q. zboth
     (zmap (\<lambda>(status, roleId, phoneContains, text, createdAfter, createdBefore).
        \<lparr>uf_status = status, uf_roleId = roleId, uf_phoneContains = phoneContains, uf_search = text,
         uf_createdAfter = createdAfter, uf_createdBefore = createdBefore\<rparr>)
       (zboth (zoptional (zenum user_statuses) (jget q ''status''))
       (zboth (zoptional zcoerce_bigint (jget q ''roleId''))
       (zboth (zoptional zstring (jget q ''phoneContains''))
       (zboth (zoptional (\<lambda>v. zrefine (\<lambda>t. 2 \<le> utf16_length t) (zstring v)) (jget q ''search''))
       (zboth (zoptional (zdate date) (jget q ''createdAfter'')) (zoptional (zdate date) (jget q ''createdBefore'')))))))) 
     (zboth (zoptional zcoerce_bigint (jget q ''cursor'')) (zdefault 20 (zreal 1 100) (jget q ''limit''))))"

text \<open>Prisma takes whole numbers of rows only.\<close>

definition whole :: "rat \<Rightarrow> (nat \<Rightarrow> ('s, 'a) M) \<Rightarrow> ('s, 'a) M" where
  "whole q f = (if of_int \<lfloor>q\<rfloor> = q then f (nat \<lfloor>q\<rfloor>) else throw prisma_invalid)"

section \<open>Projections\<close>

definition json_texts :: "string list \<Rightarrow> json" where
  "json_texts ts = JArr (map JStr ts)"

definition notification_json :: "notification_view \<Rightarrow> json" where
  "notification_json n = JObj [(''id'', JBig (nv_id n)), (''type'', JStr (nv_type n)), (''payload'', JObj (nv_payload n)),
     (''readAt'', json_date (nv_readAt n)), (''createdAt'', json_date (Some (nv_createdAt n))),
     (''renderedTitle'', JStr (nv_title n)), (''renderedBody'', JStr (nv_body n))]"

definition actor_json :: "audit_actor \<Rightarrow> json" where
  "actor_json a = JObj [(''id'', JBig (aa_id a)), (''firstName'', json_text_opt (aa_firstName a)),
     (''lastName'', json_text_opt (aa_lastName a)), (''phone'', JStr (aa_phone a))]"

definition audit_json :: "audit_row \<times> audit_actor option \<Rightarrow> json" where
  "audit_json = (\<lambda>(r, actor). JObj [(''id'', JBig (a_id r)), (''actorUserId'', json_id_opt (a_actorUserId r)),
     (''action'', JStr (a_action r)), (''resource'', JStr (a_resource r)), (''resourceId'', json_text_opt (a_resourceId r)),
     (''payloadHash'', JStr (a_payloadHash r)), (''failed'', JBool (a_failed r)), (''ipAddress'', json_text_opt (a_ipAddress r)),
     (''userAgent'', json_text_opt (a_userAgent r)), (''createdAt'', json_date (Some (a_createdAt r))),
     (''actor'', case actor of None \<Rightarrow> JNull | Some a \<Rightarrow> actor_json a)])"

definition admin_view_json :: "admin_view \<Rightarrow> json" where
  "admin_view_json v = JObj [(''id'', JBig (av_id v)), (''phone'', JStr (av_phone v)), (''firstName'', json_text_opt (av_firstName v)),
     (''lastName'', json_text_opt (av_lastName v)), (''email'', json_text_opt (av_email v)),
     (''nationalId'', json_text_opt (av_nationalId v)), (''status'', JStr (status_string (av_status v))),
     (''createdAt'', json_date (Some (av_createdAt v))), (''updatedAt'', json_date (Some (av_updatedAt v))),
     (''profileCompletedAt'', json_date (av_profileCompletedAt v)), (''deletedAt'', json_date (av_deletedAt v)),
     (''roles'', JArr (map (\<lambda>(i, nm, fa). JObj [(''id'', JBig i), (''name'', JStr nm), (''persianName'', JStr fa)]) (av_roles v))),
     (''lastSeenAt'', json_date (av_lastSeenAt v))]"

definition light_view_json :: "light_view \<Rightarrow> json" where
  "light_view_json v = JObj [(''id'', JBig (lv_id v)), (''firstName'', json_text_opt (lv_firstName v)),
     (''lastName'', json_text_opt (lv_lastName v)), (''phoneMasked'', JStr (lv_phoneMasked v))]"

definition self_view_json :: "self_view \<Rightarrow> json" where
  "self_view_json v = JObj [(''id'', JBig (self_view.sv_id v)), (''phone'', JStr (self_view.sv_phone v)), (''firstName'', json_text_opt (self_view.sv_firstName v)),
     (''lastName'', json_text_opt (self_view.sv_lastName v)), (''nationalId'', json_text_opt (self_view.sv_nationalId v)),
     (''email'', json_text_opt (self_view.sv_email v)), (''status'', JStr (status_string (self_view.sv_status v))),
     (''roles'', json_texts (self_view.sv_roles v)), (''permissions'', json_texts (self_view.sv_permissions v)),
     (''createdAt'', json_date (Some (self_view.sv_createdAt v)))]"

text \<open>The row as Prisma returns it.  Nothing writes emailVerifiedAt, totpEnabledAt and betaFlags.\<close>

definition user_row_json :: "user \<Rightarrow> json" where
  "user_row_json u = JObj [(''id'', JBig (u_id u)), (''phone'', JStr (u_phone u)), (''phoneVerifiedAt'', json_date (u_phoneVerifiedAt u)),
     (''firstName'', json_text_opt (u_firstName u)), (''lastName'', json_text_opt (u_lastName u)),
     (''nationalId'', json_text_opt (u_nationalId u)), (''email'', json_text_opt (u_email u)), (''emailVerifiedAt'', JNull),
     (''profileCompletedAt'', json_date (u_profileCompletedAt u)), (''status'', JStr (status_string (u_status u))),
     (''totpSecret'', json_text_opt (u_totpSecret u)), (''totpEnabledAt'', JNull), (''betaFlags'', JArr []),
     (''createdAt'', json_date (Some (u_createdAt u))), (''updatedAt'', json_date (Some (u_updatedAt u))),
     (''deletedAt'', json_date (u_deletedAt u))]"

definition session_view_json :: "session_view \<Rightarrow> json" where
  "session_view_json v = JObj [(''id'', JStr (xv_id v)), (''userAgent'', json_text_opt (xv_userAgent v)),
     (''ipAddress'', json_text_opt (xv_ipAddress v)), (''createdAt'', json_date (Some (xv_createdAt v))),
     (''expiresAt'', json_date (Some (xv_expiresAt v)))]"

definition role_json :: "role \<Rightarrow> json" where
  "role_json r = JObj [(''id'', JStr (int_to_string (r_id r))), (''name'', JStr (r_name r)),
     (''persianName'', JStr (r_persianName r)), (''isSystem'', JBool (r_isSystem r))]"

definition admin_page_json :: "admin_page \<Rightarrow> json" where
  "admin_page_json p = JObj [(''path'', JStr (ap_path p)), (''titleFa'', JStr (ap_titleFa p)),
     (''icon'', case ap_icon p of None \<Rightarrow> JUndefined | Some i \<Rightarrow> JStr i), (''permission'', JStr (ap_permission p)),
     (''order'', case ap_order p of None \<Rightarrow> JUndefined | Some n \<Rightarrow> JNum n)]"

text \<open>{ data, meta: { pagination: { nextCursor, limit }, hasMore } }\<close>

definition listed :: "('r \<Rightarrow> json) \<Rightarrow> rat \<Rightarrow> 'r list \<Rightarrow> int option \<Rightarrow> bool \<Rightarrow> json" where
  "listed f limit rs cursor again = JObj [(''data'', JArr (map f rs)),
     (''meta'', JObj [(''pagination'', JObj
       [(''nextCursor'', case cursor of None \<Rightarrow> JUndefined | Some c \<Rightarrow> JStr (int_to_string c)), (''limit'', JNum \<lfloor>limit\<rfloor>)]),
       (''hasMore'', JBool again)])]"

section \<open>Controllers\<close>

definition list_notifications :: "platform \<Rightarrow> json \<Rightarrow> http_request \<Rightarrow> ('x sys_scheme, json) M" where
  "list_notifications pf query req =
     bind (zod_run pf query (ListNotificationsSchema query)) (\<lambda>(unreadOnly, cursor, limit).
     with_user req (\<lambda>me.
     bind (whole limit (if unreadOnly then findUnreadForUser me cursor else findAllForUser me cursor)) (\<lambda>page.
       return (listed notification_json limit (map (renderForUser (pf_env pf)) (items page)) (nextCursor page) (hasMore page)))))"

definition count_unread :: "http_request \<Rightarrow> ('x sys_scheme, json) M" where
  "count_unread req = with_user req (\<lambda>me. bind (countUnread me) (\<lambda>n. return (JObj [(''count'', JNum (int n))])))"

definition notification_not_found :: exn where
  "notification_not_found = http_exn NOT_FOUND 404 ''Notification not found''"

definition mark_read :: "platform \<Rightarrow> http_request \<Rightarrow> ('x sys_scheme, json) M" where
  "mark_read pf req =
     bind (checked_id notification_not_found (path_param ''id'' req)) (\<lambda>i. with_user req (\<lambda>me.
     seq (markRead (pf_env pf) i me) (return (JObj []))))"

definition mark_all_read :: "platform \<Rightarrow> http_request \<Rightarrow> ('x sys_scheme, json) M" where
  "mark_all_read pf req = with_user req (\<lambda>me. seq (markAllRead (pf_env pf) me) (return (JObj [])))"

definition listAuditLogs :: "platform \<Rightarrow> (json \<Rightarrow> int option) \<Rightarrow> json \<Rightarrow> ('x sys_scheme, json) M" where
  "listAuditLogs pf date query =
     bind (zod_run pf query (AdminListAuditSchema date query)) (\<lambda>(filters, cursor, limit).
     bind (whole limit (audit_findManyForAdmin filters cursor)) (\<lambda>(rs, next, again).
       return (listed audit_json limit rs next again)))"

definition audit_not_found :: exn where
  "audit_not_found = http_exn NOT_FOUND 404 ''Audit log entry not found''"

definition getAuditLog :: "http_request \<Rightarrow> ('x sys_scheme, json) M" where
  "getAuditLog req =
     bind (checked_id audit_not_found (path_param ''id'' req)) (\<lambda>i.
     bind (audit_findByIdForAdmin i) (\<lambda>row. case row of
       None \<Rightarrow> throw audit_not_found
     | Some r \<Rightarrow> return (audit_json r)))"

definition listUsers :: "platform \<Rightarrow> (json \<Rightarrow> int option) \<Rightarrow> json \<Rightarrow> ('x sys_scheme, json) M" where
  "listUsers pf date query =
     bind (zod_run pf query (AdminListUsersSchema date query)) (\<lambda>(filters, cursor, limit).
     bind (whole limit (users_findManyForAdmin filters cursor)) (\<lambda>(rs, next, again).
       return (listed admin_view_json limit rs next again)))"

definition listRoles :: "('x sys_scheme, json) M" where
  "listRoles = gets (\<lambda>s. JArr (map role_json (sort_key r_id (rows (roles s)))))"

definition getAdminPages :: "(string \<Rightarrow> nat) \<Rightarrow> 'x registry \<Rightarrow> json" where
  "getAdminPages collate reg = JArr (map admin_page_json (mergeAdminPages collate reg))"

section \<open>The routes\<close>

datatype account_route =
    NotificationList | UnreadCount | NotificationRead | NotificationsReadAll | AuditList | AuditGet
  | UserList | UserLight | UserGet | UserUpdate | RoleAssign | RoleRemove
  | ProfileMe | ProfileComplete | SessionList | SessionRevoke | SessionsRevokeAll
  | RoleList | AdminPages | ImpersonationStart | ImpersonationStop | ImpersonationActive

record 'x account_env =
  ae_date :: "json \<Rightarrow> int option"
  ae_jti :: string
  ae_collate :: "string \<Rightarrow> nat"
  ae_registry :: "'x registry"

definition account_decorators :: "account_route \<Rightarrow> decorators" where
  "account_decorators r = (let full = UseGuards [JwtAuthGuard, PermissionGuard];
       confirmed = UseGuards [JwtAuthGuard, PermissionGuard, AdminConfirmGuard]; own = RequirePermission ''users:read:profile_self'' in
     case r of
       NotificationList \<Rightarrow> own full
     | UnreadCount \<Rightarrow> own full
     | NotificationRead \<Rightarrow> HttpCode 200 (own (Audit ''NOTIFICATION_MARKED_READ'' ''notification'' (Some ''id'') None full))
     | NotificationsReadAll \<Rightarrow> HttpCode 200 (own full)
     | AuditList \<Rightarrow> RequirePermission ''admin:read:audit_log'' full
     | AuditGet \<Rightarrow> RequirePermission ''admin:read:audit_log'' full
     | UserList \<Rightarrow> RequirePermission ''admin:read:users'' full
     | UserLight \<Rightarrow> RequirePermission ''admin:read:users'' full
     | UserGet \<Rightarrow> RequirePermission ''admin:read:users'' full
     | UserUpdate \<Rightarrow> RequirePermission ''admin:update:user'' (Audit ''ADMIN_USER_UPDATE'' ''user'' (Some ''id'') None full)
     | RoleAssign \<Rightarrow> HttpCode 200 (RequirePermission ''admin:moderate:user'' (Audit ''ADMIN_ROLE_ASSIGNED'' ''user'' (Some ''id'') None full))
     | RoleRemove \<Rightarrow> RequirePermission ''admin:moderate:user'' (Audit ''ADMIN_ROLE_REMOVED'' ''user'' (Some ''id'') None full)
     | ProfileMe \<Rightarrow> own full
     | ProfileComplete \<Rightarrow> RequirePermission ''users:update:profile_self'' full
     | SessionList \<Rightarrow> own full
     | SessionRevoke \<Rightarrow> own full
     | SessionsRevokeAll \<Rightarrow> own full
     | RoleList \<Rightarrow> RequirePermission ''admin:read:users'' full
     | AdminPages \<Rightarrow> RequirePermission ''admin:read:users'' full
     | ImpersonationStart \<Rightarrow> HttpCode 200 (AdminOnly True (Some ''admin:impersonate:user'') (Idempotent
         (Audit ''IMPERSONATION_STARTED'' ''user'' (Some ''targetUserId'') (Some FromBody) confirmed)))
     | ImpersonationStop \<Rightarrow> HttpCode 200 (Audit ''IMPERSONATION_ENDED'' ''user'' (Some ''impSessionId'') (Some FromResponse) confirmed)
     | ImpersonationActive \<Rightarrow> RequirePermission ''admin:impersonate:user'' confirmed)"

definition account_handler :: "platform \<Rightarrow> 'x account_env \<Rightarrow> account_route \<Rightarrow> json \<Rightarrow> http_request \<Rightarrow> ('x sys_scheme, json) M" where
  "account_handler pf env r query req = (case r of
       NotificationList \<Rightarrow> list_notifications pf query req
     | UnreadCount \<Rightarrow> count_unread req
     | NotificationRead \<Rightarrow> mark_read pf req
     | NotificationsReadAll \<Rightarrow> mark_all_read pf req
     | AuditList \<Rightarrow> listAuditLogs pf (ae_date env) query
     | AuditGet \<Rightarrow> getAuditLog req
     | UserList \<Rightarrow> listUsers pf (ae_date env) query
     | UserLight \<Rightarrow> bind (getUserLight (path_param ''id'' req)) (\<lambda>v. return (light_view_json v))
     | UserGet \<Rightarrow> bind (getUser (path_param ''id'' req)) (\<lambda>v. return (admin_view_json v))
     | UserUpdate \<Rightarrow> with_user req (\<lambda>me. bind (updateUser pf (path_param ''id'' req) (rq_body req) me) (\<lambda>v. return (admin_view_json v)))
     | RoleAssign \<Rightarrow> with_user req (\<lambda>_. bind (assignRole pf (path_param ''id'' req) (rq_body req)) (\<lambda>v. return (admin_view_json v)))
     | RoleRemove \<Rightarrow> with_user req (\<lambda>_. bind (removeRole pf (path_param ''id'' req) (path_param ''roleId'' req)) (\<lambda>v. return (admin_view_json v)))
     | ProfileMe \<Rightarrow> with_user req (\<lambda>me. bind (getMe me) (\<lambda>v. return (self_view_json v)))
     | ProfileComplete \<Rightarrow> with_user req (\<lambda>me. bind (post_completeProfile pf me (rq_body req)) (\<lambda>u. return (user_row_json u)))
     | SessionList \<Rightarrow> with_user req (\<lambda>me. bind (getSessions pf me) (\<lambda>vs. return (JArr (map session_view_json vs))))
     | SessionRevoke \<Rightarrow> with_user req (\<lambda>me. seq (delete_session pf me (path_param ''id'' req)) (return (JObj [])))
     | SessionsRevokeAll \<Rightarrow> with_user req (\<lambda>me. seq (delete_sessions pf me) (return (JObj [])))
     | RoleList \<Rightarrow> listRoles
     | AdminPages \<Rightarrow> return (getAdminPages (ae_collate env) (ae_registry env))
     | ImpersonationStart \<Rightarrow> post_imp_start pf (ae_jti env) req
     | ImpersonationStop \<Rightarrow> post_imp_stop pf req
     | ImpersonationActive \<Rightarrow> get_imp_active req)"

definition serve_account_route :: "platform \<Rightarrow> string list \<Rightarrow> 'x account_env \<Rightarrow> account_route \<Rightarrow> json \<Rightarrow> http_request \<Rightarrow>
    ('x sys_scheme, json) M" where
  "serve_account_route pf uuids env r query req =
     serve_route pf uuids (route_of (account_decorators r)) req (account_handler pf env r query)"

section \<open>Who changes roles\<close>

lemma keeps_whole [keeps_intros]: "(\<And>n. keeps P (f n)) \<Longrightarrow> keeps P (whole q f)"
  by (simp add: whole_def keeps_throw)

lemma keeps_roles_dispatch: "keeps (\<lambda>s. user_roles s = R) (dispatch env u ty pl chs)"
proof (rule keeps_dispatch)
  fix s t :: "'x sys_scheme" assume "user_roles s = R" "same_books s t"
  then show "user_roles t = R" by (cases s; cases t; simp add: same_books_def)
qed

lemma keeps_roles_audit: "keeps (\<lambda>s. user_roles s = R) (audit_log sha now en)"
  by (rule keeps_audit_log) simp

lemma keeps_roles_write: "keeps (\<lambda>s. user_roles s = R) (user_write now i g)"
  by (auto simp: user_write_def check_user_def Let_def intro!: keeps_intros keeps_modify split: option.splits)

lemma keeps_roles_redis: "keeps (\<lambda>s. user_roles s = R) (redis_del k)"
  by (auto simp: redis_del_def intro!: keeps_intros keeps_modify)

lemma keeps_roles_wallet: "keeps (\<lambda>s. user_roles s = R) (findOrCreateForUser u)"
  unfolding findOrCreateForUser_def by (intro keeps_intros keeps_create_in) simp

lemma keeps_roles_users:
  "keeps (\<lambda>s. user_roles s = R) (updateUser pf i b a)" "keeps (\<lambda>s. user_roles s = R) (post_completeProfile pf m b)"
  "keeps (\<lambda>s. user_roles s = R) (getUser i)" "keeps (\<lambda>s. user_roles s = R) (getUserLight i)" "keeps (\<lambda>s. user_roles s = R) (getMe m)"
  by (auto simp: updateUser_def post_completeProfile_def completeProfile_def getUser_def getUserLight_def getMe_def view_or_404_def
      users_findByIdForAdmin_def findForSelf_def getUserPermissions_def zod_parse_def parseId_def updateStatusByAdmin_def
      users_update_profile_def invalidateUserCache_def Let_def
      intro!: keeps_roles_dispatch keeps_roles_audit keeps_roles_write keeps_roles_redis keeps_roles_wallet keeps_intros
      split: option.splits)

lemma keeps_roles_sessions:
  "keeps (\<lambda>s. user_roles s = R) (getSessions pf m)" "keeps (\<lambda>s. user_roles s = R) (delete_session pf m i)"
  "keeps (\<lambda>s. user_roles s = R) (delete_sessions pf m)"
  by (auto simp: getSessions_def findActive_def delete_session_def revokeOne_def delete_sessions_def revokeAllForUser_def
      revoke_active_def
      intro!: keeps_roles_dispatch keeps_intros keeps_update_in keeps_modify split: option.splits)

lemma keeps_roles_impersonation:
  "keeps (\<lambda>s. user_roles s = R) (post_imp_start pf j req)" "keeps (\<lambda>s. user_roles s = R) (post_imp_stop pf req)"
  "keeps (\<lambda>s. user_roles s = R) (get_imp_active req)"
  by (auto simp: post_imp_start_def imp_start_def post_imp_stop_def imp_stop_def get_imp_active_def imp_findActive_def zod_parse_def
      intro!: keeps_roles_dispatch keeps_intros keeps_create_in keeps_update_in split: option.splits)

lemma keeps_roles_notifications:
  "keeps (\<lambda>s. user_roles s = R) (findUnreadForUser m c n)" "keeps (\<lambda>s. user_roles s = R) (findAllForUser m c n)"
  "keeps (\<lambda>s. user_roles s = R) (countUnread m)" "keeps (\<lambda>s. user_roles s = R) (markRead e i m)"
  "keeps (\<lambda>s. user_roles s = R) (markAllRead e m)"
  by (auto simp: findUnreadForUser_def findAllForUser_def queryNotifications_def countUnread_def markRead_def markAllRead_def
      intro!: keeps_intros keeps_update_in keeps_modify split: option.splits)

lemma keeps_lists: "keeps P (audit_findManyForAdmin f c n)" "keeps P (audit_findByIdForAdmin i)" "keeps P (users_findManyForAdmin g c n)"
  by (simp_all add: audit_findManyForAdmin_def audit_findByIdForAdmin_def users_findManyForAdmin_def keeps_gets)

lemmas account_handler_defs = list_notifications_def count_unread_def mark_read_def mark_all_read_def listAuditLogs_def getAuditLog_def
  listUsers_def listRoles_def

lemma keeps_roles_handler:
  assumes "r \<noteq> RoleAssign" "r \<noteq> RoleRemove"
  shows "keeps (\<lambda>s. user_roles s = R) (account_handler pf env r query req)"
  using assms
  by (cases r)
     (auto simp: account_handler_def account_handler_defs intro!: keeps_intros keeps_roles_users keeps_roles_sessions
        keeps_roles_impersonation keeps_roles_notifications keeps_lists split: option.splits)

lemma off_log_roles: "off_log (\<lambda>s. user_roles s = R)"
  by (simp add: off_log_def)

text \<open>C28. Moderators.\<close>

theorem roles_changed_by_moderators:
  assumes "serve_account_route pf uuids env r query req s = (x, t)" "user_roles t \<noteq> user_roles s"
  shows "r \<in> {RoleAssign, RoleRemove} \<and> (\<exists>token payload u. extractToken req = Some token \<and> pf_verify pf (pf_now pf) token = Some payload \<and>
    coerce_bigint (jget payload ''sub'') = Some u \<and> u \<noteq> 0 \<and> (holds s u ''admin:moderate:user'' \<or> holds s u ''super:everything''))"
proof -
  have r: "r \<in> {RoleAssign, RoleRemove}"
  proof (rule ccontr)
    assume n: "r \<notin> {RoleAssign, RoleRemove}"
    have "keeps (\<lambda>u. user_roles u = user_roles s) (serve_account_route pf uuids env r query req)"
      unfolding serve_account_route_def by (rule keeps_serve_route [OF off_log_roles keeps_roles_handler]) (use n in auto)
    from keepsD [OF this refl] show False using assms by simp
  qed
  have "but_redis t \<noteq> but_redis s"
  proof
    assume "but_redis t = but_redis s"
    then show False using assms(2) off_log_redis [OF off_log_roles, of t s "user_roles s"] by simp
  qed
  moreover have "rt_auth (route_of (account_decorators r))" "rt_permission (route_of (account_decorators r)) = Some ''admin:moderate:user''"
    using r by (auto simp: account_decorators_def route_of_def decorator_defs)
  ultimately show ?thesis
    using permission_barrier [OF _ _ _ assms(1) [unfolded serve_account_route_def], of "''admin:moderate:user''"] r by auto
qed

definition sample_moderated :: sys where
  "sample_moderated = sample_accounts\<lparr>permissions := \<lparr>next_id = 2, rows = [\<lparr>p_id = 1, p_code = ''super:everything'', p_description = None\<rparr>]\<rparr>,
     role_permissions := [(1, 1)]\<rparr>"

definition sample_removal :: http_request where
  "sample_removal = (sample_call ''1'')\<lparr>rq_params := [(''id'', JStr ''1''), (''roleId'', JStr ''1'')]\<rparr>"

definition sample_account_env :: "unit account_env" where
  "sample_account_env = \<lparr>ae_date = (\<lambda>_. None), ae_jti = ''j'', ae_collate = (\<lambda>_. 0), ae_registry = []\<rparr>"

lemma roles_changed_by_moderators_witness:
  "\<exists>token. extractToken sample_removal = Some token \<and>
     user_roles (snd (serve_account_route sample_platform [''u''] sample_account_env RoleRemove JUndefined sample_removal sample_moderated)) = []"
proof -
  let ?m = "serve_account_route sample_platform [''u''] sample_account_env RoleRemove JUndefined sample_removal sample_moderated"
  have g: "user_roles (snd ?m) = []" by code_simp
  have "user_roles sample_moderated \<noteq> []" by (simp add: sample_moderated_def sample_accounts_def)
  then show ?thesis using g roles_changed_by_moderators [of _ _ _ _ _ _ _ "fst ?m" "snd ?m", OF surjective_pairing] by metis
qed

section \<open>Own notifications\<close>

definition own_notifications :: "int \<Rightarrow> 'x sys_scheme \<Rightarrow> notification list" where
  "own_notifications me s = t_filter (\<lambda>n. n_userId n = me) (notifications s)"

lemma filter_own:
  assumes "own_notifications me s = own_notifications me t"
  shows "t_filter (\<lambda>n. n_userId n = me \<and> Q n) (notifications s) = t_filter (\<lambda>n. n_userId n = me \<and> Q n) (notifications t)"
proof -
  have "t_filter (\<lambda>n. n_userId n = me \<and> Q n) T = filter Q (t_filter (\<lambda>n. n_userId n = me) T)" for T
    by (simp add: t_filter_def conj_commute)
  then show ?thesis using assms by (simp add: own_notifications_def)
qed

lemma others_kept:
  assumes "wf_table n_id (notifications s)" "me \<noteq> them"
  shows "own_notifications them (snd (markRead env i me s)) = own_notifications them s"
    "own_notifications them (snd (markAllRead env me s)) = own_notifications them s"
proof -
  have "filter (\<lambda>n. n_userId n = them) (map (\<lambda>r. if P r then f r else r) xs) = filter (\<lambda>n. n_userId n = them) xs"
    if "\<And>n. n \<in> set xs \<Longrightarrow> P n \<Longrightarrow> n_userId n \<noteq> them \<and> n_userId (f n) \<noteq> them" for P f and xs :: "notification list"
    using that by (induction xs) auto
  note kept = this
  show "own_notifications them (snd (markAllRead env me s)) = own_notifications them s"
    using assms(2) by (simp add: markAllRead_def modify_def own_notifications_def t_filter_def rows_t_update) (rule kept, auto)
  show "own_notifications them (snd (markRead env i me s)) = own_notifications them s"
  proof (cases "t_get n_id i (notifications s)")
    case None
    then show ?thesis by (simp add: markRead_def run_simps)
  next
    case (Some r)
    have "\<forall>n \<in> set (rows (notifications s)). n_id n = i \<longrightarrow> n_userId r = me \<longrightarrow> n_userId n \<noteq> them"
      using wf_key_unique [OF assms(1) _ t_get_in [OF Some]] t_get_key [OF Some] assms(2) by metis
    then show ?thesis
      using Some by (auto simp: markRead_def run_simps update_in_def own_notifications_def t_filter_def t_change_def rows_t_update intro!: kept)
  qed
qed

text \<open>C29. own.\<close>

theorem own_notifications_only:
  fixes s t :: "'x sys_scheme"
  assumes "rq_user req = Some me" "own_notifications me s = own_notifications me t" "wf_table n_id (notifications s)" "them \<noteq> me"
  shows "fst (list_notifications pf query req s) = fst (list_notifications pf query req t) \<and>
    fst (count_unread req s) = fst (count_unread req t) \<and>
    own_notifications them (snd (mark_read pf req s)) = own_notifications them s \<and>
    own_notifications them (snd (mark_all_read pf req s)) = own_notifications them s"
proof -
  note own = filter_own [OF assms(2)]
  have "fst (list_notifications pf query req s) = fst (list_notifications pf query req t)"
    by (auto simp: list_notifications_def with_user_def assms(1) zod_run_def whole_def findUnreadForUser_def findAllForUser_def
        queryNotifications_def own run_simps split: sum.split option.split)
  moreover have "fst (count_unread req s) = fst (count_unread req t)"
    using own [of "\<lambda>n. n_readAt n = None \<and> n_channel n = IN_APP"]
    by (simp add: count_unread_def with_user_def assms(1) countUnread_def run_simps t_count_def t_filter_def)
  moreover have "own_notifications them (snd (mark_read pf req s)) = own_notifications them s"
    using others_kept(1) [OF assms(3) assms(4) [symmetric]]
    by (auto simp: mark_read_def checked_id_def with_user_def assms(1) run_simps split: option.split sum.split prod.split)
       (metis snd_conv)+
  moreover have "own_notifications them (snd (mark_all_read pf req s)) = own_notifications them s"
    using others_kept(2) [OF assms(3) assms(4) [symmetric]]
    by (auto simp: mark_all_read_def with_user_def assms(1) run_simps split: sum.split prod.split) (metis snd_conv)+
  ultimately show ?thesis by blast
qed

definition sample_notification :: "int \<Rightarrow> int \<Rightarrow> notification" where
  "sample_notification u i = \<lparr>n_id = i, n_userId = u, n_channel = IN_APP, n_type = ''X'', n_payload = [], n_readAt = None, n_createdAt = 0\<rparr>"

lemma own_notifications_only_witness:
  "fst (count_unread (sample_call ''1''\<lparr>rq_user := Some 1\<rparr>) (sample_sys\<lparr>notifications := t_insert (sample_notification 9) empty_table\<rparr>)) =
   fst (count_unread (sample_call ''1''\<lparr>rq_user := Some 1\<rparr>) (sample_sys\<lparr>notifications := empty_table\<rparr>))"
proof -
  have o: "own_notifications 1 (sample_sys\<lparr>notifications := t_insert (sample_notification 9) empty_table\<rparr>) =
      own_notifications 1 (sample_sys\<lparr>notifications := empty_table\<rparr>)"
    by (simp add: own_notifications_def t_filter_def sample_notification_def empty_table_def table_simps)
  have w: "wf_table n_id (notifications (sample_sys\<lparr>notifications := t_insert (sample_notification 9) empty_table\<rparr>))"
    by (simp add: sample_notification_def)
  have u: "rq_user (sample_call ''1''\<lparr>rq_user := Some 1\<rparr>) = Some 1" by simp
  from own_notifications_only [OF u o w, of 9 sample_platform "JObj []"] show ?thesis by simp
qed

section \<open>A completed profile\<close>

text \<open>C31. profile.\<close>

theorem profile_completion_reveals:
  assumes "rq_user req = Some me" "CompleteProfileSchema pf (rq_body req) = Some dto" "find_user me s = Some u"
    and "n = (completed (pf_now pf) dto u)\<lparr>u_updatedAt := pf_now pf\<rparr>" "user_fits n" "unique_clash (users s) n = None"
  shows "\<exists>o1. fst (account_handler pf env ProfileComplete query req s) = Inr (JObj o1) \<and>
    map_option u_status (find_user me (snd (account_handler pf env ProfileComplete query req s))) = Some ACTIVE \<and>
    jget o1 ''nationalId'' = JStr (cp_nationalId dto) \<and> jget o1 ''totpSecret'' = json_text_opt (u_totpSecret u)"
proof -
  note c = complete_profile_reactivates [OF assms(3-6)]
  obtain t where t: "completeProfile pf me dto s = (Inr n, t)" "find_user me t = Some n"
    using c by (metis prod.collapse)
  have h: "account_handler pf env ProfileComplete query req s = (Inr (user_row_json n), t)"
    using assms(1,2) t(1) by (simp add: account_handler_def with_user_def post_completeProfile_def zod_parse_def run_simps)
  have n: "u_status n = ACTIVE" "u_nationalId n = Some (cp_nationalId dto)" "u_totpSecret n = u_totpSecret u"
    using assms(4) by (simp_all add: completed_def)
  show ?thesis unfolding h using t(2) n by (simp add: user_row_json_def jget_def json_text_opt_def)
qed

definition sample_profile_call :: http_request where
  "sample_profile_call = (sample_call ''2'')\<lparr>rq_user := Some 2, rq_body := JObj [(''firstName'', JStr (utf8 [216, 185])),
     (''lastName'', JStr (utf8 [216, 185])), (''nationalId'', JStr ''0013542419''), (''email'', JStr ''a@b'')]\<rparr>"

definition sample_profile_dto :: complete_profile_dto where
  "sample_profile_dto = \<lparr>cp_firstName = utf8 [216, 185], cp_lastName = utf8 [216, 185], cp_nationalId = ''0013542419'', cp_email = ''a@b''\<rparr>"

lemma profile_completion_reveals_witness:
  "map_option u_status (find_user 2 (snd (account_handler sample_platform sample_account_env ProfileComplete JUndefined
     sample_profile_call sample_accounts))) = Some ACTIVE"
proof -
  let ?u = "(sample_user 2)\<lparr>u_status := DELETED, u_deletedAt := Some 7\<rparr>"
  let ?n = "(completed (pf_now sample_platform) sample_profile_dto ?u)\<lparr>u_updatedAt := pf_now sample_platform\<rparr>"
  have u: "rq_user sample_profile_call = Some 2" by (simp add: sample_profile_call_def)
  have d: "CompleteProfileSchema sample_platform (rq_body sample_profile_call) = Some sample_profile_dto" by code_simp
  have f: "user_fits ?n" by code_simp
  have c: "unique_clash (users sample_accounts) ?n = None" by code_simp
  from profile_completion_reveals [OF u d sample_find_2 refl f c, of sample_account_env JUndefined] show ?thesis by blast
qed

section \<open>Limits\<close>

lemma zreal_bounds: "zreal lo hi v = Inr (Some q) \<Longrightarrow> of_int lo \<le> q \<and> q \<le> of_int hi"
  by (auto simp: zreal_def valid_def invalid_def split: option.splits if_splits)

text \<open>fractions.\<close>

theorem notification_page_limits:
  assumes "ListNotificationsSchema (JObj q) = Inr (Some (False, cursor, limit))" "jget q ''limit'' \<noteq> JUndefined" "rq_user req = Some me"
  shows "1 \<le> limit \<and> limit \<le> 50 \<and> fst (list_notifications pf (JObj q) req s) =
    (if of_int \<lfloor>limit\<rfloor> \<noteq> limit then Inl prisma_invalid
     else let page = paginate n_id cursor (nat \<lfloor>limit\<rfloor>) (t_filter (\<lambda>n. n_userId n = me \<and> n_channel n = IN_APP) (notifications s))
       in Inr (listed notification_json limit (map (renderForUser (pf_env pf)) (items page)) (nextCursor page) (hasMore page)))"
proof -
  have "zreal 1 50 (jget q ''limit'') = Inr (Some limit)"
    using assms(1,2) by (auto simp: ListNotificationsSchema_def zobject_def zdefault_def zboth_def split: sum.splits option.splits)
  then have "1 \<le> limit \<and> limit \<le> 50" using zreal_bounds by fastforce
  then show ?thesis
    using assms(1,3)
    by (auto simp: list_notifications_def zod_run_def with_user_def whole_def findAllForUser_def queryNotifications_def run_simps Let_def)
qed

lemma notification_page_limits_witness:
  "fst (list_notifications sample_platform (JObj [(''limit'', JStr ''2.5'')]) (sample_call ''1''\<lparr>rq_user := Some 1\<rparr>) sample_sys) = Inl prisma_invalid"
proof -
  have v: "ListNotificationsSchema (JObj [(''limit'', JStr ''2.5'')]) = Inr (Some (False, None, 5 / 2))" by code_simp
  have "of_int \<lfloor>5 / 2 :: rat\<rfloor> \<noteq> (5 / 2 :: rat)" by code_simp
  then show ?thesis
    using notification_page_limits [OF v, of "sample_call ''1''\<lparr>rq_user := Some 1\<rparr>" 1 sample_platform sample_sys]
    by (simp add: jget_def)
qed

end
