(* ===== verification/WebAuth.thy ===== *)
theory WebAuth
  imports Browser AccountRoutes
begin

text \<open>
  The account session of the client: lib/jwt-decode.ts, which reads the payload of a token without
  checking it; store/auth.store.ts, whose bootstrap, setAuth, clearAuth and refreshUser run while
  their requests are under way, as a machine that takes the replies of the API client in any order;
  and the guards of the two layouts.  A user object is the JSON the server sent.

  The lemmas show that the store reads back the claim the server put into a token, that it stays
  consistent under any interleaving and never loads for ever, that an expired token is never
  renewed because the server does not send the code the client waits for, and what stopping an
  impersonation from the user menu leaves behind.
\<close>

section \<open>Reading a token\<close>

text \<open>atob, on bytes: a string with a character outside ASCII fails.\<close>

definition BASE64 :: string where
  "BASE64 = ''ABCDEFGHIJKLMNOPQRSTUVWXYZabcdefghijklmnopqrstuvwxyz0123456789+/''"

definition sextet :: "char \<Rightarrow> nat option" where
  "sextet c = (let i = length (takeWhile (\<lambda>d. d \<noteq> c) BASE64) in if i < 64 then Some i else None)"

fun sextet_bytes :: "nat list \<Rightarrow> nat list" where
  "sextet_bytes (a # b # c # d # r) = [a * 4 + b div 16, b mod 16 * 16 + c div 4, c mod 4 * 64 + d] @ sextet_bytes r"
| "sextet_bytes [a, b, c] = [a * 4 + b div 16, b mod 16 * 16 + c div 4]"
| "sextet_bytes [a, b] = [a * 4 + b div 16]"
| "sextet_bytes xs = []"

definition ascii_space :: "char \<Rightarrow> bool" where
  "ascii_space c \<longleftrightarrow> (of_char c :: nat) \<in> {9, 10, 12, 13, 32}"

definition atob :: "string \<Rightarrow> nat list option" where
  "atob s = (let t = filter (\<lambda>c. \<not> ascii_space c) s;
       u = (if length t mod 4 \<noteq> 0 \<or> t = [] \<or> last t \<noteq> CHR ''='' then t
            else if last (butlast t) = CHR ''='' then butlast (butlast t) else butlast t)
     in if length u mod 4 = 1 \<or> \<not> list_all (\<lambda>c. sextet c \<noteq> None) u then None
        else Some (sextet_bytes (map (\<lambda>c. the (sextet c)) u)))"

definition base64UrlDecode :: "string \<Rightarrow> nat list option" where
  "base64UrlDecode segment = (let normalized = map (\<lambda>c. if c = CHR ''-'' then CHR ''+'' else if c = CHR ''_'' then CHR ''/'' else c) segment;
       padding = length normalized mod 4
     in if padding = 2 then atob (normalized @ ''=='')
        else if padding = 3 then atob (normalized @ ''='')
        else if padding \<noteq> 0 then None
        else atob normalized)"

text \<open>TextDecoder: the decoder of the Encoding standard.  Its state is the bytes of the sequence
  under way, how many are still needed, and the bounds of the next; a malformed sequence gives
  U+FFFD, and a leading byte order mark is dropped.\<close>

type_synonym utf8_state = "nat list \<times> nat \<times> nat \<times> nat"

definition utf8_idle :: utf8_state where
  "utf8_idle = ([], 0, 0x80, 0xBF)"

definition replacement :: "nat list" where
  "replacement = [0xEF, 0xBF, 0xBD]"

definition utf8_first :: "nat \<Rightarrow> nat list \<times> utf8_state" where
  "utf8_first b =
     (if b < 0x80 then ([b], utf8_idle)
      else if 0xC2 \<le> b \<and> b \<le> 0xDF then ([], ([b], 1, 0x80, 0xBF))
      else if 0xE0 \<le> b \<and> b \<le> 0xEF then ([], ([b], 2, if b = 0xE0 then 0xA0 else 0x80, if b = 0xED then 0x9F else 0xBF))
      else if 0xF0 \<le> b \<and> b \<le> 0xF4 then ([], ([b], 3, if b = 0xF0 then 0x90 else 0x80, if b = 0xF4 then 0x8F else 0xBF))
      else (replacement, utf8_idle))"

definition utf8_next :: "utf8_state \<Rightarrow> nat \<Rightarrow> nat list \<times> utf8_state" where
  "utf8_next st b = (case st of (pending, needed, lo, hi) \<Rightarrow>
     if needed = 0 then utf8_first b
     else if lo \<le> b \<and> b \<le> hi then
       (if needed = 1 then (pending @ [b], utf8_idle) else ([], (pending @ [b], needed - 1, 0x80, 0xBF)))
     else (case utf8_first b of (out, st1) \<Rightarrow> (replacement @ out, st1)))"

fun utf8_decode :: "utf8_state \<Rightarrow> nat list \<Rightarrow> nat list" where
  "utf8_decode (pending, needed, lo, hi) [] = (if needed = 0 then [] else replacement)"
| "utf8_decode st (b # bs) = (case utf8_next st b of (out, st1) \<Rightarrow> out @ utf8_decode st1 bs)"

definition TextDecoder_decode :: "nat list \<Rightarrow> string" where
  "TextDecoder_decode bytes = (let out = utf8_decode utf8_idle bytes in
     map char_of (if take 3 out = [0xEF, 0xBB, 0xBF] then drop 3 out else out))"

definition decodeJwtPayload :: "json \<Rightarrow> json option" where
  "decodeJwtPayload token = (case token of
       JStr t \<Rightarrow> (case split_on CHR ''.'' t of
           [h, payload, sig] \<Rightarrow>
             if payload = [] then None
             else Option.bind (base64UrlDecode payload) (\<lambda>bytes. json_parse (TextDecoder_decode bytes))
         | _ \<Rightarrow> None)
     | _ \<Rightarrow> None)"

definition impersonationFromToken :: "json \<Rightarrow> bool \<times> string option" where
  "impersonationFromToken token =
     (let imp = (case decodeJwtPayload token of Some payload \<Rightarrow> member payload ''imp'' | None \<Rightarrow> JUndefined) in
      case imp of
        JStr t \<Rightarrow> if t \<noteq> [] then (True, Some t) else (False, None)
      | JObj o1 \<Rightarrow> (case jget o1 ''actorUserId'' of
            JStr a \<Rightarrow> if a \<noteq> [] then (True, Some a) else (False, None)
          | _ \<Rightarrow> (False, None))
      | _ \<Rightarrow> (False, None))"

section \<open>The store\<close>

record auth_state =
  as_accessToken :: json
  as_user :: json
  as_isAuthenticated :: bool
  as_isLoading :: bool
  as_profileComplete :: bool
  as_isImpersonating :: bool
  as_impersonationActorId :: "string option"
  as_impersonationActor :: json

definition initialState :: auth_state where
  "initialState = \<lparr>as_accessToken = JNull, as_user = JNull, as_isAuthenticated = False, as_isLoading = True,
     as_profileComplete = False, as_isImpersonating = False, as_impersonationActorId = None, as_impersonationActor = JNull\<rparr>"

text \<open>The requests under way: the two of bootstrap and its look-up of the actor, the look-up setAuth
  leaves behind, the one of refreshUser, and the one that starting an impersonation waits for.\<close>

datatype auth_task = BootRefresh | BootMe json | BootActor | ActorLookup string | ReloadUser | StartMe json

record auth_session =
  au_state :: auth_state
  au_tasks :: "auth_task list"

definition auth_set :: "(auth_state \<Rightarrow> auth_state) \<Rightarrow> auth_session \<Rightarrow> auth_session" where
  "auth_set f w = w\<lparr>au_state := f (au_state w)\<rparr>"

definition auth_wait :: "auth_task \<Rightarrow> auth_session \<Rightarrow> auth_session" where
  "auth_wait k w = w\<lparr>au_tasks := au_tasks w @ [k]\<rparr>"

text \<open>A property of null or undefined is a TypeError: None.\<close>

definition property :: "json \<Rightarrow> string \<Rightarrow> json option" where
  "property v k = (if v = JNull \<or> v = JUndefined then None else Some (member v k))"

definition reply_data :: "call_result \<Rightarrow> json option" where
  "reply_data r = (case r of Success v \<Rightarrow> property v ''data'' | Failure f \<Rightarrow> None)"

definition ACTIVE_STATUS :: json where
  "ACTIVE_STATUS = JStr ''ACTIVE''"

definition signed_in :: "json \<Rightarrow> json \<Rightarrow> json \<Rightarrow> auth_state \<Rightarrow> auth_state" where
  "signed_in token user status a = (case impersonationFromToken token of (imp, actorId) \<Rightarrow>
     a\<lparr>as_accessToken := token, as_user := user, as_isAuthenticated := True, as_profileComplete := (status = ACTIVE_STATUS),
       as_isImpersonating := imp, as_impersonationActorId := actorId, as_impersonationActor := JNull\<rparr>)"

definition clearAuth :: "auth_session \<Rightarrow> auth_session" where
  "clearAuth = auth_set (\<lambda>_. initialState\<lparr>as_isLoading := False\<rparr>)"

definition bootstrap :: "auth_session \<Rightarrow> auth_session" where
  "bootstrap w = auth_wait BootRefresh (auth_set (as_isLoading_update (\<lambda>_. True)) w)"

text \<open>The finally block, and the catch block before it.\<close>

definition boot_end :: "auth_session \<Rightarrow> auth_session" where
  "boot_end = auth_set (as_isLoading_update (\<lambda>_. False))"

definition boot_fail :: "auth_session \<Rightarrow> auth_session" where
  "boot_fail w = boot_end (clearAuth w)"

definition setAuth :: "json \<Rightarrow> json \<Rightarrow> auth_session \<Rightarrow> auth_session" where
  "setAuth token user w = (case property user ''status'' of
       None \<Rightarrow> w
     | Some status \<Rightarrow> (let v = auth_set (signed_in token user status) w in
         case snd (impersonationFromToken token) of Some actorId \<Rightarrow> auth_wait (ActorLookup actorId) v | None \<Rightarrow> v))"

definition refreshUser :: "auth_session \<Rightarrow> auth_session" where
  "refreshUser w = (if js_truthy (as_accessToken (au_state w)) then auth_wait ReloadUser w else w)"

text \<open>The shim of the API client; a missing token is null.\<close>

definition authStore_setState :: "json \<Rightarrow> auth_session \<Rightarrow> auth_session" where
  "authStore_setState token = auth_set (as_accessToken_update (\<lambda>_. if token = JUndefined then JNull else token))"

text \<open>onSuccess of the mutation that starts an impersonation, up to its request for the new user.\<close>

definition impersonation_started :: "json \<Rightarrow> auth_session \<Rightarrow> auth_session" where
  "impersonation_started data w = (case property data ''accessToken'' of
       None \<Rightarrow> w
     | Some token \<Rightarrow> auth_wait (StartMe token) (auth_set (as_accessToken_update (\<lambda>_. token)) w))"

text \<open>fetchImpersonationActor: null when the look-up fails.\<close>

definition actor_of :: "call_result \<Rightarrow> json" where
  "actor_of r = (case reply_data r of Some v \<Rightarrow> v | None \<Rightarrow> JNull)"

text \<open>How a request under way goes on with its reply.\<close>

definition resume :: "auth_task \<Rightarrow> call_result \<Rightarrow> auth_session \<Rightarrow> auth_session" where
  "resume k reply w = (case k of
       BootRefresh \<Rightarrow> (case Option.bind (reply_data reply) (\<lambda>d. property d ''accessToken'') of
           None \<Rightarrow> boot_fail w
         | Some token \<Rightarrow> auth_wait (BootMe token) (auth_set (as_accessToken_update (\<lambda>_. token)) w))
     | BootMe token \<Rightarrow> (case reply_data reply of
           None \<Rightarrow> boot_fail w
         | Some user \<Rightarrow> (case property user ''status'' of
             None \<Rightarrow> boot_fail w
           | Some status \<Rightarrow> (let v = auth_set (signed_in token user status) w in
               case snd (impersonationFromToken token) of Some actorId \<Rightarrow> auth_wait BootActor v | None \<Rightarrow> boot_end v)))
     | BootActor \<Rightarrow> boot_end (auth_set (as_impersonationActor_update (\<lambda>_. actor_of reply)) w)
     | ActorLookup actorId \<Rightarrow>
         if as_impersonationActorId (au_state w) = Some actorId
         then auth_set (as_impersonationActor_update (\<lambda>_. actor_of reply)) w else w
     | ReloadUser \<Rightarrow> (case reply_data reply of
           None \<Rightarrow> w
         | Some user \<Rightarrow> (case property user ''status'' of
             None \<Rightarrow> w
           | Some status \<Rightarrow> auth_set (\<lambda>a. a\<lparr>as_user := user, as_profileComplete := (status = ACTIVE_STATUS)\<rparr>) w))
     | StartMe token \<Rightarrow> (case reply_data reply of None \<Rightarrow> w | Some user \<Rightarrow> setAuth token user w))"

definition auth_reply :: "nat \<Rightarrow> call_result \<Rightarrow> auth_session \<Rightarrow> auth_session" where
  "auth_reply i reply w =
     resume (au_tasks w ! i) reply (w\<lparr>au_tasks := take i (au_tasks w) @ drop (Suc i) (au_tasks w)\<rparr>)"

inductive auth_answer :: "auth_session \<Rightarrow> auth_session \<Rightarrow> bool" where
  reply: "i < length (au_tasks w) \<Longrightarrow> auth_answer w (auth_reply i r w)"

inductive auth_step :: "auth_session \<Rightarrow> auth_session \<Rightarrow> bool" where
  step_answer: "auth_answer w v \<Longrightarrow> auth_step w v"
| step_bootstrap: "auth_step w (bootstrap w)"
| step_setAuth: "auth_step w (setAuth token user w)"
| step_clearAuth: "auth_step w (clearAuth w)"
| step_refreshUser: "auth_step w (refreshUser w)"
| step_started: "auth_step w (impersonation_started data w)"
| step_setState: "auth_step w (authStore_setState token w)"

text \<open>A page load: the store as created, and the bootstrap that AuthBootstrap fires once.\<close>

definition page_load :: auth_session where
  "page_load = bootstrap \<lparr>au_state = initialState, au_tasks = []\<rparr>"

section \<open>The layouts\<close>

datatype layout = Skeleton | ToLogin | Refused | Page

definition AccountLayout :: "auth_state \<Rightarrow> layout" where
  "AccountLayout a = (if as_isLoading a then Skeleton else if \<not> as_isAuthenticated a then ToLogin else Page)"

text \<open>user?.permissions ?? []\<close>

definition permissions_of :: "json \<Rightarrow> string list" where
  "permissions_of user = (case member user ''permissions'' of
       JArr vs \<Rightarrow> map (\<lambda>v. case v of JStr t \<Rightarrow> t | _ \<Rightarrow> []) vs
     | _ \<Rightarrow> [])"

definition usePermission :: "string \<Rightarrow> auth_state \<Rightarrow> bool" where
  "usePermission code a = matchesPermission (permissions_of (as_user a)) code"

definition AdminLayout :: "auth_state \<Rightarrow> layout" where
  "AdminLayout a = (if as_isLoading a then Skeleton else if \<not> as_isAuthenticated a then ToLogin
     else if \<not> usePermission ''admin:read:users'' a then Refused else Page)"

section \<open>Tokens are read back\<close>

text \<open>What jose writes (RFC 7515, RFC 4648): header, payload and signature in base64url without
  padding, joined by dots.  utf8_char is the encoding of one code point.\<close>

fun sextets :: "nat list \<Rightarrow> nat list" where
  "sextets (x # y # z # r) = [x div 4, x mod 4 * 16 + y div 16, y mod 16 * 4 + z div 64, z mod 64] @ sextets r"
| "sextets [x, y] = [x div 4, x mod 4 * 16 + y div 16, y mod 16 * 4]"
| "sextets [x] = [x div 4, x mod 4 * 16]"
| "sextets [] = []"

definition BASE64URL :: string where
  "BASE64URL = ''ABCDEFGHIJKLMNOPQRSTUVWXYZabcdefghijklmnopqrstuvwxyz0123456789-_''"

definition base64url :: "nat list \<Rightarrow> string" where
  "base64url bytes = map (\<lambda>d. BASE64URL ! d) (sextets bytes)"

definition utf8_char :: "nat \<Rightarrow> nat list" where
  "utf8_char c =
     (if c < 0x80 then [c]
      else if c < 0x800 then [0xC0 + c div 64, 0x80 + c mod 64]
      else if c < 0x10000 then [0xE0 + c div 4096, 0x80 + c div 64 mod 64, 0x80 + c mod 64]
      else [0xF0 + c div 262144, 0x80 + c div 4096 mod 64, 0x80 + c div 64 mod 64, 0x80 + c mod 64])"

definition scalar :: "nat \<Rightarrow> bool" where
  "scalar c \<longleftrightarrow> c < 0xD800 \<or> 0xE000 \<le> c \<and> c < 0x110000"

definition utf8_text :: "string \<Rightarrow> bool" where
  "utf8_text s \<longleftrightarrow> (\<exists>cs. list_all scalar cs \<and> s = map char_of (concat (map utf8_char cs)))"

definition compact_jws :: "string \<Rightarrow> string \<Rightarrow> string \<Rightarrow> string" where
  "compact_jws header payload sig = header @ CHR ''.'' # base64url (map of_char payload) @ CHR ''.'' # sig"

lemma digit_div: "p < 16 \<Longrightarrow> (q * 16 + p) div 16 = (q::nat)" "p < 16 \<Longrightarrow> (q * 16 + p) mod 16 = (p::nat)"
  "p < 4 \<Longrightarrow> (q * 4 + p) div 4 = (q::nat)" "p < 4 \<Longrightarrow> (q * 4 + p) mod 4 = (p::nat)"
  by auto

lemma sextet_split:
  "y < 256 \<Longrightarrow> x div 4 * 4 + (x mod 4 * 16 + y div 16) div 16 = (x::nat)"
  "y < 256 \<Longrightarrow> z < 256 \<Longrightarrow> (x mod 4 * 16 + y div 16) mod 16 * 16 + (y mod 16 * 4 + z div 64) div 4 = (y::nat)"
  "z < 256 \<Longrightarrow> (y mod 16 * 4 + z div 64) mod 4 * 64 + z mod 64 = (z::nat)"
  by (simp_all only: digit_div less_mult_imp_div_less [of y 16 16, simplified] less_mult_imp_div_less [of z 4 64, simplified]
      div_mult_mod_eq)

lemma sextet_bytes_sextets: "list_all (\<lambda>b. b < 256) bs \<Longrightarrow> sextet_bytes (sextets bs) = bs"
proof (induction bs rule: sextets.induct)
  case (1 x y z r)
  then show ?case by (simp only: sextets.simps sextet_bytes.simps append_Cons append_Nil list.pred_inject sextet_split)
next
  case (2 x y)
  then show ?case using sextet_split(1) [of y x] sextet_split(2) [of y 0 x] by simp
next
  case (3 x)
  then show ?case using sextet_split(1) [of 0 x] by simp
qed simp

lemma sextets_small: "list_all (\<lambda>b. b < 256) bs \<Longrightarrow> list_all (\<lambda>d. d < 64) (sextets bs)"
proof (induction bs rule: sextets.induct)
  case (1 x y z r)
  have "y div 16 < 16" "z div 64 < 4" "x div 4 < 64" using 1(2) by (auto intro: less_mult_imp_div_less)
  moreover have "x mod 4 < 4" "y mod 16 < 16" by simp_all
  ultimately have "x mod 4 * 16 + y div 16 < 64" "y mod 16 * 4 + z div 64 < 64" "x div 4 < 64" by linarith+
  then show ?case using 1 by simp
next
  case (2 x y)
  have "y div 16 < 16" "x div 4 < 64" using 2 by (auto intro: less_mult_imp_div_less)
  moreover have "x mod 4 < 4" "y mod 16 < 16" by simp_all
  ultimately have "x mod 4 * 16 + y div 16 < 64" "y mod 16 * 4 < 64" "x div 4 < 64" by linarith+
  then show ?case by simp
next
  case (3 x)
  have "x div 4 < 64" using 3 by (auto intro: less_mult_imp_div_less)
  moreover have "x mod 4 < 4" by simp
  ultimately have "x mod 4 * 16 < 64" "x div 4 < 64" by linarith+
  then show ?case by simp
qed simp

lemma sextets_length: "length (sextets bs) mod 4 \<noteq> 1"
  by (induction bs rule: sextets.induct) auto

definition plus_slash :: "char \<Rightarrow> char" where
  "plus_slash c = (if c = CHR ''-'' then CHR ''+'' else if c = CHR ''_'' then CHR ''/'' else c)"

lemma sextet_chars: "\<forall>d\<in>set [0..<64]. sextet (plus_slash (BASE64URL ! d)) = Some d \<and> \<not> ascii_space (plus_slash (BASE64URL ! d)) \<and>
    plus_slash (BASE64URL ! d) \<noteq> CHR ''='' \<and> BASE64URL ! d \<noteq> CHR ''.''"
  by code_simp

lemma sextet_char: "d < 64 \<Longrightarrow> sextet (plus_slash (BASE64URL ! d)) = Some d \<and> \<not> ascii_space (plus_slash (BASE64URL ! d)) \<and>
    plus_slash (BASE64URL ! d) \<noteq> CHR ''='' \<and> BASE64URL ! d \<noteq> CHR ''.''"
  using sextet_chars by (metis atLeastLessThan_iff le0 set_upt)

lemma atob_chars:
  assumes "list_all (\<lambda>d. d < 64) ds" "length ds mod 4 = 0 \<and> pad = [] \<or> length ds mod 4 = 2 \<and> pad = ''=='' \<or> length ds mod 4 = 3 \<and> pad = ''=''"
  shows "atob (map (\<lambda>d. plus_slash (BASE64URL ! d)) ds @ pad) = Some (sextet_bytes ds)"
proof -
  let ?t = "map (\<lambda>d. plus_slash (BASE64URL ! d)) ds"
  have ch: "d \<in> set ds \<Longrightarrow> sextet (plus_slash (BASE64URL ! d)) = Some d \<and> \<not> ascii_space (plus_slash (BASE64URL ! d)) \<and>
      plus_slash (BASE64URL ! d) \<noteq> CHR ''=''" for d
    using sextet_char [of d] assms(1) by (simp add: list_all_iff)
  have nosp: "filter (\<lambda>c. \<not> ascii_space c) (?t @ pad) = ?t @ pad"
    using ch assms(2) by (auto simp: filter_id_conv ascii_space_def)
  have last: "?t \<noteq> [] \<Longrightarrow> last ?t \<noteq> CHR ''=''"
    using ch by (auto simp: last_map)
  have len: "length (?t @ ''=='') mod 4 = 0" if "length ds mod 4 = 2" using that by (simp add: mod_Suc)
  have len3: "length (?t @ ''='') mod 4 = 0" if "length ds mod 4 = 3" using that by (simp add: mod_Suc)
  have strip: "(if length (?t @ pad) mod 4 \<noteq> 0 \<or> ?t @ pad = [] \<or> last (?t @ pad) \<noteq> CHR ''='' then ?t @ pad
       else if last (butlast (?t @ pad)) = CHR ''='' then butlast (butlast (?t @ pad)) else butlast (?t @ pad)) = ?t"
    using assms(2)
  proof (elim disjE conjE)
    assume "length ds mod 4 = 0" "pad = []"
    then show ?thesis using last by auto
  next
    assume "length ds mod 4 = 2" "pad = ''==''"
    then show ?thesis using len by (simp add: butlast_append)
  next
    assume d: "length ds mod 4 = 3" "pad = ''=''"
    then have "ds \<noteq> []" by auto
    then show ?thesis using d len3 last by (simp add: butlast_append)
  qed
  have "length ?t mod 4 \<noteq> 1" using assms(2) by auto
  moreover have "list_all (\<lambda>c. sextet c \<noteq> None) ?t" using ch by (simp add: list_all_iff)
  moreover have "map (\<lambda>c. the (sextet c)) ?t = ds" using ch by (simp add: map_idI)
  ultimately show ?thesis unfolding atob_def nosp Let_def strip by (simp add: comp_def)
qed

lemma base64UrlDecode_base64url: "list_all (\<lambda>b. b < 256) bs \<Longrightarrow> base64UrlDecode (base64url bs) = Some bs"
proof -
  assume b: "list_all (\<lambda>b. b < 256) bs"
  let ?ds = "sextets bs"
  have n: "map (\<lambda>c. if c = CHR ''-'' then CHR ''+'' else if c = CHR ''_'' then CHR ''/'' else c) (base64url bs)
      = map (\<lambda>d. plus_slash (BASE64URL ! d)) ?ds"
    by (simp add: base64url_def plus_slash_def)
  have "length ?ds mod 4 = 0 \<or> length ?ds mod 4 = 2 \<or> length ?ds mod 4 = 3" using sextets_length [of bs] by presburger
  then show ?thesis
    using atob_chars [OF sextets_small [OF b], of "[]"] atob_chars [OF sextets_small [OF b], of "''==''"]
      atob_chars [OF sextets_small [OF b], of "''=''"]
    unfolding base64UrlDecode_def n Let_def by (auto simp: sextet_bytes_sextets [OF b])
qed

lemma base64url_no_dot: "list_all (\<lambda>b. b < 256) bs \<Longrightarrow> CHR ''.'' \<notin> set (base64url bs)"
  using sextets_small [of bs] sextet_char by (fastforce simp: base64url_def list_all_iff)

lemma utf8_sequence:
  assumes "scalar c"
  shows "utf8_decode utf8_idle (utf8_char c @ r) = utf8_char c @ utf8_decode utf8_idle r"
proof -
  have [simp]: "x mod 64 \<le> 63" for x :: nat using mod_less_divisor [of 64 x] by linarith
  consider "c < 0x80" | "0x80 \<le> c" "c < 0x800" | "0x800 \<le> c" "c < 0x10000" | "0x10000 \<le> c" by linarith
  then show ?thesis
  proof cases
    case 1
    then show ?thesis by (simp add: utf8_char_def utf8_idle_def utf8_next_def utf8_first_def)
  next
    case 2
    have "2 \<le> c div 64" "c div 64 < 32" "c mod 64 < 64" using 2 by auto
    then show ?thesis using 2 by (simp add: utf8_char_def utf8_idle_def utf8_next_def utf8_first_def)
  next
    case 3
    have q: "c div 4096 * 64 + c div 64 mod 64 = c div 64" "c div 64 * 64 + c mod 64 = c"
      using div_mult_mod_eq [of "c div 64" 64] by (simp_all add: div_mult2_eq [symmetric])
    have m: "c div 64 mod 64 < 64" "c mod 64 < 64" by simp_all
    have "c div 4096 < 16" using 3 by (auto intro: less_mult_imp_div_less)
    moreover have "32 \<le> c div 64 mod 64" if "c div 4096 = 0" using that q m 3 by linarith
    moreover have "c div 64 \<le> 63" if "c div 4096 = 0" using that q m by linarith
    moreover have "c div 64 mod 64 \<le> 31" if "c div 4096 = 13"
    proof (rule ccontr)
      assume "\<not> c div 64 mod 64 \<le> 31"
      then have "0xD800 \<le> c" "c < 0xE000" using that q m by linarith+
      then show False using assms by (simp add: scalar_def)
    qed
    moreover note m
    ultimately show ?thesis using 3 by (simp add: utf8_char_def utf8_idle_def utf8_next_def utf8_first_def)
  next
    case 4
    have q: "c div 262144 * 64 + c div 4096 mod 64 = c div 4096" "c div 4096 * 4096 + c mod 4096 = c"
      using div_mult_mod_eq [of "c div 4096" 64] by (simp_all add: div_mult2_eq [symmetric])
    have m: "c div 4096 mod 64 < 64" "c mod 4096 < 4096" by simp_all
    have c: "c < 0x110000" using assms by (auto simp: scalar_def)
    have "c div 262144 \<le> 4" using c q m by linarith
    moreover have "16 \<le> c div 4096 mod 64" if "c div 262144 = 0" using that q m 4 by linarith
    moreover have "c div 4096 \<le> 63" if "c div 262144 = 0" using that q m by linarith
    moreover have "c div 4096 mod 64 \<le> 15" if "c div 262144 = 4" using that q m c by linarith
    moreover note m
    ultimately show ?thesis using 4 by (simp add: utf8_char_def utf8_idle_def utf8_next_def utf8_first_def)
  qed
qed

lemma utf8_sequences: "list_all scalar cs \<Longrightarrow> utf8_decode utf8_idle (concat (map utf8_char cs)) = concat (map utf8_char cs)"
  by (induction cs) (simp_all add: utf8_sequence, simp add: utf8_idle_def)

lemma utf8_small: "scalar c \<Longrightarrow> list_all (\<lambda>b. b < 256) (utf8_char c)"
  by (auto simp: utf8_char_def scalar_def)

lemma bytes_chars: "list_all (\<lambda>b. b < 256) bs \<Longrightarrow> map of_char (map char_of bs :: string) = (bs :: nat list)"
  by (induction bs) auto

lemma TextDecoder_text:
  assumes "utf8_text s" "take 1 s = ''{''"
  shows "TextDecoder_decode (map of_char s) = s"
proof -
  obtain cs where cs: "list_all scalar cs" "s = map char_of (concat (map utf8_char cs))" using assms(1) by (auto simp: utf8_text_def)
  let ?b = "concat (map utf8_char cs)"
  have "list_all (\<lambda>b. b < 256) ?b" using cs(1) utf8_small by (fastforce simp: list_all_iff)
  then have "map of_char (map char_of ?b :: string) = ?b" by (rule bytes_chars)
  then have m: "map of_char s = ?b" by (simp only: cs(2))
  have "take 1 (map of_char s) = [123 :: nat]" using assms(2) by (cases s) auto
  then have "take 3 ?b \<noteq> [0xEF, 0xBB, 0xBF]" unfolding m by (cases ?b) auto
  then show ?thesis by (simp add: TextDecoder_decode_def m utf8_sequences [OF cs(1)]) (simp add: cs(2))
qed

lemma split_on_none: "c \<notin> set s \<Longrightarrow> split_on c s = [s]"
  by (induction s) auto

lemma split_on_dots: "c \<notin> set x \<Longrightarrow> split_on c (x @ c # y) = x # split_on c y"
  by (induction x) auto

text \<open>The payload of a token, read without its key.\<close>

lemma decode_compact:
  assumes "CHR ''.'' \<notin> set header" "CHR ''.'' \<notin> set sig" "wf_json (JObj o1)" "utf8_text (json_text (JObj o1))"
  shows "decodeJwtPayload (JStr (compact_jws header (json_text (JObj o1)) sig)) = Some (wire (JObj o1))"
proof -
  define doc where "doc = json_text (JObj o1)"
  define bytes :: "nat list" where "bytes = map of_char doc"
  have head: "take 1 doc = ''{''" by (simp add: doc_def)
  have b: "list_all (\<lambda>b. b < 256) bytes" by (auto simp: bytes_def list_all_iff)
  have "bytes \<noteq> []" using head by (auto simp: bytes_def)
  then have "sextets bytes \<noteq> []" by (cases bytes rule: sextets.cases) auto
  then have "base64url bytes \<noteq> []" by (simp add: base64url_def)
  moreover have "TextDecoder_decode bytes = doc" unfolding bytes_def by (rule TextDecoder_text [OF assms(4) [folded doc_def] head])
  moreover have "json_parse doc = Some (wire (JObj o1))" using json_parse_text [OF assms(3)] by (simp only: doc_def)
  ultimately show ?thesis
    by (simp add: decodeJwtPayload_def compact_jws_def split_on_dots split_on_none assms(1,2) base64url_no_dot [OF b]
        base64UrlDecode_base64url [OF b] doc_def [symmetric] bytes_def [symmetric] del: json_text.simps wire.simps)
qed

text \<open>The token jose makes of claims: the payload is the JSON of the members set on it.\<close>

definition jose_token :: "(jwt_claims \<Rightarrow> string) \<Rightarrow> jwt_claims \<Rightarrow> bool" where
  "jose_token sign c \<longleftrightarrow> (\<exists>header o1 sig. sign c = compact_jws header (json_text (JObj o1)) sig \<and>
     CHR ''.'' \<notin> set header \<and> CHR ''.'' \<notin> set sig \<and> wf_json (JObj o1) \<and> plain (JObj o1) \<and> utf8_text (json_text (JObj o1)) \<and>
     jget o1 ''sub'' = JStr (jc_sub c) \<and> jget o1 ''imp'' = (case jc_imp c of None \<Rightarrow> JUndefined
       | Some (actor, i) \<Rightarrow> JObj [(''actorUserId'', JStr actor), (''impSessionId'', JStr i)]))"

lemma jose_token_imp:
  assumes "jose_token sign c" "\<And>actor i. jc_imp c = Some (actor, i) \<Longrightarrow> actor \<noteq> []"
  shows "impersonationFromToken (JStr (sign c)) = (jc_imp c \<noteq> None, map_option fst (jc_imp c))"
proof -
  obtain header o1 sig where t: "sign c = compact_jws header (json_text (JObj o1)) sig" "CHR ''.'' \<notin> set header"
      "CHR ''.'' \<notin> set sig" "wf_json (JObj o1)" "plain (JObj o1)" "utf8_text (json_text (JObj o1))"
      "jget o1 ''imp'' = (case jc_imp c of None \<Rightarrow> JUndefined
        | Some (actor, i) \<Rightarrow> JObj [(''actorUserId'', JStr actor), (''impSessionId'', JStr i)])"
    using assms(1) by (auto simp: jose_token_def)
  have "decodeJwtPayload (JStr (sign c)) = Some (JObj o1)"
    using decode_compact [OF t(2,3,4,6)] wire_plain [OF t(5)] t(1) by simp
  then show ?thesis
    using t(7) assms(2) by (auto simp: impersonationFromToken_def member_def jget_def split: option.splits)
qed

text \<open>C32. Whatever token the API issues for the impersonation of a user, the client reads from its
  payload, without checking the signature, that it is impersonating and which administrator is
  behind it; from the token of an ordinary sign-in it reads that nobody is.  The signing library is
  assumed to write the compact form of RFC 7515 with the claims as JSON.\<close>

theorem impersonation_read_back:
  assumes "jose_token (pf_sign pf) \<lparr>jc_sub = int_to_string target, jc_imp = Some (int_to_string actor, int_to_string i),
      jc_jti = jti, jc_iat = pf_now pf, jc_expiresIn = pf_jwt_expires_in pf\<rparr>"
    and "jose_token (pf_sign pf) \<lparr>jc_sub = int_to_string user, jc_imp = None,
      jc_jti = jti, jc_iat = pf_now pf, jc_expiresIn = pf_jwt_expires_in pf\<rparr>"
  shows "impersonationFromToken (JStr (issueImpersonationTokens pf jti actor target i)) = (True, Some (int_to_string actor)) \<and>
    impersonationFromToken (JStr (signAccessToken pf jti user)) = (False, None)"
  using jose_token_imp [OF assms(1)] jose_token_imp [OF assms(2)] json_text_nonempty [of "JNum actor"]
  by (auto simp: issueImpersonationTokens_def signImpersonationAccessToken_def signAccessToken_def)

section \<open>The store under any interleaving\<close>

definition boot_task :: "auth_task \<Rightarrow> bool" where
  "boot_task k \<longleftrightarrow> (case k of BootRefresh \<Rightarrow> True | BootMe _ \<Rightarrow> True | BootActor \<Rightarrow> True | _ \<Rightarrow> False)"

definition state_ok :: "auth_state \<Rightarrow> bool" where
  "state_ok a \<longleftrightarrow> (as_isImpersonating a \<longleftrightarrow> as_impersonationActorId a \<noteq> None) \<and>
     (as_isAuthenticated a \<longrightarrow> property (as_user a) ''status'' \<noteq> None) \<and>
     (as_profileComplete a \<longleftrightarrow> property (as_user a) ''status'' = Some ACTIVE_STATUS)"

definition auth_ok :: "auth_session \<Rightarrow> bool" where
  "auth_ok w \<longleftrightarrow> state_ok (au_state w) \<and> (as_isLoading (au_state w) \<longrightarrow> (\<exists>k\<in>set (au_tasks w). boot_task k))"

fun auth_weight :: "auth_task \<Rightarrow> nat" where
  "auth_weight BootRefresh = 3"
| "auth_weight (BootMe token) = 2"
| "auth_weight (StartMe token) = 2"
| "auth_weight k = 1"

lemmas auth_defs = auth_set_def auth_wait_def clearAuth_def bootstrap_def boot_end_def boot_fail_def setAuth_def refreshUser_def
  authStore_setState_def signed_in_def initialState_def

lemma imp_flag: "fst (impersonationFromToken token) \<longleftrightarrow> snd (impersonationFromToken token) \<noteq> None"
  by (auto simp: impersonationFromToken_def Let_def split: json.splits)

lemma state_ok_simps [simp]:
  "state_ok initialState" "state_ok (a\<lparr>as_isLoading := b\<rparr>) = state_ok a" "state_ok (a\<lparr>as_accessToken := t\<rparr>) = state_ok a"
  "state_ok (a\<lparr>as_impersonationActor := v\<rparr>) = state_ok a"
  by (simp_all add: state_ok_def initialState_def property_def)

lemma state_ok_signed_in: "property user ''status'' = Some status \<Longrightarrow> state_ok (signed_in token user status a)"
  using imp_flag [of token] by (simp add: state_ok_def signed_in_def case_prod_beta)

lemma state_ok_user:
  "state_ok a \<Longrightarrow> property user ''status'' = Some status \<Longrightarrow> state_ok (a\<lparr>as_user := user, as_profileComplete := (status = ACTIVE_STATUS)\<rparr>)"
  by (simp add: state_ok_def)

lemma signed_in_loading [simp]: "as_isLoading (signed_in token user status a) = as_isLoading a"
  by (simp add: signed_in_def case_prod_beta)

lemma auth_simps [simp]:
  "au_state (auth_set f w) = f (au_state w)" "au_tasks (auth_set f w) = au_tasks w"
  "au_state (auth_wait k w) = au_state w" "au_tasks (auth_wait k w) = au_tasks w @ [k]"
  "au_state (boot_end w) = (au_state w)\<lparr>as_isLoading := False\<rparr>" "au_tasks (boot_end w) = au_tasks w"
  "au_state (clearAuth w) = initialState\<lparr>as_isLoading := False\<rparr>" "au_tasks (clearAuth w) = au_tasks w"
  "au_state (boot_fail w) = initialState\<lparr>as_isLoading := False\<rparr>" "au_tasks (boot_fail w) = au_tasks w"
  by (simp_all add: auth_set_def auth_wait_def boot_end_def clearAuth_def boot_fail_def)

lemma auth_ok_ops:
  assumes "auth_ok w"
  shows "auth_ok (clearAuth w)" "auth_ok (setAuth token user w)" "auth_ok (refreshUser w)" "auth_ok (authStore_setState token w)"
    "auth_ok (bootstrap w)" "auth_ok (impersonation_started data w)"
  using assms
  by (auto simp: auth_ok_def impersonation_started_def setAuth_def refreshUser_def authStore_setState_def bootstrap_def boot_task_def state_ok_signed_in Let_def
      split: option.split)

text \<open>The last four are clear of the tasks; a reply gives its own task up, or hands on to the next of the
  same bootstrap.\<close>

lemma resume_state: "state_ok (au_state w) \<Longrightarrow> state_ok (au_state (resume k r w))"
  by (cases k) (simp_all add: resume_def setAuth_def state_ok_signed_in state_ok_user Let_def split: option.split)

lemma resume_boot:
  "boot_task k \<Longrightarrow> \<not> as_isLoading (au_state (resume k r w)) \<or> (\<exists>j\<in>set (au_tasks (resume k r w)). boot_task j)"
  by (cases k) (auto simp: resume_def boot_task_def Let_def split: option.split)

lemma resume_other:
  "\<not> boot_task k \<Longrightarrow> as_isLoading (au_state (resume k r w)) = as_isLoading (au_state w) \<and>
     set (au_tasks w) \<subseteq> set (au_tasks (resume k r w))"
  by (cases k) (auto simp: resume_def setAuth_def boot_task_def Let_def split: option.split)

lemma auth_ok_reply:
  assumes "auth_ok w" "i < length (au_tasks w)"
  shows "auth_ok (auth_reply i r w)"
proof -
  let ?k = "au_tasks w ! i" let ?rest = "take i (au_tasks w) @ drop (Suc i) (au_tasks w)"
  have tasks: "set (au_tasks w) = insert ?k (set ?rest)"
    using assms(2) by (metis id_take_nth_drop list.simps(15) set_append Un_insert_right)
  have "state_ok (au_state (auth_reply i r w))"
    using assms(1) by (simp add: auth_reply_def auth_ok_def resume_state)
  moreover have "\<exists>j\<in>set (au_tasks (auth_reply i r w)). boot_task j" if l: "as_isLoading (au_state (auth_reply i r w))"
  proof (cases "boot_task ?k")
    case True
    then show ?thesis using resume_boot [OF True] l by (simp add: auth_reply_def)
  next
    case False
    have "as_isLoading (au_state w)" using resume_other [OF False] l by (simp add: auth_reply_def)
    then obtain x where x: "x \<in> set ?rest" "boot_task x" using assms(1) tasks False unfolding auth_ok_def by auto
    have "set ?rest \<subseteq> set (au_tasks (auth_reply i r w))"
      using resume_other [OF False, of r "w\<lparr>au_tasks := ?rest\<rparr>"] by (simp add: auth_reply_def)
    then show ?thesis using x by blast
  qed
  ultimately show ?thesis by (simp add: auth_ok_def)
qed

lemma page_load_ok: "auth_ok page_load"
  by (simp add: page_load_def auth_ok_def bootstrap_def boot_task_def)

lemma auth_step_ok: "auth_step w v \<Longrightarrow> auth_ok w \<Longrightarrow> auth_ok v"
  by (induction rule: auth_step.induct) (auto simp: auth_ok_ops auth_ok_reply elim: auth_answer.cases)

lemma auth_steps_ok: "auth_step\<^sup>*\<^sup>* w v \<Longrightarrow> auth_ok w \<Longrightarrow> auth_ok v"
  by (induction rule: rtranclp_induct) (auto intro: auth_step_ok)

definition auth_work :: "auth_session \<Rightarrow> nat" where
  "auth_work w = sum_list (map auth_weight (au_tasks w))"

lemma resume_work: "auth_work (resume k r w) < auth_work w + auth_weight k"
  by (cases k) (simp_all add: resume_def setAuth_def auth_work_def Let_def split: option.split)

lemma auth_answer_work: "auth_answer w v \<Longrightarrow> auth_work v < auth_work w"
proof (induction rule: auth_answer.induct)
  case (reply i w r)
  let ?rest = "w\<lparr>au_tasks := take i (au_tasks w) @ drop (Suc i) (au_tasks w)\<rparr>"
  have "auth_work w = auth_work ?rest + auth_weight (au_tasks w ! i)"
    using arg_cong [OF id_take_nth_drop [OF reply], of "\<lambda>ts. sum_list (map auth_weight ts)"] by (simp add: auth_work_def)
  then show ?case using resume_work [of "au_tasks w ! i" r ?rest] by (simp add: auth_reply_def)
qed

lemma auth_answers_bounded: "(auth_answer ^^ n) v w \<Longrightarrow> n + auth_work w \<le> auth_work v"
proof (induction n arbitrary: w)
  case (Suc n)
  then obtain u where "(auth_answer ^^ n) v u" "auth_answer u w" by auto
  then show ?case using Suc.IH [of u] auth_answer_work [of u w] by simp
qed simp

lemma auth_work_bound: "auth_work w \<le> 3 * length (au_tasks w)"
proof -
  have one: "auth_weight k \<le> 3" for k by (cases k) auto
  have "sum_list (map auth_weight ks) \<le> 3 * length ks" for ks
  proof (induction ks)
    case (Cons k ks)
    then show ?case using one [of k] by simp
  qed simp
  then show ?thesis by (simp add: auth_work_def)
qed

lemma answers_are_steps: "(auth_answer ^^ n) v w \<Longrightarrow> auth_step\<^sup>*\<^sup>* v w"
proof (induction n arbitrary: w)
  case (Suc n)
  then obtain u where "(auth_answer ^^ n) v u" "auth_answer u w" by auto
  then show ?case using Suc.IH [of u] step_answer [of u w] by simp
qed simp

text \<open>C33. Once the page has loaded, any interleaving of replies and user actions leaves the session
  store consistent.  From any such point at most three replies for each task under way can arrive,
  every task left can be answered, and when none is left neither layout shows a skeleton: the
  client never loads for ever.\<close>

theorem session_settles:
  assumes "auth_step\<^sup>*\<^sup>* page_load v" "(auth_answer ^^ n) v w"
  shows "n \<le> 3 * length (au_tasks v) \<and> auth_ok w \<and> (au_tasks w \<noteq> [] \<longrightarrow> (\<exists>u. auth_answer w u)) \<and>
    (au_tasks w = [] \<longrightarrow> AccountLayout (au_state w) \<noteq> Skeleton \<and> AdminLayout (au_state w) \<noteq> Skeleton)"
proof -
  have "auth_step\<^sup>*\<^sup>* page_load w" using assms(1) answers_are_steps [OF assms(2)] by simp
  then have ok: "auth_ok w" using auth_steps_ok page_load_ok by blast
  have "n \<le> 3 * length (au_tasks v)" using auth_answers_bounded [OF assms(2)] auth_work_bound [of v] by linarith
  moreover have "\<exists>u. auth_answer w u" if "au_tasks w \<noteq> []" using auth_answer.intros [of 0 w] that by blast
  moreover have "AccountLayout (au_state w) \<noteq> Skeleton \<and> AdminLayout (au_state w) \<noteq> Skeleton" if "au_tasks w = []"
    using ok that by (simp add: auth_ok_def AccountLayout_def AdminLayout_def)
  ultimately show ?thesis using ok by blast
qed

section \<open>An expired token\<close>

text \<open>The reply of the server as fetch sees it: show_json and fallback are those of the filter.\<close>

definition server_reply :: "(json \<Rightarrow> string) \<Rightarrow> string \<Rightarrow> bool \<Rightarrow> exn + json \<Rightarrow> http_reply" where
  "server_reply show_json fallback production out = (case out of
       Inr body \<Rightarrow> \<lparr>rp_status = 200, rp_statusText = [], rp_body = json_parse (json_text body)\<rparr>
     | Inl e \<Rightarrow> (case catchException show_json fallback production e of
         (status, body) \<Rightarrow> \<lparr>rp_status = status, rp_statusText = [], rp_body = json_parse (json_text body)\<rparr>))"

lemma error_on_wire:
  "peekErrorPayload (server_reply sj fb production (Inl (http_exn c st msg))) =
     Some (JObj [(''code'', JStr (code_string c)), (''message'', JStr msg)])"
  "rp_status (server_reply sj fb production (Inl (http_exn c st msg))) = st"
  by (simp_all add: server_reply_def catchException_def mapException_def mapHttpException_def unpackHttpResponse_def http_exn_def
      errorBody_def Let_def json_parse_reread peekErrorPayload_def member_def present_def jget_def key_before_def index_key_def
      is_digit_def)

lemma no_code_expired: "code_string c \<noteq> TOKEN_EXPIRED_CODE"
  by (cases c) (simp_all add: TOKEN_EXPIRED_CODE_def)

lemma coded_error_settles:
  assumes "wb_calls w ! i = InFlight c" "i < length (wb_calls w)" "400 \<le> st"
  shows "on_reply i (Some (server_reply sj fb production (Inl (http_exn ec st msg)))) w =
     settle i (Failure (Api \<lparr>er_status = st, er_code = JStr (code_string ec), er_message = JStr msg, er_details = JUndefined, er_requestId = JUndefined\<rparr>)) w"
  using assms no_code_expired [of ec]
  by (simp add: on_reply_def error_on_wire reply_error_def ApiError_def rp_ok_def) (simp add: member_def jget_def)

text \<open>C34. For a token that the verifier refuses, an expired one included, a guarded route answers 401
  with the code UNAUTHORIZED; the client takes that for a failure of the call and sends no refresh
  request.  No coded refusal of the API starts a refresh: the code TOKEN_EXPIRED for which the
  client waits is not one of the codes of the API.\<close>

theorem expired_token_not_renewed:
  assumes "rt_auth rt" "extractToken req = Some tok" "tok \<noteq> []" "pf_verify pf (pf_now pf) tok = None"
    and "rate_limit_guard (pf_now pf) uuids (rt_rateLimit rt) (rq_ip req) None s = (Inr v, t)" "vd_refusal v = None"
    and "i < length (wb_calls w)" "wb_calls w ! i = InFlight c"
  shows "serve_route pf uuids rt req handler s = (Inl invalid_token, t) \<and>
    on_reply i (Some (server_reply sj fb production (Inl invalid_token))) w =
      settle i (Failure (Api \<lparr>er_status = 401, er_code = JStr ''UNAUTHORIZED'', er_message = JStr ''Invalid or expired access token'',
        er_details = JUndefined, er_requestId = JUndefined\<rparr>)) w \<and>
    (400 \<le> st \<longrightarrow> wb_log (on_reply i (Some (server_reply sj fb production (Inl (http_exn ec st msg)))) w) = wb_log w)"
proof -
  have "serve_route pf uuids rt req handler s = (Inl invalid_token, t)"
    using assms(1-6) by (simp add: serve_route_def jwt_guard_def nonempty_def run_simps)
  moreover have "on_reply i (Some (server_reply sj fb production (Inl invalid_token))) w =
      settle i (Failure (Api \<lparr>er_status = 401, er_code = JStr ''UNAUTHORIZED'', er_message = JStr ''Invalid or expired access token'',
        er_details = JUndefined, er_requestId = JUndefined\<rparr>)) w"
    unfolding invalid_token_def using coded_error_settles [OF assms(8,7), of 401 sj fb production UNAUTHORIZED] by simp
  moreover have "400 \<le> st \<Longrightarrow> wb_log (on_reply i (Some (server_reply sj fb production (Inl (http_exn ec st msg)))) w) = wb_log w"
    using coded_error_settles [OF assms(8,7)] by (simp add: settle_def)
  ultimately show ?thesis by blast
qed

section \<open>Starting and stopping an impersonation\<close>

text \<open>C35. When the request for the user fails after an impersonation was started, the store keeps the
  new token, which impersonates, while it still says that nobody is being impersonated: the layouts
  stay as they were and no banner is shown.\<close>

theorem failed_start_hides_impersonation:
  assumes "jose_token (pf_sign pf) \<lparr>jc_sub = int_to_string target, jc_imp = Some (int_to_string actor, int_to_string i),
      jc_jti = jti, jc_iat = pf_now pf, jc_expiresIn = pf_jwt_expires_in pf\<rparr>"
    and "token = issueImpersonationTokens pf jti actor target i" "data = JObj [(''accessToken'', JStr token)]"
    and "\<not> as_isImpersonating (au_state w)" "au_tasks w = []"
    and "v = auth_reply 0 (Failure f) (impersonation_started data w)"
  shows "v = w\<lparr>au_state := (au_state w)\<lparr>as_accessToken := JStr token\<rparr>\<rparr> \<and> \<not> as_isImpersonating (au_state v) \<and>
    impersonationFromToken (as_accessToken (au_state v)) = (True, Some (int_to_string actor)) \<and>
    AccountLayout (au_state v) = AccountLayout (au_state w)"
proof -
  have "impersonationFromToken (JStr token) = (True, Some (int_to_string actor))"
    using jose_token_imp [OF assms(1)] json_text_nonempty [of "JNum actor"] assms(2)
    by (simp add: issueImpersonationTokens_def signImpersonationAccessToken_def)
  moreover have "v = w\<lparr>au_state := (au_state w)\<lparr>as_accessToken := JStr token\<rparr>\<rparr>"
    using assms(3,5,6) by (simp add: impersonation_started_def property_def member_def jget_def auth_reply_def resume_def
        auth_wait_def auth_set_def reply_data_def)
  ultimately show ?thesis using assms(4) by (simp add: AccountLayout_def)
qed

text \<open>The stop of the user menu: the request to stop has been answered, and refreshUser runs.  The
  stop of the banner runs bootstrap instead.\<close>

definition own_account :: "json \<Rightarrow> json \<Rightarrow> auth_session \<Rightarrow> auth_session" where
  "own_account token user w = auth_reply 0 (Success (JObj [(''data'', user)]))
     (auth_reply 0 (Success (JObj [(''data'', JObj [(''accessToken'', token)])])) (bootstrap w))"

lemma jwt_guard_but_redis:
  assumes "but_redis t = but_redis s" "jwt_guard pf req s = (Inl e, s)"
  shows "jwt_guard pf req t = (Inl e, t)"
proof -
  have "impersonations t = impersonations s" using arg_cong [OF assms(1), of impersonations] by (simp add: but_redis_def)
  then have "imp_active ic u t = imp_active ic u s" for ic u by (simp add: imp_active_def)
  then show ?thesis using assms(2) by (auto simp: jwt_guard_def run_simps split: option.splits sum.splits if_splits)
qed

text \<open>C36. After an administrator has stopped an impersonation on the server, the requests with its
  token are refused, whatever other impersonations are started or stopped.  The item of the user
  menu asks for the user with that token: the call fails and the store keeps the ended token.  The
  banner signs in with a token of the administrator's own, which replaces it.\<close>

theorem menu_stop_keeps_impersonating:
  fixes t :: "'x sys_scheme"
  assumes "wf_table im_id (impersonations s)" "imp_stop pf i actor s = (Inr row, t)"
    and "extractToken req = Some token" "token \<noteq> []" "pf_verify pf' (pf_now pf') token = Some payload"
    and "js_truthy (jget payload ''sub'')" "coerce_bigint (jget payload ''sub'') = Some u"
    and "parseImpClaim (jget payload ''imp'') = Inr ic" "ic_impSessionId ic = i"
    and "fst (rate_limit_guard (pf_now pf') uuids None (rq_ip req) None (run_imps pf ops t)) = Inr v" "vd_refusal v = None"
    and "au_tasks w = []" "as_accessToken (au_state w) = JStr token"
    and "impersonationFromToken own = (False, None)" "property user ''status'' = Some status"
  shows "fst (serve_account_route pf' uuids env ProfileMe query req (run_imps pf ops t)) = Inl imp_ended \<and>
    auth_reply 0 (Failure f) (refreshUser w) = w \<and>
    \<not> as_isImpersonating (au_state (own_account own user w)) \<and> as_accessToken (au_state (own_account own user w)) = own"
proof -
  obtain t2 where t2: "rate_limit_guard (pf_now pf') uuids None (rq_ip req) None (run_imps pf ops t) = (Inr v, t2)"
    using assms(10) by (metis prod.collapse)
  have "but_redis t2 = but_redis (run_imps pf ops t)"
    using keepsD [OF keeps_rate_limit_guard, of "run_imps pf ops t" "but_redis (run_imps pf ops t)" "pf_now pf'" uuids None "rq_ip req" None]
      t2 by simp
  then have "jwt_guard pf' req t2 = (Inl imp_ended, t2)"
    using stopped_impersonation_refused [OF assms(1-9), of ops] jwt_guard_but_redis by metis
  then have "fst (serve_account_route pf' uuids env ProfileMe query req (run_imps pf ops t)) = Inl imp_ended"
    using t2 assms(11) by (simp add: serve_account_route_def serve_route_def account_decorators_def route_of_def decorator_defs run_simps)
  moreover have "auth_reply 0 (Failure f) (refreshUser w) = w"
    using assms(4,12,13) by (simp add: refreshUser_def js_truthy_def auth_reply_def resume_def auth_wait_def reply_data_def)
  moreover have "au_state (own_account own user w) = (signed_in own user status (au_state w))\<lparr>as_isLoading := False\<rparr>"
    using assms(12,14,15)
    by (simp add: own_account_def bootstrap_def auth_reply_def resume_def auth_wait_def auth_set_def reply_data_def property_def
        member_def jget_def boot_end_def signed_in_def Let_def split: if_splits)
  ultimately show ?thesis using assms(14) by (simp add: signed_in_def)
qed

section \<open>Witnesses\<close>

lemma ascii_text:
  assumes "list_all (\<lambda>c. (of_char c :: nat) < 128) s"
  shows "utf8_text s"
proof -
  have "concat (map utf8_char (map of_char s)) = map of_char s" using assms by (induction s) (auto simp: utf8_char_def)
  then have "s = map char_of (concat (map utf8_char (map of_char s)))" by (simp add: comp_def)
  moreover have "list_all scalar (map of_char s)" using assms by (auto simp: list_all_iff scalar_def)
  ultimately show ?thesis unfolding utf8_text_def by blast
qed

definition sample_claims :: "jwt_claims \<Rightarrow> (string \<times> json) list" where
  "sample_claims c = (case jc_imp c of None \<Rightarrow> []
     | Some (actor, i) \<Rightarrow> [(''imp'', JObj [(''actorUserId'', JStr actor), (''impSessionId'', JStr i)])]) @ [(''sub'', JStr (jc_sub c))]"

definition sample_jose :: platform where
  "sample_jose = sample_platform\<lparr>pf_sign := (\<lambda>c. compact_jws ''h'' (json_text (JObj (sample_claims c))) ''s'')\<rparr>"

lemma jose_sample:
  assumes "sample_claims c = o1" "wf_json (JObj o1)" "plain (JObj o1)" "list_all (\<lambda>c. (of_char c :: nat) < 128) (json_text (JObj o1))"
    and "jget o1 ''sub'' = JStr (jc_sub c)" "jget o1 ''imp'' = (case jc_imp c of None \<Rightarrow> JUndefined
       | Some (actor, i) \<Rightarrow> JObj [(''actorUserId'', JStr actor), (''impSessionId'', JStr i)])"
  shows "jose_token (pf_sign sample_jose) c"
proof -
  have "pf_sign sample_jose c = compact_jws ''h'' (json_text (JObj o1)) ''s''" by (simp add: sample_jose_def assms(1) del: json_text.simps)
  moreover have "CHR ''.'' \<notin> set ''h''" "CHR ''.'' \<notin> set ''s''" by simp_all
  ultimately show ?thesis using assms(2,3,5,6) ascii_text [OF assms(4)] unfolding jose_token_def by blast
qed

lemma sample_token:
  "jose_token (pf_sign sample_jose) \<lparr>jc_sub = int_to_string 2, jc_imp = Some (int_to_string 1, int_to_string 1),
     jc_jti = ''j'', jc_iat = pf_now sample_jose, jc_expiresIn = pf_jwt_expires_in sample_jose\<rparr>"
  "jose_token (pf_sign sample_jose) \<lparr>jc_sub = int_to_string 1, jc_imp = None,
     jc_jti = ''j'', jc_iat = pf_now sample_jose, jc_expiresIn = pf_jwt_expires_in sample_jose\<rparr>"
proof -
  have d: "int_to_string 1 = ''1''" "int_to_string 2 = ''2''" by code_simp+
  let ?o = "[(''imp'', JObj [(''actorUserId'', JStr ''1''), (''impSessionId'', JStr ''1'')]), (''sub'', JStr ''2'')]"
  have o: "wf_json (JObj ?o)" "plain (JObj ?o)" "list_all (\<lambda>c. (of_char c :: nat) < 128) (json_text (JObj ?o))" by code_simp+
  let ?p = "[(''sub'', JStr ''1'')]"
  have p: "wf_json (JObj ?p)" "plain (JObj ?p)" "list_all (\<lambda>c. (of_char c :: nat) < 128) (json_text (JObj ?p))" by code_simp+
  show "jose_token (pf_sign sample_jose) \<lparr>jc_sub = int_to_string 2, jc_imp = Some (int_to_string 1, int_to_string 1),
     jc_jti = ''j'', jc_iat = pf_now sample_jose, jc_expiresIn = pf_jwt_expires_in sample_jose\<rparr>"
    by (rule jose_sample [OF _ o]) (simp_all add: sample_claims_def d jget_def)
  show "jose_token (pf_sign sample_jose) \<lparr>jc_sub = int_to_string 1, jc_imp = None,
     jc_jti = ''j'', jc_iat = pf_now sample_jose, jc_expiresIn = pf_jwt_expires_in sample_jose\<rparr>"
    by (rule jose_sample [OF _ p]) (simp_all add: sample_claims_def d jget_def)
qed

lemma impersonation_read_back_witness:
  "impersonationFromToken (JStr (issueImpersonationTokens sample_jose ''j'' 1 2 1)) = (True, Some (int_to_string 1))"
  using impersonation_read_back [OF sample_token] by blast

lemma session_settles_witness:
  "AccountLayout (au_state (auth_reply 0 (Failure Other) page_load)) \<noteq> Skeleton"
proof -
  have "0 < length (au_tasks page_load)" by (simp add: page_load_def bootstrap_def)
  from auth_answer.intros [OF this, of "Failure Other"]
  have s: "(auth_answer ^^ 1) page_load (auth_reply 0 (Failure Other) page_load)" by (simp only: relpowp_1)
  have "au_tasks (auth_reply 0 (Failure Other) page_load) = []" by code_simp
  then show ?thesis using session_settles [OF rtranclp.rtrancl_refl s] by blast
qed

definition sample_expired :: platform where
  "sample_expired = sample_platform\<lparr>pf_verify := (\<lambda>_ _. None)\<rparr>"

definition sample_open_route :: route where
  "sample_open_route = sample_route\<lparr>rt_rateLimit := Some \<lparr>rl_user = None, rl_ip = None\<rparr>\<rparr>"

lemma expired_token_not_renewed_witness:
  "fst (serve_route sample_expired [] sample_open_route (sample_call ''tok'') (\<lambda>_. return JNull) sample_sys) = Inl invalid_token"
proof -
  have r: "rate_limit_guard (pf_now sample_expired) [] (rt_rateLimit sample_open_route) (rq_ip (sample_call ''tok'')) None sample_sys =
      (Inr \<lparr>vd_headers = [], vd_refusal = None\<rparr>, sample_sys)"
    by (simp add: rate_limit_guard_def sample_open_route_def limit_checks_def nonempty_def return_def)
  have v: "pf_verify sample_expired (pf_now sample_expired) ''tok'' = None" by (simp add: sample_expired_def)
  have w: "0 < length (wb_calls sample_web)" "wb_calls sample_web ! 0 = InFlight (sample_api_call ''/users/me'')"
    by (simp_all add: sample_web_state)
  have a: "rt_auth sample_open_route" by (simp add: sample_open_route_def sample_route_def)
  from expired_token_not_renewed [OF a extract_sample_call _ v r _ w, of "\<lambda>_. return JNull"] show ?thesis by simp
qed

definition sample_started :: auth_session where
  "sample_started = impersonation_started (JObj [(''accessToken'', JStr (issueImpersonationTokens sample_jose ''j'' 1 2 1))])
     \<lparr>au_state = initialState, au_tasks = []\<rparr>"

lemma failed_start_hides_impersonation_witness:
  "impersonationFromToken (as_accessToken (au_state (auth_reply 0 (Failure Other) sample_started))) = (True, Some (int_to_string 1)) \<and>
   \<not> as_isImpersonating (au_state (auth_reply 0 (Failure Other) sample_started))"
proof -
  have i: "\<not> as_isImpersonating (au_state \<lparr>au_state = initialState, au_tasks = []\<rparr>)" "au_tasks \<lparr>au_state = initialState, au_tasks = []\<rparr> = []"
    by (simp_all add: initialState_def)
  show ?thesis
    using failed_start_hides_impersonation [OF sample_token(1) refl refl i refl, of Other] unfolding sample_started_def by blast
qed

lemma keeps_store_stop: "keeps (\<lambda>s. redis_store s = R) (imp_stop pf i actor)"
proof -
  have d: "keeps (\<lambda>s. redis_store s = R) (dispatch env u ty pl chs)" for env u ty pl chs
  proof (rule keeps_dispatch)
    fix s t :: "'x sys_scheme" assume "redis_store s = R" "same_books s t"
    then show "redis_store t = R" by (cases s; cases t; simp add: same_books_def)
  qed
  then show ?thesis by (auto simp: imp_stop_def intro!: d keeps_intros keeps_update_in split: option.splits)
qed

lemma fresh_window:
  assumes "redis_store s = []"
  shows "\<exists>v. fst (rate_limit_guard now uuids None ip None s) = Inr v \<and> vd_refusal v = None"
proof -
  have "parseSpec ''30/min'' = Some \<lparr>pl_limit = 30, pl_windowMs = 60000\<rparr>" by code_simp
  then show ?thesis
    using assms by (simp add: rate_limit_guard_def limit_checks_def DEFAULT_RATE_LIMIT_PROFILE_def nonempty_def runCheck_def
        sliding_window_def zset_of_def run_simps Let_def)
qed

lemma menu_stop_keeps_impersonating_witness:
  "fst (serve_account_route sample_imp_platform [''u''] sample_account_env ProfileMe JUndefined (sample_call ''tok'')
     (snd (imp_stop sample_platform 1 1 sample_impersonation))) = Inl imp_ended"
proof -
  have wf: "wf_table im_id (impersonations sample_impersonation)" by (simp add: sample_impersonation_def wf_table_def)
  have "wp (imp_stop sample_platform 1 1) (\<lambda>_ _. True) (\<lambda>_ _. False) sample_impersonation"
    by (simp add: imp_stop_def wp_eqs sample_impersonation_def t_get_def t_find_def wp_dispatch)
  then obtain row t where st: "imp_stop sample_platform 1 1 sample_impersonation = (Inr row, t)"
    unfolding wp_def by (cases "imp_stop sample_platform 1 1 sample_impersonation"; cases "fst (imp_stop sample_platform 1 1 sample_impersonation)") auto
  have c: "parseImpClaim (jget sample_imp_payload ''imp'') = Inr \<lparr>ic_actorUserId = 1, ic_impSessionId = 1\<rparr>"
    "ic_impSessionId \<lparr>ic_actorUserId = 1, ic_impSessionId = 1\<rparr> = 1"
    "js_truthy (jget sample_imp_payload ''sub'')" "coerce_bigint (jget sample_imp_payload ''sub'') = Some 2"
    by (simp_all add: sample_imp_payload_def jget_def parseImpClaim_def js_truthy_def coerce_bigint_def)
  have p: "pf_verify sample_imp_platform (pf_now sample_imp_platform) ''tok'' = Some sample_imp_payload" "''tok'' \<noteq> []"
    by (simp_all add: sample_imp_platform_def)
  have "redis_store t = redis_store sample_impersonation"
    using keepsD [OF keeps_store_stop, of sample_impersonation "redis_store sample_impersonation" sample_platform 1 1] st by simp
  then have "redis_store t = []" by (simp add: sample_impersonation_def sample_accounts_def sample_sys_def empty_sys_def)
  then obtain v where v: "fst (rate_limit_guard (pf_now sample_imp_platform) [''u''] None (rq_ip (sample_call ''tok'')) None
      (run_imps sample_platform [] t)) = Inr v" "vd_refusal v = None"
    using fresh_window by fastforce
  let ?w = "\<lparr>au_state = initialState\<lparr>as_accessToken := JStr ''tok''\<rparr>, au_tasks = []\<rparr>"
  have w: "au_tasks ?w = []" "as_accessToken (au_state ?w) = JStr ''tok''" by simp_all
  have o: "impersonationFromToken JNull = (False, None)" by (simp add: impersonationFromToken_def decodeJwtPayload_def)
  have u: "property (JObj [(''status'', JStr ''ACTIVE'')]) ''status'' = Some (JStr ''ACTIVE'')"
    by (simp add: property_def member_def jget_def)
  from menu_stop_keeps_impersonating [OF wf st extract_sample_call p(2) p(1) c(3,4,1,2) v w o u, of sample_account_env JUndefined Other]
  show ?thesis using st by simp
qed

end
