(* ===== verification/WebForms.thy ===== *)
theory WebForms
  imports WebAuth FileSafety
begin

text \<open>
  The forms that sign a user in: app/(auth)/login/page.tsx, app/(auth)/login/verify/page.tsx and
  app/(account)/onboarding/profile/page.tsx with lib/schemas/profile.schema.ts.  What a handler
  sends is JSON, what it shows or where it goes a value of an outcome; the fixed Persian texts are
  constructors.  Typed text is a list of code points.

  The lemmas show that what the forms let through the server accepts, that a code is submitted
  once, and that the refusals of the server reach the field or the countdown they are meant for.
\<close>

section \<open>login/page.tsx\<close>

datatype validation_state = EmptyPhone | InvalidPhone | ValidPhone

definition getValidationState :: "string \<Rightarrow> validation_state" where
  "getValidationState value = (if value = [] then EmptyPhone else if isValidIranianPhone value then ValidPhone else InvalidPhone)"

record login_form =
  lf_phone :: "nat list"
  lf_loading :: bool

definition typed_text :: "nat list \<Rightarrow> string" where
  "typed_text cs = map char_of (concat (map utf8_char cs))"

definition login_change :: "nat list \<Rightarrow> login_form \<Rightarrow> login_form" where
  "login_change value f = f\<lparr>lf_phone := toLatinDigits value\<rparr>"

definition submit_enabled :: "login_form \<Rightarrow> bool" where
  "submit_enabled f \<longleftrightarrow> getValidationState (typed_text (toLatinDigits (lf_phone f))) = ValidPhone \<and> \<not> lf_loading f"

text \<open>The body of the request, or None when the handler returns early.\<close>

definition handleSubmit :: "login_form \<Rightarrow> (string \<times> json) option" where
  "handleSubmit f = map_option (\<lambda>normalized. (normalized, JObj [(''phone'', JStr normalized)]))
     (normalizeIranianPhone (typed_text (toLatinDigits (lf_phone f))))"

datatype login_outcome =
    GoTo string
  | RetryCountdown int
  | TooManyRequests
  | ShowMessage string
  | ShowFailed

definition retryAfterSeconds :: "api_error \<Rightarrow> int" where
  "retryAfterSeconds err = (case member (er_details err) ''retryAfterSeconds'' of JNum n \<Rightarrow> n | _ \<Rightarrow> 60)"

text \<open>err.message || the fixed text\<close>

definition message_or :: "(string \<Rightarrow> 'o) \<Rightarrow> 'o \<Rightarrow> api_error \<Rightarrow> 'o" where
  "message_or shown failed err = (case er_message err of JStr m \<Rightarrow> if m = [] then failed else shown m | _ \<Rightarrow> failed)"

definition VERIFY_PATH :: string where
  "VERIFY_PATH = ''/login/verify?phone=''"

definition submit_reply :: "string \<Rightarrow> call_result \<Rightarrow> login_outcome" where
  "submit_reply normalized r = (case r of
       Success _ \<Rightarrow> GoTo (VERIFY_PATH @ encodeURIComponent normalized)
     | Failure (Api err) \<Rightarrow>
         if er_code err = JStr ''OTP_RATE_LIMITED'' then RetryCountdown (retryAfterSeconds err)
         else if er_status err = 429 then TooManyRequests
         else message_or ShowMessage ShowFailed err
     | Failure Other \<Rightarrow> ShowFailed)"

text \<open>A tick of startCountdownToast: the seconds the toast shows next, or None when it goes.\<close>

definition countdown_tick :: "int \<Rightarrow> int option" where
  "countdown_tick remaining = (if remaining - 1 \<le> 0 then None else Some (remaining - 1))"

definition DEV_PHONE :: string where
  "DEV_PHONE = ''09123456789''"

definition dev_reply :: "call_result \<Rightarrow> login_outcome" where
  "dev_reply r = (let there = GoTo (VERIFY_PATH @ encodeURIComponent (the (normalizeIranianPhone DEV_PHONE)) @ ''&dev=1'') in
     case r of
       Success _ \<Rightarrow> there
     | Failure (Api err) \<Rightarrow> if er_code err = JStr ''OTP_RATE_LIMITED'' then there else ShowFailed
     | Failure Other \<Rightarrow> ShowFailed)"

section \<open>login/verify/page.tsx\<close>

definition CODE_TTL :: nat where
  "CODE_TTL = 120"

datatype code_message = CodeWrong | CodeExpired | TooManyTries | WaitSeconds int | OtherMessage string | DefaultMessage

definition persianMessageForOtpError :: "api_error \<Rightarrow> code_message" where
  "persianMessageForOtpError err =
     (if er_code err = JStr ''OTP_INVALID'' then CodeWrong
      else if er_code err = JStr ''OTP_EXPIRED'' then CodeExpired
      else if er_code err = JStr ''OTP_TOO_MANY_ATTEMPTS'' then TooManyTries
      else if er_code err = JStr ''OTP_RATE_LIMITED'' then WaitSeconds (retryAfterSeconds err)
      else message_or OtherMessage DefaultMessage err)"

text \<open>The form with its requests under way, the sign-in store beside it, and where it sent the
  router.  It is unmounted when the browser leaves it: by its link to the login page, or after the
  router has moved on.  The setters of an unmounted component do nothing; its requests go on.\<close>

record verify_page =
  vp_mounted :: bool
  vp_code :: string
  vp_countdown :: nat
  vp_isSubmitting :: bool
  vp_isResending :: bool
  vp_submitted :: bool
  vp_verifying :: nat
  vp_resending :: nat
  vp_gone :: "string option"
  vp_auth :: auth_session

definition verify_open :: "auth_session \<Rightarrow> verify_page" where
  "verify_open a = \<lparr>vp_mounted = True, vp_code = [], vp_countdown = CODE_TTL, vp_isSubmitting = False, vp_isResending = False, vp_submitted = False,
     vp_verifying = 0, vp_resending = 0, vp_gone = None, vp_auth = a\<rparr>"

definition verify_leave :: "verify_page \<Rightarrow> verify_page" where
  "verify_leave p = p\<lparr>vp_mounted := False\<rparr>"

definition set_page :: "(verify_page \<Rightarrow> verify_page) \<Rightarrow> verify_page \<Rightarrow> verify_page" where
  "set_page f p = (if vp_mounted p then f p else p)"

definition verify_tick :: "verify_page \<Rightarrow> verify_page" where
  "verify_tick p = p\<lparr>vp_countdown := vp_countdown p - 1\<rparr>"

definition verify_change :: "nat list \<Rightarrow> verify_page \<Rightarrow> verify_page" where
  "verify_change next p = p\<lparr>vp_code := typed_text (toLatinDigits next)\<rparr>"

definition verify_body :: "string \<Rightarrow> string \<Rightarrow> json" where
  "verify_body phone code = JObj [(''phone'', JStr phone), (''code'', JStr code)]"

definition handleVerify :: "verify_page \<Rightarrow> verify_page" where
  "handleVerify p = (if vp_submitted p then p
     else p\<lparr>vp_submitted := True, vp_isSubmitting := True, vp_verifying := vp_verifying p + 1\<rparr>)"

text \<open>The catch block; submittedRef is no state of the component.\<close>

definition verify_failed :: "verify_page \<Rightarrow> verify_page" where
  "verify_failed p = set_page (\<lambda>p. p\<lparr>vp_code := [], vp_isSubmitting := False\<rparr>) (p\<lparr>vp_submitted := False\<rparr>)"

text \<open>profileComplete ?? user.status === ACTIVE, for truth\<close>

definition goes_on :: "json \<Rightarrow> json \<Rightarrow> bool" where
  "goes_on profileComplete status = (if profileComplete = JUndefined \<or> profileComplete = JNull then status = ACTIVE_STATUS
     else js_truthy profileComplete)"

definition verify_reply :: "call_result \<Rightarrow> verify_page \<Rightarrow> verify_page" where
  "verify_reply r p = (let p1 = p\<lparr>vp_verifying := vp_verifying p - 1\<rparr> in
     case Option.bind (reply_data r) (\<lambda>d. map_option (\<lambda>token. (d, token)) (property d ''accessToken'')) of
       None \<Rightarrow> verify_failed p1
     | Some (d, token) \<Rightarrow> (case property (member d ''user'') ''status'' of
           None \<Rightarrow> verify_failed p1
         | Some status \<Rightarrow> p1\<lparr>vp_auth := setAuth token (member d ''user'') (vp_auth p),
             vp_gone := Some (if goes_on (member d ''profileComplete'') status then ''/dashboard'' else ''/onboarding/profile'')\<rparr>))"

text \<open>The button is there when the countdown has run out and nothing is submitted or resent.\<close>

definition resend_offered :: "verify_page \<Rightarrow> bool" where
  "resend_offered p \<longleftrightarrow> \<not> vp_isSubmitting p \<and> vp_countdown p = 0 \<and> \<not> vp_isResending p"

definition handleResend :: "verify_page \<Rightarrow> verify_page" where
  "handleResend p = p\<lparr>vp_isResending := True, vp_resending := vp_resending p + 1\<rparr>"

definition resend_reply :: "call_result \<Rightarrow> verify_page \<Rightarrow> verify_page" where
  "resend_reply r p = (let p1 = p\<lparr>vp_resending := vp_resending p - 1\<rparr> in set_page (\<lambda>p. case r of
       Success _ \<Rightarrow> p\<lparr>vp_code := [], vp_countdown := CODE_TTL, vp_isResending := False\<rparr>
     | Failure f \<Rightarrow> p\<lparr>vp_isResending := False\<rparr>) p1)"

inductive verify_step :: "verify_page \<Rightarrow> verify_page \<Rightarrow> bool" where
  verify_tick: "vp_mounted p \<Longrightarrow> verify_step p (verify_tick p)"
| verify_change: "vp_mounted p \<Longrightarrow> verify_step p (verify_change next p)"
| verify_complete: "vp_mounted p \<Longrightarrow> verify_step p (handleVerify p)"
| verify_reply: "0 < vp_verifying p \<Longrightarrow> verify_step p (verify_reply r p)"
| verify_resend: "vp_mounted p \<Longrightarrow> resend_offered p \<Longrightarrow> verify_step p (handleResend p)"
| verify_resend_reply: "0 < vp_resending p \<Longrightarrow> verify_step p (resend_reply r p)"
| verify_leave: "vp_mounted p \<Longrightarrow> verify_step p (verify_leave p)"

text \<open>The page around the form: the phone of the address bar, and where it leads.  URLSearchParams
  reads a plus as a blank.\<close>

definition phone_param :: "string \<Rightarrow> string" where
  "phone_param url = percent_decode (map (\<lambda>c. if c = CHR ''+'' then CHR '' '' else c) (takeWhile (\<lambda>c. c \<noteq> CHR ''&'') (drop (length VERIFY_PATH) url)))"

definition verify_admits :: "string \<Rightarrow> bool" where
  "verify_admits phone \<longleftrightarrow> phone \<noteq> [] \<and> isValidIranianPhone phone"

section \<open>onboarding/profile/page.tsx\<close>

definition form_name :: "nat \<Rightarrow> string \<Rightarrow> bool" where
  "form_name maxLength v \<longleftrightarrow> 2 \<le> utf16_length v \<and> utf16_length v \<le> maxLength \<and> persian_text (map of_char v)"

definition profileSchema :: "(string \<Rightarrow> bool) \<Rightarrow> complete_profile_dto \<Rightarrow> bool" where
  "profileSchema is_email v \<longleftrightarrow> form_name 80 (cp_firstName v) \<and> form_name 120 (cp_lastName v) \<and>
     utf16_length (cp_nationalId v) = 10 \<and> isValidIranianNationalId (cp_nationalId v) \<and>
     is_email (cp_email v) \<and> utf16_length (cp_email v) \<le> 255"

definition profile_body :: "complete_profile_dto \<Rightarrow> json" where
  "profile_body v = JObj [(''firstName'', JStr (cp_firstName v)), (''lastName'', JStr (cp_lastName v)),
     (''nationalId'', JStr (cp_nationalId v)), (''email'', JStr (cp_email v))]"

definition FORM_FIELDS :: "json list" where
  "FORM_FIELDS = map JStr [''nationalId'', ''email'', ''firstName'', ''lastName'']"

definition fieldFromConflictTarget :: "json \<Rightarrow> json option" where
  "fieldFromConflictTarget target = (if \<not> js_truthy target then None
     else List.find (\<lambda>t. t \<in> set FORM_FIELDS) (case target of JArr ts \<Rightarrow> ts | v \<Rightarrow> [v]))"

datatype profile_outcome =
    FieldTaken json
  | FieldRefused "(json \<times> json) list"
  | AlreadyRegistered
  | InvalidValues string
  | InvalidValuesDefault
  | SaveFailed
  | SaveMessage string

definition issue_field :: "json \<Rightarrow> json" where
  "issue_field f = (case member f ''path'' of JArr (n # _) \<Rightarrow> n | _ \<Rightarrow> JUndefined)"

definition onSubmit_failed :: "failure \<Rightarrow> profile_outcome" where
  "onSubmit_failed f = (case f of
       Other \<Rightarrow> SaveFailed
     | Api err \<Rightarrow>
         if er_code err = JStr ''CONFLICT'' then
           (case fieldFromConflictTarget (member (er_details err) ''target'') of Some field \<Rightarrow> FieldTaken field | None \<Rightarrow> AlreadyRegistered)
         else if er_code err = JStr ''VALIDATION_ERROR'' then
           (let fields = (case member (er_details err) ''fields'' of JArr fs \<Rightarrow> fs | _ \<Rightarrow> []);
                mapped = filter (\<lambda>x. issue_field x \<in> set FORM_FIELDS) fields
            in if mapped = [] then message_or InvalidValues InvalidValuesDefault err
               else FieldRefused (map (\<lambda>x. (issue_field x, member x ''message'')) mapped))
         else message_or SaveMessage SaveFailed err)"

text \<open>After the profile is saved: how refreshUser ends decides.\<close>

definition onSubmit_saved :: "call_result \<Rightarrow> profile_outcome + string" where
  "onSubmit_saved refresh = (case refresh of
       Failure f \<Rightarrow> Inl (onSubmit_failed f)
     | Success v \<Rightarrow> (case Option.bind (reply_data refresh) (\<lambda>user. property user ''status'') of
           None \<Rightarrow> Inl SaveFailed | Some _ \<Rightarrow> Inr ''/dashboard''))"

section \<open>What the forms let through\<close>

lemma encoded_chars: "c \<in> set (encodeURIComponent s) \<Longrightarrow> c \<noteq> CHR ''+'' \<and> c \<noteq> CHR ''&''"
proof -
  have "\<forall>d\<in>set [0..<16]. upper_hex d \<noteq> CHR ''+'' \<and> upper_hex d \<noteq> CHR ''&''" by code_simp
  then have hex: "upper_hex d \<noteq> CHR ''+'' \<and> upper_hex d \<noteq> CHR ''&''" if "d < 16" for d using that by simp
  have "\<not> unreserved (CHR ''+'')" "\<not> unreserved (CHR ''&'')" by (simp_all add: unreserved_def is_digit_def lower_char_def)
  moreover have "of_char d div 16 < (16 :: nat)" "of_char d mod 16 < (16 :: nat)" for d :: char
    using nat_of_char_less_256 [of d] by (auto intro: less_mult_imp_div_less)
  moreover assume "c \<in> set (encodeURIComponent s)"
  ultimately show ?thesis using hex by (auto simp: encodeURIComponent_def split: if_splits)
qed

lemma phone_param_encode: "phone_param (VERIFY_PATH @ encodeURIComponent n) = n"
proof -
  have "takeWhile (\<lambda>c. c \<noteq> CHR ''&'') (encodeURIComponent n) = encodeURIComponent n"
    using encoded_chars by (intro takeWhile_eq_all_conv [THEN iffD2]) blast
  moreover have "map (\<lambda>c. if c = CHR ''+'' then CHR '' '' else c) (encodeURIComponent n) = encodeURIComponent n"
    using encoded_chars by (intro map_idI) auto
  moreover have "drop (length VERIFY_PATH) (VERIFY_PATH @ encodeURIComponent n) = encodeURIComponent n" by simp
  ultimately show ?thesis unfolding phone_param_def by (simp only: percent_decode_encode)
qed

text \<open>C37. A number that the login form lets through, in whatever spelling and digits it was typed, is
  accepted by the schema of the API as the same normal form, survives the URL of the second page
  unchanged, opens that page, and goes with any six digits through the schema that verifies the
  code.\<close>

theorem typed_phone_accepted:
  assumes "handleSubmit f = Some (n, body)" "length code = 6" "all_digits code"
  shows "OtpRequestSchema body = Some n \<and> phone_param (VERIFY_PATH @ encodeURIComponent n) = n \<and> verify_admits n \<and>
    OtpVerifySchema (verify_body n code) = Some (n, code)"
proof -
  have n: "normalizeIranianPhone (typed_text (toLatinDigits (lf_phone f))) = Some n" "body = JObj [(''phone'', JStr n)]"
    using assms(1) by (auto simp: handleSubmit_def)
  obtain l where l: "n = ''+98'' @ l" "ten_digits l" "normalizeIranianPhone n = Some n" using phone_normal_form [OF n(1)] by blast
  then have "otp_phone n" by (simp add: otp_phone_def ten_digits_def)
  then show ?thesis
    using l assms(2,3) n(2) phone_param_encode [of n]
    by (auto simp: OtpRequestSchema_def OtpVerifySchema_def verify_body_def verify_admits_def isValidIranianPhone_def jget_def)
qed

lemma profile_body_accepted:
  assumes "profileSchema (pf_is_email pf) v"
  shows "CompleteProfileSchema pf (profile_body v) = Some v"
proof -
  have "persian_name 80 (cp_firstName v)" "persian_name 120 (cp_lastName v)"
    using assms by (auto simp: profileSchema_def form_name_def persian_name_def utf16_length_def)
  then show ?thesis
    using assms by (simp add: profileSchema_def CompleteProfileSchema_def profile_body_def strict_keys_def jget_def)
qed

section \<open>A code is submitted once\<close>

definition verify_ok :: "verify_page \<Rightarrow> bool" where
  "verify_ok p \<longleftrightarrow> vp_verifying p \<le> 1 \<and> (vp_submitted p \<longleftrightarrow> vp_verifying p = 1 \<or> vp_gone p \<noteq> None) \<and>
     (vp_gone p \<noteq> None \<longrightarrow> vp_verifying p = 0 \<and> as_isAuthenticated (au_state (vp_auth p))) \<and>
     (vp_mounted p \<longrightarrow> (vp_isSubmitting p \<longleftrightarrow> vp_submitted p) \<and> vp_resending p = (if vp_isResending p then 1 else 0)) \<and>
     vp_resending p \<le> 1 \<and> vp_countdown p \<le> CODE_TTL"

lemma setAuth_authenticates: "property user ''status'' = Some st \<Longrightarrow> as_isAuthenticated (au_state (setAuth token user a))"
  by (simp add: setAuth_def signed_in_def Let_def case_prod_beta split: option.split)

lemmas verify_defs = verify_tick_def verify_change_def handleVerify_def verify_failed_def handleResend_def resend_reply_def
  resend_offered_def verify_leave_def set_page_def Let_def

lemma verify_step_ok: "verify_step p q \<Longrightarrow> verify_ok p \<Longrightarrow> verify_ok q"
proof (induction rule: verify_step.induct)
  case (verify_reply p r)
  then show ?case
    by (auto simp: verify_ok_def verify_reply_def verify_defs setAuth_authenticates split: option.splits)
qed (auto simp: verify_ok_def verify_defs split: call_result.splits)

lemma verify_gone_step: "verify_step p q \<Longrightarrow> vp_verifying p = 0 \<Longrightarrow> vp_gone p \<noteq> None \<Longrightarrow> verify_ok p \<Longrightarrow>
    vp_gone q = vp_gone p \<and> vp_auth q = vp_auth p"
  by (induction rule: verify_step.induct) (auto simp: verify_defs split: call_result.split)

definition only_replies :: "verify_page \<Rightarrow> verify_page \<Rightarrow> bool" where
  "only_replies p q \<longleftrightarrow> \<not> vp_mounted q \<and> vp_code q = vp_code p \<and> vp_countdown q = vp_countdown p \<and>
     vp_verifying q + vp_resending q \<le> vp_verifying p + vp_resending p"

lemma verify_left_step: "verify_step u v \<Longrightarrow> only_replies p u \<Longrightarrow> only_replies p v"
  by (induction rule: verify_step.induct)
     (auto simp: only_replies_def verify_reply_def verify_defs split: option.split call_result.split)

text \<open>C38. Whatever is typed, clicked, ticked or answered on the page of the code, in any order, at most
  one verification and one resend are under way, and the page counts its code as submitted exactly
  while the verification lasts or after it succeeded, so that no code is sent a second time before
  its refusal.  Once a verification has succeeded, none is sent again, and the page changes neither
  the destination nor the account any more; a resend that is still under way can only reset the code
  and the countdown of the page.  Once the page has been left, nothing is sent, the replies that are
  still due change neither code nor countdown, and leaving does not cancel a verification under way:
  its reply signs in and moves the router as if the page were still shown.\<close>

theorem code_submitted_once:
  assumes "verify_step\<^sup>*\<^sup>* (verify_open a) p" "verify_step\<^sup>*\<^sup>* p q"
  shows "verify_ok p \<and>
    (vp_gone p \<noteq> None \<longrightarrow> vp_verifying q = 0 \<and> vp_gone q = vp_gone p \<and> vp_auth q = vp_auth p) \<and>
    (\<not> vp_mounted p \<longrightarrow> \<not> vp_mounted q \<and> vp_code q = vp_code p \<and> vp_countdown q = vp_countdown p \<and>
       vp_verifying q + vp_resending q \<le> vp_verifying p + vp_resending p) \<and>
    vp_auth (verify_reply r (verify_leave p)) = vp_auth (verify_reply r p) \<and>
    vp_gone (verify_reply r (verify_leave p)) = vp_gone (verify_reply r p)"
proof -
  have ok: "verify_ok u" if "verify_step\<^sup>*\<^sup>* (verify_open a) u" for u
    using that by (induction rule: rtranclp_induct) (simp add: verify_ok_def verify_open_def CODE_TTL_def, rule verify_step_ok)
  have keep: "vp_gone u = vp_gone p \<and> vp_auth u = vp_auth p" if "verify_step\<^sup>*\<^sup>* p u" "vp_gone p \<noteq> None" for u
    using that
  proof (induction rule: rtranclp_induct)
    case (step u v)
    have u: "verify_ok u" using ok [OF rtranclp_trans [OF assms(1) step(1)]] .
    then have "vp_verifying u = 0" "vp_gone u \<noteq> None" using step by (auto simp: verify_ok_def)
    then show ?case using verify_gone_step [OF step(2) _ _ u] step(3,4) by simp
  qed simp
  have left: "only_replies p u" if "verify_step\<^sup>*\<^sup>* p u" "\<not> vp_mounted p" for u
    using that by (induction rule: rtranclp_induct) (simp add: only_replies_def, rule verify_left_step)
  have "verify_ok q" by (rule ok [OF rtranclp_trans [OF assms]])
  then have "vp_gone q \<noteq> None \<Longrightarrow> vp_verifying q = 0" by (simp add: verify_ok_def)
  moreover have "vp_auth (verify_reply r (verify_leave p)) = vp_auth (verify_reply r p) \<and>
      vp_gone (verify_reply r (verify_leave p)) = vp_gone (verify_reply r p)"
    by (simp add: verify_reply_def verify_defs split: option.split)
  ultimately show ?thesis using ok [OF assms(1)] keep [OF assms(2)] left [OF assms(2)] by (auto simp: only_replies_def)
qed

section \<open>Refusals of the server\<close>

lemma coded_details_on_wire:
  assumes "reread d = d" "d \<noteq> JUndefined"
  shows "reply_error (server_reply sj fb production (Inl (http_exn_details c st msg d))) =
     \<lparr>er_status = st, er_code = JStr (code_string c), er_message = JStr msg, er_details = d, er_requestId = JUndefined\<rparr>"
  using assms
  by (simp add: reply_error_def ApiError_def server_reply_def catchException_def mapException_def mapHttpException_def
      unpackHttpResponse_def http_exn_details_def errorBody_def Let_def json_parse_reread peekErrorPayload_def member_def
      present_def jget_def key_before_def index_key_def is_digit_def)

lemma unique_clash_on_wire:
  "reply_error (server_reply sj fb production (Inl (PrismaKnown ''P2002'' (JArr [JStr field])))) =
     \<lparr>er_status = 409, er_code = JStr ''CONFLICT'', er_message = JStr ''A record with this unique value already exists'',
      er_details = JObj [(''target'', JArr [JStr field])], er_requestId = JUndefined\<rparr>"
  by (simp add: reply_error_def ApiError_def server_reply_def catchException_def mapException_def mapPrismaError_def
      errorBody_def Let_def json_parse_reread peekErrorPayload_def member_def present_def jget_def key_before_def index_key_def
      is_digit_def)

text \<open>While a code for the typed number is locked, the API refuses another one with the seconds
  left, rounded to the nearest, changes nothing, and the login form starts its countdown from that
  number.\<close>

theorem otp_cooldown_shown:
  assumes "handleSubmit f = Some (n, body)" "r_lookup (pf_now pf) (lockKey n) (redis_store s) = Some (v, Some e)"
    and "ttl = (e - pf_now pf + 500) div 1000"
  shows "requestOtp pf random body s = (Inl (otp_rate_limited ttl), s) \<and>
    submit_reply n (Failure (Api (reply_error (server_reply sj fb production (Inl (otp_rate_limited ttl)))))) = RetryCountdown (max ttl 0)"
proof -
  have n: "normalizeIranianPhone (typed_text (toLatinDigits (lf_phone f))) = Some n" "body = JObj [(''phone'', JStr n)]"
    using assms(1) by (auto simp: handleSubmit_def)
  obtain l where "n = ''+98'' @ l" "ten_digits l" using phone_normal_form [OF n(1)] by blast
  then have "OtpRequestSchema body = Some n" by (simp add: n(2) OtpRequestSchema_def jget_def otp_phone_def ten_digits_def)
  then have "requestOtp pf random body s = (Inl (otp_rate_limited ttl), s)"
    using assms(2,3) by (simp add: requestOtp_def zod_parse_def generateAndStore_def redis_set_nx_def redis_ttl_def run_simps)
  moreover have "submit_reply n (Failure (Api (reply_error (server_reply sj fb production (Inl (otp_rate_limited ttl)))))) =
      RetryCountdown (max ttl 0)"
    unfolding otp_rate_limited_def
    by (subst coded_details_on_wire) (simp_all add: submit_reply_def retryAfterSeconds_def member_def jget_def)
  ultimately show ?thesis by blast
qed

text \<open>When the national ID or the e-mail of an accepted profile form belongs to another user, the
  API writes nothing, and the refusal it sends marks exactly the field in conflict.\<close>

theorem conflict_reaches_field:
  assumes "rq_user req = Some me" "rq_body req = profile_body v" "profileSchema (pf_is_email pf) v" "find_user me s = Some u"
    and "new = (completed (pf_now pf) v u)\<lparr>u_updatedAt := pf_now pf\<rparr>" "user_fits new"
    and "unique_clash (users s) new = Some field" "field \<noteq> ''phone''"
  shows "\<exists>e. account_handler pf env ProfileComplete query req s = (Inl e, s) \<and> field \<in> {''nationalId'', ''email''} \<and>
    onSubmit_failed (Api (reply_error (server_reply sj fb production (Inl e)))) = FieldTaken (JStr field)"
proof -
  let ?e = "PrismaKnown ''P2002'' (JArr [JStr field])"
  have "CompleteProfileSchema pf (rq_body req) = Some v" using profile_body_accepted [OF assms(3)] assms(2) by simp
  then have "account_handler pf env ProfileComplete query req s = (Inl ?e, s)"
    using assms(1,4-7) by (simp add: account_handler_def with_user_def post_completeProfile_def zod_parse_def completeProfile_def
        user_write_def check_user_def run_simps Let_def)
  moreover have f: "field \<in> {''nationalId'', ''email''}"
    using assms(7,8) by (auto simp: unique_clash_def split: if_splits)
  moreover have "onSubmit_failed (Api (reply_error (server_reply sj fb production (Inl ?e)))) = FieldTaken (JStr field)"
    unfolding unique_clash_on_wire using f
    by (auto simp: onSubmit_failed_def fieldFromConflictTarget_def member_def jget_def js_truthy_def FORM_FIELDS_def)
  ultimately show ?thesis by blast
qed

section \<open>Witnesses\<close>

definition sample_login :: login_form where
  "sample_login = \<lparr>lf_phone = [1776, 1785, 1777, 1778, 1779, 1780, 1781, 1782, 1783, 1784, 1785], lf_loading = False\<rparr>"

lemma sample_submit: "handleSubmit sample_login = Some (''+989123456789'', JObj [(''phone'', JStr ''+989123456789'')])"
  by code_simp

lemma typed_phone_accepted_witness:
  "OtpRequestSchema (JObj [(''phone'', JStr ''+989123456789'')]) = Some ''+989123456789'' \<and> verify_admits ''+989123456789''"
proof -
  have c: "length ''123456'' = 6" "all_digits ''123456''" by (simp_all add: all_digits_def is_digit_def)
  from typed_phone_accepted [OF sample_submit c] show ?thesis by blast
qed

definition sample_verified :: verify_page where
  "sample_verified = verify_reply (Success (JObj [(''data'', JObj [(''accessToken'', JStr ''t''), (''user'', JObj [(''status'', JStr ''ACTIVE'')])])]))
     (handleVerify (verify_open \<lparr>au_state = initialState, au_tasks = []\<rparr>))"

lemma code_submitted_once_witness:
  "vp_gone sample_verified = Some ''/dashboard'' \<and> vp_verifying (handleVerify sample_verified) = 0 \<and>
   vp_gone (verify_reply (Success JNull) (verify_leave sample_verified)) = vp_gone (verify_reply (Success JNull) sample_verified)"
proof -
  let ?o = "verify_open \<lparr>au_state = initialState, au_tasks = []\<rparr>"
  have "verify_step ?o (handleVerify ?o)" by (rule verify_complete) (simp add: verify_open_def)
  moreover have "0 < vp_verifying (handleVerify ?o)" by (simp add: handleVerify_def verify_open_def)
  then have "verify_step (handleVerify ?o) sample_verified" unfolding sample_verified_def by (rule verify_step.verify_reply)
  ultimately have a: "verify_step\<^sup>*\<^sup>* ?o sample_verified" by auto
  have "vp_mounted sample_verified" by code_simp
  then have b: "verify_step\<^sup>*\<^sup>* sample_verified (handleVerify sample_verified)" using verify_complete [of sample_verified] by auto
  have "vp_gone sample_verified = Some ''/dashboard''" by code_simp
  then show ?thesis using code_submitted_once [OF a b, of "Success JNull"] by simp
qed

definition sample_locked :: sys where
  "sample_locked = sample_sys\<lparr>redis_store := [(lockKey ''+989123456789'', RStr ''1'', Some (pf_now sample_platform + 30000))]\<rparr>"

lemma otp_cooldown_shown_witness:
  "submit_reply ''+989123456789'' (Failure (Api (reply_error (server_reply (\<lambda>_. []) [] True (Inl (otp_rate_limited 30)))))) = RetryCountdown 30"
proof -
  have l: "r_lookup (pf_now sample_platform) (lockKey ''+989123456789'') (redis_store sample_locked) =
      Some (RStr ''1'', Some (pf_now sample_platform + 30000))"
    by (simp add: sample_locked_def r_alive_def)
  have t: "30 = (pf_now sample_platform + 30000 - pf_now sample_platform + 500) div 1000" by simp
  from otp_cooldown_shown [OF sample_submit l t, of 0 "\<lambda>_. []" "[]" True] show ?thesis by simp
qed

definition sample_profile :: complete_profile_dto where
  "sample_profile = sample_profile_dto\<lparr>cp_firstName := utf8 [216, 185, 216, 185], cp_lastName := utf8 [216, 185, 216, 185]\<rparr>"

definition sample_taken :: sys where
  "sample_taken = sample_accounts\<lparr>users := t_change u_id 1 (\<lambda>u. u\<lparr>u_nationalId := Some ''0013542419''\<rparr>) (users sample_accounts)\<rparr>"

lemma conflict_reaches_field_witness:
  "\<exists>e. fst (account_handler sample_platform sample_account_env ProfileComplete JUndefined
     ((sample_call ''2'')\<lparr>rq_user := Some 2, rq_body := profile_body sample_profile\<rparr>) sample_taken) = Inl e"
proof -
  let ?r = "(sample_call ''2'')\<lparr>rq_user := Some 2, rq_body := profile_body sample_profile\<rparr>"
  let ?u = "(sample_user 2)\<lparr>u_status := DELETED, u_deletedAt := Some 7\<rparr>"
  let ?n = "(completed (pf_now sample_platform) sample_profile ?u)\<lparr>u_updatedAt := pf_now sample_platform\<rparr>"
  have r: "rq_user ?r = Some 2" "rq_body ?r = profile_body sample_profile" by simp_all
  have p: "profileSchema (pf_is_email sample_platform) sample_profile" by code_simp
  have f: "find_user 2 sample_taken = Some ?u" by code_simp
  have n: "user_fits ?n" by code_simp
  have c: "unique_clash (users sample_taken) ?n = Some ''nationalId''" by code_simp
  have "''nationalId'' \<noteq> ''phone''" by simp
  from conflict_reaches_field [OF r p f refl n c this, of sample_account_env JUndefined "\<lambda>_. []" "[]" True] show ?thesis by (metis fst_conv)
qed

end
