(* ===== verification/Environment.thy ===== *)
theory Environment
  imports WebAuth Gateway
begin

text \<open>
  What surrounds the handlers: config/config.schema.ts and config.service.ts, the CORS policy and
  the request identifier of common/middleware, core/health/health.controller.ts,
  core/files/upload.interceptor.ts, and the way of a request of the client to the API through the
  proxy of infra/caddy/Caddyfile.  The URL parser, multer and the answers of the probes are
  arguments.

  The lemmas show what an accepted environment guarantees and what it does not, that the browser
  blocks the calls that carry the confirmation header, where the requests of the production
  client arrive, and what the middleware, the probe and the interceptor let through.
\<close>

section \<open>config.schema.ts\<close>

record env_config =
  ev_NODE_ENV :: string
  ev_PORT_API :: int
  ev_PORT_WEB :: int
  ev_DATABASE_URL :: string
  ev_REDIS_URL :: string
  ev_MEILI_URL :: string
  ev_MEILI_MASTER_KEY :: string
  ev_JWT_SECRET :: string
  ev_JWT_REFRESH_SECRET :: string
  ev_JWT_EXPIRES_IN :: string
  ev_JWT_REFRESH_EXPIRES_IN :: string
  ev_OTP_SALT :: string
  ev_SUPER_ADMIN_PHONE :: string
  ev_EMAIL_PROVIDER :: string
  ev_SMS_PROVIDER :: string
  ev_KAVENEGAR_API_KEY :: "string option"
  ev_KAVENEGAR_SENDER_LINE :: "string option"
  ev_PAYMENT_PROVIDER :: string
  ev_ZARINPAL_MERCHANT_ID :: "string option"
  ev_ZARINPAL_SANDBOX :: bool
  ev_ZARINPAL_CALLBACK_URL :: "string option"
  ev_FILE_STORAGE_ROOT :: string
  ev_MAX_UPLOAD_SIZE_MB :: int
  ev_CORS_ALLOWED_ORIGINS :: string

definition znames :: "string list \<Rightarrow> json \<Rightarrow> string zod" where
  "znames names = zenum (map (\<lambda>n. (n, n)) names)"

definition zat_least :: "nat \<Rightarrow> json \<Rightarrow> string zod" where
  "zat_least lo v = zrefine (\<lambda>t. lo \<le> utf16_length t) (zstring v)"

text \<open>z.coerce.boolean(): Boolean(v)\<close>

definition zboolean :: "json \<Rightarrow> bool zod" where
  "zboolean v = valid (js_truthy v)"

definition SUPER_ADMIN_RE :: "string \<Rightarrow> bool" where
  "SUPER_ADMIN_RE s \<longleftrightarrow> Persian.has_prefix ''+989'' s \<and> length s = 13 \<and> all_digits (drop 4 s)"

text \<open>z.coerce.number().int().positive()\<close>

definition zpositive :: "json \<Rightarrow> int zod" where
  "zpositive v = (case coerce_number v of
       Some q \<Rightarrow> if of_int \<lfloor>q\<rfloor> = q \<and> 0 < \<lfloor>q\<rfloor> then valid \<lfloor>q\<rfloor> else invalid
     | None \<Rightarrow> invalid)"

definition env_members :: "(string \<Rightarrow> bool) \<Rightarrow> (string \<times> json) list \<Rightarrow>
    (string \<times> int \<times> int \<times> string \<times> string \<times> string \<times> string \<times> string \<times> string \<times> string \<times> string \<times> string \<times> string \<times> string \<times> string \<times>
     string option \<times> string option \<times> string \<times> string option \<times> bool \<times> string option \<times> string \<times> int \<times> string) zod" where
  "env_members is_url e =
     (zboth (zdefault ''development'' (znames [''development'', ''production'', ''test'']) (jget e ''NODE_ENV''))
     (zboth (zdefault 3001 (znumber 1 65535) (jget e ''PORT_API''))
     (zboth (zdefault 3000 (znumber 1 65535) (jget e ''PORT_WEB''))
     (zboth (zrefine (\<lambda>s. Persian.has_prefix ''postgresql://'' s \<or> Persian.has_prefix ''postgres://'' s) (zat_least 1 (jget e ''DATABASE_URL'')))
     (zboth (zrefine (\<lambda>s. Persian.has_prefix ''redis://'' s \<or> Persian.has_prefix ''rediss://'' s) (zat_least 1 (jget e ''REDIS_URL'')))
     (zboth (zrefine is_url (zstring (jget e ''MEILI_URL'')))
     (zboth (zat_least 16 (jget e ''MEILI_MASTER_KEY''))
     (zboth (zat_least 32 (jget e ''JWT_SECRET''))
     (zboth (zat_least 32 (jget e ''JWT_REFRESH_SECRET''))
     (zboth (zdefault ''15m'' zstring (jget e ''JWT_EXPIRES_IN''))
     (zboth (zdefault ''30d'' zstring (jget e ''JWT_REFRESH_EXPIRES_IN''))
     (zboth (zat_least 32 (jget e ''OTP_SALT''))
     (zboth (zrefine SUPER_ADMIN_RE (zstring (jget e ''SUPER_ADMIN_PHONE'')))
     (zboth (zdefault ''console'' (znames [''console'', ''smtp'']) (jget e ''EMAIL_PROVIDER''))
     (zboth (zdefault ''console'' (znames [''kavenegar'', ''console'']) (jget e ''SMS_PROVIDER''))
     (zboth (zoptional zstring (jget e ''KAVENEGAR_API_KEY''))
     (zboth (zoptional zstring (jget e ''KAVENEGAR_SENDER_LINE''))
     (zboth (zdefault ''console'' (znames [''zarinpal'', ''console'']) (jget e ''PAYMENT_PROVIDER''))
     (zboth (zoptional zstring (jget e ''ZARINPAL_MERCHANT_ID''))
     (zboth (zdefault True zboolean (jget e ''ZARINPAL_SANDBOX''))
     (zboth (zoptional zstring (jget e ''ZARINPAL_CALLBACK_URL''))
     (zboth (zdefault ''/var/saziqo-platform/files'' zstring (jget e ''FILE_STORAGE_ROOT''))
     (zboth (zdefault 10 zpositive (jget e ''MAX_UPLOAD_SIZE_MB''))
            (zdefault ''http://localhost:3000'' zstring (jget e ''CORS_ALLOWED_ORIGINS'')))))))))))))))))))))))))"

definition env_record :: "string \<times> int \<times> int \<times> string \<times> string \<times> string \<times> string \<times> string \<times> string \<times> string \<times> string \<times> string \<times> string \<times> string \<times> string \<times>
     string option \<times> string option \<times> string \<times> string option \<times> bool \<times> string option \<times> string \<times> int \<times> string \<Rightarrow>
    env_config" where
  "env_record = (\<lambda>(nodeEnv, portApi, portWeb, db, redis, meili, meiliKey, jwt, jwtRefresh, expires, refreshExpires, salt, phone, email, sms,
        apiKey, sender, payment, merchant, sandbox, callback, root1, upload, cors).
     \<lparr>ev_NODE_ENV = nodeEnv, ev_PORT_API = portApi, ev_PORT_WEB = portWeb, ev_DATABASE_URL = db, ev_REDIS_URL = redis,
        ev_MEILI_URL = meili, ev_MEILI_MASTER_KEY = meiliKey, ev_JWT_SECRET = jwt, ev_JWT_REFRESH_SECRET = jwtRefresh,
        ev_JWT_EXPIRES_IN = expires, ev_JWT_REFRESH_EXPIRES_IN = refreshExpires, ev_OTP_SALT = salt, ev_SUPER_ADMIN_PHONE = phone,
        ev_EMAIL_PROVIDER = email, ev_SMS_PROVIDER = sms, ev_KAVENEGAR_API_KEY = apiKey, ev_KAVENEGAR_SENDER_LINE = sender,
        ev_PAYMENT_PROVIDER = payment, ev_ZARINPAL_MERCHANT_ID = merchant, ev_ZARINPAL_SANDBOX = sandbox,
        ev_ZARINPAL_CALLBACK_URL = callback, ev_FILE_STORAGE_ROOT = root1, ev_MAX_UPLOAD_SIZE_MB = upload,
        ev_CORS_ALLOWED_ORIGINS = cors\<rparr>)"

definition envSchema :: "(string \<Rightarrow> bool) \<Rightarrow> json \<Rightarrow> env_config zod" where
  "envSchema is_url = zobject (\<lambda>e. zmap env_record (env_members is_url e))"

text \<open>The lines of the message are left out.\<close>

definition validateEnv :: "(string \<Rightarrow> bool) \<Rightarrow> json \<Rightarrow> exn + env_config" where
  "validateEnv is_url config = (case envSchema is_url config of
       Inl e \<Rightarrow> Inl e
     | Inr None \<Rightarrow> Inl (JsError ''Configuration validation failed'')
     | Inr (Some c) \<Rightarrow> Inr c)"

section \<open>config.service.ts\<close>

definition isDevelopment :: "env_config \<Rightarrow> bool" where
  "isDevelopment c \<longleftrightarrow> ev_NODE_ENV c = ''development''"

definition isProduction :: "env_config \<Rightarrow> bool" where
  "isProduction c \<longleftrightarrow> ev_NODE_ENV c = ''production''"

definition corsAllowedOrigins :: "env_config \<Rightarrow> string list" where
  "corsAllowedOrigins c = filter (\<lambda>s. s \<noteq> []) (map trim (split_on CHR '','' (ev_CORS_ALLOWED_ORIGINS c)))"

section \<open>Middleware\<close>

definition VALID_REQUEST_ID :: "string \<Rightarrow> bool" where
  "VALID_REQUEST_ID s \<longleftrightarrow> 1 \<le> length s \<and> length s \<le> 128 \<and>
     list_all (\<lambda>c. is_digit c \<or> CHR ''a'' \<le> lower_char c \<and> lower_char c \<le> CHR ''z'' \<or> c = CHR ''_'' \<or> c = CHR ''-'') s"

text \<open>The identifier of the request, which is also the response header.\<close>

definition request_id :: "string option \<Rightarrow> string \<Rightarrow> string" where
  "request_id incoming uuid = (case incoming of Some v \<Rightarrow> if VALID_REQUEST_ID v then v else uuid | None \<Rightarrow> uuid)"

definition cors_origin :: "string list \<Rightarrow> string option \<Rightarrow> bool" where
  "cors_origin allowedOrigins origin = (case nonempty origin of None \<Rightarrow> True | Some x \<Rightarrow> x \<in> set allowedOrigins)"

definition ALLOWED_METHODS :: "string list" where
  "ALLOWED_METHODS = [''GET'', ''POST'', ''PUT'', ''PATCH'', ''DELETE'', ''OPTIONS'']"

definition ALLOWED_HEADERS :: "string list" where
  "ALLOWED_HEADERS = [''Content-Type'', ''Authorization'', ''Accept-Language'', ''X-Request-Id'', ''Idempotency-Key'']"

text \<open>What a browser asks before it sends a request to another origin (Fetch standard): the headers
  that need no permission, and the preflight of a request with the given header names in lower
  case.  A value of Accept or Accept-Language as the client sets it needs none.\<close>

definition SAFE_HEADERS :: "string list" where
  "SAFE_HEADERS = [''accept'', ''accept-language'', ''content-language'']"

definition preflight_passes :: "string list \<Rightarrow> string option \<Rightarrow> string \<Rightarrow> (string \<times> string) list \<Rightarrow> bool" where
  "preflight_passes allowedOrigins origin method headers \<longleftrightarrow> cors_origin allowedOrigins origin \<and> method \<in> set ALLOWED_METHODS \<and>
     list_all (\<lambda>(k, v). k \<in> set SAFE_HEADERS \<or> k \<in> set (map (map lower_char) ALLOWED_HEADERS)) headers"

section \<open>health.controller.ts\<close>

text \<open>A ping is answered or refused after some milliseconds, or neither.\<close>

datatype ping = Answered nat | Rejected nat | Silent

definition ping_in_time :: "ping \<Rightarrow> bool" where
  "ping_in_time p = (case p of Answered ms \<Rightarrow> ms < 1000 | _ \<Rightarrow> False)"

definition health_check :: "bool \<Rightarrow> string \<Rightarrow> ping \<Rightarrow> json \<Rightarrow> exn + json" where
  "health_check db redisStatus p uptime =
     (let redis = (redisStatus = ''ready'' \<and> ping_in_time p);
          failed = map fst (filter (\<lambda>(k, ok). \<not> ok) [(''db'', db), (''redis'', redis)]);
          status = (\<lambda>ok. JStr (if ok then ''ok'' else ''failed''))
      in if failed \<noteq> [] then Inl (HttpException 503 (RespObject [(''code'', JStr ''UNHEALTHY''),
              (''message'', JStr ''One or more health checks failed''), (''details'', JObj [(''failed'', JArr (map JStr failed))])]))
         else Inr (JObj [(''status'', JStr ''ok''), (''uptime'', uptime),
              (''checks'', JObj [(''db'', status db), (''redis'', status redis)])]))"

section \<open>upload.interceptor.ts\<close>

text \<open>How multer ends, given the limit in bytes.\<close>

datatype multer_end = Received | LimitFileSize | MulterFailed string | UploadFailed exn

definition upload_limit :: "int option \<Rightarrow> env_config \<Rightarrow> int" where
  "upload_limit override c = (case override of Some n \<Rightarrow> n | None \<Rightarrow> ev_MAX_UPLOAD_SIZE_MB c)"

definition upload_intercept :: "int option \<Rightarrow> env_config \<Rightarrow> (int \<Rightarrow> multer_end) \<Rightarrow> ('s, 'a) M \<Rightarrow> ('s, 'a) M" where
  "upload_intercept override c multer handler = (case multer (upload_limit override c * 1024 * 1024) of
       Received \<Rightarrow> handler
     | LimitFileSize \<Rightarrow> throw (http_exn FILE_TOO_LARGE 413 (''File exceeds the '' @ int_to_string (upload_limit override c) @ '' MB limit''))
     | MulterFailed msg \<Rightarrow> throw (http_exn VALIDATION_ERROR 400 msg)
     | UploadFailed e \<Rightarrow> throw e)"

section \<open>The way of a request\<close>

text \<open>NEXT_PUBLIC_API_BASE_URL of infra/.env.production.template, the path of a URL on that host, and the two
  ways of the proxy: handle_path strips the prefix it matched, handle does not.\<close>

definition PRODUCTION_ORIGIN :: string where
  "PRODUCTION_ORIGIN = ''https://app.saziqo.ir''"

definition PRODUCTION_BASE :: string where
  "PRODUCTION_BASE = PRODUCTION_ORIGIN @ ''/api/v1''"

definition url_path :: "string \<Rightarrow> string" where
  "url_path url = drop (length PRODUCTION_ORIGIN) url"

definition handle_path :: "string \<Rightarrow> string option" where
  "handle_path path = (if Persian.has_prefix ''/api/'' path then Some (drop 4 path) else None)"

definition handle_only :: "string \<Rightarrow> string option" where
  "handle_only path = (if Persian.has_prefix ''/api/'' path then Some path else None)"

text \<open>setGlobalPrefix and the path of a controller.\<close>

definition API_PREFIX :: string where
  "API_PREFIX = ''/api/v1/''"

definition routed_to :: "string \<Rightarrow> string \<Rightarrow> bool" where
  "routed_to controller path \<longleftrightarrow> Persian.has_prefix (API_PREFIX @ controller) path \<and>
     (let r = drop (length (API_PREFIX @ controller)) path in r = [] \<or> hd r = CHR ''/'')"

section \<open>What an accepted environment guarantees\<close>

lemma zboth_parts: "zboth p q = Inr (Some r) \<longleftrightarrow> p = Inr (Some (fst r)) \<and> q = Inr (Some (snd r))"
  by (cases r) (auto simp: zboth_def split: sum.splits option.splits)

lemma zdefault_valid: "zdefault d f v = Inr (Some x) \<longleftrightarrow> (if v = JUndefined then x = d else f v = Inr (Some x))"
  by (auto simp: zdefault_def valid_def)

lemma zboolean_valid: "zboolean v = Inr (Some x) \<longleftrightarrow> x = js_truthy v"
  by (auto simp: zboolean_def valid_def)

lemma znumber_valid: "znumber lo hi v = Inr (Some x) \<Longrightarrow> lo \<le> x \<and> x \<le> hi"
  by (auto simp: znumber_def valid_def invalid_def split: option.splits if_splits)

lemma zpositive_valid: "zpositive v = Inr (Some x) \<Longrightarrow> 1 \<le> x"
  by (auto simp: zpositive_def valid_def invalid_def split: option.splits if_splits)

lemma zat_least_valid: "zat_least lo v = Inr (Some x) \<Longrightarrow> lo \<le> utf16_length x"
  by (simp add: zat_least_def zrefine_valid)

lemma znames_valid: "znames names v = Inr (Some x) \<Longrightarrow> x \<in> set names"
  by (auto simp: znames_def zenum_def valid_def invalid_def split: json.splits option.splits dest!: map_of_SomeD)

lemma super_admin_normal:
  assumes "SUPER_ADMIN_RE s"
  shows "normalizeIranianPhone s = Some s"
proof -
  obtain ds where s: "s = ''+989'' @ ds"
    using assms append_take_drop_id [of "length ''+989''" s] unfolding SUPER_ADMIN_RE_def Persian.has_prefix_def by metis
  then have ds: "list_all is_digit ds" "length ds = 9"
    using assms by (simp_all add: SUPER_ADMIN_RE_def Persian.has_prefix_def all_digits_def)
  have "list_all (\<lambda>c. \<not> phone_noise c) s"
    unfolding s using ds(1)
    by (auto simp: phone_noise_def is_digit_def is_space_def list_all_iff)
  then have "filter (\<lambda>c. \<not> phone_noise c) (trim s) = s" by (rule clean_id)
  then show ?thesis
    using ds by (simp add: normalizeIranianPhone_def) (simp add: s phone_local_def Persian.has_prefix_def ten_digits_def all_digits_def is_digit_def)
qed

lemma env_parts:
  assumes "validateEnv is_url (JObj e) = Inr c"
  shows "zat_least 32 (jget e ''JWT_SECRET'') = Inr (Some (ev_JWT_SECRET c))"
    "zat_least 32 (jget e ''JWT_REFRESH_SECRET'') = Inr (Some (ev_JWT_REFRESH_SECRET c))"
    "zat_least 32 (jget e ''OTP_SALT'') = Inr (Some (ev_OTP_SALT c))"
    "zdefault 3001 (znumber 1 65535) (jget e ''PORT_API'') = Inr (Some (ev_PORT_API c))"
    "zdefault 10 zpositive (jget e ''MAX_UPLOAD_SIZE_MB'') = Inr (Some (ev_MAX_UPLOAD_SIZE_MB c))"
    "SUPER_ADMIN_RE (ev_SUPER_ADMIN_PHONE c)"
    "zdefault ''console'' (znames [''zarinpal'', ''console'']) (jget e ''PAYMENT_PROVIDER'') = Inr (Some (ev_PAYMENT_PROVIDER c))"
    "zdefault True zboolean (jget e ''ZARINPAL_SANDBOX'') = Inr (Some (ev_ZARINPAL_SANDBOX c))"
proof -
  have "zmap env_record (env_members is_url e) = Inr (Some c)"
    using assms by (auto simp: validateEnv_def envSchema_def zobject_def split: sum.splits option.splits)
  then obtain x where x: "env_members is_url e = Inr (Some x)" and c: "env_record x = c"
    unfolding zmap_valid by blast
  note fields = c [symmetric, unfolded env_record_def case_prod_beta]
  note parts = x [unfolded env_members_def zboth_parts zrefine_valid]
  from parts show "zat_least 32 (jget e ''JWT_SECRET'') = Inr (Some (ev_JWT_SECRET c))"
    "zat_least 32 (jget e ''JWT_REFRESH_SECRET'') = Inr (Some (ev_JWT_REFRESH_SECRET c))"
    "zat_least 32 (jget e ''OTP_SALT'') = Inr (Some (ev_OTP_SALT c))"
    "zdefault 3001 (znumber 1 65535) (jget e ''PORT_API'') = Inr (Some (ev_PORT_API c))"
    "zdefault 10 zpositive (jget e ''MAX_UPLOAD_SIZE_MB'') = Inr (Some (ev_MAX_UPLOAD_SIZE_MB c))"
    "SUPER_ADMIN_RE (ev_SUPER_ADMIN_PHONE c)"
    "zdefault ''console'' (znames [''zarinpal'', ''console'']) (jget e ''PAYMENT_PROVIDER'') = Inr (Some (ev_PAYMENT_PROVIDER c))"
    "zdefault True zboolean (jget e ''ZARINPAL_SANDBOX'') = Inr (Some (ev_ZARINPAL_SANDBOX c))"
    unfolding fields env_config.select_convs by blast+
qed

text \<open>C39. An environment that validateEnv accepts has secrets of at least 32 characters, a port the
  server can listen on, a positive upload limit, a super-admin number in the normal form under which
  its owner will sign in, and a payment provider that the factory knows.  The sandbox switch is not
  what it says: any text but the empty one, ''false'' included, reads as true.\<close>

theorem accepted_environment:
  assumes "validateEnv is_url (JObj e) = Inr c"
  shows "32 \<le> utf16_length (ev_JWT_SECRET c) \<and> 32 \<le> utf16_length (ev_JWT_REFRESH_SECRET c) \<and> 32 \<le> utf16_length (ev_OTP_SALT c) \<and>
    ev_PORT_API c \<in> {1..65535} \<and> 1 \<le> ev_MAX_UPLOAD_SIZE_MB c \<and>
    normalizeIranianPhone (ev_SUPER_ADMIN_PHONE c) = Some (ev_SUPER_ADMIN_PHONE c) \<and>
    chosen_provider (ev_PAYMENT_PROVIDER c) console zarinpal \<in> {Inr console, Inr zarinpal} \<and>
    (jget e ''ZARINPAL_SANDBOX'' = JStr t \<longrightarrow> ev_ZARINPAL_SANDBOX c = (t \<noteq> []))"
proof -
  note parts = env_parts [OF assms]
  have "ev_PORT_API c \<in> {1..65535}"
    using parts(4) by (auto simp: zdefault_valid dest!: znumber_valid split: if_splits)
  moreover have "1 \<le> ev_MAX_UPLOAD_SIZE_MB c"
    using parts(5) by (auto simp: zdefault_valid dest!: zpositive_valid split: if_splits)
  moreover have "chosen_provider (ev_PAYMENT_PROVIDER c) console zarinpal \<in> {Inr console, Inr zarinpal}"
    using parts(7) by (auto simp: zdefault_valid chosen_provider_def dest!: znames_valid split: if_splits)
  moreover have "jget e ''ZARINPAL_SANDBOX'' = JStr t \<Longrightarrow> ev_ZARINPAL_SANDBOX c = (t \<noteq> [])"
    using parts(8) by (simp add: zdefault_valid zboolean_valid js_truthy_def)
  ultimately show ?thesis
    using parts(1-3) [THEN zat_least_valid] super_admin_normal [OF parts(6)] by blast
qed

definition sample_env :: "(string \<times> json) list" where
  "sample_env = [(''DATABASE_URL'', JStr ''postgres://db''), (''REDIS_URL'', JStr ''redis://cache''), (''MEILI_URL'', JStr ''http://meili''),
     (''MEILI_MASTER_KEY'', JStr (replicate 16 CHR ''m'')), (''JWT_SECRET'', JStr (replicate 32 CHR ''j'')),
     (''JWT_REFRESH_SECRET'', JStr (replicate 32 CHR ''r'')), (''OTP_SALT'', JStr (replicate 32 CHR ''o'')),
     (''SUPER_ADMIN_PHONE'', JStr ''+989120000000''), (''PORT_API'', JStr ''8080''), (''ZARINPAL_SANDBOX'', JStr ''false'')]"

lemma sample_env_accepted:
  "case validateEnv (\<lambda>_. True) (JObj sample_env) of Inr c \<Rightarrow> ev_ZARINPAL_SANDBOX c \<and> ev_PORT_API c = 8080 | Inl _ \<Rightarrow> False"
  by code_simp

lemma accepted_environment_witness:
  "\<exists>c. validateEnv (\<lambda>_. True) (JObj sample_env) = Inr c \<and> ev_ZARINPAL_SANDBOX c \<and>
    normalizeIranianPhone (ev_SUPER_ADMIN_PHONE c) = Some (ev_SUPER_ADMIN_PHONE c)"
proof -
  obtain c where c: "validateEnv (\<lambda>_. True) (JObj sample_env) = Inr c" "ev_ZARINPAL_SANDBOX c"
    using sample_env_accepted by (auto split: sum.splits)
  then show ?thesis using accepted_environment [OF c(1)] by blast
qed

section \<open>Identifiers, probes and uploads\<close>

text \<open>Neither a client nor the server can put a line break into the identifier that is logged.\<close>

lemma request_id_safe:
  assumes "VALID_REQUEST_ID uuid"
  shows "VALID_REQUEST_ID (request_id incoming uuid) \<and> CHR 0x0A \<notin> set (request_id incoming uuid)"
proof -
  have "CHR 0x0A \<notin> set s" if "VALID_REQUEST_ID s" for s
    using that by (auto simp: VALID_REQUEST_ID_def list_all_iff is_digit_def lower_char_def)
  then show ?thesis using assms by (simp add: request_id_def split: option.split)
qed

text \<open>The probe succeeds only if both checks do, and names the failed ones otherwise.\<close>

lemma health_outcome:
  "(\<exists>v. health_check db redisStatus p uptime = Inr v) \<longleftrightarrow> db \<and> redisStatus = ''ready'' \<and> (\<exists>ms < 1000. p = Answered ms)"
  "health_check False redisStatus Silent uptime = Inl (HttpException 503 (RespObject [(''code'', JStr ''UNHEALTHY''),
     (''message'', JStr ''One or more health checks failed''), (''details'', JObj [(''failed'', JArr [JStr ''db'', JStr ''redis''])])]))"
  by (auto simp: health_check_def ping_in_time_def Let_def split: ping.splits)

text \<open>A body over the limit never reaches the handler.\<close>

lemma oversized_upload_refused:
  "multer (upload_limit override c * 1024 * 1024) \<noteq> Received \<Longrightarrow> \<exists>e. upload_intercept override c multer handler s = (Inl e, s)"
  by (auto simp: upload_intercept_def throw_def split: multer_end.split)

section \<open>Calls from another origin\<close>

lemma lower_names:
  "map lower_char ''X-Request-Id'' = ''x-request-id''" "map lower_char ''Accept-Language'' = ''accept-language''"
  "map lower_char ''Accept'' = ''accept''" "map lower_char ''Content-Type'' = ''content-type''"
  "map lower_char ''Authorization'' = ''authorization''" "map lower_char ''Idempotency-Key'' = ''idempotency-key''"
  "map lower_char ''X-Admin-Confirm'' = ''x-admin-confirm''"
  by code_simp+

lemma lower_allowed:
  "map (map lower_char) ALLOWED_HEADERS =
     [''content-type'', ''authorization'', ''accept-language'', ''x-request-id'', ''idempotency-key'']"
  by code_simp

definition known_header :: "string \<times> string \<Rightarrow> bool" where
  "known_header h \<longleftrightarrow> fst h \<in> {''x-request-id'', ''accept-language'', ''accept'', ''content-type'', ''authorization'', ''idempotency-key''}"

lemma known_header_set: "list_all known_header hs \<Longrightarrow> known_header (map lower_char k, v) \<Longrightarrow> list_all known_header (header_set k v hs)"
  unfolding header_set_def by (induction hs) auto

lemma known_names:
  "known_header (map lower_char ''X-Request-Id'', v)" "known_header (map lower_char ''Accept-Language'', v)"
  "known_header (map lower_char ''Accept'', v)" "known_header (map lower_char ''Content-Type'', v)"
  "known_header (map lower_char ''Authorization'', v)" "known_header (map lower_char ''Idempotency-Key'', v)"
  by (simp_all add: known_header_def lower_names del: list.map)

lemma known_intros:
  "list_all known_header []"
  "list_all known_header x \<Longrightarrow> list_all known_header y \<Longrightarrow> list_all known_header (if b then x else y)"
  "list_all known_header x \<Longrightarrow> (\<And>t. list_all known_header (f t)) \<Longrightarrow> list_all known_header (case z of None \<Rightarrow> x | Some t \<Rightarrow> f t)"
  by (auto split: option.split)

lemma plain_headers:
  assumes "ro_headers opts = []"
  shows "list_all known_header (buildHeaders uuid token body opts)"
  unfolding buildHeaders_def Let_def assms foldl.simps
  by (intro known_intros known_header_set known_names)

lemma header_set_member: "(map lower_char k, v) \<in> set (header_set k v hs)"
  unfolding header_set_def by (induction hs) auto

lemmas confirm_member = header_set_member [of "''X-Admin-Confirm''" "''true''", unfolded lower_names]

lemma confirm_header_sent:
  assumes "ro_headers opts = []"
  shows "(''x-admin-confirm'', ''true'') \<in> set (buildHeaders uuid token body (adminMutate_options (Some opts)))"
  using assms by (simp add: buildHeaders_def adminMutate_options_def ADMIN_CONFIRM_HEADERS_def confirm_member Let_def del: list.map)

text \<open>From an origin the API allows, the browser lets the plain calls of the client through; a
  call that asks for the confirmation of an administrator carries a header that the policy does not
  allow, and is blocked, whatever its body and token.\<close>

theorem admin_calls_fail_preflight:
  assumes "x \<in> set origins" "x \<noteq> []" "method \<in> {''GET'', ''POST'', ''PATCH'', ''DELETE''}" "ro_headers opts = []"
  shows "preflight_passes origins (Some x) method (buildHeaders uuid token body opts) \<and>
    \<not> preflight_passes origins (Some x) method (buildHeaders uuid token body (adminMutate_options (Some opts)))"
proof -
  have "cors_origin origins (Some x)" using assms(1,2) by (simp add: cors_origin_def nonempty_def)
  moreover have "method \<in> set ALLOWED_METHODS" using assms(3) by (auto simp: ALLOWED_METHODS_def)
  moreover have "list_all (\<lambda>(k, v). k \<in> set SAFE_HEADERS \<or> k \<in> set (map (map lower_char) ALLOWED_HEADERS)) hs"
    if "list_all known_header hs" for hs
    using that unfolding known_header_def SAFE_HEADERS_def lower_allowed by (auto simp: list_all_iff)
  moreover have "\<not> list_all (\<lambda>(k, v). k \<in> set SAFE_HEADERS \<or> k \<in> set (map (map lower_char) ALLOWED_HEADERS)) hs"
    if "(''x-admin-confirm'', ''true'') \<in> set hs" for hs
    using that unfolding SAFE_HEADERS_def lower_allowed list_all_iff by (intro notI) (drule (1) bspec, simp)
  ultimately show ?thesis
    using plain_headers [OF assms(4)] confirm_header_sent [OF assms(4)] by (simp add: preflight_passes_def)
qed

lemma admin_calls_fail_preflight_witness:
  "\<not> preflight_passes [''http://localhost:3000''] (Some ''http://localhost:3000'') ''POST''
     (buildHeaders ''u'' (Some ''t'') JsonBody (adminMutate_options (Some no_options)))"
  using admin_calls_fail_preflight [of "''http://localhost:3000''" "[''http://localhost:3000'']" "''POST''" no_options "''u''" "Some ''t''" JsonBody]
  by (simp add: no_options_def)

section \<open>Calls of the production client\<close>

lemma doubled_prefix:
  assumes "\<not> Persian.has_prefix ''api'' other"
  shows "\<not> routed_to other (''/api/v1/api/'' @ r)"
proof
  assume a: "routed_to other (''/api/v1/api/'' @ r)"
  then have t: "take (length other) (''api/'' @ r) = other"
    and d: "drop (length other) (''api/'' @ r) = [] \<or> hd (drop (length other) (''api/'' @ r)) = CHR ''/''"
    by (simp_all add: routed_to_def Persian.has_prefix_def API_PREFIX_def Let_def)
  have "3 \<le> length other"
  proof (rule ccontr)
    assume "\<not> 3 \<le> length other"
    then have "length other = 0 \<or> length other = 1 \<or> length other = 2" by linarith
    then show False using d by (elim disjE) simp_all
  qed
  then have "take 3 other = ''api''" using arg_cong [OF t, of "take 3"] by (simp add: min_def)
  then show False using assms by (simp add: Persian.has_prefix_def eval_nat_numeral)
qed

lemma stripped_prefix: "\<not> routed_to other (''/v1'' @ r)"
  by (simp add: routed_to_def Persian.has_prefix_def API_PREFIX_def)

text \<open>C40. The client built with the address of the production template asks for every path of the API
  with the prefix twice.  Whether the proxy strips its own part, as the Caddyfile does, or keeps the
  path, as deployment.md suggests, no controller answers (none has a path that starts with api), and
  the request for a new token falls outside the path of its cookie.  With the bare host as address
  the client reaches its controller if and only if the proxy keeps the path.\<close>

theorem production_urls_doubled:
  assumes "\<not> Persian.has_prefix ''api/'' (controller @ tail)" "tail = [] \<or> hd tail = CHR ''/''" "\<not> Persian.has_prefix ''api'' other"
    and "path = CHR ''/'' # controller @ tail" "url = (\<lambda>base. url_path (resolveUrl base path))"
  shows "(\<exists>p. handle_path (url PRODUCTION_BASE) = Some p \<and> \<not> routed_to other p) \<and>
    (\<exists>p. handle_only (url PRODUCTION_BASE) = Some p \<and> \<not> routed_to other p) \<and>
    cookie_header [buildCookie pf raw ttl] ''refresh_token'' (url_path (resolveUrl PRODUCTION_BASE ''/api/v1/auth/refresh'')) = None \<and>
    (\<exists>p. handle_path (url PRODUCTION_ORIGIN) = Some p \<and> \<not> routed_to other p) \<and>
    (\<exists>p. handle_only (url PRODUCTION_ORIGIN) = Some p \<and> routed_to controller p)"
proof -
  have p: "take 7 path \<noteq> ''http://''" "take 8 path \<noteq> ''https://''" "take 5 path \<noteq> ''/api/''" "take 1 path = ''/''"
    using assms(1,4) by (simp_all add: Persian.has_prefix_def eval_nat_numeral)
  have base: "url PRODUCTION_BASE = ''/api/v1/api/v1'' @ path"
    using p by (simp add: assms(5) resolveUrl_def url_path_def PRODUCTION_BASE_def)
  have origin: "url PRODUCTION_ORIGIN = ''/api/v1'' @ path"
    using p by (simp add: assms(5) resolveUrl_def url_path_def)
  have "cookie_header [buildCookie pf raw ttl] ''refresh_token'' (url_path (resolveUrl PRODUCTION_BASE ''/api/v1/auth/refresh'')) = None"
    by (simp add: cookie_header_def buildCookie_def path_match_def resolveUrl_def url_path_def PRODUCTION_BASE_def)
  then show ?thesis
    using doubled_prefix [of other "''v1'' @ path"] assms(2,3)
    by (simp add: base origin handle_path_def handle_only_def Persian.has_prefix_def assms(4) stripped_prefix)
      (auto simp: routed_to_def Persian.has_prefix_def API_PREFIX_def)
qed

lemma production_urls_doubled_witness:
  "(\<exists>p. handle_path (url_path (resolveUrl PRODUCTION_BASE ''/auth/refresh'')) = Some p \<and> \<not> routed_to ''auth'' p) \<and>
   (\<exists>p. handle_only (url_path (resolveUrl PRODUCTION_ORIGIN ''/auth/refresh'')) = Some p \<and> routed_to ''auth'' p)"
  using production_urls_doubled [of "''auth''" "''/refresh''" "''auth''", OF _ _ _ refl refl]
  by (simp add: Persian.has_prefix_def)

end
