(* ===== verification/Spec2Isabelle.thy ===== *)
theory Spec2Isabelle
  imports MoneyAccess ShopAccess WebForms Environment
begin

text \<open>
  A verification development for the saziqo platform: a NestJS API (src/apps/api) over
  PostgreSQL and Redis with wallets, payments, payouts and a marketplace of agents, the shared
  package src/packages/persian-utils, and the session, the sign-in and the profile forms of its
  Next.js client (src/apps/web).

  Conventions.  A method of a service is a computation over the state (theory Effects): it
  returns or throws, and leaves a state either way; prisma's transaction rolls back on a throw.
  The state of the core is the record sys (Schema: one table per model of prisma/schema.prisma,
  the Redis store, the messages handed to the SMS and e-mail providers); the module's state
  agents (Market) extends it, and storage (Files) adds the disk.  Tables are lists of rows with
  the next key (Tables).  bigint and integral numbers are HOL integers, and a BIGINT balance that
  would leave 64 bits throws; a number that a query or a body coerces from text is an exact
  rational; strings are their UTF-8 bytes; dates are milliseconds.  A zod schema is a function that
  throws, reports issues or gives the parsed value (Routes).  Code that is not in the repository is
  an argument: jose, SHA-256, ms, the answers of the payment gateway, the text search of
  PostgreSQL, multer, file-type and mime-types, random values and the time.

  Foundations.
    Prelude, Errors (response.types.ts, all-exceptions.filter.ts, response.interceptor.ts),
    Effects, Tables, Json (JSON.stringify and JSON.parse), Values (JavaScript built-ins),
    Pagination (the cursor pages of every list endpoint), Schema, Redis, Samples.
  Core services (src/apps/api/src/core and common).
    Templates, Notifications: templates and delivery.  Ledger: wallets, credit, debit, transfer
    and their reports.  Payments: initiation, callback, reconciliation, refunds; Gateway: the two
    payment providers behind the interface they use.  Payouts: hold, approve, reject, cancel, pay.
    AuditTrail: redaction, canonical hashes, the audited handler.
    Throttle: rate limits and idempotent requests.  Rbac: permissions and boot.  Sessions, Users,
    Otp, Access (guards, impersonation, route pipeline), SignIn: accounts and signing in.
    Persian: the validators of persian-utils.
    Svg, Files, FileSafety: the upload pipeline, the local store and what they promise.
    Registry: the registry of modules and the boot sequence.
  The agents module (src/apps/api/src/modules/agents).
    Contract (contract.ts, constants.ts), Market (its tables and boot hooks), Listings, Cart,
    Checkout, Runs, Reviews: its services; Sales, Commerce, Marketplace: what holds over any
    sequence of their calls; Catalog, Storefront: the public catalogue; Library: what a buyer
    owns, and the download of a bundle.
  The HTTP surface.
    Routes: decorators, schemas and pages that the controllers share.  MoneyRoutes (payments,
    payouts, wallets, ledger), ShopRoutes (the marketplace), AccountRoutes (users, profiles, roles,
    notifications, audit trail, registry, impersonation): every controller with its decorators,
    each request run through rate limit, guards, interceptors and handler.  Callers, MoneyAccess,
    ShopAccess: whose requests change or see whose money, carts, purchases, reviews and runs.
    Environment: the schema of the environment, CORS, request identifiers, the health probe, the upload
    interceptor, and the way of a request through the proxy.
  The client (src/apps/web/src).
    WebClient: api-client.ts as a state machine of calls with one shared refresh.  Browser: the
    cookie jar and the logout, permission hints, idempotency keys, each against the server.
    WebAuth: the reader of tokens, the session store as a machine over replies in any order, the
    guards of the layouts.  WebForms: the login page, the page of the code and the profile form.

  How the parts interact.  Payments and Payouts use the ledger through the locale ledger_api;
  checkout, consume and reviews run on the core's notifications, whose frame lemmas say what they
  leave alone; Library composes the purchases of checkout with the storage of Files; the routes run
  the services inside the pipeline of Access, and a guarded handler acts for the caller of Callers
  alone; Browser, WebAuth and WebForms run the client's steps against the server's
  handlers and routes, and Environment joins the URLs of the client to the prefix of the server.
  Locales state the interfaces: keyed_store (tables), paged_source (list endpoints), lifecycle
  (statuses), ledger_api, cart_adapter, file_store, payment_provider; each is interpreted on the
  model's definitions in the theory that provides them.

  What the main results say.  Money: over any requests every wallet's balance is the sum of its
  entries and never negative, a payment is credited once, payouts conserve money (books_ok, money);
  only the callback of a payment, a user for himself and an approver of payouts change money, and a
  user's calls neither touch nor show the money of others.  Marketplace: every purchase splits
  exactly, run counters balance, ratings and counters are what the tables say (shop_ok); a checkout
  does everything or nothing; through its routes nobody but a user, or an agent that spends one of
  his runs, changes what he has.  Access: a route with a permission does nothing without it, roles
  change only at the hands of a caller who may moderate users, a refresh token is exchanged once, a
  code can be guessed five times.  Boot: a second one runs no installation, and the permissions of
  the modules reach no seeded role.  Files: nothing outside the root is opened, and allowed
  downloads never miss their bytes.  Client: every call settles after at most three answers, the
  session never loads for ever, what the forms let through the server accepts.  Configuration:
  what an accepted environment guarantees.
  Several theorems show behaviour that a comment or document denies (see the findings of the
  manifest): overlapping requests that both pass their check, a logout that revokes nothing, an
  expired token that the client never renews, an impersonation that the interface hides, production
  URLs that reach no controller, a sanitizer that builds a script element.

  Bounds and fuel.  Loops are structural or have a measure; walk (Pagination) has the number of
  rows plus one as fuel, which catalog_walk_complete and its like prove enough.  The session store
  of the client has three replies per task as its measure (session_settles).

  Not modelled: HTTP transport and the status lines beyond what exceptions carry; the markup,
  tables and dialogs of the React pages; the wiring of NestJS modules, logging; migrations, Docker
  and shell scripts; the design system.
  Approximations: each service call is one step, except where a property splits it (payout checks
  and writes, two additions to a cart, checkout attempts, the interceptor's lookup and write);
  calls detached with void run at the end of their step; sequence values survive only in the
  next key of a table and are given back by a rollback; column lengths are checked where a
  property depends on them; the order of rows that a query leaves open is insertion order; Redis
  and the API read one clock; disk errors other than a missing file do not occur.
\<close>

section \<open>Properties that span components\<close>

text \<open>Requests to the payment and the payout service, served in any order.\<close>

datatype money_op = Pay pay_op | Payout payout_op

definition run_money :: "pay_env \<Rightarrow> money_op \<Rightarrow> 'x sys_scheme \<Rightarrow> 'x sys_scheme" where
  "run_money env op s = (case op of
       Pay o1 \<Rightarrow> snd (run_pay env o1 s)
     | Payout o2 \<Rightarrow> snd (run_payout (pay_base env) o2 s))"

fun serve_money :: "pay_env \<Rightarrow> money_op list \<Rightarrow> 'x sys_scheme \<Rightarrow> 'x sys_scheme" where
  "serve_money env [] s = s"
| "serve_money env (op # ops) s = serve_money env ops (run_money env op s)"

lemma run_money_fine: "fine s \<Longrightarrow> fine (run_money env op s)"
  using keepsD [OF keeps_fine_pay] keepsD [OF keeps_fine_payout]
  by (auto simp: run_money_def split: money_op.split)

text \<open>C1. The money of the whole system is explained: after any interleaving of complete payment
  and payout requests, every wallet's balance is non-negative and the signed sum of its ledger
  entries, no payment is credited twice, refunds stay within their payments, and every payout
  has a positive amount.\<close>

theorem system_money_invariant:
  assumes "fine s"
  shows "books_ok (serve_money env ops s) \<and>
    (\<forall>i. length (credits_for i (ledger_entries (serve_money env ops s))) \<le> 1) \<and>
    refunds_ok (payments (serve_money env ops s)) (refunds (serve_money env ops s)) \<and>
    payouts_ok (serve_money env ops s)"
proof -
  have "fine (serve_money env ops s)"
    using assms by (induction ops arbitrary: s) (auto dest: run_money_fine)
  moreover have "length (credits_for i L) \<le> 1" if "credits_ok P L" for i P L
  proof -
    from that have "credits_for i L = [] \<or> (\<exists>e. credits_for i L = [e])"
      unfolding credits_ok_def by blast
    then show ?thesis by auto
  qed
  ultimately show ?thesis unfolding fine_def pay_ok_def by blast
qed

lemma system_money_invariant_witness:
  "books_ok (serve_money sample_pay_env [Pay (PCallback 2 ''A2'' P_OK), Payout (PoCancel 1 1),
     Pay (PRefund (sample_refund None))] sample_sys)"
  using system_money_invariant [OF fine_sample] by blast

end
